(* ===== verification/Viosnd_Prelude.thy ===== *)
theory Viosnd_Prelude
  imports Main "HOL-Library.Word" "HOL-Library.Monad_Syntax" "HOL-Library.Multiset"
begin

unbundle bit_operations_syntax

text \<open>
  Shared vocabulary of the development: the C integer types as words, NTSTATUS values,
  little-endian byte images of the structures that travel to the device, bounds-checked
  access to byte buffers, and the lemmas on lists, words and multisets the components use.

  Conventions used by every theory.
  \<^item> A C function is a HOL function over explicit state. A function that can hit undefined
    behaviour (a NULL or freed pointer, an out-of-range index, a division by zero) or that can
    fail to return has type \<open>\<dots> \<Rightarrow> ('r \<times> 'state) option\<close>: \<open>None\<close> is exactly that outcome, and
    NTSTATUS results are values.  A theorem \<open>\<exists>r. f x = Some r\<close> therefore states memory safety
    and termination of the call.
  \<^item> Calls into the Windows kernel are arguments of the model (see theory \<open>Snd_Device\<close>).
  \<^item> Logging (\<open>VIOSND_LOG\<close>) has no effect on the state and is not modelled.
\<close>

named_theorems viosnd_simps \<open>unfolding rules for the small operations of the model\<close>

section \<open>Machine types\<close>

type_synonym u8 = "8 word"
type_synonym u16 = "16 word"
type_synonym u32 = "32 word"
type_synonym u64 = "64 word"
type_synonym ptr = "64 word"
type_synonym NTSTATUS = "32 word"

abbreviation (input) MAXULONG :: u32 where "MAXULONG \<equiv> 0xFFFFFFFF"
abbreviation (input) PAGE_SIZE :: u32 where "PAGE_SIZE \<equiv> 4096"

definition ROUND_TO_PAGES :: "u64 \<Rightarrow> u64" where
  "ROUND_TO_PAGES n = (n + 0xFFF) AND NOT 0xFFF"

section \<open>NTSTATUS\<close>

abbreviation (input) STATUS_SUCCESS :: NTSTATUS where "STATUS_SUCCESS \<equiv> 0"
abbreviation (input) STATUS_TIMEOUT :: NTSTATUS where "STATUS_TIMEOUT \<equiv> 0x00000102"
abbreviation (input) STATUS_PENDING :: NTSTATUS where "STATUS_PENDING \<equiv> 0x00000103"
abbreviation (input) STATUS_BUFFER_OVERFLOW :: NTSTATUS where "STATUS_BUFFER_OVERFLOW \<equiv> 0x80000005"
abbreviation (input) STATUS_DEVICE_BUSY :: NTSTATUS where "STATUS_DEVICE_BUSY \<equiv> 0x80000011"
abbreviation (input) STATUS_NOT_IMPLEMENTED :: NTSTATUS where "STATUS_NOT_IMPLEMENTED \<equiv> 0xC0000002"
abbreviation (input) STATUS_INVALID_PARAMETER :: NTSTATUS where "STATUS_INVALID_PARAMETER \<equiv> 0xC000000D"
abbreviation (input) STATUS_NO_SUCH_DEVICE :: NTSTATUS where "STATUS_NO_SUCH_DEVICE \<equiv> 0xC000000E"
abbreviation (input) STATUS_INVALID_DEVICE_REQUEST :: NTSTATUS where
  "STATUS_INVALID_DEVICE_REQUEST \<equiv> 0xC0000010"
abbreviation (input) STATUS_BUFFER_TOO_SMALL :: NTSTATUS where "STATUS_BUFFER_TOO_SMALL \<equiv> 0xC0000023"
abbreviation (input) STATUS_INSUFFICIENT_RESOURCES :: NTSTATUS where
  "STATUS_INSUFFICIENT_RESOURCES \<equiv> 0xC000009A"
abbreviation (input) STATUS_DEVICE_NOT_READY :: NTSTATUS where "STATUS_DEVICE_NOT_READY \<equiv> 0xC00000A3"
abbreviation (input) STATUS_IO_TIMEOUT :: NTSTATUS where "STATUS_IO_TIMEOUT \<equiv> 0xC00000B5"
abbreviation (input) STATUS_NOT_SUPPORTED :: NTSTATUS where "STATUS_NOT_SUPPORTED \<equiv> 0xC00000BB"
abbreviation (input) STATUS_DEVICE_CONFIGURATION_ERROR :: NTSTATUS where
  "STATUS_DEVICE_CONFIGURATION_ERROR \<equiv> 0xC0000182"
abbreviation (input) STATUS_IO_DEVICE_ERROR :: NTSTATUS where "STATUS_IO_DEVICE_ERROR \<equiv> 0xC0000185"
abbreviation (input) STATUS_INVALID_BUFFER_SIZE :: NTSTATUS where
  "STATUS_INVALID_BUFFER_SIZE \<equiv> 0xC0000206"
abbreviation (input) STATUS_NOT_FOUND :: NTSTATUS where "STATUS_NOT_FOUND \<equiv> 0xC0000225"
abbreviation (input) STATUS_DEVICE_NOT_CONNECTED :: NTSTATUS where
  "STATUS_DEVICE_NOT_CONNECTED \<equiv> 0xC000009D"
abbreviation (input) STATUS_NO_MATCH :: NTSTATUS where "STATUS_NO_MATCH \<equiv> 0xC0000272"

text \<open>\<open>NT_SUCCESS(s)\<close> is \<open>(LONG)s >= 0\<close>.\<close>

definition NT_SUCCESS :: "NTSTATUS \<Rightarrow> bool" where
  "NT_SUCCESS s \<longleftrightarrow> 0 \<le> sint s"

lemma NT_SUCCESS_numeral [simp]:
  "NT_SUCCESS 0" "NT_SUCCESS (numeral w) \<longleftrightarrow> 0 \<le> sint (numeral w :: NTSTATUS)"
  by (simp_all add: NT_SUCCESS_def)

lemma NT_SUCCESS_not_error: "NT_SUCCESS s \<Longrightarrow> s \<noteq> STATUS_NOT_FOUND"
  by auto

section \<open>Byte images\<close>

definition le_bytes32 :: "u32 \<Rightarrow> u8 list" where
  "le_bytes32 w = [ucast w, ucast (drop_bit 8 w), ucast (drop_bit 16 w), ucast (drop_bit 24 w)]"

definition le_bytes16 :: "u16 \<Rightarrow> u8 list" where
  "le_bytes16 w = [ucast w, ucast (drop_bit 8 w)]"

definition le_word16 :: "u8 list \<Rightarrow> u16" where
  "le_word16 bs = ucast (bs ! 0) OR push_bit 8 (ucast (bs ! 1))"

definition le_word32 :: "u8 list \<Rightarrow> u32" where
  "le_word32 bs = ucast (bs ! 0) OR push_bit 8 (ucast (bs ! 1)) OR
     push_bit 16 (ucast (bs ! 2)) OR push_bit 24 (ucast (bs ! 3))"

definition le_word64 :: "u8 list \<Rightarrow> u64" where
  "le_word64 bs = ucast (le_word32 (take 4 bs)) OR push_bit 32 (ucast (le_word32 (drop 4 bs)))"

definition le_bytes64 :: "u64 \<Rightarrow> u8 list" where
  "le_bytes64 w = le_bytes32 (ucast w) @ le_bytes32 (ucast (drop_bit 32 w))"

lemma length_le_bytes32 [simp]: "length (le_bytes32 w) = 4"
  by (simp add: le_bytes32_def)

lemma length_le_bytes64 [simp]: "length (le_bytes64 w) = 8"
  by (simp add: le_bytes64_def)

lemma le_word32_bytes [simp]: "le_word32 (le_bytes32 w @ xs) = w"
proof (rule bit_word_eqI)
  fix n assume "n < LENGTH(32)"
  then consider "n < 8" | "8 \<le> n" "n < 16" | "16 \<le> n" "n < 24" | "24 \<le> n" "n < 32"
    by (auto simp: not_less) linarith
  then show "bit (le_word32 (le_bytes32 w @ xs)) n = bit w n"
    by cases (auto simp: le_word32_def le_bytes32_def bit_simps)
qed

lemma le_word32_bytes' [simp]: "le_word32 (le_bytes32 w) = w"
  using le_word32_bytes [of w "[]"] by simp

lemma le_word64_bytes [simp]: "le_word64 (le_bytes64 w @ xs) = w"
proof -
  have "le_word64 (le_bytes64 w @ xs) =
      ucast (ucast w :: u32) OR push_bit 32 (ucast (ucast (drop_bit 32 w) :: u32))"
    by (simp add: le_word64_def le_bytes64_def)
  also have "\<dots> = w"
    by (rule bit_word_eqI) (auto simp: bit_simps)
  finally show ?thesis .
qed

lemma le_word32_replicate0 [simp]: "4 \<le> n \<Longrightarrow> le_word32 (replicate n 0) = 0"
  by (simp add: le_word32_def)

section \<open>Bounds-checked buffers\<close>

definition read_at :: "'a list \<Rightarrow> nat \<Rightarrow> 'a option" where
  "read_at xs i = (if i < length xs then Some (xs ! i) else None)"

definition write_at :: "'a list \<Rightarrow> nat \<Rightarrow> 'a \<Rightarrow> 'a list option" where
  "write_at xs i x = (if i < length xs then Some (xs[i := x]) else None)"

definition read_bytes :: "nat \<Rightarrow> nat \<Rightarrow> u8 list \<Rightarrow> u8 list option" where
  "read_bytes off n buf = (if off + n \<le> length buf then Some (take n (drop off buf)) else None)"

definition write_bytes :: "nat \<Rightarrow> u8 list \<Rightarrow> u8 list \<Rightarrow> u8 list option" where
  "write_bytes off bs buf =
     (if off + length bs \<le> length buf
      then Some (take off buf @ bs @ drop (off + length bs) buf) else None)"

definition zero_bytes :: "nat \<Rightarrow> nat \<Rightarrow> u8 list \<Rightarrow> u8 list option" where
  "zero_bytes off n buf = write_bytes off (replicate n 0) buf"

lemma write_bytes_length: "write_bytes off bs buf = Some buf' \<Longrightarrow> length buf' = length buf"
  by (auto simp: write_bytes_def split: if_splits)

lemma write_bytes_Some_iff:
  "(\<exists>buf'. write_bytes off bs buf = Some buf') \<longleftrightarrow> off + length bs \<le> length buf"
  by (simp add: write_bytes_def)

lemma read_write_bytes:
  "write_bytes off bs buf = Some buf' \<Longrightarrow> read_bytes off (length bs) buf' = Some bs"
  by (auto simp: write_bytes_def read_bytes_def split: if_splits)

lemma zero_bytes_length: "zero_bytes off n buf = Some buf' \<Longrightarrow> length buf' = length buf"
  by (auto simp: zero_bytes_def dest: write_bytes_length)

lemma read_bytes_length: "read_bytes off n buf = Some bs \<Longrightarrow> length bs = n"
  by (auto simp: read_bytes_def split: if_splits)

section \<open>Word arithmetic\<close>

lemma unat_word_of_nat_le:
  assumes "n \<le> unat (w :: 'a::len word)"
  shows "unat (word_of_nat n :: 'a word) = n"
proof -
  have "unat w < 2 ^ LENGTH('a)" by (rule unsigned_less)
  with assms have "n < 2 ^ LENGTH('a)" by (rule order_le_less_trans)
  then show ?thesis unfolding unat_of_nat by (rule mod_less)
qed

lemma unat_sub_of_nat:
  "n \<le> unat (w :: 'a::len word) \<Longrightarrow> unat (w - word_of_nat n) = unat w - n"
proof -
  assume n: "n \<le> unat w"
  have "w - word_of_nat n = word_of_nat (unat w - n)" using n by (simp add: of_nat_diff)
  then show ?thesis using unat_word_of_nat_le [of "unat w - n" w] by simp
qed

lemma unat_add_of_nat:
  assumes "unat (w :: 'a::len word) + n < 2 ^ LENGTH('a)"
  shows "unat (w + word_of_nat n) = unat w + n"
proof -
  have "w + word_of_nat n = word_of_nat (unat w + n)" by simp
  then have "unat (w + word_of_nat n) = (unat w + n) mod 2 ^ LENGTH('a)" by (metis unat_of_nat)
  with assms show ?thesis by simp
qed

lemma unat_sub_ge: "(b :: 'a::len word) \<le> a \<Longrightarrow> unat (a - b) = unat a - unat b"
  using unat_sub_of_nat [of "unat b" a] by (simp add: word_le_nat_alt)

section \<open>Searching a list\<close>

fun first_index :: "('a \<Rightarrow> bool) \<Rightarrow> 'a list \<Rightarrow> nat option" where
  "first_index P [] = None"
| "first_index P (x # xs) = (if P x then Some 0 else map_option Suc (first_index P xs))"

lemma first_index_SomeD:
  "first_index P xs = Some i \<Longrightarrow> i < length xs \<and> P (xs ! i) \<and> (\<forall>j<i. \<not> P (xs ! j))"
  by (induction xs arbitrary: i)
     (auto split: if_splits simp: nth_Cons' dest: diff_less_mono[rotated] )

lemma first_index_None_iff: "first_index P xs = None \<longleftrightarrow> (\<forall>x \<in> set xs. \<not> P x)"
  by (induction xs) auto

definition orelse :: "'a option \<Rightarrow> 'a option \<Rightarrow> 'a option" where
  "orelse x y = (case x of None \<Rightarrow> y | Some _ \<Rightarrow> x)"

lemma orelse_simps [simp]: "orelse None y = y" "orelse (Some a) y = Some a" "orelse x None = x"
  by (auto simp: orelse_def split: option.splits)

lemma nth_list_update_lt: "j < length xs \<Longrightarrow> xs[i := x] ! j = (if i = j then x else xs ! j)"
  by auto

lemma distinct_mset_subset:
  assumes "distinct xs" "set xs \<subseteq> set ys" shows "mset xs \<subseteq># mset ys"
proof -
  have "mset_set (set xs) \<subseteq># mset_set (set ys)"
    using assms(2) by (simp add: subset_imp_msubset_mset_set)
  also have "\<dots> \<subseteq># mset ys" using mset_set_set_mset_msubset [of "mset ys"] by simp
  finally show ?thesis using assms(1) by (simp add: mset_set_set)
qed

lemma not_image_neq: "f x \<notin> f ` A \<Longrightarrow> y \<in> A \<Longrightarrow> f y \<noteq> f x"
  by (metis imageI)

end
