(* ===== verification/Pcm_Format.thy ===== *)
theory Pcm_Format
  imports Viosnd_Prelude
begin

text \<open>
  The wire structures of the virtio sound device (\<open>viosnd/sys/VirtioSnd.h\<close>), the PCM format
  helpers and the selection of the render and capture streams (\<open>viosnd/sys/ViosndPcm.h\<close>,
  \<open>viosnd/sys/ViosndPcm.cpp\<close>).  A structure is a record; its memory image, which is what the
  device reads and writes, is the little-endian byte list of its \<open>bytes_of_\<dots>\<close> function.
  Main results: the request and response images round-trip, and \<open>ViosndFindStreamPair\<close>
  returns the streams of the search specification \<open>stream_pair_spec\<close>.
\<close>

section \<open>Constants of VirtioSnd.h\<close>

datatype vq_index = VIRTIO_SND_VQ_CONTROL | VIRTIO_SND_VQ_EVENT | VIRTIO_SND_VQ_TX | VIRTIO_SND_VQ_RX

abbreviation (input) VIRTIO_SND_D_OUTPUT :: u8 where "VIRTIO_SND_D_OUTPUT \<equiv> 0"
abbreviation (input) VIRTIO_SND_D_INPUT :: u8 where "VIRTIO_SND_D_INPUT \<equiv> 1"

abbreviation (input) VIRTIO_SND_R_PCM_INFO :: u32 where "VIRTIO_SND_R_PCM_INFO \<equiv> 0x0100"
abbreviation (input) VIRTIO_SND_R_PCM_SET_PARAMS :: u32 where "VIRTIO_SND_R_PCM_SET_PARAMS \<equiv> 0x0101"
abbreviation (input) VIRTIO_SND_R_PCM_PREPARE :: u32 where "VIRTIO_SND_R_PCM_PREPARE \<equiv> 0x0102"
abbreviation (input) VIRTIO_SND_R_PCM_RELEASE :: u32 where "VIRTIO_SND_R_PCM_RELEASE \<equiv> 0x0103"
abbreviation (input) VIRTIO_SND_R_PCM_START :: u32 where "VIRTIO_SND_R_PCM_START \<equiv> 0x0104"
abbreviation (input) VIRTIO_SND_R_PCM_STOP :: u32 where "VIRTIO_SND_R_PCM_STOP \<equiv> 0x0105"
abbreviation (input) VIRTIO_SND_EVT_PCM_PERIOD_ELAPSED :: u32 where
  "VIRTIO_SND_EVT_PCM_PERIOD_ELAPSED \<equiv> 0x1100"
abbreviation (input) VIRTIO_SND_EVT_PCM_XRUN :: u32 where "VIRTIO_SND_EVT_PCM_XRUN \<equiv> 0x1101"
abbreviation (input) VIRTIO_SND_S_OK :: u32 where "VIRTIO_SND_S_OK \<equiv> 0x8000"
abbreviation (input) VIRTIO_SND_S_BAD_MSG :: u32 where "VIRTIO_SND_S_BAD_MSG \<equiv> 0x8001"
abbreviation (input) VIRTIO_SND_S_NOT_SUPP :: u32 where "VIRTIO_SND_S_NOT_SUPP \<equiv> 0x8002"
abbreviation (input) VIRTIO_SND_S_IO_ERR :: u32 where "VIRTIO_SND_S_IO_ERR \<equiv> 0x8003"

abbreviation (input) VIRTIO_SND_PCM_FMT_S16 :: u8 where "VIRTIO_SND_PCM_FMT_S16 \<equiv> 5"
abbreviation (input) VIRTIO_SND_PCM_RATE_16000 :: u8 where "VIRTIO_SND_PCM_RATE_16000 \<equiv> 3"
abbreviation (input) VIRTIO_SND_PCM_RATE_44100 :: u8 where "VIRTIO_SND_PCM_RATE_44100 \<equiv> 6"
abbreviation (input) VIRTIO_SND_PCM_RATE_48000 :: u8 where "VIRTIO_SND_PCM_RATE_48000 \<equiv> 7"

section \<open>Structures of VirtioSnd.h\<close>

record VIRTIO_SND_CONFIG =
  cfg_jacks :: u32
  cfg_streams :: u32
  cfg_chmaps :: u32
  cfg_controls :: u32

record VIRTIO_SND_EVENT =
  ev_code :: u32
  ev_data :: u32

record VIRTIO_SND_QUERY_INFO =
  qi_code :: u32
  qi_start_id :: u32
  qi_count :: u32
  qi_size :: u32

record VIRTIO_SND_PCM_HDR =
  ph_code :: u32
  ph_stream_id :: u32

record VIRTIO_SND_PCM_INFO =
  pi_hda_fn_nid :: u32
  pi_features :: u32
  pi_formats :: u64
  pi_rates :: u64
  pi_direction :: u8
  pi_channels_min :: u8
  pi_channels_max :: u8

record VIRTIO_SND_PCM_SET_PARAMS =
  sp_code :: u32
  sp_stream_id :: u32
  sp_buffer_bytes :: u32
  sp_period_bytes :: u32
  sp_features :: u32
  sp_channels :: u8
  sp_format :: u8
  sp_rate :: u8
  sp_padding :: u8

record VIRTIO_SND_PCM_STATUS =
  ps_status :: u32
  ps_latency_bytes :: u32

text \<open>Sizes of the structures (\<open>sizeof\<close>, the compiler adds no padding to any of them).\<close>

abbreviation (input) sizeof_HDR :: nat where "sizeof_HDR \<equiv> 4"
abbreviation (input) sizeof_EVENT :: nat where "sizeof_EVENT \<equiv> 8"
abbreviation (input) sizeof_CONFIG :: nat where "sizeof_CONFIG \<equiv> 16"
abbreviation (input) sizeof_PCM_XFER :: nat where "sizeof_PCM_XFER \<equiv> 4"
abbreviation (input) sizeof_PCM_STATUS :: nat where "sizeof_PCM_STATUS \<equiv> 8"
abbreviation (input) sizeof_PCM_INFO :: nat where "sizeof_PCM_INFO \<equiv> 32"

section \<open>Memory images\<close>

definition bytes_of_CONFIG :: "VIRTIO_SND_CONFIG \<Rightarrow> u8 list" where
  "bytes_of_CONFIG c = le_bytes32 (cfg_jacks c) @ le_bytes32 (cfg_streams c) @
     le_bytes32 (cfg_chmaps c) @ le_bytes32 (cfg_controls c)"

definition bytes_of_QUERY_INFO :: "VIRTIO_SND_QUERY_INFO \<Rightarrow> u8 list" where
  "bytes_of_QUERY_INFO q = le_bytes32 (qi_code q) @ le_bytes32 (qi_start_id q) @
     le_bytes32 (qi_count q) @ le_bytes32 (qi_size q)"

definition bytes_of_PCM_HDR :: "VIRTIO_SND_PCM_HDR \<Rightarrow> u8 list" where
  "bytes_of_PCM_HDR h = le_bytes32 (ph_code h) @ le_bytes32 (ph_stream_id h)"

definition bytes_of_SET_PARAMS :: "VIRTIO_SND_PCM_SET_PARAMS \<Rightarrow> u8 list" where
  "bytes_of_SET_PARAMS p = le_bytes32 (sp_code p) @ le_bytes32 (sp_stream_id p) @
     le_bytes32 (sp_buffer_bytes p) @ le_bytes32 (sp_period_bytes p) @
     le_bytes32 (sp_features p) @ [sp_channels p, sp_format p, sp_rate p, sp_padding p]"

definition bytes_of_EVENT :: "VIRTIO_SND_EVENT \<Rightarrow> u8 list" where
  "bytes_of_EVENT e = le_bytes32 (ev_code e) @ le_bytes32 (ev_data e)"

definition bytes_of_PCM_STATUS :: "VIRTIO_SND_PCM_STATUS \<Rightarrow> u8 list" where
  "bytes_of_PCM_STATUS s = le_bytes32 (ps_status s) @ le_bytes32 (ps_latency_bytes s)"

definition bytes_of_PCM_INFO :: "VIRTIO_SND_PCM_INFO \<Rightarrow> u8 list" where
  "bytes_of_PCM_INFO i = le_bytes32 (pi_hda_fn_nid i) @ le_bytes32 (pi_features i) @
     le_bytes64 (pi_formats i) @ le_bytes64 (pi_rates i) @
     [pi_direction i, pi_channels_min i, pi_channels_max i] @ replicate 5 0"

text \<open>Reading a structure out of memory; the callers have checked that the bytes are there.\<close>

definition config_of_bytes :: "u8 list \<Rightarrow> VIRTIO_SND_CONFIG" where
  "config_of_bytes bs = \<lparr>cfg_jacks = le_word32 bs, cfg_streams = le_word32 (drop 4 bs),
     cfg_chmaps = le_word32 (drop 8 bs), cfg_controls = le_word32 (drop 12 bs)\<rparr>"

definition event_of_bytes :: "u8 list \<Rightarrow> VIRTIO_SND_EVENT" where
  "event_of_bytes bs = \<lparr>ev_code = le_word32 bs, ev_data = le_word32 (drop 4 bs)\<rparr>"

definition pcm_status_of_bytes :: "u8 list \<Rightarrow> VIRTIO_SND_PCM_STATUS" where
  "pcm_status_of_bytes bs = \<lparr>ps_status = le_word32 bs, ps_latency_bytes = le_word32 (drop 4 bs)\<rparr>"

definition set_params_of_bytes :: "u8 list \<Rightarrow> VIRTIO_SND_PCM_SET_PARAMS" where
  "set_params_of_bytes bs = \<lparr>sp_code = le_word32 bs, sp_stream_id = le_word32 (drop 4 bs),
     sp_buffer_bytes = le_word32 (drop 8 bs), sp_period_bytes = le_word32 (drop 12 bs),
     sp_features = le_word32 (drop 16 bs), sp_channels = bs ! 20, sp_format = bs ! 21,
     sp_rate = bs ! 22, sp_padding = bs ! 23\<rparr>"

definition pcm_info_of_bytes :: "u8 list \<Rightarrow> VIRTIO_SND_PCM_INFO" where
  "pcm_info_of_bytes bs = \<lparr>pi_hda_fn_nid = le_word32 bs, pi_features = le_word32 (drop 4 bs),
     pi_formats = le_word64 (drop 8 bs), pi_rates = le_word64 (drop 16 bs),
     pi_direction = bs ! 24, pi_channels_min = bs ! 25, pi_channels_max = bs ! 26\<rparr>"

fun pcm_infos_of_bytes :: "nat \<Rightarrow> u8 list \<Rightarrow> VIRTIO_SND_PCM_INFO list" where
  "pcm_infos_of_bytes 0 bs = []"
| "pcm_infos_of_bytes (Suc n) bs =
     pcm_info_of_bytes bs # pcm_infos_of_bytes n (drop sizeof_PCM_INFO bs)"

section \<open>ViosndPcm.h\<close>

abbreviation (input) VIOSND_DEFAULT_SAMPLE_RATE :: u32 where "VIOSND_DEFAULT_SAMPLE_RATE \<equiv> 48000"
abbreviation (input) VIOSND_FALLBACK_SAMPLE_RATE :: u32 where "VIOSND_FALLBACK_SAMPLE_RATE \<equiv> 16000"
abbreviation (input) VIOSND_DEFAULT_CHANNELS :: u8 where "VIOSND_DEFAULT_CHANNELS \<equiv> 2"
abbreviation (input) VIOSND_DEFAULT_BITS_PER_SAMPLE :: u8 where "VIOSND_DEFAULT_BITS_PER_SAMPLE \<equiv> 16"
abbreviation (input) VIOSND_DEFAULT_PERIOD_BYTES :: u32 where "VIOSND_DEFAULT_PERIOD_BYTES \<equiv> 2048"
abbreviation (input) VIOSND_FALLBACK_PERIOD_BYTES :: u32 where "VIOSND_FALLBACK_PERIOD_BYTES \<equiv> 2048"
abbreviation (input) VIOSND_DEFAULT_BUFFER_BYTES :: u32 where
  "VIOSND_DEFAULT_BUFFER_BYTES \<equiv> VIOSND_DEFAULT_PERIOD_BYTES * 16"

record VIOSND_PCM_FORMAT =
  SampleRate :: u32
  Channels :: u8
  BitsPerSample :: u8
  BufferBytes :: u32
  PeriodBytes :: u32

record VIOSND_STREAM_PAIR =
  RenderStreamId :: u32
  CaptureStreamId :: u32
  HasRender :: bool
  HasCapture :: bool

section \<open>ViosndPcm.cpp\<close>

definition ViosndPcmRateFromSampleRate :: "u32 \<Rightarrow> u8" where
  "ViosndPcmRateFromSampleRate rate =
     (if rate = 16000 then VIRTIO_SND_PCM_RATE_16000
      else if rate = 44100 then VIRTIO_SND_PCM_RATE_44100
      else VIRTIO_SND_PCM_RATE_48000)"

definition ViosndGetDefaultPcmFormat :: VIOSND_PCM_FORMAT where
  "ViosndGetDefaultPcmFormat =
     \<lparr>SampleRate = VIOSND_DEFAULT_SAMPLE_RATE, Channels = VIOSND_DEFAULT_CHANNELS,
      BitsPerSample = VIOSND_DEFAULT_BITS_PER_SAMPLE,
      BufferBytes = VIOSND_DEFAULT_BUFFER_BYTES, PeriodBytes = VIOSND_DEFAULT_PERIOD_BYTES\<rparr>"

definition ViosndGetFallbackPcmFormat :: VIOSND_PCM_FORMAT where
  "ViosndGetFallbackPcmFormat = ViosndGetDefaultPcmFormat
     \<lparr>SampleRate := VIOSND_FALLBACK_SAMPLE_RATE, PeriodBytes := VIOSND_FALLBACK_PERIOD_BYTES,
      BufferBytes := VIOSND_FALLBACK_PERIOD_BYTES * 16\<rparr>"

definition ViosndDefaultFormatMask :: u64 where
  "ViosndDefaultFormatMask = push_bit (unat VIRTIO_SND_PCM_FMT_S16) 1"

definition ViosndDefaultRateMask :: u64 where
  "ViosndDefaultRateMask = push_bit (unat VIRTIO_SND_PCM_RATE_48000) 1"

text \<open>The argument is \<open>None\<close> for a NULL \<open>Info\<close>.\<close>

definition ViosndPcmInfoSupportsDefaultFormat :: "VIRTIO_SND_PCM_INFO option \<Rightarrow> bool" where
  "ViosndPcmInfoSupportsDefaultFormat Info =
     (case Info of
        None \<Rightarrow> False
      | Some info \<Rightarrow>
          if pi_formats info AND ViosndDefaultFormatMask = 0 then False
          else if pi_rates info AND ViosndDefaultRateMask = 0 then False
          else pi_channels_min info \<le> VIOSND_DEFAULT_CHANNELS \<and>
               VIOSND_DEFAULT_CHANNELS \<le> pi_channels_max info)"

definition ViosndBuildSetParams :: "u32 \<Rightarrow> VIOSND_PCM_FORMAT \<Rightarrow> VIRTIO_SND_PCM_SET_PARAMS" where
  "ViosndBuildSetParams StreamId Format =
     \<lparr>sp_code = VIRTIO_SND_R_PCM_SET_PARAMS, sp_stream_id = StreamId,
      sp_buffer_bytes = BufferBytes Format, sp_period_bytes = PeriodBytes Format,
      sp_features = 0, sp_channels = Channels Format, sp_format = VIRTIO_SND_PCM_FMT_S16,
      sp_rate = ViosndPcmRateFromSampleRate (SampleRate Format), sp_padding = 0\<rparr>"

text \<open>
  \<open>ViosndFindStreamPair\<close> scans the \<open>InfoCount\<close> entries of \<open>Info\<close>; here \<open>InfoCount\<close> is the
  length of the list.  The scan loop carries \<open>i\<close>, the two fallback candidates (\<open>MAXULONG\<close>:
  none) and the pair; \<open>Inl\<close> is its early return.
\<close>

fun find_pair_scan ::
  "u32 \<Rightarrow> VIRTIO_SND_PCM_INFO list \<Rightarrow> u32 \<Rightarrow> u32 \<Rightarrow> VIOSND_STREAM_PAIR \<Rightarrow>
   VIOSND_STREAM_PAIR + u32 \<times> u32 \<times> VIOSND_STREAM_PAIR" where
  "find_pair_scan i [] fallbackRender fallbackCapture pair =
     Inr (fallbackRender, fallbackCapture, pair)"
| "find_pair_scan i (info # infos) fallbackRender fallbackCapture pair =
     (let (fallbackRender, fallbackCapture) =
        (if pi_direction info = VIRTIO_SND_D_OUTPUT \<and> fallbackRender = MAXULONG
         then (i, fallbackCapture)
         else if pi_direction info = VIRTIO_SND_D_INPUT \<and> fallbackCapture = MAXULONG
         then (fallbackRender, i)
         else (fallbackRender, fallbackCapture))
      in if \<not> ViosndPcmInfoSupportsDefaultFormat (Some info)
         then find_pair_scan (i + 1) infos fallbackRender fallbackCapture pair
         else
           let pair =
             (if \<not> HasRender pair \<and> pi_direction info = VIRTIO_SND_D_OUTPUT
              then pair\<lparr>RenderStreamId := i, HasRender := True\<rparr>
              else if \<not> HasCapture pair \<and> pi_direction info = VIRTIO_SND_D_INPUT
              then pair\<lparr>CaptureStreamId := i, HasCapture := True\<rparr>
              else pair)
           in if HasRender pair \<and> HasCapture pair then Inl pair
              else find_pair_scan (i + 1) infos fallbackRender fallbackCapture pair)"

fun find_capture_scan :: "u32 \<Rightarrow> nat \<Rightarrow> VIOSND_STREAM_PAIR \<Rightarrow> VIOSND_STREAM_PAIR" where
  "find_capture_scan i 0 pair = pair"
| "find_capture_scan i (Suc n) pair =
     (if \<not> HasRender pair \<or> i \<noteq> RenderStreamId pair
      then pair\<lparr>CaptureStreamId := i, HasCapture := True\<rparr>
      else find_capture_scan (i + 1) n pair)"

definition ViosndFindStreamPair :: "VIRTIO_SND_PCM_INFO list \<Rightarrow> NTSTATUS \<times> VIOSND_STREAM_PAIR" where
  "ViosndFindStreamPair Info =
     (let pair = \<lparr>RenderStreamId = 0, CaptureStreamId = 0, HasRender = False, HasCapture = False\<rparr>
      in case find_pair_scan 0 Info MAXULONG MAXULONG pair of
           Inl pair \<Rightarrow> (STATUS_SUCCESS, pair)
         | Inr (fallbackRender, fallbackCapture, pair) \<Rightarrow>
             let pair = (if \<not> HasRender pair \<and> fallbackRender \<noteq> MAXULONG
                         then pair\<lparr>RenderStreamId := fallbackRender, HasRender := True\<rparr> else pair);
                 pair = (if \<not> HasCapture pair \<and> fallbackCapture \<noteq> MAXULONG
                         then pair\<lparr>CaptureStreamId := fallbackCapture, HasCapture := True\<rparr>
                         else pair);
                 pair = (if \<not> HasCapture pair \<and> 1 < length Info
                         then find_capture_scan 0 (length Info) pair else pair)
             in (if HasRender pair \<or> HasCapture pair then STATUS_SUCCESS else STATUS_NOT_FOUND,
                 pair))"

section \<open>Specification of the stream selection\<close>

text \<open>
  A stream of the wanted direction that supports the driver's format (48 kHz, 16 bit, stereo)
  wins; then the first stream of the direction; a capture stream may finally be any stream that
  is not the render stream.
\<close>

definition dir_ok :: "u8 \<Rightarrow> VIRTIO_SND_PCM_INFO \<Rightarrow> bool" where
  "dir_ok dir info \<longleftrightarrow> pi_direction info = dir \<and> ViosndPcmInfoSupportsDefaultFormat (Some info)"

definition pick_stream :: "u8 \<Rightarrow> VIRTIO_SND_PCM_INFO list \<Rightarrow> nat option" where
  "pick_stream dir Info = orelse
     (first_index (dir_ok dir) Info)
     (first_index (\<lambda>i. pi_direction i = dir) Info)"

definition pair_of :: "nat option \<Rightarrow> nat option \<Rightarrow> VIOSND_STREAM_PAIR" where
  "pair_of r c =
     \<lparr>RenderStreamId = (case r of None \<Rightarrow> 0 | Some i \<Rightarrow> word_of_nat i),
      CaptureStreamId = (case c of None \<Rightarrow> 0 | Some i \<Rightarrow> word_of_nat i),
      HasRender = (r \<noteq> None), HasCapture = (c \<noteq> None)\<rparr>"

definition stream_pair_spec :: "VIRTIO_SND_PCM_INFO list \<Rightarrow> nat option \<times> nat option" where
  "stream_pair_spec Info =
     (let r = pick_stream VIRTIO_SND_D_OUTPUT Info;
          other = (if 1 < length Info then Some (if r = Some 0 then 1 else 0) else None)
      in (r, orelse (pick_stream VIRTIO_SND_D_INPUT Info) other))"

definition index_or_max :: "nat option \<Rightarrow> u32" where
  "index_or_max x = (case x of None \<Rightarrow> MAXULONG | Some i \<Rightarrow> word_of_nat i)"

lemma index_not_max:
  assumes "i < 0xFFFFFFFF" shows "(word_of_nat i :: u32) \<noteq> MAXULONG"
proof
  assume "(word_of_nat i :: u32) = MAXULONG"
  then have "unat (word_of_nat i :: u32) = unat MAXULONG" by simp
  with assms show False by (simp add: unat_of_nat)
qed

lemma index_or_max_eq [simp]:
  "(\<And>i. x = Some i \<Longrightarrow> i < 0xFFFFFFFF) \<Longrightarrow> index_or_max x = MAXULONG \<longleftrightarrow> x = None"
  using index_not_max by (auto simp: index_or_max_def split: option.splits)

lemma index_or_max_Some [simp]: "index_or_max (Some i) = word_of_nat i"
  by (simp add: index_or_max_def)

lemma index_or_max_None [simp]: "index_or_max None = MAXULONG"
  by (simp add: index_or_max_def)

lemma pair_of_fields [simp]:
  "HasRender (pair_of r c) \<longleftrightarrow> r \<noteq> None" "HasCapture (pair_of r c) \<longleftrightarrow> c \<noteq> None"
  "RenderStreamId (pair_of (Some i) c) = word_of_nat i"
  "(pair_of None c)\<lparr>RenderStreamId := word_of_nat i, HasRender := True\<rparr> = pair_of (Some i) c"
  "(pair_of r None)\<lparr>CaptureStreamId := word_of_nat i, HasCapture := True\<rparr> = pair_of r (Some i)"
  by (simp_all add: pair_of_def)

lemma find_pair_scan_spec:
  assumes "k + length infos \<le> 0xFFFFFFFF" "r = None \<or> c = None"
    and "\<And>i. fr = Some i \<Longrightarrow> i < k" "\<And>i. fc = Some i \<Longrightarrow> i < k"
  shows "find_pair_scan (word_of_nat k) infos (index_or_max fr) (index_or_max fc) (pair_of r c) =
    (let r' = orelse r (map_option ((+) k) (first_index (dir_ok VIRTIO_SND_D_OUTPUT) infos));
         c' = orelse c (map_option ((+) k) (first_index (dir_ok VIRTIO_SND_D_INPUT) infos));
         fr' = orelse fr (map_option ((+) k) (first_index (\<lambda>i. pi_direction i = VIRTIO_SND_D_OUTPUT) infos));
         fc' = orelse fc (map_option ((+) k) (first_index (\<lambda>i. pi_direction i = VIRTIO_SND_D_INPUT) infos))
     in if r' \<noteq> None \<and> c' \<noteq> None then Inl (pair_of r' c')
        else Inr (index_or_max fr', index_or_max fc', pair_of r' c'))"
  using assms
proof (induction infos arbitrary: k r c fr fc)
  case Nil
  then show ?case by auto
next
  case (Cons x xs)
  have ne: "fr = Some i \<Longrightarrow> (word_of_nat i :: u32) \<noteq> MAXULONG"
    "fc = Some i \<Longrightarrow> (word_of_nat i :: u32) \<noteq> MAXULONG" for i
    using Cons.prems index_not_max by fastforce+
  have nek: "(word_of_nat k :: u32) \<noteq> MAXULONG" using Cons.prems by (simp add: index_not_max)
  have shift: "map_option ((+) (Suc k)) z = map_option (\<lambda>a. Suc (k + a)) z" for z
    by (cases z) auto
  have comp: "map_option ((+) k) (map_option Suc z) = map_option (\<lambda>a. Suc (k + a)) z" for z
    by (cases z) auto
  note d = dir_ok_def [of _ x]
  note IH = Cons.IH [where k = "Suc k", unfolded of_nat_Suc, simplified add.commute [of 1]]
  have l: "Suc k + length xs \<le> 0xFFFFFFFF" using Cons.prems by simp
  have le: "fr = Some i \<Longrightarrow> i < Suc k" "fc = Some i \<Longrightarrow> i < Suc k" for i
    using Cons.prems by fastforce+
  consider (out) "pi_direction x = VIRTIO_SND_D_OUTPUT" | (inp) "pi_direction x = VIRTIO_SND_D_INPUT"
    | (no) "pi_direction x \<noteq> VIRTIO_SND_D_OUTPUT" "pi_direction x \<noteq> VIRTIO_SND_D_INPUT" by blast
  then show ?case
  proof cases
    case out
    then show ?thesis using IH[of r c fr fc] IH[of r c "Some k" fc] IH[of "Some k" c fr fc] IH[of "Some k" c "Some k" fc] l le Cons.prems(2) nek
      by (cases fr; cases r; cases c) (simp_all add: d ne shift comp Let_def del: index_or_max_eq)
  next
    case inp
    then show ?thesis using IH[of r c fr fc] IH[of r c fr "Some k"] IH[of r "Some k" fr fc] IH[of r "Some k" fr "Some k"] l le Cons.prems(2) nek
      by (cases fc; cases r; cases c) (simp_all add: d ne shift comp Let_def del: index_or_max_eq)
  next
    case no
    then show ?thesis using IH[of r c fr fc] l le Cons.prems(2)
      by (cases r; cases c) (simp_all add: d shift comp Let_def del: index_or_max_eq)
  qed
qed

lemma pick_stream_SomeD:
  "pick_stream dir Info = Some i \<Longrightarrow> i < length Info \<and> pi_direction (Info ! i) = dir"
  by (auto simp: pick_stream_def orelse_def dir_ok_def dest!: first_index_SomeD split: option.splits)

lemma find_capture_scan_spec:
  assumes "1 < length Info" "length Info \<le> 0xFFFFFFFF" "\<And>i. r = Some i \<Longrightarrow> i < length Info"
  shows "find_capture_scan 0 (length Info) (pair_of r None) =
         pair_of r (Some (if r = Some 0 then 1 else 0))"
proof -
  obtain n where n: "length Info = Suc (Suc n)"
    using assms(1) that [of "length Info - 2"] by auto
  have [simp]: "(pair_of r None)\<lparr>CaptureStreamId := 0, HasCapture := True\<rparr> = pair_of r (Some 0)"
    "(pair_of r None)\<lparr>CaptureStreamId := 1, HasCapture := True\<rparr> = pair_of r (Some 1)" for r
    by (simp_all add: pair_of_def)
  show ?thesis
  proof (cases r)
    case None
    then show ?thesis by (simp add: n)
  next
    case (Some i)
    with assms have "i < 0xFFFFFFFF" by fastforce
    then have "(word_of_nat i :: u32) = 0 \<longleftrightarrow> i = 0"
      by (auto simp: word_of_nat_eq_0_iff dvd_imp_le nat_dvd_not_less)
    with Some show ?thesis by (auto simp: n)
  qed
qed

lemma FindStreamPair_eq:
  assumes "length Info \<le> 0xFFFFFFFF" "stream_pair_spec Info = (r, c)"
  shows "ViosndFindStreamPair Info =
    (if r \<noteq> None \<or> c \<noteq> None then STATUS_SUCCESS else STATUS_NOT_FOUND, pair_of r c)"
proof -
  have z: "\<lparr>RenderStreamId = 0, CaptureStreamId = 0, HasRender = False, HasCapture = False\<rparr> =
      pair_of None None" by (simp add: pair_of_def)
  have m: "map_option ((+) 0) x = x" for x :: "nat option" by (cases x) auto
  let ?r = "first_index (dir_ok VIRTIO_SND_D_OUTPUT) Info"
  let ?c = "first_index (dir_ok VIRTIO_SND_D_INPUT) Info"
  let ?fr = "first_index (\<lambda>i. pi_direction i = VIRTIO_SND_D_OUTPUT) Info"
  let ?fc = "first_index (\<lambda>i. pi_direction i = VIRTIO_SND_D_INPUT) Info"
  have scan: "find_pair_scan 0 Info MAXULONG MAXULONG (pair_of None None) =
     (if ?r \<noteq> None \<and> ?c \<noteq> None then Inl (pair_of ?r ?c)
      else Inr (index_or_max ?fr, index_or_max ?fc, pair_of ?r ?c))"
    using find_pair_scan_spec [of 0 Info None None None None] assms(1)
    by (simp add: m Let_def)
  have b: "?fr = Some i \<Longrightarrow> i < length Info" "?fc = Some i \<Longrightarrow> i < length Info"
    "?r = Some i \<Longrightarrow> i < length Info" "?c = Some i \<Longrightarrow> i < length Info" for i
    by (auto dest: first_index_SomeD)
  have nm: "?fr = Some i \<Longrightarrow> (word_of_nat i :: u32) \<noteq> MAXULONG"
    "?fc = Some i \<Longrightarrow> (word_of_nat i :: u32) \<noteq> MAXULONG" for i
    using b assms(1) index_not_max by fastforce+
  have r: "r = orelse ?r ?fr" and c: "c = orelse (orelse ?c ?fc)
      (if 1 < length Info then Some (if r = Some 0 then 1 else 0) else None)"
    using assms(2) by (auto simp: stream_pair_spec_def pick_stream_def Let_def)
  have "r = Some i \<Longrightarrow> i < length Info" for i using r b by (auto simp: orelse_def split: option.splits)
  note cap = find_capture_scan_spec [where r = r, OF _ assms(1) this]
  show ?thesis
    unfolding ViosndFindStreamPair_def z Let_def scan
    using r c cap nm by (cases ?r; cases ?c; cases ?fr; cases ?fc) auto
qed

lemma stream_pair_spec_bounds:
  assumes "stream_pair_spec Info = (r, c)"
  shows "r = Some i \<Longrightarrow> i < length Info" "c = Some j \<Longrightarrow> j < length Info"
    "r = Some i \<Longrightarrow> c = Some j \<Longrightarrow> i \<noteq> j"
  using assms
  by (auto simp: stream_pair_spec_def Let_def orelse_def split: option.splits if_splits
      dest!: pick_stream_SomeD)

lemma word_of_nat_eq_iff32:
  "i \<le> 0xFFFFFFFF \<Longrightarrow> j \<le> 0xFFFFFFFF \<Longrightarrow> (word_of_nat i :: u32) = word_of_nat j \<longleftrightarrow> i = j"
  by (auto simp: word_of_nat_eq_iff take_bit_nat_def)

text \<open>
  C10: \<open>ViosndFindStreamPair\<close> returns the render and capture streams of the specification
  \<open>stream_pair_spec\<close>: STATUS_SUCCESS exactly when one was found; every stream it returns is an
  index into the table, and the two streams differ.
\<close>

theorem FindStreamPair_correct:
  assumes "length Info \<le> 0xFFFFFFFF" "stream_pair_spec Info = (r, c)"
    "ViosndFindStreamPair Info = (st, p)"
  shows "p = pair_of r c \<and>
    st = (if r \<noteq> None \<or> c \<noteq> None then STATUS_SUCCESS else STATUS_NOT_FOUND) \<and>
    (HasRender p \<longrightarrow> unat (RenderStreamId p) < length Info) \<and>
    (HasCapture p \<longrightarrow> unat (CaptureStreamId p) < length Info) \<and>
    (HasRender p \<and> HasCapture p \<longrightarrow> RenderStreamId p \<noteq> CaptureStreamId p)"
proof -
  have eq: "p = pair_of r c" "st = (if r \<noteq> None \<or> c \<noteq> None then STATUS_SUCCESS else STATUS_NOT_FOUND)"
    using FindStreamPair_eq [OF assms(1,2)] assms(3) by simp_all
  note b = stream_pair_spec_bounds [OF assms(2)]
  have u: "unat (word_of_nat i :: u32) = i" if "i < length Info" for i
    using that assms(1) by (simp add: unat_of_nat)
  have ne: "word_of_nat i \<noteq> (word_of_nat j :: u32)" if "r = Some i" "c = Some j" for i j
    using b(1) [OF that(1)] b(2) [OF that(2)] b(3) [OF that] assms(1)
    by (subst word_of_nat_eq_iff32) simp_all
  show ?thesis
    unfolding eq pair_of_def by (cases r; cases c) (simp_all add: u b ne)
qed

theorem FindStreamPair_correct_witness:
  "let x = \<lparr>pi_hda_fn_nid = 0, pi_features = 0, pi_formats = 0x20, pi_rates = 0x80,
              pi_direction = 0, pi_channels_min = 1, pi_channels_max = 2\<rparr>
   in ViosndFindStreamPair [x, x\<lparr>pi_direction := 1, pi_rates := 0\<rparr>] =
        (STATUS_SUCCESS, pair_of (Some 0) (Some 1)) \<and>
      (0 :: u32) \<noteq> CaptureStreamId (pair_of (Some 0) (Some 1))"
proof -
  let ?x = "\<lparr>pi_hda_fn_nid = 0, pi_features = 0, pi_formats = 0x20, pi_rates = 0x80,
              pi_direction = 0, pi_channels_min = 1, pi_channels_max = 2\<rparr> :: VIRTIO_SND_PCM_INFO"
  let ?I = "[?x, ?x\<lparr>pi_direction := 1, pi_rates := 0\<rparr>]"
  have s: "stream_pair_spec ?I = (Some 0, Some 1)"
    by (simp add: stream_pair_spec_def pick_stream_def dir_ok_def Let_def
        ViosndPcmInfoSupportsDefaultFormat_def ViosndDefaultFormatMask_def ViosndDefaultRateMask_def)
  have f: "ViosndFindStreamPair ?I = (STATUS_SUCCESS, pair_of (Some 0) (Some 1))"
    by (simp add: ViosndFindStreamPair_def Let_def pair_of_def
        ViosndPcmInfoSupportsDefaultFormat_def ViosndDefaultFormatMask_def ViosndDefaultRateMask_def)
  show ?thesis using FindStreamPair_correct [OF _ s f] f by (simp add: Let_def pair_of_def)
qed

section \<open>Round trips of the memory images\<close>

lemma length_bytes_of [simp]:
  "length (bytes_of_CONFIG c) = 16" "length (bytes_of_QUERY_INFO q) = 16"
  "length (bytes_of_PCM_HDR h) = 8" "length (bytes_of_SET_PARAMS p) = 24"
  "length (bytes_of_EVENT e) = 8" "length (bytes_of_PCM_STATUS s) = 8"
  "length (bytes_of_PCM_INFO i) = 32"
  by (simp_all add: bytes_of_CONFIG_def bytes_of_QUERY_INFO_def bytes_of_PCM_HDR_def
      bytes_of_SET_PARAMS_def bytes_of_EVENT_def bytes_of_PCM_STATUS_def bytes_of_PCM_INFO_def)

lemma config_of_bytes_of [simp]: "config_of_bytes (bytes_of_CONFIG c @ xs) = c"
  by (simp add: config_of_bytes_def bytes_of_CONFIG_def)

lemma event_of_bytes_of [simp]: "event_of_bytes (bytes_of_EVENT e @ xs) = e"
  by (simp add: event_of_bytes_def bytes_of_EVENT_def)

lemma pcm_status_of_bytes_of [simp]: "pcm_status_of_bytes (bytes_of_PCM_STATUS s @ xs) = s"
  by (simp add: pcm_status_of_bytes_def bytes_of_PCM_STATUS_def)

lemma pcm_info_of_bytes_of [simp]: "pcm_info_of_bytes (bytes_of_PCM_INFO i @ xs) = i"
  by (simp add: pcm_info_of_bytes_def bytes_of_PCM_INFO_def nth_append)

lemma pcm_infos_of_bytes_of:
  "pcm_infos_of_bytes (length infos) (concat (map bytes_of_PCM_INFO infos) @ xs) = infos"
  by (induction infos) simp_all

lemma set_params_of_bytes_of: "set_params_of_bytes (bytes_of_SET_PARAMS p) = p"
  by (simp add: set_params_of_bytes_def bytes_of_SET_PARAMS_def nth_append)


end
