(* ===== verification/Virtqueue.thy ===== *)
theory Virtqueue
  imports Viosnd_Prelude
begin

text \<open>
  The interface of a virtqueue (\<open>VirtIO/VirtIO.h\<close>): \<open>struct virtqueue\<close> is a table of function
  pointers that \<open>vring_new_virtqueue_split\<close> or \<open>vring_new_virtqueue_packed\<close> fills.  The record
  \<open>virtqueue_ops\<close> is that table; \<open>'q\<close> is the state behind the pointer and \<open>'o\<close> the driver's
  opaque tokens, with NULL outside the type.  The locale \<open>virtqueue\<close> states what the driver
  relies on, through three observations of a queue: the multiset of tokens in flight, the list
  of completions the driver has not collected, and the number of free descriptors.  The laws
  without \<open>detach_unused_buf\<close> are the locale \<open>virtqueue_ring\<close>, which \<open>virtqueue\<close> extends.  Theory
  \<open>Split_Ring\<close> interprets \<open>virtqueue\<close> on the split ring, \<open>Packed_Ring\<close> interprets
  \<open>virtqueue_ring\<close> on the packed ring.
\<close>

record scatterlist =
  sg_addr :: u64
  sg_length :: u32

abbreviation (input) ENOSPC :: int where "ENOSPC \<equiv> 28"
abbreviation (input) VQ_ADD_BUFFER_SUCCESS :: int where "VQ_ADD_BUFFER_SUCCESS \<equiv> 0"

text \<open>
  \<open>add_buf q sg out ins opaque va_indirect phys_indirect\<close> and the other members of
  \<open>struct virtqueue\<close>.  \<open>get_buf\<close> returns \<open>None\<close> for NULL and otherwise the token with the
  length the device reported.
\<close>

record ('q, 'o) virtqueue_ops =
  add_buf :: "'q \<Rightarrow> scatterlist list \<Rightarrow> nat \<Rightarrow> nat \<Rightarrow> 'o \<Rightarrow> ptr \<Rightarrow> u64 \<Rightarrow> (int \<times> 'q) option"
  kick_prepare :: "'q \<Rightarrow> (bool \<times> 'q) option"
  kick_always :: "'q \<Rightarrow> 'q option"
  get_buf :: "'q \<Rightarrow> (('o \<times> u32) option \<times> 'q) option"
  disable_cb :: "'q \<Rightarrow> 'q option"
  enable_cb :: "'q \<Rightarrow> (bool \<times> 'q) option"
  enable_cb_delayed :: "'q \<Rightarrow> (bool \<times> 'q) option"
  detach_unused_buf :: "'q \<Rightarrow> ('o option \<times> 'q) option"
  is_interrupt_enabled :: "'q \<Rightarrow> bool"
  has_buf :: "'q \<Rightarrow> bool"
  shutdown :: "'q \<Rightarrow> 'q option"
  notification_cb :: "'q \<Rightarrow> 'q"

text \<open>\<open>virtqueue_notify\<close> and \<open>virtqueue_kick\<close> (\<open>VirtIO/VirtIOPCICommon.c\<close>).\<close>

definition virtqueue_notify :: "('q, 'o, 'z) virtqueue_ops_scheme \<Rightarrow> 'q \<Rightarrow> 'q" where
  "virtqueue_notify ops q = notification_cb ops q"

definition virtqueue_kick :: "('q, 'o, 'z) virtqueue_ops_scheme \<Rightarrow> 'q \<Rightarrow> 'q option" where
  "virtqueue_kick ops q = do {
     (notify, q) \<leftarrow> kick_prepare ops q;
     if notify then Some (virtqueue_notify ops q) else Some q
   }"

text \<open>A buffer is added with direct descriptors when no indirect page is given.\<close>

locale virtqueue_ring =
  fixes ops :: "('q, 'o) virtqueue_ops"
    and inv :: "'q \<Rightarrow> bool"
    and inflight :: "'q \<Rightarrow> 'o multiset"
    and pending :: "'q \<Rightarrow> ('o \<times> u32) list"
    and room :: "'q \<Rightarrow> nat"
  assumes add_ok: "\<lbrakk>inv q; sg \<noteq> []; outs + ins = length sg; length sg \<le> room q\<rbrakk> \<Longrightarrow>
      \<exists>q'. add_buf ops q sg outs ins x 0 0 = Some (VQ_ADD_BUFFER_SUCCESS, q') \<and> inv q' \<and>
        inflight q' = add_mset x (inflight q) \<and> pending q' = pending q \<and>
        room q' + length sg = room q"
    and add_full: "\<lbrakk>inv q; outs + ins = length sg; room q < length sg\<rbrakk> \<Longrightarrow>
      add_buf ops q sg outs ins x 0 0 = Some (- ENOSPC, q)"
    and get_empty: "\<lbrakk>inv q; pending q = []\<rbrakk> \<Longrightarrow> get_buf ops q = Some (None, q)"
    and get_pending: "\<lbrakk>inv q; pending q = (x, len) # rest\<rbrakk> \<Longrightarrow>
      \<exists>q'. get_buf ops q = Some (Some (x, len), q') \<and> inv q' \<and> pending q' = rest \<and>
        inflight q = add_mset x (inflight q') \<and> room q < room q'"
    and has_buf: "inv q \<Longrightarrow> has_buf ops q \<longleftrightarrow> pending q \<noteq> []"
    and kick_prepare: "inv q \<Longrightarrow>
      \<exists>b q'. kick_prepare ops q = Some (b, q') \<and> inv q' \<and>
        inflight q' = inflight q \<and> pending q' = pending q \<and> room q' = room q"
    and kick_always: "inv q \<Longrightarrow>
      \<exists>q'. kick_always ops q = Some q' \<and> inv q' \<and>
        inflight q' = inflight q \<and> pending q' = pending q \<and> room q' = room q"
    and notify: "inv q \<Longrightarrow>
      inv (notification_cb ops q) \<and> inflight (notification_cb ops q) = inflight q \<and>
      pending (notification_cb ops q) = pending q \<and> room (notification_cb ops q) = room q"
    and disable_cb: "inv q \<Longrightarrow>
      \<exists>q'. disable_cb ops q = Some q' \<and> inv q' \<and>
        inflight q' = inflight q \<and> pending q' = pending q \<and> room q' = room q"
    and pending_inflight: "inv q \<Longrightarrow> mset (map fst (pending q)) \<subseteq># inflight q"
begin

lemma virtqueue_kick_ok: "inv q \<Longrightarrow>
   \<exists>q'. virtqueue_kick ops q = Some q' \<and> inv q' \<and>
     inflight q' = inflight q \<and> pending q' = pending q \<and> room q' = room q"
  using kick_prepare [of q] notify by (fastforce simp: virtqueue_kick_def virtqueue_notify_def)

lemma pending_empty: "inv q \<Longrightarrow> inflight q = {#} \<Longrightarrow> pending q = []"
  using pending_inflight [of q] by simp

end

text \<open>Buffers that the device has not completed can be taken back from a stopped queue.\<close>

locale virtqueue = virtqueue_ring ops inv inflight pending room
  for ops :: "('q, 'o) virtqueue_ops"
    and inv :: "'q \<Rightarrow> bool"
    and inflight :: "'q \<Rightarrow> 'o multiset"
    and pending :: "'q \<Rightarrow> ('o \<times> u32) list"
    and room :: "'q \<Rightarrow> nat" +
  assumes detach_none: "\<lbrakk>inv q; inflight q = {#}\<rbrakk> \<Longrightarrow> detach_unused_buf ops q = Some (None, q)"
    and detach_some: "\<lbrakk>inv q; pending q = []; inflight q \<noteq> {#}\<rbrakk> \<Longrightarrow>
      \<exists>x q'. detach_unused_buf ops q = Some (Some x, q') \<and> inv q' \<and> pending q' = [] \<and>
        inflight q = add_mset x (inflight q') \<and> room q < room q'"

end
