(* ===== verification/Split_Ring.thy ===== *)
theory Split_Ring
  imports Virtqueue
begin

text \<open>
  The split virtqueue of \<open>VirtIO/VirtIORing.c\<close>: the descriptor table with its free list, the
  available and used rings, and every operation of the queue.  The memory the device shares is
  part of the record: descriptors, \<open>avail\<close> (the driver writes, the device reads) and \<open>used\<close>
  (the device writes).  A failed ASSERT, an index outside a table, or a descriptor chain that
  never ends is \<open>None\<close>.  The invariant \<open>split_inv\<close> says that free list and in-flight chains
  partition the table and that the device completes only chains in flight, each once; every
  operation keeps it, and the interpretation at the end makes the split ring a \<open>virtqueue\<close>.
\<close>

section \<open>Data\<close>

abbreviation (input) VIRTQ_DESC_F_NEXT :: u16 where "VIRTQ_DESC_F_NEXT \<equiv> 1"
abbreviation (input) VIRTQ_DESC_F_WRITE :: u16 where "VIRTQ_DESC_F_WRITE \<equiv> 2"
abbreviation (input) VIRTQ_DESC_F_INDIRECT :: u16 where "VIRTQ_DESC_F_INDIRECT \<equiv> 4"
abbreviation (input) VIRTQ_USED_F_NO_NOTIFY :: u16 where "VIRTQ_USED_F_NO_NOTIFY \<equiv> 1"
abbreviation (input) VIRTQ_AVAIL_F_NO_INTERRUPT :: u16 where "VIRTQ_AVAIL_F_NO_INTERRUPT \<equiv> 1"
abbreviation (input) SMP_CACHE_BYTES :: u32 where "SMP_CACHE_BYTES \<equiv> 64"

record vring_desc =
  d_addr :: u64
  d_len :: u32
  d_flags :: u16
  d_next :: u16

text \<open>
  \<open>struct virtqueue_split\<close> with the rings it points to.  \<open>indirect\<close> is the memory of the
  driver's indirect pages, \<open>event_suppression\<close> the flag of the owning \<open>VirtIODevice\<close>, and
  \<open>doorbell\<close> counts the calls of \<open>notification_cb\<close>.
\<close>

record 'o virtqueue_split =
  num :: u32
  desc :: "vring_desc list"
  avail_flags :: u16
  avail_idx :: u16
  avail_ring :: "u16 list"
  used_event :: u16
  used_flags :: u16
  used_idx :: u16
  used_ring :: "(u32 \<times> u32) list"
  avail_event :: u16
  master_flags :: u16
  master_idx :: u16
  num_unused :: u32
  num_added_since_kick :: u32
  first_unused :: u16
  last_used :: u16
  opaques :: "'o option list"
  indirect :: "ptr \<Rightarrow> vring_desc list option"
  event_suppression :: bool
  doorbell :: nat

definition DESC_INDEX :: "u32 \<Rightarrow> u16 \<Rightarrow> nat" where
  "DESC_INDEX n i = unat (ucast i AND (n - 1))"

definition has_next :: "vring_desc \<Rightarrow> bool" where
  "has_next d \<longleftrightarrow> d_flags d AND VIRTQ_DESC_F_NEXT \<noteq> 0"

section \<open>Sizes and notification window\<close>

definition vring_size_split :: "u32 \<Rightarrow> u32 \<Rightarrow> u32" where
  "vring_size_split n align =
     ((16 * n + 2 * (3 + n) + align - 1) AND NOT (align - 1)) + 2 * 3 + 8 * n"

definition vring_need_event :: "u16 \<Rightarrow> u16 \<Rightarrow> u16 \<Rightarrow> bool" where
  "vring_need_event event_idx new_idx old \<longleftrightarrow> new_idx - event_idx - 1 < new_idx - old"

section \<open>The free list\<close>

definition get_unused_desc :: "'o virtqueue_split \<Rightarrow> (u16 \<times> 'o virtqueue_split) option" where
  "get_unused_desc vq = do {
     let idx = first_unused vq;
     _ \<leftarrow> (if 0 < num_unused vq then Some () else None);
     d \<leftarrow> read_at (desc vq) (unat idx);
     Some (idx, vq\<lparr>first_unused := d_next d, num_unused := num_unused vq - 1\<rparr>)
   }"

partial_function (option) put_unused_walk ::
  "u16 \<Rightarrow> 'o virtqueue_split \<Rightarrow> (u16 \<times> 'o virtqueue_split) option" where
  "put_unused_walk idx vq = do {
     d \<leftarrow> read_at (desc vq) (unat idx);
     if has_next d
     then put_unused_walk (d_next d) (vq\<lparr>num_unused := num_unused vq + 1\<rparr>)
     else Some (idx, vq)
   }"

definition put_unused_desc_chain :: "'o virtqueue_split \<Rightarrow> u16 \<Rightarrow> 'o virtqueue_split option" where
  "put_unused_desc_chain vq start = do {
     ops \<leftarrow> write_at (opaques vq) (unat start) None;
     (idx, vq) \<leftarrow> put_unused_walk start (vq\<lparr>opaques := ops\<rparr>);
     d \<leftarrow> read_at (desc vq) (unat idx);
     ds \<leftarrow> write_at (desc vq) (unat idx)
             (d\<lparr>d_flags := VIRTQ_DESC_F_NEXT, d_next := first_unused vq\<rparr>);
     Some (vq\<lparr>desc := ds, num_unused := num_unused vq + 1, first_unused := start\<rparr>)
   }"

section \<open>Adding a buffer\<close>

text \<open>The indirect table: descriptor \<open>i\<close> of \<open>n\<close>, the last one without the NEXT flag.\<close>

definition indirect_desc :: "nat \<Rightarrow> nat \<Rightarrow> nat \<Rightarrow> scatterlist \<Rightarrow> vring_desc" where
  "indirect_desc n outs i s =
     \<lparr>d_addr = sg_addr s, d_len = sg_length s,
      d_flags = (let f = (if i < outs then 0 else VIRTQ_DESC_F_WRITE) OR VIRTQ_DESC_F_NEXT
                 in if i = n - 1 then f AND NOT VIRTQ_DESC_F_NEXT else f),
      d_next = word_of_nat i + 1\<rparr>"

text \<open>One regular descriptor, taken from the free list; \<open>write\<close> is \<open>i >= outs\<close>.\<close>

definition add_desc ::
  "'o virtqueue_split \<Rightarrow> scatterlist \<Rightarrow> bool \<Rightarrow> 'o option \<Rightarrow> (u16 \<times> 'o virtqueue_split) option" where
  "add_desc vq s write opaque = do {
     (idx, vq) \<leftarrow> get_unused_desc vq;
     ops \<leftarrow> (case opaque of None \<Rightarrow> Some (opaques vq)
              | Some x \<Rightarrow> write_at (opaques vq) (unat idx) (Some x));
     ds \<leftarrow> write_at (desc vq) (unat idx)
             \<lparr>d_addr = sg_addr s, d_len = sg_length s,
              d_flags = VIRTQ_DESC_F_NEXT OR (if write then VIRTQ_DESC_F_WRITE else 0),
              d_next = first_unused vq\<rparr>;
     Some (idx, vq\<lparr>opaques := ops, desc := ds\<rparr>)
   }"

fun add_rest :: "'o virtqueue_split \<Rightarrow> scatterlist list \<Rightarrow> nat \<Rightarrow> nat \<Rightarrow> u16 \<Rightarrow>
    (u16 \<times> 'o virtqueue_split) option" where
  "add_rest vq [] outs i last_idx = Some (last_idx, vq)"
| "add_rest vq (s # sg) outs i last_idx = do {
     (last_idx, vq) \<leftarrow> add_desc vq s (outs \<le> i) None;
     add_rest vq sg outs (i + 1) last_idx
   }"

definition publish_avail :: "'o virtqueue_split \<Rightarrow> u16 \<Rightarrow> 'o virtqueue_split option" where
  "publish_avail vq idx = do {
     ring \<leftarrow> write_at (avail_ring vq) (DESC_INDEX (num vq) (master_idx vq)) idx;
     Some (vq\<lparr>avail_ring := ring, master_idx := master_idx vq + 1, avail_idx := master_idx vq + 1,
              num_added_since_kick := num_added_since_kick vq + 1\<rparr>)
   }"

text \<open>\<open>sg\<close> holds \<open>outs + ins\<close> entries; a shorter array is a read outs of bounds.\<close>

definition virtqueue_add_buf_split ::
  "'o virtqueue_split \<Rightarrow> scatterlist list \<Rightarrow> nat \<Rightarrow> nat \<Rightarrow> 'o \<Rightarrow> ptr \<Rightarrow> u64 \<Rightarrow>
   (int \<times> 'o virtqueue_split) option" where
  "virtqueue_add_buf_split vq sg outs ins opaque va_indirect phys_indirect =
     (let n = outs + ins in
      if va_indirect \<noteq> 0 \<and> 1 < n \<and> 0 < num_unused vq then do {
        _ \<leftarrow> (if n \<le> length sg then Some () else None);
        page \<leftarrow> indirect vq va_indirect;
        _ \<leftarrow> (if n \<le> length page then Some () else None);
        let vq = vq\<lparr>indirect := (indirect vq)
          (va_indirect \<mapsto> map (\<lambda>i. indirect_desc n outs i (sg ! i)) [0..<n] @ drop n page)\<rparr>;
        (idx, vq) \<leftarrow> get_unused_desc vq;
        d \<leftarrow> read_at (desc vq) (unat idx);
        ds \<leftarrow> write_at (desc vq) (unat idx)
                (d\<lparr>d_flags := VIRTQ_DESC_F_INDIRECT, d_addr := phys_indirect,
                   d_len := word_of_nat n * 16\<rparr>);
        ops \<leftarrow> write_at (opaques vq) (unat idx) (Some opaque);
        vq \<leftarrow> publish_avail (vq\<lparr>desc := ds, opaques := ops\<rparr>) idx;
        Some (VQ_ADD_BUFFER_SUCCESS, vq)
      }
      else if unat (num_unused vq) < n then Some (- ENOSPC, vq)
      else
        case sg of
          [] \<Rightarrow> None
        | s # rest \<Rightarrow> do {
            _ \<leftarrow> (if n \<le> length sg then Some () else None);
            (idx, vq) \<leftarrow> add_desc vq s (outs = 0) (Some opaque);
            (last_idx, vq) \<leftarrow> add_rest vq (take (n - 1) rest) outs 1 idx;
            d \<leftarrow> read_at (desc vq) (unat last_idx);
            ds \<leftarrow> write_at (desc vq) (unat last_idx)
                    (d\<lparr>d_flags := d_flags d AND NOT VIRTQ_DESC_F_NEXT\<rparr>);
            vq \<leftarrow> publish_avail (vq\<lparr>desc := ds\<rparr>) idx;
            Some (VQ_ADD_BUFFER_SUCCESS, vq)
          })"

section \<open>Collecting completions\<close>

definition virtqueue_is_interrupt_enabled_split :: "'o virtqueue_split \<Rightarrow> bool" where
  "virtqueue_is_interrupt_enabled_split vq \<longleftrightarrow> master_flags vq AND VIRTQ_AVAIL_F_NO_INTERRUPT = 0"

definition virtqueue_get_buf_split ::
  "'o virtqueue_split \<Rightarrow> (('o \<times> u32) option \<times> 'o virtqueue_split) option" where
  "virtqueue_get_buf_split vq =
     (if last_used vq = used_idx vq then Some (None, vq)
      else do {
        (id, len) \<leftarrow> read_at (used_ring vq) (DESC_INDEX (num vq) (last_used vq));
        let idx = (ucast id :: u16);
        opaque \<leftarrow> read_at (opaques vq) (unat idx);
        vq \<leftarrow> put_unused_desc_chain vq idx;
        let vq = vq\<lparr>last_used := last_used vq + 1\<rparr>;
        let vq = (if event_suppression vq \<and> virtqueue_is_interrupt_enabled_split vq
                  then vq\<lparr>used_event := last_used vq\<rparr> else vq);
        x \<leftarrow> opaque;
        Some (Some (x, len), vq)
      })"

definition virtqueue_has_buf_split :: "'o virtqueue_split \<Rightarrow> bool" where
  "virtqueue_has_buf_split vq \<longleftrightarrow> last_used vq \<noteq> used_idx vq"

section \<open>Notifying the device\<close>

definition virtqueue_kick_prepare_split ::
  "'o virtqueue_split \<Rightarrow> (bool \<times> 'o virtqueue_split) option" where
  "virtqueue_kick_prepare_split vq =
     (let wrap_around = (0x10000 \<le> num_added_since_kick vq);
          old = master_idx vq - ucast (num_added_since_kick vq);
          new = master_idx vq;
          vq = vq\<lparr>num_added_since_kick := 0\<rparr>
      in Some
        (if event_suppression vq
         then wrap_around \<or> vring_need_event (avail_event vq) new old
         else used_flags vq AND VIRTQ_USED_F_NO_NOTIFY = 0, vq))"

definition notification_cb_split :: "'o virtqueue_split \<Rightarrow> 'o virtqueue_split" where
  "notification_cb_split vq = vq\<lparr>doorbell := doorbell vq + 1\<rparr>"

definition virtqueue_kick_always_split :: "'o virtqueue_split \<Rightarrow> 'o virtqueue_split option" where
  "virtqueue_kick_always_split vq = Some (notification_cb_split (vq\<lparr>num_added_since_kick := 0\<rparr>))"

section \<open>Interrupt control\<close>

definition unmask_interrupt :: "'o virtqueue_split \<Rightarrow> 'o virtqueue_split" where
  "unmask_interrupt vq =
     (if \<not> virtqueue_is_interrupt_enabled_split vq
      then let f = master_flags vq AND NOT VIRTQ_AVAIL_F_NO_INTERRUPT
           in vq\<lparr>master_flags := f,
                 avail_flags := (if event_suppression vq then avail_flags vq else f)\<rparr>
      else vq)"

definition virtqueue_enable_cb_split ::
  "'o virtqueue_split \<Rightarrow> (bool \<times> 'o virtqueue_split) option" where
  "virtqueue_enable_cb_split vq =
     (let vq = unmask_interrupt vq; vq = vq\<lparr>used_event := last_used vq\<rparr>
      in Some (last_used vq = used_idx vq, vq))"

text \<open>The products, quotients and differences of \<open>u16\<close> values are computed in \<open>int\<close>.\<close>

definition virtqueue_enable_cb_delayed_split ::
  "'o virtqueue_split \<Rightarrow> (bool \<times> 'o virtqueue_split) option" where
  "virtqueue_enable_cb_delayed_split vq =
     (let vq = unmask_interrupt vq;
          bufs = (word_of_int (uint (master_idx vq - last_used vq) * 3 div 4) :: u16);
          vq = vq\<lparr>used_event := last_used vq + bufs\<rparr>
      in Some (uint (used_idx vq) - uint (last_used vq) \<le> uint bufs, vq))"

definition virtqueue_disable_cb_split :: "'o virtqueue_split \<Rightarrow> 'o virtqueue_split option" where
  "virtqueue_disable_cb_split vq = Some
     (if virtqueue_is_interrupt_enabled_split vq
      then let f = master_flags vq OR VIRTQ_AVAIL_F_NO_INTERRUPT
           in vq\<lparr>master_flags := f,
                 avail_flags := (if event_suppression vq then avail_flags vq else f)\<rparr>
      else vq)"

section \<open>Creation, shutdown and cleanup\<close>

fun init_free :: "nat \<Rightarrow> nat \<Rightarrow> vring_desc list \<Rightarrow> vring_desc list option" where
  "init_free i 0 ds = Some ds"
| "init_free i (Suc k) ds = do {
     d \<leftarrow> read_at ds i;
     ds \<leftarrow> write_at ds i (d\<lparr>d_flags := VIRTQ_DESC_F_NEXT, d_next := word_of_nat i + 1\<rparr>);
     init_free (i + 1) k ds
   }"

text \<open>
  \<open>vq\<close> supplies the ring memory and the owning device.  The inner \<open>None\<close> is NULL (the length
  is no power of two); the loop counter is a \<open>u16\<close>, so a longer ring never ends the loop.
\<close>

definition vring_new_virtqueue_split ::
  "u32 \<Rightarrow> 'o virtqueue_split \<Rightarrow> 'o virtqueue_split option option" where
  "vring_new_virtqueue_split n vq =
     (if n AND (n - 1) \<noteq> 0 then Some None
      else if 0x10000 < n - 1 then None
      else do {
        ds \<leftarrow> init_free 0 (unat (n - 1)) (desc vq);
        Some (Some (vq\<lparr>num := n, desc := ds, master_flags := 0, master_idx := 0,
          num_unused := n, num_added_since_kick := 0, first_unused := 0, last_used := 0,
          opaques := replicate (unat n) None\<rparr>))
      })"

abbreviation (input) zero_desc :: vring_desc where
  "zero_desc \<equiv> \<lparr>d_addr = 0, d_len = 0, d_flags = 0, d_next = 0\<rparr>"

definition zero_pages :: "'o virtqueue_split \<Rightarrow> 'o virtqueue_split" where
  "zero_pages vq = vq\<lparr>desc := replicate (unat (num vq)) zero_desc, avail_flags := 0,
     avail_idx := 0, avail_ring := replicate (unat (num vq)) 0, used_event := 0,
     used_flags := 0, used_idx := 0, used_ring := replicate (unat (num vq)) (0, 0),
     avail_event := 0\<rparr>"

definition virtqueue_shutdown_split :: "'o virtqueue_split \<Rightarrow> 'o virtqueue_split option" where
  "virtqueue_shutdown_split vq =
     (case vring_new_virtqueue_split (num vq) (zero_pages vq) of
        None \<Rightarrow> None | Some None \<Rightarrow> Some (zero_pages vq) | Some (Some vq) \<Rightarrow> Some vq)"

fun detach_scan :: "nat \<Rightarrow> nat \<Rightarrow> 'o virtqueue_split \<Rightarrow> ('o option \<times> 'o virtqueue_split) option" where
  "detach_scan i 0 vq = Some (None, vq)"
| "detach_scan i (Suc k) vq = do {
     opaque \<leftarrow> read_at (opaques vq) i;
     case opaque of
       None \<Rightarrow> detach_scan (i + 1) k vq
     | Some x \<Rightarrow> do {
         vq \<leftarrow> put_unused_desc_chain vq (word_of_nat i);
         Some (Some x, vq\<lparr>master_idx := master_idx vq - 1, avail_idx := master_idx vq - 1\<rparr>)
       }
   }"

definition virtqueue_detach_unused_buf_split ::
  "'o virtqueue_split \<Rightarrow> ('o option \<times> 'o virtqueue_split) option" where
  "virtqueue_detach_unused_buf_split vq = detach_scan 0 (unat (ucast (num vq) :: u16)) vq"

section \<open>The function table\<close>

definition split_ops :: "('o virtqueue_split, 'o) virtqueue_ops" where
  "split_ops =
     \<lparr>add_buf = virtqueue_add_buf_split, kick_prepare = virtqueue_kick_prepare_split,
      kick_always = virtqueue_kick_always_split, get_buf = virtqueue_get_buf_split,
      disable_cb = virtqueue_disable_cb_split, enable_cb = virtqueue_enable_cb_split,
      enable_cb_delayed = virtqueue_enable_cb_delayed_split,
      detach_unused_buf = virtqueue_detach_unused_buf_split,
      is_interrupt_enabled = virtqueue_is_interrupt_enabled_split,
      has_buf = virtqueue_has_buf_split, shutdown = virtqueue_shutdown_split,
      notification_cb = notification_cb_split\<rparr>"

section \<open>Free list, chains and the invariant\<close>

text \<open>
  \<open>path ds i xs\<close>: starting at index \<open>i\<close> the \<open>next\<close> links visit \<open>xs\<close>.  \<open>chain ds c\<close>: \<open>c\<close> is a
  descriptor chain, linked by \<open>next\<close> and ended by the first descriptor without NEXT.
\<close>

fun path :: "vring_desc list \<Rightarrow> u16 \<Rightarrow> nat list \<Rightarrow> bool" where
  "path ds i [] \<longleftrightarrow> True"
| "path ds i (x # xs) \<longleftrightarrow> x = unat i \<and> x < length ds \<and> path ds (d_next (ds ! x)) xs"

fun chain :: "vring_desc list \<Rightarrow> nat list \<Rightarrow> bool" where
  "chain ds [] \<longleftrightarrow> False"
| "chain ds [x] \<longleftrightarrow> x < length ds \<and> \<not> has_next (ds ! x)"
| "chain ds (x # y # ys) \<longleftrightarrow>
     x < length ds \<and> has_next (ds ! x) \<and> y = unat (d_next (ds ! x)) \<and> chain ds (y # ys)"

definition split_rel :: "'o virtqueue_split \<Rightarrow> nat list \<Rightarrow> nat list list \<Rightarrow> bool" where
  "split_rel vq fl cs \<longleftrightarrow>
     0 < unat (num vq) \<and> unat (num vq) \<le> 0x8000 \<and> (\<exists>k \<le> 15. num vq = 2 ^ k) \<and>
     length (desc vq) = unat (num vq) \<and> length (opaques vq) = unat (num vq) \<and>
     length (avail_ring vq) = unat (num vq) \<and> length (used_ring vq) = unat (num vq) \<and>
     path (desc vq) (first_unused vq) fl \<and> length fl = unat (num_unused vq) \<and>
     (\<forall>c \<in> set cs. chain (desc vq) c) \<and>
     mset fl + mset (concat cs) = mset [0..<unat (num vq)] \<and>
     (\<forall>i < unat (num vq). opaques vq ! i \<noteq> None \<longleftrightarrow> i \<in> set (map hd cs)) \<and>
     avail_idx vq = master_idx vq"

text \<open>The used entries the driver has not collected, and the chain heads they name.\<close>

definition used_entries :: "'o virtqueue_split \<Rightarrow> (u32 \<times> u32) list" where
  "used_entries vq =
     map (\<lambda>j. used_ring vq ! DESC_INDEX (num vq) (last_used vq + word_of_nat j))
       [0..<unat (used_idx vq - last_used vq)]"

definition used_heads :: "'o virtqueue_split \<Rightarrow> nat list" where
  "used_heads vq = map (\<lambda>(id, _). unat (ucast id :: u16)) (used_entries vq)"

definition honest_used :: "'o virtqueue_split \<Rightarrow> bool" where
  "honest_used vq \<longleftrightarrow> distinct (used_heads vq) \<and>
     (\<forall>h \<in> set (used_heads vq). h < length (opaques vq) \<and> opaques vq ! h \<noteq> None)"

definition split_inv :: "'o virtqueue_split \<Rightarrow> bool" where
  "split_inv vq \<longleftrightarrow> (\<exists>fl cs. split_rel vq fl cs) \<and> honest_used vq"

definition tokens :: "'o option list \<Rightarrow> 'o multiset" where
  "tokens xs = mset (concat (map (\<lambda>x. case x of None \<Rightarrow> [] | Some a \<Rightarrow> [a]) xs))"

definition split_inflight :: "'o virtqueue_split \<Rightarrow> 'o multiset" where
  "split_inflight vq = tokens (opaques vq)"

definition split_pending :: "'o virtqueue_split \<Rightarrow> ('o \<times> u32) list" where
  "split_pending vq =
     map (\<lambda>(id, len). (the (opaques vq ! unat (ucast id :: u16)), len)) (used_entries vq)"

definition split_room :: "'o virtqueue_split \<Rightarrow> nat" where
  "split_room vq = unat (num_unused vq)"

section \<open>Lemmas on paths, chains and tokens\<close>

lemma DESC_INDEX_less: "0 < unat n \<Longrightarrow> DESC_INDEX n i < unat n"
proof -
  assume n: "0 < unat n"
  have "ucast i AND (n - 1) \<le> n - 1" by (rule word_and_le1)
  then have "unat (ucast i AND (n - 1)) \<le> unat (n - 1)" by (simp add: word_le_nat_alt)
  also have "\<dots> < unat n" using n by (subst unat_minus_one) auto
  finally show ?thesis by (simp add: DESC_INDEX_def)
qed

lemma path_cong:
  "length ds' = length ds \<Longrightarrow> (\<And>x. x \<in> set xs \<Longrightarrow> d_next (ds' ! x) = d_next (ds ! x)) \<Longrightarrow>
   path ds' i xs = path ds i xs"
  by (induction xs arbitrary: i) auto

lemma path_append:
  "path ds i (xs @ ys) \<longleftrightarrow> path ds i xs \<and>
     path ds (if xs = [] then i else d_next (ds ! last xs)) ys"
  by (induction xs arbitrary: i) auto

lemma path_bound: "path ds i xs \<Longrightarrow> x \<in> set xs \<Longrightarrow> x < length ds"
  by (induction xs arbitrary: i) auto

lemma chain_cong:
  "length ds' = length ds \<Longrightarrow> (\<And>x. x \<in> set c \<Longrightarrow> ds' ! x = ds ! x) \<Longrightarrow> chain ds' c = chain ds c"
  by (induction ds' c rule: chain.induct) auto

lemma chain_nonempty: "chain ds c \<Longrightarrow> c \<noteq> []"
  by auto

lemma chain_bound: "chain ds c \<Longrightarrow> x \<in> set c \<Longrightarrow> x < length ds"
  by (induction ds c rule: chain.induct) auto

lemma chain_of_path:
  "path ds i c \<Longrightarrow> c \<noteq> [] \<Longrightarrow> (\<And>x. x \<in> set (butlast c) \<Longrightarrow> has_next (ds ! x)) \<Longrightarrow>
   \<not> has_next (ds ! last c) \<Longrightarrow> chain ds c"
proof (induction c arbitrary: i)
  case (Cons x c)
  then show ?case by (cases c) (auto split: if_splits)
qed simp

lemma path_of_chain:
  "chain ds c \<Longrightarrow> unat i = hd c \<Longrightarrow> path ds i c"
  by (induction ds c arbitrary: i rule: chain.induct) auto

lemma tokens_update:
  "i < length xs \<Longrightarrow> xs ! i = None \<Longrightarrow> tokens (xs[i := Some x]) = add_mset x (tokens xs)"
  unfolding tokens_def
  by (subst (2) id_take_nth_drop [of i xs], assumption)
     (simp add: upd_conv_take_nth_drop)

lemma tokens_remove:
  "i < length xs \<Longrightarrow> xs ! i = Some x \<Longrightarrow> tokens xs = add_mset x (tokens (xs[i := None]))"
  unfolding tokens_def
  by (subst (1) id_take_nth_drop [of i xs], assumption)
     (simp add: upd_conv_take_nth_drop)

lemma tokens_empty_iff: "tokens xs = {#} \<longleftrightarrow> (\<forall>x \<in> set xs. x = None)"
  by (auto simp: tokens_def split: option.splits)

lemma tokens_replicate [simp]: "tokens (replicate n None) = {#}"
  by (simp add: tokens_empty_iff)

section \<open>The free list operations\<close>

lemma has_next_flags [simp]:
  "has_next (d\<lparr>d_flags := f\<rparr>) \<longleftrightarrow> f AND VIRTQ_DESC_F_NEXT \<noteq> 0"
  "has_next \<lparr>d_addr = a, d_len = l, d_flags = f, d_next = n\<rparr> \<longleftrightarrow> f AND VIRTQ_DESC_F_NEXT \<noteq> 0"
  by (simp_all add: has_next_def)

lemma next_flag_set [simp]: "(1 OR f) AND (1 :: u16) \<noteq> 0"
proof -
  have "bit ((1 OR f) AND (1 :: u16)) 0" by (simp add: bit_simps)
  then show ?thesis by auto
qed

lemma next_flag_clear [simp]: "(f AND NOT 1) AND (1 :: u16) = 0"
  by (rule bit_word_eqI) (auto simp: bit_simps)

lemma num_unused_dec: "0 < unat u \<Longrightarrow> unat (u - 1 :: u32) = unat u - 1"
  by (subst unat_minus_one) auto

lemma get_unused_ok:
  "path (desc vq) (first_unused vq) (x # xs) \<Longrightarrow> 0 < unat (num_unused vq) \<Longrightarrow>
   get_unused_desc vq = Some (first_unused vq,
     vq\<lparr>first_unused := d_next (desc vq ! x), num_unused := num_unused vq - 1\<rparr>)"
  by (auto simp: get_unused_desc_def read_at_def word_less_nat_alt Let_def)

definition filled :: "vring_desc list \<Rightarrow> nat \<Rightarrow> scatterlist \<Rightarrow> bool \<Rightarrow> vring_desc list" where
  "filled ds x s write = ds[x := \<lparr>d_addr = sg_addr s, d_len = sg_length s,
     d_flags = VIRTQ_DESC_F_NEXT OR (if write then VIRTQ_DESC_F_WRITE else 0),
     d_next = d_next (ds ! x)\<rparr>]"

lemma length_filled [simp]: "length (filled ds x s w) = length ds"
  by (simp add: filled_def)

lemma d_next_filled [simp]: "d_next (filled ds x s w ! k) = d_next (ds ! k)"
  by (cases "x < length ds"; cases "k = x") (simp_all add: filled_def list_update_beyond)

lemma path_filled [simp]: "path (filled ds x s w) k ys = path ds k ys"
  by (rule path_cong) simp_all

lemma add_desc_ok:
  assumes "path (desc vq) (first_unused vq) (x # xs)" "0 < unat (num_unused vq)"
    "length (opaques vq) = length (desc vq)"
  shows "add_desc vq s w op = Some (first_unused vq,
    vq\<lparr>first_unused := d_next (desc vq ! x), num_unused := num_unused vq - 1,
       opaques := (case op of None \<Rightarrow> opaques vq | Some a \<Rightarrow> (opaques vq)[x := Some a]),
       desc := filled (desc vq) x s w\<rparr>)"
  using assms
  by (auto simp: add_desc_def get_unused_ok [OF assms(1,2)] write_at_def filled_def
      split: option.splits)

fun fill_all :: "vring_desc list \<Rightarrow> nat list \<Rightarrow> scatterlist list \<Rightarrow> nat \<Rightarrow> nat \<Rightarrow> vring_desc list" where
  "fill_all ds (x # xs) (s # sg) outs i = fill_all (filled ds x s (outs \<le> i)) xs sg outs (i + 1)"
| "fill_all ds _ _ outs i = ds"

lemma length_fill_all [simp]: "length (fill_all ds xs sg outs i) = length ds"
  by (induction ds xs sg outs i rule: fill_all.induct) auto

lemma fill_all_other: "k \<notin> set xs \<Longrightarrow> fill_all ds xs sg outs i ! k = ds ! k"
  by (induction ds xs sg outs i rule: fill_all.induct) (auto simp: filled_def)

lemma fill_all_next: "d_next (fill_all ds xs sg outs i ! k) = d_next (ds ! k)"
  by (induction ds xs sg outs i rule: fill_all.induct) simp_all

lemma fill_all_content:
  assumes "length xs = length sg" "distinct xs" "\<forall>x \<in> set xs. x < length ds" "j < length xs"
  shows "fill_all ds xs sg outs i ! (xs ! j) =
    \<lparr>d_addr = sg_addr (sg ! j), d_len = sg_length (sg ! j),
     d_flags = VIRTQ_DESC_F_NEXT OR (if outs \<le> i + j then VIRTQ_DESC_F_WRITE else 0),
     d_next = d_next (ds ! (xs ! j))\<rparr>"
  using assms
proof (induction ds xs sg outs i arbitrary: j rule: fill_all.induct)
  case (1 ds x xs s sg outs i)
  show ?case
  proof (cases j)
    case 0
    then show ?thesis using 1 by (simp add: fill_all_other filled_def)
  next
    case (Suc k)
    then have "x \<noteq> xs ! k" using 1 by (auto simp: nth_mem)
    then show ?thesis using 1 Suc by (simp add: filled_def)
  qed
qed simp_all

lemma path_fill_all [simp]: "path (fill_all ds xs sg outs i) k ys = path ds k ys"
  by (rule path_cong) (simp_all add: fill_all_next)

lemma add_rest_ok:
  assumes "path (desc vq) (first_unused vq) (xs @ ys)" "length xs \<le> unat (num_unused vq)"
    "length (opaques vq) = length (desc vq)" "length xs = length sg"
  shows "\<exists>last. add_rest vq sg outs i prev = Some (last,
      vq\<lparr>first_unused := (if xs = [] then first_unused vq else d_next (desc vq ! List.last xs)),
         num_unused := num_unused vq - word_of_nat (length xs),
         desc := fill_all (desc vq) xs sg outs i\<rparr>) \<and>
     unat last = (if xs = [] then unat prev else List.last xs)"
  using assms
proof (induction xs arbitrary: vq sg i prev)
  case Nil
  then show ?case by simp
next
  case (Cons x xs)
  then obtain s sg' where sg: "sg = s # sg'" by (cases sg) auto
  let ?vq = "vq\<lparr>first_unused := d_next (desc vq ! x), num_unused := num_unused vq - 1,
       desc := filled (desc vq) x s (outs \<le> i)\<rparr>"
  have a: "add_desc vq s (outs \<le> i) None = Some (first_unused vq, ?vq)"
    using Cons.prems by (subst add_desc_ok [of _ x "xs @ ys"]) auto
  have p: "path (desc ?vq) (first_unused ?vq) (xs @ ys)"
    using Cons.prems(1) by auto
  have "length xs \<le> unat (num_unused ?vq)"
    using Cons.prems(2) by (simp add: num_unused_dec)
  with Cons.IH [OF p, of sg' "i + 1" "first_unused vq"] Cons.prems sg
  obtain last where l: "add_rest ?vq sg' outs (i + 1) (first_unused vq) = Some (last,
      ?vq\<lparr>first_unused := (if xs = [] then first_unused ?vq else d_next (desc ?vq ! List.last xs)),
         num_unused := num_unused ?vq - word_of_nat (length xs),
         desc := fill_all (desc ?vq) xs sg' outs (i + 1)\<rparr>)"
     "unat last = (if xs = [] then unat (first_unused vq) else List.last xs)" by auto
  show ?case
    using a l Cons.prems sg by (auto simp: algebra_simps)
qed

section \<open>Adding a buffer keeps the invariant\<close>

lemma split_rel_distinct: "split_rel vq fl cs \<Longrightarrow> distinct (fl @ concat cs)"
  by (metis distinct_upt mset_append mset_eq_imp_distinct_iff split_rel_def)

lemma split_rel_bound:
  "split_rel vq fl cs \<Longrightarrow> i \<in> set fl \<or> i \<in> set (concat cs) \<Longrightarrow> i < unat (num vq)"
  using mset_eq_setD [of "fl @ concat cs" "[0..<unat (num vq)]"] by (auto simp: split_rel_def)

definition clear_next :: "vring_desc list \<Rightarrow> nat \<Rightarrow> vring_desc list" where
  "clear_next ds l = ds[l := (ds ! l)\<lparr>d_flags := d_flags (ds ! l) AND NOT VIRTQ_DESC_F_NEXT\<rparr>]"

lemma length_clear_next [simp]: "length (clear_next ds l) = length ds"
  by (simp add: clear_next_def)

lemma clear_next_next [simp]: "d_next (clear_next ds l ! k) = d_next (ds ! k)"
  by (cases "l < length ds"; cases "k = l") (simp_all add: clear_next_def list_update_beyond)

lemma clear_next_other [simp]: "k \<noteq> l \<Longrightarrow> clear_next ds l ! k = ds ! k"
  by (simp add: clear_next_def)

lemma path_clear_next [simp]: "path (clear_next ds l) k xs = path ds k xs"
  by (rule path_cong) simp_all

text \<open>The state after a successful direct add: the first \<open>n\<close> free descriptors become the chain.\<close>

definition added :: "'o virtqueue_split \<Rightarrow> nat list \<Rightarrow> scatterlist list \<Rightarrow> nat \<Rightarrow> 'o \<Rightarrow> 'o virtqueue_split" where
  "added vq c sg outs x = vq
     \<lparr>first_unused := d_next (desc vq ! last c),
      num_unused := num_unused vq - word_of_nat (length c),
      opaques := (opaques vq)[hd c := Some x],
      desc := clear_next (fill_all (desc vq) c sg outs 0) (last c),
      avail_ring := (avail_ring vq)[DESC_INDEX (num vq) (master_idx vq) := first_unused vq],
      master_idx := master_idx vq + 1, avail_idx := master_idx vq + 1,
      num_added_since_kick := num_added_since_kick vq + 1\<rparr>"

lemma add_buf_eq:
  assumes "split_rel vq fl cs" "sg \<noteq> []" "outs + ins = length sg" "length sg \<le> length fl"
  shows "virtqueue_add_buf_split vq sg outs ins x 0 p =
    Some (VQ_ADD_BUFFER_SUCCESS, added vq (take (length sg) fl) sg outs x)"
proof -
  obtain s sg' where sg: "sg = s # sg'" using assms(2) by (cases sg) auto
  obtain h fl' where fl: "fl = h # fl'" using assms(4) sg by (cases fl) auto
  let ?c = "take (length sg') fl'" and ?r = "drop (length sg') fl'"
  have P: "path (desc vq) (first_unused vq) (h # ?c @ ?r)" and L: "length fl = unat (num_unused vq)"
    and O: "length (opaques vq) = length (desc vq)" and A: "length (avail_ring vq) = unat (num vq)"
    and N: "0 < unat (num vq)"
    using assms(1) fl by (auto simp: split_rel_def)
  have nu: "0 < unat (num_unused vq)" using L fl by simp
  let ?vq = "vq\<lparr>first_unused := d_next (desc vq ! h), num_unused := num_unused vq - 1,
     opaques := (opaques vq)[h := Some x], desc := filled (desc vq) h s (outs = 0)\<rparr>"
  have a1: "add_desc vq s (outs = 0) (Some x) = Some (first_unused vq, ?vq)"
    using add_desc_ok [OF P nu O] by simp
  have lc: "length ?c = length sg'" using assms(4) fl sg by simp
  have "length ?c \<le> unat (num_unused ?vq)"
    using lc assms(4) L sg by (simp add: num_unused_dec [OF nu])
  moreover have "path (desc ?vq) (first_unused ?vq) (?c @ ?r)" using P by auto
  ultimately obtain l where
    r: "add_rest ?vq sg' outs 1 (first_unused vq) = Some (l,
      ?vq\<lparr>first_unused := (if ?c = [] then first_unused ?vq else d_next (desc ?vq ! last ?c)),
         num_unused := num_unused ?vq - word_of_nat (length ?c),
         desc := fill_all (desc ?vq) ?c sg' outs 1\<rparr>)"
    and l: "unat l = (if ?c = [] then unat (first_unused vq) else last ?c)"
    using add_rest_ok [of ?vq ?c ?r sg' outs 1 "first_unused vq"] O lc by auto
  have h: "unat (first_unused vq) = h" using P by simp
  have l': "unat l = last (h # ?c)" using l h by simp
  have "last (h # ?c) \<in> set (h # ?c @ ?r)" by (metis Un_iff append_Cons last_in_set list.discI set_append)
  then have lb: "last (h # ?c) < length (desc vq)" using path_bound [OF P] by blast
  have d: "DESC_INDEX (num vq) (master_idx vq) < length (avail_ring vq)"
    using DESC_INDEX_less [OF N] A by simp
  show ?thesis
    using assms(3,4) L a1 r l' lb d
    by (simp add: virtqueue_add_buf_split_def Let_def sg fl read_at_def write_at_def
        publish_avail_def added_def clear_next_def lc) 
qed

lemma added_desc:
  assumes "path (desc vq) i c" "distinct c" "c \<noteq> []" "length sg = length c" "j < length c"
  shows "desc (added vq c sg outs x) ! (c ! j) =
    \<lparr>d_addr = sg_addr (sg ! j), d_len = sg_length (sg ! j),
     d_flags = (if j = length c - 1 then 0 else VIRTQ_DESC_F_NEXT) OR
               (if outs \<le> j then VIRTQ_DESC_F_WRITE else 0),
     d_next = d_next (desc vq ! (c ! j))\<rparr>"
proof -
  have b: "\<forall>x \<in> set c. x < length (desc vq)" using path_bound [OF assms(1)] by blast
  note f = fill_all_content [OF assms(4) [symmetric] assms(2) b, of _ outs 0]
  have cb: "c ! j < length (desc vq)" using b assms(5) by simp
  show ?thesis
  proof (cases "j = length c - 1")
    case True
    then have "c ! j = last c" using assms(3) by (simp add: last_conv_nth)
    then show ?thesis using f [OF assms(5)] True cb
      by (simp add: added_def clear_next_def)
  next
    case False
    then have "c ! j \<noteq> last c" using assms(2,3,5)
      by (simp add: last_conv_nth nth_eq_iff_index_eq)
    then show ?thesis using f [OF assms(5)] False by (simp add: added_def)
  qed
qed

lemma added_desc_other:
  "k \<notin> set c \<Longrightarrow> c \<noteq> [] \<Longrightarrow> desc (added vq c sg outs x) ! k = desc vq ! k"
  by (simp add: added_def fill_all_other clear_next_def) (metis last_in_set fill_all_other nth_list_update_neq)

lemma added_fields [simp]:
  "num (added vq c sg outs x) = num vq" "used_ring (added vq c sg outs x) = used_ring vq"
  "used_idx (added vq c sg outs x) = used_idx vq" "last_used (added vq c sg outs x) = last_used vq"
  "opaques (added vq c sg outs x) = (opaques vq)[hd c := Some x]"
  "length (desc (added vq c sg outs x)) = length (desc vq)"
  "avail_idx (added vq c sg outs x) = master_idx (added vq c sg outs x)"
  "d_next (desc (added vq c sg outs x) ! k) = d_next (desc vq ! k)"
  by (simp_all add: added_def fill_all_next)

lemma last_flag [simp]: "\<not> has_next \<lparr>d_addr = a, d_len = l, d_flags = 0, d_next = n\<rparr>"
    "\<not> has_next \<lparr>d_addr = a, d_len = l, d_flags = VIRTQ_DESC_F_WRITE, d_next = n\<rparr>"
  by simp_all

lemma split_rel_added:
  assumes rel: "split_rel vq fl cs" and "sg \<noteq> []" "length sg \<le> length fl"
  defines "c \<equiv> take (length sg) fl"
  shows "split_rel (added vq c sg outs x) (drop (length sg) fl) (c # cs)"
    "\<forall>i \<in> set c. opaques vq ! i = None"
proof -
  let ?vq = "added vq c sg outs x" and ?r = "drop (length sg) fl"
  have fl: "fl = c @ ?r" and ne: "c \<noteq> []" and lc: "length sg = length c"
    using assms(2,3) by (auto simp: c_def)
  have dist: "distinct (c @ ?r @ concat cs)" using split_rel_distinct [OF rel] fl by (metis append_assoc)
  have P: "path (desc vq) (first_unused vq) (c @ ?r)" using rel fl by (simp add: split_rel_def)
  have Pc: "path (desc vq) (first_unused vq) c" using P path_append by blast
  note D = added_desc [OF Pc _ ne lc, of _ outs x]
  have dc: "distinct c" using dist by simp
  have pr: "path (desc ?vq) (first_unused ?vq) ?r"
    using P ne by (simp add: path_append added_def path_cong [OF _ fill_all_next])
  have chain_c: "chain (desc ?vq) c"
  proof (rule chain_of_path [OF _ ne])
    show "path (desc ?vq) (first_unused vq) c" using Pc by (subst path_cong) simp_all
    show "has_next (desc ?vq ! y)" if "y \<in> set (butlast c)" for y
    proof -
      from that obtain j where j: "j < length (butlast c)" "butlast c ! j = y"
        by (metis in_set_conv_nth)
      then have "c ! j = y" "j < length c" "j \<noteq> length c - 1" by (auto simp: nth_butlast)
      then show ?thesis using D [OF dc, of j] by simp
    qed
    have "length c - 1 < length c" using ne by simp
    from D [OF dc this] ne show "\<not> has_next (desc ?vq ! last c)" by (simp add: last_conv_nth)
  qed
  have chain_cs: "chain (desc ?vq) c'" if "c' \<in> set cs" for c'
  proof -
    have "set c \<inter> set c' = {}" using dist that by fastforce
    then show ?thesis using rel that ne
      by (subst chain_cong [of _ "desc vq"]) (auto simp: split_rel_def intro!: added_desc_other)
  qed
  have hds: "set (map hd cs) \<subseteq> set (concat cs)"
    using rel by (auto simp: split_rel_def intro!: bexI hd_in_set dest: chain_nonempty)
  have cN: "i < unat (num vq)" if "i \<in> set c" for i
    using split_rel_bound [OF rel, of i] that fl by (metis Un_iff set_append)
  have hc: "hd c \<in> set c" using ne by simp
  show op: "\<forall>i \<in> set c. opaques vq ! i = None"
  proof
    fix i assume i: "i \<in> set c"
    then have "i \<notin> set (concat cs)" using dist by auto
    then show "opaques vq ! i = None" using rel hds cN [OF i] unfolding split_rel_def by blast
  qed
  have nu: "unat (num_unused ?vq) = length ?r"
    using rel lc assms(3) unat_sub_of_nat [of "length c" "num_unused vq"]
    by (simp add: split_rel_def added_def)
  have mset_fl: "mset fl = mset c + mset ?r" using arg_cong [OF fl, of mset] by simp
  show "split_rel ?vq ?r (c # cs)"
    unfolding split_rel_def
  proof (intro conjI)
    show "\<forall>i < unat (num ?vq). (opaques ?vq ! i \<noteq> None) = (i \<in> set (map hd (c # cs)))"
      using rel hc cN by (auto simp: split_rel_def nth_list_update)
    show "mset ?r + mset (concat (c # cs)) = mset [0..<unat (num ?vq)]"
      using rel mset_fl by (simp add: split_rel_def ac_simps)
  qed (use rel pr chain_c chain_cs nu in \<open>auto simp: split_rel_def added_def\<close>)
qed

section \<open>Freeing a chain keeps the invariant\<close>

lemma walk_ok:
  "chain (desc vq) c \<Longrightarrow> unat i = hd c \<Longrightarrow>
   \<exists>l. put_unused_walk i vq =
     Some (l, vq\<lparr>num_unused := num_unused vq + word_of_nat (length c - 1)\<rparr>) \<and> unat l = last c"
proof (induction c arbitrary: i vq)
  case Nil
  then show ?case by simp
next
  case (Cons x c)
  show ?case
  proof (cases c)
    case Nil
    then show ?thesis using Cons.prems by (subst put_unused_walk.simps) (simp add: read_at_def)
  next
    case (Cons y ys)
    let ?vq = "vq\<lparr>num_unused := num_unused vq + 1\<rparr>"
    have "chain (desc ?vq) c" "unat (d_next (desc vq ! x)) = hd c"
      using Cons.prems Cons by auto
    from Cons.IH [OF this] obtain l where
      "put_unused_walk (d_next (desc vq ! x)) ?vq =
        Some (l, ?vq\<lparr>num_unused := num_unused ?vq + word_of_nat (length c - 1)\<rparr>)" "unat l = last c"
      by blast
    then show ?thesis using Cons.prems Cons
      by (subst put_unused_walk.simps) (simp add: read_at_def algebra_simps)
  qed
qed

definition freed :: "'o virtqueue_split \<Rightarrow> u16 \<Rightarrow> nat list \<Rightarrow> 'o virtqueue_split" where
  "freed vq i c = vq
     \<lparr>opaques := (opaques vq)[hd c := None],
      num_unused := num_unused vq + word_of_nat (length c),
      desc := (desc vq)[last c :=
        (desc vq ! last c)\<lparr>d_flags := VIRTQ_DESC_F_NEXT, d_next := first_unused vq\<rparr>],
      first_unused := i\<rparr>"

lemma put_unused_ok:
  assumes "chain (desc vq) c" "unat i = hd c" "hd c < length (opaques vq)"
  shows "put_unused_desc_chain vq i = Some (freed vq i c)"
proof -
  let ?vq = "vq\<lparr>opaques := (opaques vq)[hd c := None]\<rparr>"
  obtain l where l: "put_unused_walk i ?vq =
     Some (l, ?vq\<lparr>num_unused := num_unused ?vq + word_of_nat (length c - 1)\<rparr>)" "unat l = last c"
    using walk_ok [of ?vq c i] assms(1,2) by auto
  have ne: "c \<noteq> []" using assms(1) by auto
  have "last c < length (desc vq)" using chain_bound [OF assms(1)] ne by simp
  moreover have "num_unused vq + word_of_nat (length c - 1) + 1 = num_unused vq + word_of_nat (length c)"
    using ne by (cases c) simp_all
  ultimately show ?thesis
    using assms(2,3) l by (simp add: put_unused_desc_chain_def write_at_def read_at_def freed_def)
qed

lemma path_cong_butlast:
  "length ds' = length ds \<Longrightarrow>
   (\<And>x. x \<in> set (butlast xs) \<Longrightarrow> d_next (ds' ! x) = d_next (ds ! x)) \<Longrightarrow>
   path ds' i xs = path ds i xs"
proof (induction xs arbitrary: i)
  case (Cons x xs)
  then show ?case by (cases xs) auto
qed simp

lemma freed_fields [simp]:
  "num (freed vq i c) = num vq" "used_ring (freed vq i c) = used_ring vq"
  "used_idx (freed vq i c) = used_idx vq" "last_used (freed vq i c) = last_used vq"
  "opaques (freed vq i c) = (opaques vq)[hd c := None]"
  "avail_ring (freed vq i c) = avail_ring vq"
  "avail_idx (freed vq i c) = avail_idx vq" "master_idx (freed vq i c) = master_idx vq"
  "first_unused (freed vq i c) = i"
  "num_unused (freed vq i c) = num_unused vq + word_of_nat (length c)"
  "length (desc (freed vq i c)) = length (desc vq)"
  by (simp_all add: freed_def)

lemma split_rel_freed:
  assumes rel: "split_rel vq fl (a @ c # b)" and i: "unat i = hd c"
  shows "split_rel (freed vq i c) (c @ fl) (a @ b)"
proof -
  let ?vq = "freed vq i c"
  have ch: "chain (desc vq) c" using rel by (simp add: split_rel_def)
  then have ne: "c \<noteq> []" by auto
  have dist: "distinct (fl @ concat a @ c @ concat b)" using split_rel_distinct [OF rel] by simp
  have other: "desc ?vq ! x = desc vq ! x" if "last c \<noteq> x" for x using that by (simp add: freed_def)
  have lb: "last c < length (desc vq)" using chain_bound [OF ch] ne by simp
  have N: "length (desc vq) = unat (num vq)" using rel by (simp add: split_rel_def)
  have "last c \<notin> set (butlast c)" using dist ne
    by (metis append_butlast_last_id distinct_append not_distinct_conv_prefix)
  then have "last c \<noteq> x" if "x \<in> set (butlast c)" for x using that by auto
  then have pc: "path (desc ?vq) i c" using path_of_chain [OF ch i]
    by (subst path_cong_butlast) (auto simp: other)
  have "last c \<notin> set fl" using dist ne by auto
  then have "d_next (desc ?vq ! x) = d_next (desc vq ! x)" if "x \<in> set fl" for x
    using that by (subst other) auto
  then have pf: "path (desc ?vq) (first_unused vq) fl" using rel
    by (subst path_cong [of _ "desc vq"]) (simp_all add: split_rel_def)
  have p: "path (desc ?vq) i (c @ fl)" using pc pf lb ne by (simp add: path_append freed_def)
  have len: "length fl + length c \<le> unat (num vq)"
  proof -
    have "size (mset fl + mset (concat (a @ c # b))) = unat (num vq)"
      using rel by (simp only: split_rel_def) simp
    then show ?thesis by simp
  qed
  have nu: "unat (num_unused ?vq) = length (c @ fl)"
    using rel len by (subst freed_fields, subst unat_add_of_nat) (auto simp: split_rel_def)
  have chs: "chain (desc ?vq) c'" if "c' \<in> set (a @ b)" for c'
  proof -
    have "set c \<inter> (set (concat a) \<union> set (concat b)) = {}" using dist by auto
    moreover have "set c' \<subseteq> set (concat a) \<union> set (concat b)" using that by auto
    ultimately have "last c \<notin> set c'" using last_in_set [OF ne] by blast
    then show ?thesis using rel that
      by (subst chain_cong [of _ "desc vq"]) (auto simp: split_rel_def intro!: other)
  qed
  have hn: "hd c \<notin> set (map hd (a @ b))"
  proof
    assume "hd c \<in> set (map hd (a @ b))"
    then obtain c' where c': "c' \<in> set (a @ b)" "hd c = hd c'" by auto
    then have "c' \<noteq> []" using rel chain_nonempty by (fastforce simp: split_rel_def)
    then have "hd c \<in> set c'" using c' by simp
    then have "hd c \<in> set (concat a) \<union> set (concat b)" using c' by auto
    moreover have "set c \<inter> (set (concat a) \<union> set (concat b)) = {}" using dist by auto
    ultimately show False using hd_in_set [OF ne] by blast
  qed
  show ?thesis unfolding split_rel_def
  proof (intro conjI)
    show "\<forall>j < unat (num ?vq). (opaques ?vq ! j \<noteq> None) = (j \<in> set (map hd (a @ b)))"
      using rel hn by (fastforce simp: split_rel_def nth_list_update_lt)
    show "mset (c @ fl) + mset (concat (a @ b)) = mset [0..<unat (num ?vq)]"
      using rel by (simp add: split_rel_def ac_simps)
    show "\<forall>c' \<in> set (a @ b). chain (desc ?vq) c'" using chs by blast
  qed (use rel p nu in \<open>auto simp: split_rel_def\<close>)
qed

section \<open>The operations keep the invariant\<close>

lemma split_rel_find_chain:
  assumes "split_rel vq fl cs" "i < unat (num vq)" "opaques vq ! i \<noteq> None"
  obtains a c b where "cs = a @ c # b" "hd c = i" "chain (desc vq) c"
proof -
  have "i \<in> set (map hd cs)" using assms by (simp add: split_rel_def)
  then obtain c where c: "c \<in> set cs" "hd c = i" by auto
  then obtain a b where "cs = a @ c # b" by (meson split_list)
  with c assms(1) that show thesis by (auto simp: split_rel_def)
qed

lemma used_entries_unfold:
  assumes "last_used vq \<noteq> used_idx vq"
  shows "used_entries vq = used_ring vq ! DESC_INDEX (num vq) (last_used vq) #
     used_entries (vq\<lparr>last_used := last_used vq + 1\<rparr>)"
proof -
  let ?n = "unat (used_idx vq - last_used vq)"
  have n0: "used_idx vq - last_used vq \<noteq> 0" using assms by auto
  then have n: "?n = Suc (unat (used_idx vq - (last_used vq + 1)))"
    using unat_minus_one [OF n0] unat_gt_0 [of "used_idx vq - last_used vq"]
    by (simp add: diff_diff_eq [symmetric] del: unat_gt_0)
  show ?thesis unfolding used_entries_def n
    by (subst upt_conv_Cons) (simp_all add: map_Suc_upt [symmetric] algebra_simps del: upt_Suc)
qed

lemma used_cong:
  assumes "used_entries vq' = used_entries vq"
    "\<And>h. h \<in> set (used_heads vq) \<Longrightarrow> opaques vq' ! h = opaques vq ! h"
    "length (opaques vq') = length (opaques vq)"
  shows "split_pending vq' = split_pending vq" "honest_used vq \<Longrightarrow> honest_used vq'"
proof -
  have "opaques vq' ! unat (ucast (fst e) :: u16) = opaques vq ! unat (ucast (fst e) :: u16)"
    if "e \<in> set (used_entries vq)" for e
    using that assms(2) by (auto simp: used_heads_def split_beta)
  then show "split_pending vq' = split_pending vq"
    using assms(1) by (auto simp: split_pending_def split_beta)
  have "used_heads vq' = used_heads vq" using assms(1) by (simp add: used_heads_def)
  then show "honest_used vq \<Longrightarrow> honest_used vq'" using assms(2,3) by (simp add: honest_used_def)
qed

lemma split_inv_freed:
  assumes rel: "split_rel vq fl (a @ c # b)" and i: "unat i = hd c"
    and h: "honest_used vq" "hd c \<notin> set (used_heads vq)"
  shows "split_inv (freed vq i c)"
proof -
  have "honest_used (freed vq i c)"
  proof (rule used_cong(2) [OF _ _ _ h(1)])
    show "opaques (freed vq i c) ! k = opaques vq ! k" if "k \<in> set (used_heads vq)" for k
      using h(2) that by (metis freed_fields(5) nth_list_update_neq)
  qed (simp_all add: used_entries_def)
  then show ?thesis using split_rel_freed [OF rel i] by (auto simp: split_inv_def)
qed

lemma split_inv_cong:
  assumes "split_inv vq" "num vq' = num vq" "desc vq' = desc vq" "opaques vq' = opaques vq"
    "length (avail_ring vq') = length (avail_ring vq)" "used_ring vq' = used_ring vq"
    "first_unused vq' = first_unused vq" "num_unused vq' = num_unused vq"
    "avail_idx vq' = master_idx vq'" "used_idx vq' = used_idx vq" "last_used vq' = last_used vq"
  shows "split_inv vq'" "split_inflight vq' = split_inflight vq"
    "split_pending vq' = split_pending vq" "split_room vq' = split_room vq"
proof -
  have "used_entries vq' = used_entries vq" using assms by (simp add: used_entries_def)
  then show "split_pending vq' = split_pending vq" using assms by (simp add: split_pending_def)
  have "honest_used vq'" using assms \<open>used_entries vq' = used_entries vq\<close>
    by (simp add: split_inv_def honest_used_def used_heads_def)
  moreover obtain fl cs where "split_rel vq fl cs" using assms(1) by (auto simp: split_inv_def)
  then have "split_rel vq' fl cs" using assms(2-) by (simp add: split_rel_def)
  ultimately show "split_inv vq'" by (auto simp: split_inv_def)
qed (use assms in \<open>simp_all add: split_inflight_def split_room_def\<close>)

lemma split_add_ok:
  assumes "split_inv vq" "sg \<noteq> []" "outs + ins = length sg" "length sg \<le> split_room vq"
  shows "\<exists>vq'. virtqueue_add_buf_split vq sg outs ins x 0 0 = Some (VQ_ADD_BUFFER_SUCCESS, vq') \<and>
    split_inv vq' \<and> split_inflight vq' = add_mset x (split_inflight vq) \<and>
    split_pending vq' = split_pending vq \<and> split_room vq' + length sg = split_room vq"
proof -
  obtain fl cs where rel: "split_rel vq fl cs" and hon: "honest_used vq"
    using assms(1) by (auto simp: split_inv_def)
  have len: "length sg \<le> length fl" using assms(4) rel by (simp add: split_rel_def split_room_def)
  let ?c = "take (length sg) fl"
  let ?vq = "added vq ?c sg outs x"
  have ue: "used_entries ?vq = used_entries vq" by (simp add: used_entries_def)
  have hc: "hd ?c \<in> set ?c" using assms(2) len by (intro hd_in_set) auto
  then have hN: "opaques vq ! hd ?c = None" "hd ?c < length (opaques vq)"
    using split_rel_added(2) [OF rel assms(2) len] split_rel_bound [OF rel] rel
    by (auto simp: split_rel_def dest: in_set_takeD)
  have op: "opaques ?vq ! h = opaques vq ! h" if "h \<in> set (used_heads vq)" for h
  proof -
    have "hd ?c \<noteq> h" using hon hN(1) that by (auto simp: honest_used_def)
    then show ?thesis by simp
  qed
  have hon': "honest_used ?vq" and pend: "split_pending ?vq = split_pending vq"
    using used_cong [OF ue op] hon by simp_all
  have room: "split_room ?vq + length sg = split_room vq"
    using assms(4) len unat_sub_of_nat [of "length sg" "num_unused vq"]
    by (simp add: split_room_def added_def)
  have "split_inflight ?vq = add_mset x (split_inflight vq)"
    using hN by (simp add: split_inflight_def tokens_update)
  then show ?thesis
    using add_buf_eq [OF rel assms(2,3) len, of x 0] split_rel_added(1) [OF rel assms(2) len, of outs x]
      hon' pend room unfolding split_inv_def by metis
qed

lemma split_add_full:
  assumes "outs + ins = length sg" "split_room vq < length sg"
  shows "virtqueue_add_buf_split vq sg outs ins x 0 0 = Some (- ENOSPC, vq)"
  using assms by (simp add: virtqueue_add_buf_split_def Let_def split_room_def)

lemma used_entries_empty: "used_entries vq = [] \<longleftrightarrow> last_used vq = used_idx vq"
proof
  assume "used_entries vq = []"
  then have "unat (used_idx vq - last_used vq) = 0" by (simp add: used_entries_def)
  then have "used_idx vq - last_used vq = 0" by (simp only: unsigned_eq_0_iff)
  then show "last_used vq = used_idx vq" by simp
qed (simp add: used_entries_def)

lemma split_pending_empty: "split_pending vq = [] \<longleftrightarrow> last_used vq = used_idx vq"
  by (simp add: split_pending_def used_entries_empty)

lemma split_get_empty: "split_pending vq = [] \<Longrightarrow> virtqueue_get_buf_split vq = Some (None, vq)"
  by (simp add: split_pending_empty virtqueue_get_buf_split_def)

lemma split_get_pending:
  assumes "split_inv vq" "split_pending vq = (x, len) # rest"
  shows "\<exists>vq'. virtqueue_get_buf_split vq = Some (Some (x, len), vq') \<and> split_inv vq' \<and>
    split_pending vq' = rest \<and> split_inflight vq = add_mset x (split_inflight vq') \<and>
    split_room vq < split_room vq'"
proof -
  obtain fl cs where rel: "split_rel vq fl cs" and hon: "honest_used vq"
    using assms(1) by (auto simp: split_inv_def)
  have ne: "last_used vq \<noteq> used_idx vq" using assms(2)
    by (auto simp: split_pending_def used_entries_def)
  let ?vq1 = "vq\<lparr>last_used := last_used vq + 1\<rparr>"
  obtain id len' where e: "used_ring vq ! DESC_INDEX (num vq) (last_used vq) = (id, len')" by force
  let ?i = "ucast id :: u16"
  have ue: "used_entries vq = (id, len') # used_entries ?vq1"
    using used_entries_unfold [OF ne] e by simp
  then have x: "x = the (opaques vq ! unat ?i)" "len' = len"
    "rest = map (\<lambda>(id, len). (the (opaques vq ! unat (ucast id :: u16)), len)) (used_entries ?vq1)"
    using assms(2) by (auto simp: split_pending_def)
  have h: "unat ?i < length (opaques vq)" "opaques vq ! unat ?i \<noteq> None"
    "unat ?i \<notin> set (used_heads ?vq1)" "honest_used ?vq1"
    using hon ue by (auto simp: honest_used_def used_heads_def)
  then have sx: "opaques vq ! unat ?i = Some x" using x by auto
  have rel1: "split_rel ?vq1 fl cs" using rel by (simp add: split_rel_def)
  have lN: "length (opaques vq) = unat (num vq)" "length (used_ring vq) = unat (num vq)" "0 < unat (num vq)"
    using rel by (simp_all add: split_rel_def)
  obtain a c b where cs: "cs = a @ c # b" "hd c = unat ?i" "chain (desc vq) c"
    using split_rel_find_chain [OF rel _ h(2)] h(1) lN by metis
  let ?vq2 = "freed ?vq1 ?i c"
  let ?vq3 = "if event_suppression vq \<and> virtqueue_is_interrupt_enabled_split vq
              then ?vq2\<lparr>used_event := last_used vq + 1\<rparr> else ?vq2"
  have put: "put_unused_desc_chain vq ?i = Some (freed vq ?i c)"
    using put_unused_ok [of vq c ?i] cs h(1) by simp
  have com: "(freed vq ?i c)\<lparr>last_used := last_used vq + 1\<rparr> = ?vq2" by (simp add: freed_def)
  have get: "virtqueue_get_buf_split vq = Some (Some (x, len), ?vq3)"
    using ne e x(2) h(1) sx put com lN DESC_INDEX_less [OF lN(3)]
    by (simp add: virtqueue_get_buf_split_def read_at_def Let_def freed_def
        virtqueue_is_interrupt_enabled_split_def)
  have inv2: "split_inv ?vq2"
    using split_inv_freed [of ?vq1 fl a c b ?i] rel1 cs h by simp
  then have "avail_idx ?vq2 = master_idx ?vq2" by (auto simp: split_inv_def split_rel_def)
  then have inv3: "split_inv ?vq3" "split_inflight ?vq3 = split_inflight ?vq2"
     "split_pending ?vq3 = split_pending ?vq2" "split_room ?vq3 = split_room ?vq2"
    using split_inv_cong [OF inv2, of ?vq3] by simp_all
  have "split_pending ?vq2 = split_pending ?vq1"
  proof (rule used_cong(1))
    show "opaques ?vq2 ! k = opaques ?vq1 ! k" if "k \<in> set (used_heads ?vq1)" for k
      using h(3) cs(2) that by (metis freed_fields(5) nth_list_update_neq)
  qed (simp_all add: used_entries_def)
  then have "split_pending ?vq2 = rest" using x(3) by (simp add: split_pending_def)
  moreover have "split_inflight vq = add_mset x (split_inflight ?vq2)"
    using tokens_remove [OF h(1) sx] cs(2) by (simp add: split_inflight_def)
  moreover have "split_room vq < split_room ?vq2"
  proof -
    have rels: "split_rel ?vq2 (c @ fl) (a @ b)" using split_rel_freed [of ?vq1 fl a c b ?i] rel1 cs by simp
    then have "split_room ?vq2 = length c + length fl" unfolding split_rel_def split_room_def by simp
    moreover have "split_room vq = length fl" using rel by (simp add: split_rel_def split_room_def)
    ultimately show ?thesis using cs(3) by (cases c) auto
  qed
  ultimately show ?thesis using get inv3 by auto
qed

lemma detach_scan_none:
  "i + k \<le> length (opaques vq) \<Longrightarrow> (\<And>j. i \<le> j \<Longrightarrow> j < i + k \<Longrightarrow> opaques vq ! j = None) \<Longrightarrow>
   detach_scan i k vq = Some (None, vq)"
  by (induction i k vq rule: detach_scan.induct) (auto simp: read_at_def)

lemma detach_scan_some:
  "j < length (opaques vq) \<Longrightarrow> i \<le> j \<Longrightarrow> j < i + k \<Longrightarrow>
   (\<And>l. i \<le> l \<Longrightarrow> l < j \<Longrightarrow> opaques vq ! l = None) \<Longrightarrow> opaques vq ! j = Some x \<Longrightarrow>
   put_unused_desc_chain vq (word_of_nat j) = Some vq' \<Longrightarrow>
   detach_scan i k vq =
     Some (Some x, vq'\<lparr>master_idx := master_idx vq' - 1, avail_idx := master_idx vq' - 1\<rparr>)"
proof (induction i k vq rule: detach_scan.induct)
  case (2 i k vq)
  show ?case
  proof (cases "i = j")
    case True
    with 2 show ?thesis by (simp add: read_at_def)
  next
    case False
    with 2 have "opaques vq ! i = None" "i < length (opaques vq)" by auto
    with 2 False show ?thesis by (simp add: read_at_def)
  qed
qed simp

lemma split_inv_bounds:
  assumes "split_inv vq"
  shows "0 < unat (num vq)" "unat (num vq) \<le> 0x8000" "length (opaques vq) = unat (num vq)"
    "length (avail_ring vq) = unat (num vq)" "avail_idx vq = master_idx vq"
    "unat (ucast (num vq) :: u16) = unat (num vq)"
proof -
  show "unat (num vq) \<le> 0x8000" "0 < unat (num vq)" "length (opaques vq) = unat (num vq)"
    "length (avail_ring vq) = unat (num vq)" "avail_idx vq = master_idx vq"
    using assms by (auto simp: split_inv_def split_rel_def)
  then show "unat (ucast (num vq) :: u16) = unat (num vq)" by (simp add: unsigned_ucast_eq take_bit_nat_eq_self)
qed

lemma split_detach_none:
  assumes "split_inv vq" "split_inflight vq = {#}"
  shows "virtqueue_detach_unused_buf_split vq = Some (None, vq)"
  using assms(2) split_inv_bounds [OF assms(1)] unfolding virtqueue_detach_unused_buf_split_def
  by (intro detach_scan_none) (auto simp: split_inflight_def tokens_empty_iff)

lemma split_detach_some:
  assumes "split_inv vq" "split_pending vq = []" "split_inflight vq \<noteq> {#}"
  shows "\<exists>x vq'. virtqueue_detach_unused_buf_split vq = Some (Some x, vq') \<and> split_inv vq' \<and>
    split_pending vq' = [] \<and> split_inflight vq = add_mset x (split_inflight vq') \<and>
    split_room vq < split_room vq'"
proof -
  obtain fl cs where rel: "split_rel vq fl cs" and hon: "honest_used vq"
    using assms(1) by (auto simp: split_inv_def)
  note bounds = split_inv_bounds [OF assms(1)]
  let ?P = "\<lambda>j. j < unat (num vq) \<and> opaques vq ! j \<noteq> None"
  let ?j = "LEAST j. ?P j"
  have "\<exists>j. ?P j" using assms(3) bounds
    by (metis in_set_conv_nth split_inflight_def tokens_empty_iff)
  then have j: "?j < unat (num vq)" "opaques vq ! ?j \<noteq> None" by (metis (lifting) LeastI)+
  have before: "opaques vq ! l = None" if "l < ?j" for l
    using not_less_Least [OF that] that j(1) by auto
  obtain x where x: "opaques vq ! ?j = Some x" using j(2) by auto
  obtain a c b where c: "cs = a @ c # b" "hd c = ?j" "chain (desc vq) c"
    using split_rel_find_chain [OF rel j] by blast
  have i: "unat (word_of_nat ?j :: u16) = hd c" using j(1) bounds c(2) by (simp add: unat_of_nat)
  let ?f = "freed vq (word_of_nat ?j) c"
  let ?vq = "?f\<lparr>master_idx := master_idx ?f - 1, avail_idx := master_idx ?f - 1\<rparr>"
  have "put_unused_desc_chain vq (word_of_nat ?j) = Some ?f"
    using put_unused_ok [OF c(3) i] c(2) j(1) bounds by simp
  then have d: "virtqueue_detach_unused_buf_split vq = Some (Some x, ?vq)"
    unfolding virtqueue_detach_unused_buf_split_def bounds(6)
    by (intro detach_scan_some) (simp_all only: bounds(3) j(1) x before add_0 le0)
  have uh: "used_entries vq = []" using assms(2) by (simp add: split_pending_def)
  have inv1: "split_inv ?f"
    using split_inv_freed [OF rel [unfolded c(1)] i hon] uh by (simp add: used_heads_def)
  have "split_pending ?f = []" using uh by (simp add: split_pending_def used_entries_def)
  moreover have "split_inflight vq = add_mset x (split_inflight ?f)"
    using tokens_remove [of ?j "opaques vq" x] j(1) bounds x c(2) by (simp add: split_inflight_def)
  moreover have "split_room vq < split_room ?f"
  proof -
    have rels: "split_rel ?f (c @ fl) (a @ b)" using split_rel_freed [OF rel [unfolded c(1)] i] .
    then have "split_room ?f = length c + length fl" unfolding split_rel_def split_room_def by simp
    moreover have "split_room vq = length fl" using rel by (simp add: split_rel_def split_room_def)
    ultimately show ?thesis using c(3) by (cases c) auto
  qed
  ultimately show ?thesis using d split_inv_cong [OF inv1, of ?vq] by simp
qed

lemma tokens_member: "tokens xs = mset (map the (filter (\<lambda>x. x \<noteq> None) xs))"
  unfolding tokens_def by (induction xs) (auto split: option.splits)

lemma tokens_index:
  "tokens xs = image_mset (\<lambda>h. the (xs ! h)) (mset (filter (\<lambda>i. xs ! i \<noteq> None) [0..<length xs]))"
proof -
  have "filter (\<lambda>x. x \<noteq> None) (map ((!) xs) [0..<length xs]) =
      map ((!) xs) (filter (\<lambda>i. xs ! i \<noteq> None) [0..<length xs])"
    by (simp add: filter_map o_def)
  then have "filter (\<lambda>x. x \<noteq> None) xs = map ((!) xs) (filter (\<lambda>i. xs ! i \<noteq> None) [0..<length xs])"
    unfolding map_nth .
  then have "tokens xs = mset (map the (map ((!) xs) (filter (\<lambda>i. xs ! i \<noteq> None) [0..<length xs])))"
    unfolding tokens_member by (rule arg_cong)
  then show ?thesis by (simp only: map_map o_def mset_map)
qed

lemma split_pending_inflight:
  assumes "split_inv vq"
  shows "mset (map fst (split_pending vq)) \<subseteq># split_inflight vq"
proof -
  have hon: "honest_used vq" using assms by (simp add: split_inv_def)
  let ?H = "used_heads vq"
  have "map fst (split_pending vq) = map (\<lambda>h. the (opaques vq ! h)) ?H"
    by (auto simp: split_pending_def used_heads_def)
  moreover have "mset ?H \<subseteq># mset (filter (\<lambda>i. opaques vq ! i \<noteq> None) [0..<length (opaques vq)])"
    using hon by (intro distinct_mset_subset) (auto simp: honest_used_def)
  moreover have "split_inflight vq =
     image_mset (\<lambda>h. the (opaques vq ! h))
       (mset (filter (\<lambda>i. opaques vq ! i \<noteq> None) [0..<length (opaques vq)]))"
    by (simp add: split_inflight_def tokens_index)
  ultimately show ?thesis by (simp add: image_mset_subseteq_mono)
qed

section \<open>Kicks, interrupt control, notification\<close>

lemma split_other_ops:
  assumes "split_inv vq"
  shows "\<exists>b vq'. virtqueue_kick_prepare_split vq = Some (b, vq') \<and> split_inv vq' \<and>
      split_inflight vq' = split_inflight vq \<and> split_pending vq' = split_pending vq \<and>
      split_room vq' = split_room vq"
    "\<exists>vq'. virtqueue_kick_always_split vq = Some vq' \<and> split_inv vq' \<and>
      split_inflight vq' = split_inflight vq \<and> split_pending vq' = split_pending vq \<and>
      split_room vq' = split_room vq"
    "split_inv (notification_cb_split vq) \<and>
      split_inflight (notification_cb_split vq) = split_inflight vq \<and>
      split_pending (notification_cb_split vq) = split_pending vq \<and>
      split_room (notification_cb_split vq) = split_room vq"
    "\<exists>vq'. virtqueue_disable_cb_split vq = Some vq' \<and> split_inv vq' \<and>
      split_inflight vq' = split_inflight vq \<and> split_pending vq' = split_pending vq \<and>
      split_room vq' = split_room vq"
proof -
  note c = split_inv_cong [OF assms] and b = split_inv_bounds [OF assms]
  show "\<exists>b vq'. virtqueue_kick_prepare_split vq = Some (b, vq') \<and> split_inv vq' \<and>
      split_inflight vq' = split_inflight vq \<and> split_pending vq' = split_pending vq \<and>
      split_room vq' = split_room vq"
    using c [of "vq\<lparr>num_added_since_kick := 0\<rparr>"] b
    by (simp add: virtqueue_kick_prepare_split_def Let_def)
  show "\<exists>vq'. virtqueue_kick_always_split vq = Some vq' \<and> split_inv vq' \<and>
      split_inflight vq' = split_inflight vq \<and> split_pending vq' = split_pending vq \<and>
      split_room vq' = split_room vq"
    using c [of "vq\<lparr>num_added_since_kick := 0, doorbell := doorbell vq + 1\<rparr>"] b
    by (simp add: virtqueue_kick_always_split_def notification_cb_split_def)
  show "split_inv (notification_cb_split vq) \<and>
      split_inflight (notification_cb_split vq) = split_inflight vq \<and>
      split_pending (notification_cb_split vq) = split_pending vq \<and>
      split_room (notification_cb_split vq) = split_room vq"
    using c [of "notification_cb_split vq"] b by (simp add: notification_cb_split_def)
  let ?d = "the (virtqueue_disable_cb_split vq)"
  show "\<exists>vq'. virtqueue_disable_cb_split vq = Some vq' \<and> split_inv vq' \<and>
      split_inflight vq' = split_inflight vq \<and> split_pending vq' = split_pending vq \<and>
      split_room vq' = split_room vq"
    using c [of ?d] b assms by (simp add: virtqueue_disable_cb_split_def Let_def)
qed

section \<open>A new queue\<close>

lemma init_free_ok:
  "i + k \<le> length ds \<Longrightarrow> \<exists>ds'. init_free i k ds = Some ds' \<and> length ds' = length ds \<and>
     (\<forall>j. i \<le> j \<and> j < i + k \<longrightarrow> d_next (ds' ! j) = word_of_nat j + 1) \<and>
     (\<forall>j. j < i \<longrightarrow> ds' ! j = ds ! j)"
proof (induction k arbitrary: i ds)
  case (Suc k)
  let ?ds = "ds[i := (ds ! i)\<lparr>d_flags := VIRTQ_DESC_F_NEXT, d_next := word_of_nat i + 1\<rparr>]"
  from Suc.IH [of "i + 1" ?ds] Suc.prems obtain ds' where
    "init_free (i + 1) k ?ds = Some ds'" "length ds' = length ds"
    "\<forall>j. i + 1 \<le> j \<and> j < i + 1 + k \<longrightarrow> d_next (ds' ! j) = word_of_nat j + 1"
    "\<forall>j. j < i + 1 \<longrightarrow> ds' ! j = ?ds ! j" by auto
  note d = this
  have "d_next (ds' ! j) = word_of_nat j + 1" if "i \<le> j" "j < i + Suc k" for j
    using d(3,4) Suc.prems that by (cases "j = i") auto
  moreover have "ds' ! j = ds ! j" if "j < i" for j using d(4) that by simp
  ultimately show ?case
    using d(1,2) Suc.prems by (auto simp: read_at_def write_at_def)
qed auto

lemma path_upt:
  "(\<And>j. i \<le> j \<Longrightarrow> j < n - 1 \<Longrightarrow> d_next (ds ! j) = word_of_nat j + 1) \<Longrightarrow> length ds = n \<Longrightarrow>
   n \<le> 0x8000 \<Longrightarrow> path ds (word_of_nat i) [i..<n]"
proof (induction "n - i" arbitrary: i)
  case (Suc k)
  then have i: "i < n" by simp
  have u: "unat (word_of_nat i :: u16) = i" using i Suc.prems by (simp add: unat_of_nat)
  have "path ds (word_of_nat (i + 1)) [i + 1..<n]" using Suc.hyps Suc.prems by (intro Suc.hyps) auto
  then have "path ds (d_next (ds ! i)) [i + 1..<n]"
    using Suc.prems(1) [of i] i by (cases "i = n - 1") (auto simp: add.commute)
  then show ?case using i u Suc.prems(2) by (simp add: upt_conv_Cons)
qed simp

lemma pow2_u32: "k \<le> 15 \<Longrightarrow> unat (2 ^ k :: u32) = 2 ^ k"
proof -
  assume "k \<le> 15"
  then have "(2 :: nat) ^ k \<le> 2 ^ 15" by (intro power_increasing) auto
  moreover have "unat (2 ^ k :: u32) = unat (word_of_nat (2 ^ k) :: u32)" by simp
  ultimately show ?thesis by (simp only: unat_of_nat) simp
qed

definition pages_zeroed :: "u32 \<Rightarrow> 'o virtqueue_split \<Rightarrow> bool" where
  "pages_zeroed n vq \<longleftrightarrow> desc vq = replicate (unat n) zero_desc \<and> avail_idx vq = 0 \<and>
     used_idx vq = 0 \<and> length (avail_ring vq) = unat n \<and> length (used_ring vq) = unat n"

lemma vring_new_ok:
  assumes "n = 2 ^ k" "k \<le> 15" "pages_zeroed n vq"
  shows "\<exists>vq'. vring_new_virtqueue_split n vq = Some (Some vq') \<and> split_inv vq' \<and> num vq' = n \<and>
    split_inflight vq' = {#} \<and> split_pending vq' = [] \<and> split_room vq' = 2 ^ k"
proof -
  have un: "unat n = 2 ^ k" using assms pow2_u32 by simp
  have le: "(2 :: nat) ^ k \<le> 2 ^ 15" using assms(2) by (intro power_increasing) auto
  have nn: "n AND (n - 1) = 0"
  proof -
    have "n AND mask k = take_bit k n" by (simp add: take_bit_eq_mask)
    also have "\<dots> = 0" using assms(1) by (simp add: take_bit_eq_mod)
    finally show ?thesis using assms(1) by (simp add: mask_eq_exp_minus_1)
  qed
  have m1: "unat (n - 1) = 2 ^ k - 1" using un by (subst unat_minus_one) auto
  then have small: "\<not> 0x10000 < n - 1" using le by (simp add: word_less_nat_alt)
  obtain ds where ds: "init_free 0 (2 ^ k - 1) (desc vq) = Some ds" "length ds = 2 ^ k"
    "\<forall>j < 2 ^ k - 1. d_next (ds ! j) = word_of_nat j + 1"
    using init_free_ok [of 0 "2 ^ k - 1" "desc vq"] assms(3) un by (auto simp: pages_zeroed_def)
  let ?vq = "vq\<lparr>num := n, desc := ds, master_flags := 0, master_idx := 0,
          num_unused := n, num_added_since_kick := 0, first_unused := 0, last_used := 0,
          opaques := replicate (unat n) None\<rparr>"
  have new: "vring_new_virtqueue_split n vq = Some (Some ?vq)"
    using nn small ds(1) by (simp add: vring_new_virtqueue_split_def m1)
  have "path ds 0 [0..<2 ^ k]" using path_upt [of 0 "2 ^ k" ds] ds le by simp
  then have "split_rel ?vq [0..<2 ^ k] []"
    using assms ds un le by (auto simp: split_rel_def pages_zeroed_def)
  moreover have ue: "used_entries ?vq = []" using assms(3) by (simp add: used_entries_def pages_zeroed_def)
  ultimately have "split_inv ?vq" unfolding split_inv_def
    by (auto simp: honest_used_def used_heads_def)
  then show ?thesis using new ue un
    by (auto simp: split_inflight_def split_pending_def split_room_def)
qed

section \<open>The split ring is a virtqueue\<close>

interpretation split: virtqueue split_ops split_inv split_inflight split_pending split_room
proof
  show "has_buf split_ops q \<longleftrightarrow> split_pending q \<noteq> []" for q :: "'a virtqueue_split"
    by (simp add: split_ops_def virtqueue_has_buf_split_def split_pending_empty)
qed (simp_all add: split_ops_def split_add_ok split_add_full split_get_empty split_get_pending
    split_other_ops split_detach_none split_detach_some split_pending_inflight [unfolded mset_map])

section \<open>What the device sees\<close>

text \<open>The buffers of a chain, as the device reads them from the descriptor table.\<close>

definition device_view :: "'o virtqueue_split \<Rightarrow> nat list \<Rightarrow> (scatterlist \<times> bool) list" where
  "device_view vq c = map (\<lambda>i. (\<lparr>sg_addr = d_addr (desc vq ! i), sg_length = d_len (desc vq ! i)\<rparr>,
     d_flags (desc vq ! i) AND VIRTQ_DESC_F_WRITE \<noteq> 0)) c"

lemma write_flag: "((if b then 0 else (1 :: u16)) OR (if w then 2 else 0)) AND 2 \<noteq> 0 \<longleftrightarrow> w"
  by simp

lemma device_view_added:
  assumes "split_rel vq fl cs" "sg \<noteq> []" "length sg \<le> length fl"
  shows "device_view (added vq (take (length sg) fl) sg outs x) (take (length sg) fl) =
    map (\<lambda>j. (sg ! j, outs \<le> j)) [0..<length sg]"
proof -
  let ?c = "take (length sg) fl"
  have lc: "length sg = length ?c" and ne: "?c \<noteq> []" using assms(2,3) by auto
  have "path (desc vq) (first_unused vq) (?c @ drop (length sg) fl)"
    using assms(1) by (simp add: split_rel_def)
  then have p: "path (desc vq) (first_unused vq) ?c" using path_append by blast
  have "distinct ?c" using split_rel_distinct [OF assms(1)] by simp
  note D = added_desc [OF p this ne lc, of _ outs x]
  show ?thesis
  proof (rule nth_equalityI)
    show "length (device_view (added vq ?c sg outs x) ?c) = length (map (\<lambda>j. (sg ! j, outs \<le> j)) [0..<length sg])"
      using lc by (simp add: device_view_def)
    fix j assume "j < length (device_view (added vq ?c sg outs x) ?c)"
    then have j: "j < length ?c" by (simp add: device_view_def)
    then show "device_view (added vq ?c sg outs x) ?c ! j = map (\<lambda>j. (sg ! j, outs \<le> j)) [0..<length sg] ! j"
      using D [OF j] lc by (simp add: device_view_def write_flag)
  qed
qed

section \<open>The device's completions\<close>

text \<open>
  What a device does to complete chain \<open>h\<close> with \<open>len\<close> bytes written (virtio 1.0, 2.6.8): it
  stores the used element and increments the used index.
\<close>

definition device_complete :: "'o virtqueue_split \<Rightarrow> nat \<Rightarrow> u32 \<Rightarrow> 'o virtqueue_split" where
  "device_complete vq h len = vq
     \<lparr>used_ring := (used_ring vq)[DESC_INDEX (num vq) (used_idx vq) := (word_of_nat h, len)],
      used_idx := used_idx vq + 1\<rparr>"

lemma DESC_INDEX_pow2:
  assumes "k \<le> 15" shows "DESC_INDEX (2 ^ k) i = unat i mod 2 ^ k"
proof -
  have "ucast i AND (2 ^ k - 1 :: u32) = take_bit k (ucast i)"
    by (simp add: take_bit_eq_mask mask_eq_exp_minus_1)
  then have "DESC_INDEX (2 ^ k) i = unat (take_bit k (ucast i :: u32))" by (simp add: DESC_INDEX_def)
  also have "\<dots> = take_bit k (unat i)" using assms by (simp add: unsigned_take_bit_eq unsigned_ucast_eq)
  finally show ?thesis by (simp add: take_bit_eq_mod)
qed

lemma DESC_INDEX_add_neq:
  assumes "k \<le> 15" "m < n" "n < 2 ^ k"
  shows "DESC_INDEX (2 ^ k) (i + word_of_nat m) \<noteq> DESC_INDEX (2 ^ k) (i + word_of_nat n)"
proof
  have mm: "unat (i + word_of_nat q :: u16) mod 2 ^ k = (unat i + q) mod 2 ^ k" for q
  proof -
    have "(2 :: nat) ^ k dvd 2 ^ 16" using assms(1) by (intro le_imp_power_dvd) simp
    moreover have "unat (i + word_of_nat q :: u16) = (unat i + q) mod 2 ^ 16"
    proof -
      have "i + word_of_nat q = word_of_nat (unat i + q)" by simp
      then show ?thesis by (simp only: unat_of_nat) simp
    qed
    ultimately show ?thesis by (simp add: mod_mod_cancel)
  qed
  assume "DESC_INDEX (2 ^ k) (i + word_of_nat m) = DESC_INDEX (2 ^ k) (i + word_of_nat n)"
  then have "(unat i + m) mod 2 ^ k = (unat i + n) mod 2 ^ k"
    by (simp add: DESC_INDEX_pow2 [OF assms(1)] mm)
  then have "(2 :: nat) ^ k dvd (unat i + n) - (unat i + m)"
    using assms(2) by (subst mod_eq_dvd_iff_nat [symmetric]) simp_all
  with assms(2,3) show False by (auto dest: dvd_imp_le)
qed
lemma device_complete_ok:
  assumes inv: "split_inv vq" and h: "h < length (opaques vq)" "opaques vq ! h = Some x"
    "h \<notin> set (used_heads vq)"
  shows "split_inv (device_complete vq h len) \<and>
    split_inflight (device_complete vq h len) = split_inflight vq \<and>
    split_pending (device_complete vq h len) = split_pending vq @ [(x, len)] \<and>
    split_room (device_complete vq h len) = split_room vq"
proof -
  let ?vq = "device_complete vq h len"
  let ?n = "unat (used_idx vq - last_used vq)"
  obtain fl cs where rel: "split_rel vq fl cs" and hon: "honest_used vq"
    using inv by (auto simp: split_inv_def)
  then obtain k where k: "k \<le> 15" "num vq = 2 ^ k" by (auto simp: split_rel_def)
  note b = split_inv_bounds [OF inv]
  have N: "unat (num vq) = 2 ^ k" using k pow2_u32 by simp
  have n: "length (used_heads vq) = ?n" by (simp add: used_heads_def used_entries_def)
  have "card (set (h # used_heads vq)) \<le> card {0..<unat (num vq)}"
    using hon h b by (intro card_mono) (auto simp: honest_used_def)
  then have lt: "?n < 2 ^ k"
    using hon h(3) n N by (simp add: honest_used_def distinct_card)
  have le15: "(2 :: nat) ^ k \<le> 2 ^ 15" using k(1) by (intro power_increasing) auto
  have lu: "last_used vq + word_of_nat ?n = used_idx vq" by simp
  have n': "unat (used_idx vq + 1 - last_used vq) = Suc ?n"
  proof -
    have "used_idx vq + 1 - last_used vq = (used_idx vq - last_used vq) + word_of_nat 1" by simp
    then have "unat (used_idx vq + 1 - last_used vq) =
        unat ((used_idx vq - last_used vq) + word_of_nat 1)" by (rule arg_cong)
    also have "\<dots> = ?n + 1" using lt le15 by (intro unat_add_of_nat) simp
    finally show ?thesis by simp
  qed
  have other: "used_ring ?vq ! DESC_INDEX (num vq) (last_used vq + word_of_nat j) =
      used_ring vq ! DESC_INDEX (num vq) (last_used vq + word_of_nat j)" if "j < ?n" for j
    using DESC_INDEX_add_neq [OF k(1) that lt, of "last_used vq"] k(2)
    by (simp add: device_complete_def)
  have here: "used_ring ?vq ! DESC_INDEX (num vq) (used_idx vq) = (word_of_nat h, len)"
    using DESC_INDEX_less [OF b(1), of "used_idx vq"] rel
    by (simp add: device_complete_def split_rel_def)
  have fields: "num ?vq = num vq" "last_used ?vq = last_used vq" "used_idx ?vq = used_idx vq + 1"
    "opaques ?vq = opaques vq" "num_unused ?vq = num_unused vq"
    by (simp_all add: device_complete_def)
  have ue: "used_entries ?vq = used_entries vq @ [(word_of_nat h, len)]"
    unfolding used_entries_def fields n'
    by (simp add: other here lu del: of_nat_unat word_of_nat_eq_iff cong: map_cong)
  have hN: "h < 0x8000" using h(1) b by simp
  then have uh: "unat (ucast (word_of_nat h :: u32) :: u16) = h"
    by (simp add: unsigned_ucast_eq unat_of_nat take_bit_nat_eq_self)
  have "honest_used ?vq"
    using hon h uh by (auto simp: honest_used_def used_heads_def ue fields)
  moreover have "split_rel ?vq fl cs" using rel by (simp add: split_rel_def device_complete_def)
  moreover have "split_pending ?vq = split_pending vq @ [(x, len)]"
    using uh h(2) by (simp add: split_pending_def ue fields)
  ultimately show ?thesis by (auto simp: split_inv_def split_inflight_def split_room_def fields)
qed
section \<open>The notification window\<close>

lemma need_event_window: "vring_need_event e new old \<longleftrightarrow> unat (e - old) < unat (new - old)"
proof -
  define a where "a = e - old"
  define b where "b = new - old"
  have "new - e - 1 = b - a - 1" by (simp add: a_def b_def)
  moreover have "b - a - 1 < b \<longleftrightarrow> a < b"
  proof -
    have key: "(if 1 \<le> D then D - 1 else D - 1 + 65536) < B \<longleftrightarrow> A < B"
      if "0 \<le> A" "A < 65536" "0 \<le> B" "B < 65536" "D = (if A \<le> B then B - A else B - A + 65536)"
      for A B D :: int
      using that by (auto split: if_splits)
    have "uint (b - a) = (if uint a \<le> uint b then uint b - uint a else uint b - uint a + 65536)"
      by (simp add: uint_sub_if')
    moreover have "uint (b - a - 1) = (if 1 \<le> uint (b - a) then uint (b - a) - 1 else uint (b - a) - 1 + 65536)"
      by (subst uint_sub_if') simp
    ultimately show ?thesis
      using key [of "uint a" "uint b" "uint (b - a)"] uint_bounded [of a] uint_bounded [of b]
      by (simp only: word_less_def) simp
  qed
  ultimately show ?thesis by (simp add: vring_need_event_def a_def b_def word_less_nat_alt)
qed
section \<open>Properties\<close>

text \<open>
  C7: adding a buffer of \<open>n\<close> entries to a well-formed ring takes the first \<open>n\<close> free
  descriptors when there are that many: the device then reads, through the new available-ring
  entry, exactly the scatter list in order with the device-writable part after the first \<open>outs\<close>
  entries, and reads every other chain unchanged.  Otherwise the result is -ENOSPC and the ring
  is unchanged.
\<close>

theorem split_add_buf_correct:
  assumes "split_rel vq fl cs" "sg \<noteq> []" "outs + ins = length sg"
  shows "if length sg \<le> length fl
    then \<exists>vq'. virtqueue_add_buf_split vq sg outs ins x 0 0 = Some (VQ_ADD_BUFFER_SUCCESS, vq') \<and>
      split_rel vq' (drop (length sg) fl) (take (length sg) fl # cs) \<and>
      device_view vq' (take (length sg) fl) = map (\<lambda>j. (sg ! j, outs \<le> j)) [0..<length sg] \<and>
      (\<forall>c \<in> set cs. device_view vq' c = device_view vq c) \<and>
      unat (avail_ring vq' ! DESC_INDEX (num vq) (master_idx vq)) = hd fl \<and>
      avail_idx vq' = avail_idx vq + 1
    else virtqueue_add_buf_split vq sg outs ins x 0 0 = Some (- ENOSPC, vq)"
proof (cases "length sg \<le> length fl")
  case True
  let ?c = "take (length sg) fl"
  let ?vq = "added vq ?c sg outs x"
  have "desc ?vq ! i = desc vq ! i" if "c \<in> set cs" "i \<in> set c" for c i
  proof (rule added_desc_other)
    show "i \<notin> set ?c" using split_rel_distinct [OF assms(1)] that
      by (auto dest!: in_set_takeD)
  qed (use assms(2) True in auto)
  then have "\<forall>c \<in> set cs. device_view ?vq c = device_view vq c" by (simp add: device_view_def)
  moreover have "fl \<noteq> []" using assms(2) True by auto
  then have "unat (first_unused vq) = hd fl"
    using assms(1) by (cases fl) (auto simp: split_rel_def)
  then have "unat (avail_ring ?vq ! DESC_INDEX (num vq) (master_idx vq)) = hd fl"
    using assms(1) DESC_INDEX_less [of "num vq" "master_idx vq"]
    by (simp add: added_def split_rel_def)
  moreover have "avail_idx ?vq = avail_idx vq + 1"
    using assms(1) by (simp add: added_def split_rel_def)
  ultimately show ?thesis
    using True add_buf_eq [OF assms True, of x 0] split_rel_added(1) [OF assms(1,2) True, of outs x]
      device_view_added [OF assms(1,2) True, of outs x] by auto
next
  case False
  then show ?thesis using assms(1,3)
    by (auto simp: split_rel_def split_room_def intro!: split_add_full)
qed

definition ring2 :: "'o virtqueue_split" where
  "ring2 = \<lparr>num = 2, desc = [zero_desc\<lparr>d_flags := 1, d_next := 1\<rparr>, zero_desc], avail_flags = 0,
     avail_idx = 0, avail_ring = [0, 0], used_event = 0, used_flags = 0, used_idx = 0,
     used_ring = [(0, 0), (0, 0)], avail_event = 0, master_flags = 0, master_idx = 0,
     num_unused = 2, num_added_since_kick = 0, first_unused = 0, last_used = 0,
     opaques = [None, None], indirect = Map.empty, event_suppression = False, doorbell = 0\<rparr>"

lemma ring2_rel: "split_rel (ring2 :: 'o virtqueue_split) [0, 1] []"
proof -
  have "(2 :: u32) = 2 ^ 1" by simp
  then have "\<exists>k \<le> 15. (2 :: u32) = 2 ^ k" by (metis one_le_numeral)
  moreover have "mset [0, 1] = mset [0..<2]" by (simp add: upt_rec)
  moreover have "\<forall>i < 2. ([None, None] :: 'o option list) ! i = None"
    by (simp add: nth_Cons' less_2_cases_iff)
  ultimately show ?thesis by (simp add: split_rel_def ring2_def del: mset_upt)
qed

lemma ring2_inv:
  "split_inv (ring2 :: 'o virtqueue_split) \<and> split_pending (ring2 :: 'o virtqueue_split) = [] \<and>
   split_inflight (ring2 :: 'o virtqueue_split) = {#} \<and> split_room (ring2 :: 'o virtqueue_split) = 2"
proof -
  have "used_entries (ring2 :: 'o virtqueue_split) = []" by (simp add: used_entries_def ring2_def)
  moreover have "split_inflight (ring2 :: 'o virtqueue_split) = {#}"
    by (simp add: split_inflight_def tokens_def ring2_def)
  ultimately show ?thesis using ring2_rel [where 'o = 'o]
    by (auto simp: split_inv_def honest_used_def used_heads_def split_pending_def split_room_def)
       (simp add: ring2_def)
qed

theorem split_add_buf_correct_witness:
  "\<exists>vq'. virtqueue_add_buf_split ring2 [\<lparr>sg_addr = 4096, sg_length = 8\<rparr>] 0 1 (7 :: nat) 0 0 = Some (0, vq') \<and>
     split_rel vq' [1] [[0]]"
  using split_add_buf_correct [OF ring2_rel, of "[\<lparr>sg_addr = 4096, sg_length = 8\<rparr>]" 0 1 "7 :: nat"]
  by auto

text \<open>
  C4: a buffer makes the round trip.  Once the device has completed the chain the driver
  published last, \<open>virtqueue_get_buf\<close> hands back the token it was added with and the length the
  device reported, and the ring holds again exactly the buffers it held before.
\<close>

theorem split_roundtrip:
  assumes "split_inv vq" "split_pending vq = []" "sg \<noteq> []" "outs + ins = length sg"
    "length sg \<le> split_room vq"
    "virtqueue_add_buf_split vq sg outs ins x 0 0 = Some (r, vq')"
  shows "r = VQ_ADD_BUFFER_SUCCESS \<and>
    (\<exists>vq''. virtqueue_get_buf_split
       (device_complete vq' (unat (avail_ring vq' ! DESC_INDEX (num vq) (master_idx vq))) len) =
         Some (Some (x, len), vq'') \<and>
     split_inv vq'' \<and> split_pending vq'' = [] \<and> split_inflight vq'' = split_inflight vq)"
proof -
  obtain fl cs where rel: "split_rel vq fl cs" using assms(1) by (auto simp: split_inv_def)
  have len: "length sg \<le> length fl" using assms(5) rel by (simp add: split_rel_def split_room_def)
  have vq': "r = VQ_ADD_BUFFER_SUCCESS" "vq' = added vq (take (length sg) fl) sg outs x"
    using add_buf_eq [OF rel assms(3,4) len, of x 0] assms(6) by simp_all
  have inv': "split_inv vq'" "split_inflight vq' = add_mset x (split_inflight vq)"
    "split_pending vq' = []"
    using split_add_ok [OF assms(1,3,4,5), of x] assms(2,6) by auto
  have fl: "fl \<noteq> []" using len assms(3) by auto
  let ?h = "hd (take (length sg) fl)"
  have h: "unat (avail_ring vq' ! DESC_INDEX (num vq) (master_idx vq)) = ?h"
    using rel DESC_INDEX_less [of "num vq" "master_idx vq"] fl assms(3)
    by (cases fl) (auto simp: vq' added_def split_rel_def hd_take)
  have hN: "?h < length (opaques vq)"
    using split_rel_bound [OF rel, of ?h] rel fl assms(3) by (simp add: split_rel_def hd_take)
  have "used_heads vq' = []" using inv'(3) by (simp add: split_pending_def used_heads_def)
  then have "?h \<notin> set (used_heads vq')" "?h < length (opaques vq')" "opaques vq' ! ?h = Some x"
    using hN by (simp_all add: vq')
  from device_complete_ok [OF inv'(1) this(2,3,1), of len] inv'
  have d: "split_inv (device_complete vq' ?h len)"
    "split_inflight (device_complete vq' ?h len) = add_mset x (split_inflight vq)"
    "split_pending (device_complete vq' ?h len) = [(x, len)]" by simp_all
  show ?thesis using split_get_pending [OF d(1,3)] d(2) h vq'(1) by auto
qed

theorem split_roundtrip_witness:
  "\<exists>vq' vq''. virtqueue_add_buf_split ring2 [\<lparr>sg_addr = 4096, sg_length = 8\<rparr>] 0 1 (7 :: nat) 0 0 = Some (0, vq') \<and>
     virtqueue_get_buf_split
       (device_complete vq' (unat (avail_ring vq' ! DESC_INDEX (num (ring2 :: nat virtqueue_split)) (master_idx (ring2 :: nat virtqueue_split)))) 8) =
         Some (Some (7, 8), vq'')"
proof -
  obtain vq' where a: "virtqueue_add_buf_split ring2 [\<lparr>sg_addr = 4096, sg_length = 8\<rparr>] 0 1 (7 :: nat) 0 0 = Some (0, vq')"
    using split_add_ok [of ring2 "[\<lparr>sg_addr = 4096, sg_length = 8\<rparr>]" 0 1 "7 :: nat"] ring2_inv [where 'o = nat] by auto
  show ?thesis using split_roundtrip [OF _ _ _ _ _ a, of 8] a ring2_inv [where 'o = nat] by auto
qed

text \<open>
  \<open>vring_need_event\<close> asks for a notification exactly when the event index the other side
  published lies in the window of entries added since the last kick, across wrap-around.
\<close>

theorem vring_need_event_window:
  "vring_need_event e new old \<longleftrightarrow> unat (e - old) < unat (new - old)"
  by (rule need_event_window)

text \<open>
  \<open>virtqueue_enable_cb_delayed_split\<close> compares the difference of the two indices as an \<open>int\<close>:
  when the used index has wrapped and the driver's has not, it answers \<open>true\<close> (fewer than 3/4
  of the buffers are back) although all four are.
\<close>

lemma enable_cb_delayed_wrap:
  "map_option fst (virtqueue_enable_cb_delayed_split
     (ring2\<lparr>last_used := 0xFFFF, used_idx := 3, master_idx := 3\<rparr>)) = Some True \<and>
   map_option fst (virtqueue_enable_cb_delayed_split
     (ring2\<lparr>last_used := 0, used_idx := 4, master_idx := 4\<rparr>)) = Some False"
  by (simp add: virtqueue_enable_cb_delayed_split_def unmask_interrupt_def Let_def ring2_def
      virtqueue_is_interrupt_enabled_split_def)

end
