(* ===== verification/Snd_Device.thy ===== *)
theory Snd_Device
  imports Pcm_Format Split_Ring
begin

text \<open>
  The state of the device extension \<open>VIOSND_DEVICE\<close> (\<open>viosnd/sys/ViosndVirtio.cpp\<close>) with the
  memory it owns, the interface to the Windows kernel and to the hardware, and the
  operating-system callbacks the driver gives to the virtio library: register access, the DMA
  block list, PCI configuration, BAR mapping.

  Memory.  \<open>dma\<close> maps the address of a common buffer to its bytes, \<open>msgs\<close> and \<open>ios\<close> map pool
  addresses to the control messages and PCM transfers stored there, and \<open>pool\<close> lists the live
  pool allocations.  A dereference of an address outside these maps, a second free of a pool
  block, and the release of a mutex that is not held are \<open>None\<close>.

  Kernel and hardware.  The record \<open>kernel\<close> holds the functions the driver calls but does not
  contain; they may depend on and change an environment state \<open>'e\<close>.  \<open>device_runs\<close> is what the
  device does while the driver waits: by its type it can change the queues and the DMA memory,
  nothing else of the driver's state.
\<close>

section \<open>State\<close>

datatype opaque = OMessage ptr | OEvent nat | OIo ptr | OVa ptr

record VIOSND_BAR =
  Present :: bool
  PortSpace :: bool
  BasePA :: u64
  BarLength :: u32
  BaseVA :: ptr

record VIOSND_DMA_BLOCK =
  Va :: ptr
  LogicalAddress :: u64
  BlockSize :: u64
  Block :: ptr

record VIOSND_EVENT_BUFFER =
  EventVa :: ptr
  EventPa :: u64

record VIOSND_CONTROL_MESSAGE =
  m_RequestVa :: ptr
  m_RequestPa :: u64
  m_RequestLength :: u32
  m_ResponseVa :: ptr
  m_ResponsePa :: u64
  m_ResponseLength :: u32

record VIOSND_PCM_IO =
  RequestVa :: ptr
  RequestPa :: u64
  RequestLength :: u32
  AudioVa :: ptr
  AudioPa :: u64
  MaxAudioLength :: u32
  StatusVa :: ptr
  StatusPa :: u64
  AudioLength :: u32
  SourceLength :: u32
  PacketNumber :: u32
  StreamId :: u32

type_synonym dma_memory = "ptr \<Rightarrow> u8 list option"
type_synonym 'q queues = "vq_index \<Rightarrow> 'q option"

record PCI_COMMON_HEADER =
  HeaderType :: u8
  BaseAddresses :: "u32 list"

record ('q, 'e) VIOSND_DEVICE =
  PciBusInterfaceValid :: bool
  PciHeader :: PCI_COMMON_HEADER
  Bars :: "VIOSND_BAR list"
  DmaBlocks :: "VIOSND_DMA_BLOCK list"
  DmaAdapter :: bool
  VirtioInitialized :: bool
  Queues :: "'q queues"
  mutex_count :: "vq_index \<Rightarrow> nat"
  Config :: VIRTIO_SND_CONFIG
  EventBuffers :: "VIOSND_EVENT_BUFFER list"
  EventBufferCount :: u32
  dma :: dma_memory
  msgs :: "ptr \<Rightarrow> VIOSND_CONTROL_MESSAGE option"
  ios :: "ptr \<Rightarrow> VIOSND_PCM_IO option"
  pool :: "ptr list"
  ext :: 'e

section \<open>Kernel and hardware\<close>

text \<open>
  \<open>AllocateCommonBuffer\<close> receives the blocks that are outstanding and the size;
  \<open>ExAllocatePool\<close> the live allocations and the size; both return 0 for NULL.
  \<open>tx_mutex_granted\<close> is the outcome of the timed wait for the TX mutex.
\<close>

record ('q, 'e) kernel =
  vqops :: "('q, opaque) virtqueue_ops"
  ARM64 :: bool
  ExAllocatePool :: "'e \<Rightarrow> ptr list \<Rightarrow> nat \<Rightarrow> ptr \<times> 'e"
  AllocateCommonBuffer :: "'e \<Rightarrow> VIOSND_DMA_BLOCK list \<Rightarrow> u32 \<Rightarrow> ptr \<times> u64 \<times> 'e"
  device_runs :: "'e \<Rightarrow> 'q queues \<Rightarrow> dma_memory \<Rightarrow> 'e \<times> 'q queues \<times> dma_memory"
  tx_mutex_granted :: "'e \<Rightarrow> bool \<times> 'e"
  GetBusData :: "'e \<Rightarrow> int \<Rightarrow> nat \<Rightarrow> u8 list \<times> u32"
  MmMapIoSpaceEx :: "'e \<Rightarrow> u64 \<Rightarrow> u32 \<Rightarrow> ptr \<times> 'e"
  io_read :: "bool \<Rightarrow> nat \<Rightarrow> u64 \<Rightarrow> 'e \<Rightarrow> u32 \<times> 'e"
  io_write :: "bool \<Rightarrow> nat \<Rightarrow> u64 \<Rightarrow> u32 \<Rightarrow> 'e \<Rightarrow> 'e"

text \<open>\<open>KeDelayExecutionThread\<close> and \<open>KeStallExecutionProcessor\<close>: the device runs meanwhile.\<close>

definition KeDelay ::
  "('q, 'e) kernel \<Rightarrow> ('q, 'e) VIOSND_DEVICE \<Rightarrow> ('q, 'e) VIOSND_DEVICE" where
  "KeDelay K dev = (case device_runs K (ext dev) (Queues dev) (dma dev) of
     (e, qs, m) \<Rightarrow> dev\<lparr>ext := e, Queues := qs, dma := m\<rparr>)"

definition KeAcquireMutex ::
  "vq_index \<Rightarrow> ('q, 'e) VIOSND_DEVICE \<Rightarrow> ('q, 'e) VIOSND_DEVICE" where
  "KeAcquireMutex q dev = dev\<lparr>mutex_count := (mutex_count dev)(q := mutex_count dev q + 1)\<rparr>"

definition KeReleaseMutex ::
  "vq_index \<Rightarrow> ('q, 'e) VIOSND_DEVICE \<Rightarrow> ('q, 'e) VIOSND_DEVICE option" where
  "KeReleaseMutex q dev =
     (if mutex_count dev q = 0 then None
      else Some (dev\<lparr>mutex_count := (mutex_count dev)(q := mutex_count dev q - 1)\<rparr>))"

definition pool_alloc ::
  "('q, 'e) kernel \<Rightarrow> ('q, 'e) VIOSND_DEVICE \<Rightarrow> nat \<Rightarrow>
   ptr \<times> ('q, 'e) VIOSND_DEVICE" where
  "pool_alloc K dev n = (case ExAllocatePool K (ext dev) (pool dev) n of
     (p, e) \<Rightarrow> (p, dev\<lparr>ext := e, pool := (if p = 0 then pool dev else p # pool dev)\<rparr>))"

definition ExFreePool ::
  "('q, 'e) VIOSND_DEVICE \<Rightarrow> ptr \<Rightarrow> ('q, 'e) VIOSND_DEVICE option" where
  "ExFreePool dev p = (if p \<in> set (pool dev) then Some (dev\<lparr>pool := remove1 p (pool dev)\<rparr>) else None)"

text \<open>The queue operations, on the queue stored in the device.\<close>

definition set_queue ::
  "vq_index \<Rightarrow> 'q \<Rightarrow> ('q, 'e) VIOSND_DEVICE \<Rightarrow> ('q, 'e) VIOSND_DEVICE" where
  "set_queue i q dev = dev\<lparr>Queues := (Queues dev)(i := Some q)\<rparr>"

definition vq_add_buf ::
  "('q, 'e) kernel \<Rightarrow> vq_index \<Rightarrow> scatterlist list \<Rightarrow> nat \<Rightarrow> nat \<Rightarrow> opaque \<Rightarrow>
   ('q, 'e) VIOSND_DEVICE \<Rightarrow> (int \<times> ('q, 'e) VIOSND_DEVICE) option" where
  "vq_add_buf K i sg outs ins x dev = do {
     q \<leftarrow> Queues dev i;
     (r, q) \<leftarrow> add_buf (vqops K) q sg outs ins x 0 0;
     Some (r, set_queue i q dev)
   }"

definition vq_get_buf ::
  "('q, 'e) kernel \<Rightarrow> vq_index \<Rightarrow> ('q, 'e) VIOSND_DEVICE \<Rightarrow>
   ((opaque \<times> u32) option \<times> ('q, 'e) VIOSND_DEVICE) option" where
  "vq_get_buf K i dev = do {
     q \<leftarrow> Queues dev i;
     (r, q) \<leftarrow> get_buf (vqops K) q;
     Some (r, set_queue i q dev)
   }"

definition vq_detach ::
  "('q, 'e) kernel \<Rightarrow> vq_index \<Rightarrow> ('q, 'e) VIOSND_DEVICE \<Rightarrow>
   (opaque option \<times> ('q, 'e) VIOSND_DEVICE) option" where
  "vq_detach K i dev = do {
     q \<leftarrow> Queues dev i;
     (r, q) \<leftarrow> detach_unused_buf (vqops K) q;
     Some (r, set_queue i q dev)
   }"

definition vq_kick ::
  "('q, 'e) kernel \<Rightarrow> vq_index \<Rightarrow> ('q, 'e) VIOSND_DEVICE \<Rightarrow>
   ('q, 'e) VIOSND_DEVICE option" where
  "vq_kick K i dev = do {
     q \<leftarrow> Queues dev i;
     q \<leftarrow> virtqueue_kick (vqops K) q;
     Some (set_queue i q dev)
   }"

definition vq_kick_always ::
  "('q, 'e) kernel \<Rightarrow> vq_index \<Rightarrow> ('q, 'e) VIOSND_DEVICE \<Rightarrow>
   ('q, 'e) VIOSND_DEVICE option" where
  "vq_kick_always K i dev = do {
     q \<leftarrow> Queues dev i;
     q \<leftarrow> kick_always (vqops K) q;
     Some (set_queue i q dev)
   }"

text \<open>Access to DMA memory at an offset of a buffer.\<close>

definition dma_read ::
  "('q, 'e) VIOSND_DEVICE \<Rightarrow> ptr \<Rightarrow> nat \<Rightarrow> nat \<Rightarrow> u8 list option" where
  "dma_read dev va off n = do { buf \<leftarrow> dma dev va; read_bytes off n buf }"

definition dma_write ::
  "('q, 'e) VIOSND_DEVICE \<Rightarrow> ptr \<Rightarrow> nat \<Rightarrow> u8 list \<Rightarrow>
   ('q, 'e) VIOSND_DEVICE option" where
  "dma_write dev va off bs = do {
     buf \<leftarrow> dma dev va;
     buf \<leftarrow> write_bytes off bs buf;
     Some (dev\<lparr>dma := (dma dev)(va \<mapsto> buf)\<rparr>)
   }"

section \<open>DMA buffers\<close>

text \<open>The returned pair is the buffer's address (0: NULL) and its logical address.\<close>

definition ViosndAllocateDmaBuffer ::
  "('q, 'e) kernel \<Rightarrow> ('q, 'e) VIOSND_DEVICE \<Rightarrow> u64 \<Rightarrow> ((ptr \<times> u64) \<times> ('q, 'e) VIOSND_DEVICE) option" where
  "ViosndAllocateDmaBuffer K dev sz =
     (let roundedSize = ROUND_TO_PAGES sz
      in if \<not> DmaAdapter dev \<or> ucast MAXULONG < roundedSize then Some ((0, 0), dev)
         else
           let (block, dev) = pool_alloc K dev 32
           in if block = 0 then Some ((0, 0), dev)
              else
                let (va, la, e) = AllocateCommonBuffer K (ext dev) (DmaBlocks dev) (ucast roundedSize);
                    dev = dev\<lparr>ext := e\<rparr>
                in if va = 0 then do { dev \<leftarrow> ExFreePool dev block; Some ((0, 0), dev) }
                   else Some ((va, la), dev
                     \<lparr>DmaBlocks := \<lparr>Va = va, LogicalAddress = la, BlockSize = roundedSize,
                                   Block = block\<rparr> # DmaBlocks dev,
                      dma := (dma dev)(va \<mapsto> replicate (unat roundedSize) 0)\<rparr>))"

fun extract_block :: "ptr \<Rightarrow> VIOSND_DMA_BLOCK list \<Rightarrow> (VIOSND_DMA_BLOCK \<times> VIOSND_DMA_BLOCK list) option" where
  "extract_block virt [] = None"
| "extract_block virt (b # bs) =
     (if Va b = virt then Some (b, bs)
      else map_option (\<lambda>(c, cs). (c, b # cs)) (extract_block virt bs))"

definition ViosndFreeDmaBuffer ::
  "('q, 'e) VIOSND_DEVICE \<Rightarrow> ptr \<Rightarrow> ('q, 'e) VIOSND_DEVICE option" where
  "ViosndFreeDmaBuffer dev virt =
     (if virt = 0 then Some dev
      else case extract_block virt (DmaBlocks dev) of
             None \<Rightarrow> Some dev
           | Some (block, rest) \<Rightarrow>
               ExFreePool (dev\<lparr>DmaBlocks := rest,
                 dma := (if DmaAdapter dev then (dma dev)(Va block := None) else dma dev)\<rparr>)
                 (Block block))"

fun dma_address :: "VIOSND_DMA_BLOCK list \<Rightarrow> ptr \<Rightarrow> u64" where
  "dma_address [] va = 0"
| "dma_address (b # bs) va =
     (let start = Va b; stop = start + BlockSize b
      in if start \<le> va \<and> va < stop then LogicalAddress b + (va - start) else dma_address bs va)"

definition ViosndGetDmaAddress :: "('q, 'e) VIOSND_DEVICE \<Rightarrow> ptr \<Rightarrow> u64" where
  "ViosndGetDmaAddress dev virt = dma_address (DmaBlocks dev) virt"

definition ViosndAllocControlBuffer ::
  "('q, 'e) kernel \<Rightarrow> ('q, 'e) VIOSND_DEVICE \<Rightarrow> u32 \<Rightarrow> ((ptr \<times> u64) \<times> ('q, 'e) VIOSND_DEVICE) option" where
  "ViosndAllocControlBuffer K dev sz = ViosndAllocateDmaBuffer K dev (ucast sz)"

definition ViosndFreeControlBuffer ::
  "('q, 'e) VIOSND_DEVICE \<Rightarrow> ptr \<Rightarrow> ('q, 'e) VIOSND_DEVICE option" where
  "ViosndFreeControlBuffer dev buffer = ViosndFreeDmaBuffer dev buffer"

section \<open>Callbacks of the virtio library\<close>

text \<open>An address within \<open>PORT_MASK\<close> is an I/O port, any other a memory-mapped register.\<close>

definition is_mmio :: "u64 \<Rightarrow> bool" where
  "is_mmio reg \<longleftrightarrow> reg AND NOT 0xFFFF \<noteq> 0"

definition ViosndReadByte :: "('q, 'e) kernel \<Rightarrow> u64 \<Rightarrow> 'e \<Rightarrow> u8 \<times> 'e" where
  "ViosndReadByte K reg e = (case io_read K (is_mmio reg) 1 reg e of (v, e) \<Rightarrow> (ucast v, e))"

definition ViosndReadWord :: "('q, 'e) kernel \<Rightarrow> u64 \<Rightarrow> 'e \<Rightarrow> u16 \<times> 'e" where
  "ViosndReadWord K reg e = (case io_read K (is_mmio reg) 2 reg e of (v, e) \<Rightarrow> (ucast v, e))"

definition ViosndReadDword :: "('q, 'e) kernel \<Rightarrow> u64 \<Rightarrow> 'e \<Rightarrow> u32 \<times> 'e" where
  "ViosndReadDword K reg e = io_read K (is_mmio reg) 4 reg e"

definition ViosndWriteByte :: "('q, 'e) kernel \<Rightarrow> u64 \<Rightarrow> u8 \<Rightarrow> 'e \<Rightarrow> 'e" where
  "ViosndWriteByte K reg v e = io_write K (is_mmio reg) 1 reg (ucast v) e"

definition ViosndWriteWord :: "('q, 'e) kernel \<Rightarrow> u64 \<Rightarrow> u16 \<Rightarrow> 'e \<Rightarrow> 'e" where
  "ViosndWriteWord K reg v e = io_write K (is_mmio reg) 2 reg (ucast v) e"

definition ViosndWriteDword :: "('q, 'e) kernel \<Rightarrow> u64 \<Rightarrow> u32 \<Rightarrow> 'e \<Rightarrow> 'e" where
  "ViosndWriteDword K reg v e = io_write K (is_mmio reg) 4 reg v e"

text \<open>The buffer receives what the bus wrote; the result is 0 when all of it was read.\<close>

definition ViosndReadPciConfig ::
  "('q, 'e) kernel \<Rightarrow> ('q, 'e) VIOSND_DEVICE \<Rightarrow> int \<Rightarrow> nat \<Rightarrow> int \<times> u8 list" where
  "ViosndReadPciConfig K dev at len =
     (if \<not> PciBusInterfaceValid dev then (- 1, [])
      else case GetBusData K (ext dev) at len of
             (bytes, read) \<Rightarrow> (if unat read = len then 0 else - 1, bytes))"

definition ViosndReadConfigByte where
  "ViosndReadConfigByte K dev at = ViosndReadPciConfig K dev at 1"

definition ViosndReadConfigWord where
  "ViosndReadConfigWord K dev at = ViosndReadPciConfig K dev at 2"

definition ViosndReadConfigDword where
  "ViosndReadConfigDword K dev at = ViosndReadPciConfig K dev at 4"

abbreviation (input) VIOSND_MAX_BARS :: nat where "VIOSND_MAX_BARS \<equiv> 6"

definition ViosndGetResourceLength :: "('q, 'e) VIOSND_DEVICE \<Rightarrow> int \<Rightarrow> u64 option" where
  "ViosndGetResourceLength dev bar =
     (if bar < 0 \<or> int VIOSND_MAX_BARS \<le> bar then Some 0
      else do {
        b \<leftarrow> read_at (Bars dev) (nat bar);
        if \<not> Present b then Some 0 else Some (ucast (BarLength b))
      })"

definition ViosndMapAddressRange ::
  "('q, 'e) kernel \<Rightarrow> ('q, 'e) VIOSND_DEVICE \<Rightarrow> int \<Rightarrow> u64 \<Rightarrow> (ptr \<times> ('q, 'e) VIOSND_DEVICE) option" where
  "ViosndMapAddressRange K dev bar off =
     (if bar < 0 \<or> int VIOSND_MAX_BARS \<le> bar then Some (0, dev)
      else do {
        b \<leftarrow> read_at (Bars dev) (nat bar);
        if \<not> Present b then Some (0, dev)
        else if ucast (BarLength b) \<le> off then Some (0, dev)
        else if PortSpace b then Some (BasePA b + off, dev)
        else if BaseVA b = 0 then
          let (va, e) = MmMapIoSpaceEx K (ext dev) (BasePA b) (BarLength b);
              dev = dev\<lparr>ext := e, Bars := (Bars dev)[nat bar := b\<lparr>BaseVA := va\<rparr>]\<rparr>
          in if va = 0 then Some (0, dev) else Some (va + off, dev)
        else Some (BaseVA b + off, dev)
      })"

section \<open>Base address registers\<close>

text \<open>\<open>virtio_get_bar_index\<close> (\<open>VirtIO/VirtIOPCICommon.c\<close>); a 64-bit BAR takes two registers.\<close>

function bar_scan :: "u32 list \<Rightarrow> u64 \<Rightarrow> nat \<Rightarrow> int option" where
  "bar_scan regs base i =
     (if 6 \<le> i then Some (- 1)
      else do {
        low \<leftarrow> read_at regs i;
        if low AND 1 \<noteq> 0 then
          (if ucast (low AND 0xFFFFFFFC) = base then Some (int i) else bar_scan regs base (i + 1))
        else if low AND 6 = 4 then do {
          high \<leftarrow> read_at regs (i + 1);
          if ucast (low AND 0xFFFFFFF0) OR push_bit 32 (ucast high) = base then Some (int i)
          else bar_scan regs base (i + 2)
        }
        else (if ucast (low AND 0xFFFFFFF0) = base then Some (int i) else bar_scan regs base (i + 1))
      })"
  by pat_completeness auto
termination by (relation "measure (\<lambda>(regs, base, i). 6 - i)") auto

declare bar_scan.simps [simp del]

definition virtio_get_bar_index :: "PCI_COMMON_HEADER \<Rightarrow> u64 \<Rightarrow> int option" where
  "virtio_get_bar_index hdr base =
     (if HeaderType hdr AND NOT 0x80 \<noteq> 0 then None else bar_scan (BaseAddresses hdr) base 0)"

text \<open>The translated resources: a NULL descriptor, or its start and length.\<close>

record RESOURCELIST =
  memory_entries :: "(u64 \<times> u32) option list"
  port_entries :: "(u64 \<times> u32) option list"

fun map_bars :: "bool \<Rightarrow> (u64 \<times> u32) option list \<Rightarrow> ('q, 'e) VIOSND_DEVICE \<Rightarrow>
    ('q, 'e) VIOSND_DEVICE option" where
  "map_bars port [] dev = Some dev"
| "map_bars port (None # ds) dev = map_bars port ds dev"
| "map_bars port (Some (start, len) # ds) dev = do {
     barIndex \<leftarrow> virtio_get_bar_index (PciHeader dev) start;
     if barIndex < 0 \<or> int VIOSND_MAX_BARS \<le> barIndex then map_bars port ds dev
     else do {
       b \<leftarrow> read_at (Bars dev) (nat barIndex);
       map_bars port ds (dev\<lparr>Bars := (Bars dev)[nat barIndex :=
         b\<lparr>Present := True, PortSpace := port, BasePA := start, BarLength := len\<rparr>]\<rparr>)
     }
   }"

definition ViosndMapBars ::
  "('q, 'e) VIOSND_DEVICE \<Rightarrow> RESOURCELIST \<Rightarrow> (NTSTATUS \<times> ('q, 'e) VIOSND_DEVICE) option" where
  "ViosndMapBars dev res = do {
     dev \<leftarrow> map_bars False (memory_entries res) dev;
     dev \<leftarrow> map_bars True (port_entries res) dev;
     Some (STATUS_SUCCESS, dev)
   }"

section \<open>Queue access\<close>

definition ViosndKickPcmQueue ::
  "('q, 'e) kernel \<Rightarrow> vq_index \<Rightarrow> ('q, 'e) VIOSND_DEVICE \<Rightarrow> ('q, 'e) VIOSND_DEVICE option" where
  "ViosndKickPcmQueue K i dev = (if ARM64 K then vq_kick_always K i dev else vq_kick K i dev)"

definition ViosndAcquireTxQueue ::
  "('q, 'e) kernel \<Rightarrow> ('q, 'e) VIOSND_DEVICE \<Rightarrow> NTSTATUS \<times> ('q, 'e) VIOSND_DEVICE" where
  "ViosndAcquireTxQueue K dev = (case tx_mutex_granted K (ext dev) of
     (granted, e) \<Rightarrow>
       if granted then (STATUS_SUCCESS, KeAcquireMutex VIRTIO_SND_VQ_TX (dev\<lparr>ext := e\<rparr>))
       else (STATUS_IO_TIMEOUT, dev\<lparr>ext := e\<rparr>))"

definition ViosndKickTxQueue ::
  "('q, 'e) kernel \<Rightarrow> ('q, 'e) VIOSND_DEVICE \<Rightarrow> ('q, 'e) VIOSND_DEVICE option" where
  "ViosndKickTxQueue K dev =
     (if Queues dev VIRTIO_SND_VQ_TX = None then Some dev
      else
        let (status, dev) = ViosndAcquireTxQueue K dev
        in if \<not> NT_SUCCESS status then Some dev
           else do {
             dev \<leftarrow> vq_kick_always K VIRTIO_SND_VQ_TX dev;
             KeReleaseMutex VIRTIO_SND_VQ_TX dev
           })"

definition ViosndIsPcmStatusCommand :: "u32 \<Rightarrow> bool" where
  "ViosndIsPcmStatusCommand command \<longleftrightarrow>
     command = VIRTIO_SND_R_PCM_SET_PARAMS \<or> command = VIRTIO_SND_R_PCM_PREPARE \<or>
     command = VIRTIO_SND_R_PCM_START \<or> command = VIRTIO_SND_R_PCM_STOP \<or>
     command = VIRTIO_SND_R_PCM_RELEASE"

section \<open>The memory invariant\<close>

definition disjoint_blocks :: "VIOSND_DMA_BLOCK \<Rightarrow> VIOSND_DMA_BLOCK \<Rightarrow> bool" where
  "disjoint_blocks b c \<longleftrightarrow>
     unat (Va b) + unat (BlockSize b) \<le> unat (Va c) \<or> unat (Va c) + unat (BlockSize c) \<le> unat (Va b)"

definition mem_inv :: "('q, 'e) VIOSND_DEVICE \<Rightarrow> bool" where
  "mem_inv dev \<longleftrightarrow>
     DmaAdapter dev \<and> distinct (pool dev) \<and> 0 \<notin> set (pool dev) \<and>
     distinct (map Va (DmaBlocks dev)) \<and> distinct (map Block (DmaBlocks dev)) \<and>
     (\<forall>b \<in> set (DmaBlocks dev). Va b \<noteq> 0 \<and> Block b \<in> set (pool dev) \<and>
        msgs dev (Block b) = None \<and> ios dev (Block b) = None \<and>
        unat (Va b) + unat (BlockSize b) < 2 ^ 64 \<and>
        (\<exists>buf. dma dev (Va b) = Some buf \<and> length buf = unat (BlockSize b))) \<and>
     pairwise disjoint_blocks (set (DmaBlocks dev)) \<and>
     dom (dma dev) = Va ` set (DmaBlocks dev) \<and>
     dom (msgs dev) \<subseteq> set (pool dev) \<and> dom (ios dev) \<subseteq> set (pool dev) \<and>
     dom (msgs dev) \<inter> dom (ios dev) = {}"

text \<open>What the driver relies on of the two allocators: they return memory that is not in use.\<close>

definition allocators_ok :: "('q, 'e) kernel \<Rightarrow> bool" where
  "allocators_ok K \<longleftrightarrow>
     (\<forall>e ps n. fst (ExAllocatePool K e ps n) \<noteq> 0 \<longrightarrow> fst (ExAllocatePool K e ps n) \<notin> set ps) \<and>
     (\<forall>e bs n va la e'. AllocateCommonBuffer K e bs n = (va, la, e') \<and> va \<noteq> 0 \<longrightarrow>
        va \<notin> Va ` set bs \<and> unat va + unat n < 2 ^ 64 \<and>
        (\<forall>b \<in> set bs. unat (Va b) + unat (BlockSize b) \<le> unat va \<or> unat va + unat n \<le> unat (Va b)))"

lemma pool_alloc_cases:
  assumes "allocators_ok K" "pool_alloc K dev n = (p, dev')"
  obtains e where "dev' = dev\<lparr>ext := e, pool := (if p = 0 then pool dev else p # pool dev)\<rparr>"
    "p \<noteq> 0 \<Longrightarrow> p \<notin> set (pool dev)"
proof -
  obtain e where e: "ExAllocatePool K (ext dev) (pool dev) n = (p, e)"
    "dev' = dev\<lparr>ext := e, pool := (if p = 0 then pool dev else p # pool dev)\<rparr>"
    using assms(2) by (auto simp: pool_alloc_def split: prod.splits)
  have "p \<noteq> 0 \<Longrightarrow> fst (ExAllocatePool K (ext dev) (pool dev) n) \<notin> set (pool dev)"
    using assms(1) e(1) unfolding allocators_ok_def by (metis fst_conv)
  then show thesis using that [OF e(2)] e(1) by simp
qed

lemma mem_inv_ext [simp]: "mem_inv (dev\<lparr>ext := e\<rparr>) = mem_inv dev"
  by (simp add: mem_inv_def)

lemma mem_inv_pool_cons:
  "mem_inv dev \<Longrightarrow> p \<notin> set (pool dev) \<Longrightarrow> p \<noteq> 0 \<Longrightarrow> mem_inv (dev\<lparr>pool := p # pool dev\<rparr>)"
  by (auto simp: mem_inv_def)

lemma round_le: "ROUND_TO_PAGES n \<le> 0xFFFFFFFF \<Longrightarrow> unat (ucast (ROUND_TO_PAGES n) :: u32) = unat (ROUND_TO_PAGES n)"
  by (simp add: unsigned_ucast_eq take_bit_nat_eq_self word_le_nat_alt)

lemma mem_inv_insert:
  assumes "mem_inv dev" "Block b \<notin> set (pool dev)" "Block b \<noteq> 0" "Va b \<noteq> 0"
    "Va b \<notin> Va ` set (DmaBlocks dev)" "unat (Va b) + unat (BlockSize b) < 2 ^ 64"
    "\<And>c. c \<in> set (DmaBlocks dev) \<Longrightarrow> disjoint_blocks b c"
    "\<And>c. c \<in> set (DmaBlocks dev) \<Longrightarrow> disjoint_blocks c b"
    "msgs dev (Block b) = None" "ios dev (Block b) = None" "length buf = unat (BlockSize b)"
  shows "mem_inv (dev\<lparr>ext := e, pool := Block b # pool dev, DmaBlocks := b # DmaBlocks dev,
     dma := (dma dev)(Va b \<mapsto> buf)\<rparr>)"
proof -
  have "Va c \<noteq> Va b" if "c \<in> set (DmaBlocks dev)" for c
    using assms(5) imageI [OF that, of Va] by metis
  moreover have "Block c \<noteq> Block b" if "c \<in> set (DmaBlocks dev)" for c
    using assms(1,2) that by (metis mem_inv_def)
  moreover have "pairwise disjoint_blocks (insert b (set (DmaBlocks dev)))"
    using assms(1,7,8) by (simp add: mem_inv_def pairwise_insert)
  ultimately show ?thesis using assms unfolding mem_inv_def by simp (auto dest: subsetD)
qed

lemma AllocateDmaBuffer_ok:
  assumes "allocators_ok K" "mem_inv dev"
  obtains (fail) e where "ViosndAllocateDmaBuffer K dev n = Some ((0, 0), dev\<lparr>ext := e\<rparr>)"
  | (ok) va la e p where
      "ViosndAllocateDmaBuffer K dev n = Some ((va, la), dev
        \<lparr>ext := e, pool := p # pool dev,
         DmaBlocks := \<lparr>Va = va, LogicalAddress = la, BlockSize = ROUND_TO_PAGES n, Block = p\<rparr> # DmaBlocks dev,
         dma := (dma dev)(va \<mapsto> replicate (unat (ROUND_TO_PAGES n)) 0)\<rparr>)"
      "va \<noteq> 0" "p \<noteq> 0" "p \<notin> set (pool dev)" "va \<notin> Va ` set (DmaBlocks dev)"
      "mem_inv (dev\<lparr>ext := e, pool := p # pool dev,
         DmaBlocks := \<lparr>Va = va, LogicalAddress = la, BlockSize = ROUND_TO_PAGES n, Block = p\<rparr> # DmaBlocks dev,
         dma := (dma dev)(va \<mapsto> replicate (unat (ROUND_TO_PAGES n)) 0)\<rparr>)"
proof -
  let ?n = "ROUND_TO_PAGES n"
  obtain p dev1 where pa: "pool_alloc K dev 32 = (p, dev1)" by force
  then obtain e1 where dev1: "dev1 = dev\<lparr>ext := e1, pool := (if p = 0 then pool dev else p # pool dev)\<rparr>"
    and p0: "p \<noteq> 0 \<Longrightarrow> p \<notin> set (pool dev)" using pool_alloc_cases [OF assms(1)] by metis
  obtain va la e2 where ac: "AllocateCommonBuffer K e1 (DmaBlocks dev) (ucast ?n) = (va, la, e2)"
    by (metis prod_cases3)
  have A: "DmaAdapter dev" using assms(2) by (simp add: mem_inv_def)
  show thesis
  proof (cases "ucast MAXULONG < ?n \<or> p = 0 \<or> va = 0")
    case True
    then have "\<exists>e. ViosndAllocateDmaBuffer K dev n = Some ((0, 0), dev\<lparr>ext := e\<rparr>)"
    proof -
      consider "ucast MAXULONG < ?n" | "\<not> ucast MAXULONG < ?n" "p = 0"
        | "\<not> ucast MAXULONG < ?n" "p \<noteq> 0" "va = 0" using True by blast
      then show ?thesis
      proof cases
        case 1
        then show ?thesis
          by (intro exI [of _ "ext dev"]) (simp add: ViosndAllocateDmaBuffer_def Let_def)
      next
        case 2
        then show ?thesis using A pa dev1
          by (intro exI [of _ e1]) (simp add: ViosndAllocateDmaBuffer_def Let_def)
      next
        case 3
        then show ?thesis using A pa dev1 ac
          by (intro exI [of _ e2]) (simp add: ViosndAllocateDmaBuffer_def Let_def ExFreePool_def)
      qed
    qed
    then show thesis using fail by blast
  next
    case False
    then have p: "p \<notin> set (pool dev)" using p0 by simp
    from False have le: "?n \<le> 0xFFFFFFFF" by (simp add: not_less)
    have eq: "ViosndAllocateDmaBuffer K dev n = Some ((va, la), dev
        \<lparr>ext := e2, pool := p # pool dev,
         DmaBlocks := \<lparr>Va = va, LogicalAddress = la, BlockSize = ?n, Block = p\<rparr> # DmaBlocks dev,
         dma := (dma dev)(va \<mapsto> replicate (unat ?n) 0)\<rparr>)"
      using A pa dev1 ac False by (simp add: ViosndAllocateDmaBuffer_def Let_def)
    let ?b = "\<lparr>Va = va, LogicalAddress = la, BlockSize = ?n, Block = p\<rparr>"
    have va: "va \<notin> Va ` set (DmaBlocks dev)" "unat va + unat ?n < 2 ^ 64"
      "\<forall>b \<in> set (DmaBlocks dev). unat (Va b) + unat (BlockSize b) \<le> unat va \<or> unat va + unat ?n \<le> unat (Va b)"
      using assms(1) [unfolded allocators_ok_def, THEN conjunct2, rule_format, OF conjI, OF ac] False
      by (simp_all add: round_le [OF le])
    have "msgs dev p = None" "ios dev p = None" using assms(2) p by (auto simp: mem_inv_def)
    moreover have "disjoint_blocks ?b c" "disjoint_blocks c ?b" if "c \<in> set (DmaBlocks dev)" for c
      using va(3) that by (auto simp: disjoint_blocks_def)
    ultimately have m: "mem_inv (dev\<lparr>ext := e2, pool := Block ?b # pool dev, DmaBlocks := ?b # DmaBlocks dev,
         dma := (dma dev)(Va ?b \<mapsto> replicate (unat ?n) 0)\<rparr>)"
      using False p va(1,2) by (intro mem_inv_insert [OF assms(2)]) simp_all
    show thesis
      by (rule ok [OF eq _ _ p va(1) m [simplified VIOSND_DMA_BLOCK.select_convs]]) (use False in simp_all)
  qed
qed

lemma extract_block_None: "extract_block v bs = None \<longleftrightarrow> v \<notin> Va ` set bs"
  by (induction bs) (auto split: option.splits)

lemma extract_block_Some:
  "extract_block v bs = Some (b, rest) \<Longrightarrow>
   Va b = v \<and> b \<in> set bs \<and> (\<exists>xs ys. bs = xs @ b # ys \<and> rest = xs @ ys)"
proof (induction bs arbitrary: rest)
  case (Cons a bs)
  show ?case
  proof (cases "Va a = v")
    case True
    then show ?thesis using Cons.prems by (auto intro: exI [of _ "[]"])
  next
    case False
    then obtain cs where cs: "extract_block v bs = Some (b, cs)" "rest = a # cs"
      using Cons.prems by (auto split: option.splits prod.splits)
    from Cons.IH [OF cs(1)] obtain xs ys where "bs = xs @ b # ys" "cs = xs @ ys" "Va b = v" by blast
    then have "a # bs = (a # xs) @ b # ys" "rest = (a # xs) @ ys" using cs by simp_all
    with \<open>Va b = v\<close> show ?thesis by (metis in_set_conv_decomp)
  qed
qed simp

lemma mem_inv_dom: "mem_inv dev \<Longrightarrow> dom (dma dev) = Va ` set (DmaBlocks dev)"
  by (simp add: mem_inv_def)

lemma mem_inv_null: "mem_inv dev \<Longrightarrow> dma dev 0 = None"
proof -
  assume m: "mem_inv dev"
  then have "0 \<notin> Va ` set (DmaBlocks dev)" by (auto simp: mem_inv_def)
  then show ?thesis using mem_inv_dom [OF m] by blast
qed

lemma mem_inv_remove:
  assumes m: "mem_inv dev" and bs: "DmaBlocks dev = xs @ b # ys"
  shows "mem_inv (dev\<lparr>DmaBlocks := xs @ ys, pool := remove1 (Block b) (pool dev),
     dma := (dma dev)(Va b := None)\<rparr>)"
proof -
  have dd: "distinct (map Va (xs @ b # ys))" "distinct (map Block (xs @ b # ys))"
    using m unfolding mem_inv_def bs by blast+
  have ne: "Va c \<noteq> Va b" "Block c \<noteq> Block b" if "c \<in> set (xs @ ys)" for c
  proof -
    have "Va b \<notin> Va ` set (xs @ ys)" "Block b \<notin> Block ` set (xs @ ys)" using dd by auto
    then show "Va c \<noteq> Va b" "Block c \<noteq> Block b" using that by (metis not_image_neq)+
  qed
  have pw: "pairwise disjoint_blocks (set (xs @ ys))"
    using m unfolding mem_inv_def bs by (auto intro: pairwise_mono)
  have "Va ` set (xs @ ys) = Va ` set (DmaBlocks dev) - {Va b}"
    unfolding bs using ne(1) by auto
  then have dom: "dom ((dma dev)(Va b := None)) = Va ` set (xs @ ys)" using mem_inv_dom [OF m] by auto
  have nm: "Block b \<notin> dom (msgs dev)" "Block b \<notin> dom (ios dev)"
    using m unfolding mem_inv_def bs by auto
  have blocks: "\<forall>c \<in> set (xs @ ys). Va c \<noteq> 0 \<and> Block c \<in> set (remove1 (Block b) (pool dev)) \<and>
        msgs dev (Block c) = None \<and> ios dev (Block c) = None \<and>
        unat (Va c) + unat (BlockSize c) < 2 ^ 64 \<and>
        (\<exists>buf. ((dma dev)(Va b := None)) (Va c) = Some buf \<and> length buf = unat (BlockSize c))"
  proof
    fix c assume c: "c \<in> set (xs @ ys)"
    then have "c \<in> set (DmaBlocks dev)" using bs by auto
    then show "Va c \<noteq> 0 \<and> Block c \<in> set (remove1 (Block b) (pool dev)) \<and>
        msgs dev (Block c) = None \<and> ios dev (Block c) = None \<and>
        unat (Va c) + unat (BlockSize c) < 2 ^ 64 \<and>
        (\<exists>buf. ((dma dev)(Va b := None)) (Va c) = Some buf \<and> length buf = unat (BlockSize c))"
      using m ne [OF c] by (simp add: mem_inv_def)
  qed
  have dist: "distinct (map Va (xs @ ys))" "distinct (map Block (xs @ ys))"
    using m unfolding mem_inv_def bs by auto
  show ?thesis
    unfolding mem_inv_def using m dom blocks dist pw nm
    by (auto simp: mem_inv_def dest: subsetD)
qed

lemma FreeDmaBuffer_ok:
  assumes m: "mem_inv dev"
  obtains bs ps where
    "ViosndFreeDmaBuffer dev v = Some (dev\<lparr>DmaBlocks := bs, pool := ps, dma := (dma dev)(v := None)\<rparr>)"
    "mem_inv (dev\<lparr>DmaBlocks := bs, pool := ps, dma := (dma dev)(v := None)\<rparr>)"
    "set ps \<subseteq> set (pool dev)"
    "\<And>p. p \<in> set (pool dev) \<Longrightarrow> p \<notin> Block ` set (DmaBlocks dev) \<Longrightarrow> p \<in> set ps"
proof (cases "extract_block v (DmaBlocks dev)")
  case None
  then have "dma dev v = None" using mem_inv_dom [OF m] extract_block_None by fastforce
  then have "(dma dev)(v := None) = dma dev" by auto
  then show thesis using None m by (intro that [where bs = "DmaBlocks dev" and ps = "pool dev"])
    (simp_all add: ViosndFreeDmaBuffer_def)
next
  case (Some p)
  obtain b rest where p: "p = (b, rest)" by force
  from extract_block_Some [OF Some [unfolded p]] obtain xs ys where
    b: "Va b = v" "b \<in> set (DmaBlocks dev)" "DmaBlocks dev = xs @ b # ys" "rest = xs @ ys" by blast
  have B: "v \<noteq> 0" "Block b \<in> set (pool dev)" "DmaAdapter dev" "distinct (pool dev)"
    using m b by (auto simp: mem_inv_def)
  have "ViosndFreeDmaBuffer dev v = Some (dev\<lparr>DmaBlocks := rest,
     pool := remove1 (Block b) (pool dev), dma := (dma dev)(v := None)\<rparr>)"
    using B b Some p by (simp add: ViosndFreeDmaBuffer_def ExFreePool_def)
  moreover have "mem_inv (dev\<lparr>DmaBlocks := rest, pool := remove1 (Block b) (pool dev),
     dma := (dma dev)(v := None)\<rparr>)"
    using mem_inv_remove [OF m b(3)] b by simp
  moreover have "set (remove1 (Block b) (pool dev)) \<subseteq> set (pool dev)" by (rule set_remove1_subset)
  moreover have "q \<in> set (remove1 (Block b) (pool dev))"
    if "q \<in> set (pool dev)" "q \<notin> Block ` set (DmaBlocks dev)" for q
    using that b(2) by (metis image_eqI in_set_remove1)
  ultimately show thesis by (rule that)
qed

section \<open>Properties\<close>

lemma AllocateDmaBuffer_total:
  assumes "allocators_ok K" "mem_inv dev"
  shows "\<exists>va la dev'. ViosndAllocateDmaBuffer K dev n = Some ((va, la), dev')"
  using assms
proof (cases rule: AllocateDmaBuffer_ok [of K dev n])
  case (fail e)
  then show ?thesis by blast
next
  case (ok va la e p)
  show ?thesis using ok(1) by blast
qed

lemma disjoint_not_in:
  assumes "disjoint_blocks b c" "Va b \<le> a" "a < Va b + BlockSize b"
    "unat (Va b) + unat (BlockSize b) < 2 ^ 64" "unat (Va c) + unat (BlockSize c) < 2 ^ 64"
  shows "\<not> (Va c \<le> a \<and> a < Va c + BlockSize c)"
proof -
  have u: "unat (Va d + BlockSize d) = unat (Va d) + unat (BlockSize d)"
    if "unat (Va d) + unat (BlockSize d) < 2 ^ 64" for d
    using unat_add_of_nat [of "Va d" "unat (BlockSize d)"] that by simp
  show ?thesis using assms u [OF assms(4)] u [OF assms(5)]
    by (auto simp: disjoint_blocks_def word_le_nat_alt word_less_nat_alt)
qed

lemma dma_address_unique:
  assumes "pairwise disjoint_blocks (set bs)" "distinct (map Va bs)"
    "\<forall>b \<in> set bs. unat (Va b) + unat (BlockSize b) < 2 ^ 64"
    "b \<in> set bs" "Va b \<le> a" "a < Va b + BlockSize b"
  shows "dma_address bs a = LogicalAddress b + (a - Va b)"
  using assms
proof (induction bs)
  case (Cons c bs)
  show ?case
  proof (cases "c = b")
    case True
    then show ?thesis using Cons.prems by simp
  next
    case False
    then have b: "b \<in> set bs" using Cons.prems by simp
    have "disjoint_blocks b c" using Cons.prems False by (auto simp: pairwise_def)
    then have "\<not> (Va c \<le> a \<and> a < Va c + BlockSize c)"
      using Cons.prems by (intro disjoint_not_in [of b c]) auto
    then have "dma_address (c # bs) a = dma_address bs a"
      unfolding dma_address.simps Let_def by (rule if_not_P)
    also have "\<dots> = LogicalAddress b + (a - Va b)"
      using Cons.prems b by (intro Cons.IH) (auto simp: pairwise_insert)
    finally show ?thesis .
  qed
qed simp

text \<open>
  C8: a buffer from \<open>ViosndAllocateDmaBuffer\<close> is zeroed, of the requested size rounded up to
  pages, disjoint from every other buffer; the driver's address translation maps every byte of
  it to the logical address the device uses; and freeing it gives back exactly the DMA memory
  there was before.  On failure nothing is allocated.
\<close>

theorem dma_buffer_lifecycle:
  assumes "allocators_ok K" "mem_inv dev" "ViosndAllocateDmaBuffer K dev n = Some ((va, la), dev')"
  shows "mem_inv dev' \<and>
    (if va = 0 then dma dev' = dma dev \<and> DmaBlocks dev' = DmaBlocks dev \<and> pool dev' = pool dev
     else dma dev va = None \<and>
       dma dev' = (dma dev)(va \<mapsto> replicate (unat (ROUND_TO_PAGES n)) 0) \<and>
       (\<forall>a. va \<le> a \<and> a < va + ROUND_TO_PAGES n \<longrightarrow> ViosndGetDmaAddress dev' a = la + (a - va)) \<and>
       (\<exists>dev''. ViosndFreeDmaBuffer dev' va = Some dev'' \<and> mem_inv dev'' \<and>
          dma dev'' = dma dev \<and> DmaBlocks dev'' = DmaBlocks dev \<and> pool dev'' = pool dev))"
  using assms(1,2)
proof (cases rule: AllocateDmaBuffer_ok [of K dev n])
  case (fail e)
  then show ?thesis using assms by auto
next
  case (ok v l e p)
  let ?b = "\<lparr>Va = va, LogicalAddress = la, BlockSize = ROUND_TO_PAGES n, Block = p\<rparr>"
  have d: "v = va" "l = la" "dev' = dev\<lparr>ext := e, pool := p # pool dev,
     DmaBlocks := ?b # DmaBlocks dev,
     dma := (dma dev)(va \<mapsto> replicate (unat (ROUND_TO_PAGES n)) 0)\<rparr>"
    using ok(1) assms(3) by simp_all
  have m: "mem_inv dev'" using ok(6) d by simp
  have none: "dma dev va = None" using ok(5) d mem_inv_dom [OF assms(2)] by blast
  have addr: "ViosndGetDmaAddress dev' a = la + (a - va)" if "va \<le> a" "a < va + ROUND_TO_PAGES n" for a
    using dma_address_unique [of "DmaBlocks dev'" ?b a] m that d(3)
    by (simp add: ViosndGetDmaAddress_def mem_inv_def)
  have "ViosndFreeDmaBuffer dev' va = Some (dev\<lparr>ext := e\<rparr>)"
    using m ok(2) d none by (simp add: ViosndFreeDmaBuffer_def ExFreePool_def mem_inv_def fun_upd_idem)
  then show ?thesis using m d none ok(2) addr assms(2) by auto
qed
section \<open>A concrete kernel\<close>

text \<open>
  An environment that meets the contracts, used by the witnesses: allocators that place each
  allocation above the ones in use, and a device that stays idle.
\<close>

definition idle_kernel :: "(opaque virtqueue_split, 'e) kernel" where
  "idle_kernel = \<lparr>vqops = split_ops, ARM64 = False,
     ExAllocatePool = (\<lambda>e ps n. (foldr max ps 0 + 1, e)),
     AllocateCommonBuffer = (\<lambda>e bs n.
       let top = Suc (foldr (\<lambda>b m. max m (unat (Va b) + unat (BlockSize b))) bs 0)
       in if top + unat n < 2 ^ 64 then (word_of_nat top, word_of_nat top, e) else (0, 0, e)),
     device_runs = (\<lambda>e qs m. (e, qs, m)), tx_mutex_granted = (\<lambda>e. (True, e)),
     GetBusData = (\<lambda>e at n. (replicate n 0, word_of_nat n)),
     MmMapIoSpaceEx = (\<lambda>e pa n. (ucast pa, e)), io_read = (\<lambda>m w r e. (0, e)),
     io_write = (\<lambda>m w r v e. e)\<rparr>"

lemma foldr_max_ge: "x \<in> set xs \<Longrightarrow> (f x :: 'b::linorder) \<le> foldr (\<lambda>b m. max m (f b)) xs z"
  by (induction xs) (auto simp: le_max_iff_disj)

lemma foldr_max_ge': "x \<in> set xs \<Longrightarrow> (x :: 'b::linorder) \<le> foldr max xs z"
  by (induction xs) (auto simp: le_max_iff_disj)

lemma idle_allocators: "allocators_ok idle_kernel"
  unfolding allocators_ok_def
proof (intro conjI allI impI)
  fix e ps n
  assume "fst (ExAllocatePool idle_kernel e ps n) \<noteq> 0"
  then have "foldr max ps 0 + 1 \<noteq> (0 :: ptr)" by (simp add: idle_kernel_def)
  then have "foldr max ps 0 < foldr max ps 0 + (1 :: ptr)"
    by (metis add.commute lessI unatSuc word_less_nat_alt)
  then show "fst (ExAllocatePool idle_kernel e ps n) \<notin> set ps"
    using foldr_max_ge' [of _ ps 0] by (force simp: idle_kernel_def)
next
  fix e n va la e' and bs :: "VIOSND_DMA_BLOCK list"
  let ?top = "Suc (foldr (\<lambda>b m. max m (unat (Va b) + unat (BlockSize b))) bs 0)"
  assume a: "AllocateCommonBuffer idle_kernel e bs n = (va, la, e') \<and> va \<noteq> 0"
  then have t: "?top + unat n < 2 ^ 64" "va = word_of_nat ?top"
    by (auto simp: idle_kernel_def Let_def split: if_splits)
  have u: "unat va = ?top" unfolding t(2) unat_of_nat by (rule mod_less) (use t(1) in simp)
  have b: "unat (Va b) + unat (BlockSize b) < unat va" if "b \<in> set bs" for b
    using foldr_max_ge [OF that, of "\<lambda>b. unat (Va b) + unat (BlockSize b)" 0] u by simp
  show "va \<notin> Va ` set bs" using b by fastforce
  show "unat va + unat n < 2 ^ 64" using t(1) u by simp
  show "\<forall>b \<in> set bs. unat (Va b) + unat (BlockSize b) \<le> unat va \<or> unat va + unat n \<le> unat (Va b)"
    using b by (auto simp: less_imp_le)
qed

definition blank_device :: "(opaque virtqueue_split, unit) VIOSND_DEVICE" where
  "blank_device = \<lparr>PciBusInterfaceValid = True,
     PciHeader = \<lparr>HeaderType = 0, BaseAddresses = [0, 0, 0, 0, 0, 0]\<rparr>, Bars = [], DmaBlocks = [],
     DmaAdapter = True, VirtioInitialized = True, Queues = (\<lambda>_. Some ring2), mutex_count = (\<lambda>_. 0),
     Config = \<lparr>cfg_jacks = 0, cfg_streams = 2, cfg_chmaps = 0, cfg_controls = 0\<rparr>,
     EventBuffers = replicate 8 \<lparr>EventVa = 0, EventPa = 0\<rparr>, EventBufferCount = 0,
     dma = Map.empty, msgs = Map.empty, ios = Map.empty, pool = [], ext = ()\<rparr>"

lemma blank_mem: "mem_inv blank_device"
  by (simp add: mem_inv_def blank_device_def)

theorem dma_buffer_lifecycle_witness:
  "\<exists>va la dev'. ViosndAllocateDmaBuffer idle_kernel blank_device 100 = Some ((va, la), dev') \<and> mem_inv dev'"
proof -
  obtain va la dev' where a: "ViosndAllocateDmaBuffer idle_kernel blank_device 100 = Some ((va, la), dev')"
    using AllocateDmaBuffer_total [OF idle_allocators blank_mem, of 100] by metis
  show ?thesis using dma_buffer_lifecycle [OF idle_allocators blank_mem a] a by blast
qed

end
