(* ===== verification/Snd_Client.thy ===== *)
theory Snd_Client
  imports Snd_Device
begin

text \<open>
  The invariant of the device extension and the driver as a client of its environment.  Every DMA
  buffer that a control message, a transfer descriptor or an event buffer names is allocated,
  long enough and owned by that object alone; every queue holds each token at most once, and only
  tokens of stored objects.  The locale \<open>virtio_snd\<close> extends \<open>virtqueue\<close> with a kernel whose
  queues are the given ones, whose allocators return unused memory and whose device completes
  only buffers in flight; its lemmas are the effect of each primitive on the invariant.
\<close>

section \<open>Ownership and queues\<close>

text \<open>
  The buffers an object of the driver owns, the object being named by its token; the length of a
  buffer; and what makes the stored objects usable: a message and a transfer descriptor own two
  distinct buffers that are long enough for what the code reads and writes there.
\<close>

definition bufs :: "('q, 'e) VIOSND_DEVICE \<Rightarrow> opaque \<Rightarrow> ptr set" where
  "bufs dev x = (case x of
     OMessage p \<Rightarrow> (case msgs dev p of None \<Rightarrow> {} | Some m \<Rightarrow> {m_RequestVa m, m_ResponseVa m})
   | OIo p \<Rightarrow> (case ios dev p of None \<Rightarrow> {}
       | Some y \<Rightarrow> {RequestVa y, if AudioVa y = 0 then StatusVa y else AudioVa y})
   | OEvent i \<Rightarrow> (if i < length (EventBuffers dev) then {EventVa (EventBuffers dev ! i)} - {0} else {})
   | OVa v \<Rightarrow> {})"

definition buf_len :: "('q, 'e) VIOSND_DEVICE \<Rightarrow> ptr \<Rightarrow> nat" where
  "buf_len dev v = (case dma dev v of None \<Rightarrow> 0 | Some b \<Rightarrow> length b)"

definition msg_ok :: "('q, 'e) VIOSND_DEVICE \<Rightarrow> VIOSND_CONTROL_MESSAGE \<Rightarrow> bool" where
  "msg_ok dev m \<longleftrightarrow> m_RequestVa m \<noteq> m_ResponseVa m \<and>
     unat (m_ResponseLength m) \<le> buf_len dev (m_ResponseVa m)"

definition write_io_ok :: "('q, 'e) VIOSND_DEVICE \<Rightarrow> VIOSND_PCM_IO \<Rightarrow> bool" where
  "write_io_ok dev x \<longleftrightarrow> AudioVa x = 0 \<and> RequestVa x \<noteq> 0 \<and> StatusVa x \<noteq> 0 \<and> RequestVa x \<noteq> StatusVa x \<and>
     unat (RequestLength x) \<le> buf_len dev (RequestVa x) \<and> sizeof_PCM_STATUS \<le> buf_len dev (StatusVa x)"

definition read_io_ok :: "('q, 'e) VIOSND_DEVICE \<Rightarrow> VIOSND_PCM_IO \<Rightarrow> bool" where
  "read_io_ok dev x \<longleftrightarrow> AudioVa x \<noteq> 0 \<and> RequestVa x \<noteq> 0 \<and> RequestVa x \<noteq> AudioVa x \<and>
     sizeof_PCM_XFER \<le> buf_len dev (RequestVa x) \<and>
     unat (MaxAudioLength x) + sizeof_PCM_STATUS \<le> buf_len dev (AudioVa x)"

text \<open>
  \<open>E\<close> and \<open>P\<close> are the DMA buffers and the pool blocks that the running operation holds outside
  any object.
\<close>

definition own_inv :: "ptr set \<Rightarrow> ptr set \<Rightarrow> ('q, 'e) VIOSND_DEVICE \<Rightarrow> bool" where
  "own_inv E P dev \<longleftrightarrow>
     E \<subseteq> dom (dma dev) \<and> (\<forall>x. bufs dev x \<subseteq> dom (dma dev) - E) \<and>
     (\<forall>x y. x \<noteq> y \<longrightarrow> bufs dev x \<inter> bufs dev y = {}) \<and>
     P \<subseteq> set (pool dev) - dom (msgs dev) - dom (ios dev) - Block ` set (DmaBlocks dev) \<and>
     (\<forall>p m. msgs dev p = Some m \<longrightarrow> msg_ok dev m) \<and>
     (\<forall>p x. ios dev p = Some x \<longrightarrow> write_io_ok dev x \<or> read_io_ok dev x) \<and>
     (\<forall>b \<in> set (EventBuffers dev). EventVa b = 0 \<or> sizeof_EVENT \<le> buf_len dev (EventVa b))"

text \<open>The tokens a queue may hold.\<close>

definition token_ok :: "('q, 'e) VIOSND_DEVICE \<Rightarrow> vq_index \<Rightarrow> opaque \<Rightarrow> bool" where
  "token_ok dev i x = (case x of
     OMessage p \<Rightarrow> i = VIRTIO_SND_VQ_CONTROL \<and> p \<in> dom (msgs dev)
   | OEvent k \<Rightarrow> i = VIRTIO_SND_VQ_EVENT \<and> k < length (EventBuffers dev) \<and>
       EventVa (EventBuffers dev ! k) \<noteq> 0
   | OIo p \<Rightarrow> (case ios dev p of None \<Rightarrow> False
       | Some y \<Rightarrow> i = VIRTIO_SND_VQ_TX \<and> AudioVa y = 0 \<or> i = VIRTIO_SND_VQ_RX \<and> AudioVa y \<noteq> 0)
   | OVa v \<Rightarrow> False)"

definition queue_inv ::
  "('q \<Rightarrow> bool) \<Rightarrow> ('q \<Rightarrow> opaque multiset) \<Rightarrow> ('q, 'e) VIOSND_DEVICE \<Rightarrow> bool" where
  "queue_inv qinv inflight dev \<longleftrightarrow> (\<forall>i q. Queues dev i = Some q \<longrightarrow>
     qinv q \<and> (\<forall>x. count (inflight q) x \<le> 1) \<and> (\<forall>x \<in># inflight q. token_ok dev i x))"

definition dev_inv ::
  "('q \<Rightarrow> bool) \<Rightarrow> ('q \<Rightarrow> opaque multiset) \<Rightarrow> ptr set \<Rightarrow> ptr set \<Rightarrow> ('q, 'e) VIOSND_DEVICE \<Rightarrow> bool" where
  "dev_inv qinv inflight E P dev \<longleftrightarrow> mem_inv dev \<and> own_inv E P dev \<and> queue_inv qinv inflight dev"

definition flight :: "('q \<Rightarrow> opaque multiset) \<Rightarrow> ('q, 'e) VIOSND_DEVICE \<Rightarrow> vq_index \<Rightarrow> opaque multiset" where
  "flight inflight dev i = (case Queues dev i of None \<Rightarrow> {#} | Some q \<Rightarrow> inflight q)"

text \<open>
  What the device may do to the queues and the DMA memory while the driver waits: complete
  buffers that are in flight, and write memory without changing which buffers exist.
\<close>

definition device_step ::
  "('q \<Rightarrow> bool) \<Rightarrow> ('q \<Rightarrow> opaque multiset) \<Rightarrow> ('q \<Rightarrow> (opaque \<times> u32) list) \<Rightarrow> ('q \<Rightarrow> nat) \<Rightarrow>
   'q queues \<Rightarrow> dma_memory \<Rightarrow> 'q queues \<Rightarrow> dma_memory \<Rightarrow> bool" where
  "device_step qinv inflight pending room qs m qs' m' \<longleftrightarrow>
     (\<forall>i. qs i = None \<longrightarrow> qs' i = None) \<and>
     (\<forall>i q. qs i = Some q \<and> qinv q \<longrightarrow> (\<exists>q' done. qs' i = Some q' \<and> qinv q' \<and>
        inflight q' = inflight q \<and> room q' = room q \<and> pending q' = pending q @ done)) \<and>
     (\<forall>v. map_option length (m' v) = map_option length (m v))"

definition device_ok ::
  "('q \<Rightarrow> bool) \<Rightarrow> ('q \<Rightarrow> opaque multiset) \<Rightarrow> ('q \<Rightarrow> (opaque \<times> u32) list) \<Rightarrow> ('q \<Rightarrow> nat) \<Rightarrow>
   ('q, 'e) kernel \<Rightarrow> bool" where
  "device_ok qinv inflight pending room K \<longleftrightarrow> (\<forall>e qs m.
     device_step qinv inflight pending room qs m (fst (snd (device_runs K e qs m)))
       (snd (snd (device_runs K e qs m))))"

text \<open>The part of the device that the DMA, pool and queue primitives leave alone.\<close>

definition drv :: "('q, 'e) VIOSND_DEVICE \<Rightarrow>
    (ptr \<Rightarrow> VIOSND_CONTROL_MESSAGE option) \<times> (ptr \<Rightarrow> VIOSND_PCM_IO option) \<times>
    VIOSND_EVENT_BUFFER list \<times> u32 \<times> VIRTIO_SND_CONFIG \<times> VIOSND_BAR list" where
  "drv dev = (msgs dev, ios dev, EventBuffers dev, EventBufferCount dev, Config dev, Bars dev)"

lemma drv_simps:
  "drv dev' = drv dev \<Longrightarrow> msgs dev' = msgs dev \<and> ios dev' = ios dev \<and> EventBuffers dev' = EventBuffers dev \<and>
     EventBufferCount dev' = EventBufferCount dev \<and> Config dev' = Config dev \<and> Bars dev' = Bars dev"
  by (simp add: drv_def)

subsection \<open>Framing\<close>

lemma bufs_cong: "drv dev' = drv dev \<Longrightarrow> bufs dev' x = bufs dev x"
  by (drule drv_simps) (cases x; simp add: bufs_def)

lemma token_ok_cong: "drv dev' = drv dev \<Longrightarrow> token_ok dev' i x = token_ok dev i x"
  by (drule drv_simps) (cases x; simp add: token_ok_def)

lemma objects_ok_mono:
  assumes "\<And>v. v \<in> S \<Longrightarrow> buf_len dev v \<le> buf_len dev' v"
  shows "m_ResponseVa m \<in> S \<Longrightarrow> msg_ok dev m \<Longrightarrow> msg_ok dev' m"
    "{RequestVa x, if AudioVa x = 0 then StatusVa x else AudioVa x} \<subseteq> S \<Longrightarrow>
      write_io_ok dev x \<or> read_io_ok dev x \<Longrightarrow> write_io_ok dev' x \<or> read_io_ok dev' x"
  using assms by (auto simp: msg_ok_def write_io_ok_def read_io_ok_def split: if_splits intro: order_trans)

lemma own_inv_bufsD: "own_inv E P dev \<Longrightarrow> v \<in> bufs dev x \<Longrightarrow> v \<in> dom (dma dev) \<and> v \<notin> E"
  unfolding own_inv_def by blast

text \<open>
  The objects are untouched and the buffers they own keep at least their length: the ownership
  invariant then only depends on what the operation holds.
\<close>

lemma own_inv_frame:
  assumes o: "own_inv E P dev" and d: "drv dev' = drv dev"
    and len: "\<And>v. v \<in> dom (dma dev) - E \<Longrightarrow> v \<in> dom (dma dev') - E' \<and> buf_len dev v \<le> buf_len dev' v"
    and E': "E' \<subseteq> dom (dma dev')"
    and P': "P' \<subseteq> set (pool dev') - dom (msgs dev) - dom (ios dev) - Block ` set (DmaBlocks dev')"
  shows "own_inv E' P' dev'"
proof -
  note b = bufs_cong [OF d]
  note f = drv_simps [OF d]
  have sub: "bufs dev x \<subseteq> dom (dma dev) - E" for x using o unfolding own_inv_def by blast
  have l: "buf_len dev v \<le> buf_len dev' v" if "v \<in> bufs dev x" for v x using sub len that by blast
  have m: "msg_ok dev' m" if "msgs dev p = Some m" for p m
  proof (rule objects_ok_mono(1) [where S = "bufs dev (OMessage p)"])
    show "msg_ok dev m" using o that unfolding own_inv_def by blast
  qed (use that l [of _ "OMessage p"] in \<open>simp_all add: bufs_def\<close>)
  have i: "write_io_ok dev' x \<or> read_io_ok dev' x" if "ios dev p = Some x" for p x
  proof (rule objects_ok_mono(2) [where S = "bufs dev (OIo p)"])
    show "write_io_ok dev x \<or> read_io_ok dev x" using o that unfolding own_inv_def by blast
  qed (use that l [of _ "OIo p"] in \<open>simp_all add: bufs_def\<close>)
  have e: "EventVa v = 0 \<or> sizeof_EVENT \<le> buf_len dev' (EventVa v)" if v: "v \<in> set (EventBuffers dev)" for v
  proof -
    obtain k where k: "k < length (EventBuffers dev)" "EventBuffers dev ! k = v"
      using v by (auto simp: in_set_conv_nth)
    have "EventVa v = 0 \<or> sizeof_EVENT \<le> buf_len dev (EventVa v)" using o v unfolding own_inv_def by blast
    moreover have "EventVa v \<noteq> 0 \<Longrightarrow> EventVa v \<in> bufs dev (OEvent k)" using k by (simp add: bufs_def)
    ultimately show ?thesis using l by (blast intro: order_trans)
  qed
  have dis: "\<forall>x y. x \<noteq> y \<longrightarrow> bufs dev x \<inter> bufs dev y = {}" using o unfolding own_inv_def by blast
  have sub': "bufs dev x \<subseteq> dom (dma dev') - E'" for x using sub len by blast
  show ?thesis
    unfolding own_inv_def b using sub' dis E' P' m i e f by simp
qed

lemma same_len_dom:
  assumes "\<And>v. map_option length (m' v) = map_option length (m v)" shows "dom m' = dom m"
proof -
  have "m' v = None \<longleftrightarrow> m v = None" for v using assms [of v] by (metis map_option_is_None)
  then show ?thesis by (simp add: dom_def)
qed

lemma mem_inv_drv:
  "mem_inv dev \<Longrightarrow> msgs dev' = msgs dev \<Longrightarrow> ios dev' = ios dev \<Longrightarrow> pool dev' = pool dev \<Longrightarrow>
   DmaBlocks dev' = DmaBlocks dev \<Longrightarrow> DmaAdapter dev' = DmaAdapter dev \<Longrightarrow>
   (\<And>v. map_option length (dma dev' v) = map_option length (dma dev v)) \<Longrightarrow> mem_inv dev'"
proof -
  assume m: "mem_inv dev" and f: "msgs dev' = msgs dev" "ios dev' = ios dev" "pool dev' = pool dev"
    "DmaBlocks dev' = DmaBlocks dev" "DmaAdapter dev' = DmaAdapter dev"
    and l: "\<And>v. map_option length (dma dev' v) = map_option length (dma dev v)"
  have e: "(\<exists>buf. m v = Some buf \<and> length buf = n) \<longleftrightarrow> map_option length (m v) = Some n" for m :: dma_memory and v n
    by auto
  have "dom (dma dev') = dom (dma dev)" by (rule same_len_dom [OF l])
  then show ?thesis using m unfolding mem_inv_def f e l by simp
qed

lemma buf_len_same: "map_option length (dma dev' v) = map_option length (dma dev v) \<Longrightarrow> buf_len dev' v = buf_len dev v"
  by (cases "dma dev v"; cases "dma dev' v"; simp add: buf_len_def)

lemma own_inv_E: "own_inv E P dev \<Longrightarrow> E \<subseteq> dom (dma dev)"
  by (simp add: own_inv_def)

lemma own_inv_P:
  "own_inv E P dev \<Longrightarrow> P \<subseteq> set (pool dev) - dom (msgs dev) - dom (ios dev) - Block ` set (DmaBlocks dev)"
  by (simp add: own_inv_def)

lemma own_inv_same_len:
  assumes "own_inv E P dev" "drv dev' = drv dev" "pool dev' = pool dev" "DmaBlocks dev' = DmaBlocks dev"
    "\<And>v. map_option length (dma dev' v) = map_option length (dma dev v)"
  shows "own_inv E P dev'"
proof (rule own_inv_frame [OF assms(1,2)])
  have d: "dom (dma dev') = dom (dma dev)" by (rule same_len_dom [OF assms(5)])
  show "v \<in> dom (dma dev) - E \<Longrightarrow> v \<in> dom (dma dev') - E \<and> buf_len dev v \<le> buf_len dev' v" for v
    unfolding d buf_len_same [OF assms(5)] by (rule conjI, assumption, rule order_refl)
  show "E \<subseteq> dom (dma dev')" unfolding d by (rule own_inv_E [OF assms(1)])
  show "P \<subseteq> set (pool dev') - dom (msgs dev) - dom (ios dev) - Block ` set (DmaBlocks dev')"
    unfolding assms(3,4) by (rule own_inv_P [OF assms(1)])
qed

lemma queue_inv_cong:
  "queue_inv qinv inflight dev \<Longrightarrow> drv dev' = drv dev \<Longrightarrow> Queues dev' = Queues dev \<Longrightarrow> queue_inv qinv inflight dev'"
proof -
  assume "queue_inv qinv inflight dev" "drv dev' = drv dev" "Queues dev' = Queues dev"
  moreover from this have "token_ok dev' = token_ok dev" by (intro ext token_ok_cong)
  ultimately show ?thesis unfolding queue_inv_def by (simp only:)
qed

lemma dev_inv_mem: "dev_inv qinv inflight E P dev \<Longrightarrow> mem_inv dev"
  by (simp add: dev_inv_def)

text \<open>A change of the environment or of the mutexes only.\<close>

lemma dev_inv_env [simp]:
  "dev_inv qinv inflight E P (dev\<lparr>ext := e\<rparr>) = dev_inv qinv inflight E P dev"
  "dev_inv qinv inflight E P (dev\<lparr>mutex_count := c\<rparr>) = dev_inv qinv inflight E P dev"
proof -
  have a: "dev_inv qinv inflight E P d'" if "dev_inv qinv inflight E P d" "drv d' = drv d" "pool d' = pool d"
    "DmaBlocks d' = DmaBlocks d" "DmaAdapter d' = DmaAdapter d" "dma d' = dma d" "Queues d' = Queues d"
    for d d'
    unfolding dev_inv_def
  proof (intro conjI)
    have d: "mem_inv d" "own_inv E P d" "queue_inv qinv inflight d" using that(1) by (simp_all add: dev_inv_def)
    show "mem_inv d'"
      by (rule mem_inv_drv [OF d(1)]) (use that(3-6) drv_simps [OF that(2)] in simp_all)
    show "own_inv E P d'" by (rule own_inv_same_len [OF d(2) that(2-4)]) (simp add: that(6))
    show "queue_inv qinv inflight d'" by (rule queue_inv_cong [OF d(3) that(2,7)])
  qed
  show "dev_inv qinv inflight E P (dev\<lparr>ext := e\<rparr>) = dev_inv qinv inflight E P dev"
    "dev_inv qinv inflight E P (dev\<lparr>mutex_count := c\<rparr>) = dev_inv qinv inflight E P dev"
    by (rule iffI; erule a; simp add: drv_def)+
qed

subsection \<open>Memory operations\<close>

lemma dev_inv_pool_alloc:
  assumes "allocators_ok K" "dev_inv qinv inflight E P dev" "pool_alloc K dev n = (p, dev')"
  shows "dev_inv qinv inflight E (if p = 0 then P else insert p P) dev' \<and> p \<notin> P \<and>
    drv dev' = drv dev \<and> Queues dev' = Queues dev \<and> mutex_count dev' = mutex_count dev \<and> dma dev' = dma dev"
proof -
  obtain e where d: "dev' = dev\<lparr>ext := e, pool := (if p = 0 then pool dev else p # pool dev)\<rparr>"
    and f: "p \<noteq> 0 \<Longrightarrow> p \<notin> set (pool dev)" using pool_alloc_cases [OF assms(1,3)] by metis
  have m: "mem_inv dev" "0 \<notin> set (pool dev)" "P \<subseteq> set (pool dev)"
    using assms(2) by (auto simp: dev_inv_def mem_inv_def own_inv_def)
  then have pP: "p \<notin> P" using f by (cases "p = 0") auto
  show ?thesis
  proof (cases "p = 0")
    case True
    then show ?thesis using assms(2) d pP by (simp add: drv_def)
  next
    case False
    have m': "mem_inv (dev\<lparr>pool := p # pool dev\<rparr>)" using m f False by (simp add: mem_inv_pool_cons)
    have o: "own_inv (E) (insert p P) (dev\<lparr>pool := p # pool dev\<rparr>)"
    proof (rule own_inv_frame [where dev = dev and E = E and P = P])
      show "own_inv E P dev" using assms(2) by (simp add: dev_inv_def)
      show "E \<subseteq> dom (dma (dev\<lparr>pool := p # pool dev\<rparr>))" using assms(2) by (simp add: dev_inv_def own_inv_def)
      have "p \<notin> dom (msgs dev) \<union> dom (ios dev) \<union> Block ` set (DmaBlocks dev)"
        using m f False by (auto simp: mem_inv_def)
      then show "insert p P \<subseteq> set (pool (dev\<lparr>pool := p # pool dev\<rparr>)) - dom (msgs dev) - dom (ios dev) -
          Block ` set (DmaBlocks (dev\<lparr>pool := p # pool dev\<rparr>))"
        using assms(2) unfolding dev_inv_def own_inv_def by auto
    qed (simp_all add: drv_def buf_len_def)
    have q: "queue_inv qinv inflight (dev\<lparr>pool := p # pool dev\<rparr>)"
      by (rule queue_inv_cong [of _ _ dev]) (use assms(2) in \<open>simp_all add: dev_inv_def drv_def\<close>)
    have "dev' = (dev\<lparr>pool := p # pool dev\<rparr>)\<lparr>ext := e\<rparr>" using d False by simp
    then show ?thesis using m' o q False pP by (simp add: dev_inv_def [of _ _ _ _ "dev\<lparr>pool := _\<rparr>"] drv_def)
  qed
qed

lemma unat_round_ge: "unat (n :: u32) \<le> unat (ROUND_TO_PAGES (ucast n))"
proof -
  have "unat n < 2 ^ 32" using unsigned_less [of n, where 'a = nat] by simp
  moreover from this have "take_bit 64 (unat n) = unat n" by (intro take_bit_nat_eq_self) simp
  then have "unat (ucast n :: u64) = unat n" by (simp add: unsigned_ucast_eq)
  ultimately have s: "unat (ucast n + 0xFFF :: u64) = unat n + 0xFFF"
    using unat_add_of_nat [of "ucast n :: u64" 4095] by simp
  let ?x = "ucast n + 0xFFF :: u64"
  have m: "(0xFFF :: u64) = mask 12" by (simp add: mask_eq_exp_minus_1)
  have "y AND NOT (mask 12) = push_bit 12 (drop_bit 12 y)" for y :: u64
    by (rule bit_word_eqI) (auto simp: bit_simps)
  then have "?x AND NOT 0xFFF = push_bit 12 (drop_bit 12 ?x)" unfolding m .
  also have "\<dots> = ?x - take_bit 12 ?x" using bits_ident [of 12 ?x] by (simp add: algebra_simps)
  finally have r: "ROUND_TO_PAGES (ucast n) = ?x - take_bit 12 ?x" by (simp add: ROUND_TO_PAGES_def)
  have t: "unat (take_bit 12 ?x) = (unat n + 0xFFF) mod 4096"
    unfolding unsigned_take_bit_eq s by (simp add: take_bit_eq_mod)
  then have "take_bit 12 ?x \<le> ?x" by (simp add: word_le_nat_alt s)
  then have "unat (ROUND_TO_PAGES (ucast n)) = unat n + 0xFFF - (unat n + 0xFFF) mod 4096"
    unfolding r by (simp add: unat_sub_ge s t)
  moreover have "(unat n + 0xFFF) mod 4096 < 4096" by simp
  ultimately show ?thesis by linarith
qed

lemma AllocateDmaBuffer_inv:
  assumes "allocators_ok K" "dev_inv qinv inflight E P dev"
  obtains va la dev' where "ViosndAllocateDmaBuffer K dev n = Some ((va, la), dev')"
    "dev_inv qinv inflight (if va = 0 then E else insert va E) P dev'" "va \<notin> E"
    "va \<noteq> 0 \<Longrightarrow> va \<notin> dom (dma dev) \<and> dma dev' va = Some (replicate (unat (ROUND_TO_PAGES n)) 0)"
    "drv dev' = drv dev" "Queues dev' = Queues dev" "mutex_count dev' = mutex_count dev"
    "\<And>v. v \<in> dom (dma dev) \<Longrightarrow> dma dev' v = dma dev v"
    "dom (dma dev') = (if va = 0 then dom (dma dev) else insert va (dom (dma dev)))"
    "set (pool dev') - Block ` set (DmaBlocks dev') = set (pool dev) - Block ` set (DmaBlocks dev)"
proof -
  note m = dev_inv_mem [OF assms(2)]
  have o: "own_inv E P dev" and q: "queue_inv qinv inflight dev" using assms(2) by (simp_all add: dev_inv_def)
  have E0: "0 \<notin> E" using own_inv_E [OF o] mem_inv_null [OF m] by blast
  show thesis using assms(1) m
  proof (cases rule: AllocateDmaBuffer_ok [of K dev n])
    case (fail e)
    then show thesis using assms(2) E0
      by (intro that [of 0 0 "dev\<lparr>ext := e\<rparr>"]) (simp_all add: drv_def)
  next
    case (ok va la e p)
    let ?d = "dev\<lparr>ext := e, pool := p # pool dev,
         DmaBlocks := \<lparr>Va = va, LogicalAddress = la, BlockSize = ROUND_TO_PAGES n, Block = p\<rparr> # DmaBlocks dev,
         dma := (dma dev)(va \<mapsto> replicate (unat (ROUND_TO_PAGES n)) 0)\<rparr>"
    have va: "va \<notin> dom (dma dev)" using ok(5) mem_inv_dom [OF m] by simp
    have vaE: "va \<notin> E" using va own_inv_E [OF o] by blast
    have dd: "drv ?d = drv dev" by (simp add: drv_def)
    have o': "own_inv (insert va E) P ?d"
    proof (rule own_inv_frame [OF o dd])
      show "v \<in> dom (dma ?d) - insert va E \<and> buf_len dev v \<le> buf_len ?d v" if "v \<in> dom (dma dev) - E" for v
        using that va by (auto simp: buf_len_def)
      show "insert va E \<subseteq> dom (dma ?d)" using own_inv_E [OF o] by auto
      have "p \<notin> P" using own_inv_P [OF o] ok(4) by blast
      then show "P \<subseteq> set (pool ?d) - dom (msgs dev) - dom (ios dev) - Block ` set (DmaBlocks ?d)"
        using own_inv_P [OF o] by auto
    qed
    have q': "queue_inv qinv inflight ?d" by (rule queue_inv_cong [OF q dd]) simp
    have "dev_inv qinv inflight (insert va E) P ?d" using ok(6) o' q' by (simp add: dev_inv_def)
    moreover have "set (pool ?d) - Block ` set (DmaBlocks ?d) = set (pool dev) - Block ` set (DmaBlocks dev)"
      using ok(4) by auto
    ultimately show thesis using ok(1,2) va vaE dd
      by (intro that [of va la ?d]) auto
  qed
qed

lemma AllocControlBuffer_inv:
  assumes "allocators_ok K" "dev_inv qinv inflight E P dev"
  obtains va la dev' where "ViosndAllocControlBuffer K dev n = Some ((va, la), dev')"
    "dev_inv qinv inflight (if va = 0 then E else insert va E) P dev'" "va \<notin> E"
    "va \<noteq> 0 \<Longrightarrow> va \<notin> dom (dma dev) \<and> unat n \<le> buf_len dev' va"
    "drv dev' = drv dev" "Queues dev' = Queues dev" "mutex_count dev' = mutex_count dev"
    "\<And>v. v \<in> dom (dma dev) \<Longrightarrow> dma dev' v = dma dev v"
    "dom (dma dev') = (if va = 0 then dom (dma dev) else insert va (dom (dma dev)))"
proof -
  obtain va la dev' where a: "ViosndAllocateDmaBuffer K dev (ucast n) = Some ((va, la), dev')"
    "dev_inv qinv inflight (if va = 0 then E else insert va E) P dev'" "va \<notin> E"
    "va \<noteq> 0 \<Longrightarrow> va \<notin> dom (dma dev) \<and> dma dev' va = Some (replicate (unat (ROUND_TO_PAGES (ucast n))) 0)"
    "drv dev' = drv dev" "Queues dev' = Queues dev" "mutex_count dev' = mutex_count dev"
    "\<And>v. v \<in> dom (dma dev) \<Longrightarrow> dma dev' v = dma dev v"
    "dom (dma dev') = (if va = 0 then dom (dma dev) else insert va (dom (dma dev)))"
    by (rule AllocateDmaBuffer_inv [OF assms, of "ucast n"]) (rule that; assumption)
  have "va \<notin> dom (dma dev) \<and> unat n \<le> buf_len dev' va" if "va \<noteq> 0"
    using a(4) [OF that] unat_round_ge [of n] by (simp add: buf_len_def)
  then show thesis using a by (intro that [of va la dev']) (simp_all add: ViosndAllocControlBuffer_def)
qed

lemma FreeDmaBuffer_pool:
  assumes "mem_inv dev" "ViosndFreeDmaBuffer dev v = Some dev'"
  shows "set (pool dev') - Block ` set (DmaBlocks dev') = set (pool dev) - Block ` set (DmaBlocks dev)"
proof (cases "v = 0 \<or> extract_block v (DmaBlocks dev) = None")
  case True
  then have "dev' = dev" using assms(2) by (auto simp: ViosndFreeDmaBuffer_def split: if_splits)
  then show ?thesis by simp
next
  case False
  then obtain b rest where e: "extract_block v (DmaBlocks dev) = Some (b, rest)" by auto
  then obtain xs ys where b: "DmaBlocks dev = xs @ b # ys" "rest = xs @ ys" using extract_block_Some by blast
  have d: "distinct (pool dev)" "distinct (map Block (xs @ b # ys))" using assms(1) unfolding mem_inv_def b by blast+
  have f: "pool dev' = remove1 (Block b) (pool dev)" "DmaBlocks dev' = xs @ ys"
    using assms(2) False e b(2) by (auto simp: ViosndFreeDmaBuffer_def ExFreePool_def split: if_splits)
  have "Block b \<notin> Block ` set (xs @ ys)" using d(2) by auto
  then show ?thesis unfolding f b(1) using d(1) by auto
qed

lemma FreeDmaBuffer_blocks:
  assumes "ViosndFreeDmaBuffer dev v = Some dev'" shows "set (DmaBlocks dev') \<subseteq> set (DmaBlocks dev)"
proof (cases "v = 0 \<or> extract_block v (DmaBlocks dev) = None")
  case True
  then have "dev' = dev" using assms by (auto simp: ViosndFreeDmaBuffer_def split: if_splits)
  then show ?thesis by simp
next
  case False
  then obtain b rest where e: "extract_block v (DmaBlocks dev) = Some (b, rest)" by auto
  then have "set rest \<subseteq> set (DmaBlocks dev)" using extract_block_Some by fastforce
  moreover have "DmaBlocks dev' = rest" using assms False e by (auto simp: ViosndFreeDmaBuffer_def ExFreePool_def split: if_splits)
  ultimately show ?thesis by simp
qed

lemma FreeControlBuffer_inv:
  assumes "dev_inv qinv inflight E P dev" "v = 0 \<or> v \<in> E"
  obtains dev' where "ViosndFreeControlBuffer dev v = Some dev'"
    "dev_inv qinv inflight (E - {v}) P dev'"
    "drv dev' = drv dev" "Queues dev' = Queues dev" "mutex_count dev' = mutex_count dev"
    "dma dev' = (dma dev)(v := None)"
proof -
  note m = dev_inv_mem [OF assms(1)]
  have o: "own_inv E P dev" and q: "queue_inv qinv inflight dev" using assms(1) by (simp_all add: dev_inv_def)
  obtain bs ps where f: "ViosndFreeDmaBuffer dev v = Some (dev\<lparr>DmaBlocks := bs, pool := ps, dma := (dma dev)(v := None)\<rparr>)"
    and m': "mem_inv (dev\<lparr>DmaBlocks := bs, pool := ps, dma := (dma dev)(v := None)\<rparr>)"
    and ps: "set ps \<subseteq> set (pool dev)"
    "\<And>p. p \<in> set (pool dev) \<Longrightarrow> p \<notin> Block ` set (DmaBlocks dev) \<Longrightarrow> p \<in> set ps"
    using FreeDmaBuffer_ok [OF m, of v] by metis
  let ?d = "dev\<lparr>DmaBlocks := bs, pool := ps, dma := (dma dev)(v := None)\<rparr>"
  have dd: "drv ?d = drv dev" by (simp add: drv_def)
  have ne: "v \<noteq> 0 \<Longrightarrow> v \<in> E" using assms(2) by blast
  have v0: "dma dev 0 = None" by (rule mem_inv_null [OF m])
  have o': "own_inv (E - {v}) P ?d"
  proof (rule own_inv_frame [OF o dd])
    show "w \<in> dom (dma ?d) - (E - {v}) \<and> buf_len dev w \<le> buf_len ?d w" if "w \<in> dom (dma dev) - E" for w
    proof -
      have "w \<noteq> v" using that ne v0 by (cases "v = 0") auto
      then show ?thesis using that by (auto simp: buf_len_def)
    qed
    show "E - {v} \<subseteq> dom (dma ?d)" using own_inv_E [OF o] by auto
    have "dom (dma ?d) = Va ` set bs" using mem_inv_dom [OF m'] by simp
    show "P \<subseteq> set (pool ?d) - dom (msgs dev) - dom (ios dev) - Block ` set (DmaBlocks ?d)"
    proof
      fix p assume "p \<in> P"
      then have p: "p \<in> set (pool dev)" "p \<notin> dom (msgs dev)" "p \<notin> dom (ios dev)" "p \<notin> Block ` set (DmaBlocks dev)"
        using own_inv_P [OF o] by auto
      moreover have "set bs \<subseteq> set (DmaBlocks dev)" using FreeDmaBuffer_blocks [OF f] by simp
      then have "Block ` set bs \<subseteq> Block ` set (DmaBlocks dev)" by (rule image_mono)
      ultimately show "p \<in> set (pool ?d) - dom (msgs dev) - dom (ios dev) - Block ` set (DmaBlocks ?d)"
        using ps(2) by auto
    qed
  qed
  have q': "queue_inv qinv inflight ?d" by (rule queue_inv_cong [OF q dd]) simp
  show thesis
    by (rule that [OF f [folded ViosndFreeControlBuffer_def]]) (use m' o' q' dd in \<open>simp_all add: dev_inv_def\<close>)
qed

lemma ExFreePool_inv:
  assumes "dev_inv qinv inflight E P dev" "p \<in> P"
  obtains dev' where "ExFreePool dev p = Some dev'" "dev_inv qinv inflight E (P - {p}) dev'"
    "drv dev' = drv dev" "Queues dev' = Queues dev" "mutex_count dev' = mutex_count dev" "dma dev' = dma dev"
proof -
  have o: "own_inv E P dev" and q: "queue_inv qinv inflight dev" and m: "mem_inv dev"
    using assms(1) by (simp_all add: dev_inv_def)
  have p: "p \<in> set (pool dev)" "p \<notin> dom (msgs dev)" "p \<notin> dom (ios dev)" "p \<notin> Block ` set (DmaBlocks dev)"
    using own_inv_P [OF o] assms(2) by auto
  let ?d = "dev\<lparr>pool := remove1 p (pool dev)\<rparr>"
  have dist: "distinct (pool dev)" using m by (simp add: mem_inv_def)
  have sr: "set (remove1 p (pool dev)) = set (pool dev) - {p}" using dist by simp
  have dd: "drv ?d = drv dev" by (simp add: drv_def)
  have m': "mem_inv ?d"
    using m p unfolding mem_inv_def by (auto simp: sr distinct_remove1)
  have o': "own_inv E (P - {p}) ?d"
  proof (rule own_inv_frame [OF o dd])
    show "v \<in> dom (dma ?d) - E \<and> buf_len dev v \<le> buf_len ?d v" if "v \<in> dom (dma dev) - E" for v
      using that by (simp add: buf_len_def)
    show "E \<subseteq> dom (dma ?d)" using own_inv_E [OF o] by simp
    show "P - {p} \<subseteq> set (pool ?d) - dom (msgs dev) - dom (ios dev) - Block ` set (DmaBlocks ?d)"
      using own_inv_P [OF o] sr by auto
  qed
  have q': "queue_inv qinv inflight ?d" by (rule queue_inv_cong [OF q dd]) simp
  have "ExFreePool dev p = Some ?d" using p(1) by (simp add: ExFreePool_def)
  then show thesis using that [of ?d] m' o' q' dd by (simp add: dev_inv_def)
qed

text \<open>The release of an object's two buffers and of its pool block.\<close>

lemma release_pair:
  assumes i: "dev_inv qinv inflight E P dev" and p: "p \<in> P"
    and r: "a = 0 \<or> a \<in> E" "b = 0 \<or> b \<in> E" and ne: "a \<noteq> b \<or> a = 0"
  obtains d1 d2 d3 where "ViosndFreeControlBuffer dev a = Some d1" "ViosndFreeControlBuffer d1 b = Some d2"
    "ExFreePool d2 p = Some d3" "dev_inv qinv inflight (E - {a, b}) (P - {p}) d3"
    "drv d3 = drv dev" "Queues d3 = Queues dev" "mutex_count d3 = mutex_count dev"
    "dma d3 = (dma dev)(a := None, b := None)"
proof -
  obtain d1 where 1: "ViosndFreeControlBuffer dev a = Some d1"
    "dev_inv qinv inflight (E - {a}) P d1" "drv d1 = drv dev" "Queues d1 = Queues dev"
    "mutex_count d1 = mutex_count dev" "dma d1 = (dma dev)(a := None)"
    using FreeControlBuffer_inv [OF i r(1)] by metis
  have r2: "b = 0 \<or> b \<in> E - {a}" using r(2) ne by (cases "b = 0") auto
  obtain d2 where 2: "ViosndFreeControlBuffer d1 b = Some d2"
    "dev_inv qinv inflight (E - {a} - {b}) P d2" "drv d2 = drv d1" "Queues d2 = Queues d1"
    "mutex_count d2 = mutex_count d1" "dma d2 = (dma d1)(b := None)"
    using FreeControlBuffer_inv [OF 1(2) r2] by metis
  obtain d3 where 3: "ExFreePool d2 p = Some d3"
    "dev_inv qinv inflight (E - {a} - {b}) (P - {p}) d3" "drv d3 = drv d2" "Queues d3 = Queues d2"
    "mutex_count d3 = mutex_count d2" "dma d3 = dma d2"
    using ExFreePool_inv [OF 2(2) p] by metis
  have "E - {a, b} = E - {a} - {b}" by auto
  then show thesis using that [OF 1(1) 2(1) 3(1)] 1 2 3 by simp
qed

lemma dma_access:
  assumes "dev_inv qinv inflight E P dev"
  shows "off + n \<le> buf_len dev v \<Longrightarrow> dma dev v \<noteq> None \<Longrightarrow> \<exists>bs. dma_read dev v off n = Some bs \<and> length bs = n"
    "off + length bs \<le> buf_len dev v \<Longrightarrow> dma dev v \<noteq> None \<Longrightarrow>
      \<exists>dev'. dma_write dev v off bs = Some dev' \<and> dev_inv qinv inflight E P dev' \<and> drv dev' = drv dev \<and>
        Queues dev' = Queues dev \<and> mutex_count dev' = mutex_count dev \<and>
        (\<forall>w. map_option length (dma dev' w) = map_option length (dma dev w)) \<and>
        dma_read dev' v off (length bs) = Some bs \<and> (\<forall>w. w \<noteq> v \<longrightarrow> dma dev' w = dma dev w)"
proof -
  assume "off + n \<le> buf_len dev v" "dma dev v \<noteq> None"
  then show "\<exists>bs. dma_read dev v off n = Some bs \<and> length bs = n"
    by (auto simp: dma_read_def read_bytes_def buf_len_def)
next
  assume "off + length bs \<le> buf_len dev v" "dma dev v \<noteq> None"
  then obtain b b' where b: "dma dev v = Some b" "write_bytes off bs b = Some b'"
    by (auto simp: write_bytes_def buf_len_def)
  have l: "length b' = length b" by (rule write_bytes_length [OF b(2)])
  let ?d = "dev\<lparr>dma := (dma dev)(v \<mapsto> b')\<rparr>"
  have s: "map_option length (dma ?d w) = map_option length (dma dev w)" for w using b l by simp
  have d: "mem_inv dev" "own_inv E P dev" "queue_inv qinv inflight dev" using assms by (simp_all add: dev_inv_def)
  have dd: "drv ?d = drv dev" by (simp add: drv_def)
  have "mem_inv ?d" by (rule mem_inv_drv [OF d(1)]) (use s in simp_all)
  moreover have "own_inv E P ?d" by (rule own_inv_same_len [OF d(2) dd]) (use s in simp_all)
  moreover have "queue_inv qinv inflight ?d" by (rule queue_inv_cong [OF d(3) dd]) simp
  ultimately have "dev_inv qinv inflight E P ?d" by (simp add: dev_inv_def)
  moreover have "dma_write dev v off bs = Some ?d" using b by (simp add: dma_write_def)
  moreover have "dma_read ?d v off (length bs) = Some bs" using read_write_bytes [OF b(2)] by (simp add: dma_read_def)
  ultimately show "\<exists>dev'. dma_write dev v off bs = Some dev' \<and> dev_inv qinv inflight E P dev' \<and> drv dev' = drv dev \<and>
        Queues dev' = Queues dev \<and> mutex_count dev' = mutex_count dev \<and>
        (\<forall>w. map_option length (dma dev' w) = map_option length (dma dev w)) \<and>
        dma_read dev' v off (length bs) = Some bs \<and> (\<forall>w. w \<noteq> v \<longrightarrow> dma dev' w = dma dev w)"
    using s dd by (intro exI [of _ ?d]) simp
qed

lemma KeDelay_inv:
  assumes "device_ok qinv inflight pending room K" "dev_inv qinv inflight E P dev"
  shows "dev_inv qinv inflight E P (KeDelay K dev) \<and> drv (KeDelay K dev) = drv dev \<and>
    mutex_count (KeDelay K dev) = mutex_count dev \<and>
    (\<forall>v. map_option length (dma (KeDelay K dev) v) = map_option length (dma dev v)) \<and>
    (\<forall>i. (Queues (KeDelay K dev) i = None) = (Queues dev i = None) \<and>
         flight inflight (KeDelay K dev) i = flight inflight dev i)"
proof -
  obtain e qs m where r: "device_runs K (ext dev) (Queues dev) (dma dev) = (e, qs, m)" by (metis prod_cases3)
  let ?d = "dev\<lparr>ext := e, Queues := qs, dma := m\<rparr>"
  have k: "KeDelay K dev = ?d" by (simp add: KeDelay_def r)
  have st: "device_step qinv inflight pending room (Queues dev) (dma dev) qs m"
    using assms(1) r unfolding device_ok_def by (metis fst_conv snd_conv)
  have s: "map_option length (m v) = map_option length (dma dev v)" for v
    using st unfolding device_step_def by blast
  have d: "mem_inv dev" "own_inv E P dev" "queue_inv qinv inflight dev" using assms by (simp_all add: dev_inv_def)
  have dd: "drv ?d = drv dev" by (simp add: drv_def)
  have tok: "token_ok ?d = token_ok dev" by (intro ext token_ok_cong dd)
  have q: "\<exists>q'. qs i = Some q' \<and> qinv q' \<and> inflight q' = inflight q" if "Queues dev i = Some q" for i q
    using st that d(3) unfolding device_step_def queue_inv_def by metis
  have n: "qs i = None" if "Queues dev i = None" for i using st that unfolding device_step_def by blast
  have fl: "flight inflight ?d i = flight inflight dev i \<and> (qs i = None) = (Queues dev i = None)" for i
    using q [of i] n [of i] by (cases "Queues dev i") (auto simp: flight_def)
  have "queue_inv qinv inflight ?d"
    unfolding queue_inv_def tok
  proof (intro allI impI)
    fix i q' assume "Queues ?d i = Some q'"
    then have q': "qs i = Some q'" by simp
    then obtain q0 where q0: "Queues dev i = Some q0" using n [of i] by (cases "Queues dev i") auto
    with q [OF q0] q' have "qinv q'" "inflight q' = inflight q0" by auto
    then show "qinv q' \<and> (\<forall>x. count (inflight q') x \<le> 1) \<and> (\<forall>x\<in>#inflight q'. token_ok dev i x)"
      using d(3) q0 unfolding queue_inv_def by simp
  qed
  moreover have "mem_inv ?d" by (rule mem_inv_drv [OF d(1)]) (use s in simp_all)
  moreover have "own_inv E P ?d" by (rule own_inv_same_len [OF d(2) dd]) (use s in simp_all)
  ultimately show ?thesis unfolding k using dd s fl by (simp add: dev_inv_def)
qed

subsection \<open>Queue operations\<close>

lemma flight_set_queue: "flight inflight (set_queue i q dev) = (flight inflight dev)(i := inflight q)"
  by (rule ext) (simp add: flight_def set_queue_def)

lemma drv_set_queue [simp]:
  "drv (set_queue i q dev) = drv dev" "dma (set_queue i q dev) = dma dev"
  "mutex_count (set_queue i q dev) = mutex_count dev" "pool (set_queue i q dev) = pool dev"
  "Queues (set_queue i q dev) = (Queues dev)(i \<mapsto> q)" "ext (set_queue i q dev) = ext dev"
  by (simp_all add: set_queue_def drv_def)

lemma set_queue_fields [simp]:
  "ios (set_queue i q dev) = ios dev" "msgs (set_queue i q dev) = msgs dev"
  "EventBuffers (set_queue i q dev) = EventBuffers dev" "EventBufferCount (set_queue i q dev) = EventBufferCount dev"
  "Config (set_queue i q dev) = Config dev" "Bars (set_queue i q dev) = Bars dev"
  by (simp_all add: set_queue_def)

lemma set_queue_same: "Queues dev i = Some q \<Longrightarrow> set_queue i q dev = dev"
  by (simp add: set_queue_def fun_upd_idem)

lemma dev_inv_set_queue:
  assumes "dev_inv qinv inflight E P dev" "qinv q" "\<And>x. count (inflight q) x \<le> 1"
    "\<And>x. x \<in># inflight q \<Longrightarrow> token_ok dev i x"
  shows "dev_inv qinv inflight E P (set_queue i q dev)"
proof -
  have d: "mem_inv dev" "own_inv E P dev" "queue_inv qinv inflight dev" using assms by (simp_all add: dev_inv_def)
  have dd: "drv (set_queue i q dev) = drv dev" by simp
  have tok: "token_ok (set_queue i q dev) = token_ok dev" by (intro ext token_ok_cong dd)
  have "mem_inv (set_queue i q dev)" by (rule mem_inv_drv [OF d(1)]) (simp_all add: set_queue_def)
  moreover have "own_inv E P (set_queue i q dev)"
    by (rule own_inv_same_len [OF d(2) dd]) (simp_all add: set_queue_def)
  moreover have "queue_inv qinv inflight (set_queue i q dev)"
    unfolding queue_inv_def tok using d(3) assms(2-4) unfolding queue_inv_def by (auto simp: set_queue_def)
  ultimately show ?thesis by (simp add: dev_inv_def)
qed

text \<open>
  The driver as a client of the virtqueue interface, of the allocators and of a device that keeps
  to the protocol.
\<close>

locale virtio_snd = virtqueue ops inv inflight pending room
  for ops :: "('q, opaque) virtqueue_ops"
    and inv :: "'q \<Rightarrow> bool"
    and inflight :: "'q \<Rightarrow> opaque multiset"
    and pending :: "'q \<Rightarrow> (opaque \<times> u32) list"
    and room :: "'q \<Rightarrow> nat" +
  fixes K :: "('q, 'e) kernel"
  assumes vqops: "vqops K = ops"
    and alloc: "allocators_ok K"
    and device: "device_ok inv inflight pending room K"
begin

lemma queueD:
  "dev_inv inv inflight E P dev \<Longrightarrow> Queues dev i = Some q \<Longrightarrow>
   inv q \<and> (\<forall>x. count (inflight q) x \<le> 1) \<and> (\<forall>x \<in># inflight q. token_ok dev i x)"
  unfolding dev_inv_def queue_inv_def by blast

lemma queue_unchanged:
  assumes d: "dev_inv inv inflight E P dev" and q: "Queues dev i = Some q" and q': "inv q'" "inflight q' = inflight q"
  shows "dev_inv inv inflight E P (set_queue i q' dev) \<and> flight inflight (set_queue i q' dev) = flight inflight dev"
proof
  show "dev_inv inv inflight E P (set_queue i q' dev)"
    by (rule dev_inv_set_queue [OF d q'(1)]) (use queueD [OF d q] q'(2) in auto)
  have "inflight q' = flight inflight dev i" using q q'(2) by (simp add: flight_def)
  then show "flight inflight (set_queue i q' dev) = flight inflight dev"
    unfolding flight_set_queue by (simp add: fun_upd_idem)
qed

lemma vq_get_ok:
  assumes d: "dev_inv inv inflight E P dev" and q: "Queues dev i = Some q"
  obtains (empty) "pending q = []" "vq_get_buf K i dev = Some (None, dev)"
  | (used) x len q' where "pending q = (x, len) # pending q'"
      "vq_get_buf K i dev = Some (Some (x, len), set_queue i q' dev)"
      "dev_inv inv inflight E P (set_queue i q' dev)" "inflight q = add_mset x (inflight q')"
      "x \<notin># inflight q'" "token_ok dev i x" "inv q'" "room q < room q'"
proof -
  note Q = queueD [OF d q]
  show thesis
  proof (cases "pending q")
    case Nil
    then have "vq_get_buf K i dev = Some (None, dev)"
      using get_empty [of q] Q q by (simp add: vq_get_buf_def vqops set_queue_same)
    then show thesis using empty Nil by blast
  next
    case (Cons c rest)
    obtain x len where c: "c = (x, len)" by force
    obtain q' where g: "get_buf ops q = Some (Some (x, len), q')" "inv q'" "pending q' = rest"
      "inflight q = add_mset x (inflight q')" "room q < room q'"
      using get_pending [of q x len rest] Q Cons c by blast
    have cnt: "count (inflight q') y \<le> 1" for y
    proof -
      have "count (inflight q') y \<le> count (inflight q) y" using g(4) by simp
      moreover have "count (inflight q) y \<le> 1" using Q by blast
      ultimately show ?thesis by (rule order_trans)
    qed
    have x: "x \<notin># inflight q'"
    proof -
      have "count (inflight q) x \<le> 1" using Q by blast
      then show ?thesis using g(4) by (simp add: not_in_iff)
    qed
    have tok: "token_ok dev i y" if "y \<in># inflight q'" for y using Q g(4) that by simp
    have "vq_get_buf K i dev = Some (Some (x, len), set_queue i q' dev)"
      using g q by (simp add: vq_get_buf_def vqops)
    then show thesis
      using used [of x len q'] Cons c g x dev_inv_set_queue [OF d g(2) cnt tok] Q by simp
  qed
qed

lemma vq_add_ok:
  assumes d: "dev_inv inv inflight E P dev" and q: "Queues dev i = Some q"
    and sg: "sg \<noteq> []" "outs + ins = length sg" and x: "token_ok dev i x" "x \<notin># inflight q"
  obtains (full) "room q < length sg" "vq_add_buf K i sg outs ins x dev = Some (- ENOSPC, dev)"
  | (added) q' where "length sg \<le> room q"
      "vq_add_buf K i sg outs ins x dev = Some (VQ_ADD_BUFFER_SUCCESS, set_queue i q' dev)"
      "dev_inv inv inflight E P (set_queue i q' dev)" "inflight q' = add_mset x (inflight q)"
      "pending q' = pending q" "inv q'" "room q' + length sg = room q"
proof -
  note Q = queueD [OF d q]
  show thesis
  proof (cases "room q < length sg")
    case True
    then have "vq_add_buf K i sg outs ins x dev = Some (- ENOSPC, dev)"
      using add_full [of q outs ins sg] Q q sg by (simp add: vq_add_buf_def vqops set_queue_same)
    then show thesis using full True by blast
  next
    case False
    then obtain q' where g: "add_buf ops q sg outs ins x 0 0 = Some (VQ_ADD_BUFFER_SUCCESS, q')" "inv q'"
      "inflight q' = add_mset x (inflight q)" "pending q' = pending q" "room q' + length sg = room q"
      using add_ok [of q sg outs ins x] Q sg by (auto simp: not_less)
    have cnt: "count (inflight q') y \<le> 1" for y
      using Q x(2) g(3) by (cases "y = x") (auto simp: not_in_iff)
    have tok: "token_ok dev i y" if "y \<in># inflight q'" for y using Q g(3) that x(1) by auto
    have "vq_add_buf K i sg outs ins x dev = Some (VQ_ADD_BUFFER_SUCCESS, set_queue i q' dev)"
      using g q by (simp add: vq_add_buf_def vqops)
    then show thesis
      using added [of q'] False g dev_inv_set_queue [OF d g(2) cnt tok] by (simp add: not_less)
  qed
qed

lemma vq_kick_ok:
  assumes d: "dev_inv inv inflight E P dev" and q: "Queues dev i = Some q"
  shows "\<exists>q'. vq_kick K i dev = Some (set_queue i q' dev) \<and> inv q' \<and> inflight q' = inflight q \<and>
      pending q' = pending q \<and> room q' = room q"
    "\<exists>q'. vq_kick_always K i dev = Some (set_queue i q' dev) \<and> inv q' \<and> inflight q' = inflight q \<and>
      pending q' = pending q \<and> room q' = room q"
    "\<exists>q'. ViosndKickPcmQueue K i dev = Some (set_queue i q' dev) \<and> inv q' \<and> inflight q' = inflight q \<and>
      pending q' = pending q \<and> room q' = room q"
proof -
  have Q: "inv q" using queueD [OF d q] by blast
  obtain q1 where "virtqueue_kick ops q = Some q1" "inv q1" "inflight q1 = inflight q" "pending q1 = pending q"
    "room q1 = room q" using virtqueue_kick_ok [OF Q] by blast
  then show 1: "\<exists>q'. vq_kick K i dev = Some (set_queue i q' dev) \<and> inv q' \<and> inflight q' = inflight q \<and>
      pending q' = pending q \<and> room q' = room q" using q by (auto simp: vq_kick_def vqops)
  obtain q2 where "kick_always ops q = Some q2" "inv q2" "inflight q2 = inflight q" "pending q2 = pending q"
    "room q2 = room q" using kick_always [OF Q] by blast
  then show 2: "\<exists>q'. vq_kick_always K i dev = Some (set_queue i q' dev) \<and> inv q' \<and> inflight q' = inflight q \<and>
      pending q' = pending q \<and> room q' = room q" using q by (auto simp: vq_kick_always_def vqops)
  show "\<exists>q'. ViosndKickPcmQueue K i dev = Some (set_queue i q' dev) \<and> inv q' \<and> inflight q' = inflight q \<and>
      pending q' = pending q \<and> room q' = room q"
    using 1 2 by (simp add: ViosndKickPcmQueue_def)
qed

end

subsection \<open>Waiting\<close>

text \<open>What the driver still knows of the device after it waited.\<close>

definition waited :: "('q \<Rightarrow> opaque multiset) \<Rightarrow> ('q, 'e) VIOSND_DEVICE \<Rightarrow> ('q, 'e) VIOSND_DEVICE \<Rightarrow> bool" where
  "waited inflight dev dev' \<longleftrightarrow> drv dev' = drv dev \<and> mutex_count dev' = mutex_count dev \<and>
     (\<forall>v. map_option length (dma dev' v) = map_option length (dma dev v)) \<and>
     (\<forall>i. (Queues dev' i = None) = (Queues dev i = None)) \<and>
     flight inflight dev' = flight inflight dev"

lemma waited_refl [simp]: "waited inflight dev dev"
  by (simp add: waited_def)

lemma waited_trans: "waited inflight a b \<Longrightarrow> waited inflight b c \<Longrightarrow> waited inflight a c"
  by (simp add: waited_def)

lemma waited_dom: "waited inflight dev dev' \<Longrightarrow> dom (dma dev') = dom (dma dev)"
  unfolding waited_def by (intro same_len_dom) blast

lemma waited_buf_len: "waited inflight dev dev' \<Longrightarrow> buf_len dev' v = buf_len dev v"
  unfolding waited_def by (intro buf_len_same) blast

context virtio_snd
begin

lemma KeDelay_waited:
  "dev_inv inv inflight E P dev \<Longrightarrow>
   dev_inv inv inflight E P (KeDelay K dev) \<and> waited inflight dev (KeDelay K dev)"
  using KeDelay_inv [OF device] unfolding waited_def by (simp add: fun_eq_iff)

lemma set_queue_waited:
  assumes "dev_inv inv inflight E P dev" "Queues dev i = Some q" "inv q'" "inflight q' = inflight q"
  shows "dev_inv inv inflight E P (set_queue i q' dev) \<and> waited inflight dev (set_queue i q' dev)"
  using queue_unchanged [OF assms] assms(2) by (simp add: waited_def)

lemma kick_always_waited:
  assumes "dev_inv inv inflight E P dev" "Queues dev i \<noteq> None"
  obtains dev' where "vq_kick_always K i dev = Some dev'" "dev_inv inv inflight E P dev'" "waited inflight dev dev'"
proof -
  obtain q where q: "Queues dev i = Some q" using assms(2) by blast
  obtain q' where "vq_kick_always K i dev = Some (set_queue i q' dev)" "inv q'" "inflight q' = inflight q"
    using vq_kick_ok(2) [OF assms(1) q] by blast
  then show thesis using that set_queue_waited [OF assms(1) q] by blast
qed

lemma kick_pcm_waited:
  assumes "dev_inv inv inflight E P dev" "Queues dev i \<noteq> None"
  obtains dev' where "ViosndKickPcmQueue K i dev = Some dev'" "dev_inv inv inflight E P dev'" "waited inflight dev dev'"
proof -
  obtain q where q: "Queues dev i = Some q" using assms(2) by blast
  obtain q' where "ViosndKickPcmQueue K i dev = Some (set_queue i q' dev)" "inv q'" "inflight q' = inflight q"
    using vq_kick_ok(3) [OF assms(1) q] by blast
  then show thesis using that set_queue_waited [OF assms(1) q] by blast
qed

lemma kick_waited:
  assumes "dev_inv inv inflight E P dev" "Queues dev i \<noteq> None"
  obtains dev' where "vq_kick K i dev = Some dev'" "dev_inv inv inflight E P dev'" "waited inflight dev dev'"
proof -
  obtain q where q: "Queues dev i = Some q" using assms(2) by blast
  obtain q' where "vq_kick K i dev = Some (set_queue i q' dev)" "inv q'" "inflight q' = inflight q"
    using vq_kick_ok(1) [OF assms(1) q] by blast
  then show thesis using that set_queue_waited [OF assms(1) q] by blast
qed

end

section \<open>The split ring as the driver's queue\<close>

definition kernel_ok :: "(opaque virtqueue_split, 'e) kernel \<Rightarrow> bool" where
  "kernel_ok K \<longleftrightarrow> vqops K = split_ops \<and> allocators_ok K \<and>
     device_ok split_inv split_inflight split_pending split_room K"

lemma kernel_ok_client:
  "kernel_ok K \<Longrightarrow> virtio_snd split_ops split_inv split_inflight split_pending split_room K"
  by (intro virtio_snd.intro virtio_snd_axioms.intro split.virtqueue_axioms) (simp_all add: kernel_ok_def)

lemma idle_kernel_ok: "kernel_ok idle_kernel"
proof -
  have "vqops idle_kernel = split_ops" by (simp add: idle_kernel_def)
  moreover have "device_ok split_inv split_inflight split_pending split_room idle_kernel"
    by (auto simp: device_ok_def device_step_def idle_kernel_def)
  ultimately show ?thesis using idle_allocators by (simp add: kernel_ok_def)
qed

interpretation snd: virtio_snd split_ops split_inv split_inflight split_pending split_room idle_kernel
  by (rule kernel_ok_client [OF idle_kernel_ok])

lemma blank_inv: "dev_inv split_inv split_inflight {} {} blank_device"
proof -
  have "own_inv {} {} blank_device"
    by (auto simp: own_inv_def bufs_def blank_device_def split: opaque.splits)
  moreover have "queue_inv split_inv split_inflight blank_device"
    unfolding queue_inv_def by (auto simp: blank_device_def ring2_inv [where 'o = opaque])
  ultimately show ?thesis using blank_mem by (simp add: dev_inv_def)
qed

section \<open>A device that answers\<close>

text \<open>
  Each time the driver waits, this device completes on every queue the first chain that it has not
  completed yet, reporting 8 bytes.
\<close>

definition complete_one :: "'o virtqueue_split \<Rightarrow> 'o virtqueue_split" where
  "complete_one vq =
     (case List.find (\<lambda>h. opaques vq ! h \<noteq> None \<and> h \<notin> set (used_heads vq)) [0..<length (opaques vq)] of
        None \<Rightarrow> vq | Some h \<Rightarrow> device_complete vq h 8)"

definition prompt_kernel :: "(opaque virtqueue_split, unit) kernel" where
  "prompt_kernel = idle_kernel\<lparr>device_runs := (\<lambda>e qs m. (e, map_option complete_one \<circ> qs, m))\<rparr>"

lemma complete_one_ok:
  assumes "split_inv vq"
  shows "\<exists>cs. split_inv (complete_one vq) \<and> split_inflight (complete_one vq) = split_inflight vq \<and>
    split_room (complete_one vq) = split_room vq \<and>
    split_pending (complete_one vq) = split_pending vq @ cs"
proof (cases "List.find (\<lambda>h. opaques vq ! h \<noteq> None \<and> h \<notin> set (used_heads vq)) [0..<length (opaques vq)]")
  case None
  then show ?thesis using assms by (simp add: complete_one_def)
next
  case (Some h)
  then obtain x where "h < length (opaques vq)" "opaques vq ! h = Some x" "h \<notin> set (used_heads vq)"
    by (auto simp: find_Some_iff)
  from device_complete_ok [OF assms this, of 8] Some show ?thesis by (auto simp: complete_one_def)
qed

lemma prompt_kernel_ok: "kernel_ok prompt_kernel"
proof -
  have e: "ExAllocatePool prompt_kernel = ExAllocatePool idle_kernel"
    "AllocateCommonBuffer prompt_kernel = AllocateCommonBuffer idle_kernel"
    by (simp_all add: prompt_kernel_def)
  have "vqops prompt_kernel = split_ops" by (simp add: prompt_kernel_def idle_kernel_def)
  moreover have "allocators_ok prompt_kernel"
    using idle_allocators unfolding allocators_ok_def e .
  moreover have "device_ok split_inv split_inflight split_pending split_room prompt_kernel"
    using complete_one_ok by (fastforce simp: device_ok_def device_step_def prompt_kernel_def)
  ultimately show ?thesis by (simp add: kernel_ok_def)
qed

interpretation prompt: virtio_snd split_ops split_inv split_inflight split_pending split_room prompt_kernel
  by (rule kernel_ok_client [OF prompt_kernel_ok])

end
