(* ===== verification/Snd_Control.thy ===== *)
theory Snd_Control
  imports Snd_Client
begin

text \<open>
  The control queue and the event queue of \<open>viosnd/sys/ViosndVirtio.cpp\<close>: the synchronous
  control command with its polling loop, stale completions and timeout; the status commands
  with their retry policy; the query of the PCM streams; the configuration and the start, stop
  and release of a stream; posting and polling event buffers.
\<close>

section \<open>Event queue\<close>

abbreviation (input) VIOSND_EVENT_BUFFER_COUNT :: nat where "VIOSND_EVENT_BUFFER_COUNT \<equiv> 8"
abbreviation (input) VIOSND_EVENT_POLL_BUDGET :: nat where "VIOSND_EVENT_POLL_BUDGET \<equiv> 8"

text \<open>The buffer is named by its index in \<open>EventBuffers\<close>.\<close>

definition ViosndPostEventBufferLocked ::
  "('q, 'e) kernel \<Rightarrow> nat \<Rightarrow> ('q, 'e) VIOSND_DEVICE \<Rightarrow> (NTSTATUS \<times> ('q, 'e) VIOSND_DEVICE) option" where
  "ViosndPostEventBufferLocked K i dev = do {
     b \<leftarrow> read_at (EventBuffers dev) i;
     if Queues dev VIRTIO_SND_VQ_EVENT = None \<or> EventVa b = 0
     then Some (STATUS_DEVICE_NOT_READY, dev)
     else do {
       dev \<leftarrow> dma_write dev (EventVa b) 0 (replicate sizeof_EVENT 0);
       (r, dev) \<leftarrow> vq_add_buf K VIRTIO_SND_VQ_EVENT
         [\<lparr>sg_addr = EventPa b, sg_length = word_of_nat sizeof_EVENT\<rparr>] 0 1 (OEvent i) dev;
       Some (if r < 0 then STATUS_DEVICE_BUSY else STATUS_SUCCESS, dev)
     }
   }"

fun init_events ::
  "('q, 'e) kernel \<Rightarrow> nat list \<Rightarrow> ('q, 'e) VIOSND_DEVICE \<Rightarrow> (NTSTATUS \<times> ('q, 'e) VIOSND_DEVICE) option" where
  "init_events K [] dev = Some (STATUS_SUCCESS, dev)"
| "init_events K (i # is) dev = do {
     ((va, pa), dev) \<leftarrow> ViosndAllocControlBuffer K dev (word_of_nat sizeof_EVENT);
     bufs \<leftarrow> write_at (EventBuffers dev) i \<lparr>EventVa = va, EventPa = pa\<rparr>;
     let dev = dev\<lparr>EventBuffers := bufs\<rparr>;
     if va = 0 then Some (STATUS_INSUFFICIENT_RESOURCES, dev)
     else do {
       (status, dev) \<leftarrow> ViosndPostEventBufferLocked K i dev;
       if \<not> NT_SUCCESS status then Some (status, dev)
       else init_events K is (dev\<lparr>EventBufferCount := EventBufferCount dev + 1\<rparr>)
     }
   }"

definition ViosndInitializeEventQueue ::
  "('q, 'e) kernel \<Rightarrow> ('q, 'e) VIOSND_DEVICE \<Rightarrow> (NTSTATUS \<times> ('q, 'e) VIOSND_DEVICE) option" where
  "ViosndInitializeEventQueue K dev =
     (if Queues dev VIRTIO_SND_VQ_EVENT = None then Some (STATUS_DEVICE_NOT_READY, dev)
      else do {
        let dev = KeAcquireMutex VIRTIO_SND_VQ_EVENT dev;
        (status, dev) \<leftarrow> init_events K [0..<VIOSND_EVENT_BUFFER_COUNT] dev;
        dev \<leftarrow> (if NT_SUCCESS status then vq_kick K VIRTIO_SND_VQ_EVENT dev else Some dev);
        dev \<leftarrow> KeReleaseMutex VIRTIO_SND_VQ_EVENT dev;
        Some (status, dev)
      })"

text \<open>The first argument is the budget that is left; the events themselves are only logged.\<close>

fun poll_events ::
  "('q, 'e) kernel \<Rightarrow> nat \<Rightarrow> ('q, 'e) VIOSND_DEVICE \<Rightarrow> ('q, 'e) VIOSND_DEVICE option" where
  "poll_events K 0 dev = Some dev"
| "poll_events K (Suc budget) dev = do {
     (used, dev) \<leftarrow> vq_get_buf K VIRTIO_SND_VQ_EVENT dev;
     case used of
       None \<Rightarrow> Some dev
     | Some (OEvent i, usedLength) \<Rightarrow> do {
         b \<leftarrow> read_at (EventBuffers dev) i;
         _ \<leftarrow> (if EventVa b \<noteq> 0 \<and> sizeof_EVENT \<le> unat usedLength
              then dma_read dev (EventVa b) 0 sizeof_EVENT else Some []);
         (status, dev) \<leftarrow> ViosndPostEventBufferLocked K i dev;
         dev \<leftarrow> (if NT_SUCCESS status then vq_kick K VIRTIO_SND_VQ_EVENT dev else Some dev);
         poll_events K budget dev
       }
     | _ \<Rightarrow> None
   }"

definition ViosndPollEvents ::
  "('q, 'e) kernel \<Rightarrow> ('q, 'e) VIOSND_DEVICE \<Rightarrow> ('q, 'e) VIOSND_DEVICE option" where
  "ViosndPollEvents K dev =
     (if Queues dev VIRTIO_SND_VQ_EVENT = None then Some dev
      else do {
        let dev = KeAcquireMutex VIRTIO_SND_VQ_EVENT dev;
        dev \<leftarrow> poll_events K VIOSND_EVENT_POLL_BUDGET dev;
        KeReleaseMutex VIRTIO_SND_VQ_EVENT dev
      })"

section \<open>Control command\<close>

abbreviation (input) VIOSND_CONTROL_TIMEOUT_US :: u32 where "VIOSND_CONTROL_TIMEOUT_US \<equiv> 5000000"
abbreviation (input) VIOSND_CONTROL_POLL_DELAY_US :: u32 where "VIOSND_CONTROL_POLL_DELAY_US \<equiv> 1000"
abbreviation (input) VIOSND_CONTROL_RENOTIFY_US :: u32 where "VIOSND_CONTROL_RENOTIFY_US \<equiv> 100000"

definition ViosndFreeControlMessage ::
  "('q, 'e) VIOSND_DEVICE \<Rightarrow> ptr \<Rightarrow> ('q, 'e) VIOSND_DEVICE option" where
  "ViosndFreeControlMessage dev message =
     (if message = 0 then Some dev
      else do {
        m \<leftarrow> msgs dev message;
        dev \<leftarrow> ViosndFreeControlBuffer dev (m_RequestVa m);
        dev \<leftarrow> ViosndFreeControlBuffer dev (m_ResponseVa m);
        dev \<leftarrow> ExFreePool dev message;
        Some (dev\<lparr>msgs := (msgs dev)(message := None)\<rparr>)
      })"

text \<open>The wait, at most 100 stalls, for the response code of a completed message.\<close>

fun stall_response ::
  "('q, 'e) kernel \<Rightarrow> nat \<Rightarrow> ptr \<Rightarrow> nat \<Rightarrow> ('q, 'e) VIOSND_DEVICE \<Rightarrow> ('q, 'e) VIOSND_DEVICE option" where
  "stall_response K 0 va len dev = Some dev"
| "stall_response K (Suc n) va len dev =
     (if len < sizeof_HDR then Some dev
      else do {
        code \<leftarrow> dma_read dev va 0 sizeof_HDR;
        if le_word32 code \<noteq> 0 then Some dev else stall_response K n va len (KeDelay K dev)
      })"

text \<open>The polling loop; the result is the response, or \<open>None\<close> on a timeout.\<close>

partial_function (option) control_poll ::
  "('q, 'e) kernel \<Rightarrow> ptr \<Rightarrow> u8 list \<Rightarrow> nat \<Rightarrow> u32 \<Rightarrow> ('q, 'e) VIOSND_DEVICE \<Rightarrow>
   (u8 list option \<times> ('q, 'e) VIOSND_DEVICE) option" where
  "control_poll K message request responseLength elapsedUs dev = do {
     (used, dev) \<leftarrow> vq_get_buf K VIRTIO_SND_VQ_CONTROL dev;
     case used of
       Some (x, usedLength) \<Rightarrow> (case x of
         OMessage completed \<Rightarrow>
           if completed \<noteq> message then do {
             dev \<leftarrow> ViosndFreeControlMessage dev completed;
             if elapsedUs < VIOSND_CONTROL_TIMEOUT_US
             then control_poll K message request responseLength elapsedUs dev
             else Some (None, dev)
           }
           else do {
             m \<leftarrow> msgs dev message;
             dev \<leftarrow> stall_response K 100 (m_ResponseVa m) responseLength dev;
             response \<leftarrow> dma_read dev (m_ResponseVa m) 0 responseLength;
             _ \<leftarrow> read_bytes 0 sizeof_HDR request;
             dev \<leftarrow> ViosndFreeControlMessage dev message;
             Some (Some response, dev)
           }
       | _ \<Rightarrow> None)
     | None \<Rightarrow>
         let dev = KeDelay K dev; elapsedUs = elapsedUs + VIOSND_CONTROL_POLL_DELAY_US
         in do {
           dev \<leftarrow> (if elapsedUs mod VIOSND_CONTROL_RENOTIFY_US = 0
                  then vq_kick_always K VIRTIO_SND_VQ_CONTROL dev else Some dev);
           if elapsedUs < VIOSND_CONTROL_TIMEOUT_US
           then control_poll K message request responseLength elapsedUs dev
           else Some (None, dev)
         }
   }"

text \<open>
  The request is its byte image; the response bytes are returned when they were written.  The
  three exits are those of the label \<open>Exit\<close>: the message is freed unless it timed out while
  queued (the device may still own its buffers then).
\<close>

definition ViosndControlCommand ::
  "('q, 'e) kernel \<Rightarrow> u8 list \<Rightarrow> u32 \<Rightarrow> ('q, 'e) VIOSND_DEVICE \<Rightarrow>
   (NTSTATUS \<times> u8 list option \<times> ('q, 'e) VIOSND_DEVICE) option" where
  "ViosndControlCommand K request responseLength dev =
     (if Queues dev VIRTIO_SND_VQ_CONTROL = None then Some (STATUS_DEVICE_NOT_READY, None, dev)
      else
        let requestLength = word_of_nat (length request);
            (message, dev) = pool_alloc K dev 48
        in if message = 0 then Some (STATUS_INSUFFICIENT_RESOURCES, None, dev)
        else do {
          ((reqVa, reqPa), dev) \<leftarrow> ViosndAllocControlBuffer K dev requestLength;
          ((respVa, respPa), dev) \<leftarrow> ViosndAllocControlBuffer K dev responseLength;
          let dev = dev\<lparr>msgs := (msgs dev)(message \<mapsto>
            \<lparr>m_RequestVa = reqVa, m_RequestPa = reqPa, m_RequestLength = requestLength,
             m_ResponseVa = respVa, m_ResponsePa = respPa, m_ResponseLength = responseLength\<rparr>)\<rparr>;
          if reqVa = 0 \<or> respVa = 0 then do {
            dev \<leftarrow> ViosndFreeControlMessage dev message;
            Some (STATUS_INSUFFICIENT_RESOURCES, None, dev)
          } else do {
            dev \<leftarrow> dma_write dev reqVa 0 request;
            let dev = KeAcquireMutex VIRTIO_SND_VQ_CONTROL dev;
            (r, dev) \<leftarrow> vq_add_buf K VIRTIO_SND_VQ_CONTROL
              [\<lparr>sg_addr = reqPa, sg_length = requestLength\<rparr>,
               \<lparr>sg_addr = respPa, sg_length = responseLength\<rparr>] 1 1 (OMessage message) dev;
            if r < 0 then do {
              dev \<leftarrow> KeReleaseMutex VIRTIO_SND_VQ_CONTROL dev;
              dev \<leftarrow> ViosndFreeControlMessage dev message;
              Some (STATUS_DEVICE_BUSY, None, dev)
            } else do {
              dev \<leftarrow> vq_kick_always K VIRTIO_SND_VQ_CONTROL dev;
              (response, dev) \<leftarrow> control_poll K message request (unat responseLength) 0 dev;
              dev \<leftarrow> KeReleaseMutex VIRTIO_SND_VQ_CONTROL dev;
              Some (if response = None then STATUS_IO_TIMEOUT else STATUS_SUCCESS, response, dev)
            }
          }
        })"

section \<open>Status commands\<close>

abbreviation (input) VIOSND_CONTROL_STATUS_RETRY_COUNT :: nat where
  "VIOSND_CONTROL_STATUS_RETRY_COUNT \<equiv> 4"
abbreviation (input) VIOSND_PCM_BAD_MSG_RETRY_COUNT :: nat where
  "VIOSND_PCM_BAD_MSG_RETRY_COUNT \<equiv> 4"

text \<open>
  The attempts from \<open>attempt\<close> on, \<open>n\<close> of them left.  \<open>Inl\<close>: the early return with a failed
  command; \<open>Inr\<close>: the last response code, after the loop.  The second component is
  \<open>*ResponseCode\<close>.
\<close>

fun status_attempts ::
  "('q, 'e) kernel \<Rightarrow> u8 list \<Rightarrow> u32 \<Rightarrow> nat \<Rightarrow> nat \<Rightarrow> u32 \<Rightarrow> u32 \<Rightarrow> ('q, 'e) VIOSND_DEVICE \<Rightarrow>
   ((NTSTATUS + u32) \<times> u32 \<times> ('q, 'e) VIOSND_DEVICE) option" where
  "status_attempts K request command 0 attempt response responseCode dev =
     Some (Inr response, responseCode, dev)"
| "status_attempts K request command (Suc n) attempt response responseCode dev = do {
     (status, bytes, dev) \<leftarrow> ViosndControlCommand K request (word_of_nat sizeof_HDR) dev;
     if \<not> NT_SUCCESS status then Some (Inl status, responseCode, dev)
     else do {
       let response = (case bytes of None \<Rightarrow> 0 | Some bs \<Rightarrow> le_word32 bs);
       if \<not> ViosndIsPcmStatusCommand command \<or> response = VIRTIO_SND_S_OK
       then Some (Inr response, response, dev)
       else if response = 0 \<and> attempt + 1 < VIOSND_CONTROL_STATUS_RETRY_COUNT
       then status_attempts K request command n (attempt + 1) response response (KeDelay K dev)
       else if response = VIRTIO_SND_S_BAD_MSG \<and> attempt + 1 < VIOSND_PCM_BAD_MSG_RETRY_COUNT
       then status_attempts K request command n (attempt + 1) response response (KeDelay K dev)
       else Some (Inr response, response, dev)
     }
   }"

definition ViosndControlStatusCommandEx ::
  "('q, 'e) kernel \<Rightarrow> u8 list \<Rightarrow> ('q, 'e) VIOSND_DEVICE \<Rightarrow>
   (NTSTATUS \<times> u32 \<times> ('q, 'e) VIOSND_DEVICE) option" where
  "ViosndControlStatusCommandEx K request dev = do {
     header \<leftarrow> read_bytes 0 sizeof_HDR request;
     let command = le_word32 header;
     (outcome, responseCode, dev) \<leftarrow>
       status_attempts K request command VIOSND_CONTROL_STATUS_RETRY_COUNT 0 0 0 dev;
     Some (case outcome of
         Inl status \<Rightarrow> (status, responseCode, dev)
       | Inr response \<Rightarrow>
           if response \<noteq> VIRTIO_SND_S_OK then
             if response = 0 \<and> ViosndIsPcmStatusCommand command
             then (STATUS_SUCCESS, responseCode, dev)
             else (STATUS_NOT_SUPPORTED, responseCode, dev)
           else (STATUS_SUCCESS, responseCode, dev))
   }"

definition ViosndControlStatusCommand ::
  "('q, 'e) kernel \<Rightarrow> u8 list \<Rightarrow> ('q, 'e) VIOSND_DEVICE \<Rightarrow> (NTSTATUS \<times> ('q, 'e) VIOSND_DEVICE) option" where
  "ViosndControlStatusCommand K request dev = do {
     (status, _, dev) \<leftarrow> ViosndControlStatusCommandEx K request dev;
     Some (status, dev)
   }"

definition ViosndPcmCommand ::
  "('q, 'e) kernel \<Rightarrow> u32 \<Rightarrow> u32 \<Rightarrow> ('q, 'e) VIOSND_DEVICE \<Rightarrow> (NTSTATUS \<times> ('q, 'e) VIOSND_DEVICE) option" where
  "ViosndPcmCommand K streamId command dev =
     ViosndControlStatusCommand K
       (bytes_of_PCM_HDR \<lparr>ph_code = command, ph_stream_id = streamId\<rparr>) dev"

definition ViosndStartPcm ::
  "('q, 'e) kernel \<Rightarrow> u32 \<Rightarrow> ('q, 'e) VIOSND_DEVICE \<Rightarrow> (NTSTATUS \<times> ('q, 'e) VIOSND_DEVICE) option" where
  "ViosndStartPcm K streamId dev = ViosndPcmCommand K streamId VIRTIO_SND_R_PCM_START dev"

definition ViosndStopPcm ::
  "('q, 'e) kernel \<Rightarrow> u32 \<Rightarrow> ('q, 'e) VIOSND_DEVICE \<Rightarrow> (NTSTATUS \<times> ('q, 'e) VIOSND_DEVICE) option" where
  "ViosndStopPcm K streamId dev = ViosndPcmCommand K streamId VIRTIO_SND_R_PCM_STOP dev"

definition ViosndReleasePcm ::
  "('q, 'e) kernel \<Rightarrow> u32 \<Rightarrow> ('q, 'e) VIOSND_DEVICE \<Rightarrow> (NTSTATUS \<times> ('q, 'e) VIOSND_DEVICE) option" where
  "ViosndReleasePcm K streamId dev = ViosndPcmCommand K streamId VIRTIO_SND_R_PCM_RELEASE dev"

section \<open>Querying and configuring the streams\<close>

abbreviation (input) VIOSND_MAX_PCM_STREAMS :: u32 where "VIOSND_MAX_PCM_STREAMS \<equiv> 64"
abbreviation (input) VIOSND_PCM_INFO_RETRY_COUNT :: nat where "VIOSND_PCM_INFO_RETRY_COUNT \<equiv> 8"

definition ViosndPcmInfoLooksEmpty :: "VIRTIO_SND_PCM_INFO list \<Rightarrow> bool" where
  "ViosndPcmInfoLooksEmpty infos = list_all (\<lambda>i. pi_direction i = 0 \<and> pi_channels_min i = 0 \<and>
     pi_channels_max i = 0 \<and> pi_formats i = 0 \<and> pi_rates i = 0 \<and> pi_features i = 0) infos"

text \<open>The attempts of \<open>ViosndQueryPcmStreams\<close>; \<open>None\<close> for the pair: \<open>*Pair\<close> is not written.\<close>

fun query_attempts ::
  "('q, 'e) kernel \<Rightarrow> u8 list \<Rightarrow> nat \<Rightarrow> u32 \<Rightarrow> nat \<Rightarrow> nat \<Rightarrow> ('q, 'e) VIOSND_DEVICE \<Rightarrow>
   (NTSTATUS \<times> VIOSND_STREAM_PAIR option \<times> ('q, 'e) VIOSND_DEVICE) option" where
  "query_attempts K query streamCount responseLength 0 attempt dev = None"
| "query_attempts K query streamCount responseLength (Suc n) attempt dev = do {
     (status, bytes, dev) \<leftarrow> ViosndControlCommand K query responseLength dev;
     if \<not> NT_SUCCESS status then Some (status, None, dev)
     else do {
       let response = (case bytes of None \<Rightarrow> replicate (unat responseLength) 0 | Some bs \<Rightarrow> bs);
       header \<leftarrow> read_bytes 0 sizeof_HDR response;
       body \<leftarrow> read_bytes sizeof_HDR (streamCount * sizeof_PCM_INFO) response;
       let code = le_word32 header;
       let infos = pcm_infos_of_bytes streamCount body;
       if (code = 0 \<or> code = VIRTIO_SND_S_OK \<and> ViosndPcmInfoLooksEmpty infos) \<and>
          attempt + 1 < VIOSND_PCM_INFO_RETRY_COUNT
       then query_attempts K query streamCount responseLength n (attempt + 1) (KeDelay K dev)
       else if code = VIRTIO_SND_S_OK
       then let (status, pair) = ViosndFindStreamPair infos in Some (status, Some pair, dev)
       else Some (STATUS_NOT_SUPPORTED, None, dev)
     }
   }"

definition ViosndQueryPcmStreams ::
  "('q, 'e) kernel \<Rightarrow> ('q, 'e) VIOSND_DEVICE \<Rightarrow>
   (NTSTATUS \<times> VIOSND_STREAM_PAIR option \<times> ('q, 'e) VIOSND_DEVICE) option" where
  "ViosndQueryPcmStreams K dev =
     (let streamCount = min (cfg_streams (Config dev)) VIOSND_MAX_PCM_STREAMS
      in if streamCount = 0 then Some (STATUS_NOT_FOUND, None, dev)
         else
           let responseLength =
                 word_of_nat sizeof_HDR + streamCount * word_of_nat sizeof_PCM_INFO;
               (response, dev) = pool_alloc K dev (unat responseLength)
           in if response = 0 then Some (STATUS_INSUFFICIENT_RESOURCES, None, dev)
              else do {
                let query = bytes_of_QUERY_INFO \<lparr>qi_code = VIRTIO_SND_R_PCM_INFO, qi_start_id = 0,
                  qi_count = streamCount, qi_size = word_of_nat sizeof_PCM_INFO\<rparr>;
                (status, pair, dev) \<leftarrow> query_attempts K query (unat streamCount) responseLength
                  VIOSND_PCM_INFO_RETRY_COUNT 0 dev;
                dev \<leftarrow> ExFreePool dev response;
                Some (status, pair, dev)
              })"

definition ViosndConfigurePcmFormat ::
  "('q, 'e) kernel \<Rightarrow> u32 \<Rightarrow> VIOSND_PCM_FORMAT \<Rightarrow> ('q, 'e) VIOSND_DEVICE \<Rightarrow>
   (NTSTATUS \<times> ('q, 'e) VIOSND_DEVICE) option" where
  "ViosndConfigurePcmFormat K streamId format dev = do {
     (status, dev) \<leftarrow> ViosndControlStatusCommand K
       (bytes_of_SET_PARAMS (ViosndBuildSetParams streamId format)) dev;
     if \<not> NT_SUCCESS status then Some (status, dev)
     else do {
       (status, _, dev) \<leftarrow> ViosndControlStatusCommandEx K
         (bytes_of_PCM_HDR \<lparr>ph_code = VIRTIO_SND_R_PCM_PREPARE, ph_stream_id = streamId\<rparr>) dev;
       Some (status, dev)
     }
   }"

definition ViosndConfigureDefaultPcm ::
  "('q, 'e) kernel \<Rightarrow> u32 \<Rightarrow> ('q, 'e) VIOSND_DEVICE \<Rightarrow> (NTSTATUS \<times> ('q, 'e) VIOSND_DEVICE) option" where
  "ViosndConfigureDefaultPcm K streamId dev =
     ViosndConfigurePcmFormat K streamId ViosndGetDefaultPcmFormat dev"

definition ViosndConfigureFallbackPcm ::
  "('q, 'e) kernel \<Rightarrow> u32 \<Rightarrow> ('q, 'e) VIOSND_DEVICE \<Rightarrow> (NTSTATUS \<times> ('q, 'e) VIOSND_DEVICE) option" where
  "ViosndConfigureFallbackPcm K streamId dev =
     ViosndConfigurePcmFormat K streamId ViosndGetFallbackPcmFormat dev"

section \<open>Correctness of the control command\<close>

subsection \<open>Messages\<close>

lemma bufs_msgs_upd:
  "bufs (dev\<lparr>msgs := (msgs dev)(p := mo)\<rparr>) x =
     (if x = OMessage p then (case mo of None \<Rightarrow> {} | Some m \<Rightarrow> {m_RequestVa m, m_ResponseVa m})
      else bufs dev x)"
  by (cases x) (auto simp: bufs_def split: option.splits)

lemma objects_msgs_upd [simp]:
  "buf_len (dev\<lparr>msgs := f\<rparr>) v = buf_len dev v" "msg_ok (dev\<lparr>msgs := f\<rparr>) m = msg_ok dev m"
  "write_io_ok (dev\<lparr>msgs := f\<rparr>) x = write_io_ok dev x" "read_io_ok (dev\<lparr>msgs := f\<rparr>) x = read_io_ok dev x"
  by (simp_all add: buf_len_def msg_ok_def write_io_ok_def read_io_ok_def)

lemma store_message:
  assumes "dev_inv qinv inflight E P dev" "p \<in> P" "m_RequestVa m \<in> E" "m_ResponseVa m \<in> E" "msg_ok dev m"
  shows "dev_inv qinv inflight (E - {m_RequestVa m, m_ResponseVa m}) (P - {p})
    (dev\<lparr>msgs := (msgs dev)(p \<mapsto> m)\<rparr>)"
proof -
  let ?d = "dev\<lparr>msgs := (msgs dev)(p \<mapsto> m)\<rparr>"
  have d: "mem_inv dev" "own_inv E P dev" "queue_inv qinv inflight dev" using assms by (simp_all add: dev_inv_def)
  note P = own_inv_P [OF d(2)]
  have p: "p \<in> set (pool dev)" "p \<notin> dom (msgs dev)" "p \<notin> dom (ios dev)" "p \<notin> Block ` set (DmaBlocks dev)"
    using P assms(2) by auto
  have m': "mem_inv ?d" using d(1) p unfolding mem_inv_def by auto
  have b: "bufs ?d x = (if x = OMessage p then {m_RequestVa m, m_ResponseVa m} else bufs dev x)" for x
    by (simp add: bufs_msgs_upd)
  have fresh: "bufs dev x \<inter> {m_RequestVa m, m_ResponseVa m} = {}" for x
    using d(2) assms(3,4) unfolding own_inv_def by blast
  have o': "own_inv (E - {m_RequestVa m, m_ResponseVa m}) (P - {p}) ?d"
    unfolding own_inv_def
  proof (intro conjI)
    show "E - {m_RequestVa m, m_ResponseVa m} \<subseteq> dom (dma ?d)" using own_inv_E [OF d(2)] by auto
    show "\<forall>x. bufs ?d x \<subseteq> dom (dma ?d) - (E - {m_RequestVa m, m_ResponseVa m})"
      using d(2) assms(3,4) fresh unfolding own_inv_def b by auto
    show "\<forall>x y. x \<noteq> y \<longrightarrow> bufs ?d x \<inter> bufs ?d y = {}"
      using d(2) fresh unfolding own_inv_def b by auto
    show "P - {p} \<subseteq> set (pool ?d) - dom (msgs ?d) - dom (ios ?d) - Block ` set (DmaBlocks ?d)"
      using P by auto
    show "\<forall>q m. msgs ?d q = Some m \<longrightarrow> msg_ok ?d m"
      using d(2) assms(5) unfolding own_inv_def by auto
    show "\<forall>q x. ios ?d q = Some x \<longrightarrow> write_io_ok ?d x \<or> read_io_ok ?d x"
      using d(2) unfolding own_inv_def by simp
    show "\<forall>b\<in>set (EventBuffers ?d). EventVa b = 0 \<or> sizeof_EVENT \<le> buf_len ?d (EventVa b)"
      using d(2) unfolding own_inv_def by simp
  qed
  have tok: "token_ok dev i x \<Longrightarrow> token_ok ?d i x" for i x by (cases x) (auto simp: token_ok_def)
  have "queue_inv qinv inflight ?d" using d(3) tok unfolding queue_inv_def by auto
  then show ?thesis using m' o' by (simp add: dev_inv_def)
qed

lemma unstore_message:
  assumes "dev_inv qinv inflight E P dev" "msgs dev p = Some m"
    "OMessage p \<notin># flight inflight dev VIRTIO_SND_VQ_CONTROL"
  shows "dev_inv qinv inflight (E \<union> {m_RequestVa m, m_ResponseVa m}) (insert p P)
    (dev\<lparr>msgs := (msgs dev)(p := None)\<rparr>)"
proof -
  let ?d = "dev\<lparr>msgs := (msgs dev)(p := None)\<rparr>"
  have d: "mem_inv dev" "own_inv E P dev" "queue_inv qinv inflight dev" using assms by (simp_all add: dev_inv_def)
  note P = own_inv_P [OF d(2)]
  have p: "p \<in> set (pool dev)" "p \<notin> dom (ios dev)" "p \<notin> Block ` set (DmaBlocks dev)"
    using d(1) assms(2) unfolding mem_inv_def by auto
  have m': "mem_inv ?d" using d(1) unfolding mem_inv_def by auto
  have b: "bufs ?d x = (if x = OMessage p then {} else bufs dev x)" for x by (simp add: bufs_msgs_upd)
  have bm: "bufs dev (OMessage p) = {m_RequestVa m, m_ResponseVa m}" using assms(2) by (simp add: bufs_def)
  have sub: "bufs dev x \<subseteq> dom (dma dev) - E" for x using d(2) unfolding own_inv_def by blast
  have dis: "x \<noteq> y \<Longrightarrow> bufs dev x \<inter> bufs dev y = {}" for x y using d(2) unfolding own_inv_def by blast
  have o': "own_inv (E \<union> {m_RequestVa m, m_ResponseVa m}) (insert p P) ?d"
    unfolding own_inv_def
  proof (intro conjI)
    show "E \<union> {m_RequestVa m, m_ResponseVa m} \<subseteq> dom (dma ?d)"
      using own_inv_E [OF d(2)] sub [of "OMessage p"] bm by auto
    show "\<forall>x. bufs ?d x \<subseteq> dom (dma ?d) - (E \<union> {m_RequestVa m, m_ResponseVa m})"
    proof
      fix x
      show "bufs ?d x \<subseteq> dom (dma ?d) - (E \<union> {m_RequestVa m, m_ResponseVa m})"
        using sub [of x] dis [of x "OMessage p"] bm b [of x] by auto
    qed
    show "\<forall>x y. x \<noteq> y \<longrightarrow> bufs ?d x \<inter> bufs ?d y = {}" using dis unfolding b by auto
    show "insert p P \<subseteq> set (pool ?d) - dom (msgs ?d) - dom (ios ?d) - Block ` set (DmaBlocks ?d)"
      using P p by auto
    show "\<forall>q m. msgs ?d q = Some m \<longrightarrow> msg_ok ?d m" using d(2) unfolding own_inv_def by simp
    show "\<forall>q x. ios ?d q = Some x \<longrightarrow> write_io_ok ?d x \<or> read_io_ok ?d x"
      using d(2) unfolding own_inv_def by simp
    show "\<forall>b\<in>set (EventBuffers ?d). EventVa b = 0 \<or> sizeof_EVENT \<le> buf_len ?d (EventVa b)"
      using d(2) unfolding own_inv_def by simp
  qed
  have tok: "token_ok ?d i x" if "token_ok dev i x" "x \<in># flight inflight dev i" for i x
    using that assms(3) by (cases x) (auto simp: token_ok_def)
  have "queue_inv qinv inflight ?d"
    using d(3) tok unfolding queue_inv_def flight_def by (auto split: option.splits)
  then show ?thesis using m' o' by (simp add: dev_inv_def)
qed

lemma Free_msgs_commute:
  "ViosndFreeControlBuffer (dev\<lparr>msgs := f\<rparr>) v = map_option (\<lambda>d. d\<lparr>msgs := f\<rparr>) (ViosndFreeControlBuffer dev v)"
  "ExFreePool (dev\<lparr>msgs := f\<rparr>) p = map_option (\<lambda>d. d\<lparr>msgs := f\<rparr>) (ExFreePool dev p)"
  by (auto simp: ViosndFreeControlBuffer_def ViosndFreeDmaBuffer_def ExFreePool_def split: option.splits)

lemma FreeMessage_inv:
  assumes i: "dev_inv qinv inflight E P dev0" and p: "p \<in> P"
    and r: "m_RequestVa m = 0 \<or> m_RequestVa m \<in> E" "m_ResponseVa m = 0 \<or> m_ResponseVa m \<in> E"
    and ne: "m_RequestVa m \<noteq> m_ResponseVa m \<or> m_RequestVa m = 0"
  obtains dev' where "ViosndFreeControlMessage (dev0\<lparr>msgs := (msgs dev0)(p \<mapsto> m)\<rparr>) p = Some dev'"
    "dev_inv qinv inflight (E - {m_RequestVa m, m_ResponseVa m}) (P - {p}) dev'"
    "drv dev' = drv dev0" "Queues dev' = Queues dev0" "mutex_count dev' = mutex_count dev0"
    "dma dev' = (dma dev0)(m_RequestVa m := None, m_ResponseVa m := None)"
proof -
  obtain d1 d2 d3 where f: "ViosndFreeControlBuffer dev0 (m_RequestVa m) = Some d1"
    "ViosndFreeControlBuffer d1 (m_ResponseVa m) = Some d2" "ExFreePool d2 p = Some d3"
    "dev_inv qinv inflight (E - {m_RequestVa m, m_ResponseVa m}) (P - {p}) d3" "drv d3 = drv dev0"
    "Queues d3 = Queues dev0" "mutex_count d3 = mutex_count dev0"
    "dma d3 = (dma dev0)(m_RequestVa m := None, m_ResponseVa m := None)"
    using release_pair [OF i p r ne] by metis
  have "p \<in> set (pool dev0) - dom (msgs dev0)" "0 \<notin> set (pool dev0)"
    using i p unfolding dev_inv_def own_inv_def mem_inv_def by blast+
  then have p0: "p \<noteq> 0" "msgs dev0 p = None" by auto
  have "msgs d3 = (msgs dev0)(p := None)" using drv_simps [OF f(5)] p0(2) by (simp add: fun_upd_idem)
  then have "d3\<lparr>msgs := (msgs dev0)(p := None)\<rparr> = d3" by simp
  then have "ViosndFreeControlMessage (dev0\<lparr>msgs := (msgs dev0)(p \<mapsto> m)\<rparr>) p = Some d3"
    using p0 f(1-3) by (simp add: ViosndFreeControlMessage_def Free_msgs_commute)
  then show thesis using that f by blast
qed

text \<open>Every stored message is in flight.\<close>

definition ctl_rest :: "('q \<Rightarrow> opaque multiset) \<Rightarrow> ('q, 'e) VIOSND_DEVICE \<Rightarrow> bool" where
  "ctl_rest inflight dev \<longleftrightarrow> (\<forall>p \<in> dom (msgs dev). OMessage p \<in># flight inflight dev VIRTIO_SND_VQ_CONTROL)"

context virtio_snd
begin

lemma stall_response_ok:
  "dev_inv inv inflight E P dev \<Longrightarrow> dma dev va \<noteq> None \<Longrightarrow> len \<le> buf_len dev va \<Longrightarrow>
   \<exists>dev'. stall_response K n va len dev = Some dev' \<and> dev_inv inv inflight E P dev' \<and> waited inflight dev dev'"
proof (induction n arbitrary: dev)
  case (Suc n)
  show ?case
  proof (cases "len < sizeof_HDR")
    case True
    then show ?thesis using Suc.prems by auto
  next
    case False
    then have "0 + sizeof_HDR \<le> buf_len dev va" using Suc.prems(3) by simp
    then obtain code where c: "dma_read dev va 0 sizeof_HDR = Some code"
      using dma_access(1) [OF Suc.prems(1)] Suc.prems(2) by blast
    note w = KeDelay_waited [OF Suc.prems(1)]
    have "dma (KeDelay K dev) va \<noteq> None" "len \<le> buf_len (KeDelay K dev) va"
      using waited_dom [OF conjunct2 [OF w]] waited_buf_len [OF conjunct2 [OF w], of va] Suc.prems(2,3) by auto
    from Suc.IH [OF conjunct1 [OF w] this] obtain dev' where
      "stall_response K n va len (KeDelay K dev) = Some dev'" "dev_inv inv inflight E P dev'"
      "waited inflight (KeDelay K dev) dev'" by blast
    then show ?thesis using c False w Suc.prems(1) by (auto intro: waited_trans)
  qed
qed auto

text \<open>A message that is no longer in flight is freed.\<close>

lemma free_completed_message:
  assumes "dev_inv inv inflight E P dev" "msgs dev p = Some m" "p \<notin> P"
    "OMessage p \<notin># flight inflight dev VIRTIO_SND_VQ_CONTROL"
  obtains dev' where "ViosndFreeControlMessage dev p = Some dev'" "dev_inv inv inflight E P dev'"
    "msgs dev' = (msgs dev)(p := None)" "ios dev' = ios dev" "EventBuffers dev' = EventBuffers dev"
    "Queues dev' = Queues dev" "mutex_count dev' = mutex_count dev"
    "dma dev' = (dma dev)(m_RequestVa m := None, m_ResponseVa m := None)"
    "Config dev' = Config dev"
proof -
  let ?d = "dev\<lparr>msgs := (msgs dev)(p := None)\<rparr>" and ?B = "{m_RequestVa m, m_ResponseVa m}"
  note u = unstore_message [OF assms(1,2,4)]
  have o: "own_inv E P dev" using assms(1) by (simp add: dev_inv_def)
  have ne: "m_RequestVa m \<noteq> m_ResponseVa m" using o assms(2) unfolding own_inv_def msg_ok_def by blast
  have "bufs dev (OMessage p) \<inter> E = {}" using o unfolding own_inv_def by blast
  then have E: "(E \<union> ?B) - ?B = E" using assms(2) by (auto simp: bufs_def)
  have again: "?d\<lparr>msgs := (msgs ?d)(p \<mapsto> m)\<rparr> = dev" using assms(2) by (simp add: fun_upd_idem)
  have P: "insert p P - {p} = P" using assms(3) by simp
  obtain dev' where f: "ViosndFreeControlMessage (?d\<lparr>msgs := (msgs ?d)(p \<mapsto> m)\<rparr>) p = Some dev'"
    "dev_inv inv inflight ((E \<union> ?B) - ?B) (insert p P - {p}) dev'" "drv dev' = drv ?d"
    "Queues dev' = Queues ?d" "mutex_count dev' = mutex_count ?d"
    "dma dev' = (dma ?d)(m_RequestVa m := None, m_ResponseVa m := None)"
    by (rule FreeMessage_inv [OF u, of p m]) (use ne in auto)
  show thesis
    by (rule that [OF f(1) [unfolded again] f(2) [unfolded E P]]) (use f(3-6) drv_simps [OF f(3)] in simp_all)
qed

end

text \<open>What a control command leaves alone.\<close>

definition ctl_frame :: "('q \<Rightarrow> opaque multiset) \<Rightarrow> ('q, 'e) VIOSND_DEVICE \<Rightarrow> ('q, 'e) VIOSND_DEVICE \<Rightarrow> bool" where
  "ctl_frame inflight dev dev' \<longleftrightarrow> ios dev' = ios dev \<and> EventBuffers dev' = EventBuffers dev \<and>
     Config dev' = Config dev \<and> mutex_count dev' = mutex_count dev \<and>
     (\<forall>i. (Queues dev' i = None) = (Queues dev i = None)) \<and>
     (\<forall>i. i \<noteq> VIRTIO_SND_VQ_CONTROL \<longrightarrow> flight inflight dev' i = flight inflight dev i)"

lemma ctl_frame_refl [simp]: "ctl_frame inflight dev dev"
  by (simp add: ctl_frame_def)

lemma ctl_frame_trans: "ctl_frame inflight a b \<Longrightarrow> ctl_frame inflight b c \<Longrightarrow> ctl_frame inflight a c"
  by (simp add: ctl_frame_def)

lemma waited_frame: "waited inflight dev dev' \<Longrightarrow> ctl_frame inflight dev dev'"
  unfolding waited_def ctl_frame_def using drv_simps by metis

lemma waited_rest: "waited inflight dev dev' \<Longrightarrow> ctl_rest inflight dev \<Longrightarrow> ctl_rest inflight dev'"
  unfolding waited_def ctl_rest_def using drv_simps by metis

lemma elapsed_step:
  assumes "k < 5000"
  shows "word_of_nat (1000 * k) + VIOSND_CONTROL_POLL_DELAY_US = (word_of_nat (1000 * Suc k) :: u32)"
    "word_of_nat (1000 * k) < VIOSND_CONTROL_TIMEOUT_US"
    "word_of_nat (1000 * Suc k) < VIOSND_CONTROL_TIMEOUT_US \<longleftrightarrow> Suc k < 5000"
proof -
  have u: "unat (word_of_nat (1000 * n) :: u32) = 1000 * n" if "n \<le> 5000" for n
  proof -
    have "1000 * n < 2 ^ 32" using that by simp
    then show ?thesis unfolding unat_of_nat by simp
  qed
  show "word_of_nat (1000 * k) + VIOSND_CONTROL_POLL_DELAY_US = (word_of_nat (1000 * Suc k) :: u32)" by simp
  show "word_of_nat (1000 * k) < VIOSND_CONTROL_TIMEOUT_US"
    unfolding word_less_nat_alt u [OF less_imp_le [OF assms]] using assms by simp
  show "word_of_nat (1000 * Suc k) < VIOSND_CONTROL_TIMEOUT_US \<longleftrightarrow> Suc k < 5000"
    unfolding word_less_nat_alt u [OF Suc_leI [OF assms]] by simp
qed

context virtio_snd
begin

lemma control_poll_ok:
  assumes "dev_inv inv inflight E P dev" "ctl_rest inflight dev" "msgs dev p = Some m" "p \<notin> P"
    "Queues dev VIRTIO_SND_VQ_CONTROL \<noteq> None" "dom (msgs dev) \<inter> P = {}"
    "k < 5000" "sizeof_HDR \<le> length request"
  shows "\<exists>resp dev'. control_poll K p request (unat (m_ResponseLength m)) (word_of_nat (1000 * k)) dev = Some (resp, dev') \<and>
    dev_inv inv inflight E P dev' \<and> ctl_rest inflight dev' \<and> ctl_frame inflight dev dev' \<and>
    dom (dma dev') \<subseteq> dom (dma dev) \<and> msgs dev' \<subseteq>\<^sub>m msgs dev \<and>
    (case resp of None \<Rightarrow> msgs dev' p = Some m
     | Some bs \<Rightarrow> msgs dev' p = None \<and> length bs = unat (m_ResponseLength m) \<and>
         dom (dma dev') \<inter> {m_RequestVa m, m_ResponseVa m} = {})"
  using assms
proof (induction "5000 - k + size (flight inflight dev VIRTIO_SND_VQ_CONTROL)" arbitrary: k dev rule: less_induct)
  case less
  note d = less.prems(1)
  obtain q where q: "Queues dev VIRTIO_SND_VQ_CONTROL = Some q" using less.prems(5) by blast
  have fl: "flight inflight dev VIRTIO_SND_VQ_CONTROL = inflight q" using q by (simp add: flight_def)
  note e = elapsed_step [OF less.prems(7)]
  show ?case using d q
  proof (cases rule: vq_get_ok)
    case empty
    let ?d = "KeDelay K dev"
    note w = KeDelay_waited [OF d]
    have step: "\<exists>d2. (if word_of_nat (1000 * Suc k) mod VIOSND_CONTROL_RENOTIFY_US = (0 :: u32)
          then vq_kick_always K VIRTIO_SND_VQ_CONTROL ?d else Some ?d) = Some d2 \<and>
        dev_inv inv inflight E P d2 \<and> waited inflight dev d2"
    proof (cases "word_of_nat (1000 * Suc k) mod VIOSND_CONTROL_RENOTIFY_US = (0 :: u32)")
      case True
      have "Queues ?d VIRTIO_SND_VQ_CONTROL \<noteq> None" using w less.prems(5) by (simp add: waited_def)
      then obtain d2 where "vq_kick_always K VIRTIO_SND_VQ_CONTROL ?d = Some d2"
        "dev_inv inv inflight E P d2" "waited inflight ?d d2"
        using kick_always_waited [OF conjunct1 [OF w]] by metis
      then show ?thesis using True w waited_trans by metis
    next
      case False
      then show ?thesis using w by simp
    qed
    then obtain d2 where d2: "(if word_of_nat (1000 * Suc k) mod VIOSND_CONTROL_RENOTIFY_US = (0 :: u32)
          then vq_kick_always K VIRTIO_SND_VQ_CONTROL ?d else Some ?d) = Some d2"
        "dev_inv inv inflight E P d2" "waited inflight dev d2" by blast
    have same: "msgs d2 = msgs dev" "Queues d2 VIRTIO_SND_VQ_CONTROL \<noteq> None"
      "flight inflight d2 = flight inflight dev"
      using d2(3) drv_simps [of d2 dev] less.prems(5) unfolding waited_def by simp_all
    note fr = waited_frame [OF d2(3)] and rest = waited_rest [OF d2(3) less.prems(2)]
    have eq: "control_poll K p request (unat (m_ResponseLength m)) (word_of_nat (1000 * k)) dev =
       (if Suc k < 5000 then control_poll K p request (unat (m_ResponseLength m)) (word_of_nat (1000 * Suc k)) d2
        else Some (None, d2))"
      by (subst control_poll.simps)
        (simp only: empty(2) bind.bind_lunit option.case Let_def e(1,3) d2(1) prod.case)
    show ?thesis
    proof (cases "Suc k < 5000")
      case True
      have "5000 - Suc k + size (flight inflight d2 VIRTIO_SND_VQ_CONTROL) <
          5000 - k + size (flight inflight dev VIRTIO_SND_VQ_CONTROL)" using True same(3) by simp
      from less.hyps [OF this d2(2) rest] obtain resp dev' where
        r: "control_poll K p request (unat (m_ResponseLength m)) (word_of_nat (1000 * Suc k)) d2 = Some (resp, dev')"
        "dev_inv inv inflight E P dev'" "ctl_rest inflight dev'" "ctl_frame inflight d2 dev'"
        "dom (dma dev') \<subseteq> dom (dma d2)" "msgs dev' \<subseteq>\<^sub>m msgs d2"
        "case resp of None \<Rightarrow> msgs dev' p = Some m
         | Some bs \<Rightarrow> msgs dev' p = None \<and> length bs = unat (m_ResponseLength m) \<and>
           dom (dma dev') \<inter> {m_RequestVa m, m_ResponseVa m} = {}"
        using less.prems(3,4,6,8) same True by auto
      show ?thesis unfolding eq using True r same(1) ctl_frame_trans [OF fr r(4)] waited_dom [OF d2(3)] by auto
    next
      case False
      then show ?thesis unfolding eq using d2 rest fr same(1) waited_dom [OF d2(3)] less.prems(3) by auto
    qed
  next
    case (used x len q')
    obtain c where c: "x = OMessage c" "c \<in> dom (msgs dev)"
      using used(6) by (cases x) (auto simp: token_ok_def split: option.splits)
    let ?d1 = "set_queue VIRTIO_SND_VQ_CONTROL q' dev"
    have fl1: "flight inflight ?d1 = (flight inflight dev)(VIRTIO_SND_VQ_CONTROL := inflight q')"
      by (rule flight_set_queue)
    have msgs1: "msgs ?d1 = msgs dev" "dma ?d1 = dma dev" "Queues ?d1 VIRTIO_SND_VQ_CONTROL \<noteq> None"
      by (simp_all add: set_queue_def)
    have frame1: "ctl_frame inflight dev ?d1"
      using less.prems(5) fl1 by (simp add: ctl_frame_def set_queue_def)
    have cP: "c \<notin> P" using c(2) less.prems(6) by blast
    have nin: "OMessage c \<notin># flight inflight ?d1 VIRTIO_SND_VQ_CONTROL" using used(5) c(1) fl1 by simp
    show ?thesis
    proof (cases "c = p")
      case False
      obtain mc where mc: "msgs ?d1 c = Some mc" using c(2) msgs1(1) by auto
      obtain d2 where d2: "ViosndFreeControlMessage ?d1 c = Some d2" "dev_inv inv inflight E P d2"
        "msgs d2 = (msgs ?d1)(c := None)" "ios d2 = ios ?d1" "EventBuffers d2 = EventBuffers ?d1"
        "Queues d2 = Queues ?d1" "mutex_count d2 = mutex_count ?d1"
        "dma d2 = (dma ?d1)(m_RequestVa mc := None, m_ResponseVa mc := None)" "Config d2 = Config ?d1"
        using free_completed_message [OF used(3) mc cP nin] by metis
      have fl2: "flight inflight d2 = flight inflight ?d1" by (rule ext) (simp add: flight_def d2(6))
      have frame2: "ctl_frame inflight dev d2"
        using frame1 d2 fl2 by (simp add: ctl_frame_def)
      have rest: "ctl_rest inflight d2"
        using less.prems(2) d2(3) fl2 fl1 fl used(4) c msgs1(1) by (auto simp: ctl_rest_def)
      have sz: "5000 - k + size (flight inflight d2 VIRTIO_SND_VQ_CONTROL) <
          5000 - k + size (flight inflight dev VIRTIO_SND_VQ_CONTROL)"
        using fl fl1 fl2 used(4) by simp
      have mp: "msgs d2 p = Some m" using d2(3) msgs1(1) less.prems(3) False by simp
      have disj: "dom (msgs d2) \<inter> P = {}" using d2(3) msgs1(1) less.prems(6) by auto
      have q2: "Queues d2 VIRTIO_SND_VQ_CONTROL \<noteq> None" using d2(6) msgs1(3) by simp
      from less.hyps [OF sz d2(2) rest mp less.prems(4) q2 disj less.prems(7,8)] obtain resp dev' where
        r: "control_poll K p request (unat (m_ResponseLength m)) (word_of_nat (1000 * k)) d2 = Some (resp, dev')"
        "dev_inv inv inflight E P dev'" "ctl_rest inflight dev'" "ctl_frame inflight d2 dev'"
        "dom (dma dev') \<subseteq> dom (dma d2)" "msgs dev' \<subseteq>\<^sub>m msgs d2"
        "case resp of None \<Rightarrow> msgs dev' p = Some m
         | Some bs \<Rightarrow> msgs dev' p = None \<and> length bs = unat (m_ResponseLength m) \<and>
           dom (dma dev') \<inter> {m_RequestVa m, m_ResponseVa m} = {}" by blast
      have eq: "control_poll K p request (unat (m_ResponseLength m)) (word_of_nat (1000 * k)) dev = Some (resp, dev')"
        by (subst control_poll.simps)
          (simp only: used(2) c(1) opaque.case bind.bind_lunit option.case Let_def e(2) d2(1) prod.case r(1)
             False simp_thms if_True)
      have sub: "dom (dma dev') \<subseteq> dom (dma dev)" using r(5) d2(8) msgs1(2) by auto
      have msub: "msgs dev' \<subseteq>\<^sub>m msgs dev"
        using map_le_trans [OF r(6) [unfolded d2(3)] upd_None_map_le] msgs1(1) by simp
      show ?thesis using eq r(2,3,7) ctl_frame_trans [OF frame2 r(4)] sub msub by blast
    next
      case True
      have mp: "msgs ?d1 p = Some m" using msgs1(1) less.prems(3) by simp
      have o: "own_inv E P ?d1" using used(3) by (simp add: dev_inv_def)
      have resp: "dma ?d1 (m_ResponseVa m) \<noteq> None" "unat (m_ResponseLength m) \<le> buf_len ?d1 (m_ResponseVa m)"
      proof -
        have "m_ResponseVa m \<in> bufs ?d1 (OMessage p)" using mp by (simp add: bufs_def)
        then show "dma ?d1 (m_ResponseVa m) \<noteq> None" using own_inv_bufsD [OF o] by blast
        show "unat (m_ResponseLength m) \<le> buf_len ?d1 (m_ResponseVa m)"
          using o mp unfolding own_inv_def msg_ok_def by blast
      qed
      obtain d2 where d2: "stall_response K 100 (m_ResponseVa m) (unat (m_ResponseLength m)) ?d1 = Some d2"
        "dev_inv inv inflight E P d2" "waited inflight ?d1 d2"
        using stall_response_ok [OF used(3) resp] by metis
      have same: "msgs d2 = msgs ?d1" "flight inflight d2 = flight inflight ?d1"
        using d2(3) drv_simps unfolding waited_def by blast+
      have "dma d2 (m_ResponseVa m) \<noteq> None" "0 + unat (m_ResponseLength m) \<le> buf_len d2 (m_ResponseVa m)"
        using waited_dom [OF d2(3)] waited_buf_len [OF d2(3), of "m_ResponseVa m"] resp by auto
      then obtain bs where bs: "dma_read d2 (m_ResponseVa m) 0 (unat (m_ResponseLength m)) = Some bs"
        "length bs = unat (m_ResponseLength m)" using dma_access(1) [OF d2(2)] by blast
      have m2: "msgs d2 p = Some m" using same mp by simp
      have nin2: "OMessage p \<notin># flight inflight d2 VIRTIO_SND_VQ_CONTROL" using nin same True by simp
      obtain d3 where d3: "ViosndFreeControlMessage d2 p = Some d3" "dev_inv inv inflight E P d3"
        "msgs d3 = (msgs d2)(p := None)" "ios d3 = ios d2" "EventBuffers d3 = EventBuffers d2"
        "Queues d3 = Queues d2" "mutex_count d3 = mutex_count d2"
        "dma d3 = (dma d2)(m_RequestVa m := None, m_ResponseVa m := None)" "Config d3 = Config d2"
        using free_completed_message [OF d2(2) m2 less.prems(4) nin2] by metis
      have fl3: "flight inflight d3 = flight inflight d2" by (rule ext) (simp add: flight_def d3(6))
      have hdr: "\<exists>h. read_bytes 0 sizeof_HDR request = Some h" using less.prems(8) by (simp add: read_bytes_def)
      have eq: "control_poll K p request (unat (m_ResponseLength m)) (word_of_nat (1000 * k)) dev = Some (Some bs, d3)"
        using hdr
        by (subst control_poll.simps)
          (auto simp only: used(2) c(1) True opaque.case bind.bind_lunit option.case Let_def d2(1) prod.case bs(1)
             d3(1) mp simp_thms if_False)
      have rest: "ctl_rest inflight d3"
        using less.prems(2) d3(3) fl3 same fl1 fl used(4) c True msgs1(1) by (auto simp: ctl_rest_def)
      have frame: "ctl_frame inflight dev d3"
      proof -
        have "ctl_frame inflight d2 d3" using d3 fl3 by (simp add: ctl_frame_def)
        then show ?thesis using frame1 waited_frame [OF d2(3)] ctl_frame_trans by metis
      qed
      have sub: "dom (dma d3) \<subseteq> dom (dma dev)" using d3(8) waited_dom [OF d2(3)] msgs1(2) by auto
      have msub: "msgs d3 \<subseteq>\<^sub>m msgs dev"
        unfolding d3(3) same(1) msgs1(1) by (rule upd_None_map_le)
      have "dom (dma d3) \<inter> {m_RequestVa m, m_ResponseVa m} = {}" using d3(8) by auto
      then show ?thesis using eq d3(2) rest frame sub msub d3(3) bs(2) by auto
    qed
  qed
qed

end

lemma KeMutex_simps [simp]:
  "drv (KeAcquireMutex i dev) = drv dev" "dma (KeAcquireMutex i dev) = dma dev"
  "msgs (KeAcquireMutex i dev) = msgs dev" "ios (KeAcquireMutex i dev) = ios dev"
  "EventBuffers (KeAcquireMutex i dev) = EventBuffers dev" "Config (KeAcquireMutex i dev) = Config dev"
  "Queues (KeAcquireMutex i dev) = Queues dev" "flight inflight (KeAcquireMutex i dev) = flight inflight dev"
  "mutex_count (KeAcquireMutex i dev) = (mutex_count dev)(i := Suc (mutex_count dev i))"
  "dev_inv qinv inflight E P (KeAcquireMutex i dev) = dev_inv qinv inflight E P dev"
  by (simp_all add: KeAcquireMutex_def drv_def flight_def fun_eq_iff)

lemma KeMutex_more [simp]:
  "EventBufferCount (KeAcquireMutex i dev) = EventBufferCount dev" "Bars (KeAcquireMutex i dev) = Bars dev"
  "ext (KeAcquireMutex i dev) = ext dev" "pool (KeAcquireMutex i dev) = pool dev"
  by (simp_all add: KeAcquireMutex_def)

text \<open>The release that matches an acquisition.\<close>

lemma KeReleaseMutex_ok:
  assumes "mutex_count dev = (mutex_count dev0)(i := Suc (mutex_count dev0 i))"
  shows "KeReleaseMutex i dev = Some (dev\<lparr>mutex_count := mutex_count dev0\<rparr>)"
  using assms by (simp add: KeReleaseMutex_def)

lemma mutex_upd_simps [simp]:
  "drv (dev\<lparr>mutex_count := c\<rparr>) = drv dev" "flight inflight (dev\<lparr>mutex_count := c\<rparr>) = flight inflight dev"
  "ctl_rest inflight (dev\<lparr>mutex_count := c\<rparr>) = ctl_rest inflight dev"
  by (simp_all add: drv_def flight_def ctl_rest_def fun_eq_iff)

context virtio_snd
begin

lemma not_stored_not_flying:
  assumes "dev_inv inv inflight E P dev" "p \<notin> dom (msgs dev)"
  shows "OMessage p \<notin># flight inflight dev i"
proof (cases "Queues dev i")
  case (Some q)
  then show ?thesis using queueD [OF assms(1) Some] assms(2) by (auto simp: flight_def token_ok_def)
qed (simp add: flight_def)

text \<open>The command from the point where the message is stored and its request written.\<close>

lemma control_submit_ok:
  assumes d: "dev_inv inv inflight E P dev" and m: "msgs dev p = Some m" and p: "p \<notin> P"
    and q: "Queues dev VIRTIO_SND_VQ_CONTROL \<noteq> None"
    and fly: "OMessage p \<notin># flight inflight dev VIRTIO_SND_VQ_CONTROL"
    and rest: "\<forall>c \<in> dom (msgs dev) - {p}. OMessage c \<in># flight inflight dev VIRTIO_SND_VQ_CONTROL"
    and req: "sizeof_HDR \<le> length request" "length sg = 2"
  shows "\<exists>status resp dev'. do {
      let dev = KeAcquireMutex VIRTIO_SND_VQ_CONTROL dev;
      (r, dev) \<leftarrow> vq_add_buf K VIRTIO_SND_VQ_CONTROL sg 1 1 (OMessage p) dev;
      if r < 0 then do {
        dev \<leftarrow> KeReleaseMutex VIRTIO_SND_VQ_CONTROL dev;
        dev \<leftarrow> ViosndFreeControlMessage dev p;
        Some (STATUS_DEVICE_BUSY, None, dev)
      } else do {
        dev \<leftarrow> vq_kick_always K VIRTIO_SND_VQ_CONTROL dev;
        (response, dev) \<leftarrow> control_poll K p request (unat (m_ResponseLength m)) 0 dev;
        dev \<leftarrow> KeReleaseMutex VIRTIO_SND_VQ_CONTROL dev;
        Some (if response = None then STATUS_IO_TIMEOUT else STATUS_SUCCESS, response, dev)
      }} = Some (status, resp, dev') \<and>
    dev_inv inv inflight E P dev' \<and> ctl_rest inflight dev' \<and> ctl_frame inflight dev dev' \<and>
    msgs dev' \<subseteq>\<^sub>m msgs dev \<and> dom (dma dev') \<subseteq> dom (dma dev) \<and>
    (status = STATUS_IO_TIMEOUT \<and> resp = None \<and> msgs dev' p = Some m \<or>
     dom (dma dev') \<subseteq> dom (dma dev) - bufs dev (OMessage p) \<and> msgs dev' p = None \<and>
     (status = STATUS_DEVICE_BUSY \<and> resp = None \<or>
      status = STATUS_SUCCESS \<and> (\<exists>bs. resp = Some bs \<and> length bs = unat (m_ResponseLength m))))"
proof -
  let ?C = "VIRTIO_SND_VQ_CONTROL"
  let ?d0 = "KeAcquireMutex ?C dev"
  have d0: "dev_inv inv inflight E P ?d0" using d by simp
  obtain q0 where q0: "Queues ?d0 ?C = Some q0" using q by auto
  have fl0: "flight inflight dev ?C = inflight q0" using q0 by (simp add: flight_def)
  have sg: "sg \<noteq> []" "1 + 1 = length sg" using req by auto
  have tok: "token_ok ?d0 ?C (OMessage p)" using m by (auto simp: token_ok_def)
  have nin: "OMessage p \<notin># inflight q0" using fly fl0 by simp
  have bp: "bufs dev (OMessage p) = {m_RequestVa m, m_ResponseVa m}" using m by (simp add: bufs_def)
  show ?thesis using d0 q0 sg tok nin
  proof (cases rule: vq_add_ok)
    case full
    have rel: "KeReleaseMutex ?C ?d0 = Some (?d0\<lparr>mutex_count := mutex_count dev\<rparr>)"
      by (rule KeReleaseMutex_ok) simp
    let ?d1 = "?d0\<lparr>mutex_count := mutex_count dev\<rparr>"
    have "dev_inv inv inflight E P ?d1" "msgs ?d1 p = Some m" "OMessage p \<notin># flight inflight ?d1 ?C"
      using d m fly by simp_all
    then obtain d2 where d2: "ViosndFreeControlMessage ?d1 p = Some d2" "dev_inv inv inflight E P d2"
      "msgs d2 = (msgs ?d1)(p := None)" "ios d2 = ios ?d1" "EventBuffers d2 = EventBuffers ?d1"
      "Queues d2 = Queues ?d1" "mutex_count d2 = mutex_count ?d1"
      "dma d2 = (dma ?d1)(m_RequestVa m := None, m_ResponseVa m := None)" "Config d2 = Config ?d1"
      using free_completed_message p by metis
    have fl2: "flight inflight d2 = flight inflight dev" by (rule ext) (simp add: flight_def d2(6))
    have "ctl_rest inflight d2" using rest d2(3) fl2 by (auto simp: ctl_rest_def)
    moreover have "ctl_frame inflight dev d2" using d2(4-7,9) fl2 by (simp add: ctl_frame_def)
    moreover have "msgs d2 \<subseteq>\<^sub>m msgs dev" unfolding d2(3) by simp
    moreover have "dom (dma d2) \<subseteq> dom (dma dev) - bufs dev (OMessage p)" using d2(8) bp by auto
    ultimately show ?thesis using full(2) rel d2(1-3) by (simp add: Let_def) blast
  next
    case (added q1)
    let ?d1 = "set_queue ?C q1 ?d0"
    have fl1: "flight inflight ?d1 = (flight inflight dev)(?C := add_mset (OMessage p) (inflight q0))"
      using flight_set_queue [of inflight ?C q1 ?d0] added(4) by simp
    have Q1: "Queues ?d1 ?C \<noteq> None" by simp
    obtain d2 where d2: "vq_kick_always K ?C ?d1 = Some d2" "dev_inv inv inflight E P d2" "waited inflight ?d1 d2"
      using kick_always_waited [OF added(3) Q1] by metis
    have same: "msgs d2 = msgs dev" "Queues d2 ?C \<noteq> None" "flight inflight d2 = flight inflight ?d1"
      "mutex_count d2 = (mutex_count dev)(?C := Suc (mutex_count dev ?C))"
      using d2(3) drv_simps [of d2 ?d1] unfolding waited_def by (simp_all add: set_queue_def)
    have rest2: "ctl_rest inflight d2"
      using rest same fl1 fl0 by (auto simp: ctl_rest_def)
    have mp: "msgs d2 p = Some m" using same m by simp
    have disj: "dom (msgs d2) \<inter> P = {}" using d2(2) unfolding dev_inv_def own_inv_def by blast
    obtain resp d3 where r: "control_poll K p request (unat (m_ResponseLength m)) (word_of_nat (1000 * 0)) d2 = Some (resp, d3)"
      "dev_inv inv inflight E P d3" "ctl_rest inflight d3" "ctl_frame inflight d2 d3"
      "dom (dma d3) \<subseteq> dom (dma d2)" "msgs d3 \<subseteq>\<^sub>m msgs d2"
      "case resp of None \<Rightarrow> msgs d3 p = Some m
       | Some bs \<Rightarrow> msgs d3 p = None \<and> length bs = unat (m_ResponseLength m) \<and>
           dom (dma d3) \<inter> {m_RequestVa m, m_ResponseVa m} = {}"
      using control_poll_ok [OF d2(2) rest2 mp p same(2) disj, of 0 request] req(1) by auto
    have frame1: "ctl_frame inflight ?d0 ?d1"
      using q fl1 by (simp add: ctl_frame_def set_queue_def)
    have frame: "ctl_frame inflight ?d0 d3"
      using frame1 waited_frame [OF d2(3)] r(4) ctl_frame_trans by metis
    let ?d4 = "d3\<lparr>mutex_count := mutex_count dev\<rparr>"
    have rel: "KeReleaseMutex ?C d3 = Some ?d4"
      by (rule KeReleaseMutex_ok) (use frame in \<open>simp add: ctl_frame_def\<close>)
    have frame4: "ctl_frame inflight dev ?d4" using frame unfolding ctl_frame_def by simp
    have dom4: "dom (dma d3) \<subseteq> dom (dma dev)" using r(5) waited_dom [OF d2(3)] by (simp add: set_queue_def)
    have gone: "dom (dma d3) \<subseteq> dom (dma dev) - bufs dev (OMessage p)" if "resp \<noteq> None"
      using r(7) that dom4 bp by (cases resp) auto
    have eq: "do {
        let dev = KeAcquireMutex ?C dev;
        (r, dev) \<leftarrow> vq_add_buf K ?C sg 1 1 (OMessage p) dev;
        if r < 0 then do {
          dev \<leftarrow> KeReleaseMutex ?C dev;
          dev \<leftarrow> ViosndFreeControlMessage dev p;
          Some (STATUS_DEVICE_BUSY, None, dev)
        } else do {
          dev \<leftarrow> vq_kick_always K ?C dev;
          (response, dev) \<leftarrow> control_poll K p request (unat (m_ResponseLength m)) 0 dev;
          dev \<leftarrow> KeReleaseMutex ?C dev;
          Some (if response = None then STATUS_IO_TIMEOUT else STATUS_SUCCESS, response, dev)
        }} = Some (if resp = None then STATUS_IO_TIMEOUT else STATUS_SUCCESS, resp, ?d4)"
      using added(2) d2(1) r(1) rel by (simp add: Let_def)
    show ?thesis
      unfolding eq using r(2,3,6,7) frame4 dom4 gone same(1) by (cases resp) simp_all
  qed
qed
end

lemma map_le_drop:
  assumes "f \<subseteq>\<^sub>m g(p \<mapsto> y)" "f p = None" shows "f \<subseteq>\<^sub>m g"
  unfolding map_le_def
proof
  fix a assume a: "a \<in> dom f"
  then have "a \<noteq> p" using assms(2) by auto
  moreover have "f a = (g(p \<mapsto> y)) a" using assms(1) a unfolding map_le_def by blast
  ultimately show "f a = g a" by simp
qed

lemma ctl_frame_drv:
  "drv dev' = drv dev \<Longrightarrow> Queues dev' = Queues dev \<Longrightarrow> mutex_count dev' = mutex_count dev \<Longrightarrow> ctl_frame inflight dev dev'"
  using drv_simps [of dev' dev] by (simp add: ctl_frame_def flight_def)

lemma ctl_rest_drv:
  "drv dev' = drv dev \<Longrightarrow> Queues dev' = Queues dev \<Longrightarrow> ctl_rest inflight dev \<Longrightarrow> ctl_rest inflight dev'"
  using drv_simps [of dev' dev] by (simp add: ctl_rest_def flight_def)

text \<open>
  What a control command may have done: the possible statuses, and what each leaves behind in
  the messages and the DMA memory.
\<close>

definition control_outcome ::
  "('q \<Rightarrow> opaque multiset) \<Rightarrow> nat \<Rightarrow> ('q, 'e) VIOSND_DEVICE \<Rightarrow> NTSTATUS \<Rightarrow> u8 list option \<Rightarrow>
   ('q, 'e) VIOSND_DEVICE \<Rightarrow> bool" where
  "control_outcome inflight len dev status resp dev' \<longleftrightarrow>
     status = STATUS_SUCCESS \<and> (\<exists>bs. resp = Some bs \<and> length bs = len) \<and>
       msgs dev' \<subseteq>\<^sub>m msgs dev \<and> dom (dma dev') \<subseteq> dom (dma dev) \<or>
     status \<in> {STATUS_DEVICE_NOT_READY, STATUS_INSUFFICIENT_RESOURCES, STATUS_DEVICE_BUSY} \<and> resp = None \<and>
       msgs dev' \<subseteq>\<^sub>m msgs dev \<and> dom (dma dev') \<subseteq> dom (dma dev) \<or>
     status = STATUS_IO_TIMEOUT \<and> resp = None \<and>
       (\<exists>p. p \<notin> dom (msgs dev) \<and> OMessage p \<in># flight inflight dev' VIRTIO_SND_VQ_CONTROL \<and>
          dom (msgs dev') \<subseteq> insert p (dom (msgs dev)) \<and>
          dom (dma dev') \<subseteq> dom (dma dev) \<union> bufs dev' (OMessage p))"

context virtio_snd
begin

lemma control_command_ok:
  assumes d: "dev_inv inv inflight E P dev" and rest: "ctl_rest inflight dev"
    and req: "sizeof_HDR \<le> length request" "length request < 2 ^ 32"
  shows "\<exists>status resp dev'. ViosndControlCommand K request len dev = Some (status, resp, dev') \<and>
    dev_inv inv inflight E P dev' \<and> ctl_rest inflight dev' \<and> ctl_frame inflight dev dev' \<and>
    control_outcome inflight (unat len) dev status resp dev'"
proof (cases "Queues dev VIRTIO_SND_VQ_CONTROL = None")
  case True
  then have "ViosndControlCommand K request len dev = Some (STATUS_DEVICE_NOT_READY, None, dev)"
    by (simp add: ViosndControlCommand_def)
  then show ?thesis using d rest by (simp add: control_outcome_def)
next
  case qC: False
  obtain p d1 where a1: "pool_alloc K dev 48 = (p, d1)" by force
  note p1 = dev_inv_pool_alloc [OF alloc d a1]
  show ?thesis
  proof (cases "p = 0")
    case True
    then have "ViosndControlCommand K request len dev = Some (STATUS_INSUFFICIENT_RESOURCES, None, d1)"
      using qC a1 by (simp add: ViosndControlCommand_def)
    then show ?thesis using p1 True ctl_frame_drv [of d1 dev] ctl_rest_drv [of d1 dev] rest drv_simps [of d1 dev]
      by (simp add: control_outcome_def)
  next
    case p0: False
    then have i1: "dev_inv inv inflight E (insert p P) d1" using p1 by simp
    obtain rv rl d2 where a2: "ViosndAllocControlBuffer K d1 (word_of_nat (length request)) = Some ((rv, rl), d2)"
      "dev_inv inv inflight (if rv = 0 then E else insert rv E) (insert p P) d2" "rv \<notin> E"
      "rv \<noteq> 0 \<Longrightarrow> rv \<notin> dom (dma d1) \<and> unat (word_of_nat (length request) :: u32) \<le> buf_len d2 rv"
      "drv d2 = drv d1" "Queues d2 = Queues d1" "mutex_count d2 = mutex_count d1"
      "\<And>v. v \<in> dom (dma d1) \<Longrightarrow> dma d2 v = dma d1 v"
      "dom (dma d2) = (if rv = 0 then dom (dma d1) else insert rv (dom (dma d1)))"
      using AllocControlBuffer_inv [OF alloc i1] by metis
    define E2 where "E2 = (if rv = 0 then E else insert rv E)"
    note i2 = a2(2) [folded E2_def]
    obtain sv sl d3 where a3: "ViosndAllocControlBuffer K d2 len = Some ((sv, sl), d3)"
      "dev_inv inv inflight (if sv = 0 then E2 else insert sv E2) (insert p P) d3"
      "sv \<notin> E2"
      "sv \<noteq> 0 \<Longrightarrow> sv \<notin> dom (dma d2) \<and> unat len \<le> buf_len d3 sv"
      "drv d3 = drv d2" "Queues d3 = Queues d2" "mutex_count d3 = mutex_count d2"
      "\<And>v. v \<in> dom (dma d2) \<Longrightarrow> dma d3 v = dma d2 v"
      "dom (dma d3) = (if sv = 0 then dom (dma d2) else insert sv (dom (dma d2)))"
      by (rule AllocControlBuffer_inv [OF alloc i2, of len]) (rule that; assumption)
    define E3 where "E3 = (if sv = 0 then E2 else insert sv E2)"
    note i3 = a3(2) [folded E3_def]
    let ?m = "\<lparr>m_RequestVa = rv, m_RequestPa = rl, m_RequestLength = word_of_nat (length request),
             m_ResponseVa = sv, m_ResponsePa = sl, m_ResponseLength = len\<rparr>"
    let ?d4 = "d3\<lparr>msgs := (msgs d3)(p \<mapsto> ?m)\<rparr>"
    have f3: "drv d3 = drv dev" "Queues d3 = Queues dev" "mutex_count d3 = mutex_count dev"
      using p1 a2(5-7) a3(5-7) by simp_all
    note s3 = drv_simps [OF f3(1)]
    have pP: "p \<notin> P" "p \<notin> dom (msgs dev)"
    proof -
      have "own_inv E (insert p P) d1" using i1 by (simp add: dev_inv_def)
      then have "p \<notin> dom (msgs d1)" using own_inv_P by blast
      then show "p \<notin> P" "p \<notin> dom (msgs dev)" using p1 drv_simps [of d1 dev] by simp_all
    qed
    have E0: "0 \<notin> E3"
    proof -
      have "own_inv E3 (insert p P) d3" "mem_inv d3" using i3 by (simp_all add: dev_inv_def)
      then show ?thesis using own_inv_E mem_inv_null by blast
    qed
    have dom3: "dom (dma d3) \<subseteq> dom (dma dev) \<union> {rv, sv}" using a2(9) a3(9) p1 by auto
    show ?thesis
    proof (cases "rv = 0 \<or> sv = 0")
      case True
      obtain d5 where f: "ViosndFreeControlMessage ?d4 p = Some d5"
        "dev_inv inv inflight (E3 - {rv, sv}) (insert p P - {p}) d5" "drv d5 = drv d3" "Queues d5 = Queues d3"
        "mutex_count d5 = mutex_count d3" "dma d5 = (dma d3)(rv := None, sv := None)"
      proof (rule FreeMessage_inv [OF i3, of p ?m])
        show "p \<in> insert p P" by simp
        show "m_RequestVa ?m = 0 \<or> m_RequestVa ?m \<in> E3" "m_ResponseVa ?m = 0 \<or> m_ResponseVa ?m \<in> E3"
          by (simp_all add: E2_def E3_def)
        show "m_RequestVa ?m \<noteq> m_ResponseVa ?m \<or> m_RequestVa ?m = 0"
          using True a3(3) by (auto simp: E2_def)
      qed (rule that; simp)
      have E: "E3 - {rv, sv} = E" using a2(3) a3(3) E0 True by (auto simp: E2_def E3_def split: if_splits)
      have P: "insert p P - {p} = P" using pP by simp
      have c: "ViosndControlCommand K request len dev = Some (STATUS_INSUFFICIENT_RESOURCES, None, d5)"
        using qC a1 p0 a2(1) a3(1) f(1) True by (simp add: ViosndControlCommand_def Let_def)
      have "drv d5 = drv dev" "Queues d5 = Queues dev" "mutex_count d5 = mutex_count dev" using f f3 by simp_all
      then show ?thesis using c f(2) [unfolded E P] ctl_frame_drv [of d5 dev] ctl_rest_drv [of d5 dev] rest
          drv_simps [of d5 dev] dom3 f(6)
        by (auto simp: control_outcome_def)
    next
      case False
      then have i4: "dev_inv inv inflight (insert sv (insert rv E)) (insert p P) d3" using a3(2) by (simp add: E2_def)
      have ne: "rv \<noteq> sv" using a3(3) False by (auto simp: E2_def)
      have "dma d2 rv \<noteq> None" using a2(2) False own_inv_E unfolding dev_inv_def by fastforce
      then have same: "dma d3 rv = dma d2 rv" using a3(8) [of rv] by blast
      then have len2: "buf_len d3 rv = buf_len d2 rv" by (simp add: buf_len_def)
      have mok: "msg_ok d3 ?m" using ne a3(4) False by (simp add: msg_ok_def)
      have i5: "dev_inv inv inflight E P ?d4"
      proof -
        have "insert sv (insert rv E) - {m_RequestVa ?m, m_ResponseVa ?m} = E"
          using a2(3) a3(3) False by (auto simp: E2_def)
        moreover have "insert p P - {p} = P" using pP by simp
        ultimately show ?thesis using store_message [OF i4 _ _ _ mok, of p] by simp
      qed
      have "unat (word_of_nat (length request) :: u32) = length request" unfolding unat_of_nat using req(2) by simp
      then have "0 + length request \<le> buf_len ?d4 rv" "dma ?d4 rv \<noteq> None"
        using a2(4) False len2 \<open>dma d2 rv \<noteq> None\<close> same by auto
      then obtain d5 where w: "dma_write ?d4 rv 0 request = Some d5" "dev_inv inv inflight E P d5"
        "drv d5 = drv ?d4" "Queues d5 = Queues ?d4" "mutex_count d5 = mutex_count ?d4"
        "\<forall>w. map_option length (dma d5 w) = map_option length (dma ?d4 w)"
        using dma_access(2) [OF i5] by blast
      have f5: "msgs d5 = (msgs dev)(p \<mapsto> ?m)" "ios d5 = ios dev" "EventBuffers d5 = EventBuffers dev"
        "Config d5 = Config dev" "Queues d5 = Queues dev" "mutex_count d5 = mutex_count dev"
        using drv_simps [OF w(3)] s3 w(4,5) f3 by simp_all
      have fl5: "flight inflight d5 = flight inflight dev" by (rule ext) (simp add: flight_def f5(5))
      have nf: "OMessage p \<notin># flight inflight d5 VIRTIO_SND_VQ_CONTROL"
        using not_stored_not_flying [OF d pP(2)] fl5 by simp
      have r5: "\<forall>c \<in> dom (msgs d5) - {p}. OMessage c \<in># flight inflight d5 VIRTIO_SND_VQ_CONTROL"
        using rest f5(1) fl5 by (auto simp: ctl_rest_def)
      have q5: "Queues d5 VIRTIO_SND_VQ_CONTROL \<noteq> None" using f5 qC by simp
      have m5: "msgs d5 p = Some ?m" using f5 by simp
      have dom5: "dom (dma d5) = dom (dma d3)" using same_len_dom [of "dma d5" "dma ?d4"] w(6) by simp
      let ?sg = "[\<lparr>sg_addr = rl, sg_length = word_of_nat (length request)\<rparr>, \<lparr>sg_addr = sl, sg_length = len\<rparr>]"
      obtain status resp d6 where s: "do {
          let dev = KeAcquireMutex VIRTIO_SND_VQ_CONTROL d5;
          (r, dev) \<leftarrow> vq_add_buf K VIRTIO_SND_VQ_CONTROL ?sg 1 1 (OMessage p) dev;
          if r < 0 then do {
            dev \<leftarrow> KeReleaseMutex VIRTIO_SND_VQ_CONTROL dev;
            dev \<leftarrow> ViosndFreeControlMessage dev p;
            Some (STATUS_DEVICE_BUSY, None, dev)
          } else do {
            dev \<leftarrow> vq_kick_always K VIRTIO_SND_VQ_CONTROL dev;
            (response, dev) \<leftarrow> control_poll K p request (unat len) 0 dev;
            dev \<leftarrow> KeReleaseMutex VIRTIO_SND_VQ_CONTROL dev;
            Some (if response = None then STATUS_IO_TIMEOUT else STATUS_SUCCESS, response, dev)
          }} = Some (status, resp, d6)"
        "dev_inv inv inflight E P d6" "ctl_rest inflight d6" "ctl_frame inflight d5 d6"
        "msgs d6 \<subseteq>\<^sub>m msgs d5" "dom (dma d6) \<subseteq> dom (dma d5)"
        "status = STATUS_IO_TIMEOUT \<and> resp = None \<and> msgs d6 p = Some ?m \<or>
         dom (dma d6) \<subseteq> dom (dma d5) - bufs d5 (OMessage p) \<and> msgs d6 p = None \<and>
         (status = STATUS_DEVICE_BUSY \<and> resp = None \<or>
          status = STATUS_SUCCESS \<and> (\<exists>bs. resp = Some bs \<and> length bs = unat len))"
        using control_submit_ok [OF w(2) m5 pP(1) q5 nf r5 req(1), of ?sg,
            unfolded VIOSND_CONTROL_MESSAGE.select_convs] by auto
      have c: "ViosndControlCommand K request len dev = Some (status, resp, d6)"
        unfolding ViosndControlCommand_def if_not_P [OF qC] Let_def a1 prod.case if_not_P [OF p0]
          a2(1) a3(1) bind.bind_lunit if_not_P [OF False] w(1)
        by (rule s(1) [unfolded Let_def])
      have b5: "bufs d5 (OMessage p) = {rv, sv}" using m5 by (simp add: bufs_def)
      have frame: "ctl_frame inflight dev d6"
        using s(4) f5 fl5 by (simp add: ctl_frame_def)
      have out: "control_outcome inflight (unat len) dev status resp d6"
      proof (cases "msgs d6 p")
        case None
        have "msgs d6 \<subseteq>\<^sub>m msgs dev"
          using s(5) None unfolding f5(1) by (rule map_le_drop)
        moreover have "dom (dma d6) \<subseteq> dom (dma dev)"
        proof -
          have "dom (dma d6) \<subseteq> dom (dma d3) - {rv, sv}" using s(7) None b5 dom5 by auto
          then show ?thesis using dom3 by blast
        qed
        ultimately show ?thesis using s(7) None unfolding control_outcome_def by auto
      next
        case (Some m6)
        then have "m6 = ?m" using s(5) m5 by (auto simp: map_le_def dom_def)
        then have "bufs d6 (OMessage p) = {rv, sv}" using Some by (simp add: bufs_def)
        moreover have "OMessage p \<in># flight inflight d6 VIRTIO_SND_VQ_CONTROL"
          using s(3) Some by (auto simp: ctl_rest_def)
        moreover have "dom (msgs d6) \<subseteq> insert p (dom (msgs dev))" using s(5) f5(1) map_le_implies_dom_le by fastforce
        moreover have "dom (dma d6) \<subseteq> dom (dma dev) \<union> {rv, sv}" using s(6) dom5 dom3 by blast
        moreover have "status = STATUS_IO_TIMEOUT \<and> resp = None" using s(7) Some by simp
        ultimately show ?thesis using pP(2) unfolding control_outcome_def by blast
      qed
      show ?thesis using c s(2,3) frame out by blast
    qed
  qed
qed

end


lemma blank_rest: "ctl_rest split_inflight blank_device"
  by (simp add: ctl_rest_def blank_device_def)


end
