(* ===== verification/Snd_Commands.thy ===== *)
theory Snd_Commands
  imports Snd_Control
begin

text \<open>
  Correctness of what \<open>viosnd/sys/ViosndVirtio.cpp\<close> builds on the control command: the status
  commands with their retries, the commands that configure, start, stop and release a stream,
  the query of the streams, and the polling of the event queue.  All of them return, keep the
  invariant of the device and leave alone what is not theirs (\<open>ctl_step\<close>, \<open>waited\<close>).
\<close>

section \<open>Status commands\<close>

text \<open>
  What a sequence of control commands guarantees: the invariant, every stored message in flight,
  and the frame of a control command.
\<close>

definition ctl_step ::
  "('q \<Rightarrow> bool) \<Rightarrow> ('q \<Rightarrow> opaque multiset) \<Rightarrow> ptr set \<Rightarrow> ptr set \<Rightarrow>
   ('q, 'e) VIOSND_DEVICE \<Rightarrow> ('q, 'e) VIOSND_DEVICE \<Rightarrow> bool" where
  "ctl_step qinv inflight E P dev dev' \<longleftrightarrow>
     dev_inv qinv inflight E P dev' \<and> ctl_rest inflight dev' \<and> ctl_frame inflight dev dev'"

lemma ctl_step_trans:
  "ctl_step qinv inflight E P a b \<Longrightarrow> ctl_step qinv inflight E P b c \<Longrightarrow> ctl_step qinv inflight E P a c"
  unfolding ctl_step_def using ctl_frame_trans by blast

lemma ctl_step_refl:
  "dev_inv qinv inflight E P dev \<Longrightarrow> ctl_rest inflight dev \<Longrightarrow> ctl_step qinv inflight E P dev dev"
  by (simp add: ctl_step_def)

lemma ctl_stepD:
  assumes "ctl_step qinv inflight E P dev dev'"
  shows "dev_inv qinv inflight E P dev'" "ctl_rest inflight dev'" "ctl_frame inflight dev dev'"
  using assms by (simp_all add: ctl_step_def)

lemma control_outcome_cases:
  assumes "control_outcome inflight len dev status resp dev'"
  obtains (ok) bs where "status = STATUS_SUCCESS" "resp = Some bs" "length bs = len"
  | (failed) "status \<in> {STATUS_DEVICE_NOT_READY, STATUS_INSUFFICIENT_RESOURCES, STATUS_DEVICE_BUSY, STATUS_IO_TIMEOUT}"
      "resp = None"
  using assms unfolding control_outcome_def by blast

abbreviation (input) command_failures :: "NTSTATUS set" where
  "command_failures \<equiv>
     {STATUS_DEVICE_NOT_READY, STATUS_INSUFFICIENT_RESOURCES, STATUS_DEVICE_BUSY, STATUS_IO_TIMEOUT}"

lemma command_failures_fail: "status \<in> command_failures \<Longrightarrow> \<not> NT_SUCCESS status"
  by (auto simp: NT_SUCCESS_def)

text \<open>
  The status of a status command against the last response code: success for OK and, for a PCM
  command, for the code 0 a device leaves when it does not answer; a failed control command is
  passed on, and then the last code was one that is retried.
\<close>

definition status_outcome :: "u32 \<Rightarrow> NTSTATUS \<Rightarrow> u32 \<Rightarrow> bool" where
  "status_outcome command status code \<longleftrightarrow>
     status = STATUS_SUCCESS \<and> (code = VIRTIO_SND_S_OK \<or> code = 0 \<and> ViosndIsPcmStatusCommand command) \<or>
     status = STATUS_NOT_SUPPORTED \<and> code \<noteq> VIRTIO_SND_S_OK \<and>
       \<not> (code = 0 \<and> ViosndIsPcmStatusCommand command) \<or>
     status \<in> command_failures \<and> (code = 0 \<or> code = VIRTIO_SND_S_BAD_MSG)"

context virtio_snd
begin

lemma command_step:
  assumes "dev_inv inv inflight E P dev" "ctl_rest inflight dev"
    "sizeof_HDR \<le> length request" "length request < 2 ^ 32"
  obtains (ok) bs dev' where "ViosndControlCommand K request len dev = Some (STATUS_SUCCESS, Some bs, dev')"
      "length bs = unat len" "ctl_step inv inflight E P dev dev'"
  | (failed) status dev' where "ViosndControlCommand K request len dev = Some (status, None, dev')"
      "status \<in> command_failures" "ctl_step inv inflight E P dev dev'"
proof -
  obtain status resp dev' where c: "ViosndControlCommand K request len dev = Some (status, resp, dev')"
    "ctl_step inv inflight E P dev dev'" "control_outcome inflight (unat len) dev status resp dev'"
    using control_command_ok [OF assms, of len] unfolding ctl_step_def by blast
  from c(3) show thesis
    by (cases rule: control_outcome_cases) (use ok failed c(1,2) in auto)
qed

lemma KeDelay_step: "ctl_step inv inflight E P dev dev' \<Longrightarrow> ctl_step inv inflight E P dev (KeDelay K dev')"
  unfolding ctl_step_def using KeDelay_waited waited_frame waited_rest ctl_frame_trans by blast

lemma status_attempts_ok:
  assumes "dev_inv inv inflight E P dev" "ctl_rest inflight dev"
    "sizeof_HDR \<le> length request" "length request < 2 ^ 32"
    "n + attempt = VIOSND_CONTROL_STATUS_RETRY_COUNT" "0 < n" "code = 0 \<or> code = VIRTIO_SND_S_BAD_MSG"
  shows "\<exists>outcome code' dev'. status_attempts K request command n attempt r code dev = Some (outcome, code', dev') \<and>
    ctl_step inv inflight E P dev dev' \<and>
    (case outcome of
       Inl status \<Rightarrow> status \<in> command_failures \<and> (code' = 0 \<or> code' = VIRTIO_SND_S_BAD_MSG)
     | Inr response \<Rightarrow> response = code')"
  using assms
proof (induction n arbitrary: attempt r code dev)
  case (Suc n)
  show ?case using Suc.prems(1-4)
  proof (cases rule: command_step [where len = "word_of_nat sizeof_HDR"])
    case (failed status dev')
    then show ?thesis using command_failures_fail [OF failed(2)] Suc.prems(7) by simp
  next
    case (ok bs d1)
    let ?c = "le_word32 bs"
    let ?d = "KeDelay K d1"
    have o: "ViosndControlCommand K request 4 dev = Some (STATUS_SUCCESS, Some bs, d1)" using ok(1) by simp
    have ns: "NT_SUCCESS STATUS_SUCCESS" by (simp add: NT_SUCCESS_def)
    note step = KeDelay_step [OF ok(3)]
    show ?thesis
    proof (cases "ViosndIsPcmStatusCommand command \<and> attempt + 1 < VIOSND_CONTROL_STATUS_RETRY_COUNT \<and>
        (?c = 0 \<or> ?c = VIRTIO_SND_S_BAD_MSG)")
      case False
      then have "status_attempts K request command (Suc n) attempt r code dev = Some (Inr ?c, ?c, d1)"
        by (auto simp: o ns Let_def)
      then show ?thesis using ok(3) by simp
    next
      case True
      then have eq: "status_attempts K request command (Suc n) attempt r code dev =
          status_attempts K request command n (attempt + 1) ?c ?c ?d"
        by (auto simp: o ns Let_def)
      have "\<exists>outcome code' dev'. status_attempts K request command n (attempt + 1) ?c ?c ?d = Some (outcome, code', dev') \<and>
        ctl_step inv inflight E P ?d dev' \<and>
        (case outcome of
           Inl status \<Rightarrow> status \<in> command_failures \<and> (code' = 0 \<or> code' = VIRTIO_SND_S_BAD_MSG)
         | Inr response \<Rightarrow> response = code')"
        by (rule Suc.IH) (use True Suc.prems ctl_stepD [OF step] in auto)
      then show ?thesis unfolding eq using ctl_step_trans [OF step] by blast
    qed
  qed
qed simp

lemma ControlStatusCommandEx_ok:
  assumes "dev_inv inv inflight E P dev" "ctl_rest inflight dev"
    "sizeof_HDR \<le> length request" "length request < 2 ^ 32"
  shows "\<exists>status code dev'. ViosndControlStatusCommandEx K request dev = Some (status, code, dev') \<and>
    ctl_step inv inflight E P dev dev' \<and> status_outcome (le_word32 (take sizeof_HDR request)) status code"
proof -
  let ?cmd = "le_word32 (take sizeof_HDR request)"
  have h: "read_bytes 0 sizeof_HDR request = Some (take sizeof_HDR request)"
    using assms(3) by (simp add: read_bytes_def)
  obtain outcome code dev' where a: "status_attempts K request ?cmd VIOSND_CONTROL_STATUS_RETRY_COUNT 0 0 0 dev =
      Some (outcome, code, dev')" "ctl_step inv inflight E P dev dev'"
    "case outcome of
       Inl status \<Rightarrow> status \<in> command_failures \<and> (code = 0 \<or> code = VIRTIO_SND_S_BAD_MSG)
     | Inr response \<Rightarrow> response = code"
    using status_attempts_ok [OF assms, of VIOSND_CONTROL_STATUS_RETRY_COUNT 0 0 ?cmd 0] by auto
  show ?thesis
    unfolding ViosndControlStatusCommandEx_def h bind.bind_lunit Let_def a(1) prod.case
    using a(2,3) by (cases outcome) (auto simp: status_outcome_def)
qed

end

section \<open>Commands of a stream\<close>

text \<open>The operations that configure, start, stop and release a stream.\<close>

abbreviation (input) stream_commands ::
  "('q, 'e) kernel \<Rightarrow> u32 \<Rightarrow> (('q, 'e) VIOSND_DEVICE \<Rightarrow> (NTSTATUS \<times> ('q, 'e) VIOSND_DEVICE) option) set" where
  "stream_commands K streamId \<equiv> {ViosndStartPcm K streamId, ViosndStopPcm K streamId,
     ViosndReleasePcm K streamId, ViosndConfigureDefaultPcm K streamId, ViosndConfigureFallbackPcm K streamId}"

context virtio_snd
begin

lemma PcmCommand_ok:
  assumes "dev_inv inv inflight E P dev" "ctl_rest inflight dev"
  obtains status dev' where "ViosndPcmCommand K streamId command dev = Some (status, dev')"
    "ctl_step inv inflight E P dev dev'"
proof -
  let ?r = "bytes_of_PCM_HDR \<lparr>ph_code = command, ph_stream_id = streamId\<rparr>"
  have "sizeof_HDR \<le> length ?r" "length ?r < 2 ^ 32" by simp_all
  from ControlStatusCommandEx_ok [OF assms this] show thesis
    using that by (auto simp: ViosndPcmCommand_def ViosndControlStatusCommand_def)
qed

lemma ConfigurePcmFormat_ok:
  assumes "dev_inv inv inflight E P dev" "ctl_rest inflight dev"
  obtains status dev' where "ViosndConfigurePcmFormat K streamId format dev = Some (status, dev')"
    "ctl_step inv inflight E P dev dev'"
proof -
  let ?r = "bytes_of_SET_PARAMS (ViosndBuildSetParams streamId format)"
  let ?p = "bytes_of_PCM_HDR \<lparr>ph_code = VIRTIO_SND_R_PCM_PREPARE, ph_stream_id = streamId\<rparr>"
  have l: "sizeof_HDR \<le> length ?r" "length ?r < 2 ^ 32" "sizeof_HDR \<le> length ?p" "length ?p < 2 ^ 32"
    by simp_all
  obtain st c d1 where 1: "ViosndControlStatusCommandEx K ?r dev = Some (st, c, d1)" "ctl_step inv inflight E P dev d1"
    using ControlStatusCommandEx_ok [OF assms l(1,2)] by blast
  obtain st2 c2 d2 where 2: "ViosndControlStatusCommandEx K ?p d1 = Some (st2, c2, d2)" "ctl_step inv inflight E P d1 d2"
    using ControlStatusCommandEx_ok [OF ctl_stepD(1,2) [OF 1(2)] l(3,4)] by blast
  show thesis
  proof (cases "NT_SUCCESS st")
    case True
    then have "ViosndConfigurePcmFormat K streamId format dev = Some (st2, d2)"
      by (simp add: ViosndConfigurePcmFormat_def ViosndControlStatusCommand_def 1(1) 2(1))
    then show thesis using that ctl_step_trans [OF 1(2) 2(2)] by blast
  next
    case False
    then have "ViosndConfigurePcmFormat K streamId format dev = Some (st, d1)"
      by (simp add: ViosndConfigurePcmFormat_def ViosndControlStatusCommand_def 1(1))
    then show thesis using that 1(2) by blast
  qed
qed

lemma stream_command_ok:
  assumes "f \<in> stream_commands K streamId" "dev_inv inv inflight E P dev" "ctl_rest inflight dev"
  obtains status dev' where "f dev = Some (status, dev')" "ctl_step inv inflight E P dev dev'"
proof -
  have "\<exists>c. f = ViosndPcmCommand K streamId c" if "f \<notin> {ViosndConfigureDefaultPcm K streamId, ViosndConfigureFallbackPcm K streamId}"
    using assms(1) that
    by (auto simp: fun_eq_iff ViosndStartPcm_def ViosndStopPcm_def ViosndReleasePcm_def)
  then consider c where "f = ViosndPcmCommand K streamId c" | fmt where "f = ViosndConfigurePcmFormat K streamId fmt"
    by (auto simp: fun_eq_iff ViosndConfigureDefaultPcm_def ViosndConfigureFallbackPcm_def)
  then show thesis
  proof cases
    case 1
    then show thesis using PcmCommand_ok [OF assms(2,3)] that by metis
  next
    case 2
    then show thesis using ConfigurePcmFormat_ok [OF assms(2,3)] that by metis
  qed
qed

end

section \<open>Querying the streams\<close>

text \<open>The ids in a stream pair are below the number of streams, and different.\<close>

definition pair_ok :: "nat \<Rightarrow> VIOSND_STREAM_PAIR \<Rightarrow> bool" where
  "pair_ok n p \<longleftrightarrow> (HasRender p \<longrightarrow> unat (RenderStreamId p) < n) \<and>
     (HasCapture p \<longrightarrow> unat (CaptureStreamId p) < n) \<and>
     (HasRender p \<and> HasCapture p \<longrightarrow> RenderStreamId p \<noteq> CaptureStreamId p)"

lemma FindStreamPair_ok:
  assumes "length infos \<le> 0xFFFFFFFF" "ViosndFindStreamPair infos = (status, p)"
  shows "pair_ok (length infos) p" "status = STATUS_SUCCESS \<and> (HasRender p \<or> HasCapture p) \<or>
    status = STATUS_NOT_FOUND \<and> \<not> HasRender p \<and> \<not> HasCapture p"
proof -
  obtain r c where s: "stream_pair_spec infos = (r, c)" by force
  note b = stream_pair_spec_bounds [OF s]
  have eq: "p = pair_of r c" "status = (if r \<noteq> None \<or> c \<noteq> None then STATUS_SUCCESS else STATUS_NOT_FOUND)"
    using FindStreamPair_eq [OF assms(1) s] assms(2) by simp_all
  have u: "unat (word_of_nat i :: u32) = i" if "i < length infos" for i
    using that assms(1) by (simp add: unat_of_nat)
  have ne: "word_of_nat i \<noteq> (word_of_nat j :: u32)" if "r = Some i" "c = Some j" for i j
    using b(1) [OF that(1)] b(2) [OF that(2)] b(3) [OF that] assms(1)
    by (subst word_of_nat_eq_iff32) simp_all
  show "pair_ok (length infos) p"
    unfolding eq pair_of_def pair_ok_def by (cases r; cases c) (simp_all add: u b ne)
  show "status = STATUS_SUCCESS \<and> (HasRender p \<or> HasCapture p) \<or>
    status = STATUS_NOT_FOUND \<and> \<not> HasRender p \<and> \<not> HasCapture p"
    unfolding eq pair_of_def by (cases r; cases c) simp_all
qed

lemma length_pcm_infos [simp]: "length (pcm_infos_of_bytes n bs) = n"
  by (induction n arbitrary: bs) simp_all

text \<open>What the query returns; \<open>None\<close> for the pair: it was not written.\<close>

definition query_outcome :: "nat \<Rightarrow> NTSTATUS \<Rightarrow> VIOSND_STREAM_PAIR option \<Rightarrow> bool" where
  "query_outcome n status pair \<longleftrightarrow>
     status \<in> insert STATUS_NOT_SUPPORTED command_failures \<and> pair = None \<or>
     (\<exists>p. pair = Some p \<and> pair_ok n p \<and>
        (status = STATUS_SUCCESS \<and> (HasRender p \<or> HasCapture p) \<or>
         status = STATUS_NOT_FOUND \<and> \<not> HasRender p \<and> \<not> HasCapture p))"

context virtio_snd
begin

lemma query_attempts_ok:
  assumes "dev_inv inv inflight E P dev" "ctl_rest inflight dev" "sizeof_HDR \<le> length query" "length query < 2 ^ 32"
    "n + attempt = VIOSND_PCM_INFO_RETRY_COUNT" "0 < n"
    "unat responseLength = sizeof_HDR + cnt * sizeof_PCM_INFO" "cnt \<le> 64"
  shows "\<exists>status pair dev'. query_attempts K query cnt responseLength n attempt dev = Some (status, pair, dev') \<and>
    ctl_step inv inflight E P dev dev' \<and> query_outcome cnt status pair"
  using assms
proof (induction n arbitrary: attempt dev)
  case (Suc n)
  show ?case using Suc.prems(1-4)
  proof (cases rule: command_step [where len = responseLength])
    case (failed status dev')
    then have "query_attempts K query cnt responseLength (Suc n) attempt dev = Some (status, None, dev')"
      using command_failures_fail [OF failed(2)] by simp
    then show ?thesis using failed(2,3) by (auto simp: query_outcome_def)
  next
    case (ok bs d1)
    have ns: "NT_SUCCESS STATUS_SUCCESS" by (simp add: NT_SUCCESS_def)
    have l: "length bs = sizeof_HDR + cnt * sizeof_PCM_INFO" using ok(2) Suc.prems(7) by simp
    have h: "read_bytes 0 sizeof_HDR bs = Some (take sizeof_HDR bs)"
      and b: "read_bytes sizeof_HDR (cnt * sizeof_PCM_INFO) bs = Some (drop sizeof_HDR bs)"
      using l by (simp_all add: read_bytes_def)
    let ?code = "le_word32 (take sizeof_HDR bs)" and ?infos = "pcm_infos_of_bytes cnt (drop sizeof_HDR bs)"
    let ?d = "KeDelay K d1"
    note step = KeDelay_step [OF ok(3)]
    let ?again = "(?code = 0 \<or> ?code = VIRTIO_SND_S_OK \<and> ViosndPcmInfoLooksEmpty ?infos) \<and>
       attempt + 1 < VIOSND_PCM_INFO_RETRY_COUNT"
    have eq: "query_attempts K query cnt responseLength (Suc n) attempt dev =
       (if ?again then query_attempts K query cnt responseLength n (attempt + 1) ?d
        else if ?code = VIRTIO_SND_S_OK
        then let (status, pair) = ViosndFindStreamPair ?infos in Some (status, Some pair, d1)
        else Some (STATUS_NOT_SUPPORTED, None, d1))"
      unfolding query_attempts.simps ok(1) bind.bind_lunit prod.case
      by (simp only: ns not_True_eq_False if_False option.case Let_def h b bind.bind_lunit)
    show ?thesis
    proof (cases ?again)
      case True
      have "\<exists>status pair dev'. query_attempts K query cnt responseLength n (attempt + 1) ?d = Some (status, pair, dev') \<and>
          ctl_step inv inflight E P ?d dev' \<and> query_outcome cnt status pair"
        by (rule Suc.IH) (use True Suc.prems ctl_stepD [OF step] in auto)
      then show ?thesis unfolding eq if_P [OF True] using ctl_step_trans [OF step] by blast
    next
      case False
      obtain status p where f: "ViosndFindStreamPair ?infos = (status, p)" by force
      have "length ?infos \<le> 0xFFFFFFFF" using Suc.prems(8) by simp
      note F = FindStreamPair_ok [OF this f]
      have "query_outcome cnt status (Some p)" using F unfolding query_outcome_def by auto
      moreover have "query_outcome cnt STATUS_NOT_SUPPORTED None" by (simp add: query_outcome_def)
      ultimately show ?thesis unfolding eq if_not_P [OF False] f Let_def prod.case using ok(3) by simp
    qed
  qed
qed simp

lemma QueryPcmStreams_ok:
  assumes d: "dev_inv inv inflight E P dev" and r: "ctl_rest inflight dev"
  shows "\<exists>status pair dev'. ViosndQueryPcmStreams K dev = Some (status, pair, dev') \<and>
    ctl_step inv inflight E P dev dev' \<and>
    (status = STATUS_NOT_FOUND \<and> pair = None \<and> cfg_streams (Config dev) = 0 \<or>
     query_outcome (min (unat (cfg_streams (Config dev))) 64) status pair)"
proof -
  let ?n = "min (cfg_streams (Config dev)) VIOSND_MAX_PCM_STREAMS"
  have n: "unat ?n = min (unat (cfg_streams (Config dev))) 64"
    by (simp add: min_def word_le_nat_alt)
  show ?thesis
  proof (cases "?n = 0")
    case True
    then have "cfg_streams (Config dev) = 0" by (simp add: min_def split: if_splits)
    then show ?thesis using ctl_step_refl [OF d r] by (simp add: ViosndQueryPcmStreams_def)
  next
    case nz: False
    let ?len = "word_of_nat sizeof_HDR + ?n * word_of_nat sizeof_PCM_INFO :: u32"
    have len: "unat ?len = sizeof_HDR + min (unat (cfg_streams (Config dev))) 64 * sizeof_PCM_INFO"
    proof -
      have "unat (?n * 32) = min (unat (cfg_streams (Config dev))) 64 * 32"
        unfolding unat_word_ariths n by simp
      then show ?thesis by (simp add: unat_word_ariths(1))
    qed
    obtain p d1 where a: "pool_alloc K dev (unat ?len) = (p, d1)" by force
    note p1 = dev_inv_pool_alloc [OF alloc d a]
    have f1: "drv d1 = drv dev" "Queues d1 = Queues dev" "mutex_count d1 = mutex_count dev" using p1 by simp_all
    note fr = ctl_frame_drv [OF f1] and rest = ctl_rest_drv [OF f1(1,2) r]
    show ?thesis
    proof (cases "p = 0")
      case True
      then have "ViosndQueryPcmStreams K dev = Some (STATUS_INSUFFICIENT_RESOURCES, None, d1)"
        unfolding ViosndQueryPcmStreams_def Let_def if_not_P [OF nz] a prod.case by simp
      then show ?thesis using p1 True fr rest by (simp add: ctl_step_def query_outcome_def)
    next
      case False
      let ?q = "bytes_of_QUERY_INFO \<lparr>qi_code = VIRTIO_SND_R_PCM_INFO, qi_start_id = 0,
                  qi_count = ?n, qi_size = word_of_nat sizeof_PCM_INFO\<rparr>"
      have i1: "dev_inv inv inflight E (insert p P) d1" using p1 False by simp
      obtain status pair d2 where 2: "query_attempts K ?q (unat ?n) ?len VIOSND_PCM_INFO_RETRY_COUNT 0 d1 = Some (status, pair, d2)"
        "ctl_step inv inflight E (insert p P) d1 d2" "query_outcome (unat ?n) status pair"
        using query_attempts_ok [OF i1 rest, of ?q VIOSND_PCM_INFO_RETRY_COUNT 0 ?len "unat ?n"] len n by auto
      obtain d3 where 3: "ExFreePool d2 p = Some d3" "dev_inv inv inflight E (insert p P - {p}) d3"
        "drv d3 = drv d2" "Queues d3 = Queues d2" "mutex_count d3 = mutex_count d2"
        using ExFreePool_inv [OF ctl_stepD(1) [OF 2(2)], of p] by auto
      have P: "insert p P - {p} = P" using p1 by simp
      have "ViosndQueryPcmStreams K dev = Some (status, pair, d3)"
        unfolding ViosndQueryPcmStreams_def Let_def if_not_P [OF nz] a prod.case if_not_P [OF False]
          2(1) bind.bind_lunit 3(1) by simp
      moreover have "ctl_step inv inflight E P dev d3"
        unfolding ctl_step_def
        using 3(2) [unfolded P] ctl_rest_drv [OF 3(3,4) ctl_stepD(2) [OF 2(2)]]
          ctl_frame_trans [OF ctl_frame_trans [OF fr ctl_stepD(3) [OF 2(2)]] ctl_frame_drv [OF 3(3-5)]] by blast
      ultimately show ?thesis using 2(3) n by auto
    qed
  qed
qed

end

section \<open>Events\<close>

lemma waited_queues: "waited inflight dev dev' \<Longrightarrow> (Queues dev' i = None) = (Queues dev i = None)"
  by (simp add: waited_def)

context virtio_snd
begin

text \<open>A collected event buffer always finds room when it is posted again.\<close>

lemma repost_event_ok:
  assumes d: "dev_inv inv inflight E P dev" and q: "Queues dev VIRTIO_SND_VQ_EVENT = Some q"
    and x: "token_ok dev VIRTIO_SND_VQ_EVENT (OEvent i)" "OEvent i \<notin># inflight q" "0 < room q"
  obtains dev' where "ViosndPostEventBufferLocked K i dev = Some (STATUS_SUCCESS, dev')"
    "dev_inv inv inflight E P dev'" "drv dev' = drv dev" "mutex_count dev' = mutex_count dev"
    "\<And>v. map_option length (dma dev' v) = map_option length (dma dev v)"
    "flight inflight dev' = (flight inflight dev)(VIRTIO_SND_VQ_EVENT := add_mset (OEvent i) (inflight q))"
    "\<And>j. (Queues dev' j = None) = (Queues dev j = None)"
proof -
  let ?b = "EventBuffers dev ! i"
  have i: "i < length (EventBuffers dev)" "EventVa ?b \<noteq> 0" using x(1) by (simp_all add: token_ok_def)
  have o: "own_inv E P dev" using d by (simp add: dev_inv_def)
  have "EventVa ?b \<in> bufs dev (OEvent i)" using i by (simp add: bufs_def)
  then have va: "dma dev (EventVa ?b) \<noteq> None" using own_inv_bufsD [OF o] by blast
  have "0 + length (replicate sizeof_EVENT (0 :: u8)) \<le> buf_len dev (EventVa ?b)"
    using o i nth_mem [OF i(1)] unfolding own_inv_def by fastforce
  from dma_access(2) [OF d this va] obtain d1 where w: "dma_write dev (EventVa ?b) 0 (replicate sizeof_EVENT 0) = Some d1"
    "dev_inv inv inflight E P d1" "drv d1 = drv dev" "Queues d1 = Queues dev" "mutex_count d1 = mutex_count dev"
    "\<forall>w. map_option length (dma d1 w) = map_option length (dma dev w)" by blast
  have q1: "Queues d1 VIRTIO_SND_VQ_EVENT = Some q" using w(4) q by simp
  have t1: "token_ok d1 VIRTIO_SND_VQ_EVENT (OEvent i)" using x(1) token_ok_cong [OF w(3)] by simp
  have fl1: "flight inflight d1 = flight inflight dev" by (rule ext) (simp add: flight_def w(4))
  let ?sg = "[\<lparr>sg_addr = EventPa ?b, sg_length = word_of_nat sizeof_EVENT\<rparr>]"
  have sg: "?sg \<noteq> []" "0 + 1 = length ?sg" by simp_all
  show thesis using w(2) q1 sg t1 x(2)
  proof (cases rule: vq_add_ok)
    case full
    then show ?thesis using x(3) by simp
  next
    case (added q')
    have p: "ViosndPostEventBufferLocked K i dev = Some (STATUS_SUCCESS, set_queue VIRTIO_SND_VQ_EVENT q' d1)"
      using i q w(1) added(2) by (simp add: ViosndPostEventBufferLocked_def read_at_def)
    show ?thesis
      by (rule that [OF p added(3)])
        (use w fl1 added(4) q in \<open>simp_all add: flight_set_queue\<close>)
  qed
qed

lemma poll_events_ok:
  "dev_inv inv inflight E P dev \<Longrightarrow> Queues dev VIRTIO_SND_VQ_EVENT \<noteq> None \<Longrightarrow>
   \<exists>dev'. poll_events K n dev = Some dev' \<and> dev_inv inv inflight E P dev' \<and> waited inflight dev dev'"
proof (induction n arbitrary: dev)
  case (Suc n)
  obtain q where q: "Queues dev VIRTIO_SND_VQ_EVENT = Some q" using Suc.prems(2) by blast
  show ?case using Suc.prems(1) q
  proof (cases rule: vq_get_ok)
    case empty
    then show ?thesis using Suc.prems(1) by simp
  next
    case (used x len q')
    obtain i where x: "x = OEvent i" using used(6) by (cases x) (auto simp: token_ok_def split: option.splits)
    let ?d1 = "set_queue VIRTIO_SND_VQ_EVENT q' dev"
    have dd: "drv ?d1 = drv dev" by simp
    have t1: "token_ok ?d1 VIRTIO_SND_VQ_EVENT (OEvent i)" using used(6) x token_ok_cong [OF dd] by simp
    have i: "i < length (EventBuffers ?d1)" "EventVa (EventBuffers ?d1 ! i) \<noteq> 0" using t1 by (simp_all add: token_ok_def)
    let ?b = "EventBuffers ?d1 ! i"
    have o: "own_inv E P ?d1" using used(3) by (simp add: dev_inv_def)
    have "EventVa ?b \<in> bufs ?d1 (OEvent i)" using i by (simp add: bufs_def)
    then have va: "dma ?d1 (EventVa ?b) \<noteq> None" using own_inv_bufsD [OF o] by blast
    have "0 + sizeof_EVENT \<le> buf_len ?d1 (EventVa ?b)" using o i nth_mem [OF i(1)] unfolding own_inv_def by fastforce
    from dma_access(1) [OF used(3) this va] obtain bs where rd: "dma_read ?d1 (EventVa ?b) 0 sizeof_EVENT = Some bs" by blast
    have q1: "Queues ?d1 VIRTIO_SND_VQ_EVENT = Some q'" by simp
    have nin: "OEvent i \<notin># inflight q'" "0 < room q'" using used(5,8) x by simp_all
    obtain d2 where d2: "ViosndPostEventBufferLocked K i ?d1 = Some (STATUS_SUCCESS, d2)"
      "dev_inv inv inflight E P d2" "drv d2 = drv ?d1" "mutex_count d2 = mutex_count ?d1"
      "\<And>v. map_option length (dma d2 v) = map_option length (dma ?d1 v)"
      "flight inflight d2 = (flight inflight ?d1)(VIRTIO_SND_VQ_EVENT := add_mset (OEvent i) (inflight q'))"
      "\<And>j. (Queues d2 j = None) = (Queues ?d1 j = None)"
      by (rule repost_event_ok [OF used(3) q1 t1 nin]) (rule that; assumption)
    have w2: "waited inflight dev d2"
    proof -
      have "inflight q = add_mset (OEvent i) (inflight q')" using used(4) x by simp
      then have "flight inflight d2 = flight inflight dev"
        using d2(6) q by (auto simp: flight_set_queue flight_def fun_eq_iff)
      moreover have "(Queues d2 j = None) = (Queues dev j = None)" for j using d2(7) q by simp
      ultimately show ?thesis unfolding waited_def using d2(3-5) by simp
    qed
    have Q2: "Queues d2 VIRTIO_SND_VQ_EVENT \<noteq> None" using d2(7) by simp
    obtain d3 where d3: "vq_kick K VIRTIO_SND_VQ_EVENT d2 = Some d3" "dev_inv inv inflight E P d3" "waited inflight d2 d3"
      using kick_waited [OF d2(2) Q2] by metis
    have Q3: "Queues d3 VIRTIO_SND_VQ_EVENT \<noteq> None" using waited_queues [OF d3(3)] Q2 by simp
    obtain d4 where d4: "poll_events K n d3 = Some d4" "dev_inv inv inflight E P d4" "waited inflight d3 d4"
      using Suc.IH [OF d3(2) Q3] by blast
    have rb: "read_at (EventBuffers ?d1) i = Some ?b" using i by (simp add: read_at_def)
    have "poll_events K (Suc n) dev = Some d4"
      unfolding poll_events.simps used(2) x bind.bind_lunit prod.case option.case opaque.case rb
      using rd d2(1) d3(1) d4(1) by (simp add: NT_SUCCESS_def)
    then show ?thesis using d4(2) waited_trans [OF w2 waited_trans [OF d3(3) d4(3)]] by blast
  qed
qed auto

lemma PollEvents_ok:
  assumes "dev_inv inv inflight E P dev"
  obtains dev' where "ViosndPollEvents K dev = Some dev'" "dev_inv inv inflight E P dev'" "waited inflight dev dev'"
proof (cases "Queues dev VIRTIO_SND_VQ_EVENT = None")
  case True
  then have "ViosndPollEvents K dev = Some dev" by (simp add: ViosndPollEvents_def)
  then show thesis using assms by (rule that) simp
next
  case False
  let ?d0 = "KeAcquireMutex VIRTIO_SND_VQ_EVENT dev"
  have "dev_inv inv inflight E P ?d0" "Queues ?d0 VIRTIO_SND_VQ_EVENT \<noteq> None" using assms False by simp_all
  then obtain d1 where d1: "poll_events K VIOSND_EVENT_POLL_BUDGET ?d0 = Some d1" "dev_inv inv inflight E P d1"
    "waited inflight ?d0 d1" using poll_events_ok by blast
  let ?d2 = "d1\<lparr>mutex_count := mutex_count dev\<rparr>"
  have "KeReleaseMutex VIRTIO_SND_VQ_EVENT d1 = Some ?d2"
    by (rule KeReleaseMutex_ok) (use d1(3) in \<open>simp add: waited_def\<close>)
  then have "ViosndPollEvents K dev = Some ?d2" unfolding ViosndPollEvents_def if_not_P [OF False] Let_def d1(1) bind.bind_lunit .
  moreover have "waited inflight dev ?d2" using d1(3) by (simp add: waited_def)
  ultimately show thesis using d1(2) that by simp
qed

end

section \<open>Properties\<close>









end
