(* ===== verification/Snd_Transfer.thy ===== *)
theory Snd_Transfer
  imports Snd_Commands
begin

text \<open>
  PCM data transfer of \<open>viosnd/sys/ViosndVirtio.cpp\<close>: allocation and release of the transfer
  descriptors \<open>VIOSND_PCM_IO\<close>, submission to and completion from the TX and RX queues, detaching
  unused buffers, and the synchronous \<open>ViosndWritePcm\<close> and \<open>ViosndReadPcm\<close>.
  A token that is no \<open>VIOSND_PCM_IO\<close> pointer where the code casts to one is \<open>None\<close>.
\<close>

section \<open>Transfer descriptors\<close>

definition zero_io :: VIOSND_PCM_IO where
  "zero_io = \<lparr>RequestVa = 0, RequestPa = 0, RequestLength = 0, AudioVa = 0, AudioPa = 0,
     MaxAudioLength = 0, StatusVa = 0, StatusPa = 0, AudioLength = 0, SourceLength = 0,
     PacketNumber = 0, StreamId = 0\<rparr>"

definition ViosndAllocateWritePcmIo ::
  "('q, 'e) kernel \<Rightarrow> u32 \<Rightarrow> ('q, 'e) VIOSND_DEVICE \<Rightarrow> (NTSTATUS \<times> ptr \<times> ('q, 'e) VIOSND_DEVICE) option" where
  "ViosndAllocateWritePcmIo K maxAudioLength dev =
     (let (io, dev) = pool_alloc K dev 88
      in if io = 0 then Some (STATUS_INSUFFICIENT_RESOURCES, 0, dev)
         else do {
           let requestLength = word_of_nat sizeof_PCM_XFER + maxAudioLength;
           ((reqVa, reqPa), dev) \<leftarrow> ViosndAllocControlBuffer K dev requestLength;
           ((stVa, stPa), dev) \<leftarrow> ViosndAllocControlBuffer K dev (word_of_nat sizeof_PCM_STATUS);
           if reqVa = 0 \<or> stVa = 0 then do {
             dev \<leftarrow> ViosndFreeControlBuffer dev reqVa;
             dev \<leftarrow> ViosndFreeControlBuffer dev stVa;
             dev \<leftarrow> ExFreePool dev io;
             Some (STATUS_INSUFFICIENT_RESOURCES, 0, dev)
           } else
             Some (STATUS_SUCCESS, io, dev\<lparr>ios := (ios dev)(io \<mapsto> zero_io
               \<lparr>RequestVa := reqVa, RequestPa := reqPa, RequestLength := requestLength,
                StatusVa := stVa, StatusPa := stPa\<rparr>)\<rparr>)
         })"

definition ViosndFreeWritePcmIo ::
  "('q, 'e) VIOSND_DEVICE \<Rightarrow> ptr \<Rightarrow> ('q, 'e) VIOSND_DEVICE option" where
  "ViosndFreeWritePcmIo dev io =
     (if io = 0 then Some dev
      else do {
        x \<leftarrow> ios dev io;
        dev \<leftarrow> ViosndFreeControlBuffer dev (RequestVa x);
        dev \<leftarrow> ViosndFreeControlBuffer dev (StatusVa x);
        dev \<leftarrow> ExFreePool dev io;
        Some (dev\<lparr>ios := (ios dev)(io := None)\<rparr>)
      })"

definition ViosndAllocateReadPcmIo ::
  "('q, 'e) kernel \<Rightarrow> u32 \<Rightarrow> ('q, 'e) VIOSND_DEVICE \<Rightarrow> (NTSTATUS \<times> ptr \<times> ('q, 'e) VIOSND_DEVICE) option" where
  "ViosndAllocateReadPcmIo K maxAudioLength dev =
     (let (io, dev) = pool_alloc K dev 88
      in if io = 0 then Some (STATUS_INSUFFICIENT_RESOURCES, 0, dev)
         else do {
           let requestLength = word_of_nat sizeof_PCM_XFER;
           ((reqVa, reqPa), dev) \<leftarrow> ViosndAllocControlBuffer K dev requestLength;
           ((auVa, auPa), dev) \<leftarrow>
             ViosndAllocControlBuffer K dev (maxAudioLength + word_of_nat sizeof_PCM_STATUS);
           if reqVa = 0 \<or> auVa = 0 then do {
             dev \<leftarrow> ViosndFreeControlBuffer dev reqVa;
             dev \<leftarrow> ViosndFreeControlBuffer dev auVa;
             dev \<leftarrow> ExFreePool dev io;
             Some (STATUS_INSUFFICIENT_RESOURCES, 0, dev)
           } else
             Some (STATUS_SUCCESS, io, dev\<lparr>ios := (ios dev)(io \<mapsto> zero_io
               \<lparr>RequestVa := reqVa, RequestPa := reqPa, RequestLength := requestLength,
                AudioVa := auVa, AudioPa := auPa, MaxAudioLength := maxAudioLength\<rparr>)\<rparr>)
         })"

definition ViosndFreeReadPcmIo ::
  "('q, 'e) VIOSND_DEVICE \<Rightarrow> ptr \<Rightarrow> ('q, 'e) VIOSND_DEVICE option" where
  "ViosndFreeReadPcmIo dev io =
     (if io = 0 then Some dev
      else do {
        x \<leftarrow> ios dev io;
        dev \<leftarrow> ViosndFreeControlBuffer dev (RequestVa x);
        dev \<leftarrow> ViosndFreeControlBuffer dev (AudioVa x);
        dev \<leftarrow> ExFreePool dev io;
        Some (dev\<lparr>ios := (ios dev)(io := None)\<rparr>)
      })"

text \<open>An address with an offset into its buffer; 0 is NULL.\<close>

definition ViosndGetPcmIoAudioBuffer :: "('q, 'e) VIOSND_DEVICE \<Rightarrow> ptr \<Rightarrow> (ptr \<times> nat) option" where
  "ViosndGetPcmIoAudioBuffer dev io =
     (if io = 0 then Some (0, 0)
      else do {
        x \<leftarrow> ios dev io;
        Some (if AudioVa x \<noteq> 0 then (AudioVa x, 0) else (RequestVa x, sizeof_PCM_XFER))
      })"

definition ViosndGetPcmIoPacketNumber :: "('q, 'e) VIOSND_DEVICE \<Rightarrow> ptr \<Rightarrow> u32 option" where
  "ViosndGetPcmIoPacketNumber dev io =
     (if io = 0 then Some 0 else map_option PacketNumber (ios dev io))"

definition ViosndGetPcmIoSourceLength :: "('q, 'e) VIOSND_DEVICE \<Rightarrow> ptr \<Rightarrow> u32 option" where
  "ViosndGetPcmIoSourceLength dev io =
     (if io = 0 then Some 0 else map_option SourceLength (ios dev io))"

section \<open>Playback\<close>

text \<open>\<open>Length\<close> is the length of the byte list \<open>buffer\<close>.\<close>

definition ViosndSubmitPreparedWritePcm ::
  "('q, 'e) kernel \<Rightarrow> u32 \<Rightarrow> u8 list \<Rightarrow> u32 \<Rightarrow> u32 \<Rightarrow> ptr \<Rightarrow> ('q, 'e) VIOSND_DEVICE \<Rightarrow>
   (NTSTATUS \<times> ('q, 'e) VIOSND_DEVICE) option" where
  "ViosndSubmitPreparedWritePcm K streamId buffer sourceLength packetNumber io dev =
     (let len = word_of_nat (length buffer) :: u32
      in if Queues dev VIRTIO_SND_VQ_TX = None then Some (STATUS_DEVICE_NOT_READY, dev)
      else if io = 0 then Some (STATUS_INVALID_PARAMETER, dev)
      else do {
        x \<leftarrow> ios dev io;
        if RequestVa x = 0 \<or> StatusVa x = 0 \<or>
           unat (RequestLength x) < sizeof_PCM_XFER + unat len
        then Some (STATUS_INVALID_PARAMETER, dev)
        else do {
          let requestLength = word_of_nat sizeof_PCM_XFER + len;
          dev \<leftarrow> dma_write dev (StatusVa x) 0 (replicate sizeof_PCM_STATUS 0);
          dev \<leftarrow> dma_write dev (RequestVa x) 0 (le_bytes32 streamId);
          dev \<leftarrow> dma_write dev (RequestVa x) sizeof_PCM_XFER buffer;
          let x = x\<lparr>AudioLength := len,
                    SourceLength := (if sourceLength \<noteq> 0 then sourceLength else len),
                    PacketNumber := packetNumber, StreamId := streamId\<rparr>;
          let dev = dev\<lparr>ios := (ios dev)(io \<mapsto> x)\<rparr>;
          let (status, dev) = ViosndAcquireTxQueue K dev;
          if \<not> NT_SUCCESS status then Some (status, dev)
          else do {
            (r, dev) \<leftarrow> vq_add_buf K VIRTIO_SND_VQ_TX
              [\<lparr>sg_addr = RequestPa x, sg_length = requestLength\<rparr>,
               \<lparr>sg_addr = StatusPa x, sg_length = word_of_nat sizeof_PCM_STATUS\<rparr>] 1 1 (OIo io) dev;
            if r < 0 then do {
              dev \<leftarrow> KeReleaseMutex VIRTIO_SND_VQ_TX dev;
              Some (STATUS_DEVICE_BUSY, dev)
            } else do {
              dev \<leftarrow> ViosndKickPcmQueue K VIRTIO_SND_VQ_TX dev;
              dev \<leftarrow> KeReleaseMutex VIRTIO_SND_VQ_TX dev;
              Some (STATUS_SUCCESS, dev)
            }
          }
        }
      })"

definition ViosndSubmitWritePcm ::
  "('q, 'e) kernel \<Rightarrow> u32 \<Rightarrow> u8 list \<Rightarrow> ('q, 'e) VIOSND_DEVICE \<Rightarrow>
   (NTSTATUS \<times> ('q, 'e) VIOSND_DEVICE) option" where
  "ViosndSubmitWritePcm K streamId buffer dev = do {
     let len = word_of_nat (length buffer);
     (status, io, dev) \<leftarrow> ViosndAllocateWritePcmIo K len dev;
     if \<not> NT_SUCCESS status then Some (status, dev)
     else do {
       (status, dev) \<leftarrow> ViosndSubmitPreparedWritePcm K streamId buffer len 0 io dev;
       dev \<leftarrow> (if \<not> NT_SUCCESS status then ViosndFreeWritePcmIo dev io else Some dev);
       Some (status, dev)
     }
   }"

text \<open>The results are the status, \<open>*Io\<close>, \<open>*BytesWritten\<close> and \<open>*LatencyBytes\<close>.\<close>

definition ViosndReclaimPreparedWritePcm ::
  "('q, 'e) kernel \<Rightarrow> ('q, 'e) VIOSND_DEVICE \<Rightarrow>
   (NTSTATUS \<times> ptr \<times> u32 \<times> u32 \<times> ('q, 'e) VIOSND_DEVICE) option" where
  "ViosndReclaimPreparedWritePcm K dev =
     (if Queues dev VIRTIO_SND_VQ_TX = None then Some (STATUS_DEVICE_NOT_READY, 0, 0, 0, dev)
      else
        let (status, dev) = ViosndAcquireTxQueue K dev
        in if \<not> NT_SUCCESS status then Some (status, 0, 0, 0, dev)
        else do {
          (used, dev) \<leftarrow> vq_get_buf K VIRTIO_SND_VQ_TX dev;
          dev \<leftarrow> KeReleaseMutex VIRTIO_SND_VQ_TX dev;
          case used of
            None \<Rightarrow> Some (STATUS_NOT_FOUND, 0, 0, 0, dev)
          | Some (OIo io, usedLength) \<Rightarrow> do {
              x \<leftarrow> ios dev io;
              bytes \<leftarrow> dma_read dev (StatusVa x) 0 sizeof_PCM_STATUS;
              Some (STATUS_SUCCESS, io, AudioLength x,
                    ps_latency_bytes (pcm_status_of_bytes bytes), dev)
            }
          | _ \<Rightarrow> None
        })"

definition ViosndReclaimWritePcm ::
  "('q, 'e) kernel \<Rightarrow> ('q, 'e) VIOSND_DEVICE \<Rightarrow> (NTSTATUS \<times> u32 \<times> ('q, 'e) VIOSND_DEVICE) option" where
  "ViosndReclaimWritePcm K dev = do {
     (status, io, bytesWritten, _, dev) \<leftarrow> ViosndReclaimPreparedWritePcm K dev;
     dev \<leftarrow> (if status \<noteq> STATUS_NOT_FOUND then ViosndFreeWritePcmIo dev io else Some dev);
     Some (status, bytesWritten, dev)
   }"

definition ViosndDetachUnusedWritePcm ::
  "('q, 'e) kernel \<Rightarrow> ('q, 'e) VIOSND_DEVICE \<Rightarrow> (NTSTATUS \<times> ptr \<times> ('q, 'e) VIOSND_DEVICE) option" where
  "ViosndDetachUnusedWritePcm K dev =
     (if Queues dev VIRTIO_SND_VQ_TX = None then Some (STATUS_DEVICE_NOT_READY, 0, dev)
      else
        let (status, dev) = ViosndAcquireTxQueue K dev
        in if \<not> NT_SUCCESS status then Some (status, 0, dev)
        else do {
          (x, dev) \<leftarrow> vq_detach K VIRTIO_SND_VQ_TX dev;
          dev \<leftarrow> KeReleaseMutex VIRTIO_SND_VQ_TX dev;
          case x of
            None \<Rightarrow> Some (STATUS_NOT_FOUND, 0, dev)
          | Some (OIo io) \<Rightarrow> Some (STATUS_SUCCESS, io, dev)
          | _ \<Rightarrow> None
        })"

section \<open>Capture\<close>

definition ViosndSubmitPreparedReadPcm ::
  "('q, 'e) kernel \<Rightarrow> u32 \<Rightarrow> u32 \<Rightarrow> u32 \<Rightarrow> ptr \<Rightarrow> ('q, 'e) VIOSND_DEVICE \<Rightarrow>
   (NTSTATUS \<times> ('q, 'e) VIOSND_DEVICE) option" where
  "ViosndSubmitPreparedReadPcm K streamId len packetNumber io dev =
     (if Queues dev VIRTIO_SND_VQ_RX = None then Some (STATUS_DEVICE_NOT_READY, dev)
      else if io = 0 then Some (STATUS_INVALID_PARAMETER, dev)
      else do {
        x \<leftarrow> ios dev io;
        if RequestVa x = 0 \<or> AudioVa x = 0 \<or> MaxAudioLength x < len
        then Some (STATUS_INVALID_PARAMETER, dev)
        else do {
          dev \<leftarrow> dma_write dev (AudioVa x) 0 (replicate (unat len + sizeof_PCM_STATUS) 0);
          dev \<leftarrow> dma_write dev (RequestVa x) 0 (le_bytes32 streamId);
          let x = x\<lparr>StreamId := streamId, AudioLength := len, PacketNumber := packetNumber\<rparr>;
          let dev = KeAcquireMutex VIRTIO_SND_VQ_RX (dev\<lparr>ios := (ios dev)(io \<mapsto> x)\<rparr>);
          (r, dev) \<leftarrow> vq_add_buf K VIRTIO_SND_VQ_RX
            [\<lparr>sg_addr = RequestPa x, sg_length = word_of_nat sizeof_PCM_XFER\<rparr>,
             \<lparr>sg_addr = AudioPa x, sg_length = len + word_of_nat sizeof_PCM_STATUS\<rparr>] 1 1 (OIo io) dev;
          if r < 0 then do {
            dev \<leftarrow> KeReleaseMutex VIRTIO_SND_VQ_RX dev;
            Some (STATUS_DEVICE_BUSY, dev)
          } else do {
            dev \<leftarrow> ViosndKickPcmQueue K VIRTIO_SND_VQ_RX dev;
            dev \<leftarrow> KeReleaseMutex VIRTIO_SND_VQ_RX dev;
            Some (STATUS_SUCCESS, dev)
          }
        }
      })"

text \<open>
  The status the device appends is read at \<open>usedLength - sizeof(VIRTIO_SND_PCM_STATUS)\<close>; the
  code does not compare \<open>usedLength\<close> with the size of the buffer, so a longer one reads outside
  it: \<open>None\<close>.
\<close>

definition ViosndReclaimPreparedReadPcm ::
  "('q, 'e) kernel \<Rightarrow> ('q, 'e) VIOSND_DEVICE \<Rightarrow>
   (NTSTATUS \<times> ptr \<times> u32 \<times> u32 \<times> ('q, 'e) VIOSND_DEVICE) option" where
  "ViosndReclaimPreparedReadPcm K dev =
     (if Queues dev VIRTIO_SND_VQ_RX = None then Some (STATUS_DEVICE_NOT_READY, 0, 0, 0, dev)
      else do {
        let dev = KeAcquireMutex VIRTIO_SND_VQ_RX dev;
        (used, dev) \<leftarrow> vq_get_buf K VIRTIO_SND_VQ_RX dev;
        dev \<leftarrow> KeReleaseMutex VIRTIO_SND_VQ_RX dev;
        case used of
          None \<Rightarrow> Some (STATUS_NOT_FOUND, 0, 0, 0, dev)
        | Some (OIo io, usedLength) \<Rightarrow> do {
            x \<leftarrow> ios dev io;
            if unat usedLength < sizeof_PCM_STATUS
            then Some (STATUS_IO_DEVICE_ERROR, io, 0, 0, dev)
            else do {
              bytes \<leftarrow> dma_read dev (AudioVa x) (unat usedLength - sizeof_PCM_STATUS) sizeof_PCM_STATUS;
              let st = pcm_status_of_bytes bytes;
              let status = (if ps_status st = VIRTIO_SND_S_OK then STATUS_SUCCESS
                            else STATUS_IO_DEVICE_ERROR);
              Some (status, io,
                (if NT_SUCCESS status
                 then min (AudioLength x) (usedLength - word_of_nat sizeof_PCM_STATUS) else 0),
                ps_latency_bytes st, dev)
            }
          }
        | _ \<Rightarrow> None
      })"

partial_function (option) detach_reads ::
  "('q, 'e) kernel \<Rightarrow> u32 \<Rightarrow> ('q, 'e) VIOSND_DEVICE \<Rightarrow> (u32 \<times> ('q, 'e) VIOSND_DEVICE) option" where
  "detach_reads K n dev = do {
     (x, dev) \<leftarrow> vq_detach K VIRTIO_SND_VQ_RX dev;
     case x of
       None \<Rightarrow> Some (n, dev)
     | Some y \<Rightarrow> (case y of
         OIo io \<Rightarrow> do {
           dev \<leftarrow> ViosndFreeReadPcmIo dev io;
           detach_reads K (n + 1) dev
         }
       | _ \<Rightarrow> None)
   }"

definition ViosndDetachUnusedReadPcm ::
  "('q, 'e) kernel \<Rightarrow> ('q, 'e) VIOSND_DEVICE \<Rightarrow> (u32 \<times> ('q, 'e) VIOSND_DEVICE) option" where
  "ViosndDetachUnusedReadPcm K dev =
     (if Queues dev VIRTIO_SND_VQ_RX = None then Some (0, dev)
      else do {
        let dev = KeAcquireMutex VIRTIO_SND_VQ_RX dev;
        (n, dev) \<leftarrow> detach_reads K 0 dev;
        dev \<leftarrow> KeReleaseMutex VIRTIO_SND_VQ_RX dev;
        Some (n, dev)
      })"

section \<open>Synchronous transfers\<close>

text \<open>The length of the used buffer is returned when it is the wanted one.\<close>

partial_function (option) wait_used ::
  "('q, 'e) kernel \<Rightarrow> vq_index \<Rightarrow> opaque \<Rightarrow> u32 \<Rightarrow> ('q, 'e) VIOSND_DEVICE \<Rightarrow>
   (NTSTATUS \<times> u32 \<times> ('q, 'e) VIOSND_DEVICE) option" where
  "wait_used K i opaque elapsedUs dev = do {
     (used, dev) \<leftarrow> vq_get_buf K i dev;
     if map_option fst used = Some opaque
     then Some (STATUS_SUCCESS, snd (the used), dev)
     else
       let dev = KeDelay K dev; elapsedUs = elapsedUs + VIOSND_CONTROL_POLL_DELAY_US
       in if elapsedUs < VIOSND_CONTROL_TIMEOUT_US then wait_used K i opaque elapsedUs dev
          else Some (STATUS_IO_TIMEOUT, 0, dev)
   }"

definition ViosndWaitForUsedBuffer ::
  "('q, 'e) kernel \<Rightarrow> vq_index \<Rightarrow> opaque \<Rightarrow> ('q, 'e) VIOSND_DEVICE \<Rightarrow>
   (NTSTATUS \<times> u32 \<times> ('q, 'e) VIOSND_DEVICE) option" where
  "ViosndWaitForUsedBuffer K i opaque dev = wait_used K i opaque 0 dev"

definition ViosndWritePcm ::
  "('q, 'e) kernel \<Rightarrow> u32 \<Rightarrow> u8 list \<Rightarrow> ('q, 'e) VIOSND_DEVICE \<Rightarrow>
   (NTSTATUS \<times> u32 \<times> ('q, 'e) VIOSND_DEVICE) option" where
  "ViosndWritePcm K streamId buffer dev =
     (let len = word_of_nat (length buffer) :: u32
      in if Queues dev VIRTIO_SND_VQ_TX = None then Some (STATUS_DEVICE_NOT_READY, 0, dev)
      else do {
        let requestLength = word_of_nat sizeof_PCM_XFER + len;
        ((reqVa, reqPa), dev) \<leftarrow> ViosndAllocControlBuffer K dev requestLength;
        ((stVa, stPa), dev) \<leftarrow> ViosndAllocControlBuffer K dev (word_of_nat sizeof_PCM_STATUS);
        if reqVa = 0 \<or> stVa = 0 then do {
          dev \<leftarrow> ViosndFreeControlBuffer dev reqVa;
          dev \<leftarrow> ViosndFreeControlBuffer dev stVa;
          Some (STATUS_INSUFFICIENT_RESOURCES, 0, dev)
        } else do {
          dev \<leftarrow> dma_write dev reqVa 0 (le_bytes32 streamId);
          dev \<leftarrow> dma_write dev reqVa sizeof_PCM_XFER buffer;
          (r, dev) \<leftarrow> vq_add_buf K VIRTIO_SND_VQ_TX
            [\<lparr>sg_addr = reqPa, sg_length = requestLength\<rparr>,
             \<lparr>sg_addr = stPa, sg_length = word_of_nat sizeof_PCM_STATUS\<rparr>] 1 1 (OVa reqVa) dev;
          (result, written, dev) \<leftarrow>
            (if r < 0 then Some (STATUS_DEVICE_BUSY, 0, dev)
             else do {
               dev \<leftarrow> ViosndKickPcmQueue K VIRTIO_SND_VQ_TX dev;
               (result, _, dev) \<leftarrow> ViosndWaitForUsedBuffer K VIRTIO_SND_VQ_TX (OVa reqVa) dev;
               if NT_SUCCESS result then do {
                 bytes \<leftarrow> dma_read dev stVa 0 sizeof_PCM_STATUS;
                 Some (if ps_status (pcm_status_of_bytes bytes) = VIRTIO_SND_S_OK
                       then (STATUS_SUCCESS, len, dev) else (STATUS_IO_DEVICE_ERROR, 0, dev))
               } else Some (result, 0, dev)
             });
          dev \<leftarrow> ViosndFreeControlBuffer dev reqVa;
          dev \<leftarrow> ViosndFreeControlBuffer dev stVa;
          Some (result, written, dev)
        }
      })"

text \<open>The results are the status, the bytes copied to \<open>Buffer\<close>, and \<open>*BytesRead\<close>.\<close>

definition ViosndReadPcm ::
  "('q, 'e) kernel \<Rightarrow> u32 \<Rightarrow> u32 \<Rightarrow> ('q, 'e) VIOSND_DEVICE \<Rightarrow>
   (NTSTATUS \<times> u8 list \<times> u32 \<times> ('q, 'e) VIOSND_DEVICE) option" where
  "ViosndReadPcm K streamId len dev =
     (if Queues dev VIRTIO_SND_VQ_RX = None then Some (STATUS_DEVICE_NOT_READY, [], 0, dev)
      else do {
        let responseLength = len + word_of_nat sizeof_PCM_STATUS;
        ((reqVa, reqPa), dev) \<leftarrow> ViosndAllocControlBuffer K dev (word_of_nat sizeof_PCM_XFER);
        ((respVa, respPa), dev) \<leftarrow> ViosndAllocControlBuffer K dev responseLength;
        if reqVa = 0 \<or> respVa = 0 then do {
          dev \<leftarrow> ViosndFreeControlBuffer dev reqVa;
          dev \<leftarrow> ViosndFreeControlBuffer dev respVa;
          Some (STATUS_INSUFFICIENT_RESOURCES, [], 0, dev)
        } else do {
          dev \<leftarrow> dma_write dev reqVa 0 (le_bytes32 streamId);
          (r, dev) \<leftarrow> vq_add_buf K VIRTIO_SND_VQ_RX
            [\<lparr>sg_addr = reqPa, sg_length = word_of_nat sizeof_PCM_XFER\<rparr>,
             \<lparr>sg_addr = respPa, sg_length = responseLength\<rparr>] 1 1 (OVa reqVa) dev;
          (result, out, bytesRead, dev) \<leftarrow>
            (if r < 0 then Some (STATUS_DEVICE_BUSY, [], 0, dev)
             else do {
               dev \<leftarrow> ViosndKickPcmQueue K VIRTIO_SND_VQ_RX dev;
               (result, usedLength, dev) \<leftarrow>
                 ViosndWaitForUsedBuffer K VIRTIO_SND_VQ_RX (OVa reqVa) dev;
               if \<not> NT_SUCCESS result then Some (result, [], 0, dev)
               else if unat usedLength < sizeof_PCM_STATUS \<or> responseLength < usedLength
               then Some (STATUS_IO_DEVICE_ERROR, [], 0, dev)
               else do {
                 let audioBytes = usedLength - word_of_nat sizeof_PCM_STATUS;
                 bytes \<leftarrow> dma_read dev respVa (unat audioBytes) sizeof_PCM_STATUS;
                 if ps_status (pcm_status_of_bytes bytes) = VIRTIO_SND_S_OK then do {
                   out \<leftarrow> dma_read dev respVa 0 (unat (min audioBytes len));
                   Some (STATUS_SUCCESS, out, min audioBytes len, dev)
                 } else Some (STATUS_IO_DEVICE_ERROR, [], 0, dev)
               }
             });
          dev \<leftarrow> ViosndFreeControlBuffer dev reqVa;
          dev \<leftarrow> ViosndFreeControlBuffer dev respVa;
          Some (result, out, bytesRead, dev)
        }
      })"

end
