(* ===== verification/Snd_Pcm_Io.thy ===== *)
theory Snd_Pcm_Io
  imports Snd_Transfer
begin

text \<open>
  Correctness of the PCM transfers of \<open>viosnd/sys/ViosndVirtio.cpp\<close>: what allocation, release,
  submission, completion and detaching of a transfer descriptor do to the descriptors, the DMA
  memory, the queues and the mutexes, each lemma with every outcome of the operation.
\<close>

section \<open>Stored transfer descriptors\<close>

abbreviation (input) io_bufs :: "VIOSND_PCM_IO \<Rightarrow> ptr set" where
  "io_bufs x \<equiv> {RequestVa x, if AudioVa x = 0 then StatusVa x else AudioVa x}"

lemma bufs_ios_upd:
  "bufs (dev\<lparr>ios := (ios dev)(p := xo)\<rparr>) y =
     (if y = OIo p then (case xo of None \<Rightarrow> {} | Some x \<Rightarrow> io_bufs x) else bufs dev y)"
  by (cases y) (auto simp: bufs_def split: option.splits)

lemma objects_ios_upd [simp]:
  "buf_len (dev\<lparr>ios := f\<rparr>) v = buf_len dev v" "msg_ok (dev\<lparr>ios := f\<rparr>) m = msg_ok dev m"
  "write_io_ok (dev\<lparr>ios := f\<rparr>) x = write_io_ok dev x" "read_io_ok (dev\<lparr>ios := f\<rparr>) x = read_io_ok dev x"
  "flight inflight (dev\<lparr>ios := f\<rparr>) = flight inflight dev"
  by (simp_all add: buf_len_def msg_ok_def write_io_ok_def read_io_ok_def flight_def fun_eq_iff)

lemma own_invD:
  assumes "own_inv E P dev"
  shows "bufs dev x \<subseteq> dom (dma dev) - E" "x \<noteq> y \<Longrightarrow> bufs dev x \<inter> bufs dev y = {}"
    "msgs dev p = Some m \<Longrightarrow> msg_ok dev m" "ios dev p = Some i \<Longrightarrow> write_io_ok dev i \<or> read_io_ok dev i"
    "b \<in> set (EventBuffers dev) \<Longrightarrow> EventVa b = 0 \<or> sizeof_EVENT \<le> buf_len dev (EventVa b)"
  using assms unfolding own_inv_def by blast+

lemma io_kind:
  assumes "dev_inv qinv inflight E P dev" "ios dev p = Some x"
  shows "AudioVa x = 0 \<Longrightarrow> write_io_ok dev x" "AudioVa x \<noteq> 0 \<Longrightarrow> read_io_ok dev x"
  using own_invD(4) [of E P dev p x] assms by (auto simp: dev_inv_def write_io_ok_def read_io_ok_def)

lemma store_io:
  assumes "dev_inv qinv inflight E P dev" "p \<in> P" "io_bufs x \<subseteq> E" "write_io_ok dev x \<or> read_io_ok dev x"
  shows "dev_inv qinv inflight (E - io_bufs x) (P - {p}) (dev\<lparr>ios := (ios dev)(p \<mapsto> x)\<rparr>)"
proof -
  let ?d = "dev\<lparr>ios := (ios dev)(p \<mapsto> x)\<rparr>"
  define B where "B = io_bufs x"
  have d: "mem_inv dev" "own_inv E P dev" "queue_inv qinv inflight dev" using assms by (simp_all add: dev_inv_def)
  note o = own_invD [OF d(2)]
  have p: "p \<in> set (pool dev)" "p \<notin> dom (msgs dev)" "p \<notin> dom (ios dev)" "p \<notin> Block ` set (DmaBlocks dev)"
    using own_inv_P [OF d(2)] assms(2) by auto
  have m': "mem_inv ?d" using d(1) p unfolding mem_inv_def by auto
  have b: "bufs ?d y = (if y = OIo p then B else bufs dev y)" for y by (simp add: bufs_ios_upd B_def)
  have fresh: "bufs dev y \<inter> B = {}" for y using o(1) [of y] assms(3) unfolding B_def by blast
  have o': "own_inv (E - B) (P - {p}) ?d"
    unfolding own_inv_def b
  proof (intro conjI)
    show "E - B \<subseteq> dom (dma ?d)" using own_inv_E [OF d(2)] by auto
    show "\<forall>y. (if y = OIo p then B else bufs dev y) \<subseteq> dom (dma ?d) - (E - B)"
      using o(1) own_inv_E [OF d(2)] assms(3) fresh unfolding B_def by auto
    show "\<forall>y z. y \<noteq> z \<longrightarrow> (if y = OIo p then B else bufs dev y) \<inter> (if z = OIo p then B else bufs dev z) = {}"
      using o(2) fresh by auto
    show "P - {p} \<subseteq> set (pool ?d) - dom (msgs ?d) - dom (ios ?d) - Block ` set (DmaBlocks ?d)"
      using own_inv_P [OF d(2)] by auto
  qed (use o(3-5) assms(4) in auto)
  have "token_ok ?d i y" if "token_ok dev i y" for i y
    using that p(3) by (cases y) (auto simp: token_ok_def)
  then have "queue_inv qinv inflight ?d" using d(3) unfolding queue_inv_def by auto
  then show ?thesis using m' o' by (simp add: dev_inv_def B_def)
qed

lemma unstore_io:
  assumes "dev_inv qinv inflight E P dev" "ios dev p = Some x"
    "\<And>i. OIo p \<notin># flight inflight dev i"
  shows "dev_inv qinv inflight (E \<union> io_bufs x) (insert p P) (dev\<lparr>ios := (ios dev)(p := None)\<rparr>)"
proof -
  let ?d = "dev\<lparr>ios := (ios dev)(p := None)\<rparr>"
  define B where "B = io_bufs x"
  have d: "mem_inv dev" "own_inv E P dev" "queue_inv qinv inflight dev" using assms by (simp_all add: dev_inv_def)
  note o = own_invD [OF d(2)]
  have p: "p \<in> set (pool dev)" "p \<notin> dom (msgs dev)" "p \<notin> Block ` set (DmaBlocks dev)"
    using d(1) assms(2) unfolding mem_inv_def by auto
  have m': "mem_inv ?d" using d(1) unfolding mem_inv_def by auto
  have b: "bufs ?d y = (if y = OIo p then {} else bufs dev y)" for y by (simp add: bufs_ios_upd)
  have bp: "bufs dev (OIo p) = B" using assms(2) by (simp add: bufs_def B_def)
  have o': "own_inv (E \<union> B) (insert p P) ?d"
    unfolding own_inv_def b
  proof (intro conjI)
    show "E \<union> B \<subseteq> dom (dma ?d)" using own_inv_E [OF d(2)] o(1) [of "OIo p"] bp by auto
    show "\<forall>y. (if y = OIo p then {} else bufs dev y) \<subseteq> dom (dma ?d) - (E \<union> B)"
    proof
      fix y
      show "(if y = OIo p then {} else bufs dev y) \<subseteq> dom (dma ?d) - (E \<union> B)"
        using o(1) [of y] o(2) [of y "OIo p"] bp by auto
    qed
    show "insert p P \<subseteq> set (pool ?d) - dom (msgs ?d) - dom (ios ?d) - Block ` set (DmaBlocks ?d)"
      using own_inv_P [OF d(2)] p by auto
    show "\<forall>y z. y \<noteq> z \<longrightarrow> (if y = OIo p then {} else bufs dev y) \<inter> (if z = OIo p then {} else bufs dev z) = {}"
      using o(2) by auto
  qed (use o(3-5) in auto)
  have "token_ok ?d i y" if "token_ok dev i y" "y \<in># flight inflight dev i" for i y
    using that assms(3) [of i] by (cases y) (auto simp: token_ok_def split: option.splits)
  then have "queue_inv qinv inflight ?d"
    using d(3) unfolding queue_inv_def flight_def by (auto split: option.splits)
  then show ?thesis using m' o' by (simp add: dev_inv_def B_def)
qed

text \<open>A change of the fields that describe the transfer, not the buffers.\<close>

definition same_bufs :: "VIOSND_PCM_IO \<Rightarrow> VIOSND_PCM_IO \<Rightarrow> bool" where
  "same_bufs x y \<longleftrightarrow> RequestVa y = RequestVa x \<and> RequestPa y = RequestPa x \<and> RequestLength y = RequestLength x \<and>
     AudioVa y = AudioVa x \<and> AudioPa y = AudioPa x \<and> MaxAudioLength y = MaxAudioLength x \<and>
     StatusVa y = StatusVa x \<and> StatusPa y = StatusPa x"

lemma same_bufs_refl [simp]: "same_bufs x x"
  by (simp add: same_bufs_def)

lemma retag_io:
  assumes "dev_inv qinv inflight E P dev" "ios dev p = Some x" "same_bufs x y"
  shows "dev_inv qinv inflight E P (dev\<lparr>ios := (ios dev)(p \<mapsto> y)\<rparr>)"
proof -
  let ?d = "dev\<lparr>ios := (ios dev)(p \<mapsto> y)\<rparr>"
  have d: "mem_inv dev" "own_inv E P dev" "queue_inv qinv inflight dev" using assms by (simp_all add: dev_inv_def)
  note o = own_invD [OF d(2)]
  have dm: "dom (ios ?d) = dom (ios dev)" using assms(2) by auto
  have "ios ?d q = None \<longleftrightarrow> ios dev q = None" for q using assms(2) by simp
  then have m': "mem_inv ?d" using d(1) dm unfolding mem_inv_def by simp
  have b: "bufs ?d z = bufs dev z" for z
    using assms(2,3) by (simp add: bufs_ios_upd same_bufs_def) (simp add: bufs_def)
  have k: "write_io_ok dev y \<or> read_io_ok dev y"
    using o(4) [OF assms(2)] assms(3) unfolding write_io_ok_def read_io_ok_def same_bufs_def by simp
  have o': "own_inv E P ?d"
    unfolding own_inv_def b dm using o(1-3,5) own_inv_E [OF d(2)] own_inv_P [OF d(2)] k o(4) by auto
  have "token_ok ?d i z = token_ok dev i z" for i z
    using assms(2,3) by (cases z) (auto simp: token_ok_def same_bufs_def)
  then have "queue_inv qinv inflight ?d" using d(3) unfolding queue_inv_def by simp
  then show ?thesis using m' o' by (simp add: dev_inv_def)
qed

subsection \<open>Release\<close>

text \<open>What an operation on transfer descriptors leaves alone.\<close>

definition io_frame :: "('q, 'e) VIOSND_DEVICE \<Rightarrow> ('q, 'e) VIOSND_DEVICE \<Rightarrow> bool" where
  "io_frame dev dev' \<longleftrightarrow> msgs dev' = msgs dev \<and> EventBuffers dev' = EventBuffers dev \<and>
     EventBufferCount dev' = EventBufferCount dev \<and> Config dev' = Config dev \<and> Bars dev' = Bars dev \<and>
     mutex_count dev' = mutex_count dev \<and> (\<forall>i. (Queues dev' i = None) = (Queues dev i = None))"

lemma io_frame_refl [simp]: "io_frame dev dev"
  by (simp add: io_frame_def)

lemma io_frame_trans: "io_frame a b \<Longrightarrow> io_frame b c \<Longrightarrow> io_frame a c"
  by (simp add: io_frame_def)

lemma io_frame_drv:
  "drv dev' = drv dev \<Longrightarrow> mutex_count dev' = mutex_count dev \<Longrightarrow>
   (\<And>i. (Queues dev' i = None) = (Queues dev i = None)) \<Longrightarrow> io_frame dev dev'"
  using drv_simps [of dev' dev] by (simp add: io_frame_def)

lemma Free_ios_commute:
  "ViosndFreeControlBuffer (dev\<lparr>ios := f\<rparr>) v = map_option (\<lambda>d. d\<lparr>ios := f\<rparr>) (ViosndFreeControlBuffer dev v)"
  "ExFreePool (dev\<lparr>ios := f\<rparr>) p = map_option (\<lambda>d. d\<lparr>ios := f\<rparr>) (ExFreePool dev p)"
  by (auto simp: ViosndFreeControlBuffer_def ViosndFreeDmaBuffer_def ExFreePool_def split: option.splits)

text \<open>Both kinds of descriptor: two buffers, the pool block, the entry.\<close>

lemma release_io:
  assumes d: "dev_inv qinv inflight E P dev" "ios dev p = Some x" "\<And>i. OIo p \<notin># flight inflight dev i"
    and p: "p \<notin> P"
  defines "b \<equiv> (if AudioVa x = 0 then StatusVa x else AudioVa x)"
  obtains d1 d2 d3 where "ViosndFreeControlBuffer dev (RequestVa x) = Some d1"
    "ViosndFreeControlBuffer d1 b = Some d2" "ExFreePool d2 p = Some d3"
    "dev_inv qinv inflight E P (d3\<lparr>ios := (ios d3)(p := None)\<rparr>)"
    "ios d3 = ios dev" "io_frame dev d3" "flight inflight d3 = flight inflight dev" "p \<noteq> 0"
    "Queues d3 = Queues dev" "dma d3 = (dma dev)(RequestVa x := None, b := None)"
proof -
  let ?d = "dev\<lparr>ios := (ios dev)(p := None)\<rparr>" and ?B = "{RequestVa x, b}"
  have u: "dev_inv qinv inflight (E \<union> ?B) (insert p P) ?d" using unstore_io [OF d] by (simp add: b_def)
  have k: "write_io_ok dev x \<or> read_io_ok dev x" using io_kind [OF d(1,2)] by blast
  have ne: "RequestVa x \<noteq> b \<or> RequestVa x = 0"
    using k by (auto simp: write_io_ok_def read_io_ok_def b_def split: if_splits)
  have p': "p \<in> insert p P" "RequestVa x = 0 \<or> RequestVa x \<in> E \<union> ?B" "b = 0 \<or> b \<in> E \<union> ?B" by auto
  obtain e1 e2 e3 where f: "ViosndFreeControlBuffer ?d (RequestVa x) = Some e1"
    "ViosndFreeControlBuffer e1 b = Some e2" "ExFreePool e2 p = Some e3"
    "dev_inv qinv inflight ((E \<union> ?B) - ?B) (insert p P - {p}) e3" "drv e3 = drv ?d"
    "Queues e3 = Queues ?d" "mutex_count e3 = mutex_count ?d"
    "dma e3 = (dma ?d)(RequestVa x := None, b := None)"
    by (rule release_pair [OF u p' ne]) (rule that; assumption)
  have o: "own_inv E P dev" and m: "mem_inv dev" using d(1) by (simp_all add: dev_inv_def)
  have "bufs dev (OIo p) \<inter> E = {}" using own_invD(1) [OF o] by blast
  then have E: "(E \<union> ?B) - ?B = E" using d(2) by (auto simp: bufs_def b_def)
  have P: "insert p P - {p} = P" using p by simp
  let ?r = "\<lambda>e. e\<lparr>ios := ios dev\<rparr>"
  have again: "?r ?d = dev" by simp
  have g1: "ViosndFreeControlBuffer dev (RequestVa x) = Some (?r e1)"
    using Free_ios_commute(1) [where dev = ?d and f = "ios dev"] f(1) by simp
  have g2: "ViosndFreeControlBuffer (?r e1) b = Some (?r e2)" using f(2) by (simp add: Free_ios_commute)
  have g3: "ExFreePool (?r e2) p = Some (?r e3)" using f(3) by (simp add: Free_ios_commute)
  have s: "ios e3 = (ios dev)(p := None)" "msgs e3 = msgs dev" "EventBuffers e3 = EventBuffers dev"
    "EventBufferCount e3 = EventBufferCount dev" "Config e3 = Config dev" "Bars e3 = Bars dev"
    using drv_simps [OF f(5)] by simp_all
  have upd: "(?r e3)\<lparr>ios := (ios (?r e3))(p := None)\<rparr> = e3" using s(1) by simp
  have "p \<in> set (pool dev)" "0 \<notin> set (pool dev)" using m d(2) by (auto simp: mem_inv_def)
  then have p0: "p \<noteq> 0" by blast
  have "dev_inv qinv inflight E P ((?r e3)\<lparr>ios := (ios (?r e3))(p := None)\<rparr>)"
    unfolding upd using f(4) unfolding E P .
  moreover have "io_frame dev (?r e3)" using s f(6,7) by (simp add: io_frame_def)
  moreover have "flight inflight (?r e3) = flight inflight dev" by (rule ext) (simp add: flight_def f(6))
  ultimately show thesis using that [OF g1 g2 g3] p0 f(6,8) by simp
qed

lemma FreeWritePcmIo_ok:
  assumes "dev_inv qinv inflight E P dev" "ios dev p = Some x" "AudioVa x = 0"
    "\<And>i. OIo p \<notin># flight inflight dev i" "p \<notin> P"
  obtains dev' where "ViosndFreeWritePcmIo dev p = Some dev'" "dev_inv qinv inflight E P dev'"
    "ios dev' = (ios dev)(p := None)" "io_frame dev dev'" "flight inflight dev' = flight inflight dev"
    "Queues dev' = Queues dev" "dom (dma dev') = dom (dma dev) - io_bufs x"
proof -
  obtain d1 d2 d3 where r: "ViosndFreeControlBuffer dev (RequestVa x) = Some d1"
    "ViosndFreeControlBuffer d1 (StatusVa x) = Some d2" "ExFreePool d2 p = Some d3"
    "dev_inv qinv inflight E P (d3\<lparr>ios := (ios d3)(p := None)\<rparr>)"
    "ios d3 = ios dev" "io_frame dev d3" "flight inflight d3 = flight inflight dev" "p \<noteq> 0"
    "Queues d3 = Queues dev" "dma d3 = (dma dev)(RequestVa x := None, StatusVa x := None)"
    by (rule release_io [OF assms(1,2,4,5)]) (use assms(3) in \<open>auto intro: that\<close>)
  have "ViosndFreeWritePcmIo dev p = Some (d3\<lparr>ios := (ios d3)(p := None)\<rparr>)"
    using r assms(2) by (simp add: ViosndFreeWritePcmIo_def)
  moreover have "dom (dma d3) = dom (dma dev) - io_bufs x" using r(10) assms(3) by auto
  ultimately show thesis using r
    by (intro that [of "d3\<lparr>ios := (ios d3)(p := None)\<rparr>"]) (simp_all add: io_frame_def)
qed

lemma FreeReadPcmIo_ok:
  assumes "dev_inv qinv inflight E P dev" "ios dev p = Some x" "AudioVa x \<noteq> 0"
    "\<And>i. OIo p \<notin># flight inflight dev i" "p \<notin> P"
  obtains dev' where "ViosndFreeReadPcmIo dev p = Some dev'" "dev_inv qinv inflight E P dev'"
    "ios dev' = (ios dev)(p := None)" "io_frame dev dev'" "flight inflight dev' = flight inflight dev"
    "Queues dev' = Queues dev" "dom (dma dev') = dom (dma dev) - io_bufs x"
proof -
  obtain d1 d2 d3 where r: "ViosndFreeControlBuffer dev (RequestVa x) = Some d1"
    "ViosndFreeControlBuffer d1 (AudioVa x) = Some d2" "ExFreePool d2 p = Some d3"
    "dev_inv qinv inflight E P (d3\<lparr>ios := (ios d3)(p := None)\<rparr>)"
    "ios d3 = ios dev" "io_frame dev d3" "flight inflight d3 = flight inflight dev" "p \<noteq> 0"
    "Queues d3 = Queues dev" "dma d3 = (dma dev)(RequestVa x := None, AudioVa x := None)"
    by (rule release_io [OF assms(1,2,4,5)]) (use assms(3) in \<open>auto intro: that\<close>)
  have "ViosndFreeReadPcmIo dev p = Some (d3\<lparr>ios := (ios d3)(p := None)\<rparr>)"
    using r assms(2) by (simp add: ViosndFreeReadPcmIo_def)
  moreover have "dom (dma d3) = dom (dma dev) - io_bufs x" using r(10) assms(3) by auto
  ultimately show thesis using r
    by (intro that [of "d3\<lparr>ios := (ios d3)(p := None)\<rparr>"]) (simp_all add: io_frame_def)
qed

subsection \<open>Allocation\<close>

lemma alloc_object:
  assumes K: "allocators_ok K" and d: "dev_inv qinv inflight E P dev" and a: "pool_alloc K dev n = (p, d1)" "p \<noteq> 0"
  obtains va la d2 vb lb d3 where "ViosndAllocControlBuffer K d1 n1 = Some ((va, la), d2)"
    "ViosndAllocControlBuffer K d2 n2 = Some ((vb, lb), d3)"
    "dev_inv qinv inflight (E \<union> ({va, vb} - {0})) (insert p P) d3" "va \<notin> E" "vb \<notin> E" "va \<noteq> vb \<or> va = 0"
    "va \<noteq> 0 \<Longrightarrow> unat n1 \<le> buf_len d3 va" "vb \<noteq> 0 \<Longrightarrow> unat n2 \<le> buf_len d3 vb"
    "drv d3 = drv dev" "Queues d3 = Queues dev" "mutex_count d3 = mutex_count dev"
    "p \<notin> P" "p \<notin> dom (ios dev)" "p \<notin> dom (msgs dev)"
    "dom (dma d3) = dom (dma dev) \<union> ({va, vb} - {0})" "{va, vb} \<inter> dom (dma dev) = {}"
proof -
  note p1 = dev_inv_pool_alloc [OF K d a(1)]
  have i1: "dev_inv qinv inflight E (insert p P) d1" using p1 a(2) by simp
  obtain va la d2 where 2: "ViosndAllocControlBuffer K d1 n1 = Some ((va, la), d2)"
    "dev_inv qinv inflight (if va = 0 then E else insert va E) (insert p P) d2" "va \<notin> E"
    "va \<noteq> 0 \<Longrightarrow> va \<notin> dom (dma d1) \<and> unat n1 \<le> buf_len d2 va"
    "drv d2 = drv d1" "Queues d2 = Queues d1" "mutex_count d2 = mutex_count d1"
    "\<And>v. v \<in> dom (dma d1) \<Longrightarrow> dma d2 v = dma d1 v"
    "dom (dma d2) = (if va = 0 then dom (dma d1) else insert va (dom (dma d1)))"
    by (rule AllocControlBuffer_inv [OF K i1, of n1]) (rule that; assumption)
  define E2 where "E2 = (if va = 0 then E else insert va E)"
  note i2 = 2(2) [folded E2_def]
  obtain vb lb d3 where 3: "ViosndAllocControlBuffer K d2 n2 = Some ((vb, lb), d3)"
    "dev_inv qinv inflight (if vb = 0 then E2 else insert vb E2) (insert p P) d3" "vb \<notin> E2"
    "vb \<noteq> 0 \<Longrightarrow> vb \<notin> dom (dma d2) \<and> unat n2 \<le> buf_len d3 vb"
    "drv d3 = drv d2" "Queues d3 = Queues d2" "mutex_count d3 = mutex_count d2"
    "\<And>v. v \<in> dom (dma d2) \<Longrightarrow> dma d3 v = dma d2 v"
    "dom (dma d3) = (if vb = 0 then dom (dma d2) else insert vb (dom (dma d2)))"
    by (rule AllocControlBuffer_inv [OF K i2, of n2]) (rule that; assumption)
  have E: "(if vb = 0 then E2 else insert vb E2) = E \<union> ({va, vb} - {0})" by (auto simp: E2_def)
  have "own_inv E2 (insert p P) d2" using i2 by (simp add: dev_inv_def)
  then have "va \<noteq> 0 \<Longrightarrow> va \<in> dom (dma d2)" using own_inv_E by (fastforce simp: E2_def)
  then have l: "va \<noteq> 0 \<Longrightarrow> buf_len d3 va = buf_len d2 va" using 3(8) by (simp add: buf_len_def)
  have "own_inv E (insert p P) d1" using i1 by (simp add: dev_inv_def)
  then have p: "p \<notin> dom (ios d1)" "p \<notin> dom (msgs d1)" using own_inv_P by blast+
  have f: "drv d3 = drv dev" using 3(5) 2(5) p1 by simp
  have D: "dom (dma d3) = dom (dma dev) \<union> ({va, vb} - {0})" using 2(9) 3(9) p1 by auto
  have null: "0 \<notin> dom (dma dev)" using mem_inv_null [OF dev_inv_mem [OF d]] by auto
  have F: "{va, vb} \<inter> dom (dma dev) = {}" using 2(4,9) 3(4) p1 null by (auto split: if_splits)
  have n: "vb \<notin> E" "va \<noteq> vb \<or> va = 0" using 3(3) by (auto simp: E2_def split: if_splits)
  have la: "va \<noteq> 0 \<Longrightarrow> unat n1 \<le> buf_len d3 va" using 2(4) l by simp
  have lb: "vb \<noteq> 0 \<Longrightarrow> unat n2 \<le> buf_len d3 vb" using 3(4) by simp
  have q: "Queues d3 = Queues dev" "mutex_count d3 = mutex_count dev" "p \<notin> P" using 3(6,7) 2(6,7) p1 by simp_all
  have p': "p \<notin> dom (ios dev)" "p \<notin> dom (msgs dev)" using p p1 drv_simps [of d1 dev] by simp_all
  show thesis
    by (rule that [OF 2(1) 3(1) 3(2) [unfolded E] 2(3) n la lb f q p' D F])
qed

text \<open>The common tail of both allocations: give back what was got, or store the descriptor.\<close>

lemma undo_alloc:
  assumes d: "dev_inv qinv inflight (E \<union> ({a, b} - {0})) (insert p P) dev" and ne: "a \<noteq> b \<or> a = 0"
    and f: "a \<notin> E" "b \<notin> E" "p \<notin> P"
  obtains d1 d2 d3 where "ViosndFreeControlBuffer dev a = Some d1" "ViosndFreeControlBuffer d1 b = Some d2"
    "ExFreePool d2 p = Some d3" "dev_inv qinv inflight E P d3" "drv d3 = drv dev" "Queues d3 = Queues dev"
    "mutex_count d3 = mutex_count dev" "dma d3 = (dma dev)(a := None, b := None)"
proof -
  have p: "p \<in> insert p P" "a = 0 \<or> a \<in> E \<union> ({a, b} - {0})" "b = 0 \<or> b \<in> E \<union> ({a, b} - {0})" by auto
  have E: "(E \<union> ({a, b} - {0})) - {a, b} = E" "insert p P - {p} = P" using f by auto
  show thesis by (rule release_pair [OF d p ne]) (rule that, (assumption | simp only: E)+)
qed

lemma new_io:
  assumes d: "dev_inv qinv inflight (E \<union> ({a, b} - {0})) (insert p P) dev" and f: "a \<notin> E" "b \<notin> E" "p \<notin> P"
    and x: "io_bufs x = {a, b}" "a \<noteq> 0" "b \<noteq> 0" "write_io_ok dev x \<or> read_io_ok dev x"
  shows "dev_inv qinv inflight E P (dev\<lparr>ios := (ios dev)(p \<mapsto> x)\<rparr>)"
proof -
  have E: "(E \<union> ({a, b} - {0})) - {a, b} = E" "insert p P - {p} = P" using f by auto
  have "p \<in> insert p P" "io_bufs x \<subseteq> E \<union> ({a, b} - {0})" using x(1-3) by auto
  from store_io [OF d this x(4)] show ?thesis unfolding x(1) E .
qed

context virtio_snd
begin

lemma AllocateWritePcmIo_ok:
  assumes d: "dev_inv inv inflight E P dev" and n: "unat n + sizeof_PCM_XFER < 2 ^ 32"
  obtains (ok) p x dev' where "ViosndAllocateWritePcmIo K n dev = Some (STATUS_SUCCESS, p, dev')"
      "dev_inv inv inflight E P dev'" "ios dev' = (ios dev)(p \<mapsto> x)" "p \<notin> dom (ios dev)" "p \<noteq> 0" "p \<notin> P"
      "AudioVa x = 0" "unat (RequestLength x) = sizeof_PCM_XFER + unat n" "io_frame dev dev'"
      "Queues dev' = Queues dev" "dom (dma dev') = dom (dma dev) \<union> io_bufs x" "io_bufs x \<inter> dom (dma dev) = {}"
  | (failed) dev' where "ViosndAllocateWritePcmIo K n dev = Some (STATUS_INSUFFICIENT_RESOURCES, 0, dev')"
      "dev_inv inv inflight E P dev'" "ios dev' = ios dev" "io_frame dev dev'" "Queues dev' = Queues dev"
      "dom (dma dev') = dom (dma dev)"
proof -
  obtain p d1 where a: "pool_alloc K dev 88 = (p, d1)" by force
  note p1 = dev_inv_pool_alloc [OF alloc d a]
  show thesis
  proof (cases "p = 0")
    case True
    then have "ViosndAllocateWritePcmIo K n dev = Some (STATUS_INSUFFICIENT_RESOURCES, 0, d1)"
      using a by (simp add: ViosndAllocateWritePcmIo_def)
    then show thesis using failed [of d1] p1 True io_frame_drv [of d1 dev] drv_simps [of d1 dev] by simp
  next
    case False
    let ?rl = "word_of_nat sizeof_PCM_XFER + n"
    obtain va la d2 vb lb d3 where o: "ViosndAllocControlBuffer K d1 ?rl = Some ((va, la), d2)"
      "ViosndAllocControlBuffer K d2 (word_of_nat sizeof_PCM_STATUS) = Some ((vb, lb), d3)"
      "dev_inv inv inflight (E \<union> ({va, vb} - {0})) (insert p P) d3" "va \<notin> E" "vb \<notin> E" "va \<noteq> vb \<or> va = 0"
      "va \<noteq> 0 \<Longrightarrow> unat ?rl \<le> buf_len d3 va" "vb \<noteq> 0 \<Longrightarrow> unat (word_of_nat sizeof_PCM_STATUS :: u32) \<le> buf_len d3 vb"
      "drv d3 = drv dev" "Queues d3 = Queues dev" "mutex_count d3 = mutex_count dev"
      "p \<notin> P" "p \<notin> dom (ios dev)" "p \<notin> dom (msgs dev)"
      "dom (dma d3) = dom (dma dev) \<union> ({va, vb} - {0})" "{va, vb} \<inter> dom (dma dev) = {}"
      by (rule alloc_object [OF alloc d a False, of ?rl "word_of_nat sizeof_PCM_STATUS"]) (rule that; assumption)
    have fr: "io_frame dev d3" using o(9-11) by (intro io_frame_drv) simp_all
    show thesis
    proof (cases "va = 0 \<or> vb = 0")
      case True
      obtain e1 e2 e3 where u: "ViosndFreeControlBuffer d3 va = Some e1" "ViosndFreeControlBuffer e1 vb = Some e2"
        "ExFreePool e2 p = Some e3" "dev_inv inv inflight E P e3" "drv e3 = drv d3" "Queues e3 = Queues d3"
        "mutex_count e3 = mutex_count d3" "dma e3 = (dma d3)(va := None, vb := None)"
        by (rule undo_alloc [OF o(3,6,4,5,12)]) (rule that; assumption)
      have "ViosndAllocateWritePcmIo K n dev = Some (STATUS_INSUFFICIENT_RESOURCES, 0, e3)"
        unfolding ViosndAllocateWritePcmIo_def Let_def a prod.case if_not_P [OF False] o(1,2) bind.bind_lunit
          if_P [OF True] u(1-3) by (rule refl)
      moreover have "dom (dma e3) = dom (dma dev)" using u(8) o(15,16) by auto
      ultimately show thesis using failed [of e3] u o drv_simps [of e3 dev] io_frame_drv [of e3 dev] by simp
    next
      case nz: False
      let ?x = "zero_io\<lparr>RequestVa := va, RequestPa := la, RequestLength := ?rl, StatusVa := vb, StatusPa := lb\<rparr>"
      have rl: "unat ?rl = sizeof_PCM_XFER + unat n" using n by (simp add: unat_word_ariths(1))
      have "write_io_ok d3 ?x" using o(6-8) nz rl by (simp add: write_io_ok_def zero_io_def)
      then have i: "dev_inv inv inflight E P (d3\<lparr>ios := (ios d3)(p \<mapsto> ?x)\<rparr>)"
        using nz by (intro new_io [OF o(3-5,12)]) (simp_all add: zero_io_def)
      have c: "ViosndAllocateWritePcmIo K n dev = Some (STATUS_SUCCESS, p, d3\<lparr>ios := (ios d3)(p \<mapsto> ?x)\<rparr>)"
        unfolding ViosndAllocateWritePcmIo_def Let_def a prod.case if_not_P [OF False] o(1,2) bind.bind_lunit
          if_not_P [OF nz] by (rule refl)
      have D: "dom (dma (d3\<lparr>ios := (ios d3)(p \<mapsto> ?x)\<rparr>)) = dom (dma dev) \<union> io_bufs ?x"
        "io_bufs ?x \<inter> dom (dma dev) = {}"
        using o(15,16) nz by (auto simp: zero_io_def)
      show thesis
        by (rule ok [OF c i, of ?x])
          (use o(9,10,12,13) rl fr False drv_simps [OF o(9)] D in \<open>simp_all add: zero_io_def io_frame_def\<close>)
    qed
  qed
qed

lemma AllocateReadPcmIo_ok:
  assumes d: "dev_inv inv inflight E P dev" and n: "unat n + sizeof_PCM_STATUS < 2 ^ 32"
  obtains (ok) p x dev' where "ViosndAllocateReadPcmIo K n dev = Some (STATUS_SUCCESS, p, dev')"
      "dev_inv inv inflight E P dev'" "ios dev' = (ios dev)(p \<mapsto> x)" "p \<notin> dom (ios dev)" "p \<noteq> 0" "p \<notin> P"
      "AudioVa x \<noteq> 0" "MaxAudioLength x = n" "io_frame dev dev'" "Queues dev' = Queues dev"
      "dom (dma dev') = dom (dma dev) \<union> io_bufs x" "io_bufs x \<inter> dom (dma dev) = {}"
  | (failed) dev' where "ViosndAllocateReadPcmIo K n dev = Some (STATUS_INSUFFICIENT_RESOURCES, 0, dev')"
      "dev_inv inv inflight E P dev'" "ios dev' = ios dev" "io_frame dev dev'" "Queues dev' = Queues dev"
      "dom (dma dev') = dom (dma dev)"
proof -
  obtain p d1 where a: "pool_alloc K dev 88 = (p, d1)" by force
  note p1 = dev_inv_pool_alloc [OF alloc d a]
  show thesis
  proof (cases "p = 0")
    case True
    then have "ViosndAllocateReadPcmIo K n dev = Some (STATUS_INSUFFICIENT_RESOURCES, 0, d1)"
      using a by (simp add: ViosndAllocateReadPcmIo_def)
    then show thesis using failed [of d1] p1 True io_frame_drv [of d1 dev] drv_simps [of d1 dev] by simp
  next
    case False
    let ?rl = "word_of_nat sizeof_PCM_XFER :: u32" and ?al = "n + word_of_nat sizeof_PCM_STATUS"
    obtain va la d2 vb lb d3 where o: "ViosndAllocControlBuffer K d1 ?rl = Some ((va, la), d2)"
      "ViosndAllocControlBuffer K d2 ?al = Some ((vb, lb), d3)"
      "dev_inv inv inflight (E \<union> ({va, vb} - {0})) (insert p P) d3" "va \<notin> E" "vb \<notin> E" "va \<noteq> vb \<or> va = 0"
      "va \<noteq> 0 \<Longrightarrow> unat ?rl \<le> buf_len d3 va" "vb \<noteq> 0 \<Longrightarrow> unat ?al \<le> buf_len d3 vb"
      "drv d3 = drv dev" "Queues d3 = Queues dev" "mutex_count d3 = mutex_count dev"
      "p \<notin> P" "p \<notin> dom (ios dev)" "p \<notin> dom (msgs dev)"
      "dom (dma d3) = dom (dma dev) \<union> ({va, vb} - {0})" "{va, vb} \<inter> dom (dma dev) = {}"
      by (rule alloc_object [OF alloc d a False, of ?rl ?al]) (rule that; assumption)
    have fr: "io_frame dev d3" using o(9-11) by (intro io_frame_drv) simp_all
    show thesis
    proof (cases "va = 0 \<or> vb = 0")
      case True
      obtain e1 e2 e3 where u: "ViosndFreeControlBuffer d3 va = Some e1" "ViosndFreeControlBuffer e1 vb = Some e2"
        "ExFreePool e2 p = Some e3" "dev_inv inv inflight E P e3" "drv e3 = drv d3" "Queues e3 = Queues d3"
        "mutex_count e3 = mutex_count d3" "dma e3 = (dma d3)(va := None, vb := None)"
        by (rule undo_alloc [OF o(3,6,4,5,12)]) (rule that; assumption)
      have "ViosndAllocateReadPcmIo K n dev = Some (STATUS_INSUFFICIENT_RESOURCES, 0, e3)"
        unfolding ViosndAllocateReadPcmIo_def Let_def a prod.case if_not_P [OF False] o(1,2) bind.bind_lunit
          if_P [OF True] u(1-3) by (rule refl)
      moreover have "dom (dma e3) = dom (dma dev)" using u(8) o(15,16) by auto
      ultimately show thesis using failed [of e3] u o drv_simps [of e3 dev] io_frame_drv [of e3 dev] by simp
    next
      case nz: False
      let ?x = "zero_io\<lparr>RequestVa := va, RequestPa := la, RequestLength := ?rl,
                AudioVa := vb, AudioPa := lb, MaxAudioLength := n\<rparr>"
      have al: "unat ?al = unat n + sizeof_PCM_STATUS" using n by (simp add: unat_word_ariths(1))
      have "read_io_ok d3 ?x" using o(6-8) nz al by (simp add: read_io_ok_def zero_io_def)
      then have i: "dev_inv inv inflight E P (d3\<lparr>ios := (ios d3)(p \<mapsto> ?x)\<rparr>)"
        using nz by (intro new_io [OF o(3-5,12)]) (simp_all add: zero_io_def)
      have c: "ViosndAllocateReadPcmIo K n dev = Some (STATUS_SUCCESS, p, d3\<lparr>ios := (ios d3)(p \<mapsto> ?x)\<rparr>)"
        unfolding ViosndAllocateReadPcmIo_def Let_def a prod.case if_not_P [OF False] o(1,2) bind.bind_lunit
          if_not_P [OF nz] by (rule refl)
      have D: "dom (dma (d3\<lparr>ios := (ios d3)(p \<mapsto> ?x)\<rparr>)) = dom (dma dev) \<union> io_bufs ?x"
        "io_bufs ?x \<inter> dom (dma dev) = {}"
        using o(15,16) nz by (auto simp: zero_io_def)
      show thesis
        by (rule ok [OF c i, of ?x])
          (use o(9,10,12,13) fr False nz drv_simps [OF o(9)] D in \<open>simp_all add: zero_io_def io_frame_def\<close>)
    qed
  qed
qed

end

section \<open>Submission\<close>

text \<open>The completions of a queue that the driver has not collected.\<close>

definition pend :: "('q \<Rightarrow> (opaque \<times> u32) list) \<Rightarrow> ('q, 'e) VIOSND_DEVICE \<Rightarrow> vq_index \<Rightarrow> (opaque \<times> u32) list" where
  "pend pending dev i = (case Queues dev i of None \<Rightarrow> [] | Some q \<Rightarrow> pending q)"

lemma pend_simps [simp]:
  "pend pending (set_queue i q dev) = (pend pending dev)(i := pending q)"
  "pend pending (dev\<lparr>mutex_count := c\<rparr>) = pend pending dev" "pend pending (dev\<lparr>ios := f\<rparr>) = pend pending dev"
  "pend pending (dev\<lparr>ext := e\<rparr>) = pend pending dev" "pend pending (KeAcquireMutex j dev) = pend pending dev"
  "flight inflight (dev\<lparr>ext := e\<rparr>) = flight inflight dev"
  by (auto simp: pend_def set_queue_def KeAcquireMutex_def flight_def)

lemma pend_cong: "Queues dev' = Queues dev \<Longrightarrow> pend pending dev' = pend pending dev"
  by (rule ext) (simp add: pend_def)

lemma flight_cong: "Queues dev' = Queues dev \<Longrightarrow> flight inflight dev' = flight inflight dev"
  by (rule ext) (simp add: flight_def)

text \<open>The submission of a descriptor, from the moment the queue's mutex is held.\<close>

definition submit_locked ::
  "('q, 'e) kernel \<Rightarrow> vq_index \<Rightarrow> scatterlist list \<Rightarrow> opaque \<Rightarrow> ('q, 'e) VIOSND_DEVICE \<Rightarrow>
   (NTSTATUS \<times> ('q, 'e) VIOSND_DEVICE) option" where
  "submit_locked K i sg x dev = do {
     (r, dev) \<leftarrow> vq_add_buf K i sg 1 1 x dev;
     if r < 0 then do {
       dev \<leftarrow> KeReleaseMutex i dev;
       Some (STATUS_DEVICE_BUSY, dev)
     } else do {
       dev \<leftarrow> ViosndKickPcmQueue K i dev;
       dev \<leftarrow> KeReleaseMutex i dev;
       Some (STATUS_SUCCESS, dev)
     }}"

context virtio_snd
begin

lemma submit_locked_ok:
  assumes d: "dev_inv inv inflight E P dev" and m: "mutex_count dev = c(i := Suc (c i))"
    and q: "Queues dev i \<noteq> None" and sg: "length sg = 2"
    and x: "token_ok dev i x" "x \<notin># flight inflight dev i"
  obtains (full) "submit_locked K i sg x dev = Some (STATUS_DEVICE_BUSY, dev\<lparr>mutex_count := c\<rparr>)"
      "\<exists>q. Queues dev i = Some q \<and> room q < 2"
  | (sent) dev' where "submit_locked K i sg x dev = Some (STATUS_SUCCESS, dev')" "dev_inv inv inflight E P dev'"
      "drv dev' = drv dev" "dma dev' = dma dev" "mutex_count dev' = c"
      "flight inflight dev' = (flight inflight dev)(i := add_mset x (flight inflight dev i))"
      "pend pending dev' = pend pending dev" "\<And>j. (Queues dev' j = None) = (Queues dev j = None)"
proof -
  obtain q0 where q0: "Queues dev i = Some q0" using q by blast
  have fl: "flight inflight dev i = inflight q0" "pend pending dev i = pending q0" using q0 by (simp_all add: flight_def pend_def)
  have s: "sg \<noteq> []" "1 + 1 = length sg" using sg by auto
  have nin: "x \<notin># inflight q0" using x(2) fl by simp
  show thesis using d q0 s x(1) nin
  proof (cases rule: vq_add_ok)
    case full
    have "KeReleaseMutex i dev = Some (dev\<lparr>mutex_count := c\<rparr>)" using m by (simp add: KeReleaseMutex_def)
    then show thesis using that(1) full q0 sg by (simp add: submit_locked_def)
  next
    case (added q1)
    let ?d1 = "set_queue i q1 dev"
    have Q1: "Queues ?d1 i = Some q1" by simp
    obtain q2 where q2: "ViosndKickPcmQueue K i ?d1 = Some (set_queue i q2 ?d1)" "inv q2"
      "inflight q2 = inflight q1" "pending q2 = pending q1"
      using vq_kick_ok(3) [OF added(3) Q1] by blast
    let ?d2 = "set_queue i q2 ?d1"
    note k = queue_unchanged [OF added(3) Q1 q2(2,3)]
    have "KeReleaseMutex i ?d2 = Some (?d2\<lparr>mutex_count := c\<rparr>)" using m by (simp add: KeReleaseMutex_def)
    then have c: "submit_locked K i sg x dev = Some (STATUS_SUCCESS, ?d2\<lparr>mutex_count := c\<rparr>)"
      using added(2) q2(1) by (simp add: submit_locked_def)
    have p: "(pend pending dev)(i := pending q0) = pend pending dev" using fl(2) by (simp add: fun_upd_idem)
    show thesis
      by (rule that(2) [OF c])
        (use k added(4,5) q2(3,4) q0 fl p in \<open>simp_all add: flight_set_queue\<close>)
  qed
qed

end

text \<open>Two writes to different parts of one buffer.\<close>

lemma dma_write_at:
  "dma_write dev v off bs = Some dev' \<longleftrightarrow>
   (\<exists>b. dma dev v = Some b \<and> off + length bs \<le> length b \<and>
      dev' = dev\<lparr>dma := (dma dev)(v \<mapsto> take off b @ bs @ drop (off + length bs) b)\<rparr>)"
  by (cases "dma dev v") (auto simp: dma_write_def write_bytes_def)

lemma write_header_body:
  assumes d: "dev_inv qinv inflight E P dev" and v: "dma dev v \<noteq> None" "length h + length bs \<le> buf_len dev v"
  obtains d1 d2 where "dma_write dev v 0 h = Some d1" "dma_write d1 v (length h) bs = Some d2"
    "dev_inv qinv inflight E P d2" "drv d2 = drv dev" "Queues d2 = Queues dev" "mutex_count d2 = mutex_count dev"
    "dma_read d2 v 0 (length h) = Some h" "dma_read d2 v (length h) (length bs) = Some bs"
    "\<And>w. w \<noteq> v \<Longrightarrow> dma d2 w = dma dev w" "\<And>w. map_option length (dma d2 w) = map_option length (dma dev w)"
    "ext d2 = ext dev"
proof -
  have "0 + length h \<le> buf_len dev v" using v(2) by simp
  from dma_access(2) [OF d this v(1)] obtain d1 where 1: "dma_write dev v 0 h = Some d1"
    "dev_inv qinv inflight E P d1" "drv d1 = drv dev" "Queues d1 = Queues dev" "mutex_count d1 = mutex_count dev"
    "\<forall>w. map_option length (dma d1 w) = map_option length (dma dev w)"
    "\<forall>w. w \<noteq> v \<longrightarrow> dma d1 w = dma dev w" by blast
  have l1: "dma d1 v \<noteq> None" using 1(6) v(1) by (metis map_option_is_None)
  have l2: "buf_len d1 v = buf_len dev v" using 1(6) by (intro buf_len_same) simp
  from dma_access(2) [OF 1(2) _ l1, of "length h" bs] l2 v(2) obtain d2 where 2:
    "dma_write d1 v (length h) bs = Some d2" "dev_inv qinv inflight E P d2" "drv d2 = drv d1" "Queues d2 = Queues d1"
    "mutex_count d2 = mutex_count d1" "\<forall>w. map_option length (dma d2 w) = map_option length (dma d1 w)"
    "dma_read d2 v (length h) (length bs) = Some bs" "\<forall>w. w \<noteq> v \<longrightarrow> dma d2 w = dma d1 w" by auto
  have "dma_read d2 v 0 (length h) = Some h"
    using 1(1) 2(1) by (auto simp: dma_write_at dma_read_def read_bytes_def)
  moreover have "ext d2 = ext dev" using 1(1) 2(1) by (auto simp: dma_write_at)
  ultimately show thesis using that [OF 1(1) 2(1)] 1 2 by simp
qed

lemma io_bufs_live:
  assumes "dev_inv qinv inflight E P dev" "ios dev p = Some x" "v \<in> io_bufs x"
  shows "dma dev v \<noteq> None"
proof -
  have "v \<in> bufs dev (OIo p)" using assms(2,3) by (simp add: bufs_def)
  then show ?thesis using own_inv_bufsD [of E P dev v "OIo p"] assms(1) by (auto simp: dev_inv_def)
qed

context virtio_snd
begin

lemma SubmitPreparedWritePcm_ok:
  assumes d: "dev_inv inv inflight E P dev" and x: "ios dev p = Some x" "AudioVa x = 0"
    and fly: "\<And>i. OIo p \<notin># flight inflight dev i" and n: "length buffer < 2 ^ 32"
  obtains (failed) status y dev' where
      "ViosndSubmitPreparedWritePcm K sid buffer srcLen pn p dev = Some (status, dev')"
      "status = STATUS_DEVICE_NOT_READY \<and> Queues dev VIRTIO_SND_VQ_TX = None \<or>
       status = STATUS_INVALID_PARAMETER \<and> unat (RequestLength x) < sizeof_PCM_XFER + length buffer \<or>
       status = STATUS_IO_TIMEOUT \<and> \<not> fst (tx_mutex_granted K (ext dev)) \<or>
       status = STATUS_DEVICE_BUSY \<and> (\<exists>q. Queues dev VIRTIO_SND_VQ_TX = Some q \<and> room q < 2)"
      "dev_inv inv inflight E P dev'" "ios dev' = (ios dev)(p \<mapsto> y)" "same_bufs x y" "io_frame dev dev'"
      "flight inflight dev' = flight inflight dev" "pend pending dev' = pend pending dev"
  | (sent) y dev' where
      "ViosndSubmitPreparedWritePcm K sid buffer srcLen pn p dev = Some (STATUS_SUCCESS, dev')"
      "dev_inv inv inflight E P dev'" "ios dev' = (ios dev)(p \<mapsto> y)" "same_bufs x y" "io_frame dev dev'"
      "PacketNumber y = pn" "AudioLength y = word_of_nat (length buffer)" "StreamId y = sid"
      "SourceLength y = (if srcLen \<noteq> 0 then srcLen else word_of_nat (length buffer))"
      "flight inflight dev' = (flight inflight dev)(VIRTIO_SND_VQ_TX :=
         add_mset (OIo p) (flight inflight dev VIRTIO_SND_VQ_TX))"
      "pend pending dev' = pend pending dev"
      "dma_read dev' (RequestVa x) 0 4 = Some (le_bytes32 sid)"
      "dma_read dev' (RequestVa x) sizeof_PCM_XFER (length buffer) = Some buffer"
      "dma_read dev' (StatusVa x) 0 sizeof_PCM_STATUS = Some (replicate sizeof_PCM_STATUS 0)"
proof -
  let ?len = "word_of_nat (length buffer) :: u32"
  have len: "unat ?len = length buffer" using n by (simp add: unat_of_nat)
  have w: "write_io_ok dev x" by (rule io_kind(1) [OF d x])
  have p0: "p \<noteq> 0" using d x(1) by (auto simp: dev_inv_def mem_inv_def)
  have early: thesis if "ViosndSubmitPreparedWritePcm K sid buffer srcLen pn p dev = Some (status, dev)"
    "status = STATUS_DEVICE_NOT_READY \<and> Queues dev VIRTIO_SND_VQ_TX = None \<or>
       status = STATUS_INVALID_PARAMETER \<and> unat (RequestLength x) < sizeof_PCM_XFER + length buffer \<or>
       status = STATUS_IO_TIMEOUT \<and> \<not> fst (tx_mutex_granted K (ext dev)) \<or>
       status = STATUS_DEVICE_BUSY \<and> (\<exists>q. Queues dev VIRTIO_SND_VQ_TX = Some q \<and> room q < 2)" for status
    by (rule failed [where y = x, OF that d]) (use x(1) in \<open>simp_all add: fun_upd_idem\<close>)
  show thesis
  proof (cases "Queues dev VIRTIO_SND_VQ_TX = None")
    case True
    then show thesis
      by (intro early [of STATUS_DEVICE_NOT_READY]) (simp_all add: ViosndSubmitPreparedWritePcm_def)
  next
    case qT: False
    let ?bad = "RequestVa x = 0 \<or> StatusVa x = 0 \<or> unat (RequestLength x) < sizeof_PCM_XFER + unat ?len"
    show thesis
    proof (cases ?bad)
      case True
      then show thesis using qT p0 x(1)
        by (intro early [of STATUS_INVALID_PARAMETER]) (use w len True in \<open>simp_all add: ViosndSubmitPreparedWritePcm_def Let_def write_io_ok_def\<close>)
    next
      case ok: False
      have ne: "RequestVa x \<noteq> StatusVa x" using w by (simp add: write_io_ok_def)
      have live: "dma dev (StatusVa x) \<noteq> None" "dma dev (RequestVa x) \<noteq> None"
        using io_bufs_live [OF d x(1)] x(2) by auto
      have "0 + length (replicate sizeof_PCM_STATUS (0 :: u8)) \<le> buf_len dev (StatusVa x)"
        using w by (simp add: write_io_ok_def)
      from dma_access(2) [OF d this live(1)] obtain d1 where 1:
        "dma_write dev (StatusVa x) 0 (replicate sizeof_PCM_STATUS 0) = Some d1" "dev_inv inv inflight E P d1"
        "drv d1 = drv dev" "Queues d1 = Queues dev" "mutex_count d1 = mutex_count dev"
        "\<forall>w. map_option length (dma d1 w) = map_option length (dma dev w)"
        "dma_read d1 (StatusVa x) 0 sizeof_PCM_STATUS = Some (replicate sizeof_PCM_STATUS 0)"
        "\<forall>w. w \<noteq> StatusVa x \<longrightarrow> dma d1 w = dma dev w" by auto
      have live1: "dma d1 (RequestVa x) \<noteq> None" using 1(8) live(2) ne by simp
      have "buf_len d1 (RequestVa x) = buf_len dev (RequestVa x)" using 1(6) by (intro buf_len_same) simp
      then have l1: "length (le_bytes32 sid) + length buffer \<le> buf_len d1 (RequestVa x)"
        using w ok len by (simp add: write_io_ok_def le_bytes32_def)
      obtain d2 d3 where 3: "dma_write d1 (RequestVa x) 0 (le_bytes32 sid) = Some d2"
        "dma_write d2 (RequestVa x) (length (le_bytes32 sid)) buffer = Some d3"
        "dev_inv inv inflight E P d3" "drv d3 = drv d1" "Queues d3 = Queues d1" "mutex_count d3 = mutex_count d1"
        "dma_read d3 (RequestVa x) 0 (length (le_bytes32 sid)) = Some (le_bytes32 sid)"
        "dma_read d3 (RequestVa x) (length (le_bytes32 sid)) (length buffer) = Some buffer"
        "\<And>w. w \<noteq> RequestVa x \<Longrightarrow> dma d3 w = dma d1 w"
        by (rule write_header_body [OF 1(2) live1 l1]) (rule that; assumption)
      have h: "length (le_bytes32 sid) = sizeof_PCM_XFER" by (simp add: le_bytes32_def)
      let ?y = "x\<lparr>AudioLength := ?len, SourceLength := (if srcLen \<noteq> 0 then srcLen else ?len),
                    PacketNumber := pn, StreamId := sid\<rparr>"
      let ?d4 = "d3\<lparr>ios := (ios d3)(p \<mapsto> ?y)\<rparr>"
      have s3: "drv d3 = drv dev" "Queues d3 = Queues dev" "mutex_count d3 = mutex_count dev"
        using 3(4-6) 1(3-5) by simp_all
      note f3 = drv_simps [OF s3(1)]
      have sb: "same_bufs x ?y" by (simp add: same_bufs_def)
      have i4: "dev_inv inv inflight E P ?d4" by (rule retag_io [OF 3(3) _ sb]) (use f3 x(1) in simp)
      obtain granted e where g: "tx_mutex_granted K (ext ?d4) = (granted, e)" by force
      let ?d5 = "KeAcquireMutex VIRTIO_SND_VQ_TX (?d4\<lparr>ext := e\<rparr>)"
      let ?sg = "[\<lparr>sg_addr = RequestPa x, sg_length = word_of_nat sizeof_PCM_XFER + ?len\<rparr>,
               \<lparr>sg_addr = StatusPa x, sg_length = word_of_nat sizeof_PCM_STATUS\<rparr>]"
      have ec: "ViosndSubmitPreparedWritePcm K sid buffer srcLen pn p dev =
          (if granted then submit_locked K VIRTIO_SND_VQ_TX ?sg (OIo p) ?d5
           else Some (STATUS_IO_TIMEOUT, ?d4\<lparr>ext := e\<rparr>))"
        unfolding ViosndSubmitPreparedWritePcm_def Let_def if_not_P [OF qT] if_not_P [OF p0] x(1)
          bind.bind_lunit if_not_P [OF ok] 1(1) 3(1) 3(2) [unfolded h] ViosndAcquireTxQueue_def g prod.case
        by (cases granted) (simp_all add: submit_locked_def NT_SUCCESS_def)
      have fl: "flight inflight d3 = flight inflight dev" "pend pending d3 = pend pending dev"
        using flight_cong [OF s3(2)] pend_cong [OF s3(2)] by simp_all
      have e3: "ext d3 = ext dev" using 1(1) 3(1,2) by (auto simp: dma_write_at)
      have fr: "io_frame dev ?d4" using f3 s3 by (simp add: io_frame_def)
      show thesis
      proof (cases granted)
        case False
        show thesis
          by (rule failed [where y = ?y, OF ec [unfolded if_not_P [OF False]]])
            (use i4 sb fr fl f3 g e3 False in \<open>simp_all add: io_frame_def\<close>)
      next
        case True
        have i5: "dev_inv inv inflight E P ?d5" using i4 by simp
        have m5: "mutex_count ?d5 = (mutex_count dev)(VIRTIO_SND_VQ_TX := Suc (mutex_count dev VIRTIO_SND_VQ_TX))"
          using s3 by simp
        have q5: "Queues ?d5 VIRTIO_SND_VQ_TX \<noteq> None" using qT s3 by simp
        have t5: "token_ok ?d5 VIRTIO_SND_VQ_TX (OIo p)" using x(2) by (simp add: token_ok_def)
        have n5: "OIo p \<notin># flight inflight ?d5 VIRTIO_SND_VQ_TX" using fly fl by simp
        have l5: "length ?sg = 2" by simp
        show thesis using i5 m5 q5 l5 t5 n5
        proof (cases rule: submit_locked_ok)
          case full
          show thesis
            by (rule failed [where y = ?y, OF ec [unfolded if_P [OF True] full(1)]])
              (use full(2) i5 sb fr fl f3 s3 in \<open>simp_all add: io_frame_def\<close>)
        next
          case (sent d6)
          note f6 = drv_simps [OF sent(3)]
          have rd: "dma_read d6 v o' k = dma_read d3 v o' k" for v o' k
            unfolding dma_read_def sent(4) by simp
          have st: "dma_read d3 (StatusVa x) 0 sizeof_PCM_STATUS = Some (replicate sizeof_PCM_STATUS 0)"
            using 1(7) 3(9) [of "StatusVa x"] ne by (simp add: dma_read_def)
          show thesis
            by (rule that(2) [OF ec [unfolded if_P [OF True] sent(1)], of ?y])
              (use sent(2,5-8) sb f3 s3 f6 fl rd st 3(7,8) h x(1) in \<open>simp_all add: io_frame_def\<close>)
        qed
      qed
    qed
  qed
qed

end

context virtio_snd
begin

lemma SubmitPreparedReadPcm_ok:
  assumes d: "dev_inv inv inflight E P dev" and x: "ios dev p = Some x" "AudioVa x \<noteq> 0"
    and fly: "\<And>i. OIo p \<notin># flight inflight dev i"
  obtains (failed) status y dev' where "ViosndSubmitPreparedReadPcm K sid len pn p dev = Some (status, dev')"
      "status = STATUS_DEVICE_NOT_READY \<and> Queues dev VIRTIO_SND_VQ_RX = None \<or>
       status = STATUS_INVALID_PARAMETER \<and> MaxAudioLength x < len \<or>
       status = STATUS_DEVICE_BUSY \<and> (\<exists>q. Queues dev VIRTIO_SND_VQ_RX = Some q \<and> room q < 2)"
      "dev_inv inv inflight E P dev'" "ios dev' = (ios dev)(p \<mapsto> y)" "same_bufs x y" "io_frame dev dev'"
      "flight inflight dev' = flight inflight dev" "pend pending dev' = pend pending dev"
  | (sent) y dev' where "ViosndSubmitPreparedReadPcm K sid len pn p dev = Some (STATUS_SUCCESS, dev')"
      "dev_inv inv inflight E P dev'" "ios dev' = (ios dev)(p \<mapsto> y)" "same_bufs x y" "io_frame dev dev'"
      "PacketNumber y = pn" "AudioLength y = len" "StreamId y = sid" "len \<le> MaxAudioLength x"
      "flight inflight dev' = (flight inflight dev)(VIRTIO_SND_VQ_RX :=
         add_mset (OIo p) (flight inflight dev VIRTIO_SND_VQ_RX))"
      "pend pending dev' = pend pending dev"
      "dma_read dev' (RequestVa x) 0 4 = Some (le_bytes32 sid)"
proof -
  have w: "read_io_ok dev x" by (rule io_kind(2) [OF d x])
  have p0: "p \<noteq> 0" using d x(1) by (auto simp: dev_inv_def mem_inv_def)
  have early: thesis if "ViosndSubmitPreparedReadPcm K sid len pn p dev = Some (status, dev)"
    "status = STATUS_DEVICE_NOT_READY \<and> Queues dev VIRTIO_SND_VQ_RX = None \<or>
       status = STATUS_INVALID_PARAMETER \<and> MaxAudioLength x < len \<or>
       status = STATUS_DEVICE_BUSY \<and> (\<exists>q. Queues dev VIRTIO_SND_VQ_RX = Some q \<and> room q < 2)" for status
    by (rule failed [where y = x, OF that d]) (use x(1) in \<open>simp_all add: fun_upd_idem\<close>)
  show thesis
  proof (cases "Queues dev VIRTIO_SND_VQ_RX = None")
    case True
    then show thesis
      by (intro early [of STATUS_DEVICE_NOT_READY]) (simp_all add: ViosndSubmitPreparedReadPcm_def)
  next
    case qR: False
    let ?bad = "RequestVa x = 0 \<or> AudioVa x = 0 \<or> MaxAudioLength x < len"
    show thesis
    proof (cases ?bad)
      case True
      then show thesis using qR p0 x(1)
        by (intro early [of STATUS_INVALID_PARAMETER])
          (use w in \<open>simp_all add: ViosndSubmitPreparedReadPcm_def read_io_ok_def\<close>)
    next
      case ok: False
      have ne: "RequestVa x \<noteq> AudioVa x" using w by (simp add: read_io_ok_def)
      have live: "dma dev (AudioVa x) \<noteq> None" "dma dev (RequestVa x) \<noteq> None"
        using io_bufs_live [OF d x(1)] x(2) by auto
      have "unat len \<le> unat (MaxAudioLength x)" using ok word_le_nat_alt not_less by blast
      then have "0 + length (replicate (unat len + sizeof_PCM_STATUS) (0 :: u8)) \<le> buf_len dev (AudioVa x)"
        using w by (simp add: read_io_ok_def)
      from dma_access(2) [OF d this live(1)] obtain d1 where 1:
        "dma_write dev (AudioVa x) 0 (replicate (unat len + sizeof_PCM_STATUS) 0) = Some d1" "dev_inv inv inflight E P d1"
        "drv d1 = drv dev" "Queues d1 = Queues dev" "mutex_count d1 = mutex_count dev"
        "\<forall>w. map_option length (dma d1 w) = map_option length (dma dev w)"
        "\<forall>w. w \<noteq> AudioVa x \<longrightarrow> dma d1 w = dma dev w" by auto
      have live1: "dma d1 (RequestVa x) \<noteq> None" using 1(7) live(2) ne by simp
      have "buf_len d1 (RequestVa x) = buf_len dev (RequestVa x)" using 1(6) by (intro buf_len_same) simp
      then have "0 + length (le_bytes32 sid) \<le> buf_len d1 (RequestVa x)"
        using w by (simp add: read_io_ok_def le_bytes32_def)
      from dma_access(2) [OF 1(2) this live1] obtain d3 where 3:
        "dma_write d1 (RequestVa x) 0 (le_bytes32 sid) = Some d3" "dev_inv inv inflight E P d3"
        "drv d3 = drv d1" "Queues d3 = Queues d1" "mutex_count d3 = mutex_count d1"
        "dma_read d3 (RequestVa x) 0 (length (le_bytes32 sid)) = Some (le_bytes32 sid)" by blast
      let ?y = "x\<lparr>StreamId := sid, AudioLength := len, PacketNumber := pn\<rparr>"
      let ?d4 = "d3\<lparr>ios := (ios d3)(p \<mapsto> ?y)\<rparr>"
      have s3: "drv d3 = drv dev" "Queues d3 = Queues dev" "mutex_count d3 = mutex_count dev"
        using 3(3-5) 1(3-5) by simp_all
      note f3 = drv_simps [OF s3(1)]
      have sb: "same_bufs x ?y" by (simp add: same_bufs_def)
      have i4: "dev_inv inv inflight E P ?d4" by (rule retag_io [OF 3(2) _ sb]) (use f3 x(1) in simp)
      let ?d5 = "KeAcquireMutex VIRTIO_SND_VQ_RX ?d4"
      let ?sg = "[\<lparr>sg_addr = RequestPa x, sg_length = word_of_nat sizeof_PCM_XFER\<rparr>,
               \<lparr>sg_addr = AudioPa x, sg_length = len + word_of_nat sizeof_PCM_STATUS\<rparr>]"
      have ec: "ViosndSubmitPreparedReadPcm K sid len pn p dev = submit_locked K VIRTIO_SND_VQ_RX ?sg (OIo p) ?d5"
        unfolding ViosndSubmitPreparedReadPcm_def Let_def if_not_P [OF qR] if_not_P [OF p0] x(1)
          bind.bind_lunit if_not_P [OF ok] 1(1) 3(1) by (simp add: submit_locked_def)
      have fl: "flight inflight d3 = flight inflight dev" "pend pending d3 = pend pending dev"
        using flight_cong [OF s3(2)] pend_cong [OF s3(2)] by simp_all
      have i5: "dev_inv inv inflight E P ?d5" using i4 by simp
      have m5: "mutex_count ?d5 = (mutex_count dev)(VIRTIO_SND_VQ_RX := Suc (mutex_count dev VIRTIO_SND_VQ_RX))"
        using s3 by simp
      have q5: "Queues ?d5 VIRTIO_SND_VQ_RX \<noteq> None" using qR s3 by simp
      have t5: "token_ok ?d5 VIRTIO_SND_VQ_RX (OIo p)" using x(2) by (simp add: token_ok_def)
      have n5: "OIo p \<notin># flight inflight ?d5 VIRTIO_SND_VQ_RX" using fly fl by simp
      have l5: "length ?sg = 2" by simp
      show thesis using i5 m5 q5 l5 t5 n5
      proof (cases rule: submit_locked_ok)
        case full
        show thesis
          by (rule failed [where y = ?y, OF ec [unfolded full(1)]])
            (use full(2) i5 sb fl f3 s3 in \<open>simp_all add: io_frame_def\<close>)
      next
        case (sent d6)
        note f6 = drv_simps [OF sent(3)]
        have rd: "dma_read d6 (RequestVa x) 0 4 = Some (le_bytes32 sid)"
          using 3(6) unfolding length_le_bytes32 by (simp add: dma_read_def sent(4))
        have le: "len \<le> MaxAudioLength x" using ok by (simp add: not_less)
        show thesis
          by (rule that(2) [OF ec [unfolded sent(1)], of ?y])
            (use sent(2,5-8) sb f3 s3 f6 fl rd le x(1) in \<open>simp_all add: io_frame_def\<close>)
      qed
    qed
  qed
qed

end

section \<open>Completion\<close>

context virtio_snd
begin

lemma collect_io:
  assumes d: "dev_inv inv inflight E P dev" and q: "Queues dev i = Some q" and i: "i \<in> {VIRTIO_SND_VQ_TX, VIRTIO_SND_VQ_RX}"
  obtains (empty) "pending q = []" "vq_get_buf K i dev = Some (None, dev)"
  | (used) p x len q' where "pending q = (OIo p, len) # pending q'"
      "vq_get_buf K i dev = Some (Some (OIo p, len), set_queue i q' dev)"
      "dev_inv inv inflight E P (set_queue i q' dev)" "inflight q = add_mset (OIo p) (inflight q')"
      "ios dev p = Some x" "AudioVa x = 0 \<longleftrightarrow> i = VIRTIO_SND_VQ_TX" "\<And>j. OIo p \<notin># flight inflight (set_queue i q' dev) j"
      "p \<noteq> 0"
  using d q
proof (cases rule: vq_get_ok)
  case empty
  then show thesis by (rule that(1))
next
  case (used y len q')
  obtain p x where y: "y = OIo p" "ios dev p = Some x" "AudioVa x = 0 \<longleftrightarrow> i = VIRTIO_SND_VQ_TX"
    using used(6) i by (cases y) (auto simp: token_ok_def split: option.splits)
  have "OIo p \<notin># flight inflight (set_queue i q' dev) j" for j
  proof (cases "j = i")
    case True
    then show ?thesis using used(5) y by (simp add: flight_set_queue)
  next
    case False
    then have fl: "flight inflight (set_queue i q' dev) j = flight inflight dev j" by (simp add: flight_set_queue)
    show ?thesis
    proof
      assume "OIo p \<in># flight inflight (set_queue i q' dev) j"
      then obtain qj where "Queues dev j = Some qj" "OIo p \<in># inflight qj"
        unfolding fl by (auto simp: flight_def split: option.splits)
      then have "token_ok dev j (OIo p)" using queueD [OF d] by blast
      then show False using y False i by (cases j) (auto simp: token_ok_def split: option.splits)
    qed
  qed
  moreover have "p \<noteq> 0" using d y(2) by (auto simp: dev_inv_def mem_inv_def)
  ultimately show thesis using that(2) used y by simp
qed

lemma ReclaimPreparedWritePcm_ok:
  assumes d: "dev_inv inv inflight E P dev"
  obtains (none) status dev' where "ViosndReclaimPreparedWritePcm K dev = Some (status, 0, 0, 0, dev')"
      "status \<in> {STATUS_DEVICE_NOT_READY, STATUS_IO_TIMEOUT, STATUS_NOT_FOUND}"
      "dev_inv inv inflight E P dev'" "io_frame dev dev'" "ios dev' = ios dev" "Queues dev' = Queues dev"
      "status = STATUS_NOT_FOUND \<Longrightarrow> pend pending dev VIRTIO_SND_VQ_TX = []"
      "status = STATUS_IO_TIMEOUT \<Longrightarrow> \<not> fst (tx_mutex_granted K (ext dev))"
      "status = STATUS_DEVICE_NOT_READY \<Longrightarrow> Queues dev VIRTIO_SND_VQ_TX = None"
  | (completed) p x len latency dev' where
      "ViosndReclaimPreparedWritePcm K dev = Some (STATUS_SUCCESS, p, AudioLength x, latency, dev')"
      "dev_inv inv inflight E P dev'" "io_frame dev dev'" "ios dev' = ios dev" "ios dev p = Some x" "AudioVa x = 0" "p \<noteq> 0"
      "flight inflight dev VIRTIO_SND_VQ_TX = add_mset (OIo p) (flight inflight dev' VIRTIO_SND_VQ_TX)"
      "\<And>j. j \<noteq> VIRTIO_SND_VQ_TX \<Longrightarrow> flight inflight dev' j = flight inflight dev j"
      "\<And>j. OIo p \<notin># flight inflight dev' j"
      "pend pending dev VIRTIO_SND_VQ_TX = (OIo p, len) # pend pending dev' VIRTIO_SND_VQ_TX"
      "\<And>j. j \<noteq> VIRTIO_SND_VQ_TX \<Longrightarrow> pend pending dev' j = pend pending dev j"
proof -
  let ?T = VIRTIO_SND_VQ_TX
  obtain granted e where g: "tx_mutex_granted K (ext dev) = (granted, e)" by force
  show thesis
  proof (cases "Queues dev ?T")
    case None
    then show thesis
      by (intro none [of STATUS_DEVICE_NOT_READY dev]) (simp_all add: ViosndReclaimPreparedWritePcm_def d)
  next
    case (Some q)
    show thesis
    proof (cases granted)
      case False
      then show thesis using g Some d
        by (intro none [of STATUS_IO_TIMEOUT "dev\<lparr>ext := e\<rparr>"])
          (simp_all add: ViosndReclaimPreparedWritePcm_def ViosndAcquireTxQueue_def NT_SUCCESS_def io_frame_def)
    next
      case True
      let ?d0 = "KeAcquireMutex ?T (dev\<lparr>ext := e\<rparr>)"
      have i0: "dev_inv inv inflight E P ?d0" using d by simp
      have q0: "Queues ?d0 ?T = Some q" using Some by simp
      have T: "?T \<in> {VIRTIO_SND_VQ_TX, VIRTIO_SND_VQ_RX}" by simp
      have rel: "KeReleaseMutex ?T d' = Some (d'\<lparr>mutex_count := mutex_count dev\<rparr>)" if "mutex_count d' = mutex_count ?d0" for d'
        by (rule KeReleaseMutex_ok) (use that in simp)
      have acq: "ViosndAcquireTxQueue K dev = (STATUS_SUCCESS, ?d0)"
        using g True by (simp add: ViosndAcquireTxQueue_def)
      show thesis using i0 q0 T
      proof (cases rule: collect_io)
        case empty
        have "ViosndReclaimPreparedWritePcm K dev = Some (STATUS_NOT_FOUND, 0, 0, 0, ?d0\<lparr>mutex_count := mutex_count dev\<rparr>)"
          using Some acq empty(2) rel [of ?d0] by (simp add: ViosndReclaimPreparedWritePcm_def NT_SUCCESS_def)
        then show thesis
          by (rule none) (use i0 empty(1) Some in \<open>simp_all add: io_frame_def pend_def\<close>)
      next
        case (used p x len q')
        let ?d1 = "set_queue ?T q' ?d0"
        let ?d2 = "?d1\<lparr>mutex_count := mutex_count dev\<rparr>"
        have x: "ios ?d0 p = Some x" "AudioVa x = 0" using used(5,6) by simp_all
        have i2: "dev_inv inv inflight E P ?d2" using used(3) by simp
        have "ios ?d2 p = Some x" using used(5) by simp
        note k = io_kind(1) [OF i2 this x(2)] and live = io_bufs_live [OF i2 this]
        have "0 + sizeof_PCM_STATUS \<le> buf_len ?d2 (StatusVa x)" "dma ?d2 (StatusVa x) \<noteq> None"
          using k live [of "StatusVa x"] x(2) by (simp_all add: write_io_ok_def)
        then obtain bs where bs: "dma_read ?d2 (StatusVa x) 0 sizeof_PCM_STATUS = Some bs"
          using dma_access(1) [OF i2] by blast
        have c: "ViosndReclaimPreparedWritePcm K dev =
            Some (STATUS_SUCCESS, p, AudioLength x, ps_latency_bytes (pcm_status_of_bytes bs), ?d2)"
          using Some acq used(2,5) rel [of ?d1] bs
          by (simp add: ViosndReclaimPreparedWritePcm_def NT_SUCCESS_def)
        have fl0: "flight inflight dev ?T = inflight q" "pend pending dev ?T = pending q"
          using Some by (simp_all add: flight_def pend_def)
        show thesis
          by (rule that(2) [OF c i2, of len])
            (use used(1,4,5,7,8) x(2) Some fl0 in \<open>simp_all add: io_frame_def flight_set_queue\<close>)
      qed
    qed
  qed
qed

end

text \<open>
  The length the device reports for a received buffer is at most what it was given; the code reads
  the status at the end of that length without a check, so the lemmas about capture need it.
\<close>

definition rx_honest :: "('q \<Rightarrow> (opaque \<times> u32) list) \<Rightarrow> ('q, 'e) VIOSND_DEVICE \<Rightarrow> bool" where
  "rx_honest pending dev \<longleftrightarrow> (\<forall>p len x. (OIo p, len) \<in> set (pend pending dev VIRTIO_SND_VQ_RX) \<longrightarrow>
     ios dev p = Some x \<longrightarrow>
     AudioLength x \<le> MaxAudioLength x \<and> unat len \<le> unat (AudioLength x) + sizeof_PCM_STATUS)"

context virtio_snd
begin

lemma ReclaimPreparedReadPcm_ok:
  assumes d: "dev_inv inv inflight E P dev" and hon: "rx_honest pending dev"
  obtains (none) status dev' where "ViosndReclaimPreparedReadPcm K dev = Some (status, 0, 0, 0, dev')"
      "status \<in> {STATUS_DEVICE_NOT_READY, STATUS_NOT_FOUND}"
      "dev_inv inv inflight E P dev'" "io_frame dev dev'" "ios dev' = ios dev" "Queues dev' = Queues dev"
      "status = STATUS_NOT_FOUND \<Longrightarrow> pend pending dev VIRTIO_SND_VQ_RX = []"
      "status = STATUS_DEVICE_NOT_READY \<Longrightarrow> Queues dev VIRTIO_SND_VQ_RX = None"
  | (completed) status p x len bytes latency dev' where
      "ViosndReclaimPreparedReadPcm K dev = Some (status, p, bytes, latency, dev')"
      "status = STATUS_SUCCESS \<and> sizeof_PCM_STATUS \<le> unat len \<and> unat bytes = min (unat (AudioLength x)) (unat len - sizeof_PCM_STATUS) \<or>
       status = STATUS_IO_DEVICE_ERROR \<and> bytes = 0"
      "dev_inv inv inflight E P dev'" "io_frame dev dev'" "ios dev' = ios dev" "ios dev p = Some x" "AudioVa x \<noteq> 0" "p \<noteq> 0"
      "flight inflight dev VIRTIO_SND_VQ_RX = add_mset (OIo p) (flight inflight dev' VIRTIO_SND_VQ_RX)"
      "\<And>j. j \<noteq> VIRTIO_SND_VQ_RX \<Longrightarrow> flight inflight dev' j = flight inflight dev j"
      "\<And>j. OIo p \<notin># flight inflight dev' j"
      "pend pending dev VIRTIO_SND_VQ_RX = (OIo p, len) # pend pending dev' VIRTIO_SND_VQ_RX"
      "\<And>j. j \<noteq> VIRTIO_SND_VQ_RX \<Longrightarrow> pend pending dev' j = pend pending dev j"
      "rx_honest pending dev'" "dma dev' = dma dev"
proof -
  note fin = that(2)
  let ?R = VIRTIO_SND_VQ_RX
  show thesis
  proof (cases "Queues dev ?R")
    case None
    then show thesis
      by (intro none [of STATUS_DEVICE_NOT_READY dev]) (simp_all add: ViosndReclaimPreparedReadPcm_def d)
  next
    case (Some q)
    let ?d0 = "KeAcquireMutex ?R dev"
    have i0: "dev_inv inv inflight E P ?d0" using d by simp
    have q0: "Queues ?d0 ?R = Some q" using Some by simp
    have R: "?R \<in> {VIRTIO_SND_VQ_TX, VIRTIO_SND_VQ_RX}" by simp
    have rel: "KeReleaseMutex ?R d' = Some (d'\<lparr>mutex_count := mutex_count dev\<rparr>)" if "mutex_count d' = mutex_count ?d0" for d'
      by (rule KeReleaseMutex_ok) (use that in simp)
    show thesis using i0 q0 R
    proof (cases rule: collect_io)
      case empty
      have "ViosndReclaimPreparedReadPcm K dev = Some (STATUS_NOT_FOUND, 0, 0, 0, ?d0\<lparr>mutex_count := mutex_count dev\<rparr>)"
        using Some empty(2) rel [of ?d0] by (simp add: ViosndReclaimPreparedReadPcm_def)
      then show thesis
        by (rule none) (use i0 empty(1) Some in \<open>simp_all add: io_frame_def pend_def\<close>)
    next
      case (used p x len q')
      let ?d1 = "set_queue ?R q' ?d0"
      let ?d2 = "?d1\<lparr>mutex_count := mutex_count dev\<rparr>"
      have x: "ios dev p = Some x" "AudioVa x \<noteq> 0" using used(5,6) by simp_all
      have i2: "dev_inv inv inflight E P ?d2" using used(3) by simp
      have x2: "ios ?d2 p = Some x" using used(5) by simp
      note k = io_kind(2) [OF i2 x2 x(2)] and live = io_bufs_live [OF i2 x2]
      have fl0: "flight inflight dev ?R = inflight q" "pend pending dev ?R = pending q"
        using Some by (simp_all add: flight_def pend_def)
      have h: "AudioLength x \<le> MaxAudioLength x" "unat len \<le> unat (AudioLength x) + sizeof_PCM_STATUS"
        using hon x(1) used(1) fl0 unfolding rx_honest_def by auto
      have hon2: "rx_honest pending ?d2" using hon used(1) fl0 unfolding rx_honest_def by auto
      have p2: "pend pending ?d2 = (pend pending dev)(?R := pending q')" by simp
      have res: thesis if c: "ViosndReclaimPreparedReadPcm K dev = Some (status, p, bytes, latency, ?d2)"
        and s: "status = STATUS_SUCCESS \<and> sizeof_PCM_STATUS \<le> unat len \<and> unat bytes = min (unat (AudioLength x)) (unat len - sizeof_PCM_STATUS) \<or>
           status = STATUS_IO_DEVICE_ERROR \<and> bytes = 0" for status bytes latency
        by (rule fin [OF c s i2])
          (use used(1,4,5,7,8) x(2) Some fl0 hon2 in \<open>simp_all add: io_frame_def flight_set_queue\<close>)
      show thesis
      proof (cases "unat len < sizeof_PCM_STATUS")
        case True
        have "ViosndReclaimPreparedReadPcm K dev = Some (STATUS_IO_DEVICE_ERROR, p, 0, 0, ?d2)"
          using Some used(2,5) rel [of ?d1] True by (simp add: ViosndReclaimPreparedReadPcm_def Let_def)
        then show thesis by (rule res) simp
      next
        case False
        have "unat (AudioLength x) \<le> unat (MaxAudioLength x)" using h(1) by (simp add: word_le_nat_alt)
        then have "unat len - sizeof_PCM_STATUS + sizeof_PCM_STATUS \<le> buf_len ?d2 (AudioVa x)" "dma ?d2 (AudioVa x) \<noteq> None"
          using k h(2) False live [of "AudioVa x"] x(2) by (simp_all add: read_io_ok_def)
        then obtain bs where bs: "dma_read ?d2 (AudioVa x) (unat len - sizeof_PCM_STATUS) sizeof_PCM_STATUS = Some bs"
          using dma_access(1) [OF i2] by blast
        let ?st = "pcm_status_of_bytes bs"
        let ?s = "if ps_status ?st = VIRTIO_SND_S_OK then STATUS_SUCCESS else STATUS_IO_DEVICE_ERROR"
        let ?b = "if NT_SUCCESS ?s then min (AudioLength x) (len - word_of_nat sizeof_PCM_STATUS) else 0"
        have c: "ViosndReclaimPreparedReadPcm K dev = Some (?s, p, ?b, ps_latency_bytes ?st, ?d2)"
          using Some used(2,5) rel [of ?d1] bs False by (simp add: ViosndReclaimPreparedReadPcm_def Let_def)
        have "unat (len - word_of_nat sizeof_PCM_STATUS) = unat len - sizeof_PCM_STATUS"
          using False by (subst unat_sub_of_nat) simp_all
        then show thesis
          by (intro res [OF c]) (auto simp: NT_SUCCESS_def min_def word_le_nat_alt not_less [symmetric] False)
      qed
    qed
  qed
qed

end

section \<open>Detaching\<close>

context virtio_snd
begin

text \<open>With every completion collected, detaching takes a descriptor out of the queue.\<close>

lemma detach_io:
  assumes d: "dev_inv inv inflight E P dev" and q: "Queues dev i = Some q" "pending q = []"
    and i: "i \<in> {VIRTIO_SND_VQ_TX, VIRTIO_SND_VQ_RX}"
  obtains (none) "inflight q = {#}" "vq_detach K i dev = Some (None, dev)"
  | (some) p x q' where "vq_detach K i dev = Some (Some (OIo p), set_queue i q' dev)"
      "dev_inv inv inflight E P (set_queue i q' dev)" "inflight q = add_mset (OIo p) (inflight q')" "pending q' = []"
      "ios dev p = Some x" "AudioVa x = 0 \<longleftrightarrow> i = VIRTIO_SND_VQ_TX" "\<And>j. OIo p \<notin># flight inflight (set_queue i q' dev) j"
      "p \<noteq> 0"
proof -
  note Q = queueD [OF d q(1)]
  show thesis
  proof (cases "inflight q = {#}")
    case True
    then have "vq_detach K i dev = Some (None, dev)"
      using detach_none [of q] Q q(1) by (simp add: vq_detach_def vqops set_queue_same)
    then show thesis using none True by blast
  next
    case False
    then obtain y q' where y: "detach_unused_buf ops q = Some (Some y, q')" "inv q'" "pending q' = []"
      "inflight q = add_mset y (inflight q')"
      using detach_some [of q] Q q(2) by blast
    have tok: "token_ok dev i y" using Q y(4) by simp
    obtain p x where p: "y = OIo p" "ios dev p = Some x" "AudioVa x = 0 \<longleftrightarrow> i = VIRTIO_SND_VQ_TX"
      using tok i by (cases y) (auto simp: token_ok_def split: option.splits)
    have cnt: "count (inflight q') z \<le> 1" for z
    proof -
      have "count (inflight q') z \<le> count (inflight q) z" using y(4) by simp
      also have "\<dots> \<le> 1" using Q by blast
      finally show ?thesis .
    qed
    have nin: "OIo p \<notin># inflight q'"
    proof -
      have "count (inflight q) (OIo p) \<le> 1" using Q by blast
      then show ?thesis using y(4) p(1) by (simp add: not_in_iff)
    qed
    have d1: "dev_inv inv inflight E P (set_queue i q' dev)"
      by (rule dev_inv_set_queue [OF d y(2) cnt]) (use Q y(4) in simp)
    have fl: "OIo p \<notin># flight inflight (set_queue i q' dev) j" for j
    proof (cases "j = i")
      case True
      then show ?thesis using nin by (simp add: flight_set_queue)
    next
      case False
      then have fl: "flight inflight (set_queue i q' dev) j = flight inflight dev j" by (simp add: flight_set_queue)
      show ?thesis
      proof
        assume "OIo p \<in># flight inflight (set_queue i q' dev) j"
        then obtain qj where "Queues dev j = Some qj" "OIo p \<in># inflight qj"
          unfolding fl by (auto simp: flight_def split: option.splits)
        then have "token_ok dev j (OIo p)" using queueD [OF d] by blast
        then show False using p False i by (cases j) (auto simp: token_ok_def split: option.splits)
      qed
    qed
    have "vq_detach K i dev = Some (Some (OIo p), set_queue i q' dev)"
      using y(1) q(1) p(1) by (simp add: vq_detach_def vqops)
    moreover have "p \<noteq> 0" using d p(2) by (auto simp: dev_inv_def mem_inv_def)
    ultimately show thesis using that(2) d1 y p fl by simp
  qed
qed

lemma DetachUnusedWritePcm_ok:
  assumes d: "dev_inv inv inflight E P dev" and e: "pend pending dev VIRTIO_SND_VQ_TX = []"
  obtains (none) status dev' where "ViosndDetachUnusedWritePcm K dev = Some (status, 0, dev')"
      "status \<in> {STATUS_DEVICE_NOT_READY, STATUS_IO_TIMEOUT, STATUS_NOT_FOUND}"
      "dev_inv inv inflight E P dev'" "io_frame dev dev'" "ios dev' = ios dev" "Queues dev' = Queues dev"
      "status = STATUS_NOT_FOUND \<Longrightarrow> flight inflight dev VIRTIO_SND_VQ_TX = {#}"
      "status = STATUS_IO_TIMEOUT \<Longrightarrow> \<not> fst (tx_mutex_granted K (ext dev))"
      "status = STATUS_DEVICE_NOT_READY \<Longrightarrow> Queues dev VIRTIO_SND_VQ_TX = None"
  | (detached) p x dev' where "ViosndDetachUnusedWritePcm K dev = Some (STATUS_SUCCESS, p, dev')"
      "dev_inv inv inflight E P dev'" "io_frame dev dev'" "ios dev' = ios dev" "ios dev p = Some x" "AudioVa x = 0" "p \<noteq> 0"
      "flight inflight dev VIRTIO_SND_VQ_TX = add_mset (OIo p) (flight inflight dev' VIRTIO_SND_VQ_TX)"
      "\<And>j. j \<noteq> VIRTIO_SND_VQ_TX \<Longrightarrow> flight inflight dev' j = flight inflight dev j"
      "\<And>j. OIo p \<notin># flight inflight dev' j" "pend pending dev' VIRTIO_SND_VQ_TX = []"
      "\<And>j. j \<noteq> VIRTIO_SND_VQ_TX \<Longrightarrow> pend pending dev' j = pend pending dev j"
proof -
  let ?T = VIRTIO_SND_VQ_TX
  obtain granted e where g: "tx_mutex_granted K (ext dev) = (granted, e)" by force
  show thesis
  proof (cases "Queues dev ?T")
    case None
    then show thesis
      by (intro none [of STATUS_DEVICE_NOT_READY dev]) (simp_all add: ViosndDetachUnusedWritePcm_def d)
  next
    case (Some q)
    show thesis
    proof (cases granted)
      case False
      then show thesis using g Some d
        by (intro none [of STATUS_IO_TIMEOUT "dev\<lparr>ext := e\<rparr>"])
          (simp_all add: ViosndDetachUnusedWritePcm_def ViosndAcquireTxQueue_def NT_SUCCESS_def io_frame_def)
    next
      case True
      let ?d0 = "KeAcquireMutex ?T (dev\<lparr>ext := e\<rparr>)"
      have i0: "dev_inv inv inflight E P ?d0" using d by simp
      have q0: "Queues ?d0 ?T = Some q" "pending q = []" using Some assms(2) by (simp_all add: pend_def)
      have T: "?T \<in> {VIRTIO_SND_VQ_TX, VIRTIO_SND_VQ_RX}" by simp
      have rel: "KeReleaseMutex ?T d' = Some (d'\<lparr>mutex_count := mutex_count dev\<rparr>)" if "mutex_count d' = mutex_count ?d0" for d'
        by (rule KeReleaseMutex_ok) (use that in simp)
      have acq: "ViosndAcquireTxQueue K dev = (STATUS_SUCCESS, ?d0)"
        using g True by (simp add: ViosndAcquireTxQueue_def)
      show thesis using i0 q0 T
      proof (cases rule: detach_io)
        case none
        have "ViosndDetachUnusedWritePcm K dev = Some (STATUS_NOT_FOUND, 0, ?d0\<lparr>mutex_count := mutex_count dev\<rparr>)"
          using Some acq none(2) rel [of ?d0] by (simp add: ViosndDetachUnusedWritePcm_def NT_SUCCESS_def)
        then show thesis
          by (rule that(1)) (use i0 none(1) Some in \<open>simp_all add: io_frame_def flight_def\<close>)
      next
        case (some p x q')
        let ?d1 = "set_queue ?T q' ?d0"
        let ?d2 = "?d1\<lparr>mutex_count := mutex_count dev\<rparr>"
        have c: "ViosndDetachUnusedWritePcm K dev = Some (STATUS_SUCCESS, p, ?d2)"
          using Some acq some(1) rel [of ?d1] by (simp add: ViosndDetachUnusedWritePcm_def NT_SUCCESS_def)
        have fl0: "flight inflight dev ?T = inflight q" using Some by (simp add: flight_def)
        show thesis
          by (rule that(2) [OF c]) (use some Some fl0 in \<open>simp_all add: io_frame_def flight_set_queue\<close>)
      qed
    qed
  qed
qed

lemma detach_reads_ok:
  assumes "dev_inv inv inflight E P dev" "Queues dev VIRTIO_SND_VQ_RX \<noteq> None" "pend pending dev VIRTIO_SND_VQ_RX = []"
    "dom (ios dev) \<inter> P = {}"
  shows "\<exists>dev'. detach_reads K n dev =
      Some (n + word_of_nat (size (flight inflight dev VIRTIO_SND_VQ_RX)), dev') \<and>
    dev_inv inv inflight E P dev' \<and> io_frame dev dev' \<and> flight inflight dev' VIRTIO_SND_VQ_RX = {#} \<and>
    (\<forall>j. j \<noteq> VIRTIO_SND_VQ_RX \<longrightarrow> flight inflight dev' j = flight inflight dev j \<and> pend pending dev' j = pend pending dev j) \<and>
    (\<forall>p. ios dev' p = (if OIo p \<in># flight inflight dev VIRTIO_SND_VQ_RX then None else ios dev p))"
  using assms
proof (induction "size (flight inflight dev VIRTIO_SND_VQ_RX)" arbitrary: n dev)
  case (0 dev)
  let ?R = VIRTIO_SND_VQ_RX
  obtain q where q: "Queues dev ?R = Some q" "pending q = []" using 0(3,4) by (auto simp: pend_def)
  have fl: "flight inflight dev ?R = inflight q" "inflight q = {#}" using q 0(1) by (simp_all add: flight_def)
  have "vq_detach K ?R dev = Some (None, dev)"
    using detach_none [of q] queueD [OF 0(2) q(1)] q(1) fl by (simp add: vq_detach_def vqops set_queue_same)
  then have "detach_reads K n dev = Some (n, dev)" by (subst detach_reads.simps) simp
  then show ?case using 0 fl by simp
next
  case (Suc k dev)
  let ?R = VIRTIO_SND_VQ_RX
  obtain q where q: "Queues dev ?R = Some q" "pending q = []" using Suc.prems(2,3) by (auto simp: pend_def)
  have fl: "flight inflight dev ?R = inflight q" using q by (simp add: flight_def)
  have R: "?R \<in> {VIRTIO_SND_VQ_TX, VIRTIO_SND_VQ_RX}" by simp
  show ?case using Suc.prems(1) q R
  proof (cases rule: detach_io)
    case none
    then show ?thesis using Suc.hyps(2) fl by simp
  next
    case (some p x q')
    let ?d1 = "set_queue ?R q' dev"
    have x: "ios ?d1 p = Some x" "AudioVa x \<noteq> 0" "p \<notin> P" using some(5,6) Suc.prems(4) by auto
    obtain d2 where d2: "ViosndFreeReadPcmIo ?d1 p = Some d2" "dev_inv inv inflight E P d2"
      "ios d2 = (ios ?d1)(p := None)" "io_frame ?d1 d2" "flight inflight d2 = flight inflight ?d1" "Queues d2 = Queues ?d1"
      by (rule FreeReadPcmIo_ok [OF some(2) x(1,2) some(7) x(3)]) (rule that; assumption)
    have fl2: "flight inflight dev ?R = add_mset (OIo p) (flight inflight d2 ?R)"
      using fl some(3) d2(5) by (simp add: flight_set_queue)
    have k: "k = size (flight inflight d2 ?R)" using fl2 Suc.hyps(2) by simp
    have Q2: "Queues d2 ?R \<noteq> None" "pend pending d2 ?R = []" using d2(6) some(4) by (simp_all add: pend_def)
    have D2: "dom (ios d2) \<inter> P = {}" using d2(3) Suc.prems(4) by auto
    obtain d3 where d3: "detach_reads K (n + 1) d2 = Some (n + 1 + word_of_nat (size (flight inflight d2 ?R)), d3)"
      "dev_inv inv inflight E P d3" "io_frame d2 d3" "flight inflight d3 ?R = {#}"
      "\<forall>j. j \<noteq> ?R \<longrightarrow> flight inflight d3 j = flight inflight d2 j \<and> pend pending d3 j = pend pending d2 j"
      "\<forall>p. ios d3 p = (if OIo p \<in># flight inflight d2 ?R then None else ios d2 p)"
      using Suc.hyps(1) [OF k d2(2) Q2 D2, of "n + 1"] by blast
    have "detach_reads K n dev = detach_reads K (n + 1) d2"
      by (subst detach_reads.simps) (simp add: some(1) d2(1))
    then have "detach_reads K n dev = Some (n + word_of_nat (size (flight inflight dev ?R)), d3)"
      using d3(1) fl2 by simp
    moreover have "io_frame dev ?d1" using q(1) by (simp add: io_frame_def)
    then have "io_frame dev d3" using d2(4) d3(3) io_frame_trans by blast
    moreover have "pend pending d2 = pend pending ?d1" by (rule pend_cong [OF d2(6)])
    ultimately show ?thesis using d3(2,4-6) d2(3,5) fl2 by (auto simp: flight_set_queue)
  qed
qed

lemma DetachUnusedReadPcm_ok:
  assumes "dev_inv inv inflight E P dev" "pend pending dev VIRTIO_SND_VQ_RX = []" "dom (ios dev) \<inter> P = {}"
  shows "\<exists>dev'. ViosndDetachUnusedReadPcm K dev = Some (word_of_nat (size (flight inflight dev VIRTIO_SND_VQ_RX)), dev') \<and>
    dev_inv inv inflight E P dev' \<and> io_frame dev dev' \<and> flight inflight dev' VIRTIO_SND_VQ_RX = {#} \<and>
    (\<forall>j. j \<noteq> VIRTIO_SND_VQ_RX \<longrightarrow> flight inflight dev' j = flight inflight dev j \<and> pend pending dev' j = pend pending dev j) \<and>
    (\<forall>p. ios dev' p = (if OIo p \<in># flight inflight dev VIRTIO_SND_VQ_RX then None else ios dev p))"
proof (cases "Queues dev VIRTIO_SND_VQ_RX = None")
  case True
  then show ?thesis using assms(1) by (simp add: ViosndDetachUnusedReadPcm_def flight_def)
next
  case False
  let ?R = VIRTIO_SND_VQ_RX
  let ?d0 = "KeAcquireMutex ?R dev"
  have "dev_inv inv inflight E P ?d0" "Queues ?d0 ?R \<noteq> None" "pend pending ?d0 ?R = []" "dom (ios ?d0) \<inter> P = {}"
    using assms False by simp_all
  from detach_reads_ok [OF this, of 0] obtain d1 where d1:
    "detach_reads K 0 ?d0 = Some (word_of_nat (size (flight inflight dev ?R)), d1)" "dev_inv inv inflight E P d1"
    "io_frame ?d0 d1" "flight inflight d1 ?R = {#}"
    "\<forall>j. j \<noteq> ?R \<longrightarrow> flight inflight d1 j = flight inflight dev j \<and> pend pending d1 j = pend pending dev j"
    "\<forall>p. ios d1 p = (if OIo p \<in># flight inflight dev ?R then None else ios dev p)" by auto
  let ?d2 = "d1\<lparr>mutex_count := mutex_count dev\<rparr>"
  have "KeReleaseMutex ?R d1 = Some ?d2"
    by (rule KeReleaseMutex_ok) (use d1(3) in \<open>simp add: io_frame_def\<close>)
  then have "ViosndDetachUnusedReadPcm K dev = Some (word_of_nat (size (flight inflight dev ?R)), ?d2)"
    unfolding ViosndDetachUnusedReadPcm_def if_not_P [OF False] Let_def d1(1) by simp
  moreover have "io_frame dev ?d2" using d1(3) by (simp add: io_frame_def)
  ultimately show ?thesis using d1(2,4-6) by simp
qed

lemma KickTxQueue_ok:
  assumes d: "dev_inv inv inflight E P dev"
  obtains dev' where "ViosndKickTxQueue K dev = Some dev'" "dev_inv inv inflight E P dev'" "waited inflight dev dev'"
proof (cases "Queues dev VIRTIO_SND_VQ_TX = None")
  case True
  then have "ViosndKickTxQueue K dev = Some dev" by (simp add: ViosndKickTxQueue_def)
  then show thesis using d that by simp
next
  case qT: False
  obtain granted e where g: "tx_mutex_granted K (ext dev) = (granted, e)" by force
  show thesis
  proof (cases granted)
    case False
    have "ViosndKickTxQueue K dev = Some (dev\<lparr>ext := e\<rparr>)"
      unfolding ViosndKickTxQueue_def if_not_P [OF qT] Let_def
      using g False by (simp add: ViosndAcquireTxQueue_def NT_SUCCESS_def)
    then show thesis using d
      by (intro that [of "dev\<lparr>ext := e\<rparr>"]) (simp_all add: waited_def drv_def)
  next
    case True
    let ?d0 = "KeAcquireMutex VIRTIO_SND_VQ_TX (dev\<lparr>ext := e\<rparr>)"
    have i0: "dev_inv inv inflight E P ?d0" and q0: "Queues ?d0 VIRTIO_SND_VQ_TX \<noteq> None" using d qT by simp_all
    obtain d1 where d1: "vq_kick_always K VIRTIO_SND_VQ_TX ?d0 = Some d1" "dev_inv inv inflight E P d1" "waited inflight ?d0 d1"
      using kick_always_waited [OF i0 q0] by metis
    let ?d2 = "d1\<lparr>mutex_count := mutex_count dev\<rparr>"
    have "KeReleaseMutex VIRTIO_SND_VQ_TX d1 = Some ?d2"
      by (rule KeReleaseMutex_ok) (use d1(3) in \<open>simp add: waited_def\<close>)
    then have "ViosndKickTxQueue K dev = Some ?d2"
      unfolding ViosndKickTxQueue_def if_not_P [OF qT] Let_def
      using g True d1(1) by (simp add: ViosndAcquireTxQueue_def NT_SUCCESS_def)
    moreover have "waited inflight dev ?d2" using d1(3) by (simp add: waited_def drv_def)
    ultimately show thesis using d1(2) that by simp
  qed
qed

end

section \<open>Properties\<close>

lemma Un_Diff_cancel_disjoint: "B \<inter> A = {} \<Longrightarrow> (A \<union> B) - B = A"
  by blast

context virtio_snd
begin

lemma io_not_flying:
  assumes "dev_inv inv inflight E P dev" "p \<notin> dom (ios dev)"
  shows "OIo p \<notin># flight inflight dev i"
proof (cases "Queues dev i")
  case (Some q)
  then show ?thesis using queueD [OF assms(1) Some] assms(2) by (auto simp: flight_def token_ok_def)
qed (simp add: flight_def)

text \<open>A descriptor that is allocated and released leaves the memory as it was.\<close>

lemma write_lifecycle:
  assumes d: "dev_inv inv inflight E P dev" and n: "unat n + sizeof_PCM_XFER < 2 ^ 32"
  shows "\<exists>status p dev'. ViosndAllocateWritePcmIo K n dev = Some (status, p, dev') \<and>
    dev_inv inv inflight E P dev' \<and> io_frame dev dev' \<and> Queues dev' = Queues dev \<and>
    (if p = 0 then status = STATUS_INSUFFICIENT_RESOURCES \<and> ios dev' = ios dev \<and> dom (dma dev') = dom (dma dev)
     else status = STATUS_SUCCESS \<and> p \<notin> dom (ios dev) \<and>
       (\<exists>x. ios dev' = (ios dev)(p \<mapsto> x) \<and> unat (RequestLength x) = sizeof_PCM_XFER + unat n \<and>
          io_bufs x \<inter> dom (dma dev) = {}) \<and>
       (\<exists>dev''. ViosndFreeWritePcmIo dev' p = Some dev'' \<and> dev_inv inv inflight E P dev'' \<and>
          ios dev'' = ios dev \<and> io_frame dev dev'' \<and> dom (dma dev'') = dom (dma dev)))"
  using d n
proof (cases rule: AllocateWritePcmIo_ok)
  case (failed dev')
  then show ?thesis by auto
next
  case (ok p x dev')
  have "OIo p \<notin># flight inflight dev i" for i by (rule io_not_flying [OF d ok(4)])
  then have fly: "OIo p \<notin># flight inflight dev' i" for i using flight_cong [OF ok(10)] by simp
  have x: "ios dev' p = Some x" using ok(3) by simp
  obtain dev'' where f: "ViosndFreeWritePcmIo dev' p = Some dev''" "dev_inv inv inflight E P dev''"
    "ios dev'' = (ios dev')(p := None)" "io_frame dev' dev''" "flight inflight dev'' = flight inflight dev'"
    "Queues dev'' = Queues dev'" "dom (dma dev'') = dom (dma dev') - io_bufs x"
    by (rule FreeWritePcmIo_ok [OF ok(2) x ok(7) fly ok(6)]) (rule that; assumption)
  have "ios dev'' = (ios dev)(p := None)" by (simp add: f(3) ok(3))
  also have "\<dots> = ios dev" by (rule fun_upd_idem) (use ok(4) in auto)
  finally have "ios dev'' = ios dev" .
  moreover have "dom (dma dev'') = dom (dma dev)"
    unfolding f(7) ok(11) by (rule Un_Diff_cancel_disjoint [OF ok(12)])
  ultimately have g: "\<exists>dev''. ViosndFreeWritePcmIo dev' p = Some dev'' \<and> dev_inv inv inflight E P dev'' \<and>
      ios dev'' = ios dev \<and> io_frame dev dev'' \<and> dom (dma dev'') = dom (dma dev)"
    using f(1,2) io_frame_trans [OF ok(9) f(4)] by blast
  show ?thesis
    using ok(1,2,4,5,9,10) ok(3,8,12) g
    by (intro exI [of _ STATUS_SUCCESS] exI [of _ p] exI [of _ dev'] conjI) (simp_all only: if_False simp_thms, blast)
qed

lemma read_lifecycle:
  assumes d: "dev_inv inv inflight E P dev" and n: "unat n + sizeof_PCM_STATUS < 2 ^ 32"
  shows "\<exists>status p dev'. ViosndAllocateReadPcmIo K n dev = Some (status, p, dev') \<and>
    dev_inv inv inflight E P dev' \<and> io_frame dev dev' \<and> Queues dev' = Queues dev \<and>
    (if p = 0 then status = STATUS_INSUFFICIENT_RESOURCES \<and> ios dev' = ios dev \<and> dom (dma dev') = dom (dma dev)
     else status = STATUS_SUCCESS \<and> p \<notin> dom (ios dev) \<and>
       (\<exists>x. ios dev' = (ios dev)(p \<mapsto> x) \<and> MaxAudioLength x = n \<and> io_bufs x \<inter> dom (dma dev) = {}) \<and>
       (\<exists>dev''. ViosndFreeReadPcmIo dev' p = Some dev'' \<and> dev_inv inv inflight E P dev'' \<and>
          ios dev'' = ios dev \<and> io_frame dev dev'' \<and> dom (dma dev'') = dom (dma dev)))"
  using d n
proof (cases rule: AllocateReadPcmIo_ok)
  case (failed dev')
  then show ?thesis by auto
next
  case (ok p x dev')
  have "OIo p \<notin># flight inflight dev i" for i by (rule io_not_flying [OF d ok(4)])
  then have fly: "OIo p \<notin># flight inflight dev' i" for i using flight_cong [OF ok(10)] by simp
  have x: "ios dev' p = Some x" using ok(3) by simp
  obtain dev'' where f: "ViosndFreeReadPcmIo dev' p = Some dev''" "dev_inv inv inflight E P dev''"
    "ios dev'' = (ios dev')(p := None)" "io_frame dev' dev''" "flight inflight dev'' = flight inflight dev'"
    "Queues dev'' = Queues dev'" "dom (dma dev'') = dom (dma dev') - io_bufs x"
    by (rule FreeReadPcmIo_ok [OF ok(2) x ok(7) fly ok(6)]) (rule that; assumption)
  have "ios dev'' = (ios dev)(p := None)" by (simp add: f(3) ok(3))
  also have "\<dots> = ios dev" by (rule fun_upd_idem) (use ok(4) in auto)
  finally have "ios dev'' = ios dev" .
  moreover have "dom (dma dev'') = dom (dma dev)"
    unfolding f(7) ok(11) by (rule Un_Diff_cancel_disjoint [OF ok(12)])
  ultimately have g: "\<exists>dev''. ViosndFreeReadPcmIo dev' p = Some dev'' \<and> dev_inv inv inflight E P dev'' \<and>
      ios dev'' = ios dev \<and> io_frame dev dev'' \<and> dom (dma dev'') = dom (dma dev)"
    using f(1,2) io_frame_trans [OF ok(9) f(4)] by blast
  show ?thesis
    using ok(1,2,4,5,9,10) ok(3,8,12) g
    by (intro exI [of _ STATUS_SUCCESS] exI [of _ p] exI [of _ dev'] conjI) (simp_all only: if_False simp_thms, blast)
qed

text \<open>What waiting does to the completions: only new ones are added.\<close>

lemma submit_complete_reclaim:
  assumes d: "dev_inv inv inflight E P dev" and x: "ios dev p = Some x" "AudioVa x = 0"
    and fly: "\<And>i. OIo p \<notin># flight inflight dev i" and n: "length buffer < 2 ^ 32"
    and s: "ViosndSubmitPreparedWritePcm K sid buffer srcLen pn p dev = Some (STATUS_SUCCESS, dev1)"
    and c: "pend pending (KeDelay K dev1) VIRTIO_SND_VQ_TX = (OIo p, len) # rest"
    and g: "fst (tx_mutex_granted K (ext (KeDelay K dev1)))"
  shows "\<exists>latency dev2. ViosndReclaimPreparedWritePcm K (KeDelay K dev1) =
      Some (STATUS_SUCCESS, p, word_of_nat (length buffer), latency, dev2) \<and>
    dev_inv inv inflight E P dev2 \<and> io_frame dev dev2 \<and> flight inflight dev2 = flight inflight dev \<and>
    ViosndGetPcmIoPacketNumber dev2 p = Some pn \<and>
    ViosndGetPcmIoSourceLength dev2 p = Some (if srcLen \<noteq> 0 then srcLen else word_of_nat (length buffer))"
proof -
  let ?T = VIRTIO_SND_VQ_TX
  obtain y where y: "dev_inv inv inflight E P dev1" "ios dev1 = (ios dev)(p \<mapsto> y)" "same_bufs x y" "io_frame dev dev1"
    "PacketNumber y = pn" "AudioLength y = word_of_nat (length buffer)"
    "SourceLength y = (if srcLen \<noteq> 0 then srcLen else word_of_nat (length buffer))"
    "flight inflight dev1 = (flight inflight dev)(?T := add_mset (OIo p) (flight inflight dev ?T))"
    using s by (cases rule: SubmitPreparedWritePcm_ok [OF d x fly n, of sid srcLen pn]) auto
  let ?d = "KeDelay K dev1"
  note w = KeDelay_waited [OF y(1)]
  have k: "drv ?d = drv dev1" "flight inflight ?d = flight inflight dev1" "io_frame dev1 ?d"
    using w by (simp_all add: waited_def io_frame_drv)
  have i: "ios ?d p = Some y" using drv_simps [OF k(1)] y(2) by simp
  show ?thesis using conjunct1 [OF w]
  proof (cases rule: ReclaimPreparedWritePcm_ok)
    case (none status dev')
    then show ?thesis using c g by (auto simp: pend_def)
  next
    case (completed p' x' len' latency dev2)
    have p: "p' = p" using completed(11) c by simp
    then have x': "x' = y" using completed(5) i by simp
    have "flight inflight dev2 j = flight inflight dev j" for j
      using completed(8,9) k(2) y(8) p by (cases "j = ?T") auto
    then have "flight inflight dev2 = flight inflight dev" by (rule ext)
    moreover have "io_frame dev dev2" using io_frame_trans [OF y(4) io_frame_trans [OF k(3) completed(3)]] .
    moreover have "ios dev2 p = Some y" "p \<noteq> 0" using completed(4,7) i p by simp_all
    ultimately show ?thesis
      using completed(1,2) p x' y(5-7) by (simp add: ViosndGetPcmIoPacketNumber_def ViosndGetPcmIoSourceLength_def)
  qed
qed

end

text \<open>The device of \<open>prompt_kernel\<close> makes progress.\<close>

lemma complete_one_progress:
  assumes i: "split_inv vq" and p: "split_pending vq = []" and f: "split_inflight vq = {#x#}"
  shows "split_pending (complete_one vq) = [(x, 8)]"
proof -
  have u: "used_heads vq = []" using p by (simp add: split_pending_def used_heads_def)
  let ?P = "\<lambda>h. opaques vq ! h \<noteq> None \<and> h \<notin> set (used_heads vq)"
  have "x \<in># tokens (opaques vq)" using f by (simp add: split_inflight_def)
  then obtain h where h: "h < length (opaques vq)" "opaques vq ! h = Some x"
    by (auto simp: tokens_def in_set_conv_nth split: option.splits)
  have "List.find ?P [0..<length (opaques vq)] \<noteq> None" using h u by (auto simp: find_None_iff)
  then obtain g where g: "List.find ?P [0..<length (opaques vq)] = Some g" by blast
  then obtain y where y: "g < length (opaques vq)" "opaques vq ! g = Some y" "g \<notin> set (used_heads vq)"
    by (auto simp: find_Some_iff)
  have "y \<in># tokens (opaques vq)" using y(1,2) by (auto simp: tokens_def in_set_conv_nth intro!: exI [of _ "[y]"] bexI [of _ g])
  then have "y = x" using f by (simp add: split_inflight_def)
  then show ?thesis using device_complete_ok [OF i y, of 8] g p by (simp add: complete_one_def)
qed

text \<open>A descriptor on the idle device, ready to submit.\<close>

lemma prompt_alloc:
  obtains p x dev where "ViosndAllocateWritePcmIo prompt_kernel 2048 blank_device = Some (STATUS_SUCCESS, p, dev)"
    "dev_inv split_inv split_inflight {} {} dev" "ios dev p = Some x" "AudioVa x = 0" "unat (RequestLength x) = 2052"
    "Queues dev = Queues blank_device"
proof -
  have s: "map_option fst (ViosndAllocateWritePcmIo prompt_kernel 2048 blank_device) = Some STATUS_SUCCESS"
    by (simp add: ViosndAllocateWritePcmIo_def pool_alloc_def ViosndAllocControlBuffer_def ViosndAllocateDmaBuffer_def
        prompt_kernel_def idle_kernel_def blank_device_def ROUND_TO_PAGES_def Let_def)
  have n: "unat (2048 :: u32) + sizeof_PCM_XFER < 2 ^ 32" by simp
  show thesis using blank_inv n
  proof (cases rule: prompt.AllocateWritePcmIo_ok)
    case (ok p x dev')
    then show thesis by (intro that [of p dev' x]) simp_all
  next
    case (failed dev')
    then show thesis using s by simp
  qed
qed



text \<open>
  C6: a playback packet makes the round trip.  A successful submission has put the stream id and
  the audio bytes into the DMA buffer of the descriptor.  Once the device has completed it,
  reclaiming hands back the same descriptor with the length, the packet number and the source
  length it was submitted with; everything else in flight stays there and the mutexes are as
  before.
\<close>

theorem write_transfer_roundtrip:
  assumes "kernel_ok K" "dev_inv split_inv split_inflight E P dev" "ios dev p = Some x" "AudioVa x = 0"
    "\<forall>i. OIo p \<notin># flight split_inflight dev i" "length buffer < 2 ^ 32"
    "ViosndSubmitPreparedWritePcm K sid buffer srcLen pn p dev = Some (STATUS_SUCCESS, dev1)"
    "pend split_pending (KeDelay K dev1) VIRTIO_SND_VQ_TX = (OIo p, len) # rest"
    "fst (tx_mutex_granted K (ext (KeDelay K dev1)))"
  shows "dma_read dev1 (RequestVa x) 0 4 = Some (le_bytes32 sid) \<and>
    dma_read dev1 (RequestVa x) sizeof_PCM_XFER (length buffer) = Some buffer \<and>
    (\<exists>latency dev2. ViosndReclaimPreparedWritePcm K (KeDelay K dev1) =
        Some (STATUS_SUCCESS, p, word_of_nat (length buffer), latency, dev2) \<and>
      dev_inv split_inv split_inflight E P dev2 \<and> io_frame dev dev2 \<and>
      flight split_inflight dev2 = flight split_inflight dev \<and>
      ViosndGetPcmIoPacketNumber dev2 p = Some pn \<and>
      ViosndGetPcmIoSourceLength dev2 p = Some (if srcLen \<noteq> 0 then srcLen else word_of_nat (length buffer)))"
proof (intro conjI)
  note c = kernel_ok_client [OF assms(1)]
  have fly: "OIo p \<notin># flight split_inflight dev i" for i using assms(5) by blast
  show "dma_read dev1 (RequestVa x) 0 4 = Some (le_bytes32 sid)"
    "dma_read dev1 (RequestVa x) sizeof_PCM_XFER (length buffer) = Some buffer"
    using assms(7) by (cases rule: virtio_snd.SubmitPreparedWritePcm_ok [OF c assms(2-4) fly assms(6), of sid srcLen pn];
      auto)+
  show "\<exists>latency dev2. ViosndReclaimPreparedWritePcm K (KeDelay K dev1) =
        Some (STATUS_SUCCESS, p, word_of_nat (length buffer), latency, dev2) \<and>
      dev_inv split_inv split_inflight E P dev2 \<and> io_frame dev dev2 \<and>
      flight split_inflight dev2 = flight split_inflight dev \<and>
      ViosndGetPcmIoPacketNumber dev2 p = Some pn \<and>
      ViosndGetPcmIoSourceLength dev2 p = Some (if srcLen \<noteq> 0 then srcLen else word_of_nat (length buffer))"
    by (rule virtio_snd.submit_complete_reclaim [OF c assms(2-4) fly assms(6-9)])
qed

theorem write_transfer_roundtrip_witness:
  "\<exists>p dev dev1 latency dev2.
     ViosndSubmitPreparedWritePcm prompt_kernel 1 [1, 2, 3, 4] 4 7 p dev = Some (STATUS_SUCCESS, dev1) \<and>
     ViosndReclaimPreparedWritePcm prompt_kernel (KeDelay prompt_kernel dev1) = Some (STATUS_SUCCESS, p, 4, latency, dev2) \<and>
     ViosndGetPcmIoPacketNumber dev2 p = Some 7"
proof -
  obtain p x dev where a: "dev_inv split_inv split_inflight {} {} dev" "ios dev p = Some x" "AudioVa x = 0"
    "unat (RequestLength x) = 2052" "Queues dev = Queues blank_device"
    "ViosndAllocateWritePcmIo prompt_kernel 2048 blank_device = Some (STATUS_SUCCESS, p, dev)"
    by (rule prompt_alloc) (rule that; assumption)
  have q: "Queues dev VIRTIO_SND_VQ_TX = Some ring2" using a(5) by (simp add: blank_device_def)
  have fl: "flight split_inflight dev i = {#}" "pend split_pending dev i = []" for i
    using a(5) ring2_inv [where 'o = opaque] by (simp_all add: flight_def pend_def blank_device_def)
  have fly: "OIo p \<notin># flight split_inflight dev i" for i by (simp add: fl)
  have n: "length [1, 2, 3, 4 :: u8] < 2 ^ 32" by simp
  have g: "fst (tx_mutex_granted prompt_kernel e)" for e by (simp add: prompt_kernel_def idle_kernel_def)
  obtain y dev1 where s: "ViosndSubmitPreparedWritePcm prompt_kernel 1 [1, 2, 3, 4] 4 7 p dev = Some (STATUS_SUCCESS, dev1)"
    "dev_inv split_inv split_inflight {} {} dev1" "flight split_inflight dev1 VIRTIO_SND_VQ_TX = {#OIo p#}"
    "pend split_pending dev1 = pend split_pending dev" "io_frame dev dev1"
    by (rule prompt.SubmitPreparedWritePcm_ok [OF a(1-3) fly n, of 1 4 7])
      (use g a(4) q fl ring2_inv [where 'o = opaque] in auto)
  obtain q1 where q1: "Queues dev1 VIRTIO_SND_VQ_TX = Some q1" using s(5) q by (metis io_frame_def option.exhaust option.distinct(1))
  have k: "split_inv q1" using prompt.queueD [OF s(2) q1] by blast
  have p1: "split_pending q1 = []" "split_inflight q1 = {#OIo p#}"
    using s(3) fun_cong [OF s(4), of VIRTIO_SND_VQ_TX] q1 by (simp_all add: flight_def fl(2)) (simp add: pend_def)
  have "pend split_pending (KeDelay prompt_kernel dev1) VIRTIO_SND_VQ_TX = (OIo p, 8) # []"
    using complete_one_progress [OF k p1] q1 by (simp add: pend_def KeDelay_def prompt_kernel_def)
  from write_transfer_roundtrip [OF prompt_kernel_ok a(1-3) _ n s(1) this g] fly have
    "\<exists>latency dev2. ViosndReclaimPreparedWritePcm prompt_kernel (KeDelay prompt_kernel dev1) =
       Some (STATUS_SUCCESS, p, 4, latency, dev2) \<and> ViosndGetPcmIoPacketNumber dev2 p = Some 7"
    by auto
  with s(1) show ?thesis by blast
qed

text \<open>
  C12: submitting a playback packet always returns.  It succeeds and the descriptor is in flight,
  or it fails for one of four reasons, each named by its status (no queue, a packet larger than
  the descriptor, no TX mutex in time, a full ring), and then nothing is in flight that was not
  before.  In every case the invariant holds, the mutexes are released and no buffer is lost.
\<close>

theorem submit_write_outcomes:
  assumes "kernel_ok K" "dev_inv split_inv split_inflight E P dev" "ios dev p = Some x" "AudioVa x = 0"
    "\<forall>i. OIo p \<notin># flight split_inflight dev i" "length buffer < 2 ^ 32"
  shows "\<exists>status dev' y. ViosndSubmitPreparedWritePcm K sid buffer srcLen pn p dev = Some (status, dev') \<and>
    dev_inv split_inv split_inflight E P dev' \<and> ios dev' = (ios dev)(p \<mapsto> y) \<and> same_bufs x y \<and> io_frame dev dev' \<and>
    pend split_pending dev' = pend split_pending dev \<and>
    (if status = STATUS_SUCCESS
     then flight split_inflight dev' = (flight split_inflight dev)(VIRTIO_SND_VQ_TX :=
       add_mset (OIo p) (flight split_inflight dev VIRTIO_SND_VQ_TX))
     else flight split_inflight dev' = flight split_inflight dev \<and>
       (status = STATUS_DEVICE_NOT_READY \<and> Queues dev VIRTIO_SND_VQ_TX = None \<or>
        status = STATUS_INVALID_PARAMETER \<and> unat (RequestLength x) < sizeof_PCM_XFER + length buffer \<or>
        status = STATUS_IO_TIMEOUT \<and> \<not> fst (tx_mutex_granted K (ext dev)) \<or>
        status = STATUS_DEVICE_BUSY \<and> (\<exists>q. Queues dev VIRTIO_SND_VQ_TX = Some q \<and> split_room q < 2)))"
proof -
  note c = kernel_ok_client [OF assms(1)]
  have fly: "OIo p \<notin># flight split_inflight dev i" for i using assms(5) by blast
  show ?thesis
  proof (rule virtio_snd.SubmitPreparedWritePcm_ok [OF c assms(2-4) fly assms(6), of sid srcLen pn], goal_cases)
    case (1 status y dev')
    moreover have "status \<noteq> STATUS_SUCCESS" using 1(2) by auto
    ultimately show ?case by auto
  next
    case (2 y dev')
    then show ?case by auto
  qed
qed

theorem submit_write_outcomes_witness:
  "\<exists>p dev dev'. dev_inv split_inv split_inflight {} {} dev \<and>
     ViosndSubmitPreparedWritePcm prompt_kernel 1 (replicate 4096 0) 4096 7 p dev = Some (STATUS_INVALID_PARAMETER, dev') \<and>
     dev_inv split_inv split_inflight {} {} dev'"
proof -
  obtain p x dev where a: "dev_inv split_inv split_inflight {} {} dev" "ios dev p = Some x" "AudioVa x = 0"
    "unat (RequestLength x) = 2052" "Queues dev = Queues blank_device"
    "ViosndAllocateWritePcmIo prompt_kernel 2048 blank_device = Some (STATUS_SUCCESS, p, dev)"
    by (rule prompt_alloc) (rule that; assumption)
  have q: "Queues dev VIRTIO_SND_VQ_TX = Some ring2" using a(5) by (simp add: blank_device_def)
  have fly: "\<forall>i. OIo p \<notin># flight split_inflight dev i"
    using a(5) ring2_inv [where 'o = opaque] by (simp add: flight_def blank_device_def)
  have n: "length (replicate 4096 (0 :: u8)) < 2 ^ 32" by simp
  have "\<exists>d. ViosndSubmitPreparedWritePcm prompt_kernel 1 (replicate 4096 0) 4096 7 p dev = Some (STATUS_INVALID_PARAMETER, d)"
    using a(2,4) q by (simp add: ViosndSubmitPreparedWritePcm_def Let_def)
  with submit_write_outcomes [OF prompt_kernel_ok a(1-3) fly n, of 1 4096 7]
  have "\<exists>d. ViosndSubmitPreparedWritePcm prompt_kernel 1 (replicate 4096 0) 4096 7 p dev = Some (STATUS_INVALID_PARAMETER, d) \<and>
      dev_inv split_inv split_inflight {} {} d" by auto
  with a(1) show ?thesis by blast
qed



end
