(* ===== verification/Wave_Sample.thy ===== *)
theory Wave_Sample
  imports Pcm_Format "HOL-Library.Sublist"
begin

text \<open>
  The stateless helpers of \<open>viosnd/sys/ViosndWaveRT.cpp\<close>: the wave format the driver offers and
  accepts, packet arithmetic (outstanding-packet targets, packet-number comparison, buffer
  geometry, QPC time to bytes) and sample processing (peak, gain, downsampling for the fallback
  format).
\<close>

abbreviation (input) VIOSND_RENDER_IO_POOL_SIZE :: nat where "VIOSND_RENDER_IO_POOL_SIZE \<equiv> 12"
abbreviation (input) VIOSND_RENDER_TARGET_OUTSTANDING_PACKETS :: u32 where
  "VIOSND_RENDER_TARGET_OUTSTANDING_PACKETS \<equiv> 8"
abbreviation (input) VIOSND_RENDER_CYCLIC_OUTSTANDING_PACKETS :: u32 where
  "VIOSND_RENDER_CYCLIC_OUTSTANDING_PACKETS \<equiv> 2"
abbreviation (input) VIOSND_RENDER_FALLBACK_OUTSTANDING_PACKETS :: u32 where
  "VIOSND_RENDER_FALLBACK_OUTSTANDING_PACKETS \<equiv> 2"
abbreviation (input) VIOSND_RENDER_START_PREROLL_PACKETS :: u32 where
  "VIOSND_RENDER_START_PREROLL_PACKETS \<equiv> 2"
abbreviation (input) VIOSND_RENDER_CYCLIC_PREROLL_PACKETS :: u32 where
  "VIOSND_RENDER_CYCLIC_PREROLL_PACKETS \<equiv> VIOSND_RENDER_START_PREROLL_PACKETS"
abbreviation (input) VIOSND_CAPTURE_IO_POOL_SIZE :: nat where "VIOSND_CAPTURE_IO_POOL_SIZE \<equiv> 8"
abbreviation (input) VIOSND_CAPTURE_TARGET_OUTSTANDING_PACKETS :: u32 where
  "VIOSND_CAPTURE_TARGET_OUTSTANDING_PACKETS \<equiv> 4"
abbreviation (input) VIOSND_COMPLETION_STALL_LOG_LOOPS :: u32 where
  "VIOSND_COMPLETION_STALL_LOG_LOOPS \<equiv> 50"
abbreviation (input) VIOSND_RENDER_REKICK_STALL_LOOPS :: u32 where
  "VIOSND_RENDER_REKICK_STALL_LOOPS \<equiv> 5"
abbreviation (input) VIOSND_CAPTURE_STOP_RECLAIM_POLLS :: nat where
  "VIOSND_CAPTURE_STOP_RECLAIM_POLLS \<equiv> 2"
abbreviation (input) VIOSND_CAPTURE_SOFTWARE_GAIN :: int where "VIOSND_CAPTURE_SOFTWARE_GAIN \<equiv> 1"
abbreviation (input) VIOSND_FALLBACK_MONITOR_MS :: int where "VIOSND_FALLBACK_MONITOR_MS \<equiv> 2000"
abbreviation (input) VIOSND_FALLBACK_TRIGGER_PERCENT :: nat where
  "VIOSND_FALLBACK_TRIGGER_PERCENT \<equiv> 65"

section \<open>The wave format\<close>

datatype guid = KSDATAFORMAT_TYPE_AUDIO | KSDATAFORMAT_SUBTYPE_PCM
  | KSDATAFORMAT_SPECIFIER_WAVEFORMATEX | Other_guid nat

abbreviation (input) WAVE_FORMAT_PCM :: u16 where "WAVE_FORMAT_PCM \<equiv> 1"
abbreviation (input) WAVE_FORMAT_EXTENSIBLE :: u16 where "WAVE_FORMAT_EXTENSIBLE \<equiv> 0xFFFE"
abbreviation (input) KSAUDIO_SPEAKER_STEREO :: u32 where "KSAUDIO_SPEAKER_STEREO \<equiv> 3"

text \<open>
  \<open>KSDATAFORMAT\<close>, \<open>WAVEFORMATEX\<close> and \<open>WAVEFORMATEXTENSIBLE\<close> in one record; the code reads the
  later fields only after checking \<open>FormatSize\<close>.
\<close>

record KSDATAFORMAT =
  FormatSize :: u32
  MajorFormat :: guid
  SubFormat :: guid
  Specifier :: guid
  wFormatTag :: u16
  nChannels :: u16
  nSamplesPerSec :: u32
  wBitsPerSample :: u16
  nBlockAlign :: u16
  nAvgBytesPerSec :: u32
  cbSize :: u16
  wValidBitsPerSample :: u16
  dwChannelMask :: u32
  ExtSubFormat :: guid

text \<open>The sizes of the structures of the Windows headers.\<close>

record format_sizes =
  sizeof_KSDATAFORMAT_WAVEFORMATEX :: u32
  sizeof_KSDATAFORMAT_WAVEFORMATEXTENSIBLE :: u32
  sizeof_WAVEFORMATEX :: u16
  sizeof_WAVEFORMATEXTENSIBLE :: u16

definition ViosndBuildDefaultFormat :: "format_sizes \<Rightarrow> KSDATAFORMAT" where
  "ViosndBuildDefaultFormat S =
     \<lparr>FormatSize = sizeof_KSDATAFORMAT_WAVEFORMATEXTENSIBLE S, MajorFormat = KSDATAFORMAT_TYPE_AUDIO,
      SubFormat = KSDATAFORMAT_SUBTYPE_PCM, Specifier = KSDATAFORMAT_SPECIFIER_WAVEFORMATEX,
      wFormatTag = WAVE_FORMAT_EXTENSIBLE, nChannels = ucast VIOSND_DEFAULT_CHANNELS,
      nSamplesPerSec = VIOSND_DEFAULT_SAMPLE_RATE,
      wBitsPerSample = ucast VIOSND_DEFAULT_BITS_PER_SAMPLE,
      nBlockAlign = (ucast VIOSND_DEFAULT_CHANNELS * ucast VIOSND_DEFAULT_BITS_PER_SAMPLE) div 8,
      nAvgBytesPerSec = VIOSND_DEFAULT_SAMPLE_RATE *
        ucast ((ucast VIOSND_DEFAULT_CHANNELS * ucast VIOSND_DEFAULT_BITS_PER_SAMPLE) div 8 :: u16),
      cbSize = sizeof_WAVEFORMATEXTENSIBLE S - sizeof_WAVEFORMATEX S,
      wValidBitsPerSample = ucast VIOSND_DEFAULT_BITS_PER_SAMPLE,
      dwChannelMask = KSAUDIO_SPEAKER_STEREO, ExtSubFormat = KSDATAFORMAT_SUBTYPE_PCM\<rparr>"

definition ViosndIsDefaultFormat :: "format_sizes \<Rightarrow> KSDATAFORMAT option \<Rightarrow> bool" where
  "ViosndIsDefaultFormat S format =
     (let blockAlign = (ucast VIOSND_DEFAULT_CHANNELS * ucast VIOSND_DEFAULT_BITS_PER_SAMPLE) div 8 :: u32
      in case format of
        None \<Rightarrow> False
      | Some f \<Rightarrow>
          if MajorFormat f \<noteq> KSDATAFORMAT_TYPE_AUDIO \<or>
             Specifier f \<noteq> KSDATAFORMAT_SPECIFIER_WAVEFORMATEX \<or>
             FormatSize f < sizeof_KSDATAFORMAT_WAVEFORMATEX S then False
          else if nChannels f \<noteq> ucast VIOSND_DEFAULT_CHANNELS \<or>
             nSamplesPerSec f \<noteq> VIOSND_DEFAULT_SAMPLE_RATE \<or>
             wBitsPerSample f \<noteq> ucast VIOSND_DEFAULT_BITS_PER_SAMPLE \<or>
             ucast (nBlockAlign f) \<noteq> blockAlign \<or>
             nAvgBytesPerSec f \<noteq> VIOSND_DEFAULT_SAMPLE_RATE * blockAlign then False
          else if wFormatTag f = WAVE_FORMAT_PCM then SubFormat f = KSDATAFORMAT_SUBTYPE_PCM
          else if wFormatTag f = WAVE_FORMAT_EXTENSIBLE \<and>
             sizeof_KSDATAFORMAT_WAVEFORMATEXTENSIBLE S \<le> FormatSize f
          then wValidBitsPerSample f = ucast VIOSND_DEFAULT_BITS_PER_SAMPLE \<and>
               ExtSubFormat f = KSDATAFORMAT_SUBTYPE_PCM
          else False)"

section \<open>Packets\<close>

definition ViosndTargetOutstandingPackets :: "u32 \<Rightarrow> u32" where
  "ViosndTargetOutstandingPackets n =
     (if n = 0 then 0 else if n = 1 then 1
      else min (n - 1) VIOSND_RENDER_TARGET_OUTSTANDING_PACKETS)"

definition ViosndCyclicTargetOutstandingPackets :: "u32 \<Rightarrow> u32" where
  "ViosndCyclicTargetOutstandingPackets n =
     (if n = 0 then 0 else if n = 1 then 1
      else min (n - 1) VIOSND_RENDER_CYCLIC_OUTSTANDING_PACKETS)"

definition ViosndFallbackTargetOutstandingPackets :: "u32 \<Rightarrow> u32" where
  "ViosndFallbackTargetOutstandingPackets n =
     (if n = 0 then 0 else if n = 1 then 1
      else min (n - 1) VIOSND_RENDER_FALLBACK_OUTSTANDING_PACKETS)"

definition ViosndFallbackInitialPhase :: u32 where
  "ViosndFallbackInitialPhase = VIOSND_DEFAULT_SAMPLE_RATE - VIOSND_FALLBACK_SAMPLE_RATE"

definition ViosndPacketNumberLessOrEqual :: "u32 \<Rightarrow> u32 \<Rightarrow> bool" where
  "ViosndPacketNumberLessOrEqual left right \<longleftrightarrow> sint (left - right) \<le> 0"

definition ViosndHasWritableRenderPacket :: "u32 \<Rightarrow> u32 \<Rightarrow> bool" where
  "ViosndHasWritableRenderPacket nextSubmit lastOsWrite \<longleftrightarrow>
     lastOsWrite \<noteq> MAXULONG \<and> ViosndPacketNumberLessOrEqual nextSubmit lastOsWrite"

definition ViosndPacketSizeFromNotificationCount :: "u32 \<Rightarrow> u32 \<Rightarrow> u32" where
  "ViosndPacketSizeFromNotificationCount bufferSize notificationCount =
     (if bufferSize < VIOSND_DEFAULT_PERIOD_BYTES then bufferSize else VIOSND_DEFAULT_PERIOD_BYTES)"

definition ViosndNotificationCountFromBufferSize :: "u32 \<Rightarrow> u32" where
  "ViosndNotificationCountFromBufferSize bufferSize =
     (if bufferSize = 0 then 0 else max (bufferSize div VIOSND_DEFAULT_PERIOD_BYTES) 1)"

definition ViosndUsableBufferSizeFromAllocatedSize :: "u32 \<Rightarrow> u32" where
  "ViosndUsableBufferSizeFromAllocatedSize allocatedSize =
     (if allocatedSize < VIOSND_DEFAULT_PERIOD_BYTES then allocatedSize
      else ViosndNotificationCountFromBufferSize allocatedSize * VIOSND_DEFAULT_PERIOD_BYTES)"

text \<open>\<open>LONGLONG\<close> arguments are words read as signed; the product wraps at 64 bits.\<close>

definition ViosndRenderBytesFromQpc :: "u64 \<Rightarrow> u64 \<Rightarrow> u64" where
  "ViosndRenderBytesFromQpc qpcDelta qpcFrequency =
     (let bytesPerSecond = ucast VIOSND_DEFAULT_SAMPLE_RATE * ucast VIOSND_DEFAULT_CHANNELS *
            (ucast VIOSND_DEFAULT_BITS_PER_SAMPLE div 8);
          blockAlign = ucast VIOSND_DEFAULT_CHANNELS * (ucast VIOSND_DEFAULT_BITS_PER_SAMPLE div 8)
      in if sint qpcDelta \<le> 0 \<or> sint qpcFrequency \<le> 0 then 0
         else let bytes = (qpcDelta * bytesPerSecond) div qpcFrequency
              in bytes - bytes mod blockAlign)"

section \<open>Samples\<close>

text \<open>The \<open>SHORT\<close>s and the stereo frames of a byte buffer; an odd rest is left out.\<close>

fun shorts_of_bytes :: "u8 list \<Rightarrow> u16 list" where
  "shorts_of_bytes (a # b # bs) = (ucast a OR push_bit 8 (ucast b)) # shorts_of_bytes bs"
| "shorts_of_bytes _ = []"

definition bytes_of_short :: "u16 \<Rightarrow> u8 list" where
  "bytes_of_short w = [ucast w, ucast (drop_bit 8 w)]"

definition magnitude :: "int \<Rightarrow> u32" where
  "magnitude s = (if s < 0 then word_of_int (- s) else word_of_int s)"

fun peak_loop :: "u16 list \<Rightarrow> u32 \<Rightarrow> u32" where
  "peak_loop [] peak = peak"
| "peak_loop (s # ss) peak =
     (let m = magnitude (sint s) in peak_loop ss (if peak < m then m else peak))"

definition ViosndPcmPeak16 :: "u8 list \<Rightarrow> u32" where
  "ViosndPcmPeak16 buffer = peak_loop (shorts_of_bytes buffer) 0"

text \<open>A product that does not fit a \<open>LONG\<close> is undefined.\<close>

fun gain_loop :: "int \<Rightarrow> u16 list \<Rightarrow> u32 \<Rightarrow> (u8 list \<times> u32) option" where
  "gain_loop gain [] peak = Some ([], peak)"
| "gain_loop gain (s # ss) peak =
     (let p = sint s * gain
      in if p < - (2 ^ 31) \<or> 2 ^ 31 \<le> p then None
         else
           let sample = (if 32767 < p then 32767 else if p < - 32768 then - 32768 else p);
               m = magnitude sample
           in do {
             (out, peak) \<leftarrow> gain_loop gain ss (if peak < m then m else peak);
             Some (bytes_of_short (word_of_int sample) @ out, peak)
           })"

text \<open>The bytes written to \<open>Destination\<close> (as many as in \<open>Source\<close>) and the peak.\<close>

definition ViosndPcmCopyGain16 :: "u8 list \<Rightarrow> int \<Rightarrow> (u8 list \<times> u32) option" where
  "ViosndPcmCopyGain16 source gain = do {
     (out, peak) \<leftarrow> gain_loop gain (shorts_of_bytes source) 0;
     Some (out @ (if odd (length source) then [last source] else []), peak)
   }"

fun frames_of_bytes :: "u8 list \<Rightarrow> u8 list list" where
  "frames_of_bytes (a # b # c # d # bs) = [a, b, c, d] # frames_of_bytes bs"
| "frames_of_bytes _ = []"

fun downsample_loop :: "u32 \<Rightarrow> u8 list list \<Rightarrow> nat \<Rightarrow> u32 \<Rightarrow> u8 list list \<times> u32" where
  "downsample_loop rate [] room phase = ([], phase)"
| "downsample_loop rate (f # fs) room phase =
     (if room = 0 then ([], phase)
      else
        let phase = phase + rate
        in if VIOSND_DEFAULT_SAMPLE_RATE \<le> phase
           then let (out, phase) = downsample_loop rate fs (room - 1) (phase - VIOSND_DEFAULT_SAMPLE_RATE)
                in (f # out, phase)
           else downsample_loop rate fs room phase)"

text \<open>The bytes written at the start of \<open>Destination\<close> (their number is the result) and \<open>*Phase\<close>.\<close>

definition ViosndDownsampleStereo16 :: "u32 \<Rightarrow> u8 list \<Rightarrow> u32 \<Rightarrow> u32 \<Rightarrow> u8 list \<times> u32" where
  "ViosndDownsampleStereo16 destinationLength source rate phase =
     (if rate = 0 \<or> VIOSND_DEFAULT_SAMPLE_RATE \<le> rate then ([], phase)
      else
        let (out, phase) = downsample_loop rate (frames_of_bytes source)
              (unat destinationLength div 4) phase
        in (concat out, phase))"

section \<open>Properties\<close>

subsection \<open>Buffer geometry and packet numbers\<close>

lemma default_buffer_geometry:
  "unat (ViosndUsableBufferSizeFromAllocatedSize n) =
     (if unat n < 2048 then unat n else 2048 * (unat n div 2048))"
  "unat (ViosndNotificationCountFromBufferSize n) = (if n = 0 then 0 else max (unat n div 2048) 1)"
  "unat (ViosndPacketSizeFromNotificationCount n c) = min (unat n) 2048"
proof -
  have m: "unat (max a b) = max (unat a) (unat b)" for a b :: u32
    by (simp add: max_def word_le_nat_alt)
  have d: "unat (n div 2048) = unat n div 2048" by (simp add: unat_div)
  show c: "unat (ViosndNotificationCountFromBufferSize n) = (if n = 0 then 0 else max (unat n div 2048) 1)"
    by (simp add: ViosndNotificationCountFromBufferSize_def m d)
  show "unat (ViosndPacketSizeFromNotificationCount n c) = min (unat n) 2048"
    by (simp add: ViosndPacketSizeFromNotificationCount_def word_less_nat_alt)
  show "unat (ViosndUsableBufferSizeFromAllocatedSize n) =
     (if unat n < 2048 then unat n else 2048 * (unat n div 2048))"
  proof (cases "unat n < 2048")
    case True
    then show ?thesis by (simp add: ViosndUsableBufferSizeFromAllocatedSize_def word_less_nat_alt)
  next
    case False
    then have n0: "n \<noteq> 0" by auto
    have "1 \<le> unat n div 2048" using False by linarith
    then have u: "unat (ViosndNotificationCountFromBufferSize n) = unat n div 2048"
      unfolding c using n0 by (simp add: max_absorb1)
    have "unat n < 2 ^ 32" using unsigned_less [of n] by simp
    then have "unat n div 2048 * 2048 < 2 ^ 32"
      by (meson div_times_less_eq_dividend le_less_trans)
    then have "unat (ViosndNotificationCountFromBufferSize n * 2048) = unat n div 2048 * 2048"
      using u unat_mult_lem [of "ViosndNotificationCountFromBufferSize n" 2048] by simp
    then show ?thesis using False
      by (simp add: ViosndUsableBufferSizeFromAllocatedSize_def word_less_nat_alt)
  qed
qed

lemma unat_less32: "unat (w :: u32) < 2 ^ 32"
  using unsigned_less [of w, where 'a = nat] by simp

lemma round_down:
  "(if a < 2048 then a else 2048 * (a div 2048)) \<le> (a :: nat)"
  "(a :: nat) < (if a < 2048 then a else 2048 * (a div 2048)) + 2048"
proof -
  have "a mod 2048 < 2048" "a = 2048 * (a div 2048) + a mod 2048" by simp_all
  then have "2048 * (a div 2048) \<le> a \<and> a < 2048 * (a div 2048) + 2048" by linarith
  then show "(if a < 2048 then a else 2048 * (a div 2048)) \<le> a"
    "a < (if a < 2048 then a else 2048 * (a div 2048)) + 2048" by auto
qed

lemma buffer_geometry:
  fixes allocated pn :: u32
  defines "bufferSize \<equiv> ViosndUsableBufferSizeFromAllocatedSize allocated"
  defines "cnt \<equiv> ViosndNotificationCountFromBufferSize bufferSize"
  defines "packetSize \<equiv> ViosndPacketSizeFromNotificationCount bufferSize cnt"
  shows "unat bufferSize \<le> unat allocated \<and>
    unat allocated < unat bufferSize + 2048 \<and>
    unat cnt * unat packetSize = unat bufferSize \<and>
    unat packetSize \<le> 2048 \<and>
    unat ((pn mod max cnt 1) * packetSize) = (unat pn mod max (unat cnt) 1) * unat packetSize \<and>
    unat ((pn mod max cnt 1) * packetSize) + unat packetSize \<le> unat bufferSize"
proof -
  note g = default_buffer_geometry
  have b: "unat bufferSize = (if unat allocated < 2048 then unat allocated
      else 2048 * (unat allocated div 2048))"
    unfolding bufferSize_def by (rule g(1))
  have c: "unat cnt = (if unat bufferSize = 0 then 0 else max (unat bufferSize div 2048) 1)"
    unfolding cnt_def g(2) by (simp add: unat_eq_0)
  have p: "unat packetSize = min (unat bufferSize) 2048" unfolding packetSize_def by (rule g(3))
  have le: "unat bufferSize \<le> unat allocated" "unat allocated < unat bufferSize + 2048"
    unfolding b by (rule round_down)+
  have mul: "unat cnt * unat packetSize = unat bufferSize"
  proof (cases "unat bufferSize < 2048")
    case True
    then show ?thesis unfolding c p by (simp add: min_def)
  next
    case False
    then have k: "unat bufferSize = 2048 * (unat allocated div 2048)" using b by (auto split: if_splits)
    then have "1 \<le> unat allocated div 2048" using False by linarith
    then show ?thesis unfolding c p k by (simp add: max_absorb1 min_absorb2)
  qed
  have mx: "unat (max cnt 1) = max (unat cnt) 1"
    by (simp add: max_def word_le_nat_alt)
  have md: "unat (pn mod max cnt 1) = unat pn mod max (unat cnt) 1"
    by (simp add: unat_mod mx)
  have lt: "unat pn mod max (unat cnt) 1 < max (unat cnt) 1" by (rule mod_less_divisor) simp
  have inside: "(unat pn mod max (unat cnt) 1) * unat packetSize + unat packetSize \<le> unat bufferSize"
  proof (cases "unat cnt = 0")
    case True
    then show ?thesis using c p mul by (auto split: if_splits)
  next
    case False
    then have "max (unat cnt) 1 = unat cnt" by (simp add: max_absorb1)
    then have "Suc (unat pn mod max (unat cnt) 1) \<le> unat cnt" using lt by (metis Suc_leI)
    then have "Suc (unat pn mod max (unat cnt) 1) * unat packetSize \<le> unat cnt * unat packetSize"
      by (rule mult_le_mono1)
    then show ?thesis using mul by simp
  qed
  have "(unat pn mod max (unat cnt) 1) * unat packetSize < 2 ^ 32"
    using inside unat_less32 [of bufferSize] by linarith
  then have prod: "unat ((pn mod max cnt 1) * packetSize) = (unat pn mod max (unat cnt) 1) * unat packetSize"
    using unat_mult_lem [of "pn mod max cnt 1" packetSize] md by simp
  show ?thesis using le mul p prod inside by simp
qed

text \<open>
  C19: whatever the size of the allocated pages, the usable size, the notification count and the
  packet size derived from it fit together: the packets tile the usable part of the allocation
  exactly, no product wraps, and each packet, addressed by any packet number modulo the count,
  lies inside the allocation.
\<close>

theorem packet_geometry:
  fixes allocated pn :: u32
  defines "bufferSize \<equiv> ViosndUsableBufferSizeFromAllocatedSize allocated"
  defines "cnt \<equiv> ViosndNotificationCountFromBufferSize bufferSize"
  defines "packetSize \<equiv> ViosndPacketSizeFromNotificationCount bufferSize cnt"
  shows "unat bufferSize \<le> unat allocated \<and>
    unat allocated < unat bufferSize + 2048 \<and>
    unat cnt * unat packetSize = unat bufferSize \<and>
    unat packetSize \<le> 2048 \<and>
    unat ((pn mod max cnt 1) * packetSize) = (unat pn mod max (unat cnt) 1) * unat packetSize \<and>
    unat ((pn mod max cnt 1) * packetSize) + unat packetSize \<le> unat bufferSize"
  using buffer_geometry [of allocated pn] unfolding bufferSize_def cnt_def packetSize_def .

lemma signed_window:
  assumes "0 \<le> u" "u < (2 :: int) ^ 32"
  shows "(u + 2 ^ 31) mod 2 ^ 32 - 2 ^ 31 = (if u < 2 ^ 31 then u else u - 2 ^ 32)"
proof (cases "u < 2 ^ 31")
  case True
  then show ?thesis using assms by (simp add: mod_pos_pos_trivial)
next
  case False
  have "(u + 2 ^ 31) mod 2 ^ 32 = (u - 2 ^ 31 + 2 ^ 32) mod 2 ^ 32" by (rule arg_cong2 [of _ _ _ _ "(mod)"]) simp_all
  also have "\<dots> = (u - 2 ^ 31) mod 2 ^ 32" by (rule mod_add_self2)
  also have "\<dots> = u - 2 ^ 31" using False assms by (simp add: mod_pos_pos_trivial)
  finally show ?thesis using False by simp
qed

lemma uint_less32: "uint (w :: u32) < 2 ^ 32"
  using unsigned_less [of w] by simp

lemma sint_uint32: "sint (w :: u32) = (if uint w < 2 ^ 31 then uint w else uint w - 2 ^ 32)"
proof -
  have "sint w = (uint w + 2 ^ 31) mod 2 ^ 32 - 2 ^ 31"
    using int_word_sint [of "uint w", where 'a = 32] by simp
  also have "\<dots> = (if uint w < 2 ^ 31 then uint w else uint w - 2 ^ 32)"
    by (rule signed_window) (rule unsigned_greater_eq, rule uint_less32)
  finally show ?thesis .
qed

lemma sint_uminus_le_0_iff: "sint (- w :: u32) \<le> 0 \<longleftrightarrow> unat w \<le> 2 ^ 31"
proof (cases "w = 0")
  case False
  then have w: "0 < uint w" "uint w < 2 ^ 32"
    using uint_0_iff [of w] unsigned_greater_eq [of w, where 'a = int] uint_less32 [of w] by linarith+
  have k: "uint (word_of_int k :: u32) = k mod 2 ^ 32" for k by (simp add: uint_word_of_int)
  have "- w = word_of_int (2 ^ 32 - uint w)" by simp
  then have "uint (- w) = (2 ^ 32 - uint w) mod 2 ^ 32" using k by (simp only:)
  moreover have "(2 ^ 32 - uint w) mod 2 ^ 32 = 2 ^ 32 - uint w"
    by (rule mod_pos_pos_trivial) (use w in simp_all)
  ultimately have u: "uint (- w) = 2 ^ 32 - uint w" by (simp only:)
  have "sint (- w) \<le> 0 \<longleftrightarrow> uint w \<le> 2 ^ 31"
  proof (cases "uint w \<le> 2 ^ 31")
    case True
    then have "\<not> 2 ^ 32 - uint w < 2 ^ 31" by simp
    then show ?thesis unfolding sint_uint32 u using w True by simp
  next
    case False
    then have "2 ^ 32 - uint w < 2 ^ 31" by simp
    then show ?thesis unfolding sint_uint32 u using w False by simp
  qed
  moreover have "int (unat w) = uint w" "int (2 ^ 31) = 2 ^ 31" by simp_all
  ultimately show ?thesis using of_nat_le_iff [of "unat w" "2 ^ 31", where 'a = int] by (simp only:)
qed simp

text \<open>
  Packet numbers are compared by their distance on the 32-bit circle: \<open>left\<close> counts as not
  after \<open>right\<close> exactly when \<open>right\<close> is at most \<open>2 ^ 31\<close> steps ahead, across the wrap of the
  counter.  So along any run of up to \<open>2 ^ 31\<close> packets the submitter, which advances from
  \<open>first\<close>, sees writable packets exactly up to the client's last written one.
\<close>

theorem packet_number_window:
  "(ViosndPacketNumberLessOrEqual left right \<longleftrightarrow> unat (right - left) \<le> 2 ^ 31) \<and>
   (ViosndHasWritableRenderPacket (first + word_of_nat i) (first + word_of_nat n) \<longleftrightarrow>
     first + word_of_nat n \<noteq> MAXULONG \<and> unat (word_of_nat n - word_of_nat i :: u32) \<le> 2 ^ 31)"
proof -
  have eq: "left - right = - (right - left)" for left right :: u32 by simp
  have a: "ViosndPacketNumberLessOrEqual left right \<longleftrightarrow> unat (right - left) \<le> 2 ^ 31" for left right
    unfolding ViosndPacketNumberLessOrEqual_def eq [of left right] by (rule sint_uminus_le_0_iff)
  show ?thesis by (simp only: ViosndHasWritableRenderPacket_def a add_diff_cancel_left simp_thms)
qed

subsection \<open>Stream clock\<close>

text \<open>
  C21: while the elapsed time times the byte rate fits 64 bits, the stream clock converts
  performance-counter ticks to bytes exactly at the frame rate: the result is four bytes times the
  whole number of 48 kHz frames elapsed, so it is frame aligned and never runs backwards.
\<close>

theorem render_clock_exact:
  assumes "0 < sint freq" "0 < sint delta" "unat delta * 192000 < 2 ^ 64"
  shows "unat (ViosndRenderBytesFromQpc delta freq) = 4 * ((48000 * unat delta) div unat freq) \<and>
    (\<forall>earlier. 0 < sint earlier \<and> earlier \<le> delta \<longrightarrow>
       ViosndRenderBytesFromQpc earlier freq \<le> ViosndRenderBytesFromQpc delta freq)"
proof -
  have exact: "unat (ViosndRenderBytesFromQpc d freq) = 4 * ((48000 * unat d) div unat freq)"
    if d: "0 < sint d" "unat d * 192000 < 2 ^ 64" for d
  proof -
    have m: "unat (d * 192000) = unat d * 192000"
      using unat_mult_lem [of d 192000] d by simp
    have r: "ViosndRenderBytesFromQpc d freq =
        (d * 192000) div freq - (d * 192000) div freq mod 4"
      using d assms(1) by (simp add: ViosndRenderBytesFromQpc_def Let_def)
    have q: "unat ((d * 192000) div freq) = (unat d * 192000) div unat freq"
      by (simp add: unat_div m)
    have "unat (ViosndRenderBytesFromQpc d freq) =
        (unat d * 192000) div unat freq - (unat d * 192000) div unat freq mod 4"
      unfolding r by (subst unat_sub_ge) (simp_all add: word_le_nat_alt unat_mod q)
    also have "\<dots> = 4 * ((unat d * 192000) div unat freq div 4)"
      by (simp add: minus_mod_eq_mult_div)
    also have "(unat d * 192000) div unat freq div 4 = (unat d * 192000 div 4) div unat freq"
      by (metis div_mult2_eq mult.commute)
    also have "unat d * 192000 div 4 = 48000 * unat d" by simp
    finally show ?thesis .
  qed
  have mono: "ViosndRenderBytesFromQpc earlier freq \<le> ViosndRenderBytesFromQpc delta freq"
    if e: "0 < sint earlier" "earlier \<le> delta" for earlier
  proof -
    have le: "unat earlier \<le> unat delta" using e(2) by (simp add: word_le_nat_alt)
    then have "unat earlier * 192000 < 2 ^ 64" using assms(3) by linarith
    then show ?thesis
      unfolding word_le_nat_alt exact [OF assms(2,3)] using exact [OF e(1)] le
      by (simp add: div_le_mono)
  qed
  show ?thesis using exact [OF assms(2,3)] mono by blast
qed

theorem render_clock_exact_witness:
  "unat (ViosndRenderBytesFromQpc 10000000 10000000) = 192000"
  using render_clock_exact [of 10000000 10000000] by simp

subsection \<open>Peak and gain\<close>

lemma unat_magnitude:
  assumes "\<bar>s\<bar> \<le> 2 ^ 31" shows "unat (magnitude s) = nat \<bar>s\<bar>"
proof -
  have "nat \<bar>s\<bar> < 2 ^ 32" using assms by simp
  then have "unat (word_of_nat (nat \<bar>s\<bar>) :: u32) = nat \<bar>s\<bar>" unfolding unat_of_nat by simp
  moreover have "magnitude s = word_of_nat (nat \<bar>s\<bar>)" by (simp add: magnitude_def)
  ultimately show ?thesis by (simp only:)
qed

lemma sint16_bound: "\<bar>sint (w :: u16)\<bar> \<le> 32768" "- 32768 \<le> sint w" "sint w \<le> 32767"
  using sint_ge [of w] sint_lt [of w] by auto

lemma unat_peak_loop:
  "unat (peak_loop ss p) = foldr max (map (\<lambda>s. nat \<bar>sint s\<bar>) ss) (unat p)"
proof (induction ss arbitrary: p)
  case (Cons s ss)
  have m: "unat (magnitude (sint s)) = nat \<bar>sint s\<bar>"
    using sint16_bound(1) [of s] by (intro unat_magnitude) simp
  have fold: "foldr max xs (max a b) = max a (foldr max xs b)" for a b :: nat and xs
    by (induction xs) (auto simp: max.left_commute)
  have "unat (if p < magnitude (sint s) then magnitude (sint s) else p) = max (nat \<bar>sint s\<bar>) (unat p)"
    by (auto simp: word_less_nat_alt m)
  then show ?case using Cons.IH fold by (simp add: Let_def)
qed simp

lemma shorts_of_bytes_append:
  "even (length xs) \<Longrightarrow> shorts_of_bytes (xs @ ys) = shorts_of_bytes xs @ shorts_of_bytes ys"
  by (induction xs rule: shorts_of_bytes.induct) auto

lemma shorts_of_bytes_short [simp]: "shorts_of_bytes (bytes_of_short w @ bs) = w # shorts_of_bytes bs"
proof -
  have "ucast (ucast w :: u8) OR push_bit 8 (ucast (ucast (drop_bit 8 w) :: u8)) = w"
    by (rule bit_word_eqI) (auto simp: bit_simps)
  then show ?thesis by (simp add: bytes_of_short_def)
qed

lemma bytes_of_short_join:
  "bytes_of_short (ucast (a :: u8) OR push_bit 8 (ucast (b :: u8))) = [a, b]"
proof -
  have "ucast (ucast a OR push_bit 8 (ucast b) :: u16) = a"
    by (rule bit_word_eqI) (auto simp: bit_simps)
  moreover have "ucast (drop_bit 8 (ucast a OR push_bit 8 (ucast b) :: u16)) = b"
    by (rule bit_word_eqI) (auto simp: bit_simps dest: bit_imp_le_length)
  ultimately show ?thesis by (simp add: bytes_of_short_def)
qed

lemma concat_bytes_of_shorts:
  "concat (map bytes_of_short (shorts_of_bytes bs)) @ (if odd (length bs) then [last bs] else []) = bs"
  by (induction bs rule: shorts_of_bytes.induct) (auto simp: bytes_of_short_join)

text \<open>The sample a gain produces, clamped to 16 bits.\<close>

definition gained :: "int \<Rightarrow> u16 \<Rightarrow> int" where
  "gained gain s = min 32767 (max (- 32768) (sint s * gain))"

lemma gain_product_bound:
  assumes "\<bar>gain\<bar> \<le> 65535" shows "- (2 ^ 31) \<le> sint (s :: u16) * gain \<and> sint s * gain < 2 ^ 31"
proof -
  have "\<bar>sint s * gain\<bar> \<le> 32768 * 65535"
    unfolding abs_mult by (rule mult_mono) (use sint16_bound [of s] assms in auto)
  then show ?thesis by (auto simp: abs_le_iff)
qed

lemma gain_loop_eq:
  assumes "\<bar>gain\<bar> \<le> 65535"
  shows "\<exists>pk. gain_loop gain ss p =
     Some (concat (map (\<lambda>s. bytes_of_short (word_of_int (gained gain s))) ss), pk) \<and>
     unat pk = foldr max (map (\<lambda>s. nat \<bar>gained gain s\<bar>) ss) (unat p)"
proof (induction ss arbitrary: p)
  case (Cons s ss)
  let ?p = "sint s * gain"
  have b: "\<not> (?p < - (2 ^ 31) \<or> 2 ^ 31 \<le> ?p)" using gain_product_bound [OF assms, of s] by linarith
  have g: "(if 32767 < ?p then 32767 else if ?p < - 32768 then - 32768 else ?p) = gained gain s"
    by (simp add: gained_def)
  have m: "unat (magnitude (gained gain s)) = nat \<bar>gained gain s\<bar>"
    by (rule unat_magnitude) (auto simp: gained_def)
  let ?q = "if p < magnitude (gained gain s) then magnitude (gained gain s) else p"
  have fold: "foldr max xs (max a b) = max a (foldr max xs b)" for a b :: nat and xs
    by (induction xs) (auto simp: max.left_commute)
  have q: "unat ?q = max (nat \<bar>gained gain s\<bar>) (unat p)"
    by (auto simp: word_less_nat_alt m)
  obtain pk where "gain_loop gain ss ?q =
     Some (concat (map (\<lambda>s. bytes_of_short (word_of_int (gained gain s))) ss), pk)"
     "unat pk = foldr max (map (\<lambda>s. nat \<bar>gained gain s\<bar>) ss) (unat ?q)"
    using Cons.IH by blast
  then show ?case unfolding gain_loop.simps Let_def g if_not_P [OF b] q fold by simp
qed simp

lemma length_bytes_of_short [simp]: "length (bytes_of_short w) = 2"
  by (simp add: bytes_of_short_def)

lemma shorts_of_concat: "shorts_of_bytes (concat (map bytes_of_short ws) @ bs) = ws @ shorts_of_bytes bs"
  by (induction ws) simp_all

lemma length_shorts: "length (shorts_of_bytes bs) = length bs div 2"
  by (induction bs rule: shorts_of_bytes.induct) auto

lemma length_concat_shorts: "length (concat (map (\<lambda>s. bytes_of_short (f s)) ws)) = 2 * length ws"
  by (induction ws) simp_all

lemma gained_1: "gained 1 s = sint s"
  using sint16_bound [of s] by (simp add: gained_def)

text \<open>
  C20: for every gain that cannot overflow a \<open>LONG\<close> product the gain loop returns; it writes as
  many bytes as it reads, each sample is the product clamped to 16 bits, the peak is the largest
  absolute output sample; and with the driver's gain of 1 the copy is exact and the peak is the
  one \<open>ViosndPcmPeak16\<close> computes.
\<close>

theorem capture_gain_correct:
  assumes "\<bar>gain\<bar> \<le> 65535"
  shows "\<exists>out pk. ViosndPcmCopyGain16 src gain = Some (out, pk) \<and> length out = length src \<and>
    shorts_of_bytes out = map (\<lambda>s. word_of_int (gained gain s)) (shorts_of_bytes src) \<and>
    unat pk = foldr max (map (\<lambda>s. nat \<bar>gained gain s\<bar>) (shorts_of_bytes src)) 0 \<and>
    (gain = 1 \<longrightarrow> out = src \<and> pk = ViosndPcmPeak16 src)"
proof -
  obtain pk where g: "gain_loop gain (shorts_of_bytes src) 0 =
     Some (concat (map (\<lambda>s. bytes_of_short (word_of_int (gained gain s))) (shorts_of_bytes src)), pk)"
    and p: "unat pk = foldr max (map (\<lambda>s. nat \<bar>gained gain s\<bar>) (shorts_of_bytes src)) 0"
    using gain_loop_eq [OF assms, of "shorts_of_bytes src" 0] by auto
  let ?out = "concat (map (\<lambda>s. bytes_of_short (word_of_int (gained gain s))) (shorts_of_bytes src))"
  let ?tail = "if odd (length src) then [last src] else []"
  have c: "ViosndPcmCopyGain16 src gain = Some (?out @ ?tail, pk)"
    by (simp add: ViosndPcmCopyGain16_def g)
  have l: "length (?out @ ?tail) = length src"
    by (auto simp: length_concat_shorts length_shorts)
  have s: "shorts_of_bytes (?out @ ?tail) = map (\<lambda>s. word_of_int (gained gain s)) (shorts_of_bytes src)"
    using shorts_of_concat [of "map (\<lambda>s. word_of_int (gained gain s)) (shorts_of_bytes src)" ?tail]
    by (simp add: comp_def)
  have one: "?out @ ?tail = src \<and> pk = ViosndPcmPeak16 src" if "gain = 1"
  proof
    show "?out @ ?tail = src" using concat_bytes_of_shorts [of src] that by (simp add: gained_1)
    have "unat pk = unat (ViosndPcmPeak16 src)"
      unfolding p ViosndPcmPeak16_def unat_peak_loop using that by (simp add: gained_1)
    then show "pk = ViosndPcmPeak16 src" by (rule unsigned_word_eqI)
  qed
  show ?thesis using c l s p one by blast
qed

theorem capture_gain_correct_witness:
  "\<exists>out pk. ViosndPcmCopyGain16 [0x34, 0x12, 0xFF, 0xFF] 1 = Some (out, pk) \<and> out = [0x34, 0x12, 0xFF, 0xFF]"
  using capture_gain_correct [of 1 "[0x34, 0x12, 0xFF, 0xFF]"] by auto

subsection \<open>Downsampling\<close>

lemma length_frames: "length (frames_of_bytes bs) = length bs div 4"
  by (induction bs rule: frames_of_bytes.induct) auto

lemma frames_length4: "f \<in> set (frames_of_bytes bs) \<Longrightarrow> length f = 4"
  by (induction bs rule: frames_of_bytes.induct) auto

lemma frames_append:
  "length xs mod 4 = 0 \<Longrightarrow> frames_of_bytes (xs @ ys) = frames_of_bytes xs @ frames_of_bytes ys"
proof (induction xs rule: frames_of_bytes.induct)
  case (1 a b c d bs)
  then show ?case by simp
qed auto

lemma unat_phase_step:
  assumes "rate < 48000" "phase < (48000 :: u32)"
  shows "unat (phase + rate) = unat phase + unat rate"
proof -
  have "unat phase + unat rate < 2 ^ 32" using assms by (simp add: word_less_nat_alt)
  then show ?thesis using unat_add_lem [of phase rate] by simp
qed

lemma downsample_loop_ok:
  assumes "rate < 48000"
  shows "phase < 48000 \<Longrightarrow> downsample_loop rate fs room phase = (out, phase') \<Longrightarrow>
    phase' < 48000 \<and> length out \<le> room \<and> subseq out fs \<and>
    (length out < room \<longrightarrow> unat phase' + 48000 * length out = unat phase + length fs * unat rate)"
proof (induction fs arbitrary: room phase out phase')
  case (Cons f fs)
  have r: "unat rate < 48000" "unat phase < 48000" using assms Cons.prems by (simp_all add: word_less_nat_alt)
  note u = unat_phase_step [OF assms Cons.prems(1)]
  consider "room = 0" | "room \<noteq> 0" "48000 \<le> phase + rate" | "room \<noteq> 0" "\<not> 48000 \<le> phase + rate" by blast
  then show ?case
  proof cases
    case 1
    then show ?thesis using Cons.prems by auto
  next
    case 2
    let ?p = "phase + rate - 48000"
    obtain o2 where d: "downsample_loop rate fs (room - 1) ?p = (o2, phase')" "out = f # o2"
      using Cons.prems 2 by (auto simp: Let_def split: prod.splits)
    have p: "unat ?p = unat phase + unat rate - 48000"
      using unat_sub_ge [OF 2(2)] u by simp
    have ge: "48000 \<le> unat phase + unat rate"
      using iffD1 [OF word_le_nat_alt 2(2)] by (simp only: u) simp
    have "?p < 48000" using r p ge by (simp add: word_less_nat_alt)
    from Cons.IH [OF this d(1)] show ?thesis using d(2) 2(1) p ge
      by (auto simp: algebra_simps)
  next
    case 3
    then have d: "downsample_loop rate fs room (phase + rate) = (out, phase')"
      using Cons.prems by (simp add: Let_def)
    have "phase + rate < 48000" using 3 by simp
    from Cons.IH [OF this d] show ?thesis using u by (auto simp: algebra_simps)
  qed
qed simp

lemma downsample_loop_append:
  "downsample_loop rate fs room phase = (o1, p1) \<Longrightarrow> length o1 < room \<Longrightarrow>
   downsample_loop rate (fs @ gs) room phase =
     (let (o2, p2) = downsample_loop rate gs (room - length o1) p1 in (o1 @ o2, p2))"
  by (induction fs arbitrary: room phase o1 p1) (auto simp: Let_def split: prod.splits if_splits)

lemma frames_of_concat: "\<forall>f \<in> set fs. length f = 4 \<Longrightarrow> frames_of_bytes (concat fs) = fs"
proof (induction fs)
  case (Cons f fs)
  then show ?case by (cases f rule: frames_of_bytes.cases) simp_all
qed simp

lemma length_concat_frames: "\<forall>f \<in> set fs. length f = 4 \<Longrightarrow> length (concat fs) = 4 * length fs"
  by (induction fs) auto

lemma subseq_set: "subseq xs ys \<Longrightarrow> set xs \<subseteq> set ys"
  by (auto dest: list_emb_set)

lemma downsample_frames:
  assumes "rate \<noteq> 0" "rate < 48000" "phase < 48000"
    and "ViosndDownsampleStereo16 dest src rate phase = (out, phase')"
  obtains fs where "downsample_loop rate (frames_of_bytes src) (unat dest div 4) phase = (fs, phase')"
    "out = concat fs" "\<forall>f \<in> set fs. length f = 4" "frames_of_bytes out = fs" "length out = 4 * length fs"
proof -
  have "\<not> 48000 \<le> rate" using assms(2) by simp
  then obtain fs where fs: "downsample_loop rate (frames_of_bytes src) (unat dest div 4) phase = (fs, phase')"
    "out = concat fs"
    using assms(1,4) by (auto simp: ViosndDownsampleStereo16_def Let_def split: prod.splits)
  have "subseq fs (frames_of_bytes src)" using downsample_loop_ok [OF assms(2,3) fs(1)] by blast
  then have l: "\<forall>f \<in> set fs. length f = 4" using subseq_set frames_length4 by blast
  show thesis using that [OF fs l] frames_of_concat [OF l] length_concat_frames [OF l] fs(2) by simp
qed

text \<open>
  C9: downsampling with an accumulated phase never writes past the destination, outputs whole
  frames that are a subsequence of the source frames, keeps the phase below the source rate, and,
  while the destination has room, loses nothing: 48000 times the frames written plus the new
  phase is the old phase plus the rate times the frames read.
\<close>

theorem downsample_correct:
  assumes "rate \<noteq> 0" "rate < 48000" "phase < 48000"
    and "ViosndDownsampleStereo16 dest src rate phase = (out, phase')"
  shows "length out \<le> unat dest \<and> length out mod 4 = 0 \<and> phase' < 48000 \<and>
    subseq (frames_of_bytes out) (frames_of_bytes src) \<and>
    (length out + 4 \<le> unat dest \<longrightarrow>
       48000 * (length out div 4) + unat phase' = unat phase + length src div 4 * unat rate)"
proof -
  obtain fs where fs: "downsample_loop rate (frames_of_bytes src) (unat dest div 4) phase = (fs, phase')"
    "frames_of_bytes out = fs" "length out = 4 * length fs"
    using downsample_frames [OF assms] by metis
  have ok: "phase' < 48000" "length fs \<le> unat dest div 4" "subseq fs (frames_of_bytes src)"
    "length fs < unat dest div 4 \<Longrightarrow>
      unat phase' + 48000 * length fs = unat phase + length (frames_of_bytes src) * unat rate"
    using downsample_loop_ok [OF assms(2,3) fs(1)] by simp_all
  have le: "length out \<le> unat dest" using ok(2) fs(3) by linarith
  have d: "length out mod 4 = 0" "length out div 4 = length fs" unfolding fs(3) by simp_all
  have all: "48000 * (length out div 4) + unat phase' = unat phase + length src div 4 * unat rate"
    if "length out + 4 \<le> unat dest"
  proof -
    have "length fs < unat dest div 4" using that fs(3) by linarith
    from ok(4) [OF this] show ?thesis unfolding d(2) length_frames by simp
  qed
  show ?thesis using le d(1) ok(1,3) all unfolding fs(2) by blast
qed

theorem downsample_correct_witness:
  "(let (out, phase') = ViosndDownsampleStereo16 100 [1,2,3,4,5,6,7,8] 44100 3900
    in length out \<le> 100 \<and> 48000 * (length out div 4) + unat phase' = 92100)"
proof -
  obtain out phase' where d: "ViosndDownsampleStereo16 100 [1,2,3,4,5,6,7,8] 44100 3900 = (out, phase')"
    by (metis surj_pair)
  have ok: "length out mod 4 = 0 \<and> subseq (frames_of_bytes out) (frames_of_bytes [1,2,3,4,5,6,7,8]) \<and>
    (length out + 4 \<le> 100 \<longrightarrow> 48000 * (length out div 4) + unat phase' = 92100)"
    using downsample_correct [OF _ _ _ d] by simp
  then have "length (frames_of_bytes out) \<le> length (frames_of_bytes [1,2,3,4,5,6,7,8])"
    using list_emb_length by blast
  then have "length out div 4 \<le> 2" by (simp add: length_frames)
  moreover have "length out = 4 * (length out div 4)" using ok div_mult_mod_eq [of "length out" 4] by linarith
  ultimately have "length out \<le> 8" by linarith
  then show ?thesis using ok d by simp
qed

text \<open>
  C11: downsampling is seamless across packets: for a first part of whole frames that does not fill
  the destination, one call on both parts writes what a call on the first part, followed by a call
  on the second with the phase and the room that are left, writes.
\<close>

theorem downsample_streams:
  assumes "rate \<noteq> 0" "rate < 48000" "phase < 48000" "length src1 mod 4 = 0"
    and "ViosndDownsampleStereo16 dest src1 rate phase = (out1, phase1)"
    and "length out1 + 4 \<le> unat dest"
    and "ViosndDownsampleStereo16 (dest - word_of_nat (length out1)) src2 rate phase1 = (out2, phase2)"
  shows "ViosndDownsampleStereo16 dest (src1 @ src2) rate phase = (out1 @ out2, phase2)"
proof -
  obtain fs1 where 1: "downsample_loop rate (frames_of_bytes src1) (unat dest div 4) phase = (fs1, phase1)"
    "out1 = concat fs1" "length out1 = 4 * length fs1"
    using downsample_frames [OF assms(1,2,3,5)] by metis
  have p1: "phase1 < 48000" using downsample_correct [OF assms(1,2,3,5)] by simp
  obtain fs2 where 2: "downsample_loop rate (frames_of_bytes src2)
      (unat (dest - word_of_nat (length out1)) div 4) phase1 = (fs2, phase2)" "out2 = concat fs2"
    using downsample_frames [OF assms(1,2) p1 assms(7)] by metis
  have "unat (dest - word_of_nat (length out1)) = unat dest - 4 * length fs1"
    using assms(6) 1(3) unat_sub_of_nat [of "length out1" dest] by simp
  then have room: "unat (dest - word_of_nat (length out1)) div 4 = unat dest div 4 - length fs1"
    by simp
  have "length fs1 < unat dest div 4" using assms(6) 1(3) by linarith
  from downsample_loop_append [OF 1(1) this, of "frames_of_bytes src2"]
  have "downsample_loop rate (frames_of_bytes (src1 @ src2)) (unat dest div 4) phase = (fs1 @ fs2, phase2)"
    using 2 assms(4) by (simp add: frames_append room)
  moreover have "\<not> 48000 \<le> rate" using assms(2) by simp
  ultimately show ?thesis using 1(2) 2(2) assms(1) by (simp add: ViosndDownsampleStereo16_def)
qed

theorem downsample_streams_witness:
  "\<exists>o1 p1 o2 p2. ViosndDownsampleStereo16 100 [1,2,3,4] 44100 3900 = (o1, p1) \<and>
     ViosndDownsampleStereo16 (100 - word_of_nat (length o1)) [5,6,7,8] 44100 p1 = (o2, p2) \<and>
     ViosndDownsampleStereo16 100 [1,2,3,4,5,6,7,8] 44100 3900 = (o1 @ o2, p2)"
proof -
  obtain o1 p1 where 1: "ViosndDownsampleStereo16 100 [1,2,3,4] 44100 3900 = (o1, p1)" by (metis surj_pair)
  obtain o2 p2 where 2: "ViosndDownsampleStereo16 (100 - word_of_nat (length o1)) [5,6,7,8] 44100 p1 = (o2, p2)"
    by (metis surj_pair)
  have "length o1 \<le> 4" using 1 by (auto simp: ViosndDownsampleStereo16_def)
  then show ?thesis using downsample_streams [of 44100 3900 "[1,2,3,4]" 100 o1 p1 "[5,6,7,8]" o2 p2] 1 2 by auto
qed

end
