(* ===== verification/Wave_Stream.thy ===== *)
theory Wave_Stream
  imports Snd_Pcm_Io Wave_Sample
begin

text \<open>
  The class \<open>CViosndMiniportWaveRTStream\<close> of \<open>viosnd/sys/ViosndWaveRT.cpp\<close>: its members, the
  pools of transfer descriptors, submission and completion of render and capture packets, the
  stream clock, and the methods that only read or write members.

  The state is one record: the members of the class, the device it points to and the static
  \<open>ViosndCaptureFaulted\<close>.  A method runs as one atomic step.  The cyclic buffer is its bytes
  (\<open>None\<close>: NULL), the fallback buffer its pool address and its bytes.  \<open>m_Notified\<close> counts the
  signals of the client's notification event.  \<open>m_This\<close> is the pool address of the object;
  \<open>m_Mdls\<close> the memory descriptor lists that are allocated; \<open>m_ThreadLive\<close> says that the thread
  \<open>m_ThreadObject\<close> has not exited, \<open>m_Orphans\<close> counts running worker threads that
  \<open>m_ThreadObject\<close> does not refer to; \<open>m_Destroyed\<close> that the object was freed;
  \<open>m_Miniport\<close> that the stream holds its reference on the miniport.
\<close>

datatype KSSTATE = KSSTATE_STOP | KSSTATE_ACQUIRE | KSSTATE_PAUSE | KSSTATE_RUN

record ('q, 'e) wave_stream =
  m_RefCount :: nat
  m_Miniport :: bool
  m_Device :: "('q, 'e) VIOSND_DEVICE"
  m_StreamId :: u32
  m_Capture :: bool
  m_State :: KSSTATE
  m_Mdl :: ptr
  m_Buffer :: "u8 list option"
  m_BufferSize :: u32
  m_NotificationCount :: u32
  m_PacketSize :: u32
  m_PacketNumber :: u32
  m_LastOsWritePacket :: u32
  m_NextSubmitPacket :: u32
  m_NextReadPacket :: u32
  m_EosPacketNumber :: u32
  m_EosPacketLength :: u32
  m_OutstandingWrites :: u32
  m_RenderUnderruns :: u32
  m_RenderFallbackPackets :: u32
  m_RenderPrerollPackets :: u32
  m_CaptureInFlight :: u32
  m_CaptureOverflows :: u32
  m_RenderStallLoops :: u32
  m_CaptureStallLoops :: u32
  m_RenderPositionQueries :: u32
  m_CapturePositionQueries :: u32
  m_CaptureReadPackets :: u32
  m_RenderFallbackPhase :: u32
  m_RenderIoPool :: "ptr list"
  m_RenderIoFreeCount :: u32
  m_RenderFallbackBuffer :: "(ptr \<times> u8 list) option"
  m_RenderFallbackBufferSize :: u32
  m_CaptureIoPool :: "ptr list"
  m_CaptureIoFreeCount :: u32
  m_Position :: u64
  m_RunStartPosition :: u64
  m_RunStartQpc :: u64
  m_QpcFrequency :: u64
  m_RenderNotReadyLoops :: u32
  m_FallbackMonitorStartPosition :: u64
  m_FallbackMonitorStartQpc :: u64
  m_NotificationEvent :: ptr
  m_Notified :: nat
  m_StopEvent :: bool
  m_KickEvent :: bool
  m_ThreadObject :: ptr
  m_WorkerStarted :: bool
  m_RenderFallbackActive :: bool
  m_RenderFallbackAttempted :: bool
  m_Mdls :: "ptr list"
  m_This :: ptr
  m_ThreadLive :: bool
  m_Orphans :: nat
  m_Destroyed :: bool
  ViosndCaptureFaulted :: bool

text \<open>
  The kernel services the stream uses beyond those of the device: the performance counter and
  its frequency, thread creation, the wait for the worker (does it exit in time), and memory
  descriptor lists: the allocation (address, 0 for NULL, and byte count) and the mapping.
\<close>

record 'e wave_kernel =
  KeQueryPerformanceCounter :: "'e \<Rightarrow> u64 \<times> u64 \<times> 'e"
  PsCreateSystemThread :: "'e \<Rightarrow> NTSTATUS \<times> 'e"
  ObReferenceObjectByHandle :: "'e \<Rightarrow> NTSTATUS \<times> ptr \<times> 'e"
  worker_exits :: "'e \<Rightarrow> bool \<times> 'e"
  MmAllocatePagesForMdlEx :: "'e \<Rightarrow> u32 \<Rightarrow> ptr \<times> u32 \<times> 'e"
  MmGetSystemAddressForMdlSafe :: "'e \<Rightarrow> bool \<times> 'e"

definition query_qpc :: "'e wave_kernel \<Rightarrow> ('q, 'e) wave_stream \<Rightarrow> u64 \<times> u64 \<times> ('q, 'e) wave_stream" where
  "query_qpc W s = (case KeQueryPerformanceCounter W (ext (m_Device s)) of
     (qpc, freq, e) \<Rightarrow> (qpc, freq, s\<lparr>m_Device := (m_Device s)\<lparr>ext := e\<rparr>\<rparr>))"

definition notify_client :: "('q, 'e) wave_stream \<Rightarrow> ('q, 'e) wave_stream" where
  "notify_client s = (if m_NotificationEvent s \<noteq> 0 then s\<lparr>m_Notified := m_Notified s + 1\<rparr> else s)"

section \<open>Construction\<close>

text \<open>The members the constructor does not name start as in the zeroed allocation.\<close>

definition new_wave_stream ::
  "ptr \<Rightarrow> ('q, 'e) VIOSND_DEVICE \<Rightarrow> u32 \<Rightarrow> bool \<Rightarrow> bool \<Rightarrow> ('q, 'e) wave_stream" where
  "new_wave_stream self dev streamId capture faulted =
     \<lparr>m_RefCount = 1, m_Miniport = True, m_Device = dev, m_StreamId = streamId, m_Capture = capture,
      m_State = KSSTATE_STOP, m_Mdl = 0, m_Buffer = None, m_BufferSize = 0,
      m_NotificationCount = 0, m_PacketSize = 0, m_PacketNumber = 0,
      m_LastOsWritePacket = MAXULONG, m_NextSubmitPacket = 0, m_NextReadPacket = 0,
      m_EosPacketNumber = MAXULONG, m_EosPacketLength = 0, m_OutstandingWrites = 0,
      m_RenderUnderruns = 0, m_RenderFallbackPackets = 0, m_RenderPrerollPackets = 0,
      m_CaptureInFlight = 0, m_CaptureOverflows = 0, m_RenderStallLoops = 0,
      m_CaptureStallLoops = 0, m_RenderPositionQueries = 0, m_CapturePositionQueries = 0,
      m_CaptureReadPackets = 0, m_RenderFallbackPhase = 0,
      m_RenderIoPool = replicate VIOSND_RENDER_IO_POOL_SIZE 0, m_RenderIoFreeCount = 0,
      m_RenderFallbackBuffer = None, m_RenderFallbackBufferSize = 0,
      m_CaptureIoPool = replicate VIOSND_CAPTURE_IO_POOL_SIZE 0, m_CaptureIoFreeCount = 0,
      m_Position = 0, m_RunStartPosition = 0, m_RunStartQpc = 0, m_QpcFrequency = 0,
      m_RenderNotReadyLoops = 0, m_FallbackMonitorStartPosition = 0,
      m_FallbackMonitorStartQpc = 0, m_NotificationEvent = 0, m_Notified = 0,
      m_StopEvent = False, m_KickEvent = False, m_ThreadObject = 0, m_WorkerStarted = False,
      m_RenderFallbackActive = False, m_RenderFallbackAttempted = False,
      m_Mdls = [], m_This = self, m_ThreadLive = False, m_Orphans = 0,
      m_Destroyed = False, ViosndCaptureFaulted = faulted\<rparr>"

definition SetFormat :: "format_sizes \<Rightarrow> KSDATAFORMAT option \<Rightarrow> NTSTATUS" where
  "SetFormat S format = (if ViosndIsDefaultFormat S format then STATUS_SUCCESS else STATUS_NO_MATCH)"

section \<open>The pools of transfer descriptors\<close>

text \<open>
  \<open>io = m_RenderIoPool[--m_RenderIoFreeCount]; m_RenderIoPool[m_RenderIoFreeCount] = NULL\<close> and
  \<open>m_RenderIoPool[m_RenderIoFreeCount++] = io\<close>, and the same for capture.
\<close>

definition pop_render_io :: "('q, 'e) wave_stream \<Rightarrow> (ptr \<times> ('q, 'e) wave_stream) option" where
  "pop_render_io s = do {
     let n = m_RenderIoFreeCount s - 1;
     io \<leftarrow> read_at (m_RenderIoPool s) (unat n);
     pool \<leftarrow> write_at (m_RenderIoPool s) (unat n) 0;
     Some (io, s\<lparr>m_RenderIoFreeCount := n, m_RenderIoPool := pool\<rparr>)
   }"

definition push_render_io :: "ptr \<Rightarrow> ('q, 'e) wave_stream \<Rightarrow> ('q, 'e) wave_stream option" where
  "push_render_io io s = do {
     pool \<leftarrow> write_at (m_RenderIoPool s) (unat (m_RenderIoFreeCount s)) io;
     Some (s\<lparr>m_RenderIoPool := pool, m_RenderIoFreeCount := m_RenderIoFreeCount s + 1\<rparr>)
   }"

definition pop_capture_io :: "('q, 'e) wave_stream \<Rightarrow> (ptr \<times> ('q, 'e) wave_stream) option" where
  "pop_capture_io s = do {
     let n = m_CaptureIoFreeCount s - 1;
     io \<leftarrow> read_at (m_CaptureIoPool s) (unat n);
     pool \<leftarrow> write_at (m_CaptureIoPool s) (unat n) 0;
     Some (io, s\<lparr>m_CaptureIoFreeCount := n, m_CaptureIoPool := pool\<rparr>)
   }"

definition push_capture_io :: "ptr \<Rightarrow> ('q, 'e) wave_stream \<Rightarrow> ('q, 'e) wave_stream option" where
  "push_capture_io io s = do {
     pool \<leftarrow> write_at (m_CaptureIoPool s) (unat (m_CaptureIoFreeCount s)) io;
     Some (s\<lparr>m_CaptureIoPool := pool, m_CaptureIoFreeCount := m_CaptureIoFreeCount s + 1\<rparr>)
   }"

text \<open>The loops of \<open>FreeRenderIoPool\<close> and \<open>FreeCaptureIoPool\<close>; the count is the free count.\<close>

fun free_render_ios :: "nat \<Rightarrow> ('q, 'e) wave_stream \<Rightarrow> ('q, 'e) wave_stream option" where
  "free_render_ios 0 s = Some s"
| "free_render_ios (Suc n) s = do {
     (io, s) \<leftarrow> pop_render_io s;
     dev \<leftarrow> ViosndFreeWritePcmIo (m_Device s) io;
     free_render_ios n (s\<lparr>m_Device := dev\<rparr>)
   }"

definition FreeRenderIoPool :: "('q, 'e) wave_stream \<Rightarrow> ('q, 'e) wave_stream option" where
  "FreeRenderIoPool s =
     (if m_Capture s then Some s
      else if m_OutstandingWrites s \<noteq> 0 then Some s
      else do {
        s \<leftarrow> free_render_ios (unat (m_RenderIoFreeCount s)) s;
        case m_RenderFallbackBuffer s of
          None \<Rightarrow> Some s
        | Some (p, _) \<Rightarrow> do {
            dev \<leftarrow> ExFreePool (m_Device s) p;
            Some (s\<lparr>m_Device := dev, m_RenderFallbackBuffer := None,
                    m_RenderFallbackBufferSize := 0\<rparr>)
          }
      })"

fun free_capture_ios :: "nat \<Rightarrow> ('q, 'e) wave_stream \<Rightarrow> ('q, 'e) wave_stream option" where
  "free_capture_ios 0 s = Some s"
| "free_capture_ios (Suc n) s = do {
     (io, s) \<leftarrow> pop_capture_io s;
     dev \<leftarrow> ViosndFreeReadPcmIo (m_Device s) io;
     free_capture_ios n (s\<lparr>m_Device := dev\<rparr>)
   }"

definition FreeCaptureIoPool :: "('q, 'e) wave_stream \<Rightarrow> ('q, 'e) wave_stream option" where
  "FreeCaptureIoPool s =
     (if \<not> m_Capture s then Some s
      else if m_CaptureInFlight s \<noteq> 0 then Some s
      else free_capture_ios (unat (m_CaptureIoFreeCount s)) s)"

fun alloc_render_ios ::
  "('q, 'e) kernel \<Rightarrow> nat \<Rightarrow> ('q, 'e) wave_stream \<Rightarrow> (NTSTATUS \<times> ('q, 'e) wave_stream) option" where
  "alloc_render_ios K 0 s = Some (STATUS_SUCCESS, s)"
| "alloc_render_ios K (Suc n) s = do {
     (status, io, dev) \<leftarrow> ViosndAllocateWritePcmIo K
       (max (m_PacketSize s) VIOSND_FALLBACK_PERIOD_BYTES) (m_Device s);
     let s = s\<lparr>m_Device := dev\<rparr>;
     if \<not> NT_SUCCESS status then do { s \<leftarrow> FreeRenderIoPool s; Some (status, s) }
     else do { s \<leftarrow> push_render_io io s; alloc_render_ios K n s }
   }"

definition AllocateRenderIoPool ::
  "('q, 'e) kernel \<Rightarrow> ('q, 'e) wave_stream \<Rightarrow> (NTSTATUS \<times> ('q, 'e) wave_stream) option" where
  "AllocateRenderIoPool K s =
     (if m_Capture s \<or> m_RenderIoFreeCount s \<noteq> 0 then Some (STATUS_SUCCESS, s)
      else if m_PacketSize s = 0 then Some (STATUS_DEVICE_NOT_READY, s)
      else
        let (ok, s) =
          (if m_RenderFallbackBuffer s = None then
             let n = max VIOSND_FALLBACK_PERIOD_BYTES (m_PacketSize s);
                 (p, dev) = pool_alloc K (m_Device s) (unat n)
             in if p = 0 then (False, s\<lparr>m_Device := dev, m_RenderFallbackBufferSize := 0\<rparr>)
                else (True, s\<lparr>m_Device := dev, m_RenderFallbackBufferSize := n,
                              m_RenderFallbackBuffer := Some (p, replicate (unat n) 0)\<rparr>)
           else (True, s))
        in if \<not> ok then Some (STATUS_INSUFFICIENT_RESOURCES, s)
           else alloc_render_ios K VIOSND_RENDER_IO_POOL_SIZE s)"

fun alloc_capture_ios ::
  "('q, 'e) kernel \<Rightarrow> nat \<Rightarrow> ('q, 'e) wave_stream \<Rightarrow> (NTSTATUS \<times> ('q, 'e) wave_stream) option" where
  "alloc_capture_ios K 0 s = Some (STATUS_SUCCESS, s)"
| "alloc_capture_ios K (Suc n) s = do {
     (status, io, dev) \<leftarrow> ViosndAllocateReadPcmIo K (m_PacketSize s) (m_Device s);
     let s = s\<lparr>m_Device := dev\<rparr>;
     if \<not> NT_SUCCESS status then do { s \<leftarrow> FreeCaptureIoPool s; Some (status, s) }
     else do { s \<leftarrow> push_capture_io io s; alloc_capture_ios K n s }
   }"

definition AllocateCaptureIoPool ::
  "('q, 'e) kernel \<Rightarrow> ('q, 'e) wave_stream \<Rightarrow> (NTSTATUS \<times> ('q, 'e) wave_stream) option" where
  "AllocateCaptureIoPool K s =
     (if \<not> m_Capture s \<or> m_CaptureIoFreeCount s \<noteq> 0 then Some (STATUS_SUCCESS, s)
      else if m_PacketSize s = 0 then Some (STATUS_DEVICE_NOT_READY, s)
      else alloc_capture_ios K VIOSND_CAPTURE_IO_POOL_SIZE s)"

section \<open>Playback packets\<close>

text \<open>\<open>(PacketNumber % max(m_NotificationCount, 1u)) * m_PacketSize\<close>.\<close>

definition packet_offset :: "('q, 'e) wave_stream \<Rightarrow> u32 \<Rightarrow> u32" where
  "packet_offset s packetNumber =
     (packetNumber mod max (m_NotificationCount s) 1) * m_PacketSize s"

text \<open>
  The loop that fills the fallback period from at most three source packets, from packet
  \<open>packetNumber + i\<close> on with \<open>n\<close> iterations left.  The results are the contents of the fallback
  buffer, \<open>submitLength\<close>, \<open>sourceLength\<close>, \<open>sourcePackets\<close> and \<open>fallbackPhase\<close>.
\<close>

fun fallback_loop ::
  "('q, 'e) wave_stream \<Rightarrow> u8 list \<Rightarrow> u32 \<Rightarrow> nat \<Rightarrow> u32 \<Rightarrow> u8 list \<Rightarrow> u32 \<Rightarrow> u32 \<Rightarrow> u32 \<Rightarrow> u32 \<Rightarrow>
   (u8 list \<times> u32 \<times> u32 \<times> u32 \<times> u32) option" where
  "fallback_loop s buf packetNumber 0 i fb submitLength sourceLength sourcePackets phase =
     Some (fb, submitLength, sourceLength, sourcePackets, phase)"
| "fallback_loop s buf packetNumber (Suc n) i fb submitLength sourceLength sourcePackets phase =
     (let sourcePacket = packetNumber + i;
          isEos = (m_EosPacketNumber s = sourcePacket)
      in if VIOSND_FALLBACK_PERIOD_BYTES \<le> submitLength \<or>
            m_LastOsWritePacket s \<noteq> MAXULONG \<and>
            \<not> ViosndPacketNumberLessOrEqual sourcePacket (m_LastOsWritePacket s)
         then Some (fb, submitLength, sourceLength, sourcePackets, phase)
         else do {
           let sourcePacketLength = (if isEos then m_EosPacketLength s else m_PacketSize s);
           source \<leftarrow> read_bytes (unat (packet_offset s sourcePacket)) (unat sourcePacketLength) buf;
           let (out, phase) = ViosndDownsampleStereo16 (VIOSND_FALLBACK_PERIOD_BYTES - submitLength)
             source VIOSND_FALLBACK_SAMPLE_RATE phase;
           fb \<leftarrow> write_bytes (unat submitLength) out fb;
           let submitLength = submitLength + word_of_nat (length out);
           if isEos
           then Some (fb, submitLength, sourceLength + sourcePacketLength, sourcePackets + 1, phase)
           else fallback_loop s buf packetNumber n (i + 1) fb submitLength
                  (sourceLength + sourcePacketLength) (sourcePackets + 1) phase
         })"

text \<open>
  What \<open>SubmitRenderPacket\<close> does between taking the packet's address and taking a transfer
  descriptor: \<open>Inl\<close> an early return, \<open>Inr\<close> the bytes to submit, the source length and the
  number of source packets.
\<close>

definition render_payload ::
  "u32 \<Rightarrow> u32 \<Rightarrow> u8 list \<Rightarrow> ('q, 'e) wave_stream \<Rightarrow>
   ((NTSTATUS + u8 list \<times> u32 \<times> u32) \<times> ('q, 'e) wave_stream) option" where
  "render_payload packetNumber len buf s =
     (if \<not> m_RenderFallbackActive s then do {
        bytes \<leftarrow> read_bytes (unat (packet_offset s packetNumber)) (unat len) buf;
        Some (Inr (bytes, len, 1), s)
      }
      else case m_RenderFallbackBuffer s of
        None \<Rightarrow> Some (Inl STATUS_DEVICE_NOT_READY, s)
      | Some (p, fb) \<Rightarrow>
          if m_RenderFallbackBufferSize s < VIOSND_FALLBACK_PERIOD_BYTES
          then Some (Inl STATUS_DEVICE_NOT_READY, s)
          else do {
            (fb, submitLength, sourceLength, sourcePackets, phase) \<leftarrow>
              fallback_loop s buf packetNumber 3 0 fb 0 0 0 (m_RenderFallbackPhase s);
            let s = s\<lparr>m_RenderFallbackBuffer := Some (p, fb)\<rparr>;
            if submitLength = 0 then Some (Inl STATUS_INVALID_BUFFER_SIZE, s)
            else do {
              bytes \<leftarrow> read_bytes 0 (unat submitLength) fb;
              Some (Inr (bytes, sourceLength, sourcePackets), s\<lparr>m_RenderFallbackPhase := phase\<rparr>)
            }
          })"

definition SubmitRenderPacket ::
  "('q, 'e) kernel \<Rightarrow> u32 \<Rightarrow> u32 \<Rightarrow> ('q, 'e) wave_stream \<Rightarrow>
   (NTSTATUS \<times> ('q, 'e) wave_stream) option" where
  "SubmitRenderPacket K packetNumber packetLength s =
     (case m_Buffer s of
        None \<Rightarrow> Some (STATUS_INVALID_DEVICE_REQUEST, s)
      | Some buf \<Rightarrow>
          if m_Capture s \<or> m_PacketSize s = 0 then Some (STATUS_INVALID_DEVICE_REQUEST, s)
          else if m_RenderIoFreeCount s = 0 then Some (STATUS_DEVICE_BUSY, s)
          else do {
            let len = min packetLength (m_PacketSize s);
            buf \<leftarrow> (if packetLength < m_PacketSize s
                   then zero_bytes (unat (packet_offset s packetNumber + len))
                          (unat (m_PacketSize s - len)) buf
                   else Some buf);
            (payload, s) \<leftarrow> render_payload packetNumber (m_PacketSize s) buf (s\<lparr>m_Buffer := Some buf\<rparr>);
            case payload of
              Inl status \<Rightarrow> Some (status, s)
            | Inr (bytes, sourceLength, sourcePackets) \<Rightarrow> do {
                (io, s) \<leftarrow> pop_render_io s;
                (status, dev) \<leftarrow> ViosndSubmitPreparedWritePcm K (m_StreamId s) bytes sourceLength
                  packetNumber io (m_Device s);
                let s = s\<lparr>m_Device := dev\<rparr>;
                if NT_SUCCESS status
                then Some (status, s\<lparr>m_NextSubmitPacket := packetNumber + sourcePackets,
                                     m_OutstandingWrites := m_OutstandingWrites s + 1\<rparr>)
                else do { s \<leftarrow> push_render_io io s; Some (status, s) }
              }
          })"

text \<open>\<open>ViosndSilencePeriod\<close> is \<open>VIOSND_DEFAULT_PERIOD_BYTES\<close> zeroes.\<close>

definition SubmitRenderSilencePacket ::
  "('q, 'e) kernel \<Rightarrow> u32 \<Rightarrow> ('q, 'e) wave_stream \<Rightarrow> (NTSTATUS \<times> ('q, 'e) wave_stream) option" where
  "SubmitRenderSilencePacket K packetNumber s =
     (if m_Capture s \<or> m_Buffer s = None \<or> m_PacketSize s = 0
      then Some (STATUS_INVALID_DEVICE_REQUEST, s)
      else if m_RenderIoFreeCount s = 0 then Some (STATUS_DEVICE_BUSY, s)
      else
        let silenceLength = (if m_RenderFallbackActive s then VIOSND_FALLBACK_PERIOD_BYTES
                             else m_PacketSize s)
        in if VIOSND_DEFAULT_PERIOD_BYTES < silenceLength then Some (STATUS_INVALID_BUFFER_SIZE, s)
        else do {
          (io, s) \<leftarrow> pop_render_io s;
          (status, dev) \<leftarrow> ViosndSubmitPreparedWritePcm K (m_StreamId s)
            (replicate (unat silenceLength) 0) silenceLength packetNumber io (m_Device s);
          let s = s\<lparr>m_Device := dev\<rparr>;
          if NT_SUCCESS status
          then Some (status, s\<lparr>m_NextSubmitPacket := (if packetNumber \<noteq> MAXULONG then packetNumber + 1
                                                     else m_NextSubmitPacket s),
                               m_OutstandingWrites := m_OutstandingWrites s + 1\<rparr>)
          else do { s \<leftarrow> push_render_io io s; Some (status, s) }
        })"

text \<open>A returned descriptor goes back to the pool, or is freed when the pool is full.\<close>

definition return_render_io ::
  "ptr \<Rightarrow> ('q, 'e) wave_stream \<Rightarrow> ('q, 'e) wave_stream option" where
  "return_render_io io s =
     (if io \<noteq> 0 \<and> m_RenderIoFreeCount s < word_of_nat VIOSND_RENDER_IO_POOL_SIZE
      then push_render_io io s
      else do {
        dev \<leftarrow> ViosndFreeWritePcmIo (m_Device s) io;
        Some (s\<lparr>m_Device := dev\<rparr>)
      })"

definition render_completed ::
  "ptr \<Rightarrow> u32 \<Rightarrow> u32 \<times> ('q, 'e) wave_stream \<Rightarrow> (u32 \<times> ('q, 'e) wave_stream) option" where
  "render_completed io bytesWritten = (\<lambda>(submitted, s). do {
     packetNumber \<leftarrow> ViosndGetPcmIoPacketNumber (m_Device s) io;
     if packetNumber = MAXULONG then Some (submitted, s)
     else do {
       sourceBytes \<leftarrow> (if m_RenderFallbackActive s then ViosndGetPcmIoSourceLength (m_Device s) io
                      else Some bytesWritten);
       let sourceBytes = (if sourceBytes = 0 then bytesWritten else sourceBytes);
       Some (submitted + 1,
         notify_client (s\<lparr>m_Position := m_Position s + ucast sourceBytes,
                          m_PacketNumber := m_PacketNumber s + 1\<rparr>))
     }
   })"

text \<open>The first argument after the kernel is \<open>*SubmittedSinceLog\<close>.\<close>

partial_function (option) ReclaimRenderPackets ::
  "('q, 'e) kernel \<Rightarrow> u32 \<Rightarrow> ('q, 'e) wave_stream \<Rightarrow> (u32 \<times> ('q, 'e) wave_stream) option" where
  "ReclaimRenderPackets K submitted s = do {
     (status, io, bytesWritten, _, dev) \<leftarrow> ViosndReclaimPreparedWritePcm K (m_Device s);
     let s = s\<lparr>m_Device := dev\<rparr>;
     if status = STATUS_NOT_FOUND \<or> io = 0 then Some (submitted, s)
     else do {
       let s = s\<lparr>m_OutstandingWrites :=
         (if m_OutstandingWrites s \<noteq> 0 then m_OutstandingWrites s - 1 else 0)\<rparr>;
       (submitted, s) \<leftarrow> (if NT_SUCCESS status then render_completed io bytesWritten (submitted, s)
                        else Some (submitted, s));
       s \<leftarrow> return_render_io io s;
       ReclaimRenderPackets K submitted s
     }
   }"

partial_function (option) cancel_writes ::
  "('q, 'e) kernel \<Rightarrow> ('q, 'e) wave_stream \<Rightarrow> ('q, 'e) wave_stream option" where
  "cancel_writes K s =
     (if m_OutstandingWrites s = 0 then Some s
      else do {
        (status, io, dev) \<leftarrow> ViosndDetachUnusedWritePcm K (m_Device s);
        let s = s\<lparr>m_Device := dev\<rparr>;
        if \<not> NT_SUCCESS status then Some s
        else do {
          s \<leftarrow> return_render_io io (s\<lparr>m_OutstandingWrites := m_OutstandingWrites s - 1\<rparr>);
          cancel_writes K s
        }
      })"

definition CancelRenderWrites ::
  "('q, 'e) kernel \<Rightarrow> ('q, 'e) wave_stream \<Rightarrow> ('q, 'e) wave_stream option" where
  "CancelRenderWrites K s =
     (if m_Capture s then Some s
      else do {
        (_, s) \<leftarrow> ReclaimRenderPackets K 0 s;
        cancel_writes K s
      })"

section \<open>Capture packets\<close>

definition SubmitCapturePacket ::
  "('q, 'e) kernel \<Rightarrow> ('q, 'e) wave_stream \<Rightarrow> (NTSTATUS \<times> ('q, 'e) wave_stream) option" where
  "SubmitCapturePacket K s =
     (if \<not> m_Capture s \<or> m_Buffer s = None \<or> m_PacketSize s = 0 \<or> m_NotificationCount s = 0
      then Some (STATUS_INVALID_DEVICE_REQUEST, s)
      else if m_CaptureIoFreeCount s = 0 then Some (STATUS_DEVICE_BUSY, s)
      else if m_NotificationCount s \<le> m_CaptureInFlight s then Some (STATUS_DEVICE_BUSY, s)
      else do {
        (io, s) \<leftarrow> pop_capture_io s;
        (status, dev) \<leftarrow> ViosndSubmitPreparedReadPcm K (m_StreamId s) (m_PacketSize s)
          (m_NextSubmitPacket s) io (m_Device s);
        let s = s\<lparr>m_Device := dev\<rparr>;
        if NT_SUCCESS status
        then Some (status, s\<lparr>m_NextSubmitPacket := m_NextSubmitPacket s + 1,
                             m_CaptureInFlight := m_CaptureInFlight s + 1\<rparr>)
        else do { s \<leftarrow> push_capture_io io s; Some (status, s) }
      })"

text \<open>The counters after packet \<open>packetNumber\<close> arrived, with the overflow rule.\<close>

definition capture_counters :: "u32 \<Rightarrow> ('q, 'e) wave_stream \<Rightarrow> ('q, 'e) wave_stream" where
  "capture_counters packetNumber s =
     (let s = s\<lparr>m_PacketNumber := packetNumber + 1,
                m_Position := m_Position s + ucast (m_PacketSize s),
                m_OutstandingWrites := packetNumber + 1 - m_NextReadPacket s\<rparr>
      in if m_NotificationCount s < m_OutstandingWrites s
         then let droppedPackets = m_OutstandingWrites s - m_NotificationCount s
              in s\<lparr>m_NextReadPacket := m_NextReadPacket s + droppedPackets,
                   m_OutstandingWrites := m_NotificationCount s,
                   m_CaptureOverflows := m_CaptureOverflows s + droppedPackets\<rparr>
         else s)"

text \<open>
  A successful completion: the audio is copied into its packet of the cyclic buffer with the
  software gain, the rest of the packet is zeroed.  \<open>None\<close> also stands for the division by a
  zero \<open>m_NotificationCount\<close> and for a NULL buffer.  The noise gate is compiled out.
\<close>

definition capture_completed ::
  "ptr \<Rightarrow> u32 \<Rightarrow> ('q, 'e) wave_stream \<Rightarrow> ('q, 'e) wave_stream option" where
  "capture_completed io bytesRead s = do {
     packetNumber \<leftarrow> ViosndGetPcmIoPacketNumber (m_Device s) io;
     if m_NotificationCount s = 0 then None
     else do {
       let off = (packetNumber mod m_NotificationCount s) * m_PacketSize s;
       (va, at) \<leftarrow> ViosndGetPcmIoAudioBuffer (m_Device s) io;
       let copyLength = min bytesRead (m_PacketSize s);
       source \<leftarrow> dma_read (m_Device s) va at (unat copyLength);
       (audio, _) \<leftarrow> ViosndPcmCopyGain16 source VIOSND_CAPTURE_SOFTWARE_GAIN;
       buf \<leftarrow> m_Buffer s;
       buf \<leftarrow> write_bytes (unat off) audio buf;
       buf \<leftarrow> (if bytesRead < m_PacketSize s
              then zero_bytes (unat off + unat bytesRead) (unat (m_PacketSize s - bytesRead)) buf
              else Some buf);
       Some (notify_client (capture_counters packetNumber (s\<lparr>m_Buffer := Some buf\<rparr>)))
     }
   }"

definition return_capture_io ::
  "ptr \<Rightarrow> ('q, 'e) wave_stream \<Rightarrow> ('q, 'e) wave_stream option" where
  "return_capture_io io s =
     (if io \<noteq> 0 \<and> m_CaptureIoFreeCount s < word_of_nat VIOSND_CAPTURE_IO_POOL_SIZE
      then push_capture_io io s
      else do {
        dev \<leftarrow> ViosndFreeReadPcmIo (m_Device s) io;
        Some (s\<lparr>m_Device := dev\<rparr>)
      })"

partial_function (option) ReclaimCapturePackets ::
  "('q, 'e) kernel \<Rightarrow> ('q, 'e) wave_stream \<Rightarrow> ('q, 'e) wave_stream option" where
  "ReclaimCapturePackets K s = do {
     (status, io, bytesRead, _, dev) \<leftarrow> ViosndReclaimPreparedReadPcm K (m_Device s);
     let s = s\<lparr>m_Device := dev\<rparr>;
     if status = STATUS_NOT_FOUND then Some s
     else do {
       let s = s\<lparr>m_CaptureInFlight :=
         (if m_CaptureInFlight s \<noteq> 0 then m_CaptureInFlight s - 1 else 0)\<rparr>;
       s \<leftarrow> (if NT_SUCCESS status \<and> io \<noteq> 0 then capture_completed io bytesRead s else Some s);
       s \<leftarrow> return_capture_io io s;
       ReclaimCapturePackets K s
     }
   }"

section \<open>Clock and position\<close>

definition GetRenderClockPosition ::
  "'e wave_kernel \<Rightarrow> ('q, 'e) wave_stream \<Rightarrow> u64 \<times> ('q, 'e) wave_stream" where
  "GetRenderClockPosition W s =
     (if m_Capture s \<or> m_RunStartQpc s = 0 \<or> sint (m_QpcFrequency s) \<le> 0 then (m_Position s, s)
      else
        let (qpc, _, s) = query_qpc W s
        in (m_RunStartPosition s +
              ViosndRenderBytesFromQpc (qpc - m_RunStartQpc s) (m_QpcFrequency s), s))"

definition render_target :: "('q, 'e) wave_stream \<Rightarrow> u32" where
  "render_target s =
     (if m_RenderFallbackActive s then ViosndFallbackTargetOutstandingPackets (m_NotificationCount s)
      else if m_LastOsWritePacket s = MAXULONG
      then ViosndCyclicTargetOutstandingPackets (m_NotificationCount s)
      else ViosndTargetOutstandingPackets (m_NotificationCount s))"

text \<open>The results are \<open>PlayOffset\<close> and \<open>WriteOffset\<close>; the status is always success.\<close>

definition GetPosition ::
  "'e wave_kernel \<Rightarrow> ('q, 'e) wave_stream \<Rightarrow> u64 \<times> u64 \<times> ('q, 'e) wave_stream" where
  "GetPosition W s =
     (if m_BufferSize s = 0 then (0, 0, s)
      else if m_Capture s then
        let recordOffset = m_Position s mod ucast (m_BufferSize s)
        in (recordOffset, recordOffset,
            s\<lparr>m_CapturePositionQueries := m_CapturePositionQueries s + 1\<rparr>)
      else
        let (currentPosition, s) = GetRenderClockPosition W s;
            playOffset = currentPosition mod ucast (m_BufferSize s);
            writeLead = ucast (m_PacketSize s) * ucast (max (render_target s) 1);
            writeLead = (if m_RenderFallbackActive s then writeLead * 3 else writeLead)
        in (playOffset, (playOffset + writeLead) mod ucast (m_BufferSize s),
            s\<lparr>m_RenderPositionQueries := m_RenderPositionQueries s + 1\<rparr>))"

text \<open>\<open>u64PositionInBlocks\<close> and \<open>u64QPCPosition\<close>.\<close>

definition GetOutputStreamPresentationPosition ::
  "'e wave_kernel \<Rightarrow> ('q, 'e) wave_stream \<Rightarrow> u64 \<times> u64 \<times> ('q, 'e) wave_stream" where
  "GetOutputStreamPresentationPosition W s =
     (let (currentPosition, s) =
            (if m_Capture s then (m_Position s, s) else GetRenderClockPosition W s);
          blocks = currentPosition div
            (ucast VIOSND_DEFAULT_CHANNELS * ucast VIOSND_DEFAULT_BITS_PER_SAMPLE) div 8;
          (qpc, _, s) = query_qpc W s
      in (blocks, qpc, s))"

definition GetPacketCount :: "('q, 'e) wave_stream \<Rightarrow> u32" where
  "GetPacketCount s = m_PacketNumber s"

text \<open>\<open>FifoSize\<close>; the other fields of the latency are zero.\<close>

definition GetHWLatency :: u32 where
  "GetHWLatency = VIOSND_DEFAULT_PERIOD_BYTES"

definition GetPositionRegister :: NTSTATUS where
  "GetPositionRegister = STATUS_NOT_SUPPORTED"

definition GetClockRegister :: NTSTATUS where
  "GetClockRegister = STATUS_NOT_SUPPORTED"

section \<open>Packet methods of the client\<close>

definition RegisterNotificationEvent ::
  "ptr \<Rightarrow> ('q, 'e) wave_stream \<Rightarrow> NTSTATUS \<times> ('q, 'e) wave_stream" where
  "RegisterNotificationEvent event s = (STATUS_SUCCESS, s\<lparr>m_NotificationEvent := event\<rparr>)"

definition UnregisterNotificationEvent ::
  "ptr \<Rightarrow> ('q, 'e) wave_stream \<Rightarrow> NTSTATUS \<times> ('q, 'e) wave_stream" where
  "UnregisterNotificationEvent event s =
     (STATUS_SUCCESS, if m_NotificationEvent s = event then s\<lparr>m_NotificationEvent := 0\<rparr> else s)"

text \<open>On success: the packet number, the counter value and \<open>MoreData\<close>; \<open>*Flags\<close> is 0.\<close>

definition GetReadPacket ::
  "'e wave_kernel \<Rightarrow> ('q, 'e) wave_stream \<Rightarrow>
   NTSTATUS \<times> (u32 \<times> u64 \<times> bool) option \<times> ('q, 'e) wave_stream" where
  "GetReadPacket W s =
     (if \<not> m_Capture s \<or> m_Buffer s = None \<or> m_PacketSize s = 0
      then (STATUS_INVALID_DEVICE_REQUEST, None, s)
      else if m_State s \<noteq> KSSTATE_RUN \<or> m_OutstandingWrites s = 0
      then (STATUS_DEVICE_NOT_READY, None, s)
      else
        let packetNumber = m_NextReadPacket s;
            (qpc, _, s) = query_qpc W (s\<lparr>m_NextReadPacket := m_NextReadPacket s + 1\<rparr>);
            s = s\<lparr>m_OutstandingWrites := m_OutstandingWrites s - 1,
                  m_CaptureReadPackets := m_CaptureReadPackets s + 1\<rparr>
        in (STATUS_SUCCESS, Some (packetNumber, qpc, m_OutstandingWrites s \<noteq> 0), notify_client s))"

abbreviation (input) KSSTREAM_HEADER_OPTIONSF_ENDOFSTREAM :: u32 where
  "KSSTREAM_HEADER_OPTIONSF_ENDOFSTREAM \<equiv> 0x200"

definition SetWritePacket ::
  "u32 \<Rightarrow> u32 \<Rightarrow> u32 \<Rightarrow> ('q, 'e) wave_stream \<Rightarrow> NTSTATUS \<times> ('q, 'e) wave_stream" where
  "SetWritePacket packetNumber flags eosPacketLength s =
     (if m_Capture s \<or> m_Buffer s = None \<or> m_PacketSize s = 0
      then (STATUS_INVALID_DEVICE_REQUEST, s)
      else
        let s = (if m_LastOsWritePacket s = MAXULONG then s\<lparr>m_NextSubmitPacket := packetNumber\<rparr>
                 else s);
            s = s\<lparr>m_LastOsWritePacket := packetNumber\<rparr>;
            s = (if flags AND KSSTREAM_HEADER_OPTIONSF_ENDOFSTREAM \<noteq> 0
                 then s\<lparr>m_EosPacketNumber := packetNumber,
                        m_EosPacketLength := min eosPacketLength (m_PacketSize s)\<rparr>
                 else if m_EosPacketNumber s \<noteq> MAXULONG \<and>
                   ViosndPacketNumberLessOrEqual (m_EosPacketNumber s) packetNumber
                 then s\<lparr>m_EosPacketNumber := MAXULONG, m_EosPacketLength := 0\<rparr>
                 else s)
        in (STATUS_SUCCESS, s\<lparr>m_KickEvent := True\<rparr>))"

end
