(* ===== verification/Wave_State.thy ===== *)
theory Wave_State
  imports Wave_Stream
begin

text \<open>
  The life of a WaveRT stream (\<open>viosnd/sys/ViosndWaveRT.cpp\<close>): allocation and release of its
  cyclic buffer, its reference count and its worker thread, the bodies of the render and capture
  worker loops with the switch to the fallback format, and \<open>SetState\<close>.  A worker thread runs one
  iteration of its loop, or its exit, as one step; the relation \<open>stream_step\<close> of
  \<open>Wave_Lifecycle\<close> interleaves these with the calls of the port driver.
\<close>

definition if_success ::
  "('s \<Rightarrow> (NTSTATUS \<times> 's) option) \<Rightarrow> NTSTATUS \<times> 's \<Rightarrow> (NTSTATUS \<times> 's) option" where
  "if_success f = (\<lambda>(status, s). if NT_SUCCESS status then f s else Some (status, s))"

definition on_device ::
  "(('q, 'e) VIOSND_DEVICE \<Rightarrow> (NTSTATUS \<times> ('q, 'e) VIOSND_DEVICE) option) \<Rightarrow>
   ('q, 'e) wave_stream \<Rightarrow> (NTSTATUS \<times> ('q, 'e) wave_stream) option" where
  "on_device f s = do {
     (status, dev) \<leftarrow> f (m_Device s);
     Some (status, s\<lparr>m_Device := dev\<rparr>)
   }"

section \<open>The cyclic buffer\<close>

text \<open>\<open>MmFreePagesFromMdl\<close> and \<open>ExFreePool\<close> of the list; freeing an address twice is \<open>None\<close>.\<close>

definition free_mdl :: "ptr \<Rightarrow> ('q, 'e) wave_stream \<Rightarrow> ('q, 'e) wave_stream option" where
  "free_mdl mdl s =
     (if mdl \<in> set (m_Mdls s) then Some (s\<lparr>m_Mdls := remove1 mdl (m_Mdls s)\<rparr>) else None)"

definition FreeAudioBuffer :: "ptr \<Rightarrow> ('q, 'e) wave_stream \<Rightarrow> ('q, 'e) wave_stream option" where
  "FreeAudioBuffer mdl s = do {
     s \<leftarrow> (if mdl \<noteq> 0 then free_mdl mdl s else Some s);
     if mdl \<noteq> m_Mdl s then Some s
     else do {
       s \<leftarrow> FreeRenderIoPool s;
       s \<leftarrow> FreeCaptureIoPool s;
       Some (s\<lparr>m_Mdl := 0, m_Buffer := None, m_BufferSize := 0, m_NotificationCount := 0,
               m_PacketSize := 0, m_PacketNumber := 0, m_LastOsWritePacket := MAXULONG,
               m_NextSubmitPacket := 0, m_NextReadPacket := 0, m_EosPacketNumber := MAXULONG,
               m_EosPacketLength := 0, m_OutstandingWrites := 0, m_RenderUnderruns := 0,
               m_RenderFallbackPackets := 0, m_RenderPrerollPackets := 0, m_RenderStallLoops := 0,
               m_CaptureStallLoops := 0, m_RenderPositionQueries := 0,
               m_RenderNotReadyLoops := 0, m_RenderFallbackPhase := 0,
               m_RenderFallbackActive := False, m_RenderFallbackAttempted := False,
               m_FallbackMonitorStartPosition := 0, m_FallbackMonitorStartQpc := 0,
               m_CaptureOverflows := (if m_CaptureInFlight s = 0 then 0 else m_CaptureOverflows s),
               m_Position := 0\<rparr>)
     }
   }"

text \<open>The result with the status is \<open>*AudioBufferMdl\<close> and \<open>*ActualSize\<close> on success.\<close>

definition AllocateAudioBuffer ::
  "'e wave_kernel \<Rightarrow> u32 \<Rightarrow> ('q, 'e) wave_stream \<Rightarrow>
   (NTSTATUS \<times> (ptr \<times> u32) option \<times> ('q, 'e) wave_stream) option" where
  "AllocateAudioBuffer W requestedSize s =
     (let allocationSize = max requestedSize VIOSND_DEFAULT_BUFFER_BYTES;
          (mdl, allocatedSize, e) = MmAllocatePagesForMdlEx W (ext (m_Device s)) allocationSize;
          s = s\<lparr>m_Device := (m_Device s)\<lparr>ext := e\<rparr>, m_Mdl := mdl\<rparr>
      in if mdl = 0 then Some (STATUS_INSUFFICIENT_RESOURCES, None, s)
         else
           let s = s\<lparr>m_Mdls := mdl # m_Mdls s\<rparr>;
               (mapped, e) = MmGetSystemAddressForMdlSafe W (ext (m_Device s));
               s = s\<lparr>m_Device := (m_Device s)\<lparr>ext := e\<rparr>\<rparr>
           in if \<not> mapped then do {
                s \<leftarrow> FreeAudioBuffer mdl (s\<lparr>m_Buffer := None\<rparr>);
                Some (STATUS_INSUFFICIENT_RESOURCES, None, s)
              } else
                let bufferSize = ViosndUsableBufferSizeFromAllocatedSize allocatedSize;
                    notificationCount = ViosndNotificationCountFromBufferSize bufferSize;
                    packetSize = ViosndPacketSizeFromNotificationCount bufferSize notificationCount
                in Some (STATUS_SUCCESS, Some (mdl, bufferSize),
                         s\<lparr>m_Buffer := Some (replicate (unat allocatedSize) 0),
                           m_BufferSize := bufferSize, m_NotificationCount := notificationCount,
                           m_PacketSize := packetSize\<rparr>))"

definition AllocateBufferWithNotification ::
  "'e wave_kernel \<Rightarrow> u32 \<Rightarrow> u32 \<Rightarrow> ('q, 'e) wave_stream \<Rightarrow>
   (NTSTATUS \<times> (ptr \<times> u32) option \<times> ('q, 'e) wave_stream) option" where
  "AllocateBufferWithNotification W notificationCount requestedSize s =
     (let requested = (if notificationCount \<noteq> 0 then notificationCount
            else VIOSND_DEFAULT_BUFFER_BYTES div VIOSND_DEFAULT_PERIOD_BYTES);
          requested = max requested 1;
          periodAlignedSize = ucast requested * ucast VIOSND_DEFAULT_PERIOD_BYTES :: u64
      in if ucast MAXULONG < periodAlignedSize then Some (STATUS_INVALID_BUFFER_SIZE, None, s)
         else do {
           (status, result, s) \<leftarrow> AllocateAudioBuffer W (ucast periodAlignedSize) s;
           if NT_SUCCESS status then do {
             let count = ViosndNotificationCountFromBufferSize (m_BufferSize s);
             let size = ViosndPacketSizeFromNotificationCount (m_BufferSize s) count;
             Some (status, result, s\<lparr>m_NotificationCount := count, m_PacketSize := size\<rparr>)
           } else Some (status, result, s)
         })"

definition FreeBufferWithNotification ::
  "ptr \<Rightarrow> ('q, 'e) wave_stream \<Rightarrow> ('q, 'e) wave_stream option" where
  "FreeBufferWithNotification mdl s = do {
     s \<leftarrow> FreeAudioBuffer mdl s;
     Some (s\<lparr>m_NotificationCount := 0, m_PacketSize := 0\<rparr>)
   }"

section \<open>Reference count and worker thread\<close>

definition AddRef :: "('q, 'e) wave_stream \<Rightarrow> ('q, 'e) wave_stream" where
  "AddRef s = s\<lparr>m_RefCount := m_RefCount s + 1\<rparr>"

text \<open>The end of \<open>Release\<close> when the count reached zero, after the worker is gone.\<close>

definition destroy_stream :: "('q, 'e) wave_stream \<Rightarrow> ('q, 'e) wave_stream option" where
  "destroy_stream s = do {
     s \<leftarrow> (if m_Mdl s \<noteq> 0 then FreeAudioBuffer (m_Mdl s) s else Some s);
     s \<leftarrow> FreeRenderIoPool s;
     s \<leftarrow> FreeCaptureIoPool s;
     dev \<leftarrow> ExFreePool (m_Device s) (m_This s);
     Some (s\<lparr>m_Miniport := False, m_Device := dev, m_Destroyed := True\<rparr>)
   }"

text \<open>\<open>Release\<close> called by the thread \<open>m_ThreadObject\<close> itself.\<close>

definition Release_in_worker :: "('q, 'e) wave_stream \<Rightarrow> ('q, 'e) wave_stream option" where
  "Release_in_worker s =
     (if m_RefCount s = 0 then None
      else
        let s = s\<lparr>m_RefCount := m_RefCount s - 1\<rparr>
        in if m_RefCount s \<noteq> 0 then Some s
           else destroy_stream (s\<lparr>m_ThreadObject := 0, m_WorkerStarted := False\<rparr>))"

text \<open>The drain at the end of \<open>CaptureWorkerLoop\<close>, \<open>n\<close> polls left.\<close>

fun capture_drain ::
  "('q, 'e) kernel \<Rightarrow> nat \<Rightarrow> ('q, 'e) wave_stream \<Rightarrow> ('q, 'e) wave_stream option" where
  "capture_drain K 0 s = Some s"
| "capture_drain K (Suc n) s =
     (if m_CaptureInFlight s = 0 then Some s
      else do {
        s \<leftarrow> ReclaimCapturePackets K s;
        capture_drain K n s
      })"

text \<open>What the worker does after its loop, up to its \<open>Release\<close>.\<close>

definition worker_epilogue ::
  "('q, 'e) kernel \<Rightarrow> ('q, 'e) wave_stream \<Rightarrow> ('q, 'e) wave_stream option" where
  "worker_epilogue K s =
     (if m_Capture s then capture_drain K VIOSND_CAPTURE_STOP_RECLAIM_POLLS s else Some s)"

definition worker_exit ::
  "('q, 'e) kernel \<Rightarrow> ('q, 'e) wave_stream \<Rightarrow> ('q, 'e) wave_stream option" where
  "worker_exit K s = do {
     s \<leftarrow> worker_epilogue K s;
     Release_in_worker (s\<lparr>m_ThreadLive := False\<rparr>)
   }"

text \<open>
  The result is \<open>TRUE\<close> when the worker is gone.  A worker that exits in time runs its epilogue
  and its \<open>Release\<close> during the wait; the members are read afterwards, so that \<open>Release\<close> must not
  have been the last one (\<open>None\<close>).
\<close>

definition StopRenderWorker ::
  "('q, 'e) kernel \<Rightarrow> 'e wave_kernel \<Rightarrow> ('q, 'e) wave_stream \<Rightarrow>
   (bool \<times> ('q, 'e) wave_stream) option" where
  "StopRenderWorker K W s =
     (if m_ThreadObject s = 0 then Some (True, s\<lparr>m_WorkerStarted := False\<rparr>)
      else
        let s = s\<lparr>m_StopEvent := True\<rparr>;
            (exits, e) = worker_exits W (ext (m_Device s));
            s = s\<lparr>m_Device := (m_Device s)\<lparr>ext := e\<rparr>\<rparr>
        in if m_ThreadLive s \<and> \<not> exits then
             Some (False,
               if m_Capture s
               then s\<lparr>ViosndCaptureFaulted := True, m_ThreadObject := 0, m_WorkerStarted := False,
                      m_ThreadLive := False, m_Orphans := m_Orphans s + 1\<rparr>
               else s)
           else do {
             s \<leftarrow> (if m_ThreadLive s then worker_exit K s else Some s);
             if m_Destroyed s then None
             else do {
               let s = s\<lparr>m_ThreadObject := 0, m_WorkerStarted := False\<rparr>;
               s \<leftarrow> (if m_Capture s then FreeCaptureIoPool s else FreeRenderIoPool s);
               Some (True, s)
             }
           })"

text \<open>\<open>Release\<close> called by any other thread.\<close>

definition Release ::
  "('q, 'e) kernel \<Rightarrow> 'e wave_kernel \<Rightarrow> ('q, 'e) wave_stream \<Rightarrow> ('q, 'e) wave_stream option" where
  "Release K W s = do {
     (_, s) \<leftarrow> (if m_ThreadObject s \<noteq> 0 then StopRenderWorker K W s else Some (True, s));
     if m_RefCount s = 0 then None
     else do {
       let s = s\<lparr>m_RefCount := m_RefCount s - 1\<rparr>;
       if m_RefCount s \<noteq> 0 then Some s
       else do {
         (_, s) \<leftarrow> StopRenderWorker K W s;
         destroy_stream s
       }
     }
   }"

text \<open>A failed \<open>ObReferenceObjectByHandle\<close> stores NULL; the thread runs on without a reference.\<close>

definition StartRenderWorker ::
  "('q, 'e) kernel \<Rightarrow> 'e wave_kernel \<Rightarrow> ('q, 'e) wave_stream \<Rightarrow>
   (NTSTATUS \<times> ('q, 'e) wave_stream) option" where
  "StartRenderWorker K W s =
     (if m_WorkerStarted s then Some (STATUS_SUCCESS, s)
      else do {
        (status, s) \<leftarrow> (if m_Capture s then AllocateCaptureIoPool K s else AllocateRenderIoPool K s);
        if \<not> NT_SUCCESS status then Some (status, s)
        else do {
          let s = AddRef (s\<lparr>m_StopEvent := False, m_KickEvent := False\<rparr>);
          let (status, e) = PsCreateSystemThread W (ext (m_Device s));
          let s = s\<lparr>m_Device := (m_Device s)\<lparr>ext := e\<rparr>\<rparr>;
          if \<not> NT_SUCCESS status then do { s \<leftarrow> Release K W s; Some (status, s) }
          else do {
            let (status, thread, e) = ObReferenceObjectByHandle W (ext (m_Device s));
            let s = s\<lparr>m_Device := (m_Device s)\<lparr>ext := e\<rparr>\<rparr>;
            Some (if \<not> NT_SUCCESS status
                  then (status, s\<lparr>m_ThreadObject := 0, m_StopEvent := True,
                                  m_Orphans := m_Orphans s + 1\<rparr>)
                  else (STATUS_SUCCESS, s\<lparr>m_ThreadObject := thread, m_WorkerStarted := True,
                                          m_ThreadLive := True\<rparr>))
          }
        }
      })"

section \<open>The fallback format\<close>

fun preroll ::
  "('q, 'e) kernel \<Rightarrow> nat \<Rightarrow> NTSTATUS \<Rightarrow> ('q, 'e) wave_stream \<Rightarrow>
   (NTSTATUS \<times> ('q, 'e) wave_stream) option" where
  "preroll K 0 status s = Some (status, s)"
| "preroll K (Suc prerollPackets) status s =
     (if VIOSND_RENDER_START_PREROLL_PACKETS \<le> m_OutstandingWrites s then Some (status, s)
      else do {
        (status, s) \<leftarrow> SubmitRenderSilencePacket K MAXULONG s;
        if \<not> NT_SUCCESS status then Some (status, s) else preroll K prerollPackets status s
      })"

definition SwitchRenderToFallback ::
  "('q, 'e) kernel \<Rightarrow> 'e wave_kernel \<Rightarrow> ('q, 'e) wave_stream \<Rightarrow>
   (NTSTATUS \<times> ('q, 'e) wave_stream) option" where
  "SwitchRenderToFallback K W s = do {
     (stopStatus, s) \<leftarrow> on_device (ViosndStopPcm K (m_StreamId s)) (s\<lparr>m_RenderFallbackAttempted := True\<rparr>);
     (releaseStatus, s) \<leftarrow> on_device (ViosndReleasePcm K (m_StreamId s)) s;
     s \<leftarrow> CancelRenderWrites K s;
     if \<not> NT_SUCCESS stopStatus \<or> \<not> NT_SUCCESS releaseStatus
     then Some (if \<not> NT_SUCCESS stopStatus then stopStatus else releaseStatus, s)
     else do {
       let s = s\<lparr>m_RenderFallbackActive := True, m_RenderFallbackPhase := ViosndFallbackInitialPhase\<rparr>;
       r \<leftarrow> on_device (ViosndConfigureFallbackPcm K (m_StreamId s)) s;
       r \<leftarrow> if_success (preroll K (unat VIOSND_RENDER_START_PREROLL_PACKETS) STATUS_SUCCESS) r;
       (status, s) \<leftarrow> if_success (\<lambda>s. on_device (ViosndStartPcm K (m_StreamId s)) s) r;
       if \<not> NT_SUCCESS status then Some (status, s\<lparr>m_RenderFallbackActive := False\<rparr>)
       else do {
         let (qpc, frequency, s) = query_qpc W s;
         Some (STATUS_SUCCESS,
           s\<lparr>m_RunStartPosition := m_Position s, m_RunStartQpc := qpc, m_QpcFrequency := frequency,
             m_FallbackMonitorStartQpc := 0, m_FallbackMonitorStartPosition := 0\<rparr>)
       }
     }
   }"

text \<open>
  The two quotients have \<open>m_QpcFrequency\<close>, positive at that point, as divisor; the products wrap
  at 64 bits.
\<close>

definition MaybeSwitchRenderFallback ::
  "('q, 'e) kernel \<Rightarrow> 'e wave_kernel \<Rightarrow> ('q, 'e) wave_stream \<Rightarrow> ('q, 'e) wave_stream option" where
  "MaybeSwitchRenderFallback K W s =
     (if m_Capture s \<or> m_RenderFallbackAttempted s \<or> m_State s \<noteq> KSSTATE_RUN \<or>
         sint (m_QpcFrequency s) \<le> 0 then Some s
      else
        let (qpc, _, s) = query_qpc W s
        in if m_FallbackMonitorStartQpc s = 0
           then Some (s\<lparr>m_FallbackMonitorStartQpc := qpc,
                        m_FallbackMonitorStartPosition := m_Position s\<rparr>)
           else
             let elapsedQpc = qpc - m_FallbackMonitorStartQpc s;
                 elapsedMs = (elapsedQpc * 1000) div m_QpcFrequency s;
                 completedBytes = m_Position s - m_FallbackMonitorStartPosition s;
                 bytesPerSecond = ucast VIOSND_DEFAULT_SAMPLE_RATE * ucast VIOSND_DEFAULT_CHANNELS *
                   (ucast VIOSND_DEFAULT_BITS_PER_SAMPLE div 8);
                 expectedBytes = (elapsedQpc * bytesPerSecond) div m_QpcFrequency s
             in if sint elapsedQpc \<le> 0 \<or> elapsedMs < word_of_int VIOSND_FALLBACK_MONITOR_MS \<or>
                   expectedBytes = 0 then Some s
                else if expectedBytes * word_of_nat VIOSND_FALLBACK_TRIGGER_PERCENT \<le> completedBytes * 100
                then Some (if \<not> m_RenderFallbackActive s then s\<lparr>m_RenderFallbackAttempted := True\<rparr>
                           else s\<lparr>m_FallbackMonitorStartQpc := qpc,
                                  m_FallbackMonitorStartPosition := m_Position s\<rparr>)
                else map_option snd (SwitchRenderToFallback K W s))"

section \<open>The worker loops\<close>

text \<open>The \<open>while\<close> loop that keeps \<open>targetOutstanding\<close> packets with the device.\<close>

partial_function (option) render_submit ::
  "('q, 'e) kernel \<Rightarrow> u32 \<Rightarrow> ('q, 'e) wave_stream \<Rightarrow> ('q, 'e) wave_stream option" where
  "render_submit K targetOutstanding s =
     (if m_State s \<noteq> KSSTATE_RUN \<or> targetOutstanding \<le> m_OutstandingWrites s then Some s
      else if ViosndHasWritableRenderPacket (m_NextSubmitPacket s) (m_LastOsWritePacket s) then do {
        (status, s) \<leftarrow> SubmitRenderPacket K (m_NextSubmitPacket s)
          (if m_EosPacketNumber s = m_NextSubmitPacket s then m_EosPacketLength s else m_PacketSize s) s;
        if \<not> NT_SUCCESS status then Some s else render_submit K targetOutstanding s
      }
      else if m_LastOsWritePacket s = MAXULONG then do {
        (status, s) \<leftarrow>
          (if m_RenderPrerollPackets s \<noteq> 0 then do {
             (status, s) \<leftarrow> SubmitRenderSilencePacket K (m_NextSubmitPacket s) s;
             Some (status, if NT_SUCCESS status
                           then s\<lparr>m_RenderPrerollPackets := m_RenderPrerollPackets s - 1\<rparr> else s)
           } else SubmitRenderPacket K (m_NextSubmitPacket s) (m_PacketSize s) s);
        if \<not> NT_SUCCESS status then Some s
        else render_submit K targetOutstanding
               (s\<lparr>m_RenderFallbackPackets := m_RenderFallbackPackets s + 1\<rparr>)
      }
      else Some (if m_OutstandingWrites s = 0
                 then s\<lparr>m_RenderNotReadyLoops := m_RenderNotReadyLoops s + 1\<rparr> else s))"

text \<open>
  One iteration of the loop of \<open>RenderWorkerLoop\<close> after a wait that did not see the stop event.
  The pair is \<open>submittedSinceLog\<close> and \<open>lastCompletedPackets\<close>.
\<close>

definition render_iteration ::
  "('q, 'e) kernel \<Rightarrow> 'e wave_kernel \<Rightarrow> u32 \<times> u32 \<Rightarrow> ('q, 'e) wave_stream \<Rightarrow>
   ((u32 \<times> u32) \<times> ('q, 'e) wave_stream) option" where
  "render_iteration K W = (\<lambda>(submitted, lastCompleted) s. do {
     dev \<leftarrow> ViosndPollEvents K (m_Device s);
     (submitted, s) \<leftarrow> ReclaimRenderPackets K submitted (s\<lparr>m_Device := dev\<rparr>);
     s \<leftarrow> MaybeSwitchRenderFallback K W s;
     s \<leftarrow> (if m_PacketNumber s \<noteq> lastCompleted then Some (s\<lparr>m_RenderStallLoops := 0\<rparr>)
          else if m_State s = KSSTATE_RUN \<and> m_OutstandingWrites s \<noteq> 0 then do {
            let s = s\<lparr>m_RenderStallLoops := m_RenderStallLoops s + 1\<rparr>;
            if m_RenderStallLoops s mod VIOSND_RENDER_REKICK_STALL_LOOPS = 0 then do {
              dev \<leftarrow> ViosndKickTxQueue K (m_Device s);
              Some (s\<lparr>m_Device := dev\<rparr>)
            } else Some s
          } else Some s);
     let lastCompleted = m_PacketNumber s;
     s \<leftarrow> (if m_State s \<noteq> KSSTATE_RUN \<or> m_Buffer s = None \<or> m_PacketSize s = 0 then Some s
          else render_submit K (render_target s) s);
     Some ((submitted, lastCompleted), s)
   })"

partial_function (option) capture_submit ::
  "('q, 'e) kernel \<Rightarrow> u32 \<Rightarrow> ('q, 'e) wave_stream \<Rightarrow> ('q, 'e) wave_stream option" where
  "capture_submit K targetOutstanding s =
     (if m_State s \<noteq> KSSTATE_RUN \<or> targetOutstanding \<le> m_CaptureInFlight s then Some s
      else do {
        (status, s) \<leftarrow> SubmitCapturePacket K s;
        if \<not> NT_SUCCESS status then Some s else capture_submit K targetOutstanding s
      })"

text \<open>\<open>targetOutstanding\<close> of \<open>CaptureWorkerLoop\<close>, computed when the loop is entered.\<close>

definition capture_target :: "('q, 'e) wave_stream \<Rightarrow> u32" where
  "capture_target s =
     max (min VIOSND_CAPTURE_TARGET_OUTSTANDING_PACKETS
            (min (m_NotificationCount s) (word_of_nat VIOSND_CAPTURE_IO_POOL_SIZE))) 1"

text \<open>One iteration of \<open>CaptureWorkerLoop\<close>; the number is \<open>lastCompletedPackets\<close>.\<close>

definition capture_iteration ::
  "('q, 'e) kernel \<Rightarrow> u32 \<Rightarrow> u32 \<Rightarrow> ('q, 'e) wave_stream \<Rightarrow> (u32 \<times> ('q, 'e) wave_stream) option" where
  "capture_iteration K targetOutstanding lastCompleted s = do {
     s \<leftarrow> ReclaimCapturePackets K s;
     let s = (if m_PacketNumber s \<noteq> lastCompleted then s\<lparr>m_CaptureStallLoops := 0\<rparr>
              else if m_State s = KSSTATE_RUN \<and> m_CaptureInFlight s \<noteq> 0
              then s\<lparr>m_CaptureStallLoops := m_CaptureStallLoops s + 1\<rparr> else s);
     let lastCompleted = m_PacketNumber s;
     s \<leftarrow> (if m_State s \<noteq> KSSTATE_RUN \<or> m_Buffer s = None \<or> m_PacketSize s = 0 \<or>
             m_NotificationCount s = 0 then Some s
          else capture_submit K targetOutstanding s);
     Some (lastCompleted, s)
   }"

section \<open>State transitions\<close>

definition clear_clock :: "('q, 'e) wave_stream \<Rightarrow> ('q, 'e) wave_stream" where
  "clear_clock s = s\<lparr>m_RunStartPosition := 0, m_RunStartQpc := 0, m_QpcFrequency := 0\<rparr>"

text \<open>Start of a render stream: the branch for \<open>KSSTATE_RUN\<close> with \<open>!m_Capture\<close>.\<close>

definition run_render ::
  "('q, 'e) kernel \<Rightarrow> 'e wave_kernel \<Rightarrow> ('q, 'e) wave_stream \<Rightarrow> (NTSTATUS \<times> ('q, 'e) wave_stream) option" where
  "run_render K W s = do {
     let oldState = m_State s;
     let s = clear_clock (s\<lparr>m_RenderUnderruns := 0, m_RenderFallbackPackets := 0,
       m_RenderPrerollPackets := (if oldState = KSSTATE_STOP then VIOSND_RENDER_CYCLIC_PREROLL_PACKETS
                                  else 0),
       m_RenderStallLoops := 0, m_RenderNotReadyLoops := 0, m_RenderPositionQueries := 0,
       m_RenderFallbackPhase := 0, m_RenderFallbackActive := False,
       m_RenderFallbackAttempted := False, m_FallbackMonitorStartPosition := 0,
       m_FallbackMonitorStartQpc := 0\<rparr>);
     r \<leftarrow> on_device (ViosndConfigureDefaultPcm K (m_StreamId s)) s;
     r \<leftarrow> if_success (AllocateRenderIoPool K) r;
     r \<leftarrow> if_success (\<lambda>s. do {
       (status, s) \<leftarrow> preroll K (unat VIOSND_RENDER_START_PREROLL_PACKETS) STATUS_SUCCESS s;
       Some (status, if NT_SUCCESS status then s\<lparr>m_RenderPrerollPackets := 0\<rparr> else s)
     }) r;
     r \<leftarrow> if_success (\<lambda>s. on_device (ViosndStartPcm K (m_StreamId s)) s) r;
     (status, s) \<leftarrow> if_success (\<lambda>s. do {
       let (qpc, frequency, s) = query_qpc W s;
       (status, s) \<leftarrow> StartRenderWorker K W (s\<lparr>m_RunStartPosition := m_Position s,
         m_RunStartQpc := qpc, m_QpcFrequency := frequency, m_State := KSSTATE_RUN\<rparr>);
       if \<not> NT_SUCCESS status then do {
         (_, s) \<leftarrow> on_device (ViosndStopPcm K (m_StreamId s)) s;
         (_, s) \<leftarrow> on_device (ViosndReleasePcm K (m_StreamId s)) s;
         Some (status, s\<lparr>m_State := oldState\<rparr>)
       } else Some (status, s)
     }) r;
     if \<not> NT_SUCCESS status then do {
       s \<leftarrow> CancelRenderWrites K s;
       s \<leftarrow> FreeRenderIoPool s;
       Some (status, (clear_clock s)\<lparr>m_State := oldState\<rparr>)
     } else Some (status, s)
   }"

text \<open>Start of a capture stream.\<close>

definition run_capture ::
  "('q, 'e) kernel \<Rightarrow> 'e wave_kernel \<Rightarrow> ('q, 'e) wave_stream \<Rightarrow> (NTSTATUS \<times> ('q, 'e) wave_stream) option" where
  "run_capture K W s =
     (if ViosndCaptureFaulted s then Some (STATUS_DEVICE_NOT_READY, s)
      else do {
        let oldState = m_State s;
        let s = s\<lparr>m_PacketNumber := 0, m_NextSubmitPacket := 0, m_NextReadPacket := 0,
          m_OutstandingWrites := 0, m_CaptureInFlight := 0, m_CaptureOverflows := 0,
          m_CaptureStallLoops := 0, m_CapturePositionQueries := 0, m_CaptureReadPackets := 0,
          m_Position := 0\<rparr>;
        r \<leftarrow> on_device (ViosndConfigureDefaultPcm K (m_StreamId s)) s;
        (status, s) \<leftarrow> if_success (\<lambda>s. on_device (ViosndStartPcm K (m_StreamId s)) s) r;
        if NT_SUCCESS status then do {
          (status, s) \<leftarrow> StartRenderWorker K W (s\<lparr>m_State := KSSTATE_RUN\<rparr>);
          if \<not> NT_SUCCESS status then do {
            (_, s) \<leftarrow> on_device (ViosndStopPcm K (m_StreamId s)) s;
            Some (status, s\<lparr>m_State := oldState\<rparr>)
          } else Some (status, s)
        } else Some (status, s\<lparr>m_State := oldState\<rparr>)
      })"

definition stop_worker ::
  "('q, 'e) kernel \<Rightarrow> 'e wave_kernel \<Rightarrow> ('q, 'e) wave_stream \<Rightarrow> (bool \<times> ('q, 'e) wave_stream) option" where
  "stop_worker K W s = (if m_WorkerStarted s then StopRenderWorker K W s else Some (True, s))"

text \<open>Leaving \<open>KSSTATE_RUN\<close>, capture: \<open>m_State\<close> is already the new state.\<close>

definition quiesce_capture ::
  "('q, 'e) kernel \<Rightarrow> 'e wave_kernel \<Rightarrow> ('q, 'e) wave_stream \<Rightarrow> (NTSTATUS \<times> ('q, 'e) wave_stream) option" where
  "quiesce_capture K W s = do {
     (workerStopped, s) \<leftarrow> stop_worker K W s;
     (releaseStatus, s) \<leftarrow> on_device (ViosndReleasePcm K (m_StreamId s)) s;
     (prepareStatus, s) \<leftarrow>
       (if NT_SUCCESS releaseStatus then do {
          s \<leftarrow> ReclaimCapturePackets K s;
          (_, dev) \<leftarrow> ViosndDetachUnusedReadPcm K (m_Device s);
          s \<leftarrow> FreeCaptureIoPool (s\<lparr>m_Device := dev, m_CaptureInFlight := 0, m_OutstandingWrites := 0\<rparr>);
          on_device (ViosndConfigureDefaultPcm K (m_StreamId s)) s
        } else Some (STATUS_DEVICE_NOT_READY, s\<lparr>ViosndCaptureFaulted := True\<rparr>));
     let s = (if \<not> workerStopped then s\<lparr>ViosndCaptureFaulted := True\<rparr> else s);
     let s = (if workerStopped \<and> NT_SUCCESS releaseStatus \<and> \<not> NT_SUCCESS prepareStatus
              then s\<lparr>ViosndCaptureFaulted := True\<rparr> else s);
     Some (STATUS_SUCCESS, s)
   }"

text \<open>Leaving \<open>KSSTATE_RUN\<close>, render.\<close>

definition quiesce_render ::
  "('q, 'e) kernel \<Rightarrow> 'e wave_kernel \<Rightarrow> ('q, 'e) wave_stream \<Rightarrow> (NTSTATUS \<times> ('q, 'e) wave_stream) option" where
  "quiesce_render K W s = do {
     (workerStopped, s) \<leftarrow> stop_worker K W s;
     (_, s) \<leftarrow> on_device (ViosndStopPcm K (m_StreamId s)) s;
     (_, s) \<leftarrow> on_device (ViosndReleasePcm K (m_StreamId s)) s;
     (workerStopped, s) \<leftarrow>
       (if \<not> workerStopped \<and> m_WorkerStarted s then StopRenderWorker K W s
        else Some (workerStopped, s));
     s \<leftarrow> CancelRenderWrites K s;
     s \<leftarrow> FreeRenderIoPool s;
     if workerStopped
     then let (position, s) = GetRenderClockPosition W s
          in Some (STATUS_SUCCESS, clear_clock (s\<lparr>m_Position := position\<rparr>))
     else Some (STATUS_DEVICE_BUSY, s)
   }"

definition reset_stopped :: "('q, 'e) wave_stream \<Rightarrow> ('q, 'e) wave_stream" where
  "reset_stopped s =
     (clear_clock s)\<lparr>m_PacketNumber := 0, m_LastOsWritePacket := MAXULONG, m_NextSubmitPacket := 0,
       m_NextReadPacket := 0, m_EosPacketNumber := MAXULONG, m_EosPacketLength := 0,
       m_OutstandingWrites := 0, m_RenderUnderruns := 0, m_RenderFallbackPackets := 0,
       m_RenderPrerollPackets := 0, m_RenderStallLoops := 0, m_CaptureStallLoops := 0,
       m_RenderPositionQueries := 0, m_RenderNotReadyLoops := 0, m_RenderFallbackPhase := 0,
       m_RenderFallbackActive := False, m_RenderFallbackAttempted := False,
       m_FallbackMonitorStartPosition := 0, m_FallbackMonitorStartQpc := 0,
       m_CaptureInFlight := (if m_Capture s \<and> m_CaptureInFlight s \<noteq> 0 then m_CaptureInFlight s else 0),
       m_Position := 0\<rparr>"

definition SetState ::
  "('q, 'e) kernel \<Rightarrow> 'e wave_kernel \<Rightarrow> KSSTATE \<Rightarrow> ('q, 'e) wave_stream \<Rightarrow>
   (NTSTATUS \<times> ('q, 'e) wave_stream) option" where
  "SetState K W State s = do {
     let oldState = m_State s;
     (status, s) \<leftarrow>
       (if State = KSSTATE_RUN \<and> oldState \<noteq> KSSTATE_RUN then
          (if \<not> m_Capture s then run_render K W s else run_capture K W s)
        else if State \<noteq> KSSTATE_RUN \<and> oldState = KSSTATE_RUN then do {
          let s = s\<lparr>m_State := State\<rparr>;
          (status, s) \<leftarrow> (if m_Capture s then quiesce_capture K W s else quiesce_render K W s);
          Some (status, if \<not> NT_SUCCESS status then s\<lparr>m_State := oldState\<rparr>
                        else if State = KSSTATE_STOP then reset_stopped s else s)
        }
        else Some (STATUS_SUCCESS, s\<lparr>m_State := State\<rparr>));
     Some (status, if NT_SUCCESS status \<and> State = KSSTATE_RUN \<and> \<not> m_Capture s
                   then s\<lparr>m_KickEvent := True\<rparr> else s)
   }"

end
