(* ===== verification/Wave_Render.thy ===== *)
theory Wave_Render
  imports Wave_State
begin

text \<open>
  Correctness of the packet transfers of a WaveRT stream (\<open>viosnd/sys/ViosndWaveRT.cpp\<close>): the
  invariant \<open>stream_inv\<close> that ties the pools of transfer descriptors, the cyclic buffer and the
  fallback buffer to the device, and, for each operation on pools and packets, that it returns,
  keeps the invariant, and what it does to the members, the queues and the audio.
\<close>

section \<open>The pools\<close>

text \<open>
  A descriptor that is free to use: stored, for playback (\<open>w\<close>) or capture, and in no queue.  A
  slots holds \<open>n\<close> different free descriptors at its start.
\<close>

definition free_io :: "('q \<Rightarrow> opaque multiset) \<Rightarrow> bool \<Rightarrow> ('q, 'e) VIOSND_DEVICE \<Rightarrow> ptr \<Rightarrow> bool" where
  "free_io inflight w dev p \<longleftrightarrow> (\<exists>x. ios dev p = Some x \<and> (AudioVa x = 0) = w) \<and>
     (\<forall>i. OIo p \<notin># flight inflight dev i)"

definition pool_inv ::
  "('q \<Rightarrow> opaque multiset) \<Rightarrow> bool \<Rightarrow> nat \<Rightarrow> ('q, 'e) VIOSND_DEVICE \<Rightarrow> ptr list \<Rightarrow> u32 \<Rightarrow> bool" where
  "pool_inv inflight w cap dev slots n \<longleftrightarrow> length slots = cap \<and> unat n \<le> cap \<and>
     distinct (take (unat n) slots) \<and> (\<forall>p \<in> set (take (unat n) slots). free_io inflight w dev p)"

lemma unat_pred: "(n :: u32) \<noteq> 0 \<Longrightarrow> unat (n - 1) = unat n - 1 \<and> 0 < unat n"
  using unat_sub_of_nat [of 1 n] by (simp add: unat_gt_0 Suc_le_eq)

lemma pool_pop:
  assumes "pool_inv inflight w cap dev slots n" "n \<noteq> 0"
  obtains io slots' where "read_at slots (unat (n - 1)) = Some io" "write_at slots (unat (n - 1)) 0 = Some slots'"
    "pool_inv inflight w cap dev slots' (n - 1)" "free_io inflight w dev io"
    "set (take (unat n) slots) = insert io (set (take (unat (n - 1)) slots'))" "io \<notin> set (take (unat (n - 1)) slots')"
proof -
  let ?k = "unat (n - 1)"
  have k: "unat n = Suc ?k" using unat_pred [OF assms(2)] by simp
  have p: "length slots = cap" "Suc ?k \<le> cap" "distinct (take (Suc ?k) slots)"
    "\<forall>p \<in> set (take (Suc ?k) slots). free_io inflight w dev p"
    using assms(1) unfolding pool_inv_def k by simp_all
  have t: "take (Suc ?k) slots = take ?k slots @ [slots ! ?k]" using p by (intro take_Suc_conv_app_nth) simp
  have d: "distinct (take ?k slots)" "slots ! ?k \<notin> set (take ?k slots)" using p(3) unfolding t by simp_all
  have f: "\<forall>p \<in> set (take ?k slots). free_io inflight w dev p" "free_io inflight w dev (slots ! ?k)"
    using p(4) unfolding t by simp_all
  have u: "take ?k (slots[?k := 0]) = take ?k slots" by simp
  show thesis
  proof (rule that [of "slots ! ?k" "slots[?k := 0]"])
    show "pool_inv inflight w cap dev (slots[?k := 0]) (n - 1)"
      unfolding pool_inv_def u using p(1,2) d(1) f(1) by simp
  qed (use p(1,2) d(2) f(2) in \<open>simp_all add: read_at_def write_at_def k t\<close>)
qed

lemma pool_push:
  assumes "pool_inv inflight w cap dev slots n" "unat n < cap" "cap < 2 ^ 32" "free_io inflight w dev io"
    "io \<notin> set (take (unat n) slots)"
  obtains slots' where "write_at slots (unat n) io = Some slots'" "pool_inv inflight w cap dev slots' (n + 1)"
    "set (take (unat (n + 1)) slots') = insert io (set (take (unat n) slots))"
proof -
  let ?k = "unat n" and ?p = "slots[unat n := io]"
  have p: "length slots = cap" "distinct (take ?k slots)" "\<forall>p \<in> set (take ?k slots). free_io inflight w dev p"
    using assms(1) by (simp_all add: pool_inv_def)
  have k: "unat (n + 1) = Suc ?k" using assms(2,3) unat_add_of_nat [of n 1] by simp
  have t: "take (Suc ?k) ?p = take ?k slots @ [io]"
    using p(1) assms(2) by (simp add: take_Suc_conv_app_nth)
  have "pool_inv inflight w cap dev ?p (n + 1)"
    unfolding pool_inv_def k t using p assms(2,4,5) by simp
  then show thesis
    by (intro that [of ?p]) (use p(1) assms(2) in \<open>simp_all add: write_at_def k t\<close>)
qed

lemma pool_inv_dev:
  assumes "pool_inv inflight w cap dev slots n"
    "\<And>p. p \<in> set (take (unat n) slots) \<Longrightarrow> free_io inflight w dev p \<Longrightarrow> free_io inflight w dev' p"
  shows "pool_inv inflight w cap dev' slots n"
  using assms unfolding pool_inv_def by simp

lemma pool_inv_empty: "length slots = cap \<Longrightarrow> pool_inv inflight w cap dev slots 0"
  by (simp add: pool_inv_def)

section \<open>The invariant of a stream\<close>

text \<open>The pool blocks the stream owns beside its object: its fallback buffer.\<close>

definition fb_blocks :: "('q, 'e) wave_stream \<Rightarrow> ptr set" where
  "fb_blocks s = (case m_RenderFallbackBuffer s of None \<Rightarrow> {} | Some (p, fb) \<Rightarrow> {p})"

text \<open>
  The packets lie inside the cyclic buffer, the packet that ends the stream is no longer than a
  packet, the size of the fallback buffer is the recorded one, and the phase of the downsampler is
  below the sample rate.
\<close>

definition geom_ok :: "('q, 'e) wave_stream \<Rightarrow> bool" where
  "geom_ok s \<longleftrightarrow> unat (m_PacketSize s) \<le> unat VIOSND_DEFAULT_PERIOD_BYTES \<and>
     m_EosPacketLength s \<le> m_PacketSize s \<and>
     (case m_Buffer s of None \<Rightarrow> m_PacketSize s = 0
      | Some buf \<Rightarrow> length buf < 2 ^ 32 \<and>
          unat (max (m_NotificationCount s) 1) * unat (m_PacketSize s) \<le> length buf)"

definition fb_ok :: "('q, 'e) wave_stream \<Rightarrow> bool" where
  "fb_ok s \<longleftrightarrow> m_RenderFallbackPhase s < VIOSND_DEFAULT_SAMPLE_RATE \<and>
     (case m_RenderFallbackBuffer s of None \<Rightarrow> True
      | Some (p, fb) \<Rightarrow> length fb = unat (m_RenderFallbackBufferSize s))"

text \<open>\<open>P\<close> are the slots blocks of others, among them the stream object itself.\<close>

definition stream_inv ::
  "('q \<Rightarrow> bool) \<Rightarrow> ('q \<Rightarrow> opaque multiset) \<Rightarrow> ptr set \<Rightarrow> ('q, 'e) wave_stream \<Rightarrow> bool" where
  "stream_inv qinv inflight P s \<longleftrightarrow>
     dev_inv qinv inflight {} (P \<union> fb_blocks s) (m_Device s) \<and> P \<inter> fb_blocks s = {} \<and>
     ctl_rest inflight (m_Device s) \<and>
     pool_inv inflight True VIOSND_RENDER_IO_POOL_SIZE (m_Device s) (m_RenderIoPool s) (m_RenderIoFreeCount s) \<and>
     pool_inv inflight False VIOSND_CAPTURE_IO_POOL_SIZE (m_Device s) (m_CaptureIoPool s) (m_CaptureIoFreeCount s) \<and>
     geom_ok s \<and> fb_ok s"

lemma stream_invD:
  assumes "stream_inv qinv inflight P s"
  shows "dev_inv qinv inflight {} (P \<union> fb_blocks s) (m_Device s)" "P \<inter> fb_blocks s = {}"
    "ctl_rest inflight (m_Device s)"
    "pool_inv inflight True VIOSND_RENDER_IO_POOL_SIZE (m_Device s) (m_RenderIoPool s) (m_RenderIoFreeCount s)"
    "pool_inv inflight False VIOSND_CAPTURE_IO_POOL_SIZE (m_Device s) (m_CaptureIoPool s) (m_CaptureIoFreeCount s)"
    "geom_ok s" "fb_ok s"
  using assms unfolding stream_inv_def by blast+

lemma stream_inv_cong:
  assumes "stream_inv qinv inflight P s" "m_Device s' = m_Device s"
    "m_RenderIoPool s' = m_RenderIoPool s" "m_RenderIoFreeCount s' = m_RenderIoFreeCount s"
    "m_CaptureIoPool s' = m_CaptureIoPool s" "m_CaptureIoFreeCount s' = m_CaptureIoFreeCount s"
    "m_Buffer s' = m_Buffer s" "m_PacketSize s' = m_PacketSize s" "m_EosPacketLength s' = m_EosPacketLength s"
    "m_NotificationCount s' = m_NotificationCount s" "m_RenderFallbackBuffer s' = m_RenderFallbackBuffer s"
    "m_RenderFallbackBufferSize s' = m_RenderFallbackBufferSize s" "m_RenderFallbackPhase s' < VIOSND_DEFAULT_SAMPLE_RATE"
  shows "stream_inv qinv inflight P s'"
  using assms(1,13) unfolding stream_inv_def geom_ok_def fb_ok_def fb_blocks_def assms(2-12) by blast

lemma stream_phase: "stream_inv qinv inflight P s \<Longrightarrow> m_RenderFallbackPhase s < VIOSND_DEFAULT_SAMPLE_RATE"
  by (simp add: stream_inv_def fb_ok_def)

text \<open>The free descriptors of both pools.\<close>

definition pooled :: "('q, 'e) wave_stream \<Rightarrow> ptr set" where
  "pooled s = set (take (unat (m_RenderIoFreeCount s)) (m_RenderIoPool s)) \<union>
     set (take (unat (m_CaptureIoFreeCount s)) (m_CaptureIoPool s))"

lemma pooled_free:
  "stream_inv qinv inflight P s \<Longrightarrow> p \<in> pooled s \<Longrightarrow> \<exists>w. free_io inflight w (m_Device s) p"
  unfolding stream_inv_def pool_inv_def pooled_def by blast

lemma device_parts [simp]:
  "geom_ok (s\<lparr>m_Device := d\<rparr>) = geom_ok s" "fb_ok (s\<lparr>m_Device := d\<rparr>) = fb_ok s"
  "fb_blocks (s\<lparr>m_Device := d\<rparr>) = fb_blocks s" "pooled (s\<lparr>m_Device := d\<rparr>) = pooled s"
  by (simp_all add: geom_ok_def fb_ok_def fb_blocks_def pooled_def cong: option.case_cong)

lemma stream_inv_dev:
  assumes "stream_inv qinv inflight P s" "dev_inv qinv inflight {} (P \<union> fb_blocks s) dev'" "ctl_rest inflight dev'"
    "\<And>p w. p \<in> pooled s \<Longrightarrow> free_io inflight w (m_Device s) p \<Longrightarrow> free_io inflight w dev' p"
  shows "stream_inv qinv inflight P (s\<lparr>m_Device := dev'\<rparr>)"
proof -
  note i = stream_invD [OF assms(1)]
  have "pool_inv inflight True VIOSND_RENDER_IO_POOL_SIZE dev' (m_RenderIoPool s) (m_RenderIoFreeCount s)"
    by (rule pool_inv_dev [OF i(4)]) (rule assms(4), simp add: pooled_def)
  moreover have "pool_inv inflight False VIOSND_CAPTURE_IO_POOL_SIZE dev' (m_CaptureIoPool s) (m_CaptureIoFreeCount s)"
    by (rule pool_inv_dev [OF i(5)]) (rule assms(4), simp add: pooled_def)
  ultimately show ?thesis
    using i(2,6,7) assms(2,3) unfolding stream_inv_def by simp
qed

text \<open>The members that transfers do not change.\<close>

definition stream_frame :: "('q, 'e) wave_stream \<Rightarrow> ('q, 'e) wave_stream \<Rightarrow> bool" where
  "stream_frame s s' \<longleftrightarrow> m_RefCount s' = m_RefCount s \<and> m_StreamId s' = m_StreamId s \<and>
     m_Capture s' = m_Capture s \<and> m_State s' = m_State s \<and> m_Mdl s' = m_Mdl s \<and> m_Mdls s' = m_Mdls s \<and>
     (m_Buffer s' = None) = (m_Buffer s = None) \<and> m_BufferSize s' = m_BufferSize s \<and>
     m_NotificationCount s' = m_NotificationCount s \<and> m_PacketSize s' = m_PacketSize s \<and>
     m_LastOsWritePacket s' = m_LastOsWritePacket s \<and> m_EosPacketNumber s' = m_EosPacketNumber s \<and>
     m_EosPacketLength s' = m_EosPacketLength s \<and> m_ThreadObject s' = m_ThreadObject s \<and>
     m_WorkerStarted s' = m_WorkerStarted s \<and> m_ThreadLive s' = m_ThreadLive s \<and> m_Orphans s' = m_Orphans s \<and>
     m_Destroyed s' = m_Destroyed s \<and> m_This s' = m_This s \<and> ViosndCaptureFaulted s' = ViosndCaptureFaulted s \<and>
     mutex_count (m_Device s') = mutex_count (m_Device s)"

lemma stream_frame_refl [simp]: "stream_frame s s"
  by (simp add: stream_frame_def)

lemma stream_frame_trans: "stream_frame a b \<Longrightarrow> stream_frame b c \<Longrightarrow> stream_frame a c"
  by (simp add: stream_frame_def)

section \<open>Steps of the device\<close>

text \<open>Operations on the other queues leave the free descriptors free.\<close>

lemma free_io_calm:
  assumes "dev_inv qinv inflight E P dev'" "ios dev' = ios dev"
    "\<And>i. i \<noteq> VIRTIO_SND_VQ_CONTROL \<Longrightarrow> flight inflight dev' i = flight inflight dev i"
    "free_io inflight w dev p"
  shows "free_io inflight w dev' p"
proof -
  have "OIo p \<notin># flight inflight dev' i" for i
  proof (cases "i = VIRTIO_SND_VQ_CONTROL")
    case False
    then show ?thesis using assms(3,4) by (simp add: free_io_def)
  next
    case True
    show ?thesis
    proof
      assume "OIo p \<in># flight inflight dev' i"
      then obtain q where "Queues dev' i = Some q" "OIo p \<in># inflight q"
        by (auto simp: flight_def split: option.splits)
      then have "token_ok dev' i (OIo p)"
        using assms(1) unfolding dev_inv_def queue_inv_def by blast
      then show False using True by (auto simp: token_ok_def split: option.splits)
    qed
  qed
  then show ?thesis using assms(2,4) by (simp add: free_io_def)
qed

lemma stream_ctl_step:
  assumes "stream_inv qinv inflight P s" "ctl_step qinv inflight {} (P \<union> fb_blocks s) (m_Device s) dev'"
  shows "stream_inv qinv inflight P (s\<lparr>m_Device := dev'\<rparr>)" "stream_frame s (s\<lparr>m_Device := dev'\<rparr>)"
proof -
  note c = ctl_stepD [OF assms(2)]
  show "stream_inv qinv inflight P (s\<lparr>m_Device := dev'\<rparr>)"
    by (rule stream_inv_dev [OF assms(1) c(1,2)], rule free_io_calm [OF c(1)])
      (use c(3) in \<open>simp_all add: ctl_frame_def\<close>)
  show "stream_frame s (s\<lparr>m_Device := dev'\<rparr>)" using c(3) by (simp add: stream_frame_def ctl_frame_def)
qed

lemma stream_waited:
  assumes "stream_inv qinv inflight P s" "dev_inv qinv inflight {} (P \<union> fb_blocks s) dev'"
    "waited inflight (m_Device s) dev'"
  shows "stream_inv qinv inflight P (s\<lparr>m_Device := dev'\<rparr>)" "stream_frame s (s\<lparr>m_Device := dev'\<rparr>)"
proof -
  have d: "drv dev' = drv (m_Device s)" "flight inflight dev' = flight inflight (m_Device s)"
    using assms(3) by (simp_all add: waited_def)
  have "ctl_rest inflight dev'"
    using stream_invD(3) [OF assms(1)] drv_simps [OF d(1)] d(2) by (simp add: ctl_rest_def)
  from stream_inv_dev [OF assms(1,2) this] show "stream_inv qinv inflight P (s\<lparr>m_Device := dev'\<rparr>)"
    using drv_simps [OF d(1)] d(2) by (simp add: free_io_def)
  show "stream_frame s (s\<lparr>m_Device := dev'\<rparr>)" using assms(3) by (simp add: stream_frame_def waited_def)
qed

lemma stream_env:
  assumes "stream_inv qinv inflight P s"
  shows "stream_inv qinv inflight P (s\<lparr>m_Device := (m_Device s)\<lparr>ext := e\<rparr>\<rparr>)"
    "stream_frame s (s\<lparr>m_Device := (m_Device s)\<lparr>ext := e\<rparr>\<rparr>)"
proof -
  have c: "ctl_rest inflight ((m_Device s)\<lparr>ext := e\<rparr>)" using stream_invD(3) [OF assms] by (simp add: ctl_rest_def)
  show "stream_inv qinv inflight P (s\<lparr>m_Device := (m_Device s)\<lparr>ext := e\<rparr>\<rparr>)"
    by (rule stream_inv_dev [OF assms _ c]) (use stream_invD(1) [OF assms] in \<open>simp_all add: free_io_def\<close>)
  show "stream_frame s (s\<lparr>m_Device := (m_Device s)\<lparr>ext := e\<rparr>\<rparr>)" by (simp add: stream_frame_def)
qed

text \<open>
  An operation on one transfer descriptor that is in no pool, from the point of view of the
  stream: the other descriptors and their place in the queues stay.
\<close>

lemma stream_io:
  assumes "stream_inv qinv inflight P s" "dev_inv qinv inflight {} (P \<union> fb_blocks s) dev'"
    "io_frame (m_Device s) dev'" "flight inflight dev' VIRTIO_SND_VQ_CONTROL = flight inflight (m_Device s) VIRTIO_SND_VQ_CONTROL"
    "p \<notin> pooled s" "\<And>q. q \<noteq> p \<Longrightarrow> ios dev' q = ios (m_Device s) q"
    "\<And>q i. q \<noteq> p \<Longrightarrow> OIo q \<in># flight inflight dev' i \<Longrightarrow> OIo q \<in># flight inflight (m_Device s) i"
  shows "stream_inv qinv inflight P (s\<lparr>m_Device := dev'\<rparr>)" "stream_frame s (s\<lparr>m_Device := dev'\<rparr>)"
proof -
  have "ctl_rest inflight dev'"
    using stream_invD(3) [OF assms(1)] assms(3,4) by (simp add: ctl_rest_def io_frame_def)
  note c = this
  have "free_io inflight w dev' q" if "q \<in> pooled s" "free_io inflight w (m_Device s) q" for w q
    using that assms(5-7) unfolding free_io_def by metis
  then show "stream_inv qinv inflight P (s\<lparr>m_Device := dev'\<rparr>)" by (rule stream_inv_dev [OF assms(1,2) c])
  show "stream_frame s (s\<lparr>m_Device := dev'\<rparr>)" using assms(3) by (simp add: stream_frame_def io_frame_def)
qed

section \<open>Taking from and returning to the pools\<close>

lemma pool_sizes: "VIOSND_RENDER_IO_POOL_SIZE < 2 ^ 32" "VIOSND_CAPTURE_IO_POOL_SIZE < 2 ^ 32"
  by simp_all

lemma pop_render_ok:
  assumes "stream_inv qinv inflight P s" "m_RenderIoFreeCount s \<noteq> 0"
  obtains io ps s' where "pop_render_io s = Some (io, s')"
    "s' = s\<lparr>m_RenderIoFreeCount := m_RenderIoFreeCount s - 1, m_RenderIoPool := ps\<rparr>"
    "stream_inv qinv inflight P s'" "free_io inflight True (m_Device s) io" "io \<notin> pooled s'" "pooled s = insert io (pooled s')"
proof -
  note i = stream_invD [OF assms(1)]
  obtain io ps where p: "read_at (m_RenderIoPool s) (unat (m_RenderIoFreeCount s - 1)) = Some io"
    "write_at (m_RenderIoPool s) (unat (m_RenderIoFreeCount s - 1)) 0 = Some ps"
    "pool_inv inflight True VIOSND_RENDER_IO_POOL_SIZE (m_Device s) ps (m_RenderIoFreeCount s - 1)"
    "free_io inflight True (m_Device s) io"
    "set (take (unat (m_RenderIoFreeCount s)) (m_RenderIoPool s)) = insert io (set (take (unat (m_RenderIoFreeCount s - 1)) ps))"
    "io \<notin> set (take (unat (m_RenderIoFreeCount s - 1)) ps)"
    by (rule pool_pop [OF i(4) assms(2)]) (rule that; assumption)
  let ?s = "s\<lparr>m_RenderIoFreeCount := m_RenderIoFreeCount s - 1, m_RenderIoPool := ps\<rparr>"
  have same: "fb_blocks ?s = fb_blocks s" "geom_ok ?s = geom_ok s" "fb_ok ?s = fb_ok s"
    by (simp_all add: fb_blocks_def geom_ok_def fb_ok_def cong: option.case_cong)
  have "stream_inv qinv inflight P ?s" using i p(3) unfolding stream_inv_def same by simp
  moreover have "io \<notin> set (take (unat (m_CaptureIoFreeCount s)) (m_CaptureIoPool s))"
    using i(5) p(4) by (auto simp: pool_inv_def free_io_def)
  then have "io \<notin> pooled ?s" using p(6) by (simp add: pooled_def)
  moreover have "pooled s = insert io (pooled ?s)" using p(5) by (simp add: pooled_def)
  ultimately show thesis using p by (intro that [of io ?s ps]) (simp_all add: pop_render_io_def Let_def)
qed

lemma push_render_ok:
  assumes "stream_inv qinv inflight P s" "unat (m_RenderIoFreeCount s) < VIOSND_RENDER_IO_POOL_SIZE"
    "free_io inflight True (m_Device s) io" "io \<notin> pooled s"
  obtains ps s' where "push_render_io io s = Some s'"
    "s' = s\<lparr>m_RenderIoPool := ps, m_RenderIoFreeCount := m_RenderIoFreeCount s + 1\<rparr>" "stream_inv qinv inflight P s'"
    "pooled s' = insert io (pooled s)"
proof -
  note i = stream_invD [OF assms(1)]
  have n: "io \<notin> set (take (unat (m_RenderIoFreeCount s)) (m_RenderIoPool s))" using assms(4) by (simp add: pooled_def)
  obtain ps where p: "write_at (m_RenderIoPool s) (unat (m_RenderIoFreeCount s)) io = Some ps"
    "pool_inv inflight True VIOSND_RENDER_IO_POOL_SIZE (m_Device s) ps (m_RenderIoFreeCount s + 1)"
    "set (take (unat (m_RenderIoFreeCount s + 1)) ps) = insert io (set (take (unat (m_RenderIoFreeCount s)) (m_RenderIoPool s)))"
    by (rule pool_push [OF i(4) assms(2) pool_sizes(1) assms(3) n]) (rule that; assumption)
  let ?s = "s\<lparr>m_RenderIoPool := ps, m_RenderIoFreeCount := m_RenderIoFreeCount s + 1\<rparr>"
  have same: "fb_blocks ?s = fb_blocks s" "geom_ok ?s = geom_ok s" "fb_ok ?s = fb_ok s"
    by (simp_all add: fb_blocks_def geom_ok_def fb_ok_def cong: option.case_cong)
  have "stream_inv qinv inflight P ?s" using i p(2) unfolding stream_inv_def same by simp
  moreover have "pooled ?s = insert io (pooled s)" using p(3) by (simp add: pooled_def)
  ultimately show thesis using p(1) by (intro that [of ?s ps]) (simp_all add: push_render_io_def)
qed

lemma pop_capture_ok:
  assumes "stream_inv qinv inflight P s" "m_CaptureIoFreeCount s \<noteq> 0"
  obtains io ps s' where "pop_capture_io s = Some (io, s')"
    "s' = s\<lparr>m_CaptureIoFreeCount := m_CaptureIoFreeCount s - 1, m_CaptureIoPool := ps\<rparr>"
    "stream_inv qinv inflight P s'" "free_io inflight False (m_Device s) io" "io \<notin> pooled s'" "pooled s = insert io (pooled s')"
proof -
  note i = stream_invD [OF assms(1)]
  obtain io ps where p: "read_at (m_CaptureIoPool s) (unat (m_CaptureIoFreeCount s - 1)) = Some io"
    "write_at (m_CaptureIoPool s) (unat (m_CaptureIoFreeCount s - 1)) 0 = Some ps"
    "pool_inv inflight False VIOSND_CAPTURE_IO_POOL_SIZE (m_Device s) ps (m_CaptureIoFreeCount s - 1)"
    "free_io inflight False (m_Device s) io"
    "set (take (unat (m_CaptureIoFreeCount s)) (m_CaptureIoPool s)) = insert io (set (take (unat (m_CaptureIoFreeCount s - 1)) ps))"
    "io \<notin> set (take (unat (m_CaptureIoFreeCount s - 1)) ps)"
    by (rule pool_pop [OF i(5) assms(2)]) (rule that; assumption)
  let ?s = "s\<lparr>m_CaptureIoFreeCount := m_CaptureIoFreeCount s - 1, m_CaptureIoPool := ps\<rparr>"
  have same: "fb_blocks ?s = fb_blocks s" "geom_ok ?s = geom_ok s" "fb_ok ?s = fb_ok s"
    by (simp_all add: fb_blocks_def geom_ok_def fb_ok_def cong: option.case_cong)
  have "stream_inv qinv inflight P ?s" using i p(3) unfolding stream_inv_def same by simp
  moreover have "io \<notin> set (take (unat (m_RenderIoFreeCount s)) (m_RenderIoPool s))"
    using i(4) p(4) by (auto simp: pool_inv_def free_io_def)
  then have "io \<notin> pooled ?s" using p(6) by (simp add: pooled_def)
  moreover have "pooled s = insert io (pooled ?s)" using p(5) by (simp add: pooled_def)
  ultimately show thesis using p by (intro that [of io ?s ps]) (simp_all add: pop_capture_io_def Let_def)
qed

lemma push_capture_ok:
  assumes "stream_inv qinv inflight P s" "unat (m_CaptureIoFreeCount s) < VIOSND_CAPTURE_IO_POOL_SIZE"
    "free_io inflight False (m_Device s) io" "io \<notin> pooled s"
  obtains ps s' where "push_capture_io io s = Some s'"
    "s' = s\<lparr>m_CaptureIoPool := ps, m_CaptureIoFreeCount := m_CaptureIoFreeCount s + 1\<rparr>" "stream_inv qinv inflight P s'"
    "pooled s' = insert io (pooled s)"
proof -
  note i = stream_invD [OF assms(1)]
  have n: "io \<notin> set (take (unat (m_CaptureIoFreeCount s)) (m_CaptureIoPool s))" using assms(4) by (simp add: pooled_def)
  obtain ps where p: "write_at (m_CaptureIoPool s) (unat (m_CaptureIoFreeCount s)) io = Some ps"
    "pool_inv inflight False VIOSND_CAPTURE_IO_POOL_SIZE (m_Device s) ps (m_CaptureIoFreeCount s + 1)"
    "set (take (unat (m_CaptureIoFreeCount s + 1)) ps) = insert io (set (take (unat (m_CaptureIoFreeCount s)) (m_CaptureIoPool s)))"
    by (rule pool_push [OF i(5) assms(2) pool_sizes(2) assms(3) n]) (rule that; assumption)
  let ?s = "s\<lparr>m_CaptureIoPool := ps, m_CaptureIoFreeCount := m_CaptureIoFreeCount s + 1\<rparr>"
  have same: "fb_blocks ?s = fb_blocks s" "geom_ok ?s = geom_ok s" "fb_ok ?s = fb_ok s"
    by (simp_all add: fb_blocks_def geom_ok_def fb_ok_def cong: option.case_cong)
  have "stream_inv qinv inflight P ?s" using i p(2) unfolding stream_inv_def same by simp
  moreover have "pooled ?s = insert io (pooled s)" using p(3) by (auto simp: pooled_def)
  ultimately show thesis using p(1) by (intro that [of ?s ps]) (simp_all add: push_capture_io_def)
qed

text \<open>A free descriptor is not one of the blocks the stream owns.\<close>

lemma free_io_block:
  assumes "dev_inv qinv inflight E P dev" "free_io inflight w dev p"
  shows "p \<notin> P" "p \<noteq> 0"
  using assms own_inv_P [of E P dev] by (auto simp: dev_inv_def mem_inv_def free_io_def)

section \<open>Releasing the pools\<close>

lemma free_stream_io:
  assumes "stream_inv qinv inflight P s" "free_io inflight w (m_Device s) p" "p \<notin> pooled s"
  obtains dev' where "(if w then ViosndFreeWritePcmIo (m_Device s) p else ViosndFreeReadPcmIo (m_Device s) p) = Some dev'"
    "stream_inv qinv inflight P (s\<lparr>m_Device := dev'\<rparr>)" "stream_frame s (s\<lparr>m_Device := dev'\<rparr>)"
    "flight inflight dev' = flight inflight (m_Device s)" "Queues dev' = Queues (m_Device s)"
    "ios dev' = (ios (m_Device s))(p := None)"
proof -
  note i = stream_invD [OF assms(1)]
  obtain x where x: "ios (m_Device s) p = Some x" "(AudioVa x = 0) = w" "\<And>i. OIo p \<notin># flight inflight (m_Device s) i"
    using assms(2) by (auto simp: free_io_def)
  note b = free_io_block(1) [OF i(1) assms(2)]
  obtain dev' where d: "(if w then ViosndFreeWritePcmIo (m_Device s) p else ViosndFreeReadPcmIo (m_Device s) p) = Some dev'"
    "dev_inv qinv inflight {} (P \<union> fb_blocks s) dev'" "ios dev' = (ios (m_Device s))(p := None)"
    "io_frame (m_Device s) dev'" "flight inflight dev' = flight inflight (m_Device s)" "Queues dev' = Queues (m_Device s)"
  proof (cases w)
    case True
    then show thesis using x b that FreeWritePcmIo_ok [OF i(1) x(1) _ x(3) b] by metis
  next
    case False
    then show thesis using x b that FreeReadPcmIo_ok [OF i(1) x(1) _ x(3) b] by metis
  qed
  show thesis
    by (rule that [OF d(1)]; (rule stream_io [OF assms(1) d(2,4) _ assms(3)])?) (use d(3,5,6) in simp_all)
qed

lemma free_render_ios_ok:
  assumes "stream_inv qinv inflight P s" "n = unat (m_RenderIoFreeCount s)"
  obtains s' where "free_render_ios n s = Some s'" "stream_inv qinv inflight P s'" "m_RenderIoFreeCount s' = 0"
    "\<exists>d ps. s' = s\<lparr>m_Device := d, m_RenderIoPool := ps, m_RenderIoFreeCount := 0\<rparr>" "stream_frame s s'"
    "flight inflight (m_Device s') = flight inflight (m_Device s)" "Queues (m_Device s') = Queues (m_Device s)"
  using assms
proof (induction n arbitrary: s thesis)
  case 0
  then have z: "m_RenderIoFreeCount s = 0" by (simp add: unat_eq_0)
  have "s = s\<lparr>m_Device := m_Device s, m_RenderIoPool := m_RenderIoPool s, m_RenderIoFreeCount := 0\<rparr>"
    unfolding z [symmetric] by simp
  then show ?case using 0(2) z by (intro 0(1) [of s]) (simp, assumption, simp, blast, simp_all)
next
  case (Suc n)
  note n = unat_pred [of "m_RenderIoFreeCount s"]
  have nz: "m_RenderIoFreeCount s \<noteq> 0" using Suc.prems(3) by auto
  obtain io ps s1 where p: "pop_render_io s = Some (io, s1)"
    "s1 = s\<lparr>m_RenderIoFreeCount := m_RenderIoFreeCount s - 1, m_RenderIoPool := ps\<rparr>"
    "stream_inv qinv inflight P s1" "free_io inflight True (m_Device s) io" "io \<notin> pooled s1"
    by (rule pop_render_ok [OF Suc.prems(2) nz]) (rule that; assumption)
  have f1: "free_io inflight True (m_Device s1) io" using p(2,4) by simp
  obtain d where d: "ViosndFreeWritePcmIo (m_Device s1) io = Some d" "stream_inv qinv inflight P (s1\<lparr>m_Device := d\<rparr>)"
    "stream_frame s1 (s1\<lparr>m_Device := d\<rparr>)" "flight inflight d = flight inflight (m_Device s1)" "Queues d = Queues (m_Device s1)"
    by (rule free_stream_io [OF p(3) f1 p(5), unfolded if_True if_False]) (rule that; assumption)
  have k: "n = unat (m_RenderIoFreeCount (s1\<lparr>m_Device := d\<rparr>))" using Suc.prems(3) n nz p(2) by simp
  obtain s2 where s2: "free_render_ios n (s1\<lparr>m_Device := d\<rparr>) = Some s2" "stream_inv qinv inflight P s2" "m_RenderIoFreeCount s2 = 0"
    "\<exists>e qs. s2 = s1\<lparr>m_Device := d\<rparr>\<lparr>m_Device := e, m_RenderIoPool := qs, m_RenderIoFreeCount := 0\<rparr>" "stream_frame (s1\<lparr>m_Device := d\<rparr>) s2"
    "flight inflight (m_Device s2) = flight inflight (m_Device (s1\<lparr>m_Device := d\<rparr>))" "Queues (m_Device s2) = Queues (m_Device (s1\<lparr>m_Device := d\<rparr>))"
    by (rule Suc.IH [OF _ d(2) k]) (rule that; assumption)
  have "stream_frame s s1" using p(2) by (simp add: stream_frame_def)
  then have "stream_frame s s2" using d(3) s2(5) stream_frame_trans by blast
  then show ?case using p(1,2) d(1,4,5) s2
    by (intro Suc.prems(1) [of s2]) auto
qed

lemma free_capture_ios_ok:
  assumes "stream_inv qinv inflight P s" "n = unat (m_CaptureIoFreeCount s)"
  obtains s' where "free_capture_ios n s = Some s'" "stream_inv qinv inflight P s'" "m_CaptureIoFreeCount s' = 0"
    "\<exists>d ps. s' = s\<lparr>m_Device := d, m_CaptureIoPool := ps, m_CaptureIoFreeCount := 0\<rparr>" "stream_frame s s'"
    "flight inflight (m_Device s') = flight inflight (m_Device s)" "Queues (m_Device s') = Queues (m_Device s)"
  using assms
proof (induction n arbitrary: s thesis)
  case 0
  then have z: "m_CaptureIoFreeCount s = 0" by (simp add: unat_eq_0)
  have "s = s\<lparr>m_Device := m_Device s, m_CaptureIoPool := m_CaptureIoPool s, m_CaptureIoFreeCount := 0\<rparr>"
    unfolding z [symmetric] by simp
  then show ?case using 0(2) z by (intro 0(1) [of s]) (simp, assumption, simp, blast, simp_all)
next
  case (Suc n)
  note n = unat_pred [of "m_CaptureIoFreeCount s"]
  have nz: "m_CaptureIoFreeCount s \<noteq> 0" using Suc.prems(3) by auto
  obtain io ps s1 where p: "pop_capture_io s = Some (io, s1)"
    "s1 = s\<lparr>m_CaptureIoFreeCount := m_CaptureIoFreeCount s - 1, m_CaptureIoPool := ps\<rparr>"
    "stream_inv qinv inflight P s1" "free_io inflight False (m_Device s) io" "io \<notin> pooled s1"
    by (rule pop_capture_ok [OF Suc.prems(2) nz]) (rule that; assumption)
  have f1: "free_io inflight False (m_Device s1) io" using p(2,4) by simp
  obtain d where d: "ViosndFreeReadPcmIo (m_Device s1) io = Some d" "stream_inv qinv inflight P (s1\<lparr>m_Device := d\<rparr>)"
    "stream_frame s1 (s1\<lparr>m_Device := d\<rparr>)" "flight inflight d = flight inflight (m_Device s1)" "Queues d = Queues (m_Device s1)"
    by (rule free_stream_io [OF p(3) f1 p(5), unfolded if_True if_False]) (rule that; assumption)
  have k: "n = unat (m_CaptureIoFreeCount (s1\<lparr>m_Device := d\<rparr>))" using Suc.prems(3) n nz p(2) by simp
  obtain s2 where s2: "free_capture_ios n (s1\<lparr>m_Device := d\<rparr>) = Some s2" "stream_inv qinv inflight P s2" "m_CaptureIoFreeCount s2 = 0"
    "\<exists>e qs. s2 = s1\<lparr>m_Device := d\<rparr>\<lparr>m_Device := e, m_CaptureIoPool := qs, m_CaptureIoFreeCount := 0\<rparr>" "stream_frame (s1\<lparr>m_Device := d\<rparr>) s2"
    "flight inflight (m_Device s2) = flight inflight (m_Device (s1\<lparr>m_Device := d\<rparr>))" "Queues (m_Device s2) = Queues (m_Device (s1\<lparr>m_Device := d\<rparr>))"
    by (rule Suc.IH [OF _ d(2) k]) (rule that; assumption)
  have "stream_frame s s1" using p(2) by (simp add: stream_frame_def)
  then have "stream_frame s s2" using d(3) s2(5) stream_frame_trans by blast
  then show ?case using p(1,2) d(1,4,5) s2
    by (intro Suc.prems(1) [of s2]) auto
qed

text \<open>A change of the device, the pools and the fallback buffer only.\<close>

definition repooled :: "('q, 'e) wave_stream \<Rightarrow> ('q, 'e) wave_stream \<Rightarrow> bool" where
  "repooled s s' \<longleftrightarrow> (\<exists>d ps n cs k fb fz. s' = s\<lparr>m_Device := d, m_RenderIoPool := ps, m_RenderIoFreeCount := n,
     m_CaptureIoPool := cs, m_CaptureIoFreeCount := k, m_RenderFallbackBuffer := fb,
     m_RenderFallbackBufferSize := fz\<rparr> \<and> mutex_count d = mutex_count (m_Device s))"

lemma repooledI:
  assumes "s' = s\<lparr>m_Device := m_Device s', m_RenderIoPool := m_RenderIoPool s',
     m_RenderIoFreeCount := m_RenderIoFreeCount s', m_CaptureIoPool := m_CaptureIoPool s',
     m_CaptureIoFreeCount := m_CaptureIoFreeCount s', m_RenderFallbackBuffer := m_RenderFallbackBuffer s',
     m_RenderFallbackBufferSize := m_RenderFallbackBufferSize s'\<rparr>"
    "mutex_count (m_Device s') = mutex_count (m_Device s)"
  shows "repooled s s'"
  using assms unfolding repooled_def by blast

lemma repooled_refl [simp]: "repooled s s"
  by (rule repooledI) simp_all

lemma repooled_trans: "repooled a b \<Longrightarrow> repooled b c \<Longrightarrow> repooled a c"
  unfolding repooled_def by (elim exE conjE) (simp, blast)

lemma repooled_upd:
  "mutex_count d = mutex_count (m_Device s) \<Longrightarrow> repooled s (s\<lparr>m_Device := d\<rparr>)"
  "mutex_count d = mutex_count (m_Device s) \<Longrightarrow>
     repooled s (s\<lparr>m_Device := d, m_RenderIoPool := ps, m_RenderIoFreeCount := n\<rparr>)"
  "mutex_count d = mutex_count (m_Device s) \<Longrightarrow>
     repooled s (s\<lparr>m_Device := d, m_CaptureIoPool := ps, m_CaptureIoFreeCount := n\<rparr>)"
  "mutex_count d = mutex_count (m_Device s) \<Longrightarrow>
     repooled s (s\<lparr>m_Device := d, m_RenderFallbackBuffer := fb, m_RenderFallbackBufferSize := fz\<rparr>)"
  "repooled s (s\<lparr>m_RenderIoPool := ps, m_RenderIoFreeCount := n\<rparr>)"
  "repooled s (s\<lparr>m_CaptureIoPool := ps, m_CaptureIoFreeCount := n\<rparr>)"
  by (rule repooledI; simp; fail)+

lemma repooled_members:
  assumes "repooled s s'"
  shows "stream_frame s s'" "m_Capture s' = m_Capture s" "m_OutstandingWrites s' = m_OutstandingWrites s"
    "m_CaptureInFlight s' = m_CaptureInFlight s" "m_State s' = m_State s" "m_PacketSize s' = m_PacketSize s"
    "m_Buffer s' = m_Buffer s" "m_NotificationCount s' = m_NotificationCount s" "m_Position s' = m_Position s"
    "m_StreamId s' = m_StreamId s" "m_NextSubmitPacket s' = m_NextSubmitPacket s"
    "m_RenderFallbackPhase s' = m_RenderFallbackPhase s" "m_RenderFallbackActive s' = m_RenderFallbackActive s"
    "m_PacketNumber s' = m_PacketNumber s" "m_Notified s' = m_Notified s" "m_EosPacketLength s' = m_EosPacketLength s"
  using assms by (auto simp: repooled_def stream_frame_def)

lemma FreeRenderIoPool_ok:
  assumes "stream_inv qinv inflight P s"
  obtains s' where "FreeRenderIoPool s = Some s'" "stream_inv qinv inflight P s'" "repooled s s'"
    "flight inflight (m_Device s') = flight inflight (m_Device s)" "Queues (m_Device s') = Queues (m_Device s)"
    "\<not> m_Capture s \<Longrightarrow> m_OutstandingWrites s = 0 \<Longrightarrow> m_RenderIoFreeCount s' = 0 \<and> m_RenderFallbackBuffer s' = None"
proof (cases "m_Capture s \<or> m_OutstandingWrites s \<noteq> 0")
  case True
  then have "FreeRenderIoPool s = Some s" by (auto simp: FreeRenderIoPool_def)
  then show thesis using that [of s] assms True by auto
next
  case False
  obtain s1 where 1: "free_render_ios (unat (m_RenderIoFreeCount s)) s = Some s1" "stream_inv qinv inflight P s1"
    "m_RenderIoFreeCount s1 = 0" "\<exists>d ps. s1 = s\<lparr>m_Device := d, m_RenderIoPool := ps, m_RenderIoFreeCount := 0\<rparr>"
    "stream_frame s s1" "flight inflight (m_Device s1) = flight inflight (m_Device s)" "Queues (m_Device s1) = Queues (m_Device s)"
    by (rule free_render_ios_ok [OF assms refl]) (rule that; assumption)
  obtain d ps where e: "s1 = s\<lparr>m_Device := d, m_RenderIoPool := ps, m_RenderIoFreeCount := 0\<rparr>" using 1(4) by blast
  have "mutex_count d = mutex_count (m_Device s)" using 1(5) e by (simp add: stream_frame_def)
  then have r1: "repooled s s1" unfolding e by (rule repooled_upd(2))
  show thesis
  proof (cases "m_RenderFallbackBuffer s1")
    case None
    then have "FreeRenderIoPool s = Some s1" using False 1(1) by (simp add: FreeRenderIoPool_def)
    then show thesis using that [of s1] 1 r1 None by simp
  next
    case (Some pf)
    then obtain p fb where pf: "m_RenderFallbackBuffer s1 = Some (p, fb)" by (cases pf) simp
    note i = stream_invD [OF 1(2)]
    have b: "fb_blocks s1 = {p}" using pf by (simp add: fb_blocks_def)
    have ip: "dev_inv qinv inflight {} (insert p P) (m_Device s1)" using i(1) b by simp
    obtain d where d: "ExFreePool (m_Device s1) p = Some d" "dev_inv qinv inflight {} (insert p P - {p}) d"
      "drv d = drv (m_Device s1)" "Queues d = Queues (m_Device s1)" "mutex_count d = mutex_count (m_Device s1)"
      by (rule ExFreePool_inv [OF ip insertI1]) (rule that; assumption)
    let ?s = "s1\<lparr>m_Device := d, m_RenderFallbackBuffer := None, m_RenderFallbackBufferSize := 0\<rparr>"
    have P: "insert p P - {p} = P" using i(2) b by auto
    have fl: "flight inflight d = flight inflight (m_Device s1)" by (rule flight_cong [OF d(4)])
    have free: "free_io inflight w d q = free_io inflight w (m_Device s1) q" for w q
      using drv_simps [OF d(3)] fl by (simp add: free_io_def)
    have "geom_ok ?s = geom_ok s1" "fb_ok ?s" "fb_blocks ?s = {}"
      using i(7) by (simp_all add: geom_ok_def fb_ok_def fb_blocks_def cong: option.case_cong)
    moreover have "ctl_rest inflight d" using i(3) drv_simps [OF d(3)] fl by (simp add: ctl_rest_def)
    ultimately have "stream_inv qinv inflight P ?s"
      using i(4-6) d(2) unfolding stream_inv_def P pool_inv_def by (simp add: free)
    moreover have "repooled s ?s" using r1 repooled_upd(4) [OF d(5)] repooled_trans by blast
    moreover have "FreeRenderIoPool s = Some ?s" using False 1(1) pf d(1) by (simp add: FreeRenderIoPool_def)
    ultimately show thesis using that [of ?s] 1(3,6,7) d(4) fl by simp
  qed
qed

lemma FreeCaptureIoPool_ok:
  assumes "stream_inv qinv inflight P s"
  obtains s' where "FreeCaptureIoPool s = Some s'" "stream_inv qinv inflight P s'" "repooled s s'"
    "flight inflight (m_Device s') = flight inflight (m_Device s)" "Queues (m_Device s') = Queues (m_Device s)"
    "m_Capture s \<Longrightarrow> m_CaptureInFlight s = 0 \<Longrightarrow> m_CaptureIoFreeCount s' = 0"
proof (cases "\<not> m_Capture s \<or> m_CaptureInFlight s \<noteq> 0")
  case True
  then have "FreeCaptureIoPool s = Some s" by (auto simp: FreeCaptureIoPool_def)
  then show thesis using that [of s] assms True by auto
next
  case False
  obtain s1 where 1: "free_capture_ios (unat (m_CaptureIoFreeCount s)) s = Some s1" "stream_inv qinv inflight P s1"
    "m_CaptureIoFreeCount s1 = 0" "\<exists>d ps. s1 = s\<lparr>m_Device := d, m_CaptureIoPool := ps, m_CaptureIoFreeCount := 0\<rparr>"
    "stream_frame s s1" "flight inflight (m_Device s1) = flight inflight (m_Device s)" "Queues (m_Device s1) = Queues (m_Device s)"
    by (rule free_capture_ios_ok [OF assms refl]) (rule that; assumption)
  obtain d ps where e: "s1 = s\<lparr>m_Device := d, m_CaptureIoPool := ps, m_CaptureIoFreeCount := 0\<rparr>" using 1(4) by blast
  have "mutex_count d = mutex_count (m_Device s)" using 1(5) e by (simp add: stream_frame_def)
  then have r1: "repooled s s1" unfolding e by (rule repooled_upd(3))
  have "FreeCaptureIoPool s = Some s1" using False 1(1) by (simp add: FreeCaptureIoPool_def)
  then show thesis using that [of s1] 1 r1 by simp
qed

section \<open>Filling the pools\<close>

context virtio_snd
begin

lemma stream_new_io:
  assumes "stream_inv inv inflight P s" "dev_inv inv inflight {} (P \<union> fb_blocks s) dev'"
    "io_frame (m_Device s) dev'" "Queues dev' = Queues (m_Device s)"
    "ios dev' = (ios (m_Device s))(p \<mapsto> x)" "p \<notin> dom (ios (m_Device s))"
  shows "stream_inv inv inflight P (s\<lparr>m_Device := dev'\<rparr>)" "free_io inflight (AudioVa x = 0) dev' p" "p \<notin> pooled s"
proof -
  have fl: "flight inflight dev' = flight inflight (m_Device s)" by (rule flight_cong [OF assms(4)])
  show n: "p \<notin> pooled s" using pooled_free [OF assms(1)] assms(6) by (auto simp: free_io_def)
  show "stream_inv inv inflight P (s\<lparr>m_Device := dev'\<rparr>)"
    by (rule stream_io [OF assms(1-3) _ n]) (use fl assms(5) in simp_all)
  have "OIo p \<notin># flight inflight (m_Device s) i" for i
  proof
    assume "OIo p \<in># flight inflight (m_Device s) i"
    then obtain q where "Queues (m_Device s) i = Some q" "OIo p \<in># inflight q"
      by (auto simp: flight_def split: option.splits)
    then have "token_ok (m_Device s) i (OIo p)" using queueD [OF stream_invD(1) [OF assms(1)]] by blast
    then show False using assms(6) by (auto simp: token_ok_def split: option.splits)
  qed
  then show "free_io inflight (AudioVa x = 0) dev' p" using fl assms(5) by (simp add: free_io_def)
qed

lemma alloc_render_ios_ok:
  assumes "stream_inv inv inflight P s" "unat (m_RenderIoFreeCount s) + n \<le> VIOSND_RENDER_IO_POOL_SIZE"
  obtains status s' where "alloc_render_ios K n s = Some (status, s')" "stream_inv inv inflight P s'" "repooled s s'"
    "flight inflight (m_Device s') = flight inflight (m_Device s)" "Queues (m_Device s') = Queues (m_Device s)"
    "status = STATUS_SUCCESS \<and> unat (m_RenderIoFreeCount s') = unat (m_RenderIoFreeCount s) + n \<and>
       m_RenderFallbackBuffer s' = m_RenderFallbackBuffer s \<or> status = STATUS_INSUFFICIENT_RESOURCES"
  using assms
proof (induction n arbitrary: s thesis)
  case 0
  then show ?case using 0(2) by (intro 0(1) [of STATUS_SUCCESS s]) simp_all
next
  case (Suc n)
  let ?len = "max (m_PacketSize s) VIOSND_FALLBACK_PERIOD_BYTES"
  note i = stream_invD [OF Suc.prems(2)]
  have "unat ?len \<le> 2048" using i(6) by (simp add: geom_ok_def max_def word_le_nat_alt)
  then have len: "unat ?len + sizeof_PCM_XFER < 2 ^ 32" by simp
  show ?case
  proof (rule AllocateWritePcmIo_ok [OF i(1) len], goal_cases)
    case (1 p x d)
    let ?s = "s\<lparr>m_Device := d\<rparr>"
    have io: "stream_inv inv inflight P ?s" "free_io inflight True d p" "p \<notin> pooled ?s"
      using stream_new_io [OF Suc.prems(2) 1(2,9,10,3,4)] 1(7) by simp_all
    have lt: "unat (m_RenderIoFreeCount ?s) < VIOSND_RENDER_IO_POOL_SIZE" using Suc.prems(3) by simp
    have f: "free_io inflight True (m_Device ?s) p" using io(2) by simp
    obtain ps s1 where s1: "push_render_io p ?s = Some s1"
      "s1 = ?s\<lparr>m_RenderIoPool := ps, m_RenderIoFreeCount := m_RenderIoFreeCount ?s + 1\<rparr>" "stream_inv inv inflight P s1"
      by (rule push_render_ok [OF io(1) lt f io(3)]) (rule that; assumption)
    have n1: "unat (m_RenderIoFreeCount s1) = Suc (unat (m_RenderIoFreeCount s))"
      using s1(2) lt unat_add_of_nat [of "m_RenderIoFreeCount s" 1] by simp
    then have le: "unat (m_RenderIoFreeCount s1) + n \<le> VIOSND_RENDER_IO_POOL_SIZE" using Suc.prems(3) by simp
    have r1: "repooled s s1" unfolding s1(2) using repooled_upd(2) [of d s] 1(9) by (simp add: io_frame_def)
    have dev1: "m_Device s1 = d" "m_RenderFallbackBuffer s1 = m_RenderFallbackBuffer s" using s1(2) by simp_all
    obtain status s2 where s2: "alloc_render_ios K n s1 = Some (status, s2)" "stream_inv inv inflight P s2" "repooled s1 s2"
      "flight inflight (m_Device s2) = flight inflight (m_Device s1)" "Queues (m_Device s2) = Queues (m_Device s1)"
      "status = STATUS_SUCCESS \<and> unat (m_RenderIoFreeCount s2) = unat (m_RenderIoFreeCount s1) + n \<and>
       m_RenderFallbackBuffer s2 = m_RenderFallbackBuffer s1 \<or> status = STATUS_INSUFFICIENT_RESOURCES"
      by (rule Suc.IH [OF _ s1(3) le]) (rule that; assumption)
    have A: "alloc_render_ios K (Suc n) s = Some (status, s2)"
      using 1(1) s1(1) s2(1) by (simp add: NT_SUCCESS_def Let_def)
    show ?case
      by (rule Suc.prems(1) [OF A s2(2) repooled_trans [OF r1 s2(3)]])
        (use s2(4-6) n1 dev1 1(10) flight_cong [OF 1(10)] in auto)
  next
    case (2 d)
    let ?s = "s\<lparr>m_Device := d\<rparr>"
    have fl: "flight inflight d = flight inflight (m_Device s)" by (rule flight_cong [OF 2(5)])
    have c: "ctl_rest inflight d" using i(3) 2(4) fl by (simp add: ctl_rest_def io_frame_def)
    have "stream_inv inv inflight P ?s"
      by (rule stream_inv_dev [OF Suc.prems(2) 2(2) c]) (use fl 2(3) in \<open>simp add: free_io_def\<close>)
    then obtain s1 where s1: "FreeRenderIoPool ?s = Some s1" "stream_inv inv inflight P s1" "repooled ?s s1"
      "flight inflight (m_Device s1) = flight inflight (m_Device ?s)" "Queues (m_Device s1) = Queues (m_Device ?s)"
      by (rule FreeRenderIoPool_ok)
    have r: "repooled s ?s" using 2(4) by (intro repooled_upd) (simp add: io_frame_def)
    have A: "alloc_render_ios K (Suc n) s = Some (STATUS_INSUFFICIENT_RESOURCES, s1)"
      using 2(1) s1(1) by (simp add: Let_def)
    show ?case
      by (rule Suc.prems(1) [OF A s1(2) repooled_trans [OF r s1(3)]]) (use s1(4,5) fl 2(5) in simp_all)
  qed
qed

lemma alloc_capture_ios_ok:
  assumes "stream_inv inv inflight P s" "unat (m_CaptureIoFreeCount s) + n \<le> VIOSND_CAPTURE_IO_POOL_SIZE"
  obtains status s' where "alloc_capture_ios K n s = Some (status, s')" "stream_inv inv inflight P s'" "repooled s s'"
    "flight inflight (m_Device s') = flight inflight (m_Device s)" "Queues (m_Device s') = Queues (m_Device s)"
    "status = STATUS_SUCCESS \<and> unat (m_CaptureIoFreeCount s') = unat (m_CaptureIoFreeCount s) + n \<or>
       status = STATUS_INSUFFICIENT_RESOURCES"
  using assms
proof (induction n arbitrary: s thesis)
  case 0
  then show ?case using 0(2) by (intro 0(1) [of STATUS_SUCCESS s]) simp_all
next
  case (Suc n)
  note i = stream_invD [OF Suc.prems(2)]
  have len: "unat (m_PacketSize s) + sizeof_PCM_STATUS < 2 ^ 32" using i(6) by (simp add: geom_ok_def)
  show ?case
  proof (rule AllocateReadPcmIo_ok [OF i(1) len], goal_cases)
    case (1 p x d)
    let ?s = "s\<lparr>m_Device := d\<rparr>"
    have io: "stream_inv inv inflight P ?s" "free_io inflight False d p" "p \<notin> pooled ?s"
      using stream_new_io [OF Suc.prems(2) 1(2,9,10,3,4)] 1(7) by simp_all
    have lt: "unat (m_CaptureIoFreeCount ?s) < VIOSND_CAPTURE_IO_POOL_SIZE" using Suc.prems(3) by simp
    have f: "free_io inflight False (m_Device ?s) p" using io(2) by simp
    obtain ps s1 where s1: "push_capture_io p ?s = Some s1"
      "s1 = ?s\<lparr>m_CaptureIoPool := ps, m_CaptureIoFreeCount := m_CaptureIoFreeCount ?s + 1\<rparr>" "stream_inv inv inflight P s1"
      by (rule push_capture_ok [OF io(1) lt f io(3)]) (rule that; assumption)
    have n1: "unat (m_CaptureIoFreeCount s1) = Suc (unat (m_CaptureIoFreeCount s))"
      using s1(2) lt unat_add_of_nat [of "m_CaptureIoFreeCount s" 1] by simp
    then have le: "unat (m_CaptureIoFreeCount s1) + n \<le> VIOSND_CAPTURE_IO_POOL_SIZE" using Suc.prems(3) by simp
    have r1: "repooled s s1" unfolding s1(2) using repooled_upd(3) [of d s] 1(9) by (simp add: io_frame_def)
    have dev1: "m_Device s1 = d" using s1(2) by simp
    obtain status s2 where s2: "alloc_capture_ios K n s1 = Some (status, s2)" "stream_inv inv inflight P s2" "repooled s1 s2"
      "flight inflight (m_Device s2) = flight inflight (m_Device s1)" "Queues (m_Device s2) = Queues (m_Device s1)"
      "status = STATUS_SUCCESS \<and> unat (m_CaptureIoFreeCount s2) = unat (m_CaptureIoFreeCount s1) + n \<or>
       status = STATUS_INSUFFICIENT_RESOURCES"
      by (rule Suc.IH [OF _ s1(3) le]) (rule that; assumption)
    have A: "alloc_capture_ios K (Suc n) s = Some (status, s2)"
      using 1(1) s1(1) s2(1) by (simp add: NT_SUCCESS_def Let_def)
    show ?case
      by (rule Suc.prems(1) [OF A s2(2) repooled_trans [OF r1 s2(3)]])
        (use s2(4-6) n1 dev1 1(10) flight_cong [OF 1(10)] in auto)
  next
    case (2 d)
    let ?s = "s\<lparr>m_Device := d\<rparr>"
    have fl: "flight inflight d = flight inflight (m_Device s)" by (rule flight_cong [OF 2(5)])
    have c: "ctl_rest inflight d" using i(3) 2(4) fl by (simp add: ctl_rest_def io_frame_def)
    have "stream_inv inv inflight P ?s"
      by (rule stream_inv_dev [OF Suc.prems(2) 2(2) c]) (use fl 2(3) in \<open>simp add: free_io_def\<close>)
    then obtain s1 where s1: "FreeCaptureIoPool ?s = Some s1" "stream_inv inv inflight P s1" "repooled ?s s1"
      "flight inflight (m_Device s1) = flight inflight (m_Device ?s)" "Queues (m_Device s1) = Queues (m_Device ?s)"
      by (rule FreeCaptureIoPool_ok)
    have r: "repooled s ?s" using 2(4) by (intro repooled_upd) (simp add: io_frame_def)
    have A: "alloc_capture_ios K (Suc n) s = Some (STATUS_INSUFFICIENT_RESOURCES, s1)"
      using 2(1) s1(1) by (simp add: Let_def)
    show ?case
      by (rule Suc.prems(1) [OF A s1(2) repooled_trans [OF r s1(3)]]) (use s1(4,5) fl 2(5) in simp_all)
  qed
qed

end

context virtio_snd
begin

lemma AllocateRenderIoPool_ok:
  assumes "stream_inv inv inflight P s"
  obtains status s' where "AllocateRenderIoPool K s = Some (status, s')" "stream_inv inv inflight P s'" "repooled s s'"
    "flight inflight (m_Device s') = flight inflight (m_Device s)" "Queues (m_Device s') = Queues (m_Device s)"
    "status \<in> {STATUS_SUCCESS, STATUS_DEVICE_NOT_READY, STATUS_INSUFFICIENT_RESOURCES}"
    "\<not> m_Capture s \<Longrightarrow> status = STATUS_SUCCESS \<Longrightarrow> m_RenderIoFreeCount s' \<noteq> 0"
proof (cases "m_Capture s \<or> m_RenderIoFreeCount s \<noteq> 0 \<or> m_PacketSize s = 0")
  case True
  then obtain status where "AllocateRenderIoPool K s = Some (status, s)"
    "status = STATUS_SUCCESS \<and> (m_Capture s \<or> m_RenderIoFreeCount s \<noteq> 0) \<or> status = STATUS_DEVICE_NOT_READY"
    by (cases "m_Capture s \<or> m_RenderIoFreeCount s \<noteq> 0") (auto simp: AllocateRenderIoPool_def)
  then show thesis using that [of status s] assms by auto
next
  case go: False
  note i = stream_invD [OF assms] and fin = that
  have fill: thesis if a: "AllocateRenderIoPool K s = alloc_render_ios K VIOSND_RENDER_IO_POOL_SIZE s1"
    "stream_inv inv inflight P s1" "repooled s s1" "m_RenderIoFreeCount s1 = 0"
    "flight inflight (m_Device s1) = flight inflight (m_Device s)" "Queues (m_Device s1) = Queues (m_Device s)" for s1
  proof -
    have le: "unat (m_RenderIoFreeCount s1) + VIOSND_RENDER_IO_POOL_SIZE \<le> VIOSND_RENDER_IO_POOL_SIZE" using a(4) by simp
    obtain status s2 where s2: "alloc_render_ios K VIOSND_RENDER_IO_POOL_SIZE s1 = Some (status, s2)"
      "stream_inv inv inflight P s2" "repooled s1 s2"
      "flight inflight (m_Device s2) = flight inflight (m_Device s1)" "Queues (m_Device s2) = Queues (m_Device s1)"
      "status = STATUS_SUCCESS \<and> unat (m_RenderIoFreeCount s2) = unat (m_RenderIoFreeCount s1) + VIOSND_RENDER_IO_POOL_SIZE \<and>
       m_RenderFallbackBuffer s2 = m_RenderFallbackBuffer s1 \<or> status = STATUS_INSUFFICIENT_RESOURCES"
      by (rule alloc_render_ios_ok [OF a(2) le]) (rule that; assumption)
    show thesis
      by (rule fin [OF a(1) [unfolded s2(1)] s2(2) repooled_trans [OF a(3) s2(3)]])
        (use s2(4-6) a(5,6) in auto)
  qed
  show thesis
  proof (cases "m_RenderFallbackBuffer s = None")
    case False
    then show thesis using go assms
      by (intro fill [of s]) (auto simp: AllocateRenderIoPool_def Let_def)
  next
    case True
    let ?n = "max VIOSND_FALLBACK_PERIOD_BYTES (m_PacketSize s)"
    obtain p d where a: "pool_alloc K (m_Device s) (unat ?n) = (p, d)" by force
    have b: "fb_blocks s = {}" using True by (simp add: fb_blocks_def)
    then have i1: "dev_inv inv inflight {} P (m_Device s)" using i(1) by simp
    note p1 = dev_inv_pool_alloc [OF alloc i1 a]
    have fl: "flight inflight d = flight inflight (m_Device s)" using p1 flight_cong by blast
    have free: "free_io inflight w d q = free_io inflight w (m_Device s) q" for w q
      using drv_simps [of d "m_Device s"] p1 fl by (simp add: free_io_def)
    have c: "ctl_rest inflight d" using i(3) p1 drv_simps [of d "m_Device s"] fl by (simp add: ctl_rest_def)
    show thesis
    proof (cases "p = 0")
      case p0: True
      let ?s = "s\<lparr>m_Device := d, m_RenderFallbackBufferSize := 0\<rparr>"
      have e: "AllocateRenderIoPool K s = Some (STATUS_INSUFFICIENT_RESOURCES, ?s)"
        using go True a p0 by (simp add: AllocateRenderIoPool_def Let_def)
      have "geom_ok ?s = geom_ok s" "fb_ok ?s = fb_ok s" "fb_blocks ?s = {}"
        using True by (simp_all add: geom_ok_def fb_ok_def fb_blocks_def cong: option.case_cong)
      then have "stream_inv inv inflight P ?s"
        using i(4-7) p1 p0 c unfolding stream_inv_def pool_inv_def by (simp add: free)
      moreover have "repooled s ?s" by (rule repooledI) (use p1 in simp_all)
      ultimately show thesis using p1 fl by (intro that [OF e]) simp_all
    next
      case p0: False
      let ?s = "s\<lparr>m_Device := d, m_RenderFallbackBufferSize := ?n, m_RenderFallbackBuffer := Some (p, replicate (unat ?n) 0)\<rparr>"
      have e: "AllocateRenderIoPool K s = alloc_render_ios K VIOSND_RENDER_IO_POOL_SIZE ?s"
        using go True a p0 by (simp add: AllocateRenderIoPool_def Let_def)
      have "geom_ok ?s = geom_ok s" "fb_ok ?s = fb_ok s" "fb_blocks ?s = {p}"
        using True by (simp_all add: geom_ok_def fb_ok_def fb_blocks_def cong: option.case_cong)
      then have "stream_inv inv inflight P ?s"
        using i(4-7) p1 p0 c unfolding stream_inv_def pool_inv_def by (simp add: free)
      moreover have "repooled s ?s" by (rule repooledI) (use p1 in simp_all)
      ultimately show thesis using p1 fl go by (intro fill [OF e]) simp_all
    qed
  qed
qed

lemma AllocateCaptureIoPool_ok:
  assumes "stream_inv inv inflight P s"
  obtains status s' where "AllocateCaptureIoPool K s = Some (status, s')" "stream_inv inv inflight P s'" "repooled s s'"
    "flight inflight (m_Device s') = flight inflight (m_Device s)" "Queues (m_Device s') = Queues (m_Device s)"
    "status \<in> {STATUS_SUCCESS, STATUS_DEVICE_NOT_READY, STATUS_INSUFFICIENT_RESOURCES}"
    "m_Capture s \<Longrightarrow> status = STATUS_SUCCESS \<Longrightarrow> m_CaptureIoFreeCount s' \<noteq> 0"
proof (cases "\<not> m_Capture s \<or> m_CaptureIoFreeCount s \<noteq> 0 \<or> m_PacketSize s = 0")
  case True
  then obtain status where "AllocateCaptureIoPool K s = Some (status, s)"
    "status = STATUS_SUCCESS \<and> (\<not> m_Capture s \<or> m_CaptureIoFreeCount s \<noteq> 0) \<or> status = STATUS_DEVICE_NOT_READY"
    by (cases "\<not> m_Capture s \<or> m_CaptureIoFreeCount s \<noteq> 0") (auto simp: AllocateCaptureIoPool_def)
  then show thesis using that [of status s] assms by auto
next
  case False
  then have le: "unat (m_CaptureIoFreeCount s) + VIOSND_CAPTURE_IO_POOL_SIZE \<le> VIOSND_CAPTURE_IO_POOL_SIZE" by simp
  obtain status s2 where s2: "alloc_capture_ios K VIOSND_CAPTURE_IO_POOL_SIZE s = Some (status, s2)"
    "stream_inv inv inflight P s2" "repooled s s2"
    "flight inflight (m_Device s2) = flight inflight (m_Device s)" "Queues (m_Device s2) = Queues (m_Device s)"
    "status = STATUS_SUCCESS \<and> unat (m_CaptureIoFreeCount s2) = unat (m_CaptureIoFreeCount s) + VIOSND_CAPTURE_IO_POOL_SIZE \<or>
       status = STATUS_INSUFFICIENT_RESOURCES"
    by (rule alloc_capture_ios_ok [OF assms le]) (rule that; assumption)
  have e: "AllocateCaptureIoPool K s = Some (status, s2)"
    using False s2(1) by (simp add: AllocateCaptureIoPool_def)
  show thesis by (rule that [OF e s2(2-5)]) (use s2(6) in auto)
qed

end

section \<open>The bytes of a packet\<close>

lemma packet_inside:
  assumes "geom_ok s" "m_Buffer s = Some buf"
  shows "unat (packet_offset s pn) + unat (m_PacketSize s) \<le> length buf"
    "n \<le> m_PacketSize s \<Longrightarrow> unat (packet_offset s pn + n) = unat (packet_offset s pn) + unat n"
proof -
  let ?c = "max (m_NotificationCount s) 1" and ?p = "unat (m_PacketSize s)"
  have g: "length buf < 2 ^ 32" "unat ?c * ?p \<le> length buf" using assms by (simp_all add: geom_ok_def)
  have c0: "?c \<noteq> 0" by (metis max.cobounded2 word_le_0_iff zero_neq_one)
  then have lt: "unat (pn mod ?c) < unat ?c" by (simp add: unat_mod unat_gt_0)
  have le: "Suc (unat (pn mod ?c)) * ?p \<le> unat ?c * ?p" using lt by (intro mult_le_mono1) simp
  then have s: "unat (pn mod ?c) * ?p + ?p \<le> length buf" using g(2) by simp
  then have "unat (pn mod ?c) * ?p < 2 ^ 32" using g(1) by linarith
  then have o: "unat (packet_offset s pn) = unat (pn mod ?c) * ?p"
    using unat_mult_lem [of "pn mod ?c" "m_PacketSize s"] by (simp add: packet_offset_def)
  then show i: "unat (packet_offset s pn) + ?p \<le> length buf" using s by simp
  show "unat (packet_offset s pn + n) = unat (packet_offset s pn) + unat n" if "n \<le> m_PacketSize s"
  proof -
    have "unat (packet_offset s pn) + unat n < 2 ^ 32" using that i g(1) by (simp add: word_le_nat_alt)
    then show ?thesis using unat_add_lem [of "packet_offset s pn" n] by simp
  qed
qed

lemma downsample_bounds:
  assumes "rate \<noteq> 0" "rate < 48000" "phase < 48000" "ViosndDownsampleStereo16 dest src rate phase = (out, phase')"
  shows "length out \<le> unat dest" "phase' < 48000"
proof -
  obtain fs where fs: "downsample_loop rate (frames_of_bytes src) (unat dest div 4) phase = (fs, phase')"
    "length out = 4 * length fs"
    using downsample_frames [OF assms] by metis
  have "length fs \<le> unat dest div 4" "phase' < 48000" using downsample_loop_ok [OF assms(2,3) fs(1)] by simp_all
  then show "length out \<le> unat dest" "phase' < 48000" using fs(2) by linarith+
qed

lemma fallback_loop_ok:
  assumes "geom_ok s" "m_Buffer s = Some buf0" "length buf = length buf0"
    "phase < VIOSND_DEFAULT_SAMPLE_RATE" "submitLength \<le> VIOSND_FALLBACK_PERIOD_BYTES"
    "unat VIOSND_FALLBACK_PERIOD_BYTES \<le> length fb"
  shows "\<exists>fb' sl src n phase'. fallback_loop s buf pn k i fb submitLength sourceLength sourcePackets phase =
      Some (fb', sl, src, n, phase') \<and> length fb' = length fb \<and> sl \<le> VIOSND_FALLBACK_PERIOD_BYTES \<and>
      phase' < VIOSND_DEFAULT_SAMPLE_RATE"
  using assms(4-6)
proof (induction k arbitrary: i fb submitLength sourceLength sourcePackets phase)
  case 0
  then show ?case by simp
next
  case (Suc k)
  let ?pn = "pn + i" and ?eos = "m_EosPacketNumber s = pn + i"
  let ?stop = "VIOSND_FALLBACK_PERIOD_BYTES \<le> submitLength \<or> m_LastOsWritePacket s \<noteq> MAXULONG \<and>
     \<not> ViosndPacketNumberLessOrEqual ?pn (m_LastOsWritePacket s)"
  let ?l = "if ?eos then m_EosPacketLength s else m_PacketSize s"
  show ?case
  proof (cases ?stop)
    case True
    then show ?thesis using Suc.prems by auto
  next
    case go: False
    have l: "unat ?l \<le> unat (m_PacketSize s)" using assms(1) by (simp add: geom_ok_def word_le_nat_alt)
    then have "unat (packet_offset s ?pn) + unat ?l \<le> length buf"
      using packet_inside(1) [OF assms(1,2), of ?pn] assms(3) by linarith
    then obtain src where src: "read_bytes (unat (packet_offset s ?pn)) (unat ?l) buf = Some src"
      by (simp add: read_bytes_def)
    obtain out phase' where ds: "ViosndDownsampleStereo16 (VIOSND_FALLBACK_PERIOD_BYTES - submitLength) src
        VIOSND_FALLBACK_SAMPLE_RATE phase = (out, phase')" by force
    have b: "length out \<le> unat (VIOSND_FALLBACK_PERIOD_BYTES - submitLength)" "phase' < VIOSND_DEFAULT_SAMPLE_RATE"
      using downsample_bounds [OF _ _ Suc.prems(1) ds] by simp_all
    have sub: "unat (VIOSND_FALLBACK_PERIOD_BYTES - submitLength) = unat VIOSND_FALLBACK_PERIOD_BYTES - unat submitLength"
      by (rule unat_sub_ge [OF Suc.prems(2)])
    have sl: "unat submitLength \<le> unat VIOSND_FALLBACK_PERIOD_BYTES" using Suc.prems(2) by (simp add: word_le_nat_alt)
    have room: "unat submitLength + length out \<le> unat VIOSND_FALLBACK_PERIOD_BYTES"
      using b(1) sl unfolding sub by linarith
    then have "unat submitLength + length out \<le> length fb" using Suc.prems(3) by linarith
    then obtain fb' where fb': "write_bytes (unat submitLength) out fb = Some fb'" by (simp add: write_bytes_def)
    have lf: "length fb' = length fb" by (rule write_bytes_length [OF fb'])
    let ?sl = "submitLength + word_of_nat (length out)"
    have "unat submitLength + length out < 2 ^ 32" using room by simp
    then have "unat ?sl = unat submitLength + length out" using unat_add_of_nat [of submitLength "length out"] by simp
    then have sl': "?sl \<le> VIOSND_FALLBACK_PERIOD_BYTES" using room by (simp add: word_le_nat_alt)
    have "unat VIOSND_FALLBACK_PERIOD_BYTES \<le> length fb'" using Suc.prems(3) lf by simp
    from Suc.IH [OF b(2) sl' this, of "i + 1" "sourceLength + ?l" "sourcePackets + 1"]
    show ?thesis unfolding fallback_loop.simps Let_def if_not_P [OF go] src bind.bind_lunit ds prod.case fb'
      using lf sl' b(2) by (cases ?eos; simp)
  qed
qed

text \<open>
  What is submitted for a packet: the packet of the cyclic buffer itself, or, after the switch to
  the fallback format, at most a fallback period of downsampled audio.
\<close>

lemma render_payload_ok:
  assumes "stream_inv qinv inflight P s" "m_Buffer s = Some buf"
  obtains (early) status fb where "render_payload pn (m_PacketSize s) buf s = Some (Inl status, s\<lparr>m_RenderFallbackBuffer := fb\<rparr>)"
      "\<not> NT_SUCCESS status" "stream_inv qinv inflight P (s\<lparr>m_RenderFallbackBuffer := fb\<rparr>)" "m_RenderFallbackActive s"
  | (data) bytes src n fb ph where
      "render_payload pn (m_PacketSize s) buf s =
         Some (Inr (bytes, src, n), s\<lparr>m_RenderFallbackBuffer := fb, m_RenderFallbackPhase := ph\<rparr>)"
      "stream_inv qinv inflight P (s\<lparr>m_RenderFallbackBuffer := fb, m_RenderFallbackPhase := ph\<rparr>)"
      "length bytes \<le> unat VIOSND_DEFAULT_PERIOD_BYTES"
      "\<not> m_RenderFallbackActive s \<Longrightarrow> fb = m_RenderFallbackBuffer s \<and> ph = m_RenderFallbackPhase s \<and>
         read_bytes (unat (packet_offset s pn)) (unat (m_PacketSize s)) buf = Some bytes \<and> src = m_PacketSize s \<and> n = 1"
proof -
  note i = stream_invD [OF assms(1)]
  note pk = packet_inside(1) [OF i(6) assms(2)]
  show thesis
  proof (cases "m_RenderFallbackActive s")
    case False
    obtain bytes where b: "read_bytes (unat (packet_offset s pn)) (unat (m_PacketSize s)) buf = Some bytes"
      using pk [of pn] by (simp add: read_bytes_def)
    have "length bytes \<le> unat VIOSND_DEFAULT_PERIOD_BYTES"
      using read_bytes_length [OF b] i(6) by (simp add: geom_ok_def)
    then show thesis using False b assms(1)
      by (intro data [where bytes = bytes and src = "m_PacketSize s" and n = 1 and fb = "m_RenderFallbackBuffer s" and ph = "m_RenderFallbackPhase s"])
        (simp_all add: render_payload_def)
  next
    case active: True
    show thesis
    proof (cases "m_RenderFallbackBuffer s")
      case None
      have same: "s\<lparr>m_RenderFallbackBuffer := None\<rparr> = s" unfolding None [symmetric] by simp
      show thesis
        by (rule early [where status = STATUS_DEVICE_NOT_READY and fb = None, unfolded same])
          (use active None assms(1) in \<open>simp_all add: render_payload_def\<close>)
    next
      case (Some pf)
      then obtain p fb where pf: "m_RenderFallbackBuffer s = Some (p, fb)" by (cases pf) simp
      have same: "s\<lparr>m_RenderFallbackBuffer := Some (p, fb)\<rparr> = s" unfolding pf [symmetric] by simp
      show thesis
      proof (cases "m_RenderFallbackBufferSize s < VIOSND_FALLBACK_PERIOD_BYTES")
        case True
        then show thesis using active pf assms(1) same
          by (intro early [where status = STATUS_DEVICE_NOT_READY and fb = "Some (p, fb)", unfolded same])
            (simp_all add: render_payload_def)
      next
        case False
        have "VIOSND_FALLBACK_PERIOD_BYTES \<le> m_RenderFallbackBufferSize s" using False by simp
        from iffD1 [OF word_le_nat_alt this]
        have ln: "unat VIOSND_FALLBACK_PERIOD_BYTES \<le> length fb" "m_RenderFallbackPhase s < VIOSND_DEFAULT_SAMPLE_RATE"
          using i(7) pf by (simp_all add: fb_ok_def)
        have z: "(0 :: u32) \<le> VIOSND_FALLBACK_PERIOD_BYTES" by simp
        obtain fb' sl src n ph where r: "fallback_loop s buf pn 3 0 fb 0 0 0 (m_RenderFallbackPhase s) = Some (fb', sl, src, n, ph)"
          "length fb' = length fb" "sl \<le> VIOSND_FALLBACK_PERIOD_BYTES" "ph < VIOSND_DEFAULT_SAMPLE_RATE"
          using fallback_loop_ok [OF i(6) assms(2) refl ln(2) z ln(1)] by blast
        let ?s = "s\<lparr>m_RenderFallbackBuffer := Some (p, fb')\<rparr>"
        have st: "stream_inv qinv inflight P (s\<lparr>m_RenderFallbackBuffer := Some (p, fb'), m_RenderFallbackPhase := x\<rparr>)"
          if "x < VIOSND_DEFAULT_SAMPLE_RATE" for x
          using i pf r(2) that unfolding stream_inv_def geom_ok_def fb_ok_def fb_blocks_def
          by (simp cong: option.case_cong)
        have st': "stream_inv qinv inflight P ?s" using st [OF ln(2)] by (rule stream_inv_cong) (use ln(2) in simp_all)
        show thesis
        proof (cases "sl = 0")
          case True
          then show thesis using active pf r(1) False st'
            by (intro early [of STATUS_INVALID_BUFFER_SIZE "Some (p, fb')"]) (simp_all add: render_payload_def)
        next
          case sl0: False
          have "unat sl \<le> 2048" using r(3) by (simp add: word_le_nat_alt)
          then have "unat sl \<le> length fb'" "unat sl \<le> 2048" using r(2) ln(1) by simp_all
          then obtain bytes where b: "read_bytes 0 (unat sl) fb' = Some bytes" "length bytes \<le> 2048"
            by (simp add: read_bytes_def)
          show thesis using active pf r(1) False sl0 b st [OF r(4)]
            by (intro data [where bytes = bytes and src = src and n = n and fb = "Some (p, fb')" and ph = ph]) (simp_all add: render_payload_def)
        qed
      qed
    qed
  qed
qed

section \<open>Submitting\<close>

lemma io_failures: "status = STATUS_DEVICE_NOT_READY \<or> status = STATUS_INVALID_PARAMETER \<or> status = STATUS_IO_TIMEOUT \<or>
   status = STATUS_DEVICE_BUSY \<Longrightarrow> \<not> NT_SUCCESS status"
  by (auto simp: NT_SUCCESS_def)

context virtio_snd
begin

lemma submit_popped:
  assumes "stream_inv inv inflight P s" "m_RenderIoFreeCount s \<noteq> 0" "length bytes \<le> unat VIOSND_DEFAULT_PERIOD_BYTES"
  obtains (failed) io s1 status dev' s2 where "pop_render_io s = Some (io, s1)"
      "ViosndSubmitPreparedWritePcm K (m_StreamId s) bytes srcLen pn io (m_Device s1) = Some (status, dev')"
      "\<not> NT_SUCCESS status" "push_render_io io (s1\<lparr>m_Device := dev'\<rparr>) = Some s2" "stream_inv inv inflight P s2"
      "repooled s s2" "flight inflight (m_Device s2) = flight inflight (m_Device s)"
      "pend pending (m_Device s2) = pend pending (m_Device s)"
  | (sent) io s1 x dev' where "pop_render_io s = Some (io, s1)" "m_StreamId s1 = m_StreamId s"
      "ViosndSubmitPreparedWritePcm K (m_StreamId s) bytes srcLen pn io (m_Device s1) = Some (STATUS_SUCCESS, dev')"
      "stream_inv inv inflight P (s1\<lparr>m_Device := dev'\<rparr>)" "repooled s (s1\<lparr>m_Device := dev'\<rparr>)"
      "flight inflight dev' = (flight inflight (m_Device s))(VIRTIO_SND_VQ_TX :=
         add_mset (OIo io) (flight inflight (m_Device s) VIRTIO_SND_VQ_TX))"
      "pend pending dev' = pend pending (m_Device s)"
      "ios (m_Device s) io = Some x" "dma_read dev' (RequestVa x) 0 4 = Some (le_bytes32 (m_StreamId s))"
      "dma_read dev' (RequestVa x) sizeof_PCM_XFER (length bytes) = Some bytes"
proof -
  obtain io ps s1 where p: "pop_render_io s = Some (io, s1)"
    "s1 = s\<lparr>m_RenderIoFreeCount := m_RenderIoFreeCount s - 1, m_RenderIoPool := ps\<rparr>"
    "stream_inv inv inflight P s1" "free_io inflight True (m_Device s) io" "io \<notin> pooled s1"
    by (rule pop_render_ok [OF assms(1,2)]) (rule that; assumption)
  have d1: "m_Device s1 = m_Device s" "m_StreamId s1 = m_StreamId s" using p(2) by simp_all
  have r1: "repooled s s1" unfolding p(2) by (rule repooledI) simp_all
  have nz: "unat (m_RenderIoFreeCount s) \<le> VIOSND_RENDER_IO_POOL_SIZE" "0 < unat (m_RenderIoFreeCount s)"
    "unat (m_RenderIoFreeCount s1) = unat (m_RenderIoFreeCount s) - 1"
    using stream_invD(4) [OF assms(1)] unat_pred [OF assms(2)] p(2) by (simp_all add: pool_inv_def)
  obtain x where x: "ios (m_Device s1) io = Some x" "AudioVa x = 0" "\<And>i. OIo io \<notin># flight inflight (m_Device s1) i"
    using p(4) d1 by (auto simp: free_io_def)
  note i1 = stream_invD [OF p(3)]
  have len: "length bytes < 2 ^ 32" using assms(3) by simp
  show thesis
  proof (rule SubmitPreparedWritePcm_ok [OF i1(1) x len, of "m_StreamId s" srcLen pn], goal_cases)
    case (1 status y dev')
    let ?s = "s1\<lparr>m_Device := dev'\<rparr>"
    have st: "stream_inv inv inflight P ?s"
      by (rule stream_io(1) [OF p(3) 1(3,6) _ p(5)]) (use 1(4,7) in simp_all)
    have f: "free_io inflight True (m_Device ?s) io" using 1(4,5,7) x by (simp add: free_io_def same_bufs_def)
    have lt: "unat (m_RenderIoFreeCount ?s) < VIOSND_RENDER_IO_POOL_SIZE" using nz by simp
    have np: "io \<notin> pooled ?s" using p(5) by simp
    obtain qs s2 where s2: "push_render_io io ?s = Some s2"
      "s2 = ?s\<lparr>m_RenderIoPool := qs, m_RenderIoFreeCount := m_RenderIoFreeCount ?s + 1\<rparr>" "stream_inv inv inflight P s2"
      by (rule push_render_ok [OF st lt f np]) (rule that; assumption)
    have "repooled s1 s2" unfolding s2(2) by (rule repooledI) (use 1(6) in \<open>simp_all add: io_frame_def\<close>)
    then have r: "repooled s s2" by (rule repooled_trans [OF r1])
    show thesis
      by (rule failed [OF p(1) 1(1) io_failures s2(1,3) r]) (use 1(2,7,8) s2(2) d1 in auto)
  next
    case (2 y dev')
    let ?s = "s1\<lparr>m_Device := dev'\<rparr>"
    have st: "stream_inv inv inflight P ?s"
      by (rule stream_io(1) [OF p(3) 2(2,5) _ p(5)]) (use 2(3,10) in \<open>auto split: if_splits\<close>)
    have "repooled s1 ?s" by (rule repooled_upd) (use 2(5) in \<open>simp add: io_frame_def\<close>)
    then have r: "repooled s ?s" by (rule repooled_trans [OF r1])
    show thesis
      by (rule sent [OF p(1) d1(2) 2(1) st r, of x]) (use 2(10-13) d1 x(1) in simp_all)
  qed
qed

text \<open>A member that no invariant mentions.\<close>

lemma stream_inv_counters:
  "stream_inv inv inflight P s \<Longrightarrow> stream_inv inv inflight P (s\<lparr>m_NextSubmitPacket := a, m_OutstandingWrites := b\<rparr>)"
  by (rule stream_inv_cong) (simp_all add: stream_phase)

lemma SubmitRenderSilencePacket_ok:
  assumes "stream_inv inv inflight P s"
  obtains (failed) status s' where "SubmitRenderSilencePacket K pn s = Some (status, s')" "\<not> NT_SUCCESS status"
      "stream_inv inv inflight P s'" "repooled s s'" "flight inflight (m_Device s') = flight inflight (m_Device s)"
      "pend pending (m_Device s') = pend pending (m_Device s)"
  | (sent) s' s0 io where "SubmitRenderSilencePacket K pn s = Some (STATUS_SUCCESS, s')" "stream_inv inv inflight P s'"
      "repooled s s0" "s' = s0\<lparr>m_NextSubmitPacket := if pn \<noteq> MAXULONG then pn + 1 else m_NextSubmitPacket s,
         m_OutstandingWrites := m_OutstandingWrites s + 1\<rparr>" "\<not> m_Capture s" "m_PacketSize s \<noteq> 0"
      "flight inflight (m_Device s') = (flight inflight (m_Device s))(VIRTIO_SND_VQ_TX :=
         add_mset (OIo io) (flight inflight (m_Device s) VIRTIO_SND_VQ_TX))"
      "pend pending (m_Device s') = pend pending (m_Device s)"
proof -
  let ?n = "if m_RenderFallbackActive s then VIOSND_FALLBACK_PERIOD_BYTES else m_PacketSize s"
  have n: "unat ?n \<le> unat VIOSND_DEFAULT_PERIOD_BYTES" using stream_invD(6) [OF assms] by (simp add: geom_ok_def)
  then have nle: "\<not> VIOSND_DEFAULT_PERIOD_BYTES < ?n" by (simp add: word_less_nat_alt)
  show thesis
  proof (cases "m_Capture s \<or> m_Buffer s = None \<or> m_PacketSize s = 0 \<or> m_RenderIoFreeCount s = 0")
    case True
    then obtain status where "SubmitRenderSilencePacket K pn s = Some (status, s)" "\<not> NT_SUCCESS status"
      by (cases "m_Capture s \<or> m_Buffer s = None \<or> m_PacketSize s = 0") (auto simp: SubmitRenderSilencePacket_def)
    then show thesis using failed assms by simp
  next
    case False
    then have c: "\<not> (m_Capture s \<or> m_Buffer s = None \<or> m_PacketSize s = 0)" "m_RenderIoFreeCount s \<noteq> 0" by simp_all
    have len: "length (replicate (unat ?n) (0 :: u8)) \<le> unat VIOSND_DEFAULT_PERIOD_BYTES" using n by simp
    note e = SubmitRenderSilencePacket_def [where K = K and packetNumber = pn and s = s, unfolded Let_def if_not_P [OF c(1)]
        if_not_P [OF c(2)] if_not_P [OF nle]]
    show thesis using assms c(2) len
    proof (cases rule: submit_popped [where srcLen = ?n and pn = pn])
      case (failed io s1 status dev' s2)
      have m: "m_StreamId s1 = m_StreamId s"
        using failed(1) by (auto simp: pop_render_io_def Let_def bind_eq_Some_conv)
      have "SubmitRenderSilencePacket K pn s = Some (status, s2)"
        unfolding e using failed(1-4) m by simp
      then show thesis using that(1) failed by blast
    next
      case (sent io s1 x dev')
      let ?s = "s1\<lparr>m_Device := dev'\<rparr>"
      let ?t = "?s\<lparr>m_NextSubmitPacket := if pn \<noteq> MAXULONG then pn + 1 else m_NextSubmitPacket s,
         m_OutstandingWrites := m_OutstandingWrites s + 1\<rparr>"
      note mm = repooled_members [OF sent(5)]
      have "SubmitRenderSilencePacket K pn s = Some (STATUS_SUCCESS, ?t)"
        unfolding e using sent(1-3) mm(3,11) by simp
      then show thesis
        by (rule that(2) [OF _ stream_inv_counters [OF sent(4)] sent(5) refl, of io]) (use c sent(6,7) in simp_all)
    qed
  qed
qed

end

lemma zero_tail:
  assumes "off + n \<le> length buf" "k \<le> n" "zero_bytes (off + k) (n - k) buf = Some buf'"
  shows "read_bytes off n buf' = Some (take k (drop off buf) @ replicate (n - k) 0)" "length buf' = length buf"
proof -
  show "length buf' = length buf" by (rule zero_bytes_length [OF assms(3)])
  have b: "buf' = take (off + k) buf @ replicate (n - k) 0 @ drop (off + n) buf"
    using assms by (auto simp: zero_bytes_def write_bytes_def split: if_splits)
  have "drop off buf' = take k (drop off buf) @ replicate (n - k) 0 @ drop (off + n) buf"
    using assms(1,2) unfolding b by (simp add: drop_take)
  moreover have "length (take k (drop off buf)) = k" using assms(1,2) by simp
  ultimately show "read_bytes off n buf' = Some (take k (drop off buf) @ replicate (n - k) 0)"
    using assms(1,2) by (simp add: read_bytes_def b)
qed

text \<open>The audio of a packet of which the first \<open>n\<close> bytes count.\<close>

definition packet_audio :: "('q, 'e) wave_stream \<Rightarrow> u8 list \<Rightarrow> u32 \<Rightarrow> u32 \<Rightarrow> u8 list" where
  "packet_audio s buf pn n = (let k = min (unat n) (unat (m_PacketSize s)) in
     take k (drop (unat (packet_offset s pn)) buf) @ replicate (unat (m_PacketSize s) - k) 0)"

lemma unat_min: "unat (min a b :: 'a::len word) = min (unat a) (unat b)"
  by (simp add: min_def word_le_nat_alt)

lemma cut_packet:
  assumes "geom_ok s" "m_Buffer s = Some buf"
  obtains buf' where "(if n < m_PacketSize s
      then zero_bytes (unat (packet_offset s pn + min n (m_PacketSize s))) (unat (m_PacketSize s - min n (m_PacketSize s))) buf
      else Some buf) = Some buf'" "length buf' = length buf"
    "read_bytes (unat (packet_offset s pn)) (unat (m_PacketSize s)) buf' = Some (packet_audio s buf pn n)"
proof (cases "n < m_PacketSize s")
  case False
  then have m: "min (unat n) (unat (m_PacketSize s)) = unat (m_PacketSize s)"
    by (simp add: word_less_nat_alt min_def)
  show thesis
    using False packet_inside(1) [OF assms, of pn] by (intro that [of buf]) (simp_all add: read_bytes_def packet_audio_def m)
next
  case True
  let ?p = "m_PacketSize s" and ?o = "unat (packet_offset s pn)"
  have le: "n \<le> ?p" using True by simp
  then have m: "min n ?p = n" by (simp add: min_def)
  have o: "unat (packet_offset s pn + n) = ?o + unat n" "?o + unat ?p \<le> length buf"
    using packet_inside(1) [OF assms, of pn] packet_inside(2) [OF assms le, of pn] by simp_all
  have s: "unat (?p - n) = unat ?p - unat n" by (rule unat_sub_ge [OF le])
  have k: "unat n \<le> unat ?p" using le by (simp add: word_le_nat_alt)
  have "?o + unat n + (unat ?p - unat n) \<le> length buf" using o(2) k by simp
  then obtain buf' where b: "zero_bytes (?o + unat n) (unat ?p - unat n) buf = Some buf'"
    by (simp add: zero_bytes_def write_bytes_def)
  have "min (unat n) (unat ?p) = unat n" using k by simp
  then show thesis
    using b zero_tail [OF o(2) k b] True by (intro that [of buf']) (simp_all add: m o(1) s packet_audio_def Let_def)
qed

context virtio_snd
begin

lemma SubmitRenderPacket_ok:
  assumes "stream_inv inv inflight P s"
  obtains (failed) status s' where "SubmitRenderPacket K pn n s = Some (status, s')" "\<not> NT_SUCCESS status"
      "stream_inv inv inflight P s'" "stream_frame s s'" "flight inflight (m_Device s') = flight inflight (m_Device s)"
      "pend pending (m_Device s') = pend pending (m_Device s)" "m_OutstandingWrites s' = m_OutstandingWrites s"
      "m_NextSubmitPacket s' = m_NextSubmitPacket s" "m_Position s' = m_Position s"
  | (sent) s' io x buf where "SubmitRenderPacket K pn n s = Some (STATUS_SUCCESS, s')" "stream_inv inv inflight P s'"
      "stream_frame s s'" "\<not> m_Capture s" "m_PacketSize s \<noteq> 0" "m_Buffer s = Some buf"
      "flight inflight (m_Device s') = (flight inflight (m_Device s))(VIRTIO_SND_VQ_TX :=
         add_mset (OIo io) (flight inflight (m_Device s) VIRTIO_SND_VQ_TX))"
      "pend pending (m_Device s') = pend pending (m_Device s)"
      "m_OutstandingWrites s' = m_OutstandingWrites s + 1" "m_Position s' = m_Position s"
      "ios (m_Device s) io = Some x"
      "dma_read (m_Device s') (RequestVa x) 0 4 = Some (le_bytes32 (m_StreamId s))"
      "\<not> m_RenderFallbackActive s \<Longrightarrow> m_NextSubmitPacket s' = pn + 1 \<and>
         dma_read (m_Device s') (RequestVa x) sizeof_PCM_XFER (unat (m_PacketSize s)) = Some (packet_audio s buf pn n)"
proof -
  note i = stream_invD [OF assms] and fin = that
  show thesis
  proof (cases "m_Buffer s = None \<or> m_Capture s \<or> m_PacketSize s = 0 \<or> m_RenderIoFreeCount s = 0")
    case True
    have "SubmitRenderPacket K pn n s =
        Some (if m_Buffer s = None \<or> m_Capture s \<or> m_PacketSize s = 0 then STATUS_INVALID_DEVICE_REQUEST else STATUS_DEVICE_BUSY, s)"
      using True by (cases "m_Buffer s") (auto simp: SubmitRenderPacket_def)
    then show thesis using fin(1) assms by (simp split: if_splits)
  next
    case False
    then obtain buf where g: "m_Buffer s = Some buf" and c: "\<not> (m_Capture s \<or> m_PacketSize s = 0)" "m_RenderIoFreeCount s \<noteq> 0"
      by auto
    obtain buf' where b: "(if n < m_PacketSize s
        then zero_bytes (unat (packet_offset s pn + min n (m_PacketSize s))) (unat (m_PacketSize s - min n (m_PacketSize s))) buf
        else Some buf) = Some buf'" "length buf' = length buf"
      "read_bytes (unat (packet_offset s pn)) (unat (m_PacketSize s)) buf' = Some (packet_audio s buf pn n)"
      by (rule cut_packet [OF i(6) g]) (rule that; assumption)
    let ?s0 = "s\<lparr>m_Buffer := Some buf'\<rparr>"
    have st0: "stream_inv inv inflight P ?s0"
      using i b(2) g unfolding stream_inv_def geom_ok_def fb_ok_def fb_blocks_def by (simp cong: option.case_cong)
    have o0: "packet_offset ?s0 pn = packet_offset s pn" by (simp add: packet_offset_def)
    note e = SubmitRenderPacket_def [where K = K and packetNumber = pn and packetLength = n and s = s,
        unfolded g option.case Let_def if_not_P [OF c(1)] if_not_P [OF c(2)] b(1) bind.bind_lunit]
    have b0: "m_Buffer ?s0 = Some buf'" by simp
    have f0: "stream_frame s (?s0\<lparr>m_RenderFallbackBuffer := fb, m_RenderFallbackPhase := ph\<rparr>)" for fb ph
      using g by (simp add: stream_frame_def)
    show thesis using st0 b0
    proof (cases rule: render_payload_ok [where pn = pn])
      case (early status fb)
      let ?s1 = "?s0\<lparr>m_RenderFallbackBuffer := fb\<rparr>"
      have "SubmitRenderPacket K pn n s = Some (status, ?s1)" unfolding e using early(1) by simp
      moreover have "stream_frame s ?s1" using g by (simp add: stream_frame_def)
      ultimately show thesis by (intro fin(1) [of status ?s1]) (use early(2,3) in simp_all)
    next
      case (data bytes src k fb ph)
      let ?s1 = "?s0\<lparr>m_RenderFallbackBuffer := fb, m_RenderFallbackPhase := ph\<rparr>"
      have c1: "m_RenderIoFreeCount ?s1 \<noteq> 0" using c(2) by simp
      show thesis using data(2) c1 data(3)
      proof (cases rule: submit_popped [where srcLen = src and pn = pn])
        case (failed io s2 status dev' s3)
        have m: "m_StreamId s2 = m_StreamId ?s1"
          using failed(1) by (auto simp: pop_render_io_def Let_def bind_eq_Some_conv)
        note mm = repooled_members [OF failed(6)]
        have A: "SubmitRenderPacket K pn n s = Some (status, s3)"
          unfolding e using data(1) failed(1-4) m by simp
        have fr: "stream_frame s s3" by (rule stream_frame_trans [OF f0 mm(1)])
        show thesis by (rule fin(1) [OF A failed(3,5) fr]) (use failed(7,8) mm in simp_all)
      next
        case (sent io s2 x dev')
        let ?s = "s2\<lparr>m_Device := dev'\<rparr>"
        let ?t = "?s\<lparr>m_NextSubmitPacket := pn + k, m_OutstandingWrites := m_OutstandingWrites s + 1\<rparr>"
        note mm = repooled_members [OF sent(5)]
        have A: "SubmitRenderPacket K pn n s = Some (STATUS_SUCCESS, ?t)"
          unfolding e using data(1) sent(1-3) mm(3) by simp
        have "stream_frame ?s ?t" by (simp add: stream_frame_def)
        then have fr: "stream_frame s ?t" using stream_frame_trans [OF f0 stream_frame_trans [OF mm(1)]] by blast
        have au: "m_NextSubmitPacket ?t = pn + 1 \<and>
            dma_read (m_Device ?t) (RequestVa x) sizeof_PCM_XFER (unat (m_PacketSize s)) = Some (packet_audio s buf pn n)"
          if "\<not> m_RenderFallbackActive s"
        proof -
          have d: "read_bytes (unat (packet_offset s pn)) (unat (m_PacketSize s)) buf' = Some bytes" "k = 1"
            using data(4) that o0 by simp_all
          then have "bytes = packet_audio s buf pn n" "length bytes = unat (m_PacketSize s)"
            using b(3) read_bytes_length [OF d(1)] by simp_all
          then show ?thesis using sent(10) d(2) by simp
        qed
        show thesis
          by (rule fin(2) [OF A stream_inv_counters [OF sent(4)] fr _ _ g _ _ _ _ _ _ au])
            (use c sent(6-9) mm(9) in simp_all)
      qed
    qed
  qed
qed

end

section \<open>Completing\<close>

text \<open>The TX mutex is always obtained within the time the driver waits for it.\<close>

definition tx_granted :: "('q, 'e) kernel \<Rightarrow> bool" where
  "tx_granted K \<longleftrightarrow> (\<forall>e. fst (tx_mutex_granted K e))"

text \<open>What collecting completions changes.\<close>

definition reclaimed :: "('q, 'e) wave_stream \<Rightarrow> ('q, 'e) wave_stream \<Rightarrow> bool" where
  "reclaimed s s' \<longleftrightarrow> (\<exists>t w p k n. repooled s t \<and>
     s' = t\<lparr>m_OutstandingWrites := w, m_Position := p, m_PacketNumber := k, m_Notified := n\<rparr>)"

lemma reclaimedI:
  assumes "repooled s t" "s' = t\<lparr>m_OutstandingWrites := m_OutstandingWrites s', m_Position := m_Position s',
    m_PacketNumber := m_PacketNumber s', m_Notified := m_Notified s'\<rparr>"
  shows "reclaimed s s'"
  using assms unfolding reclaimed_def by blast

lemma repooled_reclaimed: "repooled s t \<Longrightarrow> reclaimed s t"
  by (rule reclaimedI, assumption) (cases t, simp)

lemma reclaimed_refl [simp]: "reclaimed s s"
  by (rule repooled_reclaimed) simp

lemma reclaimed_repooled:
  assumes "reclaimed s t" "repooled t u" shows "reclaimed s u"
proof -
  obtain t0 w p k n where t: "repooled s t0"
    "t = t0\<lparr>m_OutstandingWrites := w, m_Position := p, m_PacketNumber := k, m_Notified := n\<rparr>"
    using assms(1) unfolding reclaimed_def by blast
  obtain d ps f cs g fb fz where u: "u = t\<lparr>m_Device := d, m_RenderIoPool := ps, m_RenderIoFreeCount := f,
     m_CaptureIoPool := cs, m_CaptureIoFreeCount := g, m_RenderFallbackBuffer := fb,
     m_RenderFallbackBufferSize := fz\<rparr>" "mutex_count d = mutex_count (m_Device t)"
    using assms(2) unfolding repooled_def by blast
  let ?v = "t0\<lparr>m_Device := d, m_RenderIoPool := ps, m_RenderIoFreeCount := f,
     m_CaptureIoPool := cs, m_CaptureIoFreeCount := g, m_RenderFallbackBuffer := fb, m_RenderFallbackBufferSize := fz\<rparr>"
  have "repooled t0 ?v" by (rule repooledI) (use u(2) t(2) in simp_all)
  then have "repooled s ?v" by (rule repooled_trans [OF t(1)])
  then show ?thesis by (rule reclaimedI) (simp add: u(1) t(2))
qed

lemma reclaimed_trans: "reclaimed a b \<Longrightarrow> reclaimed b c \<Longrightarrow> reclaimed a c"
proof -
  assume ab: "reclaimed a b" and "reclaimed b c"
  then obtain t w p k n where t: "repooled b t"
    "c = t\<lparr>m_OutstandingWrites := w, m_Position := p, m_PacketNumber := k, m_Notified := n\<rparr>"
    unfolding reclaimed_def by blast
  obtain t0 w' p' k' n' where u: "repooled a t0"
    "t = t0\<lparr>m_OutstandingWrites := w', m_Position := p', m_PacketNumber := k', m_Notified := n'\<rparr>"
    using reclaimed_repooled [OF ab t(1)] unfolding reclaimed_def by blast
  show "reclaimed a c" by (rule reclaimedI [OF u(1)]) (simp add: t(2) u(2))
qed

lemma reclaimed_members:
  assumes "reclaimed s s'"
  shows "stream_frame s s'" "m_NextSubmitPacket s' = m_NextSubmitPacket s" "m_CaptureInFlight s' = m_CaptureInFlight s"
    "m_RenderFallbackActive s' = m_RenderFallbackActive s" "m_RenderFallbackPhase s' = m_RenderFallbackPhase s"
    "m_Capture s' = m_Capture s"
  using assms by (auto simp: reclaimed_def repooled_def stream_frame_def)

context virtio_snd
begin

lemma return_render_io_ok:
  assumes "stream_inv inv inflight P s" "free_io inflight True (m_Device s) io" "io \<notin> pooled s"
  obtains s' where "return_render_io io s = Some s'" "stream_inv inv inflight P s'" "repooled s s'"
    "flight inflight (m_Device s') = flight inflight (m_Device s)" "Queues (m_Device s') = Queues (m_Device s)"
proof -
  have io0: "io \<noteq> 0" using free_io_block(2) [OF stream_invD(1) [OF assms(1)] assms(2)] .
  show thesis
  proof (cases "m_RenderIoFreeCount s < word_of_nat VIOSND_RENDER_IO_POOL_SIZE")
    case True
    then have "unat (m_RenderIoFreeCount s) < VIOSND_RENDER_IO_POOL_SIZE" by (simp add: word_less_nat_alt)
    then obtain ps s' where p: "push_render_io io s = Some s'"
      "s' = s\<lparr>m_RenderIoPool := ps, m_RenderIoFreeCount := m_RenderIoFreeCount s + 1\<rparr>" "stream_inv inv inflight P s'"
      using push_render_ok [OF assms(1) _ assms(2,3)] by metis
    have "repooled s s'" unfolding p(2) by (rule repooledI) simp_all
    moreover have "return_render_io io s = Some s'" using True io0 p(1) by (simp add: return_render_io_def)
    ultimately show thesis using that p(2,3) by simp
  next
    case False
    obtain d where d: "ViosndFreeWritePcmIo (m_Device s) io = Some d" "stream_inv inv inflight P (s\<lparr>m_Device := d\<rparr>)"
      "stream_frame s (s\<lparr>m_Device := d\<rparr>)" "flight inflight d = flight inflight (m_Device s)" "Queues d = Queues (m_Device s)"
      by (rule free_stream_io [OF assms, unfolded if_True if_False]) (rule that; assumption)
    have "repooled s (s\<lparr>m_Device := d\<rparr>)" by (rule repooled_upd) (use d(3) in \<open>simp add: stream_frame_def\<close>)
    moreover have "return_render_io io s = Some (s\<lparr>m_Device := d\<rparr>)" using False d(1) by (simp add: return_render_io_def)
    ultimately show thesis using that [of "s\<lparr>m_Device := d\<rparr>"] d by simp
  qed
qed

lemma in_flight_not_pooled:
  "stream_inv inv inflight P s \<Longrightarrow> OIo p \<in># flight inflight (m_Device s) i \<Longrightarrow> p \<notin> pooled s"
  using pooled_free by (fastforce simp: free_io_def)

text \<open>One completed packet: the members it changes.\<close>

lemma render_completed_ok:
  assumes "stream_inv inv inflight P s" "ios (m_Device s) io = Some x" "io \<noteq> 0"
  obtains n' s' where "render_completed io bytes (n, s) = Some (n', s')" "stream_inv inv inflight P s'"
    "reclaimed s s'" "m_Device s' = m_Device s" "m_OutstandingWrites s' = m_OutstandingWrites s" "pooled s' = pooled s"
proof (cases "PacketNumber x = MAXULONG")
  case True
  then have "render_completed io bytes (n, s) = Some (n, s)"
    using assms(2,3) by (simp add: render_completed_def ViosndGetPcmIoPacketNumber_def)
  then show thesis using that [of n s] assms(1) repooled_reclaimed by simp
next
  case False
  let ?b = "if m_RenderFallbackActive s then SourceLength x else bytes"
  let ?c = "if ?b = 0 then bytes else ?b"
  let ?s = "notify_client (s\<lparr>m_Position := m_Position s + ucast ?c, m_PacketNumber := m_PacketNumber s + 1\<rparr>)"
  have "render_completed io bytes (n, s) = Some (n + 1, ?s)"
    using False assms(2,3)
    by (simp add: render_completed_def ViosndGetPcmIoPacketNumber_def ViosndGetPcmIoSourceLength_def Let_def)
  moreover have "stream_inv inv inflight P ?s"
    by (rule stream_inv_cong [OF assms(1)]) (simp_all add: notify_client_def stream_phase [OF assms(1)])
  moreover have "reclaimed s ?s" by (rule reclaimedI [OF repooled_refl]) (simp add: notify_client_def)
  ultimately show thesis by (intro that [of "n + 1" ?s]) (simp_all add: notify_client_def pooled_def)
qed

lemma ReclaimRenderPackets_ok:
  assumes "stream_inv inv inflight P s"
  shows "\<exists>n' s'. ReclaimRenderPackets K n s = Some (n', s') \<and> stream_inv inv inflight P s' \<and> reclaimed s s' \<and>
    (tx_granted K \<longrightarrow> pend pending (m_Device s') VIRTIO_SND_VQ_TX = []) \<and>
    (\<forall>j. j \<noteq> VIRTIO_SND_VQ_TX \<longrightarrow> flight inflight (m_Device s') j = flight inflight (m_Device s) j) \<and>
    (size (flight inflight (m_Device s) VIRTIO_SND_VQ_TX) \<le> unat (m_OutstandingWrites s) \<longrightarrow>
       unat (m_OutstandingWrites s') + size (flight inflight (m_Device s) VIRTIO_SND_VQ_TX) =
       unat (m_OutstandingWrites s) + size (flight inflight (m_Device s') VIRTIO_SND_VQ_TX)) \<and>
    m_OutstandingWrites s' \<le> m_OutstandingWrites s"
  using assms
proof (induction "size (flight inflight (m_Device s) VIRTIO_SND_VQ_TX)" arbitrary: n s rule: less_induct)
  case less
  let ?T = VIRTIO_SND_VQ_TX
  note i = stream_invD [OF less.prems]
  show ?case using i(1)
  proof (cases rule: ReclaimPreparedWritePcm_ok)
    case (none status dev')
    let ?s = "s\<lparr>m_Device := dev'\<rparr>"
    have e: "ReclaimRenderPackets K n s = Some (n, ?s)"
      using none(1) by (subst ReclaimRenderPackets.simps) simp
    have fl: "flight inflight dev' = flight inflight (m_Device s)" by (rule flight_cong [OF none(6)])
    have c: "ctl_rest inflight dev'" using i(3) none(4) fl by (simp add: ctl_rest_def io_frame_def)
    have st: "stream_inv inv inflight P ?s"
      by (rule stream_inv_dev [OF less.prems none(3) c]) (use fl none(5) in \<open>simp add: free_io_def\<close>)
    have r: "reclaimed s ?s" using none(4) by (intro repooled_reclaimed repooled_upd) (simp add: io_frame_def)
    have "pend pending dev' ?T = []" if "tx_granted K"
      using none(2,7-9) that pend_cong [OF none(6), of pending] by (auto simp: tx_granted_def pend_def)
    then show ?thesis using e st r fl by simp
  next
    case (completed p x len latency dev')
    let ?ow = "if m_OutstandingWrites s \<noteq> 0 then m_OutstandingWrites s - 1 else 0"
    let ?d = "s\<lparr>m_Device := dev'\<rparr>"
    let ?s = "?d\<lparr>m_OutstandingWrites := ?ow\<rparr>"
    have np: "p \<notin> pooled s"
      by (rule in_flight_not_pooled [OF less.prems, of _ ?T]) (simp add: completed(8))
    have sub: "q \<in># flight inflight dev' i \<Longrightarrow> q \<in># flight inflight (m_Device s) i" for q i
      using completed(8,9) by (cases "i = ?T") auto
    have sd: "stream_inv inv inflight P ?d" "stream_frame s ?d"
      by (rule stream_io [OF less.prems completed(2,3) _ np]; use completed(4,9) sub in simp)+
    have s1: "stream_inv inv inflight P ?s" by (rule stream_inv_cong [OF sd(1)]) (simp_all add: stream_phase [OF less.prems])
    have x1: "ios (m_Device ?s) p = Some x" using completed(4,5) by simp
    obtain n2 s2 where s2: "render_completed p (AudioLength x) (n, ?s) = Some (n2, s2)" "stream_inv inv inflight P s2"
      "reclaimed ?s s2" "m_Device s2 = m_Device ?s" "m_OutstandingWrites s2 = m_OutstandingWrites ?s" "pooled s2 = pooled ?s"
      by (rule render_completed_ok [OF s1 x1 completed(7)]) (rule that; assumption)
    have f2: "free_io inflight True (m_Device s2) p"
      using completed(4,5,6,10) s2(4) by (simp add: free_io_def)
    have "pooled ?s = pooled s" by (simp add: pooled_def)
    then have np2: "p \<notin> pooled s2" using np s2(6) by simp
    obtain s3 where s3: "return_render_io p s2 = Some s3" "stream_inv inv inflight P s3" "repooled s2 s3"
      "flight inflight (m_Device s3) = flight inflight (m_Device s2)" "Queues (m_Device s3) = Queues (m_Device s2)"
      by (rule return_render_io_ok [OF s2(2) f2 np2]) (rule that; assumption)
    have ow3: "m_OutstandingWrites s3 = ?ow" using repooled_members(3) [OF s3(3)] s2(5) by simp
    have fl3: "flight inflight (m_Device s3) = flight inflight dev'" using s3(4) s2(4) by simp
    have sz: "size (flight inflight (m_Device s) ?T) = Suc (size (flight inflight (m_Device s3) ?T))"
      using completed(8) fl3 by simp
    then have lt: "size (flight inflight (m_Device s3) ?T) < size (flight inflight (m_Device s) ?T)" by simp
    obtain n4 s4 where s4: "ReclaimRenderPackets K n2 s3 = Some (n4, s4)" "stream_inv inv inflight P s4" "reclaimed s3 s4"
      "tx_granted K \<longrightarrow> pend pending (m_Device s4) ?T = []"
      "\<forall>j. j \<noteq> ?T \<longrightarrow> flight inflight (m_Device s4) j = flight inflight (m_Device s3) j"
      "size (flight inflight (m_Device s3) ?T) \<le> unat (m_OutstandingWrites s3) \<longrightarrow>
       unat (m_OutstandingWrites s4) + size (flight inflight (m_Device s3) ?T) =
       unat (m_OutstandingWrites s3) + size (flight inflight (m_Device s4) ?T)"
      "m_OutstandingWrites s4 \<le> m_OutstandingWrites s3"
      using less.hyps [OF lt s3(2), of n2] by blast
    have e: "ReclaimRenderPackets K n s = Some (n4, s4)"
      using completed(1,7) s2(1) s3(1) s4(1)
      by (subst ReclaimRenderPackets.simps) (cases "m_OutstandingWrites s = 0"; simp add: Let_def)
    have "repooled s ?d" by (rule repooled_upd) (use sd(2) in \<open>simp add: stream_frame_def\<close>)
    then have "reclaimed s ?s" by (rule reclaimedI) simp
    then have r: "reclaimed s s4"
      using reclaimed_trans [OF _ s2(3)] reclaimed_repooled [OF _ s3(3)] reclaimed_trans [OF _ s4(3)] by blast
    have le: "?ow \<le> m_OutstandingWrites s"
      using unat_pred [of "m_OutstandingWrites s"] by (simp add: word_le_nat_alt)
    have "unat (m_OutstandingWrites s4) + size (flight inflight (m_Device s) ?T) =
        unat (m_OutstandingWrites s) + size (flight inflight (m_Device s4) ?T)"
      if h: "size (flight inflight (m_Device s) ?T) \<le> unat (m_OutstandingWrites s)"
    proof -
      have "m_OutstandingWrites s \<noteq> 0" using h sz by auto
      then have u: "unat (m_OutstandingWrites s3) = unat (m_OutstandingWrites s) - 1" "0 < unat (m_OutstandingWrites s)"
        using unat_pred [of "m_OutstandingWrites s"] ow3 by simp_all
      then have "size (flight inflight (m_Device s3) ?T) \<le> unat (m_OutstandingWrites s3)" using h sz by simp
      then show ?thesis using s4(6) u sz by simp
    qed
    then show ?thesis using e s4(2,4,5,7) r completed(9) fl3 ow3 le order_trans by fastforce
  qed
qed

lemma cancel_writes_ok:
  assumes "stream_inv inv inflight P s" "pend pending (m_Device s) VIRTIO_SND_VQ_TX = []" "tx_granted K"
  shows "\<exists>s'. cancel_writes K s = Some s' \<and> stream_inv inv inflight P s' \<and> reclaimed s s' \<and>
    pend pending (m_Device s') VIRTIO_SND_VQ_TX = [] \<and>
    (\<forall>j. j \<noteq> VIRTIO_SND_VQ_TX \<longrightarrow> flight inflight (m_Device s') j = flight inflight (m_Device s) j) \<and>
    (unat (m_OutstandingWrites s) = size (flight inflight (m_Device s) VIRTIO_SND_VQ_TX) \<longrightarrow>
       m_OutstandingWrites s' = 0 \<and> flight inflight (m_Device s') VIRTIO_SND_VQ_TX = {#})"
  using assms(1,2)
proof (induction "unat (m_OutstandingWrites s)" arbitrary: s rule: less_induct)
  case less
  let ?T = VIRTIO_SND_VQ_TX
  note i = stream_invD [OF less.prems(1)]
  show ?case
  proof (cases "m_OutstandingWrites s = 0")
    case True
    then have "cancel_writes K s = Some s" by (subst cancel_writes.simps) simp
    then show ?thesis using less.prems True repooled_reclaimed by simp
  next
    case nz: False
    show ?thesis using i(1) less.prems(2)
    proof (cases rule: DetachUnusedWritePcm_ok)
      case (none status dev')
      let ?s = "s\<lparr>m_Device := dev'\<rparr>"
      have "\<not> NT_SUCCESS status" using none(2) by (auto simp: NT_SUCCESS_def)
      then have e: "cancel_writes K s = Some ?s"
        using none(1) nz by (subst cancel_writes.simps) simp
      have fl: "flight inflight dev' = flight inflight (m_Device s)" by (rule flight_cong [OF none(6)])
      have c: "ctl_rest inflight dev'" using i(3) none(4) fl by (simp add: ctl_rest_def io_frame_def)
      have st: "stream_inv inv inflight P ?s"
        by (rule stream_inv_dev [OF less.prems(1) none(3) c]) (use fl none(5) in \<open>simp add: free_io_def\<close>)
      have r: "reclaimed s ?s" using none(4) by (intro repooled_reclaimed repooled_upd) (simp add: io_frame_def)
      have p: "pend pending dev' ?T = []" using less.prems(2) pend_cong [OF none(6), of pending] by simp
      have "flight inflight (m_Device s) ?T = {#}"
      proof (cases "Queues (m_Device s) ?T")
        case None
        then show ?thesis by (simp add: flight_def)
      next
        case (Some q)
        then show ?thesis using none(2,7-9) assms(3) by (auto simp: tx_granted_def)
      qed
      then show ?thesis using e st r p fl nz by (simp add: unat_gt_0)
    next
      case (detached p x dev')
      let ?d = "s\<lparr>m_Device := dev'\<rparr>"
      let ?s = "?d\<lparr>m_OutstandingWrites := m_OutstandingWrites s - 1\<rparr>"
      have np: "p \<notin> pooled s"
        by (rule in_flight_not_pooled [OF less.prems(1), of _ ?T]) (simp add: detached(8))
      have sub: "q \<in># flight inflight dev' i \<Longrightarrow> q \<in># flight inflight (m_Device s) i" for q i
        using detached(8,9) by (cases "i = ?T") auto
      have sd: "stream_inv inv inflight P ?d" "stream_frame s ?d"
        by (rule stream_io [OF less.prems(1) detached(2,3) _ np]; use detached(4,9) sub in simp)+
      have s1: "stream_inv inv inflight P ?s" by (rule stream_inv_cong [OF sd(1)]) (simp_all add: stream_phase [OF less.prems(1)])
      have f1: "free_io inflight True (m_Device ?s) p" using detached(4,5,6,10) by (simp add: free_io_def)
      have "pooled ?s = pooled s" by (simp add: pooled_def)
      then have np1: "p \<notin> pooled ?s" using np by simp
      obtain s3 where s3: "return_render_io p ?s = Some s3" "stream_inv inv inflight P s3" "repooled ?s s3"
        "flight inflight (m_Device s3) = flight inflight (m_Device ?s)" "Queues (m_Device s3) = Queues (m_Device ?s)"
        by (rule return_render_io_ok [OF s1 f1 np1]) (rule that; assumption)
      have ow3: "m_OutstandingWrites s3 = m_OutstandingWrites s - 1" using repooled_members(3) [OF s3(3)] by simp
      then have u: "unat (m_OutstandingWrites s3) = unat (m_OutstandingWrites s) - 1" "0 < unat (m_OutstandingWrites s)"
        using unat_pred [OF nz] by simp_all
      then have lt: "unat (m_OutstandingWrites s3) < unat (m_OutstandingWrites s)" by simp
      have p3: "pend pending (m_Device s3) ?T = []" using detached(11) pend_cong [OF s3(5), of pending] by simp
      have sz: "size (flight inflight (m_Device s) ?T) = Suc (size (flight inflight (m_Device s3) ?T))"
        using detached(8) s3(4) by simp
      obtain s4 where s4: "cancel_writes K s3 = Some s4" "stream_inv inv inflight P s4" "reclaimed s3 s4"
        "pend pending (m_Device s4) ?T = []"
        "\<forall>j. j \<noteq> ?T \<longrightarrow> flight inflight (m_Device s4) j = flight inflight (m_Device s3) j"
        "unat (m_OutstandingWrites s3) = size (flight inflight (m_Device s3) ?T) \<longrightarrow>
         m_OutstandingWrites s4 = 0 \<and> flight inflight (m_Device s4) ?T = {#}"
        using less.hyps [OF lt s3(2) p3] by blast
      have e: "cancel_writes K s = Some s4"
        using detached(1) nz s3(1) s4(1) by (subst cancel_writes.simps) simp
      have "repooled s ?d" by (rule repooled_upd) (use sd(2) in \<open>simp add: stream_frame_def\<close>)
      then have "reclaimed s ?s" by (rule reclaimedI) simp
      then have r: "reclaimed s s4" using reclaimed_repooled [OF _ s3(3)] reclaimed_trans [OF _ s4(3)] by blast
      show ?thesis using e s4(2,4-6) r detached(9) s3(4) u sz by auto
    qed
  qed
qed

lemma CancelRenderWrites_ok:
  assumes "stream_inv inv inflight P s" "tx_granted K"
  obtains s' where "CancelRenderWrites K s = Some s'" "stream_inv inv inflight P s'" "reclaimed s s'"
    "\<And>j. j \<noteq> VIRTIO_SND_VQ_TX \<Longrightarrow> flight inflight (m_Device s') j = flight inflight (m_Device s) j"
    "\<not> m_Capture s \<Longrightarrow> unat (m_OutstandingWrites s) = size (flight inflight (m_Device s) VIRTIO_SND_VQ_TX) \<Longrightarrow>
       m_OutstandingWrites s' = 0 \<and> flight inflight (m_Device s') VIRTIO_SND_VQ_TX = {#}"
proof (cases "m_Capture s")
  case True
  then have "CancelRenderWrites K s = Some s" by (simp add: CancelRenderWrites_def)
  then show thesis using that [of s] assms(1) True repooled_reclaimed by simp
next
  case False
  let ?T = VIRTIO_SND_VQ_TX
  obtain n1 s1 where s1: "ReclaimRenderPackets K 0 s = Some (n1, s1)" "stream_inv inv inflight P s1" "reclaimed s s1"
    "pend pending (m_Device s1) ?T = []"
    "\<forall>j. j \<noteq> ?T \<longrightarrow> flight inflight (m_Device s1) j = flight inflight (m_Device s) j"
    "size (flight inflight (m_Device s) ?T) \<le> unat (m_OutstandingWrites s) \<longrightarrow>
       unat (m_OutstandingWrites s1) + size (flight inflight (m_Device s) ?T) =
       unat (m_OutstandingWrites s) + size (flight inflight (m_Device s1) ?T)"
    using ReclaimRenderPackets_ok [OF assms(1), of 0] assms(2) by blast
  obtain s2 where s2: "cancel_writes K s1 = Some s2" "stream_inv inv inflight P s2" "reclaimed s1 s2"
    "\<forall>j. j \<noteq> ?T \<longrightarrow> flight inflight (m_Device s2) j = flight inflight (m_Device s1) j"
    "unat (m_OutstandingWrites s1) = size (flight inflight (m_Device s1) ?T) \<longrightarrow>
       m_OutstandingWrites s2 = 0 \<and> flight inflight (m_Device s2) ?T = {#}"
    using cancel_writes_ok [OF s1(2,4) assms(2)] by blast
  have "CancelRenderWrites K s = Some s2" using False s1(1) s2(1) by (simp add: CancelRenderWrites_def)
  then show thesis using that s2(2,4,5) s1(5,6) reclaimed_trans [OF s1(3) s2(3)] by auto
qed

end

end
