(* ===== verification/Wave_Playback.thy ===== *)
theory Wave_Playback
  imports Wave_Render
begin

text \<open>
  Correctness of a playback stream (\<open>viosnd/sys/ViosndWaveRT.cpp\<close>) above its packets: one
  iteration of the worker thread with the switch to the fallback format, starting and stopping the
  worker, the reference count, the cyclic buffer and \<open>SetState\<close>.
\<close>

section \<open>The worker of a playback stream\<close>

text \<open>
  A playback stream: the invariant of a stream, and \<open>m_OutstandingWrites\<close> counts the descriptors
  in the transmit queue.
\<close>

definition render_inv ::
  "('q \<Rightarrow> bool) \<Rightarrow> ('q \<Rightarrow> opaque multiset) \<Rightarrow> ptr set \<Rightarrow> ('q, 'e) wave_stream \<Rightarrow> bool" where
  "render_inv qinv inflight P s \<longleftrightarrow> stream_inv qinv inflight P s \<and> \<not> m_Capture s \<and>
     unat (m_OutstandingWrites s) = size (flight inflight (m_Device s) VIRTIO_SND_VQ_TX)"

lemma render_invD:
  assumes "render_inv qinv inflight P s"
  shows "stream_inv qinv inflight P s" "\<not> m_Capture s"
    "unat (m_OutstandingWrites s) = size (flight inflight (m_Device s) VIRTIO_SND_VQ_TX)"
  using assms by (simp_all add: render_inv_def)

lemma render_inv_cong:
  assumes "render_inv qinv inflight P s" "m_Device s' = m_Device s"
    "m_RenderIoPool s' = m_RenderIoPool s" "m_RenderIoFreeCount s' = m_RenderIoFreeCount s"
    "m_CaptureIoPool s' = m_CaptureIoPool s" "m_CaptureIoFreeCount s' = m_CaptureIoFreeCount s"
    "m_Buffer s' = m_Buffer s" "m_PacketSize s' = m_PacketSize s" "m_EosPacketLength s' = m_EosPacketLength s"
    "m_NotificationCount s' = m_NotificationCount s" "m_RenderFallbackBuffer s' = m_RenderFallbackBuffer s"
    "m_RenderFallbackBufferSize s' = m_RenderFallbackBufferSize s" "m_RenderFallbackPhase s' < VIOSND_DEFAULT_SAMPLE_RATE"
    "m_Capture s' = m_Capture s" "m_OutstandingWrites s' = m_OutstandingWrites s"
  shows "render_inv qinv inflight P s'"
  using stream_inv_cong [OF render_invD(1) [OF assms(1)] assms(2-13)] assms by (simp add: render_inv_def)

lemma render_phase: "render_inv qinv inflight P s \<Longrightarrow> m_RenderFallbackPhase s < VIOSND_DEFAULT_SAMPLE_RATE"
  using stream_phase render_invD(1) by blast

lemma render_repooled:
  assumes "render_inv qinv inflight P s" "stream_inv qinv inflight P s'" "repooled s s'"
    "flight inflight (m_Device s') VIRTIO_SND_VQ_TX = flight inflight (m_Device s) VIRTIO_SND_VQ_TX"
  shows "render_inv qinv inflight P s'"
  using assms repooled_members [OF assms(3)] by (simp add: render_inv_def)

lemma render_sent:
  assumes "render_inv qinv inflight P s" "stream_inv qinv inflight P s'" "m_Capture s' = m_Capture s"
    "flight inflight (m_Device s') = (flight inflight (m_Device s))(VIRTIO_SND_VQ_TX :=
         add_mset (OIo io) (flight inflight (m_Device s) VIRTIO_SND_VQ_TX))"
    "m_OutstandingWrites s' = m_OutstandingWrites s + 1" "m_OutstandingWrites s < n"
  shows "render_inv qinv inflight P s'" "unat (m_OutstandingWrites s') = Suc (unat (m_OutstandingWrites s))"
proof -
  have "unat (m_OutstandingWrites s) + 1 < 2 ^ 32"
    using assms(6) unat_less32 [of n] by (simp only: word_less_nat_alt)
  then show u: "unat (m_OutstandingWrites s') = Suc (unat (m_OutstandingWrites s))"
    using assms(5) unat_add_of_nat [of "m_OutstandingWrites s" 1] by simp
  show "render_inv qinv inflight P s'" using assms(1-4) u by (simp add: render_inv_def)
qed

context virtio_snd
begin

lemma command_ok:
  assumes "stream_inv inv inflight P s" "f \<in> stream_commands K sid"
  obtains status s' where "on_device f s = Some (status, s')" "stream_inv inv inflight P s'" "repooled s s'"
    "\<And>i. i \<noteq> VIRTIO_SND_VQ_CONTROL \<Longrightarrow> flight inflight (m_Device s') i = flight inflight (m_Device s) i"
    "\<And>i. (Queues (m_Device s') i = None) = (Queues (m_Device s) i = None)"
proof -
  note i = stream_invD [OF assms(1)]
  obtain status d where d: "f (m_Device s) = Some (status, d)" "ctl_step inv inflight {} (P \<union> fb_blocks s) (m_Device s) d"
    by (rule stream_command_ok [OF assms(2) i(1,3)])
  note c = ctl_stepD(3) [OF d(2)]
  have "repooled s (s\<lparr>m_Device := d\<rparr>)" using c by (intro repooled_upd) (simp add: ctl_frame_def)
  then show thesis
    by (intro that [of status "s\<lparr>m_Device := d\<rparr>"])
      (use d stream_ctl_step(1) [OF assms(1) d(2)] c in \<open>simp_all add: on_device_def ctl_frame_def\<close>)
qed

lemma render_command_ok:
  assumes "render_inv inv inflight P s" "f \<in> stream_commands K sid"
  obtains status s' where "on_device f s = Some (status, s')" "render_inv inv inflight P s'" "repooled s s'"
proof -
  obtain status s' where c: "on_device f s = Some (status, s')" "stream_inv inv inflight P s'" "repooled s s'"
    "\<And>i. i \<noteq> VIRTIO_SND_VQ_CONTROL \<Longrightarrow> flight inflight (m_Device s') i = flight inflight (m_Device s) i"
    by (rule command_ok [OF render_invD(1) [OF assms(1)] assms(2)]) (rule that; assumption)
  show thesis by (rule that [OF c(1) render_repooled [OF assms(1) c(2,3)] c(3)]) (simp add: c(4))
qed

lemma render_cancel_ok:
  assumes "render_inv inv inflight P s" "tx_granted K"
  obtains s' where "CancelRenderWrites K s = Some s'" "render_inv inv inflight P s'" "reclaimed s s'"
    "m_OutstandingWrites s' = 0"
proof -
  note r = render_invD [OF assms(1)]
  obtain s' where c: "CancelRenderWrites K s = Some s'" "stream_inv inv inflight P s'" "reclaimed s s'"
    "\<not> m_Capture s \<Longrightarrow> unat (m_OutstandingWrites s) = size (flight inflight (m_Device s) VIRTIO_SND_VQ_TX) \<Longrightarrow>
       m_OutstandingWrites s' = 0 \<and> flight inflight (m_Device s') VIRTIO_SND_VQ_TX = {#}"
    by (rule CancelRenderWrites_ok [OF r(1) assms(2)]) (rule that; assumption)
  show thesis
    by (rule that [OF c(1) _ c(3)]) (use c(2,4) r(2,3) reclaimed_members [OF c(3)] in \<open>simp_all add: render_inv_def\<close>)
qed

lemma render_free_pool_ok:
  assumes "render_inv inv inflight P s"
  obtains s' where "FreeRenderIoPool s = Some s'" "render_inv inv inflight P s'" "repooled s s'"
    "m_OutstandingWrites s = 0 \<Longrightarrow> m_RenderIoFreeCount s' = 0 \<and> m_RenderFallbackBuffer s' = None"
proof -
  note r = render_invD [OF assms(1)]
  obtain s' where c: "FreeRenderIoPool s = Some s'" "stream_inv inv inflight P s'" "repooled s s'"
    "flight inflight (m_Device s') = flight inflight (m_Device s)"
    "\<not> m_Capture s \<Longrightarrow> m_OutstandingWrites s = 0 \<Longrightarrow> m_RenderIoFreeCount s' = 0 \<and> m_RenderFallbackBuffer s' = None"
    by (rule FreeRenderIoPool_ok [OF r(1)]) (rule that; assumption)
  show thesis by (rule that [OF c(1) render_repooled [OF assms c(2,3)] c(3)]) (use c(4,5) r(2) in simp_all)
qed

lemma preroll_ok:
  assumes "render_inv inv inflight P s"
  shows "\<exists>status s'. preroll K n status0 s = Some (status, s') \<and> render_inv inv inflight P s' \<and> stream_frame s s'"
  using assms
proof (induction n arbitrary: s status0)
  case 0
  then show ?case by simp
next
  case (Suc n)
  show ?case
  proof (cases "VIOSND_RENDER_START_PREROLL_PACKETS \<le> m_OutstandingWrites s")
    case True
    then show ?thesis using Suc.prems by simp
  next
    case go: False
    show ?thesis using render_invD(1) [OF Suc.prems]
    proof (cases rule: SubmitRenderSilencePacket_ok [where pn = MAXULONG])
      case (failed status s')
      have "render_inv inv inflight P s'" by (rule render_repooled [OF Suc.prems failed(3,4)]) (simp add: failed(5))
      moreover have "preroll K (Suc n) status0 s = Some (status, s')" using failed(1,2) go by simp
      ultimately show ?thesis using repooled_members(1) [OF failed(4)] by blast
    next
      case (sent s' s0 io)
      note m = repooled_members [OF sent(3)]
      have o: "m_OutstandingWrites s' = m_OutstandingWrites s + 1" "m_Capture s' = m_Capture s" using sent(4) m by simp_all
      have lt: "m_OutstandingWrites s < VIOSND_RENDER_START_PREROLL_PACKETS" using go by simp
      have r: "render_inv inv inflight P s'" by (rule render_sent(1) [OF Suc.prems sent(2) o(2) sent(7) o(1) lt])
      have "stream_frame s0 s'" using sent(4) by (simp add: stream_frame_def)
      then have f: "stream_frame s s'" using m(1) stream_frame_trans by blast
      obtain status s2 where s2: "preroll K n STATUS_SUCCESS s' = Some (status, s2)" "render_inv inv inflight P s2" "stream_frame s' s2"
        using Suc.IH [OF r] by blast
      have "preroll K (Suc n) status0 s = Some (status, s2)" using sent(1) go s2(1) by simp
      then show ?thesis using s2(2) stream_frame_trans [OF f s2(3)] by blast
    qed
  qed
qed

text \<open>The loop that keeps packets outstanding: it submits one packet more in each iteration.\<close>

lemma render_submit_ok:
  assumes "render_inv inv inflight P s"
  shows "\<exists>s'. render_submit K target s = Some s' \<and> render_inv inv inflight P s' \<and> stream_frame s s' \<and>
    m_OutstandingWrites s \<le> m_OutstandingWrites s' \<and>
    (m_OutstandingWrites s \<le> target \<longrightarrow> m_OutstandingWrites s' \<le> target) \<and> m_Position s' = m_Position s"
  using assms
proof (induction "unat target - unat (m_OutstandingWrites s)" arbitrary: s rule: less_induct)
  case less
  let ?n = "if m_EosPacketNumber s = m_NextSubmitPacket s then m_EosPacketLength s else m_PacketSize s"
  show ?case
  proof (cases "m_State s \<noteq> KSSTATE_RUN \<or> target \<le> m_OutstandingWrites s")
    case True
    then have "render_submit K target s = Some s" by (subst render_submit.simps) simp
    then show ?thesis using less.prems by simp
  next
    case go: False
    then have lt: "m_OutstandingWrites s < target" by (simp add: not_le)
    have step: ?thesis
      if s': "render_inv inv inflight P s'" "stream_frame s s'" "m_OutstandingWrites s' = m_OutstandingWrites s + 1"
        "m_Position s' = m_Position s" "render_submit K target s = render_submit K target s'" for s'
    proof -
      have u: "unat (m_OutstandingWrites s') = Suc (unat (m_OutstandingWrites s))"
        using unat_add_of_nat [of "m_OutstandingWrites s" 1] lt unat_less32 [of target] s'(3) by (simp add: word_less_nat_alt)
      have l: "unat (m_OutstandingWrites s) < unat target" using lt by (simp add: word_less_nat_alt)
      have "unat target - unat (m_OutstandingWrites s') < unat target - unat (m_OutstandingWrites s)" using u l by simp
      from less.hyps [OF this s'(1)] obtain s2 where s2: "render_submit K target s' = Some s2" "render_inv inv inflight P s2"
        "stream_frame s' s2" "m_OutstandingWrites s' \<le> m_OutstandingWrites s2"
        "m_OutstandingWrites s' \<le> target \<longrightarrow> m_OutstandingWrites s2 \<le> target" "m_Position s2 = m_Position s'" by blast
      have "m_OutstandingWrites s \<le> m_OutstandingWrites s2" using s2(4) u by (simp add: word_le_nat_alt)
      moreover have "m_OutstandingWrites s' \<le> target" using u l by (simp add: word_le_nat_alt)
      ultimately show ?thesis using s2 s'(4,5) stream_frame_trans [OF s'(2) s2(3)] by simp
    qed
    have halt: ?thesis
      if "render_submit K target s = Some s'" "render_inv inv inflight P s'" "stream_frame s s'"
        "m_OutstandingWrites s' = m_OutstandingWrites s" "m_Position s' = m_Position s" for s'
      using that lt by (intro exI [of _ s']) simp
    have packet: ?thesis
      if unf: "render_submit K target s = do {
          (status, s) \<leftarrow> SubmitRenderPacket K (m_NextSubmitPacket s) n s;
          if \<not> NT_SUCCESS status then Some s else render_submit K target (f s) }"
        and f: "\<And>t. render_inv inv inflight P t \<Longrightarrow> render_inv inv inflight P (f t)" "\<And>t. stream_frame t (f t)"
          "\<And>t. m_OutstandingWrites (f t) = m_OutstandingWrites t" "\<And>t. m_Position (f t) = m_Position t" for n f
      using render_invD(1) [OF less.prems]
    proof (cases rule: SubmitRenderPacket_ok [where pn = "m_NextSubmitPacket s" and n = n])
      case (failed status s')
      have e: "render_submit K target s = Some s'" using unf failed(1,2) by simp
      have "m_Capture s' = m_Capture s" using failed(4) by (simp add: stream_frame_def)
      then have "render_inv inv inflight P s'" using less.prems failed(3,5,7) by (simp add: render_inv_def)
      then show ?thesis by (rule halt [OF e _ failed(4,7,9)])
    next
      case (sent s' io x buf)
      have c: "m_Capture s' = m_Capture s" using sent(3) by (simp add: stream_frame_def)
      have r: "render_inv inv inflight P (f s')" by (rule f(1) [OF render_sent(1) [OF less.prems sent(2) c sent(7,9) lt]])
      show ?thesis
        by (rule step [OF r stream_frame_trans [OF sent(3) f(2)]]) (use unf sent(1,9,10) f(3,4) in simp_all)
    qed
    show ?thesis
    proof (cases "ViosndHasWritableRenderPacket (m_NextSubmitPacket s) (m_LastOsWritePacket s)")
      case True
      show ?thesis
        by (rule packet [of ?n "\<lambda>t. t"]) (subst render_submit.simps, use go True in simp_all)
    next
      case nw: False
      show ?thesis
      proof (cases "m_LastOsWritePacket s = MAXULONG")
        case False
        let ?s = "if m_OutstandingWrites s = 0 then s\<lparr>m_RenderNotReadyLoops := m_RenderNotReadyLoops s + 1\<rparr> else s"
        have e: "render_submit K target s = Some ?s" using go nw False by (subst render_submit.simps) simp
        have "render_inv inv inflight P ?s"
          by (rule render_inv_cong [OF less.prems]) (simp_all add: render_phase [OF less.prems])
        then show ?thesis by (rule halt [OF e]) (simp_all add: stream_frame_def)
      next
        case cyc: True
        let ?f = "\<lambda>t. t\<lparr>m_RenderFallbackPackets := m_RenderFallbackPackets t + 1\<rparr>"
        have f: "render_inv inv inflight P (?f t)" if "render_inv inv inflight P t" for t :: "('q, 'e) wave_stream"
          by (rule render_inv_cong [OF that]) (simp_all add: render_phase [OF that])
        show ?thesis
        proof (cases "m_RenderPrerollPackets s = 0")
          case True
          show ?thesis
            by (rule packet [of "m_PacketSize s" ?f])
              (subst render_submit.simps, use go nw cyc True f in \<open>simp_all add: stream_frame_def\<close>)
        next
          case False
          let ?g = "\<lambda>t. t\<lparr>m_RenderPrerollPackets := m_RenderPrerollPackets t - 1\<rparr>"
          have g: "render_inv inv inflight P (?g t)" if "render_inv inv inflight P t" for t :: "('q, 'e) wave_stream"
            by (rule render_inv_cong [OF that]) (simp_all add: render_phase [OF that])
          have unf: "render_submit K target s = do {
              (status, s) \<leftarrow> SubmitRenderSilencePacket K (m_NextSubmitPacket s) s;
              if \<not> NT_SUCCESS status then Some s else render_submit K target (?f (?g s)) }"
            using go nw cyc False
            by (subst render_submit.simps) (cases "SubmitRenderSilencePacket K (m_NextSubmitPacket s) s"; auto)
          show ?thesis using render_invD(1) [OF less.prems]
          proof (cases rule: SubmitRenderSilencePacket_ok [where pn = "m_NextSubmitPacket s"])
            case (failed status s')
            have e: "render_submit K target s = Some s'" using unf failed(1,2) by simp
            note m = repooled_members [OF failed(4)]
            have "render_inv inv inflight P s'" by (rule render_repooled [OF less.prems failed(3,4)]) (simp add: failed(5))
            then show ?thesis by (rule halt [OF e _ m(1,3,9)])
          next
            case (sent s' s0 io)
            note m = repooled_members [OF sent(3)]
            have o: "m_OutstandingWrites s' = m_OutstandingWrites s + 1" "m_Capture s' = m_Capture s"
              "m_Position s' = m_Position s" using sent(4) m by simp_all
            have r: "render_inv inv inflight P s'" by (rule render_sent(1) [OF less.prems sent(2) o(2) sent(7) o(1) lt])
            have "stream_frame s0 (?f (?g s'))" using sent(4) by (simp add: stream_frame_def)
            then have "stream_frame s (?f (?g s'))" using m(1) stream_frame_trans by blast
            then show ?thesis
              by (rule step [OF f [OF g [OF r]]]) (use unf sent(1) o in simp_all)
          qed
        qed
      qed
    qed
  qed
qed

end

lemma render_env:
  assumes "render_inv qinv inflight P s"
  shows "render_inv qinv inflight P (s\<lparr>m_Device := (m_Device s)\<lparr>ext := e\<rparr>\<rparr>)"
  using stream_env(1) [OF render_invD(1) [OF assms], of e] assms by (simp add: render_inv_def)

text \<open>A query of the performance counter.\<close>

lemma query_qpc_ok:
  assumes "render_inv qinv inflight P s"
  obtains q f s' where "query_qpc W s = (q, f, s')" "render_inv qinv inflight P s'" "repooled s s'"
    "m_OutstandingWrites s' = m_OutstandingWrites s"
proof -
  obtain q f e where w: "KeQueryPerformanceCounter W (ext (m_Device s)) = (q, f, e)" by (metis prod_cases3)
  let ?s = "s\<lparr>m_Device := (m_Device s)\<lparr>ext := e\<rparr>\<rparr>"
  have "repooled s ?s" by (rule repooled_upd) simp
  then show thesis
    by (intro that [of q f ?s]) (use w render_env [OF assms] in \<open>simp_all add: query_qpc_def\<close>)
qed

context virtio_snd
begin

lemma SwitchRenderToFallback_ok:
  assumes "render_inv inv inflight P s" "tx_granted K"
  shows "\<exists>status s'. SwitchRenderToFallback K W s = Some (status, s') \<and> render_inv inv inflight P s' \<and> stream_frame s s'"
proof -
  let ?a = "s\<lparr>m_RenderFallbackAttempted := True\<rparr>"
  have a: "render_inv inv inflight P ?a" by (rule render_inv_cong [OF assms(1)]) (simp_all add: render_phase [OF assms(1)])
  have fa: "stream_frame s ?a" by (simp add: stream_frame_def)
  obtain st1 s1 where 1: "on_device (ViosndStopPcm K (m_StreamId s)) ?a = Some (st1, s1)" "render_inv inv inflight P s1" "repooled ?a s1"
    by (rule render_command_ok [OF a, of "ViosndStopPcm K (m_StreamId s)" "m_StreamId s"]) (auto intro: that)
  have id1: "m_StreamId s1 = m_StreamId s" using repooled_members [OF 1(3)] by simp
  obtain st2 s2 where 2: "on_device (ViosndReleasePcm K (m_StreamId s)) s1 = Some (st2, s2)" "render_inv inv inflight P s2" "repooled s1 s2"
    by (rule render_command_ok [OF 1(2), of "ViosndReleasePcm K (m_StreamId s)" "m_StreamId s"]) (auto intro: that)
  obtain s3 where 3: "CancelRenderWrites K s2 = Some s3" "render_inv inv inflight P s3" "reclaimed s2 s3"
    by (rule render_cancel_ok [OF 2(2) assms(2)]) (rule that; assumption)
  have f3: "stream_frame s s3"
    using stream_frame_trans [OF fa] stream_frame_trans [OF repooled_members(1) [OF 1(3)]]
      stream_frame_trans [OF repooled_members(1) [OF 2(3)] reclaimed_members(1) [OF 3(3)]] by blast
  note e0 = SwitchRenderToFallback_def [where K = K and W = W and s = s, unfolded 1(1) bind.bind_lunit prod.case id1 2(1) 3(1)]
  show ?thesis
  proof (cases "NT_SUCCESS st1 \<and> NT_SUCCESS st2")
    case False
    then have "SwitchRenderToFallback K W s = Some (if \<not> NT_SUCCESS st1 then st1 else st2, s3)" unfolding e0 by auto
    then show ?thesis using 3(2) f3 by blast
  next
    case True
    let ?b = "s3\<lparr>m_RenderFallbackActive := True, m_RenderFallbackPhase := ViosndFallbackInitialPhase\<rparr>"
    have b: "render_inv inv inflight P ?b"
      by (rule render_inv_cong [OF 3(2)]) (simp_all add: ViosndFallbackInitialPhase_def)
    have id3: "m_StreamId ?b = m_StreamId s" using f3 by (simp add: stream_frame_def)
    have fb: "stream_frame s ?b" using f3 by (simp add: stream_frame_def)
    obtain st4 s4 where 4: "on_device (ViosndConfigureFallbackPcm K (m_StreamId ?b)) ?b = Some (st4, s4)" "render_inv inv inflight P s4" "repooled ?b s4"
      by (rule render_command_ok [OF b, of "ViosndConfigureFallbackPcm K (m_StreamId ?b)" "m_StreamId ?b"]) (auto intro: that)
    have f4: "stream_frame s s4" using stream_frame_trans [OF fb repooled_members(1) [OF 4(3)]] .
    obtain st5 s5 where 5: "if_success (preroll K (unat VIOSND_RENDER_START_PREROLL_PACKETS) STATUS_SUCCESS) (st4, s4) = Some (st5, s5)"
      "render_inv inv inflight P s5" "stream_frame s s5"
      using preroll_ok [OF 4(2), of "unat VIOSND_RENDER_START_PREROLL_PACKETS" STATUS_SUCCESS] 4(2) f4 stream_frame_trans [OF f4]
      by (cases "NT_SUCCESS st4") (auto simp: if_success_def)
    obtain st6 s6 where 6: "if_success (\<lambda>s. on_device (ViosndStartPcm K (m_StreamId s)) s) (st5, s5) = Some (st6, s6)"
      "render_inv inv inflight P s6" "stream_frame s s6"
    proof (cases "NT_SUCCESS st5")
      case False
      then show thesis using that [of st5 s5] 5(2,3) by (simp add: if_success_def)
    next
      case True
      obtain st7 s7 where "on_device (ViosndStartPcm K (m_StreamId s5)) s5 = Some (st7, s7)" "render_inv inv inflight P s7" "repooled s5 s7"
        by (rule render_command_ok [OF 5(2), of "ViosndStartPcm K (m_StreamId s5)" "m_StreamId s5"]) (auto intro: that)
      then show thesis using that [of st7 s7] True stream_frame_trans [OF 5(3)] repooled_members(1) by (auto simp: if_success_def)
    qed
    have e: "SwitchRenderToFallback K W s = (if \<not> NT_SUCCESS st6 then Some (st6, s6\<lparr>m_RenderFallbackActive := False\<rparr>)
       else let (qpc, frequency, s) = query_qpc W s6 in
         Some (STATUS_SUCCESS,
           s\<lparr>m_RunStartPosition := m_Position s, m_RunStartQpc := qpc, m_QpcFrequency := frequency,
             m_FallbackMonitorStartQpc := 0, m_FallbackMonitorStartPosition := 0\<rparr>))"
      unfolding e0 using True 4(1) 5(1) 6(1) by (simp add: Let_def)
    show ?thesis
    proof (cases "NT_SUCCESS st6")
      case False
      have "render_inv inv inflight P (s6\<lparr>m_RenderFallbackActive := False\<rparr>)"
        by (rule render_inv_cong [OF 6(2)]) (simp_all add: render_phase [OF 6(2)])
      then show ?thesis using e False 6(3) by (simp add: stream_frame_def)
    next
      case True
      obtain q fr s7 where 7: "query_qpc W s6 = (q, fr, s7)" "render_inv inv inflight P s7" "repooled s6 s7"
        by (rule query_qpc_ok [OF 6(2)]) (rule that; assumption)
      let ?c = "s7\<lparr>m_RunStartPosition := m_Position s7, m_RunStartQpc := q, m_QpcFrequency := fr,
             m_FallbackMonitorStartQpc := 0, m_FallbackMonitorStartPosition := 0\<rparr>"
      have "render_inv inv inflight P ?c" by (rule render_inv_cong [OF 7(2)]) (simp_all add: render_phase [OF 7(2)])
      moreover have "stream_frame s7 ?c" by (simp add: stream_frame_def)
      then have "stream_frame s ?c"
        using stream_frame_trans [OF 6(3)] stream_frame_trans [OF repooled_members(1) [OF 7(3)]] by blast
      ultimately show ?thesis using e True 7(1) by simp
    qed
  qed
qed

lemma MaybeSwitchRenderFallback_ok:
  assumes "render_inv inv inflight P s" "tx_granted K"
  shows "\<exists>s'. MaybeSwitchRenderFallback K W s = Some s' \<and> render_inv inv inflight P s' \<and> stream_frame s s'"
proof (cases "m_Capture s \<or> m_RenderFallbackAttempted s \<or> m_State s \<noteq> KSSTATE_RUN \<or> sint (m_QpcFrequency s) \<le> 0")
  case True
  then have "MaybeSwitchRenderFallback K W s = Some s" by (simp add: MaybeSwitchRenderFallback_def)
  then show ?thesis using assms(1) by simp
next
  case go: False
  obtain q fr s1 where 1: "query_qpc W s = (q, fr, s1)" "render_inv inv inflight P s1" "repooled s s1"
    by (rule query_qpc_ok [OF assms(1)]) (rule that; assumption)
  have f1: "stream_frame s s1" using repooled_members(1) [OF 1(3)] .
  have upd: "render_inv inv inflight P (s1\<lparr>m_FallbackMonitorStartQpc := a, m_FallbackMonitorStartPosition := b\<rparr>)"
    "render_inv inv inflight P (s1\<lparr>m_RenderFallbackAttempted := True\<rparr>)" for a b
    by (rule render_inv_cong [OF 1(2)]; simp add: render_phase [OF 1(2)])+
  have fr: "stream_frame s (s1\<lparr>m_FallbackMonitorStartQpc := a, m_FallbackMonitorStartPosition := b\<rparr>)"
    "stream_frame s (s1\<lparr>m_RenderFallbackAttempted := True\<rparr>)" for a b
    using f1 by (simp_all add: stream_frame_def)
  obtain st s2 where 2: "SwitchRenderToFallback K W s1 = Some (st, s2)" "render_inv inv inflight P s2" "stream_frame s1 s2"
    using SwitchRenderToFallback_ok [OF 1(2) assms(2)] by blast
  note f2 = stream_frame_trans [OF f1 2(3)]
  have "MaybeSwitchRenderFallback K W s \<in> Some ` {s1, s2, s1\<lparr>m_RenderFallbackAttempted := True\<rparr>,
      s1\<lparr>m_FallbackMonitorStartQpc := q, m_FallbackMonitorStartPosition := m_Position s1\<rparr>}"
    unfolding MaybeSwitchRenderFallback_def if_not_P [OF go] 1(1) Let_def prod.case 2(1) by (simp split: if_split)
  then show ?thesis using 1(2) f1 2(2) f2 upd fr by auto
qed

lemma render_device_waited:
  assumes "render_inv inv inflight P s" "dev_inv inv inflight {} (P \<union> fb_blocks s) d" "waited inflight (m_Device s) d"
  shows "render_inv inv inflight P (s\<lparr>m_Device := d\<rparr>)" "stream_frame s (s\<lparr>m_Device := d\<rparr>)"
proof -
  note r = render_invD [OF assms(1)]
  show "stream_frame s (s\<lparr>m_Device := d\<rparr>)" by (rule stream_waited(2) [OF r(1) assms(2,3)])
  show "render_inv inv inflight P (s\<lparr>m_Device := d\<rparr>)"
    using stream_waited(1) [OF r(1) assms(2,3)] r(2,3) assms(3) by (simp add: render_inv_def waited_def)
qed

text \<open>One iteration of the worker of a playback stream.\<close>

lemma render_iteration_ok:
  assumes "render_inv inv inflight P s" "tx_granted K"
  shows "\<exists>n k s'. render_iteration K W (submitted, lastCompleted) s = Some ((n, k), s') \<and>
    render_inv inv inflight P s' \<and> stream_frame s s' \<and>
    (m_State s \<noteq> KSSTATE_RUN \<longrightarrow> m_OutstandingWrites s' \<le> m_OutstandingWrites s)"
proof -
  note r0 = render_invD [OF assms(1)]
  obtain d where d: "ViosndPollEvents K (m_Device s) = Some d" "dev_inv inv inflight {} (P \<union> fb_blocks s) d" "waited inflight (m_Device s) d"
    by (rule PollEvents_ok [OF stream_invD(1) [OF r0(1)]])
  let ?s1 = "s\<lparr>m_Device := d\<rparr>"
  note s1 = render_device_waited [OF assms(1) d(2,3)]
  obtain n s2 where 2: "ReclaimRenderPackets K submitted ?s1 = Some (n, s2)" "stream_inv inv inflight P s2" "reclaimed ?s1 s2"
    "size (flight inflight (m_Device ?s1) VIRTIO_SND_VQ_TX) \<le> unat (m_OutstandingWrites ?s1) \<longrightarrow>
       unat (m_OutstandingWrites s2) + size (flight inflight (m_Device ?s1) VIRTIO_SND_VQ_TX) =
       unat (m_OutstandingWrites ?s1) + size (flight inflight (m_Device s2) VIRTIO_SND_VQ_TX)"
    "m_OutstandingWrites s2 \<le> m_OutstandingWrites ?s1"
    using ReclaimRenderPackets_ok [OF render_invD(1) [OF s1(1)], of submitted] by blast
  note m2 = reclaimed_members [OF 2(3)]
  have r2: "render_inv inv inflight P s2"
    using 2(2,4) render_invD(2,3) [OF s1(1)] m2(6) by (simp add: render_inv_def)
  have f2: "stream_frame s s2" by (rule stream_frame_trans [OF s1(2) m2(1)])
  obtain s3 where 3: "MaybeSwitchRenderFallback K W s2 = Some s3" "render_inv inv inflight P s3" "stream_frame s2 s3"
    using MaybeSwitchRenderFallback_ok [OF r2 assms(2)] by blast
  have idle3: "s3 = s2" if "m_State s \<noteq> KSSTATE_RUN"
    using 3(1) f2 that by (simp add: MaybeSwitchRenderFallback_def stream_frame_def)
  let ?t = "s3\<lparr>m_RenderStallLoops := m_RenderStallLoops s3 + 1\<rparr>"
  let ?stall = "if m_PacketNumber s3 \<noteq> lastCompleted then Some (s3\<lparr>m_RenderStallLoops := 0\<rparr>)
          else if m_State s3 = KSSTATE_RUN \<and> m_OutstandingWrites s3 \<noteq> 0 then do {
            let s = ?t;
            if m_RenderStallLoops s mod VIOSND_RENDER_REKICK_STALL_LOOPS = 0 then do {
              dev \<leftarrow> ViosndKickTxQueue K (m_Device s);
              Some (s\<lparr>m_Device := dev\<rparr>)
            } else Some s
          } else Some s3"
  have t: "render_inv inv inflight P (s3\<lparr>m_RenderStallLoops := a\<rparr>)" "stream_frame s3 (s3\<lparr>m_RenderStallLoops := a\<rparr>)" for a
    by (rule render_inv_cong [OF 3(2)]; simp add: render_phase [OF 3(2)]) (simp add: stream_frame_def)
  obtain s4 where 4: "?stall = Some s4" "render_inv inv inflight P s4" "stream_frame s3 s4"
    "m_OutstandingWrites s4 = m_OutstandingWrites s3"
  proof -
    obtain d' where d': "ViosndKickTxQueue K (m_Device ?t) = Some d'" "dev_inv inv inflight {} (P \<union> fb_blocks ?t) d'" "waited inflight (m_Device ?t) d'"
      by (rule KickTxQueue_ok [OF stream_invD(1) [OF render_invD(1) [OF t(1)]]])
    note k = render_device_waited [OF t(1) d'(2,3)]
    have fk: "stream_frame s3 (?t\<lparr>m_Device := d'\<rparr>)" by (rule stream_frame_trans [OF t(2) k(2)])
    have "?stall \<in> Some ` {s3\<lparr>m_RenderStallLoops := 0\<rparr>, ?t\<lparr>m_Device := d'\<rparr>, ?t, s3}"
      unfolding Let_def d'(1) by (simp split: if_split)
    then show thesis using that t k(1) fk 3(2) by auto
  qed
  obtain s5 where 5: "(if m_State s4 \<noteq> KSSTATE_RUN \<or> m_Buffer s4 = None \<or> m_PacketSize s4 = 0 then Some s4
          else render_submit K (render_target s4) s4) = Some s5" "render_inv inv inflight P s5" "stream_frame s4 s5"
    "m_State s4 \<noteq> KSSTATE_RUN \<Longrightarrow> s5 = s4"
    using render_submit_ok [OF 4(2), of "render_target s4"] 4(2)
    by (cases "m_State s4 \<noteq> KSSTATE_RUN \<or> m_Buffer s4 = None \<or> m_PacketSize s4 = 0") auto
  have "render_iteration K W (submitted, lastCompleted) s = Some ((n, m_PacketNumber s4), s5)"
    unfolding render_iteration_def prod.case d(1) bind.bind_lunit 2(1) 3(1) 4(1) using 5(1) by (simp add: Let_def)
  moreover have "stream_frame s s5"
    using stream_frame_trans [OF f2] stream_frame_trans [OF 3(3)] stream_frame_trans [OF 4(3) 5(3)] by blast
  moreover have "m_OutstandingWrites s5 \<le> m_OutstandingWrites s" if h: "m_State s \<noteq> KSSTATE_RUN"
  proof -
    have "m_State s4 \<noteq> KSSTATE_RUN" using h idle3 [OF h] f2 4(3) by (simp add: stream_frame_def)
    then show ?thesis using 5(4) 4(4) idle3 [OF h] 2(5) by simp
  qed
  ultimately show ?thesis using 5(2) by blast
qed

end

section \<open>Threads and references\<close>

text \<open>
  The reference count is the number \<open>c\<close> of references the clients hold, plus one for each running
  worker thread.  \<open>m_ThreadObject\<close> is set exactly while the worker counts as started.
\<close>

definition life_inv :: "nat \<Rightarrow> ('q, 'e) wave_stream \<Rightarrow> bool" where
  "life_inv c s \<longleftrightarrow> m_RefCount s = c + (if m_ThreadLive s then 1 else 0) + m_Orphans s \<and>
     (m_ThreadLive s \<longrightarrow> m_WorkerStarted s) \<and> m_WorkerStarted s = (m_ThreadObject s \<noteq> 0) \<and> \<not> m_Destroyed s"

text \<open>A successful \<open>ObReferenceObjectByHandle\<close> does not return NULL.\<close>

definition threads_ok :: "'e wave_kernel \<Rightarrow> bool" where
  "threads_ok W \<longleftrightarrow> (\<forall>e. NT_SUCCESS (fst (ObReferenceObjectByHandle W e)) \<longrightarrow>
     fst (snd (ObReferenceObjectByHandle W e)) \<noteq> 0)"

text \<open>The members that starting and stopping do not change.\<close>

definition members_frame :: "('q, 'e) wave_stream \<Rightarrow> ('q, 'e) wave_stream \<Rightarrow> bool" where
  "members_frame s s' \<longleftrightarrow> m_StreamId s' = m_StreamId s \<and> m_Capture s' = m_Capture s \<and>
     m_Mdl s' = m_Mdl s \<and> m_Mdls s' = m_Mdls s \<and> (m_Buffer s' = None) = (m_Buffer s = None) \<and>
     m_BufferSize s' = m_BufferSize s \<and> m_NotificationCount s' = m_NotificationCount s \<and>
     m_PacketSize s' = m_PacketSize s \<and> m_This s' = m_This s \<and>
     mutex_count (m_Device s') = mutex_count (m_Device s)"

lemma members_frame_refl [simp]: "members_frame s s"
  by (simp add: members_frame_def)

lemma members_frame_trans: "members_frame a b \<Longrightarrow> members_frame b c \<Longrightarrow> members_frame a c"
  by (simp add: members_frame_def)

lemma stream_frame_life:
  assumes "stream_frame s s'"
  shows "members_frame s s'" "life_inv c s' = life_inv c s" "m_State s' = m_State s"
    "m_WorkerStarted s' = m_WorkerStarted s"
  using assms by (simp_all add: stream_frame_def members_frame_def life_inv_def)

lemma Release_in_worker_ok:
  assumes "life_inv c s" "0 < c" "m_ThreadLive s"
  shows "Release_in_worker (s\<lparr>m_ThreadLive := False\<rparr>) = Some (s\<lparr>m_ThreadLive := False, m_RefCount := m_RefCount s - 1\<rparr>)"
    "life_inv c (s\<lparr>m_ThreadLive := False, m_RefCount := m_RefCount s - 1\<rparr>)"
  using assms by (auto simp: life_inv_def Release_in_worker_def Let_def)

context virtio_snd
begin

lemma render_StopRenderWorker_ok:
  assumes "render_inv inv inflight P s" "life_inv c s" "0 < c"
  obtains stopped s' where "StopRenderWorker K W s = Some (stopped, s')" "render_inv inv inflight P s'" "life_inv c s'"
    "members_frame s s'" "m_State s' = m_State s" "m_OutstandingWrites s' = m_OutstandingWrites s"
    "stopped \<Longrightarrow> m_ThreadObject s' = 0 \<and> \<not> m_ThreadLive s'"
    "\<not> stopped \<Longrightarrow> m_ThreadLive s' \<and> m_WorkerStarted s'" "m_WorkerStarted s' \<Longrightarrow> m_WorkerStarted s"
proof (cases "m_ThreadObject s = 0")
  case True
  let ?s = "s\<lparr>m_WorkerStarted := False\<rparr>"
  have "render_inv inv inflight P ?s" by (rule render_inv_cong [OF assms(1)]) (simp_all add: render_phase [OF assms(1)])
  moreover have "life_inv c ?s" "\<not> m_ThreadLive s" using assms(2) True by (auto simp: life_inv_def)
  ultimately show thesis
    using True by (intro that [of True ?s]) (simp_all add: StopRenderWorker_def members_frame_def)
next
  case obj: False
  obtain x e where w: "worker_exits W (ext (m_Device s)) = (x, e)" by force
  let ?t = "s\<lparr>m_StopEvent := True\<rparr>"
  let ?s = "?t\<lparr>m_Device := (m_Device ?t)\<lparr>ext := e\<rparr>\<rparr>"
  have "render_inv inv inflight P ?t" by (rule render_inv_cong [OF assms(1)]) (simp_all add: render_phase [OF assms(1)])
  then have r: "render_inv inv inflight P ?s" by (rule render_env)
  have l: "life_inv c ?s" and cap: "\<not> m_Capture ?s" using assms(2) render_invD(2) [OF assms(1)] by (auto simp: life_inv_def)
  show thesis
  proof (cases "m_ThreadLive s \<and> \<not> x")
    case True
    then have "StopRenderWorker K W s = Some (False, ?s)" using obj w cap by (simp add: StopRenderWorker_def Let_def)
    moreover have "m_WorkerStarted s" using True assms(2) by (simp add: life_inv_def)
    ultimately show thesis using True l r
      by (intro that [of False ?s]) (simp_all add: members_frame_def)
  next
    case False
    let ?u = "if m_ThreadLive s then ?s\<lparr>m_ThreadLive := False, m_RefCount := m_RefCount ?s - 1\<rparr> else ?s"
    have u: "(if m_ThreadLive s then worker_exit K ?s else Some ?s) = Some ?u" "life_inv c ?u"
      using Release_in_worker_ok [OF l assms(3)] l cap by (simp_all add: worker_exit_def worker_epilogue_def)
    let ?v = "?u\<lparr>m_ThreadObject := 0, m_WorkerStarted := False\<rparr>"
    have v: "render_inv inv inflight P ?v" by (rule render_inv_cong [OF r]) (simp_all add: render_phase [OF assms(1)])
    obtain s' where s': "FreeRenderIoPool ?v = Some s'" "render_inv inv inflight P s'" "repooled ?v s'"
      by (rule render_free_pool_ok [OF v]) (rule that; assumption)
    note m = repooled_members [OF s'(3)]
    have lv: "life_inv c ?v" "\<not> m_ThreadLive ?v" using u(2) by (auto simp: life_inv_def)
    have f: "members_frame s ?v" by (simp add: members_frame_def)
    have "\<not> m_Destroyed ?u" using u(2) by (simp add: life_inv_def)
    then have e: "StopRenderWorker K W s = Some (True, s')"
      using obj w False u(1) s'(1) cap by (simp add: StopRenderWorker_def Let_def split: if_splits)
    have t: "m_ThreadObject s' = 0 \<and> \<not> m_ThreadLive s'" "\<not> m_WorkerStarted s'"
      using m(1) lv(2) by (simp_all add: stream_frame_def split: if_splits)
    show thesis
      by (rule that [OF e s'(2) _ members_frame_trans [OF f stream_frame_life(1) [OF m(1)]]])
        (use lv(1) t m stream_frame_life(2) [OF m(1)] in simp_all)
  qed
qed

lemma render_StartRenderWorker_ok:
  assumes "render_inv inv inflight P s" "life_inv c s" "0 < c" "threads_ok W"
  obtains status s' where "StartRenderWorker K W s = Some (status, s')" "render_inv inv inflight P s'" "life_inv c s'"
    "members_frame s s'" "m_State s' = m_State s" "m_OutstandingWrites s' = m_OutstandingWrites s"
    "NT_SUCCESS status \<Longrightarrow> m_WorkerStarted s'"
proof (cases "m_WorkerStarted s")
  case True
  then show thesis using assms by (intro that [of STATUS_SUCCESS s]) (simp_all add: StartRenderWorker_def)
next
  case nw: False
  note r = render_invD [OF assms(1)]
  obtain st1 s1 where 1: "AllocateRenderIoPool K s = Some (st1, s1)" "stream_inv inv inflight P s1" "repooled s s1"
    "flight inflight (m_Device s1) = flight inflight (m_Device s)"
    by (rule AllocateRenderIoPool_ok [OF r(1)]) (rule that; assumption)
  note m1 = repooled_members [OF 1(3)] and sl1 = stream_frame_life [OF repooled_members(1) [OF 1(3)]]
  have r1: "render_inv inv inflight P s1" by (rule render_repooled [OF assms(1) 1(2,3)]) (simp add: 1(4))
  have l1: "life_inv c s1" using assms(2) sl1(2) by simp
  show thesis
  proof (cases "NT_SUCCESS st1")
    case False
    then have "StartRenderWorker K W s = Some (st1, s1)" using nw r(2) 1(1) by (simp add: StartRenderWorker_def)
    then show thesis using False r1 l1 sl1(1) m1 by (intro that [of st1 s1]) simp_all
  next
    case ok1: True
    let ?a = "AddRef (s1\<lparr>m_StopEvent := False, m_KickEvent := False\<rparr>)"
    obtain st2 e2 where 2: "PsCreateSystemThread W (ext (m_Device s1)) = (st2, e2)" by force
    let ?s2 = "?a\<lparr>m_Device := (m_Device ?a)\<lparr>ext := e2\<rparr>\<rparr>"
    have "render_inv inv inflight P ?a" by (rule render_inv_cong [OF r1]) (simp_all add: AddRef_def render_phase [OF r1])
    then have r2: "render_inv inv inflight P ?s2" by (rule render_env)
    have w1: "\<not> m_WorkerStarted s1" "m_ThreadObject s1 = 0" "\<not> m_ThreadLive s1"
      using nw sl1(4) l1 by (auto simp: life_inv_def)
    have mf2: "members_frame s ?s2" using sl1(1) by (simp add: members_frame_def AddRef_def)
    have rc: "m_RefCount ?s2 = c + 1 + m_Orphans ?s2" "\<not> m_Destroyed ?s2" using l1 w1 by (simp_all add: life_inv_def AddRef_def)
    show thesis
    proof (cases "NT_SUCCESS st2")
      case False
      let ?s3 = "?s2\<lparr>m_RefCount := m_RefCount ?s2 - 1\<rparr>"
      have rel: "Release K W ?s2 = Some ?s3"
        using rc assms(3) w1 by (simp add: Release_def AddRef_def Let_def)
      have e: "StartRenderWorker K W s = Some (st2, ?s3)"
        using nw r(2) 1(1) ok1 2 False rel by (simp add: StartRenderWorker_def Let_def AddRef_def)
      have "render_inv inv inflight P ?s3" by (rule render_inv_cong [OF r2]) (simp_all add: render_phase [OF r1] AddRef_def)
      moreover have "life_inv c ?s3" using rc w1 by (simp add: life_inv_def AddRef_def)
      ultimately show thesis using mf2 m1 False
        by (intro that [OF e]) (simp_all add: members_frame_def AddRef_def)
    next
      case ok2: True
      obtain st3 th e3 where 3: "ObReferenceObjectByHandle W e2 = (st3, th, e3)" by (metis prod_cases3)
      have th: "NT_SUCCESS st3 \<Longrightarrow> th \<noteq> 0" using assms(4) 3 unfolding threads_ok_def by (metis fst_conv snd_conv)
      let ?s3 = "?s2\<lparr>m_Device := (m_Device ?s2)\<lparr>ext := e3\<rparr>\<rparr>"
      have r3: "render_inv inv inflight P ?s3" by (rule render_env [OF r2])
      let ?f = "?s3\<lparr>m_ThreadObject := 0, m_StopEvent := True, m_Orphans := m_Orphans ?s3 + 1\<rparr>"
      let ?g = "?s3\<lparr>m_ThreadObject := th, m_WorkerStarted := True, m_ThreadLive := True\<rparr>"
      have e: "StartRenderWorker K W s = Some (if \<not> NT_SUCCESS st3 then (st3, ?f) else (STATUS_SUCCESS, ?g))"
        using nw r(2) 1(1) ok1 2 ok2 3 by (simp add: StartRenderWorker_def Let_def AddRef_def)
      have "render_inv inv inflight P ?f" "render_inv inv inflight P ?g"
        by (rule render_inv_cong [OF r3]; simp add: render_phase [OF r1] AddRef_def)+
      note rfg = this
      have lf: "life_inv c ?f" using rc w1 by (simp add: life_inv_def AddRef_def)
      have lg: "NT_SUCCESS st3 \<Longrightarrow> life_inv c ?g" using rc w1 th by (simp add: life_inv_def AddRef_def)
      have mf: "members_frame s ?f" "members_frame s ?g" using mf2 by (simp_all add: members_frame_def)
      have st: "m_State ?f = m_State s" "m_State ?g = m_State s" "m_OutstandingWrites ?f = m_OutstandingWrites s"
        "m_OutstandingWrites ?g = m_OutstandingWrites s" using m1 by (simp_all add: AddRef_def)
      show thesis
      proof (cases "NT_SUCCESS st3")
        case True
        then have "StartRenderWorker K W s = Some (STATUS_SUCCESS, ?g)" using e by simp
        then show thesis by (rule that [OF _ rfg(2) lg [OF True] mf(2) st(2,4)]) simp
      next
        case False
        then have "StartRenderWorker K W s = Some (st3, ?f)" using e by simp
        then show thesis by (rule that [OF _ rfg(1) lf mf(1) st(1,3)]) (use False in simp)
      qed
    qed
  qed
qed

end

section \<open>State transitions of a playback stream\<close>

text \<open>A sequence of steps that each return and keep \<open>R\<close>.\<close>

lemma if_success_step:
  assumes "R t" "\<And>t. R t \<Longrightarrow> \<exists>st t'. f t = Some (st, t') \<and> R t'"
  obtains st' t' where "if_success f (st, t) = Some (st', t')" "R t'"
  using that assms(1) assms(2) [OF assms(1)] by (cases "NT_SUCCESS st") (auto simp: if_success_def)

text \<open>What the parts of a state transition keep, relative to the stream \<open>s\<close> it starts from.\<close>

definition render_part ::
  "('q \<Rightarrow> bool) \<Rightarrow> ('q \<Rightarrow> opaque multiset) \<Rightarrow> ptr set \<Rightarrow> nat \<Rightarrow> ('q, 'e) wave_stream \<Rightarrow> ('q, 'e) wave_stream \<Rightarrow> bool" where
  "render_part qinv inflight P c s t \<longleftrightarrow>
     render_inv qinv inflight P t \<and> life_inv c t \<and> members_frame s t \<and> m_State t = m_State s"

lemma render_partI:
  assumes "render_part qinv inflight P c s t" "render_inv qinv inflight P t'" "stream_frame t t'"
  shows "render_part qinv inflight P c s t'"
  using assms stream_frame_life [OF assms(3)] members_frame_trans unfolding render_part_def by metis

lemma render_part_cong:
  assumes "render_part qinv inflight P c s t" "m_Device s' = m_Device t"
    "m_RenderIoPool s' = m_RenderIoPool t" "m_RenderIoFreeCount s' = m_RenderIoFreeCount t"
    "m_CaptureIoPool s' = m_CaptureIoPool t" "m_CaptureIoFreeCount s' = m_CaptureIoFreeCount t"
    "m_Buffer s' = m_Buffer t" "m_PacketSize s' = m_PacketSize t" "m_EosPacketLength s' = m_EosPacketLength t"
    "m_NotificationCount s' = m_NotificationCount t" "m_RenderFallbackBuffer s' = m_RenderFallbackBuffer t"
    "m_RenderFallbackBufferSize s' = m_RenderFallbackBufferSize t" "m_RenderFallbackPhase s' < VIOSND_DEFAULT_SAMPLE_RATE"
    "m_Capture s' = m_Capture t" "m_OutstandingWrites s' = m_OutstandingWrites t" "stream_frame t s'"
  shows "render_part qinv inflight P c s s'"
proof -
  have "render_inv qinv inflight P t" using assms(1) by (simp add: render_part_def)
  from render_partI [OF assms(1) render_inv_cong [OF this assms(2-15)] assms(16)] show ?thesis .
qed

context virtio_snd
begin

lemma part_command:
  assumes "render_part inv inflight P c s t" "f \<in> stream_commands K sid"
  shows "\<exists>st t'. on_device f t = Some (st, t') \<and> render_part inv inflight P c s t' \<and> repooled t t'"
proof -
  have "render_inv inv inflight P t" using assms(1) by (simp add: render_part_def)
  then obtain st t' where "on_device f t = Some (st, t')" "render_inv inv inflight P t'" "repooled t t'"
    by (rule render_command_ok [OF _ assms(2)])
  then show ?thesis using render_partI [OF assms(1)] repooled_members(1) by blast
qed

lemma part_cancel:
  assumes "render_part inv inflight P c s t" "tx_granted K"
  obtains t' t2 where "CancelRenderWrites K t = Some t'" "FreeRenderIoPool t' = Some t2" "render_part inv inflight P c s t2"
    "m_OutstandingWrites t2 = 0" "m_RenderIoFreeCount t2 = 0" "m_RenderFallbackBuffer t2 = None"
    "m_ThreadLive t2 = m_ThreadLive t" "m_WorkerStarted t2 = m_WorkerStarted t"
    "flight inflight (m_Device t2) VIRTIO_SND_VQ_TX = {#}"
proof -
  have r: "render_inv inv inflight P t" using assms(1) by (simp add: render_part_def)
  obtain t' where 1: "CancelRenderWrites K t = Some t'" "render_inv inv inflight P t'" "reclaimed t t'" "m_OutstandingWrites t' = 0"
    by (rule render_cancel_ok [OF r assms(2)])
  obtain t2 where 2: "FreeRenderIoPool t' = Some t2" "render_inv inv inflight P t2" "repooled t' t2"
    "m_RenderIoFreeCount t2 = 0 \<and> m_RenderFallbackBuffer t2 = None"
    using render_free_pool_ok [OF 1(2)] 1(4) by blast
  have f: "stream_frame t t2" by (rule stream_frame_trans [OF reclaimed_members(1) [OF 1(3)] repooled_members(1) [OF 2(3)]])
  have z: "m_OutstandingWrites t2 = 0" using repooled_members(3) [OF 2(3)] 1(4) by simp
  then have "flight inflight (m_Device t2) VIRTIO_SND_VQ_TX = {#}" using render_invD(3) [OF 2(2)] by simp
  then show thesis
    using that 1(1) 2(1,4) render_partI [OF assms(1) 2(2) f] z f by (simp add: stream_frame_def)
qed

lemma run_render_ok:
  assumes "render_inv inv inflight P s" "life_inv c s" "0 < c" "threads_ok W" "tx_granted K" "m_State s \<noteq> KSSTATE_RUN"
  obtains status s' where "run_render K W s = Some (status, s')" "render_inv inv inflight P s'" "life_inv c s'"
    "members_frame s s'"
    "NT_SUCCESS status \<Longrightarrow> m_State s' = KSSTATE_RUN \<and> m_WorkerStarted s'"
    "\<not> NT_SUCCESS status \<Longrightarrow> m_State s' = m_State s \<and> m_OutstandingWrites s' = 0 \<and> m_RunStartQpc s' = 0"
proof -
  let ?R = "render_part inv inflight P c s"
  let ?s0 = "clear_clock (s\<lparr>m_RenderUnderruns := 0, m_RenderFallbackPackets := 0,
       m_RenderPrerollPackets := (if m_State s = KSSTATE_STOP then VIOSND_RENDER_CYCLIC_PREROLL_PACKETS else 0),
       m_RenderStallLoops := 0, m_RenderNotReadyLoops := 0, m_RenderPositionQueries := 0,
       m_RenderFallbackPhase := 0, m_RenderFallbackActive := False,
       m_RenderFallbackAttempted := False, m_FallbackMonitorStartPosition := 0,
       m_FallbackMonitorStartQpc := 0\<rparr>)"
  have R: "?R s" using assms(1,2) by (simp add: render_part_def)
  have R0: "?R ?s0" by (rule render_part_cong [OF R]) (simp_all add: clear_clock_def stream_frame_def)
  have id: "m_StreamId ?s0 = m_StreamId s" by (simp add: clear_clock_def)
  obtain st1 s1 where 1: "on_device (ViosndConfigureDefaultPcm K (m_StreamId ?s0)) ?s0 = Some (st1, s1)" "?R s1"
    using part_command [OF R0, of "ViosndConfigureDefaultPcm K (m_StreamId ?s0)" "m_StreamId ?s0"] by blast
  have a: "\<exists>st t'. AllocateRenderIoPool K t = Some (st, t') \<and> ?R t'" if "?R t" for t
  proof -
    have r: "render_inv inv inflight P t" using that by (simp add: render_part_def)
    obtain st t' where p: "AllocateRenderIoPool K t = Some (st, t')" "stream_inv inv inflight P t'" "repooled t t'"
      "flight inflight (m_Device t') = flight inflight (m_Device t)"
      by (rule AllocateRenderIoPool_ok [OF render_invD(1) [OF r]]) (rule that; assumption)
    have "render_inv inv inflight P t'" by (rule render_repooled [OF r p(2,3)]) (simp add: p(4))
    then show ?thesis using p(1) render_partI [OF that _ repooled_members(1) [OF p(3)]] by blast
  qed
  obtain st2 s2 where 2: "if_success (AllocateRenderIoPool K) (st1, s1) = Some (st2, s2)" "?R s2"
    by (rule if_success_step [of ?R, OF 1(2) a])
  let ?pre = "\<lambda>s. do {
       (status, s) \<leftarrow> preroll K (unat VIOSND_RENDER_START_PREROLL_PACKETS) STATUS_SUCCESS s;
       Some (status, if NT_SUCCESS status then s\<lparr>m_RenderPrerollPackets := 0\<rparr> else s)
     }"
  have p: "\<exists>st t'. ?pre t = Some (st, t') \<and> ?R t'" if "?R t" for t
  proof -
    have r: "render_inv inv inflight P t" using that by (simp add: render_part_def)
    obtain st t' where p: "preroll K (unat VIOSND_RENDER_START_PREROLL_PACKETS) STATUS_SUCCESS t = Some (st, t')"
      "render_inv inv inflight P t'" "stream_frame t t'" using preroll_ok [OF r] by blast
    have r': "?R t'" by (rule render_partI [OF that p(2,3)])
    have "?R (t'\<lparr>m_RenderPrerollPackets := 0\<rparr>)"
      by (rule render_part_cong [OF r']) (simp_all add: stream_frame_def render_phase [OF p(2)])
    then show ?thesis using p(1) r' by simp
  qed
  obtain st3 s3 where 3: "if_success ?pre (st2, s2) = Some (st3, s3)" "?R s3"
    by (rule if_success_step [of ?R, OF 2(2) p])
  let ?start = "\<lambda>s. on_device (ViosndStartPcm K (m_StreamId s)) s"
  have "\<exists>st t'. ?start t = Some (st, t') \<and> ?R t'" if "?R t" for t
    using part_command [OF that, of "ViosndStartPcm K (m_StreamId t)" "m_StreamId t"] by blast
  then obtain st4 s4 where 4: "if_success ?start (st3, s3) = Some (st4, s4)" "?R s4"
    by (rule if_success_step [of ?R, OF 3(2)])
  define st0 where "st0 = m_State s"
  let ?run = "\<lambda>s. do {
       let (qpc, frequency, s) = query_qpc W s;
       (status, s) \<leftarrow> StartRenderWorker K W (s\<lparr>m_RunStartPosition := m_Position s,
         m_RunStartQpc := qpc, m_QpcFrequency := frequency, m_State := KSSTATE_RUN\<rparr>);
       if \<not> NT_SUCCESS status then do {
         (_, s) \<leftarrow> on_device (ViosndStopPcm K (m_StreamId s)) s;
         (_, s) \<leftarrow> on_device (ViosndReleasePcm K (m_StreamId s)) s;
         Some (status, s\<lparr>m_State := st0\<rparr>)
       } else Some (status, s)
     }"
  obtain st5 s5 where 5: "if_success ?run (st4, s4) = Some (st5, s5)"
    "NT_SUCCESS st5 \<Longrightarrow> render_inv inv inflight P s5 \<and> life_inv c s5 \<and> members_frame s s5 \<and> m_State s5 = KSSTATE_RUN \<and> m_WorkerStarted s5"
    "\<not> NT_SUCCESS st5 \<Longrightarrow> ?R s5"
  proof (cases "NT_SUCCESS st4")
    case False
    then show thesis using that [of st4 s4] 4(2) by (simp add: if_success_def)
  next
    case True
    have r4: "render_inv inv inflight P s4" using 4(2) by (simp add: render_part_def)
    obtain q fr t where q: "query_qpc W s4 = (q, fr, t)" "render_inv inv inflight P t" "repooled s4 t"
      by (rule query_qpc_ok [OF r4]) (rule that; assumption)
    have Rt: "?R t" by (rule render_partI [OF 4(2) q(2) repooled_members(1) [OF q(3)]])
    let ?u = "t\<lparr>m_RunStartPosition := m_Position t, m_RunStartQpc := q, m_QpcFrequency := fr, m_State := KSSTATE_RUN\<rparr>"
    have ru: "render_inv inv inflight P ?u" by (rule render_inv_cong [OF q(2)]) (simp_all add: render_phase [OF q(2)])
    have lu: "life_inv c ?u" "members_frame s ?u"
      using Rt by (auto simp: render_part_def life_inv_def members_frame_def)
    obtain st t1 where w: "StartRenderWorker K W ?u = Some (st, t1)" "render_inv inv inflight P t1" "life_inv c t1"
      "members_frame ?u t1" "m_State t1 = m_State ?u" "m_OutstandingWrites t1 = m_OutstandingWrites ?u" "NT_SUCCESS st \<Longrightarrow> m_WorkerStarted t1"
      by (rule render_StartRenderWorker_ok [OF ru lu(1) assms(3,4)]) (rule that; assumption)
    have mf: "members_frame s t1" by (rule members_frame_trans [OF lu(2) w(4)])
    show thesis
    proof (cases "NT_SUCCESS st")
      case ok: True
      have "if_success ?run (st4, s4) = Some (st, t1)" using True q(1) w(1) ok by (simp add: if_success_def Let_def)
      then show thesis using that [of st t1] ok w(2,3,5,7) mf by simp
    next
      case bad: False
      let ?v = "t1\<lparr>m_State := m_State s\<rparr>"
      have Rv: "render_part inv inflight P c t1 t1" using w(2,3) by (simp add: render_part_def)
      obtain a1 t2 where c1: "on_device (ViosndStopPcm K (m_StreamId t1)) t1 = Some (a1, t2)" "render_part inv inflight P c t1 t2"
        using part_command [OF Rv, of "ViosndStopPcm K (m_StreamId t1)" "m_StreamId t1"] by blast
      obtain a2 t3 where c2: "on_device (ViosndReleasePcm K (m_StreamId t2)) t2 = Some (a2, t3)" "render_part inv inflight P c t1 t3"
        using part_command [OF c1(2), of "ViosndReleasePcm K (m_StreamId t2)" "m_StreamId t2"] by blast
      let ?w = "t3\<lparr>m_State := m_State s\<rparr>"
      have r3: "render_inv inv inflight P t3" using c2(2) by (simp add: render_part_def)
      have "render_inv inv inflight P ?w" by (rule render_inv_cong [OF r3]) (simp_all add: render_phase [OF r3])
      moreover have "life_inv c ?w" "members_frame t1 ?w" using c2(2) by (auto simp: render_part_def life_inv_def members_frame_def)
      ultimately have "?R ?w" using members_frame_trans [OF mf] by (simp add: render_part_def)
      moreover have "if_success ?run (st4, s4) = Some (st, ?w)"
        using True q(1) w(1) bad c1(1) c2(1) by (simp add: if_success_def Let_def st0_def)
      ultimately show thesis using that [of st ?w] bad by simp
    qed
  qed
  have e: "run_render K W s = (if \<not> NT_SUCCESS st5 then do {
       s \<leftarrow> CancelRenderWrites K s5;
       s \<leftarrow> FreeRenderIoPool s;
       Some (st5, (clear_clock s)\<lparr>m_State := st0\<rparr>)
     } else Some (st5, s5))"
    unfolding run_render_def Let_def st0_def [symmetric] 1(1) [unfolded st0_def [symmetric]] bind.bind_lunit 2(1) 3(1) 4(1)
      5(1) [unfolded Let_def] prod.case by (rule refl)
  show thesis
  proof (cases "NT_SUCCESS st5")
    case True
    then show thesis using that [of st5 s5] e 5(2) by simp
  next
    case False
    obtain t t2 where c: "CancelRenderWrites K s5 = Some t" "FreeRenderIoPool t = Some t2" "?R t2" "m_OutstandingWrites t2 = 0"
      by (rule part_cancel [OF 5(3) [OF False] assms(5)])
    let ?t = "(clear_clock t2)\<lparr>m_State := st0\<rparr>"
    have r: "render_inv inv inflight P t2" "m_State t2 = m_State s" using c(3) by (simp_all add: render_part_def)
    have "render_inv inv inflight P ?t" by (rule render_inv_cong [OF r(1)]) (simp_all add: clear_clock_def render_phase [OF r(1)])
    moreover have "life_inv c ?t" "members_frame s ?t"
      using c(3) by (auto simp: render_part_def life_inv_def members_frame_def clear_clock_def)
    moreover have "run_render K W s = Some (st5, ?t)" using e False c(1,2) by simp
    ultimately show thesis using that [of st5 ?t] False c(4) by (simp add: st0_def clear_clock_def)
  qed
qed

end

lemma render_clock_ok:
  assumes "render_inv qinv inflight P s"
  obtains pos s' where "GetRenderClockPosition W s = (pos, s')" "render_inv qinv inflight P s'" "stream_frame s s'"
    "m_OutstandingWrites s' = m_OutstandingWrites s"
proof (cases "m_Capture s \<or> m_RunStartQpc s = 0 \<or> sint (m_QpcFrequency s) \<le> 0")
  case True
  then have "GetRenderClockPosition W s = (m_Position s, s)" by (simp add: GetRenderClockPosition_def)
  then show thesis using that [of "m_Position s" s] assms by simp
next
  case False
  obtain q f t where q: "query_qpc W s = (q, f, t)" "render_inv qinv inflight P t" "repooled s t"
    "m_OutstandingWrites t = m_OutstandingWrites s"
    by (rule query_qpc_ok [OF assms]) (rule that; assumption)
  show thesis
    by (rule that [OF _ q(2) repooled_members(1) [OF q(3)] q(4)])
      (use False q(1) in \<open>simp add: GetRenderClockPosition_def\<close>)
qed

context virtio_snd
begin

lemma quiesce_render_ok:
  assumes "render_inv inv inflight P s" "life_inv c s" "0 < c" "tx_granted K"
  obtains status s' where "quiesce_render K W s = Some (status, s')" "render_part inv inflight P c s s'"
    "m_OutstandingWrites s' = 0" "m_RenderIoFreeCount s' = 0" "m_RenderFallbackBuffer s' = None"
    "flight inflight (m_Device s') VIRTIO_SND_VQ_TX = {#}"
    "status = STATUS_SUCCESS \<and> \<not> m_WorkerStarted s' \<and> m_RunStartQpc s' = 0 \<or>
     status = STATUS_DEVICE_BUSY \<and> m_ThreadLive s'"
proof -
  let ?R = "render_part inv inflight P c s"
  have stop: "\<exists>b t'. StopRenderWorker K W t = Some (b, t') \<and> ?R t' \<and> (b \<longrightarrow> \<not> m_ThreadLive t') \<and>
      (\<not> b \<longrightarrow> m_ThreadLive t' \<and> m_WorkerStarted t') \<and> (b \<longrightarrow> m_ThreadObject t' = 0)" if "?R t" for t
  proof -
    have r: "render_inv inv inflight P t" "life_inv c t" "members_frame s t" "m_State t = m_State s" using that by (simp_all add: render_part_def)
    obtain b t' where b: "StopRenderWorker K W t = Some (b, t')" "render_inv inv inflight P t'" "life_inv c t'"
      "members_frame t t'" "m_State t' = m_State t" "b \<Longrightarrow> m_ThreadObject t' = 0 \<and> \<not> m_ThreadLive t'"
      "\<not> b \<Longrightarrow> m_ThreadLive t' \<and> m_WorkerStarted t'"
      by (rule render_StopRenderWorker_ok [OF r(1,2) assms(3)]) (rule that; assumption)
    have "?R t'" using b(2,3,5) r(4) members_frame_trans [OF r(3) b(4)] by (simp add: render_part_def)
    then show ?thesis using b(1,6,7) by blast
  qed
  have R: "?R s" using assms(1,2) by (simp add: render_part_def)
  obtain b1 s1 where 1: "stop_worker K W s = Some (b1, s1)" "?R s1" "b1 \<Longrightarrow> \<not> m_WorkerStarted s1"
    "\<not> b1 \<Longrightarrow> m_ThreadLive s1 \<and> m_WorkerStarted s1"
  proof (cases "m_WorkerStarted s")
    case False
    then show thesis using that [of True s] R by (simp add: stop_worker_def)
  next
    case True
    obtain b t' where b: "StopRenderWorker K W s = Some (b, t')" "?R t'" "b \<longrightarrow> m_ThreadObject t' = 0"
      "\<not> b \<longrightarrow> m_ThreadLive t' \<and> m_WorkerStarted t'" using stop [OF R] by blast
    have "m_WorkerStarted t' = (m_ThreadObject t' \<noteq> 0)" using b(2) by (simp add: render_part_def life_inv_def)
    then show thesis using that [of b t'] b True by (simp add: stop_worker_def)
  qed
  obtain a2 s2 where 2: "on_device (ViosndStopPcm K (m_StreamId s1)) s1 = Some (a2, s2)" "?R s2" "repooled s1 s2"
    using part_command [OF 1(2), of "ViosndStopPcm K (m_StreamId s1)" "m_StreamId s1"] by blast
  obtain a3 s3 where 3: "on_device (ViosndReleasePcm K (m_StreamId s2)) s2 = Some (a3, s3)" "?R s3" "repooled s2 s3"
    using part_command [OF 2(2), of "ViosndReleasePcm K (m_StreamId s2)" "m_StreamId s2"] by blast
  have w3: "m_WorkerStarted s3 = m_WorkerStarted s1" "m_ThreadLive s3 = m_ThreadLive s1"
    using repooled_members(1) [OF 2(3)] repooled_members(1) [OF 3(3)] by (simp_all add: stream_frame_def)
  obtain b4 s4 where 4: "(if \<not> b1 \<and> m_WorkerStarted s3 then StopRenderWorker K W s3 else Some (b1, s3)) = Some (b4, s4)"
    "?R s4" "b4 \<Longrightarrow> \<not> m_WorkerStarted s4" "\<not> b4 \<Longrightarrow> m_ThreadLive s4"
  proof (cases b1)
    case True
    then show thesis using that [of b1 s3] 3(2) 1(3) w3 by simp
  next
    case False
    obtain b t' where b: "StopRenderWorker K W s3 = Some (b, t')" "?R t'" "b \<longrightarrow> m_ThreadObject t' = 0"
      "\<not> b \<longrightarrow> m_ThreadLive t' \<and> m_WorkerStarted t'" using stop [OF 3(2)] by blast
    have "m_WorkerStarted t' = (m_ThreadObject t' \<noteq> 0)" using b(2) by (simp add: render_part_def life_inv_def)
    then show thesis using that [of b t'] b False 1(4) w3 by simp
  qed
  obtain s5 s6 where 5: "CancelRenderWrites K s4 = Some s5" "FreeRenderIoPool s5 = Some s6" "?R s6"
    "m_OutstandingWrites s6 = 0" "m_RenderIoFreeCount s6 = 0" "m_RenderFallbackBuffer s6 = None"
    "m_ThreadLive s6 = m_ThreadLive s4" "m_WorkerStarted s6 = m_WorkerStarted s4"
    "flight inflight (m_Device s6) VIRTIO_SND_VQ_TX = {#}"
    by (rule part_cancel [OF 4(2) assms(4)])
  have e: "quiesce_render K W s = (if b4 then let (position, s) = GetRenderClockPosition W s6
          in Some (STATUS_SUCCESS, clear_clock (s\<lparr>m_Position := position\<rparr>)) else Some (STATUS_DEVICE_BUSY, s6))"
    unfolding quiesce_render_def 1(1) bind.bind_lunit prod.case 2(1) 3(1) 4(1) 5(1,2) by (rule refl)
  show thesis
  proof (cases b4)
    case False
    then have "quiesce_render K W s = Some (STATUS_DEVICE_BUSY, s6)" using e by simp
    then show thesis by (rule that [OF _ 5(3-6,9)]) (use False 4(4) 5(7) in simp)
  next
    case True
    have r6: "render_inv inv inflight P s6" using 5(3) by (simp add: render_part_def)
    obtain pos t where t: "GetRenderClockPosition W s6 = (pos, t)" "render_inv inv inflight P t" "stream_frame s6 t"
      "m_OutstandingWrites t = m_OutstandingWrites s6" by (rule render_clock_ok [OF r6])
    have td: "m_RenderIoFreeCount t = m_RenderIoFreeCount s6" "m_RenderFallbackBuffer t = m_RenderFallbackBuffer s6"
      "Queues (m_Device t) = Queues (m_Device s6)"
      using t(1) by (auto simp: GetRenderClockPosition_def query_qpc_def Let_def split: if_splits prod.splits)
    have Rt: "?R t" by (rule render_partI [OF 5(3) t(2,3)])
    let ?t = "clear_clock (t\<lparr>m_Position := pos\<rparr>)"
    have "?R ?t" by (rule render_part_cong [OF Rt]) (simp_all add: clear_clock_def stream_frame_def render_phase [OF t(2)])
    moreover have "quiesce_render K W s = Some (STATUS_SUCCESS, ?t)" using e True t(1) by simp
    moreover have "\<not> m_WorkerStarted ?t" using True 4(3) 5(8) t(3) by (simp add: clear_clock_def stream_frame_def)
    ultimately show thesis
      using that [of STATUS_SUCCESS ?t] t(4) td flight_cong [OF td(3), of inflight] 5(4-6,9) by (simp add: clear_clock_def)
  qed
qed

text \<open>
  Every change of state of a playback stream returns.  On success the stream is in the state that
  was asked for, on failure in the one it was in; outside \<open>KSSTATE_RUN\<close> nothing is outstanding.
\<close>

lemma render_SetState_ok:
  assumes "render_inv inv inflight P s" "life_inv c s" "0 < c" "threads_ok W" "tx_granted K"
    "m_State s \<noteq> KSSTATE_RUN \<Longrightarrow> m_OutstandingWrites s = 0"
  obtains status s' where "SetState K W State s = Some (status, s')" "render_inv inv inflight P s'" "life_inv c s'"
    "members_frame s s'" "m_State s' = (if NT_SUCCESS status then State else m_State s)"
    "m_State s' \<noteq> KSSTATE_RUN \<Longrightarrow> m_OutstandingWrites s' = 0"
    "NT_SUCCESS status \<Longrightarrow> State = KSSTATE_RUN \<Longrightarrow> m_State s \<noteq> KSSTATE_RUN \<Longrightarrow> m_WorkerStarted s'"
    "NT_SUCCESS status \<Longrightarrow> State \<noteq> KSSTATE_RUN \<Longrightarrow> m_State s = KSSTATE_RUN \<Longrightarrow>
       \<not> m_WorkerStarted s' \<and> flight inflight (m_Device s') VIRTIO_SND_VQ_TX = {#} \<and> m_RenderIoFreeCount s' = 0 \<and>
       (State = KSSTATE_STOP \<longrightarrow> m_Position s' = 0 \<and> m_PacketNumber s' = 0 \<and> m_NextSubmitPacket s' = 0 \<and>
          m_LastOsWritePacket s' = MAXULONG)"
proof -
  note cap = render_invD(2) [OF assms(1)]
  have kick: "render_inv inv inflight P (t\<lparr>m_KickEvent := True\<rparr>)" "life_inv c (t\<lparr>m_KickEvent := True\<rparr>) = life_inv c t"
    "members_frame s (t\<lparr>m_KickEvent := True\<rparr>) = members_frame s t" if "render_inv inv inflight P t" for t
    by (rule render_inv_cong [OF that]) (simp_all add: life_inv_def members_frame_def render_phase [OF that])
  let ?fin = "\<lambda>st t. if NT_SUCCESS st \<and> State = KSSTATE_RUN \<and> \<not> m_Capture t then t\<lparr>m_KickEvent := True\<rparr> else t"
  consider (run) "State = KSSTATE_RUN" "m_State s \<noteq> KSSTATE_RUN" | (stop) "State \<noteq> KSSTATE_RUN" "m_State s = KSSTATE_RUN"
    | (other) "(State = KSSTATE_RUN) = (m_State s = KSSTATE_RUN)" by blast
  then show thesis
  proof cases
    case run
    obtain st t where t: "run_render K W s = Some (st, t)" "render_inv inv inflight P t" "life_inv c t" "members_frame s t"
      "NT_SUCCESS st \<Longrightarrow> m_State t = KSSTATE_RUN \<and> m_WorkerStarted t"
      "\<not> NT_SUCCESS st \<Longrightarrow> m_State t = m_State s \<and> m_OutstandingWrites t = 0 \<and> m_RunStartQpc t = 0"
      by (rule run_render_ok [OF assms(1-5) run(2)]) (rule that; assumption)
    have ct: "\<not> m_Capture t" using render_invD(2) [OF t(2)] .
    have e: "SetState K W State s = Some (st, ?fin st t)" using run cap t(1) by (simp add: SetState_def)
    show thesis
      by (rule that [OF e]) (use t(2-6) kick [OF t(2)] run ct in \<open>simp_all split: if_splits\<close>)
  next
    case stop
    let ?s = "s\<lparr>m_State := State\<rparr>"
    have r0: "render_inv inv inflight P ?s" by (rule render_inv_cong [OF assms(1)]) (simp_all add: render_phase [OF assms(1)])
    have l0: "life_inv c ?s" "members_frame s ?s" using assms(2) by (auto simp: life_inv_def members_frame_def)
    obtain st t where t: "quiesce_render K W ?s = Some (st, t)" "render_part inv inflight P c ?s t"
      "m_OutstandingWrites t = 0" "m_RenderIoFreeCount t = 0" "m_RenderFallbackBuffer t = None"
      "flight inflight (m_Device t) VIRTIO_SND_VQ_TX = {#}"
      "st = STATUS_SUCCESS \<and> \<not> m_WorkerStarted t \<and> m_RunStartQpc t = 0 \<or> st = STATUS_DEVICE_BUSY \<and> m_ThreadLive t"
      by (rule quiesce_render_ok [OF r0 l0(1) assms(3,5)]) (rule that; assumption)
    have p: "render_inv inv inflight P t" "life_inv c t" "members_frame s t" "m_State t = State" "\<not> m_Capture t"
      using t(2) members_frame_trans [OF l0(2)] by (auto simp: render_part_def render_inv_def)
    let ?u = "if \<not> NT_SUCCESS st then t\<lparr>m_State := m_State s\<rparr> else if State = KSSTATE_STOP then reset_stopped t else t"
    have e: "SetState K W State s = Some (st, ?u)" using stop cap t(1) by (simp add: SetState_def)
    have a: "render_inv inv inflight P (t\<lparr>m_State := m_State s\<rparr>)" "life_inv c (t\<lparr>m_State := m_State s\<rparr>)"
      "members_frame s (t\<lparr>m_State := m_State s\<rparr>)"
      by (rule render_inv_cong [OF p(1)]; simp add: render_phase [OF p(1)])
        (use p(2,3) in \<open>auto simp: life_inv_def members_frame_def\<close>)
    have z: "m_EosPacketLength (reset_stopped t) = 0" "m_RenderFallbackPhase (reset_stopped t) = 0" "\<not> m_Capture (reset_stopped t)"
      "m_Device (reset_stopped t) = m_Device t" "fb_blocks (reset_stopped t) = fb_blocks t"
      "m_OutstandingWrites (reset_stopped t) = 0" "m_Buffer (reset_stopped t) = m_Buffer t"
      "m_RenderFallbackBuffer (reset_stopped t) = m_RenderFallbackBuffer t"
      "m_PacketSize (reset_stopped t) = m_PacketSize t" "m_NotificationCount (reset_stopped t) = m_NotificationCount t"
      "m_RenderIoPool (reset_stopped t) = m_RenderIoPool t" "m_RenderIoFreeCount (reset_stopped t) = m_RenderIoFreeCount t"
      "m_CaptureIoPool (reset_stopped t) = m_CaptureIoPool t" "m_CaptureIoFreeCount (reset_stopped t) = m_CaptureIoFreeCount t"
      "m_State (reset_stopped t) = m_State t" "m_WorkerStarted (reset_stopped t) = m_WorkerStarted t"
      using p(5) by (simp_all add: reset_stopped_def clear_clock_def fb_blocks_def)
    have b: "render_inv inv inflight P (reset_stopped t)"
      using p(1) t(5,6) z(1-14) unfolding render_inv_def stream_inv_def geom_ok_def fb_ok_def
      by (simp add: t(3) cong: option.case_cong)
    have c: "life_inv c (reset_stopped t)" "members_frame s (reset_stopped t)"
      using p(2,3) by (auto simp: life_inv_def members_frame_def reset_stopped_def clear_clock_def)
    have d: "m_Position (reset_stopped t) = 0 \<and> m_PacketNumber (reset_stopped t) = 0 \<and> m_NextSubmitPacket (reset_stopped t) = 0 \<and>
       m_LastOsWritePacket (reset_stopped t) = MAXULONG" by (simp add: reset_stopped_def)
    have suc: "NT_SUCCESS st = (st = STATUS_SUCCESS)" using t(7) by (auto simp: NT_SUCCESS_def)
    show thesis
    proof (cases "st = STATUS_SUCCESS")
      case False
      then have "SetState K W State s = Some (st, t\<lparr>m_State := m_State s\<rparr>)" using e suc by simp
      then show thesis by (rule that [OF _ a]) (use False suc stop in simp_all)
    next
      case True
      then have e': "SetState K W State s = Some (STATUS_SUCCESS, if State = KSSTATE_STOP then reset_stopped t else t)"
        using e by simp
      have nw: "\<not> m_WorkerStarted t" using True t(7) by simp
      show thesis
        by (rule that [OF e']; cases "State = KSSTATE_STOP") (use b c d p z(4,6,12,15,16) t(3,4,6) nw stop in simp_all)
    qed
  next
    case other
    let ?s = "s\<lparr>m_State := State\<rparr>"
    have r0: "render_inv inv inflight P ?s" by (rule render_inv_cong [OF assms(1)]) (simp_all add: render_phase [OF assms(1)])
    have l0: "life_inv c ?s" "members_frame s ?s" using assms(2) by (auto simp: life_inv_def members_frame_def)
    have e: "SetState K W State s = Some (STATUS_SUCCESS, ?fin STATUS_SUCCESS ?s)" using other cap by (auto simp: SetState_def)
    show thesis
      by (rule that [OF e]) (use r0 l0 kick [OF r0] other assms(6) in \<open>simp_all split: if_splits\<close>)
  qed
qed

end

end
