(* ===== verification/Wave_Lifecycle.thy ===== *)
theory Wave_Lifecycle
  imports Wave_Playback
begin

text \<open>
  The life of a stream (\<open>viosnd/sys/ViosndWaveRT.cpp\<close>): allocation and release of the cyclic
  buffer, destruction, and the transition system in which the calls of the port driver, the
  worker thread and the device interleave, with the invariant of its reachable states for a
  playback stream.
\<close>

section \<open>The cyclic buffer\<close>

text \<open>The list a stream refers to is allocated; without one there is no buffer.\<close>

definition mdl_ok :: "('q, 'e) wave_stream \<Rightarrow> bool" where
  "mdl_ok s \<longleftrightarrow> (m_Mdl s = 0 \<longrightarrow> m_Buffer s = None) \<and> (m_Mdl s \<noteq> 0 \<longrightarrow> m_Mdl s \<in> set (m_Mdls s))"

text \<open>Releasing the stream's own buffer resets the members that describe it.\<close>

lemma FreeAudioBuffer_ok:
  assumes "stream_inv qinv inflight P s" "mdl \<in> set (m_Mdls s)" "mdl = m_Mdl s" "mdl \<noteq> 0"
  obtains s' where "FreeAudioBuffer mdl s = Some s'" "stream_inv qinv inflight P s'"
    "m_Mdl s' = 0" "m_Mdls s' = remove1 mdl (m_Mdls s)" "m_Buffer s' = None" "m_PacketSize s' = 0" "m_BufferSize s' = 0"
    "m_NotificationCount s' = 0" "m_OutstandingWrites s' = 0" "m_Position s' = 0"
    "m_State s' = m_State s" "m_Capture s' = m_Capture s" "m_This s' = m_This s" "m_StreamId s' = m_StreamId s"
    "m_CaptureInFlight s' = m_CaptureInFlight s"
    "life_inv c s' = life_inv c s" "mutex_count (m_Device s') = mutex_count (m_Device s)"
    "flight inflight (m_Device s') = flight inflight (m_Device s)" "Queues (m_Device s') = Queues (m_Device s)"
    "\<not> m_Capture s \<Longrightarrow> m_OutstandingWrites s = 0 \<Longrightarrow> m_RenderIoFreeCount s' = 0 \<and> m_RenderFallbackBuffer s' = None"
    "m_Capture s \<Longrightarrow> m_CaptureInFlight s = 0 \<Longrightarrow> m_CaptureIoFreeCount s' = 0"
proof -
  let ?a = "s\<lparr>m_Mdls := remove1 mdl (m_Mdls s)\<rparr>"
  have a: "stream_inv qinv inflight P ?a" by (rule stream_inv_cong [OF assms(1)]) (simp_all add: stream_phase [OF assms(1)])
  obtain s1 where 1: "FreeRenderIoPool ?a = Some s1" "stream_inv qinv inflight P s1" "repooled ?a s1"
    "flight inflight (m_Device s1) = flight inflight (m_Device ?a)" "Queues (m_Device s1) = Queues (m_Device ?a)"
    "\<not> m_Capture ?a \<Longrightarrow> m_OutstandingWrites ?a = 0 \<Longrightarrow> m_RenderIoFreeCount s1 = 0 \<and> m_RenderFallbackBuffer s1 = None"
    by (rule FreeRenderIoPool_ok [OF a]) (rule that; assumption)
  obtain s2 where 2: "FreeCaptureIoPool s1 = Some s2" "stream_inv qinv inflight P s2" "repooled s1 s2"
    "flight inflight (m_Device s2) = flight inflight (m_Device s1)" "Queues (m_Device s2) = Queues (m_Device s1)"
    "m_Capture s1 \<Longrightarrow> m_CaptureInFlight s1 = 0 \<Longrightarrow> m_CaptureIoFreeCount s2 = 0"
    by (rule FreeCaptureIoPool_ok [OF 1(2)]) (rule that; assumption)
  note m1 = repooled_members [OF 1(3)] and m2 = repooled_members [OF 2(3)]
  note f = stream_frame_trans [OF m1(1) m2(1)]
  have id: "\<not> m_Capture s \<Longrightarrow> s2 = s1"
    using 2(1) m1(2) by (simp add: FreeCaptureIoPool_def)
  obtain s3 where 3: "FreeAudioBuffer mdl s = Some s3"
    "s3 = s2\<lparr>m_Mdl := 0, m_Buffer := None, m_BufferSize := 0, m_NotificationCount := 0,
               m_PacketSize := 0, m_PacketNumber := 0, m_LastOsWritePacket := MAXULONG,
               m_NextSubmitPacket := 0, m_NextReadPacket := 0, m_EosPacketNumber := MAXULONG,
               m_EosPacketLength := 0, m_OutstandingWrites := 0, m_RenderUnderruns := 0,
               m_RenderFallbackPackets := 0, m_RenderPrerollPackets := 0, m_RenderStallLoops := 0,
               m_CaptureStallLoops := 0, m_RenderPositionQueries := 0,
               m_RenderNotReadyLoops := 0, m_RenderFallbackPhase := 0,
               m_RenderFallbackActive := False, m_RenderFallbackAttempted := False,
               m_FallbackMonitorStartPosition := 0, m_FallbackMonitorStartQpc := 0,
               m_CaptureOverflows := (if m_CaptureInFlight s2 = 0 then 0 else m_CaptureOverflows s2),
               m_Position := 0\<rparr>"
    using assms(2-4) 1(1) 2(1) by (simp add: FreeAudioBuffer_def free_mdl_def)
  have i: "stream_inv qinv inflight P s3"
    using 2(2) unfolding stream_inv_def geom_ok_def fb_ok_def fb_blocks_def 3(2) by (simp cong: option.case_cong)
  have l: "life_inv c s3 = life_inv c s" using f unfolding 3(2) by (simp add: life_inv_def stream_frame_def)
  show thesis
    by (rule that [OF 3(1) i _ _ _ _ _ _ _ _ _ _ _ _ _ l]) (use f m1 m2 1(4-6) 2(4-6) id in \<open>simp_all add: 3(2) stream_frame_def\<close>)
qed

text \<open>An allocated buffer holds whole packets.\<close>

lemma AllocateAudioBuffer_ok:
  assumes "stream_inv qinv inflight P s" "m_Buffer s = None"
  obtains (ok) mdl s' where "AllocateAudioBuffer W n s = Some (STATUS_SUCCESS, Some (mdl, m_BufferSize s'), s')"
      "stream_inv qinv inflight P s'" "mdl \<noteq> 0" "m_Mdl s' = mdl" "m_Mdls s' = mdl # m_Mdls s" "m_Buffer s' \<noteq> None"
      "unat (m_NotificationCount s') * unat (m_PacketSize s') = unat (m_BufferSize s')"
      "m_NotificationCount s' = ViosndNotificationCountFromBufferSize (m_BufferSize s')"
      "m_PacketSize s' = ViosndPacketSizeFromNotificationCount (m_BufferSize s') (m_NotificationCount s')"
      "m_State s' = m_State s" "m_Capture s' = m_Capture s" "m_This s' = m_This s"
      "m_OutstandingWrites s' = m_OutstandingWrites s" "m_CaptureInFlight s' = m_CaptureInFlight s"
      "life_inv c s' = life_inv c s" "mutex_count (m_Device s') = mutex_count (m_Device s)"
      "Queues (m_Device s') = Queues (m_Device s)"
  | (failed) s' where "AllocateAudioBuffer W n s = Some (STATUS_INSUFFICIENT_RESOURCES, None, s')"
      "stream_inv qinv inflight P s'" "m_Mdl s' = 0" "m_Mdls s' = m_Mdls s" "m_Buffer s' = None"
      "m_State s' = m_State s" "m_Capture s' = m_Capture s" "m_This s' = m_This s"
      "m_OutstandingWrites s' = m_OutstandingWrites s \<or> m_OutstandingWrites s' = 0" "m_CaptureInFlight s' = m_CaptureInFlight s"
      "life_inv c s' = life_inv c s" "mutex_count (m_Device s') = mutex_count (m_Device s)"
      "Queues (m_Device s') = Queues (m_Device s)"
proof -
  obtain mdl sz e1 where a: "MmAllocatePagesForMdlEx W (ext (m_Device s)) (max n VIOSND_DEFAULT_BUFFER_BYTES) = (mdl, sz, e1)"
    by (metis prod_cases3)
  let ?s1 = "s\<lparr>m_Device := (m_Device s)\<lparr>ext := e1\<rparr>, m_Mdl := mdl\<rparr>"
  have i0: "stream_inv qinv inflight P (s\<lparr>m_Device := (m_Device s)\<lparr>ext := e\<rparr>\<rparr>)" for e by (rule stream_env(1) [OF assms(1)])
  have i1: "stream_inv qinv inflight P ?s1" by (rule stream_inv_cong [OF i0 [of e1]]) (simp_all add: stream_phase [OF assms(1)])
  show thesis
  proof (cases "mdl = 0")
    case True
    then have e: "AllocateAudioBuffer W n s = Some (STATUS_INSUFFICIENT_RESOURCES, None, ?s1)"
      using a by (simp add: AllocateAudioBuffer_def Let_def)
    have "life_inv c ?s1 = life_inv c s" by (simp add: life_inv_def)
    then show thesis by (intro failed [OF e i1]) (use True assms(2) in simp_all)
  next
    case m0: False
    obtain mapped e2 where b: "MmGetSystemAddressForMdlSafe W e1 = (mapped, e2)" by force
    let ?s2 = "?s1\<lparr>m_Mdls := mdl # m_Mdls ?s1, m_Device := (m_Device ?s1)\<lparr>ext := e2\<rparr>\<rparr>"
    have i2: "stream_inv qinv inflight P ?s2"
      by (rule stream_inv_cong [OF i0 [of e2]]) (simp_all add: stream_phase [OF assms(1)])
    show thesis
    proof (cases mapped)
      case False
      let ?s3 = "?s2\<lparr>m_Buffer := None\<rparr>"
      have i3: "stream_inv qinv inflight P ?s3"
        by (rule stream_inv_cong [OF i2]) (simp_all add: stream_phase [OF assms(1)] assms(2))
      have l3: "life_inv c ?s3 = life_inv c s" by (simp add: life_inv_def)
      have p3: "mdl \<in> set (m_Mdls ?s3)" "mdl = m_Mdl ?s3" by simp_all
      obtain s' where s': "FreeAudioBuffer mdl ?s3 = Some s'" "stream_inv qinv inflight P s'" "m_Mdl s' = 0"
        "m_Mdls s' = remove1 mdl (m_Mdls ?s3)" "m_Buffer s' = None" "m_OutstandingWrites s' = 0" "m_State s' = m_State ?s3"
        "m_Capture s' = m_Capture ?s3" "m_This s' = m_This ?s3" "m_CaptureInFlight s' = m_CaptureInFlight ?s3" "life_inv c s' = life_inv c ?s3"
        "mutex_count (m_Device s') = mutex_count (m_Device ?s3)" "Queues (m_Device s') = Queues (m_Device ?s3)"
        by (rule FreeAudioBuffer_ok [OF i3 p3 m0]) (rule that; assumption)
      have e: "AllocateAudioBuffer W n s = Some (STATUS_INSUFFICIENT_RESOURCES, None, s')"
        using a b m0 False s'(1) by (simp add: AllocateAudioBuffer_def Let_def)
      show thesis by (rule failed [OF e s'(2)]) (use s'(3-13) l3 in simp_all)
    next
      case True
      let ?bs = "ViosndUsableBufferSizeFromAllocatedSize sz"
      let ?nc = "ViosndNotificationCountFromBufferSize ?bs"
      let ?ps = "ViosndPacketSizeFromNotificationCount ?bs ?nc"
      let ?s3 = "?s2\<lparr>m_Buffer := Some (replicate (unat sz) 0), m_BufferSize := ?bs, m_NotificationCount := ?nc, m_PacketSize := ?ps\<rparr>"
      note g = buffer_geometry [of sz 0]
      have e: "AllocateAudioBuffer W n s = Some (STATUS_SUCCESS, Some (mdl, m_BufferSize ?s3), ?s3)"
        using a b m0 True by (simp add: AllocateAudioBuffer_def Let_def)
      have mul: "unat (max ?nc 1) * unat ?ps \<le> unat sz"
      proof (cases "?nc = 0")
        case True
        then have "unat ?bs = 0" using g by simp
        then have "unat ?ps = 0" using default_buffer_geometry(3) [of ?bs ?nc] by simp
        then show ?thesis by simp
      next
        case False
        then have "1 \<le> ?nc" by (simp add: word_le_nat_alt unat_gt_0 Suc_le_eq)
        then have "max ?nc 1 = ?nc" by (simp add: max_absorb1)
        then show ?thesis using g by simp
      qed
      have eos: "m_EosPacketLength s = 0"
        using stream_invD(6) [OF assms(1)] assms(2) by (auto simp: geom_ok_def)
      have "geom_ok ?s3" using mul g eos unat_less32 [of sz] by (simp add: geom_ok_def)
      then have i3: "stream_inv qinv inflight P ?s3"
        using i2 unfolding stream_inv_def fb_ok_def fb_blocks_def by (simp cong: option.case_cong)
      have "life_inv c ?s3 = life_inv c s" by (simp add: life_inv_def)
      then show thesis by (intro ok [OF e i3 m0]) (use g in simp_all)
    qed
  qed
qed

section \<open>Destruction\<close>

lemma destroy_stream_ok:
  assumes "stream_inv qinv inflight P s" "mdl_ok s" "m_This s \<in> P"
  obtains s' where "destroy_stream s = Some s'" "m_Destroyed s'" "\<not> m_Miniport s'" "m_This s' = m_This s"
    "dev_inv qinv inflight {} (P - {m_This s} \<union> fb_blocks s') (m_Device s')" "P \<inter> fb_blocks s' = {}"
    "flight inflight (m_Device s') = flight inflight (m_Device s)"
    "m_Mdls s' = (if m_Mdl s \<noteq> 0 then remove1 (m_Mdl s) (m_Mdls s) else m_Mdls s)"
    "\<not> m_Capture s \<Longrightarrow> m_OutstandingWrites s = 0 \<Longrightarrow> m_RenderIoFreeCount s' = 0 \<and> m_RenderFallbackBuffer s' = None"
    "m_Capture s \<Longrightarrow> m_CaptureInFlight s = 0 \<Longrightarrow> m_CaptureIoFreeCount s' = 0"
proof -
  obtain s1 where 1: "(if m_Mdl s \<noteq> 0 then FreeAudioBuffer (m_Mdl s) s else Some s) = Some s1" "stream_inv qinv inflight P s1"
    "m_This s1 = m_This s" "m_Capture s1 = m_Capture s" "m_CaptureInFlight s1 = m_CaptureInFlight s"
    "m_Mdls s1 = (if m_Mdl s \<noteq> 0 then remove1 (m_Mdl s) (m_Mdls s) else m_Mdls s)"
    "m_OutstandingWrites s = 0 \<Longrightarrow> m_OutstandingWrites s1 = 0"
    "flight inflight (m_Device s1) = flight inflight (m_Device s)"
  proof (cases "m_Mdl s = 0")
    case True
    then show thesis using that [of s] assms(1) by simp
  next
    case False
    then have "m_Mdl s \<in> set (m_Mdls s)" using assms(2) by (simp add: mdl_ok_def)
    then obtain s1 where "FreeAudioBuffer (m_Mdl s) s = Some s1" "stream_inv qinv inflight P s1"
      "m_This s1 = m_This s" "m_Capture s1 = m_Capture s" "m_CaptureInFlight s1 = m_CaptureInFlight s"
      "m_Mdls s1 = remove1 (m_Mdl s) (m_Mdls s)" "m_OutstandingWrites s1 = 0" "flight inflight (m_Device s1) = flight inflight (m_Device s)"
      using FreeAudioBuffer_ok [OF assms(1) _ refl False] by metis
    then show thesis using that [of s1] False by simp
  qed
  obtain s2 where 2: "FreeRenderIoPool s1 = Some s2" "stream_inv qinv inflight P s2" "repooled s1 s2"
    "flight inflight (m_Device s2) = flight inflight (m_Device s1)"
    "\<not> m_Capture s1 \<Longrightarrow> m_OutstandingWrites s1 = 0 \<Longrightarrow> m_RenderIoFreeCount s2 = 0 \<and> m_RenderFallbackBuffer s2 = None"
    by (rule FreeRenderIoPool_ok [OF 1(2)]) (rule that; assumption)
  obtain s3 where 3: "FreeCaptureIoPool s2 = Some s3" "stream_inv qinv inflight P s3" "repooled s2 s3"
    "flight inflight (m_Device s3) = flight inflight (m_Device s2)"
    "m_Capture s2 \<Longrightarrow> m_CaptureInFlight s2 = 0 \<Longrightarrow> m_CaptureIoFreeCount s3 = 0"
    by (rule FreeCaptureIoPool_ok [OF 2(2)]) (rule that; assumption)
  note m2 = repooled_members [OF 2(3)] and m3 = repooled_members [OF 3(3)]
  have this3: "m_This s3 = m_This s" "m_Mdls s3 = m_Mdls s1" using m2(1) m3(1) 1(3) by (simp_all add: stream_frame_def)
  have id: "\<not> m_Capture s \<Longrightarrow> s3 = s2" using 3(1) m2(2) 1(4) by (simp add: FreeCaptureIoPool_def)
  note i = stream_invD [OF 3(2)]
  have "m_This s3 \<in> P \<union> fb_blocks s3" using assms(3) this3 by simp
  from ExFreePool_inv [OF i(1) this] obtain d where d: "ExFreePool (m_Device s3) (m_This s3) = Some d"
    "dev_inv qinv inflight {} (P \<union> fb_blocks s3 - {m_This s3}) d" "Queues d = Queues (m_Device s3)"
    by (metis (no_types, lifting))
  let ?s = "s3\<lparr>m_Miniport := False, m_Device := d, m_Destroyed := True\<rparr>"
  have b: "fb_blocks ?s = fb_blocks s3" by (simp add: fb_blocks_def)
  have "P \<union> fb_blocks s3 - {m_This s3} = P - {m_This s} \<union> fb_blocks ?s"
    using i(2) assms(3) this3 b by auto
  then have di: "dev_inv qinv inflight {} (P - {m_This s} \<union> fb_blocks ?s) (m_Device ?s)" using d(2) by simp
  have fl: "flight inflight d = flight inflight (m_Device s)" using flight_cong [OF d(3)] 3(4) 2(4) 1(8) by simp
  have e: "destroy_stream s = Some ?s"
    unfolding destroy_stream_def using 1(1) 2(1) 3(1) d(1) by simp
  show thesis
    by (rule that [OF e _ _ _ di]) (use b i(2) fl this3 1(4-7) 2(5) 3(5) m2(2,4) id in \<open>auto split: if_splits\<close>)
qed

section \<open>Calls and threads\<close>

text \<open>
  What can happen to a stream: a call of the port driver, an iteration or the exit of the worker
  thread, the exit of a thread that has lost its reference, and time passing, in which the device
  works.  A configuration is the number of references the clients hold and the stream.
\<close>

datatype stream_event =
  Set_state KSSTATE | Allocate_buffer u32 u32 | Free_buffer | Write_packet u32 u32 u32 | Read_packet
| Query_position | Query_presentation | Register_event ptr | Unregister_event ptr | Add_ref | Release_ref
| Worker_iteration u32 u32 | Worker_exit | Orphan_exit | Time_passes

text \<open>
  When an event may happen.  The port driver allocates a buffer only when it has none, frees it
  only outside \<open>KSSTATE_RUN\<close>, and stops the stream before it drops its last reference; a worker
  leaves its loop once it sees the stop event.
\<close>

fun event_enabled :: "stream_event \<Rightarrow> nat \<times> ('q, 'e) wave_stream \<Rightarrow> bool" where
  "event_enabled (Allocate_buffer _ _) (c, s) \<longleftrightarrow> 0 < c \<and> m_Mdl s = 0 \<and> m_State s \<noteq> KSSTATE_RUN"
| "event_enabled Free_buffer (c, s) \<longleftrightarrow> 0 < c \<and> m_Mdl s \<noteq> 0 \<and> m_State s \<noteq> KSSTATE_RUN"
| "event_enabled Release_ref (c, s) \<longleftrightarrow> 0 < c \<and> (c = 1 \<longrightarrow> m_State s \<noteq> KSSTATE_RUN)"
| "event_enabled (Worker_iteration _ _) (c, s) \<longleftrightarrow> m_ThreadLive s \<or> 0 < m_Orphans s"
| "event_enabled Worker_exit (c, s) \<longleftrightarrow> m_ThreadLive s \<and> m_StopEvent s"
| "event_enabled Orphan_exit (c, s) \<longleftrightarrow> 0 < m_Orphans s \<and> m_StopEvent s"
| "event_enabled Time_passes (c, s) \<longleftrightarrow> True"
| "event_enabled _ (c, s) \<longleftrightarrow> 0 < c"

text \<open>An event on a configuration; \<open>None\<close>: undefined behaviour, or a call that does not return.\<close>

fun stream_exec ::
  "('q, 'e) kernel \<Rightarrow> 'e wave_kernel \<Rightarrow> stream_event \<Rightarrow> nat \<times> ('q, 'e) wave_stream \<Rightarrow> (nat \<times> ('q, 'e) wave_stream) option" where
  "stream_exec K W (Set_state st) (c, s) = map_option (\<lambda>(_, s). (c, s)) (SetState K W st s)"
| "stream_exec K W (Allocate_buffer k n) (c, s) =
     map_option (\<lambda>(_, _, s). (c, s)) (AllocateBufferWithNotification W k n s)"
| "stream_exec K W Free_buffer (c, s) = map_option (Pair c) (FreeBufferWithNotification (m_Mdl s) s)"
| "stream_exec K W (Write_packet n f e) (c, s) = Some (c, snd (SetWritePacket n f e s))"
| "stream_exec K W Read_packet (c, s) = Some (c, snd (snd (GetReadPacket W s)))"
| "stream_exec K W Query_position (c, s) = Some (c, snd (snd (GetPosition W s)))"
| "stream_exec K W Query_presentation (c, s) = Some (c, snd (snd (GetOutputStreamPresentationPosition W s)))"
| "stream_exec K W (Register_event p) (c, s) = Some (c, snd (RegisterNotificationEvent p s))"
| "stream_exec K W (Unregister_event p) (c, s) = Some (c, snd (UnregisterNotificationEvent p s))"
| "stream_exec K W Add_ref (c, s) = Some (c + 1, AddRef s)"
| "stream_exec K W Release_ref (c, s) = map_option (Pair (c - 1)) (Release K W s)"
| "stream_exec K W (Worker_iteration a b) (c, s) =
     (if m_Capture s then map_option (\<lambda>(_, s). (c, s)) (capture_iteration K (capture_target s) b s)
      else map_option (\<lambda>(_, s). (c, s)) (render_iteration K W (a, b) s))"
| "stream_exec K W Worker_exit (c, s) = map_option (Pair c) (worker_exit K s)"
| "stream_exec K W Orphan_exit (c, s) =
     map_option (Pair c) (do {
       s \<leftarrow> worker_epilogue K s;
       Release K W (s\<lparr>m_Orphans := m_Orphans s - 1\<rparr>)
     })"
| "stream_exec K W Time_passes (c, s) = Some (c, s\<lparr>m_Device := KeDelay K (m_Device s)\<rparr>)"

inductive stream_step ::
  "('q, 'e) kernel \<Rightarrow> 'e wave_kernel \<Rightarrow> nat \<times> ('q, 'e) wave_stream \<Rightarrow> nat \<times> ('q, 'e) wave_stream \<Rightarrow> bool"
  for K W where
  step: "\<not> m_Destroyed (snd x) \<Longrightarrow> event_enabled ev x \<Longrightarrow> stream_exec K W ev x = Some y \<Longrightarrow> stream_step K W x y"

inductive_cases stream_stepE: "stream_step K W x y"

inductive stream_reachable ::
  "('q, 'e) kernel \<Rightarrow> 'e wave_kernel \<Rightarrow> nat \<times> ('q, 'e) wave_stream \<Rightarrow> nat \<times> ('q, 'e) wave_stream \<Rightarrow> bool"
  for K W where
  start: "stream_reachable K W x x"
| next_state: "stream_reachable K W x y \<Longrightarrow> stream_step K W y z \<Longrightarrow> stream_reachable K W x z"

section \<open>Calls on a playback stream\<close>

text \<open>
  The invariant of a playback stream between events: while it lives, the invariants of its parts,
  nothing outstanding outside \<open>KSSTATE_RUN\<close>, and someone to hold it; once it is destroyed, its
  descriptors, its fallback buffer, its memory descriptor list and its object are released.
\<close>

definition render_ok ::
  "('q \<Rightarrow> bool) \<Rightarrow> ('q \<Rightarrow> opaque multiset) \<Rightarrow> ptr set \<Rightarrow> nat \<times> ('q, 'e) wave_stream \<Rightarrow> bool" where
  "render_ok qinv inflight P = (\<lambda>(c, s).
     if m_Destroyed s
     then dev_inv qinv inflight {} (P - {m_This s}) (m_Device s) \<and> m_RenderIoFreeCount s = 0 \<and>
       m_RenderFallbackBuffer s = None \<and> m_Mdls s = [] \<and> \<not> m_Miniport s
     else render_inv qinv inflight P s \<and> life_inv c s \<and> mdl_ok s \<and> m_Mdls s = (if m_Mdl s = 0 then [] else [m_Mdl s]) \<and>
       (m_State s \<noteq> KSSTATE_RUN \<longrightarrow> m_OutstandingWrites s = 0) \<and> m_This s \<in> P \<and> 0 < m_RefCount s \<and>
       (c = 0 \<longrightarrow> m_State s \<noteq> KSSTATE_RUN))"

lemma render_okI:
  assumes "render_ok qinv inflight P (c, s)" "\<not> m_Destroyed s" "render_inv qinv inflight P s'" "life_inv c' s'"
    "members_frame s s'" "m_State s' \<noteq> KSSTATE_RUN \<Longrightarrow> m_OutstandingWrites s' = 0" "0 < m_RefCount s'"
    "c' = 0 \<Longrightarrow> m_State s' \<noteq> KSSTATE_RUN"
  shows "render_ok qinv inflight P (c', s')"
proof -
  have "\<not> m_Destroyed s'" using assms(4) by (simp add: life_inv_def)
  then show ?thesis using assms by (simp add: render_ok_def members_frame_def mdl_ok_def)
qed

lemma render_okD:
  assumes "render_ok qinv inflight P (c, s)" "\<not> m_Destroyed s"
  shows "render_inv qinv inflight P s" "life_inv c s" "mdl_ok s" "m_Mdls s = (if m_Mdl s = 0 then [] else [m_Mdl s])"
    "m_State s \<noteq> KSSTATE_RUN \<Longrightarrow> m_OutstandingWrites s = 0" "m_This s \<in> P" "0 < m_RefCount s"
    "c = 0 \<Longrightarrow> m_State s \<noteq> KSSTATE_RUN"
  using assms by (simp_all add: render_ok_def)

text \<open>A change of members that the invariant does not mention.\<close>

lemma render_ok_quiet:
  assumes "render_ok qinv inflight P (c, s)" "\<not> m_Destroyed s" "render_inv qinv inflight P s'" "stream_frame s s'"
    "m_OutstandingWrites s' = m_OutstandingWrites s"
  shows "render_ok qinv inflight P (c, s')"
  by (rule render_okI [OF assms(1-3)])
    (use render_okD [OF assms(1,2)] assms(4,5) stream_frame_life [OF assms(4)] in \<open>simp_all add: stream_frame_def\<close>)

lemma render_destroyed:
  assumes "render_inv qinv inflight P s" "mdl_ok s" "m_Mdls s = (if m_Mdl s = 0 then [] else [m_Mdl s])"
    "m_OutstandingWrites s = 0" "m_This s \<in> P"
  obtains s' where "destroy_stream s = Some s'" "render_ok qinv inflight P (c, s')" "m_Destroyed s'"
proof -
  note r = render_invD [OF assms(1)]
  obtain s' where d: "destroy_stream s = Some s'" "m_Destroyed s'" "\<not> m_Miniport s'"
    "dev_inv qinv inflight {} (P - {m_This s} \<union> fb_blocks s') (m_Device s')" 
    "m_Mdls s' = (if m_Mdl s \<noteq> 0 then remove1 (m_Mdl s) (m_Mdls s) else m_Mdls s)"
    "\<not> m_Capture s \<Longrightarrow> m_OutstandingWrites s = 0 \<Longrightarrow> m_RenderIoFreeCount s' = 0 \<and> m_RenderFallbackBuffer s' = None"
    "m_This s' = m_This s"
    by (rule destroy_stream_ok [OF r(1) assms(2,5)]) (rule that; assumption)
  show thesis
    by (rule that [OF d(1) _ d(2)]) (use d r(2) assms(3,4) in \<open>simp add: render_ok_def fb_blocks_def split: if_splits\<close>)
qed

context virtio_snd
begin

lemma render_Release_ok:
  assumes "render_inv inv inflight P s" "life_inv c s" "mdl_ok s" "m_Mdls s = (if m_Mdl s = 0 then [] else [m_Mdl s])"
    "m_State s \<noteq> KSSTATE_RUN \<Longrightarrow> m_OutstandingWrites s = 0" "m_This s \<in> P" "0 < c"
    "c = 1 \<Longrightarrow> m_State s \<noteq> KSSTATE_RUN"
  obtains s' where "Release K W s = Some s'" "render_ok inv inflight P (c - 1, s')"
proof -
  obtain b s1 where 1: "(if m_ThreadObject s \<noteq> 0 then StopRenderWorker K W s else Some (True, s)) = Some (b, s1)"
    "render_inv inv inflight P s1" "life_inv c s1" "members_frame s s1" "m_State s1 = m_State s"
    "m_OutstandingWrites s1 = m_OutstandingWrites s" "m_ThreadObject s1 = 0 \<or> m_ThreadLive s1"
  proof (cases "m_ThreadObject s = 0")
    case True
    then show thesis using that [of True s] assms(1,2) by simp
  next
    case False
    obtain b s1 where "StopRenderWorker K W s = Some (b, s1)" "render_inv inv inflight P s1" "life_inv c s1"
      "members_frame s s1" "m_State s1 = m_State s" "m_OutstandingWrites s1 = m_OutstandingWrites s"
      "b \<Longrightarrow> m_ThreadObject s1 = 0 \<and> \<not> m_ThreadLive s1" "\<not> b \<Longrightarrow> m_ThreadLive s1 \<and> m_WorkerStarted s1"
      by (rule render_StopRenderWorker_ok [OF assms(1,2,7)]) (rule that; assumption)
    then show thesis using that [of b s1] False by (cases b) simp_all
  qed
  let ?s2 = "s1\<lparr>m_RefCount := m_RefCount s1 - 1\<rparr>"
  have rc: "0 < m_RefCount s1" using 1(3) assms(7) by (simp add: life_inv_def)
  have r2: "render_inv inv inflight P ?s2" by (rule render_inv_cong [OF 1(2)]) (simp_all add: render_phase [OF 1(2)])
  have l2: "life_inv (c - 1) ?s2" using 1(3) assms(7) by (auto simp: life_inv_def)
  have mf: "members_frame s ?s2" using 1(4) by (simp add: members_frame_def)
  have nd: "\<not> m_Destroyed s1" using 1(3) by (simp add: life_inv_def)
  have md: "mdl_ok ?s2" "m_Mdls ?s2 = (if m_Mdl ?s2 = 0 then [] else [m_Mdl ?s2])" "m_This ?s2 \<in> P"
    using assms(3,4,6) mf by (simp_all add: mdl_ok_def members_frame_def)
  have idle: "m_State ?s2 \<noteq> KSSTATE_RUN \<Longrightarrow> m_OutstandingWrites ?s2 = 0" using assms(5) 1(5,6) by simp
  show thesis
  proof (cases "m_RefCount ?s2 = 0")
    case False
    then have "Release K W s = Some ?s2" using 1(1) rc by (simp add: Release_def Let_def)
    moreover have "render_ok inv inflight P (c - 1, ?s2)"
      using r2 l2 md idle nd False 1(5) assms(7,8) by (auto simp: render_ok_def)
    ultimately show thesis by (rule that)
  next
    case z: True
    then have z2: "c = 1" "\<not> m_ThreadLive s1" "m_ThreadObject s1 = 0" using l2 assms(7) 1(7) by (auto simp: life_inv_def)
    let ?s3 = "?s2\<lparr>m_WorkerStarted := False\<rparr>"
    have r3: "render_inv inv inflight P ?s3" by (rule render_inv_cong [OF r2]) (simp_all add: render_phase [OF 1(2)])
    have md3: "mdl_ok ?s3" "m_Mdls ?s3 = (if m_Mdl ?s3 = 0 then [] else [m_Mdl ?s3])" "m_This ?s3 \<in> P"
      using md by (simp_all add: mdl_ok_def)
    have "m_OutstandingWrites ?s3 = 0" using idle assms(8) z2(1) 1(5) by simp
    then obtain s' where s': "destroy_stream ?s3 = Some s'" "render_ok inv inflight P (c - 1, s')"
      by (rule render_destroyed [OF r3 md3(1,2) _ md3(3)])
    have "StopRenderWorker K W ?s2 = Some (True, ?s3)" using z2(3) by (simp add: StopRenderWorker_def)
    then have "Release K W s = Some s'" using 1(1) rc z s'(1) by (simp add: Release_def Let_def)
    then show thesis using s'(2) by (rule that)
  qed
qed

lemma render_worker_exit_ok:
  assumes "render_ok inv inflight P (c, s)" "\<not> m_Destroyed s" "m_ThreadLive s"
  obtains s' where "worker_exit K s = Some s'" "render_ok inv inflight P (c, s')"
proof -
  note d = render_okD [OF assms(1,2)]
  let ?s1 = "s\<lparr>m_ThreadLive := False, m_RefCount := m_RefCount s - 1\<rparr>"
  have cap: "\<not> m_Capture s" using render_invD(2) [OF d(1)] .
  have r1: "render_inv inv inflight P ?s1" by (rule render_inv_cong [OF d(1)]) (simp_all add: render_phase [OF d(1)])
  have l1: "life_inv c ?s1" using d(2) assms(3) by (auto simp: life_inv_def)
  have rc: "m_RefCount s \<noteq> 0" using d(7) by simp
  have e: "worker_exit K s = (if m_RefCount ?s1 \<noteq> 0 then Some ?s1
      else destroy_stream (?s1\<lparr>m_ThreadObject := 0, m_WorkerStarted := False\<rparr>))"
    using cap rc by (simp add: worker_exit_def worker_epilogue_def Release_in_worker_def Let_def)
  show thesis
  proof (cases "m_RefCount ?s1 = 0")
    case False
    have "render_ok inv inflight P (c, ?s1)"
      by (rule render_okI [OF assms(1,2) r1 l1]) (use d(5,8) False in \<open>simp_all add: members_frame_def\<close>)
    then show thesis using e False by (intro that [of ?s1]) simp_all
  next
    case True
    let ?s2 = "?s1\<lparr>m_ThreadObject := 0, m_WorkerStarted := False\<rparr>"
    have "c = 0" using True l1 by (simp add: life_inv_def)
    then have z: "m_OutstandingWrites ?s2 = 0" using d(5,8) by simp
    have r2: "render_inv inv inflight P ?s2" by (rule render_inv_cong [OF r1]) (simp_all add: render_phase [OF d(1)])
    have md: "mdl_ok ?s2" "m_Mdls ?s2 = (if m_Mdl ?s2 = 0 then [] else [m_Mdl ?s2])" "m_This ?s2 \<in> P"
      using d(3,4,6) by (simp_all add: mdl_ok_def)
    obtain s' where "destroy_stream ?s2 = Some s'" "render_ok inv inflight P (c, s')"
      by (rule render_destroyed [OF r2 md(1,2) z md(3)])
    then show thesis using e True by (intro that [of s']) simp_all
  qed
qed

end

lemma SetWritePacket_ok:
  assumes "render_inv qinv inflight P s"
  shows "render_inv qinv inflight P (snd (SetWritePacket n f e s))" "m_OutstandingWrites (snd (SetWritePacket n f e s)) = m_OutstandingWrites s"
    "members_frame s (snd (SetWritePacket n f e s))" "life_inv c (snd (SetWritePacket n f e s)) = life_inv c s"
    "m_State (snd (SetWritePacket n f e s)) = m_State s" "m_RefCount (snd (SetWritePacket n f e s)) = m_RefCount s"
    "m_Device (snd (SetWritePacket n f e s)) = m_Device s"
proof -
  note r = render_invD [OF assms]
  let ?s = "snd (SetWritePacket n f e s)"
  have m: "m_Device ?s = m_Device s" "m_RenderIoPool ?s = m_RenderIoPool s" "m_RenderIoFreeCount ?s = m_RenderIoFreeCount s"
    "m_CaptureIoPool ?s = m_CaptureIoPool s" "m_CaptureIoFreeCount ?s = m_CaptureIoFreeCount s"
    "m_Buffer ?s = m_Buffer s" "m_PacketSize ?s = m_PacketSize s" "m_NotificationCount ?s = m_NotificationCount s"
    "m_RenderFallbackBuffer ?s = m_RenderFallbackBuffer s" "m_RenderFallbackBufferSize ?s = m_RenderFallbackBufferSize s"
    "m_RenderFallbackPhase ?s = m_RenderFallbackPhase s" "m_Capture ?s = m_Capture s" "m_OutstandingWrites ?s = m_OutstandingWrites s"
    "m_State ?s = m_State s" "m_RefCount ?s = m_RefCount s"
    by (simp_all add: SetWritePacket_def Let_def)
  have eos: "m_EosPacketLength ?s \<le> m_PacketSize s"
    using stream_invD(6) [OF r(1)] by (simp add: SetWritePacket_def Let_def geom_ok_def)
  have "geom_ok ?s" using stream_invD(6) [OF r(1)] eos unfolding geom_ok_def m by simp
  moreover have "fb_ok ?s" "fb_blocks ?s = fb_blocks s" using stream_invD(7) [OF r(1)] unfolding fb_ok_def fb_blocks_def m by simp_all
  ultimately show "render_inv qinv inflight P ?s"
    using assms unfolding render_inv_def stream_inv_def m by simp
  show "members_frame s ?s" "life_inv c ?s = life_inv c s"
    by (simp_all add: SetWritePacket_def Let_def members_frame_def life_inv_def)
  show "m_OutstandingWrites ?s = m_OutstandingWrites s" "m_State ?s = m_State s" "m_RefCount ?s = m_RefCount s"
    "m_Device ?s = m_Device s" by (rule m)+
qed

lemma render_position_ok:
  assumes "render_inv qinv inflight P s"
  shows "render_inv qinv inflight P (snd (snd (GetPosition W s)))" "stream_frame s (snd (snd (GetPosition W s)))"
    "m_OutstandingWrites (snd (snd (GetPosition W s))) = m_OutstandingWrites s"
proof -
  obtain pos t where t: "GetRenderClockPosition W s = (pos, t)" "render_inv qinv inflight P t" "stream_frame s t"
    "m_OutstandingWrites t = m_OutstandingWrites s" by (rule render_clock_ok [OF assms])
  let ?t = "t\<lparr>m_RenderPositionQueries := m_RenderPositionQueries t + 1\<rparr>"
  have e: "snd (snd (GetPosition W s)) = (if m_BufferSize s = 0 then s else ?t)"
    using render_invD(2) [OF assms] t(1) by (simp add: GetPosition_def Let_def)
  have "render_inv qinv inflight P ?t" by (rule render_inv_cong [OF t(2)]) (simp_all add: render_phase [OF t(2)])
  moreover have "stream_frame s ?t" using t(3) by (simp add: stream_frame_def)
  ultimately show "render_inv qinv inflight P (snd (snd (GetPosition W s)))" "stream_frame s (snd (snd (GetPosition W s)))"
    "m_OutstandingWrites (snd (snd (GetPosition W s))) = m_OutstandingWrites s"
    unfolding e using assms t(4) by simp_all
qed

lemma render_presentation_ok:
  assumes "render_inv qinv inflight P s"
  shows "render_inv qinv inflight P (snd (snd (GetOutputStreamPresentationPosition W s)))"
    "stream_frame s (snd (snd (GetOutputStreamPresentationPosition W s)))"
    "m_OutstandingWrites (snd (snd (GetOutputStreamPresentationPosition W s))) = m_OutstandingWrites s"
proof -
  obtain pos t where t: "GetRenderClockPosition W s = (pos, t)" "render_inv qinv inflight P t" "stream_frame s t"
    "m_OutstandingWrites t = m_OutstandingWrites s" by (rule render_clock_ok [OF assms])
  obtain q f u where u: "query_qpc W t = (q, f, u)" "render_inv qinv inflight P u" "repooled t u"
    "m_OutstandingWrites u = m_OutstandingWrites t" by (rule query_qpc_ok [OF t(2)])
  have e: "snd (snd (GetOutputStreamPresentationPosition W s)) = u"
    using render_invD(2) [OF assms] t(1) u(1) by (simp add: GetOutputStreamPresentationPosition_def Let_def)
  show "render_inv qinv inflight P (snd (snd (GetOutputStreamPresentationPosition W s)))"
    "stream_frame s (snd (snd (GetOutputStreamPresentationPosition W s)))"
    "m_OutstandingWrites (snd (snd (GetOutputStreamPresentationPosition W s))) = m_OutstandingWrites s"
    unfolding e using u(2,4) t(4) stream_frame_trans [OF t(3) repooled_members(1) [OF u(3)]] by simp_all
qed

text \<open>Allocation and release of the buffer between events.\<close>

lemma render_allocate_ok:
  assumes "render_ok qinv inflight P (c, s)" "\<not> m_Destroyed s" "m_Mdl s = 0" "m_State s \<noteq> KSSTATE_RUN" "0 < c"
  obtains status res s' where "AllocateBufferWithNotification W k n s = Some (status, res, s')" "render_ok qinv inflight P (c, s')"
proof -
  note d = render_okD [OF assms(1,2)] and res = that
  note r = render_invD [OF d(1)]
  have b: "m_Buffer s = None" using d(3) assms(3) by (simp add: mdl_ok_def)
  have z: "m_OutstandingWrites s = 0" using d(5) assms(4) by simp
  define req where "req = max (if k \<noteq> 0 then k else VIOSND_DEFAULT_BUFFER_BYTES div VIOSND_DEFAULT_PERIOD_BYTES) 1"
  define sz where "sz = (ucast req * ucast VIOSND_DEFAULT_PERIOD_BYTES :: u64)"
  note e = AllocateBufferWithNotification_def [of W k n s, unfolded Let_def, folded req_def, folded sz_def]
  have fin: thesis
    if "AllocateBufferWithNotification W k n s = Some (status, res, s')" "stream_inv qinv inflight P s'" "mdl_ok s'"
      "m_Mdls s' = (if m_Mdl s' = 0 then [] else [m_Mdl s'])" "m_State s' = m_State s" "m_Capture s' = m_Capture s"
      "m_This s' = m_This s" "m_OutstandingWrites s' = 0" "life_inv c s' = life_inv c s" "Queues (m_Device s') = Queues (m_Device s)"
    for status res s'
  proof -
    note q = that
    have "flight inflight (m_Device s') = flight inflight (m_Device s)" by (rule flight_cong [OF q(10)])
    then have ri: "render_inv qinv inflight P s'" using q(2,6,8) r z by (simp add: render_inv_def)
    have li: "life_inv c s'" using q(9) d(2) by simp
    have ld: "\<not> m_Destroyed s'" using li by (simp add: life_inv_def)
    have "0 < m_RefCount s'" using li assms(5) by (simp add: life_inv_def)
    then have "render_ok qinv inflight P (c, s')"
      using ri li ld q(3-5,7,8) d(6) assms(4,5) by (simp add: render_ok_def)
    then show thesis using q(1) by (intro res)
  qed
  show thesis
  proof (cases "ucast MAXULONG < sz")
    case True
    then have "AllocateBufferWithNotification W k n s = Some (STATUS_INVALID_BUFFER_SIZE, None, s)" using e by simp
    then show thesis by (rule fin) (use r(1) d(3,4) z in simp_all)
  next
    case False
    have e': "AllocateBufferWithNotification W k n s = do {
           (status, result, s) \<leftarrow> AllocateAudioBuffer W (ucast sz) s;
           if NT_SUCCESS status then do {
             let count = ViosndNotificationCountFromBufferSize (m_BufferSize s);
             let size = ViosndPacketSizeFromNotificationCount (m_BufferSize s) count;
             Some (status, result, s\<lparr>m_NotificationCount := count, m_PacketSize := size\<rparr>)
           } else Some (status, result, s)
         }" unfolding e if_not_P [OF False] Let_def by (rule refl)
    show thesis using r(1) b
    proof (cases rule: AllocateAudioBuffer_ok [where n = "ucast sz" and c = c and W = W])
      case (ok mdl s')
      let ?s = "s'\<lparr>m_NotificationCount := ViosndNotificationCountFromBufferSize (m_BufferSize s'),
         m_PacketSize := ViosndPacketSizeFromNotificationCount (m_BufferSize s') (ViosndNotificationCountFromBufferSize (m_BufferSize s'))\<rparr>"
      have same: "?s = s'" unfolding ok(8) [symmetric] ok(9) [symmetric] by simp
      have "AllocateBufferWithNotification W k n s = Some (STATUS_SUCCESS, Some (mdl, m_BufferSize s'), ?s)"
        unfolding e' ok(1) by (simp add: Let_def)
      then show thesis unfolding same
        by (rule fin) (use ok z d(4) assms(3) in \<open>simp_all add: mdl_ok_def\<close>)
    next
      case (failed s')
      have "AllocateBufferWithNotification W k n s = Some (STATUS_INSUFFICIENT_RESOURCES, None, s')"
        unfolding e' failed(1) by simp
      then show thesis
        by (rule fin) (use failed z d(4) assms(3) in \<open>auto simp: mdl_ok_def\<close>)
    qed
  qed
qed

lemma render_free_ok:
  assumes "render_ok qinv inflight P (c, s)" "\<not> m_Destroyed s" "m_Mdl s \<noteq> 0" "m_State s \<noteq> KSSTATE_RUN" "0 < c"
  obtains s' where "FreeBufferWithNotification (m_Mdl s) s = Some s'" "render_ok qinv inflight P (c, s')"
proof -
  note d = render_okD [OF assms(1,2)]
  note r = render_invD [OF d(1)]
  have z: "m_OutstandingWrites s = 0" using d(5) assms(4) by simp
  have m: "m_Mdl s \<in> set (m_Mdls s)" using d(4) assms(3) by simp
  obtain s' where f: "FreeAudioBuffer (m_Mdl s) s = Some s'" "stream_inv qinv inflight P s'"
    "m_Mdl s' = 0" "m_Mdls s' = remove1 (m_Mdl s) (m_Mdls s)" "m_Buffer s' = None" "m_PacketSize s' = 0" 
    "m_NotificationCount s' = 0" "m_OutstandingWrites s' = 0" "m_State s' = m_State s" "m_Capture s' = m_Capture s" "m_This s' = m_This s"
    "life_inv c s' = life_inv c s" "flight inflight (m_Device s') = flight inflight (m_Device s)"
    by (rule FreeAudioBuffer_ok [OF r(1) m refl assms(3)]) (rule that; assumption)
  have same: "s'\<lparr>m_NotificationCount := 0, m_PacketSize := 0\<rparr> = s'"
  proof -
    have "s'\<lparr>m_NotificationCount := m_NotificationCount s', m_PacketSize := m_PacketSize s'\<rparr> = s'" by simp
    then show ?thesis unfolding f(6,7) .
  qed
  have e: "FreeBufferWithNotification (m_Mdl s) s = Some s'"
    using f(1) same by (simp add: FreeBufferWithNotification_def)
  have ri: "render_inv qinv inflight P s'" using f(2,8,10,13) r z by (simp add: render_inv_def)
  have li: "life_inv c s'" using f(12) d(2) by simp
  then have "\<not> m_Destroyed s'" "0 < m_RefCount s'" using assms(5) by (simp_all add: life_inv_def)
  then have "render_ok qinv inflight P (c, s')"
    using ri li f d(4,6) assms(3-5) by (simp add: render_ok_def mdl_ok_def)
  then show thesis using e that by blast
qed

section \<open>Every event on a playback stream\<close>

context virtio_snd
begin

lemma render_exec_ok:
  assumes "render_ok inv inflight P (c, s)" "\<not> m_Destroyed s" "event_enabled ev (c, s)" "threads_ok W" "tx_granted K"
  obtains y where "stream_exec K W ev (c, s) = Some y" "render_ok inv inflight P y"
proof -
  note d = render_okD [OF assms(1,2)] and res = that
  note cap = render_invD(2) [OF d(1)] and ph = render_phase [OF d(1)]
  have quiet: thesis
    if "stream_exec K W ev (c, s) = Some (c, s')" "render_inv inv inflight P s'" "stream_frame s s'"
      "m_OutstandingWrites s' = m_OutstandingWrites s" for s'
    by (rule res [OF that(1) render_ok_quiet [OF assms(1,2) that(2-4)]])
  show thesis
  proof (cases ev)
    case (Set_state st)
    then have c: "0 < c" using assms(3) by simp
    obtain status s' where s': "SetState K W st s = Some (status, s')" "render_inv inv inflight P s'" "life_inv c s'"
      "members_frame s s'" "m_State s' \<noteq> KSSTATE_RUN \<Longrightarrow> m_OutstandingWrites s' = 0"
      by (rule render_SetState_ok [OF d(1,2) c assms(4,5)]) (erule d(5), (rule that; assumption))
    have "0 < m_RefCount s'" using s'(3) c by (simp add: life_inv_def)
    then have "render_ok inv inflight P (c, s')" using c by (intro render_okI [OF assms(1,2) s'(2-5)]) simp_all
    then show thesis using that s'(1) Set_state by simp
  next
    case (Allocate_buffer k n)
    then obtain status res s' where "AllocateBufferWithNotification W k n s = Some (status, res, s')" "render_ok inv inflight P (c, s')"
      using render_allocate_ok [OF assms(1,2), of W k n] assms(3) by auto
    then show thesis using that Allocate_buffer by simp
  next
    case Free_buffer
    then obtain s' where "FreeBufferWithNotification (m_Mdl s) s = Some s'" "render_ok inv inflight P (c, s')"
      using render_free_ok [OF assms(1,2)] assms(3) by auto
    then show thesis using that Free_buffer by simp
  next
    case (Write_packet n f e)
    note w = SetWritePacket_ok [OF d(1), where n = n and f = f and e = e]
    have l: "life_inv c (snd (SetWritePacket n f e s))" using w(4) d(2) by simp
    have "render_ok inv inflight P (c, snd (SetWritePacket n f e s))"
      by (rule render_okI [OF assms(1,2) w(1) l w(3)]) (use d(5,7,8) w(2,5,6) in simp_all)
    then show thesis using that Write_packet by simp
  next
    case Read_packet
    then show thesis using cap d(1) by (intro quiet [of s]) (simp_all add: GetReadPacket_def)
  next
    case Query_position
    then show thesis using render_position_ok [OF d(1), of W]
      by (intro quiet [of "snd (snd (GetPosition W s))"]) simp_all
  next
    case Query_presentation
    then show thesis using render_presentation_ok [OF d(1), of W]
      by (intro quiet [of "snd (snd (GetOutputStreamPresentationPosition W s))"]) simp_all
  next
    case (Register_event p)
    let ?s = "s\<lparr>m_NotificationEvent := p\<rparr>"
    have "render_inv inv inflight P ?s" by (rule render_inv_cong [OF d(1)]) (simp_all add: ph)
    then show thesis using Register_event
      by (intro quiet [of ?s]) (simp_all add: RegisterNotificationEvent_def stream_frame_def)
  next
    case (Unregister_event p)
    let ?s = "if m_NotificationEvent s = p then s\<lparr>m_NotificationEvent := 0\<rparr> else s"
    have "render_inv inv inflight P ?s" by (rule render_inv_cong [OF d(1)]) (simp_all add: ph)
    then show thesis using Unregister_event
      by (intro quiet [of ?s]) (simp_all add: UnregisterNotificationEvent_def stream_frame_def)
  next
    case Add_ref
    let ?s = "AddRef s"
    have "render_inv inv inflight P ?s" by (rule render_inv_cong [OF d(1)]) (simp_all add: ph AddRef_def)
    moreover have "life_inv (c + 1) ?s" using d(2) by (auto simp: life_inv_def AddRef_def)
    ultimately have "render_ok inv inflight P (c + 1, ?s)"
      by (rule render_okI [OF assms(1,2)]) (use d(5,8) in \<open>simp_all add: AddRef_def members_frame_def\<close>)
    then show thesis using that Add_ref by simp
  next
    case Release_ref
    then have c: "0 < c" "c = 1 \<Longrightarrow> m_State s \<noteq> KSSTATE_RUN" using assms(3) by simp_all
    obtain s' where "Release K W s = Some s'" "render_ok inv inflight P (c - 1, s')"
      by (rule render_Release_ok [OF d(1-4) _ d(6) c(1)]) (erule d(5), erule c(2), (rule that; assumption))
    then show thesis using that Release_ref by simp
  next
    case (Worker_iteration a b)
    obtain n k s' where i: "render_iteration K W (a, b) s = Some ((n, k), s')" "render_inv inv inflight P s'" "stream_frame s s'"
      "m_State s \<noteq> KSSTATE_RUN \<Longrightarrow> m_OutstandingWrites s' \<le> m_OutstandingWrites s"
      using render_iteration_ok [OF d(1) assms(5), of W a b] by blast
    have st: "m_State s' = m_State s" "life_inv c s'" "m_RefCount s' = m_RefCount s"
      using i(3) d(2) stream_frame_life(2,3) [OF i(3)] by (simp_all add: stream_frame_def)
    have "render_ok inv inflight P (c, s')"
      by (rule render_okI [OF assms(1,2) i(2) st(2) stream_frame_life(1) [OF i(3)]]) (use d(5,7,8) i(4) st in simp_all)
    then show thesis using that i(1) Worker_iteration cap by simp
  next
    case Worker_exit
    then have l: "m_ThreadLive s" using assms(3) by simp
    obtain s' where "worker_exit K s = Some s'" "render_ok inv inflight P (c, s')"
      by (rule render_worker_exit_ok [OF assms(1,2) l])
    then show thesis using that Worker_exit by simp
  next
    case Orphan_exit
    let ?s = "s\<lparr>m_Orphans := m_Orphans s - 1\<rparr>"
    have o: "0 < m_Orphans s" using Orphan_exit assms(3) by simp
    have r: "render_inv inv inflight P ?s" by (rule render_inv_cong [OF d(1)]) (simp_all add: ph)
    have l: "life_inv (c + 1) ?s" using d(2) o by (auto simp: life_inv_def)
    have m: "mdl_ok ?s" "m_Mdls ?s = (if m_Mdl ?s = 0 then [] else [m_Mdl ?s])" "m_This ?s \<in> P"
      using d(3,4,6) by (simp_all add: mdl_ok_def)
    have i: "m_State ?s \<noteq> KSSTATE_RUN \<Longrightarrow> m_OutstandingWrites ?s = 0" "c + 1 = 1 \<Longrightarrow> m_State ?s \<noteq> KSSTATE_RUN"
      using d(5,8) by simp_all
    obtain s' where "Release K W ?s = Some s'" "render_ok inv inflight P (c + 1 - 1, s')"
      by (rule render_Release_ok [OF r l m(1,2) _ m(3)]) (erule i(1), simp, erule i(2), (rule that; assumption))
    then show thesis using that Orphan_exit cap by (simp add: worker_epilogue_def)
  next
    case Time_passes
    have "dev_inv inv inflight {} (P \<union> fb_blocks s) (KeDelay K (m_Device s)) \<and> waited inflight (m_Device s) (KeDelay K (m_Device s))"
      by (rule KeDelay_waited [OF stream_invD(1) [OF render_invD(1) [OF d(1)]]])
    then show thesis using render_device_waited [OF d(1)] Time_passes
      by (intro quiet [of "s\<lparr>m_Device := KeDelay K (m_Device s)\<rparr>"]) simp_all
  qed
qed

end

section \<open>Reachable states of a playback stream\<close>

lemma new_stream_ok:
  assumes "dev_inv qinv inflight {} P dev" "ctl_rest inflight dev" "flight inflight dev VIRTIO_SND_VQ_TX = {#}" "self \<in> P"
  shows "render_ok qinv inflight P (1, new_wave_stream self dev sid False faulted)"
  using assms
  by (simp add: render_ok_def render_inv_def stream_inv_def new_wave_stream_def fb_blocks_def pool_inv_def
      geom_ok_def fb_ok_def life_inv_def mdl_ok_def)

lemma render_reachable:
  assumes "kernel_ok K" "threads_ok W" "tx_granted K" "stream_reachable K W x y" "render_ok split_inv split_inflight P x"
  shows "render_ok split_inv split_inflight P y"
  using assms(4,5)
proof (induction rule: stream_reachable.induct)
  case (next_state x y z)
  obtain c s where y: "y = (c, s)" by (cases y)
  from next_state(2) obtain ev where ev: "\<not> m_Destroyed (snd y)" "event_enabled ev y" "stream_exec K W ev y = Some z"
    by (rule stream_stepE)
  obtain z' where "stream_exec K W ev (c, s) = Some z'" "render_ok split_inv split_inflight P z'"
    by (rule virtio_snd.render_exec_ok [OF kernel_ok_client [OF assms(1)] next_state(3) [OF next_state(4), unfolded y] _ _ assms(2,3), of ev])
      (use ev y in auto)
  then show ?case using ev(3) y by simp
qed simp

text \<open>A kernel for examples: threads start and stop at once, memory is mapped as asked for.\<close>

definition plain_wave :: "unit wave_kernel" where
  "plain_wave = \<lparr>KeQueryPerformanceCounter = (\<lambda>e. (1, 10000000, e)), PsCreateSystemThread = (\<lambda>e. (STATUS_SUCCESS, e)),
     ObReferenceObjectByHandle = (\<lambda>e. (STATUS_SUCCESS, 1, e)), worker_exits = (\<lambda>e. (True, e)),
     MmAllocatePagesForMdlEx = (\<lambda>e n. (4096, n, e)), MmGetSystemAddressForMdlSafe = (\<lambda>e. (True, e))\<rparr>"

lemma plain_wave_ok: "threads_ok plain_wave" "tx_granted prompt_kernel"
  by (simp_all add: threads_ok_def plain_wave_def tx_granted_def prompt_kernel_def idle_kernel_def)

text \<open>A device with a pool block for the stream object.\<close>

definition stream_device :: "(opaque virtqueue_split, unit) VIOSND_DEVICE" where
  "stream_device = snd (pool_alloc prompt_kernel blank_device 600)"

definition stream_block :: ptr where
  "stream_block = fst (pool_alloc prompt_kernel blank_device 600)"

lemma stream_device_ok:
  "dev_inv split_inv split_inflight {} {stream_block} stream_device" "ctl_rest split_inflight stream_device"
  "flight split_inflight stream_device i = {#}"
proof -
  have p: "pool_alloc prompt_kernel blank_device 600 = (stream_block, stream_device)"
    by (simp add: stream_block_def stream_device_def)
  have nz: "stream_block \<noteq> 0"
    by (simp add: stream_block_def pool_alloc_def prompt_kernel_def idle_kernel_def blank_device_def)
  note a = dev_inv_pool_alloc [OF prompt.alloc blank_inv p]
  show "dev_inv split_inv split_inflight {} {stream_block} stream_device" using a nz by simp
  have q: "Queues stream_device = Queues blank_device" "msgs stream_device = msgs blank_device"
    using a drv_simps [of stream_device blank_device] by simp_all
  show f: "flight split_inflight stream_device i = {#}" for i
    using q(1) ring2_inv [where 'o = opaque] by (simp add: flight_def blank_device_def)
  show "ctl_rest split_inflight stream_device" using q(2) by (simp add: ctl_rest_def blank_device_def)
qed

abbreviation (input) playback :: "nat \<times> (opaque virtqueue_split, unit) wave_stream" where
  "playback \<equiv> (1, new_wave_stream stream_block stream_device 0 False False)"

lemma playback_ok: "render_ok split_inv split_inflight {stream_block} playback"
  by (rule new_stream_ok [OF stream_device_ok]) simp

lemma render_step_total:
  assumes "kernel_ok K" "threads_ok W" "tx_granted K" "render_ok split_inv split_inflight P x"
    "\<not> m_Destroyed (snd x)" "event_enabled ev x"
  shows "\<exists>y. stream_exec K W ev x = Some y \<and> render_ok split_inv split_inflight P y"
proof -
  obtain c s where x: "x = (c, s)" by (cases x)
  obtain y where "stream_exec K W ev (c, s) = Some y" "render_ok split_inv split_inflight P y"
    by (rule virtio_snd.render_exec_ok [OF kernel_ok_client [OF assms(1)] assms(4) [unfolded x] _ _ assms(2,3), of ev])
      (use assms(5,6) x in auto)
  then show ?thesis using x by blast
qed

text \<open>
  C1: whatever the port driver calls, in whatever order, and however the worker thread and the
  device interleave, a playback stream never reaches undefined behaviour: in every reachable state
  each event that may happen returns, and leads to a state with the invariant again.  The transfer
  descriptors of the pool are stored, distinct and in no queue, the packets lie inside the cyclic
  buffer, \<open>m_OutstandingWrites\<close> is the number of descriptors in the transmit queue and is zero
  outside \<open>KSSTATE_RUN\<close>, the reference count is the number of clients and threads, and a
  destroyed stream has released its descriptors, buffers and its object exactly once.
\<close>

theorem playback_safe:
  assumes "kernel_ok K" "threads_ok W" "tx_granted K" "dev_inv split_inv split_inflight {} P dev"
    "ctl_rest split_inflight dev" "flight split_inflight dev VIRTIO_SND_VQ_TX = {#}" "self \<in> P"
    "stream_reachable K W (1, new_wave_stream self dev sid False faulted) x"
  shows "render_ok split_inv split_inflight P x \<and>
    (\<forall>ev. \<not> m_Destroyed (snd x) \<and> event_enabled ev x \<longrightarrow>
       (\<exists>y. stream_exec K W ev x = Some y \<and> render_ok split_inv split_inflight P y))"
proof -
  have r: "render_ok split_inv split_inflight P x"
    by (rule render_reachable [OF assms(1-3,8) new_stream_ok [OF assms(4-7)]])
  moreover have "\<exists>y. stream_exec K W ev x = Some y \<and> render_ok split_inv split_inflight P y"
    if ev: "\<not> m_Destroyed (snd x)" "event_enabled ev x" for ev
    using render_step_total [OF assms(1-3) r ev] by blast
  ultimately show ?thesis by blast
qed

theorem playback_safe_witness:
  "\<exists>y z. stream_exec prompt_kernel plain_wave (Allocate_buffer 16 0) playback = Some y \<and>
     stream_exec prompt_kernel plain_wave (Set_state KSSTATE_RUN) y = Some z \<and>
     render_ok split_inv split_inflight {stream_block} z"
proof -
  note safe = playback_safe [OF prompt_kernel_ok plain_wave_ok stream_device_ok insertI1]
  have en: "\<not> m_Destroyed (snd playback)" "event_enabled (Allocate_buffer 16 0) playback" "fst playback = 1"
    by (simp_all add: new_wave_stream_def)
  obtain y where y: "stream_exec prompt_kernel plain_wave (Allocate_buffer 16 0) playback = Some y"
    using safe [OF stream_reachable.start, of 0 False] en(1,2) by blast
  have r: "stream_reachable prompt_kernel plain_wave playback y"
    by (rule stream_reachable.next_state [OF stream_reachable.start]) (rule stream_step.step [OF en(1,2) y])
  have "\<not> m_Destroyed (snd y) \<and> fst y = 1"
    using y by (auto simp: AllocateBufferWithNotification_def AllocateAudioBuffer_def plain_wave_def new_wave_stream_def
        Let_def FreeAudioBuffer_def split: if_splits)
  then have "\<not> m_Destroyed (snd y)" "event_enabled (Set_state KSSTATE_RUN) y" by (cases y, simp)+
  then obtain z where "stream_exec prompt_kernel plain_wave (Set_state KSSTATE_RUN) y = Some z"
    "render_ok split_inv split_inflight {stream_block} z"
    using safe [OF r] by blast
  then show ?thesis using y by blast
qed

text \<open>
  C5: \<open>SetState\<close> on a playback stream always returns.  On success the stream is in the requested
  state, on failure in the old one.  Entering \<open>KSSTATE_RUN\<close> starts the worker; leaving it stops the
  worker, takes every packet back from the transmit queue and releases the pool, and
  \<open>KSSTATE_STOP\<close> resets the position and the packet numbers.
\<close>

theorem set_state_playback:
  assumes "kernel_ok K" "threads_ok W" "tx_granted K" "render_ok split_inv split_inflight P (c, s)" "\<not> m_Destroyed s" "0 < c"
  shows "\<exists>status s'. SetState K W State s = Some (status, s') \<and> render_ok split_inv split_inflight P (c, s') \<and>
    m_State s' = (if NT_SUCCESS status then State else m_State s) \<and>
    (NT_SUCCESS status \<and> State = KSSTATE_RUN \<and> m_State s \<noteq> KSSTATE_RUN \<longrightarrow> m_WorkerStarted s') \<and>
    (NT_SUCCESS status \<and> State \<noteq> KSSTATE_RUN \<and> m_State s = KSSTATE_RUN \<longrightarrow>
       \<not> m_WorkerStarted s' \<and> flight split_inflight (m_Device s') VIRTIO_SND_VQ_TX = {#} \<and> m_RenderIoFreeCount s' = 0 \<and>
       (State = KSSTATE_STOP \<longrightarrow> m_Position s' = 0 \<and> m_PacketNumber s' = 0 \<and> m_NextSubmitPacket s' = 0 \<and>
          m_LastOsWritePacket s' = MAXULONG))"
proof -
  note d = render_okD [OF assms(4,5)]
  show ?thesis
  proof (rule virtio_snd.render_SetState_ok [OF kernel_ok_client [OF assms(1)] d(1,2) assms(6,2,3), where State = State], goal_cases)
    case 1
    then show ?case by (rule d(5))
  next
    case (2 status s')
    have "0 < m_RefCount s'" using 2(3) assms(6) by (simp add: life_inv_def)
    then have "render_ok split_inv split_inflight P (c, s')"
      using assms(6) by (intro render_okI [OF assms(4,5) 2(2-4)]) (use 2(6) in simp_all)
    then show ?thesis using 2(1,5,7,8) by blast
  qed
qed

theorem set_state_playback_witness:
  "\<exists>status s'. SetState prompt_kernel plain_wave KSSTATE_RUN (snd playback) = Some (status, s') \<and>
     render_ok split_inv split_inflight {stream_block} (1, s')"
  using set_state_playback [OF prompt_kernel_ok plain_wave_ok playback_ok, of KSSTATE_RUN] by (auto simp: new_wave_stream_def)



text \<open>
  C23: pausing a playback stream before stopping it skips the reset.  Once the stream has left
  \<open>KSSTATE_RUN\<close> for any other state, \<open>KSSTATE_STOP\<close> changes nothing but the state: position, packet
  numbers and counters stay as the pause left them, although \<open>KSSTATE_STOP\<close> entered from
  \<open>KSSTATE_RUN\<close> clears them.
\<close>

theorem stop_after_pause:
  assumes "kernel_ok K" "threads_ok W" "tx_granted K" "render_ok split_inv split_inflight P (c, s)" "\<not> m_Destroyed s" "0 < c"
    "m_State s = KSSTATE_RUN" "State \<notin> {KSSTATE_RUN, KSSTATE_STOP}"
  shows "\<exists>status s'. SetState K W State s = Some (status, s') \<and>
    (NT_SUCCESS status \<longrightarrow> SetState K W KSSTATE_STOP s' = Some (STATUS_SUCCESS, s'\<lparr>m_State := KSSTATE_STOP\<rparr>) \<and>
       flight split_inflight (m_Device s') VIRTIO_SND_VQ_TX = {#} \<and> \<not> m_WorkerStarted s') \<and>
    render_ok split_inv split_inflight P (c, s')"
proof -
  note d = render_okD [OF assms(4,5)]
  show ?thesis
  proof (rule virtio_snd.render_SetState_ok [OF kernel_ok_client [OF assms(1)] d(1,2) assms(6,2,3), where State = State], goal_cases)
    case 1
    then show ?case by (rule d(5))
  next
    case (2 status s')
    have "0 < m_RefCount s'" using 2(3) assms(6) by (simp add: life_inv_def)
    then have ok: "render_ok split_inv split_inflight P (c, s')"
      using assms(6) by (intro render_okI [OF assms(4,5) 2(2-4)]) (use 2(6) in simp_all)
    have "SetState K W KSSTATE_STOP s' = Some (STATUS_SUCCESS, s'\<lparr>m_State := KSSTATE_STOP\<rparr>)" if "NT_SUCCESS status"
      using 2(5) assms(8) that by (simp add: SetState_def)
    then show ?case using 2(1,8) assms(7,8) ok by blast
  qed
qed

theorem stop_after_pause_witness:
  "\<exists>status s'. SetState prompt_kernel plain_wave KSSTATE_PAUSE ((snd playback)\<lparr>m_State := KSSTATE_RUN\<rparr>) = Some (status, s') \<and>
     render_ok split_inv split_inflight {stream_block} (1, s')"
proof -
  let ?s = "(snd playback)\<lparr>m_State := KSSTATE_RUN\<rparr>"
  have p: "render_ok split_inv split_inflight {stream_block} (1, snd playback)" "\<not> m_Destroyed (snd playback)"
    using playback_ok by (simp_all add: new_wave_stream_def)
  note d = render_okD [OF p]
  have "render_ok split_inv split_inflight {stream_block} (1, ?s)"
    using p(1) render_inv_cong [OF d(1), of ?s] render_phase [OF d(1)]
    by (simp add: render_ok_def life_inv_def mdl_ok_def new_wave_stream_def)
  from stop_after_pause [OF prompt_kernel_ok plain_wave_ok this, of KSSTATE_PAUSE] show ?thesis
    using p(2) by auto
qed

end
