(* ===== verification/Wave_Miniport.thy ===== *)
theory Wave_Miniport
  imports Wave_State
begin

text \<open>
  The WaveRT miniport \<open>CViosndMiniportWaveRT\<close> (\<open>viosnd/sys/ViosndWaveRT.cpp\<close>): its filter
  descriptors, interface queries, format negotiation and the creation of streams.
\<close>

section \<open>Filter descriptors\<close>

text \<open>The members that are not zero: pins with their instance limits, nodes and connections.\<close>

datatype data_range = Stream_range u32 u32 u32 u32 u32 | Bridge_range
datatype dataflow = KSPIN_DATAFLOW_IN | KSPIN_DATAFLOW_OUT
datatype communication = KSPIN_COMMUNICATION_SINK | KSPIN_COMMUNICATION_NONE
datatype node = KSNODETYPE_DAC | KSNODETYPE_ADC
datatype endpoint = PCFILTER_NODE u32 | Node nat u32

abbreviation (input) VIOSND_PIN_SYSTEM :: u32 where "VIOSND_PIN_SYSTEM \<equiv> 0"
abbreviation (input) VIOSND_PIN_BRIDGE :: u32 where "VIOSND_PIN_BRIDGE \<equiv> 1"
abbreviation (input) VIOSND_NODE_DAC_ADC :: nat where "VIOSND_NODE_DAC_ADC \<equiv> 0"

record PCPIN_DESCRIPTOR =
  MaxGlobalInstanceCount :: nat
  MaxFilterInstanceCount :: nat
  DataRanges :: "data_range list"
  DataFlow :: dataflow
  Communication :: communication

record PCFILTER_DESCRIPTOR =
  Pins :: "PCPIN_DESCRIPTOR list"
  Nodes :: "node list"
  Connections :: "(endpoint \<times> endpoint) list"

definition ViosndPinDataRangesStream :: "data_range list" where
  "ViosndPinDataRangesStream = [Stream_range (ucast VIOSND_DEFAULT_CHANNELS)
     (ucast VIOSND_DEFAULT_BITS_PER_SAMPLE) (ucast VIOSND_DEFAULT_BITS_PER_SAMPLE)
     VIOSND_DEFAULT_SAMPLE_RATE VIOSND_DEFAULT_SAMPLE_RATE]"

definition ViosndPinDataRangesBridge :: "data_range list" where
  "ViosndPinDataRangesBridge = [Bridge_range]"

definition ViosndRenderPins :: "PCPIN_DESCRIPTOR list" where
  "ViosndRenderPins =
     [\<lparr>MaxGlobalInstanceCount = 1, MaxFilterInstanceCount = 1, DataRanges = ViosndPinDataRangesStream,
       DataFlow = KSPIN_DATAFLOW_IN, Communication = KSPIN_COMMUNICATION_SINK\<rparr>,
      \<lparr>MaxGlobalInstanceCount = 0, MaxFilterInstanceCount = 0, DataRanges = ViosndPinDataRangesBridge,
       DataFlow = KSPIN_DATAFLOW_OUT, Communication = KSPIN_COMMUNICATION_NONE\<rparr>]"

definition ViosndRenderFilterDescriptor :: PCFILTER_DESCRIPTOR where
  "ViosndRenderFilterDescriptor = \<lparr>Pins = ViosndRenderPins, Nodes = [KSNODETYPE_DAC],
     Connections = [(PCFILTER_NODE VIOSND_PIN_SYSTEM, Node VIOSND_NODE_DAC_ADC 1),
                    (Node VIOSND_NODE_DAC_ADC 0, PCFILTER_NODE VIOSND_PIN_BRIDGE)]\<rparr>"

definition ViosndCapturePins :: "PCPIN_DESCRIPTOR list" where
  "ViosndCapturePins =
     [\<lparr>MaxGlobalInstanceCount = 1, MaxFilterInstanceCount = 1, DataRanges = ViosndPinDataRangesStream,
       DataFlow = KSPIN_DATAFLOW_OUT, Communication = KSPIN_COMMUNICATION_SINK\<rparr>,
      \<lparr>MaxGlobalInstanceCount = 0, MaxFilterInstanceCount = 0, DataRanges = ViosndPinDataRangesBridge,
       DataFlow = KSPIN_DATAFLOW_IN, Communication = KSPIN_COMMUNICATION_NONE\<rparr>]"

definition ViosndCaptureFilterDescriptor :: PCFILTER_DESCRIPTOR where
  "ViosndCaptureFilterDescriptor = \<lparr>Pins = ViosndCapturePins, Nodes = [KSNODETYPE_ADC],
     Connections = [(PCFILTER_NODE VIOSND_PIN_BRIDGE, Node VIOSND_NODE_DAC_ADC 1),
                    (Node VIOSND_NODE_DAC_ADC 0, PCFILTER_NODE VIOSND_PIN_SYSTEM)]\<rparr>"

section \<open>The miniport\<close>

record wave_miniport =
  mp_RefCount :: nat
  mp_StreamId :: u32
  mp_Capture :: bool
  mp_Port :: ptr
  mp_This :: ptr
  mp_Destroyed :: bool

datatype interface_id = IID_IUnknown | IID_IMiniport | IID_IMiniportWaveRT
  | IID_IMiniportWaveRTStream | IID_IMiniportWaveRTStreamNotification
  | IID_IMiniportWaveRTInputStream | IID_IMiniportWaveRTOutputStream | Other_IID nat

text \<open>A \<open>QueryInterface\<close> names the interface it returns, \<open>None\<close> for NULL.\<close>

definition Stream_QueryInterface ::
  "interface_id \<Rightarrow> ('q, 'e) wave_stream \<Rightarrow> NTSTATUS \<times> interface_id option \<times> ('q, 'e) wave_stream" where
  "Stream_QueryInterface i s =
     (let r = (if i = IID_IUnknown \<or> i = IID_IMiniportWaveRTStream \<or>
                  i = IID_IMiniportWaveRTStreamNotification
               then Some IID_IMiniportWaveRTStreamNotification
               else if m_Capture s \<and> i = IID_IMiniportWaveRTInputStream
               then Some IID_IMiniportWaveRTInputStream
               else if \<not> m_Capture s \<and> i = IID_IMiniportWaveRTOutputStream
               then Some IID_IMiniportWaveRTOutputStream
               else None)
      in if r = None then (STATUS_INVALID_PARAMETER, None, s) else (STATUS_SUCCESS, r, AddRef s))"

definition Miniport_AddRef :: "wave_miniport \<Rightarrow> wave_miniport" where
  "Miniport_AddRef mp = mp\<lparr>mp_RefCount := mp_RefCount mp + 1\<rparr>"

definition Miniport_Release ::
  "('q, 'e) VIOSND_DEVICE \<Rightarrow> wave_miniport \<Rightarrow> (wave_miniport \<times> ('q, 'e) VIOSND_DEVICE) option" where
  "Miniport_Release dev mp =
     (if mp_RefCount mp = 0 then None
      else
        let mp = mp\<lparr>mp_RefCount := mp_RefCount mp - 1\<rparr>
        in if mp_RefCount mp \<noteq> 0 then Some (mp, dev)
           else do {
             dev \<leftarrow> ExFreePool dev (mp_This mp);
             Some (mp\<lparr>mp_Destroyed := True\<rparr>, dev)
           })"

definition Miniport_QueryInterface ::
  "interface_id \<Rightarrow> wave_miniport \<Rightarrow> NTSTATUS \<times> interface_id option \<times> wave_miniport" where
  "Miniport_QueryInterface i mp =
     (if i = IID_IUnknown \<or> i = IID_IMiniport \<or> i = IID_IMiniportWaveRT
      then (STATUS_SUCCESS, Some IID_IMiniportWaveRT, Miniport_AddRef mp)
      else (STATUS_INVALID_PARAMETER, None, mp))"

definition GetDescription :: "wave_miniport \<Rightarrow> PCFILTER_DESCRIPTOR" where
  "GetDescription mp =
     (if mp_Capture mp then ViosndCaptureFilterDescriptor else ViosndRenderFilterDescriptor)"

definition Init :: "ptr \<Rightarrow> wave_miniport \<Rightarrow> NTSTATUS \<times> wave_miniport" where
  "Init port mp = (STATUS_SUCCESS, mp\<lparr>mp_Port := port\<rparr>)"

text \<open>The status, \<open>*ResultantFormatLength\<close> and the format written.\<close>

definition DataRangeIntersection :: "format_sizes \<Rightarrow> u32 \<Rightarrow> NTSTATUS \<times> u32 \<times> KSDATAFORMAT option" where
  "DataRangeIntersection S outputBufferLength =
     (if outputBufferLength = 0
      then (STATUS_BUFFER_OVERFLOW, sizeof_KSDATAFORMAT_WAVEFORMATEXTENSIBLE S, None)
      else if outputBufferLength < sizeof_KSDATAFORMAT_WAVEFORMATEXTENSIBLE S
      then (STATUS_BUFFER_TOO_SMALL, sizeof_KSDATAFORMAT_WAVEFORMATEXTENSIBLE S, None)
      else (STATUS_SUCCESS, sizeof_KSDATAFORMAT_WAVEFORMATEXTENSIBLE S,
            Some (ViosndBuildDefaultFormat S)))"

text \<open>
  \<open>faulted\<close> is the static \<open>ViosndCaptureFaulted\<close>; the constructor takes a reference on the
  miniport.  \<open>n\<close> is the size of the stream object.
\<close>

definition NewStream ::
  "('q, 'e) kernel \<Rightarrow> format_sizes \<Rightarrow> nat \<Rightarrow> bool \<Rightarrow> u32 \<Rightarrow> bool \<Rightarrow> KSDATAFORMAT option \<Rightarrow>
   wave_miniport \<Rightarrow> ('q, 'e) VIOSND_DEVICE \<Rightarrow>
   NTSTATUS \<times> ('q, 'e) wave_stream option \<times> wave_miniport \<times> ('q, 'e) VIOSND_DEVICE" where
  "NewStream K S n faulted pin capture format mp dev =
     (if pin \<noteq> VIOSND_PIN_SYSTEM \<or> capture \<noteq> mp_Capture mp \<or> \<not> ViosndIsDefaultFormat S format
      then (STATUS_INVALID_PARAMETER, None, mp, dev)
      else
        let (memory, dev) = pool_alloc K dev n
        in if memory = 0 then (STATUS_INSUFFICIENT_RESOURCES, None, mp, dev)
           else (STATUS_SUCCESS,
                 Some (new_wave_stream memory dev (mp_StreamId mp) (mp_Capture mp) faulted),
                 Miniport_AddRef mp, dev))"

record DEVICE_DESCRIPTION =
  dd_Master :: bool
  dd_ScatterGather :: bool
  dd_Dma32BitAddresses :: bool
  dd_MaximumLength :: u32

definition GetDeviceDescription :: DEVICE_DESCRIPTION where
  "GetDeviceDescription = \<lparr>dd_Master = True, dd_ScatterGather = True, dd_Dma32BitAddresses = False,
     dd_MaximumLength = VIOSND_DEFAULT_BUFFER_BYTES\<rparr>"

definition ViosndCreateWaveRTMiniport ::
  "('q, 'e) kernel \<Rightarrow> nat \<Rightarrow> u32 \<Rightarrow> bool \<Rightarrow> ('q, 'e) VIOSND_DEVICE \<Rightarrow>
   NTSTATUS \<times> wave_miniport option \<times> ('q, 'e) VIOSND_DEVICE" where
  "ViosndCreateWaveRTMiniport K n streamId capture dev =
     (let (memory, dev) = pool_alloc K dev n
      in if memory = 0 then (STATUS_INSUFFICIENT_RESOURCES, None, dev)
         else (STATUS_SUCCESS,
               Some \<lparr>mp_RefCount = 1, mp_StreamId = streamId, mp_Capture = capture, mp_Port = 0,
                     mp_This = memory, mp_Destroyed = False\<rparr>, dev))"

end
