(* ===== verification/Packed_Ring.thy ===== *)
theory Packed_Ring
  imports Split_Ring
begin

text \<open>
  The packed virtqueue of \<open>VirtIO/VirtIORing-Packed.c\<close>: one ring of descriptors that driver and
  device both write, with a wrap counter on each side, and the table \<open>desc_state\<close> of buffer
  identifiers with its free list.  \<open>BUG_ON\<close> (a bug check), an index outside a table and a loop that
  never ends are \<open>None\<close>.  The invariant \<open>packed_inv\<close> says which identifiers are free, which slots
  of the ring lie between the driver's and the device's position, and what their flags are; the
  interpretation at the end makes the packed ring a \<open>virtqueue_ring\<close>, the interface without
  \<open>detach_unused_buf\<close>: detaching frees identifiers but not their slots.
\<close>

section \<open>Data\<close>

abbreviation (input) VRING_PACKED_EVENT_FLAG_ENABLE :: u16 where "VRING_PACKED_EVENT_FLAG_ENABLE \<equiv> 0"
abbreviation (input) VRING_PACKED_EVENT_FLAG_DISABLE :: u16 where "VRING_PACKED_EVENT_FLAG_DISABLE \<equiv> 1"
abbreviation (input) VRING_PACKED_EVENT_FLAG_DESC :: u16 where "VRING_PACKED_EVENT_FLAG_DESC \<equiv> 2"

record vring_packed_desc =
  pd_addr :: u64
  pd_len :: u32
  pd_id :: u16
  pd_flags :: u16

record 'o vring_desc_state_packed =
  ds_data :: "'o option"
  ds_num :: u16
  ds_next :: u16
  ds_last :: u16

text \<open>
  \<open>struct virtqueue_packed\<close> with the ring and the two event structures it points to.
  \<open>packed_indirect\<close> is the memory of the driver's indirect pages, \<open>packed_event_suppression\<close> the
  flag of the owning \<open>VirtIODevice\<close>, and \<open>packed_doorbell\<close> counts the calls of \<open>notification_cb\<close>.
\<close>

record 'o virtqueue_packed =
  vring_num :: u32
  vring_descs :: "vring_packed_desc list"
  driver_off_wrap :: u16
  driver_flags :: u16
  device_off_wrap :: u16
  device_flags :: u16
  num_added :: u32
  free_head :: u32
  num_free :: u32
  last_used_idx :: u16
  avail_used_flags :: u16
  avail_wrap_counter :: bool
  used_wrap_counter :: bool
  next_avail_idx :: u16
  event_flags_shadow :: u16
  desc_state :: "'o vring_desc_state_packed list"
  packed_indirect :: "ptr \<Rightarrow> vring_packed_desc list option"
  packed_event_suppression :: bool
  packed_doorbell :: nat

text \<open>Sixteen bytes a descriptor, four an event structure; the sizes of the control block are the compiler's.\<close>

definition vring_control_block_size_packed :: "u32 \<Rightarrow> u32 \<Rightarrow> u16 \<Rightarrow> u32" where
  "vring_control_block_size_packed sizeof_virtqueue sizeof_state qsize =
     sizeof_virtqueue + sizeof_state * ucast qsize"

definition vring_size_packed :: "u32 \<Rightarrow> u32 \<Rightarrow> u32" where
  "vring_size_packed n align = n * 16 + 2 * 4"

section \<open>Adding a buffer\<close>

text \<open>\<open>1 << VRING_PACKED_DESC_F_AVAIL | 1 << VRING_PACKED_DESC_F_USED\<close>, and the wrap of a ring index.\<close>

abbreviation (input) AVAIL_USED :: u16 where "AVAIL_USED \<equiv> 0x8080"

definition next_slot :: "'o virtqueue_packed \<Rightarrow> u16 \<Rightarrow> u16" where
  "next_slot vq i = (if vring_num vq \<le> ucast (i + 1) then 0 else i + 1)"

definition toggle_avail :: "'o virtqueue_packed \<Rightarrow> u16 \<Rightarrow> u16" where
  "toggle_avail vq i =
     (if vring_num vq \<le> ucast (i + 1) then avail_used_flags vq XOR AVAIL_USED else avail_used_flags vq)"

definition indirect_packed :: "nat \<Rightarrow> nat \<Rightarrow> scatterlist \<Rightarrow> vring_packed_desc \<Rightarrow> vring_packed_desc" where
  "indirect_packed outs i s d =
     d\<lparr>pd_flags := (if i < outs then 0 else VIRTQ_DESC_F_WRITE), pd_addr := sg_addr s, pd_len := sg_length s\<rparr>"

text \<open>
  The loop over the direct descriptors: \<open>i\<close> is the slot, \<open>cur\<close> (\<open>curr\<close>) and \<open>prev\<close> walk the free list,
  and the flags of the first descriptor are kept in \<open>head_flags\<close> until the end.
\<close>

fun add_packed_descs ::
  "nat \<Rightarrow> nat \<Rightarrow> u16 \<Rightarrow> nat \<Rightarrow> scatterlist list \<Rightarrow> u16 \<times> u16 \<times> u16 \<times> u16 \<Rightarrow> 'o virtqueue_packed \<Rightarrow>
   ((u16 \<times> u16 \<times> u16 \<times> u16) \<times> 'o virtqueue_packed) option" where
  "add_packed_descs len outs bid n [] r vq = Some (r, vq)"
| "add_packed_descs len outs bid n (s # sg) (i, cur, prev, head_flags) vq = do {
     let flags = avail_used_flags vq OR (if n < outs then 0 else VIRTQ_DESC_F_WRITE);
     let flags = (if n \<noteq> len - 1 then flags OR VIRTQ_DESC_F_NEXT else flags);
     d \<leftarrow> read_at (vring_descs vq) (unat i);
     ds \<leftarrow> write_at (vring_descs vq) (unat i)
             \<lparr>pd_addr = sg_addr s, pd_len = sg_length s, pd_id = bid,
              pd_flags = (if n = 0 then pd_flags d else flags)\<rparr>;
     st \<leftarrow> read_at (desc_state vq) (unat cur);
     add_packed_descs len outs bid (n + 1) sg
       (next_slot vq i, ds_next st, cur, if n = 0 then flags else head_flags)
       (vq\<lparr>vring_descs := ds, avail_used_flags := toggle_avail vq i\<rparr>)
   }"

definition virtqueue_add_buf_packed ::
  "'o virtqueue_packed \<Rightarrow> scatterlist list \<Rightarrow> nat \<Rightarrow> nat \<Rightarrow> 'o \<Rightarrow> ptr \<Rightarrow> u64 \<Rightarrow>
   (int \<times> 'o virtqueue_packed) option" where
  "virtqueue_add_buf_packed vq sg outs ins opaque va_indirect phys_indirect =
     (let descs_used = outs + ins; head = next_avail_idx vq; id = (ucast (free_head vq) :: u16)
      in if descs_used = 0 \<or> vring_num vq \<le> ucast id then None
      else if va_indirect \<noteq> 0 \<and> 0 < num_free vq then do {
        _ \<leftarrow> (if descs_used \<le> length sg \<and> descs_used < 0x10000 then Some () else None);
        page \<leftarrow> packed_indirect vq va_indirect;
        _ \<leftarrow> (if descs_used \<le> length page then Some () else None);
        ds \<leftarrow> write_at (vring_descs vq) (unat head)
                \<lparr>pd_addr = phys_indirect, pd_len = word_of_nat descs_used * 16, pd_id = id,
                 pd_flags = VIRTQ_DESC_F_INDIRECT OR avail_used_flags vq\<rparr>;
        st \<leftarrow> read_at (desc_state vq) (unat id);
        sts \<leftarrow> write_at (desc_state vq) (unat id)
                 (st\<lparr>ds_num := 1, ds_data := Some opaque, ds_last := id\<rparr>);
        Some (VQ_ADD_BUFFER_SUCCESS,
          vq\<lparr>packed_indirect := (packed_indirect vq)(va_indirect \<mapsto>
               map (\<lambda>i. indirect_packed outs i (sg ! i) (page ! i)) [0..<descs_used] @ drop descs_used page),
             vring_descs := ds,
             avail_wrap_counter := (if vring_num vq \<le> ucast (head + 1) then \<not> avail_wrap_counter vq
                                    else avail_wrap_counter vq),
             avail_used_flags := toggle_avail vq head, next_avail_idx := next_slot vq head,
             num_free := num_free vq - 1, num_added := num_added vq + 1,
             free_head := ucast (ds_next st), desc_state := sts\<rparr>)
      }
      else if unat (num_free vq) < descs_used then Some (- ENOSPC, vq)
      else do {
        _ \<leftarrow> (if descs_used \<le> length sg then Some () else None);
        ((i, cur, prev, head_flags), vq) \<leftarrow>
          add_packed_descs descs_used outs id 0 (take descs_used sg) (head, id, id, 0) vq;
        st \<leftarrow> read_at (desc_state vq) (unat id);
        sts \<leftarrow> write_at (desc_state vq) (unat id)
                 (st\<lparr>ds_num := word_of_nat descs_used, ds_data := Some opaque, ds_last := prev\<rparr>);
        d \<leftarrow> read_at (vring_descs vq) (unat head);
        ds \<leftarrow> write_at (vring_descs vq) (unat head) (d\<lparr>pd_flags := head_flags\<rparr>);
        Some (VQ_ADD_BUFFER_SUCCESS,
          vq\<lparr>avail_wrap_counter := (if i < head then \<not> avail_wrap_counter vq else avail_wrap_counter vq),
             num_free := num_free vq - word_of_nat descs_used, next_avail_idx := i,
             free_head := ucast cur, desc_state := sts, vring_descs := ds,
             num_added := num_added vq + word_of_nat descs_used\<rparr>)
      })"

section \<open>Collecting completions\<close>

definition detach_buf_packed :: "'o virtqueue_packed \<Rightarrow> nat \<Rightarrow> 'o virtqueue_packed option" where
  "detach_buf_packed vq bid = do {
     st \<leftarrow> read_at (desc_state vq) bid;
     let sts = (desc_state vq)[bid := st\<lparr>ds_data := None\<rparr>];
     l \<leftarrow> read_at sts (unat (ds_last st));
     sts \<leftarrow> write_at sts (unat (ds_last st)) (l\<lparr>ds_next := ucast (free_head vq)\<rparr>);
     Some (vq\<lparr>desc_state := sts, free_head := word_of_nat bid,
              num_free := num_free vq + ucast (ds_num st)\<rparr>)
   }"

definition avail_flag :: "vring_packed_desc \<Rightarrow> bool" where
  "avail_flag d \<longleftrightarrow> bit (pd_flags d) 7"

definition used_flag :: "vring_packed_desc \<Rightarrow> bool" where
  "used_flag d \<longleftrightarrow> bit (pd_flags d) 15"

definition is_used_desc_packed :: "'o virtqueue_packed \<Rightarrow> u16 \<Rightarrow> bool \<Rightarrow> bool option" where
  "is_used_desc_packed vq idx wrap = do {
     d \<leftarrow> read_at (vring_descs vq) (unat idx);
     Some (avail_flag d = used_flag d \<and> used_flag d = wrap)
   }"

definition more_used_packed :: "'o virtqueue_packed \<Rightarrow> bool option" where
  "more_used_packed vq = is_used_desc_packed vq (last_used_idx vq) (used_wrap_counter vq)"

text \<open>An index with the wrap counter in its top bit.\<close>

definition off_wrap :: "u16 \<Rightarrow> bool \<Rightarrow> u16" where
  "off_wrap idx wrap = idx OR (if wrap then 0x8000 else 0)"

text \<open>The comparison and the subtraction are on values promoted to \<open>unsigned\<close>.\<close>

definition virtqueue_get_buf_packed ::
  "'o virtqueue_packed \<Rightarrow> (('o \<times> u32) option \<times> 'o virtqueue_packed) option" where
  "virtqueue_get_buf_packed vq = do {
     more \<leftarrow> more_used_packed vq;
     if \<not> more then Some (None, vq)
     else do {
       d \<leftarrow> read_at (vring_descs vq) (unat (last_used_idx vq));
       let id = pd_id d;
       _ \<leftarrow> (if vring_num vq \<le> ucast id then None else Some ());
       st \<leftarrow> read_at (desc_state vq) (unat id);
       x \<leftarrow> ds_data st;
       vq \<leftarrow> detach_buf_packed vq (unat id);
       st \<leftarrow> read_at (desc_state vq) (unat id);
       let idx = last_used_idx vq + ds_num st;
       let vq = (if vring_num vq \<le> ucast idx
                 then vq\<lparr>last_used_idx := idx - ucast (vring_num vq),
                         used_wrap_counter := \<not> used_wrap_counter vq\<rparr>
                 else vq\<lparr>last_used_idx := idx\<rparr>);
       let vq = (if event_flags_shadow vq = VRING_PACKED_EVENT_FLAG_DESC
                 then vq\<lparr>driver_off_wrap := off_wrap (last_used_idx vq) (used_wrap_counter vq)\<rparr>
                 else vq);
       Some (Some (x, pd_len d), vq)
     }
   }"

text \<open>The operation has no failing answer of its own: outside the ring it reads what is there.\<close>

definition virtqueue_has_buf_packed :: "'o virtqueue_packed \<Rightarrow> bool" where
  "virtqueue_has_buf_packed vq \<longleftrightarrow> more_used_packed vq = Some True"

fun detach_packed_scan :: "nat \<Rightarrow> nat \<Rightarrow> 'o virtqueue_packed \<Rightarrow> ('o option \<times> 'o virtqueue_packed) option" where
  "detach_packed_scan i 0 vq = (if num_free vq \<noteq> vring_num vq then None else Some (None, vq))"
| "detach_packed_scan i (Suc k) vq = do {
     st \<leftarrow> read_at (desc_state vq) i;
     case ds_data st of
       None \<Rightarrow> detach_packed_scan (i + 1) k vq
     | Some x \<Rightarrow> do {
         vq \<leftarrow> detach_buf_packed vq i;
         Some (Some x, vq)
       }
   }"

definition virtqueue_detach_unused_buf_packed ::
  "'o virtqueue_packed \<Rightarrow> ('o option \<times> 'o virtqueue_packed) option" where
  "virtqueue_detach_unused_buf_packed vq = detach_packed_scan 0 (unat (vring_num vq)) vq"

section \<open>Interrupt control\<close>

definition virtqueue_disable_cb_packed :: "'o virtqueue_packed \<Rightarrow> 'o virtqueue_packed option" where
  "virtqueue_disable_cb_packed vq = Some
     (if event_flags_shadow vq \<noteq> VRING_PACKED_EVENT_FLAG_DISABLE
      then vq\<lparr>event_flags_shadow := VRING_PACKED_EVENT_FLAG_DISABLE,
              driver_flags := VRING_PACKED_EVENT_FLAG_DISABLE\<rparr>
      else vq)"

text \<open>The end that \<open>virtqueue_enable_cb_prepare_packed\<close> and \<open>virtqueue_enable_cb_delayed_packed\<close> share.\<close>

definition enable_events :: "'o virtqueue_packed \<Rightarrow> 'o virtqueue_packed" where
  "enable_events vq =
     (if event_flags_shadow vq = VRING_PACKED_EVENT_FLAG_DISABLE
      then let f = (if packed_event_suppression vq then VRING_PACKED_EVENT_FLAG_DESC
                    else VRING_PACKED_EVENT_FLAG_ENABLE)
           in vq\<lparr>event_flags_shadow := f, driver_flags := f\<rparr>
      else vq)"

definition virtqueue_enable_cb_prepare_packed :: "'o virtqueue_packed \<Rightarrow> u16 \<times> 'o virtqueue_packed" where
  "virtqueue_enable_cb_prepare_packed vq =
     (let ow = off_wrap (last_used_idx vq) (used_wrap_counter vq);
          vq = (if packed_event_suppression vq then vq\<lparr>driver_off_wrap := ow\<rparr> else vq)
      in (ow, enable_events vq))"

definition virtqueue_poll_packed :: "'o virtqueue_packed \<Rightarrow> u16 \<Rightarrow> bool option" where
  "virtqueue_poll_packed vq ow = is_used_desc_packed vq (ow AND 0x7FFF) (bit ow 15)"

definition virtqueue_enable_cb_packed ::
  "'o virtqueue_packed \<Rightarrow> (bool \<times> 'o virtqueue_packed) option" where
  "virtqueue_enable_cb_packed vq = do {
     let (last_used_idx, vq) = virtqueue_enable_cb_prepare_packed vq;
     used \<leftarrow> virtqueue_poll_packed vq last_used_idx;
     Some (\<not> used, vq)
   }"

definition virtqueue_enable_cb_delayed_packed ::
  "'o virtqueue_packed \<Rightarrow> (bool \<times> 'o virtqueue_packed) option" where
  "virtqueue_enable_cb_delayed_packed vq = do {
     let vq = (if packed_event_suppression vq
               then let bufs = ucast ((vring_num vq - num_free vq) * 3 div 4) :: u16;
                        used_idx = last_used_idx vq + bufs
                    in vq\<lparr>driver_off_wrap :=
                         (if vring_num vq \<le> ucast used_idx
                          then off_wrap (used_idx - ucast (vring_num vq)) (\<not> used_wrap_counter vq)
                          else off_wrap used_idx (used_wrap_counter vq))\<rparr>
               else vq);
     let vq = enable_events vq;
     used \<leftarrow> is_used_desc_packed vq (last_used_idx vq) (used_wrap_counter vq);
     Some (\<not> used, vq)
   }"

definition virtqueue_is_interrupt_enabled_packed :: "'o virtqueue_packed \<Rightarrow> bool" where
  "virtqueue_is_interrupt_enabled_packed vq \<longleftrightarrow>
     event_flags_shadow vq AND VRING_PACKED_EVENT_FLAG_DISABLE \<noteq> 0"

section \<open>Notifying the device\<close>

definition virtqueue_kick_prepare_packed ::
  "'o virtqueue_packed \<Rightarrow> (bool \<times> 'o virtqueue_packed) option" where
  "virtqueue_kick_prepare_packed vq =
     (let old = next_avail_idx vq - ucast (num_added vq);
          new = next_avail_idx vq;
          vq = vq\<lparr>num_added := 0\<rparr>;
          flags = device_flags vq
      in Some
        (if flags \<noteq> VRING_PACKED_EVENT_FLAG_DESC then flags \<noteq> VRING_PACKED_EVENT_FLAG_DISABLE
         else
           let event_idx = device_off_wrap vq AND 0x7FFF;
               event_idx = (if bit (device_off_wrap vq) 15 \<noteq> avail_wrap_counter vq
                            then event_idx - ucast (vring_num vq) else event_idx)
           in vring_need_event event_idx new old, vq))"

definition notification_cb_packed :: "'o virtqueue_packed \<Rightarrow> 'o virtqueue_packed" where
  "notification_cb_packed vq = vq\<lparr>packed_doorbell := packed_doorbell vq + 1\<rparr>"

definition virtqueue_kick_always_packed :: "'o virtqueue_packed \<Rightarrow> 'o virtqueue_packed option" where
  "virtqueue_kick_always_packed vq = Some (notification_cb_packed (vq\<lparr>num_added := 0\<rparr>))"

section \<open>Creation and shutdown\<close>

text \<open>
  \<open>vq\<close> supplies the ring memory and the owning device.  The loop counts to \<open>num - 1\<close> unsigned, so
  an empty ring runs over the table.
\<close>

definition vring_new_virtqueue_packed :: "u32 \<Rightarrow> 'o virtqueue_packed \<Rightarrow> 'o virtqueue_packed option" where
  "vring_new_virtqueue_packed n vq =
     (if n = 0 then None
      else Some (vq\<lparr>vring_num := n, num_free := n, free_head := 0, num_added := 0,
        avail_wrap_counter := True, used_wrap_counter := True, last_used_idx := 0,
        avail_used_flags := 0x80, next_avail_idx := 0, event_flags_shadow := 0,
        desc_state := map (\<lambda>i. \<lparr>ds_data = None, ds_num = 0,
          ds_next = (if i < unat (n - 1) then word_of_nat i + 1 else 0), ds_last = 0\<rparr>) [0..<unat n]\<rparr>))"

abbreviation (input) zero_packed_desc :: vring_packed_desc where
  "zero_packed_desc \<equiv> \<lparr>pd_addr = 0, pd_len = 0, pd_id = 0, pd_flags = 0\<rparr>"

definition virtqueue_shutdown_packed :: "'o virtqueue_packed \<Rightarrow> 'o virtqueue_packed option" where
  "virtqueue_shutdown_packed vq =
     vring_new_virtqueue_packed (vring_num vq)
       (vq\<lparr>vring_descs := replicate (unat (vring_num vq)) zero_packed_desc, driver_off_wrap := 0,
          driver_flags := 0, device_off_wrap := 0, device_flags := 0\<rparr>)"

section \<open>The function table\<close>

definition packed_ops :: "('o virtqueue_packed, 'o) virtqueue_ops" where
  "packed_ops =
     \<lparr>add_buf = virtqueue_add_buf_packed, kick_prepare = virtqueue_kick_prepare_packed,
      kick_always = virtqueue_kick_always_packed, get_buf = virtqueue_get_buf_packed,
      disable_cb = virtqueue_disable_cb_packed, enable_cb = virtqueue_enable_cb_packed,
      enable_cb_delayed = virtqueue_enable_cb_delayed_packed,
      detach_unused_buf = virtqueue_detach_unused_buf_packed,
      is_interrupt_enabled = virtqueue_is_interrupt_enabled_packed,
      has_buf = virtqueue_has_buf_packed, shutdown = virtqueue_shutdown_packed,
      notification_cb = notification_cb_packed\<rparr>"

section \<open>Positions and the invariant\<close>

text \<open>
  A position is a slot of the ring with the wrap counter that is current there; \<open>advance\<close> moves
  it by at most one lap.
\<close>

definition advance :: "nat \<Rightarrow> nat \<times> bool \<Rightarrow> nat \<Rightarrow> nat \<times> bool" where
  "advance N p n = (if fst p + n < N then (fst p + n, snd p) else (fst p + n - N, \<not> snd p))"

lemma advance_0 [simp]: "fst p < N \<Longrightarrow> advance N p 0 = p"
  by (simp add: advance_def)

lemma advance_less: "fst p < N \<Longrightarrow> n \<le> N \<Longrightarrow> fst (advance N p n) < N"
  by (auto simp: advance_def)

lemma advance_add: "fst p < N \<Longrightarrow> a + b \<le> N \<Longrightarrow> advance N (advance N p a) b = advance N p (a + b)"
  by (auto simp: advance_def)

lemma advance_lap:
  "fst p < N \<Longrightarrow> a \<le> N \<Longrightarrow> b < N \<Longrightarrow> N \<le> a + b \<Longrightarrow>
   advance N (advance N p a) b = (fst (advance N p (a + b - N)), \<not> snd (advance N p (a + b - N)))"
  by (auto simp: advance_def)

lemma advance_inj:
  "fst p < N \<Longrightarrow> a < N \<Longrightarrow> b < N \<Longrightarrow> fst (advance N p a) = fst (advance N p b) \<longleftrightarrow> a = b"
  by (auto simp: advance_def split: if_splits)

lemma advance_full: "fst p < N \<Longrightarrow> advance N p N = (fst p, \<not> snd p)"
  by (simp add: advance_def)

lemma advance_Suc: "fst p < N \<Longrightarrow> Suc n \<le> N \<Longrightarrow> advance N (advance N p (Suc 0)) n = advance N p (Suc n)"
  using advance_add [of p N 1 n] by simp

text \<open>
  \<open>links sts i xs\<close>: starting at the identifier \<open>i\<close> the \<open>next\<close> members visit \<open>xs\<close>.  \<open>slots\<close> is the
  number of ring slots a buffer takes, \<open>used_at\<close> the test for a used descriptor at a position,
  \<open>used_run\<close> the entries of the device from a position on, and \<open>run_len\<close> the slots they take.
\<close>

fun links :: "'o vring_desc_state_packed list \<Rightarrow> nat \<Rightarrow> nat list \<Rightarrow> bool" where
  "links sts i [] \<longleftrightarrow> True"
| "links sts i (x # xs) \<longleftrightarrow> x = i \<and> x < length sts \<and> links sts (unat (ds_next (sts ! x))) xs"

definition slots :: "'o virtqueue_packed \<Rightarrow> nat \<Rightarrow> nat" where
  "slots vq h = unat (ds_num (desc_state vq ! h))"

definition used_at :: "'o virtqueue_packed \<Rightarrow> nat \<times> bool \<Rightarrow> bool" where
  "used_at vq p \<longleftrightarrow> avail_flag (vring_descs vq ! fst p) = snd p \<and> used_flag (vring_descs vq ! fst p) = snd p"

fun used_run :: "'o virtqueue_packed \<Rightarrow> nat \<times> bool \<Rightarrow> (nat \<times> u32) list \<Rightarrow> bool" where
  "used_run vq p [] \<longleftrightarrow> True"
| "used_run vq p ((h, len) # us) \<longleftrightarrow> used_at vq p \<and> unat (pd_id (vring_descs vq ! fst p)) = h \<and>
     pd_len (vring_descs vq ! fst p) = len \<and> used_run vq (advance (unat (vring_num vq)) p (slots vq h)) us"

definition run_len :: "'o virtqueue_packed \<Rightarrow> (nat \<times> u32) list \<Rightarrow> nat" where
  "run_len vq us = sum_list (map (slots vq \<circ> fst) us)"

text \<open>The driver's position in the used descriptors, and the number of slots in flight.\<close>

definition used_pos :: "'o virtqueue_packed \<Rightarrow> nat \<times> bool" where
  "used_pos vq = (unat (last_used_idx vq), used_wrap_counter vq)"

definition busy :: "'o virtqueue_packed \<Rightarrow> nat" where
  "busy vq = unat (vring_num vq) - unat (num_free vq)"

definition packed_ids :: "'o virtqueue_packed \<Rightarrow> nat list \<Rightarrow> nat list list \<Rightarrow> bool" where
  "packed_ids vq fl cs \<longleftrightarrow>
     0 < unat (vring_num vq) \<and> unat (vring_num vq) \<le> 0x8000 \<and> length (desc_state vq) = unat (vring_num vq) \<and>
     unat (free_head vq) < unat (vring_num vq) \<and>
     (\<forall>i < unat (vring_num vq). unat (ds_next (desc_state vq ! i)) < unat (vring_num vq)) \<and>
     links (desc_state vq) (unat (free_head vq)) fl \<and> length fl = unat (num_free vq) \<and>
     (\<forall>c \<in> set cs. c \<noteq> [] \<and> links (desc_state vq) (hd c) c \<and> slots vq (hd c) = length c \<and>
        unat (ds_last (desc_state vq ! hd c)) = last c) \<and>
     mset fl + mset (concat cs) = mset [0..<unat (vring_num vq)] \<and>
     (\<forall>i < unat (vring_num vq). ds_data (desc_state vq ! i) \<noteq> None \<longleftrightarrow> i \<in> set (map hd cs))"

definition packed_ring :: "'o virtqueue_packed \<Rightarrow> bool" where
  "packed_ring vq \<longleftrightarrow>
     length (vring_descs vq) = unat (vring_num vq) \<and> fst (used_pos vq) < unat (vring_num vq) \<and>
     avail_used_flags vq \<in> {0x80, 0x8000} \<and>
     (unat (next_avail_idx vq), avail_used_flags vq = 0x80) = advance (unat (vring_num vq)) (used_pos vq) (busy vq) \<and>
     (\<forall>j < unat (vring_num vq). avail_flag (vring_descs vq ! fst (advance (unat (vring_num vq)) (used_pos vq) j)) \<longleftrightarrow>
        (if j < busy vq then snd (advance (unat (vring_num vq)) (used_pos vq) j)
         else \<not> snd (advance (unat (vring_num vq)) (used_pos vq) j)))"

text \<open>The device names buffers in flight, each once, and has used no slot behind them.\<close>

definition packed_used :: "'o virtqueue_packed \<Rightarrow> (nat \<times> u32) list \<Rightarrow> bool" where
  "packed_used vq us \<longleftrightarrow> used_run vq (used_pos vq) us \<and> distinct (map fst us) \<and>
     (\<forall>h \<in> set (map fst us). h < unat (vring_num vq) \<and> ds_data (desc_state vq ! h) \<noteq> None) \<and>
     (\<forall>j. run_len vq us \<le> j \<and> j < busy vq \<longrightarrow> \<not> used_at vq (advance (unat (vring_num vq)) (used_pos vq) j))"

definition packed_inv :: "'o virtqueue_packed \<Rightarrow> bool" where
  "packed_inv vq \<longleftrightarrow> (\<exists>fl cs. packed_ids vq fl cs) \<and> packed_ring vq \<and> (\<exists>us. packed_used vq us)"

text \<open>The entries are read off the ring; \<open>k\<close> bounds their number.\<close>

fun used_walk :: "nat \<Rightarrow> nat \<times> bool \<Rightarrow> 'o virtqueue_packed \<Rightarrow> (nat \<times> u32) list" where
  "used_walk 0 p vq = []"
| "used_walk (Suc k) p vq =
     (if used_at vq p
      then let h = unat (pd_id (vring_descs vq ! fst p))
           in (h, pd_len (vring_descs vq ! fst p)) # used_walk k (advance (unat (vring_num vq)) p (slots vq h)) vq
      else [])"

definition packed_inflight :: "'o virtqueue_packed \<Rightarrow> 'o multiset" where
  "packed_inflight vq = tokens (map ds_data (desc_state vq))"

definition packed_pending :: "'o virtqueue_packed \<Rightarrow> ('o \<times> u32) list" where
  "packed_pending vq = map (\<lambda>(h, len). (the (ds_data (desc_state vq ! h)), len))
     (used_walk (unat (vring_num vq)) (used_pos vq) vq)"

definition packed_room :: "'o virtqueue_packed \<Rightarrow> nat" where
  "packed_room vq = unat (num_free vq)"

section \<open>Lemmas on the identifiers and the used entries\<close>

lemma links_append:
  "links sts i (xs @ ys) \<longleftrightarrow> links sts i xs \<and> links sts (if xs = [] then i else unat (ds_next (sts ! last xs))) ys"
  by (induction xs arbitrary: i) auto

lemma links_bound: "links sts i xs \<Longrightarrow> x \<in> set xs \<Longrightarrow> x < length sts"
  by (induction xs arbitrary: i) auto

lemma links_cong:
  "length sts' = length sts \<Longrightarrow> (\<And>x. x \<in> set (butlast xs) \<Longrightarrow> ds_next (sts' ! x) = ds_next (sts ! x)) \<Longrightarrow>
   links sts' i xs = links sts i xs"
proof (induction xs arbitrary: i)
  case (Cons x xs)
  then show ?case by (cases xs) auto
qed simp

lemma used_run_append:
  "fst p < unat (vring_num vq) \<Longrightarrow> run_len vq (us @ vs) \<le> unat (vring_num vq) \<Longrightarrow>
   used_run vq p (us @ vs) \<longleftrightarrow> used_run vq p us \<and> used_run vq (advance (unat (vring_num vq)) p (run_len vq us)) vs"
proof (induction us arbitrary: p)
  case (Cons u us)
  obtain h len where u: "u = (h, len)" by (cases u)
  have le: "slots vq h + run_len vq (us @ vs) \<le> unat (vring_num vq)" using Cons.prems(2) u by (simp add: run_len_def)
  have "slots vq h + run_len vq us \<le> unat (vring_num vq)" using le by (simp add: run_len_def)
  then show ?case
    using Cons.IH [of "advance (unat (vring_num vq)) p (slots vq h)"] Cons.prems(1) le u
    by (auto simp: advance_less advance_add run_len_def)
qed (simp add: run_len_def)

text \<open>A run only depends on the slots it covers and on the sizes of its buffers.\<close>

lemma used_run_cong:
  assumes "used_run vq p us" "vring_num vq' = vring_num vq" "fst p < unat (vring_num vq)"
    "run_len vq us \<le> m" "m \<le> unat (vring_num vq)" "\<And>h. h \<in> set (map fst us) \<Longrightarrow> slots vq' h = slots vq h \<and> 0 < slots vq h"
    "\<And>j. j < m \<Longrightarrow> vring_descs vq' ! fst (advance (unat (vring_num vq)) p j) = vring_descs vq ! fst (advance (unat (vring_num vq)) p j)"
  shows "used_run vq' p us"
  using assms
proof (induction us arbitrary: p m)
  case (Cons u us)
  obtain h len where u: "u = (h, len)" by (cases u)
  let ?N = "unat (vring_num vq)"
  have h: "slots vq' h = slots vq h" "0 < slots vq h" using Cons.prems(6) [of h] u by simp_all
  have le: "slots vq h + run_len vq us \<le> m" using Cons.prems(4) u by (simp add: run_len_def)
  have same: "vring_descs vq' ! fst p = vring_descs vq ! fst p"
    using Cons.prems(7) [of 0] Cons.prems(3) h(2) le by simp
  have "used_run vq' (advance ?N p (slots vq h)) us"
  proof (rule Cons.IH [where m = "m - slots vq h"])
    show "used_run vq (advance ?N p (slots vq h)) us" using Cons.prems(1) u by simp
    show "vring_descs vq' ! fst (advance ?N (advance ?N p (slots vq h)) j) =
        vring_descs vq ! fst (advance ?N (advance ?N p (slots vq h)) j)" if "j < m - slots vq h" for j
      using Cons.prems(3,5,7) le that by (simp add: advance_add)
  qed (use Cons.prems le u in \<open>simp_all add: advance_less\<close>)
  then show ?case using Cons.prems(1,2) u same h by (simp add: used_at_def)
qed simp

lemma used_walk_run:
  assumes "used_run vq p us" "length us \<le> k" "length us = k \<or> \<not> used_at vq (advance (unat (vring_num vq)) p (run_len vq us))"
    "fst p < unat (vring_num vq)" "run_len vq us \<le> unat (vring_num vq)"
  shows "used_walk k p vq = us"
  using assms
proof (induction us arbitrary: p k)
  case Nil
  then show ?case by (cases k) (auto simp: run_len_def)
next
  case (Cons u us)
  obtain h len where u: "u = (h, len)" by (cases u)
  obtain k' where k: "k = Suc k'" using Cons.prems(2) by (cases k) auto
  have le: "slots vq h + run_len vq us \<le> unat (vring_num vq)" using Cons.prems(5) u by (simp add: run_len_def)
  have "used_walk k' (advance (unat (vring_num vq)) p (slots vq h)) vq = us"
    by (rule Cons.IH) (use Cons.prems u k le in \<open>auto simp: advance_less advance_add run_len_def\<close>)
  then show ?case using Cons.prems(1) u k by (auto simp: Let_def)
qed

text \<open>What the parts of the invariant say together.\<close>

lemma packed_idsD:
  assumes "packed_ids vq fl cs"
  shows "0 < unat (vring_num vq)" "unat (vring_num vq) \<le> 0x8000" "length (desc_state vq) = unat (vring_num vq)"
    "unat (free_head vq) < unat (vring_num vq)"
    "\<And>i. i < unat (vring_num vq) \<Longrightarrow> unat (ds_next (desc_state vq ! i)) < unat (vring_num vq)"
    "links (desc_state vq) (unat (free_head vq)) fl" "length fl = unat (num_free vq)"
    "\<And>c. c \<in> set cs \<Longrightarrow> c \<noteq> [] \<and> links (desc_state vq) (hd c) c \<and> slots vq (hd c) = length c \<and>
       unat (ds_last (desc_state vq ! hd c)) = last c"
    "mset fl + mset (concat cs) = mset [0..<unat (vring_num vq)]"
    "\<And>i. i < unat (vring_num vq) \<Longrightarrow> ds_data (desc_state vq ! i) \<noteq> None \<longleftrightarrow> i \<in> set (map hd cs)"
    "distinct (fl @ concat cs)" "\<And>x. x \<in> set fl \<or> x \<in> set (concat cs) \<longleftrightarrow> x < unat (vring_num vq)"
    "length fl + length (concat cs) = unat (vring_num vq)" "busy vq = length (concat cs)"
proof -
  note d = assms [unfolded packed_ids_def]
  show "0 < unat (vring_num vq)" "unat (vring_num vq) \<le> 0x8000" "length (desc_state vq) = unat (vring_num vq)"
    "unat (free_head vq) < unat (vring_num vq)"
    "\<And>i. i < unat (vring_num vq) \<Longrightarrow> unat (ds_next (desc_state vq ! i)) < unat (vring_num vq)"
    "links (desc_state vq) (unat (free_head vq)) fl" "length fl = unat (num_free vq)"
    "\<And>c. c \<in> set cs \<Longrightarrow> c \<noteq> [] \<and> links (desc_state vq) (hd c) c \<and> slots vq (hd c) = length c \<and>
       unat (ds_last (desc_state vq ! hd c)) = last c"
    "mset fl + mset (concat cs) = mset [0..<unat (vring_num vq)]"
    "\<And>i. i < unat (vring_num vq) \<Longrightarrow> ds_data (desc_state vq ! i) \<noteq> None \<longleftrightarrow> i \<in> set (map hd cs)"
    using d by blast+
  then have m: "mset (fl @ concat cs) = mset [0..<unat (vring_num vq)]" by simp
  show "distinct (fl @ concat cs)" using mset_eq_imp_distinct_iff [OF m] by simp
  show "x \<in> set fl \<or> x \<in> set (concat cs) \<longleftrightarrow> x < unat (vring_num vq)" for x
    using mset_eq_setD [OF m] by auto
  show len: "length fl + length (concat cs) = unat (vring_num vq)" using mset_eq_length [OF m] by simp
  show "busy vq = length (concat cs)" using len \<open>length fl = _\<close> by (simp add: busy_def)
qed

text \<open>Distinct buffers in flight take at most the slots that are in flight.\<close>

lemma sum_heads_bound:
  assumes "distinct hs" "set hs \<subseteq> set (map hd cs)" "distinct (concat cs)" "\<And>c. c \<in> set cs \<Longrightarrow> c \<noteq> [] \<and> f (hd c) = length c"
  shows "sum_list (map f hs) \<le> length (concat cs)"
  using assms
proof (induction cs arbitrary: hs)
  case (Cons c cs)
  let ?hs = "filter (\<lambda>h. h \<noteq> hd c) hs"
  have "sum_list (map f ?hs) \<le> length (concat cs)"
    by (rule Cons.IH) (use Cons.prems in auto)
  moreover have "sum_list (map f hs) \<le> sum_list (map f ?hs) + f (hd c)"
    using Cons.prems(1)
  proof (induction hs)
    case (Cons h hs)
    have "filter (\<lambda>h. h \<noteq> hd c) hs = hs" if "h = hd c" using Cons.prems that by (simp add: filter_id_conv) blast
    then show ?case using Cons by auto
  qed simp
  ultimately show ?case using Cons.prems(4) [of c] by simp
qed simp

lemma packed_ringD:
  assumes "packed_ring vq"
  shows "length (vring_descs vq) = unat (vring_num vq)" "fst (used_pos vq) < unat (vring_num vq)"
    "avail_used_flags vq \<in> {0x80, 0x8000}"
    "(unat (next_avail_idx vq), avail_used_flags vq = 0x80) = advance (unat (vring_num vq)) (used_pos vq) (busy vq)"
    "\<And>j. j < unat (vring_num vq) \<Longrightarrow>
       avail_flag (vring_descs vq ! fst (advance (unat (vring_num vq)) (used_pos vq) j)) \<longleftrightarrow>
        (if j < busy vq then snd (advance (unat (vring_num vq)) (used_pos vq) j)
         else \<not> snd (advance (unat (vring_num vq)) (used_pos vq) j))"
    "busy vq \<le> unat (vring_num vq)"
  using assms unfolding packed_ring_def busy_def by auto

lemma packed_usedD:
  assumes "packed_ids vq fl cs" "packed_ring vq" "packed_used vq us"
  shows "run_len vq us \<le> busy vq" "\<And>h. h \<in> set (map fst us) \<Longrightarrow> h \<in> set (map hd cs) \<and> 0 < slots vq h"
    "length us \<le> busy vq" "\<not> used_at vq (advance (unat (vring_num vq)) (used_pos vq) (run_len vq us))"
    "used_walk (unat (vring_num vq)) (used_pos vq) vq = us" "busy vq \<le> unat (vring_num vq)"
proof -
  note d = packed_idsD [OF assms(1)] and u = assms(3) [unfolded packed_used_def] and r = packed_ringD [OF assms(2)]
  let ?N = "unat (vring_num vq)"
  show h: "h \<in> set (map hd cs) \<and> 0 < slots vq h" if "h \<in> set (map fst us)" for h
  proof -
    have "h \<in> set (map hd cs)" using u that d(10) by blast
    then show ?thesis using d(8) by fastforce
  qed
  have "distinct (concat cs)" using d(11) by simp
  then have "sum_list (map (slots vq) (map fst us)) \<le> length (concat cs)"
    by (intro sum_heads_bound) (use u h d(8) in auto)
  then show run: "run_len vq us \<le> busy vq" by (simp add: run_len_def d(14) comp_def)
  have "length us \<le> run_len vq us" using h unfolding run_len_def by (induction us) (auto simp: Suc_le_eq add_strict_increasing)
  then show len: "length us \<le> busy vq" using run by simp
  show N: "busy vq \<le> ?N" by (simp add: busy_def)
  note p = r(2)
  show stop: "\<not> used_at vq (advance ?N (used_pos vq) (run_len vq us))"
  proof (cases "run_len vq us < busy vq")
    case True
    then show ?thesis using u by blast
  next
    case False
    then have e: "run_len vq us = busy vq" using run by simp
    show ?thesis
    proof (cases "busy vq < ?N")
      case True
      then show ?thesis using r(5) [of "busy vq"] by (auto simp: e used_at_def)
    next
      case full: False
      then have b: "busy vq = ?N" using N by simp
      have "avail_flag (vring_descs vq ! fst (advance ?N (used_pos vq) 0)) \<longleftrightarrow> snd (advance ?N (used_pos vq) 0)"
        using r(5) [of 0] d(1) b by simp
      then show ?thesis unfolding e b by (simp add: advance_full p used_at_def)
    qed
  qed
  show "used_walk ?N (used_pos vq) vq = us"
    by (rule used_walk_run) (use u len N stop p run in auto)
qed

section \<open>Adding a buffer\<close>

text \<open>The flags of descriptor \<open>k\<close> of \<open>n\<close>, written under the wrap counter \<open>w\<close>.\<close>

definition avail_bits :: "bool \<Rightarrow> u16" where
  "avail_bits w = (if w then 0x80 else 0x8000)"

definition packed_flags :: "bool \<Rightarrow> nat \<Rightarrow> nat \<Rightarrow> nat \<Rightarrow> u16" where
  "packed_flags w n outs k =
     (let f = avail_bits w OR (if k < outs then 0 else VIRTQ_DESC_F_WRITE)
      in if k \<noteq> n - 1 then f OR VIRTQ_DESC_F_NEXT else f)"

lemma packed_flags_bits [simp]:
  "bit (packed_flags w n outs k) 7 \<longleftrightarrow> w" "bit (packed_flags w n outs k) 15 \<longleftrightarrow> \<not> w"
  "bit (packed_flags w n outs k) 0 \<longleftrightarrow> k \<noteq> n - 1" "bit (packed_flags w n outs k) 1 \<longleftrightarrow> outs \<le> k"
  by (simp_all add: packed_flags_def avail_bits_def Let_def bit_simps not_less split: if_splits)

text \<open>The descriptor that describes entry \<open>k\<close> of a buffer.\<close>

definition packed_entry :: "u16 \<Rightarrow> bool \<Rightarrow> nat \<Rightarrow> nat \<Rightarrow> nat \<Rightarrow> scatterlist \<Rightarrow> vring_packed_desc" where
  "packed_entry bid w n outs k s =
     \<lparr>pd_addr = sg_addr s, pd_len = sg_length s, pd_id = bid, pd_flags = packed_flags w n outs k\<rparr>"

lemma unat_ucast_u32 [simp]: "unat (ucast (w :: u16) :: u32) = unat w"
proof -
  have "unat w < 2 ^ 16" using unsigned_less [of w] by simp
  then show ?thesis by (simp add: unsigned_ucast_eq take_bit_nat_eq_self)
qed

lemma slot_step:
  assumes "unat (vring_num vq) \<le> 0x8000" "unat i < unat (vring_num vq)" "avail_used_flags vq \<in> {0x80, 0x8000}"
  shows "(unat (next_slot vq i), toggle_avail vq i = 0x80) =
      advance (unat (vring_num vq)) (unat i, avail_used_flags vq = 0x80) 1" "toggle_avail vq i \<in> {0x80, 0x8000}"
proof -
  have i: "unat (i + 1) = unat i + 1" using assms(1,2) by (subst unat_word_ariths) simp
  have u: "unat (ucast (i + 1) :: u32) = unat i + 1" unfolding unat_ucast_u32 by (rule i)
  have le: "vring_num vq \<le> ucast (i + 1) \<longleftrightarrow> unat (vring_num vq) \<le> unat i + 1" unfolding word_le_nat_alt u ..
  show "(unat (next_slot vq i), toggle_avail vq i = 0x80) =
      advance (unat (vring_num vq)) (unat i, avail_used_flags vq = 0x80) 1"
    using assms(2,3) i unfolding next_slot_def toggle_avail_def le advance_def by auto
  show "toggle_avail vq i \<in> {0x80, 0x8000}" using assms(3) by (auto simp: toggle_avail_def)
qed

text \<open>What the loop over the direct descriptors leaves in the ring; entry 0 still has its old flags.\<close>

definition written ::
  "nat \<Rightarrow> nat \<times> bool \<Rightarrow> nat \<Rightarrow> nat \<Rightarrow> u16 \<Rightarrow> nat \<Rightarrow> scatterlist list \<Rightarrow> vring_packed_desc list \<Rightarrow> vring_packed_desc list \<Rightarrow> bool" where
  "written N p len outs bid k sg ds ds' \<longleftrightarrow> length ds' = length ds \<and>
     (\<forall>j < length sg. ds' ! fst (advance N p j) =
        (let e = packed_entry bid (snd (advance N p j)) len outs (k + j) (sg ! j)
         in if k + j = 0 then e\<lparr>pd_flags := pd_flags (ds ! fst p)\<rparr> else e)) \<and>
     (\<forall>i < N. (\<forall>j < length sg. i \<noteq> fst (advance N p j)) \<longrightarrow> ds' ! i = ds ! i)"

lemma add_packed_ok:
  assumes "unat (vring_num vq) \<le> 0x8000" "avail_used_flags vq \<in> {0x80, 0x8000}" "unat i < unat (vring_num vq)"
    "length (vring_descs vq) = unat (vring_num vq)" "length sg \<le> unat (vring_num vq)"
    "links (desc_state vq) (unat cur) xs" "length xs = length sg" "sg \<noteq> []"
  shows "\<exists>i' cur' auf' ds'. add_packed_descs len outs bid k sg (i, cur, prev, hf) vq =
      Some ((i', cur', word_of_nat (last xs), if k = 0 then packed_flags (avail_used_flags vq = 0x80) len outs 0 else hf),
        vq\<lparr>vring_descs := ds', avail_used_flags := auf'\<rparr>) \<and>
    (unat i', auf' = 0x80) = advance (unat (vring_num vq)) (unat i, avail_used_flags vq = 0x80) (length sg) \<and>
    auf' \<in> {0x80, 0x8000} \<and> cur' = ds_next (desc_state vq ! last xs) \<and>
    written (unat (vring_num vq)) (unat i, avail_used_flags vq = 0x80) len outs bid k sg (vring_descs vq) ds'"
  using assms
proof (induction sg arbitrary: vq i cur prev hf xs k)
  case (Cons s sg)
  let ?N = "unat (vring_num vq)" and ?p = "(unat i, avail_used_flags vq = 0x80)"
  obtain xs' where xs: "xs = unat cur # xs'" "unat cur < length (desc_state vq)"
    "links (desc_state vq) (unat (ds_next (desc_state vq ! unat cur))) xs'" "length xs' = length sg"
    using Cons.prems(6,7) by (cases xs) auto
  define f where "f = packed_flags (avail_used_flags vq = 0x80) len outs k"
  have f: "(if k \<noteq> len - 1 then (avail_used_flags vq OR (if k < outs then 0 else VIRTQ_DESC_F_WRITE)) OR VIRTQ_DESC_F_NEXT
        else avail_used_flags vq OR (if k < outs then 0 else VIRTQ_DESC_F_WRITE)) = f"
    using Cons.prems(2) by (auto simp: f_def packed_flags_def avail_bits_def Let_def)
  let ?d = "\<lparr>pd_addr = sg_addr s, pd_len = sg_length s, pd_id = bid,
      pd_flags = (if k = 0 then pd_flags (vring_descs vq ! unat i) else f)\<rparr>"
  let ?ds = "(vring_descs vq)[unat i := ?d]"
  let ?v = "vq\<lparr>vring_descs := ?ds, avail_used_flags := toggle_avail vq i\<rparr>"
  have i: "unat i < length (vring_descs vq)" using Cons.prems(3,4) by simp
  have step: "add_packed_descs len outs bid k (s # sg) (i, cur, prev, hf) vq =
      add_packed_descs len outs bid (k + 1) sg
        (next_slot vq i, ds_next (desc_state vq ! unat cur), cur, if k = 0 then f else hf) ?v"
    using i xs(2) f by (simp add: read_at_def write_at_def)
  note ss = slot_step [OF Cons.prems(1,3,2)]
  have "fst (advance ?N ?p 1) < ?N" by (rule advance_less) (use Cons.prems(3) in auto)
  then have ni: "unat (next_slot vq i) < ?N" unfolding ss(1) [symmetric] fst_conv .
  have p: "fst ?p < ?N" using Cons.prems(3) by simp
  show ?case
  proof (cases "sg = []")
    case True
    have w: "written ?N ?p len outs bid k [s] (vring_descs vq) ?ds"
      using i p by (auto simp: written_def packed_entry_def f_def Let_def)
    have l: "last xs = unat cur" using xs(1,4) True by simp
    show ?thesis
    proof (intro exI conjI)
      show "add_packed_descs len outs bid k (s # sg) (i, cur, prev, hf) vq =
          Some ((next_slot vq i, ds_next (desc_state vq ! unat cur), word_of_nat (last xs),
            if k = 0 then packed_flags (avail_used_flags vq = 0x80) len outs 0 else hf), ?v)"
        using step unfolding True l by (simp add: f_def del: add_packed_descs.simps(2))
      show "(unat (next_slot vq i), toggle_avail vq i = 0x80) = advance ?N ?p (length (s # sg))"
        unfolding True using ss(1) by simp
      show "toggle_avail vq i \<in> {0x80, 0x8000}" by (rule ss(2))
      show "ds_next (desc_state vq ! unat cur) = ds_next (desc_state vq ! last xs)" unfolding l ..
      show "written ?N ?p len outs bid k (s # sg) (vring_descs vq) ?ds" unfolding True by (rule w)
    qed
  next
    case False
    have "\<exists>i' cur' auf' ds'. add_packed_descs len outs bid (k + 1) sg
          (next_slot vq i, ds_next (desc_state vq ! unat cur), cur, if k = 0 then f else hf) ?v =
        Some ((i', cur', word_of_nat (last xs'), if k + 1 = 0 then packed_flags (avail_used_flags ?v = 0x80) len outs 0 else (if k = 0 then f else hf)),
          ?v\<lparr>vring_descs := ds', avail_used_flags := auf'\<rparr>) \<and>
        (unat i', auf' = 0x80) = advance (unat (vring_num ?v)) (unat (next_slot vq i), avail_used_flags ?v = 0x80) (length sg) \<and>
        auf' \<in> {0x80, 0x8000} \<and> cur' = ds_next (desc_state ?v ! last xs') \<and>
        written (unat (vring_num ?v)) (unat (next_slot vq i), avail_used_flags ?v = 0x80) len outs bid (k + 1) sg (vring_descs ?v) ds'"
      by (rule Cons.IH) (use Cons.prems ss(2) ni xs(3,4) False in simp_all)
    then obtain i' cur' auf' ds' where r:
      "add_packed_descs len outs bid (k + 1) sg
          (next_slot vq i, ds_next (desc_state vq ! unat cur), cur, if k = 0 then f else hf) ?v =
        Some ((i', cur', word_of_nat (last xs'), if k = 0 then f else hf), ?v\<lparr>vring_descs := ds', avail_used_flags := auf'\<rparr>)"
      "(unat i', auf' = 0x80) = advance ?N (unat (next_slot vq i), toggle_avail vq i = 0x80) (length sg)"
      "auf' \<in> {0x80, 0x8000}" "cur' = ds_next (desc_state vq ! last xs')"
      "written ?N (unat (next_slot vq i), toggle_avail vq i = 0x80) len outs bid (k + 1) sg ?ds ds'"
      by auto
    have adv: "advance ?N (advance ?N ?p 1) j = advance ?N ?p (Suc j)" if "Suc j \<le> ?N" for j
      using advance_add [of ?p ?N 1 j] p that by simp
    have pos: "(unat i', auf' = 0x80) = advance ?N ?p (length (s # sg))"
      using r(2) unfolding ss(1) using adv [of "length sg"] Cons.prems(5) by simp
    have w: "written ?N ?p len outs bid k (s # sg) (vring_descs vq) ds'"
    proof -
      note W = r(5) [unfolded ss(1) written_def]
      have adv': "advance ?N (advance ?N ?p 1) j = advance ?N ?p (Suc j)" if "j < length sg" for j
        using adv that Cons.prems(5) by simp
      have first: "unat i \<noteq> fst (advance ?N ?p (Suc j))" if "j < length sg" for j
        using advance_inj [of ?p ?N 0 "Suc j"] p that Cons.prems(5) by simp
      have d0: "ds' ! unat i = ?d"
        using W i p first adv' Cons.prems(4) by simp
      have dS: "ds' ! fst (advance ?N ?p (Suc j)) = packed_entry bid (snd (advance ?N ?p (Suc j))) len outs (k + Suc j) (sg ! j)"
        if "j < length sg" for j
        using W that adv' by (auto simp: Let_def)
      have do: "ds' ! m = vring_descs vq ! m" if m: "m < ?N" "\<forall>j < length (s # sg). m \<noteq> fst (advance ?N ?p j)" for m
      proof -
        have "m \<noteq> unat i" using m(2) p by force
        moreover have "\<forall>j < length sg. m \<noteq> fst (advance ?N (advance ?N ?p 1) j)" using m(2) adv' by auto
        ultimately show ?thesis using W m(1) by simp
      qed
      have all: "ds' ! fst (advance ?N ?p j) =
          (let e = packed_entry bid (snd (advance ?N ?p j)) len outs (k + j) ((s # sg) ! j)
           in if k + j = 0 then e\<lparr>pd_flags := pd_flags (vring_descs vq ! fst ?p)\<rparr> else e)" if "j < length (s # sg)" for j
        using that d0 dS p by (cases j) (auto simp: packed_entry_def f_def Let_def)
      show ?thesis unfolding written_def using W all do by simp
    qed
    have l: "last xs = last xs'" using xs(1,4) False by auto
    show ?thesis
    proof (intro exI conjI)
      show "add_packed_descs len outs bid k (s # sg) (i, cur, prev, hf) vq =
          Some ((i', cur', word_of_nat (last xs), if k = 0 then packed_flags (avail_used_flags vq = 0x80) len outs 0 else hf),
            vq\<lparr>vring_descs := ds', avail_used_flags := auf'\<rparr>)"
        unfolding step r(1) l by (simp add: f_def)
      show "(unat i', auf' = 0x80) = advance ?N ?p (length (s # sg))" by (rule pos)
      show "auf' \<in> {0x80, 0x8000}" by (rule r(3))
      show "cur' = ds_next (desc_state vq ! last xs)" unfolding l by (rule r(4))
      show "written ?N ?p len outs bid k (s # sg) (vring_descs vq) ds'" by (rule w)
    qed
  qed
qed simp

text \<open>The state after a successful direct \<open>add_buf\<close>; \<open>id\<close> is the identifier taken.\<close>

definition packed_added ::
  "'o virtqueue_packed \<Rightarrow> nat \<Rightarrow> scatterlist list \<Rightarrow> nat \<Rightarrow> 'o \<Rightarrow> nat list \<Rightarrow> 'o virtqueue_packed \<Rightarrow> bool" where
  "packed_added vq h sg outs x xs vq' \<longleftrightarrow>
     vring_num vq' = vring_num vq \<and> used_pos vq' = used_pos vq \<and> avail_used_flags vq' \<in> {0x80, 0x8000} \<and>
     avail_wrap_counter vq' = (if next_avail_idx vq' < next_avail_idx vq then \<not> avail_wrap_counter vq else avail_wrap_counter vq) \<and>
     num_free vq' = num_free vq - word_of_nat (length sg) \<and> unat (free_head vq') = unat (ds_next (desc_state vq ! last xs)) \<and>
     desc_state vq' = (desc_state vq)[h := (desc_state vq ! h)\<lparr>ds_num := word_of_nat (length sg), ds_data := Some x,
       ds_last := word_of_nat (last xs)\<rparr>] \<and>
     (unat (next_avail_idx vq'), avail_used_flags vq' = 0x80) =
       advance (unat (vring_num vq)) (unat (next_avail_idx vq), avail_used_flags vq = 0x80) (length sg) \<and>
     length (vring_descs vq') = length (vring_descs vq) \<and>
     (\<forall>j < length sg. vring_descs vq' ! fst (advance (unat (vring_num vq)) (unat (next_avail_idx vq), avail_used_flags vq = 0x80) j) =
        packed_entry (word_of_nat h) (snd (advance (unat (vring_num vq)) (unat (next_avail_idx vq), avail_used_flags vq = 0x80) j))
          (length sg) outs j (sg ! j)) \<and>
     (\<forall>i < unat (vring_num vq). (\<forall>j < length sg. i \<noteq> fst (advance (unat (vring_num vq))
        (unat (next_avail_idx vq), avail_used_flags vq = 0x80) j)) \<longrightarrow> vring_descs vq' ! i = vring_descs vq ! i)"

lemma unat_narrow: "unat (w :: u32) \<le> 0x8000 \<Longrightarrow> unat (ucast w :: u16) = unat w"
  by (simp add: unsigned_ucast_eq take_bit_nat_eq_self)

lemma links_hd: "links sts i xs \<Longrightarrow> xs \<noteq> [] \<Longrightarrow> hd xs = i"
  by (cases xs) auto

lemma packed_add_eq:
  assumes "packed_ids vq fl cs" "packed_ring vq" "sg \<noteq> []" "outs + ins = length sg" "length sg \<le> unat (num_free vq)"
  shows "\<exists>vq'. virtqueue_add_buf_packed vq sg outs ins x 0 0 = Some (VQ_ADD_BUFFER_SUCCESS, vq') \<and>
    packed_added vq (hd fl) sg outs x (take (length sg) fl) vq'"
proof -
  note d = packed_idsD [OF assms(1)] and r = packed_ringD [OF assms(2)]
  let ?N = "unat (vring_num vq)" and ?n = "length sg" and ?xs = "take (length sg) fl"
  let ?id = "ucast (free_head vq) :: u16"
  have id: "unat ?id = unat (free_head vq)" using d(2,4) by (intro unat_narrow) simp
  have xs: "length ?xs = ?n" "?xs \<noteq> []" using assms(3,5) d(7) by (auto simp: min_def)
  have "links (desc_state vq) (unat (free_head vq)) (?xs @ drop ?n fl)" using d(6) by simp
  then have lx: "links (desc_state vq) (unat ?id) ?xs" unfolding links_append id by blast
  have hd: "hd fl = unat ?id" using links_hd [OF d(6)] xs(2) id by fastforce
  have n: "?n \<le> ?N" using assms(5) d(7,13) by simp
  have pos: "unat (next_avail_idx vq) < ?N" using advance_less [OF r(2) r(6)] unfolding r(4) [symmetric] by simp
  obtain i' cur' auf' ds' where a: "add_packed_descs ?n outs ?id 0 sg (next_avail_idx vq, ?id, ?id, 0) vq =
      Some ((i', cur', word_of_nat (last ?xs), packed_flags (avail_used_flags vq = 0x80) ?n outs 0),
        vq\<lparr>vring_descs := ds', avail_used_flags := auf'\<rparr>)"
    "(unat i', auf' = 0x80) = advance ?N (unat (next_avail_idx vq), avail_used_flags vq = 0x80) ?n"
    "auf' \<in> {0x80, 0x8000}" "cur' = ds_next (desc_state vq ! last ?xs)"
    "written ?N (unat (next_avail_idx vq), avail_used_flags vq = 0x80) ?n outs ?id 0 sg (vring_descs vq) ds'"
    using add_packed_ok [OF d(2) r(3) pos r(1) n lx xs(1) assms(3), where k = 0 and prev = "?id" and hf = 0 and len = ?n and outs = outs and bid = ?id]
    by auto
  let ?p = "(unat (next_avail_idx vq), avail_used_flags vq = 0x80)"
  let ?e = "packed_flags (avail_used_flags vq = 0x80) ?n outs 0"
  let ?ds = "ds'[unat (next_avail_idx vq) := (ds' ! unat (next_avail_idx vq))\<lparr>pd_flags := ?e\<rparr>]"
  let ?st = "(desc_state vq)[unat ?id := (desc_state vq ! unat ?id)\<lparr>ds_num := word_of_nat ?n, ds_data := Some x,
       ds_last := word_of_nat (last ?xs)\<rparr>]"
  let ?v = "vq\<lparr>avail_used_flags := auf', vring_descs := ?ds, desc_state := ?st, num_free := num_free vq - word_of_nat ?n,
      next_avail_idx := i', free_head := ucast cur',
      avail_wrap_counter := (if i' < next_avail_idx vq then \<not> avail_wrap_counter vq else avail_wrap_counter vq),
      num_added := num_added vq + word_of_nat ?n\<rparr>"
  have W: "length ds' = length (vring_descs vq)" using a(5) by (simp add: written_def)
  have ids: "unat ?id < length (desc_state vq)" using d(3,4) id by simp
  have bug: "\<not> vring_num vq \<le> ucast ?id" using d(4) id by (simp add: word_le_nat_alt)
  have "virtqueue_add_buf_packed vq sg outs ins x 0 0 = Some (VQ_ADD_BUFFER_SUCCESS, ?v)"
    using assms(3,4,5) bug a(1) ids W pos r(1)
    by (simp add: virtqueue_add_buf_packed_def read_at_def write_at_def Let_def)
  moreover have "packed_added vq (hd fl) sg outs x ?xs ?v"
  proof -
    note w = a(5) [unfolded written_def]
    have e0: "?ds ! fst (advance ?N ?p 0) = packed_entry ?id (snd (advance ?N ?p 0)) ?n outs 0 (sg ! 0)"
      using w pos assms(3) W r(1) by (auto simp: Let_def packed_entry_def)
    have ej: "?ds ! fst (advance ?N ?p j) = packed_entry ?id (snd (advance ?N ?p j)) ?n outs j (sg ! j)" if j: "j < ?n" for j
    proof (cases "j = 0")
      case False
      then have "fst (advance ?N ?p j) \<noteq> unat (next_avail_idx vq)"
        using advance_inj [of ?p ?N j 0] pos j n by simp
      then show ?thesis using w j False by (auto simp: Let_def)
    qed (use e0 in simp)
    have eo: "?ds ! i = vring_descs vq ! i" if i: "i < ?N" "\<forall>j < ?n. i \<noteq> fst (advance ?N ?p j)" for i
    proof -
      have "i \<noteq> unat (next_avail_idx vq)" using i(2) assms(3) pos by (metis advance_0 fst_conv length_greater_0_conv)
      then show ?thesis using w i by simp
    qed
    have wid: "word_of_nat (unat ?id) = ?id" by simp
    show ?thesis
      unfolding packed_added_def hd wid using a(2,3,4) ej eo W by (simp add: used_pos_def)
  qed
  ultimately show ?thesis by blast
qed

lemma packed_add_ids:
  assumes "packed_ids vq fl cs" "packed_added vq (hd fl) sg outs x (take (length sg) fl) vq'" "sg \<noteq> []"
    "length sg \<le> unat (num_free vq)"
  shows "packed_ids vq' (drop (length sg) fl) (take (length sg) fl # cs)" "busy vq' = busy vq + length sg"
    "packed_inflight vq' = add_mset x (packed_inflight vq)"
    "\<And>h. h \<noteq> hd fl \<Longrightarrow> slots vq' h = slots vq h \<and> ds_data (desc_state vq' ! h) = ds_data (desc_state vq ! h)"
    "hd fl \<notin> set (map hd cs)"
proof -
  note d = packed_idsD [OF assms(1)] and a = assms(2) [unfolded packed_added_def]
  let ?N = "unat (vring_num vq)" and ?n = "length sg" and ?xs = "take (length sg) fl" and ?h = "hd fl"
  have xs: "length ?xs = ?n" "?xs \<noteq> []" "hd ?xs = ?h" using assms(3,4) d(7) by (auto simp: min_def hd_take)
  have fl: "fl \<noteq> []" using xs(2) by auto
  have hN: "?h < ?N" "?h \<in> set fl" using d(12) [of ?h] fl by auto
  have lN: "last ?xs < ?N" using d(12) [of "last ?xs"] xs(2) in_set_takeD last_in_set by metis
  have num: "unat (num_free vq') = unat (num_free vq) - ?n" "unat (word_of_nat ?n :: u16) = ?n"
  proof -
    show "unat (num_free vq') = unat (num_free vq) - ?n" using a assms(4) by (simp add: unat_sub_of_nat)
    have "?n < 2 ^ 16" using assms(4) d(2,7,13) by simp
    then show "unat (word_of_nat ?n :: u16) = ?n" by (simp add: unat_of_nat)
  qed
  have last: "unat (word_of_nat (last ?xs) :: u16) = last ?xs" using lN d(2) by (simp add: unat_of_nat)
  have st: "desc_state vq' = (desc_state vq)[?h := (desc_state vq ! ?h)\<lparr>ds_num := word_of_nat ?n, ds_data := Some x,
       ds_last := word_of_nat (last ?xs)\<rparr>]" using a by blast
  have nx: "ds_next (desc_state vq' ! i) = ds_next (desc_state vq ! i)" for i
    unfolding st using hN(1) d(3) by (cases "i = ?h") simp_all
  have len: "length (desc_state vq') = length (desc_state vq)" unfolding st by simp
  have lk: "links (desc_state vq') i ys = links (desc_state vq) i ys" for i ys by (rule links_cong) (simp_all add: len nx)
  show oth: "slots vq' h = slots vq h \<and> ds_data (desc_state vq' ! h) = ds_data (desc_state vq ! h)" if "h \<noteq> ?h" for h
    unfolding slots_def st using that by simp
  have ol: "ds_last (desc_state vq' ! h) = ds_last (desc_state vq ! h)" if "h \<noteq> ?h" for h unfolding st using that by simp
  have hs: "slots vq' ?h = ?n" "ds_data (desc_state vq' ! ?h) = Some x" "unat (ds_last (desc_state vq' ! ?h)) = last ?xs"
    unfolding slots_def st using hN(1) d(3) num(2) last by simp_all
  have hc: "hd c \<noteq> ?h" if "c \<in> set cs" for c
  proof -
    have "hd c \<in> set c" using d(8) [OF that] by simp
    then have "hd c \<in> set (concat cs)" using that by auto
    then show ?thesis using hN(2) d(11) by (metis disjoint_iff distinct_append)
  qed
  show nh: "?h \<notin> set (map hd cs)"
  proof
    assume "?h \<in> set (map hd cs)"
    then obtain c where "c \<in> set cs" "hd c = ?h" by auto
    then show False using hc by blast
  qed
  have parts: "links (desc_state vq) (unat (free_head vq)) ?xs \<and> links (desc_state vq) (unat (free_head vq')) (drop ?n fl)"
    using d(6) links_append [of "desc_state vq" "unat (free_head vq)" ?xs "drop ?n fl"] xs(2) a by simp
  show "packed_ids vq' (drop ?n fl) (?xs # cs)"
    unfolding packed_ids_def
  proof (intro conjI)
    show "0 < unat (vring_num vq')" "unat (vring_num vq') \<le> 0x8000" "length (desc_state vq') = unat (vring_num vq')"
      using a d(1-3) len by simp_all
    show "unat (free_head vq') < unat (vring_num vq')" using a d(5) [OF lN] by simp
    show "\<forall>i < unat (vring_num vq'). unat (ds_next (desc_state vq' ! i)) < unat (vring_num vq')" using a d(5) nx by simp
    show "links (desc_state vq') (unat (free_head vq')) (drop ?n fl)" using parts lk by simp
    show "length (drop ?n fl) = unat (num_free vq')" using num(1) d(7) by simp
    show "\<forall>c \<in> set (?xs # cs). c \<noteq> [] \<and> links (desc_state vq') (hd c) c \<and> slots vq' (hd c) = length c \<and>
        unat (ds_last (desc_state vq' ! hd c)) = last c"
    proof
      fix c assume "c \<in> set (?xs # cs)"
      then consider "c = ?xs" | "c \<in> set cs" by auto
      then show "c \<noteq> [] \<and> links (desc_state vq') (hd c) c \<and> slots vq' (hd c) = length c \<and>
        unat (ds_last (desc_state vq' ! hd c)) = last c"
      proof cases
        case 1
        have "hd ?xs = unat (free_head vq)" using links_hd [OF _ xs(2)] parts by blast
        then show ?thesis using parts xs hs 1 lk by simp
      next
        case 2
        then show ?thesis using d(8) [OF 2] hc [OF 2] oth ol lk by simp
      qed
    qed
    have "mset fl = mset ?xs + mset (drop ?n fl)" by (metis append_take_drop_id mset_append)
    then show "mset (drop ?n fl) + mset (concat (?xs # cs)) = mset [0..<unat (vring_num vq')]" using d(9) a by (simp add: ac_simps)
    show "\<forall>i < unat (vring_num vq'). (ds_data (desc_state vq' ! i) \<noteq> None) = (i \<in> set (map hd (?xs # cs)))"
    proof (intro allI impI)
      fix i assume "i < unat (vring_num vq')"
      then have "i < ?N" using a by simp
      then show "(ds_data (desc_state vq' ! i) \<noteq> None) = (i \<in> set (map hd (?xs # cs)))"
        using d(10) [of i] oth [of i] hs(2) xs(3) by (cases "i = ?h") simp_all
    qed
  qed
  show "busy vq' = busy vq + ?n" using num(1) assms(4) a d(7,13) by (simp add: busy_def)
  have none: "ds_data (desc_state vq ! ?h) = None" using d(10) [OF hN(1)] nh by simp
  have "map ds_data (desc_state vq') = (map ds_data (desc_state vq))[?h := Some x]" unfolding st by (simp add: map_update)
  then show "packed_inflight vq' = add_mset x (packed_inflight vq)"
    unfolding packed_inflight_def using tokens_update [of ?h "map ds_data (desc_state vq)" x] none hN(1) d(3) by simp
qed

lemma packed_add_ok:
  assumes "packed_inv vq" "sg \<noteq> []" "outs + ins = length sg" "length sg \<le> packed_room vq"
  shows "\<exists>vq'. virtqueue_add_buf_packed vq sg outs ins x 0 0 = Some (VQ_ADD_BUFFER_SUCCESS, vq') \<and> packed_inv vq' \<and>
    packed_inflight vq' = add_mset x (packed_inflight vq) \<and> packed_pending vq' = packed_pending vq \<and>
    packed_room vq' + length sg = packed_room vq"
proof -
  obtain fl cs us where i: "packed_ids vq fl cs" "packed_ring vq" "packed_used vq us"
    using assms(1) unfolding packed_inv_def by blast
  have room: "length sg \<le> unat (num_free vq)" using assms(4) by (simp add: packed_room_def)
  obtain vq' where v: "virtqueue_add_buf_packed vq sg outs ins x 0 0 = Some (VQ_ADD_BUFFER_SUCCESS, vq')"
    "packed_added vq (hd fl) sg outs x (take (length sg) fl) vq'"
    using packed_add_eq [OF i(1,2) assms(2,3) room] by blast
  note b = packed_add_ids [OF i(1) v(2) assms(2) room] and a = v(2) [unfolded packed_added_def]
  note d = packed_idsD [OF i(1)] and r = packed_ringD [OF i(2)] and u = packed_usedD [OF i]
  let ?N = "unat (vring_num vq)" and ?u = "used_pos vq" and ?b = "busy vq" and ?n = "length sg"
  have A: "(unat (next_avail_idx vq), avail_used_flags vq = 0x80) = advance ?N ?u ?b" by (rule r(4))
  have bn: "?b + ?n \<le> ?N" using d(7,13,14) room by simp
  have adv: "advance ?N (advance ?N ?u ?b) j = advance ?N ?u (?b + j)" if "j \<le> ?n" for j
    using advance_add [OF r(2)] that bn by simp
  have new: "vring_descs vq' ! fst (advance ?N ?u j) = packed_entry (word_of_nat (hd fl)) (snd (advance ?N ?u j)) ?n outs (j - ?b) (sg ! (j - ?b))"
    if "?b \<le> j" "j < ?b + ?n" for j
  proof -
    have k: "j - ?b < ?n" "?b + (j - ?b) = j" using that by auto
    have "advance ?N (advance ?N ?u ?b) (j - ?b) = advance ?N ?u j" using adv [of "j - ?b"] k by simp
    moreover have "vring_descs vq' ! fst (advance ?N (advance ?N ?u ?b) (j - ?b)) =
        packed_entry (word_of_nat (hd fl)) (snd (advance ?N (advance ?N ?u ?b) (j - ?b))) ?n outs (j - ?b) (sg ! (j - ?b))"
      using a k(1) unfolding A by blast
    ultimately show ?thesis by simp
  qed
  have old: "vring_descs vq' ! fst (advance ?N ?u j) = vring_descs vq ! fst (advance ?N ?u j)"
    if "j < ?N" "j < ?b \<or> ?b + ?n \<le> j" for j
  proof -
    have "fst (advance ?N ?u j) \<noteq> fst (advance ?N (advance ?N ?u ?b) k)" if "k < ?n" for k
      using adv [of k] that advance_inj [OF r(2), of j "?b + k"] bn \<open>j < ?N\<close> \<open>j < ?b \<or> _\<close> by auto
    then show ?thesis using a advance_less [OF r(2), of j] \<open>j < ?N\<close> unfolding A by simp
  qed
  have ring: "packed_ring vq'"
    unfolding packed_ring_def b(2)
  proof (intro conjI)
    show "length (vring_descs vq') = unat (vring_num vq')" "fst (used_pos vq') < unat (vring_num vq')"
      "avail_used_flags vq' \<in> {0x80, 0x8000}" using a r(1,2) by simp_all
    show "(unat (next_avail_idx vq'), avail_used_flags vq' = 0x80) = advance (unat (vring_num vq')) (used_pos vq') (?b + ?n)"
      using a adv [of ?n] unfolding A by simp
    have "avail_flag (vring_descs vq' ! fst (advance ?N ?u j)) =
        (if j < ?b + ?n then snd (advance ?N ?u j) else \<not> snd (advance ?N ?u j))" if j: "j < ?N" for j
    proof (cases "?b \<le> j \<and> j < ?b + ?n")
      case True
      then show ?thesis using new [of j] by (simp add: avail_flag_def packed_entry_def)
    next
      case False
      then show ?thesis using old [OF j] r(5) [OF j] by auto
    qed
    then show "\<forall>j < unat (vring_num vq'). avail_flag (vring_descs vq' ! fst (advance (unat (vring_num vq')) (used_pos vq') j)) =
        (if j < ?b + ?n then snd (advance (unat (vring_num vq')) (used_pos vq') j)
         else \<not> snd (advance (unat (vring_num vq')) (used_pos vq') j))" using a by simp
  qed
  have hs: "h \<noteq> hd fl" if "h \<in> set (map fst us)" for h using u(2) [OF that] b(5) by blast
  have rl: "run_len vq' us = run_len vq us"
    unfolding run_len_def using hs b(4) by (intro arg_cong [of _ _ sum_list] map_cong) auto
  have used: "packed_used vq' us"
    unfolding packed_used_def
  proof (intro conjI)
    show "used_run vq' (used_pos vq') us"
    proof -
      have "used_run vq' ?u us"
        by (rule used_run_cong [OF _ _ r(2) u(1) r(6)]) (use i(3) a b(4) hs u(2) old r(6) in \<open>auto simp: packed_used_def\<close>)
      then show ?thesis using a by simp
    qed
    show "distinct (map fst us)" using i(3) by (simp add: packed_used_def)
    have "ds_data (desc_state vq' ! h) = ds_data (desc_state vq ! h)" if "h \<in> set (map fst us)" for h
      using b(4) [OF hs [OF that]] by simp
    moreover have "vring_num vq' = vring_num vq" using a by blast
    ultimately show "\<forall>h \<in> set (map fst us). h < unat (vring_num vq') \<and> ds_data (desc_state vq' ! h) \<noteq> None"
      using i(3) unfolding packed_used_def by metis
    have "\<not> used_at vq' (advance ?N ?u j)" if j: "run_len vq us \<le> j" "j < ?b + ?n" for j
    proof (cases "j < ?b")
      case True
      then have "\<not> used_at vq (advance ?N ?u j)" using i(3) j(1) by (simp add: packed_used_def)
      then show ?thesis using old [of j] True bn by (simp add: used_at_def)
    next
      case False
      then show ?thesis using new [of j] j(2) by (simp add: used_at_def avail_flag_def used_flag_def packed_entry_def)
    qed
    then show "\<forall>j. run_len vq' us \<le> j \<and> j < busy vq' \<longrightarrow>
        \<not> used_at vq' (advance (unat (vring_num vq')) (used_pos vq') j)" using a by (simp add: rl b(2))
  qed
  have "used_walk (unat (vring_num vq')) (used_pos vq') vq' = us" by (rule packed_usedD(5) [OF b(1) ring used])
  then have "packed_pending vq' = packed_pending vq"
    unfolding packed_pending_def u(5) using b(4) [OF hs] by (simp only:) (intro map_cong refl, force)
  moreover have "packed_room vq' + ?n = packed_room vq" using a room by (simp add: packed_room_def unat_sub_of_nat)
  ultimately show ?thesis using v(1) b(1,3) ring used unfolding packed_inv_def by blast
qed

lemma packed_add_full:
  assumes "packed_inv vq" "outs + ins = length sg" "packed_room vq < length sg"
  shows "virtqueue_add_buf_packed vq sg outs ins x 0 0 = Some (- ENOSPC, vq)"
proof -
  obtain fl cs where i: "packed_ids vq fl cs" using assms(1) unfolding packed_inv_def by blast
  note d = packed_idsD [OF i]
  have "unat (ucast (free_head vq) :: u16) = unat (free_head vq)" using d(2,4) by (intro unat_narrow) simp
  then have "\<not> vring_num vq \<le> ucast (ucast (free_head vq) :: u16)" using d(4) by (simp add: word_le_nat_alt)
  then show ?thesis using assms(2,3) by (simp add: virtqueue_add_buf_packed_def packed_room_def Let_def) auto
qed

section \<open>Releasing a buffer\<close>

lemma in_chain: "c \<in> set cs \<Longrightarrow> c \<noteq> [] \<Longrightarrow> hd c \<in> set (concat cs) \<and> last c \<in> set (concat cs)"
  by (auto intro!: bexI [of _ c])

lemma concat_remove1: "c \<in> set cs \<Longrightarrow> mset (concat cs) = mset c + mset (concat (remove1 c cs))"
  by (induction cs) (auto simp: ac_simps)

lemma detach_packed_ok:
  assumes "packed_ids vq fl cs" "c \<in> set cs"
  shows "\<exists>vq'. detach_buf_packed vq (hd c) = Some vq' \<and> packed_ids vq' (c @ fl) (remove1 c cs) \<and>
    vq' = vq\<lparr>desc_state := desc_state vq', free_head := free_head vq', num_free := num_free vq'\<rparr> \<and>
    slots vq' = slots vq \<and> busy vq = busy vq' + length c \<and> 0 < length c \<and>
    ds_data (desc_state vq' ! hd c) = None \<and> (\<forall>h. h \<noteq> hd c \<longrightarrow> ds_data (desc_state vq' ! h) = ds_data (desc_state vq ! h)) \<and>
    (\<exists>x. ds_data (desc_state vq ! hd c) = Some x \<and> packed_inflight vq = add_mset x (packed_inflight vq'))"
proof -
  note d = packed_idsD [OF assms(1)]
  let ?N = "unat (vring_num vq)" and ?h = "hd c" and ?l = "last c"
  note c = d(8) [OF assms(2)]
  have hl: "?h < ?N" "?l < ?N" using in_chain [OF assms(2)] c d(12) by blast+
  let ?s1 = "(desc_state vq)[?h := (desc_state vq ! ?h)\<lparr>ds_data := None\<rparr>]"
  let ?st = "?s1[?l := (?s1 ! ?l)\<lparr>ds_next := ucast (free_head vq)\<rparr>]"
  let ?v = "vq\<lparr>desc_state := ?st, free_head := word_of_nat ?h, num_free := num_free vq + ucast (ds_num (desc_state vq ! ?h))\<rparr>"
  have e: "detach_buf_packed vq ?h = Some ?v"
    using hl d(3) c by (simp add: detach_buf_packed_def read_at_def write_at_def Let_def)
  have len: "length ?st = ?N" using d(3) by simp
  have nx: "ds_next (?st ! i) = (if i = ?l then ucast (free_head vq) else ds_next (desc_state vq ! i))" for i
    using hl d(3) by (cases "i = ?l"; cases "i = ?h") simp_all
  have nm: "ds_num (?st ! i) = ds_num (desc_state vq ! i)" "ds_last (?st ! i) = ds_last (desc_state vq ! i)" for i
    using hl d(3) by (cases "i = ?l"; cases "i = ?h"; cases "?l = ?h"; simp)+
  have dt: "ds_data (?st ! i) = (if i = ?h then None else ds_data (desc_state vq ! i))" for i
    using hl d(3) by (cases "i = ?l"; cases "i = ?h"; cases "?l = ?h"; simp)
  have sl: "slots ?v = slots vq" by (rule ext) (simp add: slots_def nm)
  have fh: "unat (ucast (free_head vq) :: u16) = unat (free_head vq)" "unat (word_of_nat ?h :: u32) = ?h"
    using d(2,4) hl(1) by (simp_all add: unat_narrow unat_of_nat)
  have lc: "length c \<le> length (concat cs)" using assms(2) by (induction cs) auto
  have nf: "unat (num_free vq + ucast (ds_num (desc_state vq ! ?h))) = unat (num_free vq) + length c"
  proof -
    have "unat (ucast (ds_num (desc_state vq ! ?h)) :: u32) = length c" using c by (simp add: slots_def)
    moreover have "unat (num_free vq) + length c < 2 ^ 32" using lc d(2,7,13) by simp
    ultimately show ?thesis by (subst unat_add_lem [THEN iffD1]) simp_all
  qed
  have dis: "distinct (concat cs)" "distinct fl" "set fl \<inter> set (concat cs) = {}" using d(11) by simp_all
  have perm: "mset cs = add_mset c (mset (remove1 c cs))" using assms(2) by simp
  have mc: "mset (concat cs) = mset c + mset (concat (remove1 c cs))"
    by (rule concat_remove1 [OF assms(2)])
  have "mset (c @ concat (remove1 c cs)) = mset (concat cs)" using mc by simp
  then have dcc: "distinct (c @ concat (remove1 c cs))" using dis(1) mset_eq_imp_distinct_iff by blast
  then have disj: "set c \<inter> set c' = {}" if "c' \<in> set (remove1 c cs)" for c' using that by auto
  have dc: "distinct c" using dcc by simp
  have lk: "links ?st i ys = links (desc_state vq) i ys" if "?l \<notin> set (butlast ys)" for i ys
    using that nx by (intro links_cong) (auto simp: d(3))
  have lfl: "?l \<notin> set fl" using in_chain [OF assms(2)] c dis(3) by blast
  have lbc: "?l \<notin> set (butlast c)" using dc c by (metis append_butlast_last_id distinct_append disjoint_iff list.set_intros(1))
  have ids: "packed_ids ?v (c @ fl) (remove1 c cs)"
    unfolding packed_ids_def
  proof (intro conjI)
    show "0 < unat (vring_num ?v)" "unat (vring_num ?v) \<le> 0x8000" "length (desc_state ?v) = unat (vring_num ?v)"
      using d(1-3) by simp_all
    show "unat (free_head ?v) < unat (vring_num ?v)" using fh hl by simp
    show "\<forall>i < unat (vring_num ?v). unat (ds_next (desc_state ?v ! i)) < unat (vring_num ?v)"
      using d(4,5) fh nx by simp
    have "links ?st ?h c" using lk [OF lbc] c by simp
    moreover have "links ?st (unat (ds_next (?st ! ?l))) fl"
    proof -
      have "?l \<notin> set (butlast fl)" using lfl by (metis in_set_butlastD)
      then show ?thesis using lk d(6) nx fh(1) by simp
    qed
    ultimately show "links (desc_state ?v) (unat (free_head ?v)) (c @ fl)" using fh(2) c by (simp add: links_append)
    show "length (c @ fl) = unat (num_free ?v)" using nf d(7) by simp
    show "\<forall>c' \<in> set (remove1 c cs). c' \<noteq> [] \<and> links (desc_state ?v) (hd c') c' \<and> slots ?v (hd c') = length c' \<and>
        unat (ds_last (desc_state ?v ! hd c')) = last c'"
    proof
      fix c' assume c': "c' \<in> set (remove1 c cs)"
      have "?l \<notin> set c'" using disj [OF c'] c last_in_set by blast
      then have "?l \<notin> set (butlast c')" by (metis in_set_butlastD)
      then show "c' \<noteq> [] \<and> links (desc_state ?v) (hd c') c' \<and> slots ?v (hd c') = length c' \<and>
        unat (ds_last (desc_state ?v ! hd c')) = last c'"
        unfolding sl using d(8) [of c'] set_remove1_subset [of c cs] c' lk nm by auto
    qed
    show "mset (c @ fl) + mset (concat (remove1 c cs)) = mset [0..<unat (vring_num ?v)]"
      using d(9) mc by (simp add: ac_simps)
    show "\<forall>i < unat (vring_num ?v). (ds_data (desc_state ?v ! i) \<noteq> None) = (i \<in> set (map hd (remove1 c cs)))"
    proof (intro allI impI)
      fix i assume i: "i < unat (vring_num ?v)"
      have "?h \<notin> set (map hd (remove1 c cs))"
      proof
        assume "?h \<in> set (map hd (remove1 c cs))"
        then obtain c' where c': "c' \<in> set (remove1 c cs)" "hd c' = ?h" by auto
        then have "hd c' \<in> set c'" using d(8) [of c'] set_remove1_subset [of c cs] by (metis list.set_sel(1) subsetD)
        then show False using disj [OF c'(1)] c' c by (metis disjoint_iff list.set_sel(1))
      qed
      moreover have "set (map hd cs) = insert ?h (set (map hd (remove1 c cs)))"
        using perm by (metis list.set_map set_mset_add_mset_insert set_mset_mset image_insert)
      ultimately show "(ds_data (desc_state ?v ! i) \<noteq> None) = (i \<in> set (map hd (remove1 c cs)))"
        using d(10) [of i] i dt [of i] by auto
    qed
  qed
  have "\<exists>x. ds_data (desc_state vq ! ?h) = Some x" using d(10) [OF hl(1)] assms(2) by auto
  then obtain x where x: "ds_data (desc_state vq ! ?h) = Some x" by blast
  have "map ds_data ?st = (map ds_data (desc_state vq))[?h := None]"
    by (rule nth_equalityI) (use dt d(3) hl in \<open>auto simp: nth_list_update\<close>)
  then have fl': "packed_inflight vq = add_mset x (packed_inflight ?v)"
    unfolding packed_inflight_def using tokens_remove [of ?h "map ds_data (desc_state vq)" x] x hl d(3) by simp
  have "busy vq = busy ?v + length c" using nf lc d(7,13) by (simp add: busy_def)
  then show ?thesis using e ids sl dt x fl' c by (intro exI [of _ ?v]) auto
qed
section \<open>The operations keep the invariant\<close>

lemma is_used_at:
  "unat idx < length (vring_descs vq) \<Longrightarrow> is_used_desc_packed vq idx w = Some (used_at vq (unat idx, w))"
  by (auto simp: is_used_desc_packed_def read_at_def used_at_def)

lemma packed_more:
  assumes "packed_ids vq fl cs" "packed_ring vq" "packed_used vq us"
  shows "more_used_packed vq = Some (us \<noteq> [])"
proof -
  note r = packed_ringD [OF assms(2)]
  have "more_used_packed vq = Some (used_at vq (used_pos vq))"
    using r(1,2) by (simp add: more_used_packed_def is_used_at used_pos_def)
  moreover have "used_at vq (used_pos vq) \<longleftrightarrow> us \<noteq> []"
  proof (cases us)
    case Nil
    then show ?thesis using packed_usedD(4) [OF assms] r(2) by (simp add: run_len_def)
  next
    case (Cons u us')
    then show ?thesis using assms(3) by (cases u) (simp add: packed_used_def)
  qed
  ultimately show ?thesis by simp
qed

lemma packed_pending_eq:
  "packed_ids vq fl cs \<Longrightarrow> packed_ring vq \<Longrightarrow> packed_used vq us \<Longrightarrow>
   packed_pending vq = map (\<lambda>(h, len). (the (ds_data (desc_state vq ! h)), len)) us"
  unfolding packed_pending_def by (simp add: packed_usedD(5))

lemma packed_get_empty:
  "packed_inv vq \<Longrightarrow> packed_pending vq = [] \<Longrightarrow> virtqueue_get_buf_packed vq = Some (None, vq)"
  using packed_more packed_pending_eq unfolding packed_inv_def
  by (fastforce simp: virtqueue_get_buf_packed_def)

text \<open>The driver's position after it collected a buffer of \<open>n\<close> slots.\<close>

lemma collect_step:
  assumes "unat (vring_num vq) \<le> 0x8000" "fst (used_pos vq) < unat (vring_num vq)" "unat n \<le> unat (vring_num vq)"
  shows "(let idx = last_used_idx vq + n
      in if vring_num vq \<le> ucast idx
         then (unat (idx - ucast (vring_num vq)), \<not> used_wrap_counter vq) else (unat idx, used_wrap_counter vq)) =
    advance (unat (vring_num vq)) (used_pos vq) (unat n)"
proof -
  have i: "unat (last_used_idx vq + n) = unat (last_used_idx vq) + unat n"
    by (rule unat_add_lem [THEN iffD1]) (use assms in \<open>simp add: used_pos_def\<close>)
  have N: "unat (ucast (vring_num vq) :: u16) = unat (vring_num vq)" using assms(1) by (rule unat_narrow)
  have le: "vring_num vq \<le> ucast (last_used_idx vq + n) \<longleftrightarrow> unat (vring_num vq) \<le> unat (last_used_idx vq) + unat n"
    unfolding word_le_nat_alt unat_ucast_u32 i ..
  have "unat (last_used_idx vq + n - ucast (vring_num vq)) = unat (last_used_idx vq) + unat n - unat (vring_num vq)"
    if "unat (vring_num vq) \<le> unat (last_used_idx vq) + unat n"
    using that i N by (subst unat_sub_ge) (simp_all add: word_le_nat_alt)
  then show ?thesis unfolding Let_def le advance_def used_pos_def using i by (simp add: not_less)
qed

lemma packed_get_pending:
  assumes "packed_inv vq" "packed_pending vq = (x, len) # rest"
  shows "\<exists>vq'. virtqueue_get_buf_packed vq = Some (Some (x, len), vq') \<and> packed_inv vq' \<and> packed_pending vq' = rest \<and>
    packed_inflight vq = add_mset x (packed_inflight vq') \<and> packed_room vq < packed_room vq'"
proof -
  obtain fl cs us where i: "packed_ids vq fl cs" "packed_ring vq" "packed_used vq us"
    using assms(1) unfolding packed_inv_def by blast
  note d = packed_idsD [OF i(1)] and r = packed_ringD [OF i(2)] and u = packed_usedD [OF i]
  obtain h us' where us: "us = (h, len) # us'" "x = the (ds_data (desc_state vq ! h))"
    "rest = map (\<lambda>(h, len). (the (ds_data (desc_state vq ! h)), len)) us'"
    using assms(2) packed_pending_eq [OF i] by (cases us) auto
  obtain c where c: "c \<in> set cs" "hd c = h" using u(2) [of h] us(1) by auto
  let ?N = "unat (vring_num vq)" and ?p = "used_pos vq" and ?n = "length c"
  have n: "slots vq h = ?n" using d(8) [OF c(1)] c(2) by simp
  obtain v where v: "detach_buf_packed vq h = Some v" "packed_ids v (c @ fl) (remove1 c cs)"
    "v = vq\<lparr>desc_state := desc_state v, free_head := free_head v, num_free := num_free v\<rparr>"
    "slots v = slots vq" "busy vq = busy v + ?n" "0 < ?n" "\<forall>k. k \<noteq> h \<longrightarrow> ds_data (desc_state v ! k) = ds_data (desc_state vq ! k)"
    "ds_data (desc_state vq ! h) = Some x" "packed_inflight vq = add_mset x (packed_inflight v)"
    using detach_packed_ok [OF i(1) c(1)] us(2) unfolding c(2) by auto
  have same: "vring_num v = vring_num vq" "vring_descs v = vring_descs vq" "last_used_idx v = last_used_idx vq"
    "used_wrap_counter v = used_wrap_counter vq" "next_avail_idx v = next_avail_idx vq" "avail_used_flags v = avail_used_flags vq"
    "used_pos v = ?p" unfolding used_pos_def by (subst v(3), simp)+
  have hd: "unat (pd_id (vring_descs vq ! fst ?p)) = h" "pd_len (vring_descs vq ! fst ?p) = len" "h < ?N"
    using i(3) us(1) by (simp_all add: packed_used_def)
  have nN: "?n \<le> ?N" using u(1,6) us(1) n by (simp add: run_len_def)
  define w where "w = (let idx = last_used_idx v + ds_num (desc_state v ! h)
     in if vring_num v \<le> ucast idx
        then v\<lparr>last_used_idx := idx - ucast (vring_num v), used_wrap_counter := \<not> used_wrap_counter v\<rparr>
        else v\<lparr>last_used_idx := idx\<rparr>)"
  define vq' where "vq' = (if event_flags_shadow w = VRING_PACKED_EVENT_FLAG_DESC
     then w\<lparr>driver_off_wrap := off_wrap (last_used_idx w) (used_wrap_counter w)\<rparr> else w)"
  have num: "unat (ds_num (desc_state v ! h)) = ?n" using n v(4) by (metis slots_def)
  have wp: "used_pos w = advance ?N ?p ?n"
    using collect_step [of v "ds_num (desc_state v ! h)"] d(2) r(2) nN num
    unfolding same w_def Let_def used_pos_def by (auto simp: same split: if_splits)
  have w: "vring_num w = vring_num vq" "vring_descs w = vring_descs vq" "desc_state w = desc_state v" "free_head w = free_head v"
    "num_free w = num_free v" "next_avail_idx w = next_avail_idx vq" "avail_used_flags w = avail_used_flags vq"
    unfolding w_def by (simp_all add: same Let_def)
  have q: "vring_num vq' = vring_num vq" "vring_descs vq' = vring_descs vq" "desc_state vq' = desc_state v" "free_head vq' = free_head v"
    "num_free vq' = num_free v" "next_avail_idx vq' = next_avail_idx vq" "avail_used_flags vq' = avail_used_flags vq"
    "used_pos vq' = advance ?N ?p ?n"
    unfolding vq'_def by (simp_all add: w wp used_pos_def [of "w\<lparr>driver_off_wrap := _\<rparr>"] flip: wp) (simp_all add: used_pos_def)
  have get: "virtqueue_get_buf_packed vq = Some (Some (x, len), vq')"
  proof -
    have m: "more_used_packed vq = Some True" using packed_more [OF i] us(1) by simp
    have id: "unat (pd_id (vring_descs vq ! unat (last_used_idx vq))) = h" using hd(1) by (simp add: used_pos_def)
    have le: "\<not> vring_num vq \<le> ucast (pd_id (vring_descs vq ! unat (last_used_idx vq)))"
      unfolding word_le_nat_alt unat_ucast_u32 id using hd(3) by simp
    have rd: "read_at (vring_descs vq) (unat (last_used_idx vq)) = Some (vring_descs vq ! unat (last_used_idx vq))"
      using r(1,2) by (simp add: read_at_def used_pos_def)
    have st: "read_at (desc_state vq) h = Some (desc_state vq ! h)" "read_at (desc_state v) h = Some (desc_state v ! h)"
      using d(3) packed_idsD(3) [OF v(2)] hd(3) same(1) by (simp_all add: read_at_def)
    show ?thesis
      unfolding virtqueue_get_buf_packed_def m rd id Let_def
      using le st v(1,8) hd(2) by (simp add: id vq'_def w_def Let_def used_pos_def)
  qed
  have ids: "packed_ids vq' (c @ fl) (remove1 c cs)"
    using v(2) unfolding packed_ids_def slots_def q by (simp add: same)
  have b: "busy vq' = busy vq - ?n" using v(5) unfolding busy_def q by (simp add: same(1))
  have sl: "slots vq' = slots vq" using v(4) unfolding slots_def q .
  have bN: "busy vq \<le> ?N" "?n \<le> busy vq" using u(6) v(5) by simp_all
  have adv: "advance ?N (advance ?N ?p ?n) j = advance ?N ?p (?n + j)" if "?n + j \<le> ?N" for j
    using advance_add [OF r(2) that] .
  have ring: "packed_ring vq'"
    unfolding packed_ring_def q b
  proof (intro conjI)
    show "length (vring_descs vq) = ?N" "avail_used_flags vq \<in> {0x80, 0x8000}" using r(1,3) .
    show "fst (advance ?N ?p ?n) < ?N" by (rule advance_less [OF r(2) nN])
    show "(unat (next_avail_idx vq), avail_used_flags vq = 0x80) = advance ?N (advance ?N ?p ?n) (busy vq - ?n)"
      using r(4) adv [of "busy vq - ?n"] bN by simp
    show "\<forall>j < ?N. avail_flag (vring_descs vq ! fst (advance ?N (advance ?N ?p ?n) j)) =
        (if j < busy vq - ?n then snd (advance ?N (advance ?N ?p ?n) j) else \<not> snd (advance ?N (advance ?N ?p ?n) j))"
    proof (intro allI impI)
      fix j assume j: "j < ?N"
      show "avail_flag (vring_descs vq ! fst (advance ?N (advance ?N ?p ?n) j)) =
        (if j < busy vq - ?n then snd (advance ?N (advance ?N ?p ?n) j) else \<not> snd (advance ?N (advance ?N ?p ?n) j))"
      proof (cases "?n + j < ?N")
        case True
        then show ?thesis using adv [of j] r(5) [of "?n + j"] by auto
      next
        case False
        have e: "advance ?N (advance ?N ?p ?n) j = (fst (advance ?N ?p (?n + j - ?N)), \<not> snd (advance ?N ?p (?n + j - ?N)))"
          using advance_lap [OF r(2) nN j] False by simp
        have "?n + j - ?N < busy vq" "\<not> j < busy vq - ?n" using False j bN by auto
        then show ?thesis unfolding e using r(5) [of "?n + j - ?N"] bN(1) by simp
      qed
    qed
  qed
  have dist: "h \<notin> set (map fst us')" using i(3) us(1) by (simp add: packed_used_def)
  have rl: "run_len vq us = ?n + run_len vq us'" "run_len vq' us' = run_len vq us'"
    using us(1) n sl by (simp_all add: run_len_def)
  have used: "packed_used vq' us'"
    unfolding packed_used_def q
  proof (intro conjI)
    have "used_run vq (advance ?N ?p ?n) us'" using i(3) us(1) n by (simp add: packed_used_def)
    then show "used_run vq' (advance ?N ?p ?n) us'"
      by (rule used_run_cong [where m = "run_len vq us'"])
        (use q sl rl u us(1) bN advance_less [OF r(2) nN] in auto)
    show "distinct (map fst us')" using i(3) us(1) by (simp add: packed_used_def)
    show "\<forall>k \<in> set (map fst us'). k < ?N \<and> ds_data (desc_state v ! k) \<noteq> None"
    proof
      fix k assume k: "k \<in> set (map fst us')"
      then have "k \<noteq> h" using dist by metis
      then have e: "ds_data (desc_state v ! k) = ds_data (desc_state vq ! k)" using v(7) by blast
      show "k < ?N \<and> ds_data (desc_state v ! k) \<noteq> None" unfolding e using i(3) us(1) k unfolding packed_used_def by auto
    qed
    have "\<not> used_at vq (advance ?N (advance ?N ?p ?n) j)" if "run_len vq us' \<le> j" "j < busy vq - ?n" for j
      using i(3) that rl(1) adv [of j] bN unfolding packed_used_def by simp
    then show "\<forall>j. run_len vq' us' \<le> j \<and> j < busy vq' \<longrightarrow> \<not> used_at vq' (advance ?N (advance ?N ?p ?n) j)"
      unfolding rl(2) b used_at_def q by blast
  qed
  have "packed_pending vq' = rest"
    unfolding packed_pending_eq [OF ids ring used] us(3) q using v(7) dist by (intro map_cong refl) force
  moreover have "packed_inflight vq' = packed_inflight v" unfolding packed_inflight_def q ..
  moreover have "packed_room vq < packed_room vq'" using v(6) d(7) packed_idsD(7) [OF v(2)] unfolding packed_room_def q length_append by linarith
  ultimately show ?thesis using get ids ring used v(9) unfolding packed_inv_def by auto
qed

lemma packed_inv_cong:
  assumes "packed_inv vq" "vring_num vq' = vring_num vq" "vring_descs vq' = vring_descs vq" "desc_state vq' = desc_state vq"
    "free_head vq' = free_head vq" "num_free vq' = num_free vq" "last_used_idx vq' = last_used_idx vq"
    "used_wrap_counter vq' = used_wrap_counter vq" "next_avail_idx vq' = next_avail_idx vq"
    "avail_used_flags vq' = avail_used_flags vq"
  shows "packed_inv vq' \<and> packed_inflight vq' = packed_inflight vq \<and> packed_pending vq' = packed_pending vq \<and>
    packed_room vq' = packed_room vq"
proof -
  have sl: "slots vq' = slots vq" and ua: "used_at vq' = used_at vq" and up: "used_pos vq' = used_pos vq" and b: "busy vq' = busy vq"
    using assms by (auto simp: slots_def used_at_def used_pos_def busy_def)
  have run: "used_run vq' p us = used_run vq p us" for p us
  proof (induction us arbitrary: p)
    case (Cons u us)
    then show ?case using assms(2,3) sl ua by (cases u) simp
  qed simp
  have rl: "run_len vq' us = run_len vq us" for us by (simp add: run_len_def sl)
  have "used_walk k p vq' = used_walk k p vq" for k p
    using assms(2,3) sl ua by (induction k arbitrary: p) (simp_all add: Let_def)
  then show ?thesis
    using assms sl ua up b run rl
    by (simp add: packed_inv_def packed_ids_def packed_ring_def packed_used_def packed_inflight_def packed_pending_def packed_room_def)
qed

lemma packed_kick_prepare:
  "packed_inv vq \<Longrightarrow> \<exists>b vq'. virtqueue_kick_prepare_packed vq = Some (b, vq') \<and> packed_inv vq' \<and>
     packed_inflight vq' = packed_inflight vq \<and> packed_pending vq' = packed_pending vq \<and> packed_room vq' = packed_room vq"
  by (simp add: virtqueue_kick_prepare_packed_def Let_def) (intro packed_inv_cong, simp_all)

lemma packed_kick_always:
  "packed_inv vq \<Longrightarrow> \<exists>vq'. virtqueue_kick_always_packed vq = Some vq' \<and> packed_inv vq' \<and>
     packed_inflight vq' = packed_inflight vq \<and> packed_pending vq' = packed_pending vq \<and> packed_room vq' = packed_room vq"
  by (simp add: virtqueue_kick_always_packed_def notification_cb_packed_def) (intro packed_inv_cong, simp_all)

lemma packed_notify:
  "packed_inv vq \<Longrightarrow> packed_inv (notification_cb_packed vq) \<and> packed_inflight (notification_cb_packed vq) = packed_inflight vq \<and>
     packed_pending (notification_cb_packed vq) = packed_pending vq \<and> packed_room (notification_cb_packed vq) = packed_room vq"
  by (intro packed_inv_cong) (simp_all add: notification_cb_packed_def)

lemma packed_disable:
  "packed_inv vq \<Longrightarrow> \<exists>vq'. virtqueue_disable_cb_packed vq = Some vq' \<and> packed_inv vq' \<and>
     packed_inflight vq' = packed_inflight vq \<and> packed_pending vq' = packed_pending vq \<and> packed_room vq' = packed_room vq"
  by (simp add: virtqueue_disable_cb_packed_def) (intro impI packed_inv_cong, simp_all)

lemma packed_has_buf: "packed_inv vq \<Longrightarrow> virtqueue_has_buf_packed vq \<longleftrightarrow> packed_pending vq \<noteq> []"
  unfolding packed_inv_def using packed_more packed_pending_eq by (fastforce simp: virtqueue_has_buf_packed_def)

lemma data_subset:
  assumes "distinct hs" "\<And>h. h \<in> set hs \<Longrightarrow> h < length xs \<and> xs ! h \<noteq> None"
  shows "mset (map (\<lambda>h. the (xs ! h)) hs) \<subseteq># tokens xs"
  using assms
proof (induction hs arbitrary: xs)
  case (Cons h hs)
  obtain x where x: "xs ! h = Some x" "h < length xs" using Cons.prems(2) [of h] by auto
  have eq: "map (\<lambda>k. the (xs ! k)) hs = map (\<lambda>k. the (xs[h := None] ! k)) hs"
    using Cons.prems(1) by (intro map_cong refl) (metis distinct.simps(2) nth_list_update_neq)
  have "mset (map (\<lambda>k. the (xs[h := None] ! k)) hs) \<subseteq># tokens (xs[h := None])"
    by (rule Cons.IH) (use Cons.prems in \<open>auto simp: nth_list_update\<close>)
  then have "mset (map (\<lambda>k. the (xs ! k)) hs) \<subseteq># tokens (xs[h := None])" unfolding eq .
  then show ?case using tokens_remove [OF x(2,1)] x by simp
qed simp

lemma packed_pending_inflight: "packed_inv vq \<Longrightarrow> mset (map fst (packed_pending vq)) \<subseteq># packed_inflight vq"
proof -
  assume "packed_inv vq"
  then obtain fl cs us where i: "packed_ids vq fl cs" "packed_ring vq" "packed_used vq us" unfolding packed_inv_def by blast
  note d = packed_idsD [OF i(1)]
  let ?xs = "map ds_data (desc_state vq)"
  have "map fst (packed_pending vq) = map (\<lambda>h. the (?xs ! h)) (map fst us)"
    unfolding packed_pending_eq [OF i] using i(3) d(3) by (auto simp: packed_used_def)
  moreover have "mset (map (\<lambda>h. the (?xs ! h)) (map fst us)) \<subseteq># tokens ?xs"
    by (rule data_subset) (use i(3) d(3) in \<open>auto simp: packed_used_def\<close>)
  ultimately show ?thesis by (simp add: packed_inflight_def)
qed

section \<open>The packed ring is a queue\<close>

interpretation packed: virtqueue_ring packed_ops packed_inv packed_inflight packed_pending packed_room
  by unfold_locales (simp_all add: packed_ops_def packed_add_ok packed_add_full packed_get_empty packed_get_pending
      packed_has_buf packed_kick_prepare packed_kick_always packed_notify packed_disable
      packed_pending_inflight [unfolded mset_map])

section \<open>The device's completions\<close>

text \<open>
  The device uses the buffer \<open>h\<close>: it writes a used descriptor at its own position, the one behind
  the entries the driver has not collected.
\<close>

definition packed_complete :: "'o virtqueue_packed \<Rightarrow> nat \<Rightarrow> u32 \<Rightarrow> 'o virtqueue_packed" where
  "packed_complete vq h len =
     (let us = used_walk (unat (vring_num vq)) (used_pos vq) vq;
          p = advance (unat (vring_num vq)) (used_pos vq) (run_len vq us)
      in vq\<lparr>vring_descs := (vring_descs vq)[fst p := (vring_descs vq ! fst p)
           \<lparr>pd_id := word_of_nat h, pd_len := len, pd_flags := (if snd p then 0x8080 else 0)\<rparr>]\<rparr>)"

lemma packed_complete_ok:
  assumes "packed_inv vq" "h < unat (vring_num vq)" "ds_data (desc_state vq ! h) = Some x"
    "h \<notin> set (map fst (used_walk (unat (vring_num vq)) (used_pos vq) vq))"
  shows "packed_inv (packed_complete vq h len) \<and> packed_pending (packed_complete vq h len) = packed_pending vq @ [(x, len)] \<and>
    packed_inflight (packed_complete vq h len) = packed_inflight vq \<and> packed_room (packed_complete vq h len) = packed_room vq"
proof -
  obtain fl cs us where i: "packed_ids vq fl cs" "packed_ring vq" "packed_used vq us"
    using assms(1) unfolding packed_inv_def by blast
  note d = packed_idsD [OF i(1)] and r = packed_ringD [OF i(2)] and u = packed_usedD [OF i]
  let ?N = "unat (vring_num vq)" and ?u = "used_pos vq" and ?m = "run_len vq us"
  let ?p = "advance ?N ?u ?m"
  let ?d = "(vring_descs vq ! fst ?p)\<lparr>pd_id := word_of_nat h, pd_len := len, pd_flags := (if snd ?p then 0x8080 else 0)\<rparr>"
  define v where "v = packed_complete vq h len"
  have v: "v = vq\<lparr>vring_descs := (vring_descs vq)[fst ?p := ?d]\<rparr>" unfolding v_def packed_complete_def u(5) Let_def ..
  have hs: "h \<in> set (map hd cs)" using d(10) [OF assms(2)] assms(3) by simp
  then have sh: "0 < slots vq h" using d(8) by fastforce
  have "sum_list (map (slots vq) (h # map fst us)) \<le> length (concat cs)"
    by (rule sum_heads_bound) (use i(3) u(2) hs d(8,11) assms(4) u(5) in \<open>auto simp: packed_used_def\<close>)
  then have m: "?m + slots vq h \<le> busy vq" by (simp add: run_len_def d(14) comp_def)
  then have mb: "?m < busy vq" "?m < ?N" using sh u(6) by simp_all
  have pN: "fst ?p < ?N" using advance_less [OF r(2)] mb by simp
  have sl: "slots v = slots vq" unfolding v slots_def by simp
  have sv: "vring_num v = vring_num vq" "desc_state v = desc_state vq" "slots v = slots vq" "used_pos v = ?u" "busy v = busy vq"
    "length (vring_descs v) = length (vring_descs vq)" "next_avail_idx v = next_avail_idx vq"
    "avail_used_flags v = avail_used_flags vq" "free_head v = free_head vq" "num_free v = num_free vq"
    unfolding sl unfolding v by (simp_all add: used_pos_def busy_def)
  have rl: "run_len v = run_len vq" unfolding run_len_def sl ..
  have at: "vring_descs v ! fst ?p = ?d" unfolding v using pN r(1) by simp
  have oth: "vring_descs v ! fst (advance ?N ?u j) = vring_descs vq ! fst (advance ?N ?u j)" if "j < ?N" "j \<noteq> ?m" for j
    unfolding v using advance_inj [OF r(2) that(1) mb(2)] that(2) by simp
  have fl: "avail_flag ?d = snd ?p" "used_flag ?d = snd ?p"
    by (simp_all add: avail_flag_def used_flag_def bit_simps)
  have ring: "packed_ring v"
    unfolding packed_ring_def sv
  proof (intro conjI)
    show "\<forall>j < ?N. avail_flag (vring_descs v ! fst (advance ?N ?u j)) =
        (if j < busy vq then snd (advance ?N ?u j) else \<not> snd (advance ?N ?u j))"
    proof (intro allI impI)
      fix j assume "j < ?N"
      then show "avail_flag (vring_descs v ! fst (advance ?N ?u j)) =
        (if j < busy vq then snd (advance ?N ?u j) else \<not> snd (advance ?N ?u j))"
        using oth [of j] r(5) [of j] at fl(1) mb(1) by (cases "j = ?m") simp_all
    qed
  qed (use r in simp_all)
  have hN: "unat (word_of_nat h :: u16) = h" using assms(2) d(2) by (simp add: unat_of_nat)
  have used: "packed_used v (us @ [(h, len)])"
    unfolding packed_used_def rl sv
  proof (intro conjI)
    have "used_run v ?u us"
      by (rule used_run_cong [OF _ sv(1) r(2) le_refl]) (use i(3) u(1,2,6) sv(3) oth mb in \<open>auto simp: packed_used_def\<close>)
    moreover have "used_run v ?p [(h, len)]" using at fl hN by (simp add: used_at_def)
    ultimately show "used_run v ?u (us @ [(h, len)])"
      using used_run_append [of ?u v us "[(h, len)]"] r(2) m u(6) sv rl by (simp add: run_len_def)
    show "distinct (map fst (us @ [(h, len)]))" using i(3) assms(4) u(5) by (simp add: packed_used_def)
    show "\<forall>k \<in> set (map fst (us @ [(h, len)])). k < ?N \<and> ds_data (desc_state vq ! k) \<noteq> None"
      using i(3) assms(2,3) by (auto simp: packed_used_def)
    have "\<not> used_at v (advance ?N ?u j)" if "?m + slots vq h \<le> j" "j < busy vq" for j
      using i(3) that oth [of j] sh u(6) by (simp add: packed_used_def used_at_def)
    then show "\<forall>j. run_len vq (us @ [(h, len)]) \<le> j \<and> j < busy vq \<longrightarrow> \<not> used_at v (advance ?N ?u j)"
      by (simp add: run_len_def)
  qed
  have ids: "packed_ids v fl cs" using i(1) unfolding packed_ids_def sv sl .
  have "packed_pending v = packed_pending vq @ [(x, len)]"
    unfolding packed_pending_eq [OF ids ring used] packed_pending_eq [OF i] sv using assms(3) by simp
  moreover have "packed_inflight v = packed_inflight vq" "packed_room v = packed_room vq"
    unfolding packed_inflight_def packed_room_def v by simp_all
  ultimately show ?thesis using ids ring used unfolding v_def packed_inv_def by blast
qed

section \<open>A new queue\<close>

lemma links_upt:
  assumes "\<And>j. i \<le> j \<Longrightarrow> Suc j < n \<Longrightarrow> unat (ds_next (sts ! j)) = Suc j" "length sts = n" "i \<le> n"
  shows "links sts i [i..<n]"
  using assms(1,3)
proof (induction "n - i" arbitrary: i)
  case (Suc k)
  then have i: "[i..<n] = i # [Suc i..<n]" by (simp add: upt_conv_Cons)
  show ?case
  proof (cases "Suc i < n")
    case True
    have "links sts (Suc i) [Suc i..<n]" by (rule Suc.hyps(1)) (use Suc in auto)
    then show ?thesis using i Suc.prems(1) [of i] True assms(2) by simp
  next
    case False
    then show ?thesis using i assms(2) Suc.hyps(2) by simp
  qed
qed simp

lemma vring_new_packed_ok:
  assumes "0 < unat n" "unat n \<le> 0x8000" "vring_descs vq = replicate (unat n) zero_packed_desc"
    "vring_new_virtqueue_packed n vq = Some vq'"
  shows "packed_inv vq' \<and> packed_inflight vq' = {#} \<and> packed_pending vq' = [] \<and> packed_room vq' = unat n \<and>
    packed_ids vq' [0..<unat n] [] \<and> (avail_wrap_counter vq' \<longleftrightarrow> avail_used_flags vq' = 0x80)"
proof -
  have n0: "n \<noteq> 0" using assms(1) by auto
  let ?st = "map (\<lambda>i. \<lparr>ds_data = None, ds_num = 0,
          ds_next = (if i < unat (n - 1) then word_of_nat i + 1 else 0), ds_last = 0\<rparr>) [0..<unat n]"
  have v: "vq' = vq\<lparr>vring_num := n, num_free := n, free_head := 0, num_added := 0,
        avail_wrap_counter := True, used_wrap_counter := True, last_used_idx := 0,
        avail_used_flags := 0x80, next_avail_idx := 0, event_flags_shadow := 0, desc_state := ?st\<rparr>"
    using assms(4) n0 by (simp add: vring_new_virtqueue_packed_def)
  have n1: "unat (n - 1) = unat n - 1" using n0 by (simp add: unat_minus_one)
  have nx: "unat (ds_next (?st ! i)) = (if Suc i < unat n then Suc i else 0)" if "i < unat n" for i
  proof (cases "Suc i < unat n")
    case True
    have "Suc i < 2 ^ LENGTH(16)" using True assms(2) by simp
    then have "unat (word_of_nat (Suc i) :: u16) = Suc i" unfolding unat_of_nat by (rule mod_less)
    then have "unat (word_of_nat i + 1 :: u16) = Suc i" by (simp only: of_nat_Suc add.commute)
    then show ?thesis using that True n1 by simp
  next
    case False
    then have "\<not> i < unat (n - 1)" using n1 by linarith
    then show ?thesis using that False by simp
  qed
  have lk: "links ?st 0 [0..<unat n]" by (rule links_upt) (use nx in auto)
  have ids: "packed_ids vq' [0..<unat n] []"
    unfolding packed_ids_def
  proof (intro conjI)
    have "unat (ds_next (?st ! i)) < unat n" if "i < unat n" for i using nx [OF that] that by (simp split: if_splits)
    then show "\<forall>i < unat (vring_num vq'). unat (ds_next (desc_state vq' ! i)) < unat (vring_num vq')" unfolding v by simp
    show "links (desc_state vq') (unat (free_head vq')) [0..<unat n]" unfolding v using lk by simp
  qed (use assms(1,2) in \<open>simp_all add: v\<close>)
  have b: "busy vq' = 0" unfolding busy_def v by simp
  have ring: "packed_ring vq'"
    unfolding packed_ring_def b unfolding v using assms(1,3)
    by (auto simp: used_pos_def advance_def avail_flag_def split: if_splits)
  have used: "packed_used vq' []" unfolding packed_used_def b by simp
  have "packed_inflight vq' = {#}" unfolding packed_inflight_def v by (auto simp: tokens_empty_iff)
  moreover have "packed_pending vq' = []" unfolding packed_pending_eq [OF ids ring used] by simp
  moreover have "packed_room vq' = unat n" "avail_wrap_counter vq' \<longleftrightarrow> avail_used_flags vq' = 0x80"
    unfolding packed_room_def v by simp_all
  ultimately show ?thesis using ids ring used unfolding packed_inv_def by blast
qed

text \<open>A ring of four descriptors.\<close>

definition packed4 :: "'o virtqueue_packed" where
  "packed4 = the (vring_new_virtqueue_packed 4
     \<lparr>vring_num = 0, vring_descs = replicate 4 zero_packed_desc, driver_off_wrap = 0, driver_flags = 0,
      device_off_wrap = 0, device_flags = 0, num_added = 0, free_head = 0, num_free = 0, last_used_idx = 0,
      avail_used_flags = 0, avail_wrap_counter = False, used_wrap_counter = False, next_avail_idx = 0,
      event_flags_shadow = 0, desc_state = [], packed_indirect = (\<lambda>_. None), packed_event_suppression = True,
      packed_doorbell = 0\<rparr>)"

lemma packed4_ok:
  "packed_inv (packed4 :: 'o virtqueue_packed)" "packed_inflight (packed4 :: 'o virtqueue_packed) = {#}"
  "packed_pending (packed4 :: 'o virtqueue_packed) = []" "packed_room (packed4 :: 'o virtqueue_packed) = 4"
  "packed_ids (packed4 :: 'o virtqueue_packed) [0, 1, 2, 3] []" "vring_num (packed4 :: 'o virtqueue_packed) = 4"
  "avail_wrap_counter (packed4 :: 'o virtqueue_packed) \<longleftrightarrow> avail_used_flags (packed4 :: 'o virtqueue_packed) = 0x80"
proof -
  let ?m = "\<lparr>vring_num = 0, vring_descs = replicate 4 zero_packed_desc, driver_off_wrap = 0, driver_flags = 0,
      device_off_wrap = 0, device_flags = 0, num_added = 0, free_head = 0, num_free = 0, last_used_idx = 0,
      avail_used_flags = 0, avail_wrap_counter = False, used_wrap_counter = False, next_avail_idx = 0,
      event_flags_shadow = 0, desc_state = [], packed_indirect = (\<lambda>_. None), packed_event_suppression = True,
      packed_doorbell = 0\<rparr> :: 'o virtqueue_packed"
  obtain q where q: "vring_new_virtqueue_packed 4 ?m = Some q" by (simp add: vring_new_virtqueue_packed_def)
  then have e: "packed4 = q" unfolding packed4_def by simp
  have "0 < unat (4 :: u32)" "unat (4 :: u32) \<le> 0x8000" "vring_descs ?m = replicate (unat (4 :: u32)) zero_packed_desc" by simp_all
  note n = vring_new_packed_ok [OF this q]
  show "packed_inv (packed4 :: 'o virtqueue_packed)" "packed_inflight (packed4 :: 'o virtqueue_packed) = {#}"
    "packed_pending (packed4 :: 'o virtqueue_packed) = []" "packed_room (packed4 :: 'o virtqueue_packed) = 4"
    "avail_wrap_counter (packed4 :: 'o virtqueue_packed) \<longleftrightarrow> avail_used_flags (packed4 :: 'o virtqueue_packed) = 0x80"
    using n unfolding e by simp_all
  have "[0..<unat (4 :: u32)] = [0, 1, 2, 3]" by (simp add: upt_rec)
  then show "packed_ids (packed4 :: 'o virtqueue_packed) [0, 1, 2, 3] []" using n unfolding e by simp
  show "vring_num (packed4 :: 'o virtqueue_packed) = 4" using q unfolding e by (auto simp: vring_new_virtqueue_packed_def)
qed

section \<open>Properties\<close>

text \<open>
  C31: adding a buffer to the packed ring writes, from the driver's position on, one descriptor for
  each entry of the scatter list, with its address, length, direction and chaining flag, all with
  the identifier taken from the free list and marked available under the wrap counter of their
  slot; every other slot is untouched.  A buffer larger than the free descriptors is refused with
  \<open>-ENOSPC\<close> and no change.
\<close>

theorem packed_add_correct:
  assumes "packed_inv vq" "sg \<noteq> []" "outs + ins = length sg"
  shows "let N = unat (vring_num vq); p = (unat (next_avail_idx vq), avail_used_flags vq = 0x80) in
    if length sg \<le> packed_room vq
    then \<exists>vq'. virtqueue_add_buf_packed vq sg outs ins x 0 0 = Some (VQ_ADD_BUFFER_SUCCESS, vq') \<and> packed_inv vq' \<and>
      (\<forall>j < length sg. vring_descs vq' ! fst (advance N p j) =
         \<lparr>pd_addr = sg_addr (sg ! j), pd_len = sg_length (sg ! j), pd_id = ucast (free_head vq),
          pd_flags = packed_flags (snd (advance N p j)) (length sg) outs j\<rparr>) \<and>
      (\<forall>i < N. (\<forall>j < length sg. i \<noteq> fst (advance N p j)) \<longrightarrow> vring_descs vq' ! i = vring_descs vq ! i) \<and>
      ds_data (desc_state vq' ! unat (free_head vq)) = Some x \<and>
      (unat (next_avail_idx vq'), avail_used_flags vq' = 0x80) = advance N p (length sg)
    else virtqueue_add_buf_packed vq sg outs ins x 0 0 = Some (- ENOSPC, vq)"
proof (cases "length sg \<le> packed_room vq")
  case True
  obtain fl cs where i: "packed_ids vq fl cs" "packed_ring vq" using assms(1) unfolding packed_inv_def by blast
  note d = packed_idsD [OF i(1)]
  have room: "length sg \<le> unat (num_free vq)" using True by (simp add: packed_room_def)
  obtain vq' where v: "virtqueue_add_buf_packed vq sg outs ins x 0 0 = Some (VQ_ADD_BUFFER_SUCCESS, vq')"
    "packed_added vq (hd fl) sg outs x (take (length sg) fl) vq'"
    using packed_add_eq [OF i assms(2,3) room] by blast
  have inv: "packed_inv vq'" using packed_add_ok [OF assms True, of x] v(1) by auto
  have fl: "fl \<noteq> []" using room assms(2) d(7) by auto
  have h: "hd fl = unat (free_head vq)" by (rule links_hd [OF d(6) fl])
  have w: "word_of_nat (hd fl) = (ucast (free_head vq) :: u16)" unfolding h by simp
  have "unat (free_head vq) < length (desc_state vq)" using d(3,4) by simp
  then have "ds_data (desc_state vq' ! unat (free_head vq)) = Some x" using v(2) h by (simp add: packed_added_def)
  then show ?thesis
    using v(1) inv True v(2) [unfolded packed_added_def w packed_entry_def] unfolding Let_def if_P [OF True]
    by (intro exI [of _ vq'] conjI) blast+
next
  case False
  then show ?thesis using packed_add_full [OF assms(1,3)] by simp
qed

theorem packed_add_correct_witness:
  "\<exists>vq'. virtqueue_add_buf_packed packed4 [\<lparr>sg_addr = 4096, sg_length = 8\<rparr>] 0 1 (7 :: nat) 0 0 = Some (0, vq') \<and> packed_inv vq'"
  using packed_add_correct [OF packed4_ok(1), of "[\<lparr>sg_addr = 4096, sg_length = 8\<rparr>]" 0 1 "7 :: nat"]
    packed4_ok(4) [where 'o = nat]
  by (auto simp: Let_def)

text \<open>
  C32: the packed ring hands buffers back in the order in which the device used them, whatever the
  order in which they were added.  From a queue with nothing left to collect, two buffers in
  flight that the device uses one after the other come back in that order with the lengths the
  device reported, and afterwards the queue holds exactly the other buffers.
\<close>

theorem packed_used_order:
  assumes "packed_inv vq" "packed_pending vq = []" "h < unat (vring_num vq)" "k < unat (vring_num vq)" "h \<noteq> k"
    "ds_data (desc_state vq ! h) = Some x" "ds_data (desc_state vq ! k) = Some y"
  shows "\<exists>vq1 vq2. virtqueue_get_buf_packed (packed_complete (packed_complete vq h len) k len') = Some (Some (x, len), vq1) \<and>
    virtqueue_get_buf_packed vq1 = Some (Some (y, len'), vq2) \<and> packed_inv vq2 \<and> packed_pending vq2 = [] \<and>
    packed_inflight vq = packed_inflight vq2 + {#x, y#} \<and> packed_room vq < packed_room vq2"
proof -
  let ?a = "packed_complete vq h len" let ?b = "packed_complete ?a k len'"
  have w: "used_walk (unat (vring_num vq)) (used_pos vq) vq = []" using assms(2) by (simp add: packed_pending_def)
  note a = packed_complete_ok [OF assms(1,3,6), of len]
  have a': "packed_inv ?a" "packed_pending ?a = [(x, len)]" "packed_inflight ?a = packed_inflight vq" "packed_room ?a = packed_room vq"
    using a w assms(2) by simp_all
  have st: "desc_state ?a = desc_state vq" "vring_num ?a = vring_num vq" by (simp_all add: packed_complete_def Let_def)
  have "map fst (used_walk (unat (vring_num ?a)) (used_pos ?a) ?a) = [h]"
  proof -
    obtain fl cs us where i: "packed_ids ?a fl cs" "packed_ring ?a" "packed_used ?a us" using a'(1) unfolding packed_inv_def by blast
    note u = packed_usedD [OF i]
    obtain h' where us: "us = [(h', len)]" using a'(2) unfolding packed_pending_eq [OF i] by (cases us) auto
    have "used_at ?a (used_pos ?a) \<and> unat (pd_id (vring_descs ?a ! fst (used_pos ?a))) = h'"
      using i(3) us by (simp add: packed_used_def)
    moreover have "used_pos ?a = used_pos vq" by (simp add: packed_complete_def Let_def used_pos_def)
    moreover have "fst (used_pos vq) < length (vring_descs vq)" "unat (vring_num vq) \<le> 0x8000"
      using assms(1) unfolding packed_inv_def packed_ring_def packed_ids_def by auto
    ultimately have "h' = h"
      using w assms(3) packed_ringD(2) [OF i(2)] st(2)
      by (simp add: packed_complete_def Let_def run_len_def unat_of_nat)
    then show ?thesis unfolding u(5) us by simp
  qed
  then have b: "packed_inv ?b" "packed_pending ?b = [(x, len), (y, len')]" "packed_inflight ?b = packed_inflight vq"
    "packed_room ?b = packed_room vq"
    using packed_complete_ok [OF a'(1), of k y len'] assms(4,5,7) a' st by auto
  obtain vq1 where g1: "virtqueue_get_buf_packed ?b = Some (Some (x, len), vq1)" "packed_inv vq1" "packed_pending vq1 = [(y, len')]"
    "packed_inflight ?b = add_mset x (packed_inflight vq1)" "packed_room ?b < packed_room vq1"
    using packed_get_pending [OF b(1,2)] by blast
  obtain vq2 where g2: "virtqueue_get_buf_packed vq1 = Some (Some (y, len'), vq2)" "packed_inv vq2" "packed_pending vq2 = []"
    "packed_inflight vq1 = add_mset y (packed_inflight vq2)" "packed_room vq1 < packed_room vq2"
    using packed_get_pending [OF g1(2,3)] by blast
  show ?thesis using g1 g2 b(3,4) by (intro exI [of _ vq1] exI [of _ vq2]) simp
qed

theorem packed_used_order_witness:
  "\<exists>vq vq1 vq2. virtqueue_get_buf_packed (packed_complete (packed_complete (vq :: nat virtqueue_packed) 1 16) 0 8) = Some (Some (9, 16), vq1) \<and>
     virtqueue_get_buf_packed vq1 = Some (Some (7, 8), vq2)"
proof -
  let ?sg = "[\<lparr>sg_addr = 4096, sg_length = 8\<rparr>]"
  have l: "?sg \<noteq> []" "0 + 1 = length ?sg" by simp_all
  have r: "length ?sg \<le> unat (num_free (packed4 :: nat virtqueue_packed))" using packed4_ok(4) [where 'o = nat] by (simp add: packed_room_def)
  obtain a where a: "virtqueue_add_buf_packed packed4 ?sg 0 1 (7 :: nat) 0 0 = Some (0, a)"
    "packed_added packed4 0 ?sg 0 7 [0] a"
    using packed_add_eq [OF packed4_ok(5) _ l r, of 7] packed4_ok(1) unfolding packed_inv_def by auto
  obtain a' where a': "virtqueue_add_buf_packed packed4 ?sg 0 1 (7 :: nat) 0 0 = Some (0, a')" "packed_inv a'"
    "packed_pending a' = []" "packed_room a' = 3"
    using packed_add_ok [OF packed4_ok(1) l, of "7 :: nat"] packed4_ok(3,4) [where 'o = nat] by auto
  have ia: "packed_inv a" "packed_pending a = []" "packed_room a = 3" using a(1) a' by simp_all
  have ids: "packed_ids a [1, 2, 3] [[0]]"
    using packed_add_ids(1) [OF packed4_ok(5) _ l(1) r, of 0 7 a] a(2) by simp
  have ra: "length ?sg \<le> unat (num_free a)" using ia(3) by (simp add: packed_room_def)
  obtain b where b: "virtqueue_add_buf_packed a ?sg 0 1 (9 :: nat) 0 0 = Some (0, b)" "packed_added a 1 ?sg 0 9 [1] b"
    using packed_add_eq [OF ids _ l ra, of 9] ia(1) unfolding packed_inv_def by auto
  obtain b' where b': "virtqueue_add_buf_packed a ?sg 0 1 (9 :: nat) 0 0 = Some (0, b')" "packed_inv b'" "packed_pending b' = []"
    using packed_add_ok [OF ia(1) l, of "9 :: nat"] ia(2,3) by auto
  have ib: "packed_inv b" "packed_pending b = []" using b(1) b' by simp_all
  have N: "vring_num b = 4" using a(2) b(2) packed4_ok(6) by (simp add: packed_added_def)
  have len: "length (desc_state a) = 4" using packed_idsD(3) [OF ids] N b(2) by (simp add: packed_added_def)
  have "length (desc_state (packed4 :: nat virtqueue_packed)) = 4" using packed_idsD(3) [OF packed4_ok(5) [where 'o = nat]] packed4_ok(6) [where 'o = nat] by simp
  then have d: "ds_data (desc_state b ! 1) = Some 9" "ds_data (desc_state b ! 0) = Some 7"
    using a(2) b(2) len by (simp_all add: packed_added_def)
  show ?thesis using packed_used_order [OF ib _ _ _ d, of 16 8] N by auto
qed

lemma advance_step_back:
  "fst p < N \<Longrightarrow> 0 < n \<Longrightarrow> n < N \<Longrightarrow> snd (advance N p n) = (snd p = (fst p < fst (advance N p n)))"
  by (auto simp: advance_def)

text \<open>
  C33: \<open>avail_wrap_counter\<close>, which \<open>virtqueue_kick_prepare_packed\<close> compares with the device's event
  position, follows the wrap counter that goes into the descriptors unless a buffer takes every
  descriptor of the ring: then the flags change laps and the counter does not, because the
  position comes round to where it was.
\<close>

theorem packed_wrap_counter:
  assumes "packed_inv vq" "sg \<noteq> []" "outs + ins = length sg"
    "virtqueue_add_buf_packed vq sg outs ins x 0 0 = Some (VQ_ADD_BUFFER_SUCCESS, vq')"
    "avail_wrap_counter vq \<longleftrightarrow> avail_used_flags vq = 0x80"
  shows "(avail_wrap_counter vq' \<longleftrightarrow> avail_used_flags vq' = 0x80) \<longleftrightarrow> length sg < unat (vring_num vq)"
proof -
  obtain fl cs where i: "packed_ids vq fl cs" "packed_ring vq" using assms(1) unfolding packed_inv_def by blast
  note d = packed_idsD [OF i(1)] and r = packed_ringD [OF i(2)]
  have room: "length sg \<le> packed_room vq" using packed_add_full [OF assms(1,3), of x] assms(4) by force
  then have n: "length sg \<le> unat (num_free vq)" by (simp add: packed_room_def)
  obtain v where v: "virtqueue_add_buf_packed vq sg outs ins x 0 0 = Some (VQ_ADD_BUFFER_SUCCESS, v)"
    "packed_added vq (hd fl) sg outs x (take (length sg) fl) v"
    using packed_add_eq [OF i assms(2,3) n] by blast
  then have a: "packed_added vq (hd fl) sg outs x (take (length sg) fl) vq'" using assms(4) by simp
  let ?N = "unat (vring_num vq)" and ?p = "(unat (next_avail_idx vq), avail_used_flags vq = 0x80)"
  have p: "fst ?p < ?N" using advance_less [OF r(2) r(6)] unfolding r(4) [symmetric] .
  have q: "(unat (next_avail_idx vq'), avail_used_flags vq' = 0x80) = advance ?N ?p (length sg)"
    and w: "avail_wrap_counter vq' = (if next_avail_idx vq' < next_avail_idx vq then \<not> avail_wrap_counter vq else avail_wrap_counter vq)"
    using a by (simp_all add: packed_added_def)
  have lt: "next_avail_idx vq' < next_avail_idx vq \<longleftrightarrow> fst (advance ?N ?p (length sg)) < unat (next_avail_idx vq)"
    unfolding q [symmetric] by (simp add: word_less_nat_alt)
  have f: "(avail_used_flags vq' = 0x80) = snd (advance ?N ?p (length sg))" unfolding q [symmetric] by simp
  have nN: "length sg \<le> ?N" "0 < length sg" using n d(7,13) assms(2) by simp_all
  show ?thesis
    unfolding w lt f assms(5) using p nN by (auto simp: advance_def split: if_splits)
qed

theorem packed_wrap_counter_witness:
  "\<exists>vq'. virtqueue_add_buf_packed packed4 (replicate 4 \<lparr>sg_addr = 4096, sg_length = 8\<rparr>) 4 0 (7 :: nat) 0 0 = Some (0, vq') \<and>
     avail_wrap_counter vq' \<noteq> (avail_used_flags vq' = 0x80)"
proof -
  let ?sg = "replicate 4 \<lparr>sg_addr = 4096, sg_length = 8\<rparr>"
  have l: "?sg \<noteq> []" "4 + 0 = length ?sg" by simp_all
  obtain vq' where v: "virtqueue_add_buf_packed packed4 ?sg 4 0 (7 :: nat) 0 0 = Some (0, vq')"
    using packed_add_ok [OF packed4_ok(1) l, of "7 :: nat"] packed4_ok(4) [where 'o = nat] by auto
  show ?thesis
    using packed_wrap_counter [OF packed4_ok(1) l v packed4_ok(7)] packed4_ok(6) [where 'o = nat] v by auto
qed

lemma detach_scan_packed:
  assumes "packed_ids vq fl cs" "k = unat (vring_num vq) - i" "i \<le> unat (vring_num vq)"
    "\<And>j. j < i \<Longrightarrow> ds_data (desc_state vq ! j) = None"
  shows "if cs = [] then detach_packed_scan i k vq = Some (None, vq)
    else \<exists>c \<in> set cs. detach_packed_scan i k vq = do { v \<leftarrow> detach_buf_packed vq (hd c); Some (ds_data (desc_state vq ! hd c), v) }"
  using assms(2-4)
proof (induction k arbitrary: i)
  case 0
  note d = packed_idsD [OF assms(1)]
  have "cs = []"
  proof (rule ccontr)
    assume "cs \<noteq> []"
    then obtain c where c: "c \<in> set cs" by (cases cs) auto
    have "hd c \<in> set (concat cs)" using in_chain [OF c] d(8) [OF c] by blast
    then have "hd c < unat (vring_num vq)" using d(12) by blast
    then show False using d(10) [of "hd c"] c 0 by auto
  qed
  then have "unat (num_free vq) = unat (vring_num vq)" using d(7,13) by simp
  then have "num_free vq = vring_num vq" by (simp add: word_unat_eq_iff)
  then show ?case using \<open>cs = []\<close> by simp
next
  case (Suc k)
  note d = packed_idsD [OF assms(1)]
  have i: "i < unat (vring_num vq)" using Suc.prems by simp
  show ?case
  proof (cases "ds_data (desc_state vq ! i)")
    case None
    have "if cs = [] then detach_packed_scan (i + 1) k vq = Some (None, vq)
      else \<exists>c \<in> set cs. detach_packed_scan (i + 1) k vq = do { v \<leftarrow> detach_buf_packed vq (hd c); Some (ds_data (desc_state vq ! hd c), v) }"
      by (rule Suc.IH) (use Suc.prems None in \<open>auto simp: less_Suc_eq\<close>)
    moreover have "detach_packed_scan i (Suc k) vq = detach_packed_scan (i + 1) k vq"
      using i d(3) None by (simp add: read_at_def)
    ultimately show ?thesis by (simp only:)
  next
    case (Some x)
    then obtain c where "c \<in> set cs" "hd c = i" using d(10) [OF i] by auto
    then show ?thesis using i d(3) Some by (auto simp: read_at_def intro!: bexI [of _ c])
  qed
qed

text \<open>
  \<open>detach_unused_buf\<close> of the packed ring hands out the buffers in flight one at a time, each
  once, and gives their identifiers back; with none left it returns NULL.  But it leaves the
  positions of the ring where they were: after detaching a buffer the free descriptors no longer
  match the slots between the two positions, so the queue cannot be used again before it is
  shut down.
\<close>

theorem packed_detach:
  assumes "packed_inv vq"
  shows "if packed_inflight vq = {#} then virtqueue_detach_unused_buf_packed vq = Some (None, vq)
    else \<exists>x vq'. virtqueue_detach_unused_buf_packed vq = Some (Some x, vq') \<and> (\<exists>fl cs. packed_ids vq' fl cs) \<and>
      packed_inflight vq = add_mset x (packed_inflight vq') \<and> packed_room vq < packed_room vq' \<and> \<not> packed_ring vq'"
proof -
  obtain fl cs where i: "packed_ids vq fl cs" "packed_ring vq" using assms unfolding packed_inv_def by blast
  note d = packed_idsD [OF i(1)] and r = packed_ringD [OF i(2)]
  have empty: "packed_inflight vq = {#} \<longleftrightarrow> cs = []"
  proof (cases cs)
    case Nil
    then show ?thesis using d(3,10) by (auto simp: packed_inflight_def tokens_empty_iff in_set_conv_nth)
  next
    case (Cons c cs')
    obtain v x where "packed_inflight vq = add_mset x (packed_inflight v)"
      using detach_packed_ok [OF i(1), of c] Cons by auto
    then show ?thesis using Cons by simp
  qed
  have scan: "if cs = [] then virtqueue_detach_unused_buf_packed vq = Some (None, vq)
    else \<exists>c \<in> set cs. virtqueue_detach_unused_buf_packed vq = do { v \<leftarrow> detach_buf_packed vq (hd c); Some (ds_data (desc_state vq ! hd c), v) }"
    unfolding virtqueue_detach_unused_buf_packed_def by (rule detach_scan_packed [OF i(1)]) simp_all
  show ?thesis
  proof (cases "cs = []")
    case True
    then show ?thesis using scan empty by simp
  next
    case False
    then obtain c where c: "c \<in> set cs"
      "virtqueue_detach_unused_buf_packed vq = do { v \<leftarrow> detach_buf_packed vq (hd c); Some (ds_data (desc_state vq ! hd c), v) }"
      using scan by auto
    obtain v x where v: "detach_buf_packed vq (hd c) = Some v" "packed_ids v (c @ fl) (remove1 c cs)"
      "v = vq\<lparr>desc_state := desc_state v, free_head := free_head v, num_free := num_free v\<rparr>"
      "busy vq = busy v + length c" "0 < length c" "ds_data (desc_state vq ! hd c) = Some x"
      "packed_inflight vq = add_mset x (packed_inflight v)"
      using detach_packed_ok [OF i(1) c(1)] by blast
    have same: "vring_num v = vring_num vq" "used_pos v = used_pos vq" "next_avail_idx v = next_avail_idx vq"
      "avail_used_flags v = avail_used_flags vq" unfolding used_pos_def by (subst v(3), simp)+
    have "advance (unat (vring_num vq)) (used_pos vq) (busy v) \<noteq> advance (unat (vring_num vq)) (used_pos vq) (busy vq)"
    proof -
      have "fst (used_pos vq) + busy v < fst (used_pos vq) + busy vq" using v(4,5) by linarith
      then show ?thesis by (auto simp: advance_def)
    qed
    then have nr: "\<not> packed_ring v" using r(4) packed_ringD(4) [of v] unfolding same by metis
    have room: "packed_room vq < packed_room v"
      using d(7) packed_idsD(7) [OF v(2)] v(5) unfolding packed_room_def length_append by linarith
    show ?thesis using c(2) v nr room False empty by auto
  qed
qed

theorem packed_detach_witness:
  "\<exists>vq vq'. virtqueue_detach_unused_buf_packed vq = Some (Some (7 :: nat), vq') \<and> \<not> packed_ring vq'"
proof -
  let ?sg = "[\<lparr>sg_addr = 4096, sg_length = 8\<rparr>]"
  obtain vq where v: "packed_inv vq" "packed_inflight vq = {#7 :: nat#}"
    using packed_add_ok [OF packed4_ok(1), of ?sg 0 1 "7 :: nat"] packed4_ok(2,4) [where 'o = nat] by auto
  show ?thesis using packed_detach [OF v(1)] v(2) by auto
qed

text \<open>
  \<open>virtqueue_is_interrupt_enabled\<close> answers the opposite of what it is asked on a packed ring:
  true after \<open>virtqueue_disable_cb\<close> and false after \<open>virtqueue_enable_cb\<close>.  On the split ring it is
  false after the former and true after the latter.
\<close>

theorem interrupt_query_inverted:
  "virtqueue_disable_cb_packed vq = Some p1 \<Longrightarrow> virtqueue_enable_cb_packed p1 = Some (b, p2) \<Longrightarrow>
   virtqueue_disable_cb_split sq = Some s1 \<Longrightarrow> virtqueue_enable_cb_split s1 = Some (b', s2) \<Longrightarrow>
   virtqueue_is_interrupt_enabled_packed p1 \<and> \<not> virtqueue_is_interrupt_enabled_packed p2 \<and>
   \<not> virtqueue_is_interrupt_enabled_split s1 \<and> virtqueue_is_interrupt_enabled_split s2"
proof (intro conjI, goal_cases)
  case 1
  then show ?case by (auto simp: virtqueue_disable_cb_packed_def virtqueue_is_interrupt_enabled_packed_def split: if_splits)
next
  case 2
  have "event_flags_shadow p1 = 1" using 2(1) by (auto simp: virtqueue_disable_cb_packed_def split: if_splits)
  then show ?case
    using 2(2) by (auto simp: virtqueue_enable_cb_packed_def virtqueue_enable_cb_prepare_packed_def enable_events_def
        virtqueue_is_interrupt_enabled_packed_def Let_def split: if_splits bind_splits)
next
  case 3
  have "(f OR 1) AND (1 :: u16) \<noteq> 0" for f :: u16 using next_flag_set [of f] by (simp add: or.commute)
  then show ?case using 3(3)
    by (auto simp: virtqueue_disable_cb_split_def virtqueue_is_interrupt_enabled_split_def Let_def split: if_splits)
next
  case 4
  have "(f AND NOT 1) AND (1 :: u16) = 0" for f by (rule next_flag_clear)
  then have "(f AND - 2) AND (1 :: u16) = 0" for f by simp
  then show ?case using 4(4)
    by (auto simp: virtqueue_enable_cb_split_def unmask_interrupt_def virtqueue_is_interrupt_enabled_split_def Let_def split: if_splits)
qed

theorem interrupt_query_inverted_witness:
  "\<exists>p1. virtqueue_disable_cb_packed (packed4 :: nat virtqueue_packed) = Some p1 \<and> virtqueue_is_interrupt_enabled_packed p1"
proof -
  obtain p1 where p: "virtqueue_disable_cb_packed (packed4 :: nat virtqueue_packed) = Some p1"
    by (simp add: virtqueue_disable_cb_packed_def)
  obtain b p2 where e: "virtqueue_enable_cb_packed p1 = Some (b, p2)"
    using p by (auto simp: virtqueue_disable_cb_packed_def packed4_def vring_new_virtqueue_packed_def virtqueue_enable_cb_packed_def
        virtqueue_enable_cb_prepare_packed_def enable_events_def virtqueue_poll_packed_def is_used_desc_packed_def
        off_wrap_def read_at_def Let_def)
  obtain s1 where s: "virtqueue_disable_cb_split (ring2 :: nat virtqueue_split) = Some s1"
    by (simp add: virtqueue_disable_cb_split_def)
  obtain b' s2 where s': "virtqueue_enable_cb_split s1 = Some (b', s2)" by (simp add: virtqueue_enable_cb_split_def Let_def)
  show ?thesis using interrupt_query_inverted [OF p(1) e s s'] p(1) by blast
qed

end
