(* ===== verification/Virtio_Device.thy ===== *)
theory Virtio_Device
  imports Packed_Ring
begin

text \<open>
  The device object of the virtio library (\<open>VirtIO/virtio_pci.h\<close>), its access to the system and
  what both transports share: register access, sizes of the rings, the transport features
  (\<open>VirtIO/VirtIORing.c\<close>) and the creation and shutdown of queue objects.

  The record \<open>virtio_system_ops\<close> is the table of callbacks that the driver supplies; they act on a
  state \<open>'s\<close>, which stands for the hardware and the driver's memory.  Its last members are not
  callbacks: what a new ring of some length and alignment, or a table, finds in memory, and the
  compiler's sizes.
\<close>

section \<open>The system\<close>

record virtio_queue_info =
  qi_vq :: ptr
  qi_num :: u16
  qi_queue :: ptr

record ('o, 's) virtio_system_ops =
  vdev_read_byte :: "u64 \<Rightarrow> 's \<Rightarrow> u8 \<times> 's"
  vdev_read_word :: "u64 \<Rightarrow> 's \<Rightarrow> u16 \<times> 's"
  vdev_read_dword :: "u64 \<Rightarrow> 's \<Rightarrow> u32 \<times> 's"
  vdev_write_byte :: "u64 \<Rightarrow> u8 \<Rightarrow> 's \<Rightarrow> 's"
  vdev_write_word :: "u64 \<Rightarrow> u16 \<Rightarrow> 's \<Rightarrow> 's"
  vdev_write_dword :: "u64 \<Rightarrow> u32 \<Rightarrow> 's \<Rightarrow> 's"
  mem_alloc_contiguous_pages :: "u64 \<Rightarrow> 's \<Rightarrow> (ptr \<times> 's) option"
  mem_free_contiguous_pages :: "ptr \<Rightarrow> 's \<Rightarrow> 's option"
  mem_get_physical_address :: "ptr \<Rightarrow> 's \<Rightarrow> u64"
  mem_alloc_nonpaged_block :: "u64 \<Rightarrow> 's \<Rightarrow> ptr \<times> 's"
  mem_free_nonpaged_block :: "ptr \<Rightarrow> 's \<Rightarrow> 's option"
  pci_read_config_byte :: "int \<Rightarrow> 's \<Rightarrow> int \<times> u8"
  pci_read_config_word :: "int \<Rightarrow> 's \<Rightarrow> int \<times> u16"
  pci_read_config_dword :: "int \<Rightarrow> 's \<Rightarrow> int \<times> u32"
  pci_get_resource_len :: "int \<Rightarrow> 's \<Rightarrow> u64 option"
  pci_map_address_range :: "int \<Rightarrow> u64 \<Rightarrow> u64 \<Rightarrow> 's \<Rightarrow> (ptr \<times> 's) option"
  vdev_get_msix_vector :: "int \<Rightarrow> 's \<Rightarrow> u16"
  vdev_sleep :: "u32 \<Rightarrow> 's \<Rightarrow> 's"
  split_memory :: "u32 \<Rightarrow> u64 \<Rightarrow> ptr \<Rightarrow> 's \<Rightarrow> 'o virtqueue_split"
  packed_memory :: "u32 \<Rightarrow> ptr \<Rightarrow> 's \<Rightarrow> 'o virtqueue_packed"
  info_memory :: "ptr \<Rightarrow> nat \<Rightarrow> 's \<Rightarrow> virtio_queue_info list"
  sizeof_virtqueue_split :: u32
  sizeof_virtqueue_packed :: u32
  sizeof_desc_state :: u32
  sizeof_queue_info :: u32

section \<open>The device object\<close>

text \<open>
  \<open>struct virtqueue\<close> with its implementation behind it.  Queue objects live at the addresses of
  their control blocks, in \<open>vdev_vqs\<close>; \<open>vdev_device\<close> names the operation table of the transport,
  \<open>vdev_info\<close> is the array \<open>info\<close> (\<open>None\<close>: NULL) and \<open>vdev_info_block\<close> its block, 0 for
  \<open>inline_info\<close>.
\<close>

datatype 'o vring = Split_queue "'o virtqueue_split" | Packed_queue "'o virtqueue_packed"

record 'o virtqueue_object =
  vqo_index :: u32
  vqo_notification_addr :: ptr
  vqo_avail_va :: ptr
  vqo_used_va :: ptr
  vqo_ring :: "'o vring"

datatype transport = Modern | Legacy

record ('o, 's) virtio_device =
  vdev_addr :: u64
  vdev_msix_used :: bool
  vdev_event_suppression_enabled :: bool
  vdev_packed_ring :: bool
  vdev_device :: "transport option"
  vdev_isr :: ptr
  vdev_common :: ptr
  vdev_config :: ptr
  vdev_notify_base :: ptr
  vdev_notify_map_cap :: int
  vdev_notify_offset_multiplier :: u32
  vdev_config_len :: u64
  vdev_notify_len :: u64
  vdev_maxQueues :: u32
  vdev_info :: "virtio_queue_info list option"
  vdev_info_block :: ptr
  vdev_vqs :: "ptr \<Rightarrow> 'o virtqueue_object option"
  vdev_sys :: 's

abbreviation (input) VIRTIO_MSI_NO_VECTOR :: u16 where "VIRTIO_MSI_NO_VECTOR \<equiv> 0xFFFF"
abbreviation (input) MAX_QUEUES_PER_DEVICE_DEFAULT :: nat where "MAX_QUEUES_PER_DEVICE_DEFAULT \<equiv> 8"

definition get_info :: "('o, 's) virtio_device \<Rightarrow> u32 \<Rightarrow> virtio_queue_info option" where
  "get_info vd i = do { infos \<leftarrow> vdev_info vd; read_at infos (unat i) }"

definition set_info ::
  "u32 \<Rightarrow> (virtio_queue_info \<Rightarrow> virtio_queue_info) \<Rightarrow> ('o, 's) virtio_device \<Rightarrow> ('o, 's) virtio_device option" where
  "set_info i f vd = do {
     infos \<leftarrow> vdev_info vd;
     x \<leftarrow> read_at infos (unat i);
     Some (vd\<lparr>vdev_info := Some (infos[unat i := f x])\<rparr>)
   }"

section \<open>Register access\<close>

definition ioread8 :: "('o, 's) virtio_system_ops \<Rightarrow> u64 \<Rightarrow> ('o, 's) virtio_device \<Rightarrow> u8 \<times> ('o, 's) virtio_device" where
  "ioread8 S a vd = (case vdev_read_byte S a (vdev_sys vd) of (v, s) \<Rightarrow> (v, vd\<lparr>vdev_sys := s\<rparr>))"

definition ioread16 :: "('o, 's) virtio_system_ops \<Rightarrow> u64 \<Rightarrow> ('o, 's) virtio_device \<Rightarrow> u16 \<times> ('o, 's) virtio_device" where
  "ioread16 S a vd = (case vdev_read_word S a (vdev_sys vd) of (v, s) \<Rightarrow> (v, vd\<lparr>vdev_sys := s\<rparr>))"

definition ioread32 :: "('o, 's) virtio_system_ops \<Rightarrow> u64 \<Rightarrow> ('o, 's) virtio_device \<Rightarrow> u32 \<times> ('o, 's) virtio_device" where
  "ioread32 S a vd = (case vdev_read_dword S a (vdev_sys vd) of (v, s) \<Rightarrow> (v, vd\<lparr>vdev_sys := s\<rparr>))"

definition iowrite8 :: "('o, 's) virtio_system_ops \<Rightarrow> u8 \<Rightarrow> u64 \<Rightarrow> ('o, 's) virtio_device \<Rightarrow> ('o, 's) virtio_device" where
  "iowrite8 S v a vd = vd\<lparr>vdev_sys := vdev_write_byte S a v (vdev_sys vd)\<rparr>"

definition iowrite16 :: "('o, 's) virtio_system_ops \<Rightarrow> u16 \<Rightarrow> u64 \<Rightarrow> ('o, 's) virtio_device \<Rightarrow> ('o, 's) virtio_device" where
  "iowrite16 S v a vd = vd\<lparr>vdev_sys := vdev_write_word S a v (vdev_sys vd)\<rparr>"

definition iowrite32 :: "('o, 's) virtio_system_ops \<Rightarrow> u32 \<Rightarrow> u64 \<Rightarrow> ('o, 's) virtio_device \<Rightarrow> ('o, 's) virtio_device" where
  "iowrite32 S v a vd = vd\<lparr>vdev_sys := vdev_write_dword S a v (vdev_sys vd)\<rparr>"

definition iowrite64_twopart ::
  "('o, 's) virtio_system_ops \<Rightarrow> u64 \<Rightarrow> u64 \<Rightarrow> u64 \<Rightarrow> ('o, 's) virtio_device \<Rightarrow> ('o, 's) virtio_device" where
  "iowrite64_twopart S v lo hi vd = iowrite32 S (ucast (drop_bit 32 v)) hi (iowrite32 S (ucast v) lo vd)"

text \<open>The notification a queue is created with.\<close>

definition vp_notify ::
  "('o, 's) virtio_system_ops \<Rightarrow> 'o virtqueue_object \<Rightarrow> ('o, 's) virtio_device \<Rightarrow> bool \<times> ('o, 's) virtio_device" where
  "vp_notify S vq vd = (True, iowrite16 S (ucast (vqo_index vq)) (vqo_notification_addr vq) vd)"

section \<open>Sizes and features\<close>

definition vring_size :: "u32 \<Rightarrow> u32 \<Rightarrow> bool \<Rightarrow> u32" where
  "vring_size n align packed = (if packed then vring_size_packed n align else vring_size_split n align)"

definition vring_control_block_size :: "('o, 's) virtio_system_ops \<Rightarrow> u16 \<Rightarrow> bool \<Rightarrow> u32" where
  "vring_control_block_size S qsize packed =
     (if packed then vring_control_block_size_packed (sizeof_virtqueue_packed S) (sizeof_desc_state S) qsize
      else sizeof_virtqueue_split S + 8 * ucast qsize)"

definition virtio_get_indirect_page_capacity :: u32 where
  "virtio_get_indirect_page_capacity = PAGE_SIZE div 16"

definition virtio_is_feature_enabled :: "u64 \<Rightarrow> nat \<Rightarrow> bool" where
  "virtio_is_feature_enabled features feature \<longleftrightarrow> features AND push_bit feature 1 \<noteq> 0"

definition virtio_feature_disable :: "u64 \<Rightarrow> nat \<Rightarrow> u64" where
  "virtio_feature_disable features feature = features AND NOT (push_bit feature 1)"

abbreviation (input) VIRTIO_RING_F_INDIRECT_DESC :: nat where "VIRTIO_RING_F_INDIRECT_DESC \<equiv> 28"
abbreviation (input) VIRTIO_RING_F_EVENT_IDX :: nat where "VIRTIO_RING_F_EVENT_IDX \<equiv> 29"
abbreviation (input) VIRTIO_TRANSPORT_F_START :: nat where "VIRTIO_TRANSPORT_F_START \<equiv> 28"
abbreviation (input) VIRTIO_TRANSPORT_F_END :: nat where "VIRTIO_TRANSPORT_F_END \<equiv> 32"
abbreviation (input) VIRTIO_F_VERSION_1 :: nat where "VIRTIO_F_VERSION_1 \<equiv> 32"
abbreviation (input) VIRTIO_F_RING_PACKED :: nat where "VIRTIO_F_RING_PACKED \<equiv> 34"

definition vring_transport_features :: "u64 \<Rightarrow> u64" where
  "vring_transport_features features =
     fold (\<lambda>i f. if i \<noteq> VIRTIO_RING_F_INDIRECT_DESC \<and> i \<noteq> VIRTIO_RING_F_EVENT_IDX \<and> i \<noteq> VIRTIO_F_VERSION_1
                 then virtio_feature_disable f i else f)
       [VIRTIO_TRANSPORT_F_START..<VIRTIO_TRANSPORT_F_END] features"

section \<open>Queue objects\<close>

text \<open>
  \<open>vring_new_virtqueue_packed\<close> or \<open>vring_new_virtqueue_split\<close> over the pages at \<open>queue\<close>; the inner
  \<open>None\<close> is NULL.  \<open>avail_va\<close> and \<open>used_va\<close> are those of \<open>vring_init\<close>.
\<close>

definition new_virtqueue_split ::
  "('o, 's) virtio_system_ops \<Rightarrow> u32 \<Rightarrow> u16 \<Rightarrow> u64 \<Rightarrow> ptr \<Rightarrow> ('o, 's) virtio_device \<Rightarrow>
   'o virtqueue_object option option" where
  "new_virtqueue_split S index n align queue vd = do {
     r \<leftarrow> vring_new_virtqueue_split (ucast n)
            ((split_memory S (ucast n) align queue (vdev_sys vd))\<lparr>event_suppression := vdev_event_suppression_enabled vd\<rparr>);
     Some (map_option (\<lambda>q.
       let avail = queue + ucast n * 16
       in \<lparr>vqo_index = index, vqo_notification_addr = 0, vqo_avail_va = avail,
           vqo_used_va = (avail + 4 + ucast n * 2 + 2 + align - 1) AND NOT (align - 1),
           vqo_ring = Split_queue q\<rparr>) r)
   }"

definition new_virtqueue_packed ::
  "('o, 's) virtio_system_ops \<Rightarrow> u32 \<Rightarrow> u16 \<Rightarrow> ptr \<Rightarrow> ('o, 's) virtio_device \<Rightarrow> 'o virtqueue_object option option" where
  "new_virtqueue_packed S index n queue vd = do {
     q \<leftarrow> vring_new_virtqueue_packed (ucast n)
            ((packed_memory S (ucast n) queue (vdev_sys vd))\<lparr>packed_event_suppression := vdev_event_suppression_enabled vd\<rparr>);
     Some (Some \<lparr>vqo_index = index, vqo_notification_addr = 0, vqo_avail_va = queue + ucast n * 16,
                 vqo_used_va = queue + ucast n * 16 + 4, vqo_ring = Packed_queue q\<rparr>)
   }"

definition virtqueue_shutdown :: "ptr \<Rightarrow> ('o, 's) virtio_device \<Rightarrow> ('o, 's) virtio_device option" where
  "virtqueue_shutdown vq vd = do {
     x \<leftarrow> vdev_vqs vd vq;
     r \<leftarrow> (case vqo_ring x of
            Split_queue q \<Rightarrow> map_option Split_queue (virtqueue_shutdown_split q)
          | Packed_queue q \<Rightarrow> map_option Packed_queue (virtqueue_shutdown_packed q));
     Some (vd\<lparr>vdev_vqs := (vdev_vqs vd)(vq \<mapsto> x\<lparr>vqo_ring := r\<rparr>)\<rparr>)
   }"

text \<open>Freeing the control block of a queue ends the life of the object in it.\<close>

definition free_block :: "('o, 's) virtio_system_ops \<Rightarrow> ptr \<Rightarrow> ('o, 's) virtio_device \<Rightarrow> ('o, 's) virtio_device option" where
  "free_block S p vd = do {
     s \<leftarrow> mem_free_nonpaged_block S p (vdev_sys vd);
     Some (vd\<lparr>vdev_sys := s, vdev_vqs := (vdev_vqs vd)(p := None)\<rparr>)
   }"

definition free_pages :: "('o, 's) virtio_system_ops \<Rightarrow> ptr \<Rightarrow> ('o, 's) virtio_device \<Rightarrow> ('o, 's) virtio_device option" where
  "free_pages S p vd = do {
     s \<leftarrow> mem_free_contiguous_pages S p (vdev_sys vd);
     Some (vd\<lparr>vdev_sys := s\<rparr>)
   }"

end
