(* ===== verification/Virtio_Modern.thy ===== *)
theory Virtio_Modern
  imports Virtio_Device
begin

text \<open>
  The modern transport (\<open>VirtIO/VirtIOPCIModern.c\<close>): the search for the vendor capabilities in the
  PCI configuration space, the mapping of the structures they describe, the operations on the
  common configuration structure, and setting up and deleting queues.  Structure members are
  named by their offsets.
\<close>

section \<open>Mapping capabilities\<close>

text \<open>The address and \<open>*len\<close>; the values read from the configuration space are used unchecked.\<close>

definition vio_modern_map_capability ::
  "('o, 's) virtio_system_ops \<Rightarrow> int \<Rightarrow> u64 \<Rightarrow> u32 \<Rightarrow> u32 \<Rightarrow> u32 \<Rightarrow> ('o, 's) virtio_device \<Rightarrow>
   ((ptr \<times> u64) \<times> ('o, 's) virtio_device) option" where
  "vio_modern_map_capability S cap_offset minlen alignment start len vd =
     (let bar = snd (pci_read_config_byte S (cap_offset + 4) (vdev_sys vd));
          bar_offset = snd (pci_read_config_dword S (cap_offset + 8) (vdev_sys vd));
          bar_length = snd (pci_read_config_dword S (cap_offset + 12) (vdev_sys vd))
      in if ucast bar_length < ucast start + minlen then Some ((0, 0), vd)
         else
           let bar_length = bar_length - start; bar_offset = bar_offset + start
           in if bar_offset AND (alignment - 1) \<noteq> 0 then Some ((0, 0), vd)
              else
                let bar_length = (if len < bar_length then len else bar_length)
                in do {
                  res \<leftarrow> pci_get_resource_len S (uint bar) (vdev_sys vd);
                  if res < ucast bar_offset + minlen then Some ((0, ucast bar_length), vd)
                  else do {
                    (a, s) \<leftarrow> pci_map_address_range S (uint bar) (ucast bar_offset) (ucast bar_length) (vdev_sys vd);
                    Some ((a, ucast bar_length), vd\<lparr>vdev_sys := s\<rparr>)
                  }
                })"

definition vio_modern_map_simple_capability ::
  "('o, 's) virtio_system_ops \<Rightarrow> int \<Rightarrow> u64 \<Rightarrow> u32 \<Rightarrow> ('o, 's) virtio_device \<Rightarrow>
   ((ptr \<times> u64) \<times> ('o, 's) virtio_device) option" where
  "vio_modern_map_simple_capability S cap_offset len alignment vd =
     vio_modern_map_capability S cap_offset len alignment 0 (ucast len) vd"

section \<open>Configuration, status and features\<close>

definition vio_modern_get_config ::
  "('o, 's) virtio_system_ops \<Rightarrow> u32 \<Rightarrow> u32 \<Rightarrow> ('o, 's) virtio_device \<Rightarrow> (u8 list \<times> ('o, 's) virtio_device) option" where
  "vio_modern_get_config S off len vd =
     (let a = vdev_config vd + ucast off
      in if vdev_config vd = 0 \<or> vdev_config_len vd < ucast (off + len) then None
         else if len = 1 then (case ioread8 S a vd of (v, vd) \<Rightarrow> Some ([v], vd))
         else if len = 2 then (case ioread16 S a vd of (v, vd) \<Rightarrow> Some (le_bytes16 v, vd))
         else if len = 4 then (case ioread32 S a vd of (v, vd) \<Rightarrow> Some (le_bytes32 v, vd))
         else None)"

definition vio_modern_set_config ::
  "('o, 's) virtio_system_ops \<Rightarrow> u32 \<Rightarrow> u8 list \<Rightarrow> ('o, 's) virtio_device \<Rightarrow> ('o, 's) virtio_device option" where
  "vio_modern_set_config S off buf vd =
     (let a = vdev_config vd + ucast off; len = word_of_nat (length buf) :: u32
      in if vdev_config vd = 0 \<or> vdev_config_len vd < ucast (off + len) then None
         else if len = 1 then Some (iowrite8 S (buf ! 0) a vd)
         else if len = 2 then Some (iowrite16 S (le_word16 buf) a vd)
         else if len = 4 then Some (iowrite32 S (le_word32 buf) a vd)
         else None)"

definition vio_modern_get_generation ::
  "('o, 's) virtio_system_ops \<Rightarrow> ('o, 's) virtio_device \<Rightarrow> u32 \<times> ('o, 's) virtio_device" where
  "vio_modern_get_generation S vd = (case ioread8 S (vdev_common vd + 21) vd of (v, vd) \<Rightarrow> (ucast v, vd))"

definition vio_modern_get_status ::
  "('o, 's) virtio_system_ops \<Rightarrow> ('o, 's) virtio_device \<Rightarrow> u8 \<times> ('o, 's) virtio_device" where
  "vio_modern_get_status S vd = ioread8 S (vdev_common vd + 20) vd"

definition vio_modern_set_status ::
  "('o, 's) virtio_system_ops \<Rightarrow> u8 \<Rightarrow> ('o, 's) virtio_device \<Rightarrow> ('o, 's) virtio_device option" where
  "vio_modern_set_status S status vd =
     (if status = 0 then None else Some (iowrite8 S status (vdev_common vd + 20) vd))"

text \<open>A device that never reports 0 while its configuration space stays readable is waited for without end.\<close>

partial_function (option) reset_wait ::
  "('o, 's) virtio_system_ops \<Rightarrow> ('o, 's) virtio_device \<Rightarrow> ('o, 's) virtio_device option" where
  "reset_wait S vd =
     (case ioread8 S (vdev_common vd + 20) vd of (status, vd) \<Rightarrow>
        if status = 0 then Some vd
        else case pci_read_config_word S 0 (vdev_sys vd) of (r, val) \<Rightarrow>
          if r \<noteq> 0 \<or> val = 0xFFFF then Some vd
          else reset_wait S (vd\<lparr>vdev_sys := vdev_sleep S 1 (vdev_sys vd)\<rparr>))"

definition vio_modern_reset ::
  "('o, 's) virtio_system_ops \<Rightarrow> ('o, 's) virtio_device \<Rightarrow> ('o, 's) virtio_device option" where
  "vio_modern_reset S vd = reset_wait S (iowrite8 S 0 (vdev_common vd + 20) vd)"

definition vio_modern_get_features ::
  "('o, 's) virtio_system_ops \<Rightarrow> ('o, 's) virtio_device \<Rightarrow> u64 \<times> ('o, 's) virtio_device" where
  "vio_modern_get_features S vd =
     (let vd = iowrite32 S 0 (vdev_common vd) vd;
          (lo, vd) = ioread32 S (vdev_common vd + 4) vd;
          vd = iowrite32 S 1 (vdev_common vd) vd;
          (hi, vd) = ioread32 S (vdev_common vd + 4) vd
      in (ucast lo OR push_bit 32 (ucast hi), vd))"

definition vio_modern_set_features ::
  "('o, 's) virtio_system_ops \<Rightarrow> u64 \<Rightarrow> ('o, 's) virtio_device \<Rightarrow> NTSTATUS \<times> ('o, 's) virtio_device" where
  "vio_modern_set_features S features vd =
     (let features = vring_transport_features features
      in if \<not> virtio_is_feature_enabled features VIRTIO_F_VERSION_1 then (STATUS_INVALID_PARAMETER, vd)
         else
           let vd = iowrite32 S 0 (vdev_common vd + 8) vd;
               vd = iowrite32 S (ucast features) (vdev_common vd + 12) vd;
               vd = iowrite32 S 1 (vdev_common vd + 8) vd;
               vd = iowrite32 S (ucast (drop_bit 32 features)) (vdev_common vd + 12) vd
           in (STATUS_SUCCESS, vd))"

definition vio_modern_set_config_vector ::
  "('o, 's) virtio_system_ops \<Rightarrow> u16 \<Rightarrow> ('o, 's) virtio_device \<Rightarrow> u16 \<times> ('o, 's) virtio_device" where
  "vio_modern_set_config_vector S vector vd =
     ioread16 S (vdev_common vd + 16) (iowrite16 S vector (vdev_common vd + 16) vd)"

definition vio_modern_set_queue_vector ::
  "('o, 's) virtio_system_ops \<Rightarrow> u32 \<Rightarrow> u16 \<Rightarrow> ('o, 's) virtio_device \<Rightarrow> u16 \<times> ('o, 's) virtio_device" where
  "vio_modern_set_queue_vector S index vector vd =
     (let vd = iowrite16 S (ucast index) (vdev_common vd + 22) vd;
          vd = iowrite16 S vector (vdev_common vd + 26) vd
      in ioread16 S (vdev_common vd + 26) vd)"

section \<open>Queues\<close>

definition vring_pci_size :: "u16 \<Rightarrow> bool \<Rightarrow> u64" where
  "vring_pci_size n packed = ROUND_TO_PAGES (ucast (vring_size (ucast n) SMP_CACHE_BYTES packed))"

text \<open>The number of entries, the ring size and the heap size.\<close>

definition vio_modern_query_vq_alloc ::
  "('o, 's) virtio_system_ops \<Rightarrow> u32 \<Rightarrow> ('o, 's) virtio_device \<Rightarrow>
   NTSTATUS \<times> (u16 \<times> u32 \<times> u32) \<times> ('o, 's) virtio_device" where
  "vio_modern_query_vq_alloc S index vd =
     (let (num_queues, vd) = ioread16 S (vdev_common vd + 18) vd
      in if ucast num_queues \<le> index then (STATUS_NOT_FOUND, (0, 0, 0), vd)
         else
           let vd = iowrite16 S (ucast index) (vdev_common vd + 22) vd;
               (n, vd) = ioread16 S (vdev_common vd + 24) vd
           in if n = 0 then (STATUS_NOT_FOUND, (0, 0, 0), vd)
              else if n AND (n - 1) \<noteq> 0 then (STATUS_INVALID_PARAMETER, (0, 0, 0), vd)
              else (STATUS_SUCCESS, (n, ucast (vring_pci_size n (vdev_packed_ring vd)),
                     vring_control_block_size S n (vdev_packed_ring vd)), vd))"

text \<open>The allocation of the ring, halving its length on failure; a NULL result gives up.\<close>

function alloc_ring_pages ::
  "('o, 's) virtio_system_ops \<Rightarrow> u16 \<Rightarrow> ('o, 's) virtio_device \<Rightarrow> ((ptr \<times> u16) \<times> ('o, 's) virtio_device) option" where
  "alloc_ring_pages S n vd = do {
     (queue, s) \<leftarrow> mem_alloc_contiguous_pages S (vring_pci_size n (vdev_packed_ring vd)) (vdev_sys vd);
     let vd = vd\<lparr>vdev_sys := s\<rparr>;
     if queue \<noteq> 0 then Some ((queue, n), vd)
     else if 0 < n then alloc_ring_pages S (n div 2) vd
     else Some ((0, n), vd)
   }"
  by pat_completeness auto
termination
proof (relation "measure (\<lambda>(S, n, vd). unat n)")
  show "((S, n div 2, v), S, n, vd) \<in> measure (\<lambda>(S, n, vd). unat n)" if "0 < n"
    for S :: "('o, 's) virtio_system_ops" and n :: u16 and v vd :: "('o, 's) virtio_device"
    using that by (simp add: unat_div word_less_nat_alt)
qed simp

declare alloc_ring_pages.simps [simp del]

text \<open>The address of the queue's notification register: within the mapped structure, or mapped now.\<close>

definition modern_notification_addr ::
  "('o, 's) virtio_system_ops \<Rightarrow> u16 \<Rightarrow> ('o, 's) virtio_device \<Rightarrow> ((NTSTATUS \<times> ptr) \<times> ('o, 's) virtio_device) option" where
  "modern_notification_addr S off vd =
     (if vdev_notify_base vd \<noteq> 0
      then if vdev_notify_len vd < ucast off * ucast (vdev_notify_offset_multiplier vd) + 2
           then Some ((STATUS_INVALID_PARAMETER, 0), vd)
           else let a = vdev_notify_base vd + ucast (ucast off * vdev_notify_offset_multiplier vd)
                in Some ((if a = 0 then STATUS_INSUFFICIENT_RESOURCES else STATUS_SUCCESS, a), vd)
      else do {
        ((a, len), vd) \<leftarrow> vio_modern_map_capability S (vdev_notify_map_cap vd) 2 2
                              (ucast off * vdev_notify_offset_multiplier vd) 2 vd;
        Some ((if a = 0 then STATUS_INSUFFICIENT_RESOURCES else STATUS_SUCCESS, a), vd)
      })"

text \<open>The registers that make the ring known to the device.\<close>

definition modern_activate ::
  "('o, 's) virtio_system_ops \<Rightarrow> u16 \<Rightarrow> ptr \<Rightarrow> 'o virtqueue_object \<Rightarrow> ('o, 's) virtio_device \<Rightarrow> ('o, 's) virtio_device" where
  "modern_activate S n queue vq vd =
     (let c = vdev_common vd;
          vd = iowrite16 S n (c + 24) vd;
          vd = iowrite64_twopart S (mem_get_physical_address S queue (vdev_sys vd)) (c + 32) (c + 36) vd;
          vd = iowrite64_twopart S (mem_get_physical_address S (vqo_avail_va vq) (vdev_sys vd)) (c + 40) (c + 44) vd
      in iowrite64_twopart S (mem_get_physical_address S (vqo_used_va vq) (vdev_sys vd)) (c + 48) (c + 52) vd)"

text \<open>The labels \<open>err_new_queue\<close> and \<open>err_map_notify\<close>.\<close>

definition modern_discard ::
  "('o, 's) virtio_system_ops \<Rightarrow> ptr \<Rightarrow> ptr \<Rightarrow> ('o, 's) virtio_device \<Rightarrow> ('o, 's) virtio_device option" where
  "modern_discard S vq_addr queue vd = do {
     vd \<leftarrow> free_block S vq_addr vd;
     free_pages S queue vd
   }"

text \<open>From the activation of the ring to the end of \<open>vio_modern_setup_vq\<close>, the error labels included.\<close>

definition modern_enable_vq ::
  "('o, 's) virtio_system_ops \<Rightarrow> u32 \<Rightarrow> u16 \<Rightarrow> u16 \<Rightarrow> u16 \<Rightarrow> ptr \<Rightarrow> ptr \<Rightarrow> 'o virtqueue_object \<Rightarrow> ('o, 's) virtio_device \<Rightarrow>
   ((NTSTATUS \<times> ptr) \<times> ('o, 's) virtio_device) option" where
  "modern_enable_vq S index n off msix_vec vq_addr queue vq vd = do {
     let vd = modern_activate S n queue vq (vd\<lparr>vdev_vqs := (vdev_vqs vd)(vq_addr \<mapsto> vq)\<rparr>);
     ((status, a), vd) \<leftarrow> modern_notification_addr S off vd;
     let vd = vd\<lparr>vdev_vqs := (vdev_vqs vd)(vq_addr \<mapsto> vq\<lparr>vqo_notification_addr := a\<rparr>)\<rparr>;
     let (msix_vec', vd) =
       (if NT_SUCCESS status \<and> msix_vec \<noteq> VIRTIO_MSI_NO_VECTOR
        then vio_modern_set_queue_vector S index msix_vec vd else (msix_vec, vd));
     let status = (if NT_SUCCESS status \<and> msix_vec \<noteq> VIRTIO_MSI_NO_VECTOR \<and> msix_vec' = VIRTIO_MSI_NO_VECTOR
                   then STATUS_DEVICE_BUSY else status);
     if \<not> NT_SUCCESS status then do {
       vd \<leftarrow> virtqueue_shutdown vq_addr vd;
       vd \<leftarrow> modern_discard S vq_addr queue vd;
       Some ((status, 0), vd)
     }
     else Some ((STATUS_SUCCESS, vq_addr), iowrite16 S 1 (vdev_common vd + 28) vd)
   }"

definition vio_modern_setup_vq ::
  "('o, 's) virtio_system_ops \<Rightarrow> u32 \<Rightarrow> u16 \<Rightarrow> ('o, 's) virtio_device \<Rightarrow>
   ((NTSTATUS \<times> ptr) \<times> ('o, 's) virtio_device) option" where
  "vio_modern_setup_vq S index msix_vec vd =
     (case vio_modern_query_vq_alloc S index vd of (status, (n, ring_size, heap_size), vd) \<Rightarrow>
        if \<not> NT_SUCCESS status then Some ((status, 0), vd)
        else do {
          let (off, vd) = ioread16 S (vdev_common vd + 30) vd;
          ((queue, n), vd) \<leftarrow> alloc_ring_pages S n vd;
          vd \<leftarrow> set_info index (\<lambda>i. i\<lparr>qi_num := n, qi_queue := queue\<rparr>) vd;
          if queue = 0 then Some ((STATUS_INSUFFICIENT_RESOURCES, 0), vd)
          else do {
            let (vq_addr, s) = mem_alloc_nonpaged_block S (ucast heap_size) (vdev_sys vd);
            let vd = vd\<lparr>vdev_sys := s\<rparr>;
            if vq_addr = 0 then Some ((STATUS_INSUFFICIENT_RESOURCES, 0), vd)
            else do {
              vq \<leftarrow> (if vdev_packed_ring vd then new_virtqueue_packed S index n queue vd
                     else new_virtqueue_split S index n (ucast SMP_CACHE_BYTES) queue vd);
              case vq of
                None \<Rightarrow> do {
                  vd \<leftarrow> modern_discard S vq_addr queue vd;
                  Some ((STATUS_INSUFFICIENT_RESOURCES, 0), vd)
                }
              | Some vq \<Rightarrow> modern_enable_vq S index n off msix_vec vq_addr queue vq vd
            }
          }
        })"

definition vio_modern_del_vq ::
  "('o, 's) virtio_system_ops \<Rightarrow> virtio_queue_info \<Rightarrow> ('o, 's) virtio_device \<Rightarrow> ('o, 's) virtio_device option" where
  "vio_modern_del_vq S qi vd = do {
     vq \<leftarrow> vdev_vqs vd (qi_vq qi);
     let vd = iowrite16 S (ucast (vqo_index vq)) (vdev_common vd + 22) vd;
     let vd = (if vdev_msix_used vd
               then snd (ioread16 S (vdev_common vd + 26) (iowrite16 S VIRTIO_MSI_NO_VECTOR (vdev_common vd + 26) vd))
               else vd);
     vd \<leftarrow> virtqueue_shutdown (qi_vq qi) vd;
     modern_discard S (qi_vq qi) (qi_queue qi) vd
   }"

section \<open>Searching the capabilities\<close>

abbreviation (input) PCI_CAPABILITY_ID_VENDOR_SPECIFIC :: u8 where "PCI_CAPABILITY_ID_VENDOR_SPECIFIC \<equiv> 9"

fun next_capability :: "('o, 's) virtio_system_ops \<Rightarrow> nat \<Rightarrow> u8 \<Rightarrow> 's \<Rightarrow> u8" where
  "next_capability S 0 off s = 0"
| "next_capability S (Suc iterations) off s =
     (if off < 0x40 then 0
      else
        let off = off AND NOT 3; (r, id) = pci_read_config_byte S (uint off) s
        in if r \<noteq> 0 \<or> id = 0xFF then 0
           else if id = PCI_CAPABILITY_ID_VENDOR_SPECIFIC then off
           else case pci_read_config_byte S (uint off + 1) s of
                  (r, off) \<Rightarrow> if r \<noteq> 0 then 0 else next_capability S iterations off s)"

definition find_next_pci_vendor_capability :: "('o, 's) virtio_system_ops \<Rightarrow> u8 \<Rightarrow> 's \<Rightarrow> u8" where
  "find_next_pci_vendor_capability S off s =
     (case pci_read_config_byte S (uint off) s of
        (r, off) \<Rightarrow> if r \<noteq> 0 then 0 else next_capability S 48 off s)"

text \<open>The offsets of the header type, the status and the capability pointers are those of PCI.\<close>

definition find_first_pci_vendor_capability :: "('o, 's) virtio_system_ops \<Rightarrow> 's \<Rightarrow> u8" where
  "find_first_pci_vendor_capability S s =
     (case pci_read_config_byte S 14 s of (r, hdr_type) \<Rightarrow>
        if r \<noteq> 0 then 0
        else case pci_read_config_word S 6 s of (r, status) \<Rightarrow>
          if r \<noteq> 0 \<or> status AND 0x10 = 0 then 0
          else find_next_pci_vendor_capability S (if hdr_type AND NOT 0x80 = 2 then 0x14 else 0x34) s)"

partial_function (option) vendor_capabilities ::
  "('o, 's) virtio_system_ops \<Rightarrow> u8 \<Rightarrow> int list \<Rightarrow> 's \<Rightarrow> int list option" where
  "vendor_capabilities S off offsets s =
     (if off = 0 then Some offsets
      else
        let cfg_type = snd (pci_read_config_byte S (uint off + 3) s);
            bar = snd (pci_read_config_byte S (uint off + 4) s)
        in do {
          offsets \<leftarrow> (if bar < 6 \<and> unat cfg_type < length offsets
                     then do {
                       len \<leftarrow> pci_get_resource_len S (uint bar) s;
                       Some (if 0 < len then offsets[unat cfg_type := uint off] else offsets)
                     }
                     else Some offsets);
          vendor_capabilities S (find_next_pci_vendor_capability S (off + 1) s) offsets s
        })"

definition find_pci_vendor_capabilities ::
  "('o, 's) virtio_system_ops \<Rightarrow> int list \<Rightarrow> 's \<Rightarrow> int list option" where
  "find_pci_vendor_capabilities S offsets s =
     vendor_capabilities S (find_first_pci_vendor_capability S s) offsets s"

section \<open>Initialisation\<close>

abbreviation (input) VIRTIO_PCI_CAP_COMMON_CFG :: nat where "VIRTIO_PCI_CAP_COMMON_CFG \<equiv> 1"
abbreviation (input) VIRTIO_PCI_CAP_NOTIFY_CFG :: nat where "VIRTIO_PCI_CAP_NOTIFY_CFG \<equiv> 2"
abbreviation (input) VIRTIO_PCI_CAP_ISR_CFG :: nat where "VIRTIO_PCI_CAP_ISR_CFG \<equiv> 3"
abbreviation (input) VIRTIO_PCI_CAP_DEVICE_CFG :: nat where "VIRTIO_PCI_CAP_DEVICE_CFG \<equiv> 4"
abbreviation (input) VIRTIO_PCI_CAP_PCI_CFG :: nat where "VIRTIO_PCI_CAP_PCI_CFG \<equiv> 5"
abbreviation (input) sizeof_virtio_pci_common_cfg :: u64 where "sizeof_virtio_pci_common_cfg \<equiv> 56"

text \<open>The notification structure is mapped whole when it lies in one page, and else queue by queue.\<close>

definition modern_map_notify ::
  "('o, 's) virtio_system_ops \<Rightarrow> int \<Rightarrow> ('o, 's) virtio_device \<Rightarrow> (NTSTATUS \<times> ('o, 's) virtio_device) option" where
  "modern_map_notify S cap vd =
     (let multiplier = snd (pci_read_config_dword S (cap + 16) (vdev_sys vd));
          notify_length = snd (pci_read_config_dword S (cap + 12) (vdev_sys vd));
          notify_offset = snd (pci_read_config_dword S (cap + 8) (vdev_sys vd));
          vd = vd\<lparr>vdev_notify_offset_multiplier := multiplier\<rparr>
      in if notify_length + notify_offset mod PAGE_SIZE \<le> PAGE_SIZE then do {
           ((a, len), vd) \<leftarrow> vio_modern_map_capability S cap 2 2 0 notify_length vd;
           Some (if a = 0 then STATUS_INVALID_PARAMETER else STATUS_SUCCESS,
                 vd\<lparr>vdev_notify_base := a, vdev_notify_len := len\<rparr>)
         }
         else Some (STATUS_SUCCESS, vd\<lparr>vdev_notify_map_cap := cap\<rparr>))"

definition vio_modern_initialize ::
  "('o, 's) virtio_system_ops \<Rightarrow> ('o, 's) virtio_device \<Rightarrow> (NTSTATUS \<times> ('o, 's) virtio_device) option" where
  "vio_modern_initialize S vd = do {
     capabilities \<leftarrow> find_pci_vendor_capabilities S (replicate VIRTIO_PCI_CAP_PCI_CFG 0) (vdev_sys vd);
     if capabilities ! VIRTIO_PCI_CAP_COMMON_CFG = 0 then Some (STATUS_DEVICE_NOT_CONNECTED, vd)
     else if capabilities ! VIRTIO_PCI_CAP_ISR_CFG = 0 \<or> capabilities ! VIRTIO_PCI_CAP_NOTIFY_CFG = 0
     then Some (STATUS_INVALID_PARAMETER, vd)
     else do {
       ((c, _), vd) \<leftarrow> vio_modern_map_simple_capability S (capabilities ! VIRTIO_PCI_CAP_COMMON_CFG)
                          sizeof_virtio_pci_common_cfg 4 vd;
       let vd = vd\<lparr>vdev_common := c\<rparr>;
       if c = 0 then Some (STATUS_INVALID_PARAMETER, vd)
       else do {
         ((i, _), vd) \<leftarrow> vio_modern_map_simple_capability S (capabilities ! VIRTIO_PCI_CAP_ISR_CFG) 1 1 vd;
         let vd = vd\<lparr>vdev_isr := i\<rparr>;
         if i = 0 then Some (STATUS_INVALID_PARAMETER, vd)
         else do {
           (status, vd) \<leftarrow> modern_map_notify S (capabilities ! VIRTIO_PCI_CAP_NOTIFY_CFG) vd;
           if \<not> NT_SUCCESS status then Some (status, vd)
           else do {
             (status, vd) \<leftarrow>
               (if capabilities ! VIRTIO_PCI_CAP_DEVICE_CFG \<noteq> 0 then do {
                  ((a, len), vd) \<leftarrow> vio_modern_map_capability S (capabilities ! VIRTIO_PCI_CAP_DEVICE_CFG) 0 4 0 PAGE_SIZE vd;
                  Some (if a = 0 then STATUS_INVALID_PARAMETER else STATUS_SUCCESS,
                        vd\<lparr>vdev_config := a, vdev_config_len := len\<rparr>)
                }
                else Some (STATUS_SUCCESS, vd));
             Some (status, if NT_SUCCESS status then vd\<lparr>vdev_device := Some Modern\<rparr> else vd)
           }
         }
       }
     }
   }"

end
