(* ===== verification/Virtio_Legacy.thy ===== *)
theory Virtio_Legacy
  imports Virtio_Modern
begin

text \<open>
  The legacy transport (\<open>VirtIO/VirtIOPCILegacy.c\<close>): registers at fixed offsets from \<open>addr\<close>, split
  rings only.  The pages of a ring hold its control block behind it, so that the queue object
  lives and dies with them.
\<close>

abbreviation (input) VIRTIO_PCI_HOST_FEATURES :: u64 where "VIRTIO_PCI_HOST_FEATURES \<equiv> 0"
abbreviation (input) VIRTIO_PCI_GUEST_FEATURES :: u64 where "VIRTIO_PCI_GUEST_FEATURES \<equiv> 4"
abbreviation (input) VIRTIO_PCI_QUEUE_PFN :: u64 where "VIRTIO_PCI_QUEUE_PFN \<equiv> 8"
abbreviation (input) VIRTIO_PCI_QUEUE_NUM :: u64 where "VIRTIO_PCI_QUEUE_NUM \<equiv> 12"
abbreviation (input) VIRTIO_PCI_QUEUE_SEL :: u64 where "VIRTIO_PCI_QUEUE_SEL \<equiv> 14"
abbreviation (input) VIRTIO_PCI_QUEUE_NOTIFY :: u64 where "VIRTIO_PCI_QUEUE_NOTIFY \<equiv> 16"
abbreviation (input) VIRTIO_PCI_STATUS :: u64 where "VIRTIO_PCI_STATUS \<equiv> 18"
abbreviation (input) VIRTIO_PCI_ISR :: u64 where "VIRTIO_PCI_ISR \<equiv> 19"
abbreviation (input) VIRTIO_MSI_CONFIG_VECTOR :: u64 where "VIRTIO_MSI_CONFIG_VECTOR \<equiv> 20"
abbreviation (input) VIRTIO_MSI_QUEUE_VECTOR :: u64 where "VIRTIO_MSI_QUEUE_VECTOR \<equiv> 22"
abbreviation (input) VIRTIO_PCI_QUEUE_ADDR_SHIFT :: nat where "VIRTIO_PCI_QUEUE_ADDR_SHIFT \<equiv> 12"
abbreviation (input) VIRTIO_PCI_VRING_ALIGN :: u32 where "VIRTIO_PCI_VRING_ALIGN \<equiv> 4096"

definition VIRTIO_PCI_CONFIG :: "bool \<Rightarrow> u64" where
  "VIRTIO_PCI_CONFIG msix_enabled = (if msix_enabled then 24 else 20)"

section \<open>Configuration, status and features\<close>

text \<open>\<open>ioread_bytes S a i n\<close> reads the bytes at \<open>a + i\<close>, ..., \<open>a + (i + n - 1)\<close> in that order.\<close>

fun ioread_bytes ::
  "('o, 's) virtio_system_ops \<Rightarrow> u64 \<Rightarrow> nat \<Rightarrow> nat \<Rightarrow> ('o, 's) virtio_device \<Rightarrow> u8 list \<times> ('o, 's) virtio_device" where
  "ioread_bytes S a i 0 vd = ([], vd)"
| "ioread_bytes S a i (Suc n) vd =
     (case ioread8 S (a + word_of_nat i) vd of (b, vd) \<Rightarrow>
      case ioread_bytes S a (Suc i) n vd of (bs, vd) \<Rightarrow> (b # bs, vd))"

fun iowrite_bytes ::
  "('o, 's) virtio_system_ops \<Rightarrow> u64 \<Rightarrow> nat \<Rightarrow> u8 list \<Rightarrow> ('o, 's) virtio_device \<Rightarrow> ('o, 's) virtio_device" where
  "iowrite_bytes S a i [] vd = vd"
| "iowrite_bytes S a i (b # bs) vd = iowrite_bytes S a (Suc i) bs (iowrite8 S b (a + word_of_nat i) vd)"

definition vio_legacy_get_config ::
  "('o, 's) virtio_system_ops \<Rightarrow> u32 \<Rightarrow> u32 \<Rightarrow> ('o, 's) virtio_device \<Rightarrow> u8 list \<times> ('o, 's) virtio_device" where
  "vio_legacy_get_config S off len vd =
     ioread_bytes S (vdev_addr vd + VIRTIO_PCI_CONFIG (vdev_msix_used vd) + ucast off) 0 (unat len) vd"

definition vio_legacy_set_config ::
  "('o, 's) virtio_system_ops \<Rightarrow> u32 \<Rightarrow> u8 list \<Rightarrow> ('o, 's) virtio_device \<Rightarrow> ('o, 's) virtio_device" where
  "vio_legacy_set_config S off buf vd =
     iowrite_bytes S (vdev_addr vd + VIRTIO_PCI_CONFIG (vdev_msix_used vd) + ucast off) 0 buf vd"

definition vio_legacy_get_status ::
  "('o, 's) virtio_system_ops \<Rightarrow> ('o, 's) virtio_device \<Rightarrow> u8 \<times> ('o, 's) virtio_device" where
  "vio_legacy_get_status S vd = ioread8 S (vdev_addr vd + VIRTIO_PCI_STATUS) vd"

definition vio_legacy_set_status ::
  "('o, 's) virtio_system_ops \<Rightarrow> u8 \<Rightarrow> ('o, 's) virtio_device \<Rightarrow> ('o, 's) virtio_device" where
  "vio_legacy_set_status S status vd = iowrite8 S status (vdev_addr vd + VIRTIO_PCI_STATUS) vd"

definition vio_legacy_reset ::
  "('o, 's) virtio_system_ops \<Rightarrow> ('o, 's) virtio_device \<Rightarrow> ('o, 's) virtio_device" where
  "vio_legacy_reset S vd = iowrite8 S 0 (vdev_addr vd + VIRTIO_PCI_STATUS) vd"

definition vio_legacy_get_features ::
  "('o, 's) virtio_system_ops \<Rightarrow> ('o, 's) virtio_device \<Rightarrow> u64 \<times> ('o, 's) virtio_device" where
  "vio_legacy_get_features S vd =
     (case ioread32 S (vdev_addr vd + VIRTIO_PCI_HOST_FEATURES) vd of (f, vd) \<Rightarrow> (ucast f, vd))"

definition vio_legacy_set_features ::
  "('o, 's) virtio_system_ops \<Rightarrow> u64 \<Rightarrow> ('o, 's) virtio_device \<Rightarrow> (NTSTATUS \<times> ('o, 's) virtio_device) option" where
  "vio_legacy_set_features S features vd =
     (let features = vring_transport_features features
      in if ucast (ucast features :: u32) \<noteq> features then None
         else Some (STATUS_SUCCESS, iowrite32 S (ucast features) (vdev_addr vd + VIRTIO_PCI_GUEST_FEATURES) vd))"

definition vio_legacy_set_config_vector ::
  "('o, 's) virtio_system_ops \<Rightarrow> u16 \<Rightarrow> ('o, 's) virtio_device \<Rightarrow> u16 \<times> ('o, 's) virtio_device" where
  "vio_legacy_set_config_vector S vector vd =
     ioread16 S (vdev_addr vd + VIRTIO_MSI_CONFIG_VECTOR) (iowrite16 S vector (vdev_addr vd + VIRTIO_MSI_CONFIG_VECTOR) vd)"

definition vio_legacy_set_queue_vector ::
  "('o, 's) virtio_system_ops \<Rightarrow> u32 \<Rightarrow> u16 \<Rightarrow> ('o, 's) virtio_device \<Rightarrow> u16 \<times> ('o, 's) virtio_device" where
  "vio_legacy_set_queue_vector S index vector vd =
     (let vd = iowrite16 S (ucast index) (vdev_addr vd + VIRTIO_PCI_QUEUE_SEL) vd;
          vd = iowrite16 S vector (vdev_addr vd + VIRTIO_MSI_QUEUE_VECTOR) vd
      in ioread16 S (vdev_addr vd + VIRTIO_MSI_QUEUE_VECTOR) vd)"

section \<open>Queues\<close>

text \<open>The control block lies behind the ring, at a page boundary of its own.\<close>

definition legacy_ring_pages :: "u16 \<Rightarrow> u64" where
  "legacy_ring_pages n = ROUND_TO_PAGES (ucast (vring_size (ucast n) VIRTIO_PCI_VRING_ALIGN False))"

definition vio_legacy_query_vq_alloc ::
  "('o, 's) virtio_system_ops \<Rightarrow> u32 \<Rightarrow> ('o, 's) virtio_device \<Rightarrow>
   NTSTATUS \<times> (u16 \<times> u32 \<times> u32) \<times> ('o, 's) virtio_device" where
  "vio_legacy_query_vq_alloc S index vd =
     (let vd = iowrite16 S (ucast index) (vdev_addr vd + VIRTIO_PCI_QUEUE_SEL) vd;
          (n, vd) = ioread16 S (vdev_addr vd + VIRTIO_PCI_QUEUE_NUM) vd;
          (pfn, vd) = (if n = 0 then (0, vd) else ioread32 S (vdev_addr vd + VIRTIO_PCI_QUEUE_PFN) vd)
      in if n = 0 \<or> pfn \<noteq> 0 then (STATUS_NOT_FOUND, (0, 0, 0), vd)
         else
           let ring_size = ucast (legacy_ring_pages n);
               data_size = ucast (ROUND_TO_PAGES (ucast (vring_control_block_size S n False)))
           in (STATUS_SUCCESS, (n, ring_size + data_size, 0), vd))"

text \<open>The labels \<open>err_assign\<close> and \<open>err_activate_queue\<close>, and the end of \<open>vio_legacy_del_vq\<close>.\<close>

definition legacy_discard ::
  "('o, 's) virtio_system_ops \<Rightarrow> u16 \<Rightarrow> ptr \<Rightarrow> ('o, 's) virtio_device \<Rightarrow> ('o, 's) virtio_device option" where
  "legacy_discard S n queue vd = do {
     let vd = iowrite32 S 0 (vdev_addr vd + VIRTIO_PCI_QUEUE_PFN) vd;
     let vd = vd\<lparr>vdev_vqs := (vdev_vqs vd)(queue + legacy_ring_pages n := None)\<rparr>;
     free_pages S queue vd
   }"

definition vio_legacy_setup_vq ::
  "('o, 's) virtio_system_ops \<Rightarrow> u32 \<Rightarrow> u16 \<Rightarrow> ('o, 's) virtio_device \<Rightarrow>
   ((NTSTATUS \<times> ptr) \<times> ('o, 's) virtio_device) option" where
  "vio_legacy_setup_vq S index msix_vec vd =
     (case vio_legacy_query_vq_alloc S index vd of (status, (n, ring_size, heap_size), vd) \<Rightarrow>
        if \<not> NT_SUCCESS status then Some ((status, 0), vd)
        else do {
          (queue, s) \<leftarrow> mem_alloc_contiguous_pages S (ucast ring_size) (vdev_sys vd);
          vd \<leftarrow> set_info index (\<lambda>i. i\<lparr>qi_num := n, qi_queue := queue\<rparr>) (vd\<lparr>vdev_sys := s\<rparr>);
          if queue = 0 then Some ((STATUS_INSUFFICIENT_RESOURCES, 0), vd)
          else do {
            let vd = iowrite32 S (ucast (drop_bit VIRTIO_PCI_QUEUE_ADDR_SHIFT (mem_get_physical_address S queue (vdev_sys vd))))
                       (vdev_addr vd + VIRTIO_PCI_QUEUE_PFN) vd;
            vq \<leftarrow> new_virtqueue_split S index n (ucast VIRTIO_PCI_VRING_ALIGN) queue vd;
            case vq of
              None \<Rightarrow> do {
                vd \<leftarrow> legacy_discard S n queue vd;
                Some ((STATUS_INSUFFICIENT_RESOURCES, 0), vd)
              }
            | Some vq \<Rightarrow> do {
                let vq_addr = queue + legacy_ring_pages n;
                let vd = vd\<lparr>vdev_vqs := (vdev_vqs vd)(vq_addr \<mapsto>
                           vq\<lparr>vqo_notification_addr := vdev_addr vd + VIRTIO_PCI_QUEUE_NOTIFY\<rparr>)\<rparr>;
                let (vector, vd) =
                  (if msix_vec \<noteq> VIRTIO_MSI_NO_VECTOR then vio_legacy_set_queue_vector S index msix_vec vd else (0, vd));
                if msix_vec \<noteq> VIRTIO_MSI_NO_VECTOR \<and> vector = VIRTIO_MSI_NO_VECTOR then do {
                  vd \<leftarrow> legacy_discard S n queue vd;
                  Some ((STATUS_DEVICE_BUSY, 0), vd)
                }
                else Some ((STATUS_SUCCESS, vq_addr), vd)
              }
          }
        })"

definition vio_legacy_del_vq ::
  "('o, 's) virtio_system_ops \<Rightarrow> virtio_queue_info \<Rightarrow> ('o, 's) virtio_device \<Rightarrow> ('o, 's) virtio_device option" where
  "vio_legacy_del_vq S qi vd = do {
     vq \<leftarrow> vdev_vqs vd (qi_vq qi);
     let vd = iowrite16 S (ucast (vqo_index vq)) (vdev_addr vd + VIRTIO_PCI_QUEUE_SEL) vd;
     let vd = (if vdev_msix_used vd
               then snd (ioread8 S (vdev_addr vd + VIRTIO_PCI_ISR)
                      (iowrite16 S VIRTIO_MSI_NO_VECTOR (vdev_addr vd + VIRTIO_MSI_QUEUE_VECTOR) vd))
               else vd);
     legacy_discard S (qi_num qi) (qi_queue qi) vd
   }"

definition vio_legacy_initialize ::
  "('o, 's) virtio_system_ops \<Rightarrow> ('o, 's) virtio_device \<Rightarrow> (NTSTATUS \<times> ('o, 's) virtio_device) option" where
  "vio_legacy_initialize S vd = do {
     length \<leftarrow> pci_get_resource_len S 0 (vdev_sys vd);
     (a, s) \<leftarrow> pci_map_address_range S 0 0 length (vdev_sys vd);
     let vd = vd\<lparr>vdev_sys := s, vdev_addr := a\<rparr>;
     if a = 0 then Some (STATUS_INSUFFICIENT_RESOURCES, vd)
     else Some (STATUS_SUCCESS, vd\<lparr>vdev_isr := a + VIRTIO_PCI_ISR, vdev_device := Some Legacy\<rparr>)
   }"

end
