(* ===== verification/Virtio_Common.thy ===== *)
theory Virtio_Common
  imports Virtio_Legacy
begin

text \<open>
  The operations of the virtio library that do not depend on the transport
  (\<open>VirtIO/VirtIOPCICommon.c\<close>).  The operation table \<open>vdev->device\<close> is the member \<open>vdev_device\<close>; the
  \<open>dev_\<close> operations are the calls through it, undefined behaviour before it is set.
\<close>

section \<open>Calls through the operation table\<close>

definition dev_get_config ::
  "('o, 's) virtio_system_ops \<Rightarrow> u32 \<Rightarrow> u32 \<Rightarrow> ('o, 's) virtio_device \<Rightarrow> (u8 list \<times> ('o, 's) virtio_device) option" where
  "dev_get_config S off len vd = do {
     t \<leftarrow> vdev_device vd;
     case t of Modern \<Rightarrow> vio_modern_get_config S off len vd | Legacy \<Rightarrow> Some (vio_legacy_get_config S off len vd)
   }"

definition dev_set_config ::
  "('o, 's) virtio_system_ops \<Rightarrow> u32 \<Rightarrow> u8 list \<Rightarrow> ('o, 's) virtio_device \<Rightarrow> ('o, 's) virtio_device option" where
  "dev_set_config S off buf vd = do {
     t \<leftarrow> vdev_device vd;
     case t of Modern \<Rightarrow> vio_modern_set_config S off buf vd | Legacy \<Rightarrow> Some (vio_legacy_set_config S off buf vd)
   }"

text \<open>The legacy table has no \<open>get_config_generation\<close>.\<close>

definition dev_get_generation ::
  "('o, 's) virtio_system_ops \<Rightarrow> ('o, 's) virtio_device \<Rightarrow> (u32 \<times> ('o, 's) virtio_device) option" where
  "dev_get_generation S vd = do {
     t \<leftarrow> vdev_device vd;
     case t of Modern \<Rightarrow> Some (vio_modern_get_generation S vd) | Legacy \<Rightarrow> Some (0, vd)
   }"

definition dev_query_queue_alloc ::
  "('o, 's) virtio_system_ops \<Rightarrow> u32 \<Rightarrow> ('o, 's) virtio_device \<Rightarrow>
   (NTSTATUS \<times> (u16 \<times> u32 \<times> u32) \<times> ('o, 's) virtio_device) option" where
  "dev_query_queue_alloc S index vd = do {
     t \<leftarrow> vdev_device vd;
     case t of Modern \<Rightarrow> Some (vio_modern_query_vq_alloc S index vd) | Legacy \<Rightarrow> Some (vio_legacy_query_vq_alloc S index vd)
   }"

definition dev_setup_queue ::
  "('o, 's) virtio_system_ops \<Rightarrow> u32 \<Rightarrow> u16 \<Rightarrow> ('o, 's) virtio_device \<Rightarrow>
   ((NTSTATUS \<times> ptr) \<times> ('o, 's) virtio_device) option" where
  "dev_setup_queue S index msix_vec vd = do {
     t \<leftarrow> vdev_device vd;
     case t of Modern \<Rightarrow> vio_modern_setup_vq S index msix_vec vd | Legacy \<Rightarrow> vio_legacy_setup_vq S index msix_vec vd
   }"

definition dev_delete_queue ::
  "('o, 's) virtio_system_ops \<Rightarrow> virtio_queue_info \<Rightarrow> ('o, 's) virtio_device \<Rightarrow> ('o, 's) virtio_device option" where
  "dev_delete_queue S qi vd = do {
     t \<leftarrow> vdev_device vd;
     case t of Modern \<Rightarrow> vio_modern_del_vq S qi vd | Legacy \<Rightarrow> vio_legacy_del_vq S qi vd
   }"

section \<open>Status and features\<close>

abbreviation (input) VIRTIO_CONFIG_S_ACKNOWLEDGE :: u8 where "VIRTIO_CONFIG_S_ACKNOWLEDGE \<equiv> 1"
abbreviation (input) VIRTIO_CONFIG_S_DRIVER :: u8 where "VIRTIO_CONFIG_S_DRIVER \<equiv> 2"
abbreviation (input) VIRTIO_CONFIG_S_DRIVER_OK :: u8 where "VIRTIO_CONFIG_S_DRIVER_OK \<equiv> 4"
abbreviation (input) VIRTIO_CONFIG_S_FEATURES_OK :: u8 where "VIRTIO_CONFIG_S_FEATURES_OK \<equiv> 8"

definition virtio_get_status ::
  "('o, 's) virtio_system_ops \<Rightarrow> ('o, 's) virtio_device \<Rightarrow> (u8 \<times> ('o, 's) virtio_device) option" where
  "virtio_get_status S vd = do {
     t \<leftarrow> vdev_device vd;
     Some (case t of Modern \<Rightarrow> vio_modern_get_status S vd | Legacy \<Rightarrow> vio_legacy_get_status S vd)
   }"

definition virtio_set_status ::
  "('o, 's) virtio_system_ops \<Rightarrow> u8 \<Rightarrow> ('o, 's) virtio_device \<Rightarrow> ('o, 's) virtio_device option" where
  "virtio_set_status S status vd = do {
     t \<leftarrow> vdev_device vd;
     case t of Modern \<Rightarrow> vio_modern_set_status S status vd | Legacy \<Rightarrow> Some (vio_legacy_set_status S status vd)
   }"

definition virtio_add_status ::
  "('o, 's) virtio_system_ops \<Rightarrow> u8 \<Rightarrow> ('o, 's) virtio_device \<Rightarrow> ('o, 's) virtio_device option" where
  "virtio_add_status S status vd = do {
     (old, vd) \<leftarrow> virtio_get_status S vd;
     virtio_set_status S (old OR status) vd
   }"

definition virtio_device_reset ::
  "('o, 's) virtio_system_ops \<Rightarrow> ('o, 's) virtio_device \<Rightarrow> ('o, 's) virtio_device option" where
  "virtio_device_reset S vd = do {
     t \<leftarrow> vdev_device vd;
     case t of Modern \<Rightarrow> vio_modern_reset S vd | Legacy \<Rightarrow> Some (vio_legacy_reset S vd)
   }"

definition virtio_device_ready ::
  "('o, 's) virtio_system_ops \<Rightarrow> ('o, 's) virtio_device \<Rightarrow> ('o, 's) virtio_device option" where
  "virtio_device_ready S vd = do {
     (status, vd) \<leftarrow> virtio_get_status S vd;
     if status AND VIRTIO_CONFIG_S_DRIVER_OK \<noteq> 0 then None
     else virtio_set_status S (status OR VIRTIO_CONFIG_S_DRIVER_OK) vd
   }"

definition virtio_get_features ::
  "('o, 's) virtio_system_ops \<Rightarrow> ('o, 's) virtio_device \<Rightarrow> (u64 \<times> ('o, 's) virtio_device) option" where
  "virtio_get_features S vd = do {
     t \<leftarrow> vdev_device vd;
     Some (case t of Modern \<Rightarrow> vio_modern_get_features S vd | Legacy \<Rightarrow> vio_legacy_get_features S vd)
   }"

definition virtio_set_features ::
  "('o, 's) virtio_system_ops \<Rightarrow> u64 \<Rightarrow> ('o, 's) virtio_device \<Rightarrow> (NTSTATUS \<times> ('o, 's) virtio_device) option" where
  "virtio_set_features S features vd = do {
     let vd = vd\<lparr>vdev_event_suppression_enabled := virtio_is_feature_enabled features VIRTIO_RING_F_EVENT_IDX,
                 vdev_packed_ring := virtio_is_feature_enabled features VIRTIO_F_RING_PACKED\<rparr>;
     t \<leftarrow> vdev_device vd;
     (status, vd) \<leftarrow> (case t of Modern \<Rightarrow> Some (vio_modern_set_features S features vd)
                            | Legacy \<Rightarrow> vio_legacy_set_features S features vd);
     if \<not> NT_SUCCESS status \<or> \<not> virtio_is_feature_enabled features VIRTIO_F_VERSION_1 then Some (status, vd)
     else do {
       vd \<leftarrow> virtio_add_status S VIRTIO_CONFIG_S_FEATURES_OK vd;
       (dev_status, vd) \<leftarrow> virtio_get_status S vd;
       Some (if dev_status AND VIRTIO_CONFIG_S_FEATURES_OK = 0 then STATUS_INVALID_PARAMETER else status, vd)
     }
   }"

section \<open>Initialisation and shutdown\<close>

abbreviation (input) no_queue :: virtio_queue_info where
  "no_queue \<equiv> \<lparr>qi_vq = 0, qi_num = 0, qi_queue = 0\<rparr>"

text \<open>The zeroed device object; what lives elsewhere in memory stays.\<close>

definition cleared_device :: "bool \<Rightarrow> ('o, 's) virtio_device \<Rightarrow> ('o, 's) virtio_device" where
  "cleared_device msix_used vd =
     \<lparr>vdev_addr = 0, vdev_msix_used = msix_used, vdev_event_suppression_enabled = False, vdev_packed_ring = False,
      vdev_device = None, vdev_isr = 0, vdev_common = 0, vdev_config = 0, vdev_notify_base = 0,
      vdev_notify_map_cap = 0, vdev_notify_offset_multiplier = 0, vdev_config_len = 0, vdev_notify_len = 0,
      vdev_maxQueues = word_of_nat MAX_QUEUES_PER_DEVICE_DEFAULT,
      vdev_info = Some (replicate MAX_QUEUES_PER_DEVICE_DEFAULT no_queue), vdev_info_block = 0,
      vdev_vqs = vdev_vqs vd, vdev_sys = vdev_sys vd\<rparr>"

definition virtio_device_initialize ::
  "('o, 's) virtio_system_ops \<Rightarrow> bool \<Rightarrow> ('o, 's) virtio_device \<Rightarrow> (NTSTATUS \<times> ('o, 's) virtio_device) option" where
  "virtio_device_initialize S msix_used vd = do {
     (status, vd) \<leftarrow> vio_modern_initialize S (cleared_device msix_used vd);
     (status, vd) \<leftarrow> (if status = STATUS_DEVICE_NOT_CONNECTED then vio_legacy_initialize S vd else Some (status, vd));
     if NT_SUCCESS status then do {
       vd \<leftarrow> virtio_device_reset S vd;
       vd \<leftarrow> virtio_add_status S VIRTIO_CONFIG_S_ACKNOWLEDGE vd;
       vd \<leftarrow> virtio_add_status S VIRTIO_CONFIG_S_DRIVER vd;
       Some (status, vd)
     }
     else Some (status, vd)
   }"

definition virtio_device_shutdown ::
  "('o, 's) virtio_system_ops \<Rightarrow> ('o, 's) virtio_device \<Rightarrow> ('o, 's) virtio_device option" where
  "virtio_device_shutdown S vd =
     (if vdev_info vd \<noteq> None \<and> vdev_info_block vd \<noteq> 0 then do {
        vd \<leftarrow> free_block S (vdev_info_block vd) vd;
        Some (vd\<lparr>vdev_info := None, vdev_info_block := 0\<rparr>)
      }
      else Some vd)"

section \<open>Device configuration\<close>

fun cread_fields ::
  "('o, 's) virtio_system_ops \<Rightarrow> u32 \<Rightarrow> u32 \<Rightarrow> nat \<Rightarrow> nat \<Rightarrow> ('o, 's) virtio_device \<Rightarrow> (u8 list \<times> ('o, 's) virtio_device) option" where
  "cread_fields S off bytes i 0 vd = Some ([], vd)"
| "cread_fields S off bytes i (Suc n) vd = do {
     (b, vd) \<leftarrow> dev_get_config S (off + bytes * word_of_nat i) bytes vd;
     (bs, vd) \<leftarrow> cread_fields S off bytes (Suc i) n vd;
     Some (b @ bs, vd)
   }"

text \<open>
  The fields are read again until the generation counter has not moved meanwhile.  A device that
  changes its configuration during every pass is read for ever.
\<close>

partial_function (option) cread_until ::
  "('o, 's) virtio_system_ops \<Rightarrow> u32 \<Rightarrow> u32 \<Rightarrow> nat \<Rightarrow> u32 \<Rightarrow> ('o, 's) virtio_device \<Rightarrow> (u8 list \<times> ('o, 's) virtio_device) option" where
  "cread_until S off bytes n old vd =
     Option.bind (cread_fields S off bytes 0 n vd) (\<lambda>(buf, vd).
     Option.bind (dev_get_generation S vd) (\<lambda>(gen, vd).
       if gen = old then Some (buf, vd) else cread_until S off bytes n gen vd))"

definition virtio_cread_many ::
  "('o, 's) virtio_system_ops \<Rightarrow> u32 \<Rightarrow> nat \<Rightarrow> u32 \<Rightarrow> ('o, 's) virtio_device \<Rightarrow> (u8 list \<times> ('o, 's) virtio_device) option" where
  "virtio_cread_many S off n bytes vd = do {
     (gen, vd) \<leftarrow> dev_get_generation S vd;
     cread_until S off bytes n gen vd
   }"

definition virtio_get_config ::
  "('o, 's) virtio_system_ops \<Rightarrow> u32 \<Rightarrow> u32 \<Rightarrow> ('o, 's) virtio_device \<Rightarrow> (u8 list \<times> ('o, 's) virtio_device) option" where
  "virtio_get_config S off len vd =
     (if len = 1 \<or> len = 2 \<or> len = 4 then dev_get_config S off len vd
      else if len = 8 then virtio_cread_many S off 2 4 vd
      else virtio_cread_many S off (unat len) 1 vd)"

fun cwrite_fields ::
  "('o, 's) virtio_system_ops \<Rightarrow> u32 \<Rightarrow> u32 \<Rightarrow> nat \<Rightarrow> u8 list list \<Rightarrow> ('o, 's) virtio_device \<Rightarrow> ('o, 's) virtio_device option" where
  "cwrite_fields S off bytes i [] vd = Some vd"
| "cwrite_fields S off bytes i (b # bs) vd = do {
     vd \<leftarrow> dev_set_config S (off + bytes * word_of_nat i) b vd;
     cwrite_fields S off bytes (Suc i) bs vd
   }"

text \<open>\<open>buf\<close> is read in \<open>n\<close> fields of \<open>bytes\<close> bytes.\<close>

definition virtio_cwrite_many ::
  "('o, 's) virtio_system_ops \<Rightarrow> u32 \<Rightarrow> u8 list \<Rightarrow> nat \<Rightarrow> u32 \<Rightarrow> ('o, 's) virtio_device \<Rightarrow> ('o, 's) virtio_device option" where
  "virtio_cwrite_many S off buf n bytes vd =
     cwrite_fields S off bytes 0 (List.map (\<lambda>i. take (unat bytes) (drop (i * unat bytes) buf)) [0..<n]) vd"

definition virtio_set_config ::
  "('o, 's) virtio_system_ops \<Rightarrow> u32 \<Rightarrow> u8 list \<Rightarrow> ('o, 's) virtio_device \<Rightarrow> ('o, 's) virtio_device option" where
  "virtio_set_config S off buf vd =
     (if length buf = 1 \<or> length buf = 2 \<or> length buf = 4 then dev_set_config S off buf vd
      else if length buf = 8 then virtio_cwrite_many S off buf 2 4 vd
      else virtio_cwrite_many S off buf (length buf) 1 vd)"

section \<open>Queues\<close>

definition virtio_query_queue_allocation ::
  "('o, 's) virtio_system_ops \<Rightarrow> u32 \<Rightarrow> ('o, 's) virtio_device \<Rightarrow>
   (NTSTATUS \<times> (u16 \<times> u32 \<times> u32) \<times> ('o, 's) virtio_device) option" where
  "virtio_query_queue_allocation S index vd = dev_query_queue_alloc S index vd"

text \<open>The new array is what \<open>mem_alloc_nonpaged_block\<close> left in the block.\<close>

definition virtio_reserve_queue_memory ::
  "('o, 's) virtio_system_ops \<Rightarrow> u32 \<Rightarrow> ('o, 's) virtio_device \<Rightarrow> (NTSTATUS \<times> ('o, 's) virtio_device) option" where
  "virtio_reserve_queue_memory S nvqs vd =
     (if vdev_maxQueues vd < nvqs then do {
        let (new_info, s) = mem_alloc_nonpaged_block S (ucast (nvqs * sizeof_queue_info S)) (vdev_sys vd);
        let vd = vd\<lparr>vdev_sys := s\<rparr>;
        if new_info = 0 then Some (STATUS_INSUFFICIENT_RESOURCES, vd)
        else do {
          let infos = info_memory S new_info (unat nvqs) (vdev_sys vd);
          vd \<leftarrow> (if vdev_info vd \<noteq> None \<and> vdev_info_block vd \<noteq> 0
                 then free_block S (vdev_info_block vd) vd else Some vd);
          Some (STATUS_SUCCESS, vd\<lparr>vdev_info := Some infos, vdev_info_block := new_info, vdev_maxQueues := nvqs\<rparr>)
        }
      }
      else Some (STATUS_SUCCESS, vd))"

definition vp_setup_vq ::
  "('o, 's) virtio_system_ops \<Rightarrow> u32 \<Rightarrow> u16 \<Rightarrow> ('o, 's) virtio_device \<Rightarrow>
   ((NTSTATUS \<times> ptr) \<times> ('o, 's) virtio_device) option" where
  "vp_setup_vq S index msix_vec vd = do {
     ((status, vq), vd) \<leftarrow> dev_setup_queue S index msix_vec vd;
     if NT_SUCCESS status then do {
       vd \<leftarrow> set_info index (\<lambda>i. i\<lparr>qi_vq := vq\<rparr>) vd;
       Some ((status, vq), vd)
     }
     else Some ((status, vq), vd)
   }"

definition virtio_find_queue ::
  "('o, 's) virtio_system_ops \<Rightarrow> u32 \<Rightarrow> ('o, 's) virtio_device \<Rightarrow>
   ((NTSTATUS \<times> ptr) \<times> ('o, 's) virtio_device) option" where
  "virtio_find_queue S index vd =
     vp_setup_vq S index (vdev_get_msix_vector S (uint index) (vdev_sys vd)) vd"

definition virtio_delete_queue ::
  "('o, 's) virtio_system_ops \<Rightarrow> ptr \<Rightarrow> ('o, 's) virtio_device \<Rightarrow> ('o, 's) virtio_device option" where
  "virtio_delete_queue S vq vd = do {
     x \<leftarrow> vdev_vqs vd vq;
     qi \<leftarrow> get_info vd (vqo_index x);
     vd \<leftarrow> dev_delete_queue S qi vd;
     set_info (vqo_index x) (\<lambda>i. i\<lparr>qi_vq := 0\<rparr>) vd
   }"

fun delete_from ::
  "('o, 's) virtio_system_ops \<Rightarrow> nat \<Rightarrow> nat \<Rightarrow> ('o, 's) virtio_device \<Rightarrow> ('o, 's) virtio_device option" where
  "delete_from S i 0 vd = Some vd"
| "delete_from S i (Suc n) vd = do {
     qi \<leftarrow> get_info vd (word_of_nat i);
     vd \<leftarrow> (if qi_vq qi \<noteq> 0 then do {
              vd \<leftarrow> dev_delete_queue S qi vd;
              set_info (word_of_nat i) (\<lambda>i. i\<lparr>qi_vq := 0\<rparr>) vd
            }
            else Some vd);
     delete_from S (Suc i) n vd
   }"

definition virtio_delete_queues ::
  "('o, 's) virtio_system_ops \<Rightarrow> ('o, 's) virtio_device \<Rightarrow> ('o, 's) virtio_device option" where
  "virtio_delete_queues S vd =
     (if vdev_info vd = None then Some vd else delete_from S 0 (unat (vdev_maxQueues vd)) vd)"

text \<open>The loop over the queues; the addresses are those stored in \<open>vqs\<close> so far.\<close>

fun setup_from ::
  "('o, 's) virtio_system_ops \<Rightarrow> nat \<Rightarrow> nat \<Rightarrow> ('o, 's) virtio_device \<Rightarrow>
   ((NTSTATUS \<times> ptr list) \<times> ('o, 's) virtio_device) option" where
  "setup_from S i 0 vd = Some ((STATUS_SUCCESS, []), vd)"
| "setup_from S i (Suc n) vd = do {
     ((status, vq), vd) \<leftarrow> vp_setup_vq S (word_of_nat i) (vdev_get_msix_vector S (int i) (vdev_sys vd)) vd;
     if \<not> NT_SUCCESS status then Some ((status, []), vd)
     else do {
       ((status, vqs), vd) \<leftarrow> setup_from S (Suc i) n vd;
       Some ((status, vq # vqs), vd)
     }
   }"

definition virtio_find_queues ::
  "('o, 's) virtio_system_ops \<Rightarrow> u32 \<Rightarrow> ('o, 's) virtio_device \<Rightarrow>
   ((NTSTATUS \<times> ptr list) \<times> ('o, 's) virtio_device) option" where
  "virtio_find_queues S nvqs vd = do {
     (status, vd) \<leftarrow> virtio_reserve_queue_memory S nvqs vd;
     if \<not> NT_SUCCESS status then Some ((status, []), vd)
     else do {
       let msix_vec = vdev_get_msix_vector S (-1) (vdev_sys vd);
       t \<leftarrow> vdev_device vd;
       let (msix_vec', vd) =
         (if msix_vec = VIRTIO_MSI_NO_VECTOR then (0, vd)
          else case t of Modern \<Rightarrow> vio_modern_set_config_vector S msix_vec vd
                       | Legacy \<Rightarrow> vio_legacy_set_config_vector S msix_vec vd);
       ((status, vqs), vd) \<leftarrow>
         (if msix_vec' = VIRTIO_MSI_NO_VECTOR then Some ((STATUS_DEVICE_BUSY, []), vd)
          else setup_from S 0 (unat nvqs) vd);
       if NT_SUCCESS status then Some ((status, vqs), vd)
       else do {
         vd \<leftarrow> virtio_delete_queues S vd;
         Some ((status, vqs), vd)
       }
     }
   }"

definition virtio_get_queue_size :: "ptr \<Rightarrow> ('o, 's) virtio_device \<Rightarrow> u32 option" where
  "virtio_get_queue_size vq vd = do {
     x \<leftarrow> vdev_vqs vd vq;
     qi \<leftarrow> get_info vd (vqo_index x);
     Some (ucast (qi_num qi))
   }"

definition virtio_set_config_vector ::
  "('o, 's) virtio_system_ops \<Rightarrow> u16 \<Rightarrow> ('o, 's) virtio_device \<Rightarrow> (u16 \<times> ('o, 's) virtio_device) option" where
  "virtio_set_config_vector S vector vd = do {
     t \<leftarrow> vdev_device vd;
     Some (case t of Modern \<Rightarrow> vio_modern_set_config_vector S vector vd
                   | Legacy \<Rightarrow> vio_legacy_set_config_vector S vector vd)
   }"

definition virtio_set_queue_vector ::
  "('o, 's) virtio_system_ops \<Rightarrow> ptr \<Rightarrow> u16 \<Rightarrow> ('o, 's) virtio_device \<Rightarrow> (u16 \<times> ('o, 's) virtio_device) option" where
  "virtio_set_queue_vector S vq vector vd = do {
     x \<leftarrow> vdev_vqs vd vq;
     t \<leftarrow> vdev_device vd;
     Some (case t of Modern \<Rightarrow> vio_modern_set_queue_vector S (vqo_index x) vector vd
                   | Legacy \<Rightarrow> vio_legacy_set_queue_vector S (vqo_index x) vector vd)
   }"

definition virtio_read_isr_status ::
  "('o, 's) virtio_system_ops \<Rightarrow> ('o, 's) virtio_device \<Rightarrow> u8 \<times> ('o, 's) virtio_device" where
  "virtio_read_isr_status S vd = ioread8 S (vdev_isr vd) vd"

end
