(* ===== verification/Virtio_Queues.thy ===== *)
theory Virtio_Queues
  imports Virtio_Common
begin

text \<open>
  Setting up and deleting the queues of a device with the modern transport.  The locale
  \<open>virtio_system\<close> is the contract of the callbacks; inside it every operation on queues is shown
  to return, to keep the table of queues well-formed and to account for every page and block it
  allocates.
\<close>

section \<open>Powers of two\<close>

lemma pow2_nat: "0 < (a :: nat) \<Longrightarrow> a AND (a - 1) = 0 \<Longrightarrow> \<exists>k. a = 2 ^ k"
proof (induction a rule: nat_bit_induct)
  case (even n)
  then have "2 * n - 1 = 2 * (n - 1) + 1" by simp
  then have "(2 * n) AND (2 * n - 1) = 2 * (n AND (n - 1))" by (simp add: and_rec [of "2 * n"])
  then have "n AND (n - 1) = 0" using even.prems by simp
  then obtain k where "n = 2 ^ k" using even.IH even.hyps by blast
  then have "2 * n = 2 ^ Suc k" by simp
  then show ?case by blast
next
  case (odd n)
  have "Suc (2 * n) AND (Suc (2 * n) - 1) = 2 * n" by (simp add: and_rec [of "Suc (2 * n)"])
  then have "Suc (2 * n) = 2 ^ 0" using odd.prems by simp
  then show ?case by blast
qed simp

lemma pow2_u16:
  assumes "(n :: u16) \<noteq> 0" "n AND (n - 1) = 0"
  shows "\<exists>k \<le> 15. n = 2 ^ k"
proof -
  have "0 < unat n" using assms(1) by (simp add: unat_gt_0)
  moreover have "unat n AND (unat n - 1) = 0"
    using assms by (metis unat_0 unat_minus_one unsigned_and_eq)
  ultimately obtain k where k: "unat n = 2 ^ k" using pow2_nat by blast
  have "unat n < 2 ^ LENGTH(16)" by (rule unsigned_less)
  then have "unat n < 2 ^ 16" by simp
  then have "(2 :: nat) ^ k < 2 ^ 16" using k by simp
  then have "k < 16" by (simp only: power_strict_increasing_iff)
  then have "k \<le> 15" by simp
  moreover have "n = word_of_nat (unat n)" by simp
  then have "n = 2 ^ k" by (simp only: k of_nat_power of_nat_numeral)
  ultimately show ?thesis by blast
qed

lemma unat_pow2_u16: "k \<le> 15 \<Longrightarrow> unat ((2 :: u16) ^ k) = 2 ^ k"
proof -
  assume "k \<le> 15"
  then have "(2 :: nat) ^ k \<le> 2 ^ 15" by (intro power_increasing) auto
  then show "unat ((2 :: u16) ^ k) = 2 ^ k" using unat_of_nat [where 'a = 16, of "2 ^ k"] by simp
qed

lemma ucast_pow2: "k \<le> 15 \<Longrightarrow> (ucast (2 ^ k :: u16) :: u32) = 2 ^ k"
  by (rule word_unat_eq_iff [THEN iffD2]) (simp add: unat_pow2_u16 pow2_u32)

lemma half_pow2: "Suc k \<le> 15 \<Longrightarrow> (2 :: u16) ^ Suc k div 2 = 2 ^ k"
  by (rule word_unat_eq_iff [THEN iffD2]) (simp only: unat_div unat_pow2_u16, simp add: unat_pow2_u16)
section \<open>The contract of the callbacks\<close>

text \<open>
  A view of the system's state: a well-formedness condition, the contiguous pages and the
  non-paged blocks that the library has allocated, and a part that only the passing of time
  changes.
\<close>

record ('s, 'r) system_view =
  sys_ok :: "'s \<Rightarrow> bool"
  sys_pages :: "'s \<Rightarrow> ptr set"
  sys_blocks :: "'s \<Rightarrow> ptr set"
  sys_rest :: "'s \<Rightarrow> 'r"

text \<open>\<open>quiet\<close> steps neither allocate nor free nor touch the memory of rings.\<close>

definition same_rings :: "('o, 's) virtio_system_ops \<Rightarrow> 's \<Rightarrow> 's \<Rightarrow> bool" where
  "same_rings S s s' \<longleftrightarrow> (\<forall>n al p. split_memory S n al p s' = split_memory S n al p s \<and> packed_memory S n p s' = packed_memory S n p s)"

definition quiet :: "('o, 's) virtio_system_ops \<Rightarrow> ('s, 'r) system_view \<Rightarrow> 's \<Rightarrow> 's \<Rightarrow> bool" where
  "quiet S V s s' \<longleftrightarrow> sys_ok V s' \<and> sys_pages V s' = sys_pages V s \<and> sys_blocks V s' = sys_blocks V s \<and> same_rings S s s' \<and>
     sys_rest V s' = sys_rest V s"

definition rings_blank :: "('o, 's) virtio_system_ops \<Rightarrow> ptr \<Rightarrow> 's \<Rightarrow> bool" where
  "rings_blank S p s \<longleftrightarrow> (\<forall>n al. pages_zeroed n (split_memory S n al p s) \<and>
     vring_descs (packed_memory S n p s) = replicate (unat n) zero_packed_desc)"

definition got_pages :: "('o, 's) virtio_system_ops \<Rightarrow> ('s, 'r) system_view \<Rightarrow> ptr \<Rightarrow> 's \<Rightarrow> 's \<Rightarrow> bool" where
  "got_pages S V p s s' \<longleftrightarrow> sys_ok V s' \<and> sys_blocks V s' = sys_blocks V s \<and>
     (if p = 0 then sys_pages V s' = sys_pages V s
      else p \<notin> sys_pages V s \<and> sys_pages V s' = insert p (sys_pages V s) \<and> rings_blank S p s')"

locale virtio_system =
  fixes S :: "('o, 's) virtio_system_ops"
    and V :: "('s, 'r) system_view"
  assumes read_byte: "sys_ok V s \<Longrightarrow> quiet S V s (snd (vdev_read_byte S a s))"
    and read_word: "sys_ok V s \<Longrightarrow> quiet S V s (snd (vdev_read_word S a s))"
    and read_dword: "sys_ok V s \<Longrightarrow> quiet S V s (snd (vdev_read_dword S a s))"
    and write_byte: "sys_ok V s \<Longrightarrow> quiet S V s (vdev_write_byte S a x s)"
    and write_word: "sys_ok V s \<Longrightarrow> quiet S V s (vdev_write_word S a w s)"
    and write_dword: "sys_ok V s \<Longrightarrow> quiet S V s (vdev_write_dword S a d s)"
    and sleep: "sys_ok V s \<Longrightarrow> sys_ok V (vdev_sleep S d s) \<and> sys_pages V (vdev_sleep S d s) = sys_pages V s \<and>
      sys_blocks V (vdev_sleep S d s) = sys_blocks V s"
    and resource: "sys_ok V s \<Longrightarrow> \<exists>len. pci_get_resource_len S bar s = Some len"
    and mapping: "sys_ok V s \<Longrightarrow> \<exists>a s'. pci_map_address_range S bar off len s = Some (a, s') \<and> quiet S V s s'"
    and alloc_pages: "sys_ok V s \<Longrightarrow> \<exists>p s'. mem_alloc_contiguous_pages S len s = Some (p, s') \<and>
      got_pages S V p s s'"
    and alloc_again: "\<lbrakk>sys_ok V s; mem_alloc_contiguous_pages S len s = Some (0, s');
      ROUND_TO_PAGES len' = ROUND_TO_PAGES len\<rbrakk> \<Longrightarrow> \<exists>s''. mem_alloc_contiguous_pages S len' s' = Some (0, s'')"
    and free_pages: "\<lbrakk>sys_ok V s; p \<in> sys_pages V s\<rbrakk> \<Longrightarrow> \<exists>s'. mem_free_contiguous_pages S p s = Some s' \<and>
      sys_ok V s' \<and> sys_blocks V s' = sys_blocks V s \<and> sys_pages V s' = sys_pages V s - {p}"
    and alloc_block: "\<lbrakk>sys_ok V s; mem_alloc_nonpaged_block S len s = (p, s')\<rbrakk> \<Longrightarrow> sys_ok V s' \<and>
      sys_pages V s' = sys_pages V s \<and> same_rings S s s' \<and> sys_rest V s' = sys_rest V s \<and>
      (if p = 0 then sys_blocks V s' = sys_blocks V s
       else p \<notin> sys_blocks V s \<and> sys_blocks V s' = insert p (sys_blocks V s) \<and>
         (\<forall>n. info_memory S p n s' = replicate n \<lparr>qi_vq = 0, qi_num = 0, qi_queue = 0\<rparr>))"
    and free_block: "\<lbrakk>sys_ok V s; p \<in> sys_blocks V s\<rbrakk> \<Longrightarrow> \<exists>s'. mem_free_nonpaged_block S p s = Some s' \<and>
      sys_ok V s' \<and> sys_pages V s' = sys_pages V s \<and> sys_blocks V s' = sys_blocks V s - {p}"
    and null_free: "sys_ok V s \<Longrightarrow> 0 \<notin> sys_pages V s \<and> 0 \<notin> sys_blocks V s"

text \<open>Register access and mappings change the system's state in quiet steps and nothing else.\<close>

definition touches ::
  "('o, 's) virtio_system_ops \<Rightarrow> ('s, 'r) system_view \<Rightarrow> ('o, 's) virtio_device \<Rightarrow> ('o, 's) virtio_device \<Rightarrow> bool" where
  "touches S V vd vd' \<longleftrightarrow> (sys_ok V (vdev_sys vd) \<longrightarrow> (\<exists>s'. vd' = vd\<lparr>vdev_sys := s'\<rparr> \<and> quiet S V (vdev_sys vd) s'))"

lemma quiet_trans: "quiet S V a b \<Longrightarrow> quiet S V b c \<Longrightarrow> quiet S V a c"
  by (simp add: quiet_def same_rings_def)

lemma quiet_refl [simp]: "quiet S V s s = sys_ok V s"
  by (auto simp: quiet_def same_rings_def)

lemma touches_refl [simp]: "touches S V vd vd"
  by (auto simp: touches_def intro!: exI [of _ "vdev_sys vd"])

lemma touches_trans: "touches S V a b \<Longrightarrow> touches S V b c \<Longrightarrow> touches S V a c"
  unfolding touches_def
proof (intro impI)
  assume ab: "sys_ok V (vdev_sys a) \<longrightarrow> (\<exists>s'. b = a\<lparr>vdev_sys := s'\<rparr> \<and> quiet S V (vdev_sys a) s')"
    and bc: "sys_ok V (vdev_sys b) \<longrightarrow> (\<exists>s'. c = b\<lparr>vdev_sys := s'\<rparr> \<and> quiet S V (vdev_sys b) s')"
    and ok: "sys_ok V (vdev_sys a)"
  obtain s where s: "b = a\<lparr>vdev_sys := s\<rparr>" "quiet S V (vdev_sys a) s" using ab ok by blast
  then have "sys_ok V (vdev_sys b)" by (simp add: quiet_def)
  then obtain t where t: "c = b\<lparr>vdev_sys := t\<rparr>" "quiet S V (vdev_sys b) t" using bc by blast
  show "\<exists>s'. c = a\<lparr>vdev_sys := s'\<rparr> \<and> quiet S V (vdev_sys a) s'"
    using s t by (intro exI [of _ t]) (auto intro: quiet_trans)
qed

lemma touchesE:
  assumes "touches S V vd vd'" "sys_ok V (vdev_sys vd)"
  obtains s' where "vd' = vd\<lparr>vdev_sys := s'\<rparr>" "quiet S V (vdev_sys vd) s'"
  using assms by (auto simp: touches_def)

context virtio_system
begin

lemma touches_ioread8 [simp]: "touches S V vd (snd (ioread8 S a vd))"
  using read_byte [of "vdev_sys vd" a] by (auto simp: touches_def ioread8_def split: prod.split)

lemma touches_ioread16 [simp]: "touches S V vd (snd (ioread16 S a vd))"
  using read_word [of "vdev_sys vd" a] by (auto simp: touches_def ioread16_def split: prod.split)

lemma touches_ioread32 [simp]: "touches S V vd (snd (ioread32 S a vd))"
  using read_dword [of "vdev_sys vd" a] by (auto simp: touches_def ioread32_def split: prod.split)

lemma touches_iowrite8 [simp]: "touches S V vd (iowrite8 S v a vd)"
  using write_byte [of "vdev_sys vd" a v] by (auto simp: touches_def iowrite8_def)

lemma touches_iowrite16 [simp]: "touches S V vd (iowrite16 S v a vd)"
  using write_word [of "vdev_sys vd" a v] by (auto simp: touches_def iowrite16_def)

lemma touches_iowrite32 [simp]: "touches S V vd (iowrite32 S v a vd)"
  using write_dword [of "vdev_sys vd" a v] by (auto simp: touches_def iowrite32_def)

lemmas touches_io = touches_ioread8 touches_ioread16 touches_ioread32 touches_iowrite8 touches_iowrite16 touches_iowrite32

lemma touches_iowrite64 [simp]: "touches S V vd (iowrite64_twopart S v lo hi vd)"
  unfolding iowrite64_twopart_def by (rule touches_trans [OF touches_iowrite32 touches_iowrite32])

lemma touches_query: "touches S V vd (snd (snd (vio_modern_query_vq_alloc S i vd)))"
proof -
  obtain m vd1 where 1: "ioread16 S (vdev_common vd + 18) vd = (m, vd1)" by force
  let ?vd2 = "iowrite16 S (ucast i) (vdev_common vd1 + 22) vd1"
  obtain n vd3 where 3: "ioread16 S (vdev_common ?vd2 + 24) ?vd2 = (n, vd3)" by force
  have a: "touches S V vd vd1" using touches_ioread16 [of vd "vdev_common vd + 18"] 1 by simp
  have b: "touches S V vd1 ?vd2" by simp
  have c: "touches S V ?vd2 vd3" using touches_ioread16 [of ?vd2 "vdev_common ?vd2 + 24"] 3 by simp
  show ?thesis
    using a touches_trans [OF a touches_trans [OF b c]]
    by (simp add: vio_modern_query_vq_alloc_def Let_def 1 3)
qed

lemma touches_activate: "touches S V vd (modern_activate S n queue vq vd)"
  unfolding modern_activate_def Let_def
  by (rule touches_trans [OF touches_iowrite16], rule touches_trans [OF touches_iowrite64],
      rule touches_trans [OF touches_iowrite64], rule touches_iowrite64)

lemma touches_map:
  assumes "sys_ok V (vdev_sys vd)"
  obtains a len vd' where "vio_modern_map_capability S cap minlen al start n vd = Some ((a, len), vd')" "touches S V vd vd'"
proof -
  have "\<exists>a len vd'. vio_modern_map_capability S cap minlen al start n vd = Some ((a, len), vd') \<and> touches S V vd vd'"
  proof -
    let ?bar = "uint (snd (pci_read_config_byte S (cap + 4) (vdev_sys vd)))"
    let ?off = "ucast (snd (pci_read_config_dword S (cap + 8) (vdev_sys vd)) + start)"
    let ?len = "snd (pci_read_config_dword S (cap + 12) (vdev_sys vd)) - start"
    obtain r where r: "pci_get_resource_len S ?bar (vdev_sys vd) = Some r" using resource [OF assms] by blast
    obtain a s' where m: "pci_map_address_range S ?bar ?off (ucast (if n < ?len then n else ?len)) (vdev_sys vd) = Some (a, s')"
      "quiet S V (vdev_sys vd) s'" using mapping [OF assms] by blast
    have "touches S V vd (vd\<lparr>vdev_sys := s'\<rparr>)" using m(2) by (auto simp: touches_def)
    then show ?thesis using r m(1) by (simp add: vio_modern_map_capability_def Let_def)
  qed
  then show thesis using that by blast
qed

lemma touches_notification:
  assumes "sys_ok V (vdev_sys vd)"
  obtains st a vd' where "modern_notification_addr S off vd = Some ((st, a), vd')" "touches S V vd vd'"
proof (cases "vdev_notify_base vd = 0")
  case True
  obtain a len vd' where "vio_modern_map_capability S (vdev_notify_map_cap vd) 2 2
      (ucast off * vdev_notify_offset_multiplier vd) 2 vd = Some ((a, len), vd')" "touches S V vd vd'"
    by (rule touches_map [OF assms])
  then show thesis using True by (intro that) (simp_all add: modern_notification_addr_def)
next
  case False
  then have "\<exists>st a. modern_notification_addr S off vd = Some ((st, a), vd)"
    by (simp add: modern_notification_addr_def Let_def)
  then show thesis using that [where vd' = vd] by auto
qed

lemma touches_queue_vector: "touches S V vd (snd (vio_modern_set_queue_vector S i v vd))"
  unfolding vio_modern_set_queue_vector_def Let_def
  by (rule touches_trans [OF touches_iowrite16 touches_trans [OF touches_iowrite16 touches_ioread16]])

lemma touches_config_vector: "touches S V vd (snd (vio_modern_set_config_vector S v vd))"
  unfolding vio_modern_set_config_vector_def by (rule touches_trans [OF touches_iowrite16 touches_ioread16])

end

section \<open>Setting up and deleting a queue\<close>

text \<open>The invariant of a queue's ring, and that nothing is in it.\<close>

definition ring_inv :: "'o vring \<Rightarrow> bool" where
  "ring_inv r = (case r of Split_queue q \<Rightarrow> split_inv q | Packed_queue q \<Rightarrow> packed_inv q)"

definition ring_fresh :: "'o vring \<Rightarrow> bool" where
  "ring_fresh r = (case r of Split_queue q \<Rightarrow> split_inv q \<and> split_inflight q = {#} \<and> split_pending q = []
     | Packed_queue q \<Rightarrow> packed_inv q \<and> packed_inflight q = {#} \<and> packed_pending q = [])"

lemma ring_fresh_inv: "ring_fresh r \<Longrightarrow> ring_inv r"
  by (cases r) (simp_all add: ring_fresh_def ring_inv_def)

lemma query_facts:
  assumes "vio_modern_query_vq_alloc S i vd = (status, (n, rs, hs), vd')" "NT_SUCCESS status"
  shows "\<exists>k \<le> 15. n = 2 ^ k"
proof -
  have "n \<noteq> 0 \<and> n AND (n - 1) = 0"
    using assms by (auto simp: vio_modern_query_vq_alloc_def Let_def split: prod.splits if_splits)
  then show ?thesis using pow2_u16 by blast
qed

lemma shutdown_ring_total:
  assumes "ring_inv (vqo_ring x)" "vdev_vqs vd vq = Some x"
  shows "\<exists>r. virtqueue_shutdown vq vd = Some (vd\<lparr>vdev_vqs := (vdev_vqs vd)(vq \<mapsto> x\<lparr>vqo_ring := r\<rparr>)\<rparr>) \<and> ring_inv r"
proof (cases "vqo_ring x")
  case (Split_queue q)
  then obtain k where k: "num q = 2 ^ k" "k \<le> 15"
    using assms(1) by (auto simp: ring_inv_def split_inv_def split_rel_def)
  have "pages_zeroed (num q) (zero_pages q)" by (simp add: pages_zeroed_def zero_pages_def)
  from vring_new_ok [OF k this] obtain q' where "vring_new_virtqueue_split (num q) (zero_pages q) = Some (Some q')" "split_inv q'"
    by blast
  then show ?thesis using Split_queue assms(2)
    by (intro exI [of _ "Split_queue q'"]) (simp add: virtqueue_shutdown_def virtqueue_shutdown_split_def ring_inv_def)
next
  case (Packed_queue q)
  then have n: "0 < unat (vring_num q)" "unat (vring_num q) \<le> 0x8000"
    using assms(1) by (auto simp: ring_inv_def packed_inv_def packed_ids_def)
  let ?q = "q\<lparr>vring_descs := replicate (unat (vring_num q)) zero_packed_desc, driver_off_wrap := 0,
          driver_flags := 0, device_off_wrap := 0, device_flags := 0\<rparr>"
  have "vring_num q \<noteq> 0" using n(1) by auto
  then obtain q' where q': "vring_new_virtqueue_packed (vring_num q) ?q = Some q'"
    by (simp add: vring_new_virtqueue_packed_def)
  have "packed_inv q'" using vring_new_packed_ok [OF n _ q'] by simp
  then show ?thesis using Packed_queue assms(2) q'
    by (intro exI [of _ "Packed_queue q'"]) (simp add: virtqueue_shutdown_def virtqueue_shutdown_packed_def ring_inv_def)
qed

lemma vring_pci_size_min: "ROUND_TO_PAGES (vring_pci_size 1 p) = ROUND_TO_PAGES (vring_pci_size 0 p)"
  by (cases p) (simp_all add: vring_pci_size_def vring_size_def vring_size_split_def vring_size_packed_def ROUND_TO_PAGES_def)

context virtio_system
begin

lemma alloc_ring_ok:
  assumes "sys_ok V (vdev_sys vd)" "k \<le> 15"
  shows "\<exists>p n s'. alloc_ring_pages S (2 ^ k) vd = Some ((p, n), vd\<lparr>vdev_sys := s'\<rparr>) \<and>
    got_pages S V p (vdev_sys vd) s' \<and> (p \<noteq> 0 \<longrightarrow> (\<exists>k \<le> 15. n = 2 ^ k))"
  using assms
proof (induction k arbitrary: vd)
  case 0
  obtain p s' where a: "mem_alloc_contiguous_pages S (vring_pci_size 1 (vdev_packed_ring vd)) (vdev_sys vd) = Some (p, s')"
    "got_pages S V p (vdev_sys vd) s'"
    using alloc_pages [OF 0(1)] by blast
  show ?case
  proof (cases "p = 0")
    case True
    obtain s'' where b: "mem_alloc_contiguous_pages S (vring_pci_size 0 (vdev_packed_ring vd)) s' = Some (0, s'')"
      using alloc_again [OF 0(1) a(1) [unfolded True] vring_pci_size_min [symmetric]] by blast
    have "sys_ok V s'" using a(2) by (simp add: got_pages_def)
    then have "got_pages S V 0 s' s''"
      using alloc_pages [of s' "vring_pci_size 0 (vdev_packed_ring vd)"] b by auto
    then have "got_pages S V 0 (vdev_sys vd) s''" using a(2) True by (simp add: got_pages_def)
    moreover have "alloc_ring_pages S 1 vd = Some ((0, 0), vd\<lparr>vdev_sys := s''\<rparr>)"
      using a(1) b True by (simp add: alloc_ring_pages.simps [of S 1] alloc_ring_pages.simps [of S 0])
    ultimately show ?thesis by (intro exI [of _ 0] exI [of _ 0] exI [of _ s'']) simp
  next
    case False
    then have "alloc_ring_pages S 1 vd = Some ((p, 1), vd\<lparr>vdev_sys := s'\<rparr>)"
      using a(1) by (simp add: alloc_ring_pages.simps [of S 1])
    moreover have "\<exists>j \<le> 15. (1 :: u16) = 2 ^ j" by (rule exI [of _ 0]) simp
    ultimately show ?thesis using a(2) by (intro exI [of _ p] exI [of _ 1] exI [of _ s']) simp
  qed
next
  case (Suc k)
  obtain p s' where a: "mem_alloc_contiguous_pages S (vring_pci_size (2 ^ Suc k) (vdev_packed_ring vd)) (vdev_sys vd) = Some (p, s')"
    "got_pages S V p (vdev_sys vd) s'"
    using alloc_pages [OF Suc.prems(1)] by blast
  have pos: "0 < (2 :: u16) ^ Suc k" using unat_pow2_u16 [OF Suc.prems(2)] by (simp add: word_less_nat_alt)
  show ?case
  proof (cases "p = 0")
    case True
    have "alloc_ring_pages S (2 ^ Suc k) vd = alloc_ring_pages S (2 ^ k) (vd\<lparr>vdev_sys := s'\<rparr>)"
      by (subst alloc_ring_pages.simps) (simp only: a(1) True half_pow2 [OF Suc.prems(2)] pos, simp)
    moreover obtain p2 n2 s2 where A: "alloc_ring_pages S (2 ^ k) (vd\<lparr>vdev_sys := s'\<rparr>) = Some ((p2, n2), vd\<lparr>vdev_sys := s2\<rparr>)"
      "got_pages S V p2 s' s2" "p2 \<noteq> 0 \<longrightarrow> (\<exists>k \<le> 15. n2 = 2 ^ k)"
      using Suc.IH [of "vd\<lparr>vdev_sys := s'\<rparr>"] Suc.prems(2) a(2) by (auto simp: got_pages_def [of S V p "vdev_sys vd"])
    moreover have "got_pages S V p2 (vdev_sys vd) s2" using A(2) a(2) True by (simp add: got_pages_def split: if_splits)
    ultimately show ?thesis by (intro exI [of _ p2] exI [of _ n2] exI [of _ s2]) simp
  next
    case False
    have "alloc_ring_pages S (2 ^ Suc k) vd = Some ((p, 2 ^ Suc k), vd\<lparr>vdev_sys := s'\<rparr>)"
      by (subst alloc_ring_pages.simps) (simp only: a(1), simp add: False)
    moreover have "\<exists>j \<le> 15. (2 :: u16) ^ Suc k = 2 ^ j" using Suc.prems(2) by blast
    ultimately show ?thesis using a(2) by (intro exI [of _ p] exI [of _ "2 ^ Suc k"] exI [of _ s']) simp
  qed
qed

end

context virtio_system
begin

lemma new_queue_ok:
  assumes "k \<le> 15" "rings_blank S queue (vdev_sys vd)"
  shows "\<exists>x. (if vdev_packed_ring vd then new_virtqueue_packed S i (2 ^ k) queue vd
       else new_virtqueue_split S i (2 ^ k) al queue vd) = Some (Some x) \<and> vqo_index x = i \<and> ring_fresh (vqo_ring x) \<and>
     (vdev_packed_ring vd \<longleftrightarrow> (\<exists>q. vqo_ring x = Packed_queue q))"
proof -
  have u: "unat (2 ^ k :: u32) = 2 ^ k" "(2 :: nat) ^ k \<le> 0x8000" "unat (ucast ((2 :: u16) ^ k) :: u32) = 2 ^ k"
    using assms(1) pow2_u32 unat_pow2_u16 power_increasing [OF assms(1), of "2 :: nat"] by simp_all
  show ?thesis
  proof (cases "vdev_packed_ring vd")
    case True
    let ?q = "(packed_memory S (ucast ((2 :: u16) ^ k)) queue (vdev_sys vd))\<lparr>packed_event_suppression := vdev_event_suppression_enabled vd\<rparr>"
    have "ucast ((2 :: u16) ^ k) \<noteq> (0 :: u32)"
    proof
      assume "ucast ((2 :: u16) ^ k) = (0 :: u32)"
      then have "(2 :: nat) ^ k = 0" using u(3) by simp
      then show False by simp
    qed
    then obtain q where q: "vring_new_virtqueue_packed (ucast ((2 :: u16) ^ k)) ?q = Some q"
      by (simp add: vring_new_virtqueue_packed_def)
    have "vring_descs ?q = replicate (unat (ucast ((2 :: u16) ^ k) :: u32)) zero_packed_desc"
      using assms(2) by (simp add: rings_blank_def)
    from vring_new_packed_ok [OF _ _ this q] have "packed_inv q \<and> packed_inflight q = {#} \<and> packed_pending q = []"
      using u by simp
    then show ?thesis using True q by (simp add: new_virtqueue_packed_def ring_fresh_def)
  next
    case False
    let ?q = "(split_memory S (ucast ((2 :: u16) ^ k)) al queue (vdev_sys vd))\<lparr>event_suppression := vdev_event_suppression_enabled vd\<rparr>"
    have "pages_zeroed (ucast ((2 :: u16) ^ k)) ?q" using assms(2) by (simp add: rings_blank_def pages_zeroed_def)
    from vring_new_ok [OF ucast_pow2 [OF assms(1)] assms(1) this] obtain q where
      "vring_new_virtqueue_split (ucast ((2 :: u16) ^ k)) ?q = Some (Some q)"
      "split_inv q" "split_inflight q = {#}" "split_pending q = []" by blast
    then show ?thesis using False by (simp add: new_virtqueue_split_def ring_fresh_def)
  qed
qed

lemma discard_ok:
  assumes "sys_ok V (vdev_sys vd)" "vq \<in> sys_blocks V (vdev_sys vd)" "queue \<in> sys_pages V (vdev_sys vd)"
  shows "\<exists>s'. modern_discard S vq queue vd = Some (vd\<lparr>vdev_sys := s', vdev_vqs := (vdev_vqs vd)(vq := None)\<rparr>) \<and>
    sys_ok V s' \<and> sys_pages V s' = sys_pages V (vdev_sys vd) - {queue} \<and> sys_blocks V s' = sys_blocks V (vdev_sys vd) - {vq}"
proof -
  obtain s1 where 1: "mem_free_nonpaged_block S vq (vdev_sys vd) = Some s1" "sys_ok V s1"
    "sys_pages V s1 = sys_pages V (vdev_sys vd)" "sys_blocks V s1 = sys_blocks V (vdev_sys vd) - {vq}"
    using free_block [OF assms(1,2)] by blast
  obtain s2 where 2: "mem_free_contiguous_pages S queue s1 = Some s2" "sys_ok V s2"
    "sys_blocks V s2 = sys_blocks V s1" "sys_pages V s2 = sys_pages V s1 - {queue}"
    using free_pages [OF 1(2), of queue] assms(3) 1(3) by auto
  show ?thesis using 1 2 by (intro exI [of _ s2]) (simp add: modern_discard_def free_block_def free_pages_def)
qed

lemma enable_vq_ok:
  assumes "sys_ok V (vdev_sys vd)" "vq \<in> sys_blocks V (vdev_sys vd)" "queue \<in> sys_pages V (vdev_sys vd)"
    "ring_fresh (vqo_ring x)" "vdev_vqs vd vq = None"
  obtains (fail) status s' where
      "modern_enable_vq S i n off msix_vec vq queue x vd = Some ((status, 0), vd\<lparr>vdev_sys := s'\<rparr>)"
      "\<not> NT_SUCCESS status" "sys_ok V s'" "sys_pages V s' = sys_pages V (vdev_sys vd) - {queue}"
      "sys_blocks V s' = sys_blocks V (vdev_sys vd) - {vq}"
  | (ok) s' a where
      "modern_enable_vq S i n off msix_vec vq queue x vd = Some ((STATUS_SUCCESS, vq), vd\<lparr>vdev_sys := s',
         vdev_vqs := (vdev_vqs vd)(vq \<mapsto> x\<lparr>vqo_notification_addr := a\<rparr>)\<rparr>)"
      "quiet S V (vdev_sys vd) s'"
proof -
  let ?vd0 = "vd\<lparr>vdev_vqs := (vdev_vqs vd)(vq \<mapsto> x)\<rparr>"
  have ok0: "sys_ok V (vdev_sys ?vd0)" using assms(1) by simp
  obtain vd1 where 1: "modern_activate S n queue x ?vd0 = vd1" by simp
  obtain s1 where s1: "vd1 = ?vd0\<lparr>vdev_sys := s1\<rparr>" "quiet S V (vdev_sys vd) s1"
    by (rule touchesE [OF touches_activate ok0, of n queue x]) (simp add: 1)
  have ok1: "sys_ok V (vdev_sys vd1)" using s1 by (simp add: quiet_def)
  obtain st a vd2 where 2: "modern_notification_addr S off vd1 = Some ((st, a), vd2)" "touches S V vd1 vd2"
    using touches_notification [OF ok1] .
  obtain s2 where s2: "vd2 = vd1\<lparr>vdev_sys := s2\<rparr>" "quiet S V (vdev_sys vd1) s2" by (rule touchesE [OF 2(2) ok1])
  let ?x = "x\<lparr>vqo_notification_addr := a\<rparr>"
  obtain vd3 where 3: "vd2\<lparr>vdev_vqs := (vdev_vqs vd2)(vq \<mapsto> ?x)\<rparr> = vd3" by simp
  have v3: "vd3 = vd\<lparr>vdev_sys := s2, vdev_vqs := (vdev_vqs vd)(vq \<mapsto> ?x)\<rparr>" using 3 s1(1) s2(1) by simp
  have ok3: "sys_ok V (vdev_sys vd3)" using s2(2) v3 by (simp add: quiet_def)
  obtain vec vd4 where 4: "(if NT_SUCCESS st \<and> msix_vec \<noteq> VIRTIO_MSI_NO_VECTOR
        then vio_modern_set_queue_vector S i msix_vec vd3 else (msix_vec, vd3)) = (vec, vd4)" by force
  have t4: "touches S V vd3 vd4"
    using touches_queue_vector [of vd3 i msix_vec] 4 by (auto split: if_splits)
  obtain s4 where s4: "vd4 = vd3\<lparr>vdev_sys := s4\<rparr>" "quiet S V (vdev_sys vd3) s4" by (rule touchesE [OF t4 ok3])
  have v4: "vd4 = vd\<lparr>vdev_sys := s4, vdev_vqs := (vdev_vqs vd)(vq \<mapsto> ?x)\<rparr>" using s4(1) v3 by simp
  have q4: "quiet S V (vdev_sys vd) s4"
    using s1 s2 s4(2) v3 by (auto intro: quiet_trans)
  let ?st = "if NT_SUCCESS st \<and> msix_vec \<noteq> VIRTIO_MSI_NO_VECTOR \<and> vec = VIRTIO_MSI_NO_VECTOR then STATUS_DEVICE_BUSY else st"
  have steps: "modern_enable_vq S i n off msix_vec vq queue x vd =
      (if \<not> NT_SUCCESS ?st then do {
         vd \<leftarrow> virtqueue_shutdown vq vd4;
         vd \<leftarrow> modern_discard S vq queue vd;
         Some ((?st, 0), vd)
       }
       else Some ((STATUS_SUCCESS, vq), iowrite16 S 1 (vdev_common vd4 + 28) vd4))"
    by (simp only: modern_enable_vq_def Let_def 1 2(1) Option.bind.simps prod.case 3 4)
  show thesis
  proof (cases "NT_SUCCESS ?st")
    case True
    let ?vd5 = "iowrite16 S 1 (vdev_common vd4 + 28) vd4"
    have ok4: "sys_ok V (vdev_sys vd4)" using s4 by (simp add: quiet_def)
    obtain s5 where s5: "?vd5 = vd4\<lparr>vdev_sys := s5\<rparr>" "quiet S V s4 s5"
      by (rule touchesE [OF touches_iowrite16 ok4]) (use v4 in simp)
    have "modern_enable_vq S i n off msix_vec vq queue x vd = Some ((STATUS_SUCCESS, vq), ?vd5)"
      using True unfolding steps by simp
    then show thesis using s5 v4 q4 by (intro ok [where s' = s5 and a = a]) (auto intro: quiet_trans)
  next
    case False
    have "vdev_vqs vd4 vq = Some ?x" using v4 by simp
    from shutdown_ring_total [OF _ this] obtain r where
      r: "virtqueue_shutdown vq vd4 = Some (vd4\<lparr>vdev_vqs := (vdev_vqs vd4)(vq \<mapsto> ?x\<lparr>vqo_ring := r\<rparr>)\<rparr>)"
      using assms(4) ring_fresh_inv by auto
    let ?vd5 = "vd4\<lparr>vdev_vqs := (vdev_vqs vd4)(vq \<mapsto> ?x\<lparr>vqo_ring := r\<rparr>)\<rparr>"
    obtain s6 where 6: "modern_discard S vq queue ?vd5 = Some (?vd5\<lparr>vdev_sys := s6, vdev_vqs := (vdev_vqs ?vd5)(vq := None)\<rparr>)"
      "sys_ok V s6" "sys_pages V s6 = sys_pages V (vdev_sys vd) - {queue}" "sys_blocks V s6 = sys_blocks V (vdev_sys vd) - {vq}"
      using discard_ok [of ?vd5 vq queue] assms(2,3) q4 v4 by (auto simp: quiet_def)
    have "?vd5\<lparr>vdev_sys := s6, vdev_vqs := (vdev_vqs ?vd5)(vq := None)\<rparr> = vd\<lparr>vdev_sys := s6, vdev_vqs := (vdev_vqs vd)(vq := None)\<rparr>"
      using v4 by simp
    also have "\<dots> = vd\<lparr>vdev_sys := s6\<rparr>" using assms(5) by (cases vd) (simp add: fun_upd_idem)
    finally have "modern_enable_vq S i n off msix_vec vq queue x vd = Some ((?st, 0), vd\<lparr>vdev_sys := s6\<rparr>)"
      using False r 6(1) unfolding steps by simp
    then show thesis using False 6(2-4) by (rule fail)
  qed
qed

text \<open>
  Setting up a queue either makes one ring and one control block, or fails and leaves the
  memory as it was, except for the pages of the ring when it is the allocation of the control
  block that fails.
\<close>

lemma setup_vq_ok:
  assumes "sys_ok V (vdev_sys vd)" "vdev_info vd = Some infos" "unat i < length infos"
    "dom (vdev_vqs vd) \<subseteq> sys_blocks V (vdev_sys vd)"
  obtains (fail) status s' y where
      "vio_modern_setup_vq S i msix_vec vd = Some ((status, 0), vd\<lparr>vdev_sys := s', vdev_info := Some (infos[unat i := y])\<rparr>)"
      "\<not> NT_SUCCESS status" "sys_ok V s'" "qi_vq y = qi_vq (infos ! unat i)"
      "sys_blocks V s' = sys_blocks V (vdev_sys vd)"
      "sys_pages V s' = sys_pages V (vdev_sys vd) \<or> status = STATUS_INSUFFICIENT_RESOURCES \<and>
         (\<exists>q. q \<notin> sys_pages V (vdev_sys vd) \<and> sys_pages V s' = insert q (sys_pages V (vdev_sys vd)))"
  | (ok) s' vq q n x where
      "vio_modern_setup_vq S i msix_vec vd = Some ((STATUS_SUCCESS, vq), vd\<lparr>vdev_sys := s',
         vdev_info := Some (infos[unat i := (infos ! unat i)\<lparr>qi_num := n, qi_queue := q\<rparr>]),
         vdev_vqs := (vdev_vqs vd)(vq \<mapsto> x)\<rparr>)"
      "sys_ok V s'" "vq \<noteq> 0" "vq \<notin> sys_blocks V (vdev_sys vd)" "sys_blocks V s' = insert vq (sys_blocks V (vdev_sys vd))"
      "q \<noteq> 0" "q \<notin> sys_pages V (vdev_sys vd)" "sys_pages V s' = insert q (sys_pages V (vdev_sys vd))"
      "vqo_index x = i" "ring_fresh (vqo_ring x)" "vdev_packed_ring vd \<longleftrightarrow> (\<exists>q. vqo_ring x = Packed_queue q)"
      "\<exists>k \<le> 15. n = 2 ^ k"
proof -
  let ?s = "vdev_sys vd"
  obtain st n rs hs vd1 where q: "vio_modern_query_vq_alloc S i vd = (st, (n, rs, hs), vd1)" by (metis surj_pair)
  obtain s1 where v1: "vd1 = vd\<lparr>vdev_sys := s1\<rparr>" "quiet S V ?s s1"
    using touches_query [of vd i] q by (elim touchesE [OF _ assms(1)]) simp
  have same: "vd\<lparr>vdev_sys := s, vdev_info := Some infos\<rparr> = vd\<lparr>vdev_sys := s\<rparr>" for s
    using assms(2) by (cases vd) simp
  show thesis
  proof (cases "NT_SUCCESS st")
    case False
    then have "vio_modern_setup_vq S i msix_vec vd = Some ((st, 0), vd\<lparr>vdev_sys := s1\<rparr>)"
      using q v1(1) by (simp add: vio_modern_setup_vq_def)
    then show thesis using False v1(2) by (intro fail [where y = "infos ! unat i" and status = st and s' = s1]) (simp_all add: same quiet_def)
  next
    case st: True
    obtain k where k: "k \<le> 15" "n = 2 ^ k" using query_facts [OF q st] by blast
    obtain off vd2 where r: "ioread16 S (vdev_common vd1 + 30) vd1 = (off, vd2)" by force
    obtain s2 where v2: "vd2 = vd\<lparr>vdev_sys := s2\<rparr>" "quiet S V ?s s2"
    proof -
      have "touches S V vd vd2"
        using touches_trans [OF _ touches_ioread16, of vd vd1 "vdev_common vd1 + 30"] touches_query [of vd i] q r by simp
      then show ?thesis using that by (elim touchesE [OF _ assms(1)])
    qed
    have ok2: "sys_ok V (vdev_sys vd2)" using v2 by (simp add: quiet_def)
    obtain queue n' s3 where al: "alloc_ring_pages S n vd2 = Some ((queue, n'), vd2\<lparr>vdev_sys := s3\<rparr>)"
      "got_pages S V queue (vdev_sys vd2) s3" "queue \<noteq> 0 \<Longrightarrow> \<exists>k \<le> 15. n' = 2 ^ k"
      using alloc_ring_ok [OF ok2 k(1)] k(2) by blast
    have g: "sys_ok V s3" "sys_blocks V s3 = sys_blocks V ?s"
      "queue = 0 \<Longrightarrow> sys_pages V s3 = sys_pages V ?s"
      "queue \<noteq> 0 \<Longrightarrow> queue \<notin> sys_pages V ?s \<and> sys_pages V s3 = insert queue (sys_pages V ?s) \<and> rings_blank S queue s3"
      using al(2) v2 by (simp_all add: got_pages_def quiet_def)
    let ?y = "(infos ! unat i)\<lparr>qi_num := n', qi_queue := queue\<rparr>"
    obtain vd4 where v4: "vd4 = vd\<lparr>vdev_sys := s3, vdev_info := Some (infos[unat i := ?y])\<rparr>" by simp
    have si: "set_info i (\<lambda>i. i\<lparr>qi_num := n', qi_queue := queue\<rparr>) (vd2\<lparr>vdev_sys := s3\<rparr>) = Some vd4"
      using assms(2,3) v2(1) v4 by (simp add: set_info_def read_at_def)
    note pre = q r st al(1) si
    show thesis
    proof (cases "queue = 0")
      case True
      then have "vio_modern_setup_vq S i msix_vec vd = Some ((STATUS_INSUFFICIENT_RESOURCES, 0), vd4)"
        using pre by (simp add: vio_modern_setup_vq_def)
      then show thesis using True g unfolding v4 by (intro fail [where y = ?y and s' = s3 and status = STATUS_INSUFFICIENT_RESOURCES]) simp_all
    next
      case queue: False
      obtain vq s5 where b: "mem_alloc_nonpaged_block S (ucast hs) (vdev_sys vd4) = (vq, s5)" by force
      note B = alloc_block [OF _ b]
      have okb: "sys_ok V (vdev_sys vd4)" using v4 g by simp
      obtain vd5 where v5: "vd5 = vd4\<lparr>vdev_sys := s5\<rparr>" by simp
      show thesis
      proof (cases "vq = 0")
        case True
        then have "vio_modern_setup_vq S i msix_vec vd = Some ((STATUS_INSUFFICIENT_RESOURCES, 0), vd5)"
          using pre b queue v5 by (simp add: vio_modern_setup_vq_def)
        moreover have "sys_ok V s5" "sys_pages V s5 = insert queue (sys_pages V ?s)" "sys_blocks V s5 = sys_blocks V ?s"
          using B [OF okb] True g queue v4 by simp_all
        ultimately show thesis using g(4) [OF queue] unfolding v5 v4
          by (intro fail [where y = ?y and s' = s5 and status = STATUS_INSUFFICIENT_RESOURCES]) auto
      next
        case vq: False
        have s5: "sys_ok V s5" "sys_pages V s5 = insert queue (sys_pages V ?s)" "vq \<notin> sys_blocks V ?s"
          "sys_blocks V s5 = insert vq (sys_blocks V ?s)" "rings_blank S queue s5" "queue \<notin> sys_pages V ?s"
          using B [OF okb] vq g queue v4 by (auto simp: rings_blank_def same_rings_def)
        obtain k' where k': "k' \<le> 15" "n' = 2 ^ k'" using al(3) [OF queue] by blast
        have pk: "vdev_packed_ring vd5 = vdev_packed_ring vd" "vdev_vqs vd5 = vdev_vqs vd" using v5 v4 by simp_all
        have pk4: "vdev_packed_ring vd4 = vdev_packed_ring vd5" using v5 by simp
        have rb: "rings_blank S queue (vdev_sys vd5)" using s5(5) v5 by simp
        obtain x where x: "(if vdev_packed_ring vd5 then new_virtqueue_packed S i n' queue vd5
             else new_virtqueue_split S i n' (ucast SMP_CACHE_BYTES) queue vd5) = Some (Some x)"
          "vqo_index x = i" "ring_fresh (vqo_ring x)" "vdev_packed_ring vd \<longleftrightarrow> (\<exists>q. vqo_ring x = Packed_queue q)"
          using new_queue_ok [OF k'(1) rb, of i "ucast SMP_CACHE_BYTES"] unfolding pk(1) k'(2) by blast
        have e: "sys_ok V (vdev_sys vd5)" "vq \<in> sys_blocks V (vdev_sys vd5)" "queue \<in> sys_pages V (vdev_sys vd5)" "vdev_vqs vd5 vq = None"
          using s5 v5 assms(4) pk by auto
        have su: "vio_modern_setup_vq S i msix_vec vd = modern_enable_vq S i n' off msix_vec vq queue x vd5"
          using pre b queue vq x(1) pk4
          by (cases "vdev_packed_ring vd5") (simp_all add: vio_modern_setup_vq_def Let_def v5 [symmetric])
        from e(1-3) x(3) e(4) show thesis
        proof (cases rule: enable_vq_ok [where n = n' and i = i and off = off and msix_vec = msix_vec])
          case (fail status s')
          then show thesis using s5 su v5 v4
            by (intro that(1) [where status = status and s' = s' and y = ?y]) simp_all
        next
          case (ok s' a)
          then show thesis using s5 su v5 v4 vq queue x k' pk
            by (intro that(2) [where s' = s' and vq = vq and q = queue and n = n' and x = "x\<lparr>vqo_notification_addr := a\<rparr>"])
              (auto simp: quiet_def)
        qed
      qed
    qed
  qed
qed

end

section \<open>The queues of a device\<close>

definition vq_infos :: "('o, 's) virtio_device \<Rightarrow> virtio_queue_info list" where
  "vq_infos vd = (case vdev_info vd of None \<Rightarrow> [] | Some infos \<Rightarrow> infos)"

definition active :: "('o, 's) virtio_device \<Rightarrow> nat set" where
  "active vd = {i. i < length (vq_infos vd) \<and> qi_vq (vq_infos vd ! i) \<noteq> 0}"

definition queue_pages :: "('o, 's) virtio_device \<Rightarrow> ptr set" where
  "queue_pages vd = (\<lambda>i. qi_queue (vq_infos vd ! i)) ` active vd"

text \<open>
  The table of queues is well-formed: it has \<open>maxQueues\<close> entries, the live queue objects are
  those of its entries, each under its own index, no two entries share a queue or a ring.
\<close>

definition queues_wf :: "('o, 's) virtio_device \<Rightarrow> bool" where
  "queues_wf vd \<longleftrightarrow> vdev_info vd \<noteq> None \<and> length (vq_infos vd) = unat (vdev_maxQueues vd) \<and>
     (\<forall>i \<in> active vd. \<exists>x. vdev_vqs vd (qi_vq (vq_infos vd ! i)) = Some x \<and> vqo_index x = word_of_nat i \<and> ring_inv (vqo_ring x)) \<and>
     inj_on (\<lambda>i. qi_vq (vq_infos vd ! i)) (active vd) \<and> inj_on (\<lambda>i. qi_queue (vq_infos vd ! i)) (active vd) \<and>
     dom (vdev_vqs vd) = (\<lambda>i. qi_vq (vq_infos vd ! i)) ` active vd"

text \<open>The pages \<open>P\<close> and blocks \<open>B\<close> are allocated for other ends, the table among them.\<close>

definition transport_inv :: "('s, 'r) system_view \<Rightarrow> ptr set \<Rightarrow> ptr set \<Rightarrow> ('o, 's) virtio_device \<Rightarrow> bool" where
  "transport_inv V P B vd \<longleftrightarrow> sys_ok V (vdev_sys vd) \<and> vdev_device vd = Some Modern \<and> queues_wf vd \<and>
     sys_pages V (vdev_sys vd) = P \<union> queue_pages vd \<and> P \<inter> queue_pages vd = {} \<and>
     sys_blocks V (vdev_sys vd) = B \<union> dom (vdev_vqs vd) \<and> B \<inter> dom (vdev_vqs vd) = {} \<and>
     (vdev_info_block vd = 0 \<or> vdev_info_block vd \<in> B)"

lemma transport_invD:
  assumes "transport_inv V P B vd"
  shows "sys_ok V (vdev_sys vd)" "vdev_device vd = Some Modern" "queues_wf vd"
    "sys_pages V (vdev_sys vd) = P \<union> queue_pages vd" "P \<inter> queue_pages vd = {}"
    "sys_blocks V (vdev_sys vd) = B \<union> dom (vdev_vqs vd)" "B \<inter> dom (vdev_vqs vd) = {}"
    "vdev_info_block vd = 0 \<or> vdev_info_block vd \<in> B" "vdev_info vd = Some (vq_infos vd)"
    "length (vq_infos vd) = unat (vdev_maxQueues vd)" "finite (active vd)"
proof -
  show "sys_ok V (vdev_sys vd)" "vdev_device vd = Some Modern" "queues_wf vd"
    "sys_pages V (vdev_sys vd) = P \<union> queue_pages vd" "P \<inter> queue_pages vd = {}"
    "sys_blocks V (vdev_sys vd) = B \<union> dom (vdev_vqs vd)" "B \<inter> dom (vdev_vqs vd) = {}"
    "vdev_info_block vd = 0 \<or> vdev_info_block vd \<in> B"
    using assms unfolding transport_inv_def by blast+
  then show "vdev_info vd = Some (vq_infos vd)" "length (vq_infos vd) = unat (vdev_maxQueues vd)"
    by (auto simp: queues_wf_def vq_infos_def)
qed (simp add: active_def)

text \<open>What the operations on queues change.\<close>

definition queue_step :: "('o, 's) virtio_device \<Rightarrow> ('o, 's) virtio_device \<Rightarrow> bool" where
  "queue_step vd vd' \<longleftrightarrow> vd' = vd\<lparr>vdev_sys := vdev_sys vd', vdev_info := vdev_info vd', vdev_vqs := vdev_vqs vd'\<rparr>"

lemma queue_step_refl [simp]: "queue_step vd vd"
  by (simp add: queue_step_def)

lemma queue_step_fields:
  assumes "queue_step vd vd'"
  shows "vdev_packed_ring vd' = vdev_packed_ring vd" "vdev_maxQueues vd' = vdev_maxQueues vd" "vdev_device vd' = vdev_device vd"
    "vdev_event_suppression_enabled vd' = vdev_event_suppression_enabled vd" "vdev_info_block vd' = vdev_info_block vd"
    "vdev_common vd' = vdev_common vd"
  by (subst assms [unfolded queue_step_def], simp)+

lemma queue_step_trans: "queue_step a b \<Longrightarrow> queue_step b c \<Longrightarrow> queue_step a c"
  unfolding queue_step_def by (cases a; cases b; cases c) simp

lemma sys_update [simp]:
  "vq_infos (vd\<lparr>vdev_sys := s\<rparr>) = vq_infos vd" "active (vd\<lparr>vdev_sys := s\<rparr>) = active vd"
  "queue_pages (vd\<lparr>vdev_sys := s\<rparr>) = queue_pages vd" "queues_wf (vd\<lparr>vdev_sys := s\<rparr>) = queues_wf vd"
  by (simp_all add: queues_wf_def active_def vq_infos_def queue_pages_def)

lemma transport_inv_sys:
  assumes "transport_inv V P B vd" "quiet S V (vdev_sys vd) s'"
  shows "transport_inv V P B (vd\<lparr>vdev_sys := s'\<rparr>)"
  using assms by (simp add: transport_inv_def quiet_def)

lemma active_update:
  assumes "i < length infos" "vdev_info vd = Some infos"
  shows "active (vd\<lparr>vdev_info := Some (infos[i := y])\<rparr>) = (if qi_vq y = 0 then active vd - {i} else insert i (active vd))"
  using assms by (auto simp: active_def vq_infos_def nth_list_update)

lemma transport_inv_fail:
  assumes "transport_inv V P B vd" "i < length (vq_infos vd)" "i \<notin> active vd" "qi_vq y = 0"
    "sys_ok V s'" "sys_pages V s' = Q \<union> sys_pages V (vdev_sys vd)" "Q \<inter> sys_pages V (vdev_sys vd) = {}"
    "sys_blocks V s' = sys_blocks V (vdev_sys vd)"
  shows "transport_inv V (P \<union> Q) B (vd\<lparr>vdev_sys := s', vdev_info := Some ((vq_infos vd)[i := y])\<rparr>)"
    (is "transport_inv V _ B ?vd")
proof -
  note d = transport_invD [OF assms(1)]
  have info: "vq_infos ?vd = (vq_infos vd)[i := y]" by (simp add: vq_infos_def)
  have a: "active ?vd = active vd" using active_update [OF assms(2) d(9), of y] assms(3,4) by (simp add: active_def vq_infos_def)
  have n: "vq_infos ?vd ! j = vq_infos vd ! j" if "j \<in> active vd" for j
    using that assms(3) by (simp add: info) (metis nth_list_update_neq)
  have qp: "queue_pages ?vd = queue_pages vd" unfolding queue_pages_def a using n by (intro image_cong) simp_all
  have im: "(\<lambda>i. qi_vq (vq_infos ?vd ! i)) ` active vd = (\<lambda>i. qi_vq (vq_infos vd ! i)) ` active vd"
    using n by (intro image_cong) simp_all
  have inj: "inj_on (\<lambda>i. qi_vq (vq_infos ?vd ! i)) (active vd) = inj_on (\<lambda>i. qi_vq (vq_infos vd ! i)) (active vd)"
    "inj_on (\<lambda>i. qi_queue (vq_infos ?vd ! i)) (active vd) = inj_on (\<lambda>i. qi_queue (vq_infos vd ! i)) (active vd)"
    using n by (intro inj_on_cong; simp)+
  have "queues_wf ?vd"
    using d(3) n unfolding queues_wf_def a im inj by (simp add: vq_infos_def split: option.splits)
  then show ?thesis using assms d qp by (auto simp: transport_inv_def)
qed

text \<open>Entry \<open>i\<close> receives a queue.\<close>

lemma transport_inv_add:
  assumes "transport_inv V P B vd" "i < length (vq_infos vd)" "i \<notin> active vd" "qi_vq y = vq" "vq \<noteq> 0" "qi_queue y = q"
    "sys_ok V s'" "q \<notin> sys_pages V (vdev_sys vd)" "sys_pages V s' = insert q (sys_pages V (vdev_sys vd))"
    "vq \<notin> sys_blocks V (vdev_sys vd)" "sys_blocks V s' = insert vq (sys_blocks V (vdev_sys vd))"
    "vqo_index x = word_of_nat i" "ring_inv (vqo_ring x)"
    "vd' = vd\<lparr>vdev_sys := s', vdev_info := Some ((vq_infos vd)[i := y]), vdev_vqs := (vdev_vqs vd)(vq \<mapsto> x)\<rparr>"
  shows "transport_inv V P B vd'" "active vd' = insert i (active vd)" "vdev_vqs vd \<subseteq>\<^sub>m vdev_vqs vd'"
proof -
  note d = transport_invD [OF assms(1)]
  have info: "vq_infos vd' = (vq_infos vd)[i := y]" by (simp add: assms(14) vq_infos_def)
  show a: "active vd' = insert i (active vd)"
    using assms(2,4,5) by (auto simp: active_def info nth_list_update)
  have n: "vq_infos vd' ! j = vq_infos vd ! j" if "j \<in> active vd" for j
    using that assms(3) by (simp add: info) (metis nth_list_update_neq)
  have ni: "vq_infos vd' ! i = y" using assms(2) by (simp add: info)
  have qp: "queue_pages vd' = insert q (queue_pages vd)" unfolding queue_pages_def a using n ni assms(6) by auto
  have im: "(\<lambda>i. qi_vq (vq_infos vd' ! i)) ` active vd' = insert vq ((\<lambda>i. qi_vq (vq_infos vd ! i)) ` active vd)"
    unfolding a using n ni assms(4) by auto
  have wf: "\<forall>i \<in> active vd. \<exists>x. vdev_vqs vd (qi_vq (vq_infos vd ! i)) = Some x \<and> vqo_index x = word_of_nat i \<and> ring_inv (vqo_ring x)"
    "inj_on (\<lambda>i. qi_vq (vq_infos vd ! i)) (active vd)" "inj_on (\<lambda>i. qi_queue (vq_infos vd ! i)) (active vd)"
    "dom (vdev_vqs vd) = (\<lambda>i. qi_vq (vq_infos vd ! i)) ` active vd"
    using d(3) by (simp_all add: queues_wf_def)
  have new: "vq \<notin> dom (vdev_vqs vd)" "q \<notin> queue_pages vd" "vq \<notin> B" "q \<notin> P" using assms(8,10) d(4,6) by auto
  then have other: "qi_vq (vq_infos vd ! j) \<noteq> vq" "qi_queue (vq_infos vd ! j) \<noteq> q" if "j \<in> active vd" for j
    using that wf(4) by (auto simp: queue_pages_def)
  show "vdev_vqs vd \<subseteq>\<^sub>m vdev_vqs vd'" using new(1) by (auto simp: map_le_def assms(14))
  have objs: "\<exists>x. vdev_vqs vd' (qi_vq (vq_infos vd' ! j)) = Some x \<and> vqo_index x = word_of_nat j \<and> ring_inv (vqo_ring x)"
    if "j \<in> active vd'" for j
  proof (cases "j = i")
    case True
    then show ?thesis using ni assms(4,12,13) by (simp add: assms(14))
  next
    case False
    then have "j \<in> active vd" using that a by simp
    then show ?thesis using wf(1) n other(1) by (simp add: assms(14))
  qed
  have inj: "inj_on (\<lambda>i. qi_vq (vq_infos vd' ! i)) (active vd')" "inj_on (\<lambda>i. qi_queue (vq_infos vd' ! i)) (active vd')"
    unfolding a using wf(2,3) n ni other assms(3,4,6)
    by (auto simp: inj_on_def; metis)+
  have "length (vq_infos vd') = unat (vdev_maxQueues vd')" "vdev_info vd' \<noteq> None"
    using d(10) by (simp_all add: info, simp_all add: assms(14))
  moreover have "dom (vdev_vqs vd') = insert vq (dom (vdev_vqs vd))" by (simp add: assms(14))
  ultimately have "queues_wf vd'" using objs inj im wf(4) by (simp add: queues_wf_def)
  moreover have "vdev_sys vd' = s'" "vdev_device vd' = Some Modern" "vdev_info_block vd' = vdev_info_block vd"
    "dom (vdev_vqs vd') = insert vq (dom (vdev_vqs vd))"
    using d(2) by (simp_all add: assms(14))
  ultimately show "transport_inv V P B vd'"
    using assms(7,9,11) d(4-8) qp new by (simp add: transport_inv_def)
qed

text \<open>Entry \<open>i\<close> loses its queue.\<close>

lemma transport_inv_remove:
  assumes "transport_inv V P B vd" "i \<in> active vd" "qi_vq y = 0"
    "sys_ok V s'" "sys_pages V s' = sys_pages V (vdev_sys vd) - {qi_queue (vq_infos vd ! i)}"
    "sys_blocks V s' = sys_blocks V (vdev_sys vd) - {qi_vq (vq_infos vd ! i)}"
    "vd' = vd\<lparr>vdev_sys := s', vdev_info := Some ((vq_infos vd)[i := y]),
       vdev_vqs := (vdev_vqs vd)(qi_vq (vq_infos vd ! i) := None)\<rparr>"
  shows "transport_inv V P B vd'" "active vd' = active vd - {i}"
proof -
  note d = transport_invD [OF assms(1)]
  have info: "vq_infos vd' = (vq_infos vd)[i := y]" by (simp add: assms(7) vq_infos_def)
  show a: "active vd' = active vd - {i}"
    using assms(2,3) by (auto simp: active_def info nth_list_update)
  have n: "vq_infos vd' ! j = vq_infos vd ! j" if "j \<in> active vd - {i}" for j
    using that by (auto simp: info nth_list_update)
  have wf: "\<forall>i \<in> active vd. \<exists>x. vdev_vqs vd (qi_vq (vq_infos vd ! i)) = Some x \<and> vqo_index x = word_of_nat i \<and> ring_inv (vqo_ring x)"
    "inj_on (\<lambda>i. qi_vq (vq_infos vd ! i)) (active vd)" "inj_on (\<lambda>i. qi_queue (vq_infos vd ! i)) (active vd)"
    "dom (vdev_vqs vd) = (\<lambda>i. qi_vq (vq_infos vd ! i)) ` active vd"
    using d(3) by (simp_all add: queues_wf_def)
  have other: "qi_vq (vq_infos vd ! j) \<noteq> qi_vq (vq_infos vd ! i)" "qi_queue (vq_infos vd ! j) \<noteq> qi_queue (vq_infos vd ! i)"
    if "j \<in> active vd - {i}" for j
    using that wf(2,3) assms(2) by (auto simp: inj_on_def)
  have qp: "queue_pages vd' = queue_pages vd - {qi_queue (vq_infos vd ! i)}"
  proof -
    have "queue_pages vd' = (\<lambda>i. qi_queue (vq_infos vd ! i)) ` (active vd - {i})"
      unfolding queue_pages_def a using n by (intro image_cong) simp_all
    also have "\<dots> = queue_pages vd - {qi_queue (vq_infos vd ! i)}"
      unfolding queue_pages_def using inj_on_image_set_diff [OF wf(3), of "active vd" "{i}"] assms(2) by simp
    finally show ?thesis .
  qed
  have dm: "dom (vdev_vqs vd') = dom (vdev_vqs vd) - {qi_vq (vq_infos vd ! i)}" by (simp add: assms(7))
  have im: "(\<lambda>i. qi_vq (vq_infos vd' ! i)) ` active vd' = dom (vdev_vqs vd')"
  proof -
    have "(\<lambda>i. qi_vq (vq_infos vd' ! i)) ` active vd' = (\<lambda>i. qi_vq (vq_infos vd ! i)) ` (active vd - {i})"
      unfolding a using n by (intro image_cong) simp_all
    also have "\<dots> = dom (vdev_vqs vd')"
      unfolding dm wf(4) using inj_on_image_set_diff [OF wf(2), of "active vd" "{i}"] assms(2) by simp
    finally show ?thesis .
  qed
  have inj: "inj_on (\<lambda>i. qi_vq (vq_infos vd' ! i)) (active vd')" "inj_on (\<lambda>i. qi_queue (vq_infos vd' ! i)) (active vd')"
    unfolding a using wf(2,3) n by (auto simp: inj_on_def)
  have "length (vq_infos vd') = unat (vdev_maxQueues vd')" "vdev_info vd' \<noteq> None"
    using d(10) by (simp_all add: info, simp_all add: assms(7))
  moreover have "\<exists>x. vdev_vqs vd' (qi_vq (vq_infos vd' ! j)) = Some x \<and> vqo_index x = word_of_nat j \<and> ring_inv (vqo_ring x)"
    if "j \<in> active vd'" for j
    using that wf(1) n other(1) a by (simp add: assms(7))
  ultimately have "queues_wf vd'" using inj im by (simp add: queues_wf_def)
  moreover have "vdev_sys vd' = s'" "vdev_device vd' = Some Modern" "vdev_info_block vd' = vdev_info_block vd"
    using d(2) by (simp_all add: assms(7))
  moreover have "qi_queue (vq_infos vd ! i) \<notin> P" "qi_vq (vq_infos vd ! i) \<notin> B"
    using d(5,7) wf(4) assms(2) by (auto simp: queue_pages_def)
  ultimately show "transport_inv V P B vd'"
    unfolding transport_inv_def qp dm assms(5,6) d(4,6) using assms(4) d(5,7,8) assms(5,6) d(4,6)
    by (simp add: Un_Diff) blast
qed

context virtio_system
begin

lemma queue_of_active:
  assumes "transport_inv V P B vd" "i \<in> active vd"
  obtains x where "vdev_vqs vd (qi_vq (vq_infos vd ! i)) = Some x" "vqo_index x = word_of_nat i" "ring_inv (vqo_ring x)"
    "get_info vd (word_of_nat i) = Some (vq_infos vd ! i)" "unat (word_of_nat i :: u32) = i" "i < length (vq_infos vd)"
    "qi_queue (vq_infos vd ! i) \<in> sys_pages V (vdev_sys vd)" "qi_vq (vq_infos vd ! i) \<in> sys_blocks V (vdev_sys vd)"
proof -
  note d = transport_invD [OF assms(1)]
  have i: "i < length (vq_infos vd)" using assms(2) by (simp add: active_def)
  also have "\<dots> < 2 ^ LENGTH(32)" unfolding d(10) by (rule unsigned_less)
  finally have u: "unat (word_of_nat i :: u32) = i" unfolding unat_of_nat by (rule mod_less)
  obtain x where x: "vdev_vqs vd (qi_vq (vq_infos vd ! i)) = Some x" "vqo_index x = word_of_nat i" "ring_inv (vqo_ring x)"
    using d(3) assms(2) by (auto simp: queues_wf_def)
  moreover have "get_info vd (word_of_nat i) = Some (vq_infos vd ! i)" using d(9) i u by (simp add: get_info_def read_at_def)
  moreover have "qi_queue (vq_infos vd ! i) \<in> sys_pages V (vdev_sys vd)" using d(4) assms(2) by (auto simp: queue_pages_def)
  moreover have "qi_vq (vq_infos vd ! i) \<in> sys_blocks V (vdev_sys vd)" using d(6) x(1) by auto
  ultimately show thesis using that i u by blast
qed

lemma del_vq_ok:
  assumes "transport_inv V P B vd" "i \<in> active vd"
  obtains s' where "vio_modern_del_vq S (vq_infos vd ! i) vd =
      Some (vd\<lparr>vdev_sys := s', vdev_vqs := (vdev_vqs vd)(qi_vq (vq_infos vd ! i) := None)\<rparr>)"
    "sys_ok V s'" "sys_pages V s' = sys_pages V (vdev_sys vd) - {qi_queue (vq_infos vd ! i)}"
    "sys_blocks V s' = sys_blocks V (vdev_sys vd) - {qi_vq (vq_infos vd ! i)}"
proof -
  let ?qi = "vq_infos vd ! i"
  obtain x where x: "vdev_vqs vd (qi_vq ?qi) = Some x" "vqo_index x = word_of_nat i" "ring_inv (vqo_ring x)"
    "get_info vd (word_of_nat i) = Some ?qi" "unat (word_of_nat i :: u32) = i" "i < length (vq_infos vd)"
    "qi_queue ?qi \<in> sys_pages V (vdev_sys vd)" "qi_vq ?qi \<in> sys_blocks V (vdev_sys vd)"
    using queue_of_active [OF assms] .
  have ok: "sys_ok V (vdev_sys vd)" by (rule transport_invD(1) [OF assms(1)])
  obtain vd1 where 1: "iowrite16 S (ucast (vqo_index x)) (vdev_common vd + 22) vd = vd1" by simp
  obtain vd2 where 2: "(if vdev_msix_used vd1
               then snd (ioread16 S (vdev_common vd1 + 26) (iowrite16 S VIRTIO_MSI_NO_VECTOR (vdev_common vd1 + 26) vd1))
               else vd1) = vd2" by simp
  have "touches S V vd vd1" using 1 touches_iowrite16 by metis
  moreover have "touches S V vd1 vd2" using 2 touches_trans [OF touches_iowrite16 touches_ioread16] by (auto split: if_splits)
  ultimately have "touches S V vd vd2" by (rule touches_trans)
  then obtain s2 where s2: "vd2 = vd\<lparr>vdev_sys := s2\<rparr>" "quiet S V (vdev_sys vd) s2" using touchesE [OF _ ok] by blast
  have "vdev_vqs vd2 (qi_vq ?qi) = Some x" using s2(1) x(1) by simp
  from shutdown_ring_total [OF x(3) this] obtain r where
    r: "virtqueue_shutdown (qi_vq ?qi) vd2 = Some (vd2\<lparr>vdev_vqs := (vdev_vqs vd2)(qi_vq ?qi \<mapsto> x\<lparr>vqo_ring := r\<rparr>)\<rparr>)" by blast
  let ?vd3 = "vd2\<lparr>vdev_vqs := (vdev_vqs vd2)(qi_vq ?qi \<mapsto> x\<lparr>vqo_ring := r\<rparr>)\<rparr>"
  obtain s' where s': "modern_discard S (qi_vq ?qi) (qi_queue ?qi) ?vd3 =
      Some (?vd3\<lparr>vdev_sys := s', vdev_vqs := (vdev_vqs ?vd3)(qi_vq ?qi := None)\<rparr>)" "sys_ok V s'"
    "sys_pages V s' = sys_pages V (vdev_sys vd) - {qi_queue ?qi}" "sys_blocks V s' = sys_blocks V (vdev_sys vd) - {qi_vq ?qi}"
    using discard_ok [of ?vd3 "qi_vq ?qi" "qi_queue ?qi"] x(7,8) s2 by (auto simp: quiet_def)
  have "vio_modern_del_vq S ?qi vd = Some (?vd3\<lparr>vdev_sys := s', vdev_vqs := (vdev_vqs ?vd3)(qi_vq ?qi := None)\<rparr>)"
    by (simp only: vio_modern_del_vq_def x(1) Option.bind.simps Let_def 1 2 r s'(1))
  also have "?vd3\<lparr>vdev_sys := s', vdev_vqs := (vdev_vqs ?vd3)(qi_vq ?qi := None)\<rparr> =
      vd\<lparr>vdev_sys := s', vdev_vqs := (vdev_vqs vd)(qi_vq ?qi := None)\<rparr>" using s2(1) by simp
  finally show thesis using s'(2-4) by (rule that)
qed

text \<open>Deleting a queue through the table.\<close>

lemma delete_entry:
  assumes "transport_inv V P B vd" "i \<in> active vd"
  obtains vd' where "Option.bind (dev_delete_queue S (vq_infos vd ! i) vd) (set_info (word_of_nat i) (\<lambda>i. i\<lparr>qi_vq := 0\<rparr>)) = Some vd'"
    "transport_inv V P B vd'" "active vd' = active vd - {i}" "queue_step vd vd'"
proof -
  let ?qi = "vq_infos vd ! i"
  obtain s' where s': "vio_modern_del_vq S ?qi vd = Some (vd\<lparr>vdev_sys := s', vdev_vqs := (vdev_vqs vd)(qi_vq ?qi := None)\<rparr>)"
    "sys_ok V s'" "sys_pages V s' = sys_pages V (vdev_sys vd) - {qi_queue ?qi}"
    "sys_blocks V s' = sys_blocks V (vdev_sys vd) - {qi_vq ?qi}"
    using del_vq_ok [OF assms] .
  obtain vd' where v: "vd' = vd\<lparr>vdev_sys := s', vdev_info := Some ((vq_infos vd)[i := ?qi\<lparr>qi_vq := 0\<rparr>]),
       vdev_vqs := (vdev_vqs vd)(qi_vq ?qi := None)\<rparr>" by simp
  note q = queue_of_active [OF assms]
  have i: "i < length (vq_infos vd)" "unat (word_of_nat i :: u32) = i" using q by blast+
  note d = transport_invD [OF assms(1)]
  have "Option.bind (dev_delete_queue S ?qi vd) (set_info (word_of_nat i) (\<lambda>i. i\<lparr>qi_vq := 0\<rparr>)) = Some vd'"
    using s'(1) d(2,9) i by (simp add: dev_delete_queue_def set_info_def read_at_def v)
  moreover have "queue_step vd vd'" by (simp add: queue_step_def v)
  ultimately show thesis
    using transport_inv_remove [OF assms _ s'(2-4) v] by (intro that) simp_all
qed

lemma delete_from_Suc:
  assumes "get_info vd (word_of_nat i) = Some q"
    "(if qi_vq q \<noteq> 0 then Option.bind (dev_delete_queue S q vd) (set_info (word_of_nat i) (\<lambda>i. i\<lparr>qi_vq := 0\<rparr>))
      else Some vd) = Some vd1"
    "delete_from S (Suc i) n vd1 = Some vd'"
  shows "delete_from S i (Suc n) vd = Some vd'"
  by (subst delete_from.simps, subst assms(1), subst Option.bind.simps, subst assms(2)) (simp only: Option.bind.simps assms(3))

lemma delete_from_ok:
  assumes "transport_inv V P B vd" "i + n \<le> length (vq_infos vd)"
  shows "\<exists>vd'. delete_from S i n vd = Some vd' \<and> transport_inv V P B vd' \<and> active vd' = active vd - {i..<i + n} \<and> queue_step vd vd'"
  using assms
proof (induction n arbitrary: i vd)
  case 0
  then show ?case by simp
next
  case (Suc n)
  note d = transport_invD [OF Suc.prems(1)]
  have "length (vq_infos vd) < 2 ^ LENGTH(32)" unfolding d(10) by (rule unsigned_less)
  then have u: "unat (word_of_nat i :: u32) = i" using Suc.prems(2) unfolding unat_of_nat by (intro mod_less) simp
  have g: "get_info vd (word_of_nat i) = Some (vq_infos vd ! i)" using d(9) Suc.prems(2) u by (simp add: get_info_def read_at_def)
  obtain vd1 where 1: "(if qi_vq (vq_infos vd ! i) \<noteq> 0
      then Option.bind (dev_delete_queue S (vq_infos vd ! i) vd) (set_info (word_of_nat i) (\<lambda>i. i\<lparr>qi_vq := 0\<rparr>)) else Some vd) = Some vd1"
    "transport_inv V P B vd1" "active vd1 = active vd - {i}" "queue_step vd vd1"
  proof (cases "i \<in> active vd")
    case True
    then show ?thesis using delete_entry [OF Suc.prems(1) True] that by (auto simp: active_def)
  next
    case False
    then have "qi_vq (vq_infos vd ! i) = 0" using Suc.prems(2) by (simp add: active_def)
    then show ?thesis using that [of vd] Suc.prems(1) False by simp
  qed
  have "length (vq_infos vd1) = length (vq_infos vd)"
    using transport_invD(10) [OF 1(2)] d(10) queue_step_fields(2) [OF 1(4)] by simp
  then obtain vd' where vd': "delete_from S (Suc i) n vd1 = Some vd'" "transport_inv V P B vd'"
    "active vd' = active vd1 - {Suc i..<Suc i + n}" "queue_step vd1 vd'"
    using Suc.IH [OF 1(2), of "Suc i"] Suc.prems(2) by auto
  have "delete_from S i (Suc n) vd = Some vd'" by (rule delete_from_Suc [OF g 1(1) vd'(1)])
  moreover have "{i..<i + Suc n} = insert i {Suc i..<Suc i + n}" by auto
  then have "active vd' = active vd - {i..<i + Suc n}" unfolding vd'(3) 1(3) by blast
  ultimately show ?case using vd'(2,4) queue_step_trans [OF 1(4)] by blast
qed

text \<open>\<open>virtio_delete_queues\<close> releases every queue and all their memory.\<close>

lemma delete_queues_ok:
  assumes "transport_inv V P B vd"
  obtains vd' where "virtio_delete_queues S vd = Some vd'" "transport_inv V P B vd'" "active vd' = {}" "queue_step vd vd'"
    "sys_pages V (vdev_sys vd') = P" "sys_blocks V (vdev_sys vd') = B" "vdev_vqs vd' = Map.empty"
proof -
  note d = transport_invD [OF assms]
  obtain vd' where vd': "delete_from S 0 (unat (vdev_maxQueues vd)) vd = Some vd'" "transport_inv V P B vd'"
    "active vd' = active vd - {0..<unat (vdev_maxQueues vd)}" "queue_step vd vd'"
    using delete_from_ok [OF assms, of 0 "unat (vdev_maxQueues vd)"] d(10) by auto
  have "active vd \<subseteq> {0..<unat (vdev_maxQueues vd)}" using d(10) by (auto simp: active_def)
  then have a: "active vd' = {}" using vd'(3) by blast
  have "dom (vdev_vqs vd') = {}" using transport_invD(3) [OF vd'(2)] a by (simp add: queues_wf_def)
  then have e: "vdev_vqs vd' = Map.empty" by simp
  have "virtio_delete_queues S vd = Some vd'" using vd'(1) d(9) by (simp add: virtio_delete_queues_def)
  moreover have "sys_pages V (vdev_sys vd') = P" using transport_invD(4) [OF vd'(2)] a by (simp add: queue_pages_def)
  moreover have "sys_blocks V (vdev_sys vd') = B" using transport_invD(6) [OF vd'(2)] e by simp
  ultimately show thesis using vd'(2,4) a e by (intro that) simp_all
qed

end

text \<open>The object behind an address is a queue of this index with an empty ring of the negotiated kind.\<close>

definition fresh_queue :: "('o, 's) virtio_device \<Rightarrow> nat \<Rightarrow> ptr \<Rightarrow> bool" where
  "fresh_queue vd i vq \<longleftrightarrow> (\<exists>x. vdev_vqs vd vq = Some x \<and> vqo_index x = word_of_nat i \<and> ring_fresh (vqo_ring x) \<and>
     (vdev_packed_ring vd \<longleftrightarrow> (\<exists>q. vqo_ring x = Packed_queue q)))"

lemma fresh_queue_mono:
  "fresh_queue vd i vq \<Longrightarrow> vdev_vqs vd \<subseteq>\<^sub>m vdev_vqs vd' \<Longrightarrow> vdev_packed_ring vd' = vdev_packed_ring vd \<Longrightarrow> fresh_queue vd' i vq"
  unfolding fresh_queue_def map_le_def by (metis domI)

context virtio_system
begin

text \<open>The pages that a failed set-up leaves behind, see \<open>setup_vq_ok\<close>.\<close>

lemma vp_setup_vq_ok:
  assumes "transport_inv V P B vd" "i < length (vq_infos vd)" "i \<notin> active vd"
  obtains (fail) status vd' Q where
      "vp_setup_vq S (word_of_nat i) msix_vec vd = Some ((status, 0), vd')" "\<not> NT_SUCCESS status"
      "transport_inv V (P \<union> Q) B vd'" "Q = {} \<or> status = STATUS_INSUFFICIENT_RESOURCES \<and> (\<exists>q. Q = {q} \<and> q \<notin> P)" "queue_step vd vd'"
  | (ok) vq vd' where
      "vp_setup_vq S (word_of_nat i) msix_vec vd = Some ((STATUS_SUCCESS, vq), vd')"
      "transport_inv V P B vd'" "active vd' = insert i (active vd)" "queue_step vd vd'"
      "vdev_vqs vd \<subseteq>\<^sub>m vdev_vqs vd'" "fresh_queue vd' i vq" "qi_vq (vq_infos vd' ! i) = vq"
      "\<And>k. k \<noteq> i \<Longrightarrow> vq_infos vd' ! k = vq_infos vd ! k"
proof -
  note d = transport_invD [OF assms(1)]
  have "i < 2 ^ LENGTH(32)"
    using assms(2) unsigned_less [of "vdev_maxQueues vd", where 'a = nat] unfolding d(10) by (rule less_trans)
  then have u: "unat (word_of_nat i :: u32) = i" unfolding unat_of_nat by (rule mod_less)
  let ?i = "word_of_nat i :: u32"
  let ?infos = "vq_infos vd"
  have i: "unat ?i < length ?infos" using u assms(2) by simp
  have outside: "dom (vdev_vqs vd) \<subseteq> sys_blocks V (vdev_sys vd)" using d(6) by blast
  have dev: "dev_setup_queue S ?i msix_vec vd = vio_modern_setup_vq S ?i msix_vec vd"
    using d(2) by (simp add: dev_setup_queue_def)
  from d(1) d(9) i outside show thesis
  proof (cases rule: setup_vq_ok [where i = ?i and msix_vec = msix_vec])
    case (fail status s' y)
    have y: "qi_vq y = 0" using fail(4) assms(2,3) u by (simp add: active_def)
    obtain Q where Q: "sys_pages V s' = Q \<union> sys_pages V (vdev_sys vd)" "Q \<inter> sys_pages V (vdev_sys vd) = {}"
      "Q = {} \<or> status = STATUS_INSUFFICIENT_RESOURCES \<and> (\<exists>q. Q = {q} \<and> q \<notin> P)"
    proof (cases "sys_pages V s' = sys_pages V (vdev_sys vd)")
      case True
      then show ?thesis using that [of "{}"] by simp
    next
      case False
      then obtain q where "status = STATUS_INSUFFICIENT_RESOURCES" "q \<notin> sys_pages V (vdev_sys vd)"
        "sys_pages V s' = insert q (sys_pages V (vdev_sys vd))" using fail(6) by blast
      then show ?thesis using that [of "{q}"] d(4) by simp
    qed
    let ?vd = "vd\<lparr>vdev_sys := s', vdev_info := Some (?infos[i := y])\<rparr>"
    have "transport_inv V (P \<union> Q) B ?vd"
      by (rule transport_inv_fail [OF assms y fail(3) Q(1,2) fail(5)])
    moreover have "vp_setup_vq S ?i msix_vec vd = Some ((status, 0), ?vd)"
      using fail(1,2) u by (simp add: vp_setup_vq_def dev)
    moreover have "queue_step vd ?vd" by (simp add: queue_step_def)
    ultimately show thesis using fail(2) Q(3) that(1) by blast
  next
    case (ok s' vq q n x)
    let ?y = "(?infos ! i)\<lparr>qi_num := n, qi_queue := q, qi_vq := vq\<rparr>"
    obtain vd' where v: "vd' = vd\<lparr>vdev_sys := s', vdev_info := Some (?infos[i := ?y]), vdev_vqs := (vdev_vqs vd)(vq \<mapsto> x)\<rparr>" by simp
    have swap: "vd\<lparr>vdev_sys := s, vdev_vqs := f, vdev_info := j\<rparr> = vd\<lparr>vdev_sys := s, vdev_info := j, vdev_vqs := f\<rparr>" for s f j
      by (cases vd) simp
    have s: "vp_setup_vq S ?i msix_vec vd = Some ((STATUS_SUCCESS, vq), vd')"
      using ok(1) u assms(2) by (simp add: vp_setup_vq_def dev set_info_def read_at_def v swap)
    have info: "vq_infos vd' = ?infos[i := ?y]" by (simp add: v vq_infos_def)
    have y: "qi_vq ?y = vq" "qi_queue ?y = q" by simp_all
    note t = transport_inv_add [OF assms y(1) ok(3) y(2) ok(2,7,8,4,5,9) ring_fresh_inv [OF ok(10)] v]
    have "queue_step vd vd'" by (simp add: queue_step_def v)
    moreover have "fresh_queue vd' i vq" using ok(9-11) by (auto simp: fresh_queue_def v)
    moreover have "qi_vq (vq_infos vd' ! i) = vq" using assms(2) by (simp add: info)
    moreover have "vq_infos vd' ! k = vq_infos vd ! k" if "k \<noteq> i" for k using that by (simp add: info)
    ultimately show thesis using that(2) [OF s t(1,2)] t(3) by blast
  qed
qed

lemma setup_from_ok:
  assumes "transport_inv V P B vd" "i + n \<le> length (vq_infos vd)" "active vd \<inter> {i..<i + n} = {}"
  shows "\<exists>status vqs vd' Q. setup_from S i n vd = Some ((status, vqs), vd') \<and> transport_inv V (P \<union> Q) B vd' \<and> queue_step vd vd' \<and>
    (Q = {} \<or> status = STATUS_INSUFFICIENT_RESOURCES \<and> (\<exists>q. Q = {q} \<and> q \<notin> P)) \<and>
    (NT_SUCCESS status \<longrightarrow> status = STATUS_SUCCESS \<and> active vd' = active vd \<union> {i..<i + n} \<and> length vqs = n \<and>
       (\<forall>j < n. fresh_queue vd' (i + j) (vqs ! j)) \<and> vdev_vqs vd \<subseteq>\<^sub>m vdev_vqs vd')"
  using assms
proof (induction n arbitrary: i vd)
  case 0
  then show ?case by (intro exI [of _ STATUS_SUCCESS] exI [of _ "[]"] exI [of _ vd] exI [of _ "{}"]) simp
next
  case (Suc n)
  have i: "i < length (vq_infos vd)" "i \<notin> active vd" using Suc.prems(2,3) by auto
  let ?vec = "vdev_get_msix_vector S (int i) (vdev_sys vd)"
  from Suc.prems(1) i show ?case
  proof (cases rule: vp_setup_vq_ok [where msix_vec = ?vec])
    case (fail status vd' Q)
    then show ?thesis
      by (intro exI [of _ status] exI [of _ "[]"] exI [of _ vd'] exI [of _ Q]) simp
  next
    case (ok vq vd1)
    have len: "length (vq_infos vd1) = length (vq_infos vd)"
      using transport_invD(10) [OF ok(2)] transport_invD(10) [OF Suc.prems(1)] queue_step_fields(2) [OF ok(4)] by simp
    have "active vd1 \<inter> {Suc i..<Suc i + n} = {}" using Suc.prems(3) unfolding ok(3) by auto
    then obtain status vqs vd' Q where r: "setup_from S (Suc i) n vd1 = Some ((status, vqs), vd')" "transport_inv V (P \<union> Q) B vd'"
      "queue_step vd1 vd'" "Q = {} \<or> status = STATUS_INSUFFICIENT_RESOURCES \<and> (\<exists>q. Q = {q} \<and> q \<notin> P)"
      "NT_SUCCESS status \<Longrightarrow> status = STATUS_SUCCESS \<and> active vd' = active vd1 \<union> {Suc i..<Suc i + n} \<and> length vqs = n \<and>
         (\<forall>j < n. fresh_queue vd' (Suc i + j) (vqs ! j)) \<and> vdev_vqs vd1 \<subseteq>\<^sub>m vdev_vqs vd'"
      using Suc.IH [OF ok(2), of "Suc i"] Suc.prems(2) len by (metis add_Suc add_Suc_right)
    have "setup_from S i (Suc n) vd = Some ((status, vq # vqs), vd')" using ok(1) r(1) by simp
    moreover have "status = STATUS_SUCCESS \<and> active vd' = active vd \<union> {i..<i + Suc n} \<and> length (vq # vqs) = Suc n \<and>
         (\<forall>j < Suc n. fresh_queue vd' (i + j) ((vq # vqs) ! j)) \<and> vdev_vqs vd \<subseteq>\<^sub>m vdev_vqs vd'" if s: "NT_SUCCESS status"
    proof -
      note R = r(5) [OF s]
      have "fresh_queue vd' i vq" using fresh_queue_mono [OF ok(6)] R queue_step_fields(1) [OF r(3)] by blast
      then have "\<forall>j < Suc n. fresh_queue vd' (i + j) ((vq # vqs) ! j)" using R by (auto simp: nth_Cons split: nat.splits)
      moreover have "{i..<i + Suc n} = insert i {Suc i..<Suc i + n}" by auto
      then have "active vd' = active vd \<union> {i..<i + Suc n}" using R unfolding ok(3) by blast
      ultimately show ?thesis using R ok(5) map_le_trans by auto
    qed
    ultimately show ?thesis using r(2,4) queue_step_trans [OF ok(4) r(3)] by blast
  qed
qed

end

definition table_block :: "('o, 's) virtio_device \<Rightarrow> ptr set" where
  "table_block vd = {vdev_info_block vd} - {0}"

lemma idle_vqs: "transport_inv V P B vd \<Longrightarrow> active vd = {} \<Longrightarrow> vdev_vqs vd = Map.empty"
  by (drule transport_invD(3)) (simp add: queues_wf_def)

text \<open>A table without queues in it.\<close>

lemma transport_inv_table:
  assumes "sys_ok V (vdev_sys vd)" "vdev_device vd = Some Modern" "sys_pages V (vdev_sys vd) = P" "sys_blocks V (vdev_sys vd) = B"
    "vdev_info vd = Some infos" "length infos = unat (vdev_maxQueues vd)" "\<forall>q \<in> set infos. qi_vq q = 0"
    "vdev_vqs vd = Map.empty" "table_block vd \<subseteq> B"
  shows "transport_inv V P B vd" "active vd = {}" "vq_infos vd = infos"
proof -
  show i: "vq_infos vd = infos" by (simp add: vq_infos_def assms(5))
  show a: "active vd = {}" using assms(7) by (auto simp: active_def i)
  have "queues_wf vd" using assms(5,6,8) by (simp add: queues_wf_def a i)
  then show "transport_inv V P B vd"
    using assms(1-4,8,9) a by (auto simp: transport_inv_def queue_pages_def table_block_def)
qed

context virtio_system
begin

lemma reserve_ok:
  assumes "transport_inv V P B vd" "active vd = {}"
  obtains status vd' where "virtio_reserve_queue_memory S nvqs vd = Some (status, vd')" "active vd' = {}"
    "transport_inv V P ((B - table_block vd) \<union> table_block vd') vd'" "vdev_packed_ring vd' = vdev_packed_ring vd"
    "if NT_SUCCESS status then unat nvqs \<le> length (vq_infos vd') else status = STATUS_INSUFFICIENT_RESOURCES"
    "vdev_event_suppression_enabled vd' = vdev_event_suppression_enabled vd" "vdev_maxQueues vd < nvqs \<or> vd' = vd"
proof (cases "vdev_maxQueues vd < nvqs")
  case False
  note d = transport_invD [OF assms(1)]
  have "B = (B - table_block vd) \<union> table_block vd" using d(8) by (auto simp: table_block_def)
  then show thesis
    using False assms d(10) by (intro that [of STATUS_SUCCESS vd]) (simp_all add: virtio_reserve_queue_memory_def word_less_nat_alt)
next
  case True
  note d = transport_invD [OF assms(1)]
  have e: "vdev_vqs vd = Map.empty" by (rule idle_vqs [OF assms])
  obtain p s where a: "mem_alloc_nonpaged_block S (ucast (nvqs * sizeof_queue_info S)) (vdev_sys vd) = (p, s)" by force
  note A = alloc_block [OF d(1) a]
  have P: "sys_pages V (vdev_sys vd) = P" "sys_blocks V (vdev_sys vd) = B"
    using d(4,6) assms(2) e by (simp_all add: queue_pages_def)
  show thesis
  proof (cases "p = 0")
    case p: True
    let ?vd = "vd\<lparr>vdev_sys := s\<rparr>"
    have "quiet S V (vdev_sys vd) s" using A p by (simp add: quiet_def)
    from transport_inv_sys [OF assms(1) this] have "transport_inv V P B ?vd" .
    moreover have "B = (B - table_block vd) \<union> table_block ?vd" using d(8) by (auto simp: table_block_def)
    ultimately show thesis
      using p True a assms(2) by (intro that [of STATUS_INSUFFICIENT_RESOURCES ?vd]) (simp_all add: virtio_reserve_queue_memory_def)
  next
    case p: False
    have A': "sys_ok V s" "sys_pages V s = P" "p \<notin> B" "sys_blocks V s = insert p B"
      "info_memory S p (unat nvqs) s = replicate (unat nvqs) no_queue"
      using A p P by simp_all
    obtain s1 where s1: "(if vdev_info (vd\<lparr>vdev_sys := s\<rparr>) \<noteq> None \<and> vdev_info_block (vd\<lparr>vdev_sys := s\<rparr>) \<noteq> 0
        then free_block S (vdev_info_block (vd\<lparr>vdev_sys := s\<rparr>)) (vd\<lparr>vdev_sys := s\<rparr>) else Some (vd\<lparr>vdev_sys := s\<rparr>)) = Some (vd\<lparr>vdev_sys := s1\<rparr>)"
      "sys_ok V s1" "sys_pages V s1 = P" "sys_blocks V s1 = insert p B - table_block vd"
    proof (cases "vdev_info_block vd = 0")
      case True
      then show ?thesis using A' by (intro that [of s]) (simp_all add: table_block_def)
    next
      case False
      have m: "vdev_info_block vd \<in> sys_blocks V s" using d(8) False A'(4) by simp
      obtain s1 where "mem_free_nonpaged_block S (vdev_info_block vd) s = Some s1" "sys_ok V s1" "sys_pages V s1 = sys_pages V s"
        "sys_blocks V s1 = sys_blocks V s - {vdev_info_block vd}"
        using free_block [OF A'(1) m] by blast
      moreover have "vd\<lparr>vdev_sys := s1, vdev_vqs := (vdev_vqs vd)(vdev_info_block vd := None)\<rparr> = vd\<lparr>vdev_sys := s1\<rparr>"
        using e by (cases vd) simp
      ultimately show ?thesis
        using False A' d(9) by (intro that [of s1]) (simp_all add: free_block_def table_block_def)
    qed
    let ?vd = "vd\<lparr>vdev_sys := s1, vdev_info := Some (replicate (unat nvqs) no_queue), vdev_info_block := p, vdev_maxQueues := nvqs\<rparr>"
    have b: "sys_blocks V s1 = (B - table_block vd) \<union> table_block ?vd"
      unfolding s1(4) using p A'(3) d(8) by (auto simp: table_block_def)
    have c: "sys_ok V (vdev_sys ?vd)" "vdev_device ?vd = Some Modern" "sys_pages V (vdev_sys ?vd) = P"
      "sys_blocks V (vdev_sys ?vd) = (B - table_block vd) \<union> table_block ?vd"
      "vdev_info ?vd = Some (replicate (unat nvqs) no_queue)" "length (replicate (unat nvqs) no_queue) = unat (vdev_maxQueues ?vd)"
      "\<forall>q \<in> set (replicate (unat nvqs) no_queue). qi_vq q = 0" "vdev_vqs ?vd = Map.empty"
      "table_block ?vd \<subseteq> (B - table_block vd) \<union> table_block ?vd"
      using s1(2,3) b d(2) e by simp_all
    note t = transport_inv_table [OF c]
    have "virtio_reserve_queue_memory S nvqs vd = Some (STATUS_SUCCESS, ?vd)"
      using True a p s1(1) A'(5) by (simp add: virtio_reserve_queue_memory_def split del: if_split)
    then show thesis using t True by (intro that [of STATUS_SUCCESS ?vd]) simp_all
  qed
qed

lemma find_queues_ok:
  assumes "transport_inv V P B vd" "active vd = {}"
  obtains status vqs vd' Q where "virtio_find_queues S nvqs vd = Some ((status, vqs), vd')"
    "transport_inv V (P \<union> Q) ((B - table_block vd) \<union> table_block vd') vd'"
    "Q = {} \<or> status = STATUS_INSUFFICIENT_RESOURCES \<and> (\<exists>q. Q = {q} \<and> q \<notin> P)"
    "vdev_packed_ring vd' = vdev_packed_ring vd"
    "if NT_SUCCESS status then Q = {} \<and> status = STATUS_SUCCESS \<and> active vd' = {0..<unat nvqs} \<and> length vqs = unat nvqs \<and>
       (\<forall>i < unat nvqs. fresh_queue vd' i (vqs ! i)) else active vd' = {}"
    "vdev_maxQueues vd < nvqs \<or> vdev_info_block vd' = vdev_info_block vd"
proof -
  obtain st vd1 where 1: "virtio_reserve_queue_memory S nvqs vd = Some (st, vd1)" "active vd1 = {}"
    "transport_inv V P ((B - table_block vd) \<union> table_block vd1) vd1" "vdev_packed_ring vd1 = vdev_packed_ring vd"
    "if NT_SUCCESS st then unat nvqs \<le> length (vq_infos vd1) else st = STATUS_INSUFFICIENT_RESOURCES"
    "vdev_maxQueues vd < nvqs \<or> vdev_info_block vd1 = vdev_info_block vd"
    using reserve_ok [OF assms, of nvqs] by metis
  show thesis
  proof (cases "NT_SUCCESS st")
    case False
    then show thesis using 1 by (intro that [of st "[]" vd1 "{}"]) (simp_all add: virtio_find_queues_def)
  next
    case True
    note d = transport_invD [OF 1(3)]
    let ?vec = "vdev_get_msix_vector S (-1) (vdev_sys vd1)"
    obtain vec vd2 where 2: "(if ?vec = VIRTIO_MSI_NO_VECTOR then (0, vd1)
          else case Modern of Modern \<Rightarrow> vio_modern_set_config_vector S ?vec vd1
                       | Legacy \<Rightarrow> vio_legacy_set_config_vector S ?vec vd1) = (vec, vd2)" by force
    have "touches S V vd1 vd2" using 2 touches_config_vector [of vd1 ?vec] by (auto split: if_splits)
    then obtain s2 where s2: "vd2 = vd1\<lparr>vdev_sys := s2\<rparr>" "quiet S V (vdev_sys vd1) s2" using touchesE [OF _ d(1)] by blast
    have t2: "transport_inv V P ((B - table_block vd) \<union> table_block vd1) vd2" unfolding s2(1) by (rule transport_inv_sys [OF 1(3) s2(2)])
    have a2: "active vd2 = {}" "queue_step vd1 vd2" "unat nvqs \<le> length (vq_infos vd2)"
      using 1(2,5) True by (simp_all add: s2(1) queue_step_def)
    obtain st3 vqs vd3 Q where 3: "(if vec = VIRTIO_MSI_NO_VECTOR then Some ((STATUS_DEVICE_BUSY, []), vd2)
          else setup_from S 0 (unat nvqs) vd2) = Some ((st3, vqs), vd3)"
      "transport_inv V (P \<union> Q) ((B - table_block vd) \<union> table_block vd1) vd3" "queue_step vd2 vd3"
      "Q = {} \<or> st3 = STATUS_INSUFFICIENT_RESOURCES \<and> (\<exists>q. Q = {q} \<and> q \<notin> P)"
      "NT_SUCCESS st3 \<Longrightarrow> st3 = STATUS_SUCCESS \<and> active vd3 = {0..<unat nvqs} \<and> length vqs = unat nvqs \<and>
         (\<forall>i < unat nvqs. fresh_queue vd3 i (vqs ! i))"
    proof (cases "vec = VIRTIO_MSI_NO_VECTOR")
      case True
      then show ?thesis using t2 by (intro that [of STATUS_DEVICE_BUSY "[]" vd2 "{}"]) simp_all
    next
      case False
      have side: "0 + unat nvqs \<le> length (vq_infos vd2)" "active vd2 \<inter> {0..<0 + unat nvqs} = {}" using a2(1,3) by simp_all
      obtain st3 vqs vd3 Q where r: "setup_from S 0 (unat nvqs) vd2 = Some ((st3, vqs), vd3)"
        "transport_inv V (P \<union> Q) ((B - table_block vd) \<union> table_block vd1) vd3" "queue_step vd2 vd3"
        "Q = {} \<or> st3 = STATUS_INSUFFICIENT_RESOURCES \<and> (\<exists>q. Q = {q} \<and> q \<notin> P)"
        "NT_SUCCESS st3 \<longrightarrow> st3 = STATUS_SUCCESS \<and> active vd3 = active vd2 \<union> {0..<0 + unat nvqs} \<and> length vqs = unat nvqs \<and>
         (\<forall>j < unat nvqs. fresh_queue vd3 (0 + j) (vqs ! j)) \<and> vdev_vqs vd2 \<subseteq>\<^sub>m vdev_vqs vd3"
        using setup_from_ok [OF t2 side] by blast
      then show ?thesis using False a2(1) by (intro that [of st3 vqs vd3 Q]) simp_all
    qed
    have qs: "queue_step vd1 vd3" by (rule queue_step_trans [OF a2(2) 3(3)])
    note f = queue_step_fields [OF qs]
    have pre: "virtio_find_queues S nvqs vd = (if NT_SUCCESS st3 then Some ((st3, vqs), vd3)
        else do { vd \<leftarrow> virtio_delete_queues S vd3; Some ((st3, vqs), vd) })"
      using True by (simp only: virtio_find_queues_def 1(1) Option.bind.simps prod.case Let_def d(2) 2 3(1) if_False not_True_eq_False)
    show thesis
    proof (cases "NT_SUCCESS st3")
      case True
      have "Q = {}" using 3(4,5) True by auto
      then show thesis
        using True pre 3(2) 3(5) [OF True] f(1,5) 1(4,6) by (intro that [of st3 vqs vd3 Q]) (simp_all add: table_block_def)
    next
      case False
      obtain vd4 where 4: "virtio_delete_queues S vd3 = Some vd4"
        "transport_inv V (P \<union> Q) ((B - table_block vd) \<union> table_block vd1) vd4" "active vd4 = {}" "queue_step vd3 vd4"
        using delete_queues_ok [OF 3(2)] .
      note g = queue_step_fields [OF 4(4)]
      show thesis
        using False pre 3(4) 4 f(1,5) g(1,5) 1(4,6) by (intro that [of st3 vqs vd4 Q]) (simp_all add: table_block_def)
    qed
  qed
qed

end

section \<open>Initialisation and features\<close>

lemma feature_bit: "k < 64 \<Longrightarrow> virtio_is_feature_enabled f k \<longleftrightarrow> bit f k"
  by (auto simp: virtio_is_feature_enabled_def bit_iff_and_push_bit_not_eq_0)

text \<open>\<open>settles\<close>: time may pass; \<open>still\<close>: in addition the members that describe the transport may change.\<close>

definition settles :: "('s, 'r) system_view \<Rightarrow> ('o, 's) virtio_device \<Rightarrow> ('o, 's) virtio_device \<Rightarrow> bool" where
  "settles V vd vd' \<longleftrightarrow> (sys_ok V (vdev_sys vd) \<longrightarrow> (\<exists>s'. vd' = vd\<lparr>vdev_sys := s'\<rparr> \<and> sys_ok V s' \<and>
     sys_pages V s' = sys_pages V (vdev_sys vd) \<and> sys_blocks V s' = sys_blocks V (vdev_sys vd)))"

definition still :: "('s, 'r) system_view \<Rightarrow> ('o, 's) virtio_device \<Rightarrow> ('o, 's) virtio_device \<Rightarrow> bool" where
  "still V vd vd' \<longleftrightarrow> (sys_ok V (vdev_sys vd) \<longrightarrow> sys_ok V (vdev_sys vd') \<and>
     sys_pages V (vdev_sys vd') = sys_pages V (vdev_sys vd) \<and> sys_blocks V (vdev_sys vd') = sys_blocks V (vdev_sys vd) \<and>
     vdev_info vd' = vdev_info vd \<and> vdev_info_block vd' = vdev_info_block vd \<and> vdev_maxQueues vd' = vdev_maxQueues vd \<and>
     vdev_vqs vd' = vdev_vqs vd)"

lemma touches_settles: "touches S V vd vd' \<Longrightarrow> settles V vd vd'"
  by (auto simp: touches_def settles_def quiet_def)

lemma settles_refl [simp]: "settles V vd vd"
  by (auto simp: settles_def intro: exI [of _ "vdev_sys vd"])

lemma settles_trans: "settles V a b \<Longrightarrow> settles V b c \<Longrightarrow> settles V a c"
proof -
  assume ab: "settles V a b" and bc: "settles V b c"
  show "settles V a c"
    unfolding settles_def
  proof
    assume "sys_ok V (vdev_sys a)"
    then obtain s where s: "b = a\<lparr>vdev_sys := s\<rparr>" "sys_ok V s" "sys_pages V s = sys_pages V (vdev_sys a)"
      "sys_blocks V s = sys_blocks V (vdev_sys a)" using ab unfolding settles_def by blast
    then have "sys_ok V (vdev_sys b)" by simp
    then obtain t where "c = b\<lparr>vdev_sys := t\<rparr>" "sys_ok V t" "sys_pages V t = sys_pages V (vdev_sys b)"
      "sys_blocks V t = sys_blocks V (vdev_sys b)" using bc unfolding settles_def by blast
    then show "\<exists>s'. c = a\<lparr>vdev_sys := s'\<rparr> \<and> sys_ok V s' \<and>
       sys_pages V s' = sys_pages V (vdev_sys a) \<and> sys_blocks V s' = sys_blocks V (vdev_sys a)"
      using s by (intro exI [of _ t]) simp
  qed
qed

lemma settles_still: "settles V vd vd' \<Longrightarrow> still V vd vd'"
  by (auto simp: settles_def still_def)

lemma still_refl [simp]: "still V vd vd"
  by (simp add: still_def)

lemma still_trans: "still V a b \<Longrightarrow> still V b c \<Longrightarrow> still V a c"
  by (simp add: still_def)

lemma still_fields [simp]:
  "still V vd (vd\<lparr>vdev_common := a\<rparr>)" "still V vd (vd\<lparr>vdev_isr := a\<rparr>)" "still V vd (vd\<lparr>vdev_notify_offset_multiplier := m\<rparr>)"
  "still V vd (vd\<lparr>vdev_notify_base := a, vdev_notify_len := l\<rparr>)" "still V vd (vd\<lparr>vdev_notify_map_cap := i\<rparr>)"
  "still V vd (vd\<lparr>vdev_config := a, vdev_config_len := l\<rparr>)" "still V vd (vd\<lparr>vdev_device := d\<rparr>)"
  "still V vd (vd\<lparr>vdev_event_suppression_enabled := x, vdev_packed_ring := y\<rparr>)"
  by (simp_all add: still_def)

context virtio_system
begin

lemma settles_map:
  assumes "vio_modern_map_capability S cap minlen al start n vd = Some ((a, len), vd')"
  shows "settles V vd vd'"
proof (cases "sys_ok V (vdev_sys vd)")
  case True
  then show ?thesis using touches_map [OF True, of cap minlen al start n] assms touches_settles by (metis option.inject prod.inject)
qed (simp add: settles_def)

lemma settles_reset_wait:
  assumes "reset_wait S vd = Some vd'"
  shows "settles V vd vd'"
proof -
  have "S = S \<longrightarrow> settles V vd vd'"
    using assms
  proof (rule reset_wait.raw_induct [where P = "\<lambda>S' vd vd'. S' = S \<longrightarrow> settles V vd vd'", rotated], intro impI)
    fix f S' vd vd'
    assume IH: "\<And>S' vd vd'. f S' vd = Some vd' \<Longrightarrow> S' = S \<longrightarrow> settles V vd vd'" and S: "S' = S"
      and body: "(case ioread8 S' (vdev_common vd + 20) vd of (status, vd) \<Rightarrow>
        if status = 0 then Some vd
        else case pci_read_config_word S' 0 (vdev_sys vd) of (r, val) \<Rightarrow>
          if r \<noteq> 0 \<or> val = 0xFFFF then Some vd
          else f S' (vd\<lparr>vdev_sys := vdev_sleep S' 1 (vdev_sys vd)\<rparr>)) = Some vd'"
    obtain st vd1 where r1: "ioread8 S (vdev_common vd + 20) vd = (st, vd1)" by force
    have t1: "settles V vd vd1" using touches_settles [OF touches_ioread8 [of vd "vdev_common vd + 20"]] r1 by simp
    obtain r v where r2: "pci_read_config_word S 0 (vdev_sys vd1) = (r, v)" by force
    show "settles V vd vd'"
    proof (cases "st = 0 \<or> r \<noteq> 0 \<or> v = 0xFFFF")
      case True
      then have "vd' = vd1" using body S r1 r2 by (auto split: if_splits)
      then show ?thesis using t1 by simp
    next
      case False
      let ?vd2 = "vd1\<lparr>vdev_sys := vdev_sleep S 1 (vdev_sys vd1)\<rparr>"
      have "f S ?vd2 = Some vd'" using False body S r1 r2 by auto
      then have "settles V ?vd2 vd'" using IH by blast
      moreover have "settles V vd1 ?vd2" using sleep [of "vdev_sys vd1" 1] by (auto simp: settles_def)
      ultimately show ?thesis using t1 settles_trans by blast
    qed
  qed
  then show ?thesis by simp
qed

lemma touches_reads:
  "ioread8 S a vd = (v8, vd') \<Longrightarrow> touches S V vd vd'" "ioread16 S a vd = (v16, vd') \<Longrightarrow> touches S V vd vd'"
  "ioread32 S a vd = (v32, vd') \<Longrightarrow> touches S V vd vd'"
  using touches_ioread8 [of vd a] touches_ioread16 [of vd a] touches_ioread32 [of vd a] by simp_all

lemma settles_reset:
  assumes "virtio_device_reset S vd = Some vd'"
  shows "settles V vd vd'"
proof (cases "vdev_device vd")
  case (Some t)
  show ?thesis
  proof (cases t)
    case Modern
    then have "reset_wait S (iowrite8 S 0 (vdev_common vd + 20) vd) = Some vd'"
      using assms Some by (simp add: virtio_device_reset_def vio_modern_reset_def)
    then show ?thesis using settles_reset_wait settles_trans touches_settles [OF touches_iowrite8] by blast
  next
    case Legacy
    then have "vd' = iowrite8 S 0 (vdev_addr vd + VIRTIO_PCI_STATUS) vd"
      using assms Some by (simp add: virtio_device_reset_def vio_legacy_reset_def)
    then show ?thesis using touches_settles [OF touches_iowrite8] by simp
  qed
qed (use assms in \<open>simp add: virtio_device_reset_def\<close>)

lemma touches_status:
  assumes "virtio_get_status S vd = Some (st, vd')"
  shows "touches S V vd vd'"
proof (cases "vdev_device vd")
  case (Some t)
  then have "\<exists>a. ioread8 S a vd = (st, vd')"
    using assms by (cases t) (auto simp: virtio_get_status_def vio_modern_get_status_def vio_legacy_get_status_def)
  then show ?thesis using touches_reads(1) by blast
qed (use assms in \<open>simp add: virtio_get_status_def\<close>)

lemma touches_set_status:
  assumes "virtio_set_status S st vd = Some vd'"
  shows "touches S V vd vd'"
proof (cases "vdev_device vd")
  case (Some t)
  then have "\<exists>a. vd' = iowrite8 S st a vd"
    using assms by (cases t) (auto simp: virtio_set_status_def vio_modern_set_status_def vio_legacy_set_status_def split: if_splits)
  then show ?thesis using touches_iowrite8 by blast
qed (use assms in \<open>simp add: virtio_set_status_def\<close>)

lemma touches_add_status: "virtio_add_status S st vd = Some vd' \<Longrightarrow> touches S V vd vd'"
  unfolding virtio_add_status_def bind_eq_Some_conv using touches_status touches_set_status touches_trans by fastforce

lemma touches_ready:
  assumes "virtio_device_ready S vd = Some vd'"
  shows "touches S V vd vd'"
proof -
  obtain st vd1 where 1: "virtio_get_status S vd = Some (st, vd1)" using assms by (auto simp: virtio_device_ready_def bind_eq_Some_conv)
  then have "virtio_set_status S (st OR VIRTIO_CONFIG_S_DRIVER_OK) vd1 = Some vd'"
    using assms by (auto simp: virtio_device_ready_def split: if_splits)
  then show ?thesis using touches_status [OF 1] touches_set_status touches_trans by blast
qed

lemma touches_modern_features: "touches S V vd (snd (vio_modern_get_features S vd))"
proof -
  let ?vd1 = "iowrite32 S 0 (vdev_common vd) vd"
  obtain lo vd2 where 2: "ioread32 S (vdev_common ?vd1 + 4) ?vd1 = (lo, vd2)" by force
  let ?vd3 = "iowrite32 S 1 (vdev_common vd2) vd2"
  obtain hi vd4 where 4: "ioread32 S (vdev_common ?vd3 + 4) ?vd3 = (hi, vd4)" by force
  have "touches S V vd vd4"
    using touches_iowrite32 touches_reads(3) [OF 2] touches_reads(3) [OF 4] touches_trans by meson
  then show ?thesis by (simp add: vio_modern_get_features_def Let_def 2 4)
qed

lemma touches_features:
  assumes "virtio_get_features S vd = Some (f, vd')"
  shows "touches S V vd vd'"
proof (cases "vdev_device vd")
  case (Some t)
  show ?thesis
  proof (cases t)
    case Modern
    then show ?thesis using assms Some touches_modern_features [of vd] by (simp add: virtio_get_features_def)
  next
    case Legacy
    then have "\<exists>v. ioread32 S (vdev_addr vd + VIRTIO_PCI_HOST_FEATURES) vd = (v, vd')"
      using assms Some by (auto simp: virtio_get_features_def vio_legacy_get_features_def split: prod.splits)
    then show ?thesis using touches_reads(3) by blast
  qed
qed (use assms in \<open>simp add: virtio_get_features_def\<close>)

lemma touches_modern_set_features: "touches S V vd (snd (vio_modern_set_features S f vd))"
proof -
  have "touches S V vd (iowrite32 S d a4 (iowrite32 S c a3 (iowrite32 S b a2 (iowrite32 S a a1 vd))))" for a b c d a1 a2 a3 a4
    using touches_iowrite32 touches_trans by meson
  then show ?thesis by (simp add: vio_modern_set_features_def Let_def)
qed

lemma set_features_ok:
  assumes "virtio_set_features S f vd = Some (st, vd')"
  shows "touches S V (vd\<lparr>vdev_event_suppression_enabled := bit f VIRTIO_RING_F_EVENT_IDX, vdev_packed_ring := bit f VIRTIO_F_RING_PACKED\<rparr>) vd'"
    (is "touches S V ?vd vd'")
proof -
  obtain t st1 vd1 where 1: "vdev_device vd = Some t" "(case t of Modern \<Rightarrow> Some (vio_modern_set_features S f ?vd)
                            | Legacy \<Rightarrow> vio_legacy_set_features S f ?vd) = Some (st1, vd1)"
    using assms by (auto simp: virtio_set_features_def feature_bit Let_def bind_eq_Some_conv)
  have t1: "touches S V ?vd vd1"
    using 1(2) touches_modern_set_features [of ?vd f] touches_iowrite32 [of ?vd]
    by (cases t) (auto simp: vio_legacy_set_features_def Let_def split: if_splits)
  have "vd' = vd1 \<or> (\<exists>vd2 st2. virtio_add_status S VIRTIO_CONFIG_S_FEATURES_OK vd1 = Some vd2 \<and> virtio_get_status S vd2 = Some (st2, vd'))"
    using assms 1 by (simp add: virtio_set_features_def feature_bit Let_def) (auto simp: bind_eq_Some_conv split: if_splits)
  then show ?thesis
  proof
    assume "\<exists>vd2 st2. virtio_add_status S VIRTIO_CONFIG_S_FEATURES_OK vd1 = Some vd2 \<and> virtio_get_status S vd2 = Some (st2, vd')"
    then obtain vd2 st2 where 2: "virtio_add_status S VIRTIO_CONFIG_S_FEATURES_OK vd1 = Some vd2"
      "virtio_get_status S vd2 = Some (st2, vd')" by blast
    have "touches S V vd1 vd'" using touches_trans [OF touches_add_status [OF 2(1)] touches_status [OF 2(2)]] .
    with t1 show ?thesis by (rule touches_trans)
  qed (use t1 in simp)
qed

end

context virtio_system
begin

lemmas still_settles = settles_still [OF settles_reset] settles_still [OF touches_settles]

lemma still_map: "vio_modern_map_capability S cap minlen al start n vd = Some ((a, len), vd') \<Longrightarrow> still V vd vd'"
  by (rule settles_still [OF settles_map])

lemma still_simple_map: "vio_modern_map_simple_capability S cap len al vd = Some ((a, n), vd') \<Longrightarrow> still V vd vd'"
  unfolding vio_modern_map_simple_capability_def by (rule still_map)

lemma still_map_notify:
  assumes "modern_map_notify S cap vd = Some (st, vd')"
  shows "still V vd vd'"
proof -
  let ?multiplier = "snd (pci_read_config_dword S (cap + 16) (vdev_sys vd))"
  let ?n = "snd (pci_read_config_dword S (cap + 12) (vdev_sys vd))"
  let ?vd1 = "vd\<lparr>vdev_notify_offset_multiplier := ?multiplier\<rparr>"
  have s1: "still V vd ?vd1" by simp
  show ?thesis
  proof (cases "?n + snd (pci_read_config_dword S (cap + 8) (vdev_sys vd)) mod PAGE_SIZE \<le> PAGE_SIZE")
    case True
    then obtain a len vd2 where "vio_modern_map_capability S cap 2 2 0 ?n ?vd1 = Some ((a, len), vd2)"
      "vd' = vd2\<lparr>vdev_notify_base := a, vdev_notify_len := len\<rparr>"
      using assms by (auto simp: modern_map_notify_def Let_def bind_eq_Some_conv)
    then show ?thesis using still_trans [OF s1 still_trans [OF still_map]] by simp
  next
    case False
    then have "vd' = ?vd1\<lparr>vdev_notify_map_cap := cap\<rparr>" using assms by (simp add: modern_map_notify_def Let_def)
    then show ?thesis using still_trans [OF s1] by simp
  qed
qed

lemma still_map_config:
  assumes "(if cap \<noteq> 0 then do {
              ((a, len), vd) \<leftarrow> vio_modern_map_capability S cap 0 4 0 PAGE_SIZE vd;
              Some (if a = 0 then STATUS_INVALID_PARAMETER else STATUS_SUCCESS, vd\<lparr>vdev_config := a, vdev_config_len := len\<rparr>)
            }
            else Some (STATUS_SUCCESS, vd)) = Some (st, vd')"
  shows "still V vd vd'"
proof (cases "cap = 0")
  case False
  then obtain a len vd2 where "vio_modern_map_capability S cap 0 4 0 PAGE_SIZE vd = Some ((a, len), vd2)"
    "vd' = vd2\<lparr>vdev_config := a, vdev_config_len := len\<rparr>"
    using assms by (auto simp: bind_eq_Some_conv)
  then show ?thesis using still_trans [OF still_map] by simp
qed (use assms in simp)

lemma still_modern_initialize:
  assumes "vio_modern_initialize S vd = Some (st, vd')"
  shows "still V vd vd'"
proof -
  obtain caps where caps: "find_pci_vendor_capabilities S (replicate VIRTIO_PCI_CAP_PCI_CFG 0) (vdev_sys vd) = Some caps"
    using assms by (auto simp: vio_modern_initialize_def bind_eq_Some_conv)
  show ?thesis
  proof (cases "caps ! 1 = 0 \<or> caps ! 3 = 0 \<or> caps ! 2 = 0")
    case True
    then have "vd' = vd" using assms caps by (auto simp: vio_modern_initialize_def split: if_splits)
    then show ?thesis by simp
  next
    case False
    then obtain c l vd1 where 1: "vio_modern_map_simple_capability S (caps ! 1) sizeof_virtio_pci_common_cfg 4 vd = Some ((c, l), vd1)"
      using assms caps by (auto simp: vio_modern_initialize_def bind_eq_Some_conv)
    let ?vd1 = "vd1\<lparr>vdev_common := c\<rparr>"
    have s1: "still V vd ?vd1" using still_trans [OF still_simple_map [OF 1]] by simp
    show ?thesis
    proof (cases "c = 0")
      case True
      then show ?thesis using assms caps False 1 s1 by (simp add: vio_modern_initialize_def)
    next
      case c: False
      then obtain i l2 vd2 where 2: "vio_modern_map_simple_capability S (caps ! 3) 1 1 ?vd1 = Some ((i, l2), vd2)"
        using assms caps False 1 by (auto simp: vio_modern_initialize_def bind_eq_Some_conv)
      let ?vd2 = "vd2\<lparr>vdev_isr := i\<rparr>"
      have s2: "still V vd ?vd2" using still_trans [OF s1 still_trans [OF still_simple_map [OF 2]]] by simp
      show ?thesis
      proof (cases "i = 0")
        case True
        then show ?thesis using assms caps False c 1 2 s2 by (simp add: vio_modern_initialize_def)
      next
        case i: False
        then obtain st3 vd3 where 3: "modern_map_notify S (caps ! 2) ?vd2 = Some (st3, vd3)"
          using assms caps False c 1 2 by (auto simp: vio_modern_initialize_def bind_eq_Some_conv)
        have s3: "still V vd vd3" using still_trans [OF s2 still_map_notify [OF 3]] .
        have rest: "(if \<not> NT_SUCCESS st3 then Some (st3, vd3)
           else do {
             (status, vd) \<leftarrow>
               (if caps ! VIRTIO_PCI_CAP_DEVICE_CFG \<noteq> 0 then do {
                  ((a, len), vd) \<leftarrow> vio_modern_map_capability S (caps ! VIRTIO_PCI_CAP_DEVICE_CFG) 0 4 0 PAGE_SIZE vd3;
                  Some (if a = 0 then STATUS_INVALID_PARAMETER else STATUS_SUCCESS,
                        vd\<lparr>vdev_config := a, vdev_config_len := len\<rparr>)
                }
                else Some (STATUS_SUCCESS, vd3));
             Some (status, if NT_SUCCESS status then vd\<lparr>vdev_device := Some Modern\<rparr> else vd)
           }) = Some (st, vd')"
          using assms False c i unfolding vio_modern_initialize_def
          by (simp add: caps 1 2 3 Let_def split del: if_split cong: if_cong del: One_nat_def)
        show ?thesis
        proof (cases "NT_SUCCESS st3")
          case True
          then obtain st4 vd4 where 4: "(if caps ! VIRTIO_PCI_CAP_DEVICE_CFG \<noteq> 0 then do {
                  ((a, len), vd) \<leftarrow> vio_modern_map_capability S (caps ! VIRTIO_PCI_CAP_DEVICE_CFG) 0 4 0 PAGE_SIZE vd3;
                  Some (if a = 0 then STATUS_INVALID_PARAMETER else STATUS_SUCCESS,
                        vd\<lparr>vdev_config := a, vdev_config_len := len\<rparr>)
                }
                else Some (STATUS_SUCCESS, vd3)) = Some (st4, vd4)"
            "vd' = (if NT_SUCCESS st4 then vd4\<lparr>vdev_device := Some Modern\<rparr> else vd4)"
            using rest by (auto simp: bind_eq_Some_conv simp del: not_None_eq split del: if_split)
          have "still V vd vd4" using still_trans [OF s3 still_map_config [OF 4(1)]] .
          then show ?thesis using still_trans [of V vd vd4 vd'] 4(2) by (simp split: if_splits)
        qed (use rest s3 in simp)
      qed
    qed
  qed
qed

lemma still_legacy_initialize:
  assumes "vio_legacy_initialize S vd = Some (st, vd')"
  shows "still V vd vd'" "NT_SUCCESS st \<Longrightarrow> vdev_device vd' = Some Legacy"
proof -
  obtain len a s' where a: "pci_map_address_range S 0 0 len (vdev_sys vd) = Some (a, s')"
    "(st, vd') = (if a = 0 then (STATUS_INSUFFICIENT_RESOURCES, vd\<lparr>vdev_sys := s', vdev_addr := a\<rparr>)
       else (STATUS_SUCCESS, vd\<lparr>vdev_sys := s', vdev_addr := a, vdev_isr := a + VIRTIO_PCI_ISR, vdev_device := Some Legacy\<rparr>))"
  proof -
    obtain len where 1: "pci_get_resource_len S 0 (vdev_sys vd) = Some len"
      using assms by (auto simp: vio_legacy_initialize_def bind_eq_Some_conv)
    obtain a s' where 2: "pci_map_address_range S 0 0 len (vdev_sys vd) = Some (a, s')"
      using assms 1 by (auto simp: vio_legacy_initialize_def bind_eq_Some_conv)
    show thesis using assms by (intro that [OF 2]) (auto simp: vio_legacy_initialize_def 1 2 Let_def split: if_splits)
  qed
  have "sys_ok V (vdev_sys vd) \<Longrightarrow> quiet S V (vdev_sys vd) s'"
    using mapping [of "vdev_sys vd" 0 0 len] a(1) by auto
  then show "still V vd vd'" using a(2) by (auto simp: still_def quiet_def split: if_splits)
  show "NT_SUCCESS st \<Longrightarrow> vdev_device vd' = Some Legacy" using a(2) by (auto split: if_splits)
qed

lemma device_initialize_ok:
  assumes "virtio_device_initialize S m vd = Some (st, vd')"
  shows "still V (cleared_device m vd) vd'"
proof -
  obtain st1 vd1 where 1: "vio_modern_initialize S (cleared_device m vd) = Some (st1, vd1)"
    using assms by (auto simp: virtio_device_initialize_def bind_eq_Some_conv)
  obtain st2 vd2 where 2: "(if st1 = STATUS_DEVICE_NOT_CONNECTED then vio_legacy_initialize S vd1 else Some (st1, vd1)) = Some (st2, vd2)"
    using assms 1 by (auto simp: virtio_device_initialize_def bind_eq_Some_conv split del: if_split)
  have s: "still V (cleared_device m vd) vd2"
    using still_trans [OF still_modern_initialize [OF 1]] still_legacy_initialize(1) 2 still_modern_initialize [OF 1]
    by (cases "st1 = STATUS_DEVICE_NOT_CONNECTED") auto
  show ?thesis
  proof (cases "NT_SUCCESS st2")
    case True
    then obtain vd3 vd4 where "virtio_device_reset S vd2 = Some vd3" "virtio_add_status S VIRTIO_CONFIG_S_ACKNOWLEDGE vd3 = Some vd4"
      "virtio_add_status S VIRTIO_CONFIG_S_DRIVER vd4 = Some vd'"
      using assms by (auto simp: virtio_device_initialize_def 1 2 bind_eq_Some_conv simp del: not_None_eq)
    then show ?thesis
      using still_trans [OF s] still_trans [OF still_settles(1)] still_trans [OF still_settles(2) [OF touches_add_status]]
        still_settles(2) [OF touches_add_status] by blast
  next
    case False
    then have "vd' = vd2" using assms by (simp add: virtio_device_initialize_def 1 2)
    then show ?thesis using s by simp
  qed
qed

end

text \<open>Reading the configuration.\<close>

context virtio_system
begin

lemma touches_ioread_bytes: "touches S V vd (snd (ioread_bytes S a i n vd))"
proof (induction n arbitrary: i vd)
  case (Suc n)
  obtain b vd1 where 1: "ioread8 S (a + word_of_nat i) vd = (b, vd1)" by force
  obtain bs vd2 where 2: "ioread_bytes S a (Suc i) n vd1 = (bs, vd2)" by force
  have "touches S V vd vd1" by (rule touches_reads(1) [OF 1])
  moreover have "touches S V vd1 vd2" using Suc.IH [where i = "Suc i" and vd = vd1] by (simp add: 2)
  ultimately show ?case by (simp add: 1 2 touches_trans [of S V vd vd1 vd2])
qed simp

lemma touches_dev_config:
  assumes "dev_get_config S off len vd = Some (bs, vd')"
  shows "touches S V vd vd'"
proof (cases "vdev_device vd")
  case (Some t)
  show ?thesis
  proof (cases t)
    case Modern
    let ?a = "vdev_config vd + ucast off"
    have "vd' = snd (ioread8 S ?a vd) \<or> vd' = snd (ioread16 S ?a vd) \<or> vd' = snd (ioread32 S ?a vd)"
      using assms Some Modern
      by (auto simp: dev_get_config_def vio_modern_get_config_def Let_def split: prod.splits if_splits)
    then show ?thesis by auto
  next
    case Legacy
    then have "vd' = snd (vio_legacy_get_config S off len vd)"
      using assms Some by (simp add: dev_get_config_def)
    then show ?thesis by (simp add: vio_legacy_get_config_def touches_ioread_bytes)
  qed
qed (use assms in \<open>simp add: dev_get_config_def\<close>)

lemma touches_generation:
  assumes "dev_get_generation S vd = Some (g, vd')"
  shows "touches S V vd vd'"
proof (cases "vdev_device vd")
  case (Some t)
  then show ?thesis
    using assms by (cases t) (auto intro: touches_reads(1) simp: dev_get_generation_def vio_modern_get_generation_def split: prod.splits)
qed (use assms in \<open>simp add: dev_get_generation_def\<close>)

lemma touches_cread_fields: "cread_fields S off bytes i n vd = Some (bs, vd') \<Longrightarrow> touches S V vd vd'"
proof (induction n arbitrary: i vd bs)
  case (Suc n)
  then obtain b vd1 bs' where 1: "dev_get_config S (off + bytes * word_of_nat i) bytes vd = Some (b, vd1)"
    "cread_fields S off bytes (Suc i) n vd1 = Some (bs', vd')"
    by (auto simp: bind_eq_Some_conv)
  show ?case using touches_trans [OF touches_dev_config [OF 1(1)] Suc.IH [OF 1(2)]] .
qed simp

lemma touches_cread_until:
  assumes "cread_until S off bytes n old vd = Some (bs, vd')"
  shows "touches S V vd vd'"
proof -
  have "S = S \<longrightarrow> touches S V vd (snd (bs, vd'))"
    using assms
  proof (rule cread_until.raw_induct [where P = "\<lambda>S' off bytes n old vd r. S' = S \<longrightarrow> touches S V vd (snd r)", rotated], intro impI)
    fix f S' off bytes n old vd r
    assume IH: "\<And>S' off bytes n old vd r. f S' off bytes n old vd = Some r \<Longrightarrow> S' = S \<longrightarrow> touches S V vd (snd r)" and S: "S' = S"
      and body: "Option.bind (cread_fields S' off bytes 0 n vd) (\<lambda>(buf, vd).
        Option.bind (dev_get_generation S' vd) (\<lambda>(gen, vd).
          if gen = old then Some (buf, vd) else f S' off bytes n gen vd)) = Some r"
    obtain buf vd1 where 1: "cread_fields S off bytes 0 n vd = Some (buf, vd1)" using body S by (auto simp: bind_eq_Some_conv)
    obtain gen vd2 where 2: "dev_get_generation S vd1 = Some (gen, vd2)" using body S 1 by (auto simp: bind_eq_Some_conv)
    have t: "touches S V vd vd2" by (rule touches_trans [OF touches_cread_fields [OF 1] touches_generation [OF 2]])
    show "touches S V vd (snd r)"
    proof (cases "gen = old")
      case True
      then show ?thesis using body S 1 2 t by auto
    next
      case False
      then have "f S off bytes n gen vd2 = Some r" using body S 1 2 by simp
      then show ?thesis using IH touches_trans [OF t] by blast
    qed
  qed
  then show ?thesis by simp
qed

lemma touches_config:
  assumes "virtio_get_config S off len vd = Some (bs, vd')"
  shows "touches S V vd vd'"
proof -
  have many: "touches S V vd vd'" if "virtio_cread_many S off n bytes vd = Some (bs, vd')" for n bytes
  proof -
    obtain g vd1 where "dev_get_generation S vd = Some (g, vd1)" "cread_until S off bytes n g vd1 = Some (bs, vd')"
      using \<open>virtio_cread_many S off n bytes vd = Some (bs, vd')\<close> by (auto simp: virtio_cread_many_def bind_eq_Some_conv)
    then show ?thesis using touches_trans [OF touches_generation touches_cread_until] by blast
  qed
  show ?thesis using assms touches_dev_config many by (auto simp: virtio_get_config_def split: if_splits)
qed

text \<open>From the first access to the device to the end of the negotiation.\<close>

lemma negotiated:
  assumes "sys_ok V (vdev_sys vd)" "vdev_vqs vd = Map.empty"
    "virtio_device_initialize S m vd = Some (st, vd1)" "vdev_device vd1 = Some Modern"
    "virtio_device_reset S vd1 = Some vd2" "virtio_add_status S a vd2 = Some vd3" "virtio_add_status S b vd3 = Some vd4"
    "virtio_get_features S vd4 = Some (f, vd5)" "virtio_set_features S g vd5 = Some (st6, vd6)"
  shows "transport_inv V (sys_pages V (vdev_sys vd)) (sys_blocks V (vdev_sys vd)) vd6" "active vd6 = {}" "table_block vd6 = {}"
    "vdev_packed_ring vd6 = bit g VIRTIO_F_RING_PACKED" "vdev_event_suppression_enabled vd6 = bit g VIRTIO_RING_F_EVENT_IDX"
    "vdev_maxQueues vd6 = word_of_nat MAX_QUEUES_PER_DEVICE_DEFAULT"
proof -
  have "still V (cleared_device m vd) vd1" by (rule device_initialize_ok [OF assms(3)])
  then have 1: "sys_ok V (vdev_sys vd1)" "sys_pages V (vdev_sys vd1) = sys_pages V (vdev_sys vd)"
    "sys_blocks V (vdev_sys vd1) = sys_blocks V (vdev_sys vd)"
    "vdev_info vd1 = Some (replicate MAX_QUEUES_PER_DEVICE_DEFAULT no_queue)" "vdev_info_block vd1 = 0"
    "vdev_maxQueues vd1 = word_of_nat MAX_QUEUES_PER_DEVICE_DEFAULT" "vdev_vqs vd1 = Map.empty"
    using assms(1,2) by (simp_all add: still_def cleared_device_def)
  have "settles V vd1 vd5"
    using settles_trans [OF settles_reset [OF assms(5)]] touches_settles
      touches_trans [OF touches_add_status [OF assms(6)] touches_trans [OF touches_add_status [OF assms(7)] touches_features [OF assms(8)]]]
    by blast
  then obtain s5 where 5: "vd5 = vd1\<lparr>vdev_sys := s5\<rparr>" "sys_ok V s5" "sys_pages V s5 = sys_pages V (vdev_sys vd)"
    "sys_blocks V s5 = sys_blocks V (vdev_sys vd)" using 1(1-3) by (auto simp: settles_def)
  obtain s6 where 6: "vd6 = vd1\<lparr>vdev_sys := s6, vdev_event_suppression_enabled := bit g VIRTIO_RING_F_EVENT_IDX,
      vdev_packed_ring := bit g VIRTIO_F_RING_PACKED\<rparr>" "quiet S V s5 s6"
    using set_features_ok [OF assms(9)] 5(1,2) by (cases vd1) (auto simp: touches_def)
  have c: "sys_ok V (vdev_sys vd6)" "vdev_device vd6 = Some Modern" "sys_pages V (vdev_sys vd6) = sys_pages V (vdev_sys vd)"
    "sys_blocks V (vdev_sys vd6) = sys_blocks V (vdev_sys vd)" "vdev_info vd6 = Some (replicate MAX_QUEUES_PER_DEVICE_DEFAULT no_queue)"
    "length (replicate MAX_QUEUES_PER_DEVICE_DEFAULT no_queue) = unat (vdev_maxQueues vd6)"
    "\<forall>q \<in> set (replicate MAX_QUEUES_PER_DEVICE_DEFAULT no_queue). qi_vq q = 0" "vdev_vqs vd6 = Map.empty"
    "table_block vd6 \<subseteq> sys_blocks V (vdev_sys vd)"
    using 1 5 6 assms(4) by (simp_all add: quiet_def table_block_def)
  show "transport_inv V (sys_pages V (vdev_sys vd)) (sys_blocks V (vdev_sys vd)) vd6" "active vd6 = {}"
    by (rule transport_inv_table [OF c])+
  show "table_block vd6 = {}" "vdev_packed_ring vd6 = bit g VIRTIO_F_RING_PACKED"
    "vdev_event_suppression_enabled vd6 = bit g VIRTIO_RING_F_EVENT_IDX" "vdev_maxQueues vd6 = word_of_nat MAX_QUEUES_PER_DEVICE_DEFAULT"
    using 1 6(1) by (simp_all add: table_block_def)
qed

end

end
