(* ===== verification/Snd_Init.thy ===== *)
theory Snd_Init
  imports Virtio_Queues Snd_Control
begin

text \<open>
  Creating, initialising and destroying the device (\<open>viosnd/sys/ViosndVirtio.cpp\<close>): the callbacks
  \<open>ViosndSystemOps\<close> over the device extension, the plug-and-play calls, the bring-up of the
  virtio device and the release of everything.

  The virtio device object is the member \<open>Vdev\<close> of the device extension.  Here the pair is one
  state, the library's record with the extension as its system state.  A queue object that has
  been handed to the driver is kept in \<open>Queues\<close>; \<open>sync_queues\<close> gives its ring back before the
  library deletes it.
\<close>

section \<open>What the library finds in memory\<close>

definition byte_at :: "u8 list \<Rightarrow> nat \<Rightarrow> u8" where
  "byte_at bs i = (if i < length bs then bs ! i else 0)"

definition word16_at :: "u8 list \<Rightarrow> nat \<Rightarrow> u16" where
  "word16_at bs i = le_word16 (map (byte_at bs) [i..<i + 2])"

definition word32_at :: "u8 list \<Rightarrow> nat \<Rightarrow> u32" where
  "word32_at bs i = le_word32 (map (byte_at bs) [i..<i + 4])"

definition word64_at :: "u8 list \<Rightarrow> nat \<Rightarrow> u64" where
  "word64_at bs i = le_word64 (map (byte_at bs) [i..<i + 8])"

text \<open>
  \<open>vring_init\<close>: the descriptor table, the available ring with \<open>used_event\<close>, and at the next
  aligned address the used ring with \<open>avail_event\<close>.  The driver's own members are set by
  \<open>vring_new_virtqueue_split\<close>.
\<close>

definition split_ring_in :: "u8 list \<Rightarrow> u32 \<Rightarrow> u64 \<Rightarrow> 'o virtqueue_split" where
  "split_ring_in bs n al =
     (let k = unat n; avail = 16 * k;
          used = unat ((word_of_nat (avail + 6 + 2 * k) + al - 1) AND NOT (al - 1))
      in \<lparr>num = n,
          desc = map (\<lambda>i. \<lparr>d_addr = word64_at bs (16 * i), d_len = word32_at bs (16 * i + 8),
                   d_flags = word16_at bs (16 * i + 12), d_next = word16_at bs (16 * i + 14)\<rparr>) [0..<k],
          avail_flags = word16_at bs avail, avail_idx = word16_at bs (avail + 2),
          avail_ring = map (\<lambda>i. word16_at bs (avail + 4 + 2 * i)) [0..<k],
          used_event = word16_at bs (avail + 4 + 2 * k),
          used_flags = word16_at bs used, used_idx = word16_at bs (used + 2),
          used_ring = map (\<lambda>i. (word32_at bs (used + 4 + 8 * i), word32_at bs (used + 8 + 8 * i))) [0..<k],
          avail_event = word16_at bs (used + 4 + 8 * k),
          master_flags = 0, master_idx = 0, num_unused = 0, num_added_since_kick = 0, first_unused = 0, last_used = 0,
          opaques = [], indirect = Map.empty, event_suppression = False, doorbell = 0\<rparr>)"

definition packed_ring_in :: "u8 list \<Rightarrow> u32 \<Rightarrow> 'o virtqueue_packed" where
  "packed_ring_in bs n =
     (let k = unat n
      in \<lparr>vring_num = n,
          vring_descs = map (\<lambda>i. \<lparr>pd_addr = word64_at bs (16 * i), pd_len = word32_at bs (16 * i + 8),
                   pd_id = word16_at bs (16 * i + 12), pd_flags = word16_at bs (16 * i + 14)\<rparr>) [0..<k],
          driver_off_wrap = word16_at bs (16 * k), driver_flags = word16_at bs (16 * k + 2),
          device_off_wrap = word16_at bs (16 * k + 4), device_flags = word16_at bs (16 * k + 6),
          num_added = 0, free_head = 0, num_free = 0, last_used_idx = 0, avail_used_flags = 0,
          avail_wrap_counter = False, used_wrap_counter = False, next_avail_idx = 0, event_flags_shadow = 0,
          desc_state = [], packed_indirect = Map.empty, packed_event_suppression = False, packed_doorbell = 0\<rparr>)"

definition dma_bytes :: "('q, 'e) VIOSND_DEVICE \<Rightarrow> ptr \<Rightarrow> u8 list" where
  "dma_bytes dev p = (case dma dev p of None \<Rightarrow> [] | Some bs \<Rightarrow> bs)"

section \<open>The callbacks\<close>

text \<open>Only the sleep lets time pass; every other callback is a call into the kernel or a register access.\<close>

definition ViosndSleep :: "('q, 'e) kernel \<Rightarrow> u32 \<Rightarrow> ('q, 'e) VIOSND_DEVICE \<Rightarrow> ('q, 'e) VIOSND_DEVICE" where
  "ViosndSleep K ms dev = KeDelay K dev"

definition ViosndAllocContiguous ::
  "('q, 'e) kernel \<Rightarrow> u64 \<Rightarrow> ('q, 'e) VIOSND_DEVICE \<Rightarrow> (ptr \<times> ('q, 'e) VIOSND_DEVICE) option" where
  "ViosndAllocContiguous K sz dev = do {
     ((va, la), dev) \<leftarrow> ViosndAllocateDmaBuffer K dev sz;
     Some (va, dev)
   }"

definition ViosndFreeContiguous :: "ptr \<Rightarrow> ('q, 'e) VIOSND_DEVICE \<Rightarrow> ('q, 'e) VIOSND_DEVICE option" where
  "ViosndFreeContiguous virt dev = ViosndFreeDmaBuffer dev virt"

definition ViosndGetPhysicalAddress :: "ptr \<Rightarrow> ('q, 'e) VIOSND_DEVICE \<Rightarrow> u64" where
  "ViosndGetPhysicalAddress virt dev = ViosndGetDmaAddress dev virt"

text \<open>The block is zeroed, see \<open>info_memory\<close> below.\<close>

definition ViosndAllocNonPaged ::
  "('q, 'e) kernel \<Rightarrow> u64 \<Rightarrow> ('q, 'e) VIOSND_DEVICE \<Rightarrow> ptr \<times> ('q, 'e) VIOSND_DEVICE" where
  "ViosndAllocNonPaged K sz dev = pool_alloc K dev (unat sz)"

definition ViosndFreeNonPaged :: "ptr \<Rightarrow> ('q, 'e) VIOSND_DEVICE \<Rightarrow> ('q, 'e) VIOSND_DEVICE option" where
  "ViosndFreeNonPaged a dev = (if a = 0 then Some dev else ExFreePool dev a)"

definition ViosndGetMsixVector :: "int \<Rightarrow> ('q, 'e) VIOSND_DEVICE \<Rightarrow> u16" where
  "ViosndGetMsixVector queue dev = VIRTIO_MSI_NO_VECTOR"

record virtio_sizes =
  size_of_split :: u32
  size_of_packed :: u32
  size_of_state :: u32
  size_of_info :: u32

abbreviation (input) on_ext ::
  "('e \<Rightarrow> 'a \<times> 'e) \<Rightarrow> ('q, 'e) VIOSND_DEVICE \<Rightarrow> 'a \<times> ('q, 'e) VIOSND_DEVICE" where
  "on_ext f dev \<equiv> (case f (ext dev) of (v, e) \<Rightarrow> (v, dev\<lparr>ext := e\<rparr>))"

definition ViosndSystemOps ::
  "('q, 'e) kernel \<Rightarrow> virtio_sizes \<Rightarrow> ('o, ('q, 'e) VIOSND_DEVICE) virtio_system_ops" where
  "ViosndSystemOps K Z = \<lparr>
     vdev_read_byte = (\<lambda>a. on_ext (ViosndReadByte K a)),
     vdev_read_word = (\<lambda>a. on_ext (ViosndReadWord K a)),
     vdev_read_dword = (\<lambda>a. on_ext (ViosndReadDword K a)),
     vdev_write_byte = (\<lambda>a v dev. dev\<lparr>ext := ViosndWriteByte K a v (ext dev)\<rparr>),
     vdev_write_word = (\<lambda>a v dev. dev\<lparr>ext := ViosndWriteWord K a v (ext dev)\<rparr>),
     vdev_write_dword = (\<lambda>a v dev. dev\<lparr>ext := ViosndWriteDword K a v (ext dev)\<rparr>),
     mem_alloc_contiguous_pages = ViosndAllocContiguous K,
     mem_free_contiguous_pages = ViosndFreeContiguous,
     mem_get_physical_address = ViosndGetPhysicalAddress,
     mem_alloc_nonpaged_block = ViosndAllocNonPaged K,
     mem_free_nonpaged_block = ViosndFreeNonPaged,
     pci_read_config_byte = (\<lambda>at dev. case ViosndReadConfigByte K dev at of (r, bs) \<Rightarrow> (r, byte_at bs 0)),
     pci_read_config_word = (\<lambda>at dev. case ViosndReadConfigWord K dev at of (r, bs) \<Rightarrow> (r, word16_at bs 0)),
     pci_read_config_dword = (\<lambda>at dev. case ViosndReadConfigDword K dev at of (r, bs) \<Rightarrow> (r, word32_at bs 0)),
     pci_get_resource_len = (\<lambda>bar dev. ViosndGetResourceLength dev bar),
     pci_map_address_range = (\<lambda>bar off len dev. ViosndMapAddressRange K dev bar off),
     vdev_get_msix_vector = ViosndGetMsixVector,
     vdev_sleep = ViosndSleep K,
     split_memory = (\<lambda>n al p dev. split_ring_in (dma_bytes dev p) n al),
     packed_memory = (\<lambda>n p dev. packed_ring_in (dma_bytes dev p) n),
     info_memory = (\<lambda>p n dev. replicate n no_queue),
     sizeof_virtqueue_split = size_of_split Z, sizeof_virtqueue_packed = size_of_packed Z,
     sizeof_desc_state = size_of_state Z, sizeof_queue_info = size_of_info Z\<rparr>"

section \<open>Plug and play\<close>

text \<open>
  The calls of the I/O manager.  \<open>IoCallDriver\<close> gives the status it returns and the one the
  completed IRP carries; \<open>IoGetDmaAdapter\<close> whether there is an adapter.
\<close>

record 'e pnp =
  IoAllocateIrp :: "'e \<Rightarrow> bool \<times> 'e"
  IoCallDriver :: "'e \<Rightarrow> (NTSTATUS \<times> NTSTATUS) \<times> 'e"
  IoFreeIrp :: "'e \<Rightarrow> 'e"
  IoGetDmaAdapter :: "'e \<Rightarrow> bool \<times> 'e"
  PutDmaAdapter :: "'e \<Rightarrow> 'e"
  InterfaceDereference :: "'e \<Rightarrow> 'e"
  ObReferenceObject :: "'e \<Rightarrow> 'e"
  ObDereferenceObject :: "'e \<Rightarrow> 'e"
  MmUnmapIoSpace :: "ptr \<Rightarrow> u32 \<Rightarrow> 'e \<Rightarrow> 'e"

text \<open>\<open>ViosndPnpCompletion\<close> sets the event that the sender waits for.\<close>

definition ViosndSendSynchronousPnp :: "'e pnp \<Rightarrow> 'e \<Rightarrow> NTSTATUS \<times> 'e" where
  "ViosndSendSynchronousPnp N e =
     (case IoCallDriver N e of ((status, io_status), e) \<Rightarrow> (if status = STATUS_PENDING then io_status else status, e))"

definition ViosndQueryPciBusInterface ::
  "'e pnp \<Rightarrow> bool \<Rightarrow> ('q, 'e) VIOSND_DEVICE \<Rightarrow> NTSTATUS \<times> ('q, 'e) VIOSND_DEVICE" where
  "ViosndQueryPciBusInterface N pdo dev =
     (if \<not> pdo then (STATUS_NO_SUCH_DEVICE, dev)
      else
        let (irp, dev) = on_ext (IoAllocateIrp N) dev
        in if \<not> irp then (STATUS_INSUFFICIENT_RESOURCES, dev)
           else
             let (status, dev) = on_ext (ViosndSendSynchronousPnp N) dev;
                 dev = dev\<lparr>ext := IoFreeIrp N (ext dev)\<rparr>
             in (status, if NT_SUCCESS status then dev\<lparr>PciBusInterfaceValid := True\<rparr> else dev))"

text \<open>The header type is at offset 14, the six base address registers start at 16.\<close>

abbreviation (input) sizeof_PCI_COMMON_HEADER :: nat where "sizeof_PCI_COMMON_HEADER \<equiv> 64"

definition ViosndReadPciHeader ::
  "('q, 'e) kernel \<Rightarrow> ('q, 'e) VIOSND_DEVICE \<Rightarrow> NTSTATUS \<times> ('q, 'e) VIOSND_DEVICE" where
  "ViosndReadPciHeader K dev =
     (case ViosndReadPciConfig K dev 0 sizeof_PCI_COMMON_HEADER of (r, bs) \<Rightarrow>
        if r \<noteq> 0 then (STATUS_DEVICE_CONFIGURATION_ERROR, dev)
        else (STATUS_SUCCESS, dev\<lparr>PciHeader := \<lparr>HeaderType = byte_at bs 14,
               BaseAddresses = map (\<lambda>i. word32_at bs (16 + 4 * i)) [0..<6]\<rparr>\<rparr>))"

definition ViosndInitializeDmaAdapter ::
  "'e pnp \<Rightarrow> bool \<Rightarrow> ('q, 'e) VIOSND_DEVICE \<Rightarrow> NTSTATUS \<times> ('q, 'e) VIOSND_DEVICE" where
  "ViosndInitializeDmaAdapter N pdo dev =
     (if \<not> pdo then (STATUS_NO_SUCH_DEVICE, dev)
      else
        let (adapter, dev) = on_ext (IoGetDmaAdapter N) dev; dev = dev\<lparr>DmaAdapter := adapter\<rparr>
        in (if adapter then STATUS_SUCCESS else STATUS_INSUFFICIENT_RESOURCES, dev))"

section \<open>Bringing up the virtio device\<close>

type_synonym 'e sound_device = "(opaque, (opaque virtqueue_split, 'e) VIOSND_DEVICE) virtio_device"

abbreviation (input) on_device ::
  "(('q, 'e) VIOSND_DEVICE \<Rightarrow> ('q, 'e) VIOSND_DEVICE option) \<Rightarrow> ('o, ('q, 'e) VIOSND_DEVICE) virtio_device \<Rightarrow>
   ('o, ('q, 'e) VIOSND_DEVICE) virtio_device option" where
  "on_device f vd \<equiv> map_option (\<lambda>dev. vd\<lparr>vdev_sys := dev\<rparr>) (f (vdev_sys vd))"

definition vq_number :: "vq_index \<Rightarrow> nat" where
  "vq_number i = (case i of VIRTIO_SND_VQ_CONTROL \<Rightarrow> 0 | VIRTIO_SND_VQ_EVENT \<Rightarrow> 1 | VIRTIO_SND_VQ_TX \<Rightarrow> 2 | VIRTIO_SND_VQ_RX \<Rightarrow> 3)"

abbreviation (input) VIRTIO_SND_VQ_MAX :: u32 where "VIRTIO_SND_VQ_MAX \<equiv> 4"

text \<open>\<open>Device->Queues\<close> receives the addresses that \<open>virtio_find_queues\<close> stored.\<close>

definition split_of :: "'o virtqueue_object option \<Rightarrow> 'o virtqueue_split option" where
  "split_of x = (case x of None \<Rightarrow> None
     | Some x \<Rightarrow> (case vqo_ring x of Split_queue q \<Rightarrow> Some q | Packed_queue _ \<Rightarrow> None))"

definition hand_over :: "ptr list \<Rightarrow> 'e sound_device \<Rightarrow> 'e sound_device" where
  "hand_over vqs vd = vd\<lparr>vdev_sys := (vdev_sys vd)\<lparr>Queues := (\<lambda>i.
     if vq_number i < length vqs then split_of (vdev_vqs vd (vqs ! vq_number i)) else Queues (vdev_sys vd) i)\<rparr>\<rparr>"

definition sync_queues :: "'e sound_device \<Rightarrow> 'e sound_device" where
  "sync_queues vd = vd\<lparr>vdev_vqs := (\<lambda>a. map_option (\<lambda>x.
     (case List.find (\<lambda>i. word_of_nat (vq_number i) = vqo_index x)
             [VIRTIO_SND_VQ_CONTROL, VIRTIO_SND_VQ_EVENT, VIRTIO_SND_VQ_TX, VIRTIO_SND_VQ_RX] of
        None \<Rightarrow> x
      | Some i \<Rightarrow> (case Queues (vdev_sys vd) i of None \<Rightarrow> x | Some q \<Rightarrow> x\<lparr>vqo_ring := Split_queue q\<rparr>)))
     (vdev_vqs vd a))\<rparr>"

fun free_event_buffers :: "nat list \<Rightarrow> ('q, 'e) VIOSND_DEVICE \<Rightarrow> ('q, 'e) VIOSND_DEVICE option" where
  "free_event_buffers [] dev = Some dev"
| "free_event_buffers (i # is) dev = do {
     b \<leftarrow> read_at (EventBuffers dev) i;
     dev \<leftarrow> ViosndFreeControlBuffer dev (EventVa b);
     free_event_buffers is (dev\<lparr>EventBuffers := (EventBuffers dev)[i := b\<lparr>EventVa := 0\<rparr>]\<rparr>)
   }"

text \<open>The label \<open>Fail\<close>.\<close>

definition init_failed ::
  "(opaque virtqueue_split, 'e) kernel \<Rightarrow> virtio_sizes \<Rightarrow> 'e sound_device \<Rightarrow> 'e sound_device option" where
  "init_failed K Z vd = do {
     vd \<leftarrow> on_device (free_event_buffers [0..<VIOSND_EVENT_BUFFER_COUNT]) vd;
     let vd = vd\<lparr>vdev_sys := (vdev_sys vd)\<lparr>EventBufferCount := 0\<rparr>\<rparr>;
     vd \<leftarrow> virtio_device_reset (ViosndSystemOps K Z) vd;
     vd \<leftarrow> virtio_delete_queues (ViosndSystemOps K Z) vd;
     virtio_device_shutdown (ViosndSystemOps K Z) vd
   }"

abbreviation (input) sizeof_CONFIG :: u32 where "sizeof_CONFIG \<equiv> 16"

definition ViosndInitVirtio ::
  "(opaque virtqueue_split, 'e) kernel \<Rightarrow> virtio_sizes \<Rightarrow> 'e sound_device \<Rightarrow> (NTSTATUS \<times> 'e sound_device) option" where
  "ViosndInitVirtio K Z vd = do {
     (status, vd) \<leftarrow> virtio_device_initialize (ViosndSystemOps K Z) False vd;
     if \<not> NT_SUCCESS status then Some (status, vd)
     else do {
       vd \<leftarrow> virtio_device_reset (ViosndSystemOps K Z) vd;
       vd \<leftarrow> virtio_add_status (ViosndSystemOps K Z) VIRTIO_CONFIG_S_ACKNOWLEDGE vd;
       vd \<leftarrow> virtio_add_status (ViosndSystemOps K Z) VIRTIO_CONFIG_S_DRIVER vd;
       (features, vd) \<leftarrow> virtio_get_features (ViosndSystemOps K Z) vd;
       (status, vd) \<leftarrow> virtio_set_features (ViosndSystemOps K Z) (features AND push_bit VIRTIO_F_VERSION_1 1) vd;
       if \<not> NT_SUCCESS status then do {
         vd \<leftarrow> init_failed K Z vd;
         Some (status, vd)
       }
       else do {
         ((status, vqs), vd) \<leftarrow> virtio_find_queues (ViosndSystemOps K Z) VIRTIO_SND_VQ_MAX vd;
         let vd = hand_over vqs vd;
         if \<not> NT_SUCCESS status then do {
           vd \<leftarrow> init_failed K Z vd;
           Some (status, vd)
         }
         else do {
           vd \<leftarrow> virtio_device_ready (ViosndSystemOps K Z) vd;
           let vd = vd\<lparr>vdev_sys := (vdev_sys vd)\<lparr>VirtioInitialized := True\<rparr>\<rparr>;
           (config, vd) \<leftarrow> virtio_get_config (ViosndSystemOps K Z) 0 sizeof_CONFIG vd;
           Some (STATUS_SUCCESS, vd\<lparr>vdev_sys := (vdev_sys vd)\<lparr>Config := config_of_bytes config\<rparr>\<rparr>)
         }
       }
     }
   }"

definition ViosndInitializeDevice ::
  "(opaque virtqueue_split, 'e) kernel \<Rightarrow> virtio_sizes \<Rightarrow> 'e sound_device \<Rightarrow> (NTSTATUS \<times> 'e sound_device) option" where
  "ViosndInitializeDevice K Z vd = ViosndInitVirtio K Z vd"

section \<open>Creation and destruction\<close>

fun unmap_bars :: "'e pnp \<Rightarrow> VIOSND_BAR list \<Rightarrow> 'e \<Rightarrow> 'e" where
  "unmap_bars N [] e = e"
| "unmap_bars N (b # bs) e = unmap_bars N bs (if BaseVA b \<noteq> 0 then MmUnmapIoSpace N (BaseVA b) (BarLength b) e else e)"

text \<open>The loop pops the blocks off the list.\<close>

fun free_dma_blocks :: "VIOSND_DMA_BLOCK list \<Rightarrow> ('q, 'e) VIOSND_DEVICE \<Rightarrow> ('q, 'e) VIOSND_DEVICE option" where
  "free_dma_blocks [] dev = Some dev"
| "free_dma_blocks (b # bs) dev = do {
     dev \<leftarrow> ExFreePool (dev\<lparr>DmaBlocks := bs, dma := (if DmaAdapter dev then (dma dev)(Va b := None) else dma dev)\<rparr>) (Block b);
     free_dma_blocks bs dev
   }"

definition ViosndDestroyDevice ::
  "(opaque virtqueue_split, 'e) kernel \<Rightarrow> virtio_sizes \<Rightarrow> 'e pnp \<Rightarrow> bool \<Rightarrow> 'e sound_device \<Rightarrow> 'e sound_device option" where
  "ViosndDestroyDevice K Z N pdo vd = do {
     vd \<leftarrow> (if VirtioInitialized (vdev_sys vd) then do {
              vd \<leftarrow> virtio_device_reset (ViosndSystemOps K Z) vd;
              vd \<leftarrow> virtio_delete_queues (ViosndSystemOps K Z) (sync_queues vd);
              virtio_device_shutdown (ViosndSystemOps K Z) vd
            }
            else Some vd);
     vd \<leftarrow> on_device (free_event_buffers [0..<VIOSND_EVENT_BUFFER_COUNT]) vd;
     let vd = vd\<lparr>vdev_sys := (vdev_sys vd)\<lparr>ext := unmap_bars N (Bars (vdev_sys vd)) (ext (vdev_sys vd))\<rparr>\<rparr>;
     vd \<leftarrow> on_device (\<lambda>dev. free_dma_blocks (DmaBlocks dev) dev) vd;
     let vd = (if DmaAdapter (vdev_sys vd)
               then vd\<lparr>vdev_sys := (vdev_sys vd)\<lparr>DmaAdapter := False, ext := PutDmaAdapter N (ext (vdev_sys vd))\<rparr>\<rparr> else vd);
     let vd = (if PciBusInterfaceValid (vdev_sys vd)
               then vd\<lparr>vdev_sys := (vdev_sys vd)\<lparr>ext := InterfaceDereference N (ext (vdev_sys vd))\<rparr>\<rparr> else vd);
     Some (if pdo then vd\<lparr>vdev_sys := (vdev_sys vd)\<lparr>ext := ObDereferenceObject N (ext (vdev_sys vd))\<rparr>\<rparr> else vd)
   }"

abbreviation (input) zero_bar :: VIOSND_BAR where
  "zero_bar \<equiv> \<lparr>Present = False, PortSpace = False, BasePA = 0, BarLength = 0, BaseVA = 0\<rparr>"

definition zero_device :: "'e \<Rightarrow> ('q, 'e) VIOSND_DEVICE" where
  "zero_device e = \<lparr>PciBusInterfaceValid = False, PciHeader = \<lparr>HeaderType = 0, BaseAddresses = replicate 6 0\<rparr>,
     Bars = replicate VIOSND_MAX_BARS zero_bar, DmaBlocks = [], DmaAdapter = False, VirtioInitialized = False,
     Queues = Map.empty, mutex_count = (\<lambda>_. 0), Config = \<lparr>cfg_jacks = 0, cfg_streams = 0, cfg_chmaps = 0, cfg_controls = 0\<rparr>,
     EventBuffers = replicate VIOSND_EVENT_BUFFER_COUNT \<lparr>EventVa = 0, EventPa = 0\<rparr>, EventBufferCount = 0,
     dma = Map.empty, msgs = Map.empty, ios = Map.empty, pool = [], ext = e\<rparr>"

definition zero_vdev :: "'s \<Rightarrow> ('o, 's) virtio_device" where
  "zero_vdev s =
     \<lparr>vdev_addr = 0, vdev_msix_used = False, vdev_event_suppression_enabled = False, vdev_packed_ring = False,
      vdev_device = None, vdev_isr = 0, vdev_common = 0, vdev_config = 0, vdev_notify_base = 0,
      vdev_notify_map_cap = 0, vdev_notify_offset_multiplier = 0, vdev_config_len = 0, vdev_notify_len = 0,
      vdev_maxQueues = 0, vdev_info = None, vdev_info_block = 0, vdev_vqs = Map.empty, vdev_sys = s\<rparr>"

text \<open>
  The device's own block is not part of its \<open>pool\<close>; \<open>at\<close> is its address and \<open>sz\<close> its size.  A
  failure destroys the device and stores NULL.
\<close>

definition ViosndCreateDevice ::
  "(opaque virtqueue_split, 'e) kernel \<Rightarrow> virtio_sizes \<Rightarrow> 'e pnp \<Rightarrow> nat \<Rightarrow> bool \<Rightarrow> RESOURCELIST \<Rightarrow> 'e \<Rightarrow>
   (NTSTATUS \<times> 'e sound_device option \<times> 'e) option" where
  "ViosndCreateDevice K Z N sz pdo res e =
     (case ExAllocatePool K e [] sz of (at, e) \<Rightarrow>
        if at = 0 then Some (STATUS_INSUFFICIENT_RESOURCES, None, e)
        else do {
          let dev = zero_device (if pdo then ObReferenceObject N e else e);
          (status, dev) \<leftarrow>
            (case ViosndQueryPciBusInterface N pdo dev of (status, dev) \<Rightarrow>
             if \<not> NT_SUCCESS status then Some (status, dev)
             else case ViosndReadPciHeader K dev of (status, dev) \<Rightarrow>
             if \<not> NT_SUCCESS status then Some (status, dev)
             else case ViosndInitializeDmaAdapter N pdo dev of (status, dev) \<Rightarrow>
             if \<not> NT_SUCCESS status then Some (status, dev)
             else ViosndMapBars dev res);
          if NT_SUCCESS status then Some (status, Some (zero_vdev dev), ext dev)
          else do {
            vd \<leftarrow> ViosndDestroyDevice K Z N pdo (zero_vdev dev);
            Some (status, None, ext (vdev_sys vd))
          }
        })"

section \<open>The driver meets the contract of the library\<close>

text \<open>
  The pages that the library holds are the DMA buffers no other object of the driver owns, its
  blocks the pool blocks no other object lives in.
\<close>

definition ring_pages :: "('q, 'e) VIOSND_DEVICE \<Rightarrow> ptr set" where
  "ring_pages dev = dom (dma dev) - (\<Union>x. bufs dev x)"

definition own_blocks :: "('q, 'e) VIOSND_DEVICE \<Rightarrow> ptr set" where
  "own_blocks dev = set (pool dev) - dom (msgs dev) - dom (ios dev) - Block ` set (DmaBlocks dev)"

text \<open>What the rest of the driver keeps, \<open>c\<close>, is not the library's.\<close>

type_synonym client = "VIOSND_EVENT_BUFFER list \<times> (ptr \<Rightarrow> VIOSND_CONTROL_MESSAGE option) \<times> (ptr \<Rightarrow> VIOSND_PCM_IO option)"

definition sound_ok :: "client \<Rightarrow> (opaque virtqueue_split, 'e) VIOSND_DEVICE \<Rightarrow> bool" where
  "sound_ok c dev \<longleftrightarrow> dev_inv split_inv split_inflight {} {} dev \<and> length (Bars dev) = VIOSND_MAX_BARS \<and> (EventBuffers dev, msgs dev, ios dev) = c"

definition sound_view ::
  "client \<Rightarrow> ((opaque virtqueue_split, 'e) VIOSND_DEVICE, opaque virtqueue_split queues \<times> bool) system_view" where
  "sound_view c = \<lparr>sys_ok = sound_ok c, sys_pages = ring_pages, sys_blocks = own_blocks, 
     sys_rest = (\<lambda>dev. (Queues dev, VirtioInitialized dev))\<rparr>"

lemma sound_view_simps [simp]:
  "sys_ok (sound_view c) = sound_ok c" "sys_pages (sound_view c) = ring_pages" "sys_blocks (sound_view c) = own_blocks"
  "sys_rest (sound_view c) dev = (Queues dev, VirtioInitialized dev)"
  by (simp_all add: sound_view_def)

text \<open>An allocation that failed goes on failing while the same memory is in use.\<close>

definition steady :: "('q, 'e) kernel \<Rightarrow> bool" where
  "steady K \<longleftrightarrow> (\<forall>e e' ps n. fst (ExAllocatePool K e ps n) = 0 \<longrightarrow> fst (ExAllocatePool K e' ps n) = 0) \<and>
     (\<forall>e e' bs n. fst (AllocateCommonBuffer K e bs n) = 0 \<longrightarrow> fst (AllocateCommonBuffer K e' bs n) = 0)"

lemma bufs_dom: "dev_inv qinv inflight E P dev \<Longrightarrow> bufs dev x \<subseteq> dom (dma dev)"
  using own_inv_bufsD [of E P dev _ x] by (auto simp: dev_inv_def)

lemma own_inv_change:
  assumes "own_inv E P dev" "E' \<subseteq> dom (dma dev)" "\<And>x. bufs dev x \<inter> E' = {}"
    "P' \<subseteq> set (pool dev) - dom (msgs dev) - dom (ios dev) - Block ` set (DmaBlocks dev)"
  shows "own_inv E' P' dev"
proof -
  have "bufs dev x \<subseteq> dom (dma dev) - E'" for x using own_inv_bufsD [OF assms(1), of _ x] assms(3) by blast
  then show ?thesis using assms(1,2,4) by (simp add: own_inv_def)
qed

lemma dev_inv_max:
  assumes "dev_inv qinv inflight E P dev"
  shows "dev_inv qinv inflight (ring_pages dev) (own_blocks dev) dev"
proof -
  have "own_inv (ring_pages dev) (own_blocks dev) dev"
    by (rule own_inv_change [of E P]) (use assms in \<open>auto simp: dev_inv_def ring_pages_def own_blocks_def\<close>)
  then show ?thesis using assms by (simp add: dev_inv_def)
qed

lemma dev_inv_min:
  assumes "dev_inv qinv inflight E P dev" "E' \<subseteq> E" "P' \<subseteq> P"
  shows "dev_inv qinv inflight E' P' dev"
proof -
  have o: "own_inv E P dev" using assms(1) by (simp add: dev_inv_def)
  have "own_inv E' P' dev"
  proof (rule own_inv_change [OF o])
    show "E' \<subseteq> dom (dma dev)" using own_inv_E [OF o] assms(2) by (rule order_trans [rotated])
    show "bufs dev x \<inter> E' = {}" for x using own_inv_bufsD [OF o, of _ x] assms(2) by blast
    show "P' \<subseteq> set (pool dev) - dom (msgs dev) - dom (ios dev) - Block ` set (DmaBlocks dev)"
      using own_inv_P [OF o] assms(3) by (rule order_trans [rotated])
  qed
  then show ?thesis using assms(1) by (simp add: dev_inv_def)
qed

lemma sound_env [simp]:
  "ring_pages (dev\<lparr>ext := e\<rparr>) = ring_pages dev" "own_blocks (dev\<lparr>ext := e\<rparr>) = own_blocks dev"
  "sound_ok c (dev\<lparr>ext := e\<rparr>) = sound_ok c dev" "dma_bytes (dev\<lparr>ext := e\<rparr>) = dma_bytes dev"
proof -
  have "bufs (dev\<lparr>ext := e\<rparr>) = bufs dev" by (intro ext bufs_cong) (simp add: drv_def)
  then show "ring_pages (dev\<lparr>ext := e\<rparr>) = ring_pages dev" by (simp add: ring_pages_def)
  show "own_blocks (dev\<lparr>ext := e\<rparr>) = own_blocks dev" by (simp add: own_blocks_def)
  show "sound_ok c (dev\<lparr>ext := e\<rparr>) = sound_ok c dev" by (simp add: sound_ok_def)
  show "dma_bytes (dev\<lparr>ext := e\<rparr>) = dma_bytes dev" by (simp add: dma_bytes_def fun_eq_iff)
qed

lemma sound_bars [simp]:
  "ring_pages (dev\<lparr>Bars := b\<rparr>) = ring_pages dev" "own_blocks (dev\<lparr>Bars := b\<rparr>) = own_blocks dev"
  "dma_bytes (dev\<lparr>Bars := b\<rparr>) = dma_bytes dev" "dev_inv qinv inflight E P (dev\<lparr>Bars := b\<rparr>) = dev_inv qinv inflight E P dev"
proof -
  have b: "bufs (dev\<lparr>Bars := b\<rparr>) = bufs dev" by (simp add: fun_eq_iff bufs_def split: opaque.split)
  then show "ring_pages (dev\<lparr>Bars := b\<rparr>) = ring_pages dev" by (simp add: ring_pages_def)
  show "own_blocks (dev\<lparr>Bars := b\<rparr>) = own_blocks dev" by (simp add: own_blocks_def)
  show "dma_bytes (dev\<lparr>Bars := b\<rparr>) = dma_bytes dev" by (simp add: dma_bytes_def fun_eq_iff)
  have t: "token_ok (dev\<lparr>Bars := b\<rparr>) = token_ok dev" by (simp add: fun_eq_iff token_ok_def split: opaque.split)
  have l: "buf_len (dev\<lparr>Bars := b\<rparr>) = buf_len dev" by (simp add: fun_eq_iff buf_len_def)
  have o: "msg_ok (dev\<lparr>Bars := b\<rparr>) = msg_ok dev" "write_io_ok (dev\<lparr>Bars := b\<rparr>) = write_io_ok dev"
    "read_io_ok (dev\<lparr>Bars := b\<rparr>) = read_io_ok dev"
    by (simp_all add: fun_eq_iff msg_ok_def write_io_ok_def read_io_ok_def l)
  show "dev_inv qinv inflight E P (dev\<lparr>Bars := b\<rparr>) = dev_inv qinv inflight E P dev"
    by (simp add: dev_inv_def mem_inv_def own_inv_def queue_inv_def b t l o)
qed

lemma zero_words [simp]:
  "word16_at (replicate k 0) i = 0" "word32_at (replicate k 0) i = 0" "word64_at (replicate k 0) i = 0"
proof -
  have z: "map (byte_at (replicate k 0)) xs = replicate (length xs) 0" for xs
    by (induction xs) (simp_all add: byte_at_def)
  show "word16_at (replicate k 0) i = 0" "word32_at (replicate k 0) i = 0" "word64_at (replicate k 0) i = 0"
    unfolding word16_at_def word32_at_def word64_at_def z by (simp_all add: le_word16_def le_word64_def)
qed

lemma rings_blank_zero: "dma dev p = Some (replicate k 0) \<Longrightarrow> rings_blank (ViosndSystemOps K Z) p dev"
  by (simp add: rings_blank_def ViosndSystemOps_def dma_bytes_def split_ring_in_def packed_ring_in_def Let_def
      pages_zeroed_def list_eq_iff_nth_eq)

lemma sound_quiet_ext: "sound_ok c dev \<Longrightarrow> quiet (ViosndSystemOps K Z) (sound_view c) dev (dev\<lparr>ext := e\<rparr>)"
  by (simp add: quiet_def same_rings_def ViosndSystemOps_def)

lemma drv_pages:
  assumes "drv dev' = drv dev" "dom (dma dev') = dom (dma dev)"
  shows "ring_pages dev' = ring_pages dev"
proof -
  have "bufs dev' = bufs dev" by (intro ext bufs_cong [OF assms(1)])
  then show ?thesis using assms(2) by (simp add: ring_pages_def)
qed

lemma system_ops [simp]:
  "vdev_read_byte (ViosndSystemOps K Z) = (\<lambda>a. on_ext (ViosndReadByte K a))"
  "vdev_read_word (ViosndSystemOps K Z) = (\<lambda>a. on_ext (ViosndReadWord K a))"
  "vdev_read_dword (ViosndSystemOps K Z) = (\<lambda>a. on_ext (ViosndReadDword K a))"
  "vdev_write_byte (ViosndSystemOps K Z) = (\<lambda>a v dev. dev\<lparr>ext := ViosndWriteByte K a v (ext dev)\<rparr>)"
  "vdev_write_word (ViosndSystemOps K Z) = (\<lambda>a v dev. dev\<lparr>ext := ViosndWriteWord K a v (ext dev)\<rparr>)"
  "vdev_write_dword (ViosndSystemOps K Z) = (\<lambda>a v dev. dev\<lparr>ext := ViosndWriteDword K a v (ext dev)\<rparr>)"
  "mem_alloc_contiguous_pages (ViosndSystemOps K Z) = ViosndAllocContiguous K"
  "mem_free_contiguous_pages (ViosndSystemOps K Z) = ViosndFreeContiguous"
  "mem_alloc_nonpaged_block (ViosndSystemOps K Z) = ViosndAllocNonPaged K"
  "mem_free_nonpaged_block (ViosndSystemOps K Z) = ViosndFreeNonPaged"
  "pci_get_resource_len (ViosndSystemOps K Z) = (\<lambda>bar dev. ViosndGetResourceLength dev bar)"
  "pci_map_address_range (ViosndSystemOps K Z) = (\<lambda>bar off len dev. ViosndMapAddressRange K dev bar off)"
  "vdev_get_msix_vector (ViosndSystemOps K Z) = ViosndGetMsixVector"
  "vdev_sleep (ViosndSystemOps K Z) = ViosndSleep K"
  "split_memory (ViosndSystemOps K Z) = (\<lambda>n al p dev. split_ring_in (dma_bytes dev p) n al)"
  "packed_memory (ViosndSystemOps K Z) = (\<lambda>n p dev. packed_ring_in (dma_bytes dev p) n)"
  "info_memory (ViosndSystemOps K Z) = (\<lambda>p n dev. replicate n no_queue)"
  by (simp_all add: ViosndSystemOps_def)

lemma own_blocks_alt: "own_blocks dev = (set (pool dev) - Block ` set (DmaBlocks dev)) - dom (msgs dev) - dom (ios dev)"
  by (auto simp: own_blocks_def)

lemma sound_sleep:
  assumes "kernel_ok K" "sound_ok c dev"
  shows "sound_ok c (KeDelay K dev) \<and> ring_pages (KeDelay K dev) = ring_pages dev \<and> own_blocks (KeDelay K dev) = own_blocks dev"
proof -
  have i: "dev_inv split_inv split_inflight {} {} dev" "length (Bars dev) = VIOSND_MAX_BARS" "(EventBuffers dev, msgs dev, ios dev) = c" using assms(2) by (simp_all add: sound_ok_def)
  have dk: "device_ok split_inv split_inflight split_pending split_room K" using assms(1) by (simp add: kernel_ok_def)
  note k = KeDelay_inv [OF dk i(1)]
  have "ring_pages (KeDelay K dev) = ring_pages dev" using k by (intro drv_pages same_len_dom) simp_all
  moreover have "pool (KeDelay K dev) = pool dev" "DmaBlocks (KeDelay K dev) = DmaBlocks dev"
    by (simp_all add: KeDelay_def split: prod.split)
  ultimately show ?thesis
    using k drv_simps [of "KeDelay K dev" dev] i(2,3) by (simp add: sound_ok_def own_blocks_def)
qed

lemma sound_alloc:
  assumes "allocators_ok K" "sound_ok c dev"
  shows "\<exists>p dev'. ViosndAllocContiguous K n dev = Some (p, dev') \<and> got_pages (ViosndSystemOps K Z) (sound_view c) p dev dev'"
proof -
  have i: "dev_inv split_inv split_inflight {} {} dev" "length (Bars dev) = VIOSND_MAX_BARS" "(EventBuffers dev, msgs dev, ios dev) = c" using assms(2) by (simp_all add: sound_ok_def)
  obtain va la dev' where a: "ViosndAllocateDmaBuffer K dev n = Some ((va, la), dev')"
    "dev_inv split_inv split_inflight (if va = 0 then {} else insert va {}) {} dev'" "va \<notin> {}"
    "va \<noteq> 0 \<Longrightarrow> va \<notin> dom (dma dev) \<and> dma dev' va = Some (replicate (unat (ROUND_TO_PAGES n)) 0)"
    "drv dev' = drv dev" "Queues dev' = Queues dev" "mutex_count dev' = mutex_count dev"
    "\<And>v. v \<in> dom (dma dev) \<Longrightarrow> dma dev' v = dma dev v"
    "dom (dma dev') = (if va = 0 then dom (dma dev) else insert va (dom (dma dev)))"
    "set (pool dev') - Block ` set (DmaBlocks dev') = set (pool dev) - Block ` set (DmaBlocks dev)"
    by (rule AllocateDmaBuffer_inv [OF assms(1) i(1), of n]) (rule that; assumption)
  note f = drv_simps [OF a(5)]
  have b: "bufs dev' = bufs dev" by (intro ext bufs_cong [OF a(5)])
  have ok: "sound_ok c dev'" using dev_inv_min [OF a(2), of "{}" "{}"] i(2,3) f by (simp add: sound_ok_def)
  have ob: "own_blocks dev' = own_blocks dev" using a(10) f by (simp add: own_blocks_alt)
  have rp: "ring_pages dev' = (if va = 0 then ring_pages dev else insert va (ring_pages dev))"
  proof (cases "va = 0")
    case False
    then have "va \<notin> (\<Union>x. bufs dev x)" using a(4) bufs_dom [OF i(1)] by blast
    then show ?thesis using a(9) b False by (auto simp: ring_pages_def)
  qed (use a(9) b in \<open>simp add: ring_pages_def\<close>)
  have "got_pages (ViosndSystemOps K Z) (sound_view c) va dev dev'"
  proof (cases "va = 0")
    case False
    have "rings_blank (ViosndSystemOps K Z) va dev'" using a(4) [OF False] rings_blank_zero by blast
    moreover have "va \<notin> ring_pages dev" using a(4) [OF False] by (auto simp: ring_pages_def)
    ultimately show ?thesis using ok ob rp False by (simp add: got_pages_def)
  qed (use ok ob rp in \<open>simp add: got_pages_def\<close>)
  then show ?thesis using a(1) by (simp add: ViosndAllocContiguous_def)
qed

lemma sound_alloc_again:
  assumes "steady K" "sound_ok c dev" "ViosndAllocContiguous K n dev = Some (0, dev')" "ROUND_TO_PAGES n' = ROUND_TO_PAGES n"
  shows "\<exists>dev''. ViosndAllocContiguous K n' dev' = Some (0, dev'')"
proof -
  have m: "DmaAdapter dev" "0 \<notin> Va ` set (DmaBlocks dev)" using assms(2) by (auto simp: sound_ok_def dev_inv_def mem_inv_def)
  let ?n = "ROUND_TO_PAGES n"
  obtain p e1 where p: "ExAllocatePool K (ext dev) (pool dev) 32 = (p, e1)" by force
  obtain va la e2 where c: "AllocateCommonBuffer K e1 (DmaBlocks dev) (ucast ?n) = (va, la, e2)" by (metis surj_pair)
  have fails: "ucast MAXULONG < ?n \<or> p = 0 \<or> va = 0"
    using assms(3) m(1) p c by (auto simp: ViosndAllocContiguous_def ViosndAllocateDmaBuffer_def Let_def pool_alloc_def
        ExFreePool_def split: if_splits)
  have dev': "pool dev' = pool dev" "DmaBlocks dev' = DmaBlocks dev" "DmaAdapter dev'"
    using fails assms(3) m(1) p c
    by (auto simp: ViosndAllocContiguous_def ViosndAllocateDmaBuffer_def Let_def pool_alloc_def ExFreePool_def split: if_splits)
  obtain p' e3 where p': "ExAllocatePool K (ext dev') (pool dev) 32 = (p', e3)" by force
  obtain va' la' e4 where c': "AllocateCommonBuffer K e3 (DmaBlocks dev) (ucast ?n) = (va', la', e4)" by (metis surj_pair)
  have "p = 0 \<Longrightarrow> p' = 0" "va = 0 \<Longrightarrow> va' = 0"
    using assms(1) p p' c c' unfolding steady_def by (metis fst_conv)+
  then have "ucast MAXULONG < ?n \<or> p' = 0 \<or> va' = 0" using fails by blast
  then show ?thesis
    using dev' p' c' assms(4)
    by (auto simp: ViosndAllocContiguous_def ViosndAllocateDmaBuffer_def Let_def pool_alloc_def ExFreePool_def)
qed

lemma sound_free_pages:
  assumes "sound_ok c dev" "p \<in> ring_pages dev"
  shows "\<exists>dev'. ViosndFreeContiguous p dev = Some dev' \<and> sound_ok c dev' \<and> own_blocks dev' = own_blocks dev \<and>
    ring_pages dev' = ring_pages dev - {p}"
proof -
  have i: "dev_inv split_inv split_inflight {} {} dev" "length (Bars dev) = VIOSND_MAX_BARS" "(EventBuffers dev, msgs dev, ios dev) = c" using assms(1) by (simp_all add: sound_ok_def)
  obtain dev' where d: "ViosndFreeControlBuffer dev p = Some dev'"
    "dev_inv split_inv split_inflight (ring_pages dev - {p}) (own_blocks dev) dev'"
    "drv dev' = drv dev" "dma dev' = (dma dev)(p := None)"
    using FreeControlBuffer_inv [OF dev_inv_max [OF i(1)]] assms(2) by metis
  note f = drv_simps [OF d(3)]
  have b: "bufs dev' = bufs dev" by (intro ext bufs_cong [OF d(3)])
  have "sound_ok c dev'" using dev_inv_min [OF d(2)] i(2,3) f by (simp add: sound_ok_def)
  moreover have "own_blocks dev' = own_blocks dev"
    using FreeDmaBuffer_pool [OF dev_inv_mem [OF i(1)] d(1) [unfolded ViosndFreeControlBuffer_def]] f
    by (simp add: own_blocks_alt)
  moreover have "ring_pages dev' = ring_pages dev - {p}" using d(4) b by (auto simp: ring_pages_def)
  ultimately show ?thesis using d(1) by (simp add: ViosndFreeContiguous_def ViosndFreeControlBuffer_def)
qed

lemma sound_pool_alloc:
  assumes "allocators_ok K" "sound_ok c dev" "pool_alloc K dev n = (p, dev')"
  shows "sound_ok c dev' \<and> ring_pages dev' = ring_pages dev \<and> dma dev' = dma dev \<and> Queues dev' = Queues dev \<and>
    (if p = 0 then own_blocks dev' = own_blocks dev
     else p \<notin> own_blocks dev \<and> own_blocks dev' = insert p (own_blocks dev))"
proof -
  have i: "dev_inv split_inv split_inflight {} {} dev" "length (Bars dev) = VIOSND_MAX_BARS" "(EventBuffers dev, msgs dev, ios dev) = c" using assms(2) by (simp_all add: sound_ok_def)
  note pa = assms(3)
  obtain e where d: "dev' = dev\<lparr>ext := e, pool := (if p = 0 then pool dev else p # pool dev)\<rparr>" "p \<noteq> 0 \<Longrightarrow> p \<notin> set (pool dev)"
    using pool_alloc_cases [OF assms(1) pa] by metis
  note a = dev_inv_pool_alloc [OF assms(1) i(1) pa]
  have r: "ring_pages dev' = ring_pages dev" using a by (intro drv_pages) simp_all
  have s: "sound_ok c dev'" using dev_inv_min [of _ _ _ _ dev' "{}" "{}"] a i(2,3) d(1) by (auto simp: sound_ok_def)
  have "p \<noteq> 0 \<Longrightarrow> p \<notin> dom (msgs dev) \<union> dom (ios dev) \<union> Block ` set (DmaBlocks dev)"
    using d(2) dev_inv_mem [OF i(1)] by (auto simp: mem_inv_def)
  then have "if p = 0 then own_blocks dev' = own_blocks dev
     else p \<notin> own_blocks dev \<and> own_blocks dev' = insert p (own_blocks dev)"
    using d by (auto simp: own_blocks_def)
  then show ?thesis using r s a by simp
qed

lemma sound_alloc_block:
  assumes "allocators_ok K" "sound_ok c dev" "ViosndAllocNonPaged K n dev = (p, dev')"
  shows "sound_ok c dev' \<and> ring_pages dev' = ring_pages dev \<and> dma dev' = dma dev \<and> Queues dev' = Queues dev \<and>
    (if p = 0 then own_blocks dev' = own_blocks dev
     else p \<notin> own_blocks dev \<and> own_blocks dev' = insert p (own_blocks dev))"
  using sound_pool_alloc [OF assms(1,2)] assms(3) by (simp add: ViosndAllocNonPaged_def)

lemma alloc_block_flag: "ViosndAllocNonPaged K n dev = (p, dev') \<Longrightarrow> VirtioInitialized dev' = VirtioInitialized dev"
  by (auto simp: ViosndAllocNonPaged_def pool_alloc_def split: prod.splits if_splits)

lemma sound_free_block:
  assumes "sound_ok c dev" "p \<in> own_blocks dev"
  shows "\<exists>dev'. ViosndFreeNonPaged p dev = Some dev' \<and> sound_ok c dev' \<and> ring_pages dev' = ring_pages dev \<and>
    own_blocks dev' = own_blocks dev - {p}"
proof -
  have i: "dev_inv split_inv split_inflight {} {} dev" "length (Bars dev) = VIOSND_MAX_BARS" "(EventBuffers dev, msgs dev, ios dev) = c" using assms(1) by (simp_all add: sound_ok_def)
  have m: "distinct (pool dev)" "0 \<notin> set (pool dev)" using i(1) by (simp_all add: dev_inv_def mem_inv_def)
  obtain dev' where d: "ExFreePool dev p = Some dev'" "dev_inv split_inv split_inflight (ring_pages dev) (own_blocks dev - {p}) dev'"
    "drv dev' = drv dev" "dma dev' = dma dev"
    using ExFreePool_inv [OF dev_inv_max [OF i(1)] assms(2)] by metis
  note f = drv_simps [OF d(3)]
  have "p \<noteq> 0" using assms(2) m(2) by (auto simp: own_blocks_def)
  moreover have "sound_ok c dev'" using dev_inv_min [OF d(2)] i(2,3) f by (simp add: sound_ok_def)
  moreover have "ring_pages dev' = ring_pages dev" using d(3,4) by (intro drv_pages) simp_all
  moreover have "dev' = dev\<lparr>pool := remove1 p (pool dev)\<rparr>" using d(1) by (auto simp: ExFreePool_def split: if_splits)
  then have "own_blocks dev' = own_blocks dev - {p}" using m(1) by (auto simp: own_blocks_def)
  ultimately show ?thesis using d(1) by (simp add: ViosndFreeNonPaged_def)
qed

lemma sound_map:
  assumes "sound_ok c dev"
  shows "\<exists>a dev'. ViosndMapAddressRange K dev bar off = Some (a, dev') \<and> quiet (ViosndSystemOps K Z :: ('o, _) virtio_system_ops) (sound_view c) dev dev'"
proof (cases "bar < 0 \<or> int VIOSND_MAX_BARS \<le> bar")
  case True
  then show ?thesis using assms by (simp add: ViosndMapAddressRange_def)
next
  case False
  then have "nat bar < 6" by linarith
  then have r: "read_at (Bars dev) (nat bar) = Some (Bars dev ! nat bar)" using assms by (simp add: read_at_def sound_ok_def)
  obtain va e where m: "MmMapIoSpaceEx K (ext dev) (BasePA (Bars dev ! nat bar)) (BarLength (Bars dev ! nat bar)) = (va, e)" by force
  have q: "quiet (ViosndSystemOps K Z :: ('o, _) virtio_system_ops) (sound_view c) dev (dev\<lparr>ext := e, Bars := (Bars dev)[nat bar := b]\<rparr>)" for b
  proof -
    have "sound_ok c (dev\<lparr>ext := e, Bars := (Bars dev)[nat bar := b]\<rparr>)" using assms by (simp add: sound_ok_def)
    moreover have "dma_bytes (dev\<lparr>ext := e, Bars := (Bars dev)[nat bar := b]\<rparr>) = dma_bytes dev" by simp
    ultimately show ?thesis by (simp add: quiet_def same_rings_def ViosndSystemOps_def)
  qed
  show ?thesis using False r m q assms by (simp add: ViosndMapAddressRange_def Let_def)
qed

lemma sound_system:
  assumes "kernel_ok K" "steady K"
  shows "virtio_system (ViosndSystemOps K Z) (sound_view c)"
proof -
  have a: "allocators_ok K" using assms(1) by (simp add: kernel_ok_def)
  let ?S = "ViosndSystemOps K Z"
  show ?thesis
  proof (unfold_locales, goal_cases)
    case (10 s len)
    show ?case using sound_alloc [OF a, of c s len Z] 10 by simp
  next
    case (11 s len s' len')
    then have "sound_ok c s" "ViosndAllocContiguous K len s = Some (0, s')" "ROUND_TO_PAGES len' = ROUND_TO_PAGES len"
      by simp_all
    from sound_alloc_again [OF assms(2) this] show ?case by simp
  next
    case (12 s p)
    then show ?case using sound_free_pages by simp
  next
    case (13 s len p s')
    then have "ViosndAllocNonPaged K len s = (p, s')" "sound_ok c s" by simp_all
    from sound_alloc_block [OF a this(2,1)] alloc_block_flag [OF this(1)] show ?case
      by (auto simp: same_rings_def dma_bytes_def)
  next
    case (14 s p)
    then show ?case using sound_free_block by simp
  next
    case (15 s)
    then have "mem_inv s" by (simp add: sound_ok_def dev_inv_def)
    then show ?case using mem_inv_null [of s] by (auto simp: ring_pages_def own_blocks_def mem_inv_def)
  next
    case (9 s bar off len)
    then show ?case using sound_map [of c s K bar off Z] by simp
  next
    case (8 s bar)
    then show ?case by (auto simp: ViosndGetResourceLength_def sound_ok_def read_at_def)
  next
    case (7 s d)
    then show ?case using sound_sleep [OF assms(1)] by (simp add: ViosndSleep_def)
  qed (simp_all add: sound_quiet_ext split: prod.split)
qed

interpretation sound: virtio_system "ViosndSystemOps idle_kernel Z" "sound_view c" for Z c
proof (rule sound_system [OF idle_kernel_ok])
  show "steady idle_kernel" by (simp add: steady_def idle_kernel_def)
qed

end
