(* ===== verification/Snd_Start.thy ===== *)
theory Snd_Start
  imports Snd_Init
begin

text \<open>
  The bring-up of the device proved correct: \<open>ViosndInitVirtio\<close> establishes the invariant that the
  rest of the driver relies on or gives back what it took, and when the waits and searches in it
  end.
\<close>

section \<open>The driver's invariant after the bring-up\<close>

lemma dev_inv_queues:
  assumes "dev_inv qinv inflight E P dev" "\<And>i q. f i = Some q \<Longrightarrow> qinv q \<and> inflight q = {#} \<or> Queues dev i = Some q"
  shows "dev_inv qinv inflight E P (dev\<lparr>Queues := f\<rparr>)"
proof -
  let ?dev = "dev\<lparr>Queues := f\<rparr>"
  have b: "bufs ?dev = bufs dev" by (simp add: fun_eq_iff bufs_def split: opaque.split)
  have l: "buf_len ?dev = buf_len dev" by (simp add: fun_eq_iff buf_len_def)
  have o: "msg_ok ?dev = msg_ok dev" "write_io_ok ?dev = write_io_ok dev" "read_io_ok ?dev = read_io_ok dev"
    by (simp_all add: fun_eq_iff msg_ok_def write_io_ok_def read_io_ok_def l)
  have t: "token_ok ?dev = token_ok dev" by (simp add: fun_eq_iff token_ok_def split: opaque.split)
  have "mem_inv ?dev" using assms(1) by (simp add: dev_inv_def mem_inv_def)
  moreover have "own_inv E P ?dev" using assms(1) by (simp add: dev_inv_def own_inv_def b l o)
  moreover have "queue_inv qinv inflight ?dev"
    using assms(1,2) unfolding queue_inv_def dev_inv_def t by (fastforce simp: t)
  ultimately show ?thesis by (simp add: dev_inv_def)
qed

lemma dev_inv_flags:
  "dev_inv qinv inflight E P (dev\<lparr>VirtioInitialized := b\<rparr>) = dev_inv qinv inflight E P dev"
  "dev_inv qinv inflight E P (dev\<lparr>Config := k\<rparr>) = dev_inv qinv inflight E P dev"
  "dev_inv qinv inflight E P (dev\<lparr>EventBufferCount := n\<rparr>) = dev_inv qinv inflight E P dev"
proof -
  let ?a = "dev\<lparr>VirtioInitialized := b\<rparr>" and ?b = "dev\<lparr>Config := k\<rparr>" and ?c = "dev\<lparr>EventBufferCount := n\<rparr>"
  have b: "bufs ?a = bufs dev" "bufs ?b = bufs dev" "bufs ?c = bufs dev"
    by (simp_all add: fun_eq_iff bufs_def split: opaque.split)
  have t: "token_ok ?a = token_ok dev" "token_ok ?b = token_ok dev" "token_ok ?c = token_ok dev"
    by (simp_all add: fun_eq_iff token_ok_def split: opaque.split)
  have l: "buf_len ?a = buf_len dev" "buf_len ?b = buf_len dev" "buf_len ?c = buf_len dev" by (simp_all add: fun_eq_iff buf_len_def)
  have o: "msg_ok ?a = msg_ok dev" "write_io_ok ?a = write_io_ok dev" "read_io_ok ?a = read_io_ok dev"
    "msg_ok ?b = msg_ok dev" "write_io_ok ?b = write_io_ok dev" "read_io_ok ?b = read_io_ok dev"
    "msg_ok ?c = msg_ok dev" "write_io_ok ?c = write_io_ok dev" "read_io_ok ?c = read_io_ok dev"
    by (simp_all add: fun_eq_iff msg_ok_def write_io_ok_def read_io_ok_def l)
  show "dev_inv qinv inflight E P ?a = dev_inv qinv inflight E P dev" "dev_inv qinv inflight E P ?b = dev_inv qinv inflight E P dev"
    "dev_inv qinv inflight E P ?c = dev_inv qinv inflight E P dev"
    by (simp_all add: dev_inv_def mem_inv_def own_inv_def queue_inv_def b t l o)
qed

lemma bufs_fields [simp]:
  "bufs (dev\<lparr>Queues := f\<rparr>) = bufs dev" "bufs (dev\<lparr>VirtioInitialized := b\<rparr>) = bufs dev" "bufs (dev\<lparr>Config := k\<rparr>) = bufs dev"
  "bufs (dev\<lparr>EventBufferCount := n\<rparr>) = bufs dev"
  by (simp_all add: fun_eq_iff bufs_def split: opaque.split)

lemma sound_fields [simp]:
  "ring_pages (dev\<lparr>Queues := f\<rparr>) = ring_pages dev" "own_blocks (dev\<lparr>Queues := f\<rparr>) = own_blocks dev"
  "ring_pages (dev\<lparr>VirtioInitialized := b\<rparr>) = ring_pages dev" "own_blocks (dev\<lparr>VirtioInitialized := b\<rparr>) = own_blocks dev"
  "sound_ok c (dev\<lparr>VirtioInitialized := b\<rparr>) = sound_ok c dev"
  "ring_pages (dev\<lparr>Config := k\<rparr>) = ring_pages dev" "own_blocks (dev\<lparr>Config := k\<rparr>) = own_blocks dev"
  "sound_ok c (dev\<lparr>Config := k\<rparr>) = sound_ok c dev"
  "ring_pages (dev\<lparr>EventBufferCount := n\<rparr>) = ring_pages dev" "own_blocks (dev\<lparr>EventBufferCount := n\<rparr>) = own_blocks dev"
  "sound_ok c (dev\<lparr>EventBufferCount := n\<rparr>) = sound_ok c dev"
  by (simp_all add: ring_pages_def own_blocks_def sound_ok_def dev_inv_flags)

lemma hand_over_fields [simp]:
  "vdev_info (hand_over vqs vd) = vdev_info vd" "vdev_vqs (hand_over vqs vd) = vdev_vqs vd"
  "vdev_device (hand_over vqs vd) = vdev_device vd" "vdev_maxQueues (hand_over vqs vd) = vdev_maxQueues vd"
  "vdev_info_block (hand_over vqs vd) = vdev_info_block vd" "vdev_packed_ring (hand_over vqs vd) = vdev_packed_ring vd"
  "vq_infos (hand_over vqs vd) = vq_infos vd" "active (hand_over vqs vd) = active vd" "queue_pages (hand_over vqs vd) = queue_pages vd"
  "queues_wf (hand_over vqs vd) = queues_wf vd"
  by (simp_all add: hand_over_def)

text \<open>A split ring that the driver is handed is empty.\<close>

lemma hand_over_ok:
  assumes "transport_inv (sound_view c) P B vd"
    "\<And>i q. i < length vqs \<Longrightarrow> split_of (vdev_vqs vd (vqs ! i)) = Some q \<Longrightarrow> split_inv q \<and> split_inflight q = {#}"
  shows "transport_inv (sound_view c) P B (hand_over vqs vd)"
proof -
  note d = transport_invD [OF assms(1)]
  have i: "dev_inv split_inv split_inflight {} {} (vdev_sys vd)" "length (Bars (vdev_sys vd)) = VIOSND_MAX_BARS" "(EventBuffers (vdev_sys vd), msgs (vdev_sys vd), ios (vdev_sys vd)) = c"
    using d(1) by (simp_all add: sound_ok_def)
  let ?f = "\<lambda>i. if vq_number i < length vqs then split_of (vdev_vqs vd (vqs ! vq_number i)) else Queues (vdev_sys vd) i"
  have "split_inv q \<and> split_inflight q = {#} \<or> Queues (vdev_sys vd) i = Some q" if "?f i = Some q" for i q
    using that assms(2) [of "vq_number i" q] by (auto split: if_splits)
  then have "dev_inv split_inv split_inflight {} {} (vdev_sys vd\<lparr>Queues := ?f\<rparr>)"
    by (rule dev_inv_queues [OF i(1)])
  then have s: "sound_ok c (vdev_sys (hand_over vqs vd))" using i(2,3) by (simp add: sound_ok_def hand_over_def)
  have "ring_pages (vdev_sys (hand_over vqs vd)) = ring_pages (vdev_sys vd)"
    "own_blocks (vdev_sys (hand_over vqs vd)) = own_blocks (vdev_sys vd)" by (simp_all add: hand_over_def)
  then show ?thesis using s d unfolding transport_inv_def by (simp only: hand_over_fields sound_view_simps)
qed

text \<open>A driver that keeps no buffers and messages, and the state of an idle device object.\<close>

definition no_client :: "client \<Rightarrow> bool" where
  "no_client c \<longleftrightarrow> (case c of (ev, ms, is) \<Rightarrow> length ev = VIOSND_EVENT_BUFFER_COUNT \<and> (\<forall>b \<in> set ev. EventVa b = 0) \<and>
     ms = Map.empty \<and> is = Map.empty)"

definition fresh_split :: "opaque virtqueue_split \<Rightarrow> bool" where
  "fresh_split q \<longleftrightarrow> split_inv q \<and> split_inflight q = {#} \<and> split_pending q = []"

lemma no_event_buffers:
  assumes "\<forall>b \<in> set (EventBuffers dev). EventVa b = 0" "set is \<subseteq> {..<length (EventBuffers dev)}"
  shows "free_event_buffers is dev = Some dev"
  using assms(2)
proof (induction "is")
  case (Cons i "is")
  then have i: "read_at (EventBuffers dev) i = Some (EventBuffers dev ! i)" "EventVa (EventBuffers dev ! i) = 0"
    using assms(1) by (simp_all add: read_at_def)
  then have "(EventBuffers dev ! i)\<lparr>EventVa := 0\<rparr> = EventBuffers dev ! i" by (cases "EventBuffers dev ! i") simp
  then have "dev\<lparr>EventBuffers := (EventBuffers dev)[i := (EventBuffers dev ! i)\<lparr>EventVa := 0\<rparr>]\<rparr> = dev" by (cases dev) simp
  then show ?case using Cons i by (simp add: ViosndFreeControlBuffer_def ViosndFreeDmaBuffer_def)
qed simp

text \<open>The queues and the memory of the library when the bring-up has failed, and when it has succeeded.\<close>

definition bring_up_left :: "client \<Rightarrow> ptr set \<Rightarrow> ptr set \<Rightarrow> NTSTATUS \<Rightarrow> 'e sound_device \<Rightarrow> bool" where
  "bring_up_left c P B status vd \<longleftrightarrow> sound_ok c (vdev_sys vd) \<and> vdev_vqs vd = Map.empty \<and> own_blocks (vdev_sys vd) = B \<and>
     (ring_pages (vdev_sys vd) = P \<or>
      status = STATUS_INSUFFICIENT_RESOURCES \<and> (\<exists>q. q \<notin> P \<and> ring_pages (vdev_sys vd) = insert q P))"

definition brought_up :: "client \<Rightarrow> ptr set \<Rightarrow> ptr set \<Rightarrow> 'e sound_device \<Rightarrow> bool" where
  "brought_up c P B vd \<longleftrightarrow> transport_inv (sound_view c) P B vd \<and> active vd = {0, 1, 2, 3} \<and>
     VirtioInitialized (vdev_sys vd) \<and> (\<forall>i. \<exists>q. Queues (vdev_sys vd) i = Some q \<and> fresh_split q)"

lemma init_failed_ok:
  assumes "kernel_ok K" "steady K" "no_client c" "transport_inv (sound_view c) (P \<union> Q) B vd" "table_block vd = {}"
    "Q = {} \<or> status = STATUS_INSUFFICIENT_RESOURCES \<and> (\<exists>q. Q = {q} \<and> q \<notin> P)" "init_failed K Z vd = Some vd'"
  shows "bring_up_left c P B status vd'"
proof -
  let ?S = "ViosndSystemOps K Z :: (opaque, (opaque virtqueue_split, _) VIOSND_DEVICE) virtio_system_ops"
  note vs = sound_system [OF assms(1,2), where c = c]
  note d = transport_invD [OF assms(4)]
  have "(EventBuffers (vdev_sys vd), msgs (vdev_sys vd), ios (vdev_sys vd)) = c" using d(1) by (simp add: sound_ok_def)
  then have f: "free_event_buffers [0..<VIOSND_EVENT_BUFFER_COUNT] (vdev_sys vd) = Some (vdev_sys vd)"
    using assms(3) by (intro no_event_buffers) (auto simp: no_client_def)
  let ?vd1 = "vd\<lparr>vdev_sys := (vdev_sys vd)\<lparr>EventBufferCount := 0\<rparr>\<rparr>"
  obtain vd2 vd3 where s: "virtio_device_reset ?S ?vd1 = Some vd2" "virtio_delete_queues ?S vd2 = Some vd3"
    "virtio_device_shutdown ?S vd3 = Some vd'"
    using assms(7) f by (auto simp: init_failed_def bind_eq_Some_conv)
  have t1: "transport_inv (sound_view c) (P \<union> Q) B ?vd1" using d by (simp add: transport_inv_def)
  obtain s2 where s2: "vd2 = ?vd1\<lparr>vdev_sys := s2\<rparr>" "sound_ok c s2" "ring_pages s2 = ring_pages (vdev_sys ?vd1)"
    "own_blocks s2 = own_blocks (vdev_sys ?vd1)"
    using virtio_system.settles_reset [OF vs s(1)] transport_invD(1) [OF t1] by (auto simp: settles_def)
  have t2: "transport_inv (sound_view c) (P \<union> Q) B vd2" using t1 s2 by (simp add: transport_inv_def)
  obtain vd4 where 4: "virtio_delete_queues ?S vd2 = Some vd4" "transport_inv (sound_view c) (P \<union> Q) B vd4"
    "queue_step vd2 vd4" "ring_pages (vdev_sys vd4) = P \<union> Q" "own_blocks (vdev_sys vd4) = B" "vdev_vqs vd4 = Map.empty"
    using virtio_system.delete_queues_ok [OF vs t2] by auto
  have "vdev_info_block vd4 = 0" using queue_step_fields(5) [OF 4(3)] assms(5) s2(1) by (simp add: table_block_def)
  then have "vd' = vd4" using s(2,3) 4(1) by (simp add: virtio_device_shutdown_def)
  then show ?thesis using 4 transport_invD(1) [OF 4(2)] assms(6) by (auto simp: bring_up_left_def)
qed

lemma hand_over_all:
  assumes "length vqs = 4" "\<forall>i < 4. fresh_queue vd i (vqs ! i)" "\<not> vdev_packed_ring vd"
  shows "\<exists>q. Queues (vdev_sys (hand_over vqs vd)) i = Some q \<and> fresh_split q"
proof -
  have n: "vq_number i < 4" by (cases i) (simp_all add: vq_number_def)
  then have "fresh_queue vd (vq_number i) (vqs ! vq_number i)" using assms(2) by blast
  then obtain x where "vdev_vqs vd (vqs ! vq_number i) = Some x" "ring_fresh (vqo_ring x)" "\<nexists>q. vqo_ring x = Packed_queue q"
    using assms(3) by (auto simp: fresh_queue_def)
  then show ?thesis using n assms(1) by (cases "vqo_ring x") (auto simp: hand_over_def split_of_def ring_fresh_def fresh_split_def)
qed

lemma finish_ok:
  assumes "kernel_ok K" "steady K" "transport_inv (sound_view c) P B vd" "active vd = {0, 1, 2, 3}"
    "\<And>i. \<exists>q. Queues (vdev_sys vd) i = Some q \<and> fresh_split q"
    "virtio_device_ready (ViosndSystemOps K Z) vd = Some vd1"
    "virtio_get_config (ViosndSystemOps K Z) 0 sizeof_CONFIG (vd1\<lparr>vdev_sys := (vdev_sys vd1)\<lparr>VirtioInitialized := True\<rparr>\<rparr>) = Some (config, vd2)"
  shows "brought_up c P B (vd2\<lparr>vdev_sys := (vdev_sys vd2)\<lparr>Config := config_of_bytes config\<rparr>\<rparr>)"
proof -
  note d = transport_invD [OF assms(3)]
  note vs = sound_system [OF assms(1,2), where c = c]
  let ?S = "ViosndSystemOps K Z :: (opaque, (opaque virtqueue_split, _) VIOSND_DEVICE) virtio_system_ops"
  obtain s1 where s1: "vd1 = vd\<lparr>vdev_sys := s1\<rparr>" "quiet ?S (sound_view c) (vdev_sys vd) s1"
    using virtio_system.touches_ready [OF vs assms(6)] d(1) by (auto simp: touches_def)
  let ?s1 = "s1\<lparr>VirtioInitialized := True\<rparr>"
  have ok1: "sound_ok c ?s1" using s1(2) by (simp add: quiet_def)
  obtain s2 where s2: "vd2 = vd\<lparr>vdev_sys := s2\<rparr>" "quiet ?S (sound_view c) ?s1 s2"
    using virtio_system.touches_config [OF vs assms(7)] ok1 s1(1) by (auto simp: touches_def)
  let ?s2 = "s2\<lparr>Config := config_of_bytes config\<rparr>"
  have s: "sound_ok c ?s2" "ring_pages ?s2 = ring_pages (vdev_sys vd)" "own_blocks ?s2 = own_blocks (vdev_sys vd)"
    "Queues ?s2 = Queues (vdev_sys vd)"
    using s1(2) s2(2) by (simp_all add: quiet_def)
  have "transport_inv (sound_view c) P B (vd\<lparr>vdev_sys := ?s2\<rparr>)" using d s by (simp add: transport_inv_def)
  moreover have "VirtioInitialized ?s2" using s2(2) by (simp add: quiet_def)
  ultimately show ?thesis using assms(4,5) s(4) s2(1) by (simp add: brought_up_def)
qed

lemma version_1_only:
  fixes f :: u64
  assumes "g = f AND push_bit VIRTIO_F_VERSION_1 1"
  shows "\<not> bit g VIRTIO_F_RING_PACKED" "\<not> bit g VIRTIO_RING_F_EVENT_IDX"
  by (simp_all add: assms bit_and_iff bit_push_bit_iff)

lemma InitVirtio_ok:
  assumes "kernel_ok K" "steady K" "no_client c" "sound_ok c (vdev_sys vd)" "vdev_vqs vd = Map.empty"
    "virtio_device_initialize (ViosndSystemOps K Z) False vd = Some (st1, vd1)"
    "NT_SUCCESS st1 \<longrightarrow> vdev_device vd1 = Some Modern"
    "ViosndInitVirtio K Z vd = Some (status, vd')"
  shows "if NT_SUCCESS status then brought_up c (ring_pages (vdev_sys vd)) (own_blocks (vdev_sys vd)) vd'
    else bring_up_left c (ring_pages (vdev_sys vd)) (own_blocks (vdev_sys vd)) status vd'"
proof -
  let ?S = "ViosndSystemOps K Z :: (opaque, (opaque virtqueue_split, _) VIOSND_DEVICE) virtio_system_ops"
  let ?P = "ring_pages (vdev_sys vd)" and ?B = "own_blocks (vdev_sys vd)"
  note vs = sound_system [OF assms(1,2), where c = c]
  have ok: "sys_ok (sound_view c) (vdev_sys vd)" using assms(4) by simp
  show ?thesis
  proof (cases "NT_SUCCESS st1")
    case False
    then have r: "status = st1" "vd' = vd1" using assms(6,8) by (simp_all add: ViosndInitVirtio_def)
    have "still (sound_view c) (cleared_device False vd) vd1" by (rule virtio_system.device_initialize_ok [OF vs assms(6)])
    then show ?thesis using False r assms(4,5) by (simp add: still_def cleared_device_def bring_up_left_def)
  next
    case True
    then have dev: "vdev_device vd1 = Some Modern" using assms(7) by simp
    obtain vd2 vd3 vd4 f vd5 st6 vd6 where 1: "virtio_device_reset ?S vd1 = Some vd2"
      "virtio_add_status ?S VIRTIO_CONFIG_S_ACKNOWLEDGE vd2 = Some vd3" "virtio_add_status ?S VIRTIO_CONFIG_S_DRIVER vd3 = Some vd4"
      "virtio_get_features ?S vd4 = Some (f, vd5)"
      "virtio_set_features ?S (f AND push_bit VIRTIO_F_VERSION_1 1) vd5 = Some (st6, vd6)"
      "(if \<not> NT_SUCCESS st6 then do { vd \<leftarrow> init_failed K Z vd6; Some (st6, vd) }
        else do {
          ((status, vqs), vd) \<leftarrow> virtio_find_queues ?S VIRTIO_SND_VQ_MAX vd6;
          let vd = hand_over vqs vd;
          if \<not> NT_SUCCESS status then do { vd \<leftarrow> init_failed K Z vd; Some (status, vd) }
          else do {
            vd \<leftarrow> virtio_device_ready ?S vd;
            let vd = vd\<lparr>vdev_sys := (vdev_sys vd)\<lparr>VirtioInitialized := True\<rparr>\<rparr>;
            (config, vd) \<leftarrow> virtio_get_config ?S 0 sizeof_CONFIG vd;
            Some (STATUS_SUCCESS, vd\<lparr>vdev_sys := (vdev_sys vd)\<lparr>Config := config_of_bytes config\<rparr>\<rparr>)
          }
        }) = Some (status, vd')"
      using assms(6,8) True by (auto simp: ViosndInitVirtio_def bind_eq_Some_conv simp del: not_None_eq split del: if_split)
    obtain g where g: "g = f AND push_bit VIRTIO_F_VERSION_1 1" by simp
    note n = virtio_system.negotiated [OF vs ok assms(5,6) dev 1(1-5) [folded g]]
    have t6: "transport_inv (sound_view c) ?P ?B vd6" "active vd6 = {}" "table_block vd6 = {}" "\<not> vdev_packed_ring vd6"
      using n version_1_only [OF g] by simp_all
    show ?thesis
    proof (cases "NT_SUCCESS st6")
      case False
      then have "init_failed K Z vd6 = Some vd'" "status = st6" using 1(6) by (auto simp: bind_eq_Some_conv)
      then show ?thesis
        using False init_failed_ok [OF assms(1-3), of ?P "{}" ?B vd6 status Z vd'] t6 by simp
    next
      case st6: True
      obtain st7 vqs vd7 Q where 7: "virtio_find_queues ?S VIRTIO_SND_VQ_MAX vd6 = Some ((st7, vqs), vd7)"
        "transport_inv (sound_view c) (?P \<union> Q) ((?B - table_block vd6) \<union> table_block vd7) vd7"
        "Q = {} \<or> st7 = STATUS_INSUFFICIENT_RESOURCES \<and> (\<exists>q. Q = {q} \<and> q \<notin> ?P)"
        "vdev_packed_ring vd7 = vdev_packed_ring vd6"
        "if NT_SUCCESS st7 then Q = {} \<and> st7 = STATUS_SUCCESS \<and> active vd7 = {0..<unat VIRTIO_SND_VQ_MAX} \<and>
           length vqs = unat VIRTIO_SND_VQ_MAX \<and> (\<forall>i < unat VIRTIO_SND_VQ_MAX. fresh_queue vd7 i (vqs ! i)) else active vd7 = {}"
        "vdev_maxQueues vd6 < VIRTIO_SND_VQ_MAX \<or> vdev_info_block vd7 = vdev_info_block vd6"
        using virtio_system.find_queues_ok [OF vs t6(1,2)] .
      then have tb: "table_block vd7 = {}" using n(6) t6(3) by (simp add: table_block_def)
      have t7: "transport_inv (sound_view c) (?P \<union> Q) ?B vd7" using 7(2) t6(3) tb by simp
      show ?thesis
      proof (cases "NT_SUCCESS st7")
        case False
        have e: "vdev_vqs vd7 = Map.empty" using 7(5) False by (intro idle_vqs [OF t7]) simp
        have "transport_inv (sound_view c) (?P \<union> Q) ?B (hand_over vqs vd7)"
          by (rule hand_over_ok [OF t7]) (simp add: e split_of_def)
        moreover have "init_failed K Z (hand_over vqs vd7) = Some vd'" "status = st7"
          using 1(6) st6 7(1) False by (auto simp: bind_eq_Some_conv Let_def)
        moreover have "table_block (hand_over vqs vd7) = {}" using tb by (simp add: table_block_def)
        ultimately show ?thesis
          using False init_failed_ok [OF assms(1-3), of ?P Q ?B "hand_over vqs vd7" status Z vd'] 7(3) by simp
      next
        case st7: True
        then have ok7: "Q = {}" "active vd7 = {0, 1, 2, 3}" "length vqs = 4" "\<forall>i < 4. fresh_queue vd7 i (vqs ! i)" "\<not> vdev_packed_ring vd7"
          using 7(4,5) t6(4) by auto
        have h: "transport_inv (sound_view c) ?P ?B (hand_over vqs vd7)"
        proof (rule hand_over_ok)
          show "transport_inv (sound_view c) ?P ?B vd7" using t7 ok7(1) by simp
          fix i q
          assume i: "i < length vqs" "split_of (vdev_vqs vd7 (vqs ! i)) = Some q"
          then have "fresh_queue vd7 i (vqs ! i)" using ok7(3,4) by simp
          then obtain x where x: "vdev_vqs vd7 (vqs ! i) = Some x" "ring_fresh (vqo_ring x)" by (auto simp: fresh_queue_def)
          then show "split_inv q \<and> split_inflight q = {#}"
            using i(2) by (cases "vqo_ring x") (simp_all add: split_of_def ring_fresh_def)
        qed
        obtain vd8 config vd9 where 8: "virtio_device_ready ?S (hand_over vqs vd7) = Some vd8"
          "virtio_get_config ?S 0 sizeof_CONFIG (vd8\<lparr>vdev_sys := (vdev_sys vd8)\<lparr>VirtioInitialized := True\<rparr>\<rparr>) = Some (config, vd9)"
          "vd' = vd9\<lparr>vdev_sys := (vdev_sys vd9)\<lparr>Config := config_of_bytes config\<rparr>\<rparr>" "status = STATUS_SUCCESS"
          using 1(6) st6 7(1) st7 by (auto simp: bind_eq_Some_conv Let_def)
        have a: "active (hand_over vqs vd7) = {0, 1, 2, 3}" using ok7(2) by simp
        from finish_ok [OF assms(1,2) h a hand_over_all [OF ok7(3-5)] 8(1,2)] show ?thesis using 8(3,4) by simp
      qed
    qed
  qed
qed

lemma brought_up_sound:
  assumes "no_client c" "brought_up c P B vd"
  shows "dev_inv split_inv split_inflight {} {} (vdev_sys vd)" "ctl_rest split_inflight (vdev_sys vd)"
    "\<forall>i. flight split_inflight (vdev_sys vd) i = {#}"
proof -
  have s: "sound_ok c (vdev_sys vd)" using assms(2) transport_invD(1) by (fastforce simp: brought_up_def)
  then show "dev_inv split_inv split_inflight {} {} (vdev_sys vd)" by (simp add: sound_ok_def)
  show "ctl_rest split_inflight (vdev_sys vd)" using s assms(1) by (auto simp: sound_ok_def no_client_def ctl_rest_def)
  show "\<forall>i. flight split_inflight (vdev_sys vd) i = {#}"
  proof
    fix i
    obtain q where "Queues (vdev_sys vd) i = Some q" "fresh_split q" using assms(2) unfolding brought_up_def by blast
    then show "flight split_inflight (vdev_sys vd) i = {#}" by (simp add: flight_def fresh_split_def)
  qed
qed

section \<open>Waiting for a reset\<close>

text \<open>One look at the device, and the state after \<open>n\<close> looks that were followed by a sleep.\<close>

definition poll_ends :: "('o, 's) virtio_system_ops \<Rightarrow> ('o, 's) virtio_device \<Rightarrow> bool" where
  "poll_ends S vd = (case ioread8 S (vdev_common vd + 20) vd of (status, vd) \<Rightarrow>
     status = 0 \<or> (case pci_read_config_word S 0 (vdev_sys vd) of (r, val) \<Rightarrow> r \<noteq> 0 \<or> val = 0xFFFF))"

fun after_polls :: "('o, 's) virtio_system_ops \<Rightarrow> nat \<Rightarrow> ('o, 's) virtio_device \<Rightarrow> ('o, 's) virtio_device" where
  "after_polls S 0 vd = vd"
| "after_polls S (Suc n) vd =
     (case ioread8 S (vdev_common vd + 20) vd of (status, vd) \<Rightarrow>
        after_polls S n (vd\<lparr>vdev_sys := vdev_sleep S 1 (vdev_sys vd)\<rparr>))"

lemma reset_wait_step:
  "reset_wait S vd = (if poll_ends S vd then Some (snd (ioread8 S (vdev_common vd + 20) vd))
     else reset_wait S (after_polls S 1 vd))"
  by (subst reset_wait.simps) (simp add: poll_ends_def split: prod.splits)

lemma after_polls_Suc: "after_polls S (Suc n) vd = after_polls S n (after_polls S 1 vd)"
  by (simp split: prod.split)

lemma reset_wait_ends: "poll_ends S (after_polls S n vd) \<Longrightarrow> \<exists>vd'. reset_wait S vd = Some vd'"
proof (induction n arbitrary: vd)
  case 0
  then show ?case by (subst reset_wait_step) simp
next
  case (Suc n)
  show ?case
  proof (cases "poll_ends S vd")
    case True
    then show ?thesis by (subst reset_wait_step) simp
  next
    case False
    have "\<exists>vd'. reset_wait S (after_polls S 1 vd) = Some vd'"
      by (rule Suc.IH) (use Suc.prems in \<open>simp only: after_polls_Suc\<close>)
    then show ?thesis using False by (subst reset_wait_step) simp
  qed
qed

lemma reset_wait_only_ends:
  assumes "reset_wait S vd = Some vd'"
  shows "\<exists>n. poll_ends S (after_polls S n vd)"
  using assms
proof (rule reset_wait.raw_induct [where P = "\<lambda>S vd vd'. \<exists>n. poll_ends S (after_polls S n vd)", rotated])
  fix f and S :: "('a, 'b) virtio_system_ops" and vd vd'
  assume IH: "\<And>S vd vd'. f S vd = Some vd' \<Longrightarrow> \<exists>n. poll_ends S (after_polls S n vd)"
    and body: "(case ioread8 S (vdev_common vd + 20) vd of (status, vd) \<Rightarrow>
        if status = 0 then Some vd
        else case pci_read_config_word S 0 (vdev_sys vd) of (r, val) \<Rightarrow>
          if r \<noteq> 0 \<or> val = 0xFFFF then Some vd
          else f S (vd\<lparr>vdev_sys := vdev_sleep S 1 (vdev_sys vd)\<rparr>)) = Some vd'"
  show "\<exists>n. poll_ends S (after_polls S n vd)"
  proof (cases "poll_ends S vd")
    case True
    then show ?thesis by (intro exI [of _ 0]) simp
  next
    case False
    then have "f S (after_polls S 1 vd) = Some vd'" using body by (auto simp: poll_ends_def split: prod.splits if_splits)
    then obtain n where "poll_ends S (after_polls S n (after_polls S 1 vd))" using IH by blast
    then have "poll_ends S (after_polls S (Suc n) vd)" by (simp only: after_polls_Suc)
    then show ?thesis ..
  qed
qed

section \<open>Searching a malformed capability list\<close>

lemma vendor_capabilities_cycle:
  assumes "find_next_pci_vendor_capability S (off + 1) s = off" "off \<noteq> 0"
  shows "vendor_capabilities S off offsets s = None"
proof (rule ccontr)
  assume "vendor_capabilities S off offsets s \<noteq> None"
  then obtain r where "vendor_capabilities S off offsets s = Some r" by blast
  then have "\<not> (S = S \<and> off = off \<and> s = s)"
  proof (rule vendor_capabilities.raw_induct [where P = "\<lambda>S' off' offsets s' r. \<not> (S' = S \<and> off' = off \<and> s' = s)", rotated])
    fix f S' off' offsets s' r
    assume IH: "\<And>S' off' offsets s' r. f S' off' offsets s' = Some r \<Longrightarrow> \<not> (S' = S \<and> off' = off \<and> s' = s)"
      and body: "(if off' = 0 then Some offsets
        else
          let cfg_type = snd (pci_read_config_byte S' (uint off' + 3) s');
              bar = snd (pci_read_config_byte S' (uint off' + 4) s')
          in do {
            offsets \<leftarrow> (if bar < 6 \<and> unat cfg_type < length offsets
                       then do {
                         len \<leftarrow> pci_get_resource_len S' (uint bar) s';
                         Some (if 0 < len then offsets[unat cfg_type := uint off'] else offsets)
                       }
                       else Some offsets);
            f S' (find_next_pci_vendor_capability S' (off' + 1) s') offsets s'
          }) = Some r"
    show "\<not> (S' = S \<and> off' = off \<and> s' = s)"
    proof
      assume e: "S' = S \<and> off' = off \<and> s' = s"
      then obtain offsets' where "f S off offsets' s = Some r"
        using body assms by (auto simp: Let_def bind_eq_Some_conv)
      then show False using IH by blast
    qed
  qed
  then show False by simp
qed

end
