(* ===== verification/Snd_Card.thy ===== *)
theory Snd_Card
  imports Snd_Start
begin

text \<open>
  Two devices for examples, and the whole bring-up evaluated on the second: a device object without
  a device behind it, and a sound card that has registers, queues and memory.
\<close>

section \<open>A bare device object\<close>

definition plain_sizes :: virtio_sizes where
  "plain_sizes = \<lparr>size_of_split = 256, size_of_packed = 224, size_of_state = 16, size_of_info = 24\<rparr>"

text \<open>A device object over the driver's state without queues.\<close>

definition bare_device :: "(opaque virtqueue_split, unit) VIOSND_DEVICE" where
  "bare_device = zero_device ()\<lparr>PciBusInterfaceValid := True, DmaAdapter := True\<rparr>"

definition bare_client :: client where
  "bare_client = (EventBuffers bare_device, Map.empty, Map.empty)"

definition bare_vdev :: "(opaque, (opaque virtqueue_split, unit) VIOSND_DEVICE) virtio_device" where
  "bare_vdev = (cleared_device False (zero_vdev bare_device))\<lparr>vdev_device := Some Modern\<rparr>"

lemma no_bare_client: "no_client bare_client"
  by (simp add: no_client_def bare_client_def bare_device_def zero_device_def)

lemma bare_sound: "sound_ok bare_client bare_device" "ring_pages bare_device = {}" "own_blocks bare_device = {}"
proof -
  have b: "bufs bare_device x = {}" for x
    by (simp add: bufs_def bare_device_def zero_device_def split: opaque.split)
  show "sound_ok bare_client bare_device"
    by (simp add: sound_ok_def bare_client_def dev_inv_def mem_inv_def own_inv_def queue_inv_def b)
      (simp add: bare_device_def zero_device_def)
  show "ring_pages bare_device = {}" "own_blocks bare_device = {}"
    by (simp_all add: ring_pages_def own_blocks_def bare_device_def zero_device_def)
qed

lemma bare_idle: "transport_inv (sound_view bare_client) {} {} bare_vdev" "active bare_vdev = {}"
proof -
  have c: "sys_ok (sound_view bare_client) (vdev_sys bare_vdev)" "vdev_device bare_vdev = Some Modern"
    "sys_pages (sound_view bare_client) (vdev_sys bare_vdev) = {}" "sys_blocks (sound_view bare_client) (vdev_sys bare_vdev) = {}"
    "vdev_info bare_vdev = Some (replicate MAX_QUEUES_PER_DEVICE_DEFAULT no_queue)"
    "length (replicate MAX_QUEUES_PER_DEVICE_DEFAULT no_queue) = unat (vdev_maxQueues bare_vdev)"
    "\<forall>q \<in> set (replicate MAX_QUEUES_PER_DEVICE_DEFAULT no_queue). qi_vq q = 0" "vdev_vqs bare_vdev = Map.empty"
    "table_block bare_vdev \<subseteq> {}"
    using bare_sound by (simp_all add: bare_vdev_def cleared_device_def zero_vdev_def table_block_def)
  show "transport_inv (sound_view bare_client) {} {} bare_vdev" "active bare_vdev = {}" by (rule transport_inv_table [OF c])+
qed

lemma idle_steady: "steady idle_kernel"
  by (simp add: steady_def idle_kernel_def)

section \<open>A device that comes up\<close>

abbreviation (input) config_bus :: "(int \<Rightarrow> u8) \<Rightarrow> 'e \<Rightarrow> int \<Rightarrow> nat \<Rightarrow> u8 list \<times> u32" where
  "config_bus f \<equiv> (\<lambda>e at n. (map (\<lambda>i. f (at + int i)) [0..<n], word_of_nat n))"

text \<open>
  A sound card with one memory-mapped BAR: common configuration at offset 0, notifications at
  \<open>0x1000\<close>, interrupt status at \<open>0x2000\<close>, configuration at \<open>0x3000\<close>.  The environment is its
  status register; it has four queues of four entries and offers \<open>VIRTIO_F_VERSION_1\<close>.
\<close>

definition card_config :: "int \<Rightarrow> u8" where
  "card_config a = (case map_of
     [(6, 0x10), (0x34, 0x40),
      (0x40, 9), (0x41, 0x50), (0x43, 1), (0x4C, 0x38),
      (0x50, 9), (0x51, 0x64), (0x53, 2), (0x59, 0x10), (0x5D, 1), (0x60, 4),
      (0x64, 9), (0x65, 0x74), (0x67, 3), (0x6D, 0x20), (0x70, 4),
      (0x74, 9), (0x77, 4), (0x7D, 0x30), (0x80, 0x10)] a of None \<Rightarrow> 0 | Some b \<Rightarrow> b)"

definition card_kernel :: "(opaque virtqueue_split, u32) kernel" where
  "card_kernel = idle_kernel\<lparr>GetBusData := config_bus card_config,
     io_read := (\<lambda>m w r e. (if w = 1 then if r = 0x10014 then e else 0 else if w = 2 then 4 else 1, e)),
     io_write := (\<lambda>m w r v e. if w = 1 then v else e)\<rparr>"

definition card_device :: "(opaque virtqueue_split, u32) VIOSND_DEVICE" where
  "card_device = zero_device 0\<lparr>PciBusInterfaceValid := True, Bars := (replicate VIOSND_MAX_BARS zero_bar)[0 :=
     \<lparr>Present = True, PortSpace = False, BasePA = 0x10000, BarLength = 0x4000, BaseVA = 0\<rparr>], DmaAdapter := True\<rparr>"

abbreviation (input) card_ops :: "(opaque, (opaque virtqueue_split, u32) VIOSND_DEVICE) virtio_system_ops" where
  "card_ops \<equiv> ViosndSystemOps card_kernel plain_sizes"

lemma card_kernel_ok: "kernel_ok card_kernel" "steady card_kernel"
proof -
  have i: "allocators_ok (idle_kernel :: (opaque virtqueue_split, u32) kernel)" by (rule idle_allocators)
  have f: "ExAllocatePool card_kernel = ExAllocatePool idle_kernel" "AllocateCommonBuffer card_kernel = AllocateCommonBuffer idle_kernel"
    by (simp_all add: card_kernel_def)
  have a: "allocators_ok card_kernel" using i unfolding allocators_ok_def f by assumption
  have "kernel_ok (idle_kernel :: (opaque virtqueue_split, u32) kernel)" by (rule idle_kernel_ok)
  then show "kernel_ok card_kernel" using a by (simp add: kernel_ok_def device_ok_def card_kernel_def)
  show "steady card_kernel" using idle_steady by (simp add: steady_def card_kernel_def)
qed

text \<open>Registers: only the status register remembers what is written.\<close>

lemma card_io [simp]:
  "ioread8 card_ops a vd = (if a = 0x10014 then ucast (ext (vdev_sys vd)) else 0, vd)"
  "ioread16 card_ops a vd = (4, vd)" "ioread32 card_ops a vd = (1, vd)"
  "iowrite8 card_ops v a vd = vd\<lparr>vdev_sys := (vdev_sys vd)\<lparr>ext := ucast v\<rparr>\<rparr>"
  "iowrite16 card_ops w a vd = vd" "iowrite32 card_ops d a vd = vd" "iowrite64_twopart card_ops q lo hi vd = vd"
  by (simp_all add: ioread8_def ioread16_def ioread32_def iowrite8_def iowrite16_def iowrite32_def iowrite64_twopart_def
      ViosndReadByte_def ViosndReadWord_def ViosndReadDword_def ViosndWriteByte_def ViosndWriteWord_def ViosndWriteDword_def
      card_kernel_def)

lemma card_bus [simp]:
  assumes "PciBusInterfaceValid dev"
  shows "pci_read_config_byte card_ops a dev = (0, card_config a)"
    "pci_read_config_word card_ops a dev = (0, le_word16 [card_config a, card_config (a + 1)])"
    "pci_read_config_dword card_ops a dev = (0, le_word32 [card_config a, card_config (a + 1), card_config (a + 2), card_config (a + 3)])"
  using assms by (simp_all add: ViosndSystemOps_def ViosndReadConfigByte_def ViosndReadConfigWord_def ViosndReadConfigDword_def
      ViosndReadPciConfig_def card_kernel_def byte_at_def word16_at_def word32_at_def upt_rec del: system_ops)

text \<open>Allocation succeeds while there is room: \<open>k\<close> bounds the pool blocks and the DMA memory in use.\<close>

definition roomy :: "nat \<Rightarrow> ('q, 'e) VIOSND_DEVICE \<Rightarrow> bool" where
  "roomy k dev \<longleftrightarrow> k < 1000 \<and> DmaAdapter dev \<and> (\<forall>p \<in> set (pool dev). unat p \<le> k) \<and>
     (\<forall>b \<in> set (DmaBlocks dev). unat (Va b) + unat (BlockSize b) \<le> 8192 * k)"

lemma foldr_max_le: "(\<forall>x \<in> set xs. (f x :: 'b::linorder) \<le> m) \<Longrightarrow> z \<le> m \<Longrightarrow> foldr (\<lambda>b m. max m (f b)) xs z \<le> m"
  by (induction xs) auto

lemma foldr_max_le': "(\<forall>x \<in> set xs. (x :: 'b::linorder) \<le> m) \<Longrightarrow> z \<le> m \<Longrightarrow> foldr max xs z \<le> m"
  by (induction xs) auto

lemma roomy_pool:
  assumes "roomy k dev"
  shows "\<exists>p. pool_alloc card_kernel dev n = (p, dev\<lparr>pool := p # pool dev\<rparr>) \<and> p \<noteq> 0 \<and> roomy (k + 1) (dev\<lparr>pool := p # pool dev\<rparr>)
    \<or> k = 999"
proof (cases "k = 999")
  case False
  let ?m = "foldr max (pool dev) 0 :: ptr"
  have "?m \<le> word_of_nat k" using assms by (intro foldr_max_le') (auto simp: roomy_def word_le_nat_alt unat_of_nat)
  then have m: "unat ?m \<le> k" using assms by (simp add: roomy_def word_le_nat_alt unat_of_nat)
  have "?m + 1 \<noteq> 0"
  proof
    assume "?m + 1 = 0"
    then have "?m = - 1" by (simp add: eq_neg_iff_add_eq_0)
    moreover have "unat (- 1 :: ptr) = 18446744073709551615" by (simp add: unsigned_minus_1_eq_mask mask_eq_exp_minus_1)
    ultimately show False using m assms by (simp add: roomy_def)
  qed
  then have u: "unat (?m + 1) = unat ?m + 1" using unatSuc [of ?m] by (simp add: add.commute)
  have "pool_alloc card_kernel dev n = (?m + 1, dev\<lparr>pool := (?m + 1) # pool dev\<rparr>)"
    using u by (auto simp: pool_alloc_def card_kernel_def idle_kernel_def)
  then show ?thesis using u m assms False by (intro exI [of _ "?m + 1"]) (auto simp: roomy_def)
qed simp

lemma roomy_pages:
  assumes "roomy k dev" "k < 900" "ROUND_TO_PAGES sz = 0x1000"
  shows "\<exists>va dev'. ViosndAllocContiguous card_kernel sz dev = Some (va, dev') \<and> va \<noteq> 0 \<and> roomy (k + 1) dev' \<and>
    ext dev' = ext dev \<and> PciBusInterfaceValid dev' = PciBusInterfaceValid dev \<and> Bars dev' = Bars dev"
proof -
  obtain p where p: "pool_alloc card_kernel dev 32 = (p, dev\<lparr>pool := p # pool dev\<rparr>)" "p \<noteq> 0" "roomy (k + 1) (dev\<lparr>pool := p # pool dev\<rparr>)"
    using roomy_pool [OF assms(1), of 32] assms(2) by auto
  let ?top = "Suc (foldr (\<lambda>b m. max m (unat (Va b) + unat (BlockSize b))) (DmaBlocks dev) 0)"
  let ?va = "word_of_nat ?top :: ptr"
  have t: "?top \<le> Suc (8192 * k)" using assms(1) by (intro Suc_leI le_imp_less_Suc foldr_max_le) (auto simp: roomy_def)
  then have u: "unat ?va = ?top" unfolding unat_of_nat using assms(2) by (intro mod_less) simp
  then have nz: "?va \<noteq> 0" by (metis nat.distinct(1) unat_0)
  have c: "AllocateCommonBuffer card_kernel (ext dev) (DmaBlocks dev) 0x1000 = (?va, ?va, ext dev)"
    using t assms(2) by (simp add: card_kernel_def idle_kernel_def Let_def)
  let ?dev = "dev\<lparr>DmaBlocks := \<lparr>Va = ?va, LogicalAddress = ?va, BlockSize = 0x1000, Block = p\<rparr> # DmaBlocks dev,
    dma := (dma dev)(?va \<mapsto> replicate (unat (0x1000 :: u64)) 0), pool := p # pool dev\<rparr>"
  have "ViosndAllocContiguous card_kernel sz dev = Some (?va, ?dev)"
  proof -
    have "DmaAdapter dev" using assms(1) by (simp add: roomy_def)
    then have "ViosndAllocateDmaBuffer card_kernel dev sz = Some ((?va, ?va), ?dev)"
      using p(1,2) nz c by (simp add: ViosndAllocateDmaBuffer_def assms(3) Let_def del: of_nat_Suc)
    then show ?thesis by (simp add: ViosndAllocContiguous_def del: of_nat_Suc)
  qed
  moreover have "roomy (k + 1) ?dev" using p(3) u t by (auto simp: roomy_def simp del: of_nat_Suc)
  ultimately show ?thesis using nz by (intro exI [of _ ?va] exI [of _ ?dev]) simp
qed

text \<open>The registers are mapped, split rings were negotiated.\<close>

definition card_ready :: "u32 sound_device \<Rightarrow> bool" where
  "card_ready vd \<longleftrightarrow> vdev_device vd = Some Modern \<and> vdev_common vd = 0x10000 \<and> vdev_notify_base vd = 0x11000 \<and>
     vdev_notify_len vd = 0x100 \<and> vdev_notify_offset_multiplier vd = 4 \<and> \<not> vdev_packed_ring vd"

lemma card_ring_size: "ROUND_TO_PAGES (vring_pci_size 4 False) = 0x1000"
  by (simp add: vring_pci_size_def vring_size_def vring_size_split_def ROUND_TO_PAGES_def)

lemma card_setup:
  assumes "card_ready vd" "roomy k (vdev_sys vd)" "k < 900" "unat i < 4" "vdev_info vd = Some infos" "unat i < length infos"
    "sound_ok c (vdev_sys vd)"
  shows "\<exists>vq vd'. vio_modern_setup_vq card_ops i VIRTIO_MSI_NO_VECTOR vd = Some ((STATUS_SUCCESS, vq), vd') \<and>
    roomy (k + 2) (vdev_sys vd') \<and> ext (vdev_sys vd') = ext (vdev_sys vd)"
proof -
  note vs = sound_system [OF card_kernel_ok, where c = c and Z = plain_sizes]
  have r: "\<not> vdev_packed_ring vd" "vdev_common vd = 0x10000" using assms(1) by (simp_all add: card_ready_def)
  have i: "\<not> 4 \<le> i" using assms(4) by (simp add: word_le_nat_alt)
  have q: "vio_modern_query_vq_alloc card_ops i vd = (STATUS_SUCCESS, (4, 0x1000, vring_control_block_size card_ops 4 False), vd)"
    using r i by (simp add: vio_modern_query_vq_alloc_def Let_def)
      (simp add: vring_pci_size_def vring_size_def vring_size_split_def ROUND_TO_PAGES_def)
  obtain p s where p: "ViosndAllocContiguous card_kernel (vring_pci_size 4 False) (vdev_sys vd) = Some (p, s)" "p \<noteq> 0"
    "roomy (k + 1) s" "ext s = ext (vdev_sys vd)"
    using roomy_pages [OF assms(2,3) card_ring_size] by blast
  have al: "alloc_ring_pages card_ops 4 vd = Some ((p, 4), vd\<lparr>vdev_sys := s\<rparr>)"
    using p r by (simp add: alloc_ring_pages.simps [of card_ops 4])
  have bl: "rings_blank card_ops p s"
    using virtio_system.alloc_pages [OF vs, of "vdev_sys vd" "vring_pci_size 4 False"] p(1,2) assms(7) by (auto simp: got_pages_def)
  let ?y = "(infos ! unat i)\<lparr>qi_num := 4, qi_queue := p\<rparr>"
  let ?vd4 = "vd\<lparr>vdev_sys := s, vdev_info := Some (infos[unat i := ?y])\<rparr>"
  have si: "set_info i (\<lambda>i. i\<lparr>qi_num := 4, qi_queue := p\<rparr>) (vd\<lparr>vdev_sys := s\<rparr>) = Some ?vd4"
    using assms(5,6) by (simp add: set_info_def read_at_def)
  obtain vq where b: "pool_alloc card_kernel s (unat (ucast (vring_control_block_size card_ops 4 False) :: u64)) = (vq, s\<lparr>pool := vq # pool s\<rparr>)"
    "vq \<noteq> 0" "roomy (k + 2) (s\<lparr>pool := vq # pool s\<rparr>)"
    using roomy_pool [OF p(3)] assms(3) by fastforce
  let ?vd5 = "?vd4\<lparr>vdev_sys := s\<lparr>pool := vq # pool s\<rparr>\<rparr>"
  have "rings_blank card_ops p (vdev_sys ?vd5)" using bl by (simp add: rings_blank_def dma_bytes_def)
  then obtain x where x: "new_virtqueue_split card_ops i 4 (ucast SMP_CACHE_BYTES) p ?vd5 = Some (Some x)"
    using virtio_system.new_queue_ok [OF vs, of 2 p ?vd5 i "ucast SMP_CACHE_BYTES"] r by auto
  have e: "\<exists>vd'. modern_enable_vq card_ops i 4 4 VIRTIO_MSI_NO_VECTOR vq p x ?vd5 = Some ((STATUS_SUCCESS, vq), vd') \<and> vdev_sys vd' = vdev_sys ?vd5"
    using assms(1) by (simp add: modern_enable_vq_def modern_activate_def modern_notification_addr_def card_ready_def Let_def)
  have "vio_modern_setup_vq card_ops i VIRTIO_MSI_NO_VECTOR vd = modern_enable_vq card_ops i 4 4 VIRTIO_MSI_NO_VECTOR vq p x ?vd5"
    using q al si b p(2) x r by (simp add: vio_modern_setup_vq_def ViosndAllocNonPaged_def Let_def)
  then show ?thesis using e b(3) p(4) by auto
qed

lemma card_ready_step: "queue_step vd vd' \<Longrightarrow> card_ready vd' = card_ready vd"
  by (cases vd; cases vd') (simp add: card_ready_def queue_step_def)

lemma card_queue:
  assumes "transport_inv (sound_view c) P B vd" "card_ready vd" "roomy k (vdev_sys vd)" "k < 900" "i < 4"
    "i < length (vq_infos vd)" "i \<notin> active vd"
  shows "\<exists>vq vd'. vp_setup_vq card_ops (word_of_nat i) VIRTIO_MSI_NO_VECTOR vd = Some ((STATUS_SUCCESS, vq), vd') \<and>
    transport_inv (sound_view c) P B vd' \<and> active vd' = insert i (active vd) \<and> queue_step vd vd' \<and>
    roomy (k + 2) (vdev_sys vd') \<and> ext (vdev_sys vd') = ext (vdev_sys vd)"
proof -
  note vs = sound_system [OF card_kernel_ok, where c = c and Z = plain_sizes]
  note d = transport_invD [OF assms(1)]
  have u: "unat (word_of_nat i :: u32) = i" using assms(5) by (simp add: unat_of_nat)
  have ok: "sound_ok c (vdev_sys vd)" using d(1) by simp
  obtain vq vd1 where s: "vio_modern_setup_vq card_ops (word_of_nat i) VIRTIO_MSI_NO_VECTOR vd = Some ((STATUS_SUCCESS, vq), vd1)"
    "roomy (k + 2) (vdev_sys vd1)" "ext (vdev_sys vd1) = ext (vdev_sys vd)"
    using card_setup [OF assms(2-4), of "word_of_nat i" "vq_infos vd" c] d(9) assms(5,6) ok u by auto
  then have v: "vp_setup_vq card_ops (word_of_nat i) VIRTIO_MSI_NO_VECTOR vd =
      map_option (\<lambda>vd. ((STATUS_SUCCESS, vq), vd)) (set_info (word_of_nat i) (\<lambda>i. i\<lparr>qi_vq := vq\<rparr>) vd1)"
    using d(2) by (simp add: vp_setup_vq_def dev_setup_queue_def map_option_case split: option.split)
  have same: "vdev_sys vd' = vdev_sys vd1"
    if "set_info (word_of_nat i) (\<lambda>i. i\<lparr>qi_vq := vq\<rparr>) vd1 = Some vd'" for vd'
    using that by (auto simp: set_info_def bind_eq_Some_conv)
  show ?thesis
  proof (rule virtio_system.vp_setup_vq_ok [OF vs assms(1,6,7), where msix_vec = VIRTIO_MSI_NO_VECTOR])
    fix status vd' Q
    assume "vp_setup_vq card_ops (word_of_nat i) VIRTIO_MSI_NO_VECTOR vd = Some ((status, 0), vd')" "\<not> NT_SUCCESS status"
    then show ?thesis using v by auto
  next
    fix vq' vd'
    assume a: "vp_setup_vq card_ops (word_of_nat i) VIRTIO_MSI_NO_VECTOR vd = Some ((STATUS_SUCCESS, vq'), vd')"
      "transport_inv (sound_view c) P B vd'" "active vd' = insert i (active vd)" "queue_step vd vd'"
    then have "vdev_sys vd' = vdev_sys vd1" using v same by auto
    then show ?thesis using a s(2,3) by auto
  qed
qed

lemma card_vector [simp]: "vdev_get_msix_vector card_ops i dev = VIRTIO_MSI_NO_VECTOR"
  by (simp add: ViosndGetMsixVector_def)

lemma card_setup_from:
  assumes "transport_inv (sound_view c) P B vd" "card_ready vd" "roomy k (vdev_sys vd)" "k + 2 * n < 900" "i + n \<le> 4"
    "i + n \<le> length (vq_infos vd)" "active vd = {0..<i}"
  shows "\<exists>vqs vd'. setup_from card_ops i n vd = Some ((STATUS_SUCCESS, vqs), vd') \<and> queue_step vd vd' \<and>
    ext (vdev_sys vd') = ext (vdev_sys vd) \<and> roomy (k + 2 * n) (vdev_sys vd')"
  using assms
proof (induction n arbitrary: i k vd)
  case 0
  then show ?case by simp
next
  case (Suc n)
  have side: "k < 900" "i < 4" "i < length (vq_infos vd)" "i \<notin> active vd" using Suc.prems by simp_all
  obtain vq vd1 where 1: "vp_setup_vq card_ops (word_of_nat i) VIRTIO_MSI_NO_VECTOR vd = Some ((STATUS_SUCCESS, vq), vd1)"
    "transport_inv (sound_view c) P B vd1" "active vd1 = insert i (active vd)" "queue_step vd vd1"
    "roomy (k + 2) (vdev_sys vd1)" "ext (vdev_sys vd1) = ext (vdev_sys vd)"
    using card_queue [OF Suc.prems(1-3) side] by blast
  have "length (vq_infos vd1) = length (vq_infos vd)"
    using transport_invD(10) [OF 1(2)] transport_invD(10) [OF Suc.prems(1)] queue_step_fields(2) [OF 1(4)] by simp
  moreover have "active vd1 = {0..<Suc i}" using 1(3) Suc.prems(7) by (simp add: atLeast0_lessThan_Suc)
  ultimately obtain vqs vd' where "setup_from card_ops (Suc i) n vd1 = Some ((STATUS_SUCCESS, vqs), vd')" "queue_step vd1 vd'"
    "ext (vdev_sys vd') = ext (vdev_sys vd1)" "roomy (k + 2 + 2 * n) (vdev_sys vd')"
    using Suc.IH [OF 1(2) _ 1(5), of "Suc i"] Suc.prems card_ready_step [OF 1(4)] by fastforce
  then show ?case using 1 queue_step_trans [OF 1(4)] by (simp del: system_ops)
qed

lemma card_find_queues:
  assumes "transport_inv (sound_view c) P B vd" "card_ready vd" "roomy k (vdev_sys vd)" "k < 800" "vdev_maxQueues vd = 8"
    "active vd = {}"
  shows "\<exists>vqs vd'. virtio_find_queues card_ops 4 vd = Some ((STATUS_SUCCESS, vqs), vd') \<and> queue_step vd vd' \<and>
    ext (vdev_sys vd') = ext (vdev_sys vd) \<and> roomy (k + 8) (vdev_sys vd')"
proof -
  note d = transport_invD [OF assms(1)]
  have side: "k + 2 * 4 < 900" "0 + 4 \<le> (4 :: nat)" "0 + 4 \<le> length (vq_infos vd)" "active vd = {0..<0}"
    using assms(4-6) d(10) by simp_all
  obtain vqs vd' where "setup_from card_ops 0 4 vd = Some ((STATUS_SUCCESS, vqs), vd')" "queue_step vd vd'" "ext (vdev_sys vd') = ext (vdev_sys vd)"
    "roomy (k + 8) (vdev_sys vd')"
    using card_setup_from [OF assms(1-3) side] by auto
  then show ?thesis using assms(5) d(2)
    by (simp add: virtio_find_queues_def virtio_reserve_queue_memory_def del: system_ops setup_from.simps)
qed

definition card_mapped :: "(opaque virtqueue_split, u32) VIOSND_DEVICE" where
  "card_mapped = card_device\<lparr>Bars := (Bars card_device)[0 := (Bars card_device ! 0)\<lparr>BaseVA := 0x10000\<rparr>]\<rparr>"

lemma card_valid [simp]: "PciBusInterfaceValid card_device" "PciBusInterfaceValid card_mapped"
  by (simp_all add: card_mapped_def card_device_def zero_device_def)

lemma card_caps: "find_pci_vendor_capabilities card_ops (replicate VIRTIO_PCI_CAP_PCI_CFG 0) card_device = Some [0, 0x40, 0x50, 0x64, 0x74]"
proof -
  let ?r = "\<lambda>a. pci_read_config_byte card_ops a card_device"
  have u: "uint (0x40 :: u8) = 0x40" "uint (0x34 :: u8) = 0x34" "uint (0x41 :: u8) = 0x41" "(0x40 :: u8) AND NOT 3 = 0x40"
    "uint (0x50 :: u8) = 0x50" "uint (0x51 :: u8) = 0x51" "(0x50 :: u8) AND NOT 3 = 0x50"
    "uint (0x64 :: u8) = 0x64" "uint (0x65 :: u8) = 0x65" "(0x64 :: u8) AND NOT 3 = 0x64"
    "uint (0x74 :: u8) = 0x74" "uint (0x75 :: u8) = 0x75" "(0x74 :: u8) AND NOT 3 = 0x74" by code_simp+
  have step: "next_capability card_ops (Suc n) off card_device = off" if "off \<in> {0x40, 0x50, 0x64, 0x74}" for n off
    using that by (auto simp: card_config_def u simp del: system_ops)
  have z: "next_capability card_ops (Suc n) 0 card_device = 0" for n by simp
  have n: "find_next_pci_vendor_capability card_ops 0x41 card_device = 0x50" "find_next_pci_vendor_capability card_ops 0x51 card_device = 0x64"
    "find_next_pci_vendor_capability card_ops 0x65 card_device = 0x74" "find_next_pci_vendor_capability card_ops 0x75 card_device = 0"
    using step [of _ 47] z [of 47] by (simp_all add: find_next_pci_vendor_capability_def card_config_def u del: next_capability.simps system_ops)
  have f: "find_first_pci_vendor_capability card_ops card_device = 0x40"
    using step [of "0x40" 47] by (simp add: find_first_pci_vendor_capability_def find_next_pci_vendor_capability_def card_config_def u
        le_word16_def del: next_capability.simps system_ops)
  have len: "pci_get_resource_len card_ops 0 card_device = Some 0x4000"
    by (simp add: ViosndGetResourceLength_def read_at_def card_device_def zero_device_def)
  show ?thesis unfolding find_pci_vendor_capabilities_def f
    by (subst vendor_capabilities.simps, simp add: card_config_def u n len del: system_ops)+
      (simp add: eval_nat_numeral)
qed

lemma card_map:
  "pci_get_resource_len card_ops 0 card_device = Some 0x4000" "pci_get_resource_len card_ops 0 card_mapped = Some 0x4000"
  "off < 0x4000 \<Longrightarrow> pci_map_address_range card_ops 0 off n card_device = Some (0x10000 + off, card_mapped)"
  "off < 0x4000 \<Longrightarrow> pci_map_address_range card_ops 0 off n card_mapped = Some (0x10000 + off, card_mapped)"
proof -
  note defs = ViosndGetResourceLength_def ViosndMapAddressRange_def read_at_def card_mapped_def card_device_def zero_device_def
    card_kernel_def idle_kernel_def
  show "pci_get_resource_len card_ops 0 card_device = Some 0x4000" "pci_get_resource_len card_ops 0 card_mapped = Some 0x4000"
    by (simp_all add: defs)
  assume "off < 0x4000"
  then have "\<not> 0x4000 \<le> off" by simp
  then show "pci_map_address_range card_ops 0 off n card_device = Some (0x10000 + off, card_mapped)"
    "pci_map_address_range card_ops 0 off n card_mapped = Some (0x10000 + off, card_mapped)"
    by (simp_all add: defs)
qed

text \<open>The device object once the capabilities are mapped.\<close>

definition card_found :: "u32 sound_device" where
  "card_found = (cleared_device False (zero_vdev card_mapped))\<lparr>vdev_common := 0x10000, vdev_isr := 0x12000,
     vdev_notify_offset_multiplier := 4, vdev_notify_base := 0x11000, vdev_notify_len := 0x100, vdev_config := 0x13000,
     vdev_config_len := 0x10, vdev_device := Some Modern\<rparr>"

lemma card_modern: "vio_modern_initialize card_ops (cleared_device False (zero_vdev card_device)) = Some (STATUS_SUCCESS, card_found)"
proof -
  have s: "vdev_sys (cleared_device False (zero_vdev card_device)) = card_device" by (simp add: cleared_device_def zero_vdev_def)
  show ?thesis
    by (simp add: vio_modern_initialize_def s card_caps vio_modern_map_simple_capability_def vio_modern_map_capability_def Let_def
        card_config_def le_word32_def card_map modern_map_notify_def del: system_ops)
      (simp add: card_found_def cleared_device_def zero_vdev_def)
qed

text \<open>The states are those of \<open>card_found\<close> with the status register at \<open>n\<close>.\<close>

abbreviation (input) card_at :: "u32 \<Rightarrow> u32 sound_device" where
  "card_at n \<equiv> card_found\<lparr>vdev_sys := card_mapped\<lparr>ext := n\<rparr>\<rparr>"

lemma card_found_simps [simp]:
  "vdev_device card_found = Some Modern" "vdev_common card_found = 0x10000" "vdev_sys card_found = card_mapped"
  "vdev_config card_found = 0x13000" "vdev_config_len card_found = 0x10" "vdev_maxQueues card_found = 8"
  "vdev_notify_base card_found = 0x11000" "vdev_notify_len card_found = 0x100" "vdev_notify_offset_multiplier card_found = 4"
  by (simp_all add: card_found_def cleared_device_def zero_vdev_def)

lemma card_reset:
  assumes "vdev_device vd = Some Modern" "vdev_common vd = 0x10000"
  shows "virtio_device_reset card_ops vd = Some (vd\<lparr>vdev_sys := (vdev_sys vd)\<lparr>ext := 0\<rparr>\<rparr>)"
  using assms by (simp add: virtio_device_reset_def vio_modern_reset_def) (subst reset_wait_step, simp add: poll_ends_def)

lemma card_status:
  assumes "vdev_device vd = Some Modern" "vdev_common vd = 0x10000"
  shows "virtio_get_status card_ops vd = Some (ucast (ext (vdev_sys vd)), vd)"
    "st \<noteq> 0 \<Longrightarrow> virtio_set_status card_ops st vd = Some (vd\<lparr>vdev_sys := (vdev_sys vd)\<lparr>ext := ucast st\<rparr>\<rparr>)"
  using assms by (simp_all add: virtio_get_status_def vio_modern_get_status_def virtio_set_status_def vio_modern_set_status_def)

lemma card_initialize: "virtio_device_initialize card_ops False (zero_vdev card_device) = Some (STATUS_SUCCESS, card_at 3)"
  by (simp add: virtio_device_initialize_def card_modern card_reset virtio_add_status_def card_status)

definition card_client :: client where
  "card_client = (EventBuffers card_device, Map.empty, Map.empty)"

definition card_vdev :: "u32 sound_device" where
  "card_vdev = zero_vdev card_device"

lemma card_vdev_simps: "vdev_sys card_vdev = card_device" "vdev_vqs card_vdev = Map.empty"
  by (simp_all add: card_vdev_def zero_vdev_def)

lemma no_card_client: "no_client card_client"
  by (simp add: no_client_def card_client_def card_device_def zero_device_def)

lemma card_sound: "sound_ok card_client card_device" "ring_pages card_device = {}" "own_blocks card_device = {}"
proof -
  have b: "bufs card_device x = {}" for x
    by (simp add: bufs_def card_device_def zero_device_def split: opaque.split)
  show "sound_ok card_client card_device"
    by (simp add: sound_ok_def card_client_def dev_inv_def mem_inv_def own_inv_def queue_inv_def b)
      (simp add: card_device_def zero_device_def)
  show "ring_pages card_device = {}" "own_blocks card_device = {}"
    by (simp_all add: ring_pages_def own_blocks_def card_device_def zero_device_def)
qed

lemma card_features: "virtio_get_features card_ops (card_at n) = Some (0x100000001, card_at n)"
  by (simp add: virtio_get_features_def vio_modern_get_features_def)

abbreviation (input) card_feature :: u64 where "card_feature \<equiv> 0x100000000"

definition card_negotiated :: "u32 sound_device" where
  "card_negotiated = card_at 11"

lemma card_set_features: "virtio_set_features card_ops card_feature (card_at 3) = Some (STATUS_SUCCESS, card_negotiated)"
proof -
  have f: "virtio_is_feature_enabled card_feature VIRTIO_F_VERSION_1" "\<not> virtio_is_feature_enabled card_feature VIRTIO_RING_F_EVENT_IDX"
    "\<not> virtio_is_feature_enabled card_feature VIRTIO_F_RING_PACKED"
    "virtio_is_feature_enabled (vring_transport_features card_feature) VIRTIO_F_VERSION_1" by code_simp+
  have "card_found\<lparr>vdev_event_suppression_enabled := False, vdev_packed_ring := False\<rparr> = card_found"
    by (simp add: card_found_def cleared_device_def)
  then have c: "(card_at 3)\<lparr>vdev_event_suppression_enabled := False, vdev_packed_ring := False\<rparr> = card_at 3"
    by (simp add: card_found_def cleared_device_def)
  have s: "vio_modern_set_features card_ops card_feature (card_at 3) = (STATUS_SUCCESS, card_at 3)"
    using f(4) by (simp add: vio_modern_set_features_def Let_def)
  show ?thesis
    by (simp add: virtio_set_features_def f c s virtio_add_status_def card_status card_negotiated_def del: virtio_device.simps)
qed

lemma card_negotiated_ok:
  "transport_inv (sound_view card_client) {} {} card_negotiated" "active card_negotiated = {}" "table_block card_negotiated = {}"
  "card_ready card_negotiated" "roomy 0 (vdev_sys card_negotiated)" "vdev_maxQueues card_negotiated = 8"
proof -
  note vs = sound_system [OF card_kernel_ok, where c = card_client and Z = plain_sizes]
  have i: "virtio_device_initialize card_ops False card_vdev = Some (STATUS_SUCCESS, card_at 3)" using card_initialize by (simp add: card_vdev_def)
  have r: "virtio_device_reset card_ops (card_at 3) = Some (card_at 0)" "virtio_add_status card_ops 1 (card_at 0) = Some (card_at 1)"
    "virtio_add_status card_ops 2 (card_at 1) = Some (card_at 3)"
    by (simp_all add: card_reset virtio_add_status_def card_status)
  have ok: "sys_ok (sound_view card_client) (vdev_sys card_vdev)" "vdev_vqs card_vdev = Map.empty" "vdev_device (card_at 3) = Some Modern"
    using card_sound(1) by (simp_all add: card_vdev_simps)
  note n = virtio_system.negotiated [OF vs ok(1,2) i ok(3) r card_features card_set_features]
  show "transport_inv (sound_view card_client) {} {} card_negotiated" "active card_negotiated = {}" "table_block card_negotiated = {}"
    using n(1-3) card_sound(2,3) by (simp_all add: card_vdev_simps)
  show "card_ready card_negotiated" "vdev_maxQueues card_negotiated = 8"
    by (simp_all add: card_ready_def card_negotiated_def) (simp add: card_found_def cleared_device_def)
  show "roomy 0 (vdev_sys card_negotiated)"
    by (simp add: roomy_def card_negotiated_def card_mapped_def card_device_def zero_device_def)
qed

lemma card_queues:
  "\<exists>vqs vd. virtio_find_queues card_ops 4 card_negotiated = Some ((STATUS_SUCCESS, vqs), vd) \<and> queue_step card_negotiated vd \<and>
     ext (vdev_sys vd) = 11 \<and> roomy 8 (vdev_sys vd)"
proof -
  have "ext (vdev_sys card_negotiated) = 11" by (simp add: card_negotiated_def)
  then show ?thesis using card_find_queues [OF card_negotiated_ok(1,4,5) _ card_negotiated_ok(6,2)] by simp
qed

lemma card_config_read:
  assumes "vdev_device vd = Some Modern" "vdev_common vd = 0x10000" "vdev_config vd = 0x13000" "vdev_config_len vd = 0x10"
    "ext (vdev_sys vd) = 15"
  shows "virtio_get_config card_ops 0 16 vd = Some (replicate 16 0, vd)"
proof -
  have g: "dev_get_generation card_ops vd = Some (0, vd)" using assms by (simp add: dev_get_generation_def vio_modern_get_generation_def)
  have b: "dev_get_config card_ops (0 + 1 * word_of_nat i) 1 vd = Some ([0], vd)" if "i < 16" for i
  proof -
    have "unat (word_of_nat (i + 1) :: u32) = i + 1" unfolding unat_of_nat by (rule mod_less) (use that in simp)
    moreover have "unat (ucast w :: u64) = unat w" for w :: u32
      using unsigned_less [of w, where 'a = nat] by (simp add: unsigned_ucast_eq take_bit_nat_eq_self)
    moreover have "word_of_nat (i + 1) = (word_of_nat i + 1 :: u32)" by simp
    ultimately have "unat (ucast (word_of_nat i + 1 :: u32) :: u64) = i + 1" by metis
    then have n: "\<not> (16 :: u64) < ucast (word_of_nat i + 1 :: u32)" using that unfolding word_less_nat_alt by simp
    have "unat (word_of_nat i :: u32) = i" unfolding unat_of_nat by (rule mod_less) (use that in simp)
    then have "unat (ucast (word_of_nat i :: u32) :: u64) = i"
      using that by (simp add: unsigned_ucast_eq take_bit_nat_eq_self)
    then have "unat (12268 + ucast (word_of_nat i :: u32) :: u64) = 12268 + i"
      using that by (subst unat_add_lem [THEN iffD1]) simp_all
    then have "12268 + ucast (word_of_nat i :: u32) \<noteq> (0 :: u64)" by (metis add_is_0 unat_0 zero_neq_numeral)
    then show ?thesis using assms n by (simp add: dev_get_config_def vio_modern_get_config_def)
  qed
  have f: "i + n \<le> 16 \<Longrightarrow> cread_fields card_ops 0 1 i n vd = Some (replicate n 0, vd)" for i n
    by (induction n arbitrary: i) (simp_all add: b [simplified])
  show ?thesis using f [of 0 16] g by (simp add: virtio_get_config_def virtio_cread_many_def cread_until.simps [of card_ops])
qed

lemma roomy_fields [simp]:
  "roomy k (dev\<lparr>Queues := f\<rparr>) = roomy k dev" "roomy k (dev\<lparr>ext := e\<rparr>) = roomy k dev"
  "roomy k (dev\<lparr>VirtioInitialized := b\<rparr>) = roomy k dev" "roomy k (dev\<lparr>Config := g\<rparr>) = roomy k dev"
  by (simp_all add: roomy_def)

lemma card_up: "\<exists>vd. ViosndInitVirtio card_kernel plain_sizes card_vdev = Some (STATUS_SUCCESS, vd) \<and> roomy 8 (vdev_sys vd)"
proof -
  obtain vqs vd where q: "virtio_find_queues card_ops 4 card_negotiated = Some ((STATUS_SUCCESS, vqs), vd)"
    "queue_step card_negotiated vd" "ext (vdev_sys vd) = 11" "roomy 8 (vdev_sys vd)" using card_queues by blast
  let ?vd = "hand_over vqs vd"
  have h: "vdev_device ?vd = Some Modern" "vdev_common ?vd = 0x10000" "vdev_config ?vd = 0x13000" "vdev_config_len ?vd = 0x10"
    "ext (vdev_sys ?vd) = 11"
    using q(2,3) by (simp_all add: hand_over_def)
      (cases vd; simp add: queue_step_def card_negotiated_def card_found_def cleared_device_def)+
  have r: "virtio_device_ready card_ops ?vd = Some (?vd\<lparr>vdev_sys := (vdev_sys ?vd)\<lparr>ext := 15\<rparr>\<rparr>)"
    using h by (simp add: virtio_device_ready_def card_status)
  let ?vd2 = "?vd\<lparr>vdev_sys := (vdev_sys ?vd)\<lparr>ext := 15, VirtioInitialized := True\<rparr>\<rparr>"
  have c: "virtio_get_config card_ops 0 16 ?vd2 = Some (replicate 16 0, ?vd2)" using h by (intro card_config_read) simp_all
  have s: "virtio_device_reset card_ops (card_at 3) = Some (card_at 0)" "virtio_add_status card_ops 1 (card_at 0) = Some (card_at 1)"
    "virtio_add_status card_ops 2 (card_at 1) = Some (card_at 3)"
    by (simp_all add: card_reset virtio_add_status_def card_status)
  have i: "virtio_device_initialize card_ops False card_vdev = Some (STATUS_SUCCESS, card_at 3)" using card_initialize by (simp add: card_vdev_def)
  have "ViosndInitVirtio card_kernel plain_sizes card_vdev =
      Some (STATUS_SUCCESS, ?vd2\<lparr>vdev_sys := (vdev_sys ?vd2)\<lparr>Config := config_of_bytes (replicate 16 0)\<rparr>\<rparr>)"
    unfolding ViosndInitVirtio_def
    by (simp add: i s card_features card_set_features q(1) r c Let_def del: system_ops virtio_device.simps)
  moreover have "roomy 8 (vdev_sys ?vd)" using q(4) by (simp add: hand_over_def)
  ultimately show ?thesis by fastforce
qed

text \<open>The hypotheses of the bring-up hold on the card.\<close>

lemma card_run:
  "sound_ok card_client (vdev_sys card_vdev)" "vdev_vqs card_vdev = Map.empty"
  "virtio_device_initialize card_ops False card_vdev = Some (STATUS_SUCCESS, card_at 3)" "vdev_device (card_at 3) = Some Modern"
  using card_sound(1) card_initialize by (simp_all add: card_vdev_simps) (simp add: card_vdev_def)

end
