(* ===== verification/Snd_Bring_Up.thy ===== *)
theory Snd_Bring_Up
  imports Snd_Card
begin

text \<open>
  The properties of the bring-up: queue set-up and release, the whole of \<open>ViosndInitVirtio\<close>, and when
  its waits and searches end.  The witnesses run it on the card of \<open>Snd_Card\<close>.
\<close>

section \<open>Properties\<close>



lemma queues_found:
  assumes "kernel_ok K" "steady K" "transport_inv (sound_view c) P B vd" "active vd = {}"
    "virtio_find_queues (ViosndSystemOps K Z) nvqs vd = Some ((STATUS_SUCCESS, vqs), vd1)"
  shows "transport_inv (sound_view c) P ((B - table_block vd) \<union> table_block vd1) vd1"
proof -
  obtain status vqs' vd' Q where f: "virtio_find_queues (ViosndSystemOps K Z) nvqs vd = Some ((status, vqs'), vd')"
    "transport_inv (sound_view c) (P \<union> Q) ((B - table_block vd) \<union> table_block vd') vd'"
    "Q = {} \<or> status = STATUS_INSUFFICIENT_RESOURCES \<and> (\<exists>q. Q = {q} \<and> q \<notin> P)"
    by (rule virtio_system.find_queues_ok [OF sound_system [OF assms(1,2)] assms(3,4)]) (rule that; assumption)
  have "Q = {}" "vd' = vd1" using f(1,3) assms(5) by auto
  then show ?thesis using f(2) by simp
qed



text \<open>
  C39: resetting a modern device returns exactly when, some time after the 0 was written, the device
  reports 0 or its configuration space no longer answers.  A device that does neither is waited
  for without end: the loop has no bound of its own.
\<close>

theorem reset_returns:
  assumes "vdev_device vd = Some Modern"
  shows "(\<exists>vd'. virtio_device_reset S vd = Some vd') \<longleftrightarrow>
    (\<exists>n. poll_ends S (after_polls S n (iowrite8 S 0 (vdev_common vd + 20) vd)))"
  using assms reset_wait_ends reset_wait_only_ends
  by (fastforce simp: virtio_device_reset_def vio_modern_reset_def)

text \<open>
  C40: the search for the virtio capabilities trusts the device's list.  When the first vendor
  capability leads back to itself the initialisation never returns: the bound of 48 steps holds for
  each search for the next capability, not for the walk over the list.
\<close>

theorem capability_cycle_hangs:
  assumes "find_first_pci_vendor_capability S (vdev_sys vd) = off" "off \<noteq> 0"
    "find_next_pci_vendor_capability S (off + 1) (vdev_sys vd) = off"
  shows "vio_modern_initialize S vd = None \<and> virtio_device_initialize S m vd = None"
proof -
  have n: "find_pci_vendor_capabilities S offsets (vdev_sys vd) = None" for offsets
    using vendor_capabilities_cycle [OF assms(3,2)] assms(1) by (simp add: find_pci_vendor_capabilities_def)
  have "vdev_sys (cleared_device m vd) = vdev_sys vd" by (simp add: cleared_device_def)
  then show ?thesis using n by (simp add: vio_modern_initialize_def virtio_device_initialize_def)
qed

theorem reset_returns_witness:
  "\<exists>vd'. virtio_device_reset (ViosndSystemOps idle_kernel plain_sizes) bare_vdev = Some vd'"
proof -
  have "vdev_device bare_vdev = Some Modern" by (simp add: bare_vdev_def)
  moreover have "poll_ends (ViosndSystemOps idle_kernel plain_sizes) (after_polls (ViosndSystemOps idle_kernel plain_sizes) 0
      (iowrite8 (ViosndSystemOps idle_kernel plain_sizes) 0 (vdev_common bare_vdev + 20) bare_vdev))"
    by (simp add: poll_ends_def ioread8_def ViosndReadByte_def idle_kernel_def)
  ultimately show ?thesis using reset_returns by blast
qed

text \<open>A configuration space whose only capability is its own successor.\<close>

definition looped_config :: "int \<Rightarrow> u8" where
  "looped_config a = (if a = 6 then 0x10 else if a = 0x34 then 0x40 else if a = 0x40 then 9 else if a = 0x41 then 0x40 else 0)"

theorem capability_cycle_hangs_witness:
  "virtio_device_initialize (ViosndSystemOps (idle_kernel\<lparr>GetBusData := config_bus looped_config\<rparr>) plain_sizes) False bare_vdev = None"
proof -
  obtain S :: "(opaque, (opaque virtqueue_split, unit) VIOSND_DEVICE) virtio_system_ops" where
    S: "S = ViosndSystemOps (idle_kernel\<lparr>GetBusData := config_bus looped_config\<rparr>) plain_sizes" by simp
  have r: "pci_read_config_byte S a bare_device = (0, looped_config a)" for a
    by (simp add: S ViosndSystemOps_def ViosndReadConfigByte_def ViosndReadPciConfig_def bare_device_def zero_device_def byte_at_def)
  have w: "pci_read_config_word S 6 bare_device = (0, 0x10)"
    by (simp add: S ViosndSystemOps_def ViosndReadConfigWord_def ViosndReadPciConfig_def bare_device_def zero_device_def
        word16_at_def byte_at_def upt_rec looped_config_def le_word16_def)
  have s: "vdev_sys bare_vdev = bare_device" by (simp add: bare_vdev_def cleared_device_def zero_vdev_def)
  have u: "uint (0x40 :: u8) = 0x40" "uint (0x34 :: u8) = 0x34" "uint (0x41 :: u8) = 0x41" "(0x40 :: u8) AND NOT 3 = 0x40" by code_simp+
  have step: "next_capability S (Suc n) 0x40 bare_device = 0x40" for n
    by (simp add: r looped_config_def u)
  have n: "find_next_pci_vendor_capability S (0x40 + 1) bare_device = 0x40"
    using step [of 47] by (simp add: find_next_pci_vendor_capability_def r looped_config_def u del: next_capability.simps)
  have f: "find_first_pci_vendor_capability S bare_device = 0x40"
    using step [of 47] by (simp add: find_first_pci_vendor_capability_def find_next_pci_vendor_capability_def r w looped_config_def u
        del: next_capability.simps)
  show ?thesis using capability_cycle_hangs [of S bare_vdev "0x40" False] f n unfolding s by (simp add: S [symmetric])
qed





end
