(* ===== verification/Snd_Destroy.thy ===== *)
theory Snd_Destroy
  imports Snd_Card
begin

text \<open>
  Destroying the device (\<open>ViosndDestroyDevice\<close>, \<open>ViosndVirtio.cpp\<close>): every buffer and block that the
  bring-up took is given back.
\<close>

lemma free_dma_blocks_ok:
  assumes "distinct (pool dev)" "distinct (map Block bs)" "Block ` set bs \<subseteq> set (pool dev)" "DmaAdapter dev" "DmaBlocks dev = bs"
  shows "\<exists>dev'. free_dma_blocks bs dev = Some dev' \<and> set (pool dev') = set (pool dev) - Block ` set bs \<and>
    dom (dma dev') = dom (dma dev) - Va ` set bs \<and> DmaBlocks dev' = [] \<and> DmaAdapter dev'"
  using assms
proof (induction bs arbitrary: dev)
  case (Cons b bs)
  let ?d1 = "dev\<lparr>DmaBlocks := bs, dma := (dma dev)(Va b := None), pool := remove1 (Block b) (pool dev)\<rparr>"
  have p: "set (pool ?d1) = set (pool dev) - {Block b}" "distinct (pool ?d1)" using Cons.prems(1) by simp_all
  have "Block b \<notin> Block ` set bs" using Cons.prems(2) by simp
  then have q: "Block ` set bs \<subseteq> set (pool ?d1)" "distinct (map Block bs)" "DmaAdapter ?d1" "DmaBlocks ?d1 = bs"
    unfolding p(1) using Cons.prems(2-4) by (simp_all add: subset_Diff_insert)
  obtain dev' where d: "free_dma_blocks bs ?d1 = Some dev'" "set (pool dev') = set (pool ?d1) - Block ` set bs"
    "dom (dma dev') = dom (dma ?d1) - Va ` set bs" "DmaBlocks dev' = []" "DmaAdapter dev'"
    using Cons.IH [OF p(2) q(2,1,3,4)] by blast
  have "free_dma_blocks (b # bs) dev = Some dev'" using d(1) Cons.prems by (simp add: ExFreePool_def)
  moreover have "set (pool dev') = set (pool dev) - Block ` set (b # bs)" using d(2) p(1) by auto
  moreover have "dom (dma dev') = dom (dma dev) - Va ` set (b # bs)" using d(3) by auto
  ultimately show ?case using d(4,5) by blast
qed simp

lemma sync_queues_fields [simp]:
  "vdev_sys (sync_queues vd) = vdev_sys vd" "vdev_info (sync_queues vd) = vdev_info vd" "vq_infos (sync_queues vd) = vq_infos vd"
  "active (sync_queues vd) = active vd" "queue_pages (sync_queues vd) = queue_pages vd" "dom (vdev_vqs (sync_queues vd)) = dom (vdev_vqs vd)"
  "vdev_info_block (sync_queues vd) = vdev_info_block vd" "vdev_device (sync_queues vd) = vdev_device vd"
  "vdev_maxQueues (sync_queues vd) = vdev_maxQueues vd"
  by (auto simp: sync_queues_def vq_infos_def active_def queue_pages_def)

lemma synced_queue:
  assumes "vdev_vqs vd a = Some x"
  obtains y where "vdev_vqs (sync_queues vd) a = Some y" "vqo_index y = vqo_index x"
    "vqo_ring y = vqo_ring x \<or> (\<exists>i q. Queues (vdev_sys vd) i = Some q \<and> vqo_ring y = Split_queue q)"
proof -
  let ?i = "List.find (\<lambda>i. word_of_nat (vq_number i) = vqo_index x)
    [VIRTIO_SND_VQ_CONTROL, VIRTIO_SND_VQ_EVENT, VIRTIO_SND_VQ_TX, VIRTIO_SND_VQ_RX]"
  let ?y = "case ?i of None \<Rightarrow> x | Some i \<Rightarrow> (case Queues (vdev_sys vd) i of None \<Rightarrow> x | Some q \<Rightarrow> x\<lparr>vqo_ring := Split_queue q\<rparr>)"
  have "vdev_vqs (sync_queues vd) a = Some ?y" using assms by (simp add: sync_queues_def)
  moreover have "vqo_index ?y = vqo_index x" by (simp split: option.split)
  moreover have "vqo_ring ?y = vqo_ring x \<or> (\<exists>i q. Queues (vdev_sys vd) i = Some q \<and> vqo_ring ?y = Split_queue q)"
    by (cases ?i) (auto split: option.split)
  ultimately show thesis by (rule that)
qed

text \<open>Giving the rings back to the library keeps its invariant: the driver's queues are well-formed.\<close>

lemma sync_queues_ok:
  assumes "transport_inv (sound_view c) P B vd"
  shows "transport_inv (sound_view c) P B (sync_queues vd)"
proof -
  note d = transport_invD [OF assms]
  have q: "split_inv q" if "Queues (vdev_sys vd) i = Some q" for i q
    using d(1) that by (simp add: sound_ok_def dev_inv_def queue_inv_def)
  have "\<exists>x. vdev_vqs (sync_queues vd) (qi_vq (vq_infos vd ! i)) = Some x \<and> vqo_index x = word_of_nat i \<and> ring_inv (vqo_ring x)"
    if i: "i \<in> active vd" for i
  proof -
    obtain x where x: "vdev_vqs vd (qi_vq (vq_infos vd ! i)) = Some x" "vqo_index x = word_of_nat i" "ring_inv (vqo_ring x)"
      using d(3) i unfolding queues_wf_def by blast
    obtain y where y: "vdev_vqs (sync_queues vd) (qi_vq (vq_infos vd ! i)) = Some y" "vqo_index y = vqo_index x"
      "vqo_ring y = vqo_ring x \<or> (\<exists>i q. Queues (vdev_sys vd) i = Some q \<and> vqo_ring y = Split_queue q)"
      using synced_queue [OF x(1)] .
    have "ring_inv (vqo_ring y)" using y(3) x(3) q by (auto simp: ring_inv_def)
    then show ?thesis using x(2) y(1,2) by simp
  qed
  then have "queues_wf (sync_queues vd)" using d(3) by (simp add: queues_wf_def)
  then show ?thesis using d by (simp add: transport_inv_def)
qed

text \<open>Nothing of the device is left but the messages and transfers that the device had not returned, and \<open>B\<close>.\<close>

definition destroyed :: "client \<Rightarrow> ptr set \<Rightarrow> 'e sound_device \<Rightarrow> bool" where
  "destroyed c B vd \<longleftrightarrow> vdev_vqs vd = Map.empty \<and> dma (vdev_sys vd) = Map.empty \<and> DmaBlocks (vdev_sys vd) = [] \<and>
     \<not> DmaAdapter (vdev_sys vd) \<and> set (pool (vdev_sys vd)) = dom (fst (snd c)) \<union> dom (snd (snd c)) \<union> B"

lemma destroy_rest:
  assumes "sound_ok c dev" "\<forall>b \<in> set (fst c). EventVa b = 0" "length (fst c) = VIOSND_EVENT_BUFFER_COUNT" "vdev_vqs vd = Map.empty"
    "vdev_sys vd = dev"
  shows "\<exists>vd'. do {
     vd \<leftarrow> on_device (free_event_buffers [0..<VIOSND_EVENT_BUFFER_COUNT]) vd;
     let vd = vd\<lparr>vdev_sys := (vdev_sys vd)\<lparr>ext := unmap_bars N (Bars (vdev_sys vd)) (ext (vdev_sys vd))\<rparr>\<rparr>;
     vd \<leftarrow> on_device (\<lambda>dev. free_dma_blocks (DmaBlocks dev) dev) vd;
     let vd = (if DmaAdapter (vdev_sys vd)
               then vd\<lparr>vdev_sys := (vdev_sys vd)\<lparr>DmaAdapter := False, ext := PutDmaAdapter N (ext (vdev_sys vd))\<rparr>\<rparr> else vd);
     let vd = (if PciBusInterfaceValid (vdev_sys vd)
               then vd\<lparr>vdev_sys := (vdev_sys vd)\<lparr>ext := InterfaceDereference N (ext (vdev_sys vd))\<rparr>\<rparr> else vd);
     Some (if pdo then vd\<lparr>vdev_sys := (vdev_sys vd)\<lparr>ext := ObDereferenceObject N (ext (vdev_sys vd))\<rparr>\<rparr> else vd)
   } = Some vd' \<and> destroyed c (own_blocks dev) vd'"
proof -
  have ok: "mem_inv dev" "(EventBuffers dev, msgs dev, ios dev) = c" using assms(1) by (simp_all add: sound_ok_def dev_inv_def)
  have ev: "free_event_buffers [0..<VIOSND_EVENT_BUFFER_COUNT] dev = Some dev"
    using assms(2,3) ok(2) by (intro no_event_buffers) auto
  let ?dev = "dev\<lparr>ext := unmap_bars N (Bars dev) (ext dev)\<rparr>"
  have m: "distinct (pool ?dev)" "distinct (map Block (DmaBlocks ?dev))" "Block ` set (DmaBlocks ?dev) \<subseteq> set (pool ?dev)"
    "DmaAdapter ?dev" "dom (dma ?dev) = Va ` set (DmaBlocks ?dev)"
    using ok(1) by (auto simp: mem_inv_def)
  obtain dev2 where 2: "free_dma_blocks (DmaBlocks ?dev) ?dev = Some dev2" "set (pool dev2) = set (pool dev) - Block ` set (DmaBlocks dev)"
    "dom (dma dev2) = dom (dma ?dev) - Va ` set (DmaBlocks ?dev)" "DmaBlocks dev2 = []" "DmaAdapter dev2"
    using free_dma_blocks_ok [OF m(1-4) refl] by auto
  have "dom (dma dev2) = {}" using 2(3) m(5) by blast
  then have "dma dev2 = Map.empty" by simp
  moreover have "set (pool dev2) = dom (fst (snd c)) \<union> dom (snd (snd c)) \<union> own_blocks dev"
  proof -
    have "Block b \<notin> dom (msgs dev) \<union> dom (ios dev)" if "b \<in> set (DmaBlocks dev)" for b using ok(1) that by (auto simp: mem_inv_def)
    moreover have "dom (msgs dev) \<subseteq> set (pool dev)" "dom (ios dev) \<subseteq> set (pool dev)" using ok(1) by (simp_all add: mem_inv_def)
    ultimately have "set (pool dev) - Block ` set (DmaBlocks dev) = dom (msgs dev) \<union> dom (ios dev) \<union> own_blocks dev"
      unfolding own_blocks_def by blast
    then show ?thesis using 2(2) ok(2) by auto
  qed
  ultimately show ?thesis using assms(4,5) ev 2(1,4,5) by (simp add: destroyed_def Let_def)
qed

lemma shutdown_ok:
  assumes "transport_inv (sound_view c) P B vd" "vdev_vqs vd = Map.empty"
  obtains vd' where "virtio_device_shutdown (ViosndSystemOps K Z) vd = Some vd'" "sound_ok c (vdev_sys vd')"
    "own_blocks (vdev_sys vd') = B - table_block vd" "vdev_vqs vd' = Map.empty"
proof (cases "vdev_info_block vd = 0")
  case True
  then show thesis using that [of vd] transport_invD(1,6) [OF assms(1)] assms(2)
    by (simp add: virtio_device_shutdown_def table_block_def)
next
  case False
  note d = transport_invD [OF assms(1)]
  have s: "sound_ok c (vdev_sys vd)" "own_blocks (vdev_sys vd) = B" using d(1,6) assms(2) by simp_all
  moreover have "vdev_info_block vd \<in> own_blocks (vdev_sys vd)" using d(8) s(2) False by simp
  ultimately obtain dev' where f: "ViosndFreeNonPaged (vdev_info_block vd) (vdev_sys vd) = Some dev'" "sound_ok c dev'"
    "own_blocks dev' = B - {vdev_info_block vd}" using sound_free_block by blast
  then show thesis using that [of "vd\<lparr>vdev_sys := dev', vdev_info := None, vdev_info_block := 0\<rparr>"] False d(9) assms(2)
    by (simp add: virtio_device_shutdown_def free_block_def table_block_def)
qed

lemma DestroyDevice_ok:
  assumes "kernel_ok K" "steady K" "sound_ok c (vdev_sys vd)" "\<forall>b \<in> set (fst c). EventVa b = 0"
    "length (fst c) = VIOSND_EVENT_BUFFER_COUNT"
    "VirtioInitialized (vdev_sys vd) \<Longrightarrow> transport_inv (sound_view c) P B vd \<and> (\<exists>vd1. virtio_device_reset (ViosndSystemOps K Z) vd = Some vd1)"
    "\<not> VirtioInitialized (vdev_sys vd) \<Longrightarrow> vdev_vqs vd = Map.empty \<and> own_blocks (vdev_sys vd) = B - table_block vd"
  shows "\<exists>vd'. ViosndDestroyDevice K Z N pdo vd = Some vd' \<and> destroyed c (B - table_block vd) vd'"
proof -
  let ?S = "ViosndSystemOps K Z :: (opaque, (opaque virtqueue_split, _) VIOSND_DEVICE) virtio_system_ops"
  have "\<exists>vd3. (if VirtioInitialized (vdev_sys vd) then do {
              vd \<leftarrow> virtio_device_reset ?S vd;
              vd \<leftarrow> virtio_delete_queues ?S (sync_queues vd);
              virtio_device_shutdown ?S vd
            }
            else Some vd) = Some vd3 \<and> sound_ok c (vdev_sys vd3) \<and> own_blocks (vdev_sys vd3) = B - table_block vd \<and> vdev_vqs vd3 = Map.empty"
  proof (cases "VirtioInitialized (vdev_sys vd)")
    case True
    note vs = sound_system [OF assms(1,2), where c = c]
    have t: "transport_inv (sound_view c) P B vd" using assms(6) True by simp
    obtain vd1 where r: "virtio_device_reset ?S vd = Some vd1" using assms(6) True by blast
    obtain s1 where s1: "vd1 = vd\<lparr>vdev_sys := s1\<rparr>" "sound_ok c s1" "ring_pages s1 = ring_pages (vdev_sys vd)"
      "own_blocks s1 = own_blocks (vdev_sys vd)"
      using virtio_system.settles_reset [OF vs r] assms(3) by (auto simp: settles_def)
    have "transport_inv (sound_view c) P B vd1" using t s1 by (simp add: transport_inv_def)
    from sync_queues_ok [OF this] obtain vd2 where 2: "virtio_delete_queues ?S (sync_queues vd1) = Some vd2"
      "transport_inv (sound_view c) P B vd2" "queue_step (sync_queues vd1) vd2" "vdev_vqs vd2 = Map.empty"
      using virtio_system.delete_queues_ok [OF vs] by metis
    have "table_block vd2 = table_block vd" using queue_step_fields(5) [OF 2(3)] s1(1) by (simp add: table_block_def)
    moreover obtain vd3 where "virtio_device_shutdown ?S vd2 = Some vd3" "sound_ok c (vdev_sys vd3)"
      "own_blocks (vdev_sys vd3) = B - table_block vd2" "vdev_vqs vd3 = Map.empty"
      using shutdown_ok [OF 2(2,4)] .
    ultimately show ?thesis using r 2(1) True by simp
  qed (use assms(3,7) in auto)
  then obtain vd3 where 3: "(if VirtioInitialized (vdev_sys vd) then do {
              vd \<leftarrow> virtio_device_reset ?S vd;
              vd \<leftarrow> virtio_delete_queues ?S (sync_queues vd);
              virtio_device_shutdown ?S vd
            }
            else Some vd) = Some vd3" "sound_ok c (vdev_sys vd3)" "own_blocks (vdev_sys vd3) = B - table_block vd" "vdev_vqs vd3 = Map.empty"
    by blast
  show ?thesis unfolding ViosndDestroyDevice_def 3(1) Option.bind.simps using destroy_rest [OF 3(2) assms(4,5) 3(4) refl] 3(3) by simp
qed


definition card_pnp :: "u32 pnp" where
  "card_pnp = \<lparr>IoAllocateIrp = (\<lambda>e. (True, e)), IoCallDriver = (\<lambda>e. ((STATUS_SUCCESS, STATUS_SUCCESS), e)), IoFreeIrp = (\<lambda>e. e),
     IoGetDmaAdapter = (\<lambda>e. (True, e)), PutDmaAdapter = (\<lambda>e. e), InterfaceDereference = (\<lambda>e. e), ObReferenceObject = (\<lambda>e. e),
     ObDereferenceObject = (\<lambda>e. e), MmUnmapIoSpace = (\<lambda>a n e. e)\<rparr>"

lemma card_resets: "vdev_device vd = Some Modern \<Longrightarrow> virtio_device_reset card_ops vd \<noteq> None"
  by (simp add: virtio_device_reset_def vio_modern_reset_def reset_wait.simps [of card_ops])


end
