(* ===== verification/Snd_Topology.thy ===== *)
theory Snd_Topology
  imports Wave_Miniport
begin

text \<open>
  The topology miniport \<open>CViosndMiniportTopology\<close> (\<open>viosnd/sys/ViosndTopology.cpp\<close>): its filter and
  jack descriptions, reference counting, and the property handler that describes the jacks.
\<close>

section \<open>Descriptors\<close>

abbreviation (input) VIOSND_TOPO_PIN_SOURCE :: u32 where "VIOSND_TOPO_PIN_SOURCE \<equiv> 0"
abbreviation (input) VIOSND_TOPO_PIN_BRIDGE :: u32 where "VIOSND_TOPO_PIN_BRIDGE \<equiv> 1"

datatype connection_type = eConnTypeUnknown
datatype geo_location = eGeoLocNotApplicable
datatype gen_location = eGenLocPrimaryBox
datatype port_connection = ePortConnIntegratedDevice

record KSJACK_DESCRIPTION =
  ChannelMapping :: u32
  JackColor :: u32
  ConnectionType :: connection_type
  GeoLocation :: geo_location
  GenLocation :: gen_location
  PortConnection :: port_connection
  IsConnected :: bool

record KSJACK_DESCRIPTION2 =
  DeviceStateInfo :: u32
  JackCapabilities :: u32

abbreviation (input) KSAUDIO_SPEAKER_MONO :: u32 where "KSAUDIO_SPEAKER_MONO \<equiv> 4"
abbreviation (input) KSAUDIO_SPEAKER_STEREO :: u32 where "KSAUDIO_SPEAKER_STEREO \<equiv> 3"

definition ViosndSpeakerJackDescription :: KSJACK_DESCRIPTION where
  "ViosndSpeakerJackDescription = \<lparr>ChannelMapping = KSAUDIO_SPEAKER_STEREO, JackColor = 0xB3C98C,
     ConnectionType = eConnTypeUnknown, GeoLocation = eGeoLocNotApplicable, GenLocation = eGenLocPrimaryBox,
     PortConnection = ePortConnIntegratedDevice, IsConnected = True\<rparr>"

definition ViosndMicJackDescription :: KSJACK_DESCRIPTION where
  "ViosndMicJackDescription = \<lparr>ChannelMapping = KSAUDIO_SPEAKER_MONO, JackColor = 0x993399,
     ConnectionType = eConnTypeUnknown, GeoLocation = eGeoLocNotApplicable, GenLocation = eGenLocPrimaryBox,
     PortConnection = ePortConnIntegratedDevice, IsConnected = True\<rparr>"

text \<open>One entry for each pin, \<open>None\<close> for NULL.\<close>

definition ViosndRenderJackDescriptions :: "KSJACK_DESCRIPTION option list" where
  "ViosndRenderJackDescriptions = [None, Some ViosndSpeakerJackDescription]"

definition ViosndCaptureJackDescriptions :: "KSJACK_DESCRIPTION option list" where
  "ViosndCaptureJackDescriptions = [Some ViosndMicJackDescription, None]"

datatype pin_category = KSCATEGORY_AUDIO | KSNODETYPE_SPEAKER | KSNODETYPE_MICROPHONE

record TOPO_PIN_DESCRIPTOR =
  TopoDataFlow :: dataflow
  TopoCommunication :: communication
  TopoCategory :: pin_category

definition ViosndRenderTopoPins :: "TOPO_PIN_DESCRIPTOR list" where
  "ViosndRenderTopoPins =
     [\<lparr>TopoDataFlow = KSPIN_DATAFLOW_IN, TopoCommunication = KSPIN_COMMUNICATION_NONE, TopoCategory = KSCATEGORY_AUDIO\<rparr>,
      \<lparr>TopoDataFlow = KSPIN_DATAFLOW_OUT, TopoCommunication = KSPIN_COMMUNICATION_NONE, TopoCategory = KSNODETYPE_SPEAKER\<rparr>]"

definition ViosndCaptureTopoPins :: "TOPO_PIN_DESCRIPTOR list" where
  "ViosndCaptureTopoPins =
     [\<lparr>TopoDataFlow = KSPIN_DATAFLOW_IN, TopoCommunication = KSPIN_COMMUNICATION_NONE, TopoCategory = KSNODETYPE_MICROPHONE\<rparr>,
      \<lparr>TopoDataFlow = KSPIN_DATAFLOW_OUT, TopoCommunication = KSPIN_COMMUNICATION_NONE, TopoCategory = KSCATEGORY_AUDIO\<rparr>]"

text \<open>Both filters connect their pins directly.\<close>

record TOPO_FILTER_DESCRIPTOR =
  TopoPins :: "TOPO_PIN_DESCRIPTOR list"
  TopoConnections :: "(endpoint \<times> endpoint) list"

definition ViosndRenderTopoFilterDescriptor :: TOPO_FILTER_DESCRIPTOR where
  "ViosndRenderTopoFilterDescriptor = \<lparr>TopoPins = ViosndRenderTopoPins,
     TopoConnections = [(PCFILTER_NODE VIOSND_TOPO_PIN_SOURCE, PCFILTER_NODE VIOSND_TOPO_PIN_BRIDGE)]\<rparr>"

definition ViosndCaptureTopoFilterDescriptor :: TOPO_FILTER_DESCRIPTOR where
  "ViosndCaptureTopoFilterDescriptor = \<lparr>TopoPins = ViosndCaptureTopoPins,
     TopoConnections = [(PCFILTER_NODE VIOSND_TOPO_PIN_SOURCE, PCFILTER_NODE VIOSND_TOPO_PIN_BRIDGE)]\<rparr>"

section \<open>The miniport\<close>

record topo_miniport =
  tm_RefCount :: nat
  tm_Capture :: bool
  tm_Port :: ptr
  tm_This :: ptr
  tm_Destroyed :: bool

datatype topo_interface = TIID_IUnknown | TIID_IMiniport | TIID_IMiniportTopology | TIID_other nat

definition Topology_AddRef :: "topo_miniport \<Rightarrow> topo_miniport" where
  "Topology_AddRef tm = tm\<lparr>tm_RefCount := tm_RefCount tm + 1\<rparr>"

definition Topology_Release ::
  "('q, 'e) VIOSND_DEVICE \<Rightarrow> topo_miniport \<Rightarrow> (topo_miniport \<times> ('q, 'e) VIOSND_DEVICE) option" where
  "Topology_Release dev tm =
     (if tm_RefCount tm = 0 then None
      else
        let tm = tm\<lparr>tm_RefCount := tm_RefCount tm - 1\<rparr>
        in if tm_RefCount tm \<noteq> 0 then Some (tm, dev)
           else do {
             dev \<leftarrow> ExFreePool dev (tm_This tm);
             Some (tm\<lparr>tm_Destroyed := True\<rparr>, dev)
           })"

definition Topology_QueryInterface ::
  "topo_interface \<Rightarrow> topo_miniport \<Rightarrow> NTSTATUS \<times> topo_interface option \<times> topo_miniport" where
  "Topology_QueryInterface i tm =
     (if i = TIID_IUnknown \<or> i = TIID_IMiniport \<or> i = TIID_IMiniportTopology
      then (STATUS_SUCCESS, Some TIID_IMiniportTopology, Topology_AddRef tm)
      else (STATUS_INVALID_PARAMETER, None, tm))"

definition Topology_GetDescription :: "topo_miniport \<Rightarrow> TOPO_FILTER_DESCRIPTOR" where
  "Topology_GetDescription tm =
     (if tm_Capture tm then ViosndCaptureTopoFilterDescriptor else ViosndRenderTopoFilterDescriptor)"

text \<open>The status with \<open>*ResultantFormatLength\<close>.\<close>

definition Topology_DataRangeIntersection :: "NTSTATUS \<times> u32" where
  "Topology_DataRangeIntersection = (STATUS_NOT_IMPLEMENTED, 0)"

definition Topology_Init :: "ptr \<Rightarrow> topo_miniport \<Rightarrow> NTSTATUS \<times> topo_miniport" where
  "Topology_Init port tm = (STATUS_SUCCESS, tm\<lparr>tm_Port := port\<rparr>)"

definition ViosndCreateTopologyMiniport ::
  "('q, 'e) kernel \<Rightarrow> nat \<Rightarrow> bool \<Rightarrow> ('q, 'e) VIOSND_DEVICE \<Rightarrow>
   NTSTATUS \<times> topo_miniport option \<times> ('q, 'e) VIOSND_DEVICE" where
  "ViosndCreateTopologyMiniport K n capture dev =
     (let (memory, dev) = pool_alloc K dev n
      in if memory = 0 then (STATUS_INSUFFICIENT_RESOURCES, None, dev)
         else (STATUS_SUCCESS,
               Some \<lparr>tm_RefCount = 1, tm_Capture = capture, tm_Port = 0, tm_This = memory, tm_Destroyed = False\<rparr>, dev))"

section \<open>The jack property\<close>

text \<open>
  A request names its target, the verb and the item, the instance data (a pin, \<open>None\<close> for NULL) and
  the size of the value buffer.  A reply has the status, the new \<open>ValueSize\<close> and what was written.
\<close>

record PCPROPERTY_REQUEST =
  MajorTarget :: "topo_miniport option"
  Verb :: u32
  ItemId :: u32
  InstanceSize :: u32
  Instance :: "u32 option"
  ValueSize :: u32

datatype jack_value = Access_flags u32 | Jack KSJACK_DESCRIPTION | Jack2 KSJACK_DESCRIPTION2

type_synonym property_reply = "NTSTATUS \<times> u32 \<times> jack_value option"

abbreviation (input) KSPROPERTY_TYPE_GET :: u32 where "KSPROPERTY_TYPE_GET \<equiv> 1"
abbreviation (input) KSPROPERTY_TYPE_BASICSUPPORT :: u32 where "KSPROPERTY_TYPE_BASICSUPPORT \<equiv> 0x200"
abbreviation (input) KSPROPERTY_JACK_DESCRIPTION :: u32 where "KSPROPERTY_JACK_DESCRIPTION \<equiv> 1"
abbreviation (input) KSPROPERTY_JACK_DESCRIPTION2 :: u32 where "KSPROPERTY_JACK_DESCRIPTION2 \<equiv> 2"
abbreviation (input) sizeof_KSMULTIPLE_ITEM :: u32 where "sizeof_KSMULTIPLE_ITEM \<equiv> 8"
abbreviation (input) sizeof_KSJACK_DESCRIPTION :: u32 where "sizeof_KSJACK_DESCRIPTION \<equiv> 28"
abbreviation (input) sizeof_KSJACK_DESCRIPTION2 :: u32 where "sizeof_KSJACK_DESCRIPTION2 \<equiv> 8"

definition ViosndBasicSupport :: "PCPROPERTY_REQUEST \<Rightarrow> u32 \<Rightarrow> property_reply" where
  "ViosndBasicSupport r accessFlags =
     (if ValueSize r = 0 then (STATUS_BUFFER_OVERFLOW, 4, None)
      else if ValueSize r < 4 then (STATUS_BUFFER_TOO_SMALL, ValueSize r, None)
      else (STATUS_SUCCESS, 4, Some (Access_flags accessFlags)))"

text \<open>The pin of the request when it has a jack.\<close>

definition jack_of :: "PCPROPERTY_REQUEST \<Rightarrow> KSJACK_DESCRIPTION option list \<Rightarrow> NTSTATUS + KSJACK_DESCRIPTION" where
  "jack_of r jacks =
     (case Instance r of
        None \<Rightarrow> Inl STATUS_INVALID_PARAMETER
      | Some pinId \<Rightarrow>
          if InstanceSize r < 4 then Inl STATUS_INVALID_PARAMETER
          else if length jacks \<le> unat pinId then Inl STATUS_INVALID_DEVICE_REQUEST
          else case jacks ! unat pinId of None \<Rightarrow> Inl STATUS_INVALID_DEVICE_REQUEST | Some j \<Rightarrow> Inr j)"

definition ViosndGetJackDescription :: "PCPROPERTY_REQUEST \<Rightarrow> KSJACK_DESCRIPTION option list \<Rightarrow> property_reply" where
  "ViosndGetJackDescription r jacks =
     (let needed = sizeof_KSMULTIPLE_ITEM + sizeof_KSJACK_DESCRIPTION
      in case jack_of r jacks of
           Inl status \<Rightarrow> (status, ValueSize r, None)
         | Inr j \<Rightarrow>
             if ValueSize r = 0 then (STATUS_BUFFER_OVERFLOW, needed, None)
             else if ValueSize r < needed then (STATUS_BUFFER_TOO_SMALL, ValueSize r, None)
             else (STATUS_SUCCESS, needed, Some (Jack j)))"

definition ViosndGetJackDescription2 :: "PCPROPERTY_REQUEST \<Rightarrow> KSJACK_DESCRIPTION option list \<Rightarrow> property_reply" where
  "ViosndGetJackDescription2 r jacks =
     (let needed = sizeof_KSMULTIPLE_ITEM + sizeof_KSJACK_DESCRIPTION2
      in case jack_of r jacks of
           Inl status \<Rightarrow> (status, ValueSize r, None)
         | Inr j \<Rightarrow>
             if ValueSize r = 0 then (STATUS_BUFFER_OVERFLOW, needed, None)
             else if ValueSize r < needed then (STATUS_BUFFER_TOO_SMALL, ValueSize r, None)
             else (STATUS_SUCCESS, needed, Some (Jack2 \<lparr>DeviceStateInfo = 0, JackCapabilities = 0\<rparr>)))"

text \<open>\<open>None\<close> for a NULL request.\<close>

definition ViosndTopologyPropertyHandler :: "PCPROPERTY_REQUEST option \<Rightarrow> property_reply" where
  "ViosndTopologyPropertyHandler request =
     (case request of
        None \<Rightarrow> (STATUS_INVALID_PARAMETER, 0, None)
      | Some r \<Rightarrow> (case MajorTarget r of
          None \<Rightarrow> (STATUS_INVALID_PARAMETER, ValueSize r, None)
        | Some tm \<Rightarrow>
            let jacks = (if tm_Capture tm then ViosndCaptureJackDescriptions else ViosndRenderJackDescriptions)
            in if Verb r AND KSPROPERTY_TYPE_BASICSUPPORT \<noteq> 0
               then ViosndBasicSupport r (KSPROPERTY_TYPE_GET OR KSPROPERTY_TYPE_BASICSUPPORT)
               else if Verb r AND KSPROPERTY_TYPE_GET = 0 then (STATUS_INVALID_DEVICE_REQUEST, ValueSize r, None)
               else if ItemId r = KSPROPERTY_JACK_DESCRIPTION then ViosndGetJackDescription r jacks
               else if ItemId r = KSPROPERTY_JACK_DESCRIPTION2 then ViosndGetJackDescription2 r jacks
               else (STATUS_INVALID_DEVICE_REQUEST, ValueSize r, None)))"

section \<open>Properties\<close>

text \<open>The size of what was written.\<close>

fun value_bytes :: "jack_value \<Rightarrow> u32" where
  "value_bytes (Access_flags _) = 4"
| "value_bytes (Jack _) = 36"
| "value_bytes (Jack2 _) = 16"

lemma jack_of_size [simp]: "jack_of (r\<lparr>ValueSize := n\<rparr>) = jack_of r"
  by (simp add: jack_of_def fun_eq_iff split: option.split)

lemma handler_size_query:
  assumes "ViosndTopologyPropertyHandler (Some (r\<lparr>ValueSize := 0\<rparr>)) = (STATUS_BUFFER_OVERFLOW, n, v)" "n \<le> m"
  shows "\<exists>v. ViosndTopologyPropertyHandler (Some (r\<lparr>ValueSize := m\<rparr>)) = (STATUS_SUCCESS, n, Some v) \<and> value_bytes v = n"
proof -
  have "\<exists>v. ViosndBasicSupport (r\<lparr>ValueSize := m\<rparr>) f = (STATUS_SUCCESS, n, Some v) \<and> value_bytes v = n"
    if "ViosndBasicSupport (r\<lparr>ValueSize := 0\<rparr>) f = (STATUS_BUFFER_OVERFLOW, n, v)" for f
    using that assms(2) by (auto simp: ViosndBasicSupport_def not_less)
  moreover have "\<exists>v. ViosndGetJackDescription (r\<lparr>ValueSize := m\<rparr>) js = (STATUS_SUCCESS, n, Some v) \<and> value_bytes v = n"
    if "ViosndGetJackDescription (r\<lparr>ValueSize := 0\<rparr>) js = (STATUS_BUFFER_OVERFLOW, n, v)" for js
    using that assms(2) by (auto simp: ViosndGetJackDescription_def not_less jack_of_def split: sum.splits option.splits if_splits)
  moreover have "\<exists>v. ViosndGetJackDescription2 (r\<lparr>ValueSize := m\<rparr>) js = (STATUS_SUCCESS, n, Some v) \<and> value_bytes v = n"
    if "ViosndGetJackDescription2 (r\<lparr>ValueSize := 0\<rparr>) js = (STATUS_BUFFER_OVERFLOW, n, v)" for js
    using that assms(2) by (auto simp: ViosndGetJackDescription2_def not_less jack_of_def split: sum.splits option.splits if_splits)
  ultimately show ?thesis
    using assms(1) by (auto simp: ViosndTopologyPropertyHandler_def Let_def split: option.splits if_splits)
qed

end
