(* ===== verification/Snd_Adapter.thy ===== *)
theory Snd_Adapter
  imports Snd_Topology Snd_Card
begin

text \<open>
  The adapter (\<open>viosnd/sys/Adapter.cpp\<close>): starting the device, and the registration of its
  endpoints with the port class, a topology and a WaveRT subdevice for each.

  The state pairs the device with the port class's own environment and the miniports that are
  alive, at their addresses.  A port is the port class's object; it takes references on its
  miniport when it is initialised and gives them back when it goes.
\<close>

section \<open>State\<close>

datatype miniport = Topology topo_miniport | WaveRT wave_miniport

text \<open>
  The calls of the port class and the registry.  \<open>ZwQueryValueKey\<close> gives the type and the data of the
  value.  \<open>PcNewPort\<close> receives the class, True for a topology port.  \<open>Port_Init\<close> gives the number of
  references that the port takes on its miniport, \<open>Port_Release\<close> the number it gives back.
\<close>

record 'f portcls =
  PcGetPhysicalDeviceObject :: "'f \<Rightarrow> NTSTATUS \<times> 'f"
  IoOpenDeviceRegistryKey :: "'f \<Rightarrow> NTSTATUS \<times> 'f"
  ZwQueryValueKey :: "'f \<Rightarrow> (NTSTATUS \<times> u32 \<times> u8 list) \<times> 'f"
  PcNewPort :: "bool \<Rightarrow> 'f \<Rightarrow> (NTSTATUS \<times> ptr) \<times> 'f"
  Port_Init :: "ptr \<Rightarrow> 'f \<Rightarrow> (NTSTATUS \<times> nat) \<times> 'f"
  PcRegisterSubdevice :: "ptr \<Rightarrow> 'f \<Rightarrow> NTSTATUS \<times> 'f"
  PcRegisterPhysicalConnection :: "ptr \<Rightarrow> u32 \<Rightarrow> ptr \<Rightarrow> u32 \<Rightarrow> 'f \<Rightarrow> NTSTATUS \<times> 'f"
  Port_Release :: "ptr \<Rightarrow> 'f \<Rightarrow> nat \<times> 'f"

record ('e, 'f) adapter =
  ad_device :: "'e sound_device"
  ad_minis :: "ptr \<Rightarrow> miniport option"
  ad_pc :: 'f

abbreviation (input) pc_call ::
  "('f \<Rightarrow> 'a \<times> 'f) \<Rightarrow> ('e, 'f) adapter \<Rightarrow> 'a \<times> ('e, 'f) adapter" where
  "pc_call f st \<equiv> (case f (ad_pc st) of (v, e) \<Rightarrow> (v, st\<lparr>ad_pc := e\<rparr>))"

definition set_ext :: "('e, 'f) adapter \<Rightarrow> (opaque virtqueue_split, 'e) VIOSND_DEVICE \<Rightarrow> ('e, 'f) adapter" where
  "set_ext st dev = st\<lparr>ad_device := (ad_device st)\<lparr>vdev_sys := dev\<rparr>\<rparr>"

definition mini_this :: "miniport \<Rightarrow> ptr" where
  "mini_this m = (case m of Topology t \<Rightarrow> tm_This t | WaveRT w \<Rightarrow> mp_This w)"

definition mini_refs :: "miniport \<Rightarrow> nat" where
  "mini_refs m = (case m of Topology t \<Rightarrow> tm_RefCount t | WaveRT w \<Rightarrow> mp_RefCount w)"

definition mini_port :: "miniport \<Rightarrow> ptr" where
  "mini_port m = (case m of Topology t \<Rightarrow> tm_Port t | WaveRT w \<Rightarrow> mp_Port w)"

definition mini_addref :: "miniport \<Rightarrow> miniport" where
  "mini_addref m = (case m of Topology t \<Rightarrow> Topology (Topology_AddRef t) | WaveRT w \<Rightarrow> WaveRT (Miniport_AddRef w))"

definition mini_init :: "ptr \<Rightarrow> miniport \<Rightarrow> miniport" where
  "mini_init port m = (case m of Topology t \<Rightarrow> Topology (snd (Topology_Init port t)) | WaveRT w \<Rightarrow> WaveRT (snd (Init port w)))"

text \<open>\<open>None\<close> in the result: the miniport has been destroyed.\<close>

definition mini_release ::
  "('q, 'e) VIOSND_DEVICE \<Rightarrow> miniport \<Rightarrow> (miniport option \<times> ('q, 'e) VIOSND_DEVICE) option" where
  "mini_release dev m =
     (case m of
        Topology t \<Rightarrow> do { (t, dev) \<leftarrow> Topology_Release dev t; Some (if tm_Destroyed t then None else Some (Topology t), dev) }
      | WaveRT w \<Rightarrow> do { (w, dev) \<leftarrow> Miniport_Release dev w; Some (if mp_Destroyed w then None else Some (WaveRT w), dev) })"

text \<open>\<open>n\<close> references on the miniport at \<open>a\<close> are given back.\<close>

fun release_mini :: "ptr \<Rightarrow> nat \<Rightarrow> ('e, 'f) adapter \<Rightarrow> ('e, 'f) adapter option" where
  "release_mini a 0 st = Some st"
| "release_mini a (Suc n) st = do {
     m \<leftarrow> ad_minis st a;
     (m, dev) \<leftarrow> mini_release (vdev_sys (ad_device st)) m;
     release_mini a n ((set_ext st dev)\<lparr>ad_minis := (ad_minis st)(a := m)\<rparr>)
   }"

section \<open>Subdevices\<close>

record VIOSND_SUBDEVICE =
  sub_Port :: ptr
  sub_Miniport :: ptr

abbreviation (input) no_subdevice :: VIOSND_SUBDEVICE where
  "no_subdevice \<equiv> \<lparr>sub_Port = 0, sub_Miniport = 0\<rparr>"

text \<open>The subdevice itself is zero afterwards.\<close>

definition ViosndReleaseSubdevice ::
  "'f portcls \<Rightarrow> VIOSND_SUBDEVICE \<Rightarrow> ('e, 'f) adapter \<Rightarrow> ('e, 'f) adapter option" where
  "ViosndReleaseSubdevice T s st = do {
     st \<leftarrow> (if sub_Miniport s \<noteq> 0 then release_mini (sub_Miniport s) 1 st else Some st);
     if sub_Port s \<noteq> 0
     then let (n, st) = pc_call (Port_Release T (sub_Port s)) st in release_mini (sub_Miniport s) n st
     else Some st
   }"

text \<open>\<open>Port->Init\<close> calls \<open>Init\<close> of the miniport and takes its references.\<close>

definition port_init ::
  "'f portcls \<Rightarrow> ptr \<Rightarrow> ptr \<Rightarrow> ('e, 'f) adapter \<Rightarrow> NTSTATUS \<times> ('e, 'f) adapter" where
  "port_init T port a st =
     (let ((status, n), st) = pc_call (Port_Init T port) st
      in (status, st\<lparr>ad_minis := (ad_minis st)(a := map_option (\<lambda>m. (mini_addref ^^ n) (mini_init port m)) (ad_minis st a))\<rparr>))"

text \<open>What the two functions for a WaveRT and a topology subdevice share; \<open>create\<close> creates the miniport, 0 for NULL.\<close>

definition register_subdevice ::
  "'f portcls \<Rightarrow> bool \<Rightarrow> (('e, 'f) adapter \<Rightarrow> (NTSTATUS \<times> ptr) \<times> ('e, 'f) adapter) \<Rightarrow> ('e, 'f) adapter \<Rightarrow>
   ((NTSTATUS \<times> VIOSND_SUBDEVICE) \<times> ('e, 'f) adapter) option" where
  "register_subdevice T topology create st =
     (let ((status, port), st) = pc_call (PcNewPort T topology) st
      in if \<not> NT_SUCCESS status then Some ((status, no_subdevice), st)
         else
           let ((status, a), st) = create st;
               s = \<lparr>sub_Port = port, sub_Miniport = a\<rparr>;
               (status, st) = (if NT_SUCCESS status then port_init T port a st else (status, st));
               (status, st) = (if NT_SUCCESS status then pc_call (PcRegisterSubdevice T port) st else (status, st))
           in if NT_SUCCESS status then Some ((status, s), st)
              else do {
                st \<leftarrow> ViosndReleaseSubdevice T s st;
                Some ((status, no_subdevice), st)
              })"

text \<open>The block of a new miniport is its address.  \<open>n\<close> is the size of the class.\<close>

definition create_wave ::
  "(opaque virtqueue_split, 'e) kernel \<Rightarrow> nat \<Rightarrow> u32 \<Rightarrow> bool \<Rightarrow> ('e, 'f) adapter \<Rightarrow> (NTSTATUS \<times> ptr) \<times> ('e, 'f) adapter" where
  "create_wave K n streamId capture st =
     (case ViosndCreateWaveRTMiniport K n streamId capture (vdev_sys (ad_device st)) of
        (status, None, dev) \<Rightarrow> ((status, 0), set_ext st dev)
      | (status, Some w, dev) \<Rightarrow>
          ((status, mp_This w), (set_ext st dev)\<lparr>ad_minis := (ad_minis st)(mp_This w \<mapsto> WaveRT w)\<rparr>))"

definition create_topology ::
  "(opaque virtqueue_split, 'e) kernel \<Rightarrow> nat \<Rightarrow> bool \<Rightarrow> ('e, 'f) adapter \<Rightarrow> (NTSTATUS \<times> ptr) \<times> ('e, 'f) adapter" where
  "create_topology K n capture st =
     (case ViosndCreateTopologyMiniport K n capture (vdev_sys (ad_device st)) of
        (status, None, dev) \<Rightarrow> ((status, 0), set_ext st dev)
      | (status, Some t, dev) \<Rightarrow>
          ((status, tm_This t), (set_ext st dev)\<lparr>ad_minis := (ad_minis st)(tm_This t \<mapsto> Topology t)\<rparr>))"

definition ViosndCreateAndRegisterWaveRTSubdevice ::
  "(opaque virtqueue_split, 'e) kernel \<Rightarrow> 'f portcls \<Rightarrow> nat \<Rightarrow> u32 \<Rightarrow> bool \<Rightarrow> ('e, 'f) adapter \<Rightarrow>
   ((NTSTATUS \<times> VIOSND_SUBDEVICE) \<times> ('e, 'f) adapter) option" where
  "ViosndCreateAndRegisterWaveRTSubdevice K T n streamId capture st =
     register_subdevice T False (create_wave K n streamId capture) st"

definition ViosndCreateAndRegisterTopologySubdevice ::
  "(opaque virtqueue_split, 'e) kernel \<Rightarrow> 'f portcls \<Rightarrow> nat \<Rightarrow> bool \<Rightarrow> ('e, 'f) adapter \<Rightarrow>
   ((NTSTATUS \<times> VIOSND_SUBDEVICE) \<times> ('e, 'f) adapter) option" where
  "ViosndCreateAndRegisterTopologySubdevice K T n capture st =
     register_subdevice T True (create_topology K n capture) st"

definition ViosndRegisterAudioEndpoint ::
  "(opaque virtqueue_split, 'e) kernel \<Rightarrow> 'f portcls \<Rightarrow> nat \<Rightarrow> nat \<Rightarrow> u32 \<Rightarrow> bool \<Rightarrow> ('e, 'f) adapter \<Rightarrow>
   (NTSTATUS \<times> ('e, 'f) adapter) option" where
  "ViosndRegisterAudioEndpoint K T nt nw streamId capture st = do {
     ((status, topology), st) \<leftarrow> ViosndCreateAndRegisterTopologySubdevice K T nt capture st;
     if \<not> NT_SUCCESS status then Some (status, st)
     else do {
       ((status, wave), st) \<leftarrow> ViosndCreateAndRegisterWaveRTSubdevice K T nw streamId capture st;
       let (status, st) =
         (if NT_SUCCESS status
          then pc_call (if capture
                 then PcRegisterPhysicalConnection T (sub_Port topology) VIOSND_TOPO_PIN_BRIDGE (sub_Port wave) VIOSND_PIN_BRIDGE
                 else PcRegisterPhysicalConnection T (sub_Port wave) VIOSND_PIN_BRIDGE (sub_Port topology) VIOSND_TOPO_PIN_SOURCE) st
          else (status, st));
       st \<leftarrow> ViosndReleaseSubdevice T wave st;
       st \<leftarrow> ViosndReleaseSubdevice T topology st;
       Some (status, st)
     }
   }"

section \<open>Starting the device\<close>

abbreviation (input) VIOSND_ENDPOINT_ROLE_RENDER :: u32 where "VIOSND_ENDPOINT_ROLE_RENDER \<equiv> 0"
abbreviation (input) VIOSND_ENDPOINT_ROLE_CAPTURE :: u32 where "VIOSND_ENDPOINT_ROLE_CAPTURE \<equiv> 1"
abbreviation (input) VIOSND_ENDPOINT_ROLE_BOTH :: u32 where "VIOSND_ENDPOINT_ROLE_BOTH \<equiv> 2"
abbreviation (input) REG_DWORD :: u32 where "REG_DWORD \<equiv> 4"

definition ViosndReadDeviceDword :: "'f portcls \<Rightarrow> u32 \<Rightarrow> 'f \<Rightarrow> u32 \<times> 'f" where
  "ViosndReadDeviceDword T defaultValue f =
     (let (status, f) = IoOpenDeviceRegistryKey T f
      in if \<not> NT_SUCCESS status then (defaultValue, f)
         else
           let ((status, kind, data), f) = ZwQueryValueKey T f
           in (if NT_SUCCESS status \<and> kind = REG_DWORD \<and> 4 \<le> length data then le_word32 data else defaultValue, f))"

record start_sizes =
  size_of_device :: nat
  size_of_topology :: nat
  size_of_wave :: nat

text \<open>The endpoints for the streams that were found; the second only after the first succeeded.\<close>

definition register_endpoints ::
  "(opaque virtqueue_split, 'e) kernel \<Rightarrow> 'f portcls \<Rightarrow> start_sizes \<Rightarrow> bool \<Rightarrow> bool \<Rightarrow> VIOSND_STREAM_PAIR \<Rightarrow>
   ('e, 'f) adapter \<Rightarrow> (NTSTATUS \<times> ('e, 'f) adapter) option" where
  "register_endpoints K T n enableRender enableCapture streams st = do {
     (status, st) \<leftarrow>
       (if enableRender \<and> HasRender streams
        then ViosndRegisterAudioEndpoint K T (size_of_topology n) (size_of_wave n) (RenderStreamId streams) False st
        else Some (STATUS_SUCCESS, st));
     if NT_SUCCESS status \<and> enableCapture \<and> HasCapture streams
     then ViosndRegisterAudioEndpoint K T (size_of_topology n) (size_of_wave n) (CaptureStreamId streams) True st
     else Some (status, st)
   }"

text \<open>Bringing up the device that was created, and the streams that it needs.\<close>

definition initialize_and_query ::
  "(opaque virtqueue_split, 'e) kernel \<Rightarrow> virtio_sizes \<Rightarrow> bool \<Rightarrow> bool \<Rightarrow> 'e sound_device \<Rightarrow>
   (NTSTATUS \<times> VIOSND_STREAM_PAIR option \<times> 'e sound_device) option" where
  "initialize_and_query K Z enableRender enableCapture vd = do {
     (status, vd) \<leftarrow> ViosndInitializeDevice K Z vd;
     (status, streams, vd) \<leftarrow>
       (if NT_SUCCESS status then do {
          (status, streams, dev) \<leftarrow> ViosndQueryPcmStreams K (vdev_sys vd);
          Some (status, streams, vd\<lparr>vdev_sys := dev\<rparr>)
        }
        else Some (status, None, vd));
     if \<not> NT_SUCCESS status then Some (status, streams, vd)
     else do {
       pair \<leftarrow> streams;
       let status = (if enableRender \<and> \<not> HasRender pair then STATUS_DEVICE_CONFIGURATION_ERROR else status);
       let status = (if NT_SUCCESS status \<and> enableCapture \<and> \<not> HasCapture pair then STATUS_DEVICE_CONFIGURATION_ERROR else status);
       Some (status, streams, vd)
     }
   }"

text \<open>
  The result has the status, the device that is stored in \<open>g_ViosndDevice\<close> with what is registered,
  and after a failure what is left of the environment and the miniports.  \<open>pdo\<close> says whether there
  is a physical device object.
\<close>

definition destroy_started ::
  "(opaque virtqueue_split, 'e) kernel \<Rightarrow> virtio_sizes \<Rightarrow> 'e pnp \<Rightarrow> bool \<Rightarrow> ('e, 'f) adapter \<Rightarrow> ('e, 'f) adapter option" where
  "destroy_started K Z N pdo st =
     map_option (\<lambda>vd. st\<lparr>ad_device := vd\<rparr>) (ViosndDestroyDevice K Z N pdo (ad_device st))"

definition XcbVirtioAudioStartDevice ::
  "(opaque virtqueue_split, 'e) kernel \<Rightarrow> 'f portcls \<Rightarrow> virtio_sizes \<Rightarrow> 'e pnp \<Rightarrow> start_sizes \<Rightarrow> bool \<Rightarrow> RESOURCELIST \<Rightarrow>
   'e \<Rightarrow> 'f \<Rightarrow> (NTSTATUS \<times> (bool \<times> ('e, 'f) adapter) option) option" where
  "XcbVirtioAudioStartDevice K T Z N n pdo res e f =
     (let (status, f) = PcGetPhysicalDeviceObject T f
      in if \<not> NT_SUCCESS status then Some (status, None)
         else
           let (endpointRole, f) = ViosndReadDeviceDword T VIOSND_ENDPOINT_ROLE_BOTH f;
               enableRender = (endpointRole \<noteq> VIOSND_ENDPOINT_ROLE_CAPTURE);
               enableCapture = (endpointRole \<noteq> VIOSND_ENDPOINT_ROLE_RENDER)
           in do {
             (status, created, e) \<leftarrow> ViosndCreateDevice K Z N (size_of_device n) pdo res e;
             if \<not> NT_SUCCESS status then Some (status, None)
             else do {
               vd \<leftarrow> created;
               (status, streams, vd) \<leftarrow> initialize_and_query K Z enableRender enableCapture vd;
               let st = \<lparr>ad_device = vd, ad_minis = Map.empty, ad_pc = f\<rparr>;
               if \<not> NT_SUCCESS status then do {
                 st \<leftarrow> destroy_started K Z N pdo st;
                 Some (status, Some (False, st))
               }
               else do {
                 pair \<leftarrow> streams;
                 (status, st) \<leftarrow> register_endpoints K T n enableRender enableCapture pair st;
                 if \<not> NT_SUCCESS status then do {
                   st \<leftarrow> destroy_started K Z N pdo st;
                   Some (status, Some (False, st))
                 }
                 else Some (status, Some (True, st))
               }
             }
           })"

end
