(* ===== verification/Snd_Endpoints.thy ===== *)
theory Snd_Endpoints
  imports Snd_Adapter
begin

text \<open>
  The registration of the endpoints: who holds the references on the miniports while subdevices are
  registered, connected and released, whatever the port class answers.  \<open>adapter_inv\<close> counts the
  references of the ports and those of the code.
\<close>

section \<open>The invariant of the adapter\<close>

text \<open>
  The contract of the port class; \<open>held f p\<close> is the number of references that port \<open>p\<close> holds on its
  miniport, \<open>None\<close> when there is no such port.  A new port holds none, its initialisation takes them,
  and it keeps them until it goes.
\<close>

definition port_law :: "'f portcls \<Rightarrow> ('f \<Rightarrow> ptr \<Rightarrow> nat option) \<Rightarrow> bool" where
  "port_law T held \<longleftrightarrow>
     (\<forall>b f status p f'. PcNewPort T b f = ((status, p), f') \<longrightarrow>
        (if NT_SUCCESS status then p \<noteq> 0 \<and> held f p = None \<and> held f' = (held f)(p \<mapsto> 0) else held f' = held f)) \<and>
     (\<forall>p f status n f'. Port_Init T p f = ((status, n), f') \<and> held f p = Some 0 \<longrightarrow> held f' = (held f)(p \<mapsto> n)) \<and>
     (\<forall>p f. held (snd (PcRegisterSubdevice T p f)) = held f) \<and>
     (\<forall>p i q j f. held (snd (PcRegisterPhysicalConnection T p i q j f)) = held f) \<and>
     (\<forall>p f n f' k. Port_Release T p f = (n, f') \<and> held f p = Some k \<longrightarrow>
        n = 0 \<and> held f' = held f \<or> n = k \<and> held f' = (held f)(p := None))"

lemma port_lawD:
  assumes "port_law T held"
  shows "PcNewPort T b f = ((status, p), f') \<Longrightarrow> NT_SUCCESS status \<Longrightarrow> p \<noteq> 0 \<and> held f p = None \<and> held f' = (held f)(p \<mapsto> 0)"
    "PcNewPort T b f = ((status, p), f') \<Longrightarrow> \<not> NT_SUCCESS status \<Longrightarrow> held f' = held f"
    "Port_Init T p f = ((status, n), f') \<Longrightarrow> held f p = Some 0 \<Longrightarrow> held f' = (held f)(p \<mapsto> n)"
    "PcRegisterSubdevice T p f = (status, f') \<Longrightarrow> held f' = held f"
    "PcRegisterPhysicalConnection T p i q j f = (status, f') \<Longrightarrow> held f' = held f"
    "Port_Release T p f = (n, f') \<Longrightarrow> held f p = Some k \<Longrightarrow> n = 0 \<and> held f' = held f \<or> n = k \<and> held f' = (held f)(p := None)"
proof -
  note a = assms [unfolded port_law_def]
  note l = a [THEN conjunct1] a [THEN conjunct2, THEN conjunct1] a [THEN conjunct2, THEN conjunct2, THEN conjunct1]
    a [THEN conjunct2, THEN conjunct2, THEN conjunct2, THEN conjunct1] a [THEN conjunct2, THEN conjunct2, THEN conjunct2, THEN conjunct2]
  show "PcNewPort T b f = ((status, p), f') \<Longrightarrow> NT_SUCCESS status \<Longrightarrow> p \<noteq> 0 \<and> held f p = None \<and> held f' = (held f)(p \<mapsto> 0)"
    "PcNewPort T b f = ((status, p), f') \<Longrightarrow> \<not> NT_SUCCESS status \<Longrightarrow> held f' = held f"
    using l(1) [rule_format, of b f status p f'] by simp_all
  show "Port_Init T p f = ((status, n), f') \<Longrightarrow> held f p = Some 0 \<Longrightarrow> held f' = (held f)(p \<mapsto> n)"
    using l(2) [rule_format, of p f status n f'] by simp
  show "PcRegisterSubdevice T p f = (status, f') \<Longrightarrow> held f' = held f" using l(3) [rule_format, of p f] by simp
  show "PcRegisterPhysicalConnection T p i q j f = (status, f') \<Longrightarrow> held f' = held f" using l(4) [rule_format, of p i q j f] by simp
  show "Port_Release T p f = (n, f') \<Longrightarrow> held f p = Some k \<Longrightarrow> n = 0 \<and> held f' = held f \<or> n = k \<and> held f' = (held f)(p := None)"
    using l(5) [rule_format, of p f n f' k] by simp
qed

definition port_refs :: "('f \<Rightarrow> ptr \<Rightarrow> nat option) \<Rightarrow> 'f \<Rightarrow> ptr \<Rightarrow> nat" where
  "port_refs held f p = (if p = 0 then 0 else case held f p of None \<Rightarrow> 0 | Some k \<Rightarrow> k)"

text \<open>\<open>own\<close> counts the references that the code itself holds at the moment.\<close>

definition mini_dead :: "miniport \<Rightarrow> bool" where
  "mini_dead m = (case m of Topology t \<Rightarrow> tm_Destroyed t | WaveRT w \<Rightarrow> mp_Destroyed w)"

definition minis_ok :: "('f \<Rightarrow> ptr \<Rightarrow> nat option) \<Rightarrow> (ptr \<Rightarrow> nat) \<Rightarrow> ('e, 'f) adapter \<Rightarrow> bool" where
  "minis_ok held own st \<longleftrightarrow>
     (\<forall>a m. ad_minis st a = Some m \<longrightarrow> a \<noteq> 0 \<and> mini_this m = a \<and> \<not> mini_dead m \<and> 0 < mini_refs m \<and>
        mini_refs m = own a + port_refs held (ad_pc st) (mini_port m)) \<and>
     (\<forall>a b m n. ad_minis st a = Some m \<and> ad_minis st b = Some n \<and> mini_port m = mini_port n \<and> mini_port m \<noteq> 0 \<longrightarrow> a = b)"

definition device_part :: "client \<Rightarrow> ptr set \<Rightarrow> ptr set \<Rightarrow> ('e, 'f) adapter \<Rightarrow> bool" where
  "device_part c P B st \<longleftrightarrow> transport_inv (sound_view c) P (B \<union> dom (ad_minis st)) (ad_device st) \<and>
     B \<inter> dom (ad_minis st) = {} \<and> table_block (ad_device st) \<subseteq> B"

definition adapter_inv ::
  "('f \<Rightarrow> ptr \<Rightarrow> nat option) \<Rightarrow> (ptr \<Rightarrow> nat) \<Rightarrow> client \<Rightarrow> ptr set \<Rightarrow> ptr set \<Rightarrow> ('e, 'f) adapter \<Rightarrow> bool" where
  "adapter_inv held own c P B st \<longleftrightarrow> device_part c P B st \<and> minis_ok held own st"

definition ports_live :: "('f \<Rightarrow> ptr \<Rightarrow> nat option) \<Rightarrow> ('e, 'f) adapter \<Rightarrow> bool" where
  "ports_live held st \<longleftrightarrow> (\<forall>a m. ad_minis st a = Some m \<and> mini_port m \<noteq> 0 \<longrightarrow> held (ad_pc st) (mini_port m) \<noteq> None)"

text \<open>A released reference.\<close>

lemma mini_release_keep:
  assumes "1 < mini_refs m" "\<not> mini_dead m"
  obtains m' where "mini_release dev m = Some (Some m', dev)" "mini_refs m' = mini_refs m - 1"
    "mini_this m' = mini_this m" "mini_port m' = mini_port m" "\<not> mini_dead m'"
proof (cases m)
  case (Topology t)
  then have "mini_release dev m = Some (Some (Topology (t\<lparr>tm_RefCount := tm_RefCount t - 1\<rparr>)), dev)"
    using assms by (simp add: mini_release_def Topology_Release_def mini_refs_def mini_dead_def)
  then show thesis by (rule that) (use assms Topology in \<open>simp_all add: mini_refs_def mini_dead_def mini_this_def mini_port_def\<close>)
next
  case (WaveRT w)
  then have "mini_release dev m = Some (Some (WaveRT (w\<lparr>mp_RefCount := mp_RefCount w - 1\<rparr>)), dev)"
    using assms by (simp add: mini_release_def Miniport_Release_def mini_refs_def mini_dead_def)
  then show thesis by (rule that) (use assms WaveRT in \<open>simp_all add: mini_refs_def mini_dead_def mini_this_def mini_port_def\<close>)
qed

lemma mini_release_last:
  assumes "mini_refs m = 1" "ExFreePool dev (mini_this m) = Some dev'"
  shows "mini_release dev m = Some (None, dev')"
  using assms by (cases m) (simp_all add: mini_release_def Topology_Release_def Miniport_Release_def mini_refs_def mini_this_def Let_def)

lemma set_ext_simps [simp]:
  "ad_minis (set_ext st dev) = ad_minis st" "ad_pc (set_ext st dev) = ad_pc st" "vdev_sys (ad_device (set_ext st dev)) = dev"
  by (simp_all add: set_ext_def)

lemma device_part_step:
  assumes "device_part c P B st" "sound_ok c dev" "ring_pages dev = ring_pages (vdev_sys (ad_device st))"
    "own_blocks dev = (own_blocks (vdev_sys (ad_device st)) - dom (ad_minis st)) \<union> dom ms"
    "dom ms \<inter> (B \<union> dom (vdev_vqs (ad_device st))) = {}"
  shows "device_part c P B ((set_ext st dev)\<lparr>ad_minis := ms\<rparr>)"
proof -
  note t = assms(1) [unfolded device_part_def]
  note d = transport_invD [OF t [THEN conjunct1]]
  have b: "own_blocks (vdev_sys (ad_device st)) = B \<union> dom (ad_minis st) \<union> dom (vdev_vqs (ad_device st))" using d(6) by simp
  have n: "dom (ad_minis st) \<inter> dom (vdev_vqs (ad_device st)) = {}" "B \<inter> dom (ad_minis st) = {}" "B \<inter> dom (vdev_vqs (ad_device st)) = {}"
    using d(7) t by blast+
  have ob: "own_blocks dev = B \<union> dom ms \<union> dom (vdev_vqs (ad_device st))" unfolding assms(4) b using n by blast
  have ib: "vdev_info_block (ad_device st) = 0 \<or> vdev_info_block (ad_device st) \<in> B"
    using t by (auto simp: table_block_def)
  have x: "(B \<union> dom ms) \<inter> dom (vdev_vqs (ad_device st)) = {}" using n(3) assms(5) by blast
  have "transport_inv (sound_view c) P (B \<union> dom ms) ((ad_device st)\<lparr>vdev_sys := dev\<rparr>)"
    using d(2-5) assms(2,3) ob x ib by (auto simp: transport_inv_def)
  then show ?thesis using t assms(5) by (auto simp: device_part_def set_ext_def table_block_def)
qed

lemma device_part_blocks:
  assumes "device_part c P B st"
  shows "own_blocks (vdev_sys (ad_device st)) = B \<union> dom (ad_minis st) \<union> dom (vdev_vqs (ad_device st))"
    "dom (ad_minis st) \<inter> (B \<union> dom (vdev_vqs (ad_device st))) = {}" "sound_ok c (vdev_sys (ad_device st))"
proof -
  note t = assms(1) [unfolded device_part_def]
  note d = transport_invD [OF t [THEN conjunct1]]
  show "own_blocks (vdev_sys (ad_device st)) = B \<union> dom (ad_minis st) \<union> dom (vdev_vqs (ad_device st))" "sound_ok c (vdev_sys (ad_device st))"
    using d(1,6) by simp_all
  show "dom (ad_minis st) \<inter> (B \<union> dom (vdev_vqs (ad_device st))) = {}" using d(7) t by blast
qed

lemma device_part_same:
  assumes "device_part c P B st" "ad_device st' = ad_device st" "dom (ad_minis st') = dom (ad_minis st)"
  shows "device_part c P B st'"
  using assms by (simp add: device_part_def)

lemma device_part_free:
  assumes "device_part c P B st" "a \<in> dom (ad_minis st)" "a \<noteq> 0"
  shows "\<exists>dev'. ExFreePool (vdev_sys (ad_device st)) a = Some dev' \<and>
    device_part c P B ((set_ext st dev')\<lparr>ad_minis := (ad_minis st)(a := None)\<rparr>)"
proof -
  note b = device_part_blocks [OF assms(1)]
  have "a \<in> own_blocks (vdev_sys (ad_device st))" using b(1) assms(2) by blast
  then obtain dev' where f: "ViosndFreeNonPaged a (vdev_sys (ad_device st)) = Some dev'" "sound_ok c dev'"
    "ring_pages dev' = ring_pages (vdev_sys (ad_device st))" "own_blocks dev' = own_blocks (vdev_sys (ad_device st)) - {a}"
    using sound_free_block [OF b(3)] by blast
  have "own_blocks dev' = (own_blocks (vdev_sys (ad_device st)) - dom (ad_minis st)) \<union> dom ((ad_minis st)(a := None))"
    unfolding f(4) b(1) using b(2) assms(2) by auto
  then have "device_part c P B ((set_ext st dev')\<lparr>ad_minis := (ad_minis st)(a := None)\<rparr>)"
    using b(2) by (intro device_part_step [OF assms(1) f(2,3)]) auto
  then show ?thesis using f(1) assms(3) by (simp add: ViosndFreeNonPaged_def)
qed

lemma device_part_alloc:
  assumes "allocators_ok K" "device_part c P B st" "pool_alloc K (vdev_sys (ad_device st)) n = (a, dev')"
  shows "if a = 0 then device_part c P B (set_ext st dev')
    else a \<notin> dom (ad_minis st) \<and> device_part c P B ((set_ext st dev')\<lparr>ad_minis := (ad_minis st)(a \<mapsto> m)\<rparr>)"
proof -
  note b = device_part_blocks [OF assms(2)]
  note al = sound_pool_alloc [OF assms(1) b(3) assms(3)]
  show ?thesis
  proof (cases "a = 0")
    case True
    have "own_blocks dev' = (own_blocks (vdev_sys (ad_device st)) - dom (ad_minis st)) \<union> dom (ad_minis st)"
      using al True b(1) by auto
    then have "device_part c P B ((set_ext st dev')\<lparr>ad_minis := ad_minis st\<rparr>)"
      using al b(2) by (intro device_part_step [OF assms(2)]) simp_all
    then show ?thesis using True by (simp add: set_ext_def)
  next
    case False
    then have n: "a \<notin> own_blocks (vdev_sys (ad_device st))" "own_blocks dev' = insert a (own_blocks (vdev_sys (ad_device st)))"
      using al by simp_all
    have "own_blocks dev' = (own_blocks (vdev_sys (ad_device st)) - dom (ad_minis st)) \<union> dom ((ad_minis st)(a \<mapsto> m))"
      unfolding n(2) b(1) by auto
    moreover have "dom ((ad_minis st)(a \<mapsto> m)) \<inter> (B \<union> dom (vdev_vqs (ad_device st))) = {}"
      using b(2) n(1) unfolding b(1) by auto
    ultimately have "device_part c P B ((set_ext st dev')\<lparr>ad_minis := (ad_minis st)(a \<mapsto> m)\<rparr>)"
      using al by (intro device_part_step [OF assms(2)]) simp_all
    then show ?thesis using False n(1) unfolding b(1) by simp
  qed
qed

lemma minis_okD:
  assumes "minis_ok held own st" "ad_minis st a = Some m"
  shows "a \<noteq> 0" "mini_this m = a" "\<not> mini_dead m" "0 < mini_refs m" "mini_refs m = own a + port_refs held (ad_pc st) (mini_port m)"
    "ad_minis st b = Some n \<Longrightarrow> mini_port m = mini_port n \<Longrightarrow> mini_port m \<noteq> 0 \<Longrightarrow> a = b"
  using assms unfolding minis_ok_def by blast+

lemma minis_okI:
  assumes "\<And>a m. ad_minis st a = Some m \<Longrightarrow> a \<noteq> 0 \<and> mini_this m = a \<and> \<not> mini_dead m \<and> 0 < mini_refs m \<and>
      mini_refs m = own a + port_refs held (ad_pc st) (mini_port m)"
    "\<And>a b m n. ad_minis st a = Some m \<Longrightarrow> ad_minis st b = Some n \<Longrightarrow> mini_port m = mini_port n \<Longrightarrow> mini_port m \<noteq> 0 \<Longrightarrow> a = b"
  shows "minis_ok held own st"
  unfolding minis_ok_def using assms by blast

text \<open>Giving references back that the code holds: the miniport stays while somebody holds one, and is freed with the last.\<close>

lemma release_mini_ok:
  assumes "adapter_inv held own c P B st" "n \<le> own a" "0 < n \<Longrightarrow> a \<in> dom (ad_minis st)"
  shows "\<exists>st'. release_mini a n st = Some st' \<and> adapter_inv held (own(a := own a - n)) c P B st' \<and> ad_pc st' = ad_pc st \<and>
    (\<forall>b. b \<noteq> a \<longrightarrow> ad_minis st' b = ad_minis st b) \<and>
    (\<forall>m'. ad_minis st' a = Some m' \<longrightarrow> (\<exists>m. ad_minis st a = Some m \<and> mini_port m' = mini_port m)) \<and>
    (\<forall>m. ad_minis st a = Some m \<and> n < mini_refs m \<longrightarrow> a \<in> dom (ad_minis st'))"
  using assms
proof (induction n arbitrary: st own)
  case (Suc n)
  have dp: "device_part c P B st" and mo: "minis_ok held own st" using Suc.prems(1) by (simp_all add: adapter_inv_def)
  obtain m where m: "ad_minis st a = Some m" using Suc.prems(3) by auto
  note f = minis_okD [OF mo m]
  let ?own = "own(a := own a - 1)"
  show ?case
  proof (cases "mini_refs m = 1")
    case True
    then have n: "n = 0" "own a = 1" using f(5) Suc.prems(2) by simp_all
    obtain dev' where d: "ExFreePool (vdev_sys (ad_device st)) a = Some dev'"
      "device_part c P B ((set_ext st dev')\<lparr>ad_minis := (ad_minis st)(a := None)\<rparr>)"
      using device_part_free [OF dp _ f(1)] m by blast
    have "mini_release (vdev_sys (ad_device st)) m = Some (None, dev')" by (rule mini_release_last) (use True f(2) d(1) in simp_all)
    moreover have "minis_ok held ?own ((set_ext st dev')\<lparr>ad_minis := (ad_minis st)(a := None)\<rparr>)"
    proof (rule minis_okI)
      fix b x assume "ad_minis ((set_ext st dev')\<lparr>ad_minis := (ad_minis st)(a := None)\<rparr>) b = Some x"
      then show "b \<noteq> 0 \<and> mini_this x = b \<and> \<not> mini_dead x \<and> 0 < mini_refs x \<and>
          mini_refs x = ?own b + port_refs held (ad_pc ((set_ext st dev')\<lparr>ad_minis := (ad_minis st)(a := None)\<rparr>)) (mini_port x)"
        using minis_okD [OF mo, of b x] by (simp split: if_splits)
    next
      fix b d x y assume "ad_minis ((set_ext st dev')\<lparr>ad_minis := (ad_minis st)(a := None)\<rparr>) b = Some x"
        "ad_minis ((set_ext st dev')\<lparr>ad_minis := (ad_minis st)(a := None)\<rparr>) d = Some y" "mini_port x = mini_port y" "mini_port x \<noteq> 0"
      then show "b = d" using minis_okD(6) [OF mo, of b x d y] by (simp split: if_splits)
    qed
    ultimately show ?thesis using m n d(2) True by (simp add: adapter_inv_def fun_upd_def)
  next
    case False
    then obtain m' where m': "mini_release (vdev_sys (ad_device st)) m = Some (Some m', vdev_sys (ad_device st))"
      "mini_refs m' = mini_refs m - 1" "mini_this m' = mini_this m" "mini_port m' = mini_port m" "\<not> mini_dead m'"
      using mini_release_keep [of m] f(3,4) by (metis One_nat_def Suc_lessI)
    let ?st = "st\<lparr>ad_minis := (ad_minis st)(a \<mapsto> m')\<rparr>"
    have e: "(set_ext st (vdev_sys (ad_device st)))\<lparr>ad_minis := (ad_minis st)(a \<mapsto> m')\<rparr> = ?st" by (simp add: set_ext_def)
    have r: "mini_refs m' = ?own a + port_refs held (ad_pc st) (mini_port m')" "0 < mini_refs m'"
      using m'(2,4) f(4,5) False Suc.prems(2) by auto
    have "minis_ok held ?own ?st"
    proof (rule minis_okI)
      fix b x assume b: "ad_minis ?st b = Some x"
      show "b \<noteq> 0 \<and> mini_this x = b \<and> \<not> mini_dead x \<and> 0 < mini_refs x \<and> mini_refs x = ?own b + port_refs held (ad_pc ?st) (mini_port x)"
      proof (cases "b = a")
        case True
        then show ?thesis using b r m'(3,5) f(1,2) by simp
      next
        case False
        then show ?thesis using b minis_okD [OF mo, of b x] by simp
      qed
    next
      fix b d x y assume "ad_minis ?st b = Some x" "ad_minis ?st d = Some y" "mini_port x = mini_port y" "mini_port x \<noteq> 0"
      moreover have "\<exists>z. ad_minis st b = Some z \<and> mini_port z = mini_port x" if "ad_minis ?st b = Some x" for b x
        using that m m'(4) by (auto split: if_splits)
      ultimately show "b = d" using minis_okD(6) [OF mo] by metis
    qed
    moreover have "device_part c P B ?st" using m by (intro device_part_same [OF dp]) auto
    ultimately have i: "adapter_inv held ?own c P B ?st" by (simp add: adapter_inv_def)
    have "n \<le> ?own a" "a \<in> dom (ad_minis ?st)" using Suc.prems(2) by simp_all
    from Suc.IH [OF i this] obtain st' where st': "release_mini a n ?st = Some st'"
      "adapter_inv held (?own(a := ?own a - n)) c P B st'" "ad_pc st' = ad_pc ?st"
      "\<forall>b. b \<noteq> a \<longrightarrow> ad_minis st' b = ad_minis ?st b"
      "\<forall>x. ad_minis st' a = Some x \<longrightarrow> (\<exists>y. ad_minis ?st a = Some y \<and> mini_port x = mini_port y)"
      "\<forall>x. ad_minis ?st a = Some x \<and> n < mini_refs x \<longrightarrow> a \<in> dom (ad_minis st')" by blast
    have "release_mini a (Suc n) st = Some st'" using m m'(1) st'(1) e by simp
    moreover have "adapter_inv held (own(a := own a - Suc n)) c P B st'"
      using st'(2) by (simp only: fun_upd_upd fun_upd_same diff_Suc_eq_diff_pred)
    moreover have "\<forall>b. b \<noteq> a \<longrightarrow> ad_minis st' b = ad_minis st b" "\<forall>x. ad_minis st' a = Some x \<longrightarrow> mini_port x = mini_port m"
      "Suc n < mini_refs m \<longrightarrow> a \<in> dom (ad_minis st')" using st'(4-6) m'(2,4) by auto
    ultimately show ?thesis using st'(3) m by (intro exI [of _ st'] conjI) (simp_all del: fun_upd_apply)
  qed
qed (auto simp: minis_ok_def)

lemma adapter_pc:
  assumes "adapter_inv held own c P B st" "\<And>b m. ad_minis st b = Some m \<Longrightarrow>
      own' b + port_refs held f (mini_port m) = own b + port_refs held (ad_pc st) (mini_port m)"
  shows "adapter_inv held own' c P B (st\<lparr>ad_pc := f\<rparr>)"
proof -
  have dp: "device_part c P B st" and mo: "minis_ok held own st" using assms(1) by (simp_all add: adapter_inv_def)
  have "minis_ok held own' (st\<lparr>ad_pc := f\<rparr>)"
    by (rule minis_okI) (use minis_okD [OF mo] assms(2) in \<open>auto\<close>)
  moreover have "device_part c P B (st\<lparr>ad_pc := f\<rparr>)" by (rule device_part_same [OF dp]) simp_all
  ultimately show ?thesis by (simp add: adapter_inv_def)
qed

lemma release_subdevice_ok:
  assumes "port_law T held" "adapter_inv held own c P B st" "ports_live held st" "sub_Miniport s = a" "sub_Port s = p" "p \<noteq> 0"
    "held (ad_pc st) p = Some k"
    "a \<noteq> 0 \<Longrightarrow> \<exists>m. ad_minis st a = Some m \<and> own a = 1 \<and> (mini_port m = p \<or> mini_port m = 0 \<and> k = 0)"
    "a = 0 \<Longrightarrow> k = 0 \<and> own 0 = 0" "\<And>b m. ad_minis st b = Some m \<Longrightarrow> mini_port m = p \<Longrightarrow> b = a"
  shows "\<exists>st'. ViosndReleaseSubdevice T s st = Some st' \<and> adapter_inv held (own(a := 0)) c P B st' \<and> ports_live held st' \<and>
    (\<forall>b. b \<noteq> a \<longrightarrow> ad_minis st' b = ad_minis st b) \<and> (\<forall>q. q \<noteq> p \<longrightarrow> held (ad_pc st') q = held (ad_pc st) q)"
proof -
  let ?own = "own(a := 0)"
  obtain st1 where 1: "(if a \<noteq> 0 then release_mini a 1 st else Some st) = Some st1" "adapter_inv held ?own c P B st1"
    "ad_pc st1 = ad_pc st" "\<forall>b. b \<noteq> a \<longrightarrow> ad_minis st1 b = ad_minis st b"
    "\<forall>m'. ad_minis st1 a = Some m' \<longrightarrow> (\<exists>m. ad_minis st a = Some m \<and> mini_port m' = mini_port m)"
    "a \<noteq> 0 \<Longrightarrow> 0 < k \<Longrightarrow> a \<in> dom (ad_minis st1)"
  proof (cases "a = 0")
    case True
    then show thesis using that [of st] assms(2,9) by (simp add: fun_upd_idem)
  next
    case False
    then obtain m where m: "ad_minis st a = Some m" "own a = 1" "mini_port m = p \<or> mini_port m = 0 \<and> k = 0" using assms(8) by blast
    have "mini_refs m = 1 + port_refs held (ad_pc st) (mini_port m)"
      using minis_okD(5) [of held own st a m] assms(2) m(1,2) by (simp add: adapter_inv_def)
    then have r: "0 < k \<Longrightarrow> 1 < mini_refs m" using m(3) assms(6,7) by (auto simp: port_refs_def)
    from release_mini_ok [OF assms(2), of 1 a] m(1,2) obtain st1 where "release_mini a 1 st = Some st1" "adapter_inv held ?own c P B st1"
      "ad_pc st1 = ad_pc st" "\<forall>b. b \<noteq> a \<longrightarrow> ad_minis st1 b = ad_minis st b"
      "\<forall>m'. ad_minis st1 a = Some m' \<longrightarrow> (\<exists>m. ad_minis st a = Some m \<and> mini_port m' = mini_port m)"
      "1 < mini_refs m \<Longrightarrow> a \<in> dom (ad_minis st1)" by auto
    then show thesis using that [of st1] False r by simp
  qed
  have mo: "minis_ok held ?own st1" using 1(2) by (simp add: adapter_inv_def)
  have port: "b = a" if "ad_minis st1 b = Some x" "mini_port x = p" for b x
    using that 1(4) assms(10) by (cases "b = a") auto
  obtain n f where pr: "Port_Release T p (ad_pc st1) = (n, f)" by force
  have run: "ViosndReleaseSubdevice T s st = release_mini a n (st1\<lparr>ad_pc := f\<rparr>)"
    unfolding ViosndReleaseSubdevice_def assms(4,5) 1(1) Option.bind.simps using pr assms(6) by simp
  from port_lawD(6) [OF assms(1) pr] assms(7) 1(3)
  consider "n = 0" "held f = held (ad_pc st)" | "n = k" "held f = (held (ad_pc st))(p := None)" by auto
  then show ?thesis
  proof cases
    case a: 1
    let ?st = "st1\<lparr>ad_pc := f\<rparr>"
    have "adapter_inv held ?own c P B ?st" by (rule adapter_pc [OF 1(2)]) (simp add: a(2) 1(3) port_refs_def)
    moreover have "ports_live held ?st" unfolding ports_live_def
    proof (intro allI impI; elim conjE)
      fix b x assume b: "ad_minis ?st b = Some x" "mini_port x \<noteq> 0"
      then obtain m where "ad_minis st b = Some m" "mini_port x = mini_port m" using 1(4,5) by (cases "b = a") auto
      then show "held (ad_pc ?st) (mini_port x) \<noteq> None" using b(2) a(2) assms(3) by (auto simp: ports_live_def)
    qed
    ultimately show ?thesis using 1(4) run a by (intro exI [of _ ?st]) simp
  next
    case b: 2
    let ?st = "st1\<lparr>ad_pc := f\<rparr>"
    have "adapter_inv held (own(a := k)) c P B ?st"
    proof (rule adapter_pc [OF 1(2)])
      fix b m assume m: "ad_minis st1 b = Some m"
      show "(own(a := k)) b + port_refs held f (mini_port m) = ?own b + port_refs held (ad_pc st1) (mini_port m)"
      proof (cases "b = a")
        case True
        show ?thesis
        proof (cases "mini_port m = p")
          case True
          then show ?thesis using b(2) \<open>b = a\<close> 1(3) assms(6,7) by (simp add: port_refs_def)
        next
          case False
          then have "k = 0" using m True 1(5) assms(8,9) by (cases "a = 0") auto
          then show ?thesis using b(2) 1(3) False True by (simp add: port_refs_def)
        qed
      next
        case False
        then have "mini_port m \<noteq> p" using port m by blast
        then show ?thesis using b(2) 1(3) False by (simp add: port_refs_def)
      qed
    qed
    moreover have "0 < k \<Longrightarrow> a \<in> dom (ad_minis ?st)" using 1(6) assms(9) by (cases "a = 0") auto
    ultimately obtain st2 where 2: "release_mini a k ?st = Some st2" "adapter_inv held ((own(a := k))(a := (own(a := k)) a - k)) c P B st2"
      "ad_pc st2 = f" "\<forall>b. b \<noteq> a \<longrightarrow> ad_minis st2 b = ad_minis ?st b"
      "\<forall>m'. ad_minis st2 a = Some m' \<longrightarrow> (\<exists>m. ad_minis ?st a = Some m \<and> mini_port m' = mini_port m)"
      using release_mini_ok [of held "own(a := k)" c P B ?st k a] by auto
    have inv: "adapter_inv held ?own c P B st2" using 2(2) by simp
    then have mo2: "minis_ok held ?own st2" by (simp add: adapter_inv_def)
    have "ports_live held st2" unfolding ports_live_def
    proof (intro allI impI; elim conjE)
      fix b x assume x: "ad_minis st2 b = Some x" "mini_port x \<noteq> 0"
      show "held (ad_pc st2) (mini_port x) \<noteq> None"
      proof (cases "b = a")
        case True
        then have "0 < port_refs held f (mini_port x)" using minis_okD(4,5) [OF mo2, of b x] x(1) 2(3) by simp
        then show ?thesis using 2(3) by (auto simp: port_refs_def split: if_splits option.splits)
      next
        case False
        then have s: "ad_minis st b = Some x" using x(1) 2(4) 1(4) by simp
        then have "mini_port x \<noteq> p" using assms(10) False by blast
        then show ?thesis using s x(2) assms(3) b(2) 2(3) by (auto simp: ports_live_def)
      qed
    qed
    then show ?thesis using inv 1(4) 2 run b by (intro exI [of _ st2]) simp
  qed
qed

section \<open>Registering a subdevice\<close>

lemma mini_fields [simp]:
  "mini_refs (mini_addref m) = Suc (mini_refs m)" "mini_port (mini_addref m) = mini_port m" "mini_this (mini_addref m) = mini_this m"
  "mini_dead (mini_addref m) = mini_dead m"
  "mini_refs (mini_init p m) = mini_refs m" "mini_port (mini_init p m) = p" "mini_this (mini_init p m) = mini_this m"
  "mini_dead (mini_init p m) = mini_dead m"
  by (simp_all add: mini_refs_def mini_port_def mini_this_def mini_dead_def mini_addref_def mini_init_def Topology_AddRef_def
      Miniport_AddRef_def Topology_Init_def Init_def split: miniport.split)

lemma mini_addrefs [simp]:
  "mini_refs ((mini_addref ^^ n) m) = n + mini_refs m" "mini_port ((mini_addref ^^ n) m) = mini_port m"
  "mini_this ((mini_addref ^^ n) m) = mini_this m" "mini_dead ((mini_addref ^^ n) m) = mini_dead m"
  by (induction n) simp_all

lemma adapter_same:
  assumes "minis_ok held own st" "device_part c P B st'" "ad_minis st' = ad_minis st" "held (ad_pc st') = held (ad_pc st)"
  shows "adapter_inv held own c P B st'"
  unfolding adapter_inv_def minis_ok_def assms(3,4) port_refs_def using assms(1,2) [unfolded minis_ok_def port_refs_def] by blast

lemma ports_live_same:
  assumes "ports_live held st" "ad_minis st' = ad_minis st" "held (ad_pc st') = held (ad_pc st)"
  shows "ports_live held st'"
  using assms by (simp add: ports_live_def)

text \<open>A new miniport has one reference, that of its creator, and no port.\<close>

definition creates ::
  "client \<Rightarrow> ptr set \<Rightarrow> ptr set \<Rightarrow> (('e, 'f) adapter \<Rightarrow> (NTSTATUS \<times> ptr) \<times> ('e, 'f) adapter) \<Rightarrow> bool" where
  "creates c P B create \<longleftrightarrow> (\<forall>st status a st'. device_part c P B st \<and> create st = ((status, a), st') \<longrightarrow>
     ad_pc st' = ad_pc st \<and> device_part c P B st' \<and>
     (if NT_SUCCESS status
      then a \<noteq> 0 \<and> a \<notin> dom (ad_minis st) \<and>
        (\<exists>m. ad_minis st' = (ad_minis st)(a \<mapsto> m) \<and> mini_this m = a \<and> mini_refs m = 1 \<and> mini_port m = 0 \<and> \<not> mini_dead m)
      else a = 0 \<and> ad_minis st' = ad_minis st))"

lemma create_wave_creates:
  assumes "allocators_ok K"
  shows "creates c P B (create_wave K n streamId capture)"
  unfolding creates_def
proof (intro allI impI; elim conjE)
  fix st :: "('a, 'b) adapter" and status a st'
  assume d: "device_part c P B st" and r: "create_wave K n streamId capture st = ((status, a), st')"
  obtain p dev where p: "pool_alloc K (vdev_sys (ad_device st)) n = (p, dev)" by force
  let ?w = "\<lparr>mp_RefCount = 1, mp_StreamId = streamId, mp_Capture = capture, mp_Port = 0, mp_This = p, mp_Destroyed = False\<rparr>"
  show "ad_pc st' = ad_pc st \<and> device_part c P B st' \<and>
     (if NT_SUCCESS status
      then a \<noteq> 0 \<and> a \<notin> dom (ad_minis st) \<and>
        (\<exists>m. ad_minis st' = (ad_minis st)(a \<mapsto> m) \<and> mini_this m = a \<and> mini_refs m = 1 \<and> mini_port m = 0 \<and> \<not> mini_dead m)
      else a = 0 \<and> ad_minis st' = ad_minis st)"
    using device_part_alloc [OF assms d p, of "WaveRT ?w"] r p
    by (auto simp: create_wave_def ViosndCreateWaveRTMiniport_def mini_this_def mini_refs_def mini_port_def mini_dead_def
        split: if_splits intro!: exI [of _ "WaveRT ?w"])
qed

lemma create_topology_creates:
  assumes "allocators_ok K"
  shows "creates c P B (create_topology K n capture)"
  unfolding creates_def
proof (intro allI impI; elim conjE)
  fix st :: "('a, 'b) adapter" and status a st'
  assume d: "device_part c P B st" and r: "create_topology K n capture st = ((status, a), st')"
  obtain p dev where p: "pool_alloc K (vdev_sys (ad_device st)) n = (p, dev)" by force
  let ?t = "\<lparr>tm_RefCount = 1, tm_Capture = capture, tm_Port = 0, tm_This = p, tm_Destroyed = False\<rparr>"
  show "ad_pc st' = ad_pc st \<and> device_part c P B st' \<and>
     (if NT_SUCCESS status
      then a \<noteq> 0 \<and> a \<notin> dom (ad_minis st) \<and>
        (\<exists>m. ad_minis st' = (ad_minis st)(a \<mapsto> m) \<and> mini_this m = a \<and> mini_refs m = 1 \<and> mini_port m = 0 \<and> \<not> mini_dead m)
      else a = 0 \<and> ad_minis st' = ad_minis st)"
    using device_part_alloc [OF assms d p, of "Topology ?t"] r p
    by (auto simp: create_topology_def ViosndCreateTopologyMiniport_def mini_this_def mini_refs_def mini_port_def mini_dead_def
        split: if_splits intro!: exI [of _ "Topology ?t"])
qed

text \<open>A registered subdevice: the code's own reference on its miniport, which is bound to its port.\<close>

definition bound :: "('f \<Rightarrow> ptr \<Rightarrow> nat option) \<Rightarrow> VIOSND_SUBDEVICE \<Rightarrow> ('e, 'f) adapter \<Rightarrow> bool" where
  "bound held s st \<longleftrightarrow> sub_Port s \<noteq> 0 \<and> sub_Miniport s \<noteq> 0 \<and> held (ad_pc st) (sub_Port s) \<noteq> None \<and>
     (\<exists>m. ad_minis st (sub_Miniport s) = Some m \<and> mini_port m = sub_Port s)"

lemma bound_release:
  assumes "port_law T held" "adapter_inv held own c P B st" "ports_live held st" "bound held s st" "own (sub_Miniport s) = 1"
  shows "\<exists>st'. ViosndReleaseSubdevice T s st = Some st' \<and> adapter_inv held (own(sub_Miniport s := 0)) c P B st' \<and> ports_live held st' \<and>
    (\<forall>b. b \<noteq> sub_Miniport s \<longrightarrow> ad_minis st' b = ad_minis st b) \<and> (\<forall>q. q \<noteq> sub_Port s \<longrightarrow> held (ad_pc st') q = held (ad_pc st) q)"
proof -
  have mo: "minis_ok held own st" using assms(2) by (simp add: adapter_inv_def)
  obtain k m where b: "sub_Port s \<noteq> 0" "sub_Miniport s \<noteq> 0" "held (ad_pc st) (sub_Port s) = Some k"
    "ad_minis st (sub_Miniport s) = Some m" "mini_port m = sub_Port s" using assms(4) by (auto simp: bound_def)
  have "x = sub_Miniport s" if "ad_minis st x = Some y" "mini_port y = sub_Port s" for x y
    using minis_okD(6) [OF mo that(1) b(4)] that(2) b(1,5) by simp
  note port = this
  show ?thesis
  proof (rule release_subdevice_ok [OF assms(1-3) refl refl b(1,3)])
    show "\<exists>m. ad_minis st (sub_Miniport s) = Some m \<and> own (sub_Miniport s) = 1 \<and> (mini_port m = sub_Port s \<or> mini_port m = 0 \<and> k = 0)"
      using b(4,5) assms(5) by blast
    show "x = sub_Miniport s" if "ad_minis st x = Some y" "mini_port y = sub_Port s" for x y using port that .
  qed (use b(2) in simp)
qed

text \<open>A new port takes part in the invariant at once: no miniport is bound to it.\<close>

lemma register_subdevice_ok:
  assumes "port_law T held" "creates c P B create" "adapter_inv held own c P B st" "ports_live held st"
    "\<And>b. b \<notin> dom (ad_minis st) \<Longrightarrow> own b = 0" "0 \<notin> dom (ad_minis st)"
  shows "\<exists>status s st'. register_subdevice T topology create st = Some ((status, s), st') \<and> ports_live held st' \<and>
    (\<forall>b \<in> dom (ad_minis st). ad_minis st' b = ad_minis st b) \<and>
    (\<forall>q. held (ad_pc st) q \<noteq> None \<longrightarrow> held (ad_pc st') q = held (ad_pc st) q) \<and>
    (if NT_SUCCESS status
     then bound held s st' \<and> adapter_inv held (own(sub_Miniport s := 1)) c P B st' \<and> sub_Miniport s \<notin> dom (ad_minis st) \<and>
       held (ad_pc st) (sub_Port s) = None
     else s = no_subdevice \<and> adapter_inv held own c P B st')"
proof -
  have dp: "device_part c P B st" and mo: "minis_ok held own st" using assms(3) by (simp_all add: adapter_inv_def)
  have own0: "own 0 = 0" using assms(5,6) by blast
  obtain status port f1 where n: "PcNewPort T topology (ad_pc st) = ((status, port), f1)" by (metis prod.collapse)
  let ?st1 = "st\<lparr>ad_pc := f1\<rparr>"
  show ?thesis
  proof (cases "NT_SUCCESS status")
    case False
    have h: "held f1 = held (ad_pc st)" using port_lawD(2) [OF assms(1) n False] .
    have "adapter_inv held own c P B ?st1" by (rule adapter_pc [OF assms(3)]) (simp add: h port_refs_def)
    moreover have "ports_live held ?st1" using assms(4) by (simp add: ports_live_def h)
    ultimately show ?thesis using n h False by (intro exI [of _ status] exI [of _ no_subdevice] exI [of _ ?st1]) (simp add: register_subdevice_def)
  next
    case True
    have h: "port \<noteq> 0" "held (ad_pc st) port = None" "held f1 = (held (ad_pc st))(port \<mapsto> 0)"
      using port_lawD(1) [OF assms(1) n True] by simp_all
    have free: "mini_port m \<noteq> port" if "ad_minis st b = Some m" for b m
      using that assms(4) h(1,2) unfolding ports_live_def by blast
    have i1: "adapter_inv held own c P B ?st1"
      by (rule adapter_pc [OF assms(3)]) (use free in \<open>simp add: h(3) port_refs_def\<close>)
    have l1: "ports_live held ?st1" using assms(4) unfolding ports_live_def by (auto simp: h(3))
    obtain status2 a st2 where c: "create ?st1 = ((status2, a), st2)" by (metis prod.collapse)
    have dp1: "device_part c P B ?st1" using i1 by (simp add: adapter_inv_def)
    note cr = assms(2) [unfolded creates_def, rule_format, OF conjI [OF dp1 c]]
    have mo1: "minis_ok held own ?st1" using i1 by (simp add: adapter_inv_def)
    show ?thesis
    proof (cases "NT_SUCCESS status2")
      case False
      then have c2: "ad_pc st2 = f1" "device_part c P B st2" "a = 0" "ad_minis st2 = ad_minis st" using cr by simp_all
      have i2: "adapter_inv held own c P B st2" by (rule adapter_same [OF mo1 c2(2)]) (simp_all add: c2)
      have l2: "ports_live held st2" by (rule ports_live_same [OF l1]) (simp_all add: c2)
      let ?s = "\<lparr>sub_Port = port, sub_Miniport = 0\<rparr>"
      have "\<exists>st'. ViosndReleaseSubdevice T ?s st2 = Some st' \<and> adapter_inv held (own(0 := 0)) c P B st' \<and> ports_live held st' \<and>
        (\<forall>b. b \<noteq> 0 \<longrightarrow> ad_minis st' b = ad_minis st2 b) \<and> (\<forall>q. q \<noteq> port \<longrightarrow> held (ad_pc st') q = held (ad_pc st2) q)"
      proof (rule release_subdevice_ok [OF assms(1) i2 l2])
        show "held (ad_pc st2) port = Some 0" using c2(1) h(3) by simp
        show "b = 0" if "ad_minis st2 b = Some m" "mini_port m = port" for b m using that c2(4) free by simp
      qed (use h(1) own0 in simp_all)
      then obtain st' where st': "ViosndReleaseSubdevice T ?s st2 = Some st'" "adapter_inv held (own(0 := 0)) c P B st'" "ports_live held st'"
        "\<forall>b. b \<noteq> 0 \<longrightarrow> ad_minis st' b = ad_minis st2 b" "\<forall>q. q \<noteq> port \<longrightarrow> held (ad_pc st') q = held (ad_pc st2) q" by blast
      have "adapter_inv held own c P B st'" using st'(2) own0 by (simp add: fun_upd_idem)
      moreover have "\<forall>b \<in> dom (ad_minis st). ad_minis st' b = ad_minis st b" using st'(4) c2(4) assms(6) by metis
      moreover have "held (ad_pc st') q = held (ad_pc st) q" if q: "held (ad_pc st) q \<noteq> None" for q
      proof -
        have "q \<noteq> port" using h(2) q by metis
        then show ?thesis using st'(5) c2(1) h(3) by simp
      qed
      moreover have "register_subdevice T topology create st = Some ((status2, no_subdevice), st')"
        using n c True False c2(3) st'(1) by (simp add: register_subdevice_def)
      ultimately show ?thesis using False st'(3) by auto
    next
      case s2: True
      then obtain m where c2: "ad_pc st2 = f1" "device_part c P B st2" "a \<noteq> 0" "a \<notin> dom (ad_minis st)"
        "ad_minis st2 = (ad_minis st)(a \<mapsto> m)" "mini_this m = a" "mini_refs m = 1" "mini_port m = 0" "\<not> mini_dead m" using cr by auto
      obtain status3 k f3 where pi: "Port_Init T port f1 = ((status3, k), f3)" by (metis prod.collapse)
      have h3: "held f3 = (held f1)(port \<mapsto> k)" using port_lawD(3) [OF assms(1) pi] h(3) by simp
      let ?m = "(mini_addref ^^ k) (mini_init port m)"
      let ?st3 = "st2\<lparr>ad_pc := f3, ad_minis := (ad_minis st)(a \<mapsto> ?m)\<rparr>"
      let ?own = "own(a := 1)"
      have p3: "port_init T port a st2 = (status3, ?st3)" using pi c2(1,5) by (simp add: port_init_def)
      have "minis_ok held ?own ?st3"
      proof (rule minis_okI)
        fix b x assume x: "ad_minis ?st3 b = Some x"
        show "b \<noteq> 0 \<and> mini_this x = b \<and> \<not> mini_dead x \<and> 0 < mini_refs x \<and> mini_refs x = ?own b + port_refs held (ad_pc ?st3) (mini_port x)"
        proof (cases "b = a")
          case True
          then have "x = ?m" using x by simp
          then show ?thesis using True c2(3,6,7,9) h(1) h3 by (simp add: port_refs_def)
        next
          case False
          then have s: "ad_minis st b = Some x" using x by simp
          then show ?thesis using False minis_okD [OF mo s] free [OF s] h(3) h3 by (simp add: port_refs_def)
        qed
      next
        fix b d x y assume x: "ad_minis ?st3 b = Some x" "ad_minis ?st3 d = Some y" "mini_port x = mini_port y" "mini_port x \<noteq> 0"
        show "b = d"
        proof (cases "b = a \<or> d = a")
          case True
          then show ?thesis using x free [of d y] free [of b x] by (auto split: if_splits)
        next
          case False
          then show ?thesis using x minis_okD(6) [OF mo, of b x d y] by simp
        qed
      qed
      note mo3 = this
      have dp3: "device_part c P B ?st3" using c2(5) by (intro device_part_same [OF c2(2)]) auto
      then have i3: "adapter_inv held ?own c P B ?st3" using mo3 by (simp only: adapter_inv_def simp_thms)
      have l3: "ports_live held ?st3" unfolding ports_live_def
      proof (intro allI impI; elim conjE)
        fix b x assume x: "ad_minis ?st3 b = Some x" "mini_port x \<noteq> 0"
        show "held (ad_pc ?st3) (mini_port x) \<noteq> None"
        proof (cases "b = a")
          case False
          then show ?thesis using x assms(4) h3 h(3) by (auto simp: ports_live_def)
        next
          case True
          then have "mini_port x = port" using x by auto
          then show ?thesis using h3 by simp
        qed
      qed
      have b3: "bound held \<lparr>sub_Port = port, sub_Miniport = a\<rparr> ?st3" using h(1) h3 c2(3) by (simp add: bound_def)
      obtain status4 st4 where 4: "(if NT_SUCCESS status3 then pc_call (PcRegisterSubdevice T port) ?st3 else (status3, ?st3)) = (status4, st4)"
        by force
      then have p4: "ad_device st4 = ad_device ?st3" "ad_minis st4 = ad_minis ?st3" "held (ad_pc st4) = held (ad_pc ?st3)"
        "NT_SUCCESS status4 \<Longrightarrow> NT_SUCCESS status3"
        using port_lawD(4) [OF assms(1), of port f3] by (auto split: if_splits prod.splits)
      have dp4: "device_part c P B st4" by (rule device_part_same [OF dp3 p4(1)]) (simp only: p4(2))
      have i4: "adapter_inv held ?own c P B st4" by (rule adapter_same [OF mo3 dp4 p4(2,3)])
      have l4: "ports_live held st4" by (rule ports_live_same [OF l3 p4(2,3)])
      have b4: "bound held \<lparr>sub_Port = port, sub_Miniport = a\<rparr> st4" using b3 p4 by (simp add: bound_def)
      have old: "\<forall>b \<in> dom (ad_minis st). ad_minis st4 b = ad_minis st b"
        "\<forall>q. held (ad_pc st) q \<noteq> None \<longrightarrow> held (ad_pc st4) q = held (ad_pc st) q"
        using p4 c2(4) h(2,3) h3 by auto
      let ?s = "\<lparr>sub_Port = port, sub_Miniport = a\<rparr>"
      show ?thesis
      proof (cases "NT_SUCCESS status4")
        case True
        have "register_subdevice T topology create st = Some ((status4, ?s), st4)"
          using n \<open>NT_SUCCESS status\<close> c s2 p3 4 True by (simp add: register_subdevice_def)
        then show ?thesis using True l4 old b4 i4 c2(4) h(2) by (intro exI [of _ status4] exI [of _ ?s] exI [of _ st4]) simp
      next
        case False
        obtain st' where st': "ViosndReleaseSubdevice T ?s st4 = Some st'" "adapter_inv held (?own(a := 0)) c P B st'" "ports_live held st'"
          "\<forall>b. b \<noteq> a \<longrightarrow> ad_minis st' b = ad_minis st4 b" "\<forall>q. q \<noteq> port \<longrightarrow> held (ad_pc st') q = held (ad_pc st4) q"
          using bound_release [OF assms(1) i4 l4 b4] by auto
        have "?own(a := 0) = own" using assms(5) [OF c2(4)] by (simp add: fun_upd_idem)
        then have "adapter_inv held own c P B st'" using st'(2) by simp
        moreover have "register_subdevice T topology create st = Some ((status4, no_subdevice), st')"
          using n \<open>NT_SUCCESS status\<close> c s2 p3 4 False st'(1) by (simp add: register_subdevice_def)
        moreover have "\<forall>b \<in> dom (ad_minis st). ad_minis st' b = ad_minis st b" using st'(4) old(1) c2(4) by metis
        moreover have "\<forall>q. held (ad_pc st) q \<noteq> None \<longrightarrow> held (ad_pc st') q = held (ad_pc st) q" using st'(5) old(2) h(2) by metis
        ultimately show ?thesis using False st'(3) by auto
      qed
    qed
  qed
qed

lemma release_nothing: "ViosndReleaseSubdevice T no_subdevice st = Some st"
  by (simp add: ViosndReleaseSubdevice_def)

lemma bound_same:
  assumes "bound held s st" "ad_minis st' (sub_Miniport s) = ad_minis st (sub_Miniport s)"
    "held (ad_pc st') (sub_Port s) = held (ad_pc st) (sub_Port s)"
  shows "bound held s st'"
  using assms by (simp add: bound_def)

lemma adapter_minis:
  "adapter_inv held own c P B st \<Longrightarrow> minis_ok held own st" "adapter_inv held own c P B st \<Longrightarrow> device_part c P B st"
  "adapter_inv held own c P B st \<Longrightarrow> 0 \<notin> dom (ad_minis st)"
proof -
  show 1: "adapter_inv held own c P B st \<Longrightarrow> minis_ok held own st" "adapter_inv held own c P B st \<Longrightarrow> device_part c P B st"
    by (simp_all only: adapter_inv_def)
  show "adapter_inv held own c P B st \<Longrightarrow> 0 \<notin> dom (ad_minis st)" using minis_okD(1) [OF 1(1)] by blast
qed

text \<open>The end of the registration: the two subdevices give up the code's references.\<close>

lemma release_both:
  assumes "port_law T held" "adapter_inv held ((\<lambda>_. 0)(sub_Miniport t := 1, sub_Miniport w := 1)) c P B st" "ports_live held st"
    "bound held t st" "bound held w st" "sub_Miniport t \<noteq> sub_Miniport w" "sub_Port t \<noteq> sub_Port w"
  shows "\<exists>st'. (do { st \<leftarrow> ViosndReleaseSubdevice T w st; st \<leftarrow> ViosndReleaseSubdevice T t st; Some (status :: NTSTATUS, st) }) = Some (status, st') \<and>
    adapter_inv held (\<lambda>_. 0) c P B st' \<and> ports_live held st'"
proof -
  let ?own = "(\<lambda>_. 0)(sub_Miniport t := 1, sub_Miniport w := 1) :: ptr \<Rightarrow> nat"
  obtain st1 where 1: "ViosndReleaseSubdevice T w st = Some st1" "adapter_inv held (?own(sub_Miniport w := 0)) c P B st1" "ports_live held st1"
    "\<forall>b. b \<noteq> sub_Miniport w \<longrightarrow> ad_minis st1 b = ad_minis st b" "\<forall>q. q \<noteq> sub_Port w \<longrightarrow> held (ad_pc st1) q = held (ad_pc st) q"
    using bound_release [OF assms(1-3,5)] by auto
  have b: "bound held t st1" by (rule bound_same [OF assms(4)]) (use 1(4,5) assms(6,7) in simp_all)
  have o: "?own(sub_Miniport w := 0) = (\<lambda>_. 0)(sub_Miniport t := 1)" using assms(6) by (simp add: fun_eq_iff)
  then have "(?own(sub_Miniport w := 0)) (sub_Miniport t) = 1" by simp
  from bound_release [OF assms(1) 1(2,3) b this] obtain st2 where 2: "ViosndReleaseSubdevice T t st1 = Some st2"
    "adapter_inv held (?own(sub_Miniport w := 0, sub_Miniport t := 0)) c P B st2" "ports_live held st2" by blast
  have "?own(sub_Miniport w := 0, sub_Miniport t := 0) = (\<lambda>_. 0)" by (simp add: fun_eq_iff)
  then show ?thesis using 1(1) 2 by (intro exI [of _ st2]) simp
qed

lemma connect_same:
  assumes "port_law T held"
    "(if NT_SUCCESS status
          then pc_call (if capture
                 then PcRegisterPhysicalConnection T p i q j
                 else PcRegisterPhysicalConnection T q j p k) st
          else (status, st)) = (status', st')"
  shows "ad_device st' = ad_device st" "ad_minis st' = ad_minis st" "held (ad_pc st') = held (ad_pc st)"
  using assms(2) port_lawD(5) [OF assms(1)] by (auto split: if_splits prod.splits)

lemma RegisterAudioEndpoint_ok:
  assumes "allocators_ok K" "port_law T held" "adapter_inv held (\<lambda>_. 0) c P B st" "ports_live held st"
  shows "\<exists>status st'. ViosndRegisterAudioEndpoint K T nt nw streamId capture st = Some (status, st') \<and>
    adapter_inv held (\<lambda>_. 0) c P B st' \<and> ports_live held st'"
proof -
  let ?create = "create_topology K nt capture" and ?wave = "create_wave K nw streamId capture"
  obtain status t st1 where 1: "register_subdevice T True ?create st = Some ((status, t), st1)" "ports_live held st1"
    "if NT_SUCCESS status then bound held t st1 \<and> adapter_inv held ((\<lambda>_. 0)(sub_Miniport t := 1)) c P B st1 \<and>
        sub_Miniport t \<notin> dom (ad_minis st) \<and> held (ad_pc st) (sub_Port t) = None
     else t = no_subdevice \<and> adapter_inv held (\<lambda>_. 0) c P B st1"
    using register_subdevice_ok [OF assms(2) create_topology_creates [OF assms(1)] assms(3,4) refl adapter_minis(3) [OF assms(3)],
        of True nt capture] by auto
  show ?thesis
  proof (cases "NT_SUCCESS status")
    case False
    then show ?thesis using 1 by (simp add: ViosndRegisterAudioEndpoint_def ViosndCreateAndRegisterTopologySubdevice_def)
  next
    case True
    let ?own = "(\<lambda>_. 0)(sub_Miniport t := 1) :: ptr \<Rightarrow> nat"
    have t: "bound held t st1" "adapter_inv held ?own c P B st1" using 1(3) True by simp_all
    have "?own b = 0" if "b \<notin> dom (ad_minis st1)" for b using that t(1) by (auto simp: bound_def)
    from register_subdevice_ok [OF assms(2) create_wave_creates [OF assms(1)] t(2) 1(2) this adapter_minis(3) [OF t(2)], of False nw streamId capture]
    obtain status2 w st2 where 2: "register_subdevice T False ?wave st1 = Some ((status2, w), st2)" "ports_live held st2"
      "\<forall>b \<in> dom (ad_minis st1). ad_minis st2 b = ad_minis st1 b"
      "\<forall>q. held (ad_pc st1) q \<noteq> None \<longrightarrow> held (ad_pc st2) q = held (ad_pc st1) q"
      "if NT_SUCCESS status2 then bound held w st2 \<and> adapter_inv held (?own(sub_Miniport w := 1)) c P B st2 \<and>
          sub_Miniport w \<notin> dom (ad_minis st1) \<and> held (ad_pc st1) (sub_Port w) = None
       else w = no_subdevice \<and> adapter_inv held ?own c P B st2" by blast
    have t2: "bound held t st2" by (rule bound_same [OF t(1)]) (use 2(3,4) t(1) in \<open>auto simp: bound_def\<close>)
    obtain status3 st3 where 3: "(if NT_SUCCESS status2
          then pc_call (if capture
                 then PcRegisterPhysicalConnection T (sub_Port t) VIOSND_TOPO_PIN_BRIDGE (sub_Port w) VIOSND_PIN_BRIDGE
                 else PcRegisterPhysicalConnection T (sub_Port w) VIOSND_PIN_BRIDGE (sub_Port t) VIOSND_TOPO_PIN_SOURCE) st2
          else (status2, st2)) = (status3, st3)" by force
    note s = connect_same [OF assms(2) 3]
    have l3: "ports_live held st3" by (rule ports_live_same [OF 2(2) s(2,3)])
    have t3: "bound held t st3" by (rule bound_same [OF t2]) (simp_all add: s)
    have i3: "adapter_inv held own c P B st3" if "adapter_inv held own c P B st2" for own
      by (rule adapter_same [OF adapter_minis(1) [OF that] device_part_same [OF adapter_minis(2) [OF that] s(1)] s(2,3)]) (simp add: s(2))
    have run: "ViosndRegisterAudioEndpoint K T nt nw streamId capture st =
      do { st \<leftarrow> ViosndReleaseSubdevice T w st3; st \<leftarrow> ViosndReleaseSubdevice T t st; Some (status3, st) }"
      unfolding ViosndRegisterAudioEndpoint_def ViosndCreateAndRegisterTopologySubdevice_def ViosndCreateAndRegisterWaveRTSubdevice_def
      using 1(1) 2(1) True 3 by simp
    show ?thesis
    proof (cases "NT_SUCCESS status2")
      case True
      have w: "bound held w st2" "adapter_inv held (?own(sub_Miniport w := 1)) c P B st2" "sub_Miniport w \<notin> dom (ad_minis st1)"
        "held (ad_pc st1) (sub_Port w) = None" using 2(5) True by simp_all
      have w3: "bound held w st3" by (rule bound_same [OF w(1)]) (simp_all add: s)
      have "sub_Miniport t \<noteq> sub_Miniport w" "sub_Port t \<noteq> sub_Port w" using t(1) w(3,4) by (auto simp: bound_def)
      from release_both [OF assms(2) i3 [OF w(2)] l3 t3 w3 this, of status3] show ?thesis unfolding run by blast
    next
      case False
      then have w: "w = no_subdevice" "adapter_inv held ?own c P B st2" using 2(5) by simp_all
      obtain st4 where "ViosndReleaseSubdevice T t st3 = Some st4" "adapter_inv held (?own(sub_Miniport t := 0)) c P B st4" "ports_live held st4"
        using bound_release [OF assms(2) i3 [OF w(2)] l3 t3] by auto
      moreover have "?own(sub_Miniport t := 0) = (\<lambda>_. 0)" by (simp add: fun_eq_iff)
      ultimately show ?thesis unfolding run w(1) release_nothing by (intro exI [of _ status3] exI [of _ st4]) simp
    qed
  qed
qed

lemma register_endpoints_ok:
  assumes "allocators_ok K" "port_law T held" "adapter_inv held (\<lambda>_. 0) c P B st" "ports_live held st"
  shows "\<exists>status st'. register_endpoints K T n enableRender enableCapture streams st = Some (status, st') \<and>
    adapter_inv held (\<lambda>_. 0) c P B st' \<and> ports_live held st'"
proof -
  obtain status st1 where 1: "(if enableRender \<and> HasRender streams
        then ViosndRegisterAudioEndpoint K T (size_of_topology n) (size_of_wave n) (RenderStreamId streams) False st
        else Some (STATUS_SUCCESS, st)) = Some (status, st1)" "adapter_inv held (\<lambda>_. 0) c P B st1" "ports_live held st1"
    using RegisterAudioEndpoint_ok [OF assms, of "size_of_topology n" "size_of_wave n" "RenderStreamId streams" False] assms(3,4)
    by (cases "enableRender \<and> HasRender streams") auto
  show ?thesis unfolding register_endpoints_def 1(1) Option.bind.simps
    using RegisterAudioEndpoint_ok [OF assms(1,2) 1(2,3), of "size_of_topology n" "size_of_wave n" "CaptureStreamId streams" True] 1(2,3)
    by auto
qed

section \<open>The properties of the adapter\<close>

text \<open>A device that was just brought up has no miniports.\<close>

abbreviation (input) empty_adapter :: "'e sound_device \<Rightarrow> 'f \<Rightarrow> ('e, 'f) adapter" where
  "empty_adapter vd f \<equiv> \<lparr>ad_device = vd, ad_minis = Map.empty, ad_pc = f\<rparr>"

lemma new_adapter:
  assumes "brought_up c P B vd"
  shows "adapter_inv held (\<lambda>_. 0) c P B (empty_adapter vd f)" "ports_live held (empty_adapter vd f)"
proof -
  let ?st = "empty_adapter vd f"
  have t: "transport_inv (sound_view c) P B vd" using assms(1) by (simp add: brought_up_def)
  then have "table_block vd \<subseteq> B" using transport_invD(8) [OF t] by (auto simp: table_block_def)
  then have "device_part c P B ?st" using t by (simp add: device_part_def)
  moreover have "minis_ok held (\<lambda>_. 0) ?st" by (rule minis_okI) simp_all
  ultimately show "adapter_inv held (\<lambda>_. 0) c P B ?st" by (simp only: adapter_inv_def simp_thms)
  show "ports_live held ?st" by (simp add: ports_live_def)
qed

text \<open>When the code holds no reference, the port of a miniport holds all of them.\<close>

lemma owned_by_ports:
  assumes "adapter_inv held (\<lambda>_. 0) c P B st" "ad_minis st a = Some m"
  shows "a \<noteq> 0" "mini_this m = a" "\<not> mini_dead m" "held (ad_pc st) (mini_port m) = Some (mini_refs m)" "0 < mini_refs m"
proof -
  note f = minis_okD [OF adapter_minis(1) [OF assms(1)] assms(2)]
  show "a \<noteq> 0" "mini_this m = a" "\<not> mini_dead m" "0 < mini_refs m" using f(1-4) by simp_all
  show "held (ad_pc st) (mini_port m) = Some (mini_refs m)"
    using f(4,5) by (auto simp: port_refs_def split: if_splits option.splits)
qed

text \<open>
  C27: registering the endpoints always returns and keeps account of every object.  Whatever the
  port class answers, and wherever it fails, each miniport that is left is alive, is known to
  exactly one port and all its references are held by that port; the miniports of subdevices that
  failed to register have been freed.  Beside them the pool holds what it held before.
\<close>

theorem endpoints_registered:
  assumes "kernel_ok K" "port_law T held" "adapter_inv held (\<lambda>_. 0) c P B st" "ports_live held st"
  shows "\<exists>status st'. register_endpoints K T n enableRender enableCapture streams st = Some (status, st') \<and>
    adapter_inv held (\<lambda>_. 0) c P B st' \<and> ports_live held st' \<and>
    (\<forall>a m. ad_minis st' a = Some m \<longrightarrow> mini_this m = a \<and> \<not> mini_dead m \<and> held (ad_pc st') (mini_port m) = Some (mini_refs m)) \<and>
    own_blocks (vdev_sys (ad_device st')) = B \<union> dom (ad_minis st') \<union> dom (vdev_vqs (ad_device st'))"
proof -
  have "allocators_ok K" using assms(1) by (simp add: kernel_ok_def)
  from register_endpoints_ok [OF this assms(2-4)] obtain status st' where
    r: "register_endpoints K T n enableRender enableCapture streams st = Some (status, st')"
    "adapter_inv held (\<lambda>_. 0) c P B st'" "ports_live held st'" by blast
  have "device_part c P B st'" using r(2) by (simp only: adapter_inv_def)
  then have "own_blocks (vdev_sys (ad_device st')) = B \<union> dom (ad_minis st') \<union> dom (vdev_vqs (ad_device st'))"
    unfolding device_part_def using transport_invD(6) by fastforce
  then show ?thesis using r owned_by_ports [OF r(2)] by (intro exI [of _ status] exI [of _ st'] conjI) blast+
qed

text \<open>A port class with two ports, for the example; a port takes one reference and stays registered.\<close>

definition two_ports :: "(ptr \<Rightarrow> nat option) portcls" where
  "two_ports = \<lparr>PcGetPhysicalDeviceObject = (\<lambda>f. (STATUS_SUCCESS, f)), IoOpenDeviceRegistryKey = (\<lambda>f. (STATUS_NOT_FOUND, f)),
     ZwQueryValueKey = (\<lambda>f. ((STATUS_NOT_FOUND, 0, []), f)),
     PcNewPort = (\<lambda>b f. if f 1 = None then ((STATUS_SUCCESS, 1), f(1 \<mapsto> 0)) else if f 2 = None then ((STATUS_SUCCESS, 2), f(2 \<mapsto> 0))
       else ((STATUS_INSUFFICIENT_RESOURCES, 0), f)),
     Port_Init = (\<lambda>p f. ((STATUS_SUCCESS, 1), f(p \<mapsto> 1))), PcRegisterSubdevice = (\<lambda>p f. (STATUS_SUCCESS, f)),
     PcRegisterPhysicalConnection = (\<lambda>p i q j f. (STATUS_SUCCESS, f)), Port_Release = (\<lambda>p f. (0, f))\<rparr>"

lemma two_ports_law: "port_law two_ports (\<lambda>f. f)"
  by (simp add: port_law_def two_ports_def)

theorem endpoints_registered_witness:
  "\<exists>vd status st'. ViosndInitVirtio card_kernel plain_sizes card_vdev = Some (STATUS_SUCCESS, vd) \<and>
     register_endpoints card_kernel two_ports \<lparr>size_of_device = 4096, size_of_topology = 64, size_of_wave = 96\<rparr> True True
       \<lparr>RenderStreamId = 0, CaptureStreamId = 0, HasRender = True, HasCapture = False\<rparr>
       (empty_adapter vd Map.empty) = Some (status, st') \<and> ports_live (\<lambda>f. f) st'"
proof -
  obtain vd where u: "ViosndInitVirtio card_kernel plain_sizes card_vdev = Some (STATUS_SUCCESS, vd)" using card_up by blast
  have "brought_up card_client (ring_pages (vdev_sys card_vdev)) (own_blocks (vdev_sys card_vdev)) vd"
    using InitVirtio_ok [OF card_kernel_ok no_card_client card_run(1-3) _ u] card_run(4) by simp
  note n = new_adapter [OF this, of "\<lambda>f. f" Map.empty]
  show ?thesis using endpoints_registered [OF card_kernel_ok(1) two_ports_law n] u by blast
qed

end
