(* ===== verification/Wdf_Driver.thy ===== *)
theory Wdf_Driver
  imports Snd_Init
begin

text \<open>
  The WDF driver of the virtio library (\<open>VirtIO/WDF\<close>): DMA memory as a collection of common
  buffers (\<open>Dma.c\<close>), BARs and interrupts (\<open>PCI.c\<close>), the callbacks that it gives to the library
  (\<open>Callbacks.c\<close>) and its own interface (\<open>VirtIOWdf.c\<close>).

  The record \<open>wdf_driver\<close> is \<open>VIRTIO_WDF_DRIVER\<close> without its member \<open>VIODevice\<close>, which is paired
  with it as in \<open>Snd_Init\<close>: the state is a \<open>virtio_device\<close> whose system state is the driver.  A
  client extends the record by its own members.
\<close>

section \<open>State\<close>

text \<open>
  A common buffer with its context; \<open>wdf_buffer\<close> is its handle.  A BAR is an entry of a list of
  pool blocks, here with the address of its block.
\<close>

record wdf_block =
  wdf_buffer :: ptr
  pVirtualAddress :: ptr
  PhysicalAddress :: u64
  block_length :: u64
  groupTag :: u32
  bToBeDeleted :: bool

record wdf_bar =
  bar_block :: ptr
  iBar :: int
  bar_base :: u64
  uLength :: u32
  pBase :: ptr
  bPortSpace :: bool

record 'e wdf_driver =
  uFeatures :: u64
  PCIBars :: "wdf_bar list"
  nInterrupts :: u32
  nMSIInterrupts :: u32
  ConfigInterrupt :: ptr
  pQueueParams :: "ptr list option"
  MemoryBlockCollection :: "wdf_block list"
  interrupt_context :: "ptr \<Rightarrow> (u16 \<times> bool) option"
  wdf_memory :: dma_memory
  wdf_pool :: "ptr list"
  wdf_env :: 'e

text \<open>
  The framework and the kernel, over an environment.  \<open>WdfCommonBufferCreate\<close> receives the buffers
  in use and the length, and gives a status with the handle, the virtual and the logical address;
  \<open>ExAllocatePoolUninitialized\<close> receives the blocks in use and returns 0 for NULL.
\<close>

record 'e wdf_kernel =
  KeGetCurrentIrql :: "'e \<Rightarrow> nat"
  WdfCommonBufferCreate :: "'e \<Rightarrow> wdf_block list \<Rightarrow> u64 \<Rightarrow> (NTSTATUS \<times> ptr \<times> ptr \<times> u64) \<times> 'e"
  WdfCollectionAdd :: "'e \<Rightarrow> NTSTATUS \<times> 'e"
  ExAllocatePoolUninitialized :: "'e \<Rightarrow> ptr list \<Rightarrow> nat \<Rightarrow> ptr \<times> 'e"
  wdf_bus_data :: "'e \<Rightarrow> int \<Rightarrow> nat \<Rightarrow> u8 list \<times> u32"
  wdf_map_io :: "'e \<Rightarrow> u64 \<Rightarrow> u32 \<Rightarrow> ptr \<times> 'e"
  wdf_unmap_io :: "'e \<Rightarrow> ptr \<Rightarrow> u32 \<Rightarrow> 'e"
  wdf_io_read :: "bool \<Rightarrow> nat \<Rightarrow> u64 \<Rightarrow> 'e \<Rightarrow> u32 \<times> 'e"
  wdf_io_write :: "bool \<Rightarrow> nat \<Rightarrow> u64 \<Rightarrow> u32 \<Rightarrow> 'e \<Rightarrow> 'e"
  WdfObjectAllocateContext :: "'e \<Rightarrow> ptr \<Rightarrow> NTSTATUS \<times> 'e"
  WdfInterruptGetInfo :: "'e \<Rightarrow> ptr \<Rightarrow> bool \<times> u32"
  WdfFdoQueryForInterface :: "'e \<Rightarrow> NTSTATUS \<times> 'e"
  WdfDmaEnablerCreate :: "'e \<Rightarrow> NTSTATUS \<times> 'e"
  WdfCollectionCreate :: "'e \<Rightarrow> NTSTATUS \<times> 'e"
  WdfSpinLockCreate :: "'e \<Rightarrow> NTSTATUS \<times> 'e"
  WdfDeviceQueryPropertyEx :: "'e \<Rightarrow> NTSTATUS \<times> u32"
  MmGetPhysicalAddress :: "'e \<Rightarrow> ptr \<Rightarrow> u64"

abbreviation (input) PASSIVE_LEVEL :: nat where "PASSIVE_LEVEL \<equiv> 0"
abbreviation (input) STATUS_OBJECT_NAME_EXISTS :: NTSTATUS where "STATUS_OBJECT_NAME_EXISTS \<equiv> 0x40000000"

abbreviation (input) wdf_call ::
  "('e \<Rightarrow> 'a \<times> 'e) \<Rightarrow> ('e, 'z) wdf_driver_scheme \<Rightarrow> 'a \<times> ('e, 'z) wdf_driver_scheme" where
  "wdf_call f d \<equiv> (case f (wdf_env d) of (v, e) \<Rightarrow> (v, d\<lparr>wdf_env := e\<rparr>))"

definition wdf_pool_alloc ::
  "'e wdf_kernel \<Rightarrow> ('e, 'z) wdf_driver_scheme \<Rightarrow> nat \<Rightarrow> ptr \<times> ('e, 'z) wdf_driver_scheme" where
  "wdf_pool_alloc K d n = (case ExAllocatePoolUninitialized K (wdf_env d) (wdf_pool d) n of
     (p, e) \<Rightarrow> (p, d\<lparr>wdf_env := e, wdf_pool := (if p = 0 then wdf_pool d else p # wdf_pool d)\<rparr>))"

definition ExFreePoolWithTag :: "ptr \<Rightarrow> ('e, 'z) wdf_driver_scheme \<Rightarrow> ('e, 'z) wdf_driver_scheme option" where
  "ExFreePoolWithTag p d = (if p \<in> set (wdf_pool d) then Some (d\<lparr>wdf_pool := remove1 p (wdf_pool d)\<rparr>) else None)"

section \<open>Common buffers\<close>

text \<open>Deleting a buffer ends the life of its memory.\<close>

definition delete_buffer :: "wdf_block \<Rightarrow> ('e, 'z) wdf_driver_scheme \<Rightarrow> ('e, 'z) wdf_driver_scheme" where
  "delete_buffer b d = d\<lparr>MemoryBlockCollection := filter (\<lambda>x. wdf_buffer x \<noteq> wdf_buffer b) (MemoryBlockCollection d),
     wdf_memory := (wdf_memory d)(pVirtualAddress b := None)\<rparr>"

definition AllocateCommonBuffer_wdf ::
  "'e wdf_kernel \<Rightarrow> u64 \<Rightarrow> u32 \<Rightarrow> ('e, 'z) wdf_driver_scheme \<Rightarrow> ptr \<times> ('e, 'z) wdf_driver_scheme" where
  "AllocateCommonBuffer_wdf K sz tag d =
     (if PASSIVE_LEVEL < KeGetCurrentIrql K (wdf_env d) then (0, d)
      else
        let ((status, h, va, la), d) = wdf_call (\<lambda>e. WdfCommonBufferCreate K e (MemoryBlockCollection d) sz) d
        in if \<not> NT_SUCCESS status then (0, d)
           else
             let (status, d) = wdf_call (WdfCollectionAdd K) d
             in if \<not> NT_SUCCESS status then (0, d)
                else (va, d\<lparr>MemoryBlockCollection := MemoryBlockCollection d @
                        [\<lparr>wdf_buffer = h, pVirtualAddress = va, PhysicalAddress = la, block_length = sz, groupTag = tag,
                          bToBeDeleted = False\<rparr>],
                      wdf_memory := (wdf_memory d)(va \<mapsto> replicate (unat sz) 0)\<rparr>))"

text \<open>\<open>VirtIOWdfDeviceAllocDmaMemory\<close>.\<close>

definition VirtIOWdfDeviceAllocDmaMemory ::
  "'e wdf_kernel \<Rightarrow> u64 \<Rightarrow> u32 \<Rightarrow> ('e, 'z) wdf_driver_scheme \<Rightarrow> ptr \<times> ('e, 'z) wdf_driver_scheme" where
  "VirtIOWdfDeviceAllocDmaMemory K sz tag d = AllocateCommonBuffer_wdf K sz tag d"

fun find_block :: "bool \<Rightarrow> ptr \<Rightarrow> wdf_block list \<Rightarrow> wdf_block option" where
  "find_block removal va [] = None"
| "find_block removal va (b # bs) =
     (if bToBeDeleted b \<and> \<not> removal then find_block removal va bs
      else if pVirtualAddress b \<le> va \<and> va < pVirtualAddress b + block_length b then Some b
      else find_block removal va bs)"

text \<open>The result with \<open>*ppa\<close> and \<open>*pOffset\<close>, which stay unset when no block is found.\<close>

definition FindCommonBuffer ::
  "'e wdf_kernel \<Rightarrow> ptr \<Rightarrow> bool \<Rightarrow> ('e, 'z) wdf_driver_scheme \<Rightarrow>
   (bool \<times> u64 \<times> u64) \<times> ('e, 'z) wdf_driver_scheme" where
  "FindCommonBuffer K va removal d =
     (case find_block removal va (MemoryBlockCollection d) of
        None \<Rightarrow> ((False, 0, 0), d)
      | Some b \<Rightarrow>
          let off = va - pVirtualAddress b
          in if \<not> removal then ((True, PhysicalAddress b, off), d)
             else if off \<noteq> 0 then ((False, PhysicalAddress b, off), d)
             else
               let d = d\<lparr>MemoryBlockCollection := map (\<lambda>x. if wdf_buffer x = wdf_buffer b then x\<lparr>bToBeDeleted := True\<rparr> else x)
                            (MemoryBlockCollection d)\<rparr>
               in ((True, PhysicalAddress b, off),
                   if KeGetCurrentIrql K (wdf_env d) = PASSIVE_LEVEL then delete_buffer b d else d))"

definition GetPhysicalAddress_wdf :: "'e wdf_kernel \<Rightarrow> ptr \<Rightarrow> ('e, 'z) wdf_driver_scheme \<Rightarrow> u64" where
  "GetPhysicalAddress_wdf K va d =
     (case FindCommonBuffer K va False d of ((found, pa, off), _) \<Rightarrow> if found then pa + off else 0)"

definition VirtIOWdfDeviceGetPhysicalAddress :: "'e wdf_kernel \<Rightarrow> ptr \<Rightarrow> ('e, 'z) wdf_driver_scheme \<Rightarrow> u64" where
  "VirtIOWdfDeviceGetPhysicalAddress K va d = GetPhysicalAddress_wdf K va d"

definition VirtIOWdfDeviceFreeDmaMemory ::
  "'e wdf_kernel \<Rightarrow> ptr \<Rightarrow> ('e, 'z) wdf_driver_scheme \<Rightarrow> ('e, 'z) wdf_driver_scheme" where
  "VirtIOWdfDeviceFreeDmaMemory K va d = snd (FindCommonBuffer K va True d)"

definition FindCommonBufferByTag ::
  "u32 \<Rightarrow> ('e, 'z) wdf_driver_scheme \<Rightarrow> bool \<times> ('e, 'z) wdf_driver_scheme" where
  "FindCommonBufferByTag tag d =
     (case List.find (\<lambda>b. groupTag b = tag) (MemoryBlockCollection d) of
        None \<Rightarrow> (False, d)
      | Some b \<Rightarrow> (True, delete_buffer b d))"

lemma delete_fewer:
  "b \<in> set (MemoryBlockCollection d) \<Longrightarrow>
   length (MemoryBlockCollection (delete_buffer b d)) < length (MemoryBlockCollection d)"
  by (auto simp: delete_buffer_def intro: length_filter_less)

function free_by_tag :: "u32 \<Rightarrow> ('e, 'z) wdf_driver_scheme \<Rightarrow> ('e, 'z) wdf_driver_scheme" where
  "free_by_tag tag d = (case FindCommonBufferByTag tag d of (found, d') \<Rightarrow> if found then free_by_tag tag d' else d')"
  by pat_completeness auto
termination
  by (relation "measure (\<lambda>(tag, d). length (MemoryBlockCollection d))")
    (auto simp: FindCommonBufferByTag_def find_Some_iff intro!: delete_fewer split: option.splits)

declare free_by_tag.simps [simp del]

text \<open>\<open>vdev->DeviceContext\<close> is NULL before the initialisation.\<close>

definition VirtIOWdfDeviceFreeDmaMemoryByTag ::
  "'e wdf_kernel \<Rightarrow> bool \<Rightarrow> u32 \<Rightarrow> ('e, 'z) wdf_driver_scheme \<Rightarrow> ('e, 'z) wdf_driver_scheme" where
  "VirtIOWdfDeviceFreeDmaMemoryByTag K ready tag d =
     (if PASSIVE_LEVEL < KeGetCurrentIrql K (wdf_env d) \<or> tag = 0 \<or> \<not> ready then d else free_by_tag tag d)"

section \<open>Sliced memory\<close>

record dma_memory_sliced =
  sl_va :: ptr
  sl_pa :: u64
  sl_bitmap :: "bool list"
  sl_slice :: u32
  sl_block :: ptr

text \<open>\<open>RtlFindClearBitsAndSet\<close> for one bit, from the start; the size of the bitmap when none is clear.\<close>

definition AllocateSlice :: "dma_memory_sliced \<Rightarrow> (ptr \<times> u64) \<times> dma_memory_sliced" where
  "AllocateSlice p =
     (case first_index Not (sl_bitmap p) of
        None \<Rightarrow> ((0, 0), p)
      | Some i \<Rightarrow>
          let off = sl_slice p * word_of_nat i
          in ((sl_va p + ucast off, sl_pa p + ucast off), p\<lparr>sl_bitmap := (sl_bitmap p)[i := True]\<rparr>))"

text \<open>Undefined when the bit lies outside the bitmap.\<close>

definition FreeSlice ::
  "'e wdf_kernel \<Rightarrow> ('e, 'z) wdf_driver_scheme \<Rightarrow> dma_memory_sliced \<Rightarrow> ptr \<Rightarrow> dma_memory_sliced option" where
  "FreeSlice K d p va =
     (case FindCommonBuffer K va False d of ((found, _, off), _) \<Rightarrow>
        if \<not> found then Some p
        else if sl_slice p = 0 then None
        else if off mod ucast (sl_slice p) \<noteq> 0 then Some p
        else do {
          let index = unat (ucast (off div ucast (sl_slice p)) :: u32);
          set \<leftarrow> read_at (sl_bitmap p) index;
          Some (if set then p\<lparr>sl_bitmap := (sl_bitmap p)[index := False]\<rparr> else p)
        })"

text \<open>The size of the structure is the compiler's.\<close>

definition VirtIOWdfDeviceAllocDmaMemorySliced ::
  "'e wdf_kernel \<Rightarrow> nat \<Rightarrow> u64 \<Rightarrow> u32 \<Rightarrow> ('e, 'z) wdf_driver_scheme \<Rightarrow>
   (dma_memory_sliced option \<times> ('e, 'z) wdf_driver_scheme) option" where
  "VirtIOWdfDeviceAllocDmaMemorySliced K size_of blockSize sliceSize d =
     (if sliceSize = 0 then None
      else
        let (p, d) = wdf_pool_alloc K d (size_of + unat (blockSize div ucast sliceSize) div 8 + 4)
        in if p = 0 then Some (None, d)
           else
             let (va, d) = AllocateCommonBuffer_wdf K blockSize 0 d;
                 pa = GetPhysicalAddress_wdf K va d
             in if va = 0 \<or> pa = 0 then do {
                  d \<leftarrow> ExFreePoolWithTag p d;
                  Some (None, d)
                }
                else Some (Some \<lparr>sl_va = va, sl_pa = pa,
                       sl_bitmap = replicate (unat ((ucast blockSize :: u32) div sliceSize)) False,
                       sl_slice = sliceSize, sl_block = p\<rparr>, d))"

definition FreeSlicedBlock ::
  "'e wdf_kernel \<Rightarrow> dma_memory_sliced \<Rightarrow> ('e, 'z) wdf_driver_scheme \<Rightarrow> ('e, 'z) wdf_driver_scheme option" where
  "FreeSlicedBlock K p d = ExFreePoolWithTag (sl_block p) (snd (FindCommonBuffer K (sl_va p) True d))"

section \<open>BARs and interrupts\<close>

text \<open>A translated resource: a NULL descriptor, the start and length of a BAR, an interrupt (message-signalled or not).\<close>

datatype cm_resource = CmNull | CmBar u64 u32 bool | CmInterrupt bool | CmOther

fun PCIFreeBars_list :: "'e wdf_kernel \<Rightarrow> wdf_bar list \<Rightarrow> ('e, 'z) wdf_driver_scheme \<Rightarrow> ('e, 'z) wdf_driver_scheme option" where
  "PCIFreeBars_list K [] d = Some (d\<lparr>PCIBars := []\<rparr>)"
| "PCIFreeBars_list K (b # bs) d = do {
     let d = (if pBase b \<noteq> 0 \<and> \<not> bPortSpace b then d\<lparr>wdf_env := wdf_unmap_io K (wdf_env d) (pBase b) (uLength b)\<rparr> else d);
     d \<leftarrow> ExFreePoolWithTag (bar_block b) d;
     PCIFreeBars_list K bs d
   }"

definition PCIFreeBars :: "'e wdf_kernel \<Rightarrow> ('e, 'z) wdf_driver_scheme \<Rightarrow> ('e, 'z) wdf_driver_scheme option" where
  "PCIFreeBars K d = PCIFreeBars_list K (PCIBars d) d"

text \<open>The loop over the resources; the interrupt counts are those so far.  The size of an entry is the compiler's.\<close>

fun alloc_bars ::
  "'e wdf_kernel \<Rightarrow> nat \<Rightarrow> PCI_COMMON_HEADER \<Rightarrow> cm_resource list \<Rightarrow> u32 \<Rightarrow> u32 \<Rightarrow> ('e, 'z) wdf_driver_scheme \<Rightarrow>
   (NTSTATUS \<times> ('e, 'z) wdf_driver_scheme) option" where
  "alloc_bars K size_of hdr [] ni nm d = Some (STATUS_SUCCESS, d\<lparr>nInterrupts := ni, nMSIInterrupts := nm\<rparr>)"
| "alloc_bars K size_of hdr (r # rs) ni nm d =
     (case r of
        CmBar start len port \<Rightarrow>
          let (p, d) = wdf_pool_alloc K d size_of
          in if p = 0 then do {
               d \<leftarrow> PCIFreeBars K d;
               Some (STATUS_INSUFFICIENT_RESOURCES, d)
             }
             else do {
               i \<leftarrow> virtio_get_bar_index hdr start;
               if i < 0 then do {
                 d \<leftarrow> PCIFreeBars K d;
                 Some (STATUS_NOT_FOUND, d)
               }
               else alloc_bars K size_of hdr rs ni nm (d\<lparr>PCIBars :=
                      \<lparr>bar_block = p, iBar = i, bar_base = start, uLength = len,
                       pBase = (if port then start else 0), bPortSpace = port\<rparr> # PCIBars d\<rparr>)
             }
      | CmInterrupt msg \<Rightarrow> alloc_bars K size_of hdr rs (ni + 1) (if msg then nm + 1 else nm) d
      | _ \<Rightarrow> alloc_bars K size_of hdr rs ni nm d)"

definition PCIAllocBars ::
  "'e wdf_kernel \<Rightarrow> nat \<Rightarrow> cm_resource list \<Rightarrow> ('e, 'z) wdf_driver_scheme \<Rightarrow>
   (NTSTATUS \<times> ('e, 'z) wdf_driver_scheme) option" where
  "PCIAllocBars K size_of rs d =
     (case wdf_bus_data K (wdf_env d) 0 sizeof_PCI_COMMON_HEADER of (bs, read) \<Rightarrow>
        if unat read \<noteq> sizeof_PCI_COMMON_HEADER then Some (STATUS_DEVICE_CONFIGURATION_ERROR, d)
        else alloc_bars K size_of \<lparr>HeaderType = byte_at bs 14, BaseAddresses = map (\<lambda>i. word32_at bs (16 + 4 * i)) [0..<6]\<rparr>
               rs 0 0 d)"

definition PCIReadConfig :: "'e wdf_kernel \<Rightarrow> int \<Rightarrow> nat \<Rightarrow> ('e, 'z) wdf_driver_scheme \<Rightarrow> int \<times> u8 list" where
  "PCIReadConfig K at len d = (case wdf_bus_data K (wdf_env d) at len of
     (bs, read) \<Rightarrow> (if unat read = len then 0 else - 1, bs))"

text \<open>A new context is zeroed; \<open>STATUS_OBJECT_NAME_EXISTS\<close> says that there is one.\<close>

definition PCIRegisterInterrupt ::
  "'e wdf_kernel \<Rightarrow> ptr \<Rightarrow> ('e, 'z) wdf_driver_scheme \<Rightarrow> NTSTATUS \<times> ('e, 'z) wdf_driver_scheme" where
  "PCIRegisterInterrupt K i d =
     (if i = 0 then (STATUS_SUCCESS, d)
      else
        let (status, d) = wdf_call (\<lambda>e. WdfObjectAllocateContext K e i) d
        in if status = STATUS_OBJECT_NAME_EXISTS then (STATUS_SUCCESS, d)
           else (status, if NT_SUCCESS status then d\<lparr>interrupt_context := (interrupt_context d)(i \<mapsto> (0, False))\<rparr> else d))"

definition PCIGetMSIInterruptVector ::
  "'e wdf_kernel \<Rightarrow> ptr \<Rightarrow> ('e, 'z) wdf_driver_scheme \<Rightarrow> u16 \<times> ('e, 'z) wdf_driver_scheme" where
  "PCIGetMSIInterruptVector K i d =
     (if i = 0 then (VIRTIO_MSI_NO_VECTOR, d)
      else case interrupt_context d i of
        Some (n, True) \<Rightarrow> (n, d)
      | c \<Rightarrow>
          let n = (case WdfInterruptGetInfo K (wdf_env d) i of
                     (signaled, number) \<Rightarrow> if signaled then ucast number else VIRTIO_MSI_NO_VECTOR)
          in (n, if c \<noteq> None then d\<lparr>interrupt_context := (interrupt_context d)(i \<mapsto> (n, True))\<rparr> else d))"

section \<open>The callbacks\<close>

definition find_bar :: "int \<Rightarrow> ('e, 'z) wdf_driver_scheme \<Rightarrow> wdf_bar option" where
  "find_bar bar d = List.find (\<lambda>b. iBar b = bar) (PCIBars d)"

definition pci_get_resource_len_wdf :: "int \<Rightarrow> ('e, 'z) wdf_driver_scheme \<Rightarrow> u64" where
  "pci_get_resource_len_wdf bar d = (case find_bar bar d of None \<Rightarrow> 0 | Some b \<Rightarrow> ucast (uLength b))"

text \<open>The entry found is the first one of its index.\<close>

fun set_base :: "int \<Rightarrow> ptr \<Rightarrow> wdf_bar list \<Rightarrow> wdf_bar list" where
  "set_base bar a [] = []"
| "set_base bar a (b # bs) = (if iBar b = bar then b\<lparr>pBase := a\<rparr> # bs else b # set_base bar a bs)"

definition pci_map_address_range_wdf ::
  "'e wdf_kernel \<Rightarrow> int \<Rightarrow> u64 \<Rightarrow> ('e, 'z) wdf_driver_scheme \<Rightarrow> (ptr \<times> ('e, 'z) wdf_driver_scheme) option" where
  "pci_map_address_range_wdf K bar off d =
     (case find_bar bar d of
        None \<Rightarrow> Some (0, d)
      | Some b \<Rightarrow> do {
          (base, d) \<leftarrow>
            (if pBase b = 0
             then if bPortSpace b then None
                  else let (a, d) = wdf_call (\<lambda>e. wdf_map_io K e (bar_base b) (uLength b)) d
                       in Some (a, d\<lparr>PCIBars := set_base bar a (PCIBars d)\<rparr>)
             else Some (pBase b, d));
          Some (if base \<noteq> 0 \<and> off < ucast (uLength b) then base + off else 0, d)
        })"

text \<open>
  The number that \<open>PCIGetMSIInterruptVector\<close> gives.  That it also keeps the number for later calls
  matters only to a framework that forgets it, and is left to the direct calls below.
\<close>

definition vdev_get_msix_vector_wdf :: "'e wdf_kernel \<Rightarrow> int \<Rightarrow> ('e, 'z) wdf_driver_scheme \<Rightarrow> u16" where
  "vdev_get_msix_vector_wdf K queue d =
     (if 0 \<le> queue
      then case pQueueParams d of None \<Rightarrow> VIRTIO_MSI_NO_VECTOR
           | Some ps \<Rightarrow> fst (PCIGetMSIInterruptVector K (ps ! nat queue) d)
      else fst (PCIGetMSIInterruptVector K (ConfigInterrupt d) d))"

abbreviation (input) wdf_bytes :: "('e, 'z) wdf_driver_scheme \<Rightarrow> ptr \<Rightarrow> u8 list" where
  "wdf_bytes d p \<equiv> (case wdf_memory d p of None \<Rightarrow> [] | Some bs \<Rightarrow> bs)"

text \<open>\<open>delay\<close> is the wait of \<open>vdev_sleep\<close>, in which time passes for the whole state.\<close>

definition VirtIOWdfSystemOps ::
  "'e wdf_kernel \<Rightarrow> virtio_sizes \<Rightarrow> (('e, 'z) wdf_driver_scheme \<Rightarrow> ('e, 'z) wdf_driver_scheme) \<Rightarrow>
   ('o, ('e, 'z) wdf_driver_scheme) virtio_system_ops" where
  "VirtIOWdfSystemOps K Z delay = \<lparr>
     vdev_read_byte = (\<lambda>a d. case wdf_call (wdf_io_read K (is_mmio a) 1 a) d of (v, d) \<Rightarrow> (ucast v, d)),
     vdev_read_word = (\<lambda>a d. case wdf_call (wdf_io_read K (is_mmio a) 2 a) d of (v, d) \<Rightarrow> (ucast v, d)),
     vdev_read_dword = (\<lambda>a. wdf_call (wdf_io_read K (is_mmio a) 4 a)),
     vdev_write_byte = (\<lambda>a v d. d\<lparr>wdf_env := wdf_io_write K (is_mmio a) 1 a (ucast v) (wdf_env d)\<rparr>),
     vdev_write_word = (\<lambda>a v d. d\<lparr>wdf_env := wdf_io_write K (is_mmio a) 2 a (ucast v) (wdf_env d)\<rparr>),
     vdev_write_dword = (\<lambda>a v d. d\<lparr>wdf_env := wdf_io_write K (is_mmio a) 4 a v (wdf_env d)\<rparr>),
     mem_alloc_contiguous_pages = (\<lambda>sz d. Some (VirtIOWdfDeviceAllocDmaMemory K sz 0 d)),
     mem_free_contiguous_pages = (\<lambda>p d. Some (VirtIOWdfDeviceFreeDmaMemory K p d)),
     mem_get_physical_address = VirtIOWdfDeviceGetPhysicalAddress K,
     mem_alloc_nonpaged_block = (\<lambda>sz d. wdf_pool_alloc K d (unat sz)),
     mem_free_nonpaged_block = ExFreePoolWithTag,
     pci_read_config_byte = (\<lambda>at d. case PCIReadConfig K at 1 d of (r, bs) \<Rightarrow> (r, byte_at bs 0)),
     pci_read_config_word = (\<lambda>at d. case PCIReadConfig K at 2 d of (r, bs) \<Rightarrow> (r, word16_at bs 0)),
     pci_read_config_dword = (\<lambda>at d. case PCIReadConfig K at 4 d of (r, bs) \<Rightarrow> (r, word32_at bs 0)),
     pci_get_resource_len = (\<lambda>bar d. Some (pci_get_resource_len_wdf bar d)),
     pci_map_address_range = (\<lambda>bar off len d. pci_map_address_range_wdf K bar off d),
     vdev_get_msix_vector = vdev_get_msix_vector_wdf K,
     vdev_sleep = (\<lambda>ms. delay),
     split_memory = (\<lambda>n al p d. split_ring_in (wdf_bytes d p) n al),
     packed_memory = (\<lambda>n p d. packed_ring_in (wdf_bytes d p) n),
     info_memory = (\<lambda>p n d. replicate n no_queue),
     sizeof_virtqueue_split = size_of_split Z, sizeof_virtqueue_packed = size_of_packed Z,
     sizeof_desc_state = size_of_state Z, sizeof_queue_info = size_of_info Z\<rparr>"

section \<open>The interface of the driver\<close>

type_synonym ('o, 'e, 'z) wdf_device = "('o, ('e, 'z) wdf_driver_scheme) virtio_device"

abbreviation (input) VIRTIO_F_ANY_LAYOUT :: nat where "VIRTIO_F_ANY_LAYOUT \<equiv> 27"
abbreviation (input) VIRTIO_F_ACCESS_PLATFORM :: nat where "VIRTIO_F_ACCESS_PLATFORM \<equiv> 33"
abbreviation (input) VIRTIO_CONFIG_S_FAILED :: u8 where "VIRTIO_CONFIG_S_FAILED \<equiv> 0x80"

definition virtio_feature_enable :: "u64 \<Rightarrow> nat \<Rightarrow> u64" where
  "virtio_feature_enable features feature = features OR push_bit feature 1"

abbreviation (input) on_driver ::
  "('s \<Rightarrow> 'a \<times> 's) \<Rightarrow> ('o, 's) virtio_device \<Rightarrow> 'a \<times> ('o, 's) virtio_device" where
  "on_driver f vd \<equiv> (case f (vdev_sys vd) of (v, d) \<Rightarrow> (v, vd\<lparr>vdev_sys := d\<rparr>))"

definition VirtIOWdfGetDeviceFeatures ::
  "('o, ('e, 'z) wdf_driver_scheme) virtio_system_ops \<Rightarrow> ('o, 'e, 'z) wdf_device \<Rightarrow> (u64 \<times> ('o, 'e, 'z) wdf_device) option" where
  "VirtIOWdfGetDeviceFeatures S vd = virtio_get_features S vd"

text \<open>
  \<open>VirtIOWdfDeviceCheckIOMMUActive\<close>: with DMA remapping possible and not announced, a buffer must
  have the same logical and physical address.  2 is the answer \<open>remapping is on\<close> of the property.
\<close>

definition VirtIOWdfDeviceCheckIOMMUActive ::
  "'e wdf_kernel \<Rightarrow> ('o, ('e, 'z) wdf_driver_scheme) virtio_system_ops \<Rightarrow> ('o, 'e, 'z) wdf_device \<Rightarrow>
   (NTSTATUS \<times> ('o, 'e, 'z) wdf_device) option" where
  "VirtIOWdfDeviceCheckIOMMUActive K S vd = do {
     (features, vd) \<leftarrow> VirtIOWdfGetDeviceFeatures S vd;
     let (status, value) = WdfDeviceQueryPropertyEx K (wdf_env (vdev_sys vd));
     if \<not> NT_SUCCESS status \<or> value \<noteq> 2 \<or> virtio_is_feature_enabled features VIRTIO_F_ACCESS_PLATFORM
     then Some (STATUS_SUCCESS, vd)
     else
       let ((status, h, va, la), vd) =
             on_driver (\<lambda>d. wdf_call (\<lambda>e. WdfCommonBufferCreate K e (MemoryBlockCollection d) (ucast PAGE_SIZE)) d) vd
       in Some (if \<not> NT_SUCCESS status then status
                else if MmGetPhysicalAddress K (wdf_env (vdev_sys vd)) va = la then STATUS_SUCCESS
                else STATUS_DEVICE_CONFIGURATION_ERROR, vd)
   }"

text \<open>The zeroed structure; what lives elsewhere in memory stays.\<close>

definition zero_wdf :: "('o, 'e, 'z) wdf_device \<Rightarrow> ('o, 'e, 'z) wdf_device" where
  "zero_wdf vd = (zero_vdev ((vdev_sys vd)\<lparr>uFeatures := 0, PCIBars := [], nInterrupts := 0, nMSIInterrupts := 0,
     ConfigInterrupt := 0, pQueueParams := None, MemoryBlockCollection := []\<rparr>))\<lparr>vdev_vqs := vdev_vqs vd\<rparr>"

definition VirtIOWdfInitialize ::
  "'e wdf_kernel \<Rightarrow> ('o, ('e, 'z) wdf_driver_scheme) virtio_system_ops \<Rightarrow> nat \<Rightarrow> cm_resource list \<Rightarrow> ptr \<Rightarrow>
   ('o, 'e, 'z) wdf_device \<Rightarrow> (NTSTATUS \<times> ('o, 'e, 'z) wdf_device) option" where
  "VirtIOWdfInitialize K S size_of rs intr vd =
     (let (status, vd) = on_driver (wdf_call (WdfFdoQueryForInterface K)) (zero_wdf vd)
      in if \<not> NT_SUCCESS status then Some (status, vd)
         else
           let (status, vd) = on_driver (PCIRegisterInterrupt K intr) vd
           in if \<not> NT_SUCCESS status then Some (status, vd)
              else do {
                (status, d) \<leftarrow> PCIAllocBars K size_of rs (vdev_sys vd);
                let vd = vd\<lparr>vdev_sys := d\<rparr>;
                if \<not> NT_SUCCESS status then Some (status, vd)
                else do {
                  let (status, vd) = on_driver (wdf_call (WdfDmaEnablerCreate K)) vd;
                  let (status, vd) = (if NT_SUCCESS status then on_driver (wdf_call (WdfCollectionCreate K)) vd else (status, vd));
                  let (status, vd) = (if NT_SUCCESS status then on_driver (wdf_call (WdfSpinLockCreate K)) vd else (status, vd));
                  if \<not> NT_SUCCESS status then Some (status, vd)
                  else do {
                    (status, vd) \<leftarrow> virtio_device_initialize S (0 < nMSIInterrupts (vdev_sys vd)) vd;
                    (status, vd) \<leftarrow> (if NT_SUCCESS status then VirtIOWdfDeviceCheckIOMMUActive K S vd else Some (status, vd));
                    d \<leftarrow> (if \<not> NT_SUCCESS status then PCIFreeBars K (vdev_sys vd) else Some (vdev_sys vd));
                    Some (status, vd\<lparr>vdev_sys := d\<lparr>ConfigInterrupt := intr\<rparr>\<rparr>)
                  }
                }
              })"

text \<open>The features that every driver takes when the device has them.\<close>

definition common_features :: "u64 \<Rightarrow> u64" where
  "common_features dev =
     fold (\<lambda>f fs. if virtio_is_feature_enabled dev f then virtio_feature_enable fs f else fs)
       [VIRTIO_F_VERSION_1, VIRTIO_F_ANY_LAYOUT, VIRTIO_F_ACCESS_PLATFORM] 0"

text \<open>The status bits that are not set yet, in the order of the protocol.\<close>

definition follow_status ::
  "('o, 's) virtio_system_ops \<Rightarrow> u8 \<Rightarrow> ('o, 's) virtio_device \<Rightarrow> ('o, 's) virtio_device option" where
  "follow_status S status vd = do {
     vd \<leftarrow> (if status AND VIRTIO_CONFIG_S_ACKNOWLEDGE = 0 then virtio_add_status S VIRTIO_CONFIG_S_ACKNOWLEDGE vd else Some vd);
     if status AND VIRTIO_CONFIG_S_DRIVER = 0 then virtio_add_status S VIRTIO_CONFIG_S_DRIVER vd else Some vd
   }"

definition VirtIOWdfSetDriverFeatures ::
  "('o, ('e, 'z) wdf_driver_scheme) virtio_system_ops \<Rightarrow> u64 \<Rightarrow> u64 \<Rightarrow> ('o, 'e, 'z) wdf_device \<Rightarrow>
   (NTSTATUS \<times> ('o, 'e, 'z) wdf_device) option" where
  "VirtIOWdfSetDriverFeatures S on_bits off_bits vd = do {
     (dev, vd) \<leftarrow> VirtIOWdfGetDeviceFeatures S vd;
     if dev AND on_bits \<noteq> on_bits then Some (STATUS_INVALID_PARAMETER, vd)
     else do {
       let features = (common_features dev OR on_bits) AND NOT off_bits;
       (status, vd) \<leftarrow> virtio_get_status S vd;
       vd \<leftarrow> follow_status S status vd;
       virtio_set_features S features (vd\<lparr>vdev_sys := (vdev_sys vd)\<lparr>uFeatures := features\<rparr>\<rparr>)
     }
   }"

definition VirtIOWdfFinalizeFeatures ::
  "('o, ('e, 'z) wdf_driver_scheme) virtio_system_ops \<Rightarrow> ('o, 'e, 'z) wdf_device \<Rightarrow>
   (NTSTATUS \<times> ('o, 'e, 'z) wdf_device) option" where
  "VirtIOWdfFinalizeFeatures S vd = do {
     (status, vd) \<leftarrow> (if uFeatures (vdev_sys vd) = 0 then VirtIOWdfSetDriverFeatures S 0 0 vd else Some (STATUS_SUCCESS, vd));
     if \<not> NT_SUCCESS status then Some (status, vd)
     else do {
       (dev_status, vd) \<leftarrow> virtio_get_status S vd;
       vd \<leftarrow> follow_status S dev_status vd;
       if dev_status AND VIRTIO_CONFIG_S_FEATURES_OK = 0
       then virtio_set_features S (uFeatures (vdev_sys vd)) vd else Some (status, vd)
     }
   }"

fun register_interrupts ::
  "'e wdf_kernel \<Rightarrow> ptr list \<Rightarrow> ('e, 'z) wdf_driver_scheme \<Rightarrow> NTSTATUS \<times> ('e, 'z) wdf_driver_scheme" where
  "register_interrupts K [] d = (STATUS_SUCCESS, d)"
| "register_interrupts K (i # is) d =
     (case PCIRegisterInterrupt K i d of (status, d) \<Rightarrow>
        if \<not> NT_SUCCESS status then (status, d) else register_interrupts K is d)"

text \<open>One interrupt for each of the queues; the result is what \<open>virtio_find_queues\<close> stored in \<open>pQueues\<close>.\<close>

definition VirtIOWdfInitQueues ::
  "'e wdf_kernel \<Rightarrow> ('o, ('e, 'z) wdf_driver_scheme) virtio_system_ops \<Rightarrow> ptr list \<Rightarrow> ('o, 'e, 'z) wdf_device \<Rightarrow>
   ((NTSTATUS \<times> ptr list) \<times> ('o, 'e, 'z) wdf_device) option" where
  "VirtIOWdfInitQueues K S params vd = do {
     (status, vd) \<leftarrow> VirtIOWdfFinalizeFeatures S vd;
     if \<not> NT_SUCCESS status then Some ((status, []), vd)
     else
       let (status, vd) = on_driver (register_interrupts K params) vd
       in if \<not> NT_SUCCESS status then Some ((status, []), vd)
          else do {
            (r, vd) \<leftarrow> virtio_find_queues S (word_of_nat (length params))
                          (vd\<lparr>vdev_sys := (vdev_sys vd)\<lparr>pQueueParams := Some params\<rparr>\<rparr>);
            Some (r, vd\<lparr>vdev_sys := (vdev_sys vd)\<lparr>pQueueParams := None\<rparr>\<rparr>)
          }
   }"

text \<open>The loop of \<open>VirtIOWdfInitQueuesCB\<close>; \<open>param\<close> and \<open>set_vq\<close> are the two callbacks of the driver.\<close>

fun init_queues_from ::
  "'e wdf_kernel \<Rightarrow> ('o, ('e, 'z) wdf_driver_scheme) virtio_system_ops \<Rightarrow> (nat \<Rightarrow> ptr) \<Rightarrow>
   (nat \<Rightarrow> ptr \<Rightarrow> ('e, 'z) wdf_driver_scheme \<Rightarrow> ('e, 'z) wdf_driver_scheme) \<Rightarrow> nat \<Rightarrow> nat \<Rightarrow> ('o, 'e, 'z) wdf_device \<Rightarrow>
   (NTSTATUS \<times> ('o, 'e, 'z) wdf_device) option" where
  "init_queues_from K S param set_vq i 0 vd = Some (STATUS_SUCCESS, vd)"
| "init_queues_from K S param set_vq i (Suc n) vd = do {
     ((status, vq), vd) \<leftarrow> virtio_find_queue S (word_of_nat i) vd;
     if \<not> NT_SUCCESS status then Some (status, vd)
     else
       let (status, vd) = on_driver (PCIRegisterInterrupt K (param i)) vd
       in if \<not> NT_SUCCESS status then Some (status, vd)
          else do {
            let (vec, vd) = on_driver (PCIGetMSIInterruptVector K (param i)) vd;
            (vec', vd) \<leftarrow> (if vec \<noteq> VIRTIO_MSI_NO_VECTOR then virtio_set_queue_vector S vq vec vd else Some (vec, vd));
            if vec' \<noteq> vec then Some (STATUS_DEVICE_BUSY, vd)
            else init_queues_from K S param set_vq (Suc i) n (vd\<lparr>vdev_sys := set_vq i vq (vdev_sys vd)\<rparr>)
          }
   }"

definition VirtIOWdfInitQueuesCB ::
  "'e wdf_kernel \<Rightarrow> ('o, ('e, 'z) wdf_driver_scheme) virtio_system_ops \<Rightarrow> (nat \<Rightarrow> ptr) \<Rightarrow>
   (nat \<Rightarrow> ptr \<Rightarrow> ('e, 'z) wdf_driver_scheme \<Rightarrow> ('e, 'z) wdf_driver_scheme) \<Rightarrow> u32 \<Rightarrow> ('o, 'e, 'z) wdf_device \<Rightarrow>
   (NTSTATUS \<times> ('o, 'e, 'z) wdf_device) option" where
  "VirtIOWdfInitQueuesCB K S param set_vq nQueues vd = do {
     (status, vd) \<leftarrow> VirtIOWdfFinalizeFeatures S vd;
     if \<not> NT_SUCCESS status then Some (status, vd)
     else do {
       (status, vd) \<leftarrow> virtio_reserve_queue_memory S nQueues vd;
       if \<not> NT_SUCCESS status then Some (status, vd)
       else do {
         let (vec, vd) = on_driver (\<lambda>d. PCIGetMSIInterruptVector K (ConfigInterrupt d) d) vd;
         (vec', vd) \<leftarrow> (if vec \<noteq> VIRTIO_MSI_NO_VECTOR then virtio_set_config_vector S vec vd else Some (vec, vd));
         if vec' \<noteq> vec then Some (STATUS_DEVICE_BUSY, vd)
         else do {
           (status, vd) \<leftarrow> init_queues_from K S param set_vq 0 (unat nQueues) vd;
           vd \<leftarrow> (if \<not> NT_SUCCESS status then virtio_delete_queues S vd else Some vd);
           Some (status, vd)
         }
       }
     }
   }"

definition VirtIOWdfSetDriverOK ::
  "('o, ('e, 'z) wdf_driver_scheme) virtio_system_ops \<Rightarrow> ('o, 'e, 'z) wdf_device \<Rightarrow> ('o, 'e, 'z) wdf_device option" where
  "VirtIOWdfSetDriverOK S vd = virtio_device_ready S vd"

definition VirtIOWdfSetDriverFailed ::
  "('o, ('e, 'z) wdf_driver_scheme) virtio_system_ops \<Rightarrow> ('o, 'e, 'z) wdf_device \<Rightarrow> ('o, 'e, 'z) wdf_device option" where
  "VirtIOWdfSetDriverFailed S vd = virtio_add_status S VIRTIO_CONFIG_S_FAILED vd"

definition VirtIOWdfShutdown ::
  "'e wdf_kernel \<Rightarrow> ('o, ('e, 'z) wdf_driver_scheme) virtio_system_ops \<Rightarrow> ('o, 'e, 'z) wdf_device \<Rightarrow>
   ('o, 'e, 'z) wdf_device option" where
  "VirtIOWdfShutdown K S vd = do {
     vd \<leftarrow> virtio_device_shutdown S vd;
     d \<leftarrow> PCIFreeBars K (vdev_sys vd);
     Some (vd\<lparr>vdev_sys := d\<rparr>)
   }"

definition VirtIOWdfDestroyQueues ::
  "('o, ('e, 'z) wdf_driver_scheme) virtio_system_ops \<Rightarrow> ('o, 'e, 'z) wdf_device \<Rightarrow> ('o, 'e, 'z) wdf_device option" where
  "VirtIOWdfDestroyQueues S vd = do {
     vd \<leftarrow> virtio_device_reset S vd;
     virtio_delete_queues S vd
   }"

definition VirtIOWdfDeviceGet ::
  "('o, ('e, 'z) wdf_driver_scheme) virtio_system_ops \<Rightarrow> u32 \<Rightarrow> u32 \<Rightarrow> ('o, 'e, 'z) wdf_device \<Rightarrow>
   (u8 list \<times> ('o, 'e, 'z) wdf_device) option" where
  "VirtIOWdfDeviceGet S off len vd = virtio_get_config S off len vd"

definition VirtIOWdfDeviceSet ::
  "('o, ('e, 'z) wdf_driver_scheme) virtio_system_ops \<Rightarrow> u32 \<Rightarrow> u8 list \<Rightarrow> ('o, 'e, 'z) wdf_device \<Rightarrow>
   ('o, 'e, 'z) wdf_device option" where
  "VirtIOWdfDeviceSet S off buf vd = virtio_set_config S off buf vd"

definition VirtIOWdfGetISRStatus ::
  "('o, ('e, 'z) wdf_driver_scheme) virtio_system_ops \<Rightarrow> ('o, 'e, 'z) wdf_device \<Rightarrow> u8 \<times> ('o, 'e, 'z) wdf_device" where
  "VirtIOWdfGetISRStatus S vd = virtio_read_isr_status S vd"

end
