(* ===== verification/Acx_Device.thy ===== *)
theory Acx_Device
  imports Wdf_Driver Snd_Control
begin

text \<open>
  The ACX build of the driver, first part: the device context and the stream context
  (\<open>viosnd/sys/ViosndAcx.h\<close>), DMA memory, event buffers and control commands
  (\<open>viosnd/sys/ViosndAcxVirtio.cpp\<close>).

  \<open>VIOSND_ACX_DEVICE\<close> extends the WDF driver record by its own members.  Streams, pin contexts and
  control messages live at addresses, in \<open>acx_streams\<close>, \<open>acx_pins\<close> and \<open>acx_messages\<close>; a period is named by the address
  of its stream and its index.  Locks are not part of the state: every path gives back what it
  took, and an operation here is one step.
\<close>

section \<open>State\<close>

abbreviation (input) VIOSND_POOL_TAG :: u32 where "VIOSND_POOL_TAG \<equiv> 0x646E5356"

datatype acx_opaque = AMessage ptr | AEvent nat | APeriod ptr nat

record VIOSND_ACX_PERIOD =
  pd_PacketNumber :: u64
  pd_Length :: u32
  pd_RequestVa :: ptr
  pd_RequestPa :: u64
  pd_RequestLength :: u32
  pd_AudioVa :: ptr
  pd_AudioPa :: u64
  pd_StatusVa :: ptr
  pd_StatusPa :: u64
  pd_InFlight :: bool
  pd_Ready :: bool

datatype VIOSND_ACX_PIN_ROLE = ViosndAcxPinRoleHost | ViosndAcxPinRoleBridge

text \<open>
  The arrays of a stream are pairs of their block and their contents, \<open>None\<close> for NULL.  A packet
  is described by its offset in its buffer and its size, \<open>ACX_RTPACKET\<close>.
\<close>

record VIOSND_ACX_STREAM =
  st_StreamId :: u32
  st_Capture :: bool
  st_Prepared :: bool
  st_Running :: bool
  st_PacketCount :: u32
  st_PacketSize :: u32
  st_Packets :: "(ptr \<times> (u32 \<times> u32) list) option"
  st_PacketBuffers :: "(ptr \<times> ptr list) option"
  st_PacketMdls :: "(ptr \<times> ptr list) option"
  st_PacketAllocBytes :: u32
  st_FirstPacketOffset :: u32
  st_Periods :: "(ptr \<times> VIOSND_ACX_PERIOD list) option"
  st_PeriodCount :: u32
  st_PeriodBytes :: u32
  st_BufferBytes :: u32
  st_RenderReadyQueue :: "(ptr \<times> u32 list) option"
  st_RenderReadyCapacity :: u32
  st_RenderReadyHead :: u32
  st_RenderReadyTail :: u32
  st_RenderReadyCount :: u32
  st_RenderPumpActive :: bool
  st_PacketsCompleted :: u64
  st_NextCapturePacket :: u64
  st_PositionBytes :: u64
  st_LastLatencyBytes :: u32
  st_XrunCount :: u32
  st_CurrentPacketQueryCount :: u32
  st_PresentationQueryCount :: u32

record ('q, 'e) VIOSND_ACX_DEVICE = "'e wdf_driver" +
  QueueInterrupt :: ptr
  acx_Queues :: "'q queues"
  acx_Config :: VIRTIO_SND_CONFIG
  acx_Streams :: VIOSND_STREAM_PAIR
  EventPoolVa :: ptr
  EventPoolPa :: u64
  EventPoolBytes :: u32
  acx_EventBuffers :: "VIOSND_EVENT_BUFFER list"
  acx_EventBufferCount :: u32
  RenderCircuit :: ptr
  CaptureCircuit :: ptr
  RenderCircuitAdded :: bool
  CaptureCircuitAdded :: bool
  RenderStream :: ptr
  CaptureStream :: ptr
  VirtioReady :: bool
  QueuesReady :: bool
  acx_streams :: "ptr \<Rightarrow> VIOSND_ACX_STREAM option"
  acx_pins :: "ptr \<Rightarrow> VIOSND_ACX_PIN_ROLE option"
  acx_messages :: "ptr \<Rightarrow> VIOSND_CONTROL_MESSAGE option"
  packet_memory :: "ptr \<Rightarrow> u8 list option"

text \<open>
  The kernel: that of the WDF driver, the queue operations, and the device, which runs while the
  driver waits and can change the queues and the DMA memory.
\<close>

record ('q, 'e) acx_kernel =
  wdf :: "'e wdf_kernel"
  acx_ops :: "('q, acx_opaque) virtqueue_ops"
  acx_device_runs :: "'e \<Rightarrow> 'q queues \<Rightarrow> dma_memory \<Rightarrow> 'e \<times> 'q queues \<times> dma_memory"
  acx_counter :: "'e \<Rightarrow> u64 \<times> 'e"
  AcxRtStreamNotifyPacketComplete :: "'e \<Rightarrow> ptr \<Rightarrow> u64 \<Rightarrow> u64 \<Rightarrow> 'e"
  IoAllocateMdl :: "'e \<Rightarrow> ptr \<times> 'e"
  IoFreeMdl :: "'e \<Rightarrow> ptr \<Rightarrow> 'e"

definition acx_delay :: "('q, 'e) acx_kernel \<Rightarrow> ('q, 'e) VIOSND_ACX_DEVICE \<Rightarrow> ('q, 'e) VIOSND_ACX_DEVICE" where
  "acx_delay K d = (case acx_device_runs K (wdf_env d) (acx_Queues d) (wdf_memory d) of
     (e, qs, m) \<Rightarrow> d\<lparr>wdf_env := e, acx_Queues := qs, wdf_memory := m\<rparr>)"

section \<open>Queues and memory\<close>

definition acx_set_queue :: "vq_index \<Rightarrow> 'q \<Rightarrow> ('q, 'e) VIOSND_ACX_DEVICE \<Rightarrow> ('q, 'e) VIOSND_ACX_DEVICE" where
  "acx_set_queue i q d = d\<lparr>acx_Queues := (acx_Queues d)(i := Some q)\<rparr>"

definition acx_add_buf ::
  "('q, 'e) acx_kernel \<Rightarrow> vq_index \<Rightarrow> scatterlist list \<Rightarrow> nat \<Rightarrow> nat \<Rightarrow> acx_opaque \<Rightarrow> ('q, 'e) VIOSND_ACX_DEVICE \<Rightarrow>
   (int \<times> ('q, 'e) VIOSND_ACX_DEVICE) option" where
  "acx_add_buf K i sg outs ins x d = do {
     q \<leftarrow> acx_Queues d i;
     (r, q) \<leftarrow> add_buf (acx_ops K) q sg outs ins x 0 0;
     Some (r, acx_set_queue i q d)
   }"

definition acx_get_buf ::
  "('q, 'e) acx_kernel \<Rightarrow> vq_index \<Rightarrow> ('q, 'e) VIOSND_ACX_DEVICE \<Rightarrow>
   ((acx_opaque \<times> u32) option \<times> ('q, 'e) VIOSND_ACX_DEVICE) option" where
  "acx_get_buf K i d = do {
     q \<leftarrow> acx_Queues d i;
     (r, q) \<leftarrow> get_buf (acx_ops K) q;
     Some (r, acx_set_queue i q d)
   }"

definition acx_kick ::
  "('q, 'e) acx_kernel \<Rightarrow> vq_index \<Rightarrow> ('q, 'e) VIOSND_ACX_DEVICE \<Rightarrow> ('q, 'e) VIOSND_ACX_DEVICE option" where
  "acx_kick K i d = do {
     q \<leftarrow> acx_Queues d i;
     q \<leftarrow> virtqueue_kick (acx_ops K) q;
     Some (acx_set_queue i q d)
   }"

text \<open>Access through a pointer into a common buffer.\<close>

definition wdf_read :: "('e, 'z) wdf_driver_scheme \<Rightarrow> ptr \<Rightarrow> nat \<Rightarrow> u8 list option" where
  "wdf_read d va n = do {
     b \<leftarrow> find_block True va (MemoryBlockCollection d);
     buf \<leftarrow> wdf_memory d (pVirtualAddress b);
     read_bytes (unat (va - pVirtualAddress b)) n buf
   }"

definition wdf_write :: "ptr \<Rightarrow> u8 list \<Rightarrow> ('e, 'z) wdf_driver_scheme \<Rightarrow> ('e, 'z) wdf_driver_scheme option" where
  "wdf_write va bs d = do {
     b \<leftarrow> find_block True va (MemoryBlockCollection d);
     buf \<leftarrow> wdf_memory d (pVirtualAddress b);
     buf \<leftarrow> write_bytes (unat (va - pVirtualAddress b)) bs buf;
     Some (d\<lparr>wdf_memory := (wdf_memory d)(pVirtualAddress b \<mapsto> buf)\<rparr>)
   }"

text \<open>The address and \<open>*PhysicalAddress\<close>.  A new buffer is zero already when it is zeroed again.\<close>

definition ViosndAcxAllocDma ::
  "('q, 'e) acx_kernel \<Rightarrow> u32 \<Rightarrow> ('q, 'e) VIOSND_ACX_DEVICE \<Rightarrow> (ptr \<times> u64) \<times> ('q, 'e) VIOSND_ACX_DEVICE" where
  "ViosndAcxAllocDma K sz d =
     (let (va, d) = VirtIOWdfDeviceAllocDmaMemory (wdf K) (ucast sz) VIOSND_POOL_TAG d
      in if va = 0 then ((0, 0), d) else ((va, VirtIOWdfDeviceGetPhysicalAddress (wdf K) va d), d))"

definition ViosndAcxFreeDma ::
  "('q, 'e) acx_kernel \<Rightarrow> ptr \<Rightarrow> ('q, 'e) VIOSND_ACX_DEVICE \<Rightarrow> ('q, 'e) VIOSND_ACX_DEVICE" where
  "ViosndAcxFreeDma K va d = (if va \<noteq> 0 then VirtIOWdfDeviceFreeDmaMemory (wdf K) va d else d)"

section \<open>Event buffers\<close>

definition ViosndAcxPostEventBufferLocked ::
  "('q, 'e) acx_kernel \<Rightarrow> nat \<Rightarrow> ('q, 'e) VIOSND_ACX_DEVICE \<Rightarrow> (NTSTATUS \<times> ('q, 'e) VIOSND_ACX_DEVICE) option" where
  "ViosndAcxPostEventBufferLocked K i d = do {
     b \<leftarrow> read_at (acx_EventBuffers d) i;
     if acx_Queues d VIRTIO_SND_VQ_EVENT = None \<or> EventVa b = 0 then Some (STATUS_DEVICE_NOT_READY, d)
     else do {
       d \<leftarrow> wdf_write (EventVa b) (replicate sizeof_EVENT 0) d;
       (r, d) \<leftarrow> acx_add_buf K VIRTIO_SND_VQ_EVENT
         [\<lparr>sg_addr = EventPa b, sg_length = word_of_nat sizeof_EVENT\<rparr>] 0 1 (AEvent i) d;
       Some (if r < 0 then STATUS_DEVICE_BUSY else STATUS_SUCCESS, d)
     }
   }"

fun acx_init_events ::
  "('q, 'e) acx_kernel \<Rightarrow> nat list \<Rightarrow> ('q, 'e) VIOSND_ACX_DEVICE \<Rightarrow> (NTSTATUS \<times> ('q, 'e) VIOSND_ACX_DEVICE) option" where
  "acx_init_events K [] d = Some (STATUS_SUCCESS, d)"
| "acx_init_events K (i # is) d = do {
     bufs \<leftarrow> write_at (acx_EventBuffers d) i
       \<lparr>EventVa = EventPoolVa d + word_of_nat (i * sizeof_EVENT), EventPa = EventPoolPa d + word_of_nat (i * sizeof_EVENT)\<rparr>;
     (status, d) \<leftarrow> ViosndAcxPostEventBufferLocked K i (d\<lparr>acx_EventBuffers := bufs\<rparr>);
     if \<not> NT_SUCCESS status then Some (status, d)
     else acx_init_events K is (d\<lparr>acx_EventBufferCount := acx_EventBufferCount d + 1\<rparr>)
   }"

definition ViosndInitializeEventQueue_acx ::
  "('q, 'e) acx_kernel \<Rightarrow> ('q, 'e) VIOSND_ACX_DEVICE \<Rightarrow> (NTSTATUS \<times> ('q, 'e) VIOSND_ACX_DEVICE) option" where
  "ViosndInitializeEventQueue_acx K d =
     (if acx_Queues d VIRTIO_SND_VQ_EVENT = None then Some (STATUS_DEVICE_NOT_READY, d)
      else
        let poolBytes = max PAGE_SIZE (word_of_nat (VIOSND_EVENT_BUFFER_COUNT * sizeof_EVENT));
            ((va, pa), d) = ViosndAcxAllocDma K poolBytes d;
            d = d\<lparr>EventPoolVa := va, EventPoolPa := (if va = 0 then EventPoolPa d else pa)\<rparr>
        in if va = 0 then Some (STATUS_INSUFFICIENT_RESOURCES, d)
           else do {
             (status, d) \<leftarrow> acx_init_events K [0..<VIOSND_EVENT_BUFFER_COUNT] (d\<lparr>EventPoolBytes := poolBytes\<rparr>);
             d \<leftarrow> (if NT_SUCCESS status then acx_kick K VIRTIO_SND_VQ_EVENT d else Some d);
             Some (status, d)
           })"

definition ViosndAcxFreeEventBuffers ::
  "('q, 'e) acx_kernel \<Rightarrow> ('q, 'e) VIOSND_ACX_DEVICE \<Rightarrow> ('q, 'e) VIOSND_ACX_DEVICE" where
  "ViosndAcxFreeEventBuffers K d =
     (let d = d\<lparr>acx_EventBuffers := replicate VIOSND_EVENT_BUFFER_COUNT \<lparr>EventVa = 0, EventPa = 0\<rparr>, acx_EventBufferCount := 0\<rparr>
      in if EventPoolVa d \<noteq> 0
         then (ViosndAcxFreeDma K (EventPoolVa d) d)\<lparr>EventPoolVa := 0, EventPoolPa := 0, EventPoolBytes := 0\<rparr>
         else d)"

section \<open>Control commands\<close>

definition ViosndFreeControlMessage_acx ::
  "('q, 'e) acx_kernel \<Rightarrow> ptr \<Rightarrow> ('q, 'e) VIOSND_ACX_DEVICE \<Rightarrow> ('q, 'e) VIOSND_ACX_DEVICE option" where
  "ViosndFreeControlMessage_acx K message d =
     (if message = 0 then Some d
      else do {
        m \<leftarrow> acx_messages d message;
        d \<leftarrow> ExFreePoolWithTag message (ViosndAcxFreeDma K (m_ResponseVa m) (ViosndAcxFreeDma K (m_RequestVa m) d));
        Some (d\<lparr>acx_messages := (acx_messages d)(message := None)\<rparr>)
      })"

text \<open>The wait of a second; a completion of another message is dropped.  \<open>None\<close> in the result: timeout.\<close>

function acx_poll ::
  "('q, 'e) acx_kernel \<Rightarrow> ptr \<Rightarrow> nat \<Rightarrow> u32 \<Rightarrow> ('q, 'e) VIOSND_ACX_DEVICE \<Rightarrow>
   (u8 list option \<times> ('q, 'e) VIOSND_ACX_DEVICE) option" where
  "acx_poll K message responseLength elapsedUs d = do {
     (used, d) \<leftarrow> acx_get_buf K VIRTIO_SND_VQ_CONTROL d;
     if map_option fst used = Some (AMessage message) then do {
       m \<leftarrow> acx_messages d message;
       response \<leftarrow> wdf_read d (m_ResponseVa m) responseLength;
       Some (Some response, d)
     }
     else if 1000000 \<le> elapsedUs then Some (None, d)
     else acx_poll K message responseLength (elapsedUs + 1000) (acx_delay K d)
   }"
  by pat_completeness auto
termination
proof (relation "measure (\<lambda>(K, message, n, elapsedUs, d). 1000000 - unat elapsedUs)")
  show "((K, message, n, elapsedUs + 1000, acx_delay K d'), K, message, n, elapsedUs, d)
      \<in> measure (\<lambda>(K, message, n, elapsedUs, d). 1000000 - unat elapsedUs)"
    if "\<not> 1000000 \<le> elapsedUs" for K :: "('q, 'e) acx_kernel" and message n and elapsedUs :: u32 and d d' :: "('q, 'e) VIOSND_ACX_DEVICE"
  proof -
    have "unat elapsedUs < 1000000" using that by (simp add: word_less_nat_alt not_le)
    then have "unat (elapsedUs + 1000) = unat elapsedUs + 1000" using unat_add_of_nat [of elapsedUs 1000] by simp
    then show ?thesis using \<open>unat elapsedUs < 1000000\<close> by simp
  qed
qed simp

declare acx_poll.simps [simp del]

definition ViosndControlCommand_acx ::
  "('q, 'e) acx_kernel \<Rightarrow> u8 list \<Rightarrow> u32 \<Rightarrow> ('q, 'e) VIOSND_ACX_DEVICE \<Rightarrow>
   (NTSTATUS \<times> u8 list option \<times> ('q, 'e) VIOSND_ACX_DEVICE) option" where
  "ViosndControlCommand_acx K request responseLength d =
     (if acx_Queues d VIRTIO_SND_VQ_CONTROL = None then Some (STATUS_DEVICE_NOT_READY, None, d)
      else
        let requestLength = word_of_nat (length request);
            (message, d) = wdf_pool_alloc (wdf K) d 48
        in if message = 0 then Some (STATUS_INSUFFICIENT_RESOURCES, None, d)
        else
          let ((reqVa, reqPa), d) = ViosndAcxAllocDma K requestLength d;
              ((respVa, respPa), d) = ViosndAcxAllocDma K responseLength d;
              d = d\<lparr>acx_messages := (acx_messages d)(message \<mapsto>
                \<lparr>m_RequestVa = reqVa, m_RequestPa = reqPa, m_RequestLength = requestLength,
                 m_ResponseVa = respVa, m_ResponsePa = respPa, m_ResponseLength = responseLength\<rparr>)\<rparr>
          in if reqVa = 0 \<or> respVa = 0 then do {
               d \<leftarrow> ViosndFreeControlMessage_acx K message d;
               Some (STATUS_INSUFFICIENT_RESOURCES, None, d)
             }
             else do {
               d \<leftarrow> wdf_write reqVa request d;
               (r, d) \<leftarrow> acx_add_buf K VIRTIO_SND_VQ_CONTROL
                 [\<lparr>sg_addr = reqPa, sg_length = requestLength\<rparr>, \<lparr>sg_addr = respPa, sg_length = responseLength\<rparr>] 1 1
                 (AMessage message) d;
               if r < 0 then do {
                 d \<leftarrow> ViosndFreeControlMessage_acx K message d;
                 Some (STATUS_DEVICE_BUSY, None, d)
               }
               else do {
                 d \<leftarrow> acx_kick K VIRTIO_SND_VQ_CONTROL d;
                 (response, d) \<leftarrow> acx_poll K message (unat responseLength) 0 d;
                 d \<leftarrow> ViosndFreeControlMessage_acx K message d;
                 Some (if response = None then STATUS_IO_TIMEOUT else STATUS_SUCCESS, response, d)
               }
             })"

definition ViosndAcxControlStatusCommand ::
  "('q, 'e) acx_kernel \<Rightarrow> u8 list \<Rightarrow> ('q, 'e) VIOSND_ACX_DEVICE \<Rightarrow> (NTSTATUS \<times> ('q, 'e) VIOSND_ACX_DEVICE) option" where
  "ViosndAcxControlStatusCommand K request d = do {
     (status, response, d) \<leftarrow> ViosndControlCommand_acx K request (word_of_nat sizeof_HDR) d;
     if \<not> NT_SUCCESS status then Some (status, d)
     else
       let code = (case response of None \<Rightarrow> 0 | Some bs \<Rightarrow> le_word32 bs)
       in Some (if code = VIRTIO_SND_S_OK then STATUS_SUCCESS
                else if code = VIRTIO_SND_S_NOT_SUPP then STATUS_NOT_SUPPORTED
                else if code = VIRTIO_SND_S_BAD_MSG then STATUS_INVALID_PARAMETER
                else STATUS_IO_DEVICE_ERROR, d)
   }"

definition ViosndAcxPcmCommand ::
  "('q, 'e) acx_kernel \<Rightarrow> u32 \<Rightarrow> u32 \<Rightarrow> ('q, 'e) VIOSND_ACX_DEVICE \<Rightarrow> (NTSTATUS \<times> ('q, 'e) VIOSND_ACX_DEVICE) option" where
  "ViosndAcxPcmCommand K streamId code d =
     ViosndAcxControlStatusCommand K (bytes_of_PCM_HDR \<lparr>ph_code = code, ph_stream_id = streamId\<rparr>) d"

text \<open>The second component is \<open>Info\<close>, when it was written.\<close>

definition ViosndQueryPcmInfo_acx ::
  "('q, 'e) acx_kernel \<Rightarrow> u32 \<Rightarrow> ('q, 'e) VIOSND_ACX_DEVICE \<Rightarrow>
   (NTSTATUS \<times> VIRTIO_SND_PCM_INFO list \<times> ('q, 'e) VIOSND_ACX_DEVICE) option" where
  "ViosndQueryPcmInfo_acx K n d =
     (if n = 0 \<or> VIOSND_MAX_PCM_STREAMS < n then Some (STATUS_INVALID_PARAMETER, [], d)
      else
        let responseLength = word_of_nat sizeof_HDR + n * word_of_nat sizeof_PCM_INFO;
            (block, d) = wdf_pool_alloc (wdf K) d (unat responseLength)
        in if block = 0 then Some (STATUS_INSUFFICIENT_RESOURCES, [], d)
           else do {
             (status, response, d) \<leftarrow> ViosndControlCommand_acx K (bytes_of_QUERY_INFO \<lparr>qi_code = VIRTIO_SND_R_PCM_INFO,
               qi_start_id = 0, qi_count = n, qi_size = word_of_nat sizeof_PCM_INFO\<rparr>) responseLength d;
             (status, infos) \<leftarrow>
               (if NT_SUCCESS status then do {
                  bs \<leftarrow> response;
                  header \<leftarrow> read_bytes 0 sizeof_HDR bs;
                  body \<leftarrow> read_bytes sizeof_HDR (unat n * sizeof_PCM_INFO) bs;
                  Some (if le_word32 header \<noteq> VIRTIO_SND_S_OK then (STATUS_IO_DEVICE_ERROR, [])
                        else (status, pcm_infos_of_bytes (unat n) body))
                }
                else Some (status, []));
             d \<leftarrow> ExFreePoolWithTag block d;
             Some (status, infos, d)
           })"

definition ViosndAcxQueryPcmStreams ::
  "('q, 'e) acx_kernel \<Rightarrow> ('q, 'e) VIOSND_ACX_DEVICE \<Rightarrow> (NTSTATUS \<times> ('q, 'e) VIOSND_ACX_DEVICE) option" where
  "ViosndAcxQueryPcmStreams K d =
     (let streamCount = cfg_streams (acx_Config d)
      in if streamCount = 0 \<or> VIOSND_MAX_PCM_STREAMS < streamCount then Some (STATUS_NOT_FOUND, d)
         else
           let (block, d) = wdf_pool_alloc (wdf K) d (unat streamCount * sizeof_PCM_INFO)
           in if block = 0 then Some (STATUS_INSUFFICIENT_RESOURCES, d)
              else do {
                (status, infos, d) \<leftarrow> ViosndQueryPcmInfo_acx K streamCount d;
                let (status, d) = (if NT_SUCCESS status
                  then let (status, pair) = ViosndFindStreamPair infos in (status, d\<lparr>acx_Streams := pair\<rparr>) else (status, d));
                d \<leftarrow> ExFreePoolWithTag block d;
                Some (status, d)
              })"

end
