(* ===== verification/Acx_Stream.thy ===== *)
theory Acx_Stream
  imports Acx_Device
begin

text \<open>
  The streams of the ACX build (\<open>viosnd/sys/ViosndAcxCircuit.cpp\<close>): the packet buffers shared with
  the audio engine, the periods that travel to the device, the queue of packets that are ready to
  be played, draining the queues, stopping, and the callbacks of a stream.

  A stream is an address \<open>p\<close>, 0 for NULL.  Its handle in the framework is taken to be the same address.
\<close>

section \<open>Access to a stream\<close>

definition upd_stream ::
  "ptr \<Rightarrow> (VIOSND_ACX_STREAM \<Rightarrow> VIOSND_ACX_STREAM) \<Rightarrow> ('q, 'e) VIOSND_ACX_DEVICE \<Rightarrow> ('q, 'e) VIOSND_ACX_DEVICE" where
  "upd_stream p f d = d\<lparr>acx_streams := (acx_streams d)(p := map_option f (acx_streams d p))\<rparr>"

definition period_at :: "('q, 'e) VIOSND_ACX_DEVICE \<Rightarrow> ptr \<Rightarrow> nat \<Rightarrow> VIOSND_ACX_PERIOD option" where
  "period_at d p i = do {
     s \<leftarrow> acx_streams d p;
     (_, ps) \<leftarrow> st_Periods s;
     read_at ps i
   }"

definition upd_period ::
  "ptr \<Rightarrow> nat \<Rightarrow> (VIOSND_ACX_PERIOD \<Rightarrow> VIOSND_ACX_PERIOD) \<Rightarrow> ('q, 'e) VIOSND_ACX_DEVICE \<Rightarrow>
   ('q, 'e) VIOSND_ACX_DEVICE option" where
  "upd_period p i f d = do {
     x \<leftarrow> period_at d p i;
     Some (upd_stream p (\<lambda>s. s\<lparr>st_Periods := map_option (\<lambda>(b, ps). (b, ps[i := f x])) (st_Periods s)\<rparr>) d)
   }"

abbreviation (input) xrun :: "VIOSND_ACX_STREAM \<Rightarrow> VIOSND_ACX_STREAM" where
  "xrun \<equiv> (\<lambda>s. s\<lparr>st_XrunCount := st_XrunCount s + 1\<rparr>)"

section \<open>Packets and periods\<close>

abbreviation (input) VIOSND_MIN_PERIOD_COUNT :: u32 where "VIOSND_MIN_PERIOD_COUNT \<equiv> 2"
abbreviation (input) VIOSND_MAX_PERIOD_COUNT :: u32 where "VIOSND_MAX_PERIOD_COUNT \<equiv> 64"

definition ViosndClampPeriodCount :: "u32 \<Rightarrow> u32" where
  "ViosndClampPeriodCount n =
     (if n < VIOSND_MIN_PERIOD_COUNT then 4
      else if VIOSND_MAX_PERIOD_COUNT < n then VIOSND_MAX_PERIOD_COUNT else n)"

text \<open>A pointer into a packet buffer: the buffer, 0 for NULL, and the offset.\<close>

definition ViosndGetPacketVa :: "VIOSND_ACX_STREAM \<Rightarrow> u32 \<Rightarrow> (ptr \<times> nat) option" where
  "ViosndGetPacketVa s packet =
     (case st_PacketBuffers s of
        None \<Rightarrow> Some (0, 0)
      | Some (_, bs) \<Rightarrow>
          if st_PacketCount s = 0 \<or> st_PacketSize s = 0 then Some (0, 0)
          else do {
            let i = unat (packet mod st_PacketCount s);
            b \<leftarrow> read_at bs i;
            if b = 0 then Some (0, 0)
            else do {
              (_, packets) \<leftarrow> st_Packets s;
              (off, _) \<leftarrow> read_at packets i;
              Some (b, unat off)
            }
          })"

fun free_periods ::
  "('q, 'e) acx_kernel \<Rightarrow> VIOSND_ACX_PERIOD list \<Rightarrow> ('q, 'e) VIOSND_ACX_DEVICE \<Rightarrow> ('q, 'e) VIOSND_ACX_DEVICE" where
  "free_periods K [] d = d"
| "free_periods K (x # xs) d = free_periods K xs
     (ViosndAcxFreeDma K (pd_StatusVa x) (ViosndAcxFreeDma K (pd_AudioVa x) (ViosndAcxFreeDma K (pd_RequestVa x) d)))"

definition ViosndFreeStreamPeriods ::
  "('q, 'e) acx_kernel \<Rightarrow> ptr \<Rightarrow> ('q, 'e) VIOSND_ACX_DEVICE \<Rightarrow> ('q, 'e) VIOSND_ACX_DEVICE option" where
  "ViosndFreeStreamPeriods K p d = do {
     s \<leftarrow> acx_streams d p;
     case st_Periods s of
       None \<Rightarrow> Some d
     | Some (block, ps) \<Rightarrow>
         if length ps < unat (st_PeriodCount s) then None
         else do {
           d \<leftarrow> ExFreePoolWithTag block (free_periods K (take (unat (st_PeriodCount s)) ps) d);
           Some (upd_stream p (\<lambda>s. s\<lparr>st_Periods := None, st_PeriodCount := 0, st_PeriodBytes := 0, st_BufferBytes := 0\<rparr>) d)
         }
   }"

abbreviation (input) zero_period :: VIOSND_ACX_PERIOD where
  "zero_period \<equiv> \<lparr>pd_PacketNumber = 0, pd_Length = 0, pd_RequestVa = 0, pd_RequestPa = 0, pd_RequestLength = 0,
     pd_AudioVa = 0, pd_AudioPa = 0, pd_StatusVa = 0, pd_StatusPa = 0, pd_InFlight = False, pd_Ready = False\<rparr>"

text \<open>The loop of \<open>ViosndPrepareStreamPeriods\<close>.  The physical address of a buffer that was not allocated stays 0.\<close>

fun alloc_periods ::
  "('q, 'e) acx_kernel \<Rightarrow> ptr \<Rightarrow> bool \<Rightarrow> u32 \<Rightarrow> nat list \<Rightarrow> ('q, 'e) VIOSND_ACX_DEVICE \<Rightarrow>
   (NTSTATUS \<times> ('q, 'e) VIOSND_ACX_DEVICE) option" where
  "alloc_periods K p capture periodBytes [] d = Some (STATUS_SUCCESS, d)"
| "alloc_periods K p capture periodBytes (i # is) d = do {
     let len = (if capture then word_of_nat sizeof_PCM_XFER else word_of_nat sizeof_PCM_XFER + periodBytes);
     let ((reqVa, reqPa), d) = ViosndAcxAllocDma K len d;
     let ((statusVa, statusPa), d) = ViosndAcxAllocDma K (word_of_nat sizeof_PCM_STATUS) d;
     let ((audioVa, audioPa), d) = (if capture then ViosndAcxAllocDma K periodBytes d else ((0, 0), d));
     d \<leftarrow> upd_period p i (\<lambda>x. x\<lparr>pd_Length := periodBytes, pd_RequestLength := len, pd_RequestVa := reqVa, pd_RequestPa := reqPa,
            pd_StatusVa := statusVa, pd_StatusPa := statusPa, pd_AudioVa := audioVa, pd_AudioPa := audioPa\<rparr>) d;
     if reqVa = 0 \<or> statusVa = 0 \<or> capture \<and> audioVa = 0 then do {
       d \<leftarrow> ViosndFreeStreamPeriods K p d;
       Some (STATUS_INSUFFICIENT_RESOURCES, d)
     }
     else alloc_periods K p capture periodBytes is d
   }"

abbreviation (input) sizeof_PERIOD :: nat where "sizeof_PERIOD \<equiv> 88"

definition ViosndPrepareStreamPeriods ::
  "('q, 'e) acx_kernel \<Rightarrow> ptr \<Rightarrow> ('q, 'e) VIOSND_ACX_DEVICE \<Rightarrow> (NTSTATUS \<times> ('q, 'e) VIOSND_ACX_DEVICE) option" where
  "ViosndPrepareStreamPeriods K p d = do {
     s \<leftarrow> acx_streams d p;
     if st_Periods s \<noteq> None then Some (STATUS_SUCCESS, d)
     else
       let periodCount = ViosndClampPeriodCount (st_PacketCount s);
           periodBytes = (if st_PacketSize s \<noteq> 0 then st_PacketSize s else VIOSND_DEFAULT_PERIOD_BYTES)
       in if periodBytes = 0 \<or> 256 * 1024 < periodBytes then Some (STATUS_INVALID_PARAMETER, d)
          else
            let (block, d) = wdf_pool_alloc (wdf K) d (unat periodCount * sizeof_PERIOD)
            in if block = 0 then Some (STATUS_INSUFFICIENT_RESOURCES, d)
               else alloc_periods K p (st_Capture s) periodBytes [0..<unat periodCount]
                 (upd_stream p (\<lambda>s. s\<lparr>st_Periods := Some (block, replicate (unat periodCount) zero_period),
                    st_PeriodCount := periodCount, st_PeriodBytes := periodBytes, st_BufferBytes := periodBytes * periodCount\<rparr>) d)
   }"

fun free_mdls :: "('q, 'e) acx_kernel \<Rightarrow> ptr list \<Rightarrow> ('q, 'e) VIOSND_ACX_DEVICE \<Rightarrow> ('q, 'e) VIOSND_ACX_DEVICE" where
  "free_mdls K [] d = d"
| "free_mdls K (m # ms) d = free_mdls K ms (if m \<noteq> 0 then d\<lparr>wdf_env := IoFreeMdl K (wdf_env d) m\<rparr> else d)"

fun free_packets :: "ptr list \<Rightarrow> ('q, 'e) VIOSND_ACX_DEVICE \<Rightarrow> ('q, 'e) VIOSND_ACX_DEVICE option" where
  "free_packets [] d = Some d"
| "free_packets (b # bs) d =
     (if b = 0 then free_packets bs d
      else do {
        d \<leftarrow> ExFreePoolWithTag b d;
        free_packets bs (d\<lparr>packet_memory := (packet_memory d)(b := None)\<rparr>)
      })"

abbreviation (input) free_array ::
  "(ptr \<times> 'a list) option \<Rightarrow> ('q, 'e) VIOSND_ACX_DEVICE \<Rightarrow> ('q, 'e) VIOSND_ACX_DEVICE option" where
  "free_array a d \<equiv> (case a of None \<Rightarrow> Some d | Some (block, _) \<Rightarrow> ExFreePoolWithTag block d)"

text \<open>The first \<open>PacketCount\<close> entries of the arrays are released.\<close>

definition ViosndFreeRtPacketStorage ::
  "('q, 'e) acx_kernel \<Rightarrow> ptr \<Rightarrow> ('q, 'e) VIOSND_ACX_DEVICE \<Rightarrow> ('q, 'e) VIOSND_ACX_DEVICE option" where
  "ViosndFreeRtPacketStorage K p d =
     (if p = 0 then Some d
      else do {
        s \<leftarrow> acx_streams d p;
        let n = unat (st_PacketCount s);
        d \<leftarrow> (case st_PacketMdls s of None \<Rightarrow> Some d
              | Some (block, ms) \<Rightarrow> if length ms < n then None else ExFreePoolWithTag block (free_mdls K (take n ms) d));
        d \<leftarrow> (case st_PacketBuffers s of None \<Rightarrow> Some d
              | Some (block, bs) \<Rightarrow> if length bs < n then None
                  else do { d \<leftarrow> free_packets (take n bs) d; ExFreePoolWithTag block d });
        d \<leftarrow> free_array (st_Packets s) d;
        d \<leftarrow> free_array (st_RenderReadyQueue s) d;
        Some (upd_stream p (\<lambda>s. s\<lparr>st_PacketMdls := None, st_PacketBuffers := None, st_Packets := None,
          st_RenderReadyQueue := None, st_PacketCount := 0, st_PacketSize := 0, st_PacketAllocBytes := 0,
          st_FirstPacketOffset := 0, st_RenderReadyCapacity := 0, st_RenderReadyHead := 0, st_RenderReadyTail := 0,
          st_RenderReadyCount := 0\<rparr>) d)
      })"

definition ViosndConfigurePcmStream ::
  "('q, 'e) acx_kernel \<Rightarrow> ptr \<Rightarrow> ('q, 'e) VIOSND_ACX_DEVICE \<Rightarrow> (NTSTATUS \<times> ('q, 'e) VIOSND_ACX_DEVICE) option" where
  "ViosndConfigurePcmStream K p d = do {
     s \<leftarrow> acx_streams d p;
     if st_Prepared s then Some (STATUS_SUCCESS, d)
     else do {
       (status, d) \<leftarrow> ViosndPrepareStreamPeriods K p d;
       if \<not> NT_SUCCESS status then Some (status, d)
       else do {
         s \<leftarrow> acx_streams d p;
         (status, d) \<leftarrow> ViosndAcxControlStatusCommand K (bytes_of_SET_PARAMS (ViosndBuildSetParams (st_StreamId s)
           (ViosndGetDefaultPcmFormat\<lparr>PeriodBytes := st_PeriodBytes s, BufferBytes := st_BufferBytes s\<rparr>))) d;
         if \<not> NT_SUCCESS status then Some (status, d)
         else do {
           (status, d) \<leftarrow> ViosndAcxPcmCommand K (st_StreamId s) VIRTIO_SND_R_PCM_PREPARE d;
           Some (status, if NT_SUCCESS status
             then upd_stream p (\<lambda>s. s\<lparr>st_Prepared := True, st_PacketsCompleted := 0, st_NextCapturePacket := 0, st_PositionBytes := 0\<rparr>) d
             else d)
         }
       }
     }
   }"

section \<open>The queue of ready packets\<close>

text \<open>A full queue drops its oldest packet and counts an xrun.  \<open>None\<close>: an index outside the array, or no capacity.\<close>

definition ViosndQueueRenderPacket_stream :: "u32 \<Rightarrow> VIOSND_ACX_STREAM \<Rightarrow> (NTSTATUS \<times> VIOSND_ACX_STREAM) option" where
  "ViosndQueueRenderPacket_stream packet s =
     (case st_RenderReadyQueue s of
        None \<Rightarrow> Some (STATUS_DEVICE_NOT_READY, s)
      | Some (block, q) \<Rightarrow>
          let cap = st_RenderReadyCapacity s
          in if cap = 0 then Some (STATUS_DEVICE_NOT_READY, s)
             else
               let s = (if cap \<le> st_RenderReadyCount s
                        then s\<lparr>st_RenderReadyHead := (st_RenderReadyHead s + 1) mod cap,
                               st_RenderReadyCount := st_RenderReadyCount s - 1, st_XrunCount := st_XrunCount s + 1\<rparr> else s)
               in do {
                 q \<leftarrow> write_at q (unat (st_RenderReadyTail s)) packet;
                 Some (STATUS_SUCCESS, s\<lparr>st_RenderReadyQueue := Some (block, q),
                   st_RenderReadyTail := (st_RenderReadyTail s + 1) mod cap, st_RenderReadyCount := st_RenderReadyCount s + 1\<rparr>)
               })"

definition ViosndPeekRenderPacket :: "VIOSND_ACX_STREAM \<Rightarrow> u32 option option" where
  "ViosndPeekRenderPacket s =
     (if st_RenderReadyCount s = 0 then Some None
      else do {
        (_, q) \<leftarrow> st_RenderReadyQueue s;
        packet \<leftarrow> read_at q (unat (st_RenderReadyHead s));
        Some (Some packet)
      })"

definition ViosndPopRenderPacket :: "VIOSND_ACX_STREAM \<Rightarrow> VIOSND_ACX_STREAM option" where
  "ViosndPopRenderPacket s =
     (if st_RenderReadyCount s = 0 then Some s
      else if st_RenderReadyCapacity s = 0 then None
      else Some (s\<lparr>st_RenderReadyHead := (st_RenderReadyHead s + 1) mod st_RenderReadyCapacity s,
                  st_RenderReadyCount := st_RenderReadyCount s - 1\<rparr>))"

definition ViosndClearRenderQueue :: "VIOSND_ACX_STREAM \<Rightarrow> VIOSND_ACX_STREAM" where
  "ViosndClearRenderQueue s =
     (if st_Capture s then s else s\<lparr>st_RenderReadyHead := 0, st_RenderReadyTail := 0, st_RenderReadyCount := 0\<rparr>)"

definition ViosndQueueRenderPacket ::
  "ptr \<Rightarrow> u32 \<Rightarrow> ('q, 'e) VIOSND_ACX_DEVICE \<Rightarrow> (NTSTATUS \<times> ('q, 'e) VIOSND_ACX_DEVICE) option" where
  "ViosndQueueRenderPacket p packet d = do {
     s \<leftarrow> acx_streams d p;
     (status, s) \<leftarrow> ViosndQueueRenderPacket_stream packet s;
     Some (status, d\<lparr>acx_streams := (acx_streams d)(p \<mapsto> s)\<rparr>)
   }"

section \<open>Submitting periods\<close>

text \<open>\<open>RtlCopyMemory\<close> between packet buffers, which the audio engine shares, and common buffers.\<close>

definition packet_read :: "('q, 'e) VIOSND_ACX_DEVICE \<Rightarrow> ptr \<times> nat \<Rightarrow> nat \<Rightarrow> u8 list option" where
  "packet_read d a n = do { buf \<leftarrow> packet_memory d (fst a); read_bytes (snd a) n buf }"

definition packet_write ::
  "ptr \<times> nat \<Rightarrow> u8 list \<Rightarrow> ('q, 'e) VIOSND_ACX_DEVICE \<Rightarrow> ('q, 'e) VIOSND_ACX_DEVICE option" where
  "packet_write a bs d = do {
     buf \<leftarrow> packet_memory d (fst a);
     buf \<leftarrow> write_bytes (snd a) bs buf;
     Some (d\<lparr>packet_memory := (packet_memory d)(fst a \<mapsto> buf)\<rparr>)
   }"

definition ViosndSubmitRenderPacket ::
  "('q, 'e) acx_kernel \<Rightarrow> ptr \<Rightarrow> u32 \<Rightarrow> ('q, 'e) VIOSND_ACX_DEVICE \<Rightarrow> (NTSTATUS \<times> ('q, 'e) VIOSND_ACX_DEVICE) option" where
  "ViosndSubmitRenderPacket K p packet d = do {
     s \<leftarrow> acx_streams d p;
     if st_Capture s \<or> st_Periods s = None \<or> st_PeriodCount s = 0 \<or> st_PacketCount s = 0 \<or>
        acx_Queues d VIRTIO_SND_VQ_TX = None
     then Some (STATUS_DEVICE_NOT_READY, d)
     else do {
       (va, off) \<leftarrow> ViosndGetPacketVa s packet;
       (_, ps) \<leftarrow> st_Periods s;
       if va = 0 then Some (STATUS_DEVICE_NOT_READY, d)
       else if length ps < unat (st_PeriodCount s) then None
       else case first_index (\<lambda>x. \<not> pd_InFlight x) (take (unat (st_PeriodCount s)) ps) of
         None \<Rightarrow> Some (STATUS_DEVICE_BUSY, d)
       | Some i \<Rightarrow> do {
           let x = ps ! i;
           let n = unat (st_PeriodBytes s);
           d \<leftarrow> wdf_write (pd_RequestVa x) (replicate (unat (pd_RequestLength x)) 0) d;
           d \<leftarrow> wdf_write (pd_StatusVa x) (replicate sizeof_PCM_STATUS 0) d;
           d \<leftarrow> wdf_write (pd_RequestVa x) (le_bytes32 (st_StreamId s)) d;
           bytes \<leftarrow> packet_read d (va, off) n;
           d \<leftarrow> wdf_write (pd_RequestVa x + word_of_nat sizeof_PCM_XFER) bytes d;
           d \<leftarrow> upd_period p i (\<lambda>x. x\<lparr>pd_PacketNumber := ucast packet, pd_Length := st_PeriodBytes s, pd_Ready := False\<rparr>) d;
           (r, d) \<leftarrow> acx_add_buf K VIRTIO_SND_VQ_TX
             [\<lparr>sg_addr = pd_RequestPa x, sg_length = word_of_nat sizeof_PCM_XFER + st_PeriodBytes s\<rparr>,
              \<lparr>sg_addr = pd_StatusPa x, sg_length = word_of_nat sizeof_PCM_STATUS\<rparr>] 1 1 (APeriod p i) d;
           if r < 0 then Some (STATUS_DEVICE_BUSY, d)
           else do {
             d \<leftarrow> upd_period p i (\<lambda>x. x\<lparr>pd_InFlight := True\<rparr>) d;
             d \<leftarrow> acx_kick K VIRTIO_SND_VQ_TX d;
             Some (STATUS_SUCCESS, d)
           }
         }
     }
   }"

definition pop_ready :: "ptr \<Rightarrow> ('q, 'e) VIOSND_ACX_DEVICE \<Rightarrow> ('q, 'e) VIOSND_ACX_DEVICE option" where
  "pop_ready p d = do {
     s \<leftarrow> acx_streams d p;
     s \<leftarrow> ViosndPopRenderPacket s;
     Some (d\<lparr>acx_streams := (acx_streams d)(p \<mapsto> s)\<rparr>)
   }"

partial_function (option) pump_loop ::
  "('q, 'e) acx_kernel \<Rightarrow> ptr \<Rightarrow> ('q, 'e) VIOSND_ACX_DEVICE \<Rightarrow> ('q, 'e) VIOSND_ACX_DEVICE option" where
  "pump_loop K p d = do {
     s \<leftarrow> acx_streams d p;
     packet \<leftarrow> ViosndPeekRenderPacket s;
     case packet of
       None \<Rightarrow> Some d
     | Some packet \<Rightarrow> do {
         (status, d) \<leftarrow> ViosndSubmitRenderPacket K p packet d;
         if status = STATUS_DEVICE_BUSY then Some d
         else if \<not> NT_SUCCESS status then pop_ready p (upd_stream p xrun d)
         else do {
           d \<leftarrow> pop_ready p d;
           pump_loop K p d
         }
       }
   }"

definition ViosndPumpRenderQueue ::
  "('q, 'e) acx_kernel \<Rightarrow> ptr \<Rightarrow> ('q, 'e) VIOSND_ACX_DEVICE \<Rightarrow> ('q, 'e) VIOSND_ACX_DEVICE option" where
  "ViosndPumpRenderQueue K p d =
     (if p = 0 then Some d
      else do {
        s \<leftarrow> acx_streams d p;
        if st_Capture s \<or> \<not> st_Prepared s \<or> st_RenderPumpActive s then Some d
        else do {
          d \<leftarrow> pump_loop K p (upd_stream p (\<lambda>s. s\<lparr>st_RenderPumpActive := True\<rparr>) d);
          Some (upd_stream p (\<lambda>s. s\<lparr>st_RenderPumpActive := False\<rparr>) d)
        }
      })"

text \<open>The period is that of index \<open>i\<close> of the stream \<open>q\<close>.\<close>

definition ViosndSubmitCapturePeriod ::
  "('q, 'e) acx_kernel \<Rightarrow> ptr \<Rightarrow> ptr \<Rightarrow> nat \<Rightarrow> u64 \<Rightarrow> ('q, 'e) VIOSND_ACX_DEVICE \<Rightarrow>
   (NTSTATUS \<times> ('q, 'e) VIOSND_ACX_DEVICE) option" where
  "ViosndSubmitCapturePeriod K p q i packetNumber d = do {
     s \<leftarrow> acx_streams d p;
     if \<not> st_Capture s \<or> acx_Queues d VIRTIO_SND_VQ_RX = None then Some (STATUS_DEVICE_NOT_READY, d)
     else do {
       x \<leftarrow> period_at d q i;
       if pd_InFlight x then Some (STATUS_DEVICE_BUSY, d)
       else do {
         d \<leftarrow> wdf_write (pd_RequestVa x) (replicate (unat (pd_RequestLength x)) 0) d;
         d \<leftarrow> wdf_write (pd_AudioVa x) (replicate (unat (st_PeriodBytes s)) 0) d;
         d \<leftarrow> wdf_write (pd_StatusVa x) (replicate sizeof_PCM_STATUS 0) d;
         d \<leftarrow> wdf_write (pd_RequestVa x) (le_bytes32 (st_StreamId s)) d;
         d \<leftarrow> upd_period q i (\<lambda>x. x\<lparr>pd_PacketNumber := packetNumber, pd_Length := st_PeriodBytes s\<rparr>) d;
         (r, d) \<leftarrow> acx_add_buf K VIRTIO_SND_VQ_RX
           [\<lparr>sg_addr = pd_RequestPa x, sg_length = word_of_nat sizeof_PCM_XFER\<rparr>,
            \<lparr>sg_addr = pd_AudioPa x, sg_length = st_PeriodBytes s\<rparr>,
            \<lparr>sg_addr = pd_StatusPa x, sg_length = word_of_nat sizeof_PCM_STATUS\<rparr>] 1 2 (APeriod q i) d;
         if r < 0 then Some (STATUS_DEVICE_BUSY, d)
         else do {
           d \<leftarrow> upd_period q i (\<lambda>x. x\<lparr>pd_InFlight := True\<rparr>) d;
           d \<leftarrow> acx_kick K VIRTIO_SND_VQ_RX d;
           Some (STATUS_SUCCESS, d)
         }
       }
     }
   }"

section \<open>Draining the queues\<close>

text \<open>\<open>buffer->EventVa->hdr.code\<close> is read from the buffer.\<close>

definition count_xrun :: "ptr \<Rightarrow> ('q, 'e) VIOSND_ACX_DEVICE \<Rightarrow> ('q, 'e) VIOSND_ACX_DEVICE option" where
  "count_xrun p d = (if p = 0 then Some d else do { s \<leftarrow> acx_streams d p; Some (upd_stream p xrun d) })"

partial_function (option) drain_events ::
  "('q, 'e) acx_kernel \<Rightarrow> ('q, 'e) VIOSND_ACX_DEVICE \<Rightarrow> ('q, 'e) VIOSND_ACX_DEVICE option" where
  "drain_events K d = do {
     (used, d) \<leftarrow> acx_get_buf K VIRTIO_SND_VQ_EVENT d;
     case used of
       None \<Rightarrow> Some d
     | Some (x, _) \<Rightarrow> (case x of
         AEvent i \<Rightarrow> do {
           b \<leftarrow> read_at (acx_EventBuffers d) i;
           code \<leftarrow> wdf_read d (EventVa b) sizeof_HDR;
           d \<leftarrow> (if le_word32 code = VIRTIO_SND_EVT_PCM_XRUN then do {
                  d \<leftarrow> count_xrun (RenderStream d) d;
                  count_xrun (CaptureStream d) d
                }
                else Some d);
           (_, d) \<leftarrow> ViosndAcxPostEventBufferLocked K i d;
           d \<leftarrow> acx_kick K VIRTIO_SND_VQ_EVENT d;
           drain_events K d
         }
       | _ \<Rightarrow> None)
   }"

definition ViosndDrainEventQueue ::
  "('q, 'e) acx_kernel \<Rightarrow> ('q, 'e) VIOSND_ACX_DEVICE \<Rightarrow> ('q, 'e) VIOSND_ACX_DEVICE option" where
  "ViosndDrainEventQueue K d = (if acx_Queues d VIRTIO_SND_VQ_EVENT = None then Some d else drain_events K d)"

text \<open>What a completed period does to the stream that is drained, and the notification of its packet.\<close>

definition complete_period ::
  "('q, 'e) acx_kernel \<Rightarrow> ptr \<Rightarrow> VIOSND_ACX_PERIOD \<Rightarrow> ('q, 'e) VIOSND_ACX_DEVICE \<Rightarrow> ('q, 'e) VIOSND_ACX_DEVICE option" where
  "complete_period K p x d = do {
     bytes \<leftarrow> wdf_read d (pd_StatusVa x) sizeof_PCM_STATUS;
     let st = pcm_status_of_bytes bytes;
     s \<leftarrow> acx_streams d p;
     let s = (if ps_status st \<noteq> VIRTIO_SND_S_OK then xrun s else s);
     let s = s\<lparr>st_LastLatencyBytes := ps_latency_bytes st\<rparr>;
     let s = (if st_PacketsCompleted s < pd_PacketNumber x + 1 then s\<lparr>st_PacketsCompleted := pd_PacketNumber x + 1\<rparr> else s);
     let s = s\<lparr>st_PositionBytes := st_PacketsCompleted s * ucast (st_PeriodBytes s)\<rparr>;
     let (qpc, e) = acx_counter K (wdf_env d);
     Some (d\<lparr>acx_streams := (acx_streams d)(p \<mapsto> s),
             wdf_env := AcxRtStreamNotifyPacketComplete K e p (pd_PacketNumber x) qpc\<rparr>)
   }"

partial_function (option) drain_render ::
  "('q, 'e) acx_kernel \<Rightarrow> ptr \<Rightarrow> ('q, 'e) VIOSND_ACX_DEVICE \<Rightarrow> ('q, 'e) VIOSND_ACX_DEVICE option" where
  "drain_render K p d = do {
     (used, d) \<leftarrow> acx_get_buf K VIRTIO_SND_VQ_TX d;
     case used of
       None \<Rightarrow> Some d
     | Some (x, _) \<Rightarrow> (case x of
         APeriod q i \<Rightarrow> do {
           d \<leftarrow> upd_period q i (\<lambda>x. x\<lparr>pd_InFlight := False\<rparr>) d;
           x \<leftarrow> period_at d q i;
           d \<leftarrow> complete_period K p x d;
           drain_render K p d
         }
       | _ \<Rightarrow> None)
   }"

definition ViosndDrainRenderQueue ::
  "('q, 'e) acx_kernel \<Rightarrow> ptr \<Rightarrow> ('q, 'e) VIOSND_ACX_DEVICE \<Rightarrow> ('q, 'e) VIOSND_ACX_DEVICE option" where
  "ViosndDrainRenderQueue K p d =
     (if acx_Queues d VIRTIO_SND_VQ_TX = None then Some d
      else do {
        d \<leftarrow> drain_render K p d;
        ViosndPumpRenderQueue K p d
      })"

partial_function (option) drain_capture ::
  "('q, 'e) acx_kernel \<Rightarrow> ptr \<Rightarrow> ('q, 'e) VIOSND_ACX_DEVICE \<Rightarrow> ('q, 'e) VIOSND_ACX_DEVICE option" where
  "drain_capture K p d = do {
     (used, d) \<leftarrow> acx_get_buf K VIRTIO_SND_VQ_RX d;
     case used of
       None \<Rightarrow> Some d
     | Some (x, _) \<Rightarrow> (case x of
         APeriod q i \<Rightarrow> do {
           d \<leftarrow> upd_period q i (\<lambda>x. x\<lparr>pd_InFlight := False\<rparr>) d;
           x \<leftarrow> period_at d q i;
           s \<leftarrow> acx_streams d p;
           (va, off) \<leftarrow> ViosndGetPacketVa s (ucast (pd_PacketNumber x));
           d \<leftarrow> (if va \<noteq> 0 then do {
                  bytes \<leftarrow> wdf_read d (pd_AudioVa x) (unat (st_PeriodBytes s));
                  packet_write (va, off) bytes d
                }
                else Some d);
           d \<leftarrow> complete_period K p x d;
           s \<leftarrow> acx_streams d p;
           d \<leftarrow> (if st_Running s then do {
                  (status, d) \<leftarrow> ViosndSubmitCapturePeriod K p q i (st_NextCapturePacket s) d;
                  Some (if NT_SUCCESS status
                    then upd_stream p (\<lambda>s. s\<lparr>st_NextCapturePacket := st_NextCapturePacket s + 1\<rparr>) d
                    else if status \<noteq> STATUS_DEVICE_BUSY then upd_stream p xrun d else d)
                }
                else Some d);
           drain_capture K p d
         }
       | _ \<Rightarrow> None)
   }"

definition ViosndDrainCaptureQueue ::
  "('q, 'e) acx_kernel \<Rightarrow> ptr \<Rightarrow> ('q, 'e) VIOSND_ACX_DEVICE \<Rightarrow> ('q, 'e) VIOSND_ACX_DEVICE option" where
  "ViosndDrainCaptureQueue K p d =
     (if acx_Queues d VIRTIO_SND_VQ_RX = None then Some d else drain_capture K p d)"

definition ViosndDrainStreamQueue ::
  "('q, 'e) acx_kernel \<Rightarrow> ptr \<Rightarrow> ('q, 'e) VIOSND_ACX_DEVICE \<Rightarrow> ('q, 'e) VIOSND_ACX_DEVICE option" where
  "ViosndDrainStreamQueue K p d =
     (if p = 0 then Some d
      else do {
        s \<leftarrow> acx_streams d p;
        if st_Capture s then ViosndDrainCaptureQueue K p d else ViosndDrainRenderQueue K p d
      })"

definition ViosndAcxDrainQueues ::
  "('q, 'e) acx_kernel \<Rightarrow> ('q, 'e) VIOSND_ACX_DEVICE \<Rightarrow> ('q, 'e) VIOSND_ACX_DEVICE option" where
  "ViosndAcxDrainQueues K d = do {
     d \<leftarrow> ViosndDrainEventQueue K d;
     d \<leftarrow> ViosndDrainStreamQueue K (RenderStream d) d;
     ViosndDrainStreamQueue K (CaptureStream d) d
   }"

section \<open>Stopping\<close>

definition ViosndStreamHasInFlight :: "ptr \<Rightarrow> ('q, 'e) VIOSND_ACX_DEVICE \<Rightarrow> bool option" where
  "ViosndStreamHasInFlight p d =
     (if p = 0 then Some False
      else do {
        s \<leftarrow> acx_streams d p;
        case st_Periods s of
          None \<Rightarrow> Some False
        | Some (_, ps) \<Rightarrow>
            if length ps < unat (st_PeriodCount s) then None
            else Some (list_ex pd_InFlight (take (unat (st_PeriodCount s)) ps))
      })"

text \<open>\<open>n\<close> milliseconds are left of the timeout.\<close>

fun wait_idle ::
  "('q, 'e) acx_kernel \<Rightarrow> ptr \<Rightarrow> nat \<Rightarrow> ('q, 'e) VIOSND_ACX_DEVICE \<Rightarrow> ('q, 'e) VIOSND_ACX_DEVICE option" where
  "wait_idle K p n d = do {
     d \<leftarrow> ViosndDrainStreamQueue K p d;
     busy \<leftarrow> ViosndStreamHasInFlight p d;
     if \<not> busy then Some d
     else case n of 0 \<Rightarrow> Some (upd_stream p xrun d) | Suc n \<Rightarrow> wait_idle K p n (acx_delay K d)
   }"

declare wait_idle.simps [simp del]

definition ViosndWaitForStreamIdle ::
  "('q, 'e) acx_kernel \<Rightarrow> ptr \<Rightarrow> u32 \<Rightarrow> ('q, 'e) VIOSND_ACX_DEVICE \<Rightarrow> ('q, 'e) VIOSND_ACX_DEVICE option" where
  "ViosndWaitForStreamIdle K p timeoutMs d = wait_idle K p (unat timeoutMs) d"

definition ViosndStopStream ::
  "('q, 'e) acx_kernel \<Rightarrow> ptr \<Rightarrow> bool \<Rightarrow> ('q, 'e) VIOSND_ACX_DEVICE \<Rightarrow> ('q, 'e) VIOSND_ACX_DEVICE option" where
  "ViosndStopStream K p release d =
     (if p = 0 then Some d
      else do {
        s \<leftarrow> acx_streams d p;
        let d = upd_stream p (\<lambda>s. s\<lparr>st_Running := False\<rparr>) d;
        if \<not> st_Prepared s then Some d
        else do {
          (_, d) \<leftarrow> ViosndAcxPcmCommand K (st_StreamId s) VIRTIO_SND_R_PCM_STOP d;
          let d = upd_stream p ViosndClearRenderQueue d;
          if release then do {
            (_, d) \<leftarrow> ViosndAcxPcmCommand K (st_StreamId s) VIRTIO_SND_R_PCM_RELEASE d;
            d \<leftarrow> ViosndWaitForStreamIdle K p 1000 d;
            Some (upd_stream p (\<lambda>s. s\<lparr>st_Prepared := False\<rparr>) d)
          }
          else ViosndWaitForStreamIdle K p 20 d
        }
      })"

definition ViosndAcxStopStreams ::
  "('q, 'e) acx_kernel \<Rightarrow> bool \<Rightarrow> ('q, 'e) VIOSND_ACX_DEVICE \<Rightarrow> ('q, 'e) VIOSND_ACX_DEVICE option" where
  "ViosndAcxStopStreams K release d = do {
     d \<leftarrow> ViosndStopStream K (RenderStream d) release d;
     d \<leftarrow> ViosndStopStream K (CaptureStream d) release d;
     ViosndAcxDrainQueues K d
   }"

end
