(* ===== verification/Acx_Circuit.thy ===== *)
theory Acx_Circuit
  imports Acx_Stream
begin

text \<open>
  The circuits of the ACX build and the callbacks of their elements and streams
  (\<open>viosnd/sys/ViosndAcxCircuit.cpp\<close>).  The framework's own calls are the record \<open>acx_framework\<close>.
\<close>

section \<open>Mute and volume\<close>

abbreviation (input) ACX_CHANNELS :: nat where "ACX_CHANNELS \<equiv> 2"
abbreviation (input) VIOSND_ALL_CHANNELS_ID :: u32 where "VIOSND_ALL_CHANNELS_ID \<equiv> MAXULONG"
abbreviation (input) VIOSND_VOLUME_MINIMUM :: "32 word" where "VIOSND_VOLUME_MINIMUM \<equiv> word_of_int (- 96 * 0x10000)"
abbreviation (input) VIOSND_VOLUME_MAXIMUM :: "32 word" where "VIOSND_VOLUME_MAXIMUM \<equiv> 0"

text \<open>The contexts are arrays of \<open>ACX_CHANNELS\<close> elements; a level is a LONG.\<close>

definition assign_channel :: "u32 \<Rightarrow> 'a \<Rightarrow> 'a list \<Rightarrow> (NTSTATUS \<times> 'a list) option" where
  "assign_channel channel v xs =
     (if channel = VIOSND_ALL_CHANNELS_ID
      then if length xs < ACX_CHANNELS then None
           else Some (STATUS_SUCCESS, replicate ACX_CHANNELS v @ drop ACX_CHANNELS xs)
      else if unat channel < ACX_CHANNELS
      then do { xs \<leftarrow> write_at xs (unat channel) v; Some (STATUS_SUCCESS, xs) }
      else Some (STATUS_INVALID_PARAMETER, xs))"

text \<open>\<open>None\<close> in the result: the value is not written.\<close>

definition retrieve_channel :: "u32 \<Rightarrow> 'a list \<Rightarrow> (NTSTATUS \<times> 'a option) option" where
  "retrieve_channel channel xs =
     (if channel = VIOSND_ALL_CHANNELS_ID then do { v \<leftarrow> read_at xs 0; Some (STATUS_SUCCESS, Some v) }
      else if unat channel < ACX_CHANNELS then do { v \<leftarrow> read_at xs (unat channel); Some (STATUS_SUCCESS, Some v) }
      else Some (STATUS_INVALID_PARAMETER, None))"

definition ViosndEvtMuteAssignState :: "u32 \<Rightarrow> u32 \<Rightarrow> u32 list \<Rightarrow> (NTSTATUS \<times> u32 list) option" where
  "ViosndEvtMuteAssignState channel state xs = assign_channel channel state xs"

definition ViosndEvtMuteRetrieveState :: "u32 \<Rightarrow> u32 list \<Rightarrow> (NTSTATUS \<times> u32 option) option" where
  "ViosndEvtMuteRetrieveState channel xs = retrieve_channel channel xs"

definition ViosndEvtVolumeAssignLevel :: "u32 \<Rightarrow> 32 word \<Rightarrow> 32 word list \<Rightarrow> (NTSTATUS \<times> 32 word list) option" where
  "ViosndEvtVolumeAssignLevel channel level xs =
     (if level <s VIOSND_VOLUME_MINIMUM \<or> VIOSND_VOLUME_MAXIMUM <s level then Some (STATUS_INVALID_PARAMETER, xs)
      else assign_channel channel level xs)"

definition ViosndEvtRampedVolumeAssignLevel ::
  "u32 \<Rightarrow> 32 word \<Rightarrow> 32 word list \<Rightarrow> (NTSTATUS \<times> 32 word list) option" where
  "ViosndEvtRampedVolumeAssignLevel channel level xs = ViosndEvtVolumeAssignLevel channel level xs"

definition ViosndEvtVolumeRetrieveLevel :: "u32 \<Rightarrow> 32 word list \<Rightarrow> (NTSTATUS \<times> 32 word option) option" where
  "ViosndEvtVolumeRetrieveLevel channel xs = retrieve_channel channel xs"

section \<open>Circuits\<close>

text \<open>
  A call gives its status or its object, 0 for NULL.  \<open>AcxPinCreate\<close> receives the role of the pin,
  as its configuration does.
\<close>

record 'e acx_framework =
  AcxCircuitInitAllocate :: "'e \<Rightarrow> ptr \<times> 'e"
  AcxCircuitInitFree :: "ptr \<Rightarrow> 'e \<Rightarrow> 'e"
  AcxCircuitInitAssignName :: "ptr \<Rightarrow> bool \<Rightarrow> 'e \<Rightarrow> NTSTATUS \<times> 'e"
  AcxCircuitInitAssignAcxCreateStreamCallback :: "ptr \<Rightarrow> 'e \<Rightarrow> NTSTATUS \<times> 'e"
  AcxCircuitCreate :: "ptr \<Rightarrow> 'e \<Rightarrow> (NTSTATUS \<times> ptr) \<times> 'e"
  AcxPinCreate :: "ptr \<Rightarrow> bool \<Rightarrow> VIOSND_ACX_PIN_ROLE \<Rightarrow> 'e \<Rightarrow> (NTSTATUS \<times> ptr) \<times> 'e"
  AcxDataFormatCreate :: "ptr \<Rightarrow> 'e \<Rightarrow> (NTSTATUS \<times> ptr) \<times> 'e"
  AcxPinGetRawDataFormatList :: "ptr \<Rightarrow> 'e \<Rightarrow> ptr \<times> 'e"
  AcxDataFormatListAddDataFormat :: "ptr \<Rightarrow> ptr \<Rightarrow> 'e \<Rightarrow> NTSTATUS \<times> 'e"
  AcxJackCreate :: "ptr \<Rightarrow> 'e \<Rightarrow> (NTSTATUS \<times> ptr) \<times> 'e"
  AcxPinAddJacks :: "ptr \<Rightarrow> ptr \<Rightarrow> 'e \<Rightarrow> NTSTATUS \<times> 'e"
  AcxCircuitAddPins :: "ptr \<Rightarrow> ptr list \<Rightarrow> 'e \<Rightarrow> NTSTATUS \<times> 'e"
  AcxDeviceAddCircuit :: "ptr \<Rightarrow> 'e \<Rightarrow> NTSTATUS \<times> 'e"
  AcxDeviceRemoveCircuit :: "ptr \<Rightarrow> 'e \<Rightarrow> NTSTATUS \<times> 'e"
  AcxStreamInitAssignAcxStreamCallbacks :: "'e \<Rightarrow> NTSTATUS \<times> 'e"
  AcxStreamInitAssignAcxRtStreamCallbacks :: "bool \<Rightarrow> 'e \<Rightarrow> NTSTATUS \<times> 'e"
  AcxStreamInitSetAcxRtStreamSupportsNotifications :: "'e \<Rightarrow> 'e"
  AcxRtStreamCreate :: "ptr \<Rightarrow> 'e \<Rightarrow> (NTSTATUS \<times> ptr) \<times> 'e"
  AcxDeviceInitInitialize :: "'e \<Rightarrow> NTSTATUS \<times> 'e"
  WdfDeviceCreate :: "'e \<Rightarrow> NTSTATUS \<times> 'e"
  AcxDeviceInitialize :: "'e \<Rightarrow> NTSTATUS \<times> 'e"
  WdfInterruptCreate :: "'e \<Rightarrow> (NTSTATUS \<times> ptr) \<times> 'e"
  WdfWaitLockCreate :: "'e \<Rightarrow> NTSTATUS \<times> 'e"
  WdfSpinLockCreate_acx :: "'e \<Rightarrow> NTSTATUS \<times> 'e"

definition ViosndAssignDefaultFormat ::
  "'e acx_framework \<Rightarrow> ptr \<Rightarrow> ptr \<Rightarrow> ('q, 'e) VIOSND_ACX_DEVICE \<Rightarrow> NTSTATUS \<times> ('q, 'e) VIOSND_ACX_DEVICE" where
  "ViosndAssignDefaultFormat F circuit pin d =
     (let ((status, format), d) = wdf_call (AcxDataFormatCreate F circuit) d
      in if \<not> NT_SUCCESS status then (status, d)
         else
           let (formats, d) = wdf_call (AcxPinGetRawDataFormatList F pin) d
           in if formats = 0 then (STATUS_INSUFFICIENT_RESOURCES, d)
              else
                let (status, d) = wdf_call (AcxDataFormatListAddDataFormat F formats format) d
                in (if NT_SUCCESS status then STATUS_SUCCESS else status, d))"

text \<open>A jack is not essential: every path succeeds.\<close>

definition ViosndAddBridgeJack ::
  "'e acx_framework \<Rightarrow> ptr \<Rightarrow> ('q, 'e) VIOSND_ACX_DEVICE \<Rightarrow> NTSTATUS \<times> ('q, 'e) VIOSND_ACX_DEVICE" where
  "ViosndAddBridgeJack F pin d =
     (let ((status, jack), d) = wdf_call (AcxJackCreate F pin) d
      in if \<not> NT_SUCCESS status then (STATUS_SUCCESS, d)
         else let (status, d) = wdf_call (AcxPinAddJacks F pin jack) d in (STATUS_SUCCESS, d))"

definition ViosndAddControlElements :: "('q, 'e) VIOSND_ACX_DEVICE \<Rightarrow> NTSTATUS \<times> ('q, 'e) VIOSND_ACX_DEVICE" where
  "ViosndAddControlElements d = (STATUS_SUCCESS, d)"

definition create_pin ::
  "'e acx_framework \<Rightarrow> ptr \<Rightarrow> bool \<Rightarrow> VIOSND_ACX_PIN_ROLE \<Rightarrow> ('q, 'e) VIOSND_ACX_DEVICE \<Rightarrow>
   (NTSTATUS \<times> ptr) \<times> ('q, 'e) VIOSND_ACX_DEVICE" where
  "create_pin F circuit capture role d =
     (let ((status, pin), d) = wdf_call (AcxPinCreate F circuit capture role) d
      in ((status, pin), if NT_SUCCESS status then d\<lparr>acx_pins := (acx_pins d)(pin \<mapsto> role)\<rparr> else d))"

text \<open>The pins of a circuit that has been created.\<close>

definition circuit_pins ::
  "'e acx_framework \<Rightarrow> bool \<Rightarrow> ptr \<Rightarrow> ('q, 'e) VIOSND_ACX_DEVICE \<Rightarrow> NTSTATUS \<times> ('q, 'e) VIOSND_ACX_DEVICE" where
  "circuit_pins F capture circuit d =
     (let ((status, host), d) = create_pin F circuit capture ViosndAcxPinRoleHost d
      in if \<not> NT_SUCCESS status then (status, d)
         else let (status, d) = ViosndAssignDefaultFormat F circuit host d
         in if \<not> NT_SUCCESS status then (status, d)
         else let ((status, bridge), d) = create_pin F circuit capture ViosndAcxPinRoleBridge d
         in if \<not> NT_SUCCESS status then (status, d)
         else let (status, d) = ViosndAddBridgeJack F bridge d
         in if \<not> NT_SUCCESS status then (status, d)
         else wdf_call (AcxCircuitAddPins F circuit [host, bridge]) d)"

text \<open>The status with \<open>*Circuit\<close>.\<close>

definition ViosndAcxCreateCircuit ::
  "'e acx_framework \<Rightarrow> bool \<Rightarrow> ('q, 'e) VIOSND_ACX_DEVICE \<Rightarrow> (NTSTATUS \<times> ptr) \<times> ('q, 'e) VIOSND_ACX_DEVICE" where
  "ViosndAcxCreateCircuit F capture d =
     (let (init, d) = wdf_call (AcxCircuitInitAllocate F) d
      in if init = 0 then ((STATUS_INSUFFICIENT_RESOURCES, 0), d)
         else
           let (status, d) = wdf_call (AcxCircuitInitAssignName F init capture) d;
               (status, d) = (if NT_SUCCESS status
                              then wdf_call (AcxCircuitInitAssignAcxCreateStreamCallback F init) d else (status, d))
           in if \<not> NT_SUCCESS status then ((status, 0), d\<lparr>wdf_env := AcxCircuitInitFree F init (wdf_env d)\<rparr>)
              else
                let ((status, circuit), d) = wdf_call (AcxCircuitCreate F init) d
                in if \<not> NT_SUCCESS status then ((status, 0), d\<lparr>wdf_env := AcxCircuitInitFree F init (wdf_env d)\<rparr>)
                   else
                     let (status, d) = ViosndAddControlElements d
                     in if \<not> NT_SUCCESS status then ((status, 0), d)
                        else
                          let (status, d) = circuit_pins F capture circuit d
                          in if \<not> NT_SUCCESS status then ((status, 0), d)
                             else ((STATUS_SUCCESS, circuit), d))"

section \<open>Creating and deleting a stream\<close>

definition zero_stream :: "u32 \<Rightarrow> bool \<Rightarrow> VIOSND_ACX_STREAM" where
  "zero_stream streamId capture =
     \<lparr>st_StreamId = streamId, st_Capture = capture, st_Prepared = False, st_Running = False, st_PacketCount = 0,
      st_PacketSize = 0, st_Packets = None, st_PacketBuffers = None, st_PacketMdls = None, st_PacketAllocBytes = 0,
      st_FirstPacketOffset = 0, st_Periods = None, st_PeriodCount = 0, st_PeriodBytes = 0, st_BufferBytes = 0,
      st_RenderReadyQueue = None, st_RenderReadyCapacity = 0, st_RenderReadyHead = 0, st_RenderReadyTail = 0,
      st_RenderReadyCount = 0, st_RenderPumpActive = False, st_PacketsCompleted = 0, st_NextCapturePacket = 0,
      st_PositionBytes = 0, st_LastLatencyBytes = 0, st_XrunCount = 0, st_CurrentPacketQueryCount = 0,
      st_PresentationQueryCount = 0\<rparr>"

definition ViosndEvtCircuitCreateStream ::
  "'e acx_framework \<Rightarrow> ptr \<Rightarrow> ptr \<Rightarrow> ('q, 'e) VIOSND_ACX_DEVICE \<Rightarrow> NTSTATUS \<times> ('q, 'e) VIOSND_ACX_DEVICE" where
  "ViosndEvtCircuitCreateStream F circuit pin d =
     (if acx_pins d pin \<noteq> Some ViosndAcxPinRoleHost then (STATUS_INVALID_DEVICE_REQUEST, d)
      else if circuit \<noteq> CaptureCircuit d \<and> circuit \<noteq> RenderCircuit d then (STATUS_INVALID_DEVICE_REQUEST, d)
      else
        let capture = (circuit = CaptureCircuit d);
            streamId = (if capture then CaptureStreamId (acx_Streams d) else RenderStreamId (acx_Streams d));
            (status, d) = wdf_call (AcxStreamInitAssignAcxStreamCallbacks F) d
        in if \<not> NT_SUCCESS status then (status, d)
           else
             let (status, d) = wdf_call (AcxStreamInitAssignAcxRtStreamCallbacks F capture) d
             in if \<not> NT_SUCCESS status then (status, d)
                else
                  let d = d\<lparr>wdf_env := AcxStreamInitSetAcxRtStreamSupportsNotifications F (wdf_env d)\<rparr>;
                      ((status, p), d) = wdf_call (AcxRtStreamCreate F circuit) d
                  in if \<not> NT_SUCCESS status then (status, d)
                     else
                       let d = d\<lparr>acx_streams := (acx_streams d)(p \<mapsto> zero_stream streamId capture)\<rparr>
                       in (STATUS_SUCCESS, if capture then d\<lparr>CaptureStream := p\<rparr> else d\<lparr>RenderStream := p\<rparr>))"

definition ViosndEvtStreamCleanup ::
  "('q, 'e) acx_kernel \<Rightarrow> ptr \<Rightarrow> ('q, 'e) VIOSND_ACX_DEVICE \<Rightarrow> ('q, 'e) VIOSND_ACX_DEVICE option" where
  "ViosndEvtStreamCleanup K p d = do {
     s \<leftarrow> acx_streams d p;
     let d = (if st_Capture s \<and> CaptureStream d = p then d\<lparr>CaptureStream := 0\<rparr>
              else if \<not> st_Capture s \<and> RenderStream d = p then d\<lparr>RenderStream := 0\<rparr> else d);
     ViosndFreeStreamPeriods K p d
   }"

section \<open>Preparing, running and pausing\<close>

definition ViosndEvtStreamPrepareHardware ::
  "('q, 'e) acx_kernel \<Rightarrow> ptr \<Rightarrow> ('q, 'e) VIOSND_ACX_DEVICE \<Rightarrow> (NTSTATUS \<times> ('q, 'e) VIOSND_ACX_DEVICE) option" where
  "ViosndEvtStreamPrepareHardware K p d = do {
     (status, d) \<leftarrow> ViosndConfigurePcmStream K p d;
     d \<leftarrow> (if \<not> NT_SUCCESS status then ViosndFreeStreamPeriods K p d else Some d);
     Some (status, d)
   }"

definition ViosndEvtStreamReleaseHardware ::
  "('q, 'e) acx_kernel \<Rightarrow> ptr \<Rightarrow> ('q, 'e) VIOSND_ACX_DEVICE \<Rightarrow> (NTSTATUS \<times> ('q, 'e) VIOSND_ACX_DEVICE) option" where
  "ViosndEvtStreamReleaseHardware K p d = do {
     d \<leftarrow> ViosndStopStream K p True d;
     d \<leftarrow> ViosndAcxDrainQueues K d;
     d \<leftarrow> ViosndFreeStreamPeriods K p d;
     Some (STATUS_SUCCESS, d)
   }"

text \<open>The loop that gives the capture periods to the device; a busy period is skipped.\<close>

fun submit_capture ::
  "('q, 'e) acx_kernel \<Rightarrow> ptr \<Rightarrow> nat list \<Rightarrow> ('q, 'e) VIOSND_ACX_DEVICE \<Rightarrow>
   (NTSTATUS \<times> ('q, 'e) VIOSND_ACX_DEVICE) option" where
  "submit_capture K p [] d = Some (STATUS_SUCCESS, d)"
| "submit_capture K p (i # is) d = do {
     s \<leftarrow> acx_streams d p;
     (status, d) \<leftarrow> ViosndSubmitCapturePeriod K p p i (st_NextCapturePacket s) d;
     if status = STATUS_DEVICE_BUSY then submit_capture K p is d
     else if \<not> NT_SUCCESS status then Some (status, d)
     else submit_capture K p is (upd_stream p (\<lambda>s. s\<lparr>st_NextCapturePacket := st_NextCapturePacket s + 1\<rparr>) d)
   }"

definition ViosndEvtStreamRun ::
  "('q, 'e) acx_kernel \<Rightarrow> ptr \<Rightarrow> ('q, 'e) VIOSND_ACX_DEVICE \<Rightarrow> (NTSTATUS \<times> ('q, 'e) VIOSND_ACX_DEVICE) option" where
  "ViosndEvtStreamRun K p d = do {
     s \<leftarrow> acx_streams d p;
     if st_Running s then Some (STATUS_SUCCESS, d)
     else do {
       (status, d) \<leftarrow> (if \<not> st_Prepared s then ViosndConfigurePcmStream K p d else Some (STATUS_SUCCESS, d));
       if \<not> NT_SUCCESS status then Some (status, d)
       else do {
         s \<leftarrow> acx_streams d p;
         (status, d) \<leftarrow>
           (if st_Capture s then submit_capture K p [0..<unat (st_PeriodCount s)] d
            else map_option (Pair STATUS_SUCCESS) (ViosndPumpRenderQueue K p d));
         if \<not> NT_SUCCESS status then Some (status, d)
         else do {
           (status, d) \<leftarrow> ViosndAcxPcmCommand K (st_StreamId s) VIRTIO_SND_R_PCM_START d;
           if \<not> NT_SUCCESS status then Some (status, upd_stream p (\<lambda>s. s\<lparr>st_Running := False\<rparr>) d)
           else do {
             let d = upd_stream p (\<lambda>s. s\<lparr>st_Running := True\<rparr>) d;
             d \<leftarrow> (if \<not> st_Capture s then ViosndPumpRenderQueue K p d else Some d);
             Some (STATUS_SUCCESS, d)
           }
         }
       }
     }
   }"

definition ViosndEvtStreamPause ::
  "('q, 'e) acx_kernel \<Rightarrow> ptr \<Rightarrow> ('q, 'e) VIOSND_ACX_DEVICE \<Rightarrow> (NTSTATUS \<times> ('q, 'e) VIOSND_ACX_DEVICE) option" where
  "ViosndEvtStreamPause K p d = do {
     d \<leftarrow> ViosndStopStream K p False d;
     d \<leftarrow> ViosndAcxDrainQueues K d;
     Some (STATUS_SUCCESS, d)
   }"

text \<open>\<open>*FifoSize\<close> and \<open>*Delay\<close>.\<close>

definition ViosndEvtStreamGetHwLatency :: "NTSTATUS \<times> u32 \<times> u32" where
  "ViosndEvtStreamGetHwLatency = (STATUS_SUCCESS, VIOSND_DEFAULT_PERIOD_BYTES, 0)"

section \<open>Packet buffers\<close>

definition ViosndEvtStreamFreeRtPackets ::
  "('q, 'e) acx_kernel \<Rightarrow> ptr \<Rightarrow> ('q, 'e) VIOSND_ACX_DEVICE \<Rightarrow> ('q, 'e) VIOSND_ACX_DEVICE option" where
  "ViosndEvtStreamFreeRtPackets K p d = ViosndFreeRtPacketStorage K p d"

abbreviation (input) set_elem :: "nat \<Rightarrow> 'a \<Rightarrow> (ptr \<times> 'a list) option \<Rightarrow> (ptr \<times> 'a list) option" where
  "set_elem i v \<equiv> map_option (\<lambda>(b, xs). (b, xs[i := v]))"

abbreviation (input) new_array :: "ptr \<Rightarrow> 'a list \<Rightarrow> (ptr \<times> 'a list) option" where
  "new_array b xs \<equiv> (if b = 0 then None else Some (b, xs))"

text \<open>The loop over the packets; the arrays have an element for each.\<close>

fun alloc_packets ::
  "('q, 'e) acx_kernel \<Rightarrow> ptr \<Rightarrow> u32 \<Rightarrow> u32 \<Rightarrow> u32 \<Rightarrow> nat list \<Rightarrow> ('q, 'e) VIOSND_ACX_DEVICE \<Rightarrow>
   (NTSTATUS \<times> ('q, 'e) VIOSND_ACX_DEVICE) option" where
  "alloc_packets K p allocBytes firstPacketOffset packetSize [] d = Some (STATUS_SUCCESS, d)"
| "alloc_packets K p allocBytes firstPacketOffset packetSize (i # is) d =
     (let (b, d) = wdf_pool_alloc (wdf K) d (unat allocBytes);
          d = upd_stream p (\<lambda>s. s\<lparr>st_PacketBuffers := set_elem i b (st_PacketBuffers s)\<rparr>) d
      in if b = 0 then do {
           d \<leftarrow> ViosndEvtStreamFreeRtPackets K p d;
           Some (STATUS_INSUFFICIENT_RESOURCES, d)
         }
         else
           let d = d\<lparr>packet_memory := (packet_memory d)(b \<mapsto> replicate (unat allocBytes) 0)\<rparr>;
               (m, d) = wdf_call (IoAllocateMdl K) d;
               d = upd_stream p (\<lambda>s. s\<lparr>st_PacketMdls := set_elem i m (st_PacketMdls s)\<rparr>) d
           in if m = 0 then do {
                d \<leftarrow> ViosndEvtStreamFreeRtPackets K p d;
                Some (STATUS_INSUFFICIENT_RESOURCES, d)
              }
              else alloc_packets K p allocBytes firstPacketOffset packetSize is
                (upd_stream p (\<lambda>s. s\<lparr>st_Packets := set_elem i (if i = 0 then firstPacketOffset else 0, packetSize) (st_Packets s)\<rparr>) d))"

text \<open>
  \<open>size_of\<close> is the size of \<open>ACX_RTPACKET\<close>.  The arrays hold nothing before they are zeroed, and
  \<open>PacketCount\<close> is 0 then.
\<close>

definition ViosndEvtStreamAllocateRtPackets ::
  "('q, 'e) acx_kernel \<Rightarrow> nat \<Rightarrow> ptr \<Rightarrow> u32 \<Rightarrow> u32 \<Rightarrow> ('q, 'e) VIOSND_ACX_DEVICE \<Rightarrow>
   (NTSTATUS \<times> ('q, 'e) VIOSND_ACX_DEVICE) option" where
  "ViosndEvtStreamAllocateRtPackets K size_of p packetCount packetSize d =
     (if packetCount = 0 \<or> packetSize = 0 \<or> PAGE_SIZE < packetSize then Some (STATUS_INVALID_PARAMETER, d)
      else do {
        d \<leftarrow> ViosndFreeRtPacketStorage K p d;
        s \<leftarrow> acx_streams d p;
        let n = unat packetCount;
        let allocBytes = (packetSize + PAGE_SIZE - 1) AND NOT (PAGE_SIZE - 1);
        let firstPacketOffset = allocBytes - packetSize;
        let (packets, d) = wdf_pool_alloc (wdf K) d (n * size_of);
        let (buffers, d) = wdf_pool_alloc (wdf K) d (n * 8);
        let (mdls, d) = wdf_pool_alloc (wdf K) d (n * 8);
        let (ready, d) = (if st_Capture s then (0, d) else wdf_pool_alloc (wdf K) d (n * 4));
        let d = upd_stream p (\<lambda>s. s\<lparr>st_Packets := new_array packets [], st_PacketBuffers := new_array buffers [],
                  st_PacketMdls := new_array mdls [],
                  st_RenderReadyQueue := (if st_Capture s then st_RenderReadyQueue s else new_array ready [])\<rparr>) d;
        if packets = 0 \<or> buffers = 0 \<or> mdls = 0 \<or> \<not> st_Capture s \<and> ready = 0 then do {
          d \<leftarrow> ViosndEvtStreamFreeRtPackets K p d;
          Some (STATUS_INSUFFICIENT_RESOURCES, d)
        }
        else do {
          (status, d) \<leftarrow> alloc_packets K p allocBytes firstPacketOffset packetSize [0..<n]
            (upd_stream p (\<lambda>s. s\<lparr>st_Packets := new_array packets (replicate n (0, 0)),
               st_PacketBuffers := new_array buffers (replicate n 0), st_PacketMdls := new_array mdls (replicate n 0),
               st_RenderReadyQueue := (if st_Capture s then st_RenderReadyQueue s else new_array ready (replicate n 0)),
               st_PacketCount := packetCount\<rparr>) d);
          Some (status, if \<not> NT_SUCCESS status then d
            else upd_stream p (\<lambda>s. s\<lparr>st_PacketCount := packetCount, st_PacketSize := packetSize,
              st_PacketAllocBytes := allocBytes, st_FirstPacketOffset := firstPacketOffset,
              st_RenderReadyCapacity := (if st_Capture s then 0 else packetCount), st_RenderReadyHead := 0,
              st_RenderReadyTail := 0, st_RenderReadyCount := 0\<rparr>) d)
        }
      })"

section \<open>Packets and positions\<close>

definition ViosndEvtStreamSetRenderPacket ::
  "('q, 'e) acx_kernel \<Rightarrow> ptr \<Rightarrow> u32 \<Rightarrow> ('q, 'e) VIOSND_ACX_DEVICE \<Rightarrow> (NTSTATUS \<times> ('q, 'e) VIOSND_ACX_DEVICE) option" where
  "ViosndEvtStreamSetRenderPacket K p packet d = do {
     s \<leftarrow> acx_streams d p;
     if st_Capture s then Some (STATUS_INVALID_DEVICE_REQUEST, d)
     else if st_RenderReadyQueue s = None \<or> st_RenderReadyCapacity s = 0 then Some (STATUS_DEVICE_NOT_READY, d)
     else do {
       (status, d) \<leftarrow> ViosndQueueRenderPacket p packet d;
       if \<not> NT_SUCCESS status then Some (status, d)
       else do {
         s \<leftarrow> acx_streams d p;
         if \<not> st_Running s then Some (STATUS_SUCCESS, d)
         else do {
           d \<leftarrow> ViosndPumpRenderQueue K p d;
           Some (STATUS_SUCCESS, d)
         }
       }
     }
   }"

definition ViosndEvtStreamGetCurrentPacket ::
  "ptr \<Rightarrow> ('q, 'e) VIOSND_ACX_DEVICE \<Rightarrow> (NTSTATUS \<times> u32 \<times> ('q, 'e) VIOSND_ACX_DEVICE) option" where
  "ViosndEvtStreamGetCurrentPacket p d = do {
     s \<leftarrow> acx_streams d p;
     Some (STATUS_SUCCESS, ucast (st_PacketsCompleted s),
       upd_stream p (\<lambda>s. s\<lparr>st_CurrentPacketQueryCount := st_CurrentPacketQueryCount s + 1\<rparr>) d)
   }"

text \<open>\<open>*LastCapturePacket\<close>, \<open>*QPCPacketStart\<close> and \<open>*MoreData\<close>, when they are written.\<close>

definition ViosndEvtStreamGetCapturePacket ::
  "('q, 'e) acx_kernel \<Rightarrow> ptr \<Rightarrow> ('q, 'e) VIOSND_ACX_DEVICE \<Rightarrow>
   (NTSTATUS \<times> (u32 \<times> u64 \<times> bool) option \<times> ('q, 'e) VIOSND_ACX_DEVICE) option" where
  "ViosndEvtStreamGetCapturePacket K p d = do {
     s \<leftarrow> acx_streams d p;
     if \<not> st_Capture s then Some (STATUS_INVALID_DEVICE_REQUEST, None, d)
     else
       let (qpc, d) = wdf_call (acx_counter K) d
       in Some (if st_PacketsCompleted s = 0 then (STATUS_DEVICE_NOT_READY, Some (0, qpc, False), d)
                else (STATUS_SUCCESS, Some (ucast (st_PacketsCompleted s - 1), qpc, False), d))
   }"

definition ViosndEvtStreamGetPresentationPosition ::
  "('q, 'e) acx_kernel \<Rightarrow> ptr \<Rightarrow> ('q, 'e) VIOSND_ACX_DEVICE \<Rightarrow>
   (NTSTATUS \<times> (u64 \<times> u64) \<times> ('q, 'e) VIOSND_ACX_DEVICE) option" where
  "ViosndEvtStreamGetPresentationPosition K p d = do {
     s \<leftarrow> acx_streams d p;
     let blockAlign = (ucast VIOSND_DEFAULT_CHANNELS * ucast VIOSND_DEFAULT_BITS_PER_SAMPLE) div (8 :: u32);
     let (qpc, d) = wdf_call (acx_counter K) d;
     Some (STATUS_SUCCESS, (if blockAlign \<noteq> 0 then st_PositionBytes s div ucast blockAlign else 0, qpc),
       upd_stream p (\<lambda>s. s\<lparr>st_PresentationQueryCount := st_PresentationQueryCount s + 1\<rparr>) d)
   }"

end
