(* ===== verification/Acx_Queue.thy ===== *)
theory Acx_Queue
  imports Acx_Circuit
begin

text \<open>
  The queue of packets that the ACX driver is to play (\<open>ViosndQueueRenderPacket\<close>, \<open>ViosndPeekRenderPacket\<close>,
  \<open>ViosndPopRenderPacket\<close> and \<open>ViosndClearRenderQueue\<close> of \<open>ViosndAcxCircuit.cpp\<close>) is a bounded queue
  that drops its oldest element: the contract is a locale, the ring of the stream its interpretation.
\<close>

section \<open>A bounded queue that drops its oldest element\<close>

text \<open>The packets of a list are queued one after the other; the first \<open>n\<close> packets are taken.\<close>

fun queue_all :: "('a \<Rightarrow> 's \<Rightarrow> (NTSTATUS \<times> 's) option) \<Rightarrow> 'a list \<Rightarrow> 's \<Rightarrow> 's option" where
  "queue_all enq [] s = Some s"
| "queue_all enq (x # xs) s = do { (status, s) \<leftarrow> enq x s; if NT_SUCCESS status then queue_all enq xs s else None }"

fun take_all :: "('s \<Rightarrow> 'a option option) \<Rightarrow> ('s \<Rightarrow> 's option) \<Rightarrow> nat \<Rightarrow> 's \<Rightarrow> ('a list \<times> 's) option" where
  "take_all peek pop 0 s = Some ([], s)"
| "take_all peek pop (Suc n) s = do {
     x \<leftarrow> peek s;
     case x of
       None \<Rightarrow> Some ([], s)
     | Some x \<Rightarrow> do {
         s \<leftarrow> pop s;
         (xs, s) \<leftarrow> take_all peek pop n s;
         Some (x # xs, s)
       }
   }"

locale dropping_queue =
  fixes enq :: "'a \<Rightarrow> 's \<Rightarrow> (NTSTATUS \<times> 's) option"
    and peek :: "'s \<Rightarrow> 'a option option"
    and pop :: "'s \<Rightarrow> 's option"
    and clear :: "'s \<Rightarrow> 's"
    and contents :: "'s \<Rightarrow> 'a list"
    and room :: "'s \<Rightarrow> nat"
    and lost :: "'s \<Rightarrow> 32 word"
    and wf :: "'s \<Rightarrow> bool"
  assumes bounded: "wf s \<Longrightarrow> length (contents s) \<le> room s" "wf s \<Longrightarrow> 0 < room s"
    and enq: "wf s \<Longrightarrow> \<exists>s'. enq x s = Some (STATUS_SUCCESS, s') \<and> wf s' \<and> room s' = room s \<and>
      (if length (contents s) = room s
       then contents s' = tl (contents s) @ [x] \<and> lost s' = lost s + 1
       else contents s' = contents s @ [x] \<and> lost s' = lost s)"
    and peek: "wf s \<Longrightarrow> peek s = Some (case contents s of [] \<Rightarrow> None | x # xs \<Rightarrow> Some x)"
    and pop: "wf s \<Longrightarrow> \<exists>s'. pop s = Some s' \<and> wf s' \<and> room s' = room s \<and> contents s' = tl (contents s) \<and> lost s' = lost s"
    and clear: "wf s \<Longrightarrow> wf (clear s) \<and> room (clear s) = room s \<and> contents (clear s) = [] \<and> lost (clear s) = lost s"
begin

lemma queue_all_keeps_newest:
  assumes "wf s"
  shows "\<exists>s'. queue_all enq xs s = Some s' \<and> wf s' \<and> room s' = room s \<and>
    contents s' = drop (length (contents s) + length xs - room s) (contents s @ xs) \<and>
    lost s' = lost s + word_of_nat (length (contents s) + length xs - room s)"
  using assms
proof (induction xs arbitrary: s)
  case Nil
  then show ?case using bounded(1) by simp
next
  case (Cons x xs)
  obtain s1 where 1: "enq x s = Some (STATUS_SUCCESS, s1)" "wf s1" "room s1 = room s"
    "if length (contents s) = room s then contents s1 = tl (contents s) @ [x] \<and> lost s1 = lost s + 1
     else contents s1 = contents s @ [x] \<and> lost s1 = lost s" using enq [OF Cons.prems] by blast
  obtain s2 where 2: "queue_all enq xs s1 = Some s2" "wf s2" "room s2 = room s1"
    "contents s2 = drop (length (contents s1) + length xs - room s1) (contents s1 @ xs)"
    "lost s2 = lost s1 + word_of_nat (length (contents s1) + length xs - room s1)" using Cons.IH [OF 1(2)] by blast
  have q: "queue_all enq (x # xs) s = Some s2" using 1(1) 2(1) by simp
  note b = bounded [OF Cons.prems]
  show ?case
  proof (cases "length (contents s) = room s")
    case True
    then obtain y ys where c: "contents s = y # ys" using b(2) by (cases "contents s") auto
    then have "contents s1 = ys @ [x]" "lost s1 = lost s + 1" "room s = Suc (length ys)" using 1(4) True by simp_all
    then show ?thesis using q 2 1(3) c by simp
  next
    case False
    then have "contents s1 = contents s @ [x]" "lost s1 = lost s" "length (contents s) < room s" using 1(4) b(1) by simp_all
    then show ?thesis using q 2 1(3) by simp
  qed
qed

lemma take_all_in_order:
  assumes "wf s" "length (contents s) \<le> n"
  shows "\<exists>s'. take_all peek pop n s = Some (contents s, s') \<and> wf s' \<and> room s' = room s \<and> contents s' = [] \<and> lost s' = lost s"
  using assms
proof (induction n arbitrary: s)
  case (Suc n)
  show ?case
  proof (cases "contents s")
    case Nil
    then show ?thesis using Suc.prems(1) peek by simp
  next
    case (Cons x xs)
    obtain s1 where 1: "pop s = Some s1" "wf s1" "room s1 = room s" "contents s1 = tl (contents s)" "lost s1 = lost s"
      using pop [OF Suc.prems(1)] by blast
    have "length (contents s1) \<le> n" using Suc.prems(2) 1(4) Cons by simp
    from Suc.IH [OF 1(2) this] obtain s2 where "take_all peek pop n s1 = Some (contents s1, s2)" "wf s2" "room s2 = room s1"
      "contents s2 = []" "lost s2 = lost s1" by blast
    then show ?thesis using 1 Cons Suc.prems(1) peek by simp
  qed
qed simp

end

section \<open>The queue of ready packets\<close>

text \<open>The packets of the ring, from its head.\<close>

definition ready_packets :: "VIOSND_ACX_STREAM \<Rightarrow> u32 list" where
  "ready_packets s = (case st_RenderReadyQueue s of
     None \<Rightarrow> []
   | Some (_, q) \<Rightarrow> map (\<lambda>k. q ! ((unat (st_RenderReadyHead s) + k) mod length q)) [0..<unat (st_RenderReadyCount s)])"

definition ready_room :: "VIOSND_ACX_STREAM \<Rightarrow> nat" where
  "ready_room s = unat (st_RenderReadyCapacity s)"

definition ready_ok :: "VIOSND_ACX_STREAM \<Rightarrow> bool" where
  "ready_ok s \<longleftrightarrow> \<not> st_Capture s \<and> (\<exists>block q. st_RenderReadyQueue s = Some (block, q) \<and> length q = ready_room s \<and>
     0 < ready_room s \<and> unat (st_RenderReadyCount s) \<le> ready_room s \<and> unat (st_RenderReadyHead s) < ready_room s \<and>
     unat (st_RenderReadyTail s) = (unat (st_RenderReadyHead s) + unat (st_RenderReadyCount s)) mod ready_room s)"

lemma unat_succ_mod:
  fixes a c :: u32
  assumes "unat a < unat c"
  shows "unat ((a + 1) mod c) = Suc (unat a) mod unat c"
proof -
  have "unat (a + 1) = Suc (unat a)" using assms unsigned_less [of c, where 'a = nat] by (simp add: unat_word_ariths)
  then show ?thesis by (simp add: unat_mod_distrib)
qed

lemma ring_step: "0 < n \<Longrightarrow> (Suc h mod n + k) mod n = (h + Suc k) mod (n :: nat)"
  by (simp add: mod_simps)

lemma ring_other:
  fixes h n k j :: nat
  assumes "k < j" "j < n"
  shows "(h + k) mod n \<noteq> (h + j) mod n"
proof
  assume "(h + k) mod n = (h + j) mod n"
  then have "n dvd (h + j) - (h + k)" using assms by (metis mod_eq_dvd_iff_nat add_le_cancel_left less_imp_le)
  then show False using assms by (auto dest: dvd_imp_le)
qed

lemma ready_packets_drop:
  assumes "st_RenderReadyQueue s = Some (block, q)" "0 < length q" "unat (st_RenderReadyCount s) = Suc n" "unat h = Suc (unat (st_RenderReadyHead s)) mod length q"
    "unat c = n"
  shows "ready_packets (s\<lparr>st_RenderReadyHead := h, st_RenderReadyCount := c\<rparr>) = tl (ready_packets s)"
  using assms by (simp add: ready_packets_def map_tl [symmetric] upt_conv_Cons map_Suc_upt [symmetric] ring_step del: upt_Suc)

lemma ready_packets_add:
  assumes "st_RenderReadyQueue s = Some (block, q)" "unat (st_RenderReadyCount s) < length q"
    "t = (unat (st_RenderReadyHead s) + unat (st_RenderReadyCount s)) mod length q"
    "unat c = Suc (unat (st_RenderReadyCount s))"
  shows "ready_packets (s\<lparr>st_RenderReadyQueue := Some (block, q[t := x]), st_RenderReadyTail := y, st_RenderReadyCount := c\<rparr>) = ready_packets s @ [x]"
proof -
  let ?h = "unat (st_RenderReadyHead s)" and ?n = "unat (st_RenderReadyCount s)"
  have "q[t := x] ! ((?h + k) mod length q) = q ! ((?h + k) mod length q)" if "k < ?n" for k
    using ring_other [OF that assms(2), of ?h] assms(3) by simp
  moreover have "q[t := x] ! t = x"
  proof -
    have "t < length q" using assms(2,3) by (simp add: mod_less_divisor [OF le_less_trans])
    then show ?thesis by simp
  qed
  ultimately show ?thesis using assms by (simp add: ready_packets_def)
qed

lemma ready_okE:
  assumes "ready_ok s"
  obtains block q where "\<not> st_Capture s" "st_RenderReadyQueue s = Some (block, q)" "length q = ready_room s" "0 < ready_room s"
    "unat (st_RenderReadyCount s) \<le> ready_room s" "unat (st_RenderReadyHead s) < ready_room s"
    "unat (st_RenderReadyTail s) = (unat (st_RenderReadyHead s) + unat (st_RenderReadyCount s)) mod ready_room s"
  using assms unfolding ready_ok_def by blast

lemma ready_xrun [simp]:
  "ready_packets (s\<lparr>st_XrunCount := n\<rparr>) = ready_packets s" "ready_room (s\<lparr>st_XrunCount := n\<rparr>) = ready_room s"
  "ready_ok (s\<lparr>st_XrunCount := n\<rparr>) = ready_ok s"
  by (auto simp: ready_packets_def ready_room_def ready_ok_def split: option.split)

lemma ready_length: "ready_ok s \<Longrightarrow> length (ready_packets s) = unat (st_RenderReadyCount s)"
  by (auto simp: ready_ok_def ready_packets_def)

lemma count_pred: "(c :: u32) \<noteq> 0 \<Longrightarrow> Suc (unat (c - 1)) = unat c"
  by (simp add: unat_minus_one unat_gt_0)

lemma unat_next: "unat (c :: u32) < unat (d :: u32) \<Longrightarrow> unat (c + 1) = Suc (unat c)"
  using unsigned_less [of d, where 'a = nat] by (simp add: unat_word_ariths)

text \<open>Taking the oldest packet, by \<open>Pop\<close> or when the queue is full.\<close>

lemma ready_drop:
  assumes "ready_ok s" "st_RenderReadyCount s \<noteq> 0"
  defines "s' \<equiv> s\<lparr>st_RenderReadyHead := (st_RenderReadyHead s + 1) mod st_RenderReadyCapacity s,
                  st_RenderReadyCount := st_RenderReadyCount s - 1\<rparr>"
  shows "ready_ok s'" "ready_room s' = ready_room s" "ready_packets s' = tl (ready_packets s)"
    "unat (st_RenderReadyCount s') < ready_room s'"
proof -
  obtain block q where q: "\<not> st_Capture s" "st_RenderReadyQueue s = Some (block, q)" "length q = ready_room s" "0 < ready_room s"
    "unat (st_RenderReadyCount s) \<le> ready_room s" "unat (st_RenderReadyHead s) < ready_room s"
    "unat (st_RenderReadyTail s) = (unat (st_RenderReadyHead s) + unat (st_RenderReadyCount s)) mod ready_room s"
    using ready_okE [OF assms(1)] .
  note c = count_pred [OF assms(2)]
  have h: "unat ((st_RenderReadyHead s + 1) mod st_RenderReadyCapacity s) = Suc (unat (st_RenderReadyHead s)) mod ready_room s"
    using q(6) unfolding ready_room_def by (rule unat_succ_mod)
  show r: "ready_room s' = ready_room s" by (simp add: s'_def ready_room_def)
  show "ready_packets s' = tl (ready_packets s)"
    unfolding s'_def by (rule ready_packets_drop [OF q(2)]) (use q(3,4) c h in simp_all)
  show "unat (st_RenderReadyCount s') < ready_room s'" using c q(5) r by (simp add: s'_def)
  then show "ready_ok s'" using q c h r by (simp add: s'_def ready_ok_def ring_step)
qed

lemma ready_enq:
  fixes x :: u32
  assumes "ready_ok s" "unat (st_RenderReadyCount s) < ready_room s" "st_RenderReadyQueue s = Some (block, q)"
  defines "s' \<equiv> s\<lparr>st_RenderReadyQueue := Some (block, q[unat (st_RenderReadyTail s) := x]),
     st_RenderReadyTail := (st_RenderReadyTail s + 1) mod st_RenderReadyCapacity s, st_RenderReadyCount := st_RenderReadyCount s + 1\<rparr>"
  shows "unat (st_RenderReadyTail s) < length q" "ready_ok s'" "ready_room s' = ready_room s" "ready_packets s' = ready_packets s @ [x]"
proof -
  have q: "\<not> st_Capture s" "length q = ready_room s" "0 < ready_room s"
    "unat (st_RenderReadyCount s) \<le> ready_room s" "unat (st_RenderReadyHead s) < ready_room s"
    "unat (st_RenderReadyTail s) = (unat (st_RenderReadyHead s) + unat (st_RenderReadyCount s)) mod ready_room s"
    using assms(1,3) by (simp_all add: ready_ok_def)
  have c: "unat (st_RenderReadyCount s + 1) = Suc (unat (st_RenderReadyCount s))"
    using assms(2) unfolding ready_room_def by (rule unat_next)
  have t: "unat (st_RenderReadyTail s) < ready_room s" using q(3,6) by simp
  then show "unat (st_RenderReadyTail s) < length q" using q(2) by simp
  have t2: "unat ((st_RenderReadyTail s + 1) mod st_RenderReadyCapacity s) = Suc (unat (st_RenderReadyTail s)) mod ready_room s"
    using t unfolding ready_room_def by (rule unat_succ_mod)
  show r: "ready_room s' = ready_room s" by (simp add: s'_def ready_room_def)
  show "ready_packets s' = ready_packets s @ [x]"
    unfolding s'_def by (rule ready_packets_add [OF assms(3)]) (use assms(2) q c in simp_all)
  show "ready_ok s'" using q c t2 assms(2) r by (simp add: s'_def ready_ok_def mod_Suc_eq)
qed

interpretation ready: dropping_queue ViosndQueueRenderPacket_stream ViosndPeekRenderPacket ViosndPopRenderPacket ViosndClearRenderQueue
  ready_packets ready_room st_XrunCount ready_ok
proof unfold_locales
  fix s x assume ok: "ready_ok s"
  obtain block q where q: "\<not> st_Capture s" "st_RenderReadyQueue s = Some (block, q)" "length q = ready_room s" "0 < ready_room s"
    "unat (st_RenderReadyCount s) \<le> ready_room s" "unat (st_RenderReadyHead s) < ready_room s"
    "unat (st_RenderReadyTail s) = (unat (st_RenderReadyHead s) + unat (st_RenderReadyCount s)) mod ready_room s"
    using ready_okE [OF ok] .
  have cap: "st_RenderReadyCapacity s \<noteq> 0" using q(4) by (auto simp: ready_room_def)
  note len = ready_length [OF ok]
  show "length (ready_packets s) \<le> ready_room s" "0 < ready_room s" using len q(4,5) by simp_all
  show "\<exists>s'. ViosndQueueRenderPacket_stream x s = Some (STATUS_SUCCESS, s') \<and> ready_ok s' \<and> ready_room s' = ready_room s \<and>
      (if length (ready_packets s) = ready_room s
       then ready_packets s' = tl (ready_packets s) @ [x] \<and> st_XrunCount s' = st_XrunCount s + 1
       else ready_packets s' = ready_packets s @ [x] \<and> st_XrunCount s' = st_XrunCount s)"
  proof (cases "length (ready_packets s) = ready_room s")
    case False
    then have r: "unat (st_RenderReadyCount s) < ready_room s" using len q(5) by simp
    have "\<not> st_RenderReadyCapacity s \<le> st_RenderReadyCount s" using r by (simp add: word_le_nat_alt ready_room_def)
    then show ?thesis using ready_enq(1) [OF ok r q(2)] ready_enq(2-4) [OF ok r q(2), where x = x] False q(2) cap
      by (simp add: ViosndQueueRenderPacket_stream_def write_at_def Let_def)
  next
    case True
    then have full: "st_RenderReadyCapacity s \<le> st_RenderReadyCount s" and nz: "st_RenderReadyCount s \<noteq> 0"
      using len q(4) by (auto simp: word_le_nat_alt ready_room_def)
    let ?s1 = "s\<lparr>st_RenderReadyHead := (st_RenderReadyHead s + 1) mod st_RenderReadyCapacity s,
                  st_RenderReadyCount := st_RenderReadyCount s - 1\<rparr>"
    let ?s2 = "?s1\<lparr>st_XrunCount := st_XrunCount s + 1\<rparr>"
    note d = ready_drop [OF ok nz]
    have 2: "ready_ok ?s2" "ready_room ?s2 = ready_room ?s1" "ready_packets ?s2 = ready_packets ?s1"
      using d(1) by simp_all
    have r2: "unat (st_RenderReadyCount ?s2) < ready_room ?s2" using d(4) 2(2) by simp
    have q2: "st_RenderReadyQueue ?s2 = Some (block, q)" using q(2) by simp
    show ?thesis using ready_enq(1) [OF 2(1) r2 q2] ready_enq(2-4) [OF 2(1) r2 q2, where x = x] 2 d True q(2) cap full
      by (simp add: ViosndQueueRenderPacket_stream_def write_at_def Let_def)
  qed
  show "ViosndPeekRenderPacket s = Some (case ready_packets s of [] \<Rightarrow> None | x # xs \<Rightarrow> Some x)"
  proof (cases "st_RenderReadyCount s = 0")
    case True
    then show ?thesis using len by (simp add: ViosndPeekRenderPacket_def)
  next
    case False
    then obtain n where "unat (st_RenderReadyCount s) = Suc n" using count_pred by metis
    then have "\<exists>ys. ready_packets s = q ! unat (st_RenderReadyHead s) # ys"
      using q(2,3,6) by (simp add: ready_packets_def upt_conv_Cons del: upt_Suc)
    then show ?thesis using False q(2,3,6) by (auto simp: ViosndPeekRenderPacket_def read_at_def)
  qed
  show "\<exists>s'. ViosndPopRenderPacket s = Some s' \<and> ready_ok s' \<and> ready_room s' = ready_room s \<and>
      ready_packets s' = tl (ready_packets s) \<and> st_XrunCount s' = st_XrunCount s"
  proof (cases "st_RenderReadyCount s = 0")
    case True
    then show ?thesis using len ok by (simp add: ViosndPopRenderPacket_def)
  next
    case False
    then show ?thesis using ready_drop [OF ok False] cap by (simp add: ViosndPopRenderPacket_def)
  qed
  show "ready_ok (ViosndClearRenderQueue s) \<and> ready_room (ViosndClearRenderQueue s) = ready_room s \<and>
      ready_packets (ViosndClearRenderQueue s) = [] \<and> st_XrunCount (ViosndClearRenderQueue s) = st_XrunCount s"
    using q by (simp add: ViosndClearRenderQueue_def ready_ok_def ready_room_def ready_packets_def)
qed

section \<open>The property of the queue\<close>

text \<open>
  C29: the queue of ready packets is a bounded queue that drops its oldest element.  Queueing a list of
  packets on a playback stream always succeeds; the queue then holds the newest of the packets it
  had and was given, in order, as many as it has room for, and each packet that was dropped is
  counted as an xrun.  Taking packets until the queue is empty yields exactly these.
\<close>

theorem ready_queue_keeps_newest:
  assumes "ready_ok s"
  shows "\<exists>s' s''. queue_all ViosndQueueRenderPacket_stream xs s = Some s' \<and> ready_ok s' \<and> ready_room s' = ready_room s \<and>
    ready_packets s' = drop (length (ready_packets s) + length xs - ready_room s) (ready_packets s @ xs) \<and>
    st_XrunCount s' = st_XrunCount s + word_of_nat (length (ready_packets s) + length xs - ready_room s) \<and>
    take_all ViosndPeekRenderPacket ViosndPopRenderPacket (ready_room s) s' = Some (ready_packets s', s'') \<and>
    ready_packets s'' = [] \<and> st_XrunCount s'' = st_XrunCount s'"
proof -
  obtain s' where 1: "queue_all ViosndQueueRenderPacket_stream xs s = Some s'" "ready_ok s'" "ready_room s' = ready_room s"
    "ready_packets s' = drop (length (ready_packets s) + length xs - ready_room s) (ready_packets s @ xs)"
    "st_XrunCount s' = st_XrunCount s + word_of_nat (length (ready_packets s) + length xs - ready_room s)"
    using ready.queue_all_keeps_newest [OF assms, of xs] by blast
  have "length (ready_packets s') \<le> ready_room s" using ready.bounded(1) [OF 1(2)] 1(3) by simp
  from ready.take_all_in_order [OF 1(2) this] show ?thesis using 1 by blast
qed

definition two_slots :: VIOSND_ACX_STREAM where
  "two_slots = (zero_stream 0 False)\<lparr>st_RenderReadyQueue := Some (1, [0, 0]), st_RenderReadyCapacity := 2\<rparr>"

theorem ready_queue_keeps_newest_witness:
  "ready_ok two_slots \<and> (\<exists>s' s''. queue_all ViosndQueueRenderPacket_stream [5, 6, 7] two_slots = Some s' \<and> ready_packets s' = [6, 7] \<and>
     st_XrunCount s' = 1 \<and> take_all ViosndPeekRenderPacket ViosndPopRenderPacket 2 s' = Some ([6, 7], s''))"
proof -
  have ok: "ready_ok two_slots" "ready_packets two_slots = []" "ready_room two_slots = 2" "st_XrunCount two_slots = 0"
    by (simp_all add: ready_ok_def ready_packets_def ready_room_def two_slots_def zero_stream_def)
  obtain s' s'' where s: "queue_all ViosndQueueRenderPacket_stream [5, 6, 7] two_slots = Some s'"
    "ready_packets s' = [6, 7]" "st_XrunCount s' = 1"
    "take_all ViosndPeekRenderPacket ViosndPopRenderPacket 2 s' = Some (ready_packets s', s'')"
    using ready_queue_keeps_newest [OF ok(1), of "[5, 6, 7]"] ok(2-4) by auto
  show ?thesis using ok(1) s(1,3) s(2) s(4) [unfolded s(2)] by blast
qed

end
