(* ===== verification/Acx_Storage.thy ===== *)
theory Acx_Storage
  imports Acx_Queue
begin

text \<open>
  The storage of the packets of an ACX stream: what \<open>ViosndFreeRtPacketStorage\<close> and
  \<open>ViosndEvtStreamAllocateRtPackets\<close> of \<open>ViosndAcxCircuit.cpp\<close> do to the pool.  \<open>storage_ok\<close> says which
  blocks a stream owns, \<open>filling\<close> how far the loop over the packets has come.
\<close>

section \<open>The storage of the packets\<close>

text \<open>The pool blocks that a stream owns for its packets: the buffers and the arrays.\<close>

definition array_block :: "(ptr \<times> 'a list) option \<Rightarrow> ptr list" where
  "array_block a = (case a of None \<Rightarrow> [] | Some (b, _) \<Rightarrow> [b])"

definition packet_buffers :: "VIOSND_ACX_STREAM \<Rightarrow> ptr list" where
  "packet_buffers s = (case st_PacketBuffers s of
     None \<Rightarrow> [] | Some (_, bs) \<Rightarrow> filter (\<lambda>b. b \<noteq> 0) (take (unat (st_PacketCount s)) bs))"

definition packet_blocks :: "VIOSND_ACX_STREAM \<Rightarrow> ptr list" where
  "packet_blocks s = packet_buffers s @ array_block (st_PacketBuffers s) @ array_block (st_PacketMdls s) @
     array_block (st_Packets s) @ array_block (st_RenderReadyQueue s)"

text \<open>The pool holds these blocks and \<open>R\<close>.\<close>

definition storage_ok :: "('q, 'e) VIOSND_ACX_DEVICE \<Rightarrow> VIOSND_ACX_STREAM \<Rightarrow> ptr multiset \<Rightarrow> bool" where
  "storage_ok d s R \<longleftrightarrow> distinct (wdf_pool d) \<and> mset (wdf_pool d) = mset (packet_blocks s) + R \<and>
     (\<forall>b bs. st_PacketBuffers s = Some (b, bs) \<longrightarrow> unat (st_PacketCount s) \<le> length bs) \<and>
     (\<forall>b ms. st_PacketMdls s = Some (b, ms) \<longrightarrow> unat (st_PacketCount s) \<le> length ms)"

definition wdf_pool_ok :: "'e wdf_kernel \<Rightarrow> bool" where
  "wdf_pool_ok K \<longleftrightarrow> (\<forall>e ps n. fst (ExAllocatePoolUninitialized K e ps n) \<noteq> 0 \<longrightarrow> fst (ExAllocatePoolUninitialized K e ps n) \<notin> set ps)"

lemma distinct_sub:
  assumes "mset xs \<subseteq># mset ys" "distinct ys"
  shows "distinct xs"
  unfolding distinct_count_atmost_1
proof
  fix a
  have "count (mset xs) a \<le> count (mset ys) a" using assms(1) by (rule mset_subset_eq_count)
  also have "\<dots> \<le> 1" using assms(2) by (simp add: distinct_count_atmost_1)
  finally have "count (mset xs) a \<le> 1" .
  moreover have "(0 < count (mset xs) a) = (a \<in> set xs)" by simp
  ultimately show "count (mset xs) a = (if a \<in> set xs then 1 else 0)" by (auto simp del: count_greater_zero_iff)
qed

lemma pool_memory [simp]:
  fixes d :: "('q, 'e) VIOSND_ACX_DEVICE"
  shows "d\<lparr>packet_memory := m, wdf_pool := ps\<rparr> = d\<lparr>wdf_pool := ps, packet_memory := m\<rparr>"
    "d\<lparr>packet_memory := m, wdf_env := e\<rparr> = d\<lparr>wdf_env := e, packet_memory := m\<rparr>"
    "d\<lparr>acx_streams := f, wdf_pool := ps\<rparr> = d\<lparr>wdf_pool := ps, acx_streams := f\<rparr>"
    "d\<lparr>acx_streams := f, wdf_env := e\<rparr> = d\<lparr>wdf_env := e, acx_streams := f\<rparr>"
  by (cases d; simp)+

lemma free_packets_ok:
  assumes "mset (filter (\<lambda>b. b \<noteq> 0) bs) \<subseteq># mset (wdf_pool d)"
  shows "\<exists>ps m. free_packets bs d = Some (d\<lparr>wdf_pool := ps, packet_memory := m\<rparr>) \<and>
    mset ps = mset (wdf_pool d) - mset (filter (\<lambda>b. b \<noteq> 0) bs)"
  using assms
proof (induction bs arbitrary: d)
  case Nil
  show ?case by (intro exI [of _ "wdf_pool d"] exI [of _ "packet_memory d"]) simp
next
  case (Cons b bs)
  show ?case
  proof (cases "b = 0")
    case False
    have b: "b \<in> set (wdf_pool d)" using Cons.prems False by (auto dest: mset_subset_eqD)
    let ?d = "d\<lparr>wdf_pool := remove1 b (wdf_pool d), packet_memory := (packet_memory d)(b := None)\<rparr>"
    have "mset (filter (\<lambda>b. b \<noteq> 0) bs) \<subseteq># mset (wdf_pool ?d)"
      using Cons.prems False by (simp add: insert_subset_eq_iff)
    from Cons.IH [OF this] obtain ps m where "free_packets bs ?d = Some (?d\<lparr>wdf_pool := ps, packet_memory := m\<rparr>)"
      "mset ps = mset (wdf_pool ?d) - mset (filter (\<lambda>b. b \<noteq> 0) bs)" by blast
    then show ?thesis using False b by (auto simp: ExFreePoolWithTag_def)
  qed (use Cons in simp)
qed

lemma free_mdls_env: "\<exists>e. free_mdls K ms d = d\<lparr>wdf_env := e\<rparr>"
proof (induction ms arbitrary: d)
  case Nil
  show ?case by (intro exI [of _ "wdf_env d"]) simp
next
  case (Cons m ms)
  show ?case using Cons [of "if m \<noteq> 0 then d\<lparr>wdf_env := IoFreeMdl K (wdf_env d) m\<rparr> else d"] by (auto split: if_splits)
qed

lemma free_array_ok:
  assumes "mset (array_block a) \<subseteq># mset (wdf_pool d)"
  shows "\<exists>ps. (case a of None \<Rightarrow> Some d | Some (block, _) \<Rightarrow> ExFreePoolWithTag block d) = Some (d\<lparr>wdf_pool := ps\<rparr>) \<and>
    mset ps = mset (wdf_pool d) - mset (array_block a)"
proof (cases a)
  case None
  then show ?thesis by (intro exI [of _ "wdf_pool d"]) (simp add: array_block_def)
next
  case (Some x)
  then show ?thesis using assms by (cases x) (auto simp: array_block_def ExFreePoolWithTag_def)
qed

abbreviation (input) no_packets :: "VIOSND_ACX_STREAM \<Rightarrow> VIOSND_ACX_STREAM" where
  "no_packets \<equiv> (\<lambda>s. s\<lparr>st_PacketMdls := None, st_PacketBuffers := None, st_Packets := None,
          st_RenderReadyQueue := None, st_PacketCount := 0, st_PacketSize := 0, st_PacketAllocBytes := 0,
          st_FirstPacketOffset := 0, st_RenderReadyCapacity := 0, st_RenderReadyHead := 0, st_RenderReadyTail := 0,
          st_RenderReadyCount := 0\<rparr>)"

lemma free_storage_ok:
  assumes "acx_streams d p = Some s" "p \<noteq> 0" "storage_ok d s R"
  shows "\<exists>d'. ViosndFreeRtPacketStorage K p d = Some d' \<and> acx_streams d' = (acx_streams d)(p \<mapsto> no_packets s) \<and>
    mset (wdf_pool d') = R \<and> distinct (wdf_pool d') \<and> storage_ok d' (no_packets s) R"
proof -
  let ?n = "unat (st_PacketCount s)"
  let ?M = "mset (array_block (st_PacketMdls s))" and ?B = "mset (packet_buffers s) + mset (array_block (st_PacketBuffers s))"
    and ?P = "mset (array_block (st_Packets s))" and ?Q = "mset (array_block (st_RenderReadyQueue s))"
  have pool: "mset (wdf_pool d) = ?M + ?B + ?P + ?Q + R" using assms(3) by (simp add: storage_ok_def packet_blocks_def ac_simps)
  have 1: "\<exists>e ps. (case st_PacketMdls s of None \<Rightarrow> Some d
      | Some (block, ms) \<Rightarrow> if length ms < ?n then None else ExFreePoolWithTag block (free_mdls K (take ?n ms) d))
      = Some (d\<lparr>wdf_env := e, wdf_pool := ps\<rparr>) \<and> mset ps = ?B + ?P + ?Q + R"
  proof (cases "st_PacketMdls s")
    case None
    then show ?thesis using pool by (intro exI [of _ "wdf_env d"] exI [of _ "wdf_pool d"]) (simp add: array_block_def)
  next
    case (Some x)
    obtain b ms where x: "x = (b, ms)" by force
    obtain e where e: "free_mdls K (take ?n ms) d = d\<lparr>wdf_env := e\<rparr>" using free_mdls_env [of K "take ?n ms" d] by (elim exE)
    have "mset (array_block (st_PacketMdls s)) \<subseteq># mset (wdf_pool (d\<lparr>wdf_env := e\<rparr>))" using pool by simp
    from free_array_ok [OF this] obtain ps where "ExFreePoolWithTag b (d\<lparr>wdf_env := e\<rparr>) = Some (d\<lparr>wdf_env := e, wdf_pool := ps\<rparr>)"
      "mset ps = mset (wdf_pool d) - ?M" using Some x by auto
    moreover have "?n \<le> length ms" using assms(3) Some x by (simp add: storage_ok_def)
    ultimately show ?thesis using Some x e pool by (intro exI [of _ e] exI [of _ ps]) (simp add: ac_simps)
  qed
  then obtain e ps1 where 1: "(case st_PacketMdls s of None \<Rightarrow> Some d
      | Some (block, ms) \<Rightarrow> if length ms < ?n then None else ExFreePoolWithTag block (free_mdls K (take ?n ms) d))
      = Some (d\<lparr>wdf_env := e, wdf_pool := ps1\<rparr>)" "mset ps1 = ?B + ?P + ?Q + R" by blast
  let ?d1 = "d\<lparr>wdf_env := e, wdf_pool := ps1\<rparr>"
  have "\<exists>ps m. (case st_PacketBuffers s of None \<Rightarrow> Some ?d1
      | Some (block, bs) \<Rightarrow> if length bs < ?n then None
          else do { d \<leftarrow> free_packets (take ?n bs) ?d1; ExFreePoolWithTag block d })
      = Some (?d1\<lparr>wdf_pool := ps, packet_memory := m\<rparr>) \<and> mset ps = ?P + ?Q + R"
  proof (cases "st_PacketBuffers s")
    case None
    then show ?thesis using 1(2)
      by (intro exI [of _ ps1] exI [of _ "packet_memory d"]) (simp add: array_block_def packet_buffers_def)
  next
    case (Some x)
    obtain b bs where x: "x = (b, bs)" by force
    have pb: "packet_buffers s = filter (\<lambda>b. b \<noteq> 0) (take ?n bs)" using Some x by (simp add: packet_buffers_def)
    have "mset (filter (\<lambda>b. b \<noteq> 0) (take ?n bs)) \<subseteq># mset (wdf_pool ?d1)" using 1(2) pb by simp
    from free_packets_ok [OF this] obtain ps2 m where 2: "free_packets (take ?n bs) ?d1 = Some (?d1\<lparr>wdf_pool := ps2, packet_memory := m\<rparr>)"
      "mset ps2 = mset ps1 - mset (packet_buffers s)" using pb by auto
    have "mset (array_block (st_PacketBuffers s)) \<subseteq># mset (wdf_pool (?d1\<lparr>wdf_pool := ps2, packet_memory := m\<rparr>))" using 1(2) 2(2) by simp
    from free_array_ok [OF this] obtain ps3 where
      "ExFreePoolWithTag b (?d1\<lparr>wdf_pool := ps2, packet_memory := m\<rparr>) = Some (?d1\<lparr>wdf_pool := ps3, packet_memory := m\<rparr>)"
      "mset ps3 = mset ps2 - mset (array_block (st_PacketBuffers s))" using Some x by auto
    moreover have "?n \<le> length bs" using assms(3) Some x by (simp add: storage_ok_def)
    ultimately show ?thesis using Some x 1(2) 2 by (intro exI [of _ ps3] exI [of _ m]) (simp add: ac_simps)
  qed
  then obtain ps2 m where 2: "(case st_PacketBuffers s of None \<Rightarrow> Some ?d1
      | Some (block, bs) \<Rightarrow> if length bs < ?n then None
          else do { d \<leftarrow> free_packets (take ?n bs) ?d1; ExFreePoolWithTag block d })
      = Some (?d1\<lparr>wdf_pool := ps2, packet_memory := m\<rparr>)" "mset ps2 = ?P + ?Q + R" by blast
  let ?d2 = "d\<lparr>wdf_env := e, wdf_pool := ps2, packet_memory := m\<rparr>"
  let ?d3 = "\<lambda>ps. d\<lparr>wdf_env := e, wdf_pool := ps, packet_memory := m\<rparr>"
  have "?P \<subseteq># mset (wdf_pool ?d2)" using 2(2) by simp
  from free_array_ok [OF this] obtain ps3 where 3: "(case st_Packets s of None \<Rightarrow> Some ?d2 | Some (block, _) \<Rightarrow> ExFreePoolWithTag block ?d2)
      = Some (?d3 ps3)" "mset ps3 = ?Q + R" using 2(2) by auto
  have "?Q \<subseteq># mset (wdf_pool (?d3 ps3))" using 3(2) by simp
  from free_array_ok [OF this] obtain ps4 where 4: "(case st_RenderReadyQueue s of None \<Rightarrow> Some (?d3 ps3)
      | Some (block, _) \<Rightarrow> ExFreePoolWithTag block (?d3 ps3)) = Some (?d3 ps4)" "mset ps4 = R"
    using 3(2) by auto
  have "distinct ps4" by (rule distinct_sub [of _ "wdf_pool d"]) (use 4(2) pool assms(3) in \<open>simp_all add: storage_ok_def\<close>)
  moreover have "ViosndFreeRtPacketStorage K p d = Some (upd_stream p no_packets (?d3 ps4))"
    using assms(1,2) by (simp add: ViosndFreeRtPacketStorage_def 1(1) 2(1) 3(1) 4(1))
  ultimately show ?thesis using 4(2) assms(1)
    by (auto simp: upd_stream_def storage_ok_def packet_blocks_def packet_buffers_def array_block_def fun_eq_iff)
qed

text \<open>The loop has filled the first \<open>i\<close> of \<open>n\<close> entries of the arrays; \<open>s0\<close> is the stream without them.\<close>

definition filling ::
  "('q, 'e) VIOSND_ACX_DEVICE \<Rightarrow> ptr \<Rightarrow> VIOSND_ACX_STREAM \<Rightarrow> u32 \<Rightarrow> u32 \<Rightarrow> u32 \<Rightarrow> ptr multiset \<Rightarrow> nat \<Rightarrow> nat \<Rightarrow> bool" where
  "filling d p s0 A F S R n i \<longleftrightarrow> (\<exists>s pk packets pb xs pm ms. acx_streams d p = Some s \<and>
     s\<lparr>st_Packets := None, st_PacketBuffers := None, st_PacketMdls := None\<rparr> = s0 \<and> unat (st_PacketCount s0) = n \<and>
     st_Packets s = Some (pk, packets) \<and> length packets = n \<and> (\<forall>j < i. packets ! j = (if j = 0 then F else 0, S)) \<and>
     st_PacketBuffers s = Some (pb, xs @ replicate (n - i) 0) \<and> length xs = i \<and> 0 \<notin> set xs \<and>
     (\<forall>b \<in> set xs. \<exists>buf. packet_memory d b = Some buf \<and> length buf = unat A) \<and>
     st_PacketMdls s = Some (pm, ms) \<and> length ms = n \<and> storage_ok d s R)"

text \<open>After a failure the stream owns no block any more.\<close>

definition storage_released ::
  "('q, 'e) VIOSND_ACX_DEVICE \<Rightarrow> ptr \<Rightarrow> VIOSND_ACX_STREAM \<Rightarrow> ptr multiset \<Rightarrow> bool" where
  "storage_released d p s R \<longleftrightarrow> acx_streams d p = Some (no_packets s) \<and> mset (wdf_pool d) = R \<and> distinct (wdf_pool d)"

lemma storage_ok_env:
  "storage_ok (d\<lparr>wdf_env := e\<rparr>) s R = storage_ok d s R" "storage_ok (upd_stream p f d) s R = storage_ok d s R"
  "storage_ok (d\<lparr>packet_memory := m\<rparr>) s R = storage_ok d s R"
  by (simp_all add: storage_ok_def upd_stream_def)

lemma acx_pool_alloc:
  assumes "wdf_pool_ok (wdf K)" "wdf_pool_alloc (wdf K) d sz = (b, d')"
  obtains e where "d' = d\<lparr>wdf_env := e, wdf_pool := (if b = 0 then wdf_pool d else b # wdf_pool d)\<rparr>" "b = 0 \<or> b \<notin> set (wdf_pool d)"
proof -
  obtain e where a: "ExAllocatePoolUninitialized (wdf K) (wdf_env d) (wdf_pool d) sz = (b, e)" "d' = d\<lparr>wdf_env := e, wdf_pool := (if b = 0 then wdf_pool d else b # wdf_pool d)\<rparr>"
    using assms(2) by (auto simp: wdf_pool_alloc_def split: prod.splits)
  have "b = 0 \<or> b \<notin> set (wdf_pool d)" using assms(1) a(1) unfolding wdf_pool_ok_def by (metis fst_conv)
  then show thesis using a(2) that by blast
qed

lemma filling_released:
  assumes "acx_streams d p = Some s" "p \<noteq> 0" "storage_ok d s R"
    "s\<lparr>st_Packets := None, st_PacketBuffers := None, st_PacketMdls := None\<rparr> = s0"
  shows "\<exists>d'. ViosndEvtStreamFreeRtPackets K p d = Some d' \<and> storage_released d' p s0 R"
proof -
  have "no_packets s = no_packets s0" using assms(4) by auto
  then show ?thesis using free_storage_ok [OF assms(1-3), of K]
    by (auto simp: ViosndEvtStreamFreeRtPackets_def storage_released_def)
qed

lemma alloc_packets_ok:
  fixes K :: "('q, 'e) acx_kernel"
  assumes "wdf_pool_ok (wdf K)" "p \<noteq> 0" "filling d p s0 A F S R n i" "i \<le> n"
  shows "\<exists>status d'. alloc_packets K p A F S [i..<n] d = Some (status, d') \<and>
    (if NT_SUCCESS status then filling d' p s0 A F S R n n else storage_released d' p s0 R)"
  using assms(3,4)
proof (induction "n - i" arbitrary: d i)
  case 0
  then show ?case by simp
next
  case (Suc k)
  then have i: "i < n" by simp
  obtain s pk packets pb xs pm ms where s: "acx_streams d p = Some s"
     "s\<lparr>st_Packets := None, st_PacketBuffers := None, st_PacketMdls := None\<rparr> = s0" "unat (st_PacketCount s0) = n"
     "st_Packets s = Some (pk, packets)" "length packets = n" "\<forall>j < i. packets ! j = (if j = 0 then F else 0, S)"
     "st_PacketBuffers s = Some (pb, xs @ replicate (n - i) 0)" "length xs = i" "0 \<notin> set xs"
     "\<forall>b \<in> set xs. \<exists>buf. packet_memory d b = Some buf \<and> length buf = unat A"
     "st_PacketMdls s = Some (pm, ms)" "length ms = n" "storage_ok d s R"
    using Suc.prems(1) unfolding filling_def by blast
  have c: "unat (st_PacketCount s) = n" using s(2,3) by auto
  have bl: "packet_blocks s = xs @ pb # pm # pk # array_block (st_RenderReadyQueue s)"
    using s(4,7-9,11) c i by (auto simp: packet_blocks_def packet_buffers_def array_block_def filter_id_conv)
  obtain b d1 where a: "wdf_pool_alloc (wdf K) d (unat A) = (b, d1)" by force
  obtain e where d1: "d1 = d\<lparr>wdf_env := e, wdf_pool := (if b = 0 then wdf_pool d else b # wdf_pool d)\<rparr>" "b = 0 \<or> b \<notin> set (wdf_pool d)"
    using acx_pool_alloc [OF assms(1) a] .
  let ?s1 = "s\<lparr>st_PacketBuffers := Some (pb, (xs @ replicate (n - i) 0)[i := b])\<rparr>"
  have upt: "[i..<n] = i # [Suc i..<n]" using i by (rule upt_conv_Cons)
  have rep: "(xs @ replicate (n - i) 0)[i := b] = (xs @ [b]) @ replicate (n - Suc i) 0"
    using s(8) i by (simp add: list_update_append Suc_diff_Suc [symmetric])
  have st1: "upd_stream p (\<lambda>s. s\<lparr>st_PacketBuffers := set_elem i b (st_PacketBuffers s)\<rparr>) d1 = d1\<lparr>acx_streams := (acx_streams d)(p \<mapsto> ?s1)\<rparr>"
    using s(1,7) by (simp add: upd_stream_def d1)
  let ?d1 = "d1\<lparr>acx_streams := (acx_streams d)(p \<mapsto> ?s1)\<rparr>"
  show ?case
  proof (cases "b = 0")
    case True
    have "(xs @ replicate (n - i) 0)[i := b] = xs @ replicate (n - i) 0"
      using s(8) i True by (simp add: list_update_same_conv nth_append)
    then have "?s1 = s\<lparr>st_PacketBuffers := st_PacketBuffers s\<rparr>" by (simp only: s(7))
    then have "?s1 = s" by simp
    then have "acx_streams ?d1 p = Some s" "storage_ok ?d1 s R" using s(13) True by (simp_all add: d1 storage_ok_def)
    then obtain d' where "ViosndEvtStreamFreeRtPackets K p ?d1 = Some d'" "storage_released d' p s0 R"
      using filling_released [OF _ assms(2) _ s(2)] by blast
    then have "alloc_packets K p A F S [i..<n] d = Some (STATUS_INSUFFICIENT_RESOURCES, d')"
      using True by (simp add: upt a st1 [unfolded True])
    then show ?thesis using \<open>storage_released d' p s0 R\<close>
      by (intro exI [of _ STATUS_INSUFFICIENT_RESOURCES] exI [of _ d']) simp
  next
    case b: False
    obtain m e2 where m: "IoAllocateMdl K (wdf_env ?d1) = (m, e2)" by force
    let ?s2 = "?s1\<lparr>st_PacketMdls := Some (pm, ms[i := m])\<rparr>"
    let ?d2 = "d\<lparr>wdf_pool := b # wdf_pool d, wdf_env := e2, packet_memory := (packet_memory d)(b \<mapsto> replicate (unat A) 0),
      acx_streams := (acx_streams d)(p \<mapsto> ?s2)\<rparr>"
    have s2: "packet_blocks ?s2 = xs @ b # pb # pm # pk # array_block (st_RenderReadyQueue s)"
      using s(4,8,9) c i b by (auto simp: packet_blocks_def packet_buffers_def array_block_def filter_id_conv rep)
    have ok2: "storage_ok d' ?s2 R" if "wdf_pool d' = b # wdf_pool d" for d' :: "('q, 'e) VIOSND_ACX_DEVICE"
      using s(13) d1(2) b that s(8,12) c i by (simp add: storage_ok_def bl s2)
    have step: "alloc_packets K p A F S [i..<n] d = (if m = 0 then do {
           d \<leftarrow> ViosndEvtStreamFreeRtPackets K p ?d2;
           Some (STATUS_INSUFFICIENT_RESOURCES, d)
         }
         else alloc_packets K p A F S [Suc i..<n]
           (upd_stream p (\<lambda>s. s\<lparr>st_Packets := set_elem i (if i = 0 then F else 0, S) (st_Packets s)\<rparr>) ?d2))"
      using b m s(1,11) by (simp add: upt a st1) (simp add: upd_stream_def d1)
    show ?thesis
    proof (cases "m = 0")
      case True
      have "acx_streams ?d2 p = Some ?s2" "storage_ok ?d2 ?s2 R" using ok2 by simp_all
      moreover have "?s2\<lparr>st_Packets := None, st_PacketBuffers := None, st_PacketMdls := None\<rparr> = s0" using s(2) by auto
      ultimately obtain d' where "ViosndEvtStreamFreeRtPackets K p ?d2 = Some d'" "storage_released d' p s0 R"
        using filling_released [OF _ assms(2)] by blast
      then have "alloc_packets K p A F S [i..<n] d = Some (STATUS_INSUFFICIENT_RESOURCES, d')"
        using True by (simp add: step)
      then show ?thesis using \<open>storage_released d' p s0 R\<close>
        by (intro exI [of _ STATUS_INSUFFICIENT_RESOURCES] exI [of _ d']) simp
    next
      case False
      let ?s3 = "?s2\<lparr>st_Packets := Some (pk, packets[i := (if i = 0 then F else 0, S)])\<rparr>"
      let ?d3 = "?d2\<lparr>acx_streams := (acx_streams d)(p \<mapsto> ?s3)\<rparr>"
      have u: "upd_stream p (\<lambda>s. s\<lparr>st_Packets := set_elem i (if i = 0 then F else 0, S) (st_Packets s)\<rparr>) ?d2 = ?d3"
        using s(4) by (simp add: upd_stream_def)
      have "filling ?d3 p s0 A F S R n (Suc i)"
        unfolding filling_def
      proof (intro exI conjI)
        show "acx_streams ?d3 p = Some ?s3" by simp
        show "?s3\<lparr>st_Packets := None, st_PacketBuffers := None, st_PacketMdls := None\<rparr> = s0" using s(2) by auto
        show "st_PacketBuffers ?s3 = Some (pb, (xs @ [b]) @ replicate (n - Suc i) 0)" by (simp add: rep)
        show "st_PacketMdls ?s3 = Some (pm, ms[i := m])" by simp
        show "length (ms[i := m]) = n" using s(12) by simp
        have "packet_blocks ?s3 = packet_blocks ?s2" using s(4) by (simp add: packet_blocks_def packet_buffers_def array_block_def)
        then show "storage_ok ?d3 ?s3 R" using ok2 [of ?d3] by (simp add: storage_ok_def)
        show "\<forall>x \<in> set (xs @ [b]). \<exists>buf. packet_memory ?d3 x = Some buf \<and> length buf = unat A" using s(10) by auto
        show "\<forall>j < Suc i. packets[i := (if i = 0 then F else 0, S)] ! j = (if j = 0 then F else 0, S)"
          using s(5,6) i by (simp add: nth_list_update less_Suc_eq)
      qed (use s b in simp_all)
      moreover have "k = n - Suc i" "Suc i \<le> n" using Suc.hyps(2) i by simp_all
      ultimately show ?thesis using Suc.hyps(1) [of "Suc i" ?d3] False by (simp add: step u)
    qed
  qed
qed

lemma page_rounded:
  assumes "packetSize \<noteq> 0" "\<not> PAGE_SIZE < packetSize"
  shows "(packetSize + PAGE_SIZE - 1) AND NOT (PAGE_SIZE - 1) = PAGE_SIZE"
proof -
  let ?y = "packetSize + PAGE_SIZE - 1"
  have y: "unat ?y = unat packetSize + 4095"
    using assms by (simp add: word_less_nat_alt not_less unat_word_ariths unat_gt_0)
  have m: "(PAGE_SIZE - 1 :: u32) = mask 12" by (simp add: mask_eq_exp_minus_1)
  have d: "?y AND NOT (mask 12) = push_bit 12 (drop_bit 12 ?y)"
    by (rule bit_eqI) (auto simp: bit_simps)
  have "unat (drop_bit 12 ?y) = (unat packetSize + 4095) div 4096" unfolding unat_drop_bit_eq y by (simp add: drop_bit_eq_div)
  also have "\<dots> = 1"
  proof -
    have "0 < unat packetSize" "unat packetSize \<le> 4096" using assms by (simp_all add: unat_gt_0 word_less_nat_alt not_less)
    then show ?thesis by simp
  qed
  finally have "drop_bit 12 ?y = 1" by (metis unat_1 unsigned_1 word_unat_eq_iff)
  then show ?thesis unfolding m d by simp
qed

text \<open>What the loop has filled is what \<open>ViosndGetPacketVa\<close> finds.\<close>

lemma filled_packet:
  assumes "filling d p s0 A F S R n n" "0 < n" "unat F + unat S \<le> unat A" "unat S \<le> unat A" "S \<noteq> 0"
  obtains s bs where "acx_streams d p = Some s" "s\<lparr>st_Packets := None, st_PacketBuffers := None, st_PacketMdls := None\<rparr> = s0" "storage_ok d s R"
    "length bs = n" "distinct bs" "set bs \<subseteq> set (packet_blocks s)"
    "\<And>packet. \<exists>off buf. ViosndGetPacketVa (s\<lparr>st_PacketSize := S\<rparr>) packet = Some (bs ! unat (packet mod st_PacketCount s), off) \<and>
       bs ! unat (packet mod st_PacketCount s) \<noteq> 0 \<and> packet_memory d (bs ! unat (packet mod st_PacketCount s)) = Some buf \<and>
       off + unat S \<le> length buf"
proof -
  obtain s pk packets pb bs pm ms where s: "acx_streams d p = Some s"
     "s\<lparr>st_Packets := None, st_PacketBuffers := None, st_PacketMdls := None\<rparr> = s0" "unat (st_PacketCount s0) = n"
     "st_Packets s = Some (pk, packets)" "length packets = n" "\<forall>j < n. packets ! j = (if j = 0 then F else 0, S)"
     "st_PacketBuffers s = Some (pb, bs)" "length bs = n" "0 \<notin> set bs"
     "\<forall>b \<in> set bs. \<exists>buf. packet_memory d b = Some buf \<and> length buf = unat A" "storage_ok d s R"
    using assms(1) unfolding filling_def by auto
  have c: "unat (st_PacketCount s) = n" "st_PacketCount s \<noteq> 0" using s(2,3) assms(2) by auto
  have pb: "packet_buffers s = bs" using s(7-9) c by (auto simp: packet_buffers_def filter_id_conv)
  have "mset bs \<subseteq># mset (wdf_pool d)" using s(11) pb by (simp add: storage_ok_def packet_blocks_def)
  then have "distinct bs" by (rule distinct_sub) (use s(11) in \<open>simp add: storage_ok_def\<close>)
  moreover have "set bs \<subseteq> set (packet_blocks s)" using pb by (simp add: packet_blocks_def)
  moreover have "\<exists>off buf. ViosndGetPacketVa (s\<lparr>st_PacketSize := S\<rparr>) packet = Some (bs ! unat (packet mod st_PacketCount s), off) \<and>
       bs ! unat (packet mod st_PacketCount s) \<noteq> 0 \<and> packet_memory d (bs ! unat (packet mod st_PacketCount s)) = Some buf \<and>
       off + unat S \<le> length buf" for packet
  proof -
    let ?i = "unat (packet mod st_PacketCount s)"
    have i: "?i < n" using assms(2) c by (simp add: unat_mod_distrib)
    then have b: "bs ! ?i \<in> set bs" using s(8) by simp
    then obtain buf where "packet_memory d (bs ! ?i) = Some buf" "length buf = unat A" using s(10) by blast
    moreover have "bs ! ?i \<noteq> 0" using b s(9) by metis
    ultimately show ?thesis using i s(4-8) c(2) assms(3-5) by (auto simp: ViosndGetPacketVa_def read_at_def Let_def)
  qed
  ultimately show thesis using that s(1,2,8,11) by blast
qed

lemma pool_array:
  fixes K :: "('q, 'e) acx_kernel"
  assumes "wdf_pool_ok (wdf K)" "wdf_pool_alloc (wdf K) d sz = (b, d')" "distinct (wdf_pool d)"
  shows "mset (wdf_pool d') = mset (array_block (new_array b xs)) + mset (wdf_pool d)" "distinct (wdf_pool d')"
    "acx_streams d' = acx_streams d"
proof -
  obtain e where d: "d' = d\<lparr>wdf_env := e, wdf_pool := (if b = 0 then wdf_pool d else b # wdf_pool d)\<rparr>" "b = 0 \<or> b \<notin> set (wdf_pool d)"
    using acx_pool_alloc [OF assms(1,2)] .
  show "mset (wdf_pool d') = mset (array_block (new_array b xs)) + mset (wdf_pool d)" "distinct (wdf_pool d')"
    "acx_streams d' = acx_streams d"
    using d assms(3) by (auto simp: array_block_def)
qed

text \<open>The four arrays of a stream, allocated in a row.\<close>

lemma four_arrays:
  fixes K :: "('q, 'e) acx_kernel"
  assumes "wdf_pool_ok (wdf K)" "distinct (wdf_pool d0)"
    "wdf_pool_alloc (wdf K) d0 n1 = (packets, d1)" "wdf_pool_alloc (wdf K) d1 n2 = (buffers, d2)"
    "wdf_pool_alloc (wdf K) d2 n3 = (mdls, d3)" "(if capture then (0, d3) else wdf_pool_alloc (wdf K) d3 n4) = (ready, d4)"
  shows "distinct (wdf_pool d4)" "acx_streams d4 = acx_streams d0"
    "st_Packets s = new_array packets pk \<Longrightarrow> st_PacketBuffers s = new_array buffers bs \<Longrightarrow> st_PacketMdls s = new_array mdls ms \<Longrightarrow>
     st_RenderReadyQueue s = (if capture then None else new_array ready q) \<Longrightarrow> packet_buffers s = [] \<Longrightarrow>
     mset (wdf_pool d4) = mset (packet_blocks s) + mset (wdf_pool d0)"
proof -
  note p1 = pool_array [OF assms(1,3,2)]
  note p2 = pool_array [OF assms(1,4) p1(2)]
  note p3 = pool_array [OF assms(1,5) p2(2)]
  have p4: "mset (wdf_pool d4) = mset (array_block (if capture then None else new_array ready q)) + mset (wdf_pool d3)" "distinct (wdf_pool d4)"
    "acx_streams d4 = acx_streams d3"
  proof (atomize (full), cases capture)
    case True
    then show "mset (wdf_pool d4) = mset (array_block (if capture then None else new_array ready q)) + mset (wdf_pool d3) \<and>
      distinct (wdf_pool d4) \<and> acx_streams d4 = acx_streams d3" using assms(6) p3(2) by (simp add: array_block_def)
  next
    case False
    then show "mset (wdf_pool d4) = mset (array_block (if capture then None else new_array ready q)) + mset (wdf_pool d3) \<and>
      distinct (wdf_pool d4) \<and> acx_streams d4 = acx_streams d3" using assms(6) pool_array(2,3) [OF assms(1) _ p3(2)] pool_array(1) [OF assms(1) _ p3(2), where xs = q] by simp
  qed
  show "distinct (wdf_pool d4)" "acx_streams d4 = acx_streams d0" using p1(3) p2(3) p3(3) p4(2,3) by simp_all
  assume "st_Packets s = new_array packets pk" "st_PacketBuffers s = new_array buffers bs" "st_PacketMdls s = new_array mdls ms"
     "st_RenderReadyQueue s = (if capture then None else new_array ready q)" "packet_buffers s = []"
  then show "mset (wdf_pool d4) = mset (packet_blocks s) + mset (wdf_pool d0)"
    using p1(1) [of pk] p2(1) [of bs] p3(1) [of ms] p4(1) by (simp add: packet_blocks_def)
qed

lemma packet_va_cong:
  assumes "st_PacketBuffers s = st_PacketBuffers t" "st_PacketCount s = st_PacketCount t" "st_PacketSize s = st_PacketSize t"
    "st_Packets s = st_Packets t"
  shows "ViosndGetPacketVa s packet = ViosndGetPacketVa t packet"
  unfolding ViosndGetPacketVa_def assms by (rule refl)

lemma packet_blocks_cong:
  assumes "st_PacketBuffers s = st_PacketBuffers t" "st_PacketCount s = st_PacketCount t" "st_PacketMdls s = st_PacketMdls t"
    "st_Packets s = st_Packets t" "st_RenderReadyQueue s = st_RenderReadyQueue t"
  shows "packet_blocks s = packet_blocks t"
  unfolding packet_blocks_def packet_buffers_def assms by (rule refl)

text \<open>What a stream has after its packets were allocated.\<close>

definition packets_ready :: "('q, 'e) VIOSND_ACX_DEVICE \<Rightarrow> VIOSND_ACX_STREAM \<Rightarrow> u32 \<Rightarrow> u32 \<Rightarrow> bool" where
  "packets_ready d s packetCount packetSize \<longleftrightarrow> st_PacketCount s = packetCount \<and> st_PacketSize s = packetSize \<and>
     (\<exists>bs. length bs = unat packetCount \<and> distinct bs \<and> set bs \<subseteq> set (packet_blocks s) \<and>
       (\<forall>packet. \<exists>off buf. ViosndGetPacketVa s packet = Some (bs ! unat (packet mod packetCount), off) \<and>
          bs ! unat (packet mod packetCount) \<noteq> 0 \<and> packet_memory d (bs ! unat (packet mod packetCount)) = Some buf \<and>
          off + unat packetSize \<le> length buf)) \<and>
     (\<not> st_Capture s \<longrightarrow> ready_ok s \<and> ready_packets s = [] \<and> ready_room s = unat packetCount)"

text \<open>The last step of the allocation, when the loop has filled the arrays.\<close>

abbreviation (input) finish_packets :: "u32 \<Rightarrow> u32 \<Rightarrow> u32 \<Rightarrow> VIOSND_ACX_STREAM \<Rightarrow> VIOSND_ACX_STREAM" where
  "finish_packets packetCount packetSize F \<equiv> (\<lambda>s. s\<lparr>st_PacketCount := packetCount, st_PacketSize := packetSize,
     st_PacketAllocBytes := PAGE_SIZE, st_FirstPacketOffset := F,
     st_RenderReadyCapacity := (if st_Capture s then 0 else packetCount), st_RenderReadyHead := 0,
     st_RenderReadyTail := 0, st_RenderReadyCount := 0\<rparr>)"

lemma finished_ready:
  assumes "filling d p s0 PAGE_SIZE F packetSize R (unat packetCount) (unat packetCount)" "packetCount \<noteq> 0"
    "unat F + unat packetSize \<le> unat PAGE_SIZE" "packetSize \<noteq> 0" "st_PacketCount s0 = packetCount"
    "\<not> st_Capture s0 \<Longrightarrow> st_RenderReadyQueue s0 = Some (b, replicate (unat packetCount) 0)"
  shows "\<exists>s'. acx_streams (upd_stream p (finish_packets packetCount packetSize F) d) p = Some s' \<and>
    st_Capture s' = st_Capture s0 \<and> storage_ok (upd_stream p (finish_packets packetCount packetSize F) d) s' R \<and>
    packets_ready (upd_stream p (finish_packets packetCount packetSize F) d) s' packetCount packetSize"
proof -
  let ?n = "unat packetCount" and ?fin = "finish_packets packetCount packetSize F"
  have n: "0 < ?n" "unat packetSize \<le> unat (PAGE_SIZE :: u32)" using assms(2,3) by (simp_all add: unat_gt_0)
  obtain s bs where s: "acx_streams d p = Some s" "s\<lparr>st_Packets := None, st_PacketBuffers := None, st_PacketMdls := None\<rparr> = s0"
    "storage_ok d s R" "length bs = ?n" "distinct bs" "set bs \<subseteq> set (packet_blocks s)"
    "\<And>packet. \<exists>off buf. ViosndGetPacketVa (s\<lparr>st_PacketSize := packetSize\<rparr>) packet = Some (bs ! unat (packet mod st_PacketCount s), off) \<and>
       bs ! unat (packet mod st_PacketCount s) \<noteq> 0 \<and> packet_memory d (bs ! unat (packet mod st_PacketCount s)) = Some buf \<and>
       off + unat packetSize \<le> length buf"
    using filled_packet [OF assms(1) n(1) assms(3) n(2) assms(4)] by blast
  have f: "st_PacketCount s = packetCount" "st_Capture s = st_Capture s0" "st_RenderReadyQueue s = st_RenderReadyQueue s0"
    using s(2) assms(5) by auto
  let ?s = "?fin s" and ?d = "upd_stream p ?fin d"
  have fields: "st_PacketBuffers ?s = st_PacketBuffers s" "st_PacketCount ?s = st_PacketCount s" "st_PacketMdls ?s = st_PacketMdls s"
    "st_Packets ?s = st_Packets s" "st_RenderReadyQueue ?s = st_RenderReadyQueue s" using f(1) by simp_all
  have bl: "packet_blocks ?s = packet_blocks s" by (rule packet_blocks_cong [OF fields])
  have va: "ViosndGetPacketVa ?s packet = ViosndGetPacketVa (s\<lparr>st_PacketSize := packetSize\<rparr>) packet" for packet
    by (rule packet_va_cong) (use f(1) in simp_all)
  have "acx_streams ?d p = Some ?s" using s(1) by (simp add: upd_stream_def)
  moreover have "storage_ok ?d ?s R" using s(3) unfolding storage_ok_def bl fields by (simp add: upd_stream_def)
  moreover have "packets_ready ?d ?s packetCount packetSize"
    unfolding packets_ready_def bl va
  proof (intro conjI impI exI [of _ bs] allI)
    show "\<exists>off buf. ViosndGetPacketVa (s\<lparr>st_PacketSize := packetSize\<rparr>) packet = Some (bs ! unat (packet mod packetCount), off) \<and>
      bs ! unat (packet mod packetCount) \<noteq> 0 \<and> packet_memory ?d (bs ! unat (packet mod packetCount)) = Some buf \<and>
      off + unat packetSize \<le> length buf" for packet
      using s(7) [of packet] f(1) by (simp add: upd_stream_def)
    assume c: "\<not> st_Capture ?s"
    then have q: "st_RenderReadyQueue ?s = Some (b, replicate ?n 0)" "\<not> st_Capture s0" using f(2,3) assms(6) by simp_all
    then show "ready_ok ?s" "ready_packets ?s = []" "ready_room ?s = ?n"
      using c n(1) f(3) by (simp_all add: ready_ok_def ready_room_def ready_packets_def)
  qed (use s(4-6) in simp_all)
  ultimately show ?thesis using f(2) by (intro exI [of _ ?s]) simp
qed

lemma packets_filled:
  fixes K :: "('q, 'e) acx_kernel" and packetCount packetSize F :: u32 and p :: ptr
  defines "n \<equiv> unat packetCount"
  defines "fin \<equiv> upd_stream p (finish_packets packetCount packetSize F)"
  assumes "wdf_pool_ok (wdf K)" "p \<noteq> 0" "acx_streams d p = Some s" "storage_ok d s R"
    "st_Packets s = Some (packets, replicate n (0, 0))" "st_PacketBuffers s = Some (buffers, replicate n 0)"
    "st_PacketMdls s = Some (mdls, replicate n 0)" "st_PacketCount s = packetCount" "packetCount \<noteq> 0"
    "\<not> st_Capture s \<Longrightarrow> st_RenderReadyQueue s = Some (ready, replicate n 0)"
    "unat F + unat packetSize \<le> unat PAGE_SIZE" "packetSize \<noteq> 0"
  shows "\<exists>status d'. alloc_packets K p PAGE_SIZE F packetSize [0..<n] d = Some (status, d') \<and>
    (if NT_SUCCESS status
     then \<exists>s'. acx_streams (fin d') p = Some s' \<and> st_Capture s' = st_Capture s \<and> storage_ok (fin d') s' R \<and>
       packets_ready (fin d') s' packetCount packetSize
     else storage_released d' p s R)"
proof -
  let ?base = "s\<lparr>st_Packets := None, st_PacketBuffers := None, st_PacketMdls := None\<rparr>"
  have "filling d p ?base PAGE_SIZE F packetSize R n 0"
    unfolding filling_def using assms(5-10) by (intro exI [of _ s]) (simp add: n_def)
  from alloc_packets_ok [OF assms(3,4) this] obtain status d' where
    a: "alloc_packets K p PAGE_SIZE F packetSize [0..<n] d = Some (status, d')"
    "if NT_SUCCESS status then filling d' p ?base PAGE_SIZE F packetSize R n n else storage_released d' p ?base R" by auto
  show ?thesis
  proof (cases "NT_SUCCESS status")
    case True
    then have fill: "filling d' p ?base PAGE_SIZE F packetSize R (unat packetCount) (unat packetCount)" using a(2) by (simp add: n_def)
    have b: "st_PacketCount ?base = packetCount" "st_Capture ?base = st_Capture s"
      "\<not> st_Capture ?base \<Longrightarrow> st_RenderReadyQueue ?base = Some (ready, replicate (unat packetCount) 0)"
      using assms(10,12) by (simp_all add: n_def)
    from finished_ready [OF fill assms(11,13,14) b(1,3)] show ?thesis using a(1) True unfolding b(2) fin_def
      by (intro exI [of _ status] exI [of _ d']) simp
  next
    case False
    then have "storage_released d' p s R" using a(2) by (simp add: storage_released_def)
    then show ?thesis using a(1) False by (intro exI [of _ status] exI [of _ d']) simp
  qed
qed

text \<open>
  C30: allocating the packets of an ACX stream always returns and accounts for every block of pool
  memory.  When it succeeds, the stream owns one buffer for each packet, all different; every packet
  number leads to the buffer of its remainder, at an offset from which a whole packet lies inside
  the buffer; a playback stream has an empty queue with room for all packets.  When it fails it has
  either changed nothing or left the stream without packets and without a block of its own.
\<close>

theorem rt_packets_allocated:
  fixes K :: "('q, 'e) acx_kernel"
  assumes "wdf_pool_ok (wdf K)" "p \<noteq> 0" "acx_streams d p = Some s" "storage_ok d s R"
  shows "\<exists>status d'. ViosndEvtStreamAllocateRtPackets K sz p packetCount packetSize d = Some (status, d') \<and>
    (if NT_SUCCESS status
     then \<exists>s'. acx_streams d' p = Some s' \<and> st_Capture s' = st_Capture s \<and> storage_ok d' s' R \<and> packets_ready d' s' packetCount packetSize
     else d' = d \<or> storage_released d' p s R)"
proof (cases "packetCount = 0 \<or> packetSize = 0 \<or> PAGE_SIZE < packetSize")
  case True
  then show ?thesis by (intro exI [of _ STATUS_INVALID_PARAMETER] exI [of _ d]) (simp add: ViosndEvtStreamAllocateRtPackets_def)
next
  case False
  let ?n = "unat packetCount" and ?F = "PAGE_SIZE - packetSize"
  have A: "(packetSize + PAGE_SIZE - 1) AND NOT (PAGE_SIZE - 1) = PAGE_SIZE" using False by (intro page_rounded) simp_all
  have sz: "unat ?F + unat packetSize \<le> unat (PAGE_SIZE :: u32)" using False by (simp add: not_less unat_sub word_le_nat_alt)
  let ?s0 = "no_packets s"
  obtain d0 where d0: "ViosndFreeRtPacketStorage K p d = Some d0" "acx_streams d0 p = Some ?s0" "mset (wdf_pool d0) = R" "distinct (wdf_pool d0)"
    using free_storage_ok [OF assms(3,2,4), of K] by auto
  obtain packets d1 where 1: "wdf_pool_alloc (wdf K) d0 (?n * sz) = (packets, d1)" by force
  obtain buffers d2 where 2: "wdf_pool_alloc (wdf K) d1 (?n * 8) = (buffers, d2)" by force
  obtain mdls d3 where 3: "wdf_pool_alloc (wdf K) d2 (?n * 8) = (mdls, d3)" by force
  obtain ready d4 where 4: "(if st_Capture s then (0, d3) else wdf_pool_alloc (wdf K) d3 (?n * 4)) = (ready, d4)" by force
  note arr = four_arrays [OF assms(1) d0(4) 1 2 3 4]
  have st4: "acx_streams d4 p = Some ?s0" using d0(2) arr(2) by simp
  let ?f5 = "\<lambda>s'. s'\<lparr>st_Packets := new_array packets [], st_PacketBuffers := new_array buffers [],
     st_PacketMdls := new_array mdls [], st_RenderReadyQueue := (if st_Capture s' then st_RenderReadyQueue s' else new_array ready [])\<rparr>"
  let ?f6 = "\<lambda>s'. s'\<lparr>st_Packets := new_array packets (replicate ?n (0, 0)), st_PacketBuffers := new_array buffers (replicate ?n 0),
      st_PacketMdls := new_array mdls (replicate ?n 0),
      st_RenderReadyQueue := (if st_Capture s' then st_RenderReadyQueue s' else new_array ready (replicate ?n 0)), st_PacketCount := packetCount\<rparr>"
  let ?d5 = "upd_stream p ?f5 d4" and ?d6 = "upd_stream p ?f6 (upd_stream p ?f5 d4)"
  have run: "ViosndEvtStreamAllocateRtPackets K sz p packetCount packetSize d =
    (if packets = 0 \<or> buffers = 0 \<or> mdls = 0 \<or> \<not> st_Capture s \<and> ready = 0 then do {
          d \<leftarrow> ViosndEvtStreamFreeRtPackets K p ?d5;
          Some (STATUS_INSUFFICIENT_RESOURCES, d)
        }
        else do {
          (status, d) \<leftarrow> alloc_packets K p PAGE_SIZE ?F packetSize [0..<?n] ?d6;
          Some (status, if \<not> NT_SUCCESS status then d else upd_stream p (finish_packets packetCount packetSize ?F) d)
        })"
    using False unfolding ViosndEvtStreamAllocateRtPackets_def d0(1) Option.bind.simps d0(2) Let_def A 1 2 3 prod.case
    by (simp add: 4 split del: if_split)
  have st5: "acx_streams ?d5 p = Some (?f5 ?s0)" "acx_streams ?d6 p = Some (?f6 (?f5 ?s0))" using st4 by (simp_all add: upd_stream_def)
  show ?thesis
  proof (cases "packets = 0 \<or> buffers = 0 \<or> mdls = 0 \<or> \<not> st_Capture s \<and> ready = 0")
    case True
    have "packet_buffers (?f5 ?s0) = []" by (simp add: packet_buffers_def)
    then have "mset (wdf_pool d4) = mset (packet_blocks (?f5 ?s0)) + mset (wdf_pool d0)"
      by (intro arr(3) [where pk = "[]" and bs = "[]" and ms = "[]" and q = "[]"]) simp_all
    then have "storage_ok ?d5 (?f5 ?s0) R" using arr(1) d0(3) unfolding storage_ok_def by (simp add: upd_stream_def)
    from filling_released [OF st5(1) assms(2) this refl] obtain d' where
      d': "ViosndEvtStreamFreeRtPackets K p ?d5 = Some d'" "acx_streams d' p = Some ?s0" "mset (wdf_pool d') = R" "distinct (wdf_pool d')"
      by (auto simp: storage_released_def)
    then have "storage_released d' p s R" by (simp add: storage_released_def)
    then show ?thesis using run True d'(1) by (intro exI [of _ STATUS_INSUFFICIENT_RESOURCES] exI [of _ d']) simp
  next
    case ok: False
    let ?s6 = "?f6 (?f5 ?s0)" and ?fin = "upd_stream p (finish_packets packetCount packetSize ?F)"
    have "packet_buffers ?s6 = []" by (simp add: packet_buffers_def)
    then have "mset (wdf_pool d4) = mset (packet_blocks ?s6) + mset (wdf_pool d0)"
      by (intro arr(3) [where pk = "replicate ?n (0, 0)" and bs = "replicate ?n 0" and ms = "replicate ?n 0" and q = "replicate ?n 0"]) simp_all
    then have "storage_ok ?d6 ?s6 R" using arr(1) d0(3) unfolding storage_ok_def by (simp add: upd_stream_def)
    then have "\<exists>status d'. alloc_packets K p PAGE_SIZE ?F packetSize [0..<?n] ?d6 = Some (status, d') \<and>
      (if NT_SUCCESS status
       then \<exists>s'. acx_streams (?fin d') p = Some s' \<and> st_Capture s' = st_Capture ?s6 \<and> storage_ok (?fin d') s' R \<and>
         packets_ready (?fin d') s' packetCount packetSize
       else storage_released d' p ?s6 R)"
      by (intro packets_filled [where packets = packets and buffers = buffers and mdls = mdls and ready = ready, OF assms(1,2) st5(2)])
        (use ok False sz in simp_all)
    then obtain status d7 where 7: "alloc_packets K p PAGE_SIZE ?F packetSize [0..<?n] ?d6 = Some (status, d7)"
      "if NT_SUCCESS status
       then \<exists>s'. acx_streams (?fin d7) p = Some s' \<and> st_Capture s' = st_Capture ?s6 \<and> storage_ok (?fin d7) s' R \<and>
         packets_ready (?fin d7) s' packetCount packetSize
       else storage_released d7 p ?s6 R" by blast
    have "st_Capture ?s6 = st_Capture s" "storage_released d7 p ?s6 R = storage_released d7 p s R"
      by (simp_all add: storage_released_def)
    then show ?thesis using 7 unfolding run if_not_P [OF ok]
      by (intro exI [of _ status] exI [of _ "if \<not> NT_SUCCESS status then d7 else ?fin d7"]) (cases "NT_SUCCESS status"; simp)
  qed
qed

section \<open>The property of the allocation\<close>

text \<open>A kernel that grants every request, and an empty device, for the example.\<close>

definition granting_wdf :: "unit wdf_kernel" where
  "granting_wdf = \<lparr>KeGetCurrentIrql = (\<lambda>e. 0), WdfCommonBufferCreate = (\<lambda>e bs n. ((STATUS_INSUFFICIENT_RESOURCES, 0, 0, 0), e)),
     WdfCollectionAdd = (\<lambda>e. (STATUS_SUCCESS, e)), ExAllocatePoolUninitialized = (\<lambda>e ps n. (foldr max ps 0 + 1, e)),
     wdf_bus_data = (\<lambda>e i n. ([], 0)), wdf_map_io = (\<lambda>e a n. (a, e)), wdf_unmap_io = (\<lambda>e a n. e),
     wdf_io_read = (\<lambda>b n a e. (0, e)), wdf_io_write = (\<lambda>b n a v e. e), WdfObjectAllocateContext = (\<lambda>e p. (STATUS_SUCCESS, e)),
     WdfInterruptGetInfo = (\<lambda>e p. (False, 0)), WdfFdoQueryForInterface = (\<lambda>e. (STATUS_SUCCESS, e)),
     WdfDmaEnablerCreate = (\<lambda>e. (STATUS_SUCCESS, e)), WdfCollectionCreate = (\<lambda>e. (STATUS_SUCCESS, e)),
     WdfSpinLockCreate = (\<lambda>e. (STATUS_SUCCESS, e)), WdfDeviceQueryPropertyEx = (\<lambda>e. (STATUS_SUCCESS, 0)),
     MmGetPhysicalAddress = (\<lambda>e p. p)\<rparr>"

definition granting_acx :: "(acx_opaque virtqueue_split, unit) acx_kernel" where
  "granting_acx = \<lparr>wdf = granting_wdf, acx_ops = split_ops, acx_device_runs = (\<lambda>e qs m. (e, qs, m)), acx_counter = (\<lambda>e. (0, e)),
     AcxRtStreamNotifyPacketComplete = (\<lambda>e p i t. e), IoAllocateMdl = (\<lambda>e. (1, e)), IoFreeMdl = (\<lambda>e p. e)\<rparr>"

definition one_stream_device :: "(acx_opaque virtqueue_split, unit) VIOSND_ACX_DEVICE" where
  "one_stream_device = \<lparr>uFeatures = 0, PCIBars = [], nInterrupts = 0, nMSIInterrupts = 0, ConfigInterrupt = 0, pQueueParams = None,
     MemoryBlockCollection = [], interrupt_context = Map.empty, wdf_memory = Map.empty, wdf_pool = [], wdf_env = (),
     QueueInterrupt = 0, acx_Queues = Map.empty,
     acx_Config = \<lparr>cfg_jacks = 0, cfg_streams = 1, cfg_chmaps = 0, cfg_controls = 0\<rparr>,
     acx_Streams = \<lparr>RenderStreamId = 0, CaptureStreamId = 0, HasRender = True, HasCapture = False\<rparr>,
     EventPoolVa = 0, EventPoolPa = 0, EventPoolBytes = 0, acx_EventBuffers = [], acx_EventBufferCount = 0, RenderCircuit = 0,
     CaptureCircuit = 0, RenderCircuitAdded = False, CaptureCircuitAdded = False, RenderStream = 1, CaptureStream = 0,
     VirtioReady = True, QueuesReady = True, acx_streams = [1 \<mapsto> zero_stream 0 False], acx_pins = Map.empty,
     acx_messages = Map.empty, packet_memory = Map.empty\<rparr>"

lemma granting_pool: "wdf_pool_ok (wdf granting_acx)"
proof -
  have m: "p \<le> foldr max ps 0" if "p \<in> set ps" for p :: ptr and ps using that by (induction ps) (auto intro: max.coboundedI2)
  have "foldr max ps 0 + 1 \<notin> set ps" if "foldr max ps 0 + 1 \<noteq> (0 :: ptr)" for ps
  proof
    assume "foldr max ps 0 + 1 \<in> set ps"
    then have "foldr max ps 0 + 1 \<le> foldr max ps 0" by (rule m)
    moreover have "unat (1 + foldr max ps 0) = Suc (unat (foldr max ps 0))" using that by (intro unatSuc) (simp add: add.commute)
    ultimately show False by (simp add: word_le_nat_alt add.commute)
  qed
  then show ?thesis by (simp add: wdf_pool_ok_def granting_acx_def granting_wdf_def)
qed

theorem rt_packets_allocated_witness:
  "\<exists>status d'. ViosndEvtStreamAllocateRtPackets granting_acx 16 1 2 480 one_stream_device = Some (status, d')"
proof -
  have s: "acx_streams one_stream_device 1 = Some (zero_stream 0 False)" by (simp add: one_stream_device_def)
  have "storage_ok one_stream_device (zero_stream 0 False) {#}"
    by (simp add: storage_ok_def packet_blocks_def packet_buffers_def array_block_def one_stream_device_def zero_stream_def)
  then show ?thesis using rt_packets_allocated [OF granting_pool _ s, of "{#}" 16 2 480] by auto
qed

end
