(* ===== verification/Acx_Driver.thy ===== *)
theory Acx_Driver
  imports Acx_Circuit
begin

text \<open>
  The device of the ACX build: the bring-up of virtio and its end (\<open>viosnd/sys/ViosndAcxVirtio.cpp\<close>),
  the plug-and-play and power callbacks, the interrupt and the creation of the device
  (\<open>viosnd/sys/ViosndAcxDriver.cpp\<close>).

  As in \<open>Snd_Init\<close> the state is the library's record with the device context as its system state;
  a queue that has been handed to the driver is kept in \<open>acx_Queues\<close>, and \<open>acx_sync_queues\<close> gives
  it back before the library deletes it.
\<close>

section \<open>Bring-up of virtio\<close>

type_synonym 'e acx_context = "(acx_opaque virtqueue_split, 'e) VIOSND_ACX_DEVICE"
type_synonym 'e acx_device = "(acx_opaque, 'e acx_context) virtio_device"
type_synonym 'e acx_host = "(acx_opaque virtqueue_split, 'e) acx_kernel"

definition acx_system :: "'e acx_host \<Rightarrow> virtio_sizes \<Rightarrow> (acx_opaque, 'e acx_context) virtio_system_ops" where
  "acx_system K Z = VirtIOWdfSystemOps (wdf K) Z (acx_delay K)"

abbreviation (input) on_acx :: "('e acx_context \<Rightarrow> 'e acx_context option) \<Rightarrow> 'e acx_device \<Rightarrow> 'e acx_device option" where
  "on_acx f vd \<equiv> map_option (\<lambda>d. vd\<lparr>vdev_sys := d\<rparr>) (f (vdev_sys vd))"

abbreviation (input) on_acx_status ::
  "('e acx_context \<Rightarrow> (NTSTATUS \<times> 'e acx_context) option) \<Rightarrow> 'e acx_device \<Rightarrow> (NTSTATUS \<times> 'e acx_device) option" where
  "on_acx_status f vd \<equiv> map_option (\<lambda>(status, d). (status, vd\<lparr>vdev_sys := d\<rparr>)) (f (vdev_sys vd))"

text \<open>\<open>Device->Queues\<close> receives the addresses that \<open>virtio_find_queues\<close> stored.\<close>

definition acx_hand_over :: "ptr list \<Rightarrow> 'e acx_device \<Rightarrow> 'e acx_device" where
  "acx_hand_over vqs vd = vd\<lparr>vdev_sys := (vdev_sys vd)\<lparr>acx_Queues := (\<lambda>i.
     if vq_number i < length vqs then split_of (vdev_vqs vd (vqs ! vq_number i)) else acx_Queues (vdev_sys vd) i)\<rparr>\<rparr>"

definition acx_sync_queues :: "'e acx_device \<Rightarrow> 'e acx_device" where
  "acx_sync_queues vd = vd\<lparr>vdev_vqs := (\<lambda>a. map_option (\<lambda>x.
     (case List.find (\<lambda>i. word_of_nat (vq_number i) = vqo_index x)
             [VIRTIO_SND_VQ_CONTROL, VIRTIO_SND_VQ_EVENT, VIRTIO_SND_VQ_TX, VIRTIO_SND_VQ_RX] of
        None \<Rightarrow> x
      | Some i \<Rightarrow> (case acx_Queues (vdev_sys vd) i of None \<Rightarrow> x | Some q \<Rightarrow> x\<lparr>vqo_ring := Split_queue q\<rparr>)))
     (vdev_vqs vd a))\<rparr>"

text \<open>The loop that asks for the sizes of the queues and logs them.\<close>

fun query_queues :: "(acx_opaque, 'e acx_context) virtio_system_ops \<Rightarrow> nat list \<Rightarrow> 'e acx_device \<Rightarrow> 'e acx_device option" where
  "query_queues S [] vd = Some vd"
| "query_queues S (i # is) vd = do {
     (_, _, vd) \<leftarrow> virtio_query_queue_allocation S (word_of_nat i) vd;
     query_queues S is vd
   }"

definition ViosndAcxInitializeVirtio ::
  "'e acx_host \<Rightarrow> virtio_sizes \<Rightarrow> 'e acx_device \<Rightarrow> (NTSTATUS \<times> 'e acx_device) option" where
  "ViosndAcxInitializeVirtio K Z vd = do {
     let S = acx_system K Z;
     (hostFeatures, vd) \<leftarrow> VirtIOWdfGetDeviceFeatures S vd;
     let driverFeatures = (if virtio_is_feature_enabled hostFeatures VIRTIO_F_VERSION_1
                           then virtio_feature_enable 0 VIRTIO_F_VERSION_1 else 0);
     (status, vd) \<leftarrow> VirtIOWdfSetDriverFeatures S driverFeatures 0 vd;
     if \<not> NT_SUCCESS status then Some (status, vd)
     else do {
       vd \<leftarrow> query_queues S [0..<unat VIRTIO_SND_VQ_MAX] vd;
       ((status, vqs), vd) \<leftarrow> VirtIOWdfInitQueues (wdf K) S
         (replicate (unat VIRTIO_SND_VQ_MAX) (QueueInterrupt (vdev_sys vd))) vd;
       let vd = acx_hand_over vqs vd;
       if \<not> NT_SUCCESS status then Some (status, vd)
       else do {
         let vd = vd\<lparr>vdev_sys := (vdev_sys vd)\<lparr>QueuesReady := True\<rparr>\<rparr>;
         (config, vd) \<leftarrow> VirtIOWdfDeviceGet S 0 sizeof_CONFIG vd;
         let vd = vd\<lparr>vdev_sys := (vdev_sys vd)\<lparr>acx_Config := config_of_bytes config\<rparr>\<rparr>;
         (status, vd) \<leftarrow> on_acx_status (ViosndInitializeEventQueue_acx K) vd;
         Some (if \<not> NT_SUCCESS status then status else STATUS_SUCCESS, vd)
       }
     }
   }"

text \<open>\<open>VirtIOWdfDestroyQueues\<close> and the lines behind it.\<close>

definition destroy_queues :: "'e acx_host \<Rightarrow> virtio_sizes \<Rightarrow> 'e acx_device \<Rightarrow> 'e acx_device option" where
  "destroy_queues K Z vd = do {
     vd \<leftarrow> VirtIOWdfDestroyQueues (acx_system K Z) (acx_sync_queues vd);
     Some (vd\<lparr>vdev_sys := (vdev_sys vd)\<lparr>acx_Queues := Map.empty, QueuesReady := False\<rparr>\<rparr>)
   }"

text \<open>The streams are stopped while the device is ready.\<close>

definition stop_ready :: "'e acx_host \<Rightarrow> 'e acx_device \<Rightarrow> 'e acx_device option" where
  "stop_ready K vd =
     (if VirtioReady (vdev_sys vd) then do {
        vd \<leftarrow> on_acx (ViosndAcxStopStreams K True) vd;
        Some (vd\<lparr>vdev_sys := (vdev_sys vd)\<lparr>VirtioReady := False\<rparr>\<rparr>)
      }
      else Some vd)"

definition ViosndAcxDestroyDevice :: "'e acx_host \<Rightarrow> virtio_sizes \<Rightarrow> 'e acx_device \<Rightarrow> 'e acx_device option" where
  "ViosndAcxDestroyDevice K Z vd = do {
     vd \<leftarrow> stop_ready K vd;
     vd \<leftarrow> (if QueuesReady (vdev_sys vd) then destroy_queues K Z vd else Some vd);
     VirtIOWdfShutdown (wdf K) (acx_system K Z) (vd\<lparr>vdev_sys := ViosndAcxFreeEventBuffers K (vdev_sys vd)\<rparr>)
   }"

section \<open>Static circuits\<close>

definition ViosndAcxRemoveStaticCircuits ::
  "'e acx_framework \<Rightarrow> ('q, 'e) VIOSND_ACX_DEVICE \<Rightarrow> ('q, 'e) VIOSND_ACX_DEVICE" where
  "ViosndAcxRemoveStaticCircuits F d =
     (let d = (if CaptureCircuitAdded d \<and> CaptureCircuit d \<noteq> 0
               then let (status, d) = wdf_call (AcxDeviceRemoveCircuit F (CaptureCircuit d)) d
                    in if NT_SUCCESS status then d\<lparr>CaptureCircuitAdded := False\<rparr> else d
               else d)
      in if RenderCircuitAdded d \<and> RenderCircuit d \<noteq> 0
         then let (status, d) = wdf_call (AcxDeviceRemoveCircuit F (RenderCircuit d)) d
              in if NT_SUCCESS status then d\<lparr>RenderCircuitAdded := False\<rparr> else d
         else d)"

abbreviation (input) add_circuit ::
  "'e acx_framework \<Rightarrow> ptr \<Rightarrow> ('q, 'e) VIOSND_ACX_DEVICE \<Rightarrow> NTSTATUS \<times> ('q, 'e) VIOSND_ACX_DEVICE" where
  "add_circuit F circuit d \<equiv>
     (if circuit = 0 then (STATUS_DEVICE_CONFIGURATION_ERROR, d) else wdf_call (AcxDeviceAddCircuit F circuit) d)"

definition ViosndAcxAddStaticCircuits ::
  "'e acx_framework \<Rightarrow> ('q, 'e) VIOSND_ACX_DEVICE \<Rightarrow> NTSTATUS \<times> ('q, 'e) VIOSND_ACX_DEVICE" where
  "ViosndAcxAddStaticCircuits F d =
     (let (status, d) =
        (if HasRender (acx_Streams d) \<and> \<not> RenderCircuitAdded d
         then let (status, d) = add_circuit F (RenderCircuit d) d
              in (status, if NT_SUCCESS status then d\<lparr>RenderCircuitAdded := True\<rparr> else d)
         else (STATUS_SUCCESS, d))
      in if \<not> NT_SUCCESS status then (status, d)
         else if HasCapture (acx_Streams d) \<and> \<not> CaptureCircuitAdded d
         then let (status, d) = add_circuit F (CaptureCircuit d) d
              in (status, if NT_SUCCESS status then d\<lparr>CaptureCircuitAdded := True\<rparr> else d)
         else (status, d))"

section \<open>Plug and play\<close>

text \<open>The failure paths mark the device as failed and destroy it.\<close>

definition give_up :: "'e acx_host \<Rightarrow> virtio_sizes \<Rightarrow> 'e acx_device \<Rightarrow> 'e acx_device option" where
  "give_up K Z vd = do {
     vd \<leftarrow> VirtIOWdfSetDriverFailed (acx_system K Z) vd;
     ViosndAcxDestroyDevice K Z vd
   }"

definition driver_ready :: "'e acx_host \<Rightarrow> virtio_sizes \<Rightarrow> 'e acx_device \<Rightarrow> 'e acx_device option" where
  "driver_ready K Z vd = do {
     vd \<leftarrow> VirtIOWdfSetDriverOK (acx_system K Z) vd;
     Some (vd\<lparr>vdev_sys := (vdev_sys vd)\<lparr>VirtioReady := True\<rparr>\<rparr>)
   }"

text \<open>The part that \<open>PrepareHardware\<close> and \<open>D0Entry\<close> share.\<close>

definition init_and_query ::
  "'e acx_host \<Rightarrow> virtio_sizes \<Rightarrow> 'e acx_device \<Rightarrow> (NTSTATUS \<times> 'e acx_device) option" where
  "init_and_query K Z vd = do {
     (status, vd) \<leftarrow> ViosndAcxInitializeVirtio K Z vd;
     if \<not> NT_SUCCESS status then do {
       vd \<leftarrow> give_up K Z vd;
       Some (status, vd)
     }
     else do {
       (status, vd) \<leftarrow> on_acx_status (ViosndAcxQueryPcmStreams K) vd;
       vd \<leftarrow> (if \<not> NT_SUCCESS status then give_up K Z vd else Some vd);
       Some (status, vd)
     }
   }"

text \<open>\<open>size_of\<close> is the size of the entry of a BAR, \<open>rs\<close> the translated resources.\<close>

definition ViosndEvtDevicePrepareHardware ::
  "'e acx_host \<Rightarrow> 'e acx_framework \<Rightarrow> virtio_sizes \<Rightarrow> nat \<Rightarrow> cm_resource list \<Rightarrow> 'e acx_device \<Rightarrow>
   (NTSTATUS \<times> 'e acx_device) option" where
  "ViosndEvtDevicePrepareHardware K F Z size_of rs vd = do {
     (status, vd) \<leftarrow> VirtIOWdfInitialize (wdf K) (acx_system K Z) size_of rs (QueueInterrupt (vdev_sys vd)) vd;
     if \<not> NT_SUCCESS status then Some (status, vd)
     else do {
       (status, vd) \<leftarrow> init_and_query K Z vd;
       if \<not> NT_SUCCESS status then Some (status, vd)
       else do {
         let (status, d) = ViosndAcxAddStaticCircuits F (vdev_sys vd);
         let vd = vd\<lparr>vdev_sys := d\<rparr>;
         vd \<leftarrow> (if NT_SUCCESS status then driver_ready K Z vd
                else give_up K Z (vd\<lparr>vdev_sys := ViosndAcxRemoveStaticCircuits F (vdev_sys vd)\<rparr>));
         Some (status, vd)
       }
     }
   }"

definition ViosndEvtDeviceReleaseHardware ::
  "'e acx_host \<Rightarrow> 'e acx_framework \<Rightarrow> virtio_sizes \<Rightarrow> 'e acx_device \<Rightarrow> (NTSTATUS \<times> 'e acx_device) option" where
  "ViosndEvtDeviceReleaseHardware K F Z vd = do {
     vd \<leftarrow> ViosndAcxDestroyDevice K Z (vd\<lparr>vdev_sys := ViosndAcxRemoveStaticCircuits F (vdev_sys vd)\<rparr>);
     Some (STATUS_SUCCESS, vd)
   }"

definition ViosndEvtDeviceD0Entry ::
  "'e acx_host \<Rightarrow> virtio_sizes \<Rightarrow> 'e acx_device \<Rightarrow> (NTSTATUS \<times> 'e acx_device) option" where
  "ViosndEvtDeviceD0Entry K Z vd =
     (if QueuesReady (vdev_sys vd) then Some (STATUS_SUCCESS, vd)
      else do {
        (status, vd) \<leftarrow> init_and_query K Z vd;
        if \<not> NT_SUCCESS status then Some (status, vd)
        else do {
          vd \<leftarrow> driver_ready K Z vd;
          Some (STATUS_SUCCESS, vd)
        }
      })"

definition ViosndEvtDeviceD0Exit ::
  "'e acx_host \<Rightarrow> virtio_sizes \<Rightarrow> 'e acx_device \<Rightarrow> (NTSTATUS \<times> 'e acx_device) option" where
  "ViosndEvtDeviceD0Exit K Z vd = do {
     vd \<leftarrow> stop_ready K vd;
     vd \<leftarrow> (if QueuesReady (vdev_sys vd) then do {
              vd \<leftarrow> destroy_queues K Z vd;
              Some (vd\<lparr>vdev_sys := ViosndAcxFreeEventBuffers K (vdev_sys vd)\<rparr>)
            }
            else Some vd);
     Some (STATUS_SUCCESS, vd)
   }"

section \<open>Interrupts\<close>

text \<open>Whether the interrupt is the device's, and then the deferred call is queued.\<close>

definition ViosndEvtInterruptIsr :: "'e acx_host \<Rightarrow> virtio_sizes \<Rightarrow> 'e acx_device \<Rightarrow> bool \<times> 'e acx_device" where
  "ViosndEvtInterruptIsr K Z vd =
     (if \<not> VirtioReady (vdev_sys vd) then (False, vd)
      else let (isr, vd) = VirtIOWdfGetISRStatus (acx_system K Z) vd in (isr \<noteq> 0, vd))"

definition ViosndEvtInterruptDpc :: "'e acx_host \<Rightarrow> 'e acx_device \<Rightarrow> 'e acx_device option" where
  "ViosndEvtInterruptDpc K vd = (if VirtioReady (vdev_sys vd) then on_acx (ViosndAcxDrainQueues K) vd else Some vd)"

section \<open>Adding a device\<close>

definition zero_acx :: "('q, 'e) VIOSND_ACX_DEVICE \<Rightarrow> ('q, 'e) VIOSND_ACX_DEVICE" where
  "zero_acx d = d\<lparr>uFeatures := 0, PCIBars := [], nInterrupts := 0, nMSIInterrupts := 0, ConfigInterrupt := 0,
     pQueueParams := None, MemoryBlockCollection := [], QueueInterrupt := 0, acx_Queues := Map.empty,
     acx_Config := \<lparr>cfg_jacks = 0, cfg_streams = 0, cfg_chmaps = 0, cfg_controls = 0\<rparr>,
     acx_Streams := \<lparr>RenderStreamId = 0, CaptureStreamId = 0, HasRender = False, HasCapture = False\<rparr>,
     EventPoolVa := 0, EventPoolPa := 0, EventPoolBytes := 0,
     acx_EventBuffers := replicate VIOSND_EVENT_BUFFER_COUNT \<lparr>EventVa = 0, EventPa = 0\<rparr>, acx_EventBufferCount := 0,
     RenderCircuit := 0, CaptureCircuit := 0, RenderCircuitAdded := False, CaptureCircuitAdded := False,
     RenderStream := 0, CaptureStream := 0, VirtioReady := False, QueuesReady := False\<rparr>"

text \<open>A sequence of calls that ends with the first failure.\<close>

fun call_all ::
  "('e \<Rightarrow> NTSTATUS \<times> 'e) list \<Rightarrow> ('q, 'e) VIOSND_ACX_DEVICE \<Rightarrow> NTSTATUS \<times> ('q, 'e) VIOSND_ACX_DEVICE" where
  "call_all [] d = (STATUS_SUCCESS, d)"
| "call_all (f # fs) d = (let (status, d) = wdf_call f d in if \<not> NT_SUCCESS status then (status, d) else call_all fs d)"

definition ViosndEvtDeviceAdd ::
  "'e acx_framework \<Rightarrow> ('q, 'e) VIOSND_ACX_DEVICE \<Rightarrow> NTSTATUS \<times> ('q, 'e) VIOSND_ACX_DEVICE" where
  "ViosndEvtDeviceAdd F d =
     (let (status, d) = call_all [AcxDeviceInitInitialize F, WdfDeviceCreate F] d
      in if \<not> NT_SUCCESS status then (status, d)
         else let (status, d) = wdf_call (AcxDeviceInitialize F) (zero_acx d)
         in if \<not> NT_SUCCESS status then (status, d)
         else let ((status, intr), d) = wdf_call (WdfInterruptCreate F) d
         in if \<not> NT_SUCCESS status then (status, d)
         else let (status, d) = call_all [WdfWaitLockCreate F, WdfSpinLockCreate_acx F, WdfSpinLockCreate_acx F,
                    WdfSpinLockCreate_acx F] (d\<lparr>QueueInterrupt := intr\<rparr>)
         in if \<not> NT_SUCCESS status then (status, d)
         else let ((status, circuit), d) = ViosndAcxCreateCircuit F False d; d = d\<lparr>RenderCircuit := circuit\<rparr>
         in if \<not> NT_SUCCESS status then (status, d)
         else let ((status, circuit), d) = ViosndAcxCreateCircuit F True d; d = d\<lparr>CaptureCircuit := circuit\<rparr>
         in (if \<not> NT_SUCCESS status then status else STATUS_SUCCESS, d))"

section \<open>The path of the service parameters\<close>

text \<open>
  \<open>buffer\<close> is the path in memory, \<open>len\<close> its length in bytes, a USHORT.  The result is the status with
  the bytes of the path that was stored, without the NUL behind it.  \<open>None\<close>: a copy leaves the
  buffer of 512 units, or reads behind the path.
\<close>

definition parameters_suffix :: "u8 list" where
  "parameters_suffix = concat (map (\<lambda>c. le_bytes16 (word_of_nat c)) [92, 80, 97, 114, 97, 109, 101, 116, 101, 114, 115])"

definition ViosndInitServiceParametersPath :: "u8 list option \<Rightarrow> u16 \<Rightarrow> (NTSTATUS \<times> u8 list option) option" where
  "ViosndInitServiceParametersPath buffer len =
     (case buffer of
        None \<Rightarrow> Some (STATUS_INVALID_PARAMETER, None)
      | Some name \<Rightarrow>
          if len = 0 then Some (STATUS_INVALID_PARAMETER, None)
          else
            let totalBytes = len + word_of_nat (length parameters_suffix)
            in if 1024 < unat totalBytes + 2 then Some (STATUS_BUFFER_TOO_SMALL, None)
               else if 1024 < unat len + length parameters_suffix \<or> length name < unat len then None
               else Some (STATUS_SUCCESS, Some (take (unat len) name @ parameters_suffix)))"

lemma suffix_length [simp]: "length parameters_suffix = 22"
  by (simp add: parameters_suffix_def le_bytes16_def)

text \<open>
  C34: a path of up to 1000 bytes is stored with its suffix, a longer one is refused.  But
  \<open>totalBytes\<close> is an \<open>USHORT\<close>: from 65514 bytes on it wraps, the check passes and the copy overruns the
  buffer of 1024 bytes.
\<close>

theorem parameters_path_bounds:
  assumes "len \<noteq> 0" "unat len \<le> length name"
  shows "ViosndInitServiceParametersPath (Some name) len =
    (if unat len \<le> 1000 then Some (STATUS_SUCCESS, Some (take (unat len) name @ parameters_suffix))
     else if unat len < 65514 then Some (STATUS_BUFFER_TOO_SMALL, None)
     else None)"
proof -
  have l: "unat len < 65536" using unsigned_less [of len, where 'a = nat] by simp
  have t: "unat (len + 22) = (if unat len < 65514 then unat len + 22 else unat len - 65514)"
    using l le_mod_geq [of 65536 "unat len + 22"] by (auto simp: unat_word_ariths)
  show ?thesis using assms l t by (simp add: ViosndInitServiceParametersPath_def Let_def) (use l in linarith)
qed

theorem parameters_path_bounds_witness:
  "ViosndInitServiceParametersPath (Some (replicate 2000 0)) 1000 = Some (STATUS_SUCCESS, Some (replicate 1000 0 @ parameters_suffix)) \<and>
   ViosndInitServiceParametersPath (Some (replicate 2000 0)) 1002 = Some (STATUS_BUFFER_TOO_SMALL, None) \<and>
   ViosndInitServiceParametersPath (Some (replicate 70000 0)) 65514 = None"
  using parameters_path_bounds [of 1000 "replicate 2000 0"] parameters_path_bounds [of 1002 "replicate 2000 0"]
    parameters_path_bounds [of 65514 "replicate 70000 0"] by simp

end
