(* ===== verification/Spec2Isabelle.thy ===== *)
theory Spec2Isabelle
  imports Wave_Lifecycle Wave_Miniport Snd_Bring_Up Snd_Destroy Snd_Endpoints Acx_Storage Acx_Driver
begin

text \<open>
  Verification of viosnd, a Windows driver for the virtio sound device, and of the virtio library it
  is built on.

  \<^bold>\<open>The program.\<close>  PortCls asks \<open>CViosndMiniportWaveRT\<close> (\<open>src/viosnd/sys/ViosndWaveRT.cpp\<close>) for streams and
  drives each through \<open>SetState\<close>, \<open>SetWritePacket\<close>, \<open>GetPosition\<close> and the like; a worker thread of the stream
  moves packets between its cyclic buffer and the device.  Streams use the device object
  \<open>VIOSND_DEVICE\<close> (\<open>ViosndVirtio.cpp\<close>): control commands on the control queue, transfer descriptors on
  the TX and RX queues, DMA memory, mutexes.  That in turn uses the virtio library
  (\<open>src/VirtIO\<close>): virtqueues, and a PCI transport that finds the device's registers and sets the queues up
  through callbacks that the driver supplies.  \<open>Adapter.cpp\<close> starts the device and registers a
  topology and a WaveRT subdevice for each endpoint.  A second driver for the same device,
  \<open>src/viosnd/sys/ViosndAcx*.cpp\<close>, serves the ACX framework; it uses the virtio library through \<open>src/VirtIO/WDF\<close>.

  \<^bold>\<open>Theories and sources.\<close>
  \<^item> \<open>Viosnd_Prelude\<close>: conventions, words, NTSTATUS, little-endian images, shared lemmas.
  \<^item> \<open>Virtqueue\<close>: \<open>struct virtqueue\<close> (\<open>VirtIO.h\<close>) as the record \<open>virtqueue_ops\<close> and the locales \<open>virtqueue_ring\<close> and
    \<open>virtqueue\<close>, the contract between a queue and its user.
  \<^item> \<open>Split_Ring\<close> (\<open>VirtIORing.c\<close>), \<open>Packed_Ring\<close> (\<open>VirtIORing-Packed.c\<close>): the two rings with their invariants;
    each interprets its locale.
  \<^item> \<open>Virtio_Device\<close>, \<open>Virtio_Modern\<close>, \<open>Virtio_Legacy\<close>, \<open>Virtio_Common\<close> (\<open>virtio_pci.h\<close>, \<open>VirtIOPCIModern.c\<close>,
    \<open>VirtIOPCILegacy.c\<close>, \<open>VirtIOPCICommon.c\<close>): the device object \<open>virtio_device\<close>, the callbacks \<open>virtio_system_ops\<close>, and
    every operation of the library.  \<open>Virtio_Queues\<close>: the locale \<open>virtio_system\<close>, the contract of the callbacks,
    and the queue operations of the modern transport proved correct inside it.
  \<^item> \<open>Pcm_Format\<close> (\<open>VirtioSnd.h\<close>, \<open>ViosndPcm.cpp\<close>): wire structures, formats, the choice of streams.
  \<^item> \<open>Snd_Device\<close>, \<open>Snd_Control\<close>, \<open>Snd_Transfer\<close>, \<open>Snd_Init\<close> (\<open>ViosndVirtio.cpp\<close>): the record \<open>VIOSND_DEVICE\<close>; DMA memory,
    BARs and register access; control and event queue; PCM transfers; creation, bring-up and
    destruction.  \<open>Snd_Client\<close>: the invariant \<open>dev_inv\<close> and the locale \<open>virtio_snd\<close>, which extends
    \<open>virtqueue\<close> with the kernel.  \<open>Snd_Commands\<close>, \<open>Snd_Pcm_Io\<close>, \<open>Snd_Start\<close>, \<open>Snd_Bring_Up\<close>: proofs about these.
    \<open>Snd_Init\<close> interprets \<open>virtio_system\<close> on the driver's callbacks; \<open>Snd_Card\<close> is a concrete card, on which the
    whole bring-up is evaluated; \<open>Snd_Destroy\<close>: destruction undoes the bring-up.
  \<^item> \<open>Wave_Sample\<close>, \<open>Wave_Stream\<close>, \<open>Wave_State\<close>, \<open>Wave_Miniport\<close> (\<open>ViosndWaveRT.cpp\<close>): helpers without state, the stream
    object with its pools and packets, its worker threads and state machine, the miniport.
    \<open>Wave_Render\<close>, \<open>Wave_Playback\<close>, \<open>Wave_Lifecycle\<close>: proofs about playback streams, the last with the transition
    system \<open>stream_step\<close> that interleaves port driver, worker and device.
  \<^item> \<open>Snd_Topology\<close> (\<open>ViosndTopology.cpp\<close>), \<open>Snd_Adapter\<close> (\<open>Adapter.cpp\<close>): the topology miniport with its property
    handlers, the registration of subdevices and endpoints, the start of the device.  \<open>Snd_Endpoints\<close>: who
    holds the references on the miniports while endpoints are registered.
  \<^item> \<open>Wdf_Driver\<close> (\<open>VirtIO/WDF\<close>): the record \<open>wdf_driver\<close> with its common buffers, slices, BARs, interrupt contexts
    and the callbacks of the library.
  \<^item> \<open>Acx_Device\<close> (\<open>ViosndAcx.h\<close>, \<open>ViosndAcxVirtio.cpp\<close>), \<open>Acx_Stream\<close> and \<open>Acx_Circuit\<close> (\<open>ViosndAcxCircuit.cpp\<close>),
    \<open>Acx_Driver\<close> (\<open>ViosndAcxDriver.cpp\<close>): the record \<open>VIOSND_ACX_DEVICE\<close>, which extends \<open>wdf_driver\<close>; control
    commands, the record \<open>VIOSND_ACX_STREAM\<close> with packets and periods, circuits and stream callbacks, plug and
    play.  \<open>Acx_Queue\<close>: the locale \<open>dropping_queue\<close> and its interpretation on the queue of ready packets.
    \<open>Acx_Storage\<close>: the pool blocks of a stream's packets.

  \<^bold>\<open>How to read a definition.\<close>  It has the name of the C function it translates; a loop or a tail of a
  function is a definition of its own.  State is passed explicitly.  \<open>None\<close> is undefined
  behaviour (a freed or NULL pointer, an index out of range, division by zero), a failed
  assertion or a loop that never ends; NTSTATUS results are values.  So \<open>\<exists>r. f x = Some r\<close>
  says that the call is memory safe and returns.  Integers have their C width and wrap around.
  What the code calls but does not contain is a parameter: the records \<open>kernel\<close> (allocators, DMA, bus and
  register access, and \<open>device_runs\<close>, what the device does while the driver waits), \<open>pnp\<close>, \<open>wave_kernel\<close>, and the
  sizes \<open>virtio_sizes\<close> and \<open>format_sizes\<close> that the compiler chooses.

  \<^bold>\<open>What the lemmas show.\<close>  The rings keep \<open>split_inv\<close> and \<open>packed_inv\<close>: free list and chains in flight
  partition the table; each operation refines its effect on the multiset in flight and the list of
  completions.  The device keeps \<open>dev_inv\<close>: every stored message, transfer descriptor and event
  buffer owns its DMA buffers alone, every queue holds only tokens of stored objects.  On that rest
  total correctness of control commands, stream commands, queries, events and transfers.  A
  playback stream keeps \<open>render_ok\<close> in all reachable states.  The bring-up, from the first
  register access to \<open>DRIVER_OK\<close>, establishes \<open>dev_inv\<close> with four fresh queues or gives back what it
  took; the destruction gives everything back.  The registration of endpoints keeps \<open>adapter_inv\<close>: the
  count of every miniport is the number of references that its port and the code hold.  A stream of
  the ACX driver owns the blocks that \<open>storage_ok\<close> names, and its queue of ready packets refines a list.
  Below, the pieces are put together, from the bring-up to a stream that was created.

  \<^bold>\<open>Hypotheses.\<close>  \<open>kernel_ok\<close>: the queues are split rings, the allocators return unused memory, the
  device completes only what is in flight and changes only queues and DMA memory.  \<open>steady\<close>: an
  allocation that failed keeps failing while the same memory is in use.  \<open>tx_granted\<close>: the wait for the TX
  mutex does not time out.  \<open>threads_ok\<close>: a successful reference to a thread object is not NULL.  \<open>rx_honest\<close>: the
  device reports no more bytes than the buffer has.  \<open>port_law\<close>: the port class keeps the references on a
  miniport that it took.  \<open>wdf_pool_ok\<close>: the pool grants only blocks that are not in use.  Each property with hypotheses has a witness, in
  which the parameters are concrete functions.

  \<^bold>\<open>Bounds.\<close>  The only fuel is that of the code: 48 steps of the capability search, 8 events, 4 retries, the
  timeout of a control command counted in polls.  Loops that may not end are partial functions.

  \<^bold>\<open>Not modelled.\<close>  The asynchronous DMA transactions of \<open>VirtIO/WDF/Dma.c\<close>, which nothing in the repository
  starts; the port accessors of \<open>MemPortIO.c\<close>, which are single calls of the kernel; the driver entry points
  and GUID tables, which hand constants to the framework; registry diagnostics and debug output.
  A method of the stream runs as one atomic step, so races within a method are outside
  the model; the proofs about streams cover playback, while capture is modelled and its
  primitives are proved.  Of the ACX driver, the queue and the storage of the packets are proved; its
  control commands, transfers and callbacks are modelled.  Memory barriers have no effect in the model.
\<close>

section \<open>From the format to the stream\<close>

text \<open>The sizes of a usual compiler, and a playback miniport, for examples.\<close>

abbreviation (input) usual_sizes :: format_sizes where
  "usual_sizes \<equiv> \<lparr>sizeof_KSDATAFORMAT_WAVEFORMATEX = 82, sizeof_KSDATAFORMAT_WAVEFORMATEXTENSIBLE = 104,
     sizeof_WAVEFORMATEX = 18, sizeof_WAVEFORMATEXTENSIBLE = 40\<rparr>"

abbreviation (input) render_miniport :: wave_miniport where
  "render_miniport \<equiv> \<lparr>mp_RefCount = 1, mp_StreamId = 7, mp_Capture = False, mp_Port = 0, mp_This = 9, mp_Destroyed = False\<rparr>"

lemma default_format_accepted:
  assumes "sizeof_KSDATAFORMAT_WAVEFORMATEX S \<le> sizeof_KSDATAFORMAT_WAVEFORMATEXTENSIBLE S"
  shows "ViosndIsDefaultFormat S (Some (ViosndBuildDefaultFormat S))"
  using assms by (simp add: ViosndIsDefaultFormat_def ViosndBuildDefaultFormat_def Let_def not_less)

lemma created_stream_ok:
  assumes "allocators_ok K" "dev_inv split_inv split_inflight {} P dev" "ctl_rest split_inflight dev"
    "flight split_inflight dev VIRTIO_SND_VQ_TX = {#}" "\<not> mp_Capture mp"
    "NewStream K S n faulted pin capture f mp dev = (status, Some s, mp', dev')"
  shows "render_ok split_inv split_inflight (insert (m_This s) P) (1, s)" "m_This s \<notin> P"
    "mp_RefCount mp' = mp_RefCount mp + 1" "m_StreamId s = mp_StreamId mp"
proof -
  obtain p d where p: "pool_alloc K dev n = (p, d)" by fastforce
  have s: "s = new_wave_stream p d (mp_StreamId mp) False faulted" "p \<noteq> 0" "mp' = Miniport_AddRef mp"
    using assms(5,6) by (auto simp: NewStream_def p Let_def split: if_splits)
  note a = dev_inv_pool_alloc [OF assms(1,2) p]
  have q: "Queues d = Queues dev" "msgs d = msgs dev" using a drv_simps [of d dev] by simp_all
  have i: "dev_inv split_inv split_inflight {} (insert p P) d" using a s(2) by simp
  have c: "ctl_rest split_inflight d" using assms(3) q by (simp add: ctl_rest_def flight_cong [OF q(1)])
  have f: "flight split_inflight d VIRTIO_SND_VQ_TX = {#}" using assms(4) flight_cong [OF q(1)] by simp
  have "render_ok split_inv split_inflight (insert p P) (1, s)"
    unfolding s(1) by (rule new_stream_ok [OF i c f]) simp
  then show "render_ok split_inv split_inflight (insert (m_This s) P) (1, s)" by (simp add: s(1) new_wave_stream_def)
  show "m_This s \<notin> P" using a by (simp add: s(1) new_wave_stream_def)
  show "mp_RefCount mp' = mp_RefCount mp + 1" by (simp add: s(3) Miniport_AddRef_def)
  show "m_StreamId s = mp_StreamId mp" by (simp add: s(1) new_wave_stream_def)
qed

text \<open>
  C24: the format negotiation and the creation of streams fit together.  An intersection that
  succeeds fills the buffer of the caller with a format that lies in the data range of the system
  pin and that \<open>SetFormat\<close> and \<open>NewStream\<close> accept; with no buffer or one that is too small it asks
  for exactly the length of that format.
\<close>

theorem format_negotiation:
  assumes "0 < sizeof_KSDATAFORMAT_WAVEFORMATEX S"
    "sizeof_KSDATAFORMAT_WAVEFORMATEX S \<le> sizeof_KSDATAFORMAT_WAVEFORMATEXTENSIBLE S"
    "DataRangeIntersection S room = (status, len, r)"
  shows "len = sizeof_KSDATAFORMAT_WAVEFORMATEXTENSIBLE S \<and> NT_SUCCESS status = (len \<le> room) \<and>
    (r = None) = (\<not> NT_SUCCESS status) \<and>
    (\<forall>f. r = Some f \<longrightarrow> FormatSize f = len \<and> SetFormat S r = STATUS_SUCCESS \<and>
       Stream_range (ucast (nChannels f)) (ucast (wBitsPerSample f)) (ucast (wBitsPerSample f)) (nSamplesPerSec f) (nSamplesPerSec f)
         \<in> set (DataRanges (Pins (GetDescription mp) ! unat VIOSND_PIN_SYSTEM)) \<and>
       fst (NewStream K S n faulted VIOSND_PIN_SYSTEM (mp_Capture mp) r mp dev)
         = (if fst (pool_alloc K dev n) = 0 then STATUS_INSUFFICIENT_RESOURCES else STATUS_SUCCESS))"
proof -
  note ok = default_format_accepted [OF assms(2)]
  have pos: "0 < sizeof_KSDATAFORMAT_WAVEFORMATEXTENSIBLE S" using assms(1,2) by (rule less_le_trans)
  have r: "r = (if NT_SUCCESS status then Some (ViosndBuildDefaultFormat S) else None)"
    "len = sizeof_KSDATAFORMAT_WAVEFORMATEXTENSIBLE S" "NT_SUCCESS status = (len \<le> room)"
    using assms(3) pos by (auto simp: DataRangeIntersection_def split: if_splits)
  have desc: "DataRanges (Pins (GetDescription mp) ! unat VIOSND_PIN_SYSTEM) = ViosndPinDataRangesStream"
    by (simp add: GetDescription_def ViosndCaptureFilterDescriptor_def ViosndRenderFilterDescriptor_def
        ViosndCapturePins_def ViosndRenderPins_def)
  have new: "fst (NewStream K S n faulted VIOSND_PIN_SYSTEM (mp_Capture mp) (Some (ViosndBuildDefaultFormat S)) mp dev)
      = (if fst (pool_alloc K dev n) = 0 then STATUS_INSUFFICIENT_RESOURCES else STATUS_SUCCESS)"
    using ok by (simp add: NewStream_def split: prod.split)
  have fmt: "FormatSize (ViosndBuildDefaultFormat S) = sizeof_KSDATAFORMAT_WAVEFORMATEXTENSIBLE S"
    "SetFormat S (Some (ViosndBuildDefaultFormat S)) = STATUS_SUCCESS"
    "(\<lambda>f. Stream_range (ucast (nChannels f)) (ucast (wBitsPerSample f)) (ucast (wBitsPerSample f)) (nSamplesPerSec f) (nSamplesPerSec f))
       (ViosndBuildDefaultFormat S) \<in> set ViosndPinDataRangesStream"
    using ok by (simp_all add: SetFormat_def, simp_all add: ViosndBuildDefaultFormat_def ViosndPinDataRangesStream_def)
  show ?thesis
    unfolding desc using r fmt new by (cases "NT_SUCCESS status") simp_all
qed

theorem format_negotiation_witness:
  "\<exists>status len r. DataRangeIntersection usual_sizes 200
      = (status, len, r) \<and> len = 104 \<and> NT_SUCCESS status"
proof -
  obtain status len r where e: "DataRangeIntersection usual_sizes 200 = (status, len, r)" by (metis prod.exhaust)
  have size: "0 < sizeof_KSDATAFORMAT_WAVEFORMATEX usual_sizes"
    "sizeof_KSDATAFORMAT_WAVEFORMATEX usual_sizes \<le> sizeof_KSDATAFORMAT_WAVEFORMATEXTENSIBLE usual_sizes" by simp_all
  note n = format_negotiation [OF size e]
  have "len = 104" using n [THEN conjunct1] by simp
  moreover have "NT_SUCCESS status" using n [THEN conjunct2, THEN conjunct1] \<open>len = 104\<close> by simp
  ultimately show ?thesis using e by auto
qed

text \<open>
  C25: a playback stream that the miniport creates is safe for its whole life.  The stream has the
  identifier of the miniport, holds a reference on it and lives in a block of its own; from then
  on, whatever the port driver, the worker thread and the device do, the invariant of a playback
  stream holds.
\<close>

theorem created_stream_safe:
  assumes "kernel_ok K" "threads_ok W" "tx_granted K" "dev_inv split_inv split_inflight {} P dev"
    "ctl_rest split_inflight dev" "flight split_inflight dev VIRTIO_SND_VQ_TX = {#}" "\<not> mp_Capture mp"
    "NewStream K S n faulted pin capture f mp dev = (status, Some s, mp', dev')"
    "stream_reachable K W (1, s) x"
  shows "mp_RefCount mp' = mp_RefCount mp + 1 \<and> m_StreamId s = mp_StreamId mp \<and> m_This s \<notin> P \<and>
    render_ok split_inv split_inflight (insert (m_This s) P) x"
proof -
  have "allocators_ok K" using assms(1) by (simp add: kernel_ok_def)
  note c = created_stream_ok [OF this assms(4-8)]
  show ?thesis using c render_reachable [OF assms(1-3,9) c(1)] by blast
qed

theorem created_stream_safe_witness:
  "\<exists>status s mp' dev'. NewStream prompt_kernel usual_sizes
       600 False 0 False (Some (ViosndBuildDefaultFormat usual_sizes))
       render_miniport blank_device
       = (status, Some s, mp', dev') \<and> m_StreamId s = 7 \<and> render_ok split_inv split_inflight {m_This s} (1, s)"
proof -
  let ?new = "NewStream prompt_kernel usual_sizes 600 False 0 False (Some (ViosndBuildDefaultFormat usual_sizes)) render_miniport blank_device"
  have fmt: "ViosndIsDefaultFormat usual_sizes (Some (ViosndBuildDefaultFormat usual_sizes))" by (rule default_format_accepted) simp
  have nz: "fst (pool_alloc prompt_kernel blank_device 600) \<noteq> 0"
    by (simp add: pool_alloc_def prompt_kernel_def idle_kernel_def blank_device_def)
  then obtain p d where "pool_alloc prompt_kernel blank_device 600 = (p, d)" "p \<noteq> 0" by (metis prod.collapse)
  then obtain s mp' dev' where e: "?new = (STATUS_SUCCESS, Some s, mp', dev')"
    using fmt by (simp add: NewStream_def)
  have f: "flight split_inflight blank_device VIRTIO_SND_VQ_TX = {#}"
    using ring2_inv [where 'o = opaque] by (simp add: flight_def blank_device_def)
  have "m_StreamId s = mp_StreamId render_miniport \<and> render_ok split_inv split_inflight (insert (m_This s) {}) (1, s)"
    using created_stream_safe [OF prompt_kernel_ok plain_wave_ok blank_inv blank_rest f _ e stream_reachable.start]
    by simp
  then show ?thesis using e by (intro exI [of _ STATUS_SUCCESS] exI [of _ s] exI [of _ mp'] exI [of _ dev']) simp
qed

section \<open>From the first register access to a running stream\<close>

lemma created_after_bring_up:
  assumes "kernel_ok K" "steady K" "no_client c" "sound_ok c (vdev_sys vd)" "vdev_vqs vd = Map.empty"
    "virtio_device_initialize (ViosndSystemOps K Z) False vd = Some (st1, vd1)"
    "NT_SUCCESS st1 \<longrightarrow> vdev_device vd1 = Some Modern"
    "ViosndInitVirtio K Z vd = Some (status, vd')" "NT_SUCCESS status" "\<not> mp_Capture mp"
    "NewStream K S n faulted pin capture f mp (vdev_sys vd') = (st2, Some s, mp', dev')"
  shows "render_ok split_inv split_inflight {m_This s} (1, s)"
proof -
  have "brought_up c (ring_pages (vdev_sys vd)) (own_blocks (vdev_sys vd)) vd'"
    using InitVirtio_ok [OF assms(1-8)] assms(9) by simp
  note up = brought_up_sound [OF assms(3) this]
  have "allocators_ok K" using assms(1) by (simp add: kernel_ok_def)
  then show ?thesis by (rule created_stream_ok [OF _ up(1,2) up(3) [rule_format] assms(10,11)])
qed


definition card_wave :: "u32 wave_kernel" where
  "card_wave = \<lparr>KeQueryPerformanceCounter = (\<lambda>e. (1, 10000000, e)), PsCreateSystemThread = (\<lambda>e. (STATUS_SUCCESS, e)),
     ObReferenceObjectByHandle = (\<lambda>e. (STATUS_SUCCESS, 1, e)), worker_exits = (\<lambda>e. (True, e)),
     MmAllocatePagesForMdlEx = (\<lambda>e n. (4096, n, e)), MmGetSystemAddressForMdlSafe = (\<lambda>e. (True, e))\<rparr>"

lemma card_wave_ok: "threads_ok card_wave" "tx_granted card_kernel"
  by (simp_all add: threads_ok_def tx_granted_def card_wave_def card_kernel_def idle_kernel_def)

lemma card_stream:
  assumes "roomy k dev" "k < 900"
  shows "\<exists>s mp' dev'. NewStream card_kernel usual_sizes 600 False 0 False (Some (ViosndBuildDefaultFormat usual_sizes)) render_miniport dev
    = (STATUS_SUCCESS, Some s, mp', dev')"
proof -
  obtain p where p: "pool_alloc card_kernel dev 600 = (p, dev\<lparr>pool := p # pool dev\<rparr>)" "p \<noteq> 0"
    using roomy_pool [OF assms(1), of 600] assms(2) by auto
  have "ViosndIsDefaultFormat usual_sizes (Some (ViosndBuildDefaultFormat usual_sizes))" by (rule default_format_accepted) simp
  then show ?thesis using p by (simp add: NewStream_def)
qed


end
